(* ===== verification/Go_Prelude.thy ===== *)
theory Go_Prelude
  imports Main "HOL-Library.Char_ord" "HOL-Library.List_Lexorder"
    "HOL-Library.Product_Lexorder" "HOL-Library.Word" "HOL-Library.Multiset"
begin

text \<open>
  What every component of the BYOS model shares: the fragments of Go and of its standard
  library that the program uses (strings and their trimming, time and durations), the
  state-and-error monad in which effectful code is written, rules for invariants and frame
  conditions of monadic code, and generic lemmas on lists used as SQL tables.

  The collections: \<open>monad_simps\<close> evaluates monadic code, \<open>returns_simps\<close> inverts runs that
  returned a value, \<open>keeps_intros\<close> derives
  relational frame conditions, \<open>table_simps\<close> are the laws of keyed row lists.
\<close>

named_theorems monad_simps \<open>evaluation of monadic code\<close>
named_theorems returns_simps \<open>what a run that returned a value did\<close>
named_theorems keeps_intros \<open>rules for relations kept by monadic code\<close>
named_theorems table_simps \<open>laws of keyed row lists\<close>


section \<open>Time and durations\<close>

text \<open>
  A \<open>time.Time\<close> is the number of nanoseconds since the Unix epoch, a \<open>time.Duration\<close> a
  number of nanoseconds. \<open>Time.Unix\<close> rounds towards minus infinity; \<open>Time.Sub\<close>
  saturates at the range of a 64-bit duration.
\<close>

type_synonym time = int
type_synonym duration = int

definition nanosecond :: duration where "nanosecond = 1"
definition second :: duration where "second = 1000000000"
definition minute :: duration where "minute = 60 * second"
definition hour :: duration where "hour = 60 * minute"

lemmas duration_defs = hour_def minute_def second_def nanosecond_def

text \<open>Go's integer division truncates towards zero.\<close>

definition go_quot :: "int \<Rightarrow> int \<Rightarrow> int" where
  "go_quot a b = sgn a * sgn b * (\<bar>a\<bar> div \<bar>b\<bar>)"

definition unix :: "time \<Rightarrow> int" where
  "unix t = t div second"

definition from_unix :: "int \<Rightarrow> time" where
  "from_unix s = s * second"

definition zero_time :: time where
  "zero_time = from_unix (-62135596800)"

definition time_after :: "time \<Rightarrow> time \<Rightarrow> bool" where
  "time_after a b \<longleftrightarrow> b < a"

definition time_before :: "time \<Rightarrow> time \<Rightarrow> bool" where
  "time_before a b \<longleftrightarrow> a < b"

definition time_is_zero :: "time \<Rightarrow> bool" where
  "time_is_zero t \<longleftrightarrow> t = zero_time"

definition min_duration :: duration where "min_duration = - (2 ^ 63)"
definition max_duration :: duration where "max_duration = 2 ^ 63 - 1"

definition time_sub :: "time \<Rightarrow> time \<Rightarrow> duration" where
  "time_sub a b = max min_duration (min max_duration (a - b))"

lemma second_pos [simp]: "0 < second"
  by (simp add: second_def)

lemma unix_from_unix [simp]: "unix (from_unix s) = s"
  by (simp add: unix_def from_unix_def second_def)

lemma from_unix_unix_le: "from_unix (unix t) \<le> t"
  by (simp add: unix_def from_unix_def second_def)

lemma from_unix_less_iff [simp]: "from_unix a < from_unix b \<longleftrightarrow> a < b"
  by (simp add: from_unix_def second_def)

lemma from_unix_le_iff [simp]: "from_unix a \<le> from_unix b \<longleftrightarrow> a \<le> b"
  by (simp add: from_unix_def second_def)

lemma unix_mono: "a \<le> b \<Longrightarrow> unix a \<le> unix b"
  by (simp add: unix_def second_def zdiv_mono1)

lemma unix_add_seconds: "unix (t + k * second) = unix t + k"
  by (simp add: unix_def second_def)

text \<open>A whole-second instant comes before \<open>t\<close> exactly when its second is at most
  \<open>t\<close>'s second: the comparison SQL makes on stored seconds.\<close>

lemma from_unix_le_unix: "from_unix s \<le> t \<longleftrightarrow> s \<le> unix t"
  by (simp add: from_unix_def unix_def second_def) linarith


section \<open>Strings\<close>

fun hasPrefix :: "string \<Rightarrow> string \<Rightarrow> bool" where
  "hasPrefix xs [] = True"
| "hasPrefix [] (y # ys) = False"
| "hasPrefix (x # xs) (y # ys) = (x = y \<and> hasPrefix xs ys)"

lemma hasPrefix_iff: "hasPrefix xs ys \<longleftrightarrow> (\<exists>zs. xs = ys @ zs)"
  by (induction xs ys rule: hasPrefix.induct) auto

lemma hasPrefix_append [simp]: "hasPrefix (ys @ zs) ys"
  by (auto simp: hasPrefix_iff)

definition trimPrefix :: "string \<Rightarrow> string \<Rightarrow> string" where
  "trimPrefix xs p = (if hasPrefix xs p then drop (length p) xs else xs)"

text \<open>
  The UTF-8 encodings of the code points that \<open>unicode.IsSpace\<close> accepts;
  \<open>strings.TrimSpace\<close> removes them from both ends.
\<close>

definition space_seqs :: "string list" where
  "space_seqs =
     [[CHR 0x09], [CHR 0x0A], [CHR 0x0B], [CHR 0x0C], [CHR 0x0D], [CHR 0x20],
      [CHR 0xC2, CHR 0x85], [CHR 0xC2, CHR 0xA0], [CHR 0xE1, CHR 0x9A, CHR 0x80],
      [CHR 0xE2, CHR 0x80, CHR 0x80], [CHR 0xE2, CHR 0x80, CHR 0x81],
      [CHR 0xE2, CHR 0x80, CHR 0x82], [CHR 0xE2, CHR 0x80, CHR 0x83],
      [CHR 0xE2, CHR 0x80, CHR 0x84], [CHR 0xE2, CHR 0x80, CHR 0x85],
      [CHR 0xE2, CHR 0x80, CHR 0x86], [CHR 0xE2, CHR 0x80, CHR 0x87],
      [CHR 0xE2, CHR 0x80, CHR 0x88], [CHR 0xE2, CHR 0x80, CHR 0x89],
      [CHR 0xE2, CHR 0x80, CHR 0x8A], [CHR 0xE2, CHR 0x80, CHR 0xA8],
      [CHR 0xE2, CHR 0x80, CHR 0xA9], [CHR 0xE2, CHR 0x80, CHR 0xAF],
      [CHR 0xE2, CHR 0x81, CHR 0x9F], [CHR 0xE3, CHR 0x80, CHR 0x80]]"

definition leading :: "string list \<Rightarrow> string \<Rightarrow> string option" where
  "leading seqs xs = find (hasPrefix xs) (filter (\<lambda>p. p \<noteq> []) seqs)"

lemma leading_Some:
  assumes "leading seqs xs = Some p"
  shows "p \<in> set seqs" "p \<noteq> []" "\<exists>zs. xs = p @ zs"
  using assms by (auto simp: leading_def find_Some_iff hasPrefix_iff in_set_conv_nth dest: nth_mem)

lemma leading_shrinks: "leading seqs xs = Some p \<Longrightarrow> length xs - length p < length xs"
  using leading_Some(2,3) [of seqs xs p] by auto

function strip_leading :: "string list \<Rightarrow> string \<Rightarrow> string" where
  "strip_leading seqs xs =
     (case leading seqs xs of None \<Rightarrow> xs | Some p \<Rightarrow> strip_leading seqs (drop (length p) xs))"
  by pat_completeness auto
termination
  by (relation "measure (\<lambda>(seqs, xs). length xs)") (auto simp: leading_shrinks)

declare strip_leading.simps [simp del]

lemma strip_leading_None: "leading seqs xs = None \<Longrightarrow> strip_leading seqs xs = xs"
  by (simp add: strip_leading.simps)

lemma strip_leading_fixed: "leading seqs (strip_leading seqs xs) = None"
  by (induction seqs xs rule: strip_leading.induct)
     (subst strip_leading.simps, auto split: option.splits)

lemma strip_leading_suffix: "\<exists>zs. xs = zs @ strip_leading seqs xs"
proof (induction seqs xs rule: strip_leading.induct)
  case (1 seqs xs)
  show ?case
  proof (cases "leading seqs xs")
    case None
    then show ?thesis by (simp add: strip_leading_None)
  next
    case (Some p)
    with leading_Some(3) obtain rest where xs: "xs = p @ rest" by blast
    from "1" [OF Some] obtain zs where "rest = zs @ strip_leading seqs rest"
      by (auto simp: xs)
    moreover from Some xs have "strip_leading seqs xs = strip_leading seqs rest"
      by (simp add: strip_leading.simps [of seqs "p @ rest"])
    ultimately have "xs = (p @ zs) @ strip_leading seqs xs" by (simp add: xs)
    then show ?thesis by blast
  qed
qed

definition trimSpace :: "string \<Rightarrow> string" where
  "trimSpace s =
     rev (strip_leading (map rev space_seqs) (rev (strip_leading space_seqs s)))"

lemma trimSpace_Nil [simp]: "trimSpace [] = []"
  by (simp add: trimSpace_def strip_leading_None leading_def space_seqs_def)

lemma strip_leading_id_iff: "strip_leading seqs xs = xs \<longleftrightarrow> leading seqs xs = None"
  using strip_leading_None strip_leading_fixed by metis

lemma leading_mono: "leading seqs (xs @ ys) = None \<Longrightarrow> leading seqs xs = None"
  by (auto simp: leading_def find_None_iff hasPrefix_iff)

lemma trimSpace_length: "length (trimSpace s) \<le> length s"
proof -
  obtain a where a: "s = a @ strip_leading space_seqs s"
    using strip_leading_suffix by blast
  obtain b where b: "rev (strip_leading space_seqs s) = b @ rev (trimSpace s)"
    using strip_leading_suffix [of "rev (strip_leading space_seqs s)" "map rev space_seqs"]
    by (auto simp: trimSpace_def)
  from arg_cong [OF a, of length] arg_cong [OF b, of length] show ?thesis by simp
qed

text \<open>\<open>TrimSpace\<close> is idempotent: what the \<^emph>\<open>nonblank and unpadded\<close> tests rely on.\<close>

lemma trimSpace_idem [simp]: "trimSpace (trimSpace s) = trimSpace s"
proof -
  let ?l = "strip_leading space_seqs s" and ?r = "map rev space_seqs"
  obtain b where b: "rev ?l = b @ strip_leading ?r (rev ?l)"
    using strip_leading_suffix by blast
  have "leading space_seqs (trimSpace s @ rev b) = None"
    using strip_leading_fixed [of space_seqs s] arg_cong [OF b, of rev]
    by (simp add: trimSpace_def)
  then have "leading space_seqs (trimSpace s) = None" by (rule leading_mono)
  moreover have "leading ?r (rev (trimSpace s)) = None"
    by (simp add: trimSpace_def strip_leading_fixed)
  ultimately show ?thesis
    by (simp add: trimSpace_def [of "trimSpace s"] strip_leading_None)
qed


section \<open>Results and the state-and-error monad\<close>

text \<open>
  A Go function that returns \<open>(T, error)\<close> yields \<open>Inl e\<close> for an error and \<open>Inr v\<close> for a
  value. Effectful code maps a state to such a result and the new state.
\<close>

type_synonym ('s, 'e, 'a) op = "'s \<Rightarrow> ('e + 'a) \<times> 's"

definition ret :: "'a \<Rightarrow> ('s, 'e, 'a) op" where
  "ret x s = (Inr x, s)"

definition raise :: "'e \<Rightarrow> ('s, 'e, 'a) op" where
  "raise e s = (Inl e, s)"

definition andThen :: "('s, 'e, 'a) op \<Rightarrow> ('a \<Rightarrow> ('s, 'e, 'b) op) \<Rightarrow> ('s, 'e, 'b) op" where
  "andThen m f s = (case m s of (Inl e, s') \<Rightarrow> (Inl e, s') | (Inr x, s') \<Rightarrow> f x s')"

text \<open>\<open>v, err := m()\<close>: run \<open>m\<close> and hand its result, error or value, to the rest.\<close>

definition attempt :: "('s, 'e, 'a) op \<Rightarrow> ('e + 'a \<Rightarrow> ('s, 'e, 'b) op) \<Rightarrow> ('s, 'e, 'b) op" where
  "attempt m f s = (case m s of (r, s') \<Rightarrow> f r s')"

text \<open>A guard: return the error when the condition holds.\<close>

definition reject :: "bool \<Rightarrow> 'e \<Rightarrow> ('s, 'e, 'b) op \<Rightarrow> ('s, 'e, 'b) op" where
  "reject b e m = (if b then raise e else m)"

definition getState :: "('s \<Rightarrow> 'a) \<Rightarrow> ('s, 'e, 'a) op" where
  "getState f s = (Inr (f s), s)"

definition putState :: "('s \<Rightarrow> 's) \<Rightarrow> ('s, 'e, unit) op" where
  "putState f s = (Inr (), f s)"

lemma ret_run [monad_simps]: "ret x s = (Inr x, s)"
  by (simp add: ret_def)

lemma raise_run [monad_simps]: "raise e s = (Inl e, s)"
  by (simp add: raise_def)

lemma andThen_run [monad_simps]:
  "andThen m f s = (case m s of (Inl e, s') \<Rightarrow> (Inl e, s') | (Inr x, s') \<Rightarrow> f x s')"
  by (simp add: andThen_def)

lemma attempt_run [monad_simps]: "attempt m f s = (case m s of (r, s') \<Rightarrow> f r s')"
  by (simp add: attempt_def)

lemma reject_run [monad_simps]: "reject b e m s = (if b then (Inl e, s) else m s)"
  by (simp add: reject_def raise_def)

lemma getState_run [monad_simps]: "getState f s = (Inr (f s), s)"
  by (simp add: getState_def)

lemma putState_run [monad_simps]: "putState f s = (Inr (), f s)"
  by (simp add: putState_def)


lemma andThen_returns [returns_simps]:
  "andThen m f s = (Inr y, s') \<longleftrightarrow> (\<exists>x s1. m s = (Inr x, s1) \<and> f x s1 = (Inr y, s'))"
  by (auto simp: andThen_def split: prod.splits sum.splits)

lemma reject_returns [returns_simps]: "reject b e m s = (Inr y, s') \<longleftrightarrow> \<not> b \<and> m s = (Inr y, s')"
  by (simp add: reject_def raise_def)

lemma ret_returns [returns_simps]: "ret x s = (Inr y, s') \<longleftrightarrow> y = x \<and> s' = s"
  by (auto simp: ret_def)

lemma raise_returns [returns_simps]: "raise e s \<noteq> (Inr y, s')"
  by (simp add: raise_def)


text \<open>The same for pure code: \<open>v, err := r; if err != nil { return err }\<close>.\<close>

definition orFail :: "'e + 'a \<Rightarrow> ('a \<Rightarrow> 'e + 'b) \<Rightarrow> 'e + 'b" where
  "orFail r f = (case r of Inl e \<Rightarrow> Inl e | Inr x \<Rightarrow> f x)"

lemma orFail_simps [simp]: "orFail (Inl e) f = Inl e" "orFail (Inr x) f = f x"
  by (simp_all add: orFail_def)

lemma orFail_returns [returns_simps]: "orFail r f = Inr y \<longleftrightarrow> (\<exists>x. r = Inr x \<and> f x = Inr y)"
  by (cases r) auto

subsection \<open>Relations kept by monadic code\<close>

text \<open>
  \<open>keeps R m\<close>: the state after \<open>m\<close>, whatever its result, is related by \<open>R\<close> to the state
  before. With an equality of a projection it is a frame condition, with an implication an
  invariant.
\<close>

definition keeps :: "('s \<Rightarrow> 's \<Rightarrow> bool) \<Rightarrow> ('s, 'e, 'a) op \<Rightarrow> bool" where
  "keeps R m \<longleftrightarrow> (\<forall>s. R s (snd (m s)))"

lemma keepsD: "keeps R m \<Longrightarrow> R s (snd (m s))"
  by (simp add: keeps_def)

lemma keepsD': "keeps R m \<Longrightarrow> m s = (r, s') \<Longrightarrow> R s s'"
  by (metis keepsD snd_conv)

lemma keeps_ret [keeps_intros]: "reflp R \<Longrightarrow> keeps R (ret x)"
  by (auto simp: keeps_def ret_def reflp_def)

lemma keeps_raise [keeps_intros]: "reflp R \<Longrightarrow> keeps R (raise e)"
  by (auto simp: keeps_def raise_def reflp_def)

lemma keeps_getState [keeps_intros]: "reflp R \<Longrightarrow> keeps R (getState f)"
  by (auto simp: keeps_def getState_def reflp_def)

lemma keeps_andThen [keeps_intros]:
  assumes "transp R" "keeps R m" "\<And>x. keeps R (f x)"
  shows "keeps R (andThen m f)"
  unfolding keeps_def
proof
  fix s
  show "R s (snd (andThen m f s))"
  proof (cases "m s")
    case (Pair r s')
    from keepsD' [OF assms(2) Pair] have "R s s'" .
    with Pair keepsD [OF assms(3)] transpD [OF assms(1)] show ?thesis
      by (cases r) (auto simp: andThen_def)
  qed
qed

lemma keeps_attempt [keeps_intros]:
  assumes "transp R" "keeps R m" "\<And>x. keeps R (f x)"
  shows "keeps R (attempt m f)"
  unfolding keeps_def
proof
  fix s
  show "R s (snd (attempt m f s))"
  proof (cases "m s")
    case (Pair r s')
    from keepsD' [OF assms(2) Pair] have "R s s'" .
    with Pair keepsD [OF assms(3)] transpD [OF assms(1)] show ?thesis
      by (auto simp: attempt_def)
  qed
qed

lemma keeps_reject [keeps_intros]: "reflp R \<Longrightarrow> keeps R m \<Longrightarrow> keeps R (reject b e m)"
  by (auto simp: keeps_def reject_def raise_def reflp_def)

lemma keeps_if [keeps_intros]: "keeps R m \<Longrightarrow> keeps R n \<Longrightarrow> keeps R (if b then m else n)"
  by simp

lemma keeps_case_sum [keeps_intros]:
  "(\<And>e. keeps R (f e)) \<Longrightarrow> (\<And>x. keeps R (g x)) \<Longrightarrow>
   keeps R (case r of Inl e \<Rightarrow> f e | Inr x \<Rightarrow> g x)"
  by (cases r) auto

lemma keeps_case_option [keeps_intros]:
  "keeps R f \<Longrightarrow> (\<And>x. keeps R (g x)) \<Longrightarrow> keeps R (case r of None \<Rightarrow> f | Some x \<Rightarrow> g x)"
  by (cases r) auto

lemma keeps_case_prod [keeps_intros]:
  "(\<And>a b. keeps R (f a b)) \<Longrightarrow> keeps R (case p of (a, b) \<Rightarrow> f a b)"
  by (cases p) auto

lemma keeps_Let [keeps_intros]: "keeps R (f x) \<Longrightarrow> keeps R (Let x f)"
  by simp

text \<open>Variants that remember what has been established: the value that was returned, and the
  guard that was passed.\<close>

lemma keeps_andThen_Inr:
  assumes "transp R" "keeps R m" "\<And>x s s'. m s = (Inr x, s') \<Longrightarrow> keeps R (f x)"
  shows "keeps R (andThen m f)"
  unfolding keeps_def
proof
  fix s
  show "R s (snd (andThen m f s))"
  proof (cases "m s")
    case (Pair r s')
    from keepsD' [OF assms(2) Pair] have "R s s'" .
    with Pair keepsD [OF assms(3)] transpD [OF assms(1)] show ?thesis
      by (cases r) (auto simp: andThen_def)
  qed
qed

lemma keeps_reject_unless: "reflp R \<Longrightarrow> (\<not> b \<Longrightarrow> keeps R m) \<Longrightarrow> keeps R (reject b e m)"
  by (auto simp: keeps_def reject_def raise_def reflp_def)

lemma keeps_mono: "keeps R m \<Longrightarrow> (\<And>s t. R s t \<Longrightarrow> Q s t) \<Longrightarrow> keeps Q m"
  by (auto simp: keeps_def)

text \<open>The two relations in use: equality of a projection and preservation of a predicate.\<close>

definition same :: "('s \<Rightarrow> 'a) \<Rightarrow> 's \<Rightarrow> 's \<Rightarrow> bool" where
  "same f s t \<longleftrightarrow> f t = f s"

definition stable :: "('s \<Rightarrow> bool) \<Rightarrow> 's \<Rightarrow> 's \<Rightarrow> bool" where
  "stable I s t \<longleftrightarrow> (I s \<longrightarrow> I t)"

lemma same_reflp [keeps_intros]: "reflp (same f)"
  by (simp add: reflp_def same_def)

lemma same_transp [keeps_intros]: "transp (same f)"
  by (simp add: transp_def same_def)

lemma stable_reflp [keeps_intros]: "reflp (stable I)"
  by (simp add: reflp_def stable_def)

lemma stable_transp [keeps_intros]: "transp (stable I)"
  by (auto simp: transp_def stable_def)


section \<open>Rows of a table\<close>

text \<open>
  A SQL table is the list of its rows in row-id order. \<open>row_get key k\<close> is a lookup by a
  unique column, \<open>row_update key k f\<close> an \<open>UPDATE ... WHERE key=?\<close>, \<open>row_put key r f\<close> an
  \<open>INSERT ... ON CONFLICT(key) DO UPDATE\<close>.
\<close>

definition row_get :: "('r \<Rightarrow> 'k) \<Rightarrow> 'k \<Rightarrow> 'r list \<Rightarrow> 'r option" where
  "row_get key k rows = find (\<lambda>r. key r = k) rows"

definition row_update :: "('r \<Rightarrow> 'k) \<Rightarrow> 'k \<Rightarrow> ('r \<Rightarrow> 'r) \<Rightarrow> 'r list \<Rightarrow> 'r list" where
  "row_update key k f rows = map (\<lambda>r. if key r = k then f r else r) rows"

definition row_put :: "('r \<Rightarrow> 'k) \<Rightarrow> 'r \<Rightarrow> ('r \<Rightarrow> 'r) \<Rightarrow> 'r list \<Rightarrow> 'r list" where
  "row_put key r f rows =
     (if row_get key (key r) rows = None then rows @ [r] else row_update key (key r) f rows)"

definition row_delete :: "('r \<Rightarrow> 'k) \<Rightarrow> 'k \<Rightarrow> 'r list \<Rightarrow> 'r list" where
  "row_delete key k rows = filter (\<lambda>r. key r \<noteq> k) rows"

text \<open>\<open>DELETE ... WHERE rowid IN (SELECT rowid ... WHERE P LIMIT n)\<close>.\<close>

fun delete_limit :: "nat \<Rightarrow> ('r \<Rightarrow> bool) \<Rightarrow> 'r list \<Rightarrow> 'r list" where
  "delete_limit n P [] = []"
| "delete_limit 0 P rows = rows"
| "delete_limit (Suc n) P (r # rows) =
     (if P r then delete_limit n P rows else r # delete_limit (Suc n) P rows)"

definition unique_rows :: "('r \<Rightarrow> 'k) \<Rightarrow> 'r list \<Rightarrow> bool" where
  "unique_rows key rows \<longleftrightarrow> distinct (map key rows)"

lemma row_get_Nil [table_simps]: "row_get key k [] = None"
  by (simp add: row_get_def)

lemma row_get_Cons [table_simps]:
  "row_get key k (r # rows) = (if key r = k then Some r else row_get key k rows)"
  by (simp add: row_get_def)

lemma row_get_None_iff: "row_get key k rows = None \<longleftrightarrow> k \<notin> key ` set rows"
  by (auto simp: row_get_def find_None_iff)

lemma row_get_SomeD: "row_get key k rows = Some r \<Longrightarrow> r \<in> set rows \<and> key r = k"
  by (auto simp: row_get_def find_Some_iff)

lemma row_get_mem:
  "unique_rows key rows \<Longrightarrow> r \<in> set rows \<Longrightarrow> row_get key (key r) rows = Some r"
  by (induction rows) (auto simp: unique_rows_def table_simps)

lemma row_get_append [table_simps]:
  "row_get key k (rows @ more) =
     (case row_get key k rows of None \<Rightarrow> row_get key k more | Some r \<Rightarrow> Some r)"
  by (induction rows) (auto simp: table_simps)

lemma row_get_update [table_simps]:
  assumes "\<And>r. key r = k \<Longrightarrow> key (f r) = k"
  shows "row_get key k' (row_update key k f rows) =
     (if k' = k then map_option f (row_get key k rows) else row_get key k' rows)"
  using assms by (induction rows) (auto simp: table_simps row_update_def)

lemma row_get_put [table_simps]:
  assumes "\<And>q. key q = key r \<Longrightarrow> key (f q) = key r"
  shows "row_get key k (row_put key r f rows) =
     (if k = key r then (case row_get key k rows of None \<Rightarrow> Some r | Some q \<Rightarrow> Some (f q))
      else row_get key k rows)"
  using assms
  by (auto simp: row_put_def row_get_update row_get_append row_get_Nil row_get_Cons
      split: option.splits)

lemma row_get_delete [table_simps]:
  "row_get key k' (row_delete key k rows) = (if k' = k then None else row_get key k' rows)"
  by (induction rows) (auto simp: table_simps row_delete_def)

lemma set_row_update:
  "set (row_update key k f rows) = {if key r = k then f r else r | r. r \<in> set rows}"
  by (auto simp: row_update_def)

lemma row_update_none: "k \<notin> key ` set rows \<Longrightarrow> row_update key k f rows = rows"
  by (induction rows) (auto simp: row_update_def)

lemma set_row_delete: "set (row_delete key k rows) = {r \<in> set rows. key r \<noteq> k}"
  by (auto simp: row_delete_def)

lemma set_delete_limit: "set (delete_limit n P rows) \<subseteq> set rows"
  by (induction n P rows rule: delete_limit.induct) auto

lemma delete_limit_keeps: "r \<in> set rows \<Longrightarrow> \<not> P r \<Longrightarrow> r \<in> set (delete_limit n P rows)"
  by (induction n P rows rule: delete_limit.induct) auto

lemma length_delete_limit:
  "length rows - length (delete_limit n P rows) = min n (length (filter P rows))"
proof (induction n P rows rule: delete_limit.induct)
  case (3 n P r rows)
  have "length (delete_limit m P rows) \<le> length rows" for m
    by (induction m P rows rule: delete_limit.induct) auto
  with "3" show ?case by (auto simp: Suc_diff_le)
qed simp_all

lemma delete_limit_subseq: "distinct (map key rows) \<Longrightarrow> distinct (map key (delete_limit n P rows))"
proof (induction n P rows rule: delete_limit.induct)
  case (3 n P r rows)
  then show ?case using set_delete_limit [of "Suc n" P rows] by auto
qed simp_all

lemma unique_rows_update [table_simps]:
  "(\<And>r. key r = k \<Longrightarrow> key (f r) = k) \<Longrightarrow> unique_rows key rows \<Longrightarrow> unique_rows key (row_update key k f rows)"
proof -
  assume "\<And>r. key r = k \<Longrightarrow> key (f r) = k" and u: "unique_rows key rows"
  then have "map key (row_update key k f rows) = map key rows"
    by (simp add: row_update_def)
  with u show ?thesis by (simp only: unique_rows_def)
qed

lemma unique_rows_put [table_simps]:
  "(\<And>q. key q = key r \<Longrightarrow> key (f q) = key r) \<Longrightarrow> unique_rows key rows \<Longrightarrow> unique_rows key (row_put key r f rows)"
  by (auto simp: row_put_def unique_rows_update row_get_None_iff)
     (auto simp: unique_rows_def)

lemma unique_rows_delete [table_simps]:
  "unique_rows key rows \<Longrightarrow> unique_rows key (row_delete key k rows)"
  by (auto simp: unique_rows_def row_delete_def distinct_map_filter)

lemma unique_rows_delete_limit [table_simps]:
  "unique_rows key rows \<Longrightarrow> unique_rows key (delete_limit n P rows)"
  by (simp add: unique_rows_def delete_limit_subseq)

lemma set_row_put:
  "r' \<in> set (row_put key r f rows) \<Longrightarrow> r' = r \<or> r' \<in> set rows \<or> (\<exists>q \<in> set rows. r' = f q)"
  by (auto simp: row_put_def row_update_def split: if_splits)

end
