(* ===== verification/Json.thy ===== *)
theory Json
  imports Go_Prelude
begin

text \<open>
  The values that \<open>encoding/json\<close> decodes into \<open>any\<close>: \<open>nil\<close>, \<open>bool\<close>, \<open>json.Number\<close>
  (its literal text), \<open>string\<close>, \<open>[]any\<close> and \<open>map[string]any\<close>. A Go map is kept as an
  association list; \<open>jget\<close> is the indexing \<open>m[k]\<close> with its \<open>ok\<close> flag, \<open>jset\<close> the
  assignment, \<open>jdel\<close> the builtin \<open>delete\<close>.
\<close>

datatype json =
    JNull
  | JBool bool
  | JNum string
  | JStr string
  | JArr "json list"
  | JObj "(string \<times> json) list"

type_synonym jobject = "(string \<times> json) list"

definition jget :: "jobject \<Rightarrow> string \<Rightarrow> json option" where
  "jget m k = map_of m k"

fun jset :: "jobject \<Rightarrow> string \<Rightarrow> json \<Rightarrow> jobject" where
  "jset [] k v = [(k, v)]"
| "jset ((k', v') # m) k v = (if k' = k then (k, v) # m else (k', v') # jset m k v)"

definition jdel :: "jobject \<Rightarrow> string \<Rightarrow> jobject" where
  "jdel m k = filter (\<lambda>(k', _). k' \<noteq> k) m"

text \<open>\<open>s, _ := v.(string)\<close>: the string, or the zero value.\<close>

definition str_or_empty :: "json option \<Rightarrow> string" where
  "str_or_empty v = (case v of Some (JStr s) \<Rightarrow> s | _ \<Rightarrow> [])"

lemma jget_jset [simp]: "jget (jset m k v) k' = (if k' = k then Some v else jget m k')"
  by (induction m k v rule: jset.induct) (auto simp: jget_def)

lemma jget_jdel [simp]: "jget (jdel m k) k' = (if k' = k then None else jget m k')"
  by (induction m) (auto simp: jget_def jdel_def)

lemma jset_same: "jget m k = Some v \<Longrightarrow> jset m k v = m"
  by (induction m k v rule: jset.induct) (auto simp: jget_def split: if_splits)

lemma keys_jset: "fst ` set (jset m k v) = insert k (fst ` set m)"
  by (induction m k v rule: jset.induct) auto

lemma distinct_jset: "distinct (map fst m) \<Longrightarrow> distinct (map fst (jset m k v))"
proof (induction m k v rule: jset.induct)
  case (2 k' v' m k v)
  then show ?case by (auto simp: keys_jset image_iff)
qed simp

end
