(* ===== verification/Provider_Types.thy ===== *)
theory Provider_Types
  imports Json
begin

text \<open>
  The provider-neutral contracts of \<open>internal/provider/provider.go\<close>: provider kinds, model
  identities, generation events and requests, error classifications, and the error values of
  the whole program with \<open>errors.Is\<close> and \<open>errors.As\<close>. The interfaces of a provider (request
  policy, generation client, credential manager) are records of operations over a world
  type \<open>'w\<close>; an absent (nil) interface is \<open>None\<close>.
\<close>


section \<open>Provider kinds\<close>

type_synonym kind = string

definition XAI :: kind where "XAI = ''xai''"
definition Devin :: kind where "Devin = ''devin''"

definition kind_Valid :: "kind \<Rightarrow> bool" where
  "kind_Valid k \<longleftrightarrow> k = XAI \<or> k = Devin"

lemma kind_valid_simps [simp]: "kind_Valid XAI" "kind_Valid Devin" "XAI \<noteq> Devin" "\<not> kind_Valid []"
  by (simp_all add: kind_Valid_def XAI_def Devin_def)


section \<open>Error classification\<close>

type_synonym error_class = string

definition ClassValidation :: error_class where "ClassValidation = ''validation''"
definition ClassUnauthorized :: error_class where "ClassUnauthorized = ''unauthorized''"
definition ClassInvalidGrant :: error_class where "ClassInvalidGrant = ''invalid_grant''"
definition ClassPermission :: error_class where "ClassPermission = ''permission''"
definition ClassFreeUsageExhausted :: error_class where
  "ClassFreeUsageExhausted = ''free_usage_exhausted''"
definition ClassRateLimit :: error_class where "ClassRateLimit = ''rate_limit''"
definition ClassTransient :: error_class where "ClassTransient = ''transient''"
definition ClassConnection :: error_class where "ClassConnection = ''connection''"
definition ClassCancelled :: error_class where "ClassCancelled = ''cancelled''"
definition ClassUpstream :: error_class where "ClassUpstream = ''upstream''"

lemmas class_defs = ClassValidation_def ClassUnauthorized_def ClassInvalidGrant_def
  ClassPermission_def ClassFreeUsageExhausted_def ClassRateLimit_def ClassTransient_def
  ClassConnection_def ClassCancelled_def ClassUpstream_def

type_synonym cooldown_scope = string

definition CooldownNone :: cooldown_scope where "CooldownNone = []"
definition CooldownModel :: cooldown_scope where "CooldownModel = ''model''"
definition CooldownAccount :: cooldown_scope where "CooldownAccount = ''account''"

lemmas scope_defs = CooldownNone_def CooldownModel_def CooldownAccount_def

record error_classification =
  ec_Class :: error_class
  ec_RetryNext :: bool
  ec_RefreshSame :: bool
  ec_DisableAccount :: bool
  ec_ReloginRequired :: bool
  ec_ExplicitRetryAfter :: bool
  ec_CooldownScope :: cooldown_scope
  ec_Cooldown :: duration
  ec_RetryAfter :: time
  ec_PublicStatus :: int
  ec_PublicCode :: string
  ec_PublicMessage :: string

text \<open>The zero value \<open>ErrorClassification{}\<close>.\<close>

definition empty_classification :: error_classification where
  "empty_classification =
     \<lparr>ec_Class = [], ec_RetryNext = False, ec_RefreshSame = False, ec_DisableAccount = False,
      ec_ReloginRequired = False, ec_ExplicitRetryAfter = False, ec_CooldownScope = CooldownNone,
      ec_Cooldown = 0, ec_RetryAfter = zero_time, ec_PublicStatus = 0, ec_PublicCode = [],
      ec_PublicMessage = []\<rparr>"

record upstream_error =
  ue_Provider :: kind
  ue_Status :: int
  ue_Classification :: error_classification


section \<open>Error values\<close>

text \<open>
  A package-level sentinel is compared by identity, here by its message; \<open>ErrNew\<close> is an
  error made on the spot, which matches no sentinel; \<open>Wrapf\<close> is \<open>fmt.Errorf\<close> with
  its \<open>%w\<close> operands, or \<open>errors.Join\<close>; \<open>NetE\<close> is any error that implements
  \<open>net.Error\<close>; \<open>HTTPStatusE\<close> is Devin's \<open>HTTPStatusError\<close>.
\<close>

datatype go_error =
    ErrNew string
  | Sentinel string
  | Wrapf string "go_error list"
  | UpstreamE upstream_error
  | ExecutionE error_classification
  | NetE string
  | HTTPStatusE int

fun errors_is :: "go_error \<Rightarrow> go_error \<Rightarrow> bool" where
  "errors_is e target =
     (e = target \<or> (case e of Wrapf _ es \<Rightarrow> list_ex (\<lambda>x. errors_is x target) es | _ \<Rightarrow> False))"

declare errors_is.simps [simp del]

lemma errors_is_refl [simp]: "errors_is e e"
  by (simp add: errors_is.simps)

lemma errors_is_simps [simp]:
  "errors_is (ErrNew m) t \<longleftrightarrow> ErrNew m = t"
  "errors_is (Sentinel m) t \<longleftrightarrow> Sentinel m = t"
  "errors_is (Wrapf m es) t \<longleftrightarrow> Wrapf m es = t \<or> list_ex (\<lambda>x. errors_is x t) es"
  "errors_is (UpstreamE u) t \<longleftrightarrow> UpstreamE u = t"
  "errors_is (ExecutionE c) t \<longleftrightarrow> ExecutionE c = t"
  "errors_is (NetE m) t \<longleftrightarrow> NetE m = t"
  "errors_is (HTTPStatusE n) t \<longleftrightarrow> HTTPStatusE n = t"
  by (simp_all add: errors_is.simps [of "_" t])

fun as_upstream :: "go_error \<Rightarrow> upstream_error option" where
  "as_upstream (UpstreamE u) = Some u"
| "as_upstream (Wrapf m es) = foldr (\<lambda>x r. case as_upstream x of Some u \<Rightarrow> Some u | None \<Rightarrow> r) es None"
| "as_upstream e = None"

abbreviation ErrNoRows :: go_error where "ErrNoRows \<equiv> Sentinel ''sql: no rows in result set''"
abbreviation ErrCanceled :: go_error where "ErrCanceled \<equiv> Sentinel ''context canceled''"
abbreviation ErrDeadlineExceeded :: go_error where
  "ErrDeadlineExceeded \<equiv> Sentinel ''context deadline exceeded''"
abbreviation ErrEOF :: go_error where "ErrEOF \<equiv> Sentinel ''EOF''"
abbreviation ErrInvalidKind :: go_error where "ErrInvalidKind \<equiv> Sentinel ''invalid provider kind''"
abbreviation ErrProviderMismatch :: go_error where "ErrProviderMismatch \<equiv> Sentinel ''provider mismatch''"
abbreviation ErrOAuthConflict :: go_error where
  "ErrOAuthConflict \<equiv> Sentinel ''authorization is no longer cancellable''"

text \<open>\<open>errors.As(err, *net.Error)\<close>: besides network errors, \<open>context.DeadlineExceeded\<close>
  has the methods \<open>Timeout\<close> and \<open>Temporary\<close> and so implements \<open>net.Error\<close>.\<close>

fun is_net_error :: "go_error \<Rightarrow> bool" where
  "is_net_error (NetE m) = True"
| "is_net_error (Sentinel m) = (Sentinel m = ErrDeadlineExceeded)"
| "is_net_error (Wrapf m es) = list_ex is_net_error es"
| "is_net_error e = False"

definition ParseKind :: "string \<Rightarrow> go_error + kind" where
  "ParseKind value = (if \<not> kind_Valid value then Inl (Wrapf value [ErrInvalidKind]) else Inr value)"

definition MarshalText :: "kind \<Rightarrow> go_error + string" where
  "MarshalText k = (if \<not> kind_Valid k then Inl (Wrapf k [ErrInvalidKind]) else Inr k)"

text \<open>\<open>UnmarshalText\<close> on a pointer that may be nil: the new value, or the error.\<close>

definition UnmarshalText :: "kind option \<Rightarrow> string \<Rightarrow> go_error + kind" where
  "UnmarshalText k txt =
     (case k of None \<Rightarrow> Inl (ErrNew ''provider.Kind: UnmarshalText on nil pointer'')
      | Some _ \<Rightarrow> ParseKind txt)"

text \<open>What a database driver hands to \<open>Scan\<close>, and what \<open>Value\<close> hands to it.\<close>

datatype driver_value = DVString string | DVBytes string | DVOther string

definition kind_Value :: "kind \<Rightarrow> go_error + driver_value" where
  "kind_Value k = (if \<not> kind_Valid k then Inl (Wrapf k [ErrInvalidKind]) else Inr (DVString k))"

definition kind_Scan :: "kind option \<Rightarrow> driver_value \<Rightarrow> go_error + kind" where
  "kind_Scan k src =
     (case k of None \<Rightarrow> Inl (ErrNew ''provider.Kind: Scan on nil pointer'')
      | Some _ \<Rightarrow> (case src of
            DVString s \<Rightarrow> ParseKind s
          | DVBytes s \<Rightarrow> ParseKind s
          | DVOther t \<Rightarrow> Inl (ErrNew (''provider.Kind: cannot scan '' @ t))))"


section \<open>Models, events and requests\<close>

record resolved_model =
  rm_PublicName :: string
  rm_UpstreamName :: string
  rm_Provider :: kind
  rm_OwnedBy :: string
  rm_PolicyKey :: string

text \<open>The integers are Go's \<open>int64\<close>; no operation of this record's users overflows, and
  where a value enters from a wider type (\<open>checkedUsage\<close>) the bound is proved.\<close>

record usage =
  us_InputTokens :: int
  us_OutputTokens :: int
  us_TotalTokens :: int
  us_CacheReadTokens :: int

definition empty_usage :: usage where
  "empty_usage = \<lparr>us_InputTokens = 0, us_OutputTokens = 0, us_TotalTokens = 0, us_CacheReadTokens = 0\<rparr>"

record event =
  ev_Event :: string
  ev_Data :: string
  ev_Usage :: usage

type_synonym credential = string

record generation_request =
  gr_Model :: resolved_model
  gr_Canonical :: jobject
  gr_Credential :: credential


section \<open>Provider interfaces\<close>

text \<open>
  \<open>RequestPolicy.Prepare\<close> mutates the canonical request or fails. A generation client
  runs a request to completion or opens a stream; a stream is a handle whose \<open>Next\<close>
  and \<open>Close\<close> act on the world. \<open>cm_CredentialUsable\<close> is \<open>None\<close> when the manager does
  not also implement \<open>CredentialUsability\<close>.
\<close>

type_synonym request_policy = "resolved_model \<Rightarrow> jobject \<Rightarrow> go_error + jobject"

record ('w, 'h) generation_client =
  gc_Execute :: "generation_request \<Rightarrow> ('w, go_error, event list) op"
  gc_Stream :: "generation_request \<Rightarrow> ('w, go_error, 'h) op"
  gc_Next :: "'h \<Rightarrow> ('w, go_error, event) op"
  gc_Close :: "'h \<Rightarrow> ('w, go_error, unit) op"

record 'w credential_manager =
  cm_Credential :: "string \<Rightarrow> ('w, go_error, credential) op"
  cm_AuthenticationFailed :: "string \<Rightarrow> upstream_error \<Rightarrow> ('w, go_error, unit) op"
  cm_CredentialUsable :: "(string \<Rightarrow> ('w, go_error, bool) op) option"

record ('w, 'h, 'r, 'l, 'd, 'u) capabilities =
  cap_Policy :: "request_policy option"
  cap_Generation :: "('w, 'h) generation_client option"
  cap_Credentials :: "'w credential_manager option"
  cap_CredentialRefresher :: "'r option"
  cap_Lifecycle :: "'l option"
  cap_ModelDiscoverer :: "'d option"
  cap_UsageFetcher :: "'u option"

definition empty_capabilities :: "('w, 'h, 'r, 'l, 'd, 'u) capabilities" where
  "empty_capabilities =
     \<lparr>cap_Policy = None, cap_Generation = None, cap_Credentials = None,
      cap_CredentialRefresher = None, cap_Lifecycle = None, cap_ModelDiscoverer = None,
      cap_UsageFetcher = None\<rparr>"

lemma kind_Scan_Value:
  "kind_Value k = Inr v \<Longrightarrow> kind_Scan (Some k0) v = Inr k"
  by (auto simp: kind_Value_def kind_Scan_def ParseKind_def split: if_splits)

lemma kind_Scan_valid: "kind_Scan k v = Inr k' \<Longrightarrow> kind_Valid k'"
  by (auto simp: kind_Scan_def ParseKind_def split: option.splits driver_value.splits if_splits)

end
