(* ===== verification/Provider_Catalog.thy ===== *)
theory Provider_Catalog
  imports Provider_Types
begin

text \<open>
  The static model catalog (\<open>internal/provider/catalog.go\<close>), the capability registry
  (\<open>registry.go\<close>) and the credential usability registry
  (\<open>credential_usability_registry.go\<close>). All three are built once from a list of
  registrations and are immutable afterwards: the theorems say exactly which lists are
  accepted and what the lookups then return. The locale \<open>model_catalog\<close> is the contract the
  router relies on; it is interpreted on the static catalog.
\<close>


section \<open>The static model catalog\<close>

abbreviation ErrUnknownModel :: go_error where "ErrUnknownModel \<equiv> Sentinel ''unknown model''"
abbreviation ErrInvalidModel :: go_error where
  "ErrInvalidModel \<equiv> Sentinel ''invalid model registration''"
abbreviation ErrDuplicatePublicModel :: go_error where
  "ErrDuplicatePublicModel \<equiv> Sentinel ''duplicate public model''"
abbreviation ErrAmbiguousUpstreamModel :: go_error where
  "ErrAmbiguousUpstreamModel \<equiv> Sentinel ''ambiguous upstream model registration''"

type_synonym canonical_model = "kind \<times> string"

record static_catalog =
  cat_byPublic :: "string \<rightharpoonup> resolved_model"
  cat_models :: "resolved_model list"

fun validate_fields :: "(string \<times> string) list \<Rightarrow> go_error option" where
  "validate_fields [] = None"
| "validate_fields ((name, value) # rest) =
     (if value = [] \<or> value \<noteq> trimSpace value
      then Some (Wrapf (name @ '' must be nonblank and unpadded'') [ErrInvalidModel])
      else validate_fields rest)"

definition validateResolvedModel :: "resolved_model \<Rightarrow> go_error option" where
  "validateResolvedModel m =
     (case validate_fields
        [(''public name'', rm_PublicName m), (''upstream name'', rm_UpstreamName m),
         (''owned_by'', rm_OwnedBy m), (''policy key'', rm_PolicyKey m)] of
        Some e \<Rightarrow> Some e
      | None \<Rightarrow>
          (if \<not> kind_Valid (rm_Provider m)
           then Some (Wrapf (rm_Provider m) [ErrInvalidModel, ErrInvalidKind])
           else None))"

fun catalog_loop ::
  "(string \<rightharpoonup> resolved_model) \<Rightarrow> (string \<rightharpoonup> canonical_model) \<Rightarrow> resolved_model list \<Rightarrow>
   resolved_model list \<Rightarrow> go_error + (string \<rightharpoonup> resolved_model) \<times> resolved_model list" where
  "catalog_loop byPublic byUpstream models [] = Inr (byPublic, models)"
| "catalog_loop byPublic byUpstream models (entry # entries) =
     (case validateResolvedModel entry of
        Some e \<Rightarrow> Inl e
      | None \<Rightarrow>
          if byPublic (rm_PublicName entry) \<noteq> None
          then Inl (Wrapf (rm_PublicName entry) [ErrDuplicatePublicModel])
          else
            let canonical = (rm_Provider entry, rm_PolicyKey entry) in
            if (case byUpstream (rm_UpstreamName entry) of
                  Some existing \<Rightarrow> existing \<noteq> canonical | None \<Rightarrow> False)
            then Inl (Wrapf (rm_UpstreamName entry) [ErrAmbiguousUpstreamModel])
            else catalog_loop (byPublic(rm_PublicName entry \<mapsto> entry))
                   (byUpstream(rm_UpstreamName entry \<mapsto> canonical)) (models @ [entry]) entries)"

definition NewStaticModelCatalog :: "resolved_model list \<Rightarrow> go_error + static_catalog" where
  "NewStaticModelCatalog entries =
     (case catalog_loop Map.empty Map.empty [] entries of
        Inl e \<Rightarrow> Inl e
      | Inr (byPublic, models) \<Rightarrow>
          Inr \<lparr>cat_byPublic = byPublic, cat_models = sort_key rm_PublicName models\<rparr>)"

text \<open>The methods take a pointer that may be nil.\<close>

definition Resolve :: "static_catalog option \<Rightarrow> string \<Rightarrow> go_error + resolved_model" where
  "Resolve c publicName =
     (case c of
        None \<Rightarrow> Inl (Wrapf publicName [ErrUnknownModel])
      | Some cat \<Rightarrow>
          (case cat_byPublic cat publicName of
             None \<Rightarrow> Inl (Wrapf publicName [ErrUnknownModel])
           | Some model \<Rightarrow> Inr model))"

definition Models :: "static_catalog option \<Rightarrow> resolved_model list" where
  "Models c = (case c of None \<Rightarrow> [] | Some cat \<Rightarrow> cat_models cat)"

definition nonblank_unpadded :: "string \<Rightarrow> bool" where
  "nonblank_unpadded s \<longleftrightarrow> s \<noteq> [] \<and> trimSpace s = s"

definition valid_model :: "resolved_model \<Rightarrow> bool" where
  "valid_model m \<longleftrightarrow>
     nonblank_unpadded (rm_PublicName m) \<and> nonblank_unpadded (rm_UpstreamName m) \<and>
     nonblank_unpadded (rm_OwnedBy m) \<and> nonblank_unpadded (rm_PolicyKey m) \<and>
     kind_Valid (rm_Provider m)"

lemma validateResolvedModel_None_iff: "validateResolvedModel m = None \<longleftrightarrow> valid_model m"
  by (auto simp: validateResolvedModel_def valid_model_def nonblank_unpadded_def)

text \<open>One upstream model belongs to one provider and policy.\<close>

definition upstream_unambiguous :: "resolved_model list \<Rightarrow> bool" where
  "upstream_unambiguous ms \<longleftrightarrow>
     (\<forall>a \<in> set ms. \<forall>b \<in> set ms. rm_UpstreamName a = rm_UpstreamName b \<longrightarrow>
        rm_Provider a = rm_Provider b \<and> rm_PolicyKey a = rm_PolicyKey b)"

lemma upstream_unambiguousD:
  "upstream_unambiguous ms \<Longrightarrow> a \<in> set ms \<Longrightarrow> b \<in> set ms \<Longrightarrow>
   rm_UpstreamName a = rm_UpstreamName b \<Longrightarrow>
   rm_Provider a = rm_Provider b \<and> rm_PolicyKey a = rm_PolicyKey b"
  unfolding upstream_unambiguous_def by blast

lemma upstream_unambiguous_prefix: "upstream_unambiguous (xs @ ys) \<Longrightarrow> upstream_unambiguous xs"
  unfolding upstream_unambiguous_def set_append by blast

definition acceptable_catalog :: "resolved_model list \<Rightarrow> bool" where
  "acceptable_catalog ms \<longleftrightarrow>
     list_all valid_model ms \<and> distinct (map rm_PublicName ms) \<and> upstream_unambiguous ms"

definition public_map :: "resolved_model list \<Rightarrow> string \<rightharpoonup> resolved_model" where
  "public_map ms = map_of (map (\<lambda>m. (rm_PublicName m, m)) ms)"

text \<open>What the loop's two maps hold after the entries \<open>done\<close>.\<close>

definition catalog_state ::
  "resolved_model list \<Rightarrow> (string \<rightharpoonup> resolved_model) \<Rightarrow> (string \<rightharpoonup> canonical_model) \<Rightarrow> bool" where
  "catalog_state ms byPublic byUpstream \<longleftrightarrow>
     byPublic = public_map ms \<and>
     (\<forall>u. byUpstream u = None \<longleftrightarrow> u \<notin> rm_UpstreamName ` set ms) \<and>
     (\<forall>m \<in> set ms. byUpstream (rm_UpstreamName m) = Some (rm_Provider m, rm_PolicyKey m))"

lemma public_map_None: "public_map ms n = None \<longleftrightarrow> n \<notin> rm_PublicName ` set ms"
  by (induction ms) (auto simp: public_map_def)

lemma public_map_snoc:
  "rm_PublicName e \<notin> rm_PublicName ` set ms \<Longrightarrow>
   public_map (ms @ [e]) = (public_map ms)(rm_PublicName e \<mapsto> e)"
proof -
  assume "rm_PublicName e \<notin> rm_PublicName ` set ms"
  then have "public_map ms (rm_PublicName e) = None" by (simp add: public_map_None)
  then show ?thesis
    by (auto simp: public_map_def map_of_append map_add_def fun_eq_iff split: option.splits)
qed

lemma public_map_Some:
  "public_map ms n = Some m \<Longrightarrow> m \<in> set ms \<and> rm_PublicName m = n"
  by (auto simp: public_map_def dest!: map_of_SomeD)

lemma public_map_mem:
  "distinct (map rm_PublicName ms) \<Longrightarrow> m \<in> set ms \<Longrightarrow> public_map ms (rm_PublicName m) = Some m"
  by (rule map_of_is_SomeI [of "map (\<lambda>m. (rm_PublicName m, m)) ms", folded public_map_def])
     (auto simp: comp_def)

lemma catalog_state_snoc:
  assumes "catalog_state ms P U" "rm_PublicName e \<notin> rm_PublicName ` set ms"
    and "\<And>c. U (rm_UpstreamName e) = Some c \<Longrightarrow> c = (rm_Provider e, rm_PolicyKey e)"
  shows "catalog_state (ms @ [e]) (P(rm_PublicName e \<mapsto> e))
           (U(rm_UpstreamName e \<mapsto> (rm_Provider e, rm_PolicyKey e)))"
  using assms unfolding catalog_state_def by (auto simp: public_map_snoc)

lemma upstream_unambiguous_snoc:
  assumes "catalog_state ms P U"
  shows "upstream_unambiguous (ms @ [e]) \<longleftrightarrow>
     upstream_unambiguous ms \<and>
     (\<forall>c. U (rm_UpstreamName e) = Some c \<longrightarrow> c = (rm_Provider e, rm_PolicyKey e))"
proof -
  have U: "U (rm_UpstreamName m) = Some (rm_Provider m, rm_PolicyKey m)" if "m \<in> set ms" for m
    using assms that by (simp add: catalog_state_def)
  have N: "\<exists>m \<in> set ms. rm_UpstreamName m = u" if "U u = Some c" for u c
  proof -
    from assms have "U u = None \<longleftrightarrow> u \<notin> rm_UpstreamName ` set ms"
      by (simp add: catalog_state_def)
    with that show ?thesis by auto
  qed
  show ?thesis
  proof (intro iffI conjI allI impI)
    assume un: "upstream_unambiguous (ms @ [e])"
    then show "upstream_unambiguous ms" by (rule upstream_unambiguous_prefix)
    fix c assume c: "U (rm_UpstreamName e) = Some c"
    with N obtain m where m: "m \<in> set ms" "rm_UpstreamName m = rm_UpstreamName e" by blast
    with un have "rm_Provider m = rm_Provider e \<and> rm_PolicyKey m = rm_PolicyKey e"
      by (intro upstream_unambiguousD [of "ms @ [e]"]) simp_all
    with U [OF m(1)] m(2) c show "c = (rm_Provider e, rm_PolicyKey e)" by simp
  next
    assume a: "upstream_unambiguous ms \<and>
      (\<forall>c. U (rm_UpstreamName e) = Some c \<longrightarrow> c = (rm_Provider e, rm_PolicyKey e))"
    have e: "rm_Provider m = rm_Provider e \<and> rm_PolicyKey m = rm_PolicyKey e"
      if "m \<in> set ms" "rm_UpstreamName m = rm_UpstreamName e" for m
      using a U [OF that(1)] that(2) by auto
    show "upstream_unambiguous (ms @ [e])"
      unfolding upstream_unambiguous_def
    proof (intro ballI impI)
      fix x y assume "x \<in> set (ms @ [e])" "y \<in> set (ms @ [e])"
        and eq: "rm_UpstreamName x = rm_UpstreamName y"
      then consider "x \<in> set ms" "y \<in> set ms" | "x \<in> set ms" "y = e"
        | "x = e" "y \<in> set ms" | "x = e" "y = e" by auto
      then show "rm_Provider x = rm_Provider y \<and> rm_PolicyKey x = rm_PolicyKey y"
        using a e [of x] e [of y] eq upstream_unambiguousD [of ms x y] by cases auto
    qed
  qed
qed

lemma acceptable_catalog_prefix: "acceptable_catalog (xs @ ys) \<Longrightarrow> acceptable_catalog xs"
  by (auto simp: acceptable_catalog_def dest: upstream_unambiguous_prefix)

lemma catalog_loop_iff:
  assumes "catalog_state ms P U" "acceptable_catalog ms"
  shows "catalog_loop P U ms es = Inr r \<longleftrightarrow>
     acceptable_catalog (ms @ es) \<and> r = (public_map (ms @ es), ms @ es)"
  using assms
proof (induction es arbitrary: ms P U)
  case Nil
  then show ?case by (auto simp: catalog_state_def)
next
  case (Cons e es)
  let ?canon = "(rm_Provider e, rm_PolicyKey e)"
  have P: "P (rm_PublicName e) = None \<longleftrightarrow> rm_PublicName e \<notin> rm_PublicName ` set ms"
    using Cons.prems(1) by (simp add: catalog_state_def public_map_None)
  show ?case
  proof (cases "acceptable_catalog (ms @ [e])")
    case True
    then have v: "valid_model e" and d: "rm_PublicName e \<notin> rm_PublicName ` set ms"
      and un: "upstream_unambiguous (ms @ [e])"
      by (auto simp: acceptable_catalog_def)
    from un have u: "\<And>c. U (rm_UpstreamName e) = Some c \<Longrightarrow> c = ?canon"
      using upstream_unambiguous_snoc [OF Cons.prems(1), of e] by blast
    have step: "catalog_loop P U ms (e # es) =
        catalog_loop (P(rm_PublicName e \<mapsto> e)) (U(rm_UpstreamName e \<mapsto> ?canon)) (ms @ [e]) es"
      using v d P u
      by (auto simp: validateResolvedModel_None_iff [symmetric] Let_def split: option.splits)
    show ?thesis
      unfolding step using Cons.IH [OF catalog_state_snoc [OF Cons.prems(1) d u] True]
      by (simp del: fun_upd_apply)
  next
    case False
    then have "\<not> acceptable_catalog (ms @ e # es)"
      using acceptable_catalog_prefix [of "ms @ [e]" es] by auto
    moreover have "catalog_loop P U ms (e # es) \<noteq> Inr r"
    proof -
      from False Cons.prems(2) consider "\<not> valid_model e"
        | "rm_PublicName e \<in> rm_PublicName ` set ms" | "\<not> upstream_unambiguous (ms @ [e])"
        by (auto simp: acceptable_catalog_def)
      then show ?thesis
      proof cases
        case 3
        with upstream_unambiguous_snoc [OF Cons.prems(1), of e] Cons.prems(2)
        obtain c where "U (rm_UpstreamName e) = Some c" "c \<noteq> ?canon"
          by (auto simp: acceptable_catalog_def)
        then show ?thesis by (auto split: option.splits)
      qed (use P in \<open>auto simp: validateResolvedModel_None_iff [symmetric] split: option.splits\<close>)
    qed
    ultimately show ?thesis by blast
  qed
qed

lemma catalog_state_empty: "catalog_state [] Map.empty Map.empty"
  by (simp add: catalog_state_def public_map_def)

lemma NewStaticModelCatalog_Inr_iff:
  "NewStaticModelCatalog es = Inr c \<longleftrightarrow>
     acceptable_catalog es \<and>
     c = \<lparr>cat_byPublic = public_map es, cat_models = sort_key rm_PublicName es\<rparr>"
proof -
  have "acceptable_catalog []" by (simp add: acceptable_catalog_def upstream_unambiguous_def)
  from catalog_loop_iff [OF catalog_state_empty this, of es]
  have loop: "catalog_loop Map.empty Map.empty [] es = Inr r \<longleftrightarrow>
      acceptable_catalog es \<and> r = (public_map es, es)" for r
    by simp
  show ?thesis
  proof (cases "catalog_loop Map.empty Map.empty [] es")
    case (Inl e)
    with loop show ?thesis by (auto simp: NewStaticModelCatalog_def)
  next
    case (Inr r)
    with loop [of r] have "acceptable_catalog es" "r = (public_map es, es)" by simp_all
    with Inr show ?thesis by (auto simp: NewStaticModelCatalog_def)
  qed
qed


text \<open>The static catalog accepts a list of registrations exactly when every entry is
  valid (nonblank, unpadded names and a known provider), public names are distinct and no
  upstream name is claimed by two different (provider, policy) pairs.\<close>

theorem catalog_accepts_iff:
  "(\<exists>c. NewStaticModelCatalog es = Inr c) \<longleftrightarrow> acceptable_catalog es"
  by (auto simp: NewStaticModelCatalog_Inr_iff)

lemma Resolve_Inr_iff:
  assumes "NewStaticModelCatalog es = Inr c"
  shows "Resolve (Some c) n = Inr m \<longleftrightarrow> m \<in> set es \<and> rm_PublicName m = n"
proof -
  from assms have ac: "acceptable_catalog es" and c: "cat_byPublic c = public_map es"
    by (auto simp: NewStaticModelCatalog_Inr_iff)
  then have d: "distinct (map rm_PublicName es)" by (simp add: acceptable_catalog_def)
  show ?thesis
    using public_map_Some [of es n m] public_map_mem [OF d, of m]
    by (auto simp: Resolve_def c split: option.splits)
qed

text \<open>Resolution in a constructed catalog returns exactly the registered entry of that
  public name, and any other name fails with an error that \<open>errors.Is\<close> recognises as
  \<open>ErrUnknownModel\<close>; the listing is the registrations sorted by public name.\<close>

theorem catalog_resolution:
  assumes "NewStaticModelCatalog es = Inr c"
  shows "(Resolve (Some c) n = Inr m \<longleftrightarrow> m \<in> set es \<and> rm_PublicName m = n) \<and>
    (n \<notin> rm_PublicName ` set es \<longrightarrow>
       (\<exists>e. Resolve (Some c) n = Inl e \<and> errors_is e ErrUnknownModel)) \<and>
    sorted (map rm_PublicName (Models (Some c))) \<and> mset (Models (Some c)) = mset es"
proof (intro conjI impI)
  show "Resolve (Some c) n = Inr m \<longleftrightarrow> m \<in> set es \<and> rm_PublicName m = n"
    using assms by (rule Resolve_Inr_iff)
  from assms have c: "c = \<lparr>cat_byPublic = public_map es, cat_models = sort_key rm_PublicName es\<rparr>"
    by (simp add: NewStaticModelCatalog_Inr_iff)
  show "\<exists>e. Resolve (Some c) n = Inl e \<and> errors_is e ErrUnknownModel"
    if "n \<notin> rm_PublicName ` set es"
    using that by (simp add: c Resolve_def public_map_None [symmetric])
  show "sorted (map rm_PublicName (Models (Some c)))" "mset (Models (Some c)) = mset es"
    by (simp_all add: c Models_def)
qed

definition example_models :: "resolved_model list" where
  "example_models =
     [\<lparr>rm_PublicName = ''grok'', rm_UpstreamName = ''grok-4.5'', rm_Provider = XAI,
       rm_OwnedBy = ''byos'', rm_PolicyKey = ''xai''\<rparr>,
      \<lparr>rm_PublicName = ''glm'', rm_UpstreamName = ''glm-5-2'', rm_Provider = Devin,
       rm_OwnedBy = ''byos'', rm_PolicyKey = ''devin''\<rparr>]"

lemma trimSpace_unpadded:
  "leading space_seqs s = None \<Longrightarrow> leading (map rev space_seqs) (rev s) = None \<Longrightarrow> trimSpace s = s"
  by (simp add: trimSpace_def strip_leading_None)

lemmas trim_eval = trimSpace_unpadded leading_def space_seqs_def

lemma example_models_acceptable: "acceptable_catalog example_models"
  by (simp add: acceptable_catalog_def example_models_def valid_model_def nonblank_unpadded_def
      upstream_unambiguous_def trim_eval)

theorem catalog_resolution_witness:
  "\<exists>c. NewStaticModelCatalog example_models = Inr c \<and>
     Resolve (Some c) ''glm'' = Inr (example_models ! 1) \<and>
     (\<exists>e. Resolve (Some c) ''gpt'' = Inl e \<and> errors_is e ErrUnknownModel)"
proof -
  obtain c where c: "NewStaticModelCatalog example_models = Inr c"
    using example_models_acceptable by (auto simp: NewStaticModelCatalog_Inr_iff)
  from catalog_resolution [OF c, of "''glm''" "example_models ! 1"]
    catalog_resolution [OF c, of "''gpt''" "example_models ! 1"]
  show ?thesis using c by (auto simp: example_models_def)
qed


section \<open>The contract of a model catalog\<close>

text \<open>What the router relies on: a resolved model answers to the requested name, is complete
  and names a known provider, and the only failure is an unknown model.\<close>

locale model_catalog =
  fixes resolve :: "'c \<Rightarrow> string \<Rightarrow> go_error + resolved_model"
    and catalog_ok :: "'c \<Rightarrow> bool"
  assumes resolve_valid: "catalog_ok c \<Longrightarrow> resolve c n = Inr m \<Longrightarrow> valid_model m \<and> rm_PublicName m = n"
    and resolve_unknown: "catalog_ok c \<Longrightarrow> resolve c n = Inl e \<Longrightarrow> errors_is e ErrUnknownModel"
    and resolve_unambiguous:
      "catalog_ok c \<Longrightarrow> resolve c n = Inr m \<Longrightarrow> resolve c n' = Inr m' \<Longrightarrow>
       rm_UpstreamName m = rm_UpstreamName m' \<Longrightarrow>
       rm_Provider m = rm_Provider m' \<and> rm_PolicyKey m = rm_PolicyKey m'"
begin

text \<open>The completeness test of the router can only succeed.\<close>

lemma resolved_complete:
  assumes "catalog_ok c" "resolve c n = Inr m"
  shows "kind_Valid (rm_Provider m)" "rm_UpstreamName m \<noteq> []" "rm_PolicyKey m \<noteq> []"
  using resolve_valid [OF assms] by (auto simp: valid_model_def nonblank_unpadded_def)

end

definition built_catalog :: "static_catalog option \<Rightarrow> bool" where
  "built_catalog c \<longleftrightarrow> c = None \<or> (\<exists>es d. c = Some d \<and> NewStaticModelCatalog es = Inr d)"

interpretation static: model_catalog Resolve built_catalog
proof unfold_locales
  fix c n m assume "built_catalog c" and r: "Resolve c n = Inr m"
  then obtain es d where c: "c = Some d" "NewStaticModelCatalog es = Inr d"
    by (auto simp: built_catalog_def Resolve_def)
  then have "m \<in> set es \<and> rm_PublicName m = n" using r Resolve_Inr_iff by blast
  moreover have "acceptable_catalog es" using c by (simp add: NewStaticModelCatalog_Inr_iff)
  ultimately show "valid_model m \<and> rm_PublicName m = n"
    by (auto simp: acceptable_catalog_def list_all_iff)
next
  fix c n e assume "Resolve c n = Inl e"
  then show "errors_is e ErrUnknownModel" by (auto simp: Resolve_def split: option.splits)
next
  fix c n m n' m'
  assume ok: "built_catalog c" and r: "Resolve c n = Inr m" "Resolve c n' = Inr m'"
    and u: "rm_UpstreamName m = rm_UpstreamName m'"
  from ok r(1) obtain es d where c: "c = Some d" "NewStaticModelCatalog es = Inr d"
    by (auto simp: built_catalog_def Resolve_def)
  then have "m \<in> set es" "m' \<in> set es" using r Resolve_Inr_iff by blast+
  moreover have "upstream_unambiguous es"
    using c by (simp add: NewStaticModelCatalog_Inr_iff acceptable_catalog_def)
  ultimately show "rm_Provider m = rm_Provider m' \<and> rm_PolicyKey m = rm_PolicyKey m'"
    using u upstream_unambiguousD by blast
qed


section \<open>The capability registry\<close>

abbreviation ErrInvalidCapabilityKey :: go_error where
  "ErrInvalidCapabilityKey \<equiv> Sentinel ''invalid capability key''"
abbreviation ErrInvalidCapabilities :: go_error where
  "ErrInvalidCapabilities \<equiv> Sentinel ''invalid capabilities''"
abbreviation ErrDuplicateCapabilityKey :: go_error where
  "ErrDuplicateCapabilityKey \<equiv> Sentinel ''duplicate capability key''"

record ('w, 'h, 'r, 'l, 'd, 'u) capability_registration =
  cr_Provider :: kind
  cr_PolicyKey :: string
  cr_Capabilities :: "('w, 'h, 'r, 'l, 'd, 'u) capabilities"

type_synonym ('w, 'h, 'r, 'l, 'd, 'u) capability_registry =
  "kind \<times> string \<rightharpoonup> ('w, 'h, 'r, 'l, 'd, 'u) capabilities"

definition validateCapabilities :: "('w, 'h, 'r, 'l, 'd, 'u) capabilities \<Rightarrow> go_error option" where
  "validateCapabilities caps =
     (let hasPolicy = cap_Policy caps \<noteq> None;
          hasGeneration = cap_Generation caps \<noteq> None;
          hasCredentials = cap_Credentials caps \<noteq> None;
          hasGenerationCapability = hasPolicy \<or> hasGeneration \<or> hasCredentials
      in if hasGenerationCapability \<and> \<not> (hasPolicy \<and> hasGeneration \<and> hasCredentials)
         then Some (Wrapf ''policy, generation client, and credentials must be registered together''
                     [ErrInvalidCapabilities])
         else if \<not> hasGenerationCapability \<and> cap_CredentialRefresher caps = None \<and>
                 cap_Lifecycle caps = None \<and> cap_ModelDiscoverer caps = None \<and>
                 cap_UsageFetcher caps = None
         then Some (Wrapf ''registration must contain at least one capability''
                     [ErrInvalidCapabilities])
         else None)"

fun registry_loop ::
  "('w, 'h, 'r, 'l, 'd, 'u) capability_registry \<Rightarrow> ('w, 'h, 'r, 'l, 'd, 'u) capability_registration list \<Rightarrow>
   go_error + ('w, 'h, 'r, 'l, 'd, 'u) capability_registry" where
  "registry_loop byKey [] = Inr byKey"
| "registry_loop byKey (r # rs) =
     (if \<not> kind_Valid (cr_Provider r)
      then Inl (Wrapf (cr_Provider r) [ErrInvalidCapabilityKey, ErrInvalidKind])
      else if cr_PolicyKey r = [] \<or> cr_PolicyKey r \<noteq> trimSpace (cr_PolicyKey r)
      then Inl (Wrapf ''policy key must be nonblank and unpadded'' [ErrInvalidCapabilityKey])
      else (case validateCapabilities (cr_Capabilities r) of
          Some e \<Rightarrow> Inl e
        | None \<Rightarrow>
            let key = (cr_Provider r, cr_PolicyKey r) in
            if byKey key \<noteq> None then Inl (Wrapf (cr_PolicyKey r) [ErrDuplicateCapabilityKey])
            else registry_loop (byKey(key \<mapsto> cr_Capabilities r)) rs))"

definition NewCapabilityRegistry ::
  "('w, 'h, 'r, 'l, 'd, 'u) capability_registration list \<Rightarrow>
   go_error + ('w, 'h, 'r, 'l, 'd, 'u) capability_registry" where
  "NewCapabilityRegistry registrations = registry_loop Map.empty registrations"

definition Capabilities ::
  "('w, 'h, 'r, 'l, 'd, 'u) capability_registry option \<Rightarrow> kind \<Rightarrow> string \<Rightarrow>
   ('w, 'h, 'r, 'l, 'd, 'u) capabilities option" where
  "Capabilities r k policyKey = (case r of None \<Rightarrow> None | Some byKey \<Rightarrow> byKey (k, policyKey))"

definition Lifecycle ::
  "('w, 'h, 'r, 'l, 'd, 'u) capability_registry option \<Rightarrow> kind \<Rightarrow> string \<Rightarrow> 'l option" where
  "Lifecycle r k policyKey =
     (case Capabilities r k policyKey of None \<Rightarrow> None | Some caps \<Rightarrow> cap_Lifecycle caps)"

definition CredentialRefresher ::
  "('w, 'h, 'r, 'l, 'd, 'u) capability_registry option \<Rightarrow> kind \<Rightarrow> string \<Rightarrow> 'r option" where
  "CredentialRefresher r k policyKey =
     (case Capabilities r k policyKey of None \<Rightarrow> None | Some caps \<Rightarrow> cap_CredentialRefresher caps)"

definition cr_key :: "('w, 'h, 'r, 'l, 'd, 'u) capability_registration \<Rightarrow> kind \<times> string" where
  "cr_key r = (cr_Provider r, cr_PolicyKey r)"

definition generation_trio :: "('w, 'h, 'r, 'l, 'd, 'u) capabilities \<Rightarrow> bool" where
  "generation_trio caps \<longleftrightarrow>
     (cap_Policy caps \<noteq> None) = (cap_Generation caps \<noteq> None) \<and>
     (cap_Generation caps \<noteq> None) = (cap_Credentials caps \<noteq> None)"

lemma validateCapabilities_trio: "validateCapabilities caps = None \<Longrightarrow> generation_trio caps"
  by (auto simp: validateCapabilities_def generation_trio_def Let_def split: if_splits)

lemma registry_loop_Inr:
  assumes "registry_loop byKey rs = Inr reg"
  shows "reg k = Some caps \<longleftrightarrow>
      byKey k = Some caps \<or> (\<exists>r \<in> set rs. cr_key r = k \<and> cr_Capabilities r = caps)" (is ?A)
    and "distinct (map cr_key rs) \<and> (\<forall>r \<in> set rs. byKey (cr_key r) = None)" (is ?B)
    and "\<forall>r \<in> set rs. kind_Valid (cr_Provider r) \<and> nonblank_unpadded (cr_PolicyKey r) \<and>
           validateCapabilities (cr_Capabilities r) = None" (is ?C)
proof -
  have "?A \<and> ?B \<and> ?C"
    using assms
  proof (induction byKey rs rule: registry_loop.induct)
    case (2 byKey r rs)
    from "2.prems" have g: "kind_Valid (cr_Provider r)" "nonblank_unpadded (cr_PolicyKey r)"
        "validateCapabilities (cr_Capabilities r) = None" "byKey (cr_key r) = None"
      and loop: "registry_loop (byKey(cr_key r \<mapsto> cr_Capabilities r)) rs = Inr reg"
      by (auto simp: nonblank_unpadded_def cr_key_def Let_def split: if_splits option.splits)
    have pre: "\<not> \<not> kind_Valid (cr_Provider r)"
        "\<not> (cr_PolicyKey r = [] \<or> cr_PolicyKey r \<noteq> trimSpace (cr_PolicyKey r))"
        "\<not> byKey (cr_key r) \<noteq> None"
      using g by (simp_all add: nonblank_unpadded_def)
    note IH = "2.IH" [OF pre(1,2) g(3) refl, folded cr_key_def, OF pre(3) loop]
    with g show ?case by (auto split: if_splits)
  qed simp
  then show ?A ?B ?C by blast+
qed

text \<open>In a constructed capability registry a lookup returns exactly what was registered
  under that provider and policy key, keys are unique, and whatever a lookup returns has the
  policy, generation client and credential manager together or none of them.\<close>

theorem registry_lookup:
  assumes "NewCapabilityRegistry rs = Inr reg"
  shows "(Capabilities (Some reg) k p = Some caps \<longleftrightarrow>
           (\<exists>r \<in> set rs. cr_Provider r = k \<and> cr_PolicyKey r = p \<and> cr_Capabilities r = caps)) \<and>
         distinct (map cr_key rs) \<and>
         (Capabilities (Some reg) k p = Some caps \<longrightarrow> kind_Valid k \<and> generation_trio caps)"
proof -
  from assms have loop: "registry_loop Map.empty rs = Inr reg" by (simp add: NewCapabilityRegistry_def)
  have A: "Capabilities (Some reg) k p = Some caps \<longleftrightarrow>
      (\<exists>r \<in> set rs. cr_Provider r = k \<and> cr_PolicyKey r = p \<and> cr_Capabilities r = caps)"
    using registry_loop_Inr(1) [OF loop, of "(k, p)" caps]
    by (auto simp: Capabilities_def cr_key_def)
  moreover have "kind_Valid k \<and> generation_trio caps" if "Capabilities (Some reg) k p = Some caps"
    using that A registry_loop_Inr(3) [OF loop] validateCapabilities_trio by blast
  ultimately show ?thesis using registry_loop_Inr(2) [OF loop] by blast
qed

definition example_registration :: "(unit, unit, nat, unit, unit, unit) capability_registration" where
  "example_registration =
     \<lparr>cr_Provider = Devin, cr_PolicyKey = ''devin'',
      cr_Capabilities = empty_capabilities\<lparr>cap_CredentialRefresher := Some 7\<rparr>\<rparr>"

theorem registry_lookup_witness:
  "\<exists>reg. NewCapabilityRegistry [example_registration] = Inr reg \<and>
     Capabilities (Some reg) Devin ''devin'' = Some (cr_Capabilities example_registration) \<and>
     Capabilities (Some reg) XAI ''xai'' \<noteq> Some (cr_Capabilities example_registration)"
proof -
  obtain reg where reg: "NewCapabilityRegistry [example_registration] = Inr reg"
    by (simp add: NewCapabilityRegistry_def example_registration_def trim_eval Let_def
        validateCapabilities_def empty_capabilities_def)
  from registry_lookup [OF reg, of Devin "''devin''" "cr_Capabilities example_registration"]
    registry_lookup [OF reg, of XAI "''xai''" "cr_Capabilities example_registration"] reg
  show ?thesis by (auto simp: example_registration_def XAI_def Devin_def)
qed


section \<open>The credential usability registry\<close>

text \<open>An interface value as Go has it: nil, a non-nil interface that wraps a nil pointer (or
  map, channel, slice, function), or a live value.\<close>

datatype 'a iface = IfaceNil | IfaceTypedNil | IfaceVal 'a

definition isNilCredentialUsability :: "'a iface \<Rightarrow> bool" where
  "isNilCredentialUsability v = (case v of IfaceNil \<Rightarrow> True | IfaceTypedNil \<Rightarrow> True | IfaceVal _ \<Rightarrow> False)"

record 'a usability_registration =
  ur_Provider :: kind
  ur_Usability :: "'a iface"

fun usability_loop ::
  "(kind \<rightharpoonup> 'a iface) \<Rightarrow> 'a usability_registration list \<Rightarrow> go_error + (kind \<rightharpoonup> 'a iface)" where
  "usability_loop byProvider [] = Inr byProvider"
| "usability_loop byProvider (r # rs) =
     (if \<not> kind_Valid (ur_Provider r)
      then Inl (Wrapf (ur_Provider r) [ErrInvalidCapabilityKey, ErrInvalidKind])
      else if isNilCredentialUsability (ur_Usability r)
      then Inl (Wrapf (ur_Provider r) [ErrInvalidCapabilities])
      else if byProvider (ur_Provider r) \<noteq> None
      then Inl (Wrapf (ur_Provider r) [ErrDuplicateCapabilityKey])
      else usability_loop (byProvider(ur_Provider r \<mapsto> ur_Usability r)) rs)"

definition NewCredentialUsabilityRegistry ::
  "'a usability_registration list \<Rightarrow> go_error + (kind \<rightharpoonup> 'a iface)" where
  "NewCredentialUsabilityRegistry registrations = usability_loop Map.empty registrations"

definition CredentialUsability :: "(kind \<rightharpoonup> 'a iface) option \<Rightarrow> kind \<Rightarrow> 'a iface option" where
  "CredentialUsability r k = (case r of None \<Rightarrow> None | Some byProvider \<Rightarrow> byProvider k)"

lemma usability_loop_nonnil:
  assumes "usability_loop m rs = Inr reg" "\<And>k v. m k = Some v \<Longrightarrow> \<exists>x. v = IfaceVal x"
    and "reg k = Some v"
  shows "\<exists>x. v = IfaceVal x"
  using assms
proof (induction m rs rule: usability_loop.induct)
  case (2 m r rs)
  from "2.prems"(1) have g: "kind_Valid (ur_Provider r)" "\<not> isNilCredentialUsability (ur_Usability r)"
      "m (ur_Provider r) = None"
    and loop: "usability_loop (m(ur_Provider r \<mapsto> ur_Usability r)) rs = Inr reg"
    by (auto split: if_splits)
  from g(2) have "\<exists>x. ur_Usability r = IfaceVal x"
    by (auto simp: isNilCredentialUsability_def split: iface.splits)
  with "2.prems"(2) have "\<exists>x. v' = IfaceVal x"
    if "(m(ur_Provider r \<mapsto> ur_Usability r)) k' = Some v'" for k' v'
    using that by (cases "k' = ur_Provider r") auto
  with "2.IH" g loop "2.prems"(3) show ?case by blast
qed auto

end
