(* ===== verification/Store_DB.thy ===== *)
theory Store_DB
  imports Provider_Types
begin

text \<open>
  The SQLite database behind \<open>internal/store\<close>: one record with a list of rows per table of
  the schema under \<open>migrations/\<close>, and the way the repositories talk to it. Every driver
  call can fail: the database carries the list of faults the driver will report, one entry
  per call, an exhausted list meaning no more faults. \<open>db_tx\<close> is
  \<open>BeginTx\<close> \<dots> \<open>Commit\<close> with the deferred \<open>Rollback\<close>; its atomicity, which the components'
  atomicity theorems instantiate, is proved here once. The single connection
  (\<open>SetMaxOpenConns(1)\<close>) serialises statements and transactions.
\<close>


section \<open>Tables\<close>

record account_row =
  ar_id :: string
  ar_provider :: kind
  ar_fingerprint :: string
  ar_label :: string
  ar_enabled :: bool
  ar_status :: string
  ar_credentials :: string
  ar_expires_at :: "int option"
  ar_last_refresh_at :: "int option"
  ar_last_error :: "string option"
  ar_created_at :: int
  ar_updated_at :: int

record capability_row =
  mc_account_id :: string
  mc_model :: string
  mc_supported :: bool
  mc_search :: "bool option"
  mc_display_name :: "string option"
  mc_context_window :: int
  mc_max_output_tokens :: int
  mc_efforts :: string
  mc_discovered_at :: int
  mc_stale :: bool

record state_row =
  st_account_id :: string
  st_model :: string
  st_cooldown_until :: "int option"
  st_backoff_level :: int
  st_last_error_class :: "string option"
  st_last_error_at :: "int option"

record oauth_row =
  or_state_hash :: string
  or_provider :: kind
  or_flow_type :: string
  or_session_id :: "string option"
  or_payload :: string
  or_status :: string
  or_poll_interval :: int
  or_expires_at :: int
  or_created_at :: int
  or_updated_at :: int
  or_sanitized_error :: "string option"

record usage_row =
  lu_account_id :: string
  lu_requests :: int
  lu_failures :: int
  lu_input_tokens :: int
  lu_output_tokens :: int
  lu_cache_read_tokens :: int
  lu_updated_at :: int

record key_row =
  ak_id :: string
  ak_prefix :: string
  ak_key_hash :: string
  ak_label :: string
  ak_created_at :: int
  ak_last_used_at :: "int option"
  ak_revoked_at :: "int option"

record admin_session_row =
  se_id_hash :: string
  se_csrf_secret :: string
  se_created_at :: int
  se_expires_at :: int
  se_revoked_at :: "int option"

record response_row =
  rs_response_id :: string
  rs_upstream_id :: "string option"
  rs_previous_id :: "string option"
  rs_model :: string
  rs_preferred_account :: "string option"
  rs_input :: string
  rs_output :: string
  rs_store :: bool
  rs_created_at :: int
  rs_expires_at :: int

record auth_source_row =
  as_source_hash :: string
  as_failure_count :: int
  as_blocked_until :: "int option"
  as_last_failure_at :: int
  as_updated_at :: int

record auth_global_row =
  ag_window_started_at :: int
  ag_source_locks :: int
  ag_blocked_until :: "int option"
  ag_updated_at :: int

datatype fault = FaultIO string | FaultCanceled | FaultDeadline

definition fault_error :: "fault \<Rightarrow> go_error" where
  "fault_error f = (case f of FaultIO m \<Rightarrow> ErrNew m | FaultCanceled \<Rightarrow> ErrCanceled
     | FaultDeadline \<Rightarrow> ErrDeadlineExceeded)"

text \<open>\<open>db_epoch\<close> is what the SQL function \<open>unixepoch()\<close> returns.\<close>

record database =
  db_faults :: "fault option list"
  db_epoch :: int
  db_accounts :: "account_row list"
  db_capabilities :: "capability_row list"
  db_states :: "state_row list"
  db_oauth :: "oauth_row list"
  db_usage :: "usage_row list"
  db_keys :: "key_row list"
  db_admin_sessions :: "admin_session_row list"
  db_responses :: "response_row list"
  db_auth_sources :: "auth_source_row list"
  db_auth_global :: "auth_global_row option"

definition empty_database :: database where
  "empty_database =
     \<lparr>db_faults = [], db_epoch = 0, db_accounts = [], db_capabilities = [], db_states = [],
      db_oauth = [], db_usage = [], db_keys = [], db_admin_sessions = [], db_responses = [],
      db_auth_sources = [], db_auth_global = None\<rparr>"

text \<open>The contents, without the pending faults.\<close>

definition tables :: "database \<Rightarrow> database" where
  "tables d = d\<lparr>db_faults := []\<rparr>"

definition no_faults :: "database \<Rightarrow> bool" where
  "no_faults d \<longleftrightarrow> db_faults d = []"

lemma tables_eqD:
  assumes "tables d = tables d'"
  shows "db_epoch d = db_epoch d'" "db_accounts d = db_accounts d'"
    "db_capabilities d = db_capabilities d'" "db_states d = db_states d'"
    "db_oauth d = db_oauth d'" "db_usage d = db_usage d'" "db_keys d = db_keys d'"
    "db_admin_sessions d = db_admin_sessions d'" "db_responses d = db_responses d'"
    "db_auth_sources d = db_auth_sources d'" "db_auth_global d = db_auth_global d'"
  using assms by (cases d, cases d', simp add: tables_def)+


section \<open>Driver calls, statements and transactions\<close>

type_synonym 'a dbop = "(database, go_error, 'a) op"

definition driver_call :: "unit dbop" where
  "driver_call d =
     (case db_faults d of
        [] \<Rightarrow> (Inr (), d)
      | None # fs \<Rightarrow> (Inr (), d\<lparr>db_faults := fs\<rparr>)
      | Some f # fs \<Rightarrow> (Inl (fault_error f), d\<lparr>db_faults := fs\<rparr>))"

text \<open>\<open>QueryRow(...).Scan(...)\<close>: the row, or \<open>sql.ErrNoRows\<close>.\<close>

definition db_query_row :: "(database \<Rightarrow> 'a option) \<Rightarrow> 'a dbop" where
  "db_query_row f =
     andThen driver_call (\<lambda>_ d. case f d of None \<Rightarrow> (Inl ErrNoRows, d) | Some x \<Rightarrow> (Inr x, d))"

definition db_query :: "(database \<Rightarrow> 'a) \<Rightarrow> 'a dbop" where
  "db_query f = andThen driver_call (\<lambda>_. getState f)"

text \<open>\<open>Exec\<close> of a statement that violates no constraint; the value is what the caller reads
  of the result, usually the number of affected rows.\<close>

definition db_exec :: "(database \<Rightarrow> 'a \<times> database) \<Rightarrow> 'a dbop" where
  "db_exec f = andThen driver_call (\<lambda>_ d. case f d of (x, d') \<Rightarrow> (Inr x, d'))"

text \<open>\<open>Exec\<close> of a statement with a constraint, which fails without effect when it is
  violated.\<close>

definition db_exec_checked :: "string \<Rightarrow> (database \<Rightarrow> bool) \<Rightarrow> (database \<Rightarrow> 'a \<times> database) \<Rightarrow> 'a dbop" where
  "db_exec_checked msg ok f =
     andThen driver_call (\<lambda>_ d. if ok d then (case f d of (x, d') \<Rightarrow> (Inr x, d')) else (Inl (ErrNew msg), d))"

definition rollback :: "database \<Rightarrow> database \<Rightarrow> database" where
  "rollback d d' = d\<lparr>db_faults := db_faults d'\<rparr>"

text \<open>\<open>bw\<close> and \<open>cw\<close> wrap the errors of \<open>BeginTx\<close> and \<open>Commit\<close>.\<close>

definition db_tx_with :: "(go_error \<Rightarrow> go_error) \<Rightarrow> (go_error \<Rightarrow> go_error) \<Rightarrow> 'a dbop \<Rightarrow> 'a dbop" where
  "db_tx_with bw cw body d =
     (case driver_call d of
        (Inl e, d1) \<Rightarrow> (Inl (bw e), d1)
      | (Inr _, d1) \<Rightarrow>
          (case body d1 of
             (Inl e, d2) \<Rightarrow> (Inl e, rollback d1 d2)
           | (Inr x, d2) \<Rightarrow>
               (case driver_call d2 of
                  (Inl e, d3) \<Rightarrow> (Inl (cw e), rollback d1 d3)
                | (Inr _, d3) \<Rightarrow> (Inr x, d3))))"

definition db_tx :: "'a dbop \<Rightarrow> 'a dbop" where
  "db_tx = db_tx_with id id"

definition wrap :: "string \<Rightarrow> go_error \<Rightarrow> go_error" where
  "wrap msg e = Wrapf msg [e]"

definition wrap_op :: "string \<Rightarrow> ('s, go_error, 'a) op \<Rightarrow> ('s, go_error, 'a) op" where
  "wrap_op msg m s = (case m s of (Inl e, s') \<Rightarrow> (Inl (wrap msg e), s') | (Inr x, s') \<Rightarrow> (Inr x, s'))"

text \<open>\<open>requireAffected\<close>: no affected row is \<open>sql.ErrNoRows\<close>.\<close>

definition requireAffected :: "nat \<Rightarrow> ('s, go_error, unit) op" where
  "requireAffected n = (if n = 0 then raise ErrNoRows else ret ())"

definition nullString :: "string \<Rightarrow> string option" where
  "nullString s = (if s = [] then None else Some s)"

definition nullableUnix :: "time option \<Rightarrow> int option" where
  "nullableUnix t = map_option unix t"

definition timePtr :: "int option \<Rightarrow> time option" where
  "timePtr v = map_option from_unix v"

definition unixTime :: "int option \<Rightarrow> time" where
  "unixTime v = (case v of None \<Rightarrow> zero_time | Some s \<Rightarrow> from_unix s)"

definition coalesce :: "string option \<Rightarrow> string" where
  "coalesce v = (case v of None \<Rightarrow> [] | Some s \<Rightarrow> s)"

definition cleanupBatchSize :: nat where "cleanupBatchSize = 500"

lemma coalesce_nullString [simp]: "coalesce (nullString s) = s"
  by (simp add: coalesce_def nullString_def)


subsection \<open>Evaluation without faults\<close>

lemma driver_call_ok [monad_simps]: "db_faults d = [] \<Longrightarrow> driver_call d = (Inr (), d)"
  by (simp add: driver_call_def)

lemma db_query_row_ok [monad_simps]:
  "db_faults d = [] \<Longrightarrow>
   db_query_row f d = (case f d of None \<Rightarrow> (Inl ErrNoRows, d) | Some x \<Rightarrow> (Inr x, d))"
  by (simp add: db_query_row_def monad_simps)

lemma db_query_ok [monad_simps]: "db_faults d = [] \<Longrightarrow> db_query f d = (Inr (f d), d)"
  by (simp add: db_query_def monad_simps)

lemma db_exec_ok [monad_simps]:
  "db_faults d = [] \<Longrightarrow> db_exec f d = (case f d of (x, d') \<Rightarrow> (Inr x, d'))"
  by (simp add: db_exec_def monad_simps)

lemma db_exec_checked_ok [monad_simps]:
  "db_faults d = [] \<Longrightarrow>
   db_exec_checked msg ok f d =
     (if ok d then (case f d of (x, d') \<Rightarrow> (Inr x, d')) else (Inl (ErrNew msg), d))"
  by (simp add: db_exec_checked_def monad_simps)

lemma db_tx_with_ok [monad_simps]:
  "db_faults d = [] \<Longrightarrow>
   db_tx_with bw cw body d =
     (case body d of
        (Inl e, d2) \<Rightarrow> (Inl e, rollback d d2)
      | (Inr x, d2) \<Rightarrow> (case driver_call d2 of (Inl e, d3) \<Rightarrow> (Inl (cw e), rollback d d3)
                      | (Inr _, d3) \<Rightarrow> (Inr x, d3)))"
  by (simp add: db_tx_with_def driver_call_ok)

lemma wrap_op_run [monad_simps]:
  "wrap_op msg m s = (case m s of (Inl e, s') \<Rightarrow> (Inl (wrap msg e), s') | (Inr x, s') \<Rightarrow> (Inr x, s'))"
  by (simp add: wrap_op_def)

lemma requireAffected_run [monad_simps]:
  "requireAffected n s = (if n = 0 then (Inl ErrNoRows, s) else (Inr (), s))"
  by (simp add: requireAffected_def ret_def raise_def)


subsection \<open>Atomicity and frames\<close>

lemma driver_call_tables: "driver_call d = (r, d') \<Longrightarrow> tables d' = tables d"
  by (auto simp: driver_call_def tables_def split: list.splits option.splits)

lemma tables_rollback [simp]: "tables (rollback d d') = tables d"
  by (simp add: rollback_def tables_def)

text \<open>A transaction that returns an error has not changed the tables, at whatever point
  the driver failed.\<close>

lemma db_tx_with_atomic: "db_tx_with bw cw body d = (Inl e, d') \<Longrightarrow> tables d' = tables d"
  by (auto simp: db_tx_with_def dest!: driver_call_tables split: sum.splits prod.splits)

lemma db_tx_atomic: "db_tx body d = (Inl e, d') \<Longrightarrow> tables d' = tables d"
  by (simp add: db_tx_def db_tx_with_atomic)

text \<open>A relation that ignores the pending faults.\<close>

definition table_rel :: "(database \<Rightarrow> database \<Rightarrow> bool) \<Rightarrow> bool" where
  "table_rel R \<longleftrightarrow> (\<forall>d d' e e'. tables d = tables d' \<longrightarrow> tables e = tables e' \<longrightarrow> R d e = R d' e')"

lemma table_relD: "table_rel R \<Longrightarrow> tables d = tables d' \<Longrightarrow> tables e = tables e' \<Longrightarrow> R d e = R d' e'"
  unfolding table_rel_def by blast

lemma table_rel_self: "table_rel R \<Longrightarrow> reflp R \<Longrightarrow> tables e = tables d \<Longrightarrow> R d e"
  by (metis table_relD reflpD)

lemma keeps_driver_call [keeps_intros]: "table_rel R \<Longrightarrow> reflp R \<Longrightarrow> keeps R driver_call"
  unfolding keeps_def using driver_call_tables table_rel_self by (metis prod.collapse)

lemma keeps_pure:
  "(\<And>d. R d (snd (f d))) \<Longrightarrow> keeps R f"
  by (simp add: keeps_def)

lemma keeps_db_query_row [keeps_intros]:
  "table_rel R \<Longrightarrow> reflp R \<Longrightarrow> transp R \<Longrightarrow> keeps R (db_query_row f)"
  unfolding db_query_row_def
  by (intro keeps_andThen keeps_driver_call keeps_pure) (auto simp: reflpD split: option.splits)

lemma keeps_db_query [keeps_intros]:
  "table_rel R \<Longrightarrow> reflp R \<Longrightarrow> transp R \<Longrightarrow> keeps R (db_query f)"
  unfolding db_query_def by (intro keeps_intros)

lemma keeps_db_exec [keeps_intros]:
  assumes "table_rel R" "reflp R" "transp R" "\<And>d. R d (snd (f d))"
  shows "keeps R (db_exec f)"
  unfolding db_exec_def
  by (intro keeps_andThen keeps_driver_call keeps_pure) (use assms in \<open>simp_all add: split_def\<close>)

lemma keeps_db_exec_checked [keeps_intros]:
  assumes "table_rel R" "reflp R" "transp R" "\<And>d. ok d \<Longrightarrow> R d (snd (f d))"
  shows "keeps R (db_exec_checked msg ok f)"
  unfolding db_exec_checked_def
  by (intro keeps_andThen keeps_driver_call keeps_pure)
     (use assms in \<open>simp_all add: split_def reflpD\<close>)

lemma keeps_wrap_op [keeps_intros]: "keeps R m \<Longrightarrow> keeps R (wrap_op msg m)"
proof -
  assume "keeps R m"
  then have "R s (snd (m s))" for s by (rule keepsD)
  then show ?thesis
    by (auto simp: keeps_def wrap_op_def split: prod.splits sum.splits) (metis snd_conv)+
qed

lemma keeps_requireAffected [keeps_intros]: "reflp R \<Longrightarrow> keeps R (requireAffected n)"
  by (simp add: requireAffected_def keeps_ret keeps_raise)

lemma keeps_db_tx_with [keeps_intros]:
  assumes "table_rel R" "reflp R" "transp R" "keeps R body"
  shows "keeps R (db_tx_with bw cw body)"
  unfolding keeps_def
proof
  fix d
  obtain r d' where run: "db_tx_with bw cw body d = (r, d')" by fastforce
  have "R d d'"
  proof (cases r)
    case (Inl e)
    with run show ?thesis using db_tx_with_atomic table_rel_self assms(1,2) by metis
  next
    case (Inr x)
    with run obtain d1 d2 where d1: "driver_call d = (Inr (), d1)" and d2: "body d1 = (Inr x, d2)"
      and d3: "driver_call d2 = (Inr (), d')"
      by (auto simp: db_tx_with_def split: prod.splits sum.splits)
    have "R d1 d2" using keepsD' [OF assms(4) d2] .
    then show ?thesis
      using driver_call_tables [OF d1] driver_call_tables [OF d3] table_relD [OF assms(1)] by metis
  qed
  with run show "R d (snd (db_tx_with bw cw body d))" by simp
qed

lemma keeps_db_tx [keeps_intros]:
  "table_rel R \<Longrightarrow> reflp R \<Longrightarrow> transp R \<Longrightarrow> keeps R body \<Longrightarrow> keeps R (db_tx body)"
  unfolding db_tx_def by (rule keeps_db_tx_with)

lemma table_rel_same [keeps_intros]:
  "(\<And>d. f (tables d) = f d) \<Longrightarrow> table_rel (same f)"
  unfolding table_rel_def same_def by metis

lemma table_rel_stable [keeps_intros]:
  "(\<And>d. I (tables d) = I d) \<Longrightarrow> table_rel (stable I)"
  unfolding table_rel_def stable_def by metis

lemma tables_sel [simp]:
  "db_epoch (tables d) = db_epoch d" "db_accounts (tables d) = db_accounts d"
  "db_capabilities (tables d) = db_capabilities d" "db_states (tables d) = db_states d"
  "db_oauth (tables d) = db_oauth d" "db_usage (tables d) = db_usage d"
  "db_keys (tables d) = db_keys d" "db_admin_sessions (tables d) = db_admin_sessions d"
  "db_responses (tables d) = db_responses d" "db_auth_sources (tables d) = db_auth_sources d"
  "db_auth_global (tables d) = db_auth_global d"
  by (simp_all add: tables_def)

lemma rollback_sel [simp]:
  "db_faults (rollback d d') = db_faults d'" "rollback d d = d"
  "db_accounts (rollback d d') = db_accounts d" "db_oauth (rollback d d') = db_oauth d"
  "db_states (rollback d d') = db_states d" "db_auth_sources (rollback d d') = db_auth_sources d"
  "db_auth_global (rollback d d') = db_auth_global d"
  by (simp_all add: rollback_def)



subsection \<open>Runs that may fault\<close>

lemma fault_error_not_no_rows [simp]: "fault_error f \<noteq> ErrNoRows" "\<not> errors_is (fault_error f) ErrNoRows"
  by (cases f; simp add: fault_error_def)+

lemma driver_call_cases:
  obtains (ok) d' where "driver_call d = (Inr (), d')" "tables d' = tables d"
  | (fault) f d' where "driver_call d = (Inl (fault_error f), d')" "tables d' = tables d"
proof (cases "db_faults d")
  case Nil
  then show ?thesis using ok by (simp add: driver_call_def)
next
  case (Cons f fs)
  then show ?thesis using ok fault
    by (cases f) (simp_all add: driver_call_def tables_def)
qed

text \<open>A row query returns the row, or \<open>ErrNoRows\<close> when there is none, or a fault; the tables
  stay as they are.\<close>

lemma db_query_row_cases:
  obtains (row) x d' where "db_query_row f d = (Inr x, d')" "f d' = Some x" "tables d' = tables d"
  | (none) d' where "db_query_row f d = (Inl ErrNoRows, d')" "f d' = None" "tables d' = tables d"
  | (fault) e d' where "db_query_row f d = (Inl (fault_error e), d')" "tables d' = tables d"
proof (cases d rule: driver_call_cases)
  case (ok d')
  with row none show ?thesis by (cases "f d'") (auto simp: db_query_row_def monad_simps)
next
  case (fault e d')
  with that(3) show ?thesis by (auto simp: db_query_row_def monad_simps)
qed

lemma db_exec_cases:
  obtains (ok) d0 where "db_exec f d = (Inr (fst (f d0)), snd (f d0))" "tables d0 = tables d"
  | (fault) e d' where "db_exec f d = (Inl (fault_error e), d')" "tables d' = tables d"
  by (cases d rule: driver_call_cases) (auto simp: db_exec_def monad_simps split_def)

lemma db_exec_checked_cases:
  obtains (ok) d0 where "db_exec_checked msg ok f d = (Inr (fst (f d0)), snd (f d0))" "ok d0"
      "tables d0 = tables d"
  | (violated) d' where "db_exec_checked msg ok f d = (Inl (ErrNew msg), d')" "\<not> ok d'"
      "tables d' = tables d"
  | (fault) e d' where "db_exec_checked msg ok f d = (Inl (fault_error e), d')" "tables d' = tables d"
proof (cases d rule: driver_call_cases)
  case run: (ok d')
  then show ?thesis
    using ok violated by (cases "ok d'") (simp_all add: db_exec_checked_def monad_simps split_def)
next
  case run: (fault f d')
  then show ?thesis using fault by (simp add: db_exec_checked_def monad_simps)
qed

lemma db_query_cases:
  obtains (ok) d' where "db_query f d = (Inr (f d'), d')" "tables d' = tables d"
  | (fault) e d' where "db_query f d = (Inl (fault_error e), d')" "tables d' = tables d"
  by (cases d rule: driver_call_cases) (auto simp: db_query_def monad_simps)

lemma db_tx_with_Inr:
  assumes "db_tx_with bw cw body d = (Inr x, d')"
  obtains d1 d2 where "tables d1 = tables d" "body d1 = (Inr x, d2)" "tables d2 = tables d'"
  using assms
  by (auto simp: db_tx_with_def dest!: driver_call_tables split: prod.splits sum.splits)

lemma db_tx_Inr:
  assumes "db_tx body d = (Inr x, d')"
  obtains d1 d2 where "tables d1 = tables d" "body d1 = (Inr x, d2)" "tables d2 = tables d'"
  using assms unfolding db_tx_def by (rule db_tx_with_Inr)


subsection \<open>Results and scanned rows\<close>

definition lift_result :: "'e + 'a \<Rightarrow> ('s, 'e, 'a) op" where
  "lift_result r = (case r of Inl e \<Rightarrow> raise e | Inr x \<Rightarrow> ret x)"

lemma lift_result_run [monad_simps]: "lift_result r s = (r, s)"
  by (cases r) (simp_all add: lift_result_def monad_simps)

lemma keeps_lift_result [keeps_intros]: "reflp R \<Longrightarrow> keeps R (lift_result r)"
  by (cases r) (simp_all add: lift_result_def keeps_ret keeps_raise)

text \<open>\<open>for rows.Next() { ... Scan ... }\<close>: all rows, or the first error.\<close>

fun scan_all :: "('r \<Rightarrow> go_error + 'a) \<Rightarrow> 'r list \<Rightarrow> go_error + 'a list" where
  "scan_all f [] = Inr []"
| "scan_all f (r # rs) =
     (case f r of Inl e \<Rightarrow> Inl e
      | Inr x \<Rightarrow> (case scan_all f rs of Inl e \<Rightarrow> Inl e | Inr xs \<Rightarrow> Inr (x # xs)))"

lemma lift_result_returns [returns_simps]: "lift_result r s = (Inr y, s') \<longleftrightarrow> r = Inr y \<and> s' = s"
  by (auto simp: lift_result_def raise_def ret_def split: sum.splits)

lemma wrap_op_returns [returns_simps]: "wrap_op msg m s = (Inr y, s') \<longleftrightarrow> m s = (Inr y, s')"
  by (auto simp: wrap_op_def split: prod.splits sum.splits)

lemma requireAffected_returns [returns_simps]: "requireAffected n s = (Inr y, s') \<longleftrightarrow> n \<noteq> 0 \<and> s' = s"
  by (auto simp: requireAffected_def raise_def ret_def)

lemma db_exec_returns:
  assumes "db_exec f d = (Inr x, d')"
  obtains d0 where "tables d0 = tables d" "f d0 = (x, d')"
  using assms by (cases d rule: db_exec_cases [where f = f]) (metis prod.collapse Pair_inject sum.inject(2) sum.distinct(1))+

lemma db_exec_checked_returns:
  assumes "db_exec_checked msg ok f d = (Inr x, d')"
  obtains d0 where "tables d0 = tables d" "ok d0" "f d0 = (x, d')"
  using assms by (cases d rule: db_exec_checked_cases [where f = f and ok = ok and msg = msg])
    (metis prod.collapse Pair_inject sum.inject(2) sum.distinct(1))+

lemma db_query_returns:
  assumes "db_query f d = (Inr x, d')"
  shows "x = f d'" "tables d' = tables d"
  using assms by (cases d rule: db_query_cases [where f = f]; simp)+

lemma db_query_row_returns:
  assumes "db_query_row f d = (Inr x, d')"
  shows "f d' = Some x" "tables d' = tables d"
  using assms by (cases d rule: db_query_row_cases [where f = f]; simp)+

lemma scan_all_Inr: "scan_all f rs = Inr xs \<Longrightarrow> list_all2 (\<lambda>r x. f r = Inr x) rs xs"
  by (induction rs arbitrary: xs) (auto split: sum.splits)

lemma scan_all_total: "(\<And>r. r \<in> set rs \<Longrightarrow> \<exists>x. f r = Inr x) \<Longrightarrow> \<exists>xs. scan_all f rs = Inr xs"
proof (induction rs)
  case (Cons r rs)
  from Cons.prems obtain x where "f r = Inr x" by auto
  moreover from Cons obtain xs where "scan_all f rs = Inr xs" by auto
  ultimately show ?case by simp
qed simp

end
