(* ===== verification/Envelope.thy ===== *)
theory Envelope
  imports Provider_Types
begin

text \<open>
  Encryption envelopes and derived keys (\<open>internal/crypto/envelope.go\<close>,
  \<open>internal/crypto/keys.go\<close>). The AEAD cipher, HMAC and HKDF of the standard library are
  parameters: \<open>aead_laws\<close> is the documented behaviour of \<open>cipher.AEAD\<close> that \<open>Decrypt\<close> relies
  on. The raw URL-safe base64 of \<open>encoding/base64\<close> is modelled in full, with its round trip.
  Random bytes are an argument, error or bytes, as \<open>rand.Read\<close> yields them.
\<close>


section \<open>Raw URL-safe base64\<close>

definition b64_alphabet :: string where
  "b64_alphabet = ''ABCDEFGHIJKLMNOPQRSTUVWXYZabcdefghijklmnopqrstuvwxyz0123456789-_''"

definition b64_char :: "nat \<Rightarrow> char" where
  "b64_char n = b64_alphabet ! n"

fun char_index :: "char \<Rightarrow> nat \<Rightarrow> string \<Rightarrow> nat option" where
  "char_index c i [] = None"
| "char_index c i (x # xs) = (if x = c then Some i else char_index c (Suc i) xs)"

definition b64_value :: "char \<Rightarrow> nat option" where
  "b64_value c = char_index c 0 b64_alphabet"

fun b64_sextets :: "nat list \<Rightarrow> nat list" where
  "b64_sextets [] = []"
| "b64_sextets [a] = [a div 4, (a mod 4) * 16]"
| "b64_sextets [a, b] = [a div 4, (a mod 4) * 16 + b div 16, (b mod 16) * 4]"
| "b64_sextets (a # b # c # rest) =
     (a div 4) # ((a mod 4) * 16 + b div 16) # ((b mod 16) * 4 + c div 64) # (c mod 64) # b64_sextets rest"

text \<open>A single left-over character is corrupt; the unused low bits of the last character are
  ignored, as outside strict mode.\<close>

fun b64_bytes :: "nat list \<Rightarrow> nat list option" where
  "b64_bytes [] = Some []"
| "b64_bytes [p] = None"
| "b64_bytes [p, q] = Some [p * 4 + q div 16]"
| "b64_bytes [p, q, r] = Some [p * 4 + q div 16, (q mod 16) * 16 + r div 4]"
| "b64_bytes (p # q # r # s # rest) =
     map_option (\<lambda>bs. (p * 4 + q div 16) # ((q mod 16) * 16 + r div 4) # ((r mod 4) * 64 + s) # bs)
       (b64_bytes rest)"

definition EncodeToString :: "string \<Rightarrow> string" where
  "EncodeToString bs = map b64_char (b64_sextets (map of_char bs))"

definition DecodeString :: "string \<Rightarrow> string option" where
  "DecodeString s =
     (let vs = map b64_value (filter (\<lambda>c. c \<noteq> CHR 0x0A \<and> c \<noteq> CHR 0x0D) s)
      in if None \<in> set vs then None else map_option (map char_of) (b64_bytes (map the vs)))"

lemma b64_table:
  "list_all (\<lambda>i. b64_value (b64_char i) = Some i \<and> b64_char i \<noteq> CHR 0x0A \<and> b64_char i \<noteq> CHR 0x0D) [0..<64]"
  by code_simp

lemma b64_value_char:
  "i < 64 \<Longrightarrow> b64_value (b64_char i) = Some i"
  "i < 64 \<Longrightarrow> b64_char i \<noteq> CHR 0x0A" "i < 64 \<Longrightarrow> b64_char i \<noteq> CHR 0x0D"
  using b64_table by (auto simp: list_all_iff)

lemma b64_sextets_bound: "\<forall>b \<in> set bs. b < 256 \<Longrightarrow> i \<in> set (b64_sextets bs) \<Longrightarrow> i < 64"
  by (induction bs rule: b64_sextets.induct) auto

lemma sextet_join [simp]:
  "b < 256 \<Longrightarrow> b div 16 div 16 = (0 :: nat)" "c < 256 \<Longrightarrow> c div 64 div 4 = (0 :: nat)"
  "b < 256 \<Longrightarrow> b div 16 mod 16 * 16 + b mod 16 = (b :: nat)"
  "c < 256 \<Longrightarrow> c div 64 mod 4 * 64 + c mod 64 = (c :: nat)"
proof -
  have d: "b < 256 \<Longrightarrow> b div 16 < (16 :: nat)" "c < 256 \<Longrightarrow> c div 64 < (4 :: nat)" by auto
  then show "b < 256 \<Longrightarrow> b div 16 div 16 = 0" "c < 256 \<Longrightarrow> c div 64 div 4 = 0" by (metis div_less)+
  from d show "b < 256 \<Longrightarrow> b div 16 mod 16 * 16 + b mod 16 = b" "c < 256 \<Longrightarrow> c div 64 mod 4 * 64 + c mod 64 = c"
    by (simp_all add: mod_less div_mult_mod_eq)
qed

lemma b64_bytes_sextets: "\<forall>b \<in> set bs. b < 256 \<Longrightarrow> b64_bytes (b64_sextets bs) = Some bs"
  by (induction bs rule: b64_sextets.induct) simp_all

lemma DecodeString_EncodeToString: "DecodeString (EncodeToString bs) = Some bs"
proof -
  let ?is = "b64_sextets (map of_char bs)"
  have b: "\<forall>b \<in> set (map of_char bs :: nat list). b < 256" by auto
  have i: "i < 64" if "i \<in> set ?is" for i using b64_sextets_bound [OF b that] .
  have "filter (\<lambda>c. c \<noteq> CHR 0x0A \<and> c \<noteq> CHR 0x0D) (map b64_char ?is) = map b64_char ?is"
    using i b64_value_char by (auto simp: filter_id_conv)
  moreover have v: "map b64_value (map b64_char ?is) = map Some ?is"
    using i b64_value_char by simp
  ultimately have "DecodeString (EncodeToString bs) = map_option (map char_of) (b64_bytes ?is)"
    unfolding DecodeString_def EncodeToString_def Let_def
    by (simp only: v) (simp add: comp_def image_iff)
  then show ?thesis using b64_bytes_sextets [OF b] by (simp add: comp_def map_idI)
qed


text \<open>\<open>hex.EncodeToString\<close>.\<close>

definition hex_digit :: "nat \<Rightarrow> char" where
  "hex_digit n = ''0123456789abcdef'' ! n"

definition hex_encode :: "string \<Rightarrow> string" where
  "hex_encode bs = concat (map (\<lambda>c. [hex_digit (of_char c div 16), hex_digit (of_char c mod 16)]) bs)"


section \<open>Envelopes\<close>

record aead =
  ad_NonceSize :: nat
  ad_Overhead :: nat
  ad_Seal :: "string \<Rightarrow> string \<Rightarrow> string \<Rightarrow> string \<Rightarrow> string"
  ad_Open :: "string \<Rightarrow> string \<Rightarrow> string \<Rightarrow> string \<Rightarrow> string option"

text \<open>\<open>Open\<close> inverts \<open>Seal\<close> for the same key, nonce and additional data, and sealing adds the
  overhead to the length.\<close>

definition aead_laws :: "aead \<Rightarrow> bool" where
  "aead_laws A \<longleftrightarrow> (\<forall>k n p a. length n = ad_NonceSize A \<longrightarrow>
     ad_Open A k n (ad_Seal A k n p a) a = Some p \<and>
     length (ad_Seal A k n p a) = length p + ad_Overhead A)"

definition envelopePrefix :: string where "envelopePrefix = ''v1:''"
definition envelopeDomain :: string where "envelopeDomain = ''byos/envelope/v1''"

definition Encrypt :: "aead \<Rightarrow> string \<Rightarrow> go_error + string \<Rightarrow> string \<Rightarrow> go_error + string" where
  "Encrypt A key rnd plaintext =
     (case rnd of
        Inl e \<Rightarrow> Inl (Wrapf ''generate nonce'' [e])
      | Inr nonce \<Rightarrow>
          Inr (envelopePrefix @ EncodeToString (nonce @ ad_Seal A key nonce plaintext envelopeDomain)))"

definition Decrypt :: "aead \<Rightarrow> string \<Rightarrow> string \<Rightarrow> go_error + string" where
  "Decrypt A key envelope =
     (if \<not> hasPrefix envelope envelopePrefix then Inl (ErrNew ''unsupported encryption envelope'')
      else case DecodeString (trimPrefix envelope envelopePrefix) of
        None \<Rightarrow> Inl (ErrNew ''malformed encryption envelope'')
      | Some payload \<Rightarrow>
          if length payload < ad_NonceSize A + ad_Overhead A
          then Inl (ErrNew ''malformed encryption envelope'')
          else case ad_Open A key (take (ad_NonceSize A) payload) (drop (ad_NonceSize A) payload) envelopeDomain of
            None \<Rightarrow> Inl (ErrNew ''decrypt encryption envelope'')
          | Some plaintext \<Rightarrow> Inr plaintext)"


section \<open>Derived keys\<close>

record keys =
  k_oauth :: string
  k_transcript :: string
  k_billing :: string
  k_identity :: string
  k_webSession :: string
  k_adminAuthSource :: string

text \<open>\<open>hkdf master salt info length\<close> is \<open>hkdf.Key\<close> over SHA-256.\<close>

definition DeriveKeys ::
  "(string \<Rightarrow> string \<Rightarrow> string \<Rightarrow> nat \<Rightarrow> go_error + string) \<Rightarrow> string \<Rightarrow> go_error + keys" where
  "DeriveKeys hkdf master =
     (if length master \<noteq> 32 then Inl (ErrNew ''master key must be 32 bytes'')
      else let derive = (\<lambda>info. hkdf master ''byos/v1'' info 32) in
        case derive ''oauth-credentials'' of Inl e \<Rightarrow> Inl e | Inr oauth \<Rightarrow>
        (case derive ''responses-transcript'' of Inl e \<Rightarrow> Inl e | Inr transcript \<Rightarrow>
        (case derive ''billing-raw-snapshot'' of Inl e \<Rightarrow> Inl e | Inr billing \<Rightarrow>
        (case derive ''identity-fingerprint'' of Inl e \<Rightarrow> Inl e | Inr identity \<Rightarrow>
        (case derive ''web-session-signing'' of Inl e \<Rightarrow> Inl e | Inr webSession \<Rightarrow>
        (case derive ''admin-auth-source-hmac'' of Inl e \<Rightarrow> Inl e | Inr adminAuthSource \<Rightarrow>
           Inr \<lparr>k_oauth = oauth, k_transcript = transcript, k_billing = billing, k_identity = identity,
             k_webSession = webSession, k_adminAuthSource = adminAuthSource\<rparr>))))))"

text \<open>\<open>netip.Addr\<close>: no address, four bytes, or sixteen bytes with a zone.\<close>

datatype addr = AddrZero | Addr4 string | Addr6 string string

definition v4_mapped_prefix :: string where
  "v4_mapped_prefix = replicate 10 (CHR 0x00) @ [CHR 0xFF, CHR 0xFF]"

fun Unmap :: "addr \<Rightarrow> addr" where
  "Unmap (Addr6 b zone) = (if take 12 b = v4_mapped_prefix then Addr4 (drop 12 b) else Addr6 b zone)"
| "Unmap a = a"

fun As16 :: "addr \<Rightarrow> string" where
  "As16 AddrZero = replicate 16 (CHR 0x00)"
| "As16 (Addr4 b) = v4_mapped_prefix @ b"
| "As16 (Addr6 b zone) = b"

text \<open>The bytes written to the MAC.\<close>

definition admin_source_message :: "addr \<Rightarrow> string" where
  "admin_source_message address =
     ''admin-auth-source/v1'' @ [CHR 0x00] @
       (case Unmap address of Addr4 b \<Rightarrow> CHR 0x04 # b | a \<Rightarrow> CHR 0x06 # As16 a)"

definition AdminAuthSourceFingerprint :: "(string \<Rightarrow> string \<Rightarrow> string) \<Rightarrow> keys \<Rightarrow> addr \<Rightarrow> string" where
  "AdminAuthSourceFingerprint hmac k address = hmac (k_adminAuthSource k) (admin_source_message address)"

definition identity_message :: "string \<Rightarrow> string \<Rightarrow> string" where
  "identity_message issuer subject = issuer @ [CHR 0x00] @ subject"

definition keys_IdentityFingerprint :: "(string \<Rightarrow> string \<Rightarrow> string) \<Rightarrow> keys \<Rightarrow> string \<Rightarrow> string \<Rightarrow> string" where
  "keys_IdentityFingerprint hmac k issuer subject = hmac (k_identity k) (identity_message issuer subject)"


section \<open>Lemmas and properties\<close>

lemma Decrypt_Encrypt:
  assumes "aead_laws A" "length nonce = ad_NonceSize A" "Encrypt A key (Inr nonce) p = Inr env"
  shows "Decrypt A key env = Inr p"
proof -
  let ?sealed = "ad_Seal A key nonce p envelopeDomain"
  have e: "env = envelopePrefix @ EncodeToString (nonce @ ?sealed)"
    using assms(3) by (simp add: Encrypt_def)
  have "ad_Open A key nonce ?sealed envelopeDomain = Some p" "length ?sealed = length p + ad_Overhead A"
    using assms(1,2) by (simp_all add: aead_laws_def)
  then show ?thesis
    by (simp add: Decrypt_def e trimPrefix_def DecodeString_EncodeToString assms(2))
qed

text \<open>An encryption envelope opens to the plaintext it was made of: for every key, every
  plaintext and every nonce of the cipher's size, \<open>Encrypt\<close> yields an envelope and \<open>Decrypt\<close>
  with the same key returns the plaintext.\<close>

theorem envelope_roundtrip:
  assumes "aead_laws A" "length nonce = ad_NonceSize A"
  shows "\<exists>env. Encrypt A key (Inr nonce) p = Inr env \<and> Decrypt A key env = Inr p"
  using Decrypt_Encrypt [OF assms] by (auto simp: Encrypt_def)

text \<open>A stand-in cipher that satisfies the laws.\<close>

definition sample_aead :: aead where
  "sample_aead = \<lparr>ad_NonceSize = 2, ad_Overhead = 1, ad_Seal = (\<lambda>k n p a. p @ [CHR ''t'']),
     ad_Open = (\<lambda>k n c a. if c = [] \<or> last c \<noteq> CHR ''t'' then None else Some (butlast c))\<rparr>"

lemma sample_aead_laws: "aead_laws sample_aead"
  by (simp add: aead_laws_def sample_aead_def)

theorem envelope_roundtrip_witness:
  "\<exists>env. Encrypt sample_aead ''k'' (Inr ''nn'') ''secret'' = Inr env \<and> Decrypt sample_aead ''k'' env = Inr ''secret''"
  using envelope_roundtrip [OF sample_aead_laws, of "''nn''" "''k''" "''secret''"]
  by (simp add: sample_aead_def)

lemma append_NUL_inject:
  "CHR 0x00 \<notin> set a \<Longrightarrow> CHR 0x00 \<notin> set a' \<Longrightarrow> a @ CHR 0x00 # b = a' @ CHR 0x00 # b' \<Longrightarrow> a = a' \<and> b = b'"
  by (induction a arbitrary: a') (case_tac a'; auto)+

text \<open>The message of an identity fingerprint determines issuer and subject, so only a hash
  collision merges two identities, as long as the issuer has no NUL byte.\<close>

lemma identity_message_inject:
  "CHR 0x00 \<notin> set i \<Longrightarrow> CHR 0x00 \<notin> set i' \<Longrightarrow> identity_message i s = identity_message i' s' \<Longrightarrow> i = i' \<and> s = s'"
  unfolding identity_message_def append_Cons append_Nil by (rule append_NUL_inject)

fun addr_wf :: "addr \<Rightarrow> bool" where
  "addr_wf AddrZero = True"
| "addr_wf (Addr4 b) = (length b = 4)"
| "addr_wf (Addr6 b zone) = (length b = 16)"

lemma Unmap_wf: "addr_wf a \<Longrightarrow> addr_wf (Unmap a)"
  by (cases a) auto

text \<open>The throttle counts a client once: an IPv4 address and its IPv4-in-IPv6 form give the
  same MAC input, and two real addresses with the same input are the same address up to that
  mapping and the IPv6 zone.\<close>

theorem admin_source_message_identifies:
  assumes "addr_wf a" "addr_wf b" "a \<noteq> AddrZero" "b \<noteq> AddrZero"
  shows "admin_source_message a = admin_source_message b \<longleftrightarrow> As16 (Unmap a) = As16 (Unmap b)"
proof -
  have aux: "As16 (Unmap c) = take 12 (As16 (Unmap c)) @ drop 12 (As16 (Unmap c))" for c by simp
  have form: "(\<exists>x. Unmap c = Addr4 x \<and> length x = 4) \<or>
      (\<exists>x z. Unmap c = Addr6 x z \<and> length x = 16 \<and> take 12 x \<noteq> v4_mapped_prefix)"
    if "addr_wf c" "c \<noteq> AddrZero" for c
    using that by (cases c) auto
  have l: "length v4_mapped_prefix = 12" by (simp add: v4_mapped_prefix_def)
  from form [OF assms(1,3)] form [OF assms(2,4)] show ?thesis
    by (elim disjE exE conjE) (auto simp: admin_source_message_def l)
qed

theorem admin_source_message_identifies_witness:
  "admin_source_message (Addr4 [CHR 0x7F, CHR 0x00, CHR 0x00, CHR 0x01]) =
   admin_source_message (Addr6 (v4_mapped_prefix @ [CHR 0x7F, CHR 0x00, CHR 0x00, CHR 0x01]) ''eth0'')"
  using admin_source_message_identifies [of "Addr4 [CHR 0x7F, CHR 0x00, CHR 0x00, CHR 0x01]"
      "Addr6 (v4_mapped_prefix @ [CHR 0x7F, CHR 0x00, CHR 0x00, CHR 0x01]) ''eth0''"]
  by (simp add: v4_mapped_prefix_def numeral_eq_Suc)

end
