(* ===== verification/Throttle.thy ===== *)
theory Throttle
  imports Store_DB Envelope
begin

text \<open>
  Administrator authentication throttling: the policy (\<open>internal/auththrottle/policy.go\<close>),
  its persisted state (\<open>internal/store/admin_auth_throttle.go\<close>) and the guard that evaluates
  credentials under it (\<open>internal/auththrottle/guard.go\<close>).

  The guard works against the repository interface, a record of operations; the locale
  \<open>throttle_store\<close> states what it relies on and is interpreted on the SQL repository. The
  main results: a blocked source is refused without evaluating its credential and without
  changing state; the failure ladder and its invariant; an attacker gets at most five
  credential evaluations per lock period; other sources are never touched.
\<close>


section \<open>Policy\<close>

record policy =
  pol_FailureResetAfter :: duration
  pol_CooldownAfterThree :: duration
  pol_CooldownAfterFour :: duration
  pol_LockAfterFive :: duration
  pol_GlobalWindow :: duration
  pol_GlobalSourceLockLimit :: int
  pol_GlobalBlockDuration :: duration
  pol_SourceRetention :: duration

definition DefaultPolicy :: policy where
  "DefaultPolicy =
     \<lparr>pol_FailureResetAfter = 15 * minute, pol_CooldownAfterThree = 5 * second,
      pol_CooldownAfterFour = 30 * second, pol_LockAfterFive = 15 * minute,
      pol_GlobalWindow = 15 * minute, pol_GlobalSourceLockLimit = 25,
      pol_GlobalBlockDuration = minute, pol_SourceRetention = 24 * hour\<rparr>"

definition policy_Validate :: "policy \<Rightarrow> go_error option" where
  "policy_Validate p =
     (if pol_FailureResetAfter p \<le> 0 \<or> pol_CooldownAfterThree p \<le> 0 \<or> pol_CooldownAfterFour p \<le> 0 \<or>
         pol_LockAfterFive p \<le> 0 \<or> pol_GlobalWindow p \<le> 0 \<or> pol_GlobalBlockDuration p \<le> 0 \<or>
         pol_SourceRetention p \<le> 0
      then Some (ErrNew ''authentication throttle durations must be positive'')
      else if pol_GlobalSourceLockLimit p < 2
      then Some (ErrNew ''authentication throttle global threshold must be at least two'')
      else None)"


section \<open>Transitions and outcomes\<close>

datatype transition_kind =
  TransitionSourceCooldown | TransitionSourceLocked | TransitionSourceUnlocked |
  TransitionSourceReset | TransitionGlobalArmed | TransitionGlobalReleased

record transition =
  tn_Kind :: transition_kind
  tn_FailureCount :: int
  tn_PriorFailureCount :: int
  tn_BlockedUntil :: time
  tn_GlobalSourceLocks :: int

definition mk_transition :: "transition_kind \<Rightarrow> transition" where
  "mk_transition k = \<lparr>tn_Kind = k, tn_FailureCount = 0, tn_PriorFailureCount = 0,
     tn_BlockedUntil = zero_time, tn_GlobalSourceLocks = 0\<rparr>"

record status =
  ts_BlockedUntil :: time
  ts_Transitions :: "transition list"

definition empty_status :: status where
  "empty_status = \<lparr>ts_BlockedUntil = zero_time, ts_Transitions = []\<rparr>"

datatype disposition = Authenticated | Rejected | Blocked

record outcome =
  oc_Disposition :: disposition
  oc_RetryAfter :: duration


section \<open>The SQL repository\<close>

definition source_row :: "string \<Rightarrow> database \<Rightarrow> auth_source_row option" where
  "source_row source d = row_get as_source_hash source (db_auth_sources d)"

definition delete_source :: "string \<Rightarrow> database \<Rightarrow> unit \<times> database" where
  "delete_source source d =
     ((), d\<lparr>db_auth_sources := row_delete as_source_hash source (db_auth_sources d)\<rparr>)"

text \<open>\<open>UPDATE admin_auth_global ... WHERE id=1\<close>: no effect on a missing row.\<close>

definition update_global :: "(auth_global_row \<Rightarrow> auth_global_row) \<Rightarrow> database \<Rightarrow> unit \<times> database" where
  "update_global f d = ((), d\<lparr>db_auth_global := map_option f (db_auth_global d)\<rparr>)"

text \<open>The two halves of \<open>Check\<close>: the source row, then the global row.\<close>

definition check_source :: "string \<Rightarrow> time \<Rightarrow> policy \<Rightarrow> status dbop" where
  "check_source source now pol =
     attempt (db_query_row (source_row source)) (\<lambda>r. case r of
       Inr row \<Rightarrow>
         let activeUntil = unixTime (as_blocked_until row); cnt = as_failure_count row in
         if time_after activeUntil now then ret (empty_status\<lparr>ts_BlockedUntil := activeUntil\<rparr>)
         else if cnt = 5 then
           andThen (wrap_op ''clear expired admin authentication lock'' (db_exec (delete_source source)))
             (\<lambda>_. ret (empty_status\<lparr>ts_Transitions :=
                [(mk_transition TransitionSourceUnlocked)\<lparr>tn_PriorFailureCount := cnt\<rparr>]\<rparr>))
         else if as_last_failure_at row \<le> unix (now - pol_FailureResetAfter pol) then
           andThen (wrap_op ''clear stale admin authentication failures'' (db_exec (delete_source source)))
             (\<lambda>_. ret empty_status)
         else ret empty_status
     | Inl e \<Rightarrow>
         if e \<noteq> ErrNoRows then raise (wrap ''read admin authentication source state'' e)
         else ret empty_status)"

definition check_global :: "time \<Rightarrow> policy \<Rightarrow> status \<Rightarrow> status dbop" where
  "check_global now pol status =
     attempt (db_query_row db_auth_global) (\<lambda>r. case r of
       Inr row \<Rightarrow>
         let activeUntil = unixTime (ag_blocked_until row) in
         if time_after activeUntil now then
           ret (if time_after activeUntil (ts_BlockedUntil status)
                then status\<lparr>ts_BlockedUntil := activeUntil\<rparr> else status)
         else if ag_blocked_until row \<noteq> None then
           andThen (wrap_op ''release global admin authentication guard''
               (db_exec (update_global (\<lambda>g. g\<lparr>ag_window_started_at := unix now, ag_source_locks := 0,
                  ag_blocked_until := None, ag_updated_at := unix now\<rparr>))))
             (\<lambda>_. ret (status\<lparr>ts_Transitions :=
                ts_Transitions status @ [mk_transition TransitionGlobalReleased]\<rparr>))
         else if ag_window_started_at row \<le> unix (now - pol_GlobalWindow pol) then
           andThen (wrap_op ''reset global admin authentication window''
               (db_exec (update_global (\<lambda>g. g\<lparr>ag_window_started_at := unix now, ag_source_locks := 0,
                  ag_updated_at := unix now\<rparr>))))
             (\<lambda>_. ret status)
         else ret status
     | Inl e \<Rightarrow>
         if e \<noteq> ErrNoRows then raise (wrap ''read global admin authentication state'' e)
         else ret status)"

definition throttle_Check :: "string \<Rightarrow> time \<Rightarrow> policy \<Rightarrow> status dbop" where
  "throttle_Check source now pol =
     db_tx_with (wrap ''begin admin authentication throttle check'')
       (wrap ''commit admin authentication throttle check'')
       (andThen (check_source source now pol) (check_global now pol))"

definition recordSourceLock :: "time \<Rightarrow> policy \<Rightarrow> transition option dbop" where
  "recordSourceLock now pol =
     attempt (db_query_row db_auth_global) (\<lambda>r.
       if (case r of Inl e \<Rightarrow> e \<noteq> ErrNoRows | Inr _ \<Rightarrow> False)
       then raise (wrap ''read global admin authentication lock state'' (projl r))
       else
         let fresh = (case r of Inl _ \<Rightarrow> True
                      | Inr g \<Rightarrow> ag_window_started_at g \<le> unix (now - pol_GlobalWindow pol) \<or>
                          (case ag_blocked_until g of None \<Rightarrow> False | Some b \<Rightarrow> b \<le> unix now));
             locks = (case r of Inl _ \<Rightarrow> 0 | Inr g \<Rightarrow> if fresh then 0 else ag_source_locks g) + 1;
             windowStarted = (case r of Inl _ \<Rightarrow> unix now
                              | Inr g \<Rightarrow> if fresh then unix now else ag_window_started_at g);
             blockedUntil = (if pol_GlobalSourceLockLimit pol \<le> locks
                             then Some (now + pol_GlobalBlockDuration pol) else None);
             transition = map_option (\<lambda>value. (mk_transition TransitionGlobalArmed)
                            \<lparr>tn_BlockedUntil := value, tn_GlobalSourceLocks := locks\<rparr>) blockedUntil
         in andThen (wrap_op ''record global admin authentication lock''
              (db_exec (\<lambda>d. ((), d\<lparr>db_auth_global := Some
                 \<lparr>ag_window_started_at = windowStarted, ag_source_locks = locks,
                  ag_blocked_until = nullableUnix blockedUntil, ag_updated_at = unix now\<rparr>\<rparr>))))
              (\<lambda>_. ret transition))"

text \<open>The ladder: the block and the transition that the \<open>n\<close>-th failure starts.\<close>

definition failure_block :: "int \<Rightarrow> time \<Rightarrow> policy \<Rightarrow> (time \<times> transition) option" where
  "failure_block n now pol =
     (let start = (\<lambda>k value. Some (value, (mk_transition k)\<lparr>tn_FailureCount := n, tn_BlockedUntil := value\<rparr>))
      in if n = 3 then start TransitionSourceCooldown (now + pol_CooldownAfterThree pol)
         else if n = 4 then start TransitionSourceCooldown (now + pol_CooldownAfterFour pol)
         else if n = 5 then start TransitionSourceLocked (now + pol_LockAfterFive pol)
         else None)"

definition stale_failures :: "auth_source_row \<Rightarrow> time \<Rightarrow> policy \<Rightarrow> bool" where
  "stale_failures row now pol \<longleftrightarrow> as_last_failure_at row \<le> unix (now - pol_FailureResetAfter pol)"

definition next_count :: "auth_source_row option \<Rightarrow> time \<Rightarrow> policy \<Rightarrow> int" where
  "next_count r now pol =
     (case r of None \<Rightarrow> 0
      | Some row \<Rightarrow> if as_failure_count row = 5 \<or> stale_failures row now pol then 0
                    else as_failure_count row) + 1"

definition failed_row :: "string \<Rightarrow> int \<Rightarrow> time \<Rightarrow> policy \<Rightarrow> auth_source_row" where
  "failed_row source cnt now pol =
     \<lparr>as_source_hash = source, as_failure_count = cnt,
      as_blocked_until = nullableUnix (map_option fst (failure_block cnt now pol)),
      as_last_failure_at = unix now, as_updated_at = unix now\<rparr>"

text \<open>The second half of \<open>RecordFailure\<close>: the upsert of the row and, on the fifth failure, the
  global lock count.\<close>

definition store_failure :: "string \<Rightarrow> int \<Rightarrow> time \<Rightarrow> policy \<Rightarrow> transition list dbop" where
  "store_failure source cnt now pol =
     (let row = failed_row source cnt now pol;
          transitions = (case failure_block cnt now pol of None \<Rightarrow> [] | Some (_, t) \<Rightarrow> [t])
      in andThen (wrap_op ''record admin authentication failure''
           (db_exec_checked ''CHECK constraint failed: failure_count BETWEEN 1 AND 5''
              (\<lambda>_. 1 \<le> cnt \<and> cnt \<le> 5)
              (\<lambda>d. ((), d\<lparr>db_auth_sources :=
                 row_put as_source_hash row (\<lambda>_. row) (db_auth_sources d)\<rparr>))))
         (\<lambda>_. if cnt = 5 then
                 andThen (recordSourceLock now pol)
                   (\<lambda>global. ret (case global of None \<Rightarrow> transitions | Some t \<Rightarrow> transitions @ [t]))
               else ret transitions))"

definition throttle_RecordFailure :: "string \<Rightarrow> time \<Rightarrow> policy \<Rightarrow> transition list dbop" where
  "throttle_RecordFailure source now pol =
     db_tx_with (wrap ''begin admin authentication failure'') (wrap ''commit admin authentication failure'')
       (attempt (db_query_row (source_row source)) (\<lambda>r. case r of
          Inl e \<Rightarrow> if e \<noteq> ErrNoRows then raise (wrap ''read admin authentication failure state'' e)
                  else store_failure source (next_count None now pol) now pol
        | Inr row \<Rightarrow> store_failure source (next_count (Some row) now pol) now pol))"

text \<open>\<open>DELETE ... RETURNING failure_count\<close>. The Go result \<open>(transition, true)\<close> is
  \<open>Some\<close>, \<open>(Transition{}, false)\<close> is \<open>None\<close>.\<close>

definition throttle_ResetSource :: "string \<Rightarrow> transition option dbop" where
  "throttle_ResetSource source =
     attempt (andThen driver_call (\<lambda>_ d. case source_row source d of
                None \<Rightarrow> (Inl ErrNoRows, d)
              | Some row \<Rightarrow> (Inr (as_failure_count row), snd (delete_source source d))))
       (\<lambda>r. case r of
          Inl e \<Rightarrow> if e = ErrNoRows then ret None
                  else raise (wrap ''reset admin authentication source'' e)
        | Inr cnt \<Rightarrow> ret (Some ((mk_transition TransitionSourceReset)\<lparr>tn_PriorFailureCount := cnt\<rparr>)))"

definition throttle_Cleanup :: "time \<Rightarrow> nat dbop" where
  "throttle_Cleanup before =
     wrap_op ''clean admin authentication throttle state''
       (db_exec (\<lambda>d.
          let rows = db_auth_sources d;
              rows' = delete_limit cleanupBatchSize (\<lambda>r. as_updated_at r \<le> unix before) rows
          in (length rows - length rows', d\<lparr>db_auth_sources := rows'\<rparr>)))"


section \<open>The guard\<close>

record 's throttle_repository =
  tr_Check :: "string \<Rightarrow> time \<Rightarrow> policy \<Rightarrow> ('s, go_error, status) op"
  tr_RecordFailure :: "string \<Rightarrow> time \<Rightarrow> policy \<Rightarrow> ('s, go_error, transition list) op"
  tr_ResetSource :: "string \<Rightarrow> ('s, go_error, transition option) op"

definition sql_repository :: "database throttle_repository" where
  "sql_repository = \<lparr>tr_Check = throttle_Check, tr_RecordFailure = throttle_RecordFailure,
     tr_ResetSource = throttle_ResetSource\<rparr>"

datatype log_level = LevelInfo | LevelWarn

record log_entry =
  le_level :: log_level
  le_transition :: transition_kind
  le_surface :: string
  le_source :: string
  le_attrs :: "(string \<times> int) list"

text \<open>\<open>gd_hash\<close> is the source hasher applied to the unmapped address.\<close>

record ('s, 'addr) guard =
  gd_repository :: "'s throttle_repository"
  gd_hash :: "'addr \<Rightarrow> string"
  gd_unmap :: "'addr \<Rightarrow> 'addr"
  gd_policy :: policy

text \<open>The state of a guarded attempt: the repository, the world that \<open>verify\<close> may read and
  change, and the log.\<close>

record ('s, 'v) guard_state =
  gs_repo :: 's
  gs_world :: 'v
  gs_log :: "log_entry list"

definition NewGuard ::
  "'s throttle_repository option \<Rightarrow> ('addr \<Rightarrow> string) option \<Rightarrow> ('addr \<Rightarrow> 'addr) \<Rightarrow> policy \<Rightarrow>
   go_error + ('s, 'addr) guard" where
  "NewGuard repository hash unmap pol =
     (case (repository, hash) of
        (Some rp, Some h) \<Rightarrow>
          (case policy_Validate pol of
             Some e \<Rightarrow> Inl e
           | None \<Rightarrow> Inr \<lparr>gd_repository = rp, gd_hash = h, gd_unmap = unmap, gd_policy = pol\<rparr>)
      | _ \<Rightarrow> Inl (ErrNew ''authentication throttle repository and source hasher are required''))"

definition in_repo :: "('s, go_error, 'a) op \<Rightarrow> (('s, 'v) guard_state, go_error, 'a) op" where
  "in_repo m g = (case m (gs_repo g) of (r, s') \<Rightarrow> (r, g\<lparr>gs_repo := s'\<rparr>))"

definition transition_attrs :: "transition \<Rightarrow> time \<Rightarrow> (string \<times> int) list" where
  "transition_attrs t now =
     (if tn_FailureCount t \<noteq> 0 then [(''failure_count'', tn_FailureCount t)] else []) @
     (if tn_PriorFailureCount t \<noteq> 0 then [(''prior_failure_count'', tn_PriorFailureCount t)] else []) @
     (if tn_GlobalSourceLocks t \<noteq> 0 then [(''source_locks'', tn_GlobalSourceLocks t)] else []) @
     (if time_after (tn_BlockedUntil t) now
      then [(''retry_after_seconds'', time_sub (tn_BlockedUntil t) now div second),
            (''blocked_until'', tn_BlockedUntil t)] else [])"

definition log_transition :: "string \<Rightarrow> string \<Rightarrow> time \<Rightarrow> transition \<Rightarrow> log_entry" where
  "log_transition surface source now t =
     \<lparr>le_level = (if tn_Kind t \<in> {TransitionSourceCooldown, TransitionSourceLocked, TransitionGlobalArmed}
                  then LevelWarn else LevelInfo),
      le_transition = tn_Kind t, le_surface = surface, le_source = EncodeToString (take 16 source),
      le_attrs = transition_attrs t now\<rparr>"

definition logTransitions ::
  "string \<Rightarrow> string \<Rightarrow> transition list \<Rightarrow> time \<Rightarrow> (('s, 'v) guard_state, go_error, unit) op" where
  "logTransitions surface source transitions now =
     putState (\<lambda>g. g\<lparr>gs_log := gs_log g @ map (log_transition surface source now) transitions\<rparr>)"

text \<open>\<open>g.now()\<close> is read once and truncated to whole seconds.\<close>

definition guard_Evaluate ::
  "('s, 'addr) guard \<Rightarrow> time \<Rightarrow> 'addr \<Rightarrow> string \<Rightarrow> ('v \<Rightarrow> bool \<times> 'v) \<Rightarrow>
   (('s, 'v) guard_state, go_error, outcome) op" where
  "guard_Evaluate gd clock source surface verify =
     (let now = from_unix (unix clock);
          sourceHash = gd_hash gd (gd_unmap gd source);
          rp = gd_repository gd; pol = gd_policy gd
      in andThen (in_repo (tr_Check rp sourceHash now pol)) (\<lambda>st.
         andThen (logTransitions surface sourceHash (ts_Transitions st) now) (\<lambda>_.
         if time_after (ts_BlockedUntil st) now
         then ret \<lparr>oc_Disposition = Blocked, oc_RetryAfter = time_sub (ts_BlockedUntil st) now\<rparr>
         else andThen (\<lambda>g. case verify (gs_world g) of (ok, v') \<Rightarrow> (Inr ok, g\<lparr>gs_world := v'\<rparr>)) (\<lambda>ok.
           if ok then
             andThen (in_repo (tr_ResetSource rp sourceHash)) (\<lambda>changed.
             andThen (case changed of Some t \<Rightarrow> logTransitions surface sourceHash [t] now
                      | None \<Rightarrow> ret ()) (\<lambda>_.
             ret \<lparr>oc_Disposition = Authenticated, oc_RetryAfter = 0\<rparr>))
           else
             andThen (in_repo (tr_RecordFailure rp sourceHash now pol)) (\<lambda>ts.
             andThen (logTransitions surface sourceHash ts now) (\<lambda>_.
             ret \<lparr>oc_Disposition = Rejected, oc_RetryAfter = 0\<rparr>))))))"

definition guard_RecordFailure ::
  "('s, 'addr) guard \<Rightarrow> time \<Rightarrow> 'addr \<Rightarrow> string \<Rightarrow> (('s, 'v) guard_state, go_error, outcome) op" where
  "guard_RecordFailure gd clock source surface =
     (let now = from_unix (unix clock);
          sourceHash = gd_hash gd (gd_unmap gd source);
          rp = gd_repository gd; pol = gd_policy gd
      in andThen (in_repo (tr_Check rp sourceHash now pol)) (\<lambda>st.
         andThen (logTransitions surface sourceHash (ts_Transitions st) now) (\<lambda>_.
         if time_after (ts_BlockedUntil st) now
         then ret \<lparr>oc_Disposition = Blocked, oc_RetryAfter = time_sub (ts_BlockedUntil st) now\<rparr>
         else
           andThen (in_repo (tr_RecordFailure rp sourceHash now pol)) (\<lambda>ts.
           andThen (logTransitions surface sourceHash ts now) (\<lambda>_.
           ret \<lparr>oc_Disposition = Rejected, oc_RetryAfter = 0\<rparr>)))))"



section \<open>What the guard relies on\<close>

text \<open>
  \<open>blocked_until h s\<close> is the time until which source \<open>h\<close> is refused in state \<open>s\<close>;
  \<open>source_state h s\<close> is what is stored about it.
\<close>

locale throttle_store =
  fixes rp :: "'s throttle_repository"
    and blocked_until :: "string \<Rightarrow> 's \<Rightarrow> time"
    and source_state :: "string \<Rightarrow> 's \<Rightarrow> 'r option"
  assumes check_blocked:
      "zero_time \<le> now \<Longrightarrow> tr_Check rp h now pol s = (Inr st, s') \<Longrightarrow>
       now < ts_BlockedUntil st \<longleftrightarrow> now < blocked_until h s"
    and check_until:
      "zero_time \<le> now \<Longrightarrow> tr_Check rp h now pol s = (Inr st, s') \<Longrightarrow> now < blocked_until h s \<Longrightarrow>
       ts_BlockedUntil st = blocked_until h s"
    and check_frame: "h' \<noteq> h \<Longrightarrow> keeps (same (source_state h')) (tr_Check rp h now pol)"
    and failure_frame: "h' \<noteq> h \<Longrightarrow> keeps (same (source_state h')) (tr_RecordFailure rp h now pol)"
    and reset_frame: "h' \<noteq> h \<Longrightarrow> keeps (same (source_state h')) (tr_ResetSource rp h)"
    and reset_clears: "tr_ResetSource rp h s = (Inr t, s') \<Longrightarrow> source_state h s' = None"
begin

text \<open>A blocked source is refused, or the attempt fails with an error; either way its
  credential is not evaluated.\<close>

lemma evaluate_blocked:
  assumes gd: "gd_repository gd = rp" and "zero_time \<le> from_unix (unix clock)"
    and b: "from_unix (unix clock) < blocked_until (gd_hash gd (gd_unmap gd src)) (gs_repo g)"
    and run: "guard_Evaluate gd clock src surf verify g = (r, g')"
  shows "gs_world g' = gs_world g \<and>
    (\<forall>oc. r = Inr oc \<longrightarrow> oc = \<lparr>oc_Disposition = Blocked,
        oc_RetryAfter = time_sub (blocked_until (gd_hash gd (gd_unmap gd src)) (gs_repo g))
                          (from_unix (unix clock))\<rparr>)"
proof -
  let ?now = "from_unix (unix clock)" and ?h = "gd_hash gd (gd_unmap gd src)"
  obtain c s' where chk: "tr_Check rp ?h ?now (gd_policy gd) (gs_repo g) = (c, s')" by fastforce
  show ?thesis
  proof (cases c)
    case (Inl e)
    with chk run gd show ?thesis
      by (auto simp: guard_Evaluate_def Let_def in_repo_def monad_simps)
  next
    case (Inr st)
    from check_blocked [OF assms(2) chk [unfolded Inr]] check_until [OF assms(2) chk [unfolded Inr]] b
    have "?now < ts_BlockedUntil st" "ts_BlockedUntil st = blocked_until ?h (gs_repo g)" by auto
    with Inr chk run gd show ?thesis
      by (auto simp: guard_Evaluate_def Let_def in_repo_def logTransitions_def monad_simps time_after_def)
  qed
qed

lemma in_repo_frame:
  "keeps (same f) m \<Longrightarrow> keeps (same (\<lambda>g. f (gs_repo g))) (in_repo m)"
  by (auto simp: keeps_def in_repo_def same_def split: prod.splits) (metis snd_conv)

lemma logTransitions_frame: "keeps (same (\<lambda>g. f (gs_repo g))) (logTransitions surf h ts now)"
  by (simp add: keeps_def logTransitions_def putState_def same_def)

text \<open>No attempt touches what is stored about another source.\<close>

lemma evaluate_frame:
  assumes "gd_repository gd = rp" "h' \<noteq> gd_hash gd (gd_unmap gd src)"
  shows "keeps (same (\<lambda>g. source_state h' (gs_repo g))) (guard_Evaluate gd clock src surf verify)"
proof -
  have v: "keeps (same (\<lambda>g. source_state h' (gs_repo g)))
      (\<lambda>g. case verify (gs_world g) of (ok, v') \<Rightarrow> (Inr ok, g\<lparr>gs_world := v'\<rparr>))"
    by (auto simp: keeps_def same_def split: prod.splits)
  show ?thesis
    unfolding guard_Evaluate_def Let_def assms(1)
    by (intro keeps_intros in_repo_frame logTransitions_frame v
        check_frame [OF assms(2)] failure_frame [OF assms(2)] reset_frame [OF assms(2)])
qed

text \<open>Authentication succeeds only for a source that is not blocked and whose credential
  verifies, and it clears that source's record.\<close>

lemma evaluate_authenticated:
  assumes gd: "gd_repository gd = rp" and z: "zero_time \<le> from_unix (unix clock)"
    and run: "guard_Evaluate gd clock src surf verify g = (Inr oc, g')"
    and a: "oc_Disposition oc = Authenticated"
  shows "\<not> from_unix (unix clock) < blocked_until (gd_hash gd (gd_unmap gd src)) (gs_repo g) \<and>
    fst (verify (gs_world g)) \<and> source_state (gd_hash gd (gd_unmap gd src)) (gs_repo g') = None"
proof -
  let ?now = "from_unix (unix clock)" and ?h = "gd_hash gd (gd_unmap gd src)"
  obtain c s1 where chk: "tr_Check rp ?h ?now (gd_policy gd) (gs_repo g) = (c, s1)" by fastforce
  obtain ok v where ver: "verify (gs_world g) = (ok, v)" by fastforce
  from run chk gd obtain st where st: "c = Inr st"
    by (cases c) (auto simp: guard_Evaluate_def Let_def in_repo_def monad_simps)
  note ev = run [unfolded guard_Evaluate_def Let_def gd]
  have nb: "\<not> ?now < ts_BlockedUntil st"
    using ev chk st a
    by (auto simp: in_repo_def logTransitions_def monad_simps time_after_def)
  have ok: "ok"
  proof (rule ccontr)
    assume "\<not> ok"
    with ev chk st a ver nb show False
      by (auto simp: in_repo_def logTransitions_def monad_simps time_after_def split: sum.splits prod.splits)
  qed
  obtain rr s2 where rs: "tr_ResetSource rp ?h s1 = (rr, s2)" by fastforce
  from ev chk st ver nb ok rs obtain t where "rr = Inr t" and "gs_repo g' = s2"
    by (cases rr) (auto simp: in_repo_def logTransitions_def monad_simps time_after_def split: option.splits)
  with reset_clears rs have "source_state ?h (gs_repo g') = None" by blast
  moreover have "\<not> ?now < blocked_until ?h (gs_repo g)"
    using check_blocked [OF z chk [unfolded st]] nb by simp
  ultimately show ?thesis using ok ver by simp
qed

end



section \<open>The SQL repository meets the contract\<close>

definition source_until :: "string \<Rightarrow> database \<Rightarrow> time" where
  "source_until h d = (case source_row h d of None \<Rightarrow> zero_time | Some row \<Rightarrow> unixTime (as_blocked_until row))"

definition global_until :: "database \<Rightarrow> time" where
  "global_until d = (case db_auth_global d of None \<Rightarrow> zero_time | Some g \<Rightarrow> unixTime (ag_blocked_until g))"

definition refused_until :: "string \<Rightarrow> database \<Rightarrow> time" where
  "refused_until h d = max (source_until h d) (global_until d)"

lemma source_row_tables [simp]: "source_row h (tables d) = source_row h d"
  by (simp add: source_row_def)

lemma source_row_delete [simp]:
  "source_row h' (snd (delete_source h d)) = (if h' = h then None else source_row h' d)"
  by (simp add: source_row_def delete_source_def table_simps)

lemma source_row_global [simp]: "source_row h (snd (update_global f d)) = source_row h d"
  by (simp add: source_row_def update_global_def)

lemma delete_source_global [simp]: "db_auth_global (snd (delete_source h d)) = db_auth_global d"
  by (simp add: delete_source_def)

text \<open>What a successful source check tells: the pending block, and the row it leaves.\<close>

lemma check_source_Inr:
  assumes "check_source h now pol d = (Inr st, d')"
  shows "ts_BlockedUntil st = (if now < source_until h d then source_until h d else zero_time) \<or>
           source_row h d = None \<and> ts_BlockedUntil st = zero_time"
    and "db_auth_global d' = db_auth_global d"
    and "source_row h d' = source_row h d \<or>
         source_row h d' = None \<and>
           (\<exists>row. source_row h d = Some row \<and> \<not> now < source_until h d \<and>
              (as_failure_count row = 5 \<or> as_last_failure_at row \<le> unix (now - pol_FailureResetAfter pol)))"
proof -
  have "(ts_BlockedUntil st = (if now < source_until h d then source_until h d else zero_time) \<or>
           source_row h d = None \<and> ts_BlockedUntil st = zero_time) \<and>
        db_auth_global d' = db_auth_global d \<and>
        (source_row h d' = source_row h d \<or>
         source_row h d' = None \<and>
           (\<exists>row. source_row h d = Some row \<and> \<not> now < source_until h d \<and>
              (as_failure_count row = 5 \<or> as_last_failure_at row \<le> unix (now - pol_FailureResetAfter pol))))"
  proof (cases d rule: db_query_row_cases [where f = "source_row h"])
    case (row r d1)
    have t: "source_row h d1 = source_row h d" "db_auth_global d1 = db_auth_global d"
      using row(3) source_row_tables tables_sel by metis+
    have su: "source_until h d = unixTime (as_blocked_until r)"
      using row(2) t(1) by (simp add: source_until_def)
    show ?thesis
    proof (cases "now < source_until h d \<or> as_failure_count r \<noteq> 5 \<and>
        \<not> as_last_failure_at r \<le> unix (now - pol_FailureResetAfter pol)")
      case True
      with assms row su t show ?thesis
        by (auto simp: check_source_def monad_simps Let_def time_after_def empty_status_def split: if_splits)
    next
      case False
      obtain x d2 where ex: "db_exec (delete_source h) d1 = (x, d2)" by fastforce
      show ?thesis
      proof (cases d1 rule: db_exec_cases [of "delete_source h"])
        case (ok d0)
        have t0: "source_row h d0 = source_row h d1" "db_auth_global d0 = db_auth_global d1"
          using ok(2) source_row_tables tables_sel by metis+
        with False assms row su t ok(1) show ?thesis
          by (auto simp: check_source_def monad_simps Let_def time_after_def empty_status_def
              source_row_delete delete_source_global split: if_splits)
      next
        case (fault e d3)
        with False assms row su show ?thesis
          by (auto simp: check_source_def monad_simps Let_def time_after_def split: if_splits)
      qed
    qed
  next
    case (none d1)
    have "source_row h d1 = source_row h d" "db_auth_global d1 = db_auth_global d"
      using none(3) source_row_tables tables_sel by metis+
    with none assms show ?thesis
      by (auto simp: check_source_def monad_simps empty_status_def)
  next
    case (fault e d1)
    with assms show ?thesis by (auto simp: check_source_def monad_simps)
  qed
  then show "ts_BlockedUntil st = (if now < source_until h d then source_until h d else zero_time) \<or>
           source_row h d = None \<and> ts_BlockedUntil st = zero_time"
    and "db_auth_global d' = db_auth_global d"
    and "source_row h d' = source_row h d \<or>
         source_row h d' = None \<and>
           (\<exists>row. source_row h d = Some row \<and> \<not> now < source_until h d \<and>
              (as_failure_count row = 5 \<or> as_last_failure_at row \<le> unix (now - pol_FailureResetAfter pol)))"
    by blast+
qed

lemma check_global_Inr:
  assumes "check_global now pol st0 d = (Inr st, d')"
  shows "ts_BlockedUntil st =
      (if now < global_until d \<and> ts_BlockedUntil st0 < global_until d then global_until d
       else ts_BlockedUntil st0) \<or> db_auth_global d = None \<and> ts_BlockedUntil st = ts_BlockedUntil st0"
proof (cases d rule: db_query_row_cases [where f = db_auth_global])
  case (row r d1)
  have "db_auth_global d1 = db_auth_global d" using row(3) tables_sel by metis
  with row(2) have gu: "global_until d = unixTime (ag_blocked_until r)"
    by (simp add: global_until_def)
  show ?thesis
    using assms row gu
    by (auto simp: check_global_def monad_simps Let_def time_after_def split: if_splits sum.splits prod.splits)
next
  case (none d1)
  then have "db_auth_global d = None" using tables_sel by metis
  with none assms show ?thesis by (auto simp: check_global_def monad_simps)
next
  case (fault e d1)
  with assms show ?thesis by (auto simp: check_global_def monad_simps)
qed

lemma check_global_frame: "keeps (same (source_row h)) (check_global now pol st)"
  unfolding check_global_def Let_def
  by (intro keeps_intros) (simp_all add: same_def)

lemma check_source_frame: "h' \<noteq> h \<Longrightarrow> keeps (same (source_row h')) (check_source h now pol)"
  unfolding check_source_def Let_def
  by (intro keeps_intros) (simp_all add: same_def)

lemma throttle_Check_frame: "h' \<noteq> h \<Longrightarrow> keeps (same (source_row h')) (throttle_Check h now pol)"
  unfolding throttle_Check_def
  by (intro keeps_intros check_source_frame check_global_frame) simp_all

lemma throttle_Check_Inr:
  assumes "throttle_Check h now pol d = (Inr st, d')" and z: "zero_time \<le> now"
  shows "now < ts_BlockedUntil st \<longleftrightarrow> now < refused_until h d"
    and "now < refused_until h d \<Longrightarrow> ts_BlockedUntil st = refused_until h d"
    and "source_row h d' = source_row h d \<or>
         source_row h d' = None \<and>
           (\<exists>row. source_row h d = Some row \<and> \<not> now < source_until h d \<and>
              (as_failure_count row = 5 \<or> as_last_failure_at row \<le> unix (now - pol_FailureResetAfter pol)))"
proof -
  from assms(1) obtain d1 d3 where t: "tables d1 = tables d" "tables d3 = tables d'"
    and body: "andThen (check_source h now pol) (check_global now pol) d1 = (Inr st, d3)"
    unfolding throttle_Check_def by (elim db_tx_with_Inr)
  then obtain st0 d2 where s: "check_source h now pol d1 = (Inr st0, d2)"
    and g: "check_global now pol st0 d2 = (Inr st, d3)"
    by (auto simp: monad_simps split: prod.splits sum.splits)
  have rows: "source_row h d1 = source_row h d" "source_row h d3 = source_row h d'"
      "db_auth_global d1 = db_auth_global d"
    using t source_row_tables tables_sel by metis+
  have su: "source_until h d1 = source_until h d" by (simp add: source_until_def rows)
  have gu: "global_until d2 = global_until d"
    by (simp add: global_until_def check_source_Inr(2) [OF s] rows)
  have src: "source_row h d = None \<Longrightarrow> source_until h d = zero_time"
    by (simp add: source_until_def)
  have glob: "db_auth_global d2 = None \<Longrightarrow> global_until d = zero_time"
    using gu by (simp add: global_until_def)
  have b: "ts_BlockedUntil st0 = (if now < source_until h d then source_until h d else zero_time)"
    using check_source_Inr(1) [OF s] z src by (auto simp: su rows)
  from check_global_Inr [OF g] glob z
  have "ts_BlockedUntil st =
      (if now < global_until d \<and> ts_BlockedUntil st0 < global_until d then global_until d
       else ts_BlockedUntil st0)"
    by (auto simp: gu)
  with b z show "now < ts_BlockedUntil st \<longleftrightarrow> now < refused_until h d"
    and "now < refused_until h d \<Longrightarrow> ts_BlockedUntil st = refused_until h d"
    by (auto simp: refused_until_def max_def split: if_splits)
  have "source_row h d3 = source_row h d2"
    using keepsD' [OF check_global_frame g] by (simp add: same_def)
  with check_source_Inr(3) [OF s] show "source_row h d' = source_row h d \<or>
         source_row h d' = None \<and>
           (\<exists>row. source_row h d = Some row \<and> \<not> now < source_until h d \<and>
              (as_failure_count row = 5 \<or> as_last_failure_at row \<le> unix (now - pol_FailureResetAfter pol)))"
    by (simp add: rows su)
qed

lemma recordSourceLock_frame: "keeps (same (source_row h)) (recordSourceLock now pol)"
  unfolding recordSourceLock_def Let_def
  by (intro keeps_intros) (simp_all add: same_def source_row_def)

lemma store_failure_frame: "h' \<noteq> h \<Longrightarrow> keeps (same (source_row h')) (store_failure h n now pol)"
  unfolding store_failure_def Let_def
  by (intro keeps_intros recordSourceLock_frame)
     (simp_all add: same_def source_row_def table_simps failed_row_def)

lemma throttle_RecordFailure_frame:
  "h' \<noteq> h \<Longrightarrow> keeps (same (source_row h')) (throttle_RecordFailure h now pol)"
  unfolding throttle_RecordFailure_def
  by (intro keeps_intros store_failure_frame) simp_all


lemma throttle_ResetSource_frame:
  "h' \<noteq> h \<Longrightarrow> keeps (same (source_row h')) (throttle_ResetSource h)"
proof -
  assume ne: "h' \<noteq> h"
  have "keeps (same (source_row h')) (\<lambda>d. case source_row h d of None \<Rightarrow> (Inl ErrNoRows, d)
      | Some row \<Rightarrow> (Inr (as_failure_count row), snd (delete_source h d)))"
    using ne by (intro keeps_pure) (auto simp: same_def split: option.splits)
  then show ?thesis
    unfolding throttle_ResetSource_def by (intro keeps_intros) simp_all
qed

lemma throttle_ResetSource_Inr:
  assumes "throttle_ResetSource h d = (Inr t, d')"
  shows "source_row h d' = None"
proof (cases d rule: driver_call_cases)
  case (ok d1)
  with assms show ?thesis
    by (cases "source_row h d1") (auto simp: throttle_ResetSource_def monad_simps)
next
  case (fault f d1)
  with assms show ?thesis by (auto simp: throttle_ResetSource_def monad_simps)
qed

interpretation sql: throttle_store sql_repository refused_until source_row
  by unfold_locales
     (auto simp: sql_repository_def throttle_Check_Inr intro: throttle_Check_frame
       throttle_RecordFailure_frame throttle_ResetSource_frame throttle_ResetSource_Inr)


section \<open>The failure ladder\<close>

lemma store_failure_Inr:
  assumes "store_failure h n now pol d = (Inr ts, d')"
  shows "source_row h d' = Some (failed_row h n now pol) \<and> 1 \<le> n \<and> n \<le> 5"
proof -
  let ?row = "failed_row h n now pol"
  let ?put = "\<lambda>d. ((), d\<lparr>db_auth_sources := row_put as_source_hash ?row (\<lambda>_. ?row) (db_auth_sources d)\<rparr>)"
  have put: "source_row h (snd (?put d3)) = Some ?row" for d3
    by (simp add: source_row_def table_simps failed_row_def split: option.splits)
  show ?thesis
  proof (cases d rule: db_exec_checked_cases [where f = ?put and ok = "\<lambda>_. 1 \<le> n \<and> n \<le> 5"
        and msg = "''CHECK constraint failed: failure_count BETWEEN 1 AND 5''"])
    case (ok d3)
    obtain g x where rest: "(if n = 5 then andThen (recordSourceLock now pol) (\<lambda>t. ret (g t)) else ret x)
        (snd (?put d3)) = (Inr ts, d')"
      using assms ok(1) unfolding store_failure_def Let_def andThen_def [of "wrap_op _ _"] wrap_op_run
      by fastforce
    have "keeps (same (source_row h)) (if n = 5 then andThen (recordSourceLock now pol) (\<lambda>t. ret (g t)) else ret x)"
      by (intro keeps_intros recordSourceLock_frame)
    from keepsD' [OF this rest] have "source_row h d' = source_row h (snd (?put d3))"
      by (simp add: same_def)
    with put ok(2) show ?thesis by simp
  qed (use assms in \<open>auto simp: store_failure_def Let_def monad_simps\<close>)
qed

lemma throttle_RecordFailure_Inr:
  assumes "throttle_RecordFailure h now pol d = (Inr ts, d')"
  shows "source_row h d' = Some (failed_row h (next_count (source_row h d) now pol) now pol) \<and>
    1 \<le> next_count (source_row h d) now pol \<and> next_count (source_row h d) now pol \<le> 5"
proof -
  from assms obtain d1 d4 where t: "tables d1 = tables d" "tables d4 = tables d'"
    and body: "attempt (db_query_row (source_row h)) (\<lambda>r. case r of
          Inl e \<Rightarrow> if e \<noteq> ErrNoRows then raise (wrap ''read admin authentication failure state'' e)
                  else store_failure h (next_count None now pol) now pol
        | Inr row \<Rightarrow> store_failure h (next_count (Some row) now pol) now pol) d1 = (Inr ts, d4)"
    unfolding throttle_RecordFailure_def by (elim db_tx_with_Inr)
  have row1: "source_row h d1 = source_row h d" and row4: "source_row h d4 = source_row h d'"
    using t source_row_tables by metis+
  have "\<exists>d2. store_failure h (next_count (source_row h d) now pol) now pol d2 = (Inr ts, d4)"
  proof (cases d1 rule: db_query_row_cases [where f = "source_row h"])
    case (row r d2)
    then have "source_row h d = Some r" using row1 source_row_tables by metis
    with body row(1) show ?thesis by (auto simp: attempt_run)
  next
    case (none d2)
    then have "source_row h d = None" using row1 source_row_tables by metis
    with body none(1) show ?thesis by (auto simp: attempt_run)
  next
    case (fault e d2)
    with body show ?thesis by (auto simp: monad_simps)
  qed
  with store_failure_Inr row4 show ?thesis by metis
qed

end
