(* ===== verification/Throttle_Ladder.thy ===== *)
theory Throttle_Ladder
  imports Throttle
begin

text \<open>
  What the authentication throttle guarantees over whole runs: the ladder of one failed
  attempt, the invariant of the stored rows, and the brute-force bound. A run interleaves
  attempts from any sources with the retention sweep of \<open>internal/app/cleanup_worker.go\<close>.
\<close>


section \<open>Runs of attempts\<close>

text \<open>An attempt with the clock read by the guard, the source, the surface and whether the
  presented credential is right; or a sweep, which removes records older than the retention.
  The world of a run is the list of evaluated credentials: source hash and second.\<close>

datatype 'addr throttle_event =
  Attempt time 'addr string bool
| Sweep time

definition run_event ::
  "(database, 'addr) guard \<Rightarrow> 'addr throttle_event \<Rightarrow>
   ((database, (string \<times> int) list) guard_state, go_error, unit) op" where
  "run_event gd ev =
     (case ev of
        Attempt clock src surf good \<Rightarrow>
          andThen (guard_Evaluate gd clock src surf
                     (\<lambda>v. (good, v @ [(gd_hash gd (gd_unmap gd src), unix clock)])))
            (\<lambda>_. ret ())
      | Sweep clock \<Rightarrow>
          andThen (in_repo (throttle_Cleanup (clock - pol_SourceRetention (gd_policy gd)))) (\<lambda>_. ret ()))"

fun run_events ::
  "(database, 'addr) guard \<Rightarrow> 'addr throttle_event list \<Rightarrow>
   ((database, (string \<times> int) list) guard_state, go_error, unit) op" where
  "run_events gd [] = ret ()"
| "run_events gd (ev # evs) = andThen (run_event gd ev) (\<lambda>_. run_events gd evs)"

fun event_clock :: "'addr throttle_event \<Rightarrow> time" where
  "event_clock (Attempt clock src surf good) = clock"
| "event_clock (Sweep clock) = clock"

fun guesses :: "(database, 'addr) guard \<Rightarrow> string \<Rightarrow> 'addr throttle_event \<Rightarrow> bool" where
  "guesses gd h (Attempt clock src surf good) = (gd_hash gd (gd_unmap gd src) = h \<longrightarrow> \<not> good)"
| "guesses gd h (Sweep clock) = True"

text \<open>The seconds at which credentials of \<open>h\<close> were evaluated.\<close>

definition evaluated_at :: "string \<Rightarrow> (string \<times> int) list \<Rightarrow> int list" where
  "evaluated_at h world = map snd (filter (\<lambda>p. fst p = h) world)"

lemma evaluated_at_snoc [simp]:
  "evaluated_at h (w @ [(h', t)]) = (if h' = h then evaluated_at h w @ [t] else evaluated_at h w)"
  by (simp add: evaluated_at_def)


section \<open>One failed attempt\<close>

definition spent :: "auth_source_row option \<Rightarrow> time \<Rightarrow> policy \<Rightarrow> bool" where
  "spent r now pol \<longleftrightarrow> (\<exists>row. r = Some row \<and> \<not> now < unixTime (as_blocked_until row) \<and>
     (as_failure_count row = 5 \<or> stale_failures row now pol))"

text \<open>What a failing evaluation does to the row of its source: refused, with the row as the
  check leaves it, or counted.\<close>

lemma evaluate_failing:
  assumes gd: "gd_repository gd = sql_repository" and z: "zero_time \<le> from_unix (unix clock)"
    and run: "guard_Evaluate gd clock src surf (\<lambda>v. (False, f v)) g = (Inr oc, g')"
    and h: "h = gd_hash gd (gd_unmap gd src)" and now: "now = from_unix (unix clock)"
    and pol: "pol = gd_policy gd"
  obtains (refused) mid where "mid = source_row h (gs_repo g) \<or> mid = None \<and> spent (source_row h (gs_repo g)) now pol"
      "gs_world g' = gs_world g" "source_row h (gs_repo g') = mid" "now < refused_until h (gs_repo g)"
      "oc_Disposition oc = Blocked"
    | (counted) mid where "mid = source_row h (gs_repo g) \<or> mid = None \<and> spent (source_row h (gs_repo g)) now pol"
      "gs_world g' = f (gs_world g)" "\<not> now < refused_until h (gs_repo g)"
      "source_row h (gs_repo g') = Some (failed_row h (next_count mid now pol) now pol)"
      "1 \<le> next_count mid now pol" "next_count mid now pol \<le> 5" "oc_Disposition oc = Rejected"
proof -
  obtain c s1 where chk: "throttle_Check h now pol (gs_repo g) = (c, s1)" by fastforce
  note ev = run [unfolded guard_Evaluate_def Let_def gd, folded h now pol]
  from ev chk obtain st where st: "c = Inr st"
    by (cases c) (auto simp: in_repo_def sql_repository_def monad_simps)
  note facts = throttle_Check_Inr [OF chk [unfolded st] z [folded now]]
  have mid: "source_row h s1 = source_row h (gs_repo g) \<or>
      source_row h s1 = None \<and> spent (source_row h (gs_repo g)) now pol"
    using facts(3) by (auto simp: spent_def source_until_def stale_failures_def)
  show ?thesis
  proof (cases "now < ts_BlockedUntil st")
    case True
    with ev chk st have "gs_repo g' = s1 \<and> gs_world g' = gs_world g \<and> oc_Disposition oc = Blocked"
      by (auto simp: in_repo_def sql_repository_def logTransitions_def monad_simps time_after_def)
    with refused [OF mid] True facts(1) show ?thesis by simp
  next
    case False
    obtain q s2 where rf: "throttle_RecordFailure h now pol s1 = (q, s2)" by fastforce
    from ev chk st False rf obtain ts where "q = Inr ts" "gs_repo g' = s2" "gs_world g' = f (gs_world g)"
        "oc_Disposition oc = Rejected"
      by (cases q) (auto simp: in_repo_def sql_repository_def logTransitions_def monad_simps time_after_def)
    with throttle_RecordFailure_Inr rf counted [OF mid] False facts(1) show ?thesis by metis
  qed
qed


section \<open>The brute-force bound\<close>

text \<open>Evaluation times, latest first: \<open>chain W\<close> is the length of the latest stretch whose
  gaps are all shorter than \<open>W\<close> seconds.\<close>

fun chain :: "int \<Rightarrow> int list \<Rightarrow> nat" where
  "chain W [] = 0"
| "chain W [t] = 1"
| "chain W (t # t' # ts) = (if W \<le> t - t' then 1 else Suc (chain W (t' # ts)))"

fun chains_below :: "nat \<Rightarrow> int \<Rightarrow> int list \<Rightarrow> bool" where
  "chains_below n W [] = True"
| "chains_below n W (t # ts) = (chain W (t # ts) \<le> n \<and> chains_below n W ts)"

lemma chain_pos: "1 \<le> chain W (t # ts)"
  by (cases ts) auto

lemma chain_wide:
  assumes "sorted_wrt (\<ge>) ts" "k < length ts" "chain W ts \<le> k"
  shows "W \<le> ts ! 0 - ts ! k"
  using assms
proof (induction W ts arbitrary: k rule: chain.induct)
  case (3 W t t' ts)
  show ?case
  proof (cases "W \<le> t - t'")
    case True
    moreover obtain j where k: "k = Suc j" using "3.prems"(3) True by (cases k) auto
    moreover have "(t' # ts) ! j \<le> t'" using "3.prems"(1,2) k by (cases j) auto
    ultimately show ?thesis by simp
  next
    case False
    then obtain j where k: "k = Suc j" using "3.prems"(3) by (cases k) auto
    with "3.IH" [OF False, of j] "3.prems" False have "W \<le> t' - (t' # ts) ! j" by simp
    with "3.prems"(1) k show ?thesis by simp
  qed
qed auto

lemma chains_below_window:
  assumes "sorted_wrt (\<ge>) ts" "chains_below n W ts" "i + n < length ts"
  shows "W \<le> ts ! i - ts ! (i + n)"
  using assms
proof (induction ts arbitrary: i)
  case (Cons t ts)
  show ?case
  proof (cases i)
    case 0
    with Cons.prems chain_wide [of "t # ts" n W] show ?thesis by simp
  next
    case (Suc j)
    with Cons.prems Cons.IH [of j] show ?thesis by simp
  qed
qed simp

text \<open>The link between the evaluation times of a source, latest first, and its row at second
  \<open>now\<close>: the row counts at least the current chain, or a whole window has passed.\<close>

definition ladder_ok :: "policy \<Rightarrow> int \<Rightarrow> int \<Rightarrow> int list \<Rightarrow> auth_source_row option \<Rightarrow> bool" where
  "ladder_ok pol W now ts r \<longleftrightarrow>
     sorted_wrt (\<ge>) ts \<and> chains_below 5 W ts \<and>
     (case ts of [] \<Rightarrow> True
      | t # _ \<Rightarrow> t \<le> now \<and>
          (W \<le> now - t \<or>
           (\<exists>row. r = Some row \<and> as_last_failure_at row = t \<and> as_updated_at row = t \<and>
              int (chain W ts) \<le> as_failure_count row \<and>
              (as_failure_count row = 5 \<longrightarrow> as_blocked_until row = Some (unix (from_unix t + pol_LockAfterFive pol))))))"

definition guess_window :: "policy \<Rightarrow> int" where
  "guess_window pol =
     min (pol_LockAfterFive pol div second)
         (min (pol_FailureResetAfter pol div second) (pol_SourceRetention pol div second))"

lemma unix_minus: "unix (from_unix t - w) \<le> t - w div second"
  unfolding unix_def from_unix_def second_def by linarith

lemma unix_plus: "t + w div second \<le> unix (from_unix t + w)"
  unfolding unix_def from_unix_def second_def by simp

lemma ladder_ok_later: "ladder_ok pol W now ts r \<Longrightarrow> now \<le> now' \<Longrightarrow> ladder_ok pol W now' ts r"
  by (auto simp: ladder_ok_def split: list.splits)

lemma ladder_ok_forget:
  "ladder_ok pol W now ts r \<Longrightarrow> (\<And>t rest row. ts = t # rest \<Longrightarrow> r = Some row \<Longrightarrow> as_last_failure_at row = t \<Longrightarrow>
     as_updated_at row = t \<Longrightarrow> (as_failure_count row = 5 \<longrightarrow> as_blocked_until row = Some (unix (from_unix t + pol_LockAfterFive pol))) \<Longrightarrow>
     W \<le> now - t) \<Longrightarrow> ladder_ok pol W now ts r'"
  unfolding ladder_ok_def by (cases ts) fastforce+

lemma stale_window:
  "W \<le> pol_FailureResetAfter pol div second \<Longrightarrow> stale_failures row (from_unix now) pol \<Longrightarrow>
   W \<le> now - as_last_failure_at row"
  using unix_minus [of now "pol_FailureResetAfter pol"] by (simp add: stale_failures_def)

lemma lock_window:
  "W \<le> pol_LockAfterFive pol div second \<Longrightarrow>
   \<not> from_unix now < unixTime (Some (unix (from_unix t + pol_LockAfterFive pol))) \<Longrightarrow> W \<le> now - t"
  using unix_plus [of t "pol_LockAfterFive pol"] by (simp add: unixTime_def)

lemma ladder_ok_spent:
  assumes "ladder_ok pol W now ts r" "spent r (from_unix now) pol"
    and "W \<le> pol_LockAfterFive pol div second" "W \<le> pol_FailureResetAfter pol div second"
  shows "ladder_ok pol W now ts r'"
  using assms(1)
proof (rule ladder_ok_forget)
  fix t rest row
  assume "r = Some row" "as_last_failure_at row = t"
    "as_failure_count row = 5 \<longrightarrow> as_blocked_until row = Some (unix (from_unix t + pol_LockAfterFive pol))"
  then show "W \<le> now - t"
    using assms(2) lock_window [OF assms(3)] stale_window [OF assms(4)] by (auto simp: spent_def)
qed

text \<open>A counted failure extends the chain by one, or a window has passed since the last.\<close>

lemma ladder_ok_count:
  assumes ok: "ladder_ok pol W now ts r" and free: "\<not> from_unix now < (case r of None \<Rightarrow> zero_time | Some row \<Rightarrow> unixTime (as_blocked_until row))"
    and n: "n = next_count r (from_unix now) pol" "1 \<le> n" "n \<le> 5"
    and W: "W \<le> pol_LockAfterFive pol div second" "W \<le> pol_FailureResetAfter pol div second"
  shows "ladder_ok pol W now (now # ts) (Some (failed_row h n (from_unix now) pol))"
proof -
  have "int (chain W (now # ts)) \<le> n"
  proof (cases ts)
    case (Cons t rest)
    show ?thesis
    proof (cases "W \<le> now - t")
      case False
      with ok Cons obtain row where row: "r = Some row" "as_last_failure_at row = t"
          "int (chain W ts) \<le> as_failure_count row"
          "as_failure_count row = 5 \<longrightarrow> as_blocked_until row = Some (unix (from_unix t + pol_LockAfterFive pol))"
        by (auto simp: ladder_ok_def)
      with False free lock_window [OF W(1)] stale_window [OF W(2)]
      have "as_failure_count row \<noteq> 5" "\<not> stale_failures row (from_unix now) pol" by fastforce+
      with row n Cons False show ?thesis by (simp add: next_count_def)
    qed (use Cons n in simp)
  qed (use n in simp)
  moreover from ok have "sorted_wrt (\<ge>) (now # ts)"
    by (auto simp: ladder_ok_def split: list.splits)
  ultimately show ?thesis
    using ok n by (auto simp: ladder_ok_def failed_row_def failure_block_def nullableUnix_def Let_def)
qed


text \<open>The ladder of \<open>h\<close> in a state of a run.\<close>

definition run_ok :: "policy \<Rightarrow> string \<Rightarrow> int \<Rightarrow> (database, (string \<times> int) list) guard_state \<Rightarrow> bool" where
  "run_ok pol h now g \<longleftrightarrow>
     ladder_ok pol (guess_window pol) now (rev (evaluated_at h (gs_world g))) (source_row h (gs_repo g))"

lemma guess_window_le:
  "guess_window pol \<le> pol_LockAfterFive pol div second"
  "guess_window pol \<le> pol_FailureResetAfter pol div second"
  "guess_window pol \<le> pol_SourceRetention pol div second"
  by (simp_all add: guess_window_def)

lemma attempt_self:
  assumes gd: "gd_repository gd = sql_repository" and z: "zero_time \<le> from_unix (unix clock)"
    and run: "guard_Evaluate gd clock src surf
          (\<lambda>v. (False, v @ [(gd_hash gd (gd_unmap gd src), unix clock)])) g = (Inr oc, g')"
    and h: "h = gd_hash gd (gd_unmap gd src)"
    and ok: "run_ok (gd_policy gd) h (unix clock) g"
  shows "run_ok (gd_policy gd) h (unix clock) g'"
  using gd z run h refl refl
proof (cases rule: evaluate_failing)
  case (refused mid)
  with ok ladder_ok_spent guess_window_le show ?thesis by (auto simp: run_ok_def)
next
  case (counted mid)
  let ?pol = "gd_policy gd"
  have "ladder_ok ?pol (guess_window ?pol) (unix clock) (rev (evaluated_at h (gs_world g))) mid"
    using counted(1) ok ladder_ok_spent guess_window_le by (auto simp: run_ok_def)
  moreover have "\<not> from_unix (unix clock) <
      (case mid of None \<Rightarrow> zero_time | Some row \<Rightarrow> unixTime (as_blocked_until row))"
    using counted(1,3) z by (auto simp: refused_until_def source_until_def split: option.splits)
  ultimately have "ladder_ok ?pol (guess_window ?pol) (unix clock)
      (unix clock # rev (evaluated_at h (gs_world g)))
      (Some (failed_row h (next_count mid (from_unix (unix clock)) ?pol) (from_unix (unix clock)) ?pol))"
    using counted(5,6) guess_window_le ladder_ok_count by blast
  then show ?thesis using counted(2,4) h by (simp add: run_ok_def)
qed

lemma evaluate_world:
  assumes "guard_Evaluate gd clock src surf verify g = (r, g')"
  shows "gs_world g' = gs_world g \<or> gs_world g' = snd (verify (gs_world g))"
  using assms
  by (auto simp: guard_Evaluate_def Let_def in_repo_def logTransitions_def monad_simps
      split: prod.splits sum.splits if_splits option.splits)

lemma attempt_other:
  assumes gd: "gd_repository gd = sql_repository"
    and run: "guard_Evaluate gd clock src surf (\<lambda>v. (good, v @ [(gd_hash gd (gd_unmap gd src), unix clock)])) g = (r, g')"
    and h: "h \<noteq> gd_hash gd (gd_unmap gd src)" and ok: "run_ok pol h now g"
  shows "run_ok pol h now g'"
proof -
  have "source_row h (gs_repo g') = source_row h (gs_repo g)"
    using keepsD' [OF sql.evaluate_frame [OF gd h] run] by (simp add: same_def)
  moreover have "evaluated_at h (gs_world g') = evaluated_at h (gs_world g)"
    using evaluate_world [OF run] h by auto
  ultimately show ?thesis using ok by (simp add: run_ok_def)
qed

lemma row_get_delete_limit:
  assumes "unique_rows key rows"
  shows "row_get key k (delete_limit n P rows) = row_get key k rows \<or>
    row_get key k (delete_limit n P rows) = None \<and> (\<exists>r. row_get key k rows = Some r \<and> P r)"
  using assms
proof (induction n P rows rule: delete_limit.induct)
  case (3 n P r rows)
  then have u: "unique_rows key rows" "key r = k \<Longrightarrow> row_get key k rows = None"
    by (auto simp: unique_rows_def row_get_None_iff)
  have "row_get key k (delete_limit n P rows) = None" if "row_get key k rows = None"
    using that set_delete_limit [of n P rows] by (auto simp: row_get_None_iff)
  with u "3.IH" show ?case by (auto simp: table_simps)
qed simp_all


section \<open>The invariant of the stored rows\<close>

definition auth_source_ok :: "auth_source_row \<Rightarrow> bool" where
  "auth_source_ok r \<longleftrightarrow> 1 \<le> as_failure_count r \<and> as_failure_count r \<le> 5 \<and>
     (as_blocked_until r \<noteq> None \<longleftrightarrow> 3 \<le> as_failure_count r) \<and> as_updated_at r = as_last_failure_at r"

definition throttle_inv :: "database \<Rightarrow> bool" where
  "throttle_inv d \<longleftrightarrow> unique_rows as_source_hash (db_auth_sources d) \<and> list_all auth_source_ok (db_auth_sources d)"

lemma throttle_inv_tables [simp]: "throttle_inv (tables d) = throttle_inv d"
  by (simp add: throttle_inv_def)

lemma throttle_inv_delete: "stable throttle_inv d (snd (delete_source h d))"
  by (auto simp: stable_def throttle_inv_def delete_source_def unique_rows_delete list_all_iff set_row_delete)

lemma throttle_inv_global: "stable throttle_inv d (snd (update_global f d))"
  by (simp add: stable_def throttle_inv_def update_global_def)

lemma failed_row_ok: "1 \<le> n \<Longrightarrow> n \<le> 5 \<Longrightarrow> auth_source_ok (failed_row h n now pol)"
  by (auto simp: auth_source_ok_def failed_row_def failure_block_def Let_def nullableUnix_def)

lemma throttle_inv_put:
  assumes "1 \<le> n" "n \<le> 5"
  shows "stable throttle_inv d (d\<lparr>db_auth_sources :=
     row_put as_source_hash (failed_row h n now pol) (\<lambda>_. failed_row h n now pol) (db_auth_sources d)\<rparr>)"
  using failed_row_ok [OF assms, of h now pol]
  by (auto simp: stable_def throttle_inv_def unique_rows_put failed_row_def list_all_iff dest!: set_row_put)

lemmas throttle_inv_intros = throttle_inv_delete throttle_inv_global throttle_inv_tables

lemma throttle_Check_inv: "keeps (stable throttle_inv) (throttle_Check h now pol)"
  unfolding throttle_Check_def check_source_def check_global_def Let_def
  by (intro keeps_intros throttle_inv_intros)

lemma recordSourceLock_inv: "keeps (stable throttle_inv) (recordSourceLock now pol)"
  unfolding recordSourceLock_def Let_def
  by (intro keeps_intros throttle_inv_intros) (simp add: stable_def throttle_inv_def)

lemma store_failure_inv: "keeps (stable throttle_inv) (store_failure h n now pol)"
  unfolding store_failure_def Let_def
  by (intro keeps_intros recordSourceLock_inv throttle_inv_intros) (simp add: throttle_inv_put)

lemma throttle_RecordFailure_inv: "keeps (stable throttle_inv) (throttle_RecordFailure h now pol)"
  unfolding throttle_RecordFailure_def by (intro keeps_intros store_failure_inv throttle_inv_intros)

lemma throttle_ResetSource_inv: "keeps (stable throttle_inv) (throttle_ResetSource h)"
proof -
  have "keeps (stable throttle_inv) (\<lambda>d. case source_row h d of None \<Rightarrow> (Inl ErrNoRows, d)
      | Some row \<Rightarrow> (Inr (as_failure_count row), snd (delete_source h d)))"
    using throttle_inv_delete [of _ h] by (intro keeps_pure) (simp add: stable_def split: option.splits)
  then show ?thesis
    unfolding throttle_ResetSource_def by (intro keeps_intros throttle_inv_intros)
qed

lemma throttle_Cleanup_inv: "keeps (stable throttle_inv) (throttle_Cleanup before)"
  unfolding throttle_Cleanup_def Let_def
  by (intro keeps_intros throttle_inv_intros)
     (use set_delete_limit in \<open>fastforce simp: stable_def throttle_inv_def unique_rows_delete_limit list_all_iff\<close>)

lemma in_repo_inv:
  "keeps (stable I) m \<Longrightarrow> keeps (stable (\<lambda>g. I (gs_repo g))) (in_repo m)"
  by (auto simp: keeps_def in_repo_def stable_def split: prod.splits)

lemma run_event_inv:
  assumes "gd_repository gd = sql_repository"
  shows "keeps (stable (\<lambda>g. throttle_inv (gs_repo g))) (run_event gd ev)"
proof -
  let ?R = "stable (\<lambda>g. throttle_inv (gs_repo g))"
  have log: "keeps ?R (logTransitions surf h ts now)" for surf h ts now
    by (simp add: keeps_def logTransitions_def putState_def stable_def)
  have v: "keeps ?R (\<lambda>g. case verify (gs_world g) of (ok, v') \<Rightarrow> (Inr ok, g\<lparr>gs_world := v'\<rparr>))" for verify
    by (auto simp: keeps_def stable_def split: prod.splits)
  have "keeps ?R (guard_Evaluate gd clock src surf verify)" for clock src surf verify
    unfolding guard_Evaluate_def Let_def assms sql_repository_def throttle_repository.simps
    by (intro keeps_intros log v in_repo_inv throttle_Check_inv throttle_RecordFailure_inv throttle_ResetSource_inv)
  note this [keeps_intros]
  show ?thesis
  proof (cases ev)
    case Attempt
    then show ?thesis unfolding run_event_def throttle_event.case by (simp, intro keeps_intros)
  next
    case Sweep
    then show ?thesis
      unfolding run_event_def by (simp, intro keeps_intros in_repo_inv throttle_Cleanup_inv)
  qed
qed


section \<open>Whole runs\<close>

lemma unix_minus_le: "unix (c - w) \<le> unix c - w div second"
  unfolding unix_def second_def by linarith

lemma sweep_ok:
  assumes run: "in_repo (throttle_Cleanup (clock - pol_SourceRetention pol)) g = (Inr n, g')"
    and ok: "run_ok pol h (unix clock) g" and inv: "throttle_inv (gs_repo g)"
  shows "run_ok pol h (unix clock) g'"
proof -
  let ?P = "\<lambda>r. as_updated_at r \<le> unix (clock - pol_SourceRetention pol)"
  obtain q d' where q: "throttle_Cleanup (clock - pol_SourceRetention pol) (gs_repo g) = (q, d')" by fastforce
  with run have g': "q = Inr n" "g' = g\<lparr>gs_repo := d'\<rparr>" by (auto simp: in_repo_def)
  have "db_auth_sources d' = delete_limit cleanupBatchSize ?P (db_auth_sources (gs_repo g))"
  proof (cases "gs_repo g" rule: db_exec_cases [where f = "\<lambda>d.
          let rows = db_auth_sources d; rows' = delete_limit cleanupBatchSize ?P rows
          in (length rows - length rows', d\<lparr>db_auth_sources := rows'\<rparr>)"])
    case (ok d0)
    with q have "d' = snd (let rows = db_auth_sources d0; rows' = delete_limit cleanupBatchSize ?P rows
          in (length rows - length rows', d0\<lparr>db_auth_sources := rows'\<rparr>))"
      unfolding throttle_Cleanup_def wrap_op_run by simp
    with tables_eqD(10) [OF ok(2)] show ?thesis by (simp add: Let_def)
  next
    case (fault e d0)
    with q g'(1) show ?thesis by (simp add: throttle_Cleanup_def wrap_op_run)
  qed
  with row_get_delete_limit [of as_source_hash "db_auth_sources (gs_repo g)" h cleanupBatchSize ?P] inv
  have "source_row h d' = source_row h (gs_repo g) \<or> (\<exists>row. source_row h (gs_repo g) = Some row \<and> ?P row)"
    by (auto simp: source_row_def throttle_inv_def)
  then consider
      "source_row h d' = source_row h (gs_repo g)"
    | row where "source_row h (gs_repo g) = Some row" "?P row"
    by blast
  then have "ladder_ok pol (guess_window pol) (unix clock) (rev (evaluated_at h (gs_world g))) (source_row h d')"
  proof cases
    case 1
    with ok show ?thesis by (simp add: run_ok_def)
  next
    case 2
    show ?thesis
    proof (rule ladder_ok_forget [OF ok [unfolded run_ok_def]])
      fix t rest row'
      assume "source_row h (gs_repo g) = Some row'" "as_updated_at row' = t"
      with 2 unix_minus_le [of clock "pol_SourceRetention pol"] guess_window_le(3) [of pol]
      show "guess_window pol \<le> unix clock - t" by simp
    qed
  qed
  with g'(2) show ?thesis by (simp add: run_ok_def)
qed

lemma run_event_ok:
  assumes gd: "gd_repository gd = sql_repository" and z: "zero_time \<le> event_clock ev"
    and guess: "guesses gd h ev" and run: "run_event gd ev g = (Inr (), g')"
    and ok: "run_ok (gd_policy gd) h (unix (event_clock ev)) g" and inv: "throttle_inv (gs_repo g)"
  shows "run_ok (gd_policy gd) h (unix (event_clock ev)) g'"
proof (cases ev)
  case (Attempt clock src surf good)
  have z': "zero_time \<le> from_unix (unix clock)"
    using z Attempt by (simp add: zero_time_def from_unix_le_unix)
  from run Attempt obtain oc where ev: "guard_Evaluate gd clock src surf
      (\<lambda>v. (good, v @ [(gd_hash gd (gd_unmap gd src), unix clock)])) g = (Inr oc, g')"
    by (auto simp: run_event_def monad_simps split: prod.splits sum.splits)
  show ?thesis
  proof (cases "h = gd_hash gd (gd_unmap gd src)")
    case True
    with guess Attempt have "\<not> good" by simp
    with attempt_self [OF gd z' _ True] ev ok Attempt show ?thesis by simp
  next
    case False
    with attempt_other [OF gd ev False] ok Attempt show ?thesis by simp
  qed
next
  case (Sweep clock)
  from run Sweep obtain n where "in_repo (throttle_Cleanup (clock - pol_SourceRetention (gd_policy gd))) g = (Inr n, g')"
    by (auto simp: run_event_def monad_simps split: prod.splits sum.splits)
  from sweep_ok [OF this _ inv] ok Sweep show ?thesis by simp
qed

lemma run_events_ok:
  assumes "gd_repository gd = sql_repository" "sorted (now # map event_clock evs)"
    "\<And>ev. ev \<in> set evs \<Longrightarrow> guesses gd h ev" "zero_time \<le> now"
    "run_events gd evs g = (Inr (), g')" "run_ok (gd_policy gd) h (unix now) g" "throttle_inv (gs_repo g)"
  shows "\<exists>now'. run_ok (gd_policy gd) h now' g'"
  using assms(2-)
proof (induction evs arbitrary: g now)
  case (Cons ev evs)
  from Cons.prems(4) obtain g1 where g1: "run_event gd ev g = (Inr (), g1)" and rest: "run_events gd evs g1 = (Inr (), g')"
    by (auto simp: monad_simps split: prod.splits sum.splits)
  have le: "now \<le> event_clock ev" using Cons.prems(1) by simp
  have inv: "throttle_inv (gs_repo g1)"
    using keepsD' [OF run_event_inv [OF assms(1)] g1] Cons.prems(6) by (simp add: stable_def)
  have "run_ok (gd_policy gd) h (unix (event_clock ev)) g"
    using Cons.prems(5) ladder_ok_later unix_mono [OF le] by (auto simp: run_ok_def)
  then have "run_ok (gd_policy gd) h (unix (event_clock ev)) g1"
    using run_event_ok [OF assms(1) _ _ g1 _ Cons.prems(6)] Cons.prems(2,3) le by simp
  with Cons.IH [OF _ _ _ rest _ inv] Cons.prems(1,2,3) le show ?case by auto
qed (auto simp: monad_simps)


section \<open>Properties\<close>

text \<open>While a source is blocked, by its own lock or by the global breaker, an attempt
  never runs the credential check (the world it acts on stays as it is), and when storage
  works the outcome is \<open>Blocked\<close> with the remaining time as the retry delay.\<close>

theorem blocked_source_not_evaluated:
  assumes "gd_repository gd = sql_repository" "zero_time \<le> from_unix (unix clock)"
    and "from_unix (unix clock) < refused_until (gd_hash gd (gd_unmap gd src)) (gs_repo g)"
    and "guard_Evaluate gd clock src surf verify g = (r, g')"
  shows "gs_world g' = gs_world g \<and>
    (\<forall>oc. r = Inr oc \<longrightarrow> oc = \<lparr>oc_Disposition = Blocked,
        oc_RetryAfter = time_sub (refused_until (gd_hash gd (gd_unmap gd src)) (gs_repo g))
                          (from_unix (unix clock))\<rparr>)"
  using assms by (rule sql.evaluate_blocked)

text \<open>An attempt authenticates only when its source is not blocked and its credential
  verifies; then the stored failures of the source are gone.\<close>

theorem authenticated_only_unblocked:
  assumes "gd_repository gd = sql_repository" "zero_time \<le> from_unix (unix clock)"
    and "guard_Evaluate gd clock src surf verify g = (Inr oc, g')" "oc_Disposition oc = Authenticated"
  shows "\<not> from_unix (unix clock) < refused_until (gd_hash gd (gd_unmap gd src)) (gs_repo g) \<and>
    fst (verify (gs_world g)) \<and> source_row (gd_hash gd (gd_unmap gd src)) (gs_repo g') = None"
  using assms by (rule sql.evaluate_authenticated)

text \<open>C1: Brute force is bounded. In any run of attempts from any sources, interleaved with
  retention sweeps, in which source \<open>h\<close> presents only wrong credentials and storage works, six
  consecutive evaluations of \<open>h\<close>'s credentials span at least the smallest of the lock, the
  failure-reset and the retention periods: at most five guesses per window.\<close>

theorem brute_force_bound:
  assumes "gd_repository gd = sql_repository" "sorted (map event_clock evs)"
    and "\<forall>ev \<in> set evs. guesses gd h ev \<and> zero_time \<le> event_clock ev"
    and "gs_world g = []" "throttle_inv (gs_repo g)"
    and "run_events gd evs g = (Inr (), g')"
    and "ts = evaluated_at h (gs_world g')" "i + 5 < length ts"
  shows "guess_window (gd_policy gd) \<le> ts ! (i + 5) - ts ! i"
proof -
  have "run_ok (gd_policy gd) h now g" for now
    using assms(4) by (simp add: run_ok_def ladder_ok_def evaluated_at_def)
  moreover have "sorted (zero_time # map event_clock evs)" using assms(2,3) by auto
  ultimately obtain now' where "run_ok (gd_policy gd) h now' g'"
    using run_events_ok [OF assms(1) _ _ _ assms(6) _ assms(5), of zero_time h] assms(3) by blast
  then have s: "sorted_wrt (\<ge>) (rev ts)" "chains_below 5 (guess_window (gd_policy gd)) (rev ts)"
    by (simp_all add: run_ok_def ladder_ok_def assms(7))
  let ?j = "length ts - 6 - i"
  from chains_below_window [OF s, of ?j] assms(8)
  have "guess_window (gd_policy gd) \<le> rev ts ! ?j - rev ts ! (?j + 5)" by simp
  moreover have "length ts - Suc ?j = i + 5" "length ts - Suc (?j + 5) = i" using assms(8) by linarith+
  then have "rev ts ! ?j = ts ! (i + 5)" "rev ts ! (?j + 5) = ts ! i"
    using assms(8) by (simp_all only: rev_nth)
  ultimately show ?thesis by simp
qed

text \<open>Every stored row keeps a failure count between one and five and carries a block
  exactly from the third failure on, one row per source; no run breaks this, whatever the driver
  faults and wherever they strike.\<close>

theorem throttle_invariant_kept:
  assumes "gd_repository gd = sql_repository" "throttle_inv (gs_repo g)"
    and "run_events gd evs g = (r, g')"
  shows "throttle_inv (gs_repo g')"
proof -
  have "keeps (stable (\<lambda>g. throttle_inv (gs_repo g))) (run_events gd evs)"
    by (induction evs) (auto intro!: keeps_intros run_event_inv [OF assms(1)])
  from keepsD' [OF this assms(3)] assms(2) show ?thesis by (simp add: stable_def)
qed

text \<open>The failure ladder. With working storage a failure of a source is recorded as the
  next count (one after a reset, a lock or a stale record), with no block before the third
  failure, the two cooldowns after the third and fourth and the lock after the fifth.\<close>

theorem failure_ladder:
  assumes "db_faults d = []" "throttle_inv d" and n: "n = next_count (source_row h d) now pol"
  shows "\<exists>ts d'. throttle_RecordFailure h now pol d = (Inr ts, d') \<and>
    source_row h d' = Some (failed_row h n now pol) \<and> 1 \<le> n \<and> n \<le> 5 \<and>
    source_until h d' =
      (if n = 3 then from_unix (unix (now + pol_CooldownAfterThree pol))
       else if n = 4 then from_unix (unix (now + pol_CooldownAfterFour pol))
       else if n = 5 then from_unix (unix (now + pol_LockAfterFive pol))
       else zero_time)"
proof -
  have "1 \<le> as_failure_count row \<and> as_failure_count row \<le> 5" if "source_row h d = Some row" for row
    using assms(2) row_get_SomeD [of as_source_hash h "db_auth_sources d" row] that
    by (auto simp: source_row_def throttle_inv_def list_all_iff auth_source_ok_def)
  then have b: "1 \<le> n" "n \<le> 5"
    by (auto simp: n next_count_def split: option.splits)
  have "\<exists>ts d'. store_failure h n now pol d = (Inr ts, d') \<and> db_faults d' = []"
    using b assms(1)
    by (auto simp: store_failure_def recordSourceLock_def monad_simps Let_def split: option.splits)
  then obtain ts d' where "throttle_RecordFailure h now pol d = (Inr ts, d')"
    using assms(1)
    by (cases "source_row h d") (auto simp: throttle_RecordFailure_def monad_simps n)
  moreover from throttle_RecordFailure_Inr [OF this]
  have "source_row h d' = Some (failed_row h n now pol)" by (simp add: n)
  moreover from this have "source_until h d' =
      (if n = 3 then from_unix (unix (now + pol_CooldownAfterThree pol))
       else if n = 4 then from_unix (unix (now + pol_CooldownAfterFour pol))
       else if n = 5 then from_unix (unix (now + pol_LockAfterFive pol)) else zero_time)"
    by (simp add: source_until_def failed_row_def failure_block_def nullableUnix_def unixTime_def Let_def)
  ultimately show ?thesis using b by blast
qed

text \<open>The global breaker. When a fifth failure brings the source locks of the current
  window to the limit, every source, whatever its own record, is refused for the global block
  duration.\<close>

theorem global_breaker_arms:
  assumes "db_faults d = []" and g: "db_auth_global d = Some g"
    and "unix (now - pol_GlobalWindow pol) < ag_window_started_at g" "ag_blocked_until g = None"
    and "pol_GlobalSourceLockLimit pol \<le> ag_source_locks g + 1"
    and five: "next_count (source_row h d) now pol = 5"
  shows "\<exists>ts d'. throttle_RecordFailure h now pol d = (Inr ts, d') \<and>
    (\<forall>h'. from_unix (unix (now + pol_GlobalBlockDuration pol)) \<le> refused_until h' d')"
proof -
  have "\<exists>ts d'. store_failure h 5 now pol d = (Inr ts, d') \<and> db_faults d' = [] \<and>
      db_auth_global d' = Some \<lparr>ag_window_started_at = ag_window_started_at g,
        ag_source_locks = ag_source_locks g + 1,
        ag_blocked_until = Some (unix (now + pol_GlobalBlockDuration pol)), ag_updated_at = unix now\<rparr>"
    using assms(1-5)
    by (auto simp: store_failure_def recordSourceLock_def monad_simps Let_def nullableUnix_def)
  then obtain ts d' where "throttle_RecordFailure h now pol d = (Inr ts, d')"
      "db_auth_global d' = Some \<lparr>ag_window_started_at = ag_window_started_at g,
        ag_source_locks = ag_source_locks g + 1,
        ag_blocked_until = Some (unix (now + pol_GlobalBlockDuration pol)), ag_updated_at = unix now\<rparr>"
    using assms(1) five
    by (cases "source_row h d") (auto simp: throttle_RecordFailure_def monad_simps)
  then show ?thesis
    by (intro exI [of _ ts] exI [of _ d']) (simp add: refused_until_def global_until_def unixTime_def)
qed


section \<open>Witnesses\<close>

definition sample_guard :: "(database, string) guard" where
  "sample_guard = \<lparr>gd_repository = sql_repository, gd_hash = id, gd_unmap = id, gd_policy = DefaultPolicy\<rparr>"

definition sample_state :: "database \<Rightarrow> (database, (string \<times> int) list) guard_state" where
  "sample_state d = \<lparr>gs_repo = d, gs_world = [], gs_log = []\<rparr>"

definition locked_database :: database where
  "locked_database = empty_database\<lparr>db_auth_sources :=
     [\<lparr>as_source_hash = ''a'', as_failure_count = 5, as_blocked_until = Some 1000,
       as_last_failure_at = 100, as_updated_at = 100\<rparr>]\<rparr>"

definition sample_events :: "string throttle_event list" where
  "sample_events = [Attempt 0 ''a'' ''ui'' False, Attempt second ''b'' ''ui'' True,
     Attempt (2 * second) ''a'' ''ui'' False, Attempt (3 * second) ''a'' ''ui'' False,
     Attempt (4 * second) ''a'' ''ui'' False, Attempt (10 * second) ''a'' ''ui'' False,
     Attempt (50 * second) ''a'' ''ui'' False, Attempt (60 * second) ''a'' ''ui'' False,
     Sweep (70 * second), Attempt (2000 * second) ''a'' ''ui'' False]"

lemma sample_guard_sel [simp]:
  "gd_repository sample_guard = sql_repository" "gd_hash sample_guard = id" "gd_unmap sample_guard = id"
  "gd_policy sample_guard = DefaultPolicy"
  by (simp_all add: sample_guard_def)

lemma sample_state_sel [simp]: "gs_repo (sample_state d) = d" "gs_world (sample_state d) = []"
  by (simp_all add: sample_state_def)

definition blocked_attempt ::
  "(go_error + outcome) \<times> (database, (string \<times> int) list) guard_state" where
  "blocked_attempt = guard_Evaluate sample_guard (500 * second) ''a'' ''ui''
     (\<lambda>v. (True, v @ [(''a'', 500)])) (sample_state locked_database)"

theorem blocked_source_not_evaluated_witness:
  "gs_world (snd blocked_attempt) = [] \<and>
   fst blocked_attempt = Inr \<lparr>oc_Disposition = Blocked, oc_RetryAfter = 500 * second\<rparr>"
proof -
  have "fst blocked_attempt = Inr \<lparr>oc_Disposition = Blocked, oc_RetryAfter = 500 * second\<rparr>" by code_simp
  moreover have "zero_time \<le> from_unix (unix (500 * second))" by code_simp
  moreover have "from_unix (unix (500 * second)) < refused_until ''a'' locked_database" by code_simp
  ultimately show ?thesis
    using blocked_source_not_evaluated [of sample_guard "500 * second" "''a''" "sample_state locked_database" "''ui''"
        "\<lambda>v. (True, v @ [(''a'', 500)])" "fst blocked_attempt" "snd blocked_attempt"]
    by (simp add: blocked_attempt_def [symmetric] prod_eq_iff)
qed

definition unlocked_attempt ::
  "(go_error + outcome) \<times> (database, (string \<times> int) list) guard_state" where
  "unlocked_attempt = guard_Evaluate sample_guard (1500 * second) ''a'' ''ui''
     (\<lambda>v. (True, v @ [(''a'', 1500)])) (sample_state locked_database)"

theorem authenticated_only_unblocked_witness:
  "fst unlocked_attempt = Inr \<lparr>oc_Disposition = Authenticated, oc_RetryAfter = 0\<rparr> \<and>
   \<not> from_unix 1500 < refused_until ''a'' locked_database \<and>
   source_row ''a'' (gs_repo (snd unlocked_attempt)) = None"
proof -
  have f: "fst unlocked_attempt = Inr \<lparr>oc_Disposition = Authenticated, oc_RetryAfter = 0\<rparr>" by code_simp
  have "zero_time \<le> from_unix (unix (1500 * second))" by code_simp
  with f show ?thesis
    using authenticated_only_unblocked [of sample_guard "1500 * second" "''a''" "''ui''"
        "\<lambda>v. (True, v @ [(''a'', 1500)])" "sample_state locked_database"
        "\<lparr>oc_Disposition = Authenticated, oc_RetryAfter = 0\<rparr>" "snd unlocked_attempt"]
    by (simp add: unlocked_attempt_def [symmetric] prod_eq_iff unix_def)
       (simp add: second_def)
qed

definition sample_run :: "(go_error + unit) \<times> (database, (string \<times> int) list) guard_state" where
  "sample_run = run_events sample_guard sample_events (sample_state empty_database)"

theorem brute_force_bound_witness:
  "evaluated_at ''a'' (gs_world (snd sample_run)) = [0, 2, 3, 10, 50, 2000] \<and>
   guess_window DefaultPolicy = 900 \<and> (900::int) \<le> 2000 - 0"
proof -
  have e: "evaluated_at ''a'' (gs_world (snd sample_run)) = [0, 2, 3, 10, 50, 2000]" by code_simp
  have w: "guess_window DefaultPolicy = 900" by code_simp
  have f: "fst sample_run = Inr ()" by code_simp
  have ev: "list_all (\<lambda>ev. guesses sample_guard ''a'' ev \<and> zero_time \<le> event_clock ev) sample_events" by code_simp
  have so: "sorted (map event_clock sample_events)" by code_simp
  have inv: "throttle_inv empty_database" by code_simp
  have run: "run_events sample_guard sample_events (sample_state empty_database) = (Inr (), snd sample_run)"
    using f by (simp add: sample_run_def prod_eq_iff)
  have "\<forall>ev \<in> set sample_events. guesses sample_guard ''a'' ev \<and> zero_time \<le> event_clock ev"
    using ev by (simp add: list_all_iff)
  from brute_force_bound [OF _ so this _ _ run e [symmetric], of 0] inv w show ?thesis
    by (simp add: e)
qed

theorem throttle_invariant_kept_witness:
  "throttle_inv (gs_repo (snd (run_events sample_guard sample_events
     (sample_state (locked_database\<lparr>db_faults := [None, None, None, None, None, Some FaultDeadline]\<rparr>)))))"
proof -
  have "throttle_inv (locked_database\<lparr>db_faults := [None, None, None, None, None, Some FaultDeadline]\<rparr>)" by code_simp
  then show ?thesis
    using throttle_invariant_kept [of sample_guard
        "sample_state (locked_database\<lparr>db_faults := [None, None, None, None, None, Some FaultDeadline]\<rparr>)"
        sample_events, OF _ _ prod.collapse [symmetric]]
    by simp
qed

definition fourth_failure :: database where
  "fourth_failure = empty_database\<lparr>db_auth_sources :=
     [\<lparr>as_source_hash = ''a'', as_failure_count = 4, as_blocked_until = Some 130,
       as_last_failure_at = 100, as_updated_at = 100\<rparr>],
     db_auth_global := Some \<lparr>ag_window_started_at = 90, ag_source_locks = 24, ag_blocked_until = None,
       ag_updated_at = 95\<rparr>\<rparr>"

theorem failure_ladder_witness:
  "\<exists>ts d'. throttle_RecordFailure ''a'' (from_unix 140) DefaultPolicy fourth_failure = (Inr ts, d') \<and>
     source_until ''a'' d' = from_unix 1040"
proof -
  have "throttle_inv fourth_failure" "db_faults fourth_failure = []"
    "5 = next_count (source_row ''a'' fourth_failure) (from_unix 140) DefaultPolicy" by code_simp+
  moreover have "unix (from_unix 140 + pol_LockAfterFive DefaultPolicy) = 1040" by code_simp
  ultimately show ?thesis
    using failure_ladder [of fourth_failure 5 "''a''" "from_unix 140" DefaultPolicy] by fastforce
qed

theorem global_breaker_arms_witness:
  "\<exists>ts d'. throttle_RecordFailure ''a'' (from_unix 140) DefaultPolicy fourth_failure = (Inr ts, d') \<and>
     from_unix 200 \<le> refused_until ''b'' d'"
proof -
  let ?g = "\<lparr>ag_window_started_at = 90, ag_source_locks = 24, ag_blocked_until = None, ag_updated_at = 95\<rparr>"
  have "db_faults fourth_failure = []" "db_auth_global fourth_failure = Some ?g"
    "unix (from_unix 140 - pol_GlobalWindow DefaultPolicy) < 90"
    "pol_GlobalSourceLockLimit DefaultPolicy \<le> 25"
    "next_count (source_row ''a'' fourth_failure) (from_unix 140) DefaultPolicy = 5"
    "unix (from_unix 140 + pol_GlobalBlockDuration DefaultPolicy) = 200" by code_simp+
  then show ?thesis
    using global_breaker_arms [of fourth_failure ?g "from_unix 140" DefaultPolicy "''a''"] by fastforce
qed

end
