(* ===== verification/Store_Accounts.thy ===== *)
theory Store_Accounts
  imports Store_DB Envelope
begin

text \<open>
  The account repository (\<open>internal/store/accounts.go\<close>). The repository's keys and the
  standard-library functions it calls (AEAD, HMAC, the JSON codec of the credentials) are the
  fields of \<open>account_repository\<close>; \<open>account_codec_laws\<close> is what the round trips rely on.
  Random bytes (the envelope's nonce, the new account id) are arguments.

  Shown: a login is stored and read back, one row per identity, never over an account of
  another provider; the invariant of the table is kept by every operation under driver faults;
  deletion cascades.
\<close>


section \<open>Data\<close>

record account_credentials =
  ac_Issuer :: string
  ac_Subject :: string
  ac_Email :: string
  ac_AccessToken :: string
  ac_RefreshToken :: string
  ac_IDToken :: string
  ac_TokenEndpoint :: string
  ac_RawIdentity :: string
  ac_OpaqueToken :: string
  ac_OpaqueTokenExpiresAt :: "time option"

record account =
  acc_Provider :: kind
  acc_ID :: string
  acc_Label :: string
  acc_Enabled :: bool
  acc_Status :: string
  acc_Credentials :: account_credentials
  acc_ExpiresAt :: "time option"
  acc_LastRefreshAt :: "time option"
  acc_LastError :: string
  acc_CreatedAt :: time
  acc_UpdatedAt :: time

record account_repository =
  rk_keys :: keys
  rk_aead :: aead
  rk_hmac :: "string \<Rightarrow> string \<Rightarrow> string"
  rk_marshal :: "account_credentials \<Rightarrow> go_error + string"
  rk_unmarshal :: "string \<Rightarrow> account_credentials option"

text \<open>Decoding the JSON text of credentials gives them back.\<close>

definition account_codec_laws :: "account_repository \<Rightarrow> bool" where
  "account_codec_laws r \<longleftrightarrow> aead_laws (rk_aead r) \<and>
     (\<forall>c p. rk_marshal r c = Inr p \<longrightarrow> rk_unmarshal r p = Some c)"

definition fingerprint_account :: "account_repository \<Rightarrow> kind \<Rightarrow> account_credentials \<Rightarrow> go_error + string" where
  "fingerprint_account r kind c =
     (if kind = XAI then
        if ac_Issuer c = [] \<or> ac_Subject c = [] then Inl (ErrNew ''verified issuer and subject are required'')
        else Inr (keys_IdentityFingerprint (rk_hmac r) (rk_keys r) (ac_Issuer c) (ac_Subject c))
      else if kind = Devin then
        if ac_OpaqueToken c = [] then Inl (ErrNew ''devin opaque token is required'')
        else Inr (keys_IdentityFingerprint (rk_hmac r) (rk_keys r) Devin (ac_OpaqueToken c))
      else Inl (Wrapf ''account provider'' [ErrInvalidKind]))"

definition randomID :: "(string \<Rightarrow> string) \<Rightarrow> string \<Rightarrow> go_error + string \<Rightarrow> go_error + string" where
  "randomID hexEncode prefix rnd = (case rnd of Inl e \<Rightarrow> Inl e | Inr raw \<Rightarrow> Inr (prefix @ hexEncode raw))"


section \<open>Reading rows\<close>

definition account_scan :: "account_repository \<Rightarrow> account_row \<Rightarrow> go_error + account" where
  "account_scan r row =
     (case kind_Scan (Some []) (DVString (ar_provider row)) of
        Inl e \<Rightarrow> Inl e
      | Inr kind \<Rightarrow>
          if \<not> kind_Valid kind then Inl (Wrapf ''account provider'' [ErrInvalidKind])
          else case Decrypt (rk_aead r) (k_oauth (rk_keys r)) (ar_credentials row) of
            Inl e \<Rightarrow> Inl e
          | Inr plaintext \<Rightarrow>
              (case rk_unmarshal r plaintext of
                 None \<Rightarrow> Inl (ErrNew ''decode encrypted account credentials'')
               | Some c \<Rightarrow> Inr \<lparr>acc_Provider = kind, acc_ID = ar_id row, acc_Label = ar_label row,
                   acc_Enabled = ar_enabled row, acc_Status = ar_status row, acc_Credentials = c,
                   acc_ExpiresAt = timePtr (ar_expires_at row),
                   acc_LastRefreshAt = timePtr (ar_last_refresh_at row),
                   acc_LastError = coalesce (ar_last_error row),
                   acc_CreatedAt = from_unix (ar_created_at row),
                   acc_UpdatedAt = from_unix (ar_updated_at row)\<rparr>))"

definition account_Get :: "account_repository \<Rightarrow> string \<Rightarrow> account dbop" where
  "account_Get r i =
     andThen (db_query_row (\<lambda>d. row_get ar_id i (db_accounts d))) (\<lambda>row. lift_result (account_scan r row))"

definition account_GetByFingerprint :: "account_repository \<Rightarrow> string \<Rightarrow> account dbop" where
  "account_GetByFingerprint r fp =
     andThen (db_query_row (\<lambda>d. row_get ar_fingerprint fp (db_accounts d))) (\<lambda>row. lift_result (account_scan r row))"

definition account_List :: "account_repository \<Rightarrow> account list dbop" where
  "account_List r =
     andThen (db_query (\<lambda>d. sort_key (\<lambda>row. (ar_created_at row, ar_id row)) (db_accounts d)))
       (\<lambda>rows. lift_result (scan_all (account_scan r) rows))"


section \<open>Writing rows\<close>

definition login_row :: "account \<Rightarrow> string \<Rightarrow> string \<Rightarrow> string \<Rightarrow> time \<Rightarrow> account_row" where
  "login_row a i fp encrypted now =
     (let status = (if acc_Status a = [] then ''ready'' else acc_Status a);
          enabled = (acc_Enabled a \<or> acc_ID a = [] \<and> acc_Provider a = XAI \<or>
                     acc_ID a = [] \<and> acc_Provider a = Devin \<and> status = ''ready'')
      in \<lparr>ar_id = i, ar_provider = acc_Provider a, ar_fingerprint = fp, ar_label = acc_Label a,
          ar_enabled = enabled, ar_status = status, ar_credentials = encrypted,
          ar_expires_at = nullableUnix (acc_ExpiresAt a),
          ar_last_refresh_at = nullableUnix (acc_LastRefreshAt a),
          ar_last_error = nullString (acc_LastError a),
          ar_created_at = unix now, ar_updated_at = unix now\<rparr>)"

text \<open>The \<open>DO UPDATE SET\<close> clause.\<close>

definition relogin_row :: "account_row \<Rightarrow> account_row \<Rightarrow> account_row" where
  "relogin_row excluded old =
     old\<lparr>ar_credentials := ar_credentials excluded,
         ar_enabled := (if ar_provider excluded = Devin then ar_enabled excluded else ar_enabled old),
         ar_status := ar_status excluded, ar_expires_at := ar_expires_at excluded,
         ar_last_refresh_at := ar_last_refresh_at excluded, ar_last_error := ar_last_error excluded,
         ar_updated_at := ar_updated_at excluded\<rparr>"

text \<open>The upsert: insert, or update the row of the same fingerprint if it belongs to the same
  provider; otherwise no row is affected.\<close>

definition upsert_account :: "account_row \<Rightarrow> database \<Rightarrow> nat \<times> database" where
  "upsert_account row d =
     (case row_get ar_fingerprint (ar_fingerprint row) (db_accounts d) of
        None \<Rightarrow> (1, d\<lparr>db_accounts := db_accounts d @ [row]\<rparr>)
      | Some old \<Rightarrow>
          if ar_provider old = ar_provider row
          then (1, d\<lparr>db_accounts := row_update ar_fingerprint (ar_fingerprint row) (relogin_row row) (db_accounts d)\<rparr>)
          else (0, d))"

text \<open>The statement fails when the new id is taken.\<close>

definition upsertLogin ::
  "account_repository \<Rightarrow> account \<Rightarrow> time \<Rightarrow> go_error + string \<Rightarrow> go_error + string \<Rightarrow> account dbop" where
  "upsertLogin r a now nonce idRnd =
     reject (\<not> kind_Valid (acc_Provider a)) (Wrapf ''account provider'' [ErrInvalidKind])
     (andThen (lift_result (fingerprint_account r (acc_Provider a) (acc_Credentials a))) (\<lambda>fp.
      andThen (wrap_op ''encode credentials'' (lift_result (rk_marshal r (acc_Credentials a)))) (\<lambda>payload.
      andThen (lift_result (Encrypt (rk_aead r) (k_oauth (rk_keys r)) nonce payload)) (\<lambda>encrypted.
      andThen (lift_result (randomID hex_encode ''acct_'' idRnd)) (\<lambda>i.
      andThen (wrap_op ''upsert account''
          (db_exec_checked ''UNIQUE constraint failed: accounts.id''
             (\<lambda>d. row_get ar_id i (db_accounts d) = None)
             (upsert_account (login_row a i fp encrypted now)))) (\<lambda>n.
      andThen (requireAffected n) (\<lambda>_.
      account_GetByFingerprint r fp)))))))"

text \<open>\<open>UPDATE accounts SET ... WHERE cond\<close> and the number of rows it affects.\<close>

definition update_accounts :: "(account_row \<Rightarrow> bool) \<Rightarrow> (account_row \<Rightarrow> account_row) \<Rightarrow> database \<Rightarrow> nat \<times> database" where
  "update_accounts P f d =
     (length (filter P (db_accounts d)),
      d\<lparr>db_accounts := map (\<lambda>row. if P row then f row else row) (db_accounts d)\<rparr>)"

definition account_Update :: "string \<Rightarrow> string \<Rightarrow> bool \<Rightarrow> unit dbop" where
  "account_Update i label enabled =
     andThen (db_exec (\<lambda>d. update_accounts (\<lambda>row. ar_id row = i)
        (\<lambda>row. row\<lparr>ar_label := label, ar_enabled := enabled, ar_updated_at := db_epoch d\<rparr>) d)) requireAffected"

definition account_MarkReloginRequired :: "string \<Rightarrow> kind \<Rightarrow> unit dbop" where
  "account_MarkReloginRequired i kind =
     reject (\<not> kind_Valid kind) (Wrapf ''account provider'' [ErrInvalidKind])
     (andThen (db_exec (\<lambda>d. update_accounts (\<lambda>row. ar_id row = i \<and> ar_provider row = kind)
        (\<lambda>row. row\<lparr>ar_enabled := False, ar_status := ''relogin_required'',
           ar_last_error := Some ''authentication expired; reconnect required'',
           ar_updated_at := db_epoch d\<rparr>) d)) requireAffected)"

text \<open>The dependent tables are cleared by the \<open>ON DELETE CASCADE\<close> of their foreign keys.\<close>

definition delete_account :: "string \<Rightarrow> database \<Rightarrow> nat \<times> database" where
  "delete_account i d =
     (length (filter (\<lambda>row. ar_id row = i) (db_accounts d)),
      d\<lparr>db_accounts := row_delete ar_id i (db_accounts d),
        db_capabilities := filter (\<lambda>c. mc_account_id c \<noteq> i) (db_capabilities d),
        db_states := filter (\<lambda>c. st_account_id c \<noteq> i) (db_states d),
        db_usage := filter (\<lambda>c. lu_account_id c \<noteq> i) (db_usage d)\<rparr>)"

definition account_Delete :: "string \<Rightarrow> unit dbop" where
  "account_Delete i = andThen (db_exec (delete_account i)) requireAffected"



section \<open>Invariant\<close>

text \<open>One row per id and per identity, valid providers, and no dependent row without its
  account.\<close>

definition accounts_inv :: "database \<Rightarrow> bool" where
  "accounts_inv d \<longleftrightarrow>
     unique_rows ar_id (db_accounts d) \<and> unique_rows ar_fingerprint (db_accounts d) \<and>
     list_all (\<lambda>row. kind_Valid (ar_provider row)) (db_accounts d) \<and>
     mc_account_id ` set (db_capabilities d) \<subseteq> ar_id ` set (db_accounts d) \<and>
     st_account_id ` set (db_states d) \<subseteq> ar_id ` set (db_accounts d) \<and>
     lu_account_id ` set (db_usage d) \<subseteq> ar_id ` set (db_accounts d)"

lemma accounts_inv_tables [simp]: "accounts_inv (tables d) = accounts_inv d"
  by (simp add: accounts_inv_def)

lemma login_row_sel [simp]:
  "ar_id (login_row a i fp c now) = i" "ar_fingerprint (login_row a i fp c now) = fp"
  "ar_provider (login_row a i fp c now) = acc_Provider a" "ar_credentials (login_row a i fp c now) = c"
  "ar_label (login_row a i fp c now) = acc_Label a"
  by (simp_all add: login_row_def Let_def)

lemma relogin_row_sel [simp]:
  "ar_id (relogin_row x old) = ar_id old" "ar_fingerprint (relogin_row x old) = ar_fingerprint old"
  "ar_provider (relogin_row x old) = ar_provider old" "ar_label (relogin_row x old) = ar_label old"
  "ar_credentials (relogin_row x old) = ar_credentials x"
  by (simp_all add: relogin_row_def)

text \<open>An update that keeps a column keeps the list of its values.\<close>

lemma map_update_cong: "(\<And>r. key (f r) = key r) \<Longrightarrow> map key (map (\<lambda>r. if P r then f r else r) rows) = map key rows"
  by simp

lemma accounts_inv_update:
  assumes "\<And>r. ar_id (f r) = ar_id r" "\<And>r. ar_fingerprint (f r) = ar_fingerprint r"
    "\<And>r. ar_provider (f r) = ar_provider r"
  shows "stable accounts_inv d (d\<lparr>db_accounts := map (\<lambda>row. if P row then f row else row) (db_accounts d)\<rparr>)"
proof -
  define rows where "rows = map (\<lambda>row. if P row then f row else row) (db_accounts d)"
  have m: "map ar_id rows = map ar_id (db_accounts d)"
    "map ar_fingerprint rows = map ar_fingerprint (db_accounts d)"
    using assms by (simp_all add: rows_def)
  then have "unique_rows ar_id rows = unique_rows ar_id (db_accounts d)"
    "unique_rows ar_fingerprint rows = unique_rows ar_fingerprint (db_accounts d)"
    "ar_id ` set rows = ar_id ` set (db_accounts d)"
    unfolding unique_rows_def by (simp_all only: set_map [symmetric])
  moreover have "list_all (\<lambda>row. kind_Valid (ar_provider row)) rows =
      list_all (\<lambda>row. kind_Valid (ar_provider row)) (db_accounts d)"
    using assms(3) by (simp add: rows_def list.pred_map comp_def if_distrib [of ar_provider] cong: list.pred_cong)
  ultimately show ?thesis
    by (simp add: stable_def accounts_inv_def rows_def [symmetric])
qed

lemma accounts_inv_upsert:
  assumes "kind_Valid (ar_provider row)" "row_get ar_id (ar_id row) (db_accounts d) = None"
  shows "stable accounts_inv d (snd (upsert_account row d))"
proof (cases "row_get ar_fingerprint (ar_fingerprint row) (db_accounts d)")
  case None
  then have "snd (upsert_account row d) = d\<lparr>db_accounts := db_accounts d @ [row]\<rparr>"
    by (simp add: upsert_account_def)
  with None assms show ?thesis
    by (auto simp: stable_def accounts_inv_def unique_rows_def row_get_None_iff)
next
  case (Some old)
  have "stable accounts_inv d (d\<lparr>db_accounts :=
      map (\<lambda>r. if ar_fingerprint r = ar_fingerprint row then relogin_row row r else r) (db_accounts d)\<rparr>)"
    by (rule accounts_inv_update) simp_all
  with Some show ?thesis
    by (simp add: upsert_account_def row_update_def stable_def)
qed

lemma accounts_inv_delete: "stable accounts_inv d (snd (delete_account i d))"
proof -
  have "unique_rows ar_fingerprint (row_delete ar_id i rows)" if "unique_rows ar_fingerprint rows" for rows
    using that by (simp add: unique_rows_def row_delete_def distinct_map_filter)
  then show ?thesis
    by (auto simp: stable_def accounts_inv_def delete_account_def unique_rows_delete list_all_iff
        set_row_delete image_subset_iff)
qed

lemma account_Get_frame [keeps_intros]:
  "table_rel R \<Longrightarrow> reflp R \<Longrightarrow> transp R \<Longrightarrow> keeps R (account_Get r i)"
  unfolding account_Get_def by (intro keeps_intros)

lemma account_GetByFingerprint_frame [keeps_intros]:
  "table_rel R \<Longrightarrow> reflp R \<Longrightarrow> transp R \<Longrightarrow> keeps R (account_GetByFingerprint r i)"
  unfolding account_GetByFingerprint_def by (intro keeps_intros)

lemma account_List_frame [keeps_intros]:
  "table_rel R \<Longrightarrow> reflp R \<Longrightarrow> transp R \<Longrightarrow> keeps R (account_List r)"
  unfolding account_List_def by (intro keeps_intros)

lemma upsertLogin_inv: "keeps (stable accounts_inv) (upsertLogin r a now nonce idRnd)"
proof (cases "kind_Valid (acc_Provider a)")
  case True
  then show ?thesis
    unfolding upsertLogin_def
    by (intro keeps_intros accounts_inv_tables) (simp add: accounts_inv_upsert)
qed (simp add: upsertLogin_def reject_def keeps_raise stable_reflp)

lemma update_accounts_inv:
  "(\<And>d r. ar_id (f d r) = ar_id r) \<Longrightarrow> (\<And>d r. ar_fingerprint (f d r) = ar_fingerprint r) \<Longrightarrow>
   (\<And>d r. ar_provider (f d r) = ar_provider r) \<Longrightarrow>
   keeps (stable accounts_inv) (db_exec (\<lambda>d. update_accounts P (f d) d))"
  by (intro keeps_intros accounts_inv_tables) (simp add: update_accounts_def accounts_inv_update)

lemma account_Update_inv: "keeps (stable accounts_inv) (account_Update i label enabled)"
  unfolding account_Update_def by (intro keeps_intros update_accounts_inv) simp_all

lemma account_MarkReloginRequired_inv: "keeps (stable accounts_inv) (account_MarkReloginRequired i kind)"
  unfolding account_MarkReloginRequired_def by (intro keeps_intros update_accounts_inv) simp_all

lemma account_Delete_inv: "keeps (stable accounts_inv) (account_Delete i)"
  unfolding account_Delete_def by (intro keeps_intros accounts_inv_tables accounts_inv_delete)


section \<open>Properties\<close>

lemma account_scan_Inr:
  assumes "kind_Valid (ar_provider row)" "Decrypt (rk_aead r) (k_oauth (rk_keys r)) (ar_credentials row) = Inr p"
    "rk_unmarshal r p = Some c"
  shows "account_scan r row = Inr \<lparr>acc_Provider = ar_provider row, acc_ID = ar_id row, acc_Label = ar_label row,
     acc_Enabled = ar_enabled row, acc_Status = ar_status row, acc_Credentials = c,
     acc_ExpiresAt = timePtr (ar_expires_at row), acc_LastRefreshAt = timePtr (ar_last_refresh_at row),
     acc_LastError = coalesce (ar_last_error row), acc_CreatedAt = from_unix (ar_created_at row),
     acc_UpdatedAt = from_unix (ar_updated_at row)\<rparr>"
  using assms by (simp add: account_scan_def kind_Scan_def ParseKind_def)

text \<open>A login is stored and read back. With working storage, the credentials of a valid
  login are written under its identity: a known identity of the same provider keeps its id and
  its label and gets the new credentials, a new one gets a new enabled row; the account returned
  is the one a later \<open>Get\<close> of its id returns, with exactly those credentials.\<close>

theorem login_read_back:
  assumes laws: "account_codec_laws r" "length nonce = ad_NonceSize (rk_aead r)"
    and d: "db_faults d = []" "accounts_inv d"
    and a: "kind_Valid (acc_Provider a)" "fingerprint_account r (acc_Provider a) (acc_Credentials a) = Inr fp"
      "rk_marshal r (acc_Credentials a) = Inr payload"
    and fresh: "i = ''acct_'' @ hex_encode raw" "row_get ar_id i (db_accounts d) = None"
    and same: "\<And>old. row_get ar_fingerprint fp (db_accounts d) = Some old \<Longrightarrow> ar_provider old = acc_Provider a"
  shows "\<exists>b d'. upsertLogin r a now (Inr nonce) (Inr raw) d = (Inr b, d') \<and>
    acc_Credentials b = acc_Credentials a \<and> acc_Provider b = acc_Provider a \<and>
    acc_Status b = (if acc_Status a = [] then ''ready'' else acc_Status a) \<and>
    (case row_get ar_fingerprint fp (db_accounts d) of
       None \<Rightarrow> acc_ID b = i \<and> acc_Label b = acc_Label a \<and> (acc_ID a = [] \<and> acc_Status a = [] \<longrightarrow> acc_Enabled b)
     | Some old \<Rightarrow> acc_ID b = ar_id old \<and> acc_Label b = ar_label old) \<and>
    account_Get r (acc_ID b) d' = (Inr b, d') \<and> accounts_inv d'"
proof -
  obtain enc where enc: "Encrypt (rk_aead r) (k_oauth (rk_keys r)) (Inr nonce) payload = Inr enc"
    by (simp add: Encrypt_def)
  have dec: "Decrypt (rk_aead r) (k_oauth (rk_keys r)) enc = Inr payload"
    using Decrypt_Encrypt laws enc by (auto simp: account_codec_laws_def)
  have un: "rk_unmarshal r payload = Some (acc_Credentials a)"
    using laws(1) a(3) by (simp add: account_codec_laws_def)
  let ?row = "login_row a i fp enc now"
  obtain n d' where up: "upsert_account ?row d = (n, d')" by fastforce
  have inv: "accounts_inv d'"
    using accounts_inv_upsert [of ?row d] a(1) fresh(2) d(2) up by (simp add: stable_def)
  obtain row where row: "n = 1" "row_get ar_fingerprint fp (db_accounts d') = Some row" "db_faults d' = []"
      "ar_provider row = acc_Provider a" "ar_credentials row = enc"
      "ar_status row = (if acc_Status a = [] then ''ready'' else acc_Status a)"
      "case row_get ar_fingerprint fp (db_accounts d) of
         None \<Rightarrow> ar_id row = i \<and> ar_label row = acc_Label a \<and> (acc_ID a = [] \<and> acc_Status a = [] \<longrightarrow> ar_enabled row)
       | Some old \<Rightarrow> ar_id row = ar_id old \<and> ar_label row = ar_label old"
    using up d(1) a(1) same
    by (cases "row_get ar_fingerprint fp (db_accounts d)")
       (auto simp: upsert_account_def table_simps login_row_def relogin_row_def Let_def kind_Valid_def)
  have byid: "row_get ar_id (ar_id row) (db_accounts d') = Some row"
    using row_get_mem [of ar_id "db_accounts d'" row] row_get_SomeD [OF row(2)] inv
    by (simp add: accounts_inv_def)
  note scan = account_scan_Inr [of row r payload "acc_Credentials a", unfolded row(4,5), OF a(1) dec un]
  show ?thesis
    using row byid inv scan a d(1) fresh enc up
    by (auto simp: upsertLogin_def account_Get_def account_GetByFingerprint_def monad_simps randomID_def
        split: option.splits)
qed

text \<open>A login never takes over an account of another provider: when the identity
  fingerprint is already stored for the other provider, the login fails and no table changes,
  whatever else happens.\<close>

theorem login_never_crosses_providers:
  assumes "fingerprint_account r (acc_Provider a) (acc_Credentials a) = Inr fp"
    and "row_get ar_fingerprint fp (db_accounts d) = Some old" "ar_provider old \<noteq> acc_Provider a"
    and "upsertLogin r a now nonce idRnd d = (res, d')"
  shows "(\<exists>e. res = Inl e) \<and> tables d' = tables d"
proof -
  have "(\<exists>e. res = Inl e) \<and> tables d' = tables d" if
    "wrap_op m (db_exec_checked msg (\<lambda>d. row_get ar_id i (db_accounts d) = None)
       (upsert_account (login_row a i fp enc now))) d = (q, d1)"
    "andThen (\<lambda>_. (q, d1)) (\<lambda>n. andThen (requireAffected n) (\<lambda>_. account_GetByFingerprint r fp)) d = (res, d')"
    for m msg i enc q d1
  proof (cases d rule: db_exec_checked_cases [where msg = msg and ok = "\<lambda>d. row_get ar_id i (db_accounts d) = None"
        and f = "upsert_account (login_row a i fp enc now)"])
    case (ok d0)
    have "db_accounts d0 = db_accounts d" using tables_eqD(2) [OF ok(3)] .
    then have "upsert_account (login_row a i fp enc now) d0 = (0, d0)"
      using assms(2,3) by (simp add: upsert_account_def)
    with ok that show ?thesis by (auto simp: monad_simps)
  qed (use that in \<open>auto simp: monad_simps\<close>)
  with assms(1,4) show ?thesis
    by (auto simp: upsertLogin_def monad_simps split: sum.splits prod.splits if_splits)
qed

text \<open>C39: No account operation breaks the invariant of the account tables (one row per id and
  identity, valid providers, no dependent row without its account), whatever its arguments and
  whatever the driver faults.\<close>

theorem account_operations_keep_invariant:
  "keeps (stable accounts_inv) (upsertLogin r a now nonce idRnd) \<and>
   keeps (stable accounts_inv) (account_Update i label enabled) \<and>
   keeps (stable accounts_inv) (account_MarkReloginRequired i kind) \<and>
   keeps (stable accounts_inv) (account_Delete i)"
  using upsertLogin_inv account_Update_inv account_MarkReloginRequired_inv account_Delete_inv by blast


section \<open>Witnesses\<close>

definition blank_credentials :: account_credentials where
  "blank_credentials = \<lparr>ac_Issuer = [], ac_Subject = [], ac_Email = [], ac_AccessToken = [],
     ac_RefreshToken = [], ac_IDToken = [], ac_TokenEndpoint = [], ac_RawIdentity = [],
     ac_OpaqueToken = [], ac_OpaqueTokenExpiresAt = None\<rparr>"

text \<open>A codec for credentials that consist of an opaque token, or of an issuer and a subject.\<close>

definition sample_marshal :: "account_credentials \<Rightarrow> go_error + string" where
  "sample_marshal c =
     (if c = blank_credentials\<lparr>ac_OpaqueToken := ac_OpaqueToken c\<rparr> then Inr (CHR ''o'' # ac_OpaqueToken c)
      else if c = blank_credentials\<lparr>ac_Issuer := ''devin'', ac_Subject := ac_Subject c\<rparr> then Inr (CHR ''s'' # ac_Subject c)
      else Inl (ErrNew ''unsupported''))"

definition sample_unmarshal :: "string \<Rightarrow> account_credentials option" where
  "sample_unmarshal p =
     (case p of [] \<Rightarrow> None
      | t # rest \<Rightarrow> if t = CHR ''o'' then Some (blank_credentials\<lparr>ac_OpaqueToken := rest\<rparr>)
                    else Some (blank_credentials\<lparr>ac_Issuer := ''devin'', ac_Subject := rest\<rparr>))"

definition sample_accounts :: account_repository where
  "sample_accounts =
     \<lparr>rk_keys = \<lparr>k_oauth = ''o'', k_transcript = ''t'', k_billing = ''b'', k_identity = ''i'',
        k_webSession = ''w'', k_adminAuthSource = ''a''\<rparr>,
      rk_aead = sample_aead, rk_hmac = (\<lambda>k m. m), rk_marshal = sample_marshal,
      rk_unmarshal = sample_unmarshal\<rparr>"

lemma sample_accounts_laws: "account_codec_laws sample_accounts"
  by (auto simp: account_codec_laws_def sample_accounts_def sample_aead_laws sample_marshal_def
      sample_unmarshal_def split: if_splits)

definition sample_login :: account where
  "sample_login = \<lparr>acc_Provider = Devin, acc_ID = [], acc_Label = ''main'', acc_Enabled = False,
     acc_Status = [], acc_Credentials = blank_credentials\<lparr>ac_OpaqueToken := ''tok''\<rparr>,
     acc_ExpiresAt = None, acc_LastRefreshAt = None, acc_LastError = [], acc_CreatedAt = zero_time,
     acc_UpdatedAt = zero_time\<rparr>"

theorem login_read_back_witness:
  "\<exists>b d'. upsertLogin sample_accounts sample_login (from_unix 10) (Inr ''nn'') (Inr ''x'') empty_database = (Inr b, d') \<and>
     ac_OpaqueToken (acc_Credentials b) = ''tok'' \<and> acc_ID b = ''acct_78'' \<and> acc_Enabled b \<and>
     account_Get sample_accounts ''acct_78'' d' = (Inr b, d')"
proof -
  have "length ''nn'' = ad_NonceSize (rk_aead sample_accounts)" "db_faults empty_database = []"
    "accounts_inv empty_database" "kind_Valid (acc_Provider sample_login)"
    "fingerprint_account sample_accounts (acc_Provider sample_login) (acc_Credentials sample_login)
       = Inr (''devin'' @ [CHR 0x00] @ ''tok'')"
    "rk_marshal sample_accounts (acc_Credentials sample_login) = Inr ''otok''"
    "''acct_78'' = ''acct_'' @ hex_encode ''x''" "row_get ar_id ''acct_78'' (db_accounts empty_database) = None"
    by code_simp+
  from login_read_back [OF sample_accounts_laws this, of "from_unix 10"] show ?thesis
    by (auto simp: empty_database_def row_get_Nil sample_login_def)
qed

definition sample_xai_login :: account where
  "sample_xai_login = sample_login\<lparr>acc_Provider := XAI,
     acc_Credentials := blank_credentials\<lparr>ac_Issuer := ''devin'', ac_Subject := ''tok''\<rparr>\<rparr>"

definition devin_account_row :: account_row where
  "devin_account_row = login_row sample_login ''acct_1'' (''devin'' @ [CHR 0x00] @ ''tok'') ''v1:'' 0"

theorem login_never_crosses_providers_witness:
  "tables (snd (upsertLogin sample_accounts sample_xai_login 0 (Inr ''nn'') (Inr ''x'')
      (empty_database\<lparr>db_accounts := [devin_account_row]\<rparr>)))
   = tables (empty_database\<lparr>db_accounts := [devin_account_row]\<rparr>)"
proof -
  have "fingerprint_account sample_accounts (acc_Provider sample_xai_login) (acc_Credentials sample_xai_login)
       = Inr (''devin'' @ [CHR 0x00] @ ''tok'')"
    by code_simp
  moreover have "row_get ar_fingerprint (''devin'' @ [CHR 0x00] @ ''tok'')
       (db_accounts (empty_database\<lparr>db_accounts := [devin_account_row]\<rparr>)) = Some devin_account_row"
    by (simp add: devin_account_row_def table_simps)
  moreover have "ar_provider devin_account_row \<noteq> acc_Provider sample_xai_login"
    by (simp add: devin_account_row_def sample_xai_login_def sample_login_def XAI_def Devin_def)
  ultimately show ?thesis
    using login_never_crosses_providers [OF _ _ _ prod.collapse [symmetric]] by blast
qed

end
