(* ===== verification/OAuth_Payload.thy ===== *)
theory OAuth_Payload
  imports Store_Accounts
begin

text \<open>
  The encrypted payload of an OAuth session (first part of \<open>internal/store/oauth_sessions.go\<close>):
  its JSON form, the decoder with its legacy keys, and the secrets it may hold.

  \<open>encoding/json\<close> is split at the value level: text to and from \<open>json\<close> values is the
  parameter pair \<open>og_print\<close>, \<open>og_parse\<close>, and so are the encodings of times and integers;
  which keys are written, omitted, read and preferred is modelled. Decoding a missing or null
  field leaves the zero value.
\<close>


section \<open>Data\<close>

record oauth_authorization =
  oa_AccessToken :: string
  oa_RefreshToken :: string
  oa_IDToken :: string
  oa_TokenType :: string
  oa_ExpiresIn :: int
  oa_AuthorizedAt :: time
  oa_ExpiresAt :: time

record oauth_pending =
  op_Verifier :: string
  op_RedirectURI :: string
  op_ExpiresAt :: time

record oauth_payload =
  pp_State :: string
  pp_DeviceCode :: string
  pp_UserCode :: string
  pp_VerificationURI :: string
  pp_VerificationURIComplete :: string
  pp_TokenEndpoint :: string
  pp_Pending :: "oauth_pending option"
  pp_Authorization :: "oauth_authorization option"
  pp_AccountID :: string

definition empty_payload :: oauth_payload where
  "empty_payload = \<lparr>pp_State = [], pp_DeviceCode = [], pp_UserCode = [], pp_VerificationURI = [],
     pp_VerificationURIComplete = [], pp_TokenEndpoint = [], pp_Pending = None, pp_Authorization = None,
     pp_AccountID = []\<rparr>"

definition empty_pending :: oauth_pending where
  "empty_pending = \<lparr>op_Verifier = [], op_RedirectURI = [], op_ExpiresAt = zero_time\<rparr>"

definition empty_authorization :: oauth_authorization where
  "empty_authorization = \<lparr>oa_AccessToken = [], oa_RefreshToken = [], oa_IDToken = [], oa_TokenType = [],
     oa_ExpiresIn = 0, oa_AuthorizedAt = zero_time, oa_ExpiresAt = zero_time\<rparr>"

record oauth_repository =
  og_key :: string
  og_aead :: aead
  og_sha256 :: "string \<Rightarrow> string"
  og_print :: "json \<Rightarrow> go_error + string"
  og_parse :: "string \<Rightarrow> json option"
  og_time_enc :: "time \<Rightarrow> json"
  og_time_dec :: "json \<Rightarrow> time option"
  og_int_enc :: "int \<Rightarrow> string"
  og_int_dec :: "string \<Rightarrow> int option"

text \<open>The laws: text, times and integers that are written are read back, and a time is not
  written as \<open>null\<close>.\<close>

definition oauth_codec_laws :: "oauth_repository \<Rightarrow> bool" where
  "oauth_codec_laws r \<longleftrightarrow> aead_laws (og_aead r) \<and>
     (\<forall>j s. og_print r j = Inr s \<longrightarrow> og_parse r s = Some j) \<and>
     (\<forall>t. og_time_dec r (og_time_enc r t) = Some t \<and> og_time_enc r t \<noteq> JNull) \<and>
     (\<forall>i. og_int_dec r (og_int_enc r i) = Some i)"


section \<open>Encoding\<close>

text \<open>The object of the fields that are present; \<open>omitempty\<close> leaves out empty strings, zero
  integers and nil pointers.\<close>

definition present_fields :: "(string \<times> json option) list \<Rightarrow> jobject" where
  "present_fields fs = concat (map (\<lambda>(k, v). case v of None \<Rightarrow> [] | Some j \<Rightarrow> [(k, j)]) fs)"

definition omit_string :: "string \<Rightarrow> json option" where
  "omit_string v = (if v = [] then None else Some (JStr v))"

definition pending_json :: "oauth_repository \<Rightarrow> oauth_pending \<Rightarrow> json" where
  "pending_json r p =
     JObj [(''verifier'', JStr (op_Verifier p)), (''redirect_uri'', JStr (op_RedirectURI p)),
           (''expires_at'', og_time_enc r (op_ExpiresAt p))]"

text \<open>\<open>omitempty\<close> has no effect on the two times, which are structs.\<close>

definition authorization_json :: "oauth_repository \<Rightarrow> oauth_authorization \<Rightarrow> json" where
  "authorization_json r a =
     JObj (present_fields
       [(''access_token'', omit_string (oa_AccessToken a)), (''refresh_token'', omit_string (oa_RefreshToken a)),
        (''id_token'', omit_string (oa_IDToken a)), (''token_type'', omit_string (oa_TokenType a)),
        (''expires_in'', if oa_ExpiresIn a = 0 then None else Some (JNum (og_int_enc r (oa_ExpiresIn a)))),
        (''authorized_at'', Some (og_time_enc r (oa_AuthorizedAt a))),
        (''expires_at'', Some (og_time_enc r (oa_ExpiresAt a)))])"

definition payload_json :: "oauth_repository \<Rightarrow> oauth_payload \<Rightarrow> json" where
  "payload_json r p =
     JObj (present_fields
       [(''state'', omit_string (pp_State p)), (''device_code'', omit_string (pp_DeviceCode p)),
        (''user_code'', omit_string (pp_UserCode p)), (''verification_uri'', omit_string (pp_VerificationURI p)),
        (''verification_uri_complete'', omit_string (pp_VerificationURIComplete p)),
        (''token_endpoint'', omit_string (pp_TokenEndpoint p)),
        (''pending'', map_option (pending_json r) (pp_Pending p)),
        (''authorization'', map_option (authorization_json r) (pp_Authorization p)),
        (''account_id'', omit_string (pp_AccountID p))])"


section \<open>Decoding\<close>

text \<open>\<open>json.Unmarshal\<close> of one value into a string, an integer or a time: null keeps the old
  value.\<close>

definition decode_string :: "string \<Rightarrow> json \<Rightarrow> string option" where
  "decode_string old v = (case v of JNull \<Rightarrow> Some old | JStr s \<Rightarrow> Some s | _ \<Rightarrow> None)"

definition decode_int :: "oauth_repository \<Rightarrow> int \<Rightarrow> json \<Rightarrow> int option" where
  "decode_int r old v = (case v of JNull \<Rightarrow> Some old | JNum s \<Rightarrow> og_int_dec r s | _ \<Rightarrow> None)"

definition decode_time :: "oauth_repository \<Rightarrow> time \<Rightarrow> json \<Rightarrow> time option" where
  "decode_time r old v = (case v of JNull \<Rightarrow> Some old | _ \<Rightarrow> og_time_dec r v)"

text \<open>A field under its canonical key or, if allowed and the canonical key is absent, its legacy
  key; an absent field keeps the zero value.\<close>

definition field_value :: "jobject \<Rightarrow> bool \<Rightarrow> string \<Rightarrow> string \<Rightarrow> json option" where
  "field_value m legacy key legacyKey =
     (case jget m key of Some v \<Rightarrow> Some v | None \<Rightarrow> if legacy then jget m legacyKey else None)"

definition decode_field :: "('a \<Rightarrow> json \<Rightarrow> 'a option) \<Rightarrow> 'a \<Rightarrow> json option \<Rightarrow> 'a option" where
  "decode_field dec zero v = (case v of None \<Rightarrow> Some zero | Some j \<Rightarrow> dec zero j)"

definition decodeOAuthPendingPayload :: "oauth_repository \<Rightarrow> json \<Rightarrow> oauth_pending option option" where
  "decodeOAuthPendingPayload r v =
     (case v of
        JNull \<Rightarrow> Some None
      | JObj m \<Rightarrow>
          (case decode_field decode_string [] (jget m ''verifier'') of None \<Rightarrow> None | Some verifier \<Rightarrow>
          (case decode_field decode_string [] (jget m ''redirect_uri'') of None \<Rightarrow> None | Some uri \<Rightarrow>
          (case decode_field (decode_time r) zero_time (jget m ''expires_at'') of None \<Rightarrow> None | Some t \<Rightarrow>
             Some (Some \<lparr>op_Verifier = verifier, op_RedirectURI = uri, op_ExpiresAt = t\<rparr>))))
      | _ \<Rightarrow> None)"

definition decodeOAuthAuthorization :: "oauth_repository \<Rightarrow> bool \<Rightarrow> json \<Rightarrow> oauth_authorization option option" where
  "decodeOAuthAuthorization r legacy v =
     (case v of
        JNull \<Rightarrow> Some None
      | JObj m \<Rightarrow>
          (let f = field_value m legacy in
           case decode_field decode_string [] (f ''access_token'' ''AccessToken'') of None \<Rightarrow> None | Some acc \<Rightarrow>
          (case decode_field decode_string [] (f ''refresh_token'' ''RefreshToken'') of None \<Rightarrow> None | Some ref \<Rightarrow>
          (case decode_field decode_string [] (f ''id_token'' ''IDToken'') of None \<Rightarrow> None | Some idt \<Rightarrow>
          (case decode_field decode_string [] (f ''token_type'' ''TokenType'') of None \<Rightarrow> None | Some ty \<Rightarrow>
          (case decode_field (decode_int r) 0 (f ''expires_in'' ''ExpiresIn'') of None \<Rightarrow> None | Some n \<Rightarrow>
          (case decode_field (decode_time r) zero_time (f ''authorized_at'' ''AuthorizedAt'') of None \<Rightarrow> None | Some at \<Rightarrow>
          (case decode_field (decode_time r) zero_time (f ''expires_at'' ''ExpiresAt'') of None \<Rightarrow> None | Some t \<Rightarrow>
             Some (Some \<lparr>oa_AccessToken = acc, oa_RefreshToken = ref, oa_IDToken = idt, oa_TokenType = ty,
               oa_ExpiresIn = n, oa_AuthorizedAt = at, oa_ExpiresAt = t\<rparr>))))))))
      | _ \<Rightarrow> None)"

text \<open>The canonical pass reads the canonical keys. Outside the legacy device flow the
  device-flow fields are then cleared; in it, a field whose canonical key is absent is read from
  its legacy key.\<close>

definition decode_canonical :: "oauth_repository \<Rightarrow> jobject \<Rightarrow> oauth_payload option" where
  "decode_canonical r m =
     (let str = (\<lambda>k. decode_field decode_string [] (jget m k)) in
      case str ''state'' of None \<Rightarrow> None | Some state \<Rightarrow>
     (case str ''device_code'' of None \<Rightarrow> None | Some dc \<Rightarrow>
     (case str ''user_code'' of None \<Rightarrow> None | Some uc \<Rightarrow>
     (case str ''verification_uri'' of None \<Rightarrow> None | Some vu \<Rightarrow>
     (case str ''verification_uri_complete'' of None \<Rightarrow> None | Some vc \<Rightarrow>
     (case str ''token_endpoint'' of None \<Rightarrow> None | Some te \<Rightarrow>
     (case str ''account_id'' of None \<Rightarrow> None | Some ai \<Rightarrow>
     (case (case jget m ''pending'' of None \<Rightarrow> Some None | Some v \<Rightarrow> decodeOAuthPendingPayload r v) of None \<Rightarrow> None | Some p \<Rightarrow>
     (case (case jget m ''authorization'' of None \<Rightarrow> Some None | Some v \<Rightarrow> decodeOAuthAuthorization r False v) of None \<Rightarrow> None | Some a \<Rightarrow>
        Some \<lparr>pp_State = state, pp_DeviceCode = dc, pp_UserCode = uc, pp_VerificationURI = vu,
          pp_VerificationURIComplete = vc, pp_TokenEndpoint = te, pp_Pending = p, pp_Authorization = a,
          pp_AccountID = ai\<rparr>)))))))))"

definition legacy_string :: "jobject \<Rightarrow> string \<Rightarrow> string \<Rightarrow> string \<Rightarrow> string option" where
  "legacy_string m key legacyKey old =
     (if jget m key \<noteq> None then Some old
      else case jget m legacyKey of None \<Rightarrow> Some old | Some v \<Rightarrow> decode_string old v)"

definition decode_legacy :: "oauth_repository \<Rightarrow> jobject \<Rightarrow> oauth_payload \<Rightarrow> oauth_payload option" where
  "decode_legacy r m p =
     (case legacy_string m ''state'' ''State'' (pp_State p) of None \<Rightarrow> None | Some state \<Rightarrow>
     (case legacy_string m ''device_code'' ''DeviceCode'' (pp_DeviceCode p) of None \<Rightarrow> None | Some dc \<Rightarrow>
     (case legacy_string m ''user_code'' ''UserCode'' (pp_UserCode p) of None \<Rightarrow> None | Some uc \<Rightarrow>
     (case legacy_string m ''verification_uri'' ''VerificationURI'' (pp_VerificationURI p) of None \<Rightarrow> None | Some vu \<Rightarrow>
     (case legacy_string m ''verification_uri_complete'' ''VerificationURIComplete'' (pp_VerificationURIComplete p) of None \<Rightarrow> None | Some vc \<Rightarrow>
     (case legacy_string m ''token_endpoint'' ''TokenEndpoint'' (pp_TokenEndpoint p) of None \<Rightarrow> None | Some te \<Rightarrow>
     (case (if jget m ''authorization'' \<noteq> None then Some (pp_Authorization p)
            else case jget m ''Authorization'' of None \<Rightarrow> Some (pp_Authorization p)
                 | Some v \<Rightarrow> decodeOAuthAuthorization r True v) of None \<Rightarrow> None | Some a \<Rightarrow>
     (case legacy_string m ''account_id'' ''AccountID'' (pp_AccountID p) of None \<Rightarrow> None | Some ai \<Rightarrow>
        Some (p\<lparr>pp_State := state, pp_DeviceCode := dc, pp_UserCode := uc, pp_VerificationURI := vu,
          pp_VerificationURIComplete := vc, pp_TokenEndpoint := te, pp_Authorization := a, pp_AccountID := ai\<rparr>)))))))))"

definition clear_device_fields :: "oauth_payload \<Rightarrow> oauth_payload" where
  "clear_device_fields p =
     p\<lparr>pp_State := [], pp_DeviceCode := [], pp_UserCode := [], pp_VerificationURI := [],
       pp_VerificationURIComplete := [], pp_TokenEndpoint := []\<rparr>"

definition decodeOAuthEncryptedPayload :: "oauth_repository \<Rightarrow> string \<Rightarrow> bool \<Rightarrow> oauth_payload option" where
  "decodeOAuthEncryptedPayload r data allowLegacyDevice =
     (case og_parse r data of
        Some JNull \<Rightarrow> Some empty_payload
      | Some (JObj m) \<Rightarrow>
          (case decode_canonical r m of
             None \<Rightarrow> None
           | Some p \<Rightarrow> if allowLegacyDevice then decode_legacy r m p else Some (clear_device_fields p))
      | _ \<Rightarrow> None)"


section \<open>Round trip\<close>

lemma jget_Cons: "jget ((k, v) # m) k' = (if k' = k then Some v else jget m k')"
  by (simp add: jget_def)

lemma jget_present_fields:
  "distinct (map fst fs) \<Longrightarrow> jget (present_fields fs) k = (case map_of fs k of None \<Rightarrow> None | Some v \<Rightarrow> v)"
proof (induction fs)
  case (Cons f fs)
  have none: "k \<notin> fst ` set gs \<Longrightarrow> jget (present_fields gs) k = None" for gs
    by (induction gs) (auto simp: present_fields_def jget_def split: option.splits)
  obtain k0 v0 where f: "f = (k0, v0)" by fastforce
  with Cons none [of fs] show ?case
    by (cases v0) (auto simp: present_fields_def jget_def)
qed (simp add: present_fields_def jget_def)

lemma decode_omitted [simp]: "decode_field decode_string [] (omit_string v) = Some v"
  by (simp add: omit_string_def decode_field_def decode_string_def)

lemma decode_time_enc: "oauth_codec_laws r \<Longrightarrow> decode_time r old (og_time_enc r t) = Some t"
proof -
  assume "oauth_codec_laws r"
  then have "og_time_dec r (og_time_enc r t) = Some t" "og_time_enc r t \<noteq> JNull"
    by (simp_all add: oauth_codec_laws_def)
  then show ?thesis by (cases "og_time_enc r t") (simp_all add: decode_time_def)
qed

lemma decode_pending_json:
  "oauth_codec_laws r \<Longrightarrow> decodeOAuthPendingPayload r (pending_json r p) = Some (Some p)"
  by (simp add: decodeOAuthPendingPayload_def pending_json_def jget_Cons decode_field_def decode_string_def decode_time_enc)

lemma field_value_canonical: "field_value m False k lk = jget m k"
  by (simp add: field_value_def split: option.splits)

lemma decode_omitted_int:
  "oauth_codec_laws r \<Longrightarrow>
   decode_field (decode_int r) 0 (if n = 0 then None else Some (JNum (og_int_enc r n))) = Some n"
  by (simp add: decode_field_def decode_int_def oauth_codec_laws_def)

lemma decode_present_time:
  "oauth_codec_laws r \<Longrightarrow> decode_field (decode_time r) zero_time (Some (og_time_enc r t)) = Some t"
  by (simp add: decode_field_def decode_time_enc)

lemma decode_authorization_json:
  "oauth_codec_laws r \<Longrightarrow> decodeOAuthAuthorization r False (authorization_json r a) = Some (Some a)"
  by (simp add: decodeOAuthAuthorization_def authorization_json_def field_value_canonical jget_present_fields
      Let_def decode_present_time decode_omitted_int)

lemma payload_keys_distinct:
  "distinct [''state'', ''device_code'', ''user_code'', ''verification_uri'', ''verification_uri_complete'',
     ''token_endpoint'', ''pending'', ''authorization'', ''account_id'']"
  by simp

text \<open>What the encoded object holds under each key.\<close>

lemma payload_lookup:
  assumes "payload_json r p = JObj m"
  shows "jget m ''state'' = omit_string (pp_State p)" "jget m ''device_code'' = omit_string (pp_DeviceCode p)"
    "jget m ''user_code'' = omit_string (pp_UserCode p)" "jget m ''verification_uri'' = omit_string (pp_VerificationURI p)"
    "jget m ''verification_uri_complete'' = omit_string (pp_VerificationURIComplete p)"
    "jget m ''token_endpoint'' = omit_string (pp_TokenEndpoint p)"
    "jget m ''account_id'' = omit_string (pp_AccountID p)"
    "jget m ''pending'' = map_option (pending_json r) (pp_Pending p)"
    "jget m ''authorization'' = map_option (authorization_json r) (pp_Authorization p)"
    "k \<in> {''State'', ''DeviceCode'', ''UserCode'', ''VerificationURI'', ''VerificationURIComplete'',
       ''TokenEndpoint'', ''Authorization'', ''AccountID''} \<Longrightarrow> jget m k = None"
  using assms payload_keys_distinct by (auto simp: payload_json_def jget_present_fields)

lemma decode_canonical_json:
  assumes "oauth_codec_laws r" "payload_json r p = JObj m"
  shows "decode_canonical r m = Some p"
proof -
  have "(case map_option (pending_json r) (pp_Pending p) of None \<Rightarrow> Some None | Some v \<Rightarrow> decodeOAuthPendingPayload r v) = Some (pp_Pending p)"
    by (cases "pp_Pending p") (simp_all add: decode_pending_json assms(1))
  moreover have "(case map_option (authorization_json r) (pp_Authorization p) of None \<Rightarrow> Some None
      | Some v \<Rightarrow> decodeOAuthAuthorization r False v) = Some (pp_Authorization p)"
    by (cases "pp_Authorization p") (simp_all add: decode_authorization_json assms(1))
  ultimately show ?thesis
    by (simp add: decode_canonical_def Let_def payload_lookup [OF assms(2)])
qed

lemma decode_legacy_json:
  assumes "payload_json r p = JObj m"
  shows "decode_legacy r m p = Some p"
proof -
  have l: "legacy_string m k lk old = Some old"
    if "lk \<in> {''State'', ''DeviceCode'', ''UserCode'', ''VerificationURI'', ''VerificationURIComplete'',
      ''TokenEndpoint'', ''Authorization'', ''AccountID''}" for k lk old
    using payload_lookup(10) [OF assms that] by (simp add: legacy_string_def)
  have "jget m ''Authorization'' = None" using payload_lookup(10) [OF assms] by simp
  then show ?thesis by (simp add: decode_legacy_def l)
qed

end
