(* ===== verification/Moving_Table.thy ===== *)
theory Moving_Table
  imports Store_DB
begin

text \<open>
  Tables whose rows move along the edges of a machine, in place, and never disappear:
  \<open>extends R\<close> relates the rows before and after, \<open>evolving\<close> lifts it to databases as a relation
  that monadic code can keep. The locale \<open>moving_table\<close> is the contract of such a table and
  proves what holds along every run. It is interpreted on the OAuth sessions and on the API keys.
\<close>


section \<open>Rows that move in place\<close>

definition extends :: "('r \<Rightarrow> 'r \<Rightarrow> bool) \<Rightarrow> 'r list \<Rightarrow> 'r list \<Rightarrow> bool" where
  "extends R xs xs' \<longleftrightarrow> (\<exists>ys zs. xs' = ys @ zs \<and> list_all2 R\<^sup>*\<^sup>* xs ys)"

lemma extends_append: "extends R xs (xs @ zs)"
proof -
  have "list_all2 R\<^sup>*\<^sup>* xs xs" by (simp add: list_all2_refl)
  then show ?thesis unfolding extends_def by blast
qed

lemma extends_refl [simp]: "extends R xs xs"
  using extends_append [of R xs "[]"] by simp

lemma extends_trans:
  assumes "extends R xs ys" "extends R ys zs"
  shows "extends R xs zs"
proof -
  from assms obtain y1 y2 z1 z2 where y: "ys = y1 @ y2" "list_all2 R\<^sup>*\<^sup>* xs y1"
    and z: "zs = z1 @ z2" "list_all2 R\<^sup>*\<^sup>* (y1 @ y2) z1"
    unfolding extends_def by auto
  from z(2) obtain w1 w2 where w: "z1 = w1 @ w2" "list_all2 R\<^sup>*\<^sup>* y1 w1"
    by (auto simp: list_all2_append1)
  have "list_all2 R\<^sup>*\<^sup>* xs w1" by (rule list_all2_trans [OF rtranclp_trans y(2) w(2)])
  moreover have "zs = w1 @ (w2 @ z2)" using z(1) w(1) by simp
  ultimately show ?thesis unfolding extends_def by blast
qed

lemma extends_map:
  assumes "\<And>row. P row \<Longrightarrow> R row (f row)"
  shows "extends R rows (map (\<lambda>row. if P row then f row else row) rows)"
proof -
  have "list_all2 R\<^sup>*\<^sup>* rows (map (\<lambda>row. if P row then f row else row) rows)"
    using assms by (induction rows) auto
  then show ?thesis unfolding extends_def by (metis append_Nil2)
qed

lemma extends_nth:
  "extends R xs xs' \<Longrightarrow> i < length xs \<Longrightarrow> i < length xs' \<and> R\<^sup>*\<^sup>* (xs ! i) (xs' ! i)"
  by (auto simp: extends_def nth_append list_all2_conv_all_nth)

definition evolving :: "(database \<Rightarrow> 'r list) \<Rightarrow> ('r \<Rightarrow> 'r \<Rightarrow> bool) \<Rightarrow> database \<Rightarrow> database \<Rightarrow> bool" where
  "evolving rows R d d' \<longleftrightarrow> extends R (rows d) (rows d')"

lemma evolving_reflp [keeps_intros]: "reflp (evolving rows R)"
  by (rule reflpI) (simp add: evolving_def)

lemma evolving_transp [keeps_intros]: "transp (evolving rows R)"
  using extends_trans by (intro transpI) (auto simp: evolving_def)

lemma evolving_tables [keeps_intros]: "(\<And>d. rows (tables d) = rows d) \<Longrightarrow> table_rel (evolving rows R)"
  unfolding table_rel_def evolving_def by metis

lemma evolving_same: "rows d' = rows d \<Longrightarrow> evolving rows R d d'"
  by (simp add: evolving_def)


section \<open>The contract\<close>

locale moving_table =
  fixes rows :: "'d \<Rightarrow> 'r list" and step :: "'d \<Rightarrow> 'd \<Rightarrow> bool" and move :: "'r \<Rightarrow> 'r \<Rightarrow> bool"
  assumes step_extends: "step d d' \<Longrightarrow> extends move (rows d) (rows d')"
begin

lemma run_extends: "step\<^sup>*\<^sup>* d d' \<Longrightarrow> extends move (rows d) (rows d')"
  by (induction rule: rtranclp_induct) (auto intro: extends_trans step_extends)

lemma run_nth:
  "step\<^sup>*\<^sup>* d d' \<Longrightarrow> i < length (rows d) \<Longrightarrow> i < length (rows d') \<and> move\<^sup>*\<^sup>* (rows d ! i) (rows d' ! i)"
  using run_extends extends_nth by blast

text \<open>A row looked up by what the machine does not change is found again, moved.\<close>

lemma run_find:
  assumes run: "step\<^sup>*\<^sup>* d d'" and P: "\<And>r r'. move r r' \<Longrightarrow> P r' = P r" and f: "find P (rows d) = Some r"
  shows "\<exists>r'. find P (rows d') = Some r' \<and> move\<^sup>*\<^sup>* r r'"
proof -
  have P': "P r' = P r" if "move\<^sup>*\<^sup>* r r'" for r r'
    using that by (induction rule: rtranclp_induct) (auto simp: P)
  obtain i where i: "i < length (rows d)" "P (rows d ! i)" "r = rows d ! i" "\<forall>j < i. \<not> P (rows d ! j)"
    using f by (auto simp: find_Some_iff)
  have m: "move\<^sup>*\<^sup>* (rows d ! j) (rows d' ! j)" if "j \<le> i" for j
    using run_nth [OF run] i(1) that by simp
  have "find P (rows d') = Some (rows d' ! i)"
    using i(2,4) m P' run_nth [OF run i(1)] unfolding find_Some_iff by (metis less_imp_le order_refl)
  with m i(3) show ?thesis by blast
qed

end

end
