(* ===== verification/OAuth_Sessions.thy ===== *)
theory OAuth_Sessions
  imports OAuth_Payload Moving_Table
begin

text \<open>
  The OAuth session repository (\<open>internal/store/oauth_sessions.go\<close>) and the transaction that
  publishes a Devin account (\<open>DevinOAuthTransaction\<close> in \<open>internal/store/sqlite.go\<close>, with its
  test hooks unset). A session is found by the hash of its OAuth state or by its public id, and
  always together with its provider and flow. Randomness (nonces, a new session id) and the
  clock are arguments.

  Shown: every operation moves the stored rows along the edges of the abstract machine \<open>moves\<close>.
  \<open>OAuth_Flow\<close> draws the consequences.
\<close>


section \<open>Data\<close>

definition OAuthFlowDevice :: string where "OAuthFlowDevice = ''device''"
definition OAuthFlowCallbackPKCE :: string where "OAuthFlowCallbackPKCE = ''callback_pkce''"

definition flow_Valid :: "string \<Rightarrow> bool" where
  "flow_Valid f \<longleftrightarrow> f = OAuthFlowDevice \<or> f = OAuthFlowCallbackPKCE"

definition ErrOAuthTerminalConflict :: go_error where
  "ErrOAuthTerminalConflict = Wrapf ''oauth session is in a non-cancellable terminal state'' [ErrNoRows]"

record oauth_session =
  os_Provider :: kind
  os_FlowType :: string
  os_SessionID :: string
  os_State :: string
  os_StateHash :: string
  os_DeviceCode :: string
  os_UserCode :: string
  os_VerificationURI :: string
  os_VerificationURIComplete :: string
  os_TokenEndpoint :: string
  os_Pending :: "oauth_pending option"
  os_PollInterval :: duration
  os_ExpiresAt :: time
  os_Status :: string
  os_SanitizedError :: string
  os_AccountID :: string
  os_Authorization :: "oauth_authorization option"
  os_CreatedAt :: time
  os_UpdatedAt :: time

definition oauth_encrypt :: "oauth_repository \<Rightarrow> go_error + string \<Rightarrow> oauth_session \<Rightarrow> go_error + string" where
  "oauth_encrypt r nonce v =
     (case og_print r (payload_json r
        \<lparr>pp_State = (if os_FlowType v = OAuthFlowDevice then os_State v else []), pp_DeviceCode = os_DeviceCode v,
         pp_UserCode = os_UserCode v, pp_VerificationURI = os_VerificationURI v,
         pp_VerificationURIComplete = os_VerificationURIComplete v, pp_TokenEndpoint = os_TokenEndpoint v,
         pp_Pending = os_Pending v, pp_Authorization = os_Authorization v, pp_AccountID = os_AccountID v\<rparr>) of
        Inl e \<Rightarrow> Inl e
      | Inr payload \<Rightarrow> Encrypt (og_aead r) (og_key r) nonce payload)"

definition oauth_scan :: "oauth_repository \<Rightarrow> oauth_row \<Rightarrow> go_error + oauth_session" where
  "oauth_scan r row =
     (case kind_Scan (Some []) (DVString (or_provider row)) of Inl e \<Rightarrow> Inl e | Inr kind \<Rightarrow>
      if \<not> kind_Valid kind \<or> \<not> flow_Valid (or_flow_type row)
      then Inl (ErrNew ''invalid persisted oauth provider or flow type'')
      else case Decrypt (og_aead r) (og_key r) (or_payload row) of Inl e \<Rightarrow> Inl e | Inr plain \<Rightarrow>
      (case decodeOAuthEncryptedPayload r plain (kind = XAI \<and> or_flow_type row = OAuthFlowDevice) of
         None \<Rightarrow> Inl (ErrNew ''decode encrypted oauth session'')
       | Some p \<Rightarrow> Inr \<lparr>os_Provider = kind, os_FlowType = or_flow_type row, os_SessionID = coalesce (or_session_id row),
           os_State = pp_State p, os_StateHash = or_state_hash row, os_DeviceCode = pp_DeviceCode p,
           os_UserCode = pp_UserCode p, os_VerificationURI = pp_VerificationURI p,
           os_VerificationURIComplete = pp_VerificationURIComplete p, os_TokenEndpoint = pp_TokenEndpoint p,
           os_Pending = pp_Pending p, os_PollInterval = or_poll_interval row * second,
           os_ExpiresAt = from_unix (or_expires_at row), os_Status = or_status row,
           os_SanitizedError = coalesce (or_sanitized_error row), os_AccountID = pp_AccountID p,
           os_Authorization = pp_Authorization p, os_CreatedAt = from_unix (or_created_at row),
           os_UpdatedAt = from_unix (or_updated_at row)\<rparr>))"

definition disposeOAuthSecrets :: "oauth_session \<Rightarrow> oauth_session" where
  "disposeOAuthSecrets v =
     v\<lparr>os_DeviceCode := [], os_UserCode := [], os_VerificationURI := [], os_VerificationURIComplete := [],
       os_TokenEndpoint := [], os_Pending := None, os_Authorization := None\<rparr>"

definition validateOAuthKey :: "kind \<Rightarrow> string \<Rightarrow> string \<Rightarrow> go_error option" where
  "validateOAuthKey kind flow state =
     (if \<not> kind_Valid kind then Some (ErrNew (''invalid oauth provider '' @ kind))
      else if \<not> flow_Valid flow then Some (ErrNew (''invalid oauth flow type '' @ flow))
      else if state = [] then Some (ErrNew ''oauth state is required'')
      else None)"

definition guard_error :: "go_error option \<Rightarrow> ('s, go_error, 'a) op \<Rightarrow> ('s, go_error, 'a) op" where
  "guard_error e m = (case e of Some err \<Rightarrow> raise err | None \<Rightarrow> m)"

text \<open>Row selections.\<close>

definition by_state :: "oauth_repository \<Rightarrow> kind \<Rightarrow> string \<Rightarrow> string \<Rightarrow> oauth_row \<Rightarrow> bool" where
  "by_state r kind flow state row \<longleftrightarrow>
     or_state_hash row = og_sha256 r state \<and> or_provider row = kind \<and> or_flow_type row = flow"

definition by_session :: "kind \<Rightarrow> string \<Rightarrow> string \<Rightarrow> oauth_row \<Rightarrow> bool" where
  "by_session kind flow sessionID row \<longleftrightarrow>
     or_session_id row = Some sessionID \<and> or_provider row = kind \<and> or_flow_type row = flow"

definition select_session :: "oauth_repository \<Rightarrow> (oauth_row \<Rightarrow> bool) \<Rightarrow> oauth_session dbop" where
  "select_session r P =
     andThen (db_query_row (\<lambda>d. find P (db_oauth d))) (\<lambda>row. lift_result (oauth_scan r row))"

definition update_sessions :: "(oauth_row \<Rightarrow> bool) \<Rightarrow> (oauth_row \<Rightarrow> oauth_row) \<Rightarrow> database \<Rightarrow> nat \<times> database" where
  "update_sessions P f d =
     (length (filter P (db_oauth d)), d\<lparr>db_oauth := map (\<lambda>row. if P row then f row else row) (db_oauth d)\<rparr>)"


section \<open>Creating and reading\<close>

definition create_error :: "oauth_session \<Rightarrow> go_error option" where
  "create_error v =
     (if os_Status v \<noteq> [] \<and> os_Status v \<noteq> ''pending'' then Some (ErrNew ''new oauth session must be pending'')
      else if time_is_zero (os_ExpiresAt v) then Some (ErrNew ''oauth session expiry is required'')
      else if os_FlowType v = OAuthFlowDevice then
        if os_Pending v \<noteq> None then Some (ErrNew ''device oauth session cannot contain callback payload'') else None
      else if os_FlowType v = OAuthFlowCallbackPKCE then
        if (case os_Pending v of None \<Rightarrow> True
            | Some p \<Rightarrow> op_Verifier p = [] \<or> op_RedirectURI p = [] \<or> time_is_zero (op_ExpiresAt p))
        then Some (ErrNew ''callback oauth verifier, redirect URI, and expiry are required'')
        else if os_DeviceCode v \<noteq> [] \<or> os_UserCode v \<noteq> [] \<or> os_VerificationURI v \<noteq> [] \<or>
                os_VerificationURIComplete v \<noteq> [] \<or> os_TokenEndpoint v \<noteq> [] \<or> os_Authorization v \<noteq> None
        then Some (ErrNew ''callback oauth session contains device-flow payload'')
        else None
      else None)"

definition session_row :: "oauth_repository \<Rightarrow> oauth_session \<Rightarrow> string \<Rightarrow> time \<Rightarrow> oauth_row" where
  "session_row r v encrypted now =
     \<lparr>or_state_hash = og_sha256 r (os_State v), or_provider = os_Provider v, or_flow_type = os_FlowType v,
      or_session_id = Some (os_SessionID v), or_payload = encrypted, or_status = ''pending'',
      or_poll_interval = go_quot (os_PollInterval v) second, or_expires_at = unix (os_ExpiresAt v),
      or_created_at = unix now, or_updated_at = unix now, or_sanitized_error = nullString (os_SanitizedError v)\<rparr>"

text \<open>The insert fails on a known state hash and, by the partial unique index, on a known session id
  of the same provider and flow.\<close>

definition oauth_Create ::
  "oauth_repository \<Rightarrow> oauth_session \<Rightarrow> time \<Rightarrow> go_error + string \<Rightarrow> go_error + string \<Rightarrow> unit dbop" where
  "oauth_Create r value now sidRnd nonce =
     guard_error (validateOAuthKey (os_Provider value) (os_FlowType value) (os_State value))
     (andThen (if os_SessionID value = [] then
                 (case sidRnd of Inl e \<Rightarrow> raise (wrap ''oauth session id'' (wrap ''session id randomness'' e))
                  | Inr bytes \<Rightarrow> ret (value\<lparr>os_SessionID := EncodeToString bytes\<rparr>))
               else ret value) (\<lambda>v.
      guard_error (create_error v)
      (andThen (lift_result (oauth_encrypt r nonce (v\<lparr>os_Status := ''pending'', os_CreatedAt := now, os_UpdatedAt := now\<rparr>))) (\<lambda>encrypted.
       let row = session_row r v encrypted now in
       db_exec_checked ''UNIQUE constraint failed: oauth_sessions''
         (\<lambda>d. row_get or_state_hash (or_state_hash row) (db_oauth d) = None \<and>
              \<not> list_ex (by_session (os_Provider v) (os_FlowType v) (os_SessionID v)) (db_oauth d))
         (\<lambda>d. ((), d\<lparr>db_oauth := db_oauth d @ [row]\<rparr>))))))"

definition oauth_GetBySessionID :: "oauth_repository \<Rightarrow> kind \<Rightarrow> string \<Rightarrow> string \<Rightarrow> oauth_session dbop" where
  "oauth_GetBySessionID r kind flow sessionID =
     reject (\<not> kind_Valid kind \<or> \<not> flow_Valid flow) (ErrNew ''valid oauth provider and flow type are required'')
     (reject (trimSpace sessionID = []) (ErrNew ''oauth session id is required'')
     (select_session r (by_session kind flow sessionID)))"

definition oauth_Get :: "oauth_repository \<Rightarrow> kind \<Rightarrow> string \<Rightarrow> string \<Rightarrow> oauth_session dbop" where
  "oauth_Get r kind flow state =
     guard_error (validateOAuthKey kind flow state)
     (andThen (select_session r (by_state r kind flow state)) (\<lambda>v.
        ret (if flow = OAuthFlowDevice then v\<lparr>os_State := state\<rparr> else v)))"

definition oauth_GetPending :: "oauth_repository \<Rightarrow> kind \<Rightarrow> string \<Rightarrow> string \<Rightarrow> time \<Rightarrow> oauth_session dbop" where
  "oauth_GetPending r kind flow state now =
     andThen (oauth_Get r kind flow state) (\<lambda>v.
       if os_Status v \<noteq> ''pending'' \<or> \<not> time_before now (os_ExpiresAt v) then raise ErrNoRows else ret v)"

definition oauth_GetResumable :: "oauth_repository \<Rightarrow> kind \<Rightarrow> string \<Rightarrow> string \<Rightarrow> time \<Rightarrow> oauth_session dbop" where
  "oauth_GetResumable r kind flow state now =
     andThen (oauth_Get r kind flow state) (\<lambda>v.
       if flow = OAuthFlowDevice \<and> os_Status v = ''authorized'' then ret v
       else if os_Status v \<noteq> ''pending'' \<or> \<not> time_before now (os_ExpiresAt v) then raise ErrNoRows else ret v)"

definition list_sessions :: "oauth_repository \<Rightarrow> (oauth_row \<Rightarrow> bool) \<Rightarrow> oauth_session list dbop" where
  "list_sessions r P =
     andThen (db_query (\<lambda>d. sort_key or_created_at (filter P (db_oauth d)))) (\<lambda>rows. lift_result (scan_all (oauth_scan r) rows))"

definition live_pending :: "time \<Rightarrow> oauth_row \<Rightarrow> bool" where
  "live_pending now row \<longleftrightarrow> or_status row = ''pending'' \<and> unix now < or_expires_at row"

definition oauth_ListPending :: "oauth_repository \<Rightarrow> kind \<Rightarrow> string \<Rightarrow> time \<Rightarrow> oauth_session list dbop" where
  "oauth_ListPending r kind flow now =
     reject (\<not> kind_Valid kind \<or> \<not> flow_Valid flow) (ErrNew ''valid oauth provider and flow type are required'')
     (list_sessions r (\<lambda>row. or_provider row = kind \<and> or_flow_type row = flow \<and> live_pending now row))"

definition oauth_ListResumable :: "oauth_repository \<Rightarrow> kind \<Rightarrow> string \<Rightarrow> time \<Rightarrow> oauth_session list dbop" where
  "oauth_ListResumable r kind flow now =
     reject (\<not> kind_Valid kind \<or> \<not> flow_Valid flow) (ErrNew ''valid oauth provider and flow type are required'')
     (list_sessions r (\<lambda>row. or_provider row = kind \<and> or_flow_type row = flow \<and>
        (live_pending now row \<or> or_status row = (if flow = OAuthFlowDevice then ''authorized'' else ''consumed''))))"


section \<open>Mutations\<close>

definition stored_change :: "oauth_session \<Rightarrow> string \<Rightarrow> oauth_row \<Rightarrow> oauth_row" where
  "stored_change v encrypted row =
     row\<lparr>or_payload := encrypted, or_status := os_Status v, or_updated_at := unix (os_UpdatedAt v),
         or_sanitized_error := nullString (os_SanitizedError v)\<rparr>"

text \<open>The transaction shared by \<open>mutate\<close> and \<open>mutateBySessionID\<close>: \<open>change\<close> may fail, and yields
  what the caller keeps of the old session and the new session.\<close>

definition mutate_where ::
  "oauth_repository \<Rightarrow> (oauth_row \<Rightarrow> bool) \<Rightarrow> go_error + string \<Rightarrow> time \<Rightarrow> string list \<Rightarrow>
   (oauth_session \<Rightarrow> go_error + 'x \<times> oauth_session) \<Rightarrow> 'x dbop" where
  "mutate_where r P nonce now from change =
     db_tx (andThen (select_session r P) (\<lambda>value.
       reject (os_Status value \<notin> set from) ErrOAuthTerminalConflict
       (andThen (lift_result (change value)) (\<lambda>p.
        let value' = (snd p)\<lparr>os_UpdatedAt := now\<rparr> in
        andThen (lift_result (oauth_encrypt r nonce value')) (\<lambda>encrypted.
        andThen (db_exec (update_sessions (\<lambda>row. P row \<and> or_status row = os_Status value) (stored_change value' encrypted))) (\<lambda>n.
        andThen (requireAffected n) (\<lambda>_. ret (fst p))))))))"

definition oauth_mutate ::
  "oauth_repository \<Rightarrow> kind \<Rightarrow> string \<Rightarrow> string \<Rightarrow> go_error + string \<Rightarrow> time \<Rightarrow> string list \<Rightarrow>
   (oauth_session \<Rightarrow> go_error + 'x \<times> oauth_session) \<Rightarrow> 'x dbop" where
  "oauth_mutate r kind flow state nonce now from change =
     guard_error (validateOAuthKey kind flow state)
       (mutate_where r (by_state r kind flow state) nonce now from change)"

definition oauth_mutateBySessionID ::
  "oauth_repository \<Rightarrow> kind \<Rightarrow> string \<Rightarrow> string \<Rightarrow> go_error + string \<Rightarrow> time \<Rightarrow> string list \<Rightarrow>
   (oauth_session \<Rightarrow> go_error + 'x \<times> oauth_session) \<Rightarrow> 'x dbop" where
  "oauth_mutateBySessionID r kind flow sessionID nonce now from change =
     reject (\<not> kind_Valid kind \<or> \<not> flow_Valid flow) (ErrNew ''valid oauth provider and flow type are required'')
     (reject (trimSpace sessionID = []) (ErrNew ''oauth session id is required'')
     (mutate_where r (by_session kind flow sessionID) nonce now from change))"

definition end_session :: "string \<Rightarrow> string \<Rightarrow> oauth_session \<Rightarrow> go_error + unit \<times> oauth_session" where
  "end_session to sanitized v =
     Inr ((), disposeOAuthSecrets (v\<lparr>os_Status := to, os_SanitizedError := sanitized, os_AccountID := []\<rparr>))"

definition oauth_terminal where
  "oauth_terminal r kind flow state to sanitized nonce now from =
     oauth_mutate r kind flow state nonce now from (end_session to sanitized)"

definition oauth_Authorize ::
  "oauth_repository \<Rightarrow> kind \<Rightarrow> string \<Rightarrow> string \<Rightarrow> oauth_authorization \<Rightarrow> go_error + string \<Rightarrow> time \<Rightarrow> unit dbop" where
  "oauth_Authorize r kind flow state authorization nonce now =
     reject (flow \<noteq> OAuthFlowDevice) ErrNoRows
     (reject (oa_AccessToken authorization = []) (ErrNew ''oauth authorization access token is required'')
     (oauth_mutate r kind flow state nonce now [''pending''] (\<lambda>v.
        if \<not> time_before now (os_ExpiresAt v) then Inl ErrNoRows
        else Inr ((), v\<lparr>os_Status := ''authorized'', os_SanitizedError := [], os_Authorization := Some authorization\<rparr>))))"

definition consume_change :: "time \<Rightarrow> oauth_session \<Rightarrow> go_error + oauth_pending \<times> oauth_session" where
  "consume_change now v =
     (case os_Pending v of
        None \<Rightarrow> Inl ErrNoRows
      | Some p \<Rightarrow>
          if \<not> time_before now (os_ExpiresAt v) \<or> op_Verifier p = [] \<or> op_RedirectURI p = [] then Inl ErrNoRows
          else Inr (p, v\<lparr>os_Status := ''consumed'', os_Pending := None, os_SanitizedError := []\<rparr>))"

definition oauth_Consume ::
  "oauth_repository \<Rightarrow> kind \<Rightarrow> string \<Rightarrow> string \<Rightarrow> go_error + string \<Rightarrow> time \<Rightarrow> oauth_pending dbop" where
  "oauth_Consume r kind flow state nonce now =
     reject (flow \<noteq> OAuthFlowCallbackPKCE) ErrNoRows
     (oauth_mutate r kind flow state nonce now [''pending''] (consume_change now))"

definition complete_change :: "string \<Rightarrow> oauth_session \<Rightarrow> go_error + unit \<times> oauth_session" where
  "complete_change accountID v =
     Inr ((), disposeOAuthSecrets (v\<lparr>os_Status := ''completed'', os_SanitizedError := [], os_AccountID := accountID\<rparr>))"

definition oauth_Complete ::
  "oauth_repository \<Rightarrow> kind \<Rightarrow> string \<Rightarrow> string \<Rightarrow> string \<Rightarrow> go_error + string \<Rightarrow> time \<Rightarrow> unit dbop" where
  "oauth_Complete r kind flow state accountID nonce now =
     reject (accountID = []) (ErrNew ''completed oauth session account ID is required'')
     (oauth_mutate r kind flow state nonce now
        [if flow = OAuthFlowCallbackPKCE then ''consumed'' else ''authorized'']
        (complete_change accountID))"

definition oauth_Fail ::
  "oauth_repository \<Rightarrow> kind \<Rightarrow> string \<Rightarrow> string \<Rightarrow> string \<Rightarrow> go_error + string \<Rightarrow> time \<Rightarrow> unit dbop" where
  "oauth_Fail r kind flow state sanitized nonce now =
     oauth_terminal r kind flow state ''failed'' sanitized nonce now
       (if flow = OAuthFlowCallbackPKCE then [''consumed''] else [''pending'', ''authorized''])"

definition oauth_Cancel ::
  "oauth_repository \<Rightarrow> kind \<Rightarrow> string \<Rightarrow> string \<Rightarrow> string \<Rightarrow> go_error + string \<Rightarrow> time \<Rightarrow> unit dbop" where
  "oauth_Cancel r kind flow state sanitized nonce now =
     oauth_terminal r kind flow state ''cancelled'' sanitized nonce now [''pending'', ''authorized'']"

definition oauth_Expire ::
  "oauth_repository \<Rightarrow> kind \<Rightarrow> string \<Rightarrow> string \<Rightarrow> string \<Rightarrow> go_error + string \<Rightarrow> time \<Rightarrow> unit dbop" where
  "oauth_Expire r kind flow state sanitized nonce now =
     oauth_terminal r kind flow state ''expired'' sanitized nonce now [''pending'', ''authorized'']"

definition oauth_CancelBySessionID ::
  "oauth_repository \<Rightarrow> kind \<Rightarrow> string \<Rightarrow> string \<Rightarrow> string \<Rightarrow> go_error + string \<Rightarrow> time \<Rightarrow> unit dbop" where
  "oauth_CancelBySessionID r kind flow sessionID sanitized nonce now =
     oauth_mutateBySessionID r kind flow sessionID nonce now [''pending'', ''authorized''] (end_session ''cancelled'' sanitized)"

definition oauth_ExpireBySessionID ::
  "oauth_repository \<Rightarrow> kind \<Rightarrow> string \<Rightarrow> string \<Rightarrow> string \<Rightarrow> go_error + string \<Rightarrow> time \<Rightarrow> unit dbop" where
  "oauth_ExpireBySessionID r kind flow sessionID sanitized nonce now =
     oauth_mutateBySessionID r kind flow sessionID nonce now [''pending'', ''authorized''] (end_session ''expired'' sanitized)"

definition oauth_FailConsumedByHash :: "kind \<Rightarrow> string \<Rightarrow> string \<Rightarrow> string \<Rightarrow> time \<Rightarrow> unit dbop" where
  "oauth_FailConsumedByHash kind flow hash sanitized now =
     reject (\<not> kind_Valid kind \<or> flow \<noteq> OAuthFlowCallbackPKCE \<or> length hash \<noteq> 32) ErrNoRows
     (andThen (db_exec (update_sessions
          (\<lambda>row. or_state_hash row = hash \<and> or_provider row = kind \<and> or_flow_type row = flow \<and> or_status row = ''consumed'')
          (\<lambda>row. row\<lparr>or_status := ''failed'', or_updated_at := unix now, or_sanitized_error := nullString sanitized\<rparr>)))
        requireAffected)"

definition elapsed :: "kind \<Rightarrow> string \<Rightarrow> time \<Rightarrow> oauth_row \<Rightarrow> bool" where
  "elapsed kind flow now row \<longleftrightarrow>
     or_provider row = kind \<and> or_flow_type row = flow \<and> or_status row = ''pending'' \<and> or_expires_at row \<le> unix now"

fun expire_rows ::
  "oauth_repository \<Rightarrow> kind \<Rightarrow> string \<Rightarrow> time \<Rightarrow> (nat \<Rightarrow> go_error + string) \<Rightarrow> nat \<Rightarrow> oauth_session list \<Rightarrow> unit dbop" where
  "expire_rows r kind flow now nonces i [] = ret ()"
| "expire_rows r kind flow now nonces i (v # vs) =
     (let v' = disposeOAuthSecrets (v\<lparr>os_Status := ''expired'', os_SanitizedError := ''Devin authorization expired.'',
                 os_AccountID := [], os_UpdatedAt := now\<rparr>) in
      andThen (lift_result (oauth_encrypt r (nonces i) v')) (\<lambda>encrypted.
      andThen (db_exec (update_sessions (\<lambda>row. or_state_hash row = os_StateHash v \<and> elapsed kind flow now row)
                 (\<lambda>row. row\<lparr>or_payload := encrypted, or_status := ''expired'', or_updated_at := unix now,
                    or_sanitized_error := Some (os_SanitizedError v')\<rparr>))) (\<lambda>n.
      andThen (requireAffected n) (\<lambda>_. expire_rows r kind flow now nonces (Suc i) vs))))"

definition oauth_ExpirePendingBefore ::
  "oauth_repository \<Rightarrow> kind \<Rightarrow> string \<Rightarrow> time \<Rightarrow> (nat \<Rightarrow> go_error + string) \<Rightarrow> nat dbop" where
  "oauth_ExpirePendingBefore r kind flow now nonces =
     reject (\<not> kind_Valid kind \<or> \<not> flow_Valid flow) (ErrNew ''valid oauth provider and flow type are required'')
     (db_tx (andThen (db_query (\<lambda>d. filter (elapsed kind flow now) (db_oauth d))) (\<lambda>rows.
       andThen (lift_result (scan_all (oauth_scan r) rows)) (\<lambda>vs.
       andThen (expire_rows r kind flow now nonces 0 vs) (\<lambda>_. ret (length vs))))))"

definition oauthAuthorizationRetention :: duration where "oauthAuthorizationRetention = 24 * hour"

definition oauth_Cleanup :: "time \<Rightarrow> nat dbop" where
  "oauth_Cleanup before =
     db_exec (\<lambda>d.
       let rows = db_oauth d;
           rows' = delete_limit cleanupBatchSize (\<lambda>row.
             (or_status row = ''pending'' \<and> or_expires_at row < unix before) \<or>
             (or_status row = ''authorized'' \<and> or_updated_at row < unix (before - oauthAuthorizationRetention)) \<or>
             (or_status row \<in> {''completed'', ''failed'', ''expired'', ''cancelled''} \<and> or_updated_at row < unix before)) rows
       in (length rows - length rows', d\<lparr>db_oauth := rows'\<rparr>))"


section \<open>The Devin transaction\<close>

definition completeConsumedDevin ::
  "oauth_repository \<Rightarrow> string \<Rightarrow> string \<Rightarrow> go_error + string \<Rightarrow> time \<Rightarrow> unit dbop" where
  "completeConsumedDevin r state accountID nonce now =
     reject (state = [] \<or> accountID = []) ErrNoRows
     (andThen (select_session r (by_state r Devin OAuthFlowCallbackPKCE state)) (\<lambda>value.
      reject (os_Status value \<noteq> ''consumed'') ErrNoRows
      (let v = disposeOAuthSecrets (value\<lparr>os_Status := ''completed'', os_SanitizedError := [], os_AccountID := accountID,
                 os_UpdatedAt := now\<rparr>) in
       andThen (lift_result (oauth_encrypt r nonce v)) (\<lambda>encrypted.
       andThen (db_exec (update_sessions
           (\<lambda>row. by_state r Devin OAuthFlowCallbackPKCE state row \<and> or_status row = ''consumed'')
           (\<lambda>row. row\<lparr>or_payload := encrypted, or_status := ''completed'', or_updated_at := unix now,
              or_sanitized_error := None\<rparr>))) requireAffected))))"

definition devin_complete ::
  "account_repository \<Rightarrow> oauth_repository \<Rightarrow> string \<Rightarrow> account \<Rightarrow> time \<Rightarrow> go_error + string \<Rightarrow> go_error + string \<Rightarrow>
   go_error + string \<Rightarrow> account dbop" where
  "devin_complete ra ro state a now nonce idRnd nonce2 =
     reject (acc_Provider a \<noteq> Devin) (ErrNew ''devin oauth transaction requires devin account'')
     (db_tx (andThen (upsertLogin ra a now nonce idRnd) (\<lambda>created.
       andThen (completeConsumedDevin ro state (acc_ID created) nonce2 now) (\<lambda>_. ret created))))"

text \<open>On failure only the session is touched: consumed becomes failed.\<close>

definition devin_Complete ::
  "account_repository \<Rightarrow> oauth_repository \<Rightarrow> string \<Rightarrow> account \<Rightarrow> time \<Rightarrow> go_error + string \<Rightarrow> go_error + string \<Rightarrow>
   go_error + string \<Rightarrow> go_error + string \<Rightarrow> account dbop" where
  "devin_Complete ra ro state a now nonce idRnd nonce2 nonce3 =
     attempt (devin_complete ra ro state a now nonce idRnd nonce2) (\<lambda>res. case res of
       Inr created \<Rightarrow> ret created
     | Inl err \<Rightarrow>
         attempt (oauth_Fail ro Devin OAuthFlowCallbackPKCE state ''oauth completion failed'' nonce3 now) (\<lambda>f. case f of
           Inl finalizeErr \<Rightarrow> raise (Wrapf [] [err, finalizeErr])
         | Inr _ \<Rightarrow> raise err))"


section \<open>The abstract machine\<close>

text \<open>The status of a session of a flow moves along these edges only.\<close>

inductive moves :: "string \<Rightarrow> string \<Rightarrow> string \<Rightarrow> bool" where
  authorize: "moves OAuthFlowDevice ''pending'' ''authorized''"
| consume: "moves OAuthFlowCallbackPKCE ''pending'' ''consumed''"
| complete_device: "moves OAuthFlowDevice ''authorized'' ''completed''"
| complete_callback: "moves OAuthFlowCallbackPKCE ''consumed'' ''completed''"
| fail_device: "st \<in> {''pending'', ''authorized''} \<Longrightarrow> moves OAuthFlowDevice st ''failed''"
| fail_callback: "moves OAuthFlowCallbackPKCE ''consumed'' ''failed''"
| withdraw: "st \<in> {''pending'', ''authorized''} \<Longrightarrow> to \<in> {''cancelled'', ''expired''} \<Longrightarrow> moves flow st to"

inductive_cases moves_from: "moves flow st to"

definition terminal_status :: "string \<Rightarrow> bool" where
  "terminal_status st \<longleftrightarrow> st \<in> {''completed'', ''failed'', ''expired'', ''cancelled''}"

lemma terminal_no_move: "moves flow st to \<Longrightarrow> \<not> terminal_status st"
  by (erule moves.cases) (auto simp: terminal_status_def)

text \<open>A stored row keeps its identity and takes one edge.\<close>

definition row_moves :: "oauth_row \<Rightarrow> oauth_row \<Rightarrow> bool" where
  "row_moves old new \<longleftrightarrow>
     or_state_hash new = or_state_hash old \<and> or_provider new = or_provider old \<and> or_flow_type new = or_flow_type old \<and>
     or_session_id new = or_session_id old \<and> or_expires_at new = or_expires_at old \<and>
     or_created_at new = or_created_at old \<and> or_poll_interval new = or_poll_interval old \<and>
     moves (or_flow_type old) (or_status old) (or_status new)"

text \<open>The table evolves: every row takes some number of edges in place, rows may be added.\<close>

abbreviation evolves :: "database \<Rightarrow> database \<Rightarrow> bool" where
  "evolves \<equiv> evolving db_oauth row_moves"

lemma evolves_update:
  assumes "\<And>row. P row \<Longrightarrow> row_moves row (f row)"
  shows "evolves d (snd (update_sessions P f d))"
  using extends_map [of P row_moves f] assms by (simp add: evolving_def update_sessions_def)


section \<open>Every operation follows the machine\<close>

lemma evolves_tables: "table_rel evolves"
  by (rule evolving_tables) simp

lemmas evolves_reflp = evolving_reflp [of db_oauth row_moves]
  and evolves_transp = evolving_transp [of db_oauth row_moves]

lemmas evolves_intros = evolves_tables evolves_reflp evolves_transp

lemma find_session_scan:
  assumes "select_session r P d = (Inr v, d')"
  shows "\<exists>row. P row \<and> row \<in> set (db_oauth d) \<and> oauth_scan r row = Inr v"
proof (cases d rule: db_query_row_cases [where f = "\<lambda>d. find P (db_oauth d)"])
  case (row x d1)
  with assms have "oauth_scan r x = Inr v" by (simp add: select_session_def monad_simps)
  moreover have "db_oauth d1 = db_oauth d" using tables_eqD(5) [OF row(3)] .
  ultimately show ?thesis using row(2) by (auto simp: find_Some_iff in_set_conv_nth)
qed (use assms in \<open>auto simp: select_session_def monad_simps\<close>)

lemma oauth_scan_fields:
  assumes "oauth_scan r row = Inr v"
  shows "os_FlowType v = or_flow_type row" "os_Status v = or_status row" "os_Provider v = or_provider row"
    "os_ExpiresAt v = from_unix (or_expires_at row)" "os_StateHash v = or_state_hash row"
  using assms
  by (auto simp: oauth_scan_def kind_Scan_def ParseKind_def split: sum.splits if_splits option.splits)

lemma select_session_keeps: "table_rel R \<Longrightarrow> reflp R \<Longrightarrow> transp R \<Longrightarrow> keeps R (select_session r P)"
  unfolding select_session_def by (intro keeps_intros)

lemma mutate_where_evolves:
  assumes P: "\<And>row. P row \<Longrightarrow> or_flow_type row = flow"
    and change: "\<And>v x v'. os_Status v \<in> set from \<Longrightarrow> os_FlowType v = flow \<Longrightarrow> change v = Inr (x, v') \<Longrightarrow>
      moves flow (os_Status v) (os_Status v')"
  shows "keeps evolves (mutate_where r P nonce now from change)"
  unfolding mutate_where_def Let_def
proof (intro keeps_db_tx evolves_intros keeps_andThen_Inr [OF evolves_transp] keeps_reject_unless
    select_session_keeps keeps_lift_result keeps_requireAffected keeps_ret keeps_db_exec)
  fix v p encrypted d and s s' s1 s1' :: database
  assume v: "select_session r P s = (Inr v, s')" and st: "\<not> os_Status v \<notin> set from"
    and c: "lift_result (change v) s1 = (Inr p, s1')"
  obtain x v' where p: "change v = Inr (x, v')" "p = (x, v')" using c by (cases p) (simp add: monad_simps)
  from find_session_scan [OF v] P oauth_scan_fields have "os_FlowType v = flow" by metis
  with change [OF _ _ p(1)] st have "moves flow (os_Status v) (os_Status v')" by simp
  then show "evolves d (snd (update_sessions (\<lambda>row. P row \<and> or_status row = os_Status v)
      (stored_change (snd p\<lparr>os_UpdatedAt := now\<rparr>) encrypted) d))"
    using P p(2) by (intro evolves_update) (auto simp: row_moves_def stored_change_def)
qed

lemma guard_error_keeps: "reflp R \<Longrightarrow> (e = None \<Longrightarrow> keeps R m) \<Longrightarrow> keeps R (guard_error e m)"
  by (simp add: guard_error_def keeps_raise split: option.splits)

lemma validateOAuthKey_valid: "validateOAuthKey kind flow state = None \<Longrightarrow> flow_Valid flow"
  by (simp add: validateOAuthKey_def split: if_splits)

lemma oauth_mutate_evolves:
  "(\<And>v x v'. flow_Valid flow \<Longrightarrow> os_Status v \<in> set from \<Longrightarrow> change v = Inr (x, v') \<Longrightarrow> moves flow (os_Status v) (os_Status v')) \<Longrightarrow>
   keeps evolves (oauth_mutate r kind flow state nonce now from change)"
  unfolding oauth_mutate_def
  by (intro guard_error_keeps evolves_reflp mutate_where_evolves [where flow = flow])
     (auto simp: by_state_def dest: validateOAuthKey_valid)

lemma oauth_mutateBySessionID_evolves:
  "(\<And>v x v'. os_Status v \<in> set from \<Longrightarrow> change v = Inr (x, v') \<Longrightarrow> moves flow (os_Status v) (os_Status v')) \<Longrightarrow>
   keeps evolves (oauth_mutateBySessionID r kind flow sid nonce now from change)"
  unfolding oauth_mutateBySessionID_def
  by (intro keeps_reject evolves_reflp mutate_where_evolves [where flow = flow]) (auto simp: by_session_def)

lemma end_session_moves:
  "os_Status v \<in> {''pending'', ''authorized''} \<Longrightarrow> to \<in> {''cancelled'', ''expired''} \<Longrightarrow>
   end_session to sanitized v = Inr (x, v') \<Longrightarrow> moves flow (os_Status v) (os_Status v')"
  by (auto simp: end_session_def disposeOAuthSecrets_def intro: moves.withdraw)

lemma oauth_Authorize_evolves: "keeps evolves (oauth_Authorize r kind flow state auth nonce now)"
  unfolding oauth_Authorize_def
  by (intro keeps_reject_unless evolves_reflp oauth_mutate_evolves) (auto intro: moves.intros split: if_splits)

lemma oauth_Consume_evolves: "keeps evolves (oauth_Consume r kind flow state nonce now)"
  unfolding oauth_Consume_def
  by (intro keeps_reject_unless evolves_reflp oauth_mutate_evolves) (auto simp: consume_change_def intro: moves.intros split: if_splits option.splits)

lemma oauth_Fail_evolves:
  "keeps evolves (oauth_Fail r kind flow state sanitized nonce now)"
  unfolding oauth_Fail_def oauth_terminal_def
  by (intro oauth_mutate_evolves)
     (auto simp: end_session_def disposeOAuthSecrets_def flow_Valid_def intro: moves.intros split: if_splits)

lemma oauth_Complete_evolves:
  "keeps evolves (oauth_Complete r kind flow state a nonce now)"
  unfolding oauth_Complete_def
  by (intro keeps_reject_unless evolves_reflp oauth_mutate_evolves)
     (auto simp: complete_change_def disposeOAuthSecrets_def flow_Valid_def intro: moves.intros split: if_splits)

lemma oauth_withdraw_evolves:
  "keeps evolves (oauth_Cancel r kind flow state sanitized nonce now)"
  "keeps evolves (oauth_Expire r kind flow state sanitized nonce now)"
  "keeps evolves (oauth_CancelBySessionID r kind flow sid sanitized nonce now)"
  "keeps evolves (oauth_ExpireBySessionID r kind flow sid sanitized nonce now)"
  unfolding oauth_Cancel_def oauth_Expire_def oauth_CancelBySessionID_def oauth_ExpireBySessionID_def oauth_terminal_def
  by (intro oauth_mutate_evolves oauth_mutateBySessionID_evolves; rule end_session_moves; simp)+

lemma oauth_FailConsumedByHash_evolves: "keeps evolves (oauth_FailConsumedByHash kind flow hash sanitized now)"
  unfolding oauth_FailConsumedByHash_def
  by (intro keeps_reject_unless keeps_andThen evolves_intros keeps_db_exec keeps_requireAffected evolves_update)
     (auto simp: row_moves_def intro: moves.intros)

lemma expire_rows_evolves: "keeps evolves (expire_rows r kind flow now nonces i vs)"
proof (induction vs arbitrary: i)
  case (Cons v vs)
  show ?case
    unfolding expire_rows.simps Let_def
    by (intro keeps_andThen evolves_intros keeps_lift_result keeps_db_exec keeps_requireAffected evolves_update Cons.IH)
       (auto simp: row_moves_def elapsed_def intro: moves.withdraw)
qed (simp add: keeps_ret evolves_reflp)

lemma oauth_ExpirePendingBefore_evolves: "keeps evolves (oauth_ExpirePendingBefore r kind flow now nonces)"
  unfolding oauth_ExpirePendingBefore_def
  by (intro keeps_intros evolves_intros expire_rows_evolves)

lemma oauth_Create_evolves: "keeps evolves (oauth_Create r v now sidRnd nonce)"
proof -
  have "evolves d (d\<lparr>db_oauth := db_oauth d @ [session_row r v' e now]\<rparr>)" for d v' e
    by (simp add: evolving_def extends_append)
  then show ?thesis
    unfolding oauth_Create_def Let_def
    by (intro guard_error_keeps keeps_intros evolves_intros) simp_all
qed

lemma completeConsumedDevin_evolves: "keeps evolves (completeConsumedDevin r state a nonce now)"
  unfolding completeConsumedDevin_def Let_def
  by (intro keeps_reject_unless keeps_andThen evolves_intros select_session_keeps keeps_lift_result keeps_db_exec
      keeps_requireAffected evolves_update)
     (auto simp: row_moves_def by_state_def intro: moves.intros)

lemma upsertLogin_oauth: "keeps (same db_oauth) (upsertLogin ra a now nonce idRnd)"
  unfolding upsertLogin_def
  by (intro keeps_intros) (simp_all add: same_def upsert_account_def split: option.splits)

lemma devin_Complete_evolves: "keeps evolves (devin_Complete ra ro state a now n1 i n2 n3)"
proof -
  have "keeps evolves (upsertLogin ra a now n1 i)"
    by (rule keeps_mono [OF upsertLogin_oauth]) (simp add: same_def evolving_same)
  then show ?thesis
    unfolding devin_Complete_def devin_complete_def
    by (intro keeps_intros evolves_intros completeConsumedDevin_evolves oauth_Fail_evolves)
qed

end
