(* ===== verification/OAuth_Flow.thy ===== *)
theory OAuth_Flow
  imports OAuth_Sessions
begin

text \<open>
  What the session machine gives the OAuth flows. The contract \<open>moving_table\<close> is interpreted on
  the OAuth table with the operations of the repository as steps. Cleanup, the only operation that deletes sessions, is treated on its own.
\<close>


section \<open>The repository's operations as steps\<close>

inductive oauth_step :: "account_repository \<Rightarrow> oauth_repository \<Rightarrow> database \<Rightarrow> database \<Rightarrow> bool"
  for ra :: account_repository and r :: oauth_repository where
  Create: "oauth_step ra r d (snd (oauth_Create r v now sidRnd nonce d))"
| Authorize: "oauth_step ra r d (snd (oauth_Authorize r kind flow state auth nonce now d))"
| Consume: "oauth_step ra r d (snd (oauth_Consume r kind flow state nonce now d))"
| Complete: "oauth_step ra r d (snd (oauth_Complete r kind flow state accountID nonce now d))"
| Fail: "oauth_step ra r d (snd (oauth_Fail r kind flow state sanitized nonce now d))"
| Cancel: "oauth_step ra r d (snd (oauth_Cancel r kind flow state sanitized nonce now d))"
| Expire: "oauth_step ra r d (snd (oauth_Expire r kind flow state sanitized nonce now d))"
| CancelBySessionID: "oauth_step ra r d (snd (oauth_CancelBySessionID r kind flow sid sanitized nonce now d))"
| ExpireBySessionID: "oauth_step ra r d (snd (oauth_ExpireBySessionID r kind flow sid sanitized nonce now d))"
| FailConsumedByHash: "oauth_step ra r d (snd (oauth_FailConsumedByHash kind flow hash sanitized now d))"
| ExpirePendingBefore: "oauth_step ra r d (snd (oauth_ExpirePendingBefore r kind flow now nonces d))"
| DevinComplete: "oauth_step ra r d (snd (devin_Complete ra r state a now n1 i n2 n3 d))"

lemma oauth_step_evolves: "oauth_step ra r d d' \<Longrightarrow> evolves d d'"
  by (induction rule: oauth_step.induct)
     (rule keepsD, rule oauth_Create_evolves oauth_Authorize_evolves oauth_Consume_evolves oauth_Complete_evolves
        oauth_Fail_evolves oauth_withdraw_evolves oauth_FailConsumedByHash_evolves
        oauth_ExpirePendingBefore_evolves devin_Complete_evolves)+

interpretation oauth: moving_table db_oauth "oauth_step ra r" row_moves
  using oauth_step_evolves unfolding evolving_def by unfold_locales blast

lemma terminal_rows_final:
  "row_moves\<^sup>*\<^sup>* row row' \<Longrightarrow> terminal_status (or_status row) \<Longrightarrow> row' = row"
  by (induction rule: converse_rtranclp_induct) (auto simp: row_moves_def dest: terminal_no_move)

text \<open>The statuses a run can lead to.\<close>

lemma consumed_rows_leave:
  "row_moves\<^sup>*\<^sup>* row row' \<Longrightarrow> or_status row = ''consumed'' \<Longrightarrow> or_status row' \<in> {''consumed'', ''completed'', ''failed''}"
proof (induction rule: rtranclp_induct)
  case (step row1 row2)
  then show ?case by (auto simp: row_moves_def elim: moves_from)
qed simp

text \<open>C4: The OAuth session table follows its state machine. Along any sequence of repository
  operations (creating, authorising, consuming, completing, failing, cancelling, expiring, by
  state, by session id or by hash, and the Devin transaction), successful, rejected or hit by
  driver faults, every stored session keeps its place and its identity, its status only takes
  edges of the machine, and a session that has completed, failed, expired or been cancelled never
  changes again in any column.\<close>

theorem sessions_follow_machine:
  assumes "(oauth_step ra r)\<^sup>*\<^sup>* d d'" "i < length (db_oauth d)"
  shows "i < length (db_oauth d') \<and> row_moves\<^sup>*\<^sup>* (db_oauth d ! i) (db_oauth d' ! i) \<and>
    (terminal_status (or_status (db_oauth d ! i)) \<longrightarrow> db_oauth d' ! i = db_oauth d ! i)"
  using oauth.run_nth [OF assms] terminal_rows_final by blast


section \<open>What a successful mutation did\<close>

lemma find_map_kept:
  "(\<And>row. P (f row) = P row) \<Longrightarrow> find P (map f rows) = map_option f (find P rows)"
  by (induction rows) auto

lemma select_session_Inr:
  assumes "select_session r P d = (Inr v, d')"
  shows "\<exists>row. find P (db_oauth d) = Some row \<and> oauth_scan r row = Inr v" "db_oauth d' = db_oauth d"
proof -
  show "db_oauth d' = db_oauth d"
    using keepsD' [OF select_session_keeps assms, of "same db_oauth"]
    by (simp add: same_def table_rel_same same_reflp same_transp)
next
  show "\<exists>row. find P (db_oauth d) = Some row \<and> oauth_scan r row = Inr v"
  proof (cases d rule: db_query_row_cases [where f = "\<lambda>d. find P (db_oauth d)"])
    case (row x d1)
    with assms have "oauth_scan r x = Inr v" by (simp add: select_session_def monad_simps)
    with row tables_eqD(5) [OF row(3)] show ?thesis by auto
  qed (use assms in \<open>auto simp: select_session_def monad_simps\<close>)
qed

text \<open>A mutation that returned found a session in one of the expected statuses and replaced its
  row and no other columns than status, payload, error and time.\<close>

lemma guard_error_returns [returns_simps]: "guard_error e m s = (Inr y, s') \<longleftrightarrow> e = None \<and> m s = (Inr y, s')"
  by (simp add: guard_error_def raise_def split: option.splits)

lemma mutate_where_returns:
  assumes "mutate_where r P nonce now from change d = (Inr x, d')"
  obtains row v v' encrypted where "find P (db_oauth d) = Some row" "oauth_scan r row = Inr v"
    "os_Status v \<in> set from" "change v = Inr (x, v')" "oauth_encrypt r nonce (v'\<lparr>os_UpdatedAt := now\<rparr>) = Inr encrypted"
    "db_oauth d' = map (\<lambda>row. if P row \<and> or_status row = os_Status v
       then stored_change (v'\<lparr>os_UpdatedAt := now\<rparr>) encrypted row else row) (db_oauth d)"
proof -
  obtain d1 d2 where t: "tables d1 = tables d" "tables d2 = tables d'"
    and body: "andThen (select_session r P) (\<lambda>value.
       reject (os_Status value \<notin> set from) ErrOAuthTerminalConflict
       (andThen (lift_result (change value)) (\<lambda>p.
        let value' = (snd p)\<lparr>os_UpdatedAt := now\<rparr> in
        andThen (lift_result (oauth_encrypt r nonce value')) (\<lambda>encrypted.
        andThen (db_exec (update_sessions (\<lambda>row. P row \<and> or_status row = os_Status value) (stored_change value' encrypted))) (\<lambda>n.
        andThen (requireAffected n) (\<lambda>_. ret (fst p))))))) d1 = (Inr x, d2)"
    using assms unfolding mutate_where_def by (elim db_tx_Inr)
  then obtain v v' encrypted d3 n where v: "select_session r P d1 = (Inr v, d3)" "os_Status v \<in> set from"
    and c: "change v = Inr (x, v')" "oauth_encrypt r nonce (v'\<lparr>os_UpdatedAt := now\<rparr>) = Inr encrypted"
    and u: "db_exec (update_sessions (\<lambda>row. P row \<and> or_status row = os_Status v)
      (stored_change (v'\<lparr>os_UpdatedAt := now\<rparr>) encrypted)) d3 = (Inr n, d2)"
    by (auto simp: returns_simps Let_def)
  from u obtain d4 where d4: "tables d4 = tables d3"
    "update_sessions (\<lambda>row. P row \<and> or_status row = os_Status v) (stored_change (v'\<lparr>os_UpdatedAt := now\<rparr>) encrypted) d4 = (n, d2)"
    by (rule db_exec_returns)
  have "db_oauth d4 = db_oauth d" "db_oauth d' = db_oauth d2" "db_oauth d1 = db_oauth d"
    using tables_eqD(5) [OF d4(1)] select_session_Inr(2) [OF v(1)] tables_eqD(5) [OF t(1)] tables_eqD(5) [OF t(2)] by simp_all
  with that select_session_Inr(1) [OF v(1)] v(2) c d4(2) show ?thesis
    by (auto simp: update_sessions_def)
qed

lemma by_state_kept: "row_moves row row' \<Longrightarrow> by_state r kind flow state row' = by_state r kind flow state row"
  by (auto simp: row_moves_def by_state_def)

text \<open>The mutation seen from the lookup by state: the session found has moved.\<close>

lemma mutate_find:
  assumes "oauth_mutate r kind flow state nonce now from change d = (Inr x, d')"
  obtains row v v' encrypted where "find (by_state r kind flow state) (db_oauth d) = Some row" "oauth_scan r row = Inr v"
    "os_Status v \<in> set from" "change v = Inr (x, v')" "oauth_encrypt r nonce (v'\<lparr>os_UpdatedAt := now\<rparr>) = Inr encrypted"
    "find (by_state r kind flow state) (db_oauth d') = Some (stored_change (v'\<lparr>os_UpdatedAt := now\<rparr>) encrypted row)"
    "validateOAuthKey kind flow state = None"
proof -
  let ?P = "by_state r kind flow state"
  have m: "mutate_where r ?P nonce now from change d = (Inr x, d')" and k: "validateOAuthKey kind flow state = None"
    using assms by (simp_all add: oauth_mutate_def returns_simps)
  from m show ?thesis
  proof (rule mutate_where_returns)
    fix row encrypted and v v' :: oauth_session
    let ?f = "\<lambda>row. if ?P row \<and> or_status row = os_Status v
       then stored_change (v'\<lparr>os_UpdatedAt := now\<rparr>) encrypted row else row"
    assume *: "find ?P (db_oauth d) = Some row" "oauth_scan r row = Inr v" "os_Status v \<in> set from" "change v = Inr (x, v')"
      "oauth_encrypt r nonce (v'\<lparr>os_UpdatedAt := now\<rparr>) = Inr encrypted" "db_oauth d' = map ?f (db_oauth d)"
    have "?P (?f q) = ?P q" for q by (simp add: by_state_def stored_change_def)
    then have "find ?P (db_oauth d') = Some (?f row)" using *(1,6) by (simp only: find_map_kept) simp
    moreover have "?P row" using *(1) by (auto simp: find_Some_iff)
    ultimately show thesis using that [OF *(1-5) _ k] oauth_scan_fields(2) [OF *(2)] by simp
  qed
qed

lemma oauth_Consume_returns:
  assumes "oauth_Consume r kind flow state nonce now d = (Inr p, d')"
  obtains row v row' where "find (by_state r kind flow state) (db_oauth d) = Some row" "oauth_scan r row = Inr v"
    "or_status row = ''pending''" "now < os_ExpiresAt v" "os_Pending v = Some p"
    "find (by_state r kind flow state) (db_oauth d') = Some row'" "or_status row' = ''consumed''"
proof -
  have "oauth_mutate r kind flow state nonce now [''pending''] (consume_change now) d = (Inr p, d')"
    using assms unfolding oauth_Consume_def by (simp only: returns_simps)
  then show ?thesis
  proof (rule mutate_find)
    fix row encrypted and v v' :: oauth_session
    assume *: "find (by_state r kind flow state) (db_oauth d) = Some row" "oauth_scan r row = Inr v"
      "os_Status v \<in> set [''pending'']"
      "consume_change now v = Inr (p, v')"
      "find (by_state r kind flow state) (db_oauth d') = Some (stored_change (v'\<lparr>os_UpdatedAt := now\<rparr>) encrypted row)"
    from *(4) have "os_Pending v = Some p" "now < os_ExpiresAt v" "os_Status v' = ''consumed''"
      by (auto simp: consume_change_def time_before_def split: option.splits if_splits)
    with that [OF *(1,2) _ _ _ *(5)] *(3) oauth_scan_fields(2) [OF *(2)] show thesis
      by (simp add: stored_change_def)
  qed
qed

text \<open>A mutation finds the session or fails; a session in another status makes it fail.\<close>

lemma mutate_wrong_status:
  assumes "find (by_state r kind flow state) (db_oauth d) = Some row" "or_status row \<notin> set from"
  shows "\<exists>e. fst (oauth_mutate r kind flow state nonce now from change d) = Inl e"
proof (rule ccontr)
  assume "\<not> ?thesis"
  then obtain x where "fst (oauth_mutate r kind flow state nonce now from change d) = Inr x" by (metis sum.exhaust)
  then obtain d' where run: "oauth_mutate r kind flow state nonce now from change d = (Inr x, d')" by (metis prod.collapse)
  then show False
  proof (rule mutate_find)
    fix row' and v :: oauth_session
    assume "find (by_state r kind flow state) (db_oauth d) = Some row'" "oauth_scan r row' = Inr v" "os_Status v \<in> set from"
    with assms oauth_scan_fields(2) [of r row' v] show False by simp
  qed
qed

text \<open>A browser callback is consumed at most once. If \<open>Consume\<close> hands out the PKCE verifier of
  a state, the session was stored as pending and had not expired, and the verifier handed out is
  the stored one; after that, whatever repository operations run in between, another \<open>Consume\<close> of
  the same provider, flow and state is refused.\<close>

theorem callback_consumed_once:
  assumes "oauth_Consume r kind flow state nonce now d = (Inr p, d1)"
  shows "(\<exists>row v. find (by_state r kind flow state) (db_oauth d) = Some row \<and> oauth_scan r row = Inr v \<and>
      os_Status v = ''pending'' \<and> now < os_ExpiresAt v \<and> os_Pending v = Some p) \<and>
    ((oauth_step ra r)\<^sup>*\<^sup>* d1 d2 \<longrightarrow> (\<exists>e. fst (oauth_Consume r kind flow state nonce' now' d2) = Inl e))"
proof -
  from assms obtain row v row' where row: "find (by_state r kind flow state) (db_oauth d) = Some row" "oauth_scan r row = Inr v"
    "or_status row = ''pending''" "now < os_ExpiresAt v" "os_Pending v = Some p"
    and row': "find (by_state r kind flow state) (db_oauth d1) = Some row'" "or_status row' = ''consumed''"
    by (rule oauth_Consume_returns)
  have "\<exists>e. fst (oauth_Consume r kind flow state nonce' now' d2) = Inl e" if run: "(oauth_step ra r)\<^sup>*\<^sup>* d1 d2"
  proof -
    from oauth.run_find [OF run by_state_kept row'(1)] obtain row''
      where f: "find (by_state r kind flow state) (db_oauth d2) = Some row''" "row_moves\<^sup>*\<^sup>* row' row''" by blast
    have "or_status row'' \<noteq> ''pending''" using consumed_rows_leave [OF f(2) row'(2)] by auto
    then show ?thesis
      using mutate_wrong_status [OF f(1), of "[''pending'']"]
      unfolding oauth_Consume_def reject_def by (cases "flow = OAuthFlowCallbackPKCE") (simp_all add: raise_def)
  qed
  with row oauth_scan_fields(2) [OF row(2)] show ?thesis by simp
qed


section \<open>Sessions that are over hold no secrets\<close>

definition secret_free :: "oauth_session \<Rightarrow> bool" where
  "secret_free v \<longleftrightarrow> os_DeviceCode v = [] \<and> os_UserCode v = [] \<and> os_VerificationURI v = [] \<and>
     os_VerificationURIComplete v = [] \<and> os_TokenEndpoint v = [] \<and> os_Pending v = None \<and> os_Authorization v = None"

lemma secret_free_dispose: "secret_free (disposeOAuthSecrets v)"
  by (simp add: secret_free_def disposeOAuthSecrets_def)

text \<open>What \<open>scan\<close> reads of a row whose payload is the encryption of a session.\<close>

lemma scan_encrypted:
  assumes laws: "oauth_codec_laws r" and n: "length nonce = ad_NonceSize (og_aead r)"
    and enc: "oauth_encrypt r (Inr nonce) v = Inr encrypted" and free: "secret_free v"
    and old: "oauth_scan r row = Inr old"
  shows "\<exists>w. oauth_scan r (row\<lparr>or_payload := encrypted, or_status := st, or_updated_at := t, or_sanitized_error := e\<rparr>) = Inr w \<and>
    secret_free w \<and> os_Status w = st \<and> os_AccountID w = os_AccountID v \<and> os_SanitizedError w = coalesce e"
proof -
  define p where "p = \<lparr>pp_State = (if os_FlowType v = OAuthFlowDevice then os_State v else []), pp_DeviceCode = os_DeviceCode v,
         pp_UserCode = os_UserCode v, pp_VerificationURI = os_VerificationURI v,
         pp_VerificationURIComplete = os_VerificationURIComplete v, pp_TokenEndpoint = os_TokenEndpoint v,
         pp_Pending = os_Pending v, pp_Authorization = os_Authorization v, pp_AccountID = os_AccountID v\<rparr>"
  from enc obtain plain where plain: "og_print r (payload_json r p) = Inr plain"
    "Encrypt (og_aead r) (og_key r) (Inr nonce) plain = Inr encrypted"
    unfolding oauth_encrypt_def p_def [symmetric] by (auto split: sum.splits)
  have dec: "Decrypt (og_aead r) (og_key r) encrypted = Inr plain"
    using Decrypt_Encrypt [OF _ n plain(2)] laws by (simp add: oauth_codec_laws_def)
  obtain m where m: "payload_json r p = JObj m" by (simp add: payload_json_def)
  have parse: "og_parse r plain = Some (JObj m)" using laws plain(1) m by (simp add: oauth_codec_laws_def)
  have "decodeOAuthEncryptedPayload r plain b = Some (if b then p else clear_device_fields p)" for b
    by (simp add: decodeOAuthEncryptedPayload_def parse decode_canonical_json [OF laws m] decode_legacy_json [OF m])
  with dec old free show ?thesis
    by (auto simp: oauth_scan_def p_def clear_device_fields_def secret_free_def split: sum.splits if_splits option.splits)
qed

lemma mutate_disposes:
  assumes run: "oauth_mutate r kind flow state (Inr nonce) now from change d = (Inr x, d')"
    and laws: "oauth_codec_laws r" "length nonce = ad_NonceSize (og_aead r)"
    and change: "\<And>v x v'. change v = Inr (x, v') \<Longrightarrow> secret_free v' \<and> os_Status v' = st \<and> os_AccountID v' = a"
  shows "\<exists>row w. find (by_state r kind flow state) (db_oauth d') = Some row \<and> oauth_scan r row = Inr w \<and>
    secret_free w \<and> os_Status w = st \<and> os_AccountID w = a"
  using run
proof (rule mutate_find)
  fix row encrypted and v v' :: oauth_session
  assume *: "oauth_scan r row = Inr v" "change v = Inr (x, v')"
    "oauth_encrypt r (Inr nonce) (v'\<lparr>os_UpdatedAt := now\<rparr>) = Inr encrypted"
    "find (by_state r kind flow state) (db_oauth d') = Some (stored_change (v'\<lparr>os_UpdatedAt := now\<rparr>) encrypted row)"
  have v': "secret_free (v'\<lparr>os_UpdatedAt := now\<rparr>)" "os_Status v' = st" "os_AccountID v' = a"
    using change [OF *(2)] by (simp_all add: secret_free_def)
  from scan_encrypted [OF laws *(3) v'(1) *(1), where st = st and t = "unix now" and e = "nullString (os_SanitizedError v')"] v'(2,3) *(4)
  show ?thesis by (auto simp: stored_change_def)
qed

text \<open>C8: When a session ends its secrets go with it: after a successful \<open>Complete\<close>, \<open>Fail\<close>,
  \<open>Cancel\<close> or \<open>Expire\<close>, what is stored for the state decrypts to a session in the final status
  without device code, user code, verification addresses, token endpoint, PKCE verifier or
  authorization; a completed session names the account, the others none.\<close>

theorem ended_sessions_hold_no_secrets:
  assumes "oauth_codec_laws r" "length nonce = ad_NonceSize (og_aead r)"
    and "(op, st, a) \<in> {(oauth_Complete r kind flow state accountID, ''completed'', accountID),
      (oauth_Fail r kind flow state sanitized, ''failed'', []), (oauth_Cancel r kind flow state sanitized, ''cancelled'', []),
      (oauth_Expire r kind flow state sanitized, ''expired'', [])}"
    and "op (Inr nonce) now d = (Inr (), d')"
  shows "\<exists>row v. find (by_state r kind flow state) (db_oauth d') = Some row \<and> oauth_scan r row = Inr v \<and>
    secret_free v \<and> os_Status v = st \<and> os_AccountID v = a"
proof -
  have e: "end_session st s v = Inr (x, v') \<Longrightarrow> secret_free v' \<and> os_Status v' = st \<and> os_AccountID v' = []" for st s v x v'
    using secret_free_dispose by (auto simp: end_session_def disposeOAuthSecrets_def)
  from assms(3,4) consider "op = oauth_Complete r kind flow state accountID" "st = ''completed''" "a = accountID"
    | froms where "oauth_terminal r kind flow state st sanitized (Inr nonce) now froms d = (Inr (), d')" "a = []"
    by (auto simp: oauth_Fail_def oauth_Cancel_def oauth_Expire_def)
  then show ?thesis
  proof cases
    case 1
    from assms(4) have "oauth_mutate r kind flow state (Inr nonce) now
        [if flow = OAuthFlowCallbackPKCE then ''consumed'' else ''authorized''] (complete_change accountID) d = (Inr (), d')"
      unfolding 1 oauth_Complete_def by (simp only: returns_simps)
    from mutate_disposes [OF this assms(1,2), of "''completed''" accountID] 1 show ?thesis
      using secret_free_dispose by (fastforce simp: complete_change_def disposeOAuthSecrets_def)
  next
    case 2
    from mutate_disposes [OF 2(1) [unfolded oauth_terminal_def] assms(1,2), of st "[]"] e 2(2) show ?thesis
      by simp
  qed
qed


section \<open>The Devin transaction is atomic\<close>

lemma completeConsumedDevin_returns:
  assumes "completeConsumedDevin r state a nonce now d = (Inr (), d')"
  obtains row row' where "find (by_state r Devin OAuthFlowCallbackPKCE state) (db_oauth d) = Some row"
    "or_status row = ''consumed''" "find (by_state r Devin OAuthFlowCallbackPKCE state) (db_oauth d') = Some row'"
    "or_status row' = ''completed''" "same db_accounts d d'"
proof -
  let ?P = "by_state r Devin OAuthFlowCallbackPKCE state"
  from assms obtain v encrypted d1 n where v: "select_session r ?P d = (Inr v, d1)" "os_Status v = ''consumed''"
    and u: "db_exec (update_sessions (\<lambda>row. ?P row \<and> or_status row = ''consumed'')
        (\<lambda>row. row\<lparr>or_payload := encrypted, or_status := ''completed'', or_updated_at := unix now, or_sanitized_error := None\<rparr>))
      d1 = (Inr n, d')"
    unfolding completeConsumedDevin_def Let_def by (auto simp: returns_simps)
  let ?f = "\<lambda>row. if ?P row \<and> or_status row = ''consumed'' then
    row\<lparr>or_payload := encrypted, or_status := ''completed'', or_updated_at := unix now, or_sanitized_error := None\<rparr> else row"
  from u obtain d2 where d2: "tables d2 = tables d1" "update_sessions (\<lambda>row. ?P row \<and> or_status row = ''consumed'')
        (\<lambda>row. row\<lparr>or_payload := encrypted, or_status := ''completed'', or_updated_at := unix now, or_sanitized_error := None\<rparr>) d2
      = (n, d')"
    by (rule db_exec_returns)
  have o: "db_oauth d' = map ?f (db_oauth d)" "db_accounts d' = db_accounts d1"
    using d2(2) tables_eqD(2,5) [OF d2(1)] select_session_Inr(2) [OF v(1)] by (auto simp: update_sessions_def)
  have a: "same db_accounts d d1"
    using keepsD' [OF select_session_keeps v(1), of "same db_accounts"] by (simp add: table_rel_same same_reflp same_transp)
  obtain row where row: "find ?P (db_oauth d) = Some row" "oauth_scan r row = Inr v" using select_session_Inr(1) [OF v(1)] by blast
  have "?P (?f q) = ?P q" for q by (simp add: by_state_def)
  then have "find ?P (db_oauth d') = Some (?f row)" using o(1) row(1) by (simp only: find_map_kept) simp
  moreover have "or_status row = ''consumed''" "?P row"
    using oauth_scan_fields(2) [OF row(2)] v(2) row(1) by (auto simp: find_Some_iff)
  ultimately show ?thesis using that [OF row(1)] a o(2) by (simp add: same_def)
qed

lemma oauth_Fail_accounts: "keeps (same db_accounts) (oauth_Fail r kind flow state sanitized nonce now)"
  unfolding oauth_Fail_def oauth_terminal_def oauth_mutate_def mutate_where_def Let_def
  by (intro guard_error_keeps keeps_intros select_session_keeps keeps_lift_result) (simp_all add: same_def update_sessions_def)

lemma oauth_Fail_completes_none:
  assumes "oauth_Fail r kind flow state sanitized nonce now d = (res, d')" "i < length (db_oauth d)"
    "or_status (db_oauth d' ! i) = ''completed''"
  shows "or_status (db_oauth d ! i) = ''completed''"
proof (cases res)
  case (Inl e)
  have "db_oauth d' = db_oauth d"
  proof (cases "validateOAuthKey kind flow state")
    case None
    with assms(1) Inl show ?thesis
      by (auto simp: oauth_Fail_def oauth_terminal_def oauth_mutate_def mutate_where_def guard_error_def
          dest!: db_tx_atomic tables_eqD(5))
  qed (use assms(1) Inl in \<open>auto simp: oauth_Fail_def oauth_terminal_def oauth_mutate_def guard_error_def raise_def\<close>)
  with assms(3) show ?thesis by simp
next
  case (Inr u)
  then have "mutate_where r (by_state r kind flow state) nonce now
      (if flow = OAuthFlowCallbackPKCE then [''consumed''] else [''pending'', ''authorized'']) (end_session ''failed'' sanitized) d = (Inr u, d')"
    using assms(1) by (simp add: oauth_Fail_def oauth_terminal_def oauth_mutate_def guard_error_returns)
  then show ?thesis
    by (rule mutate_where_returns)
       (use assms(2,3) in \<open>auto simp: end_session_def disposeOAuthSecrets_def stored_change_def split: if_splits\<close>)
qed

lemma upsertLogin_stores:
  assumes "upsertLogin r a now nonce idRnd d = (Inr created, d')"
  shows "\<exists>row \<in> set (db_accounts d'). ar_id row = acc_ID created \<and> ar_provider row = acc_Provider a"
proof -
  from assms obtain fp encrypted i n d1 d2 where
    up: "db_exec_checked ''UNIQUE constraint failed: accounts.id'' (\<lambda>d. row_get ar_id i (db_accounts d) = None)
             (upsert_account (login_row a i fp encrypted now)) d1 = (Inr n, d2)" "n \<noteq> 0"
    and get: "account_GetByFingerprint r fp d2 = (Inr created, d')"
    unfolding upsertLogin_def by (auto simp: returns_simps)
  from up(1) obtain d0 where d0: "upsert_account (login_row a i fp encrypted now) d0 = (n, d2)"
    by (cases d1 rule: db_exec_checked_cases [where ok = "\<lambda>d. row_get ar_id i (db_accounts d) = None"
          and f = "upsert_account (login_row a i fp encrypted now)" and msg = "''UNIQUE constraint failed: accounts.id''"])
       (auto intro: prod_eqI)
  have prov: "row_get ar_fingerprint fp (db_accounts d2) = Some row \<Longrightarrow> ar_provider row = acc_Provider a" for row
    using d0 up(2)
    by (auto simp: upsert_account_def table_simps split: option.splits if_splits)
  from get show ?thesis
  proof (cases d2 rule: db_query_row_cases [where f = "\<lambda>d. row_get ar_fingerprint fp (db_accounts d)"])
    case (row x d3)
    with get have x: "account_scan r x = Inr created" "d' = d3"
      by (auto simp: account_GetByFingerprint_def returns_simps)
    have "row_get ar_fingerprint fp (db_accounts d2) = Some x" using row tables_eqD(2) [OF row(3)] by simp
    moreover have "ar_id x = acc_ID created"
      using x(1) by (auto simp: account_scan_def split: sum.splits if_splits option.splits)
    ultimately show ?thesis using prov row_get_SomeD row(2) x(2) by metis
  qed (auto simp: account_GetByFingerprint_def returns_simps)
qed

lemma devin_complete_fails:
  "devin_complete ra ro state a now n1 i n2 d = (Inl err, d') \<Longrightarrow> tables d' = tables d"
  using db_tx_atomic by (auto simp: devin_complete_def reject_def raise_def split: if_splits)

lemma devin_complete_returns:
  assumes "devin_complete ra ro state a now n1 i n2 d = (Inr created, d')"
  shows "(\<exists>row row'. find (by_state ro Devin OAuthFlowCallbackPKCE state) (db_oauth d) = Some row \<and> or_status row = ''consumed'' \<and>
        find (by_state ro Devin OAuthFlowCallbackPKCE state) (db_oauth d') = Some row' \<and> or_status row' = ''completed'') \<and>
      (\<exists>arow \<in> set (db_accounts d'). ar_id arow = acc_ID created \<and> ar_provider arow = Devin)"
proof -
  from assms have p: "acc_Provider a = Devin" and tx: "db_tx (andThen (upsertLogin ra a now n1 i) (\<lambda>created.
       andThen (completeConsumedDevin ro state (acc_ID created) n2 now) (\<lambda>_. ret created))) d = (Inr created, d')"
    by (simp_all add: devin_complete_def reject_returns)
  from tx obtain d1 d2 where t: "tables d1 = tables d" "tables d2 = tables d'"
    and body: "andThen (upsertLogin ra a now n1 i) (\<lambda>created.
       andThen (completeConsumedDevin ro state (acc_ID created) n2 now) (\<lambda>_. ret created)) d1 = (Inr created, d2)"
    by (rule db_tx_Inr)
  then obtain d3 where up: "upsertLogin ra a now n1 i d1 = (Inr created, d3)"
    and c: "completeConsumedDevin ro state (acc_ID created) n2 now d3 = (Inr (), d2)"
    by (auto simp: returns_simps)
  have o: "db_oauth d3 = db_oauth d" using keepsD' [OF upsertLogin_oauth up] tables_eqD(5) [OF t(1)] by (simp add: same_def)
  from c show ?thesis
  proof (rule completeConsumedDevin_returns)
    fix row row'
    assume "find (by_state ro Devin OAuthFlowCallbackPKCE state) (db_oauth d3) = Some row" "or_status row = ''consumed''"
      "find (by_state ro Devin OAuthFlowCallbackPKCE state) (db_oauth d2) = Some row'" "or_status row' = ''completed''"
      "same db_accounts d3 d2"
    with o upsertLogin_stores [OF up] p tables_eqD(2,5) [OF t(2)] show ?thesis by (auto simp: same_def)
  qed
qed

text \<open>Finishing a Devin login is atomic. If \<open>DevinOAuthTransaction.Complete\<close> returns an account,
  the session had been consumed, it is now completed, and the account is stored under the returned
  id as a Devin account; if it returns an error, at whatever point it occurred, no account was
  added or changed and no session has become completed.\<close>

theorem devin_login_atomic:
  "case devin_Complete ra ro state a now n1 i n2 n3 d of
     (Inl e, d') \<Rightarrow> db_accounts d' = db_accounts d \<and>
       (\<forall>k. k < length (db_oauth d) \<and> or_status (db_oauth d' ! k) = ''completed'' \<longrightarrow> or_status (db_oauth d ! k) = ''completed'')
   | (Inr created, d') \<Rightarrow>
      (\<exists>row row'. find (by_state ro Devin OAuthFlowCallbackPKCE state) (db_oauth d) = Some row \<and> or_status row = ''consumed'' \<and>
        find (by_state ro Devin OAuthFlowCallbackPKCE state) (db_oauth d') = Some row' \<and> or_status row' = ''completed'') \<and>
      (\<exists>arow \<in> set (db_accounts d'). ar_id arow = acc_ID created \<and> ar_provider arow = Devin)"
proof (cases "devin_complete ra ro state a now n1 i n2 d")
  case (Pair r1 d1)
  show ?thesis
  proof (cases r1)
    case (Inr created)
    with Pair have "devin_Complete ra ro state a now n1 i n2 n3 d = (Inr created, d1)"
      by (simp add: devin_Complete_def monad_simps)
    with devin_complete_returns Pair Inr show ?thesis by simp
  next
    case (Inl err)
    obtain f d' where r2: "oauth_Fail ro Devin OAuthFlowCallbackPKCE state ''oauth completion failed'' n3 now d1 = (f, d')"
      by fastforce
    have run: "\<exists>e. devin_Complete ra ro state a now n1 i n2 n3 d = (Inl e, d')"
      using Pair Inl r2 by (auto simp: devin_Complete_def monad_simps split: sum.splits)
    have t: "tables d1 = tables d" using devin_complete_fails Pair Inl by blast
    have "db_accounts d' = db_accounts d1" using keepsD' [OF oauth_Fail_accounts r2] by (simp add: same_def)
    with tables_eqD(2,5) [OF t] oauth_Fail_completes_none [OF r2] run show ?thesis by auto
  qed
qed


section \<open>Witnesses\<close>

text \<open>A codec that knows the payloads of the sample session: it prints a payload as its place in
  a table. Integers and times are written in binary.\<close>

fun nat_text :: "nat \<Rightarrow> string" where
  "nat_text n = (if n = 0 then [] else (if even n then CHR ''0'' else CHR ''1'') # nat_text (n div 2))"

declare nat_text.simps [simp del]

fun text_nat :: "string \<Rightarrow> nat" where
  "text_nat [] = 0"
| "text_nat (c # cs) = (if c = CHR ''1'' then 1 else 0) + 2 * text_nat cs"

lemma text_nat_text [simp]: "text_nat (nat_text n) = n"
  by (induction n rule: nat_text.induct) (subst nat_text.simps, auto)

definition int_text :: "int \<Rightarrow> string" where
  "int_text i = (if i < 0 then CHR ''-'' # nat_text (nat (- i)) else CHR ''+'' # nat_text (nat i))"

definition text_int :: "string \<Rightarrow> int option" where
  "text_int s = (case s of [] \<Rightarrow> None
     | c # cs \<Rightarrow> Some (if c = CHR ''-'' then - int (text_nat cs) else int (text_nat cs)))"

lemma text_int_text [simp]: "text_int (int_text i) = Some i"
  by (simp add: text_int_def int_text_def)

definition sample_codec :: "json list \<Rightarrow> oauth_repository" where
  "sample_codec known =
     \<lparr>og_key = ''o'', og_aead = sample_aead, og_sha256 = id,
      og_print = (\<lambda>j. case find (\<lambda>i. known ! i = j) [0..<length known] of
         None \<Rightarrow> Inl (ErrNew ''unsupported'') | Some i \<Rightarrow> Inr (nat_text i)),
      og_parse = (\<lambda>t. if text_nat t < length known then Some (known ! text_nat t) else None),
      og_time_enc = (\<lambda>t. JStr (int_text t)), og_time_dec = (\<lambda>j. case j of JStr t \<Rightarrow> text_int t | _ \<Rightarrow> None),
      og_int_enc = int_text, og_int_dec = text_int\<rparr>"

lemma sample_codec_laws: "oauth_codec_laws (sample_codec known)"
  by (auto simp: oauth_codec_laws_def sample_codec_def sample_aead_laws find_Some_iff split: option.splits)

definition sample_pending :: oauth_pending where
  "sample_pending = \<lparr>op_Verifier = ''v'', op_RedirectURI = ''u'', op_ExpiresAt = 9\<rparr>"

definition sample_oauth :: oauth_repository where
  "sample_oauth = sample_codec (map (payload_json (sample_codec []))
     [empty_payload\<lparr>pp_Pending := Some sample_pending\<rparr>, empty_payload, empty_payload\<lparr>pp_AccountID := ''acct_78''\<rparr>])"

lemma sample_oauth_laws: "oauth_codec_laws sample_oauth"
  by (simp add: sample_oauth_def sample_codec_laws)

definition sample_session :: oauth_session where
  "sample_session = \<lparr>os_Provider = Devin, os_FlowType = OAuthFlowCallbackPKCE, os_SessionID = ''sid'', os_State = ''st'',
     os_StateHash = [], os_DeviceCode = [], os_UserCode = [], os_VerificationURI = [], os_VerificationURIComplete = [],
     os_TokenEndpoint = [], os_Pending = Some sample_pending, os_PollInterval = 0, os_ExpiresAt = from_unix 9, os_Status = [],
     os_SanitizedError = [], os_AccountID = [], os_Authorization = None, os_CreatedAt = zero_time, os_UpdatedAt = zero_time\<rparr>"

definition sample_created :: database where
  "sample_created = snd (oauth_Create sample_oauth sample_session 0 (Inr []) (Inr ''nn'') empty_database)"

definition sample_consumed :: database where
  "sample_consumed = snd (oauth_Consume sample_oauth Devin OAuthFlowCallbackPKCE ''st'' (Inr ''nn'') 1 sample_created)"

definition sample_completed :: database where
  "sample_completed = snd (devin_Complete sample_accounts sample_oauth ''st'' sample_login 2 (Inr ''nn'') (Inr ''x'') (Inr ''nn'') (Inr ''nn'') sample_consumed)"

lemma sample_run:
  "oauth_Consume sample_oauth Devin OAuthFlowCallbackPKCE ''st'' (Inr ''nn'') 1 sample_created = (Inr sample_pending, sample_consumed)"
  by code_simp

theorem sessions_follow_machine_witness:
  "or_status (db_oauth sample_created ! 0) = ''pending'' \<and> or_status (db_oauth sample_completed ! 0) = ''completed'' \<and>
   row_moves\<^sup>*\<^sup>* (db_oauth sample_created ! 0) (db_oauth sample_completed ! 0)"
proof -
  have "oauth_step sample_accounts sample_oauth sample_created sample_consumed"
    unfolding sample_consumed_def by (rule oauth_step.Consume)
  moreover have "oauth_step sample_accounts sample_oauth sample_consumed sample_completed"
    unfolding sample_completed_def by (rule oauth_step.DevinComplete)
  ultimately have "(oauth_step sample_accounts sample_oauth)\<^sup>*\<^sup>* sample_created sample_completed" by simp
  moreover have "0 < length (db_oauth sample_created)" by code_simp
  ultimately have "row_moves\<^sup>*\<^sup>* (db_oauth sample_created ! 0) (db_oauth sample_completed ! 0)"
    using sessions_follow_machine by blast
  moreover have "or_status (db_oauth sample_created ! 0) = ''pending''"
    "or_status (db_oauth sample_completed ! 0) = ''completed''" by code_simp+
  ultimately show ?thesis by blast
qed

theorem callback_consumed_once_witness:
  "fst (oauth_Consume sample_oauth Devin OAuthFlowCallbackPKCE ''st'' (Inr ''nn'') 1 sample_created) = Inr sample_pending \<and>
   (\<exists>e. fst (oauth_Consume sample_oauth Devin OAuthFlowCallbackPKCE ''st'' (Inr ''nn'') 2 sample_consumed) = Inl e)"
  using callback_consumed_once [OF sample_run] sample_run by simp

theorem ended_sessions_hold_no_secrets_witness:
  "\<exists>row v. find (by_state sample_oauth Devin OAuthFlowCallbackPKCE ''st'')
      (db_oauth (snd (oauth_Fail sample_oauth Devin OAuthFlowCallbackPKCE ''st'' ''no'' (Inr ''nn'') 2 sample_consumed))) = Some row \<and>
    oauth_scan sample_oauth row = Inr v \<and> secret_free v \<and> os_Status v = ''failed'' \<and> os_AccountID v = []"
proof -
  have n: "length ''nn'' = ad_NonceSize (og_aead sample_oauth)" by code_simp
  have "fst (oauth_Fail sample_oauth Devin OAuthFlowCallbackPKCE ''st'' ''no'' (Inr ''nn'') 2 sample_consumed) = Inr ()"
    by code_simp
  then have "oauth_Fail sample_oauth Devin OAuthFlowCallbackPKCE ''st'' ''no'' (Inr ''nn'') 2 sample_consumed =
      (Inr (), snd (oauth_Fail sample_oauth Devin OAuthFlowCallbackPKCE ''st'' ''no'' (Inr ''nn'') 2 sample_consumed))"
    by (metis prod.collapse)
  from ended_sessions_hold_no_secrets [where op = "oauth_Fail sample_oauth Devin OAuthFlowCallbackPKCE ''st'' ''no''"
      and kind = Devin and flow = OAuthFlowCallbackPKCE and state = "''st''" and sanitized = "''no''", OF sample_oauth_laws n _ this]
  show ?thesis by blast
qed

theorem devin_login_atomic_witness:
  "\<exists>arow \<in> set (db_accounts sample_completed). ar_id arow = ''acct_78'' \<and> ar_provider arow = Devin"
proof -
  obtain created where "fst (devin_Complete sample_accounts sample_oauth ''st'' sample_login 2 (Inr ''nn'') (Inr ''x'') (Inr ''nn'') (Inr ''nn'')
      sample_consumed) = Inr created" "acc_ID created = ''acct_78''"
    by (rule that [of "case fst (devin_Complete sample_accounts sample_oauth ''st'' sample_login 2 (Inr ''nn'') (Inr ''x'')
      (Inr ''nn'') (Inr ''nn'') sample_consumed) of Inr a \<Rightarrow> a | Inl e \<Rightarrow> sample_login"]) code_simp+
  with devin_login_atomic [where ra = sample_accounts and ro = sample_oauth and state = "''st''" and a = sample_login and now = 2
      and ?n1.0 = "Inr ''nn''" and i = "Inr ''x''" and ?n2.0 = "Inr ''nn''" and ?n3.0 = "Inr ''nn''" and d = sample_consumed]
  show ?thesis by (auto simp: sample_completed_def split: prod.splits)
qed

end
