(* ===== verification/Scheduler.thy ===== *)
theory Scheduler
  imports Provider_Types
begin

text \<open>
  The account scheduler (\<open>internal/routing/scheduler.go\<close>): which accounts may serve a model
  and in which order they are tried. The state is the table of round-robin cursors, 64-bit
  counters that wrap; a missing cursor is zero. The mutex makes one \<open>order\<close> call atomic.

  Shown: only eligible accounts are ever returned, each exactly once, the preferred one first;
  the call fails exactly when there is none; successive calls rotate fairly.
\<close>


section \<open>Definitions\<close>

abbreviation ErrNoAvailableAccounts :: go_error where
  "ErrNoAvailableAccounts \<equiv> Sentinel ''no available accounts''"
abbreviation ErrModelUnavailable :: go_error where
  "ErrModelUnavailable \<equiv> Sentinel ''requested model is unavailable''"

record candidate =
  cn_ID :: string
  cn_Provider :: kind
  cn_Enabled :: bool
  cn_Valid :: bool
  cn_Capabilities :: "(string \<times> bool) list"
  cn_CapabilitiesKnown :: bool
  cn_CooldownUntil :: "(string \<times> time) list"

type_synonym cursors = "string \<Rightarrow> 64 word"

definition NewScheduler :: cursors where
  "NewScheduler = (\<lambda>_. 0)"

text \<open>Indexing a Go map: the zero value for a missing key.\<close>

definition capable :: "candidate \<Rightarrow> string \<Rightarrow> bool" where
  "capable a model = (case map_of (cn_Capabilities a) model of None \<Rightarrow> False | Some b \<Rightarrow> b)"

definition until :: "candidate \<Rightarrow> string \<Rightarrow> time" where
  "until a scope = (case map_of (cn_CooldownUntil a) scope of None \<Rightarrow> zero_time | Some t \<Rightarrow> t)"

text \<open>The \<open>continue\<close> conditions of the filtering loop.\<close>

definition available :: "kind \<Rightarrow> string \<Rightarrow> time \<Rightarrow> candidate \<Rightarrow> bool" where
  "available kind model now a \<longleftrightarrow>
     \<not> (kind_Valid kind \<and> cn_Provider a \<noteq> kind) \<and> cn_Enabled a \<and> cn_Valid a \<and>
     \<not> time_after (until a model) now \<and> \<not> time_after (until a ''*'') now"

definition eligible :: "kind \<Rightarrow> string \<Rightarrow> candidate list \<Rightarrow> time \<Rightarrow> candidate list" where
  "eligible kind model accounts now =
     (let av = filter (available kind model now) accounts;
          known = filter (\<lambda>a. cn_CapabilitiesKnown a \<and> capable a model) av;
          unknown = filter (\<lambda>a. \<not> cn_CapabilitiesKnown a) av
      in if known = [] then unknown else known)"

fun find_index :: "('a \<Rightarrow> bool) \<Rightarrow> 'a list \<Rightarrow> nat option" where
  "find_index P [] = None"
| "find_index P (x # xs) = (if P x then Some 0 else map_option Suc (find_index P xs))"

definition cursorKey :: "kind \<Rightarrow> string \<Rightarrow> string" where
  "cursorKey kind model = (if kind_Valid kind then kind @ [CHR 0x00] @ model else model)"

text \<open>The rotation of the indices, without the preferred one.\<close>

definition rotation :: "nat \<Rightarrow> nat \<Rightarrow> nat list" where
  "rotation cursor n = map (\<lambda>offset. (cursor + offset) mod n) [0..<n]"

definition place :: "'a list \<Rightarrow> nat option \<Rightarrow> nat \<Rightarrow> 'a list" where
  "place el pref cursor =
     (case pref of None \<Rightarrow> [] | Some p \<Rightarrow> [el ! p]) @
     map (\<lambda>i. el ! i) (filter (\<lambda>i. Some i \<noteq> pref) (rotation cursor (length el)))"

definition order ::
  "kind \<Rightarrow> string \<Rightarrow> candidate list \<Rightarrow> string \<Rightarrow> time \<Rightarrow> (cursors, go_error, candidate list) op" where
  "order kind model accounts preferred now cs =
     (let el = eligible kind model accounts now; key = cursorKey kind model in
      if el = [] then (Inl ErrNoAvailableAccounts, cs)
      else (Inr (place el (find_index (\<lambda>a. cn_ID a = preferred) el)
                   (unat (cs key mod of_nat (length el)))),
            cs(key := cs key + 1)))"

definition Order :: "string \<Rightarrow> candidate list \<Rightarrow> string \<Rightarrow> time \<Rightarrow> (cursors, go_error, candidate list) op" where
  "Order model accounts preferred now = order [] model accounts preferred now"

definition OrderForProvider ::
  "kind \<Rightarrow> string \<Rightarrow> candidate list \<Rightarrow> string \<Rightarrow> time \<Rightarrow> (cursors, go_error, candidate list) op" where
  "OrderForProvider kind model accounts preferred now = order kind model accounts preferred now"


section \<open>Lemmas\<close>

lemma find_index_Some: "find_index P xs = Some i \<Longrightarrow> i < length xs \<and> P (xs ! i)"
  by (induction xs arbitrary: i) (auto split: if_splits)

lemma find_index_None: "find_index P xs = None \<longleftrightarrow> (\<forall>x \<in> set xs. \<not> P x)"
  by (induction xs) auto

text \<open>A rotation visits every index exactly once.\<close>

lemma rotation_inj: "inj_on (\<lambda>offset. (cursor + offset) mod n) {0..<(n :: nat)}"
proof (rule inj_onI)
  have le: "x = y" if "x \<le> y" "y < n" "(cursor + x) mod n = (cursor + y) mod n" for x y
  proof -
    have "n dvd (cursor + y) - (cursor + x)"
      using mod_eq_dvd_iff_nat [of "cursor + x" "cursor + y" n] that by simp
    then have "n dvd y - x" by simp
    with that dvd_imp_le [of n "y - x"] show ?thesis by linarith
  qed
  fix x y assume "x \<in> {0..<n}" "y \<in> {0..<n}" "(cursor + x) mod n = (cursor + y) mod n"
  then show "x = y" using le [of x y] le [of y x] by (metis atLeastLessThan_iff nat_le_linear)
qed

lemma rotation_distinct: "distinct (rotation cursor n)"
  by (simp add: rotation_def distinct_map rotation_inj)

lemma rotation_set: "0 < n \<Longrightarrow> set (rotation cursor n) = {0..<n}"
proof (rule card_subset_eq)
  assume "0 < n"
  then show "set (rotation cursor n) \<subseteq> {0..<n}" by (auto simp: rotation_def)
  show "card (set (rotation cursor n)) = card {0..<n}"
    using distinct_card [OF rotation_distinct] by (simp add: rotation_def)
qed simp

lemma rotation_mset: "0 < n \<Longrightarrow> mset (rotation cursor n) = mset [0..<n]"
  using set_eq_iff_mset_eq_distinct [OF rotation_distinct distinct_upt] rotation_set by auto

lemma place_mset:
  assumes "el \<noteq> []" "\<And>p. pref = Some p \<Longrightarrow> p < length el"
  shows "mset (place el pref cursor) = mset el"
proof -
  let ?r = "rotation cursor (length el)"
  have el: "mset (map (\<lambda>i. el ! i) ?r) = mset el"
  proof -
    have "mset (map (\<lambda>i. el ! i) ?r) = image_mset ((!) el) (mset [0..<length el])"
      using rotation_mset [of "length el" cursor] assms(1) by (simp only: mset_map length_greater_0_conv simp_thms)
    also have "\<dots> = mset (map ((!) el) [0..<length el])" by (simp only: mset_map)
    finally show ?thesis by (simp only: map_nth)
  qed
  show ?thesis
  proof (cases pref)
    case None
    then show ?thesis using el by (simp add: place_def)
  next
    case (Some p)
    have "p \<in> set ?r" using assms Some rotation_set [of "length el" cursor] by auto
    then have "mset (p # filter (\<lambda>i. i \<noteq> p) ?r) = mset ?r"
      using rotation_distinct [of cursor "length el"]
      by (intro iffD1 [OF set_eq_iff_mset_eq_distinct]) auto
    then have "mset (map ((!) el) (p # filter (\<lambda>i. i \<noteq> p) ?r)) = mset (map ((!) el) ?r)"
      unfolding mset_map by (rule arg_cong)
    then show ?thesis using el Some by (simp add: place_def)
  qed
qed


lemma eligible_sound:
  assumes "a \<in> set (eligible kind model accounts now)"
  shows "a \<in> set accounts \<and> available kind model now a \<and> (cn_CapabilitiesKnown a \<longrightarrow> capable a model)"
  using assms by (auto simp: eligible_def Let_def split: if_splits)

lemma order_Inr:
  assumes "order kind model accounts preferred now cs = (Inr xs, cs')"
  shows "eligible kind model accounts now \<noteq> [] \<and> mset xs = mset (eligible kind model accounts now) \<and>
    cs' = cs(cursorKey kind model := cs (cursorKey kind model) + 1)"
  using assms place_mset find_index_Some
  by (auto simp: order_def Let_def split: if_splits) blast


section \<open>Properties\<close>

text \<open>An ordering contains exactly the eligible accounts, each as often as it is listed:
  accounts of the requested provider that are enabled, valid, not cooling down for the model or
  as a whole, and known to support the model (or, if no account is known to, of unknown
  capability).\<close>

theorem order_exactly_eligible:
  assumes "OrderForProvider kind model accounts preferred now cs = (Inr xs, cs')" "kind_Valid kind"
  shows "mset xs = mset (eligible kind model accounts now) \<and>
    (\<forall>a \<in> set xs. a \<in> set accounts \<and> cn_Provider a = kind \<and> cn_Enabled a \<and> cn_Valid a \<and>
       until a model \<le> now \<and> until a ''*'' \<le> now \<and> (cn_CapabilitiesKnown a \<longrightarrow> capable a model))"
proof -
  from assms(1) have m: "mset xs = mset (eligible kind model accounts now)"
    using order_Inr by (auto simp: OrderForProvider_def)
  then have "set xs = set (eligible kind model accounts now)" by (metis set_mset_mset)
  with eligible_sound [of _ kind model accounts now] assms(2) m show ?thesis
    by (auto simp: available_def time_after_def not_less)
qed

text \<open>An ordering fails exactly when no account is eligible, and then no cursor moves;
  otherwise only the cursor of the provider and model moves, by one.\<close>

theorem order_fails_iff_none_eligible:
  "(fst (OrderForProvider kind model accounts preferred now cs) = Inl ErrNoAvailableAccounts \<longleftrightarrow>
      eligible kind model accounts now = []) \<and>
   snd (OrderForProvider kind model accounts preferred now cs) =
     (if eligible kind model accounts now = [] then cs
      else cs(cursorKey kind model := cs (cursorKey kind model) + 1))"
  by (simp add: OrderForProvider_def order_def Let_def)

text \<open>An eligible preferred account is tried first.\<close>

theorem preferred_first:
  assumes "OrderForProvider kind model accounts preferred now cs = (Inr xs, cs')"
    and "a \<in> set (eligible kind model accounts now)" "cn_ID a = preferred"
  shows "xs \<noteq> [] \<and> cn_ID (hd xs) = preferred"
proof -
  let ?el = "eligible kind model accounts now"
  obtain p where p: "find_index (\<lambda>a. cn_ID a = preferred) ?el = Some p"
    using assms(2,3) find_index_None [of "\<lambda>a. cn_ID a = preferred" ?el] by fastforce
  with assms(1) find_index_Some [OF p] show ?thesis
    by (auto simp: OrderForProvider_def order_def place_def Let_def split: if_splits)
qed

text \<open>\<open>n\<close> successive calls with the same arguments: the accounts tried first.\<close>

fun first_choices ::
  "nat \<Rightarrow> kind \<Rightarrow> string \<Rightarrow> candidate list \<Rightarrow> string \<Rightarrow> time \<Rightarrow> cursors \<Rightarrow> candidate list" where
  "first_choices 0 kind model accounts preferred now cs = []"
| "first_choices (Suc n) kind model accounts preferred now cs =
     (case OrderForProvider kind model accounts preferred now cs of
        (Inl _, _) \<Rightarrow> []
      | (Inr xs, cs') \<Rightarrow> hd xs # first_choices n kind model accounts preferred now cs')"

lemma place_head: "0 < length el \<Longrightarrow> cursor < length el \<Longrightarrow> hd (place el None cursor) = el ! cursor"
proof -
  assume "0 < length el" "cursor < length el"
  then obtain n where "length el = Suc n" "cursor mod length el = cursor" by (cases "length el") auto
  then show ?thesis by (simp add: place_def rotation_def upt_conv_Cons del: upt_Suc)
qed

lemma first_choices_eq:
  assumes el: "el = eligible kind model accounts now" "el \<noteq> []" "\<forall>a \<in> set el. cn_ID a \<noteq> preferred" "length el < 2 ^ 64"
  shows "first_choices n kind model accounts preferred now cs =
    map (\<lambda>k. el ! (unat (cs (cursorKey kind model) + of_nat k) mod length el)) [0..<n]"
proof (induction n arbitrary: cs)
  case (Suc n)
  let ?key = "cursorKey kind model"
  let ?c = "unat (cs ?key)"
  define cs' where "cs' = cs(?key := cs ?key + 1)"
  have pref: "find_index (\<lambda>a. cn_ID a = preferred) el = None" using el(3) by (simp add: find_index_None)
  have m: "unat (cs ?key mod of_nat (length el)) = ?c mod length el"
    using el(4) by (simp add: unat_mod_distrib unat_of_nat)
  have "OrderForProvider kind model accounts preferred now cs = (Inr (place el None (?c mod length el)), cs')"
    using el(1,2) pref m by (simp add: OrderForProvider_def order_def Let_def cs'_def)
  moreover have "hd (place el None (?c mod length el)) = el ! (?c mod length el)"
    using el(2) by (simp add: place_head)
  ultimately have "first_choices (Suc n) kind model accounts preferred now cs =
      el ! (?c mod length el) # first_choices n kind model accounts preferred now cs'" by simp
  moreover have "cs' ?key + of_nat k = cs ?key + of_nat (Suc k)" for k by (simp add: cs'_def)
  ultimately show ?case using Suc.IH [of cs'] by (simp add: map_upt_Suc del: upt_Suc of_nat_Suc)
qed simp

lemma rotation_covers:
  assumes "el \<noteq> []" "\<forall>k < length el. g k = c + k"
  shows "mset (map (\<lambda>k. el ! (g k mod length el)) [0..<length el]) = mset el"
proof -
  have "map (\<lambda>k. el ! (g k mod length el)) [0..<length el] = map (\<lambda>i. el ! i) (rotation c (length el))"
    using assms(2) by (simp add: rotation_def)
  with place_mset [OF assms(1), of None c] show ?thesis by (simp add: place_def)
qed

lemma no_wrap: "unat (c :: 64 word) + k < 2 ^ 64 \<Longrightarrow> unat (c + of_nat k) = unat c + k"
  by (simp add: unat_word_ariths unat_of_nat)

text \<open>A window of as many calls as there are accounts, in which the cursor does not wrap, starts with
  the first call or with the call after the wrap.\<close>

lemma calm_window:
  assumes "n \<le> 2 ^ 63"
  shows "\<exists>start c0. start \<le> n \<and> (\<forall>k < n. unat ((c :: 64 word) + of_nat (start + k)) = c0 + k)"
proof (cases "unat c + n \<le> 2 ^ 64")
  case True
  then have "\<forall>k < n. unat (c + of_nat (0 + k)) = unat c + k" using no_wrap [of c] by simp
  then show ?thesis by (intro exI [of _ 0] exI [of _ "unat c"]) simp
next
  case False
  define s where "s = 2 ^ 64 - unat c"
  have "unat c < 2 ^ LENGTH(64)" by (rule unsigned_less)
  then have s: "s \<le> n" "unat c + s = 2 ^ 64" using False by (simp_all add: s_def)
  have "unat (c + of_nat (s + k)) = k" if "k < n" for k
  proof -
    have "(unat c + (s + k)) mod 2 ^ 64 = (2 ^ 64 + k) mod 2 ^ 64" by (simp only: s(2) [symmetric] add.assoc)
    moreover have "k < 2 ^ 64" using that assms by simp
    ultimately show ?thesis by (simp add: unat_word_ariths unat_of_nat mod_simps)
  qed
  with s(1) show ?thesis by (intro exI [of _ s] exI [of _ 0]) simp
qed

lemma preferred_always_first:
  assumes "el = eligible kind model accounts now" "a \<in> set el" "cn_ID a = preferred"
  shows "\<exists>p \<in> set el. cn_ID p = preferred \<and> (\<forall>n. first_choices n kind model accounts preferred now cs = replicate n p)"
proof -
  obtain i where i: "find_index (\<lambda>a. cn_ID a = preferred) el = Some i"
    using assms(2,3) find_index_None [of "\<lambda>a. cn_ID a = preferred" el] by fastforce
  note f = find_index_Some [OF i]
  have "first_choices n kind model accounts preferred now cs = replicate n (el ! i)" for n cs
  proof (induction n arbitrary: cs)
    case (Suc n)
    have "OrderForProvider kind model accounts preferred now cs =
        (Inr (place el (Some i) (unat (cs (cursorKey kind model) mod of_nat (length el)))), cs(cursorKey kind model := cs (cursorKey kind model) + 1))"
      using assms(1,2) i by (auto simp: OrderForProvider_def order_def Let_def)
    with Suc show ?case by (simp add: place_def)
  qed simp
  with f show ?thesis by (intro bexI [of _ "el ! i"]) auto
qed

text \<open>C40: Round-robin fairness, over successive calls for the same provider, model and accounts. When the
  preferred account is not eligible, every eligible account is tried first within twice as many calls
  as there are eligible accounts, wherever the 64-bit cursor stands and even if it wraps; and
  exactly once within as many calls, if it does not wrap. When the preferred account is eligible, it
  is the one tried first in every call.\<close>

theorem round_robin_fair:
  assumes "el = eligible kind model accounts now" "el \<noteq> []" "length el \<le> 2 ^ 63"
  shows "((\<forall>a \<in> set el. cn_ID a \<noteq> preferred) \<longrightarrow>
      set (first_choices (2 * length el) kind model accounts preferred now cs) = set el \<and>
      (unat (cs (cursorKey kind model)) + length el \<le> 2 ^ 64 \<longrightarrow>
         mset (first_choices (length el) kind model accounts preferred now cs) = mset el)) \<and>
    ((\<exists>a \<in> set el. cn_ID a = preferred) \<longrightarrow>
      (\<exists>p \<in> set el. cn_ID p = preferred \<and> (\<forall>n. first_choices n kind model accounts preferred now cs = replicate n p)))"
proof (intro conjI impI)
  let ?c = "cs (cursorKey kind model)" and ?f = "\<lambda>k. el ! (unat (cs (cursorKey kind model) + of_nat k) mod length el)"
  assume "\<forall>a \<in> set el. cn_ID a \<noteq> preferred"
  then have choices: "first_choices n kind model accounts preferred now cs = map ?f [0..<n]" for n
    using first_choices_eq assms by simp
  obtain start c0 where s: "start \<le> length el" "\<forall>k < length el. unat (?c + of_nat (start + k)) = c0 + k"
    using calm_window [OF assms(3)] by blast
  have "mset (map (\<lambda>k. ?f (start + k)) [0..<length el]) = mset el" by (rule rotation_covers [OF assms(2) s(2)])
  then have "set el = (\<lambda>k. ?f (start + k)) ` {0..<length el}" by (metis list.set_map set_mset_mset set_upt)
  also have "\<dots> \<subseteq> ?f ` {0..<2 * length el}"
    using s(1) by (intro image_subsetI rev_image_eqI [of "start + _"]) auto
  finally show "set (first_choices (2 * length el) kind model accounts preferred now cs) = set el"
    using assms(2) by (auto simp: choices)
  assume "unat ?c + length el \<le> 2 ^ 64"
  then have "\<forall>k < length el. unat (?c + of_nat k) = unat ?c + k" using no_wrap [of ?c] by simp
  then show "mset (first_choices (length el) kind model accounts preferred now cs) = mset el"
    unfolding choices by (rule rotation_covers [OF assms(2)])
next
  assume "\<exists>a \<in> set el. cn_ID a = preferred"
  then obtain a where "a \<in> set el" "cn_ID a = preferred" by (elim bexE)
  then show "\<exists>p \<in> set el. cn_ID p = preferred \<and> (\<forall>n. first_choices n kind model accounts preferred now cs = replicate n p)"
    by (rule preferred_always_first [OF assms(1)])
qed


section \<open>Witnesses\<close>

definition sample_candidate :: "string \<Rightarrow> candidate" where
  "sample_candidate i = \<lparr>cn_ID = i, cn_Provider = XAI, cn_Enabled = True, cn_Valid = True,
     cn_Capabilities = [(''grok'', True)], cn_CapabilitiesKnown = True, cn_CooldownUntil = []\<rparr>"

definition sample_candidates :: "candidate list" where
  "sample_candidates = [sample_candidate ''a'', (sample_candidate ''b'')\<lparr>cn_Enabled := False\<rparr>, sample_candidate ''c'',
     (sample_candidate ''d'')\<lparr>cn_CooldownUntil := [(''*'', from_unix 100)]\<rparr>]"

lemma sample_eligible:
  "eligible XAI ''grok'' sample_candidates (from_unix 10) = [sample_candidate ''a'', sample_candidate ''c'']"
  by code_simp

lemma sample_order:
  "fst (OrderForProvider XAI ''grok'' sample_candidates ''c'' (from_unix 10) NewScheduler) =
     Inr [sample_candidate ''c'', sample_candidate ''a'']"
  by code_simp

lemma sample_order_pair:
  "OrderForProvider XAI ''grok'' sample_candidates ''c'' (from_unix 10) NewScheduler =
     (Inr [sample_candidate ''c'', sample_candidate ''a''],
      snd (OrderForProvider XAI ''grok'' sample_candidates ''c'' (from_unix 10) NewScheduler))"
  using sample_order by (metis prod.collapse)

theorem order_exactly_eligible_witness:
  "mset [sample_candidate ''c'', sample_candidate ''a''] = mset (eligible XAI ''grok'' sample_candidates (from_unix 10))"
  using order_exactly_eligible [OF sample_order_pair] by simp

theorem preferred_first_witness:
  "cn_ID (hd [sample_candidate ''c'', sample_candidate ''a'']) = ''c''"
  using preferred_first [OF sample_order_pair, of "sample_candidate ''c''"] by (simp add: sample_eligible sample_candidate_def)

theorem round_robin_fair_witness:
  "mset (first_choices 2 XAI ''grok'' sample_candidates ''z'' (from_unix 10) NewScheduler) =
     mset [sample_candidate ''a'', sample_candidate ''c''] \<and>
   (\<forall>cs. set (first_choices 4 XAI ''grok'' sample_candidates ''z'' (from_unix 10) cs) = {sample_candidate ''a'', sample_candidate ''c''}) \<and>
   cn_ID (hd (first_choices 1 XAI ''grok'' sample_candidates ''c'' (from_unix 10) NewScheduler)) = ''c''"
proof -
  let ?el = "[sample_candidate ''a'', sample_candidate ''c'']"
  have ids: "\<forall>a \<in> set ?el. cn_ID a \<noteq> ''z''" "\<exists>a \<in> set ?el. cn_ID a = ''c''" by (simp_all add: sample_candidate_def)
  have cur: "unat (NewScheduler (cursorKey XAI ''grok'')) + length ?el \<le> 2 ^ 64" by (simp add: NewScheduler_def)
  have len: "length ?el \<le> 2 ^ 63" "?el \<noteq> []" "length ?el = 2" "2 * length ?el = 4" "set ?el = {sample_candidate ''a'', sample_candidate ''c''}"
    by simp_all
  note fair = round_robin_fair [OF sample_eligible [symmetric] len(2,1)]
  from fair [where preferred = "''c''" and cs = NewScheduler] ids(2) obtain p where
    "cn_ID p = ''c''" "first_choices 1 XAI ''grok'' sample_candidates ''c'' (from_unix 10) NewScheduler = replicate 1 p" by blast
  with fair [where preferred = "''z''"] ids(1) cur show ?thesis unfolding len(3-5) by simp
qed

end
