(* ===== verification/Store_Cooldowns.thy ===== *)
theory Store_Cooldowns
  imports Store_Accounts
begin

text \<open>
  Cooldown states per account and model (\<open>internal/store/cooldowns.go\<close>) and the manager that
  turns a classified failure into one (\<open>internal/routing/cooldown.go\<close>). A state row's foreign
  key is the account. \<open>time.Now()\<close> is the argument \<open>now\<close>.

  Shown: a read never reports an expired cooldown; the rate-limit ladder 60, 120, 240, 480,
  960, 1800 seconds, advanced only once the previous cooldown has expired; success resets it;
  what each kind of failure does to the account and to the other rows.
\<close>


section \<open>The repository\<close>

record cooldown =
  cd_AccountID :: string
  cd_Model :: string
  cd_LastErrorClass :: string
  cd_Until :: "time option"
  cd_BackoffLevel :: int
  cd_LastErrorAt :: "time option"

definition state_key :: "state_row \<Rightarrow> string \<times> string" where
  "state_key r = (st_account_id r, st_model r)"

abbreviation state_of :: "string \<Rightarrow> string \<Rightarrow> database \<Rightarrow> state_row option" where
  "state_of a m d \<equiv> row_get state_key (a, m) (db_states d)"

definition has_account :: "string \<Rightarrow> database \<Rightarrow> bool" where
  "has_account a d \<longleftrightarrow> row_get ar_id a (db_accounts d) \<noteq> None"

text \<open>A checked statement on the states of account \<open>a\<close>: insert \<open>fresh\<close> or apply \<open>upd\<close> to the
  existing row.\<close>

definition upsert_state :: "state_row \<Rightarrow> (state_row \<Rightarrow> state_row) \<Rightarrow> state_row dbop" where
  "upsert_state fresh upd =
     db_exec_checked ''FOREIGN KEY constraint failed'' (has_account (st_account_id fresh))
       (\<lambda>d. (case row_get state_key (state_key fresh) (db_states d) of None \<Rightarrow> fresh | Some old \<Rightarrow> upd old,
             d\<lparr>db_states := row_put state_key fresh upd (db_states d)\<rparr>))"

definition cooldown_row :: "cooldown \<Rightarrow> state_row" where
  "cooldown_row v =
     \<lparr>st_account_id = cd_AccountID v, st_model = cd_Model v, st_cooldown_until = nullableUnix (cd_Until v),
      st_backoff_level = cd_BackoffLevel v, st_last_error_class = nullString (cd_LastErrorClass v),
      st_last_error_at = nullableUnix (cd_LastErrorAt v)\<rparr>"

definition cooldown_of_row :: "state_row \<Rightarrow> cooldown" where
  "cooldown_of_row r =
     \<lparr>cd_AccountID = st_account_id r, cd_Model = st_model r, cd_LastErrorClass = coalesce (st_last_error_class r),
      cd_Until = timePtr (st_cooldown_until r), cd_BackoffLevel = st_backoff_level r,
      cd_LastErrorAt = timePtr (st_last_error_at r)\<rparr>"

definition cooldown_Put :: "cooldown \<Rightarrow> unit dbop" where
  "cooldown_Put v = andThen (upsert_state (cooldown_row v) (\<lambda>_. cooldown_row v)) (\<lambda>_. ret ())"

definition expired_state :: "time \<Rightarrow> state_row \<Rightarrow> bool" where
  "expired_state now r \<longleftrightarrow> (case st_cooldown_until r of None \<Rightarrow> False | Some u \<Rightarrow> u \<le> unix now)"

text \<open>Clearing an expired cooldown keeps the ladder position after a rate limit only.\<close>

definition promote_state :: "state_row \<Rightarrow> state_row" where
  "promote_state r =
     r\<lparr>st_cooldown_until := None,
       st_backoff_level := (if st_last_error_class r = Some ClassRateLimit then st_backoff_level r else 0)\<rparr>"

definition cooldown_Get :: "string \<Rightarrow> string \<Rightarrow> time \<Rightarrow> cooldown dbop" where
  "cooldown_Get a m now =
     andThen (db_exec (\<lambda>d. ((), d\<lparr>db_states :=
         row_update state_key (a, m) (\<lambda>r. if expired_state now r then promote_state r else r) (db_states d)\<rparr>))) (\<lambda>_.
     andThen (db_query_row (state_of a m)) (\<lambda>r. ret (cooldown_of_row r)))"

definition cooldown_Ready :: "string \<Rightarrow> string \<Rightarrow> unit dbop" where
  "cooldown_Ready a m =
     andThen (upsert_state
         \<lparr>st_account_id = a, st_model = m, st_cooldown_until = None, st_backoff_level = 0,
          st_last_error_class = None, st_last_error_at = None\<rparr>
         (\<lambda>r. r\<lparr>st_cooldown_until := None, st_backoff_level := 0\<rparr>)) (\<lambda>_. ret ())"

definition rate_limit_delay :: "int \<Rightarrow> int" where
  "rate_limit_delay level =
     (if level \<le> 0 then 60 else if level = 1 then 120 else if level = 2 then 240
      else if level = 3 then 480 else if level = 4 then 960 else 1800)"

definition cooling :: "time \<Rightarrow> state_row \<Rightarrow> bool" where
  "cooling now r \<longleftrightarrow> (case st_cooldown_until r of None \<Rightarrow> False | Some u \<Rightarrow> unix now < u)"

definition advance_state :: "string \<Rightarrow> time \<Rightarrow> state_row \<Rightarrow> state_row" where
  "advance_state cls now r =
     r\<lparr>st_backoff_level := (if cooling now r then st_backoff_level r else min (st_backoff_level r + 1) 6),
       st_cooldown_until := (if cooling now r then st_cooldown_until r
                             else Some (unix now + rate_limit_delay (st_backoff_level r))),
       st_last_error_class := Some cls, st_last_error_at := Some (unix now)\<rparr>"

definition AdvanceRateLimit :: "string \<Rightarrow> string \<Rightarrow> string \<Rightarrow> time \<Rightarrow> cooldown dbop" where
  "AdvanceRateLimit a m cls now =
     andThen (upsert_state
         \<lparr>st_account_id = a, st_model = m, st_cooldown_until = Some (unix (now + minute)), st_backoff_level = 1,
          st_last_error_class = Some cls, st_last_error_at = Some (unix now)\<rparr>
         (advance_state cls now)) (\<lambda>r. ret (cooldown_of_row r))"

fun update_limit :: "nat \<Rightarrow> ('r \<Rightarrow> bool) \<Rightarrow> ('r \<Rightarrow> 'r) \<Rightarrow> 'r list \<Rightarrow> 'r list" where
  "update_limit n P f [] = []"
| "update_limit 0 P f rows = rows"
| "update_limit (Suc n) P f (r # rows) =
     (if P r then f r # update_limit n P f rows else r # update_limit (Suc n) P f rows)"

definition PromoteExpired :: "time \<Rightarrow> nat dbop" where
  "PromoteExpired now =
     db_exec (\<lambda>d. (min cleanupBatchSize (length (filter (expired_state now) (db_states d))),
        d\<lparr>db_states := update_limit cleanupBatchSize (expired_state now) promote_state (db_states d)\<rparr>))"


section \<open>The cooldown manager\<close>

definition cooldown_Apply ::
  "account_repository \<Rightarrow> string \<Rightarrow> string \<Rightarrow> error_classification \<Rightarrow> time \<Rightarrow> unit dbop" where
  "cooldown_Apply r a model c now =
     (if ec_ReloginRequired c then
        andThen (account_Get r a) (\<lambda>acct. account_MarkReloginRequired a (acc_Provider acct))
      else if ec_DisableAccount c then
        andThen (account_Get r a) (\<lambda>acct. account_Update a (acc_Label acct) False)
      else if ec_CooldownScope c = CooldownNone then ret ()
      else if ec_Cooldown c \<le> 0 \<and> ec_Class c \<noteq> ClassRateLimit then ret ()
      else
        let scope = (if ec_CooldownScope c = CooldownAccount then ''*'' else model) in
        if ec_Class c = ClassRateLimit \<and> ec_ExplicitRetryAfter c \<and> ec_Cooldown c \<le> 0 then ret ()
        else if ec_Class c = ClassRateLimit \<and> \<not> ec_ExplicitRetryAfter c
        then andThen (AdvanceRateLimit a scope (ec_Class c) now) (\<lambda>_. ret ())
        else cooldown_Put \<lparr>cd_AccountID = a, cd_Model = scope, cd_LastErrorClass = ec_Class c,
               cd_Until = Some (now + ec_Cooldown c), cd_BackoffLevel = 0, cd_LastErrorAt = Some now\<rparr>)"

definition cooldown_Success :: "string \<Rightarrow> string \<Rightarrow> unit dbop" where
  "cooldown_Success a model = cooldown_Ready a model"


section \<open>Frames and the invariant\<close>

lemma state_key_simps [simp]:
  "state_key (promote_state r) = state_key r" "state_key (advance_state cls now r) = state_key r"
  "state_key (cooldown_row v) = (cd_AccountID v, cd_Model v)"
  "st_account_id (promote_state r) = st_account_id r" "st_account_id (advance_state cls now r) = st_account_id r"
  "st_account_id (cooldown_row v) = cd_AccountID v"
  by (simp_all add: state_key_def promote_state_def advance_state_def cooldown_row_def)

lemma has_account_iff: "has_account a d \<longleftrightarrow> a \<in> ar_id ` set (db_accounts d)"
  using row_get_None_iff [of ar_id a "db_accounts d"] by (auto simp: has_account_def)

definition state_ok :: "state_row \<Rightarrow> bool" where
  "state_ok r \<longleftrightarrow> 0 \<le> st_backoff_level r \<and> st_backoff_level r \<le> 6"

text \<open>The account tables are sound, there is one state per account and model, and every ladder
  position is between zero and six.\<close>

definition cooldown_inv :: "database \<Rightarrow> bool" where
  "cooldown_inv d \<longleftrightarrow> accounts_inv d \<and> unique_rows state_key (db_states d) \<and> list_all state_ok (db_states d)"

lemma cooldown_inv_tables [simp]: "cooldown_inv (tables d) = cooldown_inv d"
  by (simp add: cooldown_inv_def)

lemma row_put_cases:
  assumes "r' \<in> set (row_put key r f rows)"
  obtains "r' = r" | "r' \<in> set rows" | q where "q \<in> set rows" "key q = key r" "r' = f q"
  using assms by (auto simp: row_put_def row_get_None_iff set_row_update split: if_splits)

lemma cooldown_inv_put:
  assumes "has_account (st_account_id r) d" "state_ok r" "\<And>q. state_ok q \<Longrightarrow> state_ok (f q)"
    "\<And>q. state_key q = state_key r \<Longrightarrow> state_key (f q) = state_key r"
  shows "stable cooldown_inv d (d\<lparr>db_states := row_put state_key r f (db_states d)\<rparr>)"
proof -
  have "st_account_id q \<in> ar_id ` set (db_accounts d)" "state_ok q"
    if inv: "cooldown_inv d" and q: "q \<in> set (row_put state_key r f (db_states d))" for q
  proof -
    from q have "(st_account_id q = st_account_id r \<or> q \<in> set (db_states d)) \<and>
        (q = r \<or> q \<in> set (db_states d) \<or> (\<exists>p \<in> set (db_states d). q = f p))"
    proof (cases rule: row_put_cases)
      case (3 p)
      with assms(4) [of p] show ?thesis by (auto simp: state_key_def)
    qed auto
    with assms(1-3) inv show "st_account_id q \<in> ar_id ` set (db_accounts d)" "state_ok q"
      by (auto simp: cooldown_inv_def accounts_inv_def has_account_iff list_all_iff)
  qed
  then show ?thesis
    using unique_rows_put [of state_key r f] assms(4)
    by (auto simp: stable_def cooldown_inv_def accounts_inv_def list_all_iff)
qed

lemma upsert_state_inv:
  assumes "state_ok r" "\<And>q. state_ok q \<Longrightarrow> state_ok (f q)"
    "\<And>q. state_key q = state_key r \<Longrightarrow> state_key (f q) = state_key r"
  shows "keeps (stable cooldown_inv) (upsert_state r f)"
  unfolding upsert_state_def
  by (intro keeps_intros cooldown_inv_tables) (use assms cooldown_inv_put in simp)

lemma cooldown_Put_inv:
  "0 \<le> cd_BackoffLevel v \<Longrightarrow> cd_BackoffLevel v \<le> 6 \<Longrightarrow> keeps (stable cooldown_inv) (cooldown_Put v)"
  unfolding cooldown_Put_def
  by (intro keeps_intros upsert_state_inv) (simp_all add: state_ok_def cooldown_row_def state_key_def)

lemma cooldown_Ready_inv: "keeps (stable cooldown_inv) (cooldown_Ready a m)"
  unfolding cooldown_Ready_def
  by (intro keeps_intros upsert_state_inv) (simp_all add: state_ok_def state_key_def)

lemma AdvanceRateLimit_inv: "keeps (stable cooldown_inv) (AdvanceRateLimit a m cls now)"
  unfolding AdvanceRateLimit_def
  by (intro keeps_intros upsert_state_inv) (auto simp: state_ok_def state_key_def advance_state_def)

lemma cooldown_inv_map:
  assumes "\<And>r. state_key (f r) = state_key r" "\<And>r. state_ok r \<Longrightarrow> state_ok (f r)"
  shows "stable cooldown_inv d (d\<lparr>db_states := map f (db_states d)\<rparr>)"
proof -
  have "map state_key (map f (db_states d)) = map state_key (db_states d)" using assms(1) by simp
  moreover have "st_account_id (f r) = st_account_id r" for r
    using assms(1) [of r] by (simp add: state_key_def)
  ultimately show ?thesis using assms(2)
    by (auto simp: stable_def cooldown_inv_def accounts_inv_def unique_rows_def list_all_iff simp del: map_map)
qed

lemma promote_ok: "state_ok r \<Longrightarrow> state_ok (promote_state r)"
  by (simp add: state_ok_def promote_state_def)

lemma cooldown_Get_inv: "keeps (stable cooldown_inv) (cooldown_Get a m now)"
  unfolding cooldown_Get_def row_update_def
  by (intro keeps_intros cooldown_inv_tables)
     (use promote_ok in \<open>auto intro!: cooldown_inv_map\<close>)

lemma PromoteExpired_inv: "keeps (stable cooldown_inv) (PromoteExpired now)"
proof -
  have k: "map state_key (update_limit n P promote_state rows) = map state_key rows" for n P rows
    by (induction n P promote_state rows rule: update_limit.induct) simp_all
  have i: "st_account_id ` set (update_limit n P promote_state rows) = st_account_id ` set rows" for n P rows
    by (induction n P promote_state rows rule: update_limit.induct) auto
  have "list_all state_ok rows \<Longrightarrow> list_all state_ok (update_limit n P promote_state rows)" for n P rows
    by (induction n P promote_state rows rule: update_limit.induct) (auto simp: promote_ok)
  with k i show ?thesis
    unfolding PromoteExpired_def
    by (intro keeps_intros cooldown_inv_tables)
       (auto simp: stable_def cooldown_inv_def accounts_inv_def unique_rows_def)
qed

lemma update_accounts_cooldown_inv:
  "(\<And>d r. ar_id (f d r) = ar_id r) \<Longrightarrow> (\<And>d r. ar_fingerprint (f d r) = ar_fingerprint r) \<Longrightarrow>
   (\<And>d r. ar_provider (f d r) = ar_provider r) \<Longrightarrow>
   keeps (stable cooldown_inv) (db_exec (\<lambda>d. update_accounts P (f d) d))"
  using accounts_inv_update
  by (intro keeps_intros cooldown_inv_tables) (simp add: update_accounts_def stable_def cooldown_inv_def)

lemma cooldown_Apply_inv: "keeps (stable cooldown_inv) (cooldown_Apply r a model c now)"
  unfolding cooldown_Apply_def Let_def account_MarkReloginRequired_def account_Update_def
  by (intro keeps_intros cooldown_inv_tables cooldown_Put_inv AdvanceRateLimit_inv update_accounts_cooldown_inv) simp_all


section \<open>What each operation does\<close>

text \<open>Rows of account \<open>b\<close>.\<close>

definition account_view :: "string \<Rightarrow> database \<Rightarrow> account_row list \<times> state_row list" where
  "account_view b d = (filter (\<lambda>r. ar_id r = b) (db_accounts d), filter (\<lambda>r. st_account_id r = b) (db_states d))"

lemma account_view_tables [simp]: "account_view b (tables d) = account_view b d"
  by (simp add: account_view_def)

lemma filter_row_put:
  assumes "\<And>q. key q = key r \<Longrightarrow> \<not> P q \<and> \<not> P (f q)" "\<not> P r"
  shows "filter P (row_put key r f rows) = filter P rows"
proof -
  have "filter P (row_update key (key r) f rows) = filter P rows"
    using assms(1) by (induction rows) (auto simp: row_update_def)
  then show ?thesis using assms(2) by (simp add: row_put_def)
qed

lemma filter_map_update:
  "(\<And>q. P q \<Longrightarrow> \<not> Q q \<and> \<not> Q (f q)) \<Longrightarrow> filter Q (map (\<lambda>q. if P q then f q else q) rows) = filter Q rows"
  by (induction rows) auto

lemma upsert_state_frame:
  assumes "b \<noteq> st_account_id r" "\<And>q. state_key q = state_key r \<Longrightarrow> state_key (f q) = state_key r"
  shows "keeps (same (account_view b)) (upsert_state r f)"
proof -
  have "filter (\<lambda>q. st_account_id q = b) (row_put state_key r f rows) = filter (\<lambda>q. st_account_id q = b) rows" for rows
    using assms by (intro filter_row_put) (auto simp: state_key_def)
  then show ?thesis
    unfolding upsert_state_def
    by (intro keeps_intros account_view_tables) (simp add: same_def account_view_def)
qed

lemma update_accounts_frame:
  "(\<And>row. P row \<Longrightarrow> ar_id row \<noteq> b) \<Longrightarrow> (\<And>d row. ar_id (f d row) = ar_id row) \<Longrightarrow>
   keeps (same (account_view b)) (db_exec (\<lambda>d. update_accounts P (f d) d))"
  by (intro keeps_intros account_view_tables)
     (simp add: same_def account_view_def update_accounts_def filter_map_update)

lemma cooldown_Apply_frame:
  assumes "b \<noteq> a"
  shows "keeps (same (account_view b)) (cooldown_Apply r a model c now)"
  unfolding cooldown_Apply_def Let_def account_MarkReloginRequired_def account_Update_def
    cooldown_Put_def AdvanceRateLimit_def
  by (intro keeps_intros account_view_tables upsert_state_frame update_accounts_frame)
     (use assms in \<open>auto simp: state_key_def advance_state_def cooldown_row_def\<close>)

lemma cooldown_Get_Inr:
  assumes "cooldown_Get a m now d = (Inr c, d')"
  shows "\<exists>r. state_of a m d = Some r \<and>
    c = cooldown_of_row (if expired_state now r then promote_state r else r)"
proof -
  let ?upd = "\<lambda>d. ((), d\<lparr>db_states :=
     row_update state_key (a, m) (\<lambda>r. if expired_state now r then promote_state r else r) (db_states d)\<rparr>)"
  show ?thesis
  proof (cases d rule: db_exec_cases [where f = ?upd])
    case (ok d0)
    let ?d1 = "snd (?upd d0)"
    have st: "db_states d0 = db_states d" using tables_eqD(4) [OF ok(2)] .
    have upd: "state_of a m ?d1 = map_option (\<lambda>r. if expired_state now r then promote_state r else r) (state_of a m d)"
      by (simp add: row_get_update st)
    show ?thesis
    proof (cases ?d1 rule: db_query_row_cases [where f = "state_of a m"])
      case (row r d2)
      have "state_of a m d2 = state_of a m ?d1" using tables_eqD(4) [OF row(3)] by metis
      with row(2) upd have "map_option (\<lambda>r. if expired_state now r then promote_state r else r) (state_of a m d) = Some r"
        by simp
      moreover have "c = cooldown_of_row r"
        using assms ok(1) row(1) by (simp add: cooldown_Get_def monad_simps)
      ultimately show ?thesis by auto
    qed (use assms ok(1) in \<open>auto simp: cooldown_Get_def monad_simps\<close>)
  qed (use assms in \<open>auto simp: cooldown_Get_def monad_simps\<close>)
qed


section \<open>Properties\<close>

text \<open>A read of a cooldown never reports one that has expired: the end of the cooldown it
  returns, if any, lies after the time of the read.\<close>

theorem cooldown_read_not_expired:
  assumes "cooldown_Get a m now d = (Inr c, d')" "cd_Until c = Some u"
  shows "now < u"
proof -
  from cooldown_Get_Inr [OF assms(1)] obtain r where
    "c = cooldown_of_row (if expired_state now r then promote_state r else r)" by blast
  with assms(2) show ?thesis
    using from_unix_le_unix [of _ now]
    by (auto simp: cooldown_of_row_def promote_state_def expired_state_def timePtr_def not_le
        split: if_splits option.splits) (metis not_le)
qed

lemma rate_limit_delay_power: "0 \<le> l \<Longrightarrow> rate_limit_delay l = min (60 * 2 ^ nat l) 1800"
proof -
  assume l: "0 \<le> l"
  show ?thesis
  proof (cases "l < 5")
    case True
    with l have "l \<in> {0, 1, 2, 3, 4}" by auto
    then show ?thesis by (auto simp: rate_limit_delay_def)
  next
    case False
    then have "(2::int) ^ 5 \<le> 2 ^ nat l" by (intro power_increasing) auto
    with False show ?thesis by (simp add: rate_limit_delay_def min_def)
  qed
qed

lemma AdvanceRateLimit_ok:
  assumes "db_faults d = []" "has_account a d"
  shows "AdvanceRateLimit a m cls now d =
    (let fresh = \<lparr>st_account_id = a, st_model = m, st_cooldown_until = Some (unix now + 60), st_backoff_level = 1,
                  st_last_error_class = Some cls, st_last_error_at = Some (unix now)\<rparr>
     in (Inr (cooldown_of_row (case state_of a m d of None \<Rightarrow> fresh | Some r \<Rightarrow> advance_state cls now r)),
         d\<lparr>db_states := row_put state_key fresh (advance_state cls now) (db_states d)\<rparr>))"
proof -
  have "unix (now + minute) = unix now + 60"
    using unix_add_seconds [of now 60] by (simp add: minute_def)
  with assms show ?thesis
    by (simp add: AdvanceRateLimit_def upsert_state_def monad_simps Let_def state_key_def)
qed

text \<open>The rate-limit ladder. With working storage, a rate limit of an account and model
  that is still cooling changes neither the end of the cooldown nor the ladder position;
  otherwise the position \<open>l\<close> rises to \<open>min (l + 1) 6\<close> and the new cooldown lasts
  \<open>min (60 * 2^l) 1800\<close> seconds from now, where a missing state counts as position zero.\<close>

theorem rate_limit_ladder:
  assumes "db_faults d = []" "has_account a d" "cooldown_inv d"
    and l: "l = (case state_of a m d of None \<Rightarrow> 0 | Some r \<Rightarrow> st_backoff_level r)"
  shows "\<exists>c d'. AdvanceRateLimit a m cls now d = (Inr c, d') \<and>
    (case state_of a m d of
       Some r \<Rightarrow> if cooling now r
                 then cd_Until c = timePtr (st_cooldown_until r) \<and> cd_BackoffLevel c = l
                 else cd_Until c = Some (from_unix (unix now + min (60 * 2 ^ nat l) 1800)) \<and> cd_BackoffLevel c = min (l + 1) 6
     | None \<Rightarrow> cd_Until c = Some (from_unix (unix now + 60)) \<and> cd_BackoffLevel c = 1)"
proof (cases "state_of a m d")
  case None
  then show ?thesis
    by (simp add: AdvanceRateLimit_ok [OF assms(1,2)] Let_def cooldown_of_row_def timePtr_def)
next
  case (Some r)
  with assms(3) row_get_SomeD [OF Some] have "0 \<le> st_backoff_level r"
    by (auto simp: cooldown_inv_def list_all_iff state_ok_def)
  with Some l show ?thesis
    by (simp add: AdvanceRateLimit_ok [OF assms(1,2)] Let_def cooldown_of_row_def timePtr_def
        advance_state_def rate_limit_delay_power)
qed

text \<open>Handling a failure of one account leaves every other account alone: its row and
  its cooldown states stay as they are, also under driver faults.\<close>

theorem failure_handling_isolated:
  assumes "b \<noteq> a" "cooldown_Apply r a model c now d = (res, d')"
  shows "account_view b d' = account_view b d"
  using keepsD' [OF cooldown_Apply_frame [OF assms(1)] assms(2)] by (simp add: same_def)

text \<open>The cooldown tables stay sound under every operation of the repository and of the
  manager, whatever the driver faults: one state per account and model, each with its account,
  ladder positions between zero and six.\<close>

theorem cooldown_operations_keep_invariant:
  "keeps (stable cooldown_inv) (cooldown_Apply r a model c now) \<and>
   keeps (stable cooldown_inv) (cooldown_Success a model) \<and>
   keeps (stable cooldown_inv) (cooldown_Get a model now) \<and>
   keeps (stable cooldown_inv) (PromoteExpired now)"
  using cooldown_Apply_inv cooldown_Ready_inv cooldown_Get_inv PromoteExpired_inv
  by (simp add: cooldown_Success_def)


section \<open>Runs of rate limits\<close>

text \<open>Rate limits and reads of one account and model, in the order they happen. A read may
  clear an expired cooldown, but keeps the ladder position.\<close>

datatype cooldown_event = RateLimited time | Looked time

fun run_cooldown :: "string \<Rightarrow> string \<Rightarrow> cooldown_event list \<Rightarrow> database \<Rightarrow> database" where
  "run_cooldown a m [] d = d"
| "run_cooldown a m (RateLimited t # es) d =
     run_cooldown a m es (snd (AdvanceRateLimit a m ClassRateLimit t d))"
| "run_cooldown a m (Looked t # es) d = run_cooldown a m es (snd (cooldown_Get a m t d))"

fun rate_limit_times :: "cooldown_event list \<Rightarrow> time list" where
  "rate_limit_times [] = []"
| "rate_limit_times (RateLimited t # es) = t # rate_limit_times es"
| "rate_limit_times (Looked t # es) = rate_limit_times es"

fun spaced :: "int \<Rightarrow> int list \<Rightarrow> bool" where
  "spaced W (a # b # ts) = (a + W \<le> b \<and> spaced W (b # ts))"
| "spaced W ts = True"

text \<open>After \<open>k\<close> limits, the last at second \<open>s\<close>.\<close>

definition on_ladder :: "nat \<Rightarrow> int \<Rightarrow> state_row option \<Rightarrow> bool" where
  "on_ladder k s r \<longleftrightarrow> (case r of None \<Rightarrow> k = 0
     | Some row \<Rightarrow> 0 < k \<and> st_backoff_level row = min (int k) 6 \<and> st_last_error_class row = Some ClassRateLimit \<and>
         (st_cooldown_until row = None \<or> st_cooldown_until row = Some (s + min (60 * 2 ^ (k - 1)) 1800)))"

lemma on_ladder_look: "on_ladder k s r \<Longrightarrow> on_ladder k s (map_option (\<lambda>r. if expired_state now r then promote_state r else r) r)"
  by (auto simp: on_ladder_def promote_state_def split: option.splits)

lemma ladder_delay: "0 < k \<Longrightarrow> rate_limit_delay (min (int k) 6) = min (60 * 2 ^ k) 1800"
proof (cases "k \<le> 6")
  case False
  then have "(2::int) ^ 6 \<le> 2 ^ k" by (intro power_increasing) auto
  with False show ?thesis by (simp add: rate_limit_delay_def)
qed (simp add: rate_limit_delay_power)

lemma on_ladder_limit:
  assumes "on_ladder k s r" "s + 1800 \<le> unix now \<or> k = 0"
    and fresh: "fresh = \<lparr>st_account_id = a, st_model = m, st_cooldown_until = Some (unix now + 60), st_backoff_level = 1,
       st_last_error_class = Some ClassRateLimit, st_last_error_at = Some (unix now)\<rparr>"
  shows "on_ladder (Suc k) (unix now) (Some (case r of None \<Rightarrow> fresh | Some q \<Rightarrow> advance_state ClassRateLimit now q))"
proof (cases r)
  case None
  with assms show ?thesis by (simp add: on_ladder_def)
next
  case (Some q)
  with assms have "\<not> cooling now q" by (auto simp: on_ladder_def cooling_def)
  with Some assms(1) ladder_delay [of k] show ?thesis
    by (auto simp: on_ladder_def advance_state_def)
qed

lemma cooldown_Get_ok:
  "db_faults d = [] \<Longrightarrow> snd (cooldown_Get a m now d) = d\<lparr>db_states :=
     row_update state_key (a, m) (\<lambda>r. if expired_state now r then promote_state r else r) (db_states d)\<rparr>"
  by (simp add: cooldown_Get_def monad_simps split: option.splits)

lemma run_cooldown_ladder:
  assumes "db_faults d = []" "has_account a d" "on_ladder k s (state_of a m d)"
    "k = 0 \<and> spaced 1800 (map unix (rate_limit_times es)) \<or> spaced 1800 (s # map unix (rate_limit_times es))"
  shows "on_ladder (k + length (rate_limit_times es)) (last (s # map unix (rate_limit_times es)))
     (state_of a m (run_cooldown a m es d))"
  using assms
proof (induction a m es d arbitrary: k s rule: run_cooldown.induct)
  case (2 a m t es d)
  let ?d = "snd (AdvanceRateLimit a m ClassRateLimit t d)"
  have st: "db_faults ?d = []" "has_account a ?d"
    using "2.prems"(1,2) by (simp_all add: AdvanceRateLimit_ok Let_def has_account_def)
  have gap: "s + 1800 \<le> unix t \<or> k = 0" using "2.prems"(4) by auto
  have "on_ladder (Suc k) (unix t) (state_of a m ?d)"
  proof -
    define fresh where "fresh = \<lparr>st_account_id = a, st_model = m, st_cooldown_until = Some (unix t + 60),
      st_backoff_level = 1, st_last_error_class = Some ClassRateLimit, st_last_error_at = Some (unix t)\<rparr>"
    have "state_key fresh = (a, m)" by (simp add: fresh_def state_key_def)
    then have "state_of a m ?d = Some (case state_of a m d of None \<Rightarrow> fresh | Some q \<Rightarrow> advance_state ClassRateLimit t q)"
      using "2.prems"(1,2)
      by (simp add: AdvanceRateLimit_ok Let_def fresh_def [symmetric] row_get_put split: option.splits)
    with on_ladder_limit [OF "2.prems"(3) gap fresh_def] show ?thesis by simp
  qed
  from "2.IH" [OF st this] "2.prems"(4) show ?case by auto
next
  case (3 a m t es d)
  let ?d = "snd (cooldown_Get a m t d)"
  have st: "db_faults ?d = []" "has_account a ?d"
    using "3.prems"(1,2) by (simp_all add: cooldown_Get_ok has_account_def)
  have "on_ladder k s (state_of a m ?d)"
    using on_ladder_look [OF "3.prems"(3)] by (simp add: cooldown_Get_ok "3.prems"(1) row_get_update)
  from "3.IH" [OF st this] "3.prems"(4) show ?case by simp
qed simp

text \<open>Over a whole run of rate limits at least 1800 seconds apart, with any reads between
  them, the \<open>n\<close>-th limit puts the account at ladder position \<open>min n 6\<close> and a cooldown that is
  still stored ends \<open>min (60 * 2^(n-1)) 1800\<close> seconds after the last limit.\<close>

theorem rate_limit_run:
  assumes "db_faults d = []" "has_account a d" "state_of a m d = None"
    and "spaced 1800 (map unix (rate_limit_times es))" "n = length (rate_limit_times es)" "0 < n"
  shows "\<exists>row. state_of a m (run_cooldown a m es d) = Some row \<and> st_backoff_level row = min (int n) 6 \<and>
    (st_cooldown_until row = None \<or>
     st_cooldown_until row = Some (unix (last (rate_limit_times es)) + min (60 * 2 ^ (n - 1)) 1800))"
proof -
  have "on_ladder 0 0 (state_of a m d)" using assms(3) by (simp add: on_ladder_def)
  from run_cooldown_ladder [OF assms(1,2) this, of es] assms(4-6)
  have "on_ladder n (last (0 # map unix (rate_limit_times es))) (state_of a m (run_cooldown a m es d))" by simp
  moreover have "last (0 # map unix (rate_limit_times es)) = unix (last (rate_limit_times es))"
    using assms(5,6) by (cases "rate_limit_times es") (auto simp: last_map)
  ultimately show ?thesis using assms(6) by (auto simp: on_ladder_def split: option.splits)
qed


section \<open>Witnesses\<close>

definition one_account :: database where
  "one_account = empty_database\<lparr>db_accounts := [devin_account_row]\<rparr>"

definition cooling_account :: database where
  "cooling_account = one_account\<lparr>db_states :=
     [\<lparr>st_account_id = ''acct_1'', st_model = ''m'', st_cooldown_until = Some 100, st_backoff_level = 2,
       st_last_error_class = Some ClassRateLimit, st_last_error_at = Some 40\<rparr>]\<rparr>"

theorem cooldown_read_not_expired_witness:
  "\<exists>c. fst (cooldown_Get ''acct_1'' ''m'' (from_unix 99) cooling_account) = Inr c \<and> cd_Until c = Some (from_unix 100) \<and>
     from_unix 99 < from_unix 100"
proof -
  let ?g = "cooldown_Get ''acct_1'' ''m'' (from_unix 99) cooling_account"
  have g: "fst ?g = Inr \<lparr>cd_AccountID = ''acct_1'', cd_Model = ''m'', cd_LastErrorClass = ClassRateLimit,
     cd_Until = Some (from_unix 100), cd_BackoffLevel = 2, cd_LastErrorAt = Some (from_unix 40)\<rparr>" by code_simp
  then have "?g = (Inr \<lparr>cd_AccountID = ''acct_1'', cd_Model = ''m'', cd_LastErrorClass = ClassRateLimit,
     cd_Until = Some (from_unix 100), cd_BackoffLevel = 2, cd_LastErrorAt = Some (from_unix 40)\<rparr>, snd ?g)"
    by (metis prod.collapse)
  from cooldown_read_not_expired [OF this] have "from_unix 99 < from_unix 100" by simp
  with g show ?thesis by simp
qed

theorem rate_limit_ladder_witness:
  "\<exists>c d'. AdvanceRateLimit ''acct_1'' ''m'' ClassRateLimit (from_unix 200) cooling_account = (Inr c, d') \<and>
     cd_Until c = Some (from_unix 440) \<and> cd_BackoffLevel c = 3"
proof -
  have "db_faults cooling_account = []" "has_account ''acct_1'' cooling_account"
    "cooldown_inv cooling_account" by code_simp+
  moreover have "state_of ''acct_1'' ''m'' cooling_account =
      Some \<lparr>st_account_id = ''acct_1'', st_model = ''m'', st_cooldown_until = Some 100, st_backoff_level = 2,
       st_last_error_class = Some ClassRateLimit, st_last_error_at = Some 40\<rparr>" by code_simp
  ultimately show ?thesis
    using rate_limit_ladder [of cooling_account "''acct_1''" 2 "''m''" ClassRateLimit "from_unix 200"]
    by (auto simp: cooling_def)
qed

definition sample_relogin :: error_classification where
  "sample_relogin = empty_classification\<lparr>ec_ReloginRequired := True\<rparr>"

theorem failure_handling_isolated_witness:
  "account_view ''acct_1'' (snd (cooldown_Apply sample_accounts ''acct_2'' ''m'' sample_relogin 0 cooling_account))
   = account_view ''acct_1'' cooling_account"
  using failure_handling_isolated [of "''acct_1''" "''acct_2''", OF _ prod.collapse [symmetric]] by simp

theorem rate_limit_run_witness:
  "\<exists>row. state_of ''acct_1'' ''m'' (run_cooldown ''acct_1'' ''m''
     [RateLimited 0, Looked (30 * second), RateLimited (3000 * second), Looked (3300 * second), RateLimited (6000 * second)]
     one_account) = Some row \<and> st_backoff_level row = 3 \<and>
     (st_cooldown_until row = None \<or> st_cooldown_until row = Some 6240)"
proof -
  let ?es = "[RateLimited 0, Looked (30 * second), RateLimited (3000 * second), Looked (3300 * second), RateLimited (6000 * second)]"
  have "db_faults one_account = []" "has_account ''acct_1'' one_account" "state_of ''acct_1'' ''m'' one_account = None"
    "spaced 1800 (map unix (rate_limit_times ?es))" "3 = length (rate_limit_times ?es)" "(0::nat) < 3"
    "unix (last (rate_limit_times ?es)) + min (60 * 2 ^ (3 - 1)) 1800 = 6240"
    by code_simp+
  from rate_limit_run [OF this(1-6)] this(7) show ?thesis by simp
qed

end
