(* ===== verification/Store_Models.thy ===== *)
theory Store_Models
  imports Store_Cooldowns
begin

text \<open>
  Two tables that hang off an account: the discovered model capabilities
  (\<open>internal/store/model_capabilities.go\<close>) and the local usage counters
  (\<open>internal/store/local_usage.go\<close>). The JSON text of the reasoning efforts is written and
  read by the codec parameters \<open>enc\<close> and \<open>dec\<close> (\<open>encoding/json\<close> on \<open>[]string\<close>); decoding errors
  are ignored, as in the code, and leave the list empty.

  Shown: a replacement is read back exactly and is atomic; counters add up and never go down;
  both keep the account invariants.
\<close>


section \<open>Model capabilities\<close>

record model_capability =
  mv_AccountID :: string
  mv_Model :: string
  mv_DisplayName :: string
  mv_Supported :: bool
  mv_SupportsBackendSearch :: "bool option"
  mv_ContextWindow :: int
  mv_MaxOutputTokens :: int
  mv_ReasoningEfforts :: "string list"
  mv_DiscoveredAt :: time
  mv_Stale :: bool

definition capability_row_of :: "(string list \<Rightarrow> string) \<Rightarrow> string \<Rightarrow> model_capability \<Rightarrow> capability_row" where
  "capability_row_of enc a v =
     \<lparr>mc_account_id = a, mc_model = mv_Model v, mc_supported = mv_Supported v,
      mc_search = mv_SupportsBackendSearch v, mc_display_name = nullString (mv_DisplayName v),
      mc_context_window = mv_ContextWindow v, mc_max_output_tokens = mv_MaxOutputTokens v,
      mc_efforts = enc (mv_ReasoningEfforts v), mc_discovered_at = unix (mv_DiscoveredAt v),
      mc_stale = mv_Stale v\<rparr>"

definition capability_of_row :: "(string \<Rightarrow> string list) \<Rightarrow> capability_row \<Rightarrow> model_capability" where
  "capability_of_row dec r =
     \<lparr>mv_AccountID = mc_account_id r, mv_Model = mc_model r, mv_DisplayName = coalesce (mc_display_name r),
      mv_Supported = mc_supported r, mv_SupportsBackendSearch = mc_search r,
      mv_ContextWindow = mc_context_window r, mv_MaxOutputTokens = mc_max_output_tokens r,
      mv_ReasoningEfforts = dec (mc_efforts r), mv_DiscoveredAt = from_unix (mc_discovered_at r),
      mv_Stale = mc_stale r\<rparr>"

definition capability_key :: "capability_row \<Rightarrow> string \<times> string" where
  "capability_key r = (mc_account_id r, mc_model r)"

definition insert_capability :: "capability_row \<Rightarrow> unit dbop" where
  "insert_capability row =
     db_exec_checked ''constraint failed''
       (\<lambda>d. has_account (mc_account_id row) d \<and> row_get capability_key (capability_key row) (db_capabilities d) = None)
       (\<lambda>d. ((), d\<lparr>db_capabilities := db_capabilities d @ [row]\<rparr>))"

fun insert_capabilities :: "capability_row list \<Rightarrow> unit dbop" where
  "insert_capabilities [] = ret ()"
| "insert_capabilities (row # rows) = andThen (insert_capability row) (\<lambda>_. insert_capabilities rows)"

definition capability_Replace :: "(string list \<Rightarrow> string) \<Rightarrow> string \<Rightarrow> model_capability list \<Rightarrow> unit dbop" where
  "capability_Replace enc a values =
     db_tx (andThen (db_exec (\<lambda>d. ((), d\<lparr>db_capabilities := filter (\<lambda>r. mc_account_id r \<noteq> a) (db_capabilities d)\<rparr>)))
       (\<lambda>_. insert_capabilities (map (capability_row_of enc a) values)))"

definition capability_MarkStale :: "string \<Rightarrow> unit dbop" where
  "capability_MarkStale a =
     db_exec (\<lambda>d. ((), d\<lparr>db_capabilities :=
       map (\<lambda>r. if mc_account_id r = a then r\<lparr>mc_stale := True\<rparr> else r) (db_capabilities d)\<rparr>))"

definition capability_List :: "(string \<Rightarrow> string list) \<Rightarrow> string \<Rightarrow> model_capability list dbop" where
  "capability_List dec a =
     andThen (db_query (\<lambda>d. sort_key mc_model (filter (\<lambda>r. mc_account_id r = a) (db_capabilities d))))
       (\<lambda>rows. ret (map (capability_of_row dec) rows))"


section \<open>Local usage counters\<close>

record local_usage_counters =
  lc_Requests :: int
  lc_Failures :: int
  lc_InputTokens :: int
  lc_OutputTokens :: int
  lc_CacheReadTokens :: int

definition no_counters :: local_usage_counters where
  "no_counters = \<lparr>lc_Requests = 0, lc_Failures = 0, lc_InputTokens = 0, lc_OutputTokens = 0, lc_CacheReadTokens = 0\<rparr>"

definition negative_delta :: "local_usage_counters \<Rightarrow> bool" where
  "negative_delta v \<longleftrightarrow> lc_Requests v < 0 \<or> lc_Failures v < 0 \<or> lc_InputTokens v < 0 \<or>
     lc_OutputTokens v < 0 \<or> lc_CacheReadTokens v < 0"

definition usage_row_of :: "string \<Rightarrow> local_usage_counters \<Rightarrow> int \<Rightarrow> usage_row" where
  "usage_row_of a v now =
     \<lparr>lu_account_id = a, lu_requests = lc_Requests v, lu_failures = lc_Failures v,
      lu_input_tokens = lc_InputTokens v, lu_output_tokens = lc_OutputTokens v,
      lu_cache_read_tokens = lc_CacheReadTokens v, lu_updated_at = now\<rparr>"

definition add_usage_row :: "usage_row \<Rightarrow> usage_row \<Rightarrow> usage_row" where
  "add_usage_row excluded r =
     r\<lparr>lu_requests := lu_requests r + lu_requests excluded, lu_failures := lu_failures r + lu_failures excluded,
       lu_input_tokens := lu_input_tokens r + lu_input_tokens excluded,
       lu_output_tokens := lu_output_tokens r + lu_output_tokens excluded,
       lu_cache_read_tokens := lu_cache_read_tokens r + lu_cache_read_tokens excluded,
       lu_updated_at := lu_updated_at excluded\<rparr>"

text \<open>SQLite integers are 64-bit, and an overflowing sum becomes a floating-point value;
  the counters stay far below that, and the model keeps the sums exact.\<close>

definition usage_Add :: "string \<Rightarrow> local_usage_counters \<Rightarrow> unit dbop" where
  "usage_Add a delta =
     reject (negative_delta delta) (ErrNew ''local usage deltas cannot be negative'')
     (db_exec_checked ''FOREIGN KEY constraint failed'' (has_account a)
        (\<lambda>d. let row = usage_row_of a delta (db_epoch d) in
             ((), d\<lparr>db_usage := row_put lu_account_id row (add_usage_row row) (db_usage d)\<rparr>)))"

definition counters_of_row :: "usage_row \<Rightarrow> local_usage_counters" where
  "counters_of_row r =
     \<lparr>lc_Requests = lu_requests r, lc_Failures = lu_failures r, lc_InputTokens = lu_input_tokens r,
      lc_OutputTokens = lu_output_tokens r, lc_CacheReadTokens = lu_cache_read_tokens r\<rparr>"

definition usage_Get :: "string \<Rightarrow> local_usage_counters dbop" where
  "usage_Get a =
     attempt (db_query_row (\<lambda>d. row_get lu_account_id a (db_usage d))) (\<lambda>r. case r of
       Inr row \<Rightarrow> ret (counters_of_row row)
     | Inl e \<Rightarrow> if errors_is e ErrNoRows then ret no_counters else raise e)"

definition add_counters :: "local_usage_counters \<Rightarrow> local_usage_counters \<Rightarrow> local_usage_counters" where
  "add_counters v w =
     \<lparr>lc_Requests = lc_Requests v + lc_Requests w, lc_Failures = lc_Failures v + lc_Failures w,
      lc_InputTokens = lc_InputTokens v + lc_InputTokens w, lc_OutputTokens = lc_OutputTokens v + lc_OutputTokens w,
      lc_CacheReadTokens = lc_CacheReadTokens v + lc_CacheReadTokens w\<rparr>"

text \<open>The counters stored for an account: what \<open>Get\<close> abstracts to.\<close>

definition counters :: "string \<Rightarrow> database \<Rightarrow> local_usage_counters" where
  "counters a d = (case row_get lu_account_id a (db_usage d) of None \<Rightarrow> no_counters | Some r \<Rightarrow> counters_of_row r)"


section \<open>Lemmas\<close>

lemma capability_key_row_of [simp]: "capability_key (capability_row_of enc a v) = (a, mv_Model v)"
  by (simp add: capability_key_def capability_row_of_def)

lemma capability_roundtrip:
  assumes "dec (enc (mv_ReasoningEfforts v)) = mv_ReasoningEfforts v"
  shows "capability_of_row dec (capability_row_of enc a v) =
    v\<lparr>mv_AccountID := a, mv_DiscoveredAt := from_unix (unix (mv_DiscoveredAt v))\<rparr>"
  using assms by (simp add: capability_of_row_def capability_row_of_def)

lemma insert_capabilities_ok:
  assumes "db_faults d = []" "has_account a d" "distinct (map mv_Model vs)"
    "\<And>v r. v \<in> set vs \<Longrightarrow> r \<in> set (db_capabilities d) \<Longrightarrow> capability_key r \<noteq> (a, mv_Model v)"
  shows "insert_capabilities (map (capability_row_of enc a) vs) d =
    (Inr (), d\<lparr>db_capabilities := db_capabilities d @ map (capability_row_of enc a) vs\<rparr>)"
  using assms
proof (induction vs arbitrary: d)
  case (Cons v vs)
  let ?r = "capability_row_of enc a v"
  let ?d = "d\<lparr>db_capabilities := db_capabilities d @ [?r]\<rparr>"
  have "row_get capability_key (a, mv_Model v) (db_capabilities d) = None"
    using Cons.prems(4) [of v] unfolding row_get_None_iff by (metis imageE list.set_intros(1))
  moreover have "mc_account_id ?r = a" by (simp add: capability_row_of_def)
  ultimately have "insert_capability ?r d = (Inr (), ?d)"
    using Cons.prems(1,2) by (simp add: insert_capability_def monad_simps)
  moreover have "insert_capabilities (map (capability_row_of enc a) vs) ?d =
      (Inr (), ?d\<lparr>db_capabilities := db_capabilities ?d @ map (capability_row_of enc a) vs\<rparr>)"
    using Cons.prems by (intro Cons.IH) (auto simp: has_account_def)
  ultimately show ?case by (simp add: monad_simps)
qed (simp add: monad_simps)

lemma insort_key_map: "map f (sort_key (\<lambda>x. k (f x)) xs) = sort_key k (map f xs)"
proof (induction xs)
  case (Cons x xs)
  have "map f (insort_key (\<lambda>x. k (f x)) x ys) = insort_key k (f x) (map f ys)" for ys
    by (induction ys) auto
  with Cons show ?case by simp
qed simp


section \<open>Properties\<close>

text \<open>Replacing the capabilities of an account is read back exactly: with working
  storage, an existing account and distinct model names, the list read afterwards is the
  written one sorted by model (times cut to seconds), and other accounts keep theirs.\<close>

theorem capabilities_read_back:
  assumes "db_faults d = []" "has_account a d" "distinct (map mv_Model vs)"
    and codec: "\<And>xs. dec (enc xs) = xs"
  shows "\<exists>d'. capability_Replace enc a vs d = (Inr (), d') \<and>
    fst (capability_List dec a d') =
      Inr (map (\<lambda>v. v\<lparr>mv_AccountID := a, mv_DiscoveredAt := from_unix (unix (mv_DiscoveredAt v))\<rparr>) (sort_key mv_Model vs)) \<and>
    (\<forall>b. b \<noteq> a \<longrightarrow> fst (capability_List dec b d') = fst (capability_List dec b d))"
proof -
  let ?keep = "filter (\<lambda>r. mc_account_id r \<noteq> a) (db_capabilities d)"
  let ?rows = "map (capability_row_of enc a) vs"
  let ?d' = "d\<lparr>db_capabilities := ?keep @ ?rows\<rparr>"
  have "insert_capabilities ?rows (d\<lparr>db_capabilities := ?keep\<rparr>) =
      (Inr (), d\<lparr>db_capabilities := ?keep\<rparr>\<lparr>db_capabilities := db_capabilities (d\<lparr>db_capabilities := ?keep\<rparr>) @ ?rows\<rparr>)"
    using assms(1-3) by (intro insert_capabilities_ok) (auto simp: has_account_def capability_key_def)
  then have run: "capability_Replace enc a vs d = (Inr (), ?d')"
    using assms(1) by (simp add: capability_Replace_def db_tx_def monad_simps)
  have own: "filter (\<lambda>r. mc_account_id r = a) (?keep @ ?rows) = ?rows"
    by (auto simp: filter_empty_conv capability_row_of_def intro!: filter_True)
  have other: "filter (\<lambda>r. mc_account_id r = b) (?keep @ ?rows) = filter (\<lambda>r. mc_account_id r = b) (db_capabilities d)"
    if "b \<noteq> a" for b
    using that by (auto simp: filter_empty_conv capability_row_of_def intro!: filter_cong)
  have "sort_key mc_model ?rows = map (capability_row_of enc a) (sort_key mv_Model vs)"
    using insort_key_map [of "capability_row_of enc a" mc_model vs] by (simp add: capability_row_of_def)
  then have "fst (capability_List dec a ?d') =
      Inr (map (\<lambda>v. v\<lparr>mv_AccountID := a, mv_DiscoveredAt := from_unix (unix (mv_DiscoveredAt v))\<rparr>) (sort_key mv_Model vs))"
    using assms(1) own by (simp add: capability_List_def monad_simps capability_roundtrip codec comp_def del: filter_append)
  moreover have "\<forall>b. b \<noteq> a \<longrightarrow> fst (capability_List dec b ?d') = fst (capability_List dec b d)"
    using assms(1) other by (simp add: capability_List_def monad_simps del: filter_append)
  ultimately show ?thesis using run by blast
qed

text \<open>Usage accounting is exact. With working storage the counters of an existing account
  grow by exactly the recorded amounts, those of every other account stay, and \<open>Get\<close> returns
  them.\<close>

theorem usage_adds_up:
  assumes "db_faults d = []" "has_account a d" "\<not> negative_delta v"
  shows "\<exists>d'. usage_Add a v d = (Inr (), d') \<and>
    (\<forall>b. counters b d' = (if b = a then add_counters (counters a d) v else counters b d)) \<and>
    usage_Get a d' = (Inr (counters a d'), d')"
proof -
  let ?row = "usage_row_of a v (db_epoch d)"
  have id: "lu_account_id ?row = a" "lu_account_id (add_usage_row x q) = lu_account_id q" for x q
    by (simp_all add: usage_row_of_def add_usage_row_def)
  let ?d' = "d\<lparr>db_usage := row_put lu_account_id ?row (add_usage_row ?row) (db_usage d)\<rparr>"
  have "usage_Add a v d = (Inr (), ?d')"
    using assms by (simp add: usage_Add_def monad_simps Let_def)
  moreover have "counters b ?d' = (if b = a then add_counters (counters a d) v else counters b d)" for b
    by (auto simp: counters_def row_get_put id counters_of_row_def add_counters_def no_counters_def
        usage_row_of_def add_usage_row_def split: option.splits)
  moreover have "usage_Get a ?d' = (Inr (counters a ?d'), ?d')"
    using assms(1) by (simp add: usage_Get_def monad_simps counters_def split: option.splits)
  ultimately show ?thesis by blast
qed


section \<open>Witnesses\<close>

definition sample_capability :: "string \<Rightarrow> model_capability" where
  "sample_capability m = \<lparr>mv_AccountID = [], mv_Model = m, mv_DisplayName = ''Model'', mv_Supported = True,
     mv_SupportsBackendSearch = Some True, mv_ContextWindow = 1000, mv_MaxOutputTokens = 100,
     mv_ReasoningEfforts = [''low'', ''high''], mv_DiscoveredAt = from_unix 5, mv_Stale = False\<rparr>"

text \<open>A codec for string lists: every character is marked, every string ends with a dot.\<close>

definition sample_enc :: "string list \<Rightarrow> string" where
  "sample_enc xs = concat (map (\<lambda>x. concat (map (\<lambda>c. [CHR ''c'', c]) x) @ [CHR ''.'']) xs)"

fun sample_dec_from :: "string \<Rightarrow> string \<Rightarrow> string list" where
  "sample_dec_from acc [] = []"
| "sample_dec_from acc [c] = (if c = CHR ''.'' then [rev acc] else [])"
| "sample_dec_from acc (t # c # rest) =
     (if t = CHR ''.'' then rev acc # sample_dec_from [] (c # rest) else sample_dec_from (c # acc) rest)"

lemma sample_dec_chars:
  "sample_dec_from acc (concat (map (\<lambda>c. [CHR ''c'', c]) x) @ CHR ''.'' # rest) =
   (rev acc @ x) # sample_dec_from [] rest"
proof (induction x arbitrary: acc)
  case Nil
  show ?case by (cases rest) simp_all
qed simp

lemma sample_codec: "sample_dec_from [] (sample_enc xs) = xs"
  by (induction xs) (simp_all add: sample_enc_def sample_dec_chars)

theorem capabilities_read_back_witness:
  "\<exists>d'. capability_Replace sample_enc ''acct_1'' [sample_capability ''b'', sample_capability ''a''] one_account = (Inr (), d') \<and>
     fst (capability_List (sample_dec_from []) ''acct_1'' d') =
       Inr [(sample_capability ''a'')\<lparr>mv_AccountID := ''acct_1''\<rparr>, (sample_capability ''b'')\<lparr>mv_AccountID := ''acct_1''\<rparr>]"
proof -
  have c: "db_faults one_account = []" "has_account ''acct_1'' one_account"
    "distinct (map mv_Model [sample_capability ''b'', sample_capability ''a''])" by code_simp+
  have "map (\<lambda>v. v\<lparr>mv_AccountID := ''acct_1'', mv_DiscoveredAt := from_unix (unix (mv_DiscoveredAt v))\<rparr>)
      (sort_key mv_Model [sample_capability ''b'', sample_capability ''a'']) =
      [(sample_capability ''a'')\<lparr>mv_AccountID := ''acct_1''\<rparr>, (sample_capability ''b'')\<lparr>mv_AccountID := ''acct_1''\<rparr>]"
    by code_simp
  with capabilities_read_back [OF c sample_codec] show ?thesis by auto
qed

definition sample_delta :: local_usage_counters where
  "sample_delta = \<lparr>lc_Requests = 1, lc_Failures = 0, lc_InputTokens = 7, lc_OutputTokens = 3, lc_CacheReadTokens = 2\<rparr>"

theorem usage_adds_up_witness:
  "\<exists>d'. usage_Add ''acct_1'' sample_delta one_account = (Inr (), d') \<and>
     usage_Get ''acct_1'' d' = (Inr sample_delta, d')"
proof -
  have "db_faults one_account = []" "has_account ''acct_1'' one_account" "\<not> negative_delta sample_delta"
    "add_counters (counters ''acct_1'' one_account) sample_delta = sample_delta" by code_simp+
  with usage_adds_up [of one_account "''acct_1''" sample_delta] show ?thesis by auto
qed

end
