(* ===== verification/Executor.thy ===== *)
theory Executor
  imports Provider_Catalog Scheduler Store_Models
begin

text \<open>
  The request executor (\<open>internal/routing/execute.go\<close> and \<open>Stream\<close> of \<open>stream.go\<close>): it
  resolves the model, prepares the canonical request, orders the accounts of the model's
  provider and tries them one after the other, recovering a rejected credential once per
  account, recording usage and cooldowns.

  The catalog, the registry, the stored accounts, capabilities and cooldown states, and the
  usage recorder are interfaces, as in the code; the provider's clients act on the environment:
  the database, the clock and the outside world. The executor's own state adds the scheduler's
  cursors and the trace of the calls that matter for its contract.
\<close>


section \<open>Environment, trace and interfaces\<close>

text \<open>\<open>time.Now()\<close> is the next reading of a clock.\<close>

record 'w env =
  env_db :: database
  env_clock :: "nat \<Rightarrow> time"
  env_tick :: nat
  env_world :: 'w

definition in_db :: "'a dbop \<Rightarrow> ('w env, go_error, 'a) op" where
  "in_db m e = (case m (env_db e) of (r, d) \<Rightarrow> (r, e\<lparr>env_db := d\<rparr>))"

definition time_Now :: "('w env, go_error, time) op" where
  "time_Now e = (Inr (env_clock e (env_tick e)), e\<lparr>env_tick := Suc (env_tick e)\<rparr>)"

datatype call =
    CCredential string
  | CGenerate kind string generation_request
  | CFirstEvent string
  | CClose string
  | CAuthFailed string upstream_error
  | CSuccess string string
  | CApply string string error_classification
  | CRecord string local_usage_counters

record 'w exec_state =
  xs_env :: "'w env"
  xs_cursors :: cursors
  xs_trace :: "call list"

definition in_env :: "('w env, go_error, 'a) op \<Rightarrow> ('w exec_state, go_error, 'a) op" where
  "in_env m s = (case m (xs_env s) of (r, e) \<Rightarrow> (r, s\<lparr>xs_env := e\<rparr>))"

definition traced :: "call \<Rightarrow> ('w env, go_error, 'a) op \<Rightarrow> ('w exec_state, go_error, 'a) op" where
  "traced c m s = in_env m (s\<lparr>xs_trace := xs_trace s @ [c]\<rparr>)"

record 'w routing_sources =
  src_accounts_List :: "('w env, go_error, account list) op"
  src_accounts_Get :: "string \<Rightarrow> ('w env, go_error, account) op"
  src_capabilities_List :: "string \<Rightarrow> ('w env, go_error, model_capability list) op"
  src_states_Get :: "string \<Rightarrow> string \<Rightarrow> time \<Rightarrow> ('w env, go_error, cooldown) op"

record ('w, 'h, 'r, 'l, 'd, 'u) executor =
  ex_catalog :: "(string \<Rightarrow> go_error + resolved_model) option"
  ex_registry :: "(kind \<Rightarrow> string \<Rightarrow> ('w env, 'h, 'r, 'l, 'd, 'u) capabilities option) option"
  ex_cooldowns :: account_repository
  ex_sources :: "'w routing_sources"
  ex_usage :: "(string \<Rightarrow> local_usage_counters \<Rightarrow> ('w env, go_error, unit) op) option"
  ex_decode :: "string \<Rightarrow> go_error + json \<times> string"
  ex_terminal :: "string \<Rightarrow> (string \<times> int \<times> int \<times> int) option"

text \<open>\<open>ex_decode\<close> is one \<open>Decode\<close> of a \<open>json.Decoder\<close> (a value and the rest of the input, or an
  error, \<open>io.EOF\<close> at the end); \<open>ex_terminal\<close> is \<open>json.Unmarshal\<close> into the event shape of
  \<open>terminalUsage\<close>: type, input, output and cached tokens, zero when absent.\<close>


section \<open>Usage of an event\<close>

definition usage_delta :: "int \<Rightarrow> int \<Rightarrow> int \<Rightarrow> local_usage_counters" where
  "usage_delta input output cached =
     \<lparr>lc_Requests = 1, lc_Failures = 0, lc_InputTokens = input, lc_OutputTokens = output, lc_CacheReadTokens = cached\<rparr>"

definition failure_delta :: local_usage_counters where
  "failure_delta = \<lparr>lc_Requests = 1, lc_Failures = 1, lc_InputTokens = 0, lc_OutputTokens = 0, lc_CacheReadTokens = 0\<rparr>"

definition terminalUsage ::
  "(string \<Rightarrow> (string \<times> int \<times> int \<times> int) option) \<Rightarrow> event \<Rightarrow> local_usage_counters option" where
  "terminalUsage unmarshal ev =
     (if ev_Usage ev \<noteq> empty_usage
      then Some (usage_delta (us_InputTokens (ev_Usage ev)) (us_OutputTokens (ev_Usage ev)) (us_CacheReadTokens (ev_Usage ev)))
      else case unmarshal (ev_Data ev) of
        None \<Rightarrow> None
      | Some (ty, input, output, cached) \<Rightarrow>
          if ty \<noteq> ''response.completed'' \<and> ty \<noteq> ''response.incomplete'' then None
          else Some (usage_delta input output cached))"

fun last_usage :: "(event \<Rightarrow> local_usage_counters option) \<Rightarrow> event list \<Rightarrow> local_usage_counters option" where
  "last_usage f [] = None"
| "last_usage f (ev # evs) = (case last_usage f evs of Some v \<Rightarrow> Some v | None \<Rightarrow> f ev)"

definition completedUsage ::
  "(string \<Rightarrow> (string \<times> int \<times> int \<times> int) option) \<Rightarrow> event list \<Rightarrow> local_usage_counters" where
  "completedUsage unmarshal evs =
     (case last_usage (terminalUsage unmarshal) evs of Some v \<Rightarrow> v | None \<Rightarrow> usage_delta 0 0 0)"

definition exec_record ::
  "('w, 'h, 'r, 'l, 'd, 'u) executor \<Rightarrow> string \<Rightarrow> local_usage_counters \<Rightarrow> ('w exec_state, go_error, unit) op" where
  "exec_record ex a delta =
     (case ex_usage ex of None \<Rightarrow> ret ()
      | Some f \<Rightarrow> attempt (traced (CRecord a delta) (f a delta)) (\<lambda>_. ret ()))"


section \<open>Classifying errors\<close>

definition classifyExecutionError :: "go_error \<Rightarrow> error_classification" where
  "classifyExecutionError err =
     (case as_upstream err of
        Some u \<Rightarrow> ue_Classification u
      | None \<Rightarrow>
          let base = empty_classification\<lparr>ec_Class := ClassUpstream, ec_PublicStatus := 502,
                       ec_PublicCode := ''provider_error'', ec_PublicMessage := ''upstream provider error''\<rparr>
          in if errors_is err ErrCanceled then
               base\<lparr>ec_Class := ClassCancelled, ec_PublicStatus := 499, ec_PublicCode := ''request_cancelled'',
                    ec_PublicMessage := ''request cancelled''\<rparr>
             else if is_net_error err then
               base\<lparr>ec_Class := ClassConnection, ec_RetryNext := True, ec_PublicStatus := 503,
                    ec_PublicCode := ''provider_unavailable''\<rparr>
             else base)"

definition typedErrorClassification :: "go_error \<Rightarrow> error_classification option" where
  "typedErrorClassification err = map_option ue_Classification (as_upstream err)"

text \<open>The credential to retry with, if recovery succeeded, and the classification that
  replaces the original one.\<close>

definition recoverAuthentication ::
  "'w env credential_manager \<Rightarrow> string \<Rightarrow> go_error \<Rightarrow> error_classification \<Rightarrow>
   ('w exec_state, go_error, credential option \<times> error_classification) op" where
  "recoverAuthentication creds a cause original =
     (case as_upstream cause of
        None \<Rightarrow> ret (None, original)
      | Some u \<Rightarrow>
          attempt (traced (CAuthFailed a u) (cm_AuthenticationFailed creds a u)) (\<lambda>r. case r of
            Inl e \<Rightarrow> ret (None, case typedErrorClassification e of Some c \<Rightarrow> c | None \<Rightarrow> original)
          | Inr _ \<Rightarrow>
              attempt (traced (CCredential a) (cm_Credential creds a)) (\<lambda>r. case r of
                Inl e \<Rightarrow> ret (None, case typedErrorClassification e of Some c \<Rightarrow> c | None \<Rightarrow> original)
              | Inr credential \<Rightarrow> ret (Some credential, original))))"


section \<open>Preparing a request\<close>

record exec_request =
  rq_Model :: string
  rq_Body :: string
  rq_PreferredAccountID :: string

record exec_result =
  re_Model :: string
  re_AccountID :: string
  re_Events :: "event list"

record ('w, 'h) execution_plan =
  pl_model :: resolved_model
  pl_credentials :: "'w env credential_manager"
  pl_generation :: "('w env, 'h) generation_client"
  pl_canonical :: jobject

definition decodeCanonicalRequest :: "(string \<Rightarrow> go_error + json \<times> string) \<Rightarrow> string \<Rightarrow> go_error + jobject" where
  "decodeCanonicalRequest decode body =
     (case decode body of
        Inl e \<Rightarrow> Inl e
      | Inr (JNull, rest) \<Rightarrow> Inl (ErrNew ''canonical request must be a JSON object'')
      | Inr (JObj canonical, rest) \<Rightarrow>
          (case decode rest of
             Inr _ \<Rightarrow> Inl (ErrNew ''canonical request must contain one JSON value'')
           | Inl e \<Rightarrow> if errors_is e ErrEOF then Inr canonical else Inl e)
      | Inr (_, rest) \<Rightarrow> Inl (ErrNew ''json: cannot unmarshal into CanonicalRequest''))"

definition prepare ::
  "('w, 'h, 'r, 'l, 'd, 'u) executor \<Rightarrow> exec_request \<Rightarrow> go_error + ('w, 'h) execution_plan" where
  "prepare ex request =
     (case ex_catalog ex of None \<Rightarrow> Inl (ErrNew ''model catalog is required'') | Some resolve \<Rightarrow>
     (case resolve (rq_Model request) of
        Inl e \<Rightarrow> Inl (if errors_is e ErrUnknownModel then ErrModelUnavailable else e)
      | Inr m \<Rightarrow>
          if \<not> kind_Valid (rm_Provider m) \<or> rm_UpstreamName m = [] \<or> rm_PolicyKey m = []
          then Inl (ErrNew ''resolved model is incomplete'')
          else case ex_registry ex of None \<Rightarrow> Inl ErrModelUnavailable | Some registry \<Rightarrow>
            (case registry (rm_Provider m) (rm_PolicyKey m) of
               None \<Rightarrow> Inl ErrModelUnavailable
             | Some caps \<Rightarrow>
                 (case (cap_Policy caps, cap_Generation caps, cap_Credentials caps) of
                    (Some policy, Some generation, Some credentials) \<Rightarrow>
                      (case decodeCanonicalRequest (ex_decode ex) (rq_Body request) of
                         Inl e \<Rightarrow> Inl e
                       | Inr canonical \<Rightarrow>
                           (case policy m canonical of
                              Inl e \<Rightarrow> Inl e
                            | Inr canonical' \<Rightarrow>
                                Inr \<lparr>pl_model = m, pl_credentials = credentials, pl_generation = generation,
                                  pl_canonical = jset canonical' ''model'' (JStr (rm_UpstreamName m))\<rparr>))
                  | _ \<Rightarrow> Inl ErrModelUnavailable))))"


section \<open>Candidates\<close>

text \<open>The entries of \<open>candidate.Capabilities\<close>.\<close>

definition candidate_capabilities :: "kind \<Rightarrow> model_capability list \<Rightarrow> (string \<times> bool) list" where
  "candidate_capabilities kind caps =
     map (\<lambda>v. (mv_Model v, True))
       (filter (\<lambda>v. mv_Supported v \<and> \<not> (kind = XAI \<and> mv_SupportsBackendSearch v = Some False)) caps)"

fun candidate_cooldowns ::
  "'w routing_sources \<Rightarrow> string \<Rightarrow> time \<Rightarrow> string list \<Rightarrow> ('w exec_state, go_error, (string \<times> time) list) op" where
  "candidate_cooldowns src a now [] = ret []"
| "candidate_cooldowns src a now (scope # scopes) =
     attempt (in_env (src_states_Get src a scope now)) (\<lambda>r.
       if (case r of Inl e \<Rightarrow> \<not> errors_is e ErrNoRows | Inr _ \<Rightarrow> False) then raise (projl r)
       else andThen (candidate_cooldowns src a now scopes) (\<lambda>rest.
         ret (case r of Inl _ \<Rightarrow> rest
              | Inr st \<Rightarrow> (case cd_Until st of None \<Rightarrow> rest | Some u \<Rightarrow> (scope, u) # rest))))"

definition account_candidate ::
  "'w routing_sources \<Rightarrow> resolved_model \<Rightarrow> 'w env credential_manager \<Rightarrow> time \<Rightarrow> account \<Rightarrow>
   ('w exec_state, go_error, candidate) op" where
  "account_candidate src m creds now a =
     (let ready = (acc_Status a = ''ready'') in
      andThen (case cm_CredentialUsable creds of
                 Some usable \<Rightarrow> if ready then in_env (usable (acc_ID a)) else ret ready
               | None \<Rightarrow> ret ready) (\<lambda>valid.
      andThen (in_env (src_capabilities_List src (acc_ID a))) (\<lambda>caps.
      andThen (candidate_cooldowns src (acc_ID a) now [rm_UpstreamName m, ''*'']) (\<lambda>cds.
      ret \<lparr>cn_ID = acc_ID a, cn_Provider = acc_Provider a, cn_Enabled = acc_Enabled a, cn_Valid = valid,
           cn_Capabilities = candidate_capabilities (rm_Provider m) caps,
           cn_CapabilitiesKnown = (caps \<noteq> []), cn_CooldownUntil = cds\<rparr>))))"

fun build_candidates ::
  "'w routing_sources \<Rightarrow> resolved_model \<Rightarrow> 'w env credential_manager \<Rightarrow> time \<Rightarrow> account list \<Rightarrow>
   ('w exec_state, go_error, candidate list) op" where
  "build_candidates src m creds now [] = ret []"
| "build_candidates src m creds now (a # as) =
     (if acc_Provider a \<noteq> rm_Provider m then build_candidates src m creds now as
      else andThen (account_candidate src m creds now a) (\<lambda>c.
           andThen (build_candidates src m creds now as) (\<lambda>cs. ret (c # cs))))"

fun cooling_scan :: "string \<Rightarrow> time \<Rightarrow> time \<Rightarrow> candidate list \<Rightarrow> time option" where
  "cooling_scan model now earliest [] = Some earliest"
| "cooling_scan model now earliest (c # cs) =
     (let availableAt = (if time_after (until c ''*'') (until c model) then until c ''*'' else until c model) in
      if \<not> time_after availableAt now then None
      else cooling_scan model now
             (if time_is_zero earliest \<or> time_before availableAt earliest then availableAt else earliest) cs)"

definition allCoolingClassification ::
  "candidate list \<Rightarrow> kind \<Rightarrow> string \<Rightarrow> time \<Rightarrow> error_classification option" where
  "allCoolingClassification cands kind model now =
     (let usable = filter (\<lambda>c. cn_Provider c = kind \<and> cn_Enabled c \<and> cn_Valid c) cands;
          known = filter (\<lambda>c. cn_CapabilitiesKnown c \<and> capable c model) usable;
          unknown = filter (\<lambda>c. \<not> cn_CapabilitiesKnown c) usable;
          el = (if known = [] then unknown else known)
      in if el = [] then None
         else map_option (\<lambda>earliest. empty_classification\<lparr>ec_Class := ClassRateLimit, ec_ExplicitRetryAfter := True,
                ec_CooldownScope := CooldownModel, ec_Cooldown := time_sub earliest now, ec_RetryAfter := earliest,
                ec_PublicStatus := 429, ec_PublicCode := ''rate_limit_exceeded'',
                ec_PublicMessage := ''all available accounts are rate limited''\<rparr>)
              (cooling_scan model now zero_time el))"

definition order_accounts ::
  "kind \<Rightarrow> string \<Rightarrow> candidate list \<Rightarrow> string \<Rightarrow> time \<Rightarrow> ('w exec_state, go_error, candidate list) op" where
  "order_accounts kind model cands preferred now s =
     (case OrderForProvider kind model cands preferred now (xs_cursors s) of (r, cs) \<Rightarrow> (r, s\<lparr>xs_cursors := cs\<rparr>))"

definition candidates ::
  "('w, 'h, 'r, 'l, 'd, 'u) executor \<Rightarrow> resolved_model \<Rightarrow> 'w env credential_manager \<Rightarrow> string \<Rightarrow>
   ('w exec_state, go_error, candidate list) op" where
  "candidates ex m creds preferred =
     andThen (in_env (src_accounts_List (ex_sources ex))) (\<lambda>accounts.
     andThen (in_env time_Now) (\<lambda>now.
     andThen (build_candidates (ex_sources ex) m creds now accounts) (\<lambda>cands.
     attempt (order_accounts (rm_Provider m) (rm_UpstreamName m) cands preferred now) (\<lambda>r.
       case r of
         Inr ordered \<Rightarrow> ret ordered
       | Inl e \<Rightarrow>
           if errors_is e ErrNoAvailableAccounts then
             (case allCoolingClassification cands (rm_Provider m) (rm_UpstreamName m) now of
                Some c \<Rightarrow> raise (ExecutionE c) | None \<Rightarrow> raise e)
           else raise e))))"


section \<open>Trying the candidates\<close>

definition applyFailure ::
  "('w, 'h, 'r, 'l, 'd, 'u) executor \<Rightarrow> string \<Rightarrow> string \<Rightarrow> error_classification \<Rightarrow>
   ('w exec_state, go_error, error_classification) op" where
  "applyFailure ex a model c =
     andThen (traced (CApply a model c) (andThen time_Now (\<lambda>now. in_db (cooldown_Apply (ex_cooldowns ex) a model c now)))) (\<lambda>_.
     let scope = (if ec_CooldownScope c = CooldownAccount then ''*'' else model) in
     andThen (in_env time_Now) (\<lambda>now.
     attempt (in_env (src_states_Get (ex_sources ex) a scope now)) (\<lambda>r. case r of
       Inl e \<Rightarrow> if errors_is e ErrNoRows then ret c else raise e
     | Inr st \<Rightarrow> ret (case cd_Until st of
           Some u \<Rightarrow> if time_after u now then c\<lparr>ec_RetryAfter := u, ec_Cooldown := time_sub u now\<rparr> else c
         | None \<Rightarrow> c))))"

definition settle_failure ::
  "('w, 'h, 'r, 'l, 'd, 'u) executor \<Rightarrow> string \<Rightarrow> string \<Rightarrow> error_classification \<Rightarrow>
   ('w exec_state, go_error, error_classification) op" where
  "settle_failure ex a model c =
     andThen (exec_record ex a failure_delta) (\<lambda>_. applyFailure ex a model c)"

text \<open>
  One candidate: credential, generation, at most one recovery and second generation. The value
  is the generation's outcome, or the settled classification of the failure. \<open>gen\<close> is the
  provider call with its credential, and \<open>finish\<close> what is done with its outcome: \<open>Execute\<close> and
  \<open>Stream\<close> share everything else.
\<close>

definition give_up ::
  "('w, 'h, 'r, 'l, 'd, 'u) executor \<Rightarrow> ('w, 'h) execution_plan \<Rightarrow> string \<Rightarrow> error_classification \<Rightarrow>
   ('w exec_state, go_error, error_classification + 'a) op" where
  "give_up ex plan a c = andThen (settle_failure ex a (rm_UpstreamName (pl_model plan)) c) (\<lambda>c'. ret (Inl c'))"

definition deliver ::
  "('g \<Rightarrow> ('w exec_state, go_error, 'a) op) \<Rightarrow> 'g \<Rightarrow> ('w exec_state, go_error, error_classification + 'a) op" where
  "deliver finish g = andThen (finish g) (\<lambda>x. ret (Inr x))"

definition retry_generation ::
  "('w, 'h, 'r, 'l, 'd, 'u) executor \<Rightarrow> ('w, 'h) execution_plan \<Rightarrow> string \<Rightarrow>
   (credential \<Rightarrow> ('w exec_state, go_error, 'g) op) \<Rightarrow> ('g \<Rightarrow> ('w exec_state, go_error, 'a) op) \<Rightarrow> credential \<Rightarrow>
   ('w exec_state, go_error, error_classification + 'a) op" where
  "retry_generation ex plan a gen finish credential =
     attempt (gen credential) (\<lambda>r. case r of
       Inr g \<Rightarrow> deliver finish g
     | Inl e \<Rightarrow> give_up ex plan a (classifyExecutionError e))"

definition recover_and_retry ::
  "('w, 'h, 'r, 'l, 'd, 'u) executor \<Rightarrow> ('w, 'h) execution_plan \<Rightarrow> string \<Rightarrow>
   (credential \<Rightarrow> ('w exec_state, go_error, 'g) op) \<Rightarrow> ('g \<Rightarrow> ('w exec_state, go_error, 'a) op) \<Rightarrow>
   go_error \<Rightarrow> error_classification \<Rightarrow> ('w exec_state, go_error, error_classification + 'a) op" where
  "recover_and_retry ex plan a gen finish e c =
     andThen (recoverAuthentication (pl_credentials plan) a e c) (\<lambda>p.
       case fst p of
         None \<Rightarrow> give_up ex plan a (snd p)
       | Some credential \<Rightarrow> retry_generation ex plan a gen finish credential)"

definition after_generation ::
  "('w, 'h, 'r, 'l, 'd, 'u) executor \<Rightarrow> ('w, 'h) execution_plan \<Rightarrow> string \<Rightarrow>
   (credential \<Rightarrow> ('w exec_state, go_error, 'g) op) \<Rightarrow> ('g \<Rightarrow> ('w exec_state, go_error, 'a) op) \<Rightarrow>
   go_error + 'g \<Rightarrow> ('w exec_state, go_error, error_classification + 'a) op" where
  "after_generation ex plan a gen finish r =
     (case r of
        Inr g \<Rightarrow> deliver finish g
      | Inl e \<Rightarrow>
          let c = classifyExecutionError e in
          if ec_RefreshSame c then recover_and_retry ex plan a gen finish e c
          else give_up ex plan a c)"

definition try_account ::
  "('w, 'h, 'r, 'l, 'd, 'u) executor \<Rightarrow> ('w, 'h) execution_plan \<Rightarrow> account \<Rightarrow>
   (credential \<Rightarrow> ('w exec_state, go_error, 'g) op) \<Rightarrow> ('g \<Rightarrow> ('w exec_state, go_error, 'a) op) \<Rightarrow>
   ('w exec_state, go_error, error_classification + 'a) op" where
  "try_account ex plan account gen finish =
     (let a = acc_ID account in
      attempt (traced (CCredential a) (cm_Credential (pl_credentials plan) a)) (\<lambda>r. case r of
        Inl e \<Rightarrow> give_up ex plan a (classifyExecutionError e)
      | Inr credential \<Rightarrow> attempt (gen credential) (after_generation ex plan a gen finish)))"

lemmas try_account_defs = try_account_def after_generation_def recover_and_retry_def retry_generation_def
  deliver_def give_up_def

fun try_candidates ::
  "('w, 'h, 'r, 'l, 'd, 'u) executor \<Rightarrow> ('w, 'h) execution_plan \<Rightarrow>
   (account \<Rightarrow> credential \<Rightarrow> ('w exec_state, go_error, 'g) op) \<Rightarrow>
   (account \<Rightarrow> 'g \<Rightarrow> ('w exec_state, go_error, 'a) op) \<Rightarrow> go_error option \<Rightarrow> candidate list \<Rightarrow>
   ('w exec_state, go_error, 'a) op" where
  "try_candidates ex plan gen finish lastErr [] =
     (case lastErr of Some e \<Rightarrow> raise e | None \<Rightarrow> raise ErrNoAvailableAccounts)"
| "try_candidates ex plan gen finish lastErr (cand # cands) =
     andThen (in_env (src_accounts_Get (ex_sources ex) (cn_ID cand))) (\<lambda>account.
       if acc_Provider account \<noteq> rm_Provider (pl_model plan)
       then try_candidates ex plan gen finish lastErr cands
       else andThen (try_account ex plan account (gen account) (finish account)) (\<lambda>r. case r of
         Inr x \<Rightarrow> ret x
       | Inl c \<Rightarrow> if ec_RetryNext c then try_candidates ex plan gen finish (Some (ExecutionE c)) cands
                 else raise (ExecutionE c)))"

definition generation_request_of :: "('w, 'h) execution_plan \<Rightarrow> credential \<Rightarrow> generation_request" where
  "generation_request_of plan credential =
     \<lparr>gr_Model = pl_model plan, gr_Canonical = pl_canonical plan, gr_Credential = credential\<rparr>"

text \<open>\<open>prepare\<close> and \<open>candidates\<close>, the common beginning of \<open>Execute\<close> and \<open>Stream\<close>.\<close>

definition with_plan ::
  "('w, 'h, 'r, 'l, 'd, 'u) executor \<Rightarrow> exec_request \<Rightarrow>
   (('w, 'h) execution_plan \<Rightarrow> candidate list \<Rightarrow> ('w exec_state, go_error, 'a) op) \<Rightarrow>
   ('w exec_state, go_error, 'a) op" where
  "with_plan ex request body =
     andThen (lift_result (prepare ex request)) (\<lambda>plan.
     attempt (candidates ex (pl_model plan) (pl_credentials plan) (rq_PreferredAccountID request)) (\<lambda>r. case r of
       Inl e \<Rightarrow> raise (if errors_is e ErrNoAvailableAccounts then ErrModelUnavailable else e)
     | Inr ordered \<Rightarrow> body plan ordered))"

definition execute_generation ::
  "('w, 'h) execution_plan \<Rightarrow> account \<Rightarrow> credential \<Rightarrow> ('w exec_state, go_error, event list) op" where
  "execute_generation plan account credential =
     (let req = generation_request_of plan credential in
      traced (CGenerate (acc_Provider account) (acc_ID account) req) (gc_Execute (pl_generation plan) req))"

definition execute_finish ::
  "('w, 'h, 'r, 'l, 'd, 'u) executor \<Rightarrow> ('w, 'h) execution_plan \<Rightarrow> account \<Rightarrow> event list \<Rightarrow>
   ('w exec_state, go_error, exec_result) op" where
  "execute_finish ex plan account evs =
     (let a = acc_ID account; model = rm_UpstreamName (pl_model plan) in
      andThen (traced (CSuccess a model) (in_db (cooldown_Success a model))) (\<lambda>_.
      andThen (exec_record ex a (completedUsage (ex_terminal ex) evs)) (\<lambda>_.
      ret \<lparr>re_Model = model, re_AccountID = a, re_Events = evs\<rparr>)))"

definition exec_Execute ::
  "('w, 'h, 'r, 'l, 'd, 'u) executor \<Rightarrow> exec_request \<Rightarrow> ('w exec_state, go_error, exec_result) op" where
  "exec_Execute ex request =
     with_plan ex request (\<lambda>plan ordered.
       try_candidates ex plan (execute_generation plan) (execute_finish ex plan) None ordered)"


section \<open>What a run adds to the trace\<close>

text \<open>\<open>only P m\<close>: \<open>m\<close> only appends to the trace, and only calls that satisfy \<open>P\<close>.\<close>

definition appends :: "(call \<Rightarrow> bool) \<Rightarrow> 'w exec_state \<Rightarrow> 'w exec_state \<Rightarrow> bool" where
  "appends P s s' \<longleftrightarrow> (\<exists>ts. xs_trace s' = xs_trace s @ ts \<and> list_all P ts)"

abbreviation only :: "(call \<Rightarrow> bool) \<Rightarrow> ('w exec_state, go_error, 'a) op \<Rightarrow> bool" where
  "only P m \<equiv> keeps (appends P) m"

lemma appends_reflp [keeps_intros]: "reflp (appends P)"
  by (simp add: reflp_def appends_def)

lemma appends_transp [keeps_intros]: "transp (appends P)"
  unfolding transp_def appends_def by (metis append_assoc list_all_append)

lemma only_in_env [keeps_intros]: "only P (in_env m)"
  by (auto simp: keeps_def in_env_def appends_def split: prod.splits)

lemma only_traced [keeps_intros]: "P c \<Longrightarrow> only P (traced c m)"
  by (auto simp: keeps_def traced_def in_env_def appends_def split: prod.splits)

lemma only_order_accounts [keeps_intros]: "only P (order_accounts kind model cands preferred now)"
  by (auto simp: keeps_def order_accounts_def appends_def split: prod.splits)

lemma only_candidate_cooldowns [keeps_intros]: "only P (candidate_cooldowns src a now scopes)"
  by (induction scopes) (auto intro!: keeps_intros)

lemma only_account_candidate [keeps_intros]: "only P (account_candidate src m creds now a)"
  unfolding account_candidate_def Let_def by (intro keeps_intros)

lemma only_build_candidates [keeps_intros]: "only P (build_candidates src m creds now as)"
  by (induction as) (auto intro!: keeps_intros)

lemma only_candidates [keeps_intros]: "only P (candidates ex m creds preferred)"
  unfolding candidates_def by (intro keeps_intros)

lemma only_exec_record [keeps_intros]: "P (CRecord a v) \<Longrightarrow> only P (exec_record ex a v)"
  unfolding exec_record_def by (intro keeps_intros)

lemma only_applyFailure [keeps_intros]: "P (CApply a model c) \<Longrightarrow> only P (applyFailure ex a model c)"
  unfolding applyFailure_def Let_def by (intro keeps_intros)

lemma only_settle_failure [keeps_intros]:
  "P (CRecord a failure_delta) \<Longrightarrow> P (CApply a model c) \<Longrightarrow> only P (settle_failure ex a model c)"
  unfolding settle_failure_def by (intro keeps_intros)

lemma only_recoverAuthentication [keeps_intros]:
  "(\<And>u. P (CAuthFailed a u)) \<Longrightarrow> P (CCredential a) \<Longrightarrow> only P (recoverAuthentication creds a e c)"
  unfolding recoverAuthentication_def by (intro keeps_intros)

lemma only_try_account:
  assumes "\<And>u. P (CAuthFailed (acc_ID account) u)" "P (CCredential (acc_ID account))"
    "P (CRecord (acc_ID account) failure_delta)" "\<And>c. P (CApply (acc_ID account) (rm_UpstreamName (pl_model plan)) c)"
    "\<And>cr. only P (gen cr)" "\<And>g. only P (finish g)"
  shows "only P (try_account ex plan account gen finish)"
  unfolding try_account_defs Let_def by (intro keeps_intros assms)

text \<open>A law of the account source: it returns the account that was asked for.\<close>

locale routing_laws =
  fixes src :: "'w routing_sources"
  assumes get_id: "src_accounts_Get src i e = (Inr a, e') \<Longrightarrow> acc_ID a = i"
begin

text \<open>Every call of a run is about one of the candidates and an account of the plan's provider.\<close>

lemma only_try_candidates:
  assumes "ex_sources ex = src"
    and "\<And>account. acc_Provider account = rm_Provider (pl_model plan) \<Longrightarrow> acc_ID account \<in> cn_ID ` set cands \<Longrightarrow>
      only P (try_account ex plan account (gen account) (finish account))"
  shows "only P (try_candidates ex plan gen finish lastErr cands)"
  using assms(2)
proof (induction cands arbitrary: lastErr)
  case Nil
  then show ?case by (auto intro!: keeps_intros split: option.splits)
next
  case (Cons cand cands)
  have IH: "only P (try_candidates ex plan gen finish l cands)" for l
    by (rule Cons.IH) (use Cons.prems in auto)
  have rest: "only P (if acc_Provider account \<noteq> rm_Provider (pl_model plan)
       then try_candidates ex plan gen finish lastErr cands
       else andThen (try_account ex plan account (gen account) (finish account)) (\<lambda>r. case r of
         Inr x \<Rightarrow> ret x
       | Inl c \<Rightarrow> if ec_RetryNext c then try_candidates ex plan gen finish (Some (ExecutionE c)) cands
                 else raise (ExecutionE c)))" if "acc_ID account = cn_ID cand" for account
  proof (cases "acc_Provider account = rm_Provider (pl_model plan)")
    case True
    then have "only P (try_account ex plan account (gen account) (finish account))"
      using that by (intro Cons.prems) auto
    with True show ?thesis by simp (intro keeps_intros IH)
  qed (simp add: IH)
  show ?case
    unfolding keeps_def
  proof
    fix s :: "'w exec_state"
    obtain r e where g: "src_accounts_Get src (cn_ID cand) (xs_env s) = (r, e)" by fastforce
    show "appends P s (snd (try_candidates ex plan gen finish lastErr (cand # cands) s))"
    proof (cases r)
      case (Inl err)
      with g assms(1) show ?thesis by (simp add: monad_simps in_env_def appends_def)
    next
      case (Inr account)
      from keepsD [OF rest [OF get_id [OF g [unfolded Inr]]], of "s\<lparr>xs_env := e\<rparr>"] g Inr assms(1)
      show ?thesis by (simp add: andThen_run in_env_def appends_def)
    qed
  qed
qed

end

definition sql_sources :: "account_repository \<Rightarrow> (string \<Rightarrow> string list) \<Rightarrow> 'w routing_sources" where
  "sql_sources r dec =
     \<lparr>src_accounts_List = in_db (account_List r), src_accounts_Get = (\<lambda>i. in_db (account_Get r i)),
      src_capabilities_List = (\<lambda>a. in_db (capability_List dec a)),
      src_states_Get = (\<lambda>a m now. in_db (cooldown_Get a m now))\<rparr>"

lemma account_scan_id: "account_scan r row = Inr a \<Longrightarrow> acc_ID a = ar_id row"
  by (auto simp: account_scan_def split: sum.splits if_splits option.splits)

lemma account_Get_id:
  assumes "account_Get r i d = (Inr a, d')"
  shows "acc_ID a = i"
proof (cases d rule: db_query_row_cases [where f = "\<lambda>d. row_get ar_id i (db_accounts d)"])
  case (row x d1)
  with assms have "account_scan r x = Inr a" by (simp add: account_Get_def monad_simps)
  with row_get_SomeD [OF row(2)] account_scan_id show ?thesis by metis
qed (use assms in \<open>auto simp: account_Get_def monad_simps\<close>)

interpretation sql_src: routing_laws "sql_sources r dec"
  by unfold_locales (auto simp: sql_sources_def in_db_def account_Get_id split: prod.splits)


section \<open>Counting calls\<close>

text \<open>\<open>at_most c k m\<close>: \<open>m\<close> appends at most \<open>k\<close> calls that satisfy \<open>c\<close>.\<close>

definition calls :: "(call \<Rightarrow> bool) \<Rightarrow> 'w exec_state \<Rightarrow> nat" where
  "calls c s = length (filter c (xs_trace s))"

definition at_most :: "(call \<Rightarrow> bool) \<Rightarrow> nat \<Rightarrow> ('w exec_state, go_error, 'a) op \<Rightarrow> bool" where
  "at_most c k m \<longleftrightarrow> (\<forall>s. calls c (snd (m s)) \<le> calls c s + k)"

lemma at_mostD: "at_most c k m \<Longrightarrow> m s = (r, s') \<Longrightarrow> calls c s' \<le> calls c s + k"
  unfolding at_most_def by (metis snd_conv)

lemma at_most_mono: "at_most c k m \<Longrightarrow> k \<le> l \<Longrightarrow> at_most c l m"
  unfolding at_most_def by (meson add_left_mono le_trans)

lemma at_most_ret: "at_most c k (ret x)" and at_most_raise: "at_most c k (raise e)"
  by (simp_all add: at_most_def ret_def raise_def)

lemma at_most_in_env: "at_most c k (in_env m)"
  by (auto simp: at_most_def in_env_def calls_def split: prod.splits)

lemma at_most_traced: "at_most c (if c call then 1 else 0) (traced call m)"
  by (auto simp: at_most_def traced_def in_env_def calls_def split: prod.splits)

lemma at_most_andThen:
  assumes "at_most c k m" "\<And>x. at_most c l (f x)"
  shows "at_most c (k + l) (andThen m f)"
  unfolding at_most_def
proof
  fix s
  obtain r s1 where m: "m s = (r, s1)" by fastforce
  from at_mostD [OF assms(1) m] have "calls c s1 \<le> calls c s + k" .
  moreover have "calls c (snd (f x s1)) \<le> calls c s1 + l" for x
    using assms(2) by (simp add: at_most_def)
  ultimately have "calls c (snd (f x s1)) \<le> calls c s + (k + l)" "calls c s1 \<le> calls c s + (k + l)" for x
    by (metis add.assoc add_le_mono1 le_trans, simp)
  with m show "calls c (snd (andThen m f s)) \<le> calls c s + (k + l)"
    by (cases r) (simp_all add: andThen_run)
qed

lemma at_most_attempt:
  assumes "at_most c k m" "\<And>x. at_most c l (f x)"
  shows "at_most c (k + l) (attempt m f)"
  unfolding at_most_def
proof
  fix s
  obtain r s1 where m: "m s = (r, s1)" by fastforce
  have "calls c s1 \<le> calls c s + k" "calls c (snd (f r s1)) \<le> calls c s1 + l"
    using at_mostD [OF assms(1) m] assms(2) by (simp_all add: at_most_def)
  with m show "calls c (snd (attempt m f s)) \<le> calls c s + (k + l)" by (simp add: attempt_run)
qed

definition is_generate :: "call \<Rightarrow> bool" where
  "is_generate c \<longleftrightarrow> (\<exists>k a req. c = CGenerate k a req)"

lemma is_generate_simps [simp]:
  "is_generate (CGenerate k a req)" "\<not> is_generate (CCredential a)" "\<not> is_generate (CFirstEvent a)"
  "\<not> is_generate (CClose a)" "\<not> is_generate (CAuthFailed a u)" "\<not> is_generate (CSuccess a m)"
  "\<not> is_generate (CApply a m c)" "\<not> is_generate (CRecord a v)"
  by (simp_all add: is_generate_def)

lemma only_at_most: "only (\<lambda>call. \<not> c call) m \<Longrightarrow> at_most c 0 m"
proof -
  assume m: "only (\<lambda>call. \<not> c call) m"
  have "calls c (snd (m s)) \<le> calls c s" for s
  proof -
    from keepsD [OF m, of s] obtain ts where "xs_trace (snd (m s)) = xs_trace s @ ts" "list_all (\<lambda>call. \<not> c call) ts"
      by (auto simp: appends_def)
    then show ?thesis by (simp add: calls_def list_all_iff filter_empty_conv)
  qed
  then show ?thesis by (simp add: at_most_def)
qed

lemma at_most_cases:
  "(\<And>e. at_most c k (f e)) \<Longrightarrow> (\<And>x. at_most c k (g x)) \<Longrightarrow> at_most c k (case r of Inl e \<Rightarrow> f e | Inr x \<Rightarrow> g x)"
  "at_most c k f' \<Longrightarrow> (\<And>x. at_most c k (g x)) \<Longrightarrow> at_most c k (case q of None \<Rightarrow> f' | Some x \<Rightarrow> g x)"
  "at_most c k f' \<Longrightarrow> at_most c k g' \<Longrightarrow> at_most c k (if b then f' else g')"
  by (simp_all split: sum.splits option.splits)

text \<open>An account is asked to generate at most twice.\<close>

lemma at_most_try_account:
  assumes gen: "\<And>cr. at_most is_generate 1 (gen cr)" and finish: "\<And>g. at_most is_generate 0 (finish g)"
  shows "at_most is_generate 2 (try_account ex plan account gen finish)"
proof -
  have fail: "at_most is_generate k (give_up ex plan a c)" for k a c
    unfolding give_up_def by (rule at_most_mono [of _ 0], intro only_at_most keeps_intros) simp_all
  have del: "at_most is_generate k (deliver finish g)" for k g
    using at_most_andThen [OF finish at_most_ret, of 0] at_most_mono unfolding deliver_def by fastforce
  have retry: "at_most is_generate 1 (retry_generation ex plan a gen finish cr)" for a cr
    using at_most_attempt [OF gen at_most_cases(1) [OF fail del], where l = 0] by (simp add: retry_generation_def)
  have "at_most is_generate 0 (recoverAuthentication (pl_credentials plan) a e c)" for a e c
    by (intro only_at_most keeps_intros) simp_all
  from at_most_andThen [OF this at_most_cases(2) [OF fail retry]]
  have "at_most is_generate 1 (recover_and_retry ex plan a gen finish e c)" for a e c
    by (simp add: recover_and_retry_def)
  then have after: "at_most is_generate 1 (after_generation ex plan a gen finish r)" for a r
    unfolding after_generation_def Let_def by (intro at_most_cases fail del)
  have "at_most is_generate 2 (attempt (gen cr) (after_generation ex plan a gen finish))" for a cr
    using at_most_attempt [where f = "after_generation ex plan a gen finish", OF gen after] by (simp add: numeral_2_eq_2)
  note main = at_most_cases(1) [OF fail this]
  have "at_most is_generate 0 (traced (CCredential a) m)" for a m
    using at_most_traced [of is_generate "CCredential a" m] by simp
  from at_most_attempt [OF this main] show ?thesis
    unfolding try_account_def Let_def by (simp only: add_0)
qed

lemma at_most_try_candidates:
  assumes "\<And>account cr. at_most is_generate 1 (gen account cr)" "\<And>account g. at_most is_generate 0 (finish account g)"
  shows "at_most is_generate (2 * length cands) (try_candidates ex plan gen finish lastErr cands)"
proof (induction cands arbitrary: lastErr)
  case Nil
  then show ?case by (simp add: at_most_raise split: option.splits)
next
  case (Cons cand cands)
  have tried: "at_most is_generate 2 (try_account ex plan account (gen account) (finish account))" for account
    using at_most_try_account assms by blast
  have rest: "at_most is_generate (2 * length cands) (case r of
         Inr x \<Rightarrow> ret x
       | Inl c \<Rightarrow> if ec_RetryNext c then try_candidates ex plan gen finish (Some (ExecutionE c)) cands
                 else raise (ExecutionE c))" for r
    using Cons.IH by (cases r) (simp_all add: at_most_ret at_most_raise)
  have "at_most is_generate (2 + 2 * length cands) (if acc_Provider account \<noteq> rm_Provider (pl_model plan)
       then try_candidates ex plan gen finish lastErr cands
       else andThen (try_account ex plan account (gen account) (finish account)) (\<lambda>r. case r of
         Inr x \<Rightarrow> ret x
       | Inl c \<Rightarrow> if ec_RetryNext c then try_candidates ex plan gen finish (Some (ExecutionE c)) cands
                 else raise (ExecutionE c)))" for account
    using at_most_andThen [OF tried rest] at_most_mono [OF Cons.IH, of "2 + 2 * length cands"] by simp
  from at_most_andThen [OF at_most_in_env this, of 0] show ?case by simp
qed


section \<open>Failures and successes\<close>

definition is_failure_record :: "call \<Rightarrow> bool" where
  "is_failure_record c \<longleftrightarrow> (\<exists>a. c = CRecord a failure_delta)"

definition is_apply :: "call \<Rightarrow> bool" where
  "is_apply c \<longleftrightarrow> (\<exists>a m cl. c = CApply a m cl)"

lemma call_kind_simps [simp]:
  "is_apply (CApply a m c)" "\<not> is_failure_record (CApply a m c)" "is_failure_record (CRecord a failure_delta)"
  "\<not> is_apply (CRecord a v)" "\<not> is_apply (CCredential a)" "\<not> is_failure_record (CCredential a)"
  "\<not> is_apply (CGenerate k a req)" "\<not> is_failure_record (CGenerate k a req)"
  "\<not> is_apply (CAuthFailed a u)" "\<not> is_failure_record (CAuthFailed a u)"
  "\<not> is_apply (CSuccess a m)" "\<not> is_failure_record (CSuccess a m)"
  "\<not> is_apply (CFirstEvent a)" "\<not> is_failure_record (CFirstEvent a)"
  "\<not> is_apply (CClose a)" "\<not> is_failure_record (CClose a)"
  by (simp_all add: is_apply_def is_failure_record_def)

lemma completedUsage_not_failure: "\<not> is_failure_record (CRecord a (completedUsage unmarshal evs))"
proof -
  have "terminalUsage unmarshal ev = Some v \<Longrightarrow> lc_Failures v = 0" for ev v
    by (auto simp: terminalUsage_def usage_delta_def split: if_splits option.splits)
  then have "last_usage (terminalUsage unmarshal) evs = Some v \<Longrightarrow> lc_Failures v = 0" for v
    by (induction evs) (auto split: option.splits)
  then show ?thesis
    by (auto simp: is_failure_record_def completedUsage_def failure_delta_def usage_delta_def split: option.splits)
qed

text \<open>As many failure records as failures handed to the cooldown manager.\<close>

definition balanced :: "'w exec_state \<Rightarrow> 'w exec_state \<Rightarrow> bool" where
  "balanced s s' \<longleftrightarrow> calls is_failure_record s' + calls is_apply s = calls is_failure_record s + calls is_apply s'"

lemma balanced_reflp [keeps_intros]: "reflp balanced" and balanced_transp [keeps_intros]: "transp balanced"
  by (auto simp: reflp_def transp_def balanced_def)

lemma balanced_only: "only (\<lambda>c. \<not> is_apply c \<and> \<not> is_failure_record c) m \<Longrightarrow> keeps balanced m"
proof -
  assume m: "only (\<lambda>c. \<not> is_apply c \<and> \<not> is_failure_record c) m"
  have "balanced s (snd (m s))" for s
  proof -
    from keepsD [OF m, of s] obtain ts where "xs_trace (snd (m s)) = xs_trace s @ ts"
        "list_all (\<lambda>c. \<not> is_apply c \<and> \<not> is_failure_record c) ts"
      by (auto simp: appends_def)
    then show ?thesis by (simp add: balanced_def calls_def list_all_iff filter_empty_conv)
  qed
  then show ?thesis by (simp add: keeps_def)
qed

lemma balanced_settle [keeps_intros]:
  fixes ex :: "('w, 'h, 'r, 'l, 'd, 'u) executor"
  assumes "ex_usage ex = Some f"
  shows "keeps balanced (settle_failure ex a model c)"
  unfolding keeps_def
proof
  fix s :: "'w exec_state"
  obtain r e where f: "f a failure_delta (xs_env s) = (r, e)" by fastforce
  let ?s1 = "s\<lparr>xs_env := e, xs_trace := xs_trace s @ [CRecord a failure_delta]\<rparr>"
  have r1: "exec_record ex a failure_delta s = (Inr (), ?s1)"
    using assms f by (simp add: exec_record_def monad_simps traced_def in_env_def)
  obtain ts where ts: "xs_trace (snd (applyFailure ex a model c ?s1)) = xs_trace ?s1 @ CApply a model c # ts" "ts = []"
    by (simp add: applyFailure_def Let_def monad_simps traced_def in_env_def time_Now_def split: prod.splits sum.splits option.splits)
  then show "balanced s (snd (settle_failure ex a model c s))"
    using r1 by (simp add: settle_failure_def andThen_run balanced_def calls_def)
qed

lemma balanced_try_account:
  assumes "ex_usage ex = Some f" "\<And>cr. keeps balanced (gen cr)" "\<And>g. keeps balanced (finish g)"
  shows "keeps balanced (try_account ex plan account gen finish)"
proof -
  have "keeps balanced (traced (CCredential a) m)" for a m
    by (intro balanced_only keeps_intros) simp
  moreover have "keeps balanced (recoverAuthentication creds a e c)" for creds a e c
    by (intro balanced_only keeps_intros) simp_all
  ultimately show ?thesis
    unfolding try_account_defs Let_def
    by (intro keeps_attempt keeps_andThen keeps_case_sum keeps_case_option keeps_if keeps_ret balanced_reflp
        balanced_transp balanced_settle [OF assms(1)] assms(2,3))
qed

lemma balanced_try_candidates:
  assumes "\<And>account. keeps balanced (try_account ex plan account (gen account) (finish account))"
  shows "keeps balanced (try_candidates ex plan gen finish lastErr cands)"
proof (induction cands arbitrary: lastErr)
  case Nil
  then show ?case by (auto intro!: keeps_intros split: option.splits)
next
  case (Cons cand cands)
  have "keeps balanced (in_env m)" for m by (intro balanced_only keeps_intros)
  with Cons.IH assms show ?case by (auto intro!: keeps_intros)
qed

text \<open>A delivered result comes from a generation that returned it.\<close>

lemma try_account_delivers:
  assumes "try_account ex plan account gen finish s = (Inr (Inr x), s')"
  shows "\<exists>cr s1 g s2. gen cr s1 = (Inr g, s2) \<and> finish g s2 = (Inr x, s')"
proof -
  have fail: "give_up ex plan a c t \<noteq> (Inr (Inr x), t')" for a c t t'
    by (auto simp: give_up_def monad_simps split: prod.splits sum.splits)
  have del: "deliver finish g t = (Inr (Inr x), t') \<Longrightarrow> finish g t = (Inr x, t')" for g t t'
    by (auto simp: deliver_def monad_simps split: prod.splits sum.splits)
  let ?made = "\<lambda>t'. \<exists>cr s1 g s2. gen cr s1 = (Inr g, s2) \<and> finish g s2 = (Inr x, t')"
  have retry: "?made t'" if run: "retry_generation ex plan a gen finish cr t = (Inr (Inr x), t')" for a cr t t'
  proof -
    obtain q t1 where q: "gen cr t = (q, t1)" by fastforce
    with run fail obtain g where "q = Inr g" by (cases q) (auto simp: retry_generation_def attempt_run)
    moreover from this run q have "finish g t1 = (Inr x, t')"
      by (intro del) (simp add: retry_generation_def attempt_run)
    ultimately show ?thesis using q by blast
  qed
  have rec: "?made t'" if run: "recover_and_retry ex plan a gen finish e c t = (Inr (Inr x), t')" for a e c t t'
  proof -
    obtain q t1 where q: "recoverAuthentication (pl_credentials plan) a e c t = (q, t1)" by fastforce
    with run obtain p where p: "q = Inr p" by (cases q) (auto simp: recover_and_retry_def andThen_run)
    with run q fail obtain cr where "fst p = Some cr"
      by (cases "fst p") (auto simp: recover_and_retry_def andThen_run)
    with run q p show ?thesis by (intro retry) (auto simp: recover_and_retry_def andThen_run)
  qed
  have after: "(\<exists>g. r = Inr g \<and> finish g t = (Inr x, t')) \<or> ?made t'"
    if run: "after_generation ex plan a gen finish r t = (Inr (Inr x), t')" for a r t t'
  proof (cases r)
    case (Inr g)
    with run del show ?thesis by (simp add: after_generation_def)
  next
    case (Inl e)
    with run fail have "recover_and_retry ex plan a gen finish e (classifyExecutionError e) t = (Inr (Inr x), t')"
      by (auto simp: after_generation_def Let_def split: if_splits)
    with rec show ?thesis by blast
  qed
  show ?thesis
  proof (cases "traced (CCredential (acc_ID account)) (cm_Credential (pl_credentials plan) (acc_ID account)) s")
    case (Pair r s1)
    with assms fail obtain cr where r: "r = Inr cr"
      by (cases r) (auto simp: try_account_def Let_def attempt_run)
    obtain q s2 where q: "gen cr s1 = (q, s2)" by fastforce
    with assms Pair r have "after_generation ex plan (acc_ID account) gen finish q s2 = (Inr (Inr x), s')"
      by (simp add: try_account_def Let_def attempt_run)
    from after [OF this] q show ?thesis by blast
  qed
qed

lemma try_candidates_delivers:
  assumes "try_candidates ex plan gen finish lastErr cands s = (Inr x, s')"
  shows "\<exists>account cr s1 g s2. acc_Provider account = rm_Provider (pl_model plan) \<and>
    gen account cr s1 = (Inr g, s2) \<and> finish account g s2 = (Inr x, s')"
  using assms
proof (induction cands arbitrary: lastErr s)
  case Nil
  then show ?case by (auto simp: monad_simps split: option.splits)
next
  case (Cons cand cands)
  then obtain account e1 where g: "in_env (src_accounts_Get (ex_sources ex) (cn_ID cand)) s = (Inr account, e1)"
    by (auto simp: monad_simps split: prod.splits sum.splits)
  show ?case
  proof (cases "acc_Provider account = rm_Provider (pl_model plan)")
    case False
    with Cons g show ?thesis by (simp add: andThen_run)
  next
    case True
    obtain q s2 where t: "try_account ex plan account (gen account) (finish account) e1 = (q, s2)" by fastforce
    with Cons.prems g True obtain y where y: "q = Inr y" by (cases q) (auto simp: andThen_run)
    show ?thesis
    proof (cases y)
      case (Inr x')
      with Cons.prems g True t y have "x' = x" "s2 = s'" by (auto simp: andThen_run monad_simps)
      with t y Inr have "try_account ex plan account (gen account) (finish account) e1 = (Inr (Inr x), s')" by simp
      from try_account_delivers [OF this] True show ?thesis by blast
    next
      case (Inl c)
      with Cons.prems g True t y have "try_candidates ex plan gen finish (Some (ExecutionE c)) cands s2 = (Inr x, s')"
        by (cases "ec_RetryNext c") (auto simp: andThen_run monad_simps)
      with Cons.IH show ?thesis by blast
    qed
  qed
qed


section \<open>Candidates come from usable accounts\<close>

definition serves :: "resolved_model \<Rightarrow> account \<Rightarrow> bool" where
  "serves m a \<longleftrightarrow> acc_Provider a = rm_Provider m \<and> acc_Enabled a \<and> acc_Status a = ''ready''"

definition stands_for :: "resolved_model \<Rightarrow> candidate \<Rightarrow> account \<Rightarrow> bool" where
  "stands_for m c a \<longleftrightarrow> cn_ID c = acc_ID a \<and> acc_Provider a = rm_Provider m \<and> cn_Enabled c = acc_Enabled a \<and>
     (cn_Valid c \<longrightarrow> acc_Status a = ''ready'')"

lemma account_candidate_sound:
  "account_candidate src m creds now a s = (Inr c, s') \<Longrightarrow> acc_Provider a = rm_Provider m \<Longrightarrow> stands_for m c a"
  by (auto simp: account_candidate_def Let_def monad_simps stands_for_def
      split: prod.splits sum.splits option.splits if_splits)

lemma build_candidates_sound:
  "build_candidates src m creds now as s = (Inr cs, s') \<Longrightarrow> c \<in> set cs \<Longrightarrow> \<exists>a \<in> set as. stands_for m c a"
proof (induction as arbitrary: cs s s')
  case (Cons a as)
  show ?case
  proof (cases "acc_Provider a = rm_Provider m")
    case True
    obtain q s1 where q: "account_candidate src m creds now a s = (q, s1)" by fastforce
    with Cons.prems True obtain c0 where c0: "q = Inr c0" by (cases q) (auto simp: andThen_run)
    obtain q2 s2 where q2: "build_candidates src m creds now as s1 = (q2, s2)" by fastforce
    with Cons.prems True q c0 obtain cs0 where "q2 = Inr cs0" "cs = c0 # cs0"
      by (cases q2) (auto simp: andThen_run monad_simps)
    with Cons q2 q c0 account_candidate_sound True show ?thesis by fastforce
  qed (use Cons in auto)
qed (simp add: monad_simps)

lemma candidates_sound:
  assumes "candidates ex m creds preferred s = (Inr ordered, s')"
  shows "\<exists>accounts e. src_accounts_List (ex_sources ex) (xs_env s) = (Inr accounts, e) \<and>
    (\<forall>c \<in> set ordered. \<exists>a \<in> set accounts. acc_ID a = cn_ID c \<and> serves m a)"
proof -
  obtain q e where q: "src_accounts_List (ex_sources ex) (xs_env s) = (q, e)" by fastforce
  with assms obtain accounts where a: "q = Inr accounts"
    by (cases q) (auto simp: candidates_def andThen_run in_env_def)
  let ?s1 = "s\<lparr>xs_env := e\<lparr>env_tick := Suc (env_tick e)\<rparr>\<rparr>" and ?now = "env_clock e (env_tick e)"
  obtain q2 s2 where b: "build_candidates (ex_sources ex) m creds ?now accounts ?s1 = (q2, s2)" by fastforce
  with assms q a obtain cands where cands: "q2 = Inr cands"
    by (cases q2) (auto simp: candidates_def andThen_run in_env_def time_Now_def)
  obtain q3 s3 where o: "order_accounts (rm_Provider m) (rm_UpstreamName m) cands preferred ?now s2 = (q3, s3)" by fastforce
  with assms q a b cands have "q3 = Inr ordered"
    by (auto simp: candidates_def andThen_run attempt_run in_env_def time_Now_def monad_simps
        split: sum.splits if_splits option.splits)
  then obtain cs' where "order (rm_Provider m) (rm_UpstreamName m) cands preferred ?now (xs_cursors s2) = (Inr ordered, cs')"
    using o by (auto simp: order_accounts_def OrderForProvider_def split: prod.splits)
  then have "set ordered = set (eligible (rm_Provider m) (rm_UpstreamName m) cands ?now)"
    using order_Inr by (metis set_mset_mset)
  with eligible_sound build_candidates_sound [OF b [unfolded cands]]
  have "\<forall>c \<in> set ordered. \<exists>a \<in> set accounts. acc_ID a = cn_ID c \<and> serves m a"
    by (fastforce simp: available_def stands_for_def serves_def)
  with q a show ?thesis by blast
qed

lemma prepare_model:
  "prepare ex request = Inr plan \<Longrightarrow>
   jget (pl_canonical plan) ''model'' = Some (JStr (rm_UpstreamName (pl_model plan))) \<and> kind_Valid (rm_Provider (pl_model plan))"
  by (auto simp: prepare_def Let_def split: option.splits sum.splits if_splits)

lemma with_plan_cases:
  assumes "with_plan ex request body s = (r, s')"
  obtains (unplanned) "xs_trace s' = xs_trace s" "\<And>x. r \<noteq> Inr x"
  | (planned) plan ordered s1 where "prepare ex request = Inr plan"
      "candidates ex (pl_model plan) (pl_credentials plan) (rq_PreferredAccountID request) s = (Inr ordered, s1)"
      "xs_trace s1 = xs_trace s" "body plan ordered s1 = (r, s')"
proof (cases "prepare ex request")
  case (Inl e)
  with assms unplanned show ?thesis by (auto simp: with_plan_def monad_simps)
next
  case (Inr plan)
  obtain q s1 where q: "candidates ex (pl_model plan) (pl_credentials plan) (rq_PreferredAccountID request) s = (q, s1)"
    by fastforce
  have t: "xs_trace s1 = xs_trace s"
    using keepsD' [OF only_candidates [where P = "\<lambda>_. False"] q] by (auto simp: appends_def list_all_iff)
  with assms Inr q unplanned planned show ?thesis
    by (cases q) (auto simp: with_plan_def monad_simps)
qed


section \<open>Properties of Execute\<close>

text \<open>The request a provider may see for a plan.\<close>

definition faithful_call :: "('w, 'h) execution_plan \<Rightarrow> (string \<Rightarrow> bool) \<Rightarrow> call \<Rightarrow> bool" where
  "faithful_call plan allowed c \<longleftrightarrow>
     (case c of
        CGenerate k a req \<Rightarrow> k = rm_Provider (pl_model plan) \<and> allowed a \<and> gr_Model req = pl_model plan \<and>
          gr_Canonical req = pl_canonical plan \<and>
          jget (gr_Canonical req) ''model'' = Some (JStr (rm_UpstreamName (pl_model plan)))
      | CCredential a \<Rightarrow> allowed a | CFirstEvent a \<Rightarrow> allowed a | CClose a \<Rightarrow> allowed a
      | CAuthFailed a u \<Rightarrow> allowed a | CSuccess a m \<Rightarrow> allowed a \<and> m = rm_UpstreamName (pl_model plan)
      | CApply a m cl \<Rightarrow> allowed a \<and> m = rm_UpstreamName (pl_model plan) | CRecord a v \<Rightarrow> allowed a)"

lemma execute_generation_faithful:
  assumes "prepare ex request = Inr plan" "acc_Provider account = rm_Provider (pl_model plan)" "allowed (acc_ID account)"
  shows "only (faithful_call plan allowed) (execute_generation plan account cr)"
  unfolding execute_generation_def Let_def
  by (intro keeps_intros) (use assms prepare_model [OF assms(1)] in \<open>simp add: faithful_call_def generation_request_of_def\<close>)

lemma execute_finish_faithful:
  assumes "allowed (acc_ID account)"
  shows "only (faithful_call plan allowed) (execute_finish ex plan account evs)"
  unfolding execute_finish_def Let_def by (intro keeps_intros) (use assms in \<open>simp_all add: faithful_call_def\<close>)

text \<open>C2: Requests are confined. Every call of an execution, in whatever order accounts are
  tried and whatever they answer, concerns an account that was listed as enabled, ready and of
  the resolved model's provider; every generation request goes to that provider, carries the
  resolved model and the prepared request with its \<open>model\<close> field set to the upstream name.\<close>

theorem execute_confined:
  assumes "ex_sources ex = sql_sources repo dec" "exec_Execute ex request s = (r, s')"
  shows "\<exists>ts. xs_trace s' = xs_trace s @ ts \<and>
    (ts = [] \<or> (\<exists>plan accounts e. prepare ex request = Inr plan \<and>
       src_accounts_List (ex_sources ex) (xs_env s) = (Inr accounts, e) \<and>
       list_all (faithful_call plan (\<lambda>i. \<exists>a \<in> set accounts. acc_ID a = i \<and> serves (pl_model plan) a)) ts))"
proof (cases rule: with_plan_cases [OF assms(2) [unfolded exec_Execute_def]])
  case 1
  then show ?thesis by simp
next
  case (2 plan ordered s1)
  from candidates_sound [OF 2(2)] obtain accounts e where
    l: "src_accounts_List (ex_sources ex) (xs_env s) = (Inr accounts, e)"
    and c: "\<forall>c \<in> set ordered. \<exists>a \<in> set accounts. acc_ID a = cn_ID c \<and> serves (pl_model plan) a" by blast
  let ?ok = "\<lambda>i. \<exists>a \<in> set accounts. acc_ID a = i \<and> serves (pl_model plan) a"
  have "only (faithful_call plan ?ok) (try_account ex plan account (execute_generation plan account) (execute_finish ex plan account))"
    if "acc_Provider account = rm_Provider (pl_model plan)" "acc_ID account \<in> cn_ID ` set ordered" for account
  proof -
    have ok: "?ok (acc_ID account)" using that(2) c by auto
    show ?thesis
      by (intro only_try_account execute_generation_faithful [where allowed = ?ok, OF 2(1) that(1) ok]
          execute_finish_faithful [where allowed = ?ok, OF ok])
         (use ok in \<open>simp_all add: faithful_call_def\<close>)
  qed
  from keepsD' [OF sql_src.only_try_candidates [OF assms(1) this] 2(4)] obtain ts where
    "xs_trace s' = xs_trace s1 @ ts" "list_all (faithful_call plan ?ok) ts" by (auto simp: appends_def)
  with 2(1,3) l show ?thesis by auto
qed

text \<open>The work per request is bounded. An execution asks providers to generate at most
  twice per ordered candidate: once, and once more after a recovered credential.\<close>

theorem execute_generations_bounded:
  assumes "exec_Execute ex request s = (r, s')"
  shows "calls is_generate s' = calls is_generate s \<or>
    (\<exists>plan ordered s1. prepare ex request = Inr plan \<and>
       candidates ex (pl_model plan) (pl_credentials plan) (rq_PreferredAccountID request) s = (Inr ordered, s1) \<and>
       calls is_generate s' \<le> calls is_generate s + 2 * length ordered)"
proof (cases rule: with_plan_cases [OF assms [unfolded exec_Execute_def]])
  case 1
  then show ?thesis by (simp add: calls_def)
next
  case (2 plan ordered s1)
  have "at_most is_generate 1 (execute_generation plan account cr)" for account cr
    using at_most_traced [of is_generate "CGenerate (acc_Provider account) (acc_ID account) (generation_request_of plan cr)"
        "gc_Execute (pl_generation plan) (generation_request_of plan cr)"]
    by (simp add: execute_generation_def Let_def)
  moreover have "at_most is_generate 0 (execute_finish ex plan account evs)" for account evs
    unfolding execute_finish_def Let_def by (intro only_at_most keeps_intros) simp_all
  ultimately have "calls is_generate s' \<le> calls is_generate s1 + 2 * length ordered"
    using at_mostD [OF at_most_try_candidates 2(4)] by blast
  with 2 show ?thesis by (auto simp: calls_def)
qed

text \<open>Failures are accounted for. With a usage recorder, every execution makes as many
  failure records as it hands failures to the cooldown manager, whether it ends in success or
  in an error.\<close>

theorem execute_failures_accounted:
  assumes "ex_usage ex = Some f" "exec_Execute ex request s = (r, s')"
  shows "calls is_failure_record s' + calls is_apply s = calls is_failure_record s + calls is_apply s'"
proof (cases rule: with_plan_cases [OF assms(2) [unfolded exec_Execute_def]])
  case 1
  then show ?thesis by (simp add: calls_def)
next
  case (2 plan ordered s1)
  have "keeps balanced (execute_generation plan account cr)" for account cr
    unfolding execute_generation_def Let_def by (intro balanced_only keeps_intros) simp
  moreover have "keeps balanced (execute_finish ex plan account evs)" for account evs
    unfolding execute_finish_def Let_def
    by (intro balanced_only keeps_intros) (simp_all add: completedUsage_not_failure)
  ultimately have "balanced s1 s'"
    using keepsD' [OF balanced_try_candidates [OF balanced_try_account [OF assms(1)]] 2(4)] by blast
  with 2(3) show ?thesis by (simp add: balanced_def calls_def)
qed

text \<open>C38: A returned result is the provider's own answer. When an execution succeeds, its
  last calls are a generation on the reported account that returned exactly the reported
  events, the reset of that account's cooldown for the model, and the record of the usage those
  events carry.\<close>

theorem execute_success:
  assumes "exec_Execute ex request s = (Inr res, s')"
  shows "\<exists>plan cr e1 e2 tr. prepare ex request = Inr plan \<and> re_Model res = rm_UpstreamName (pl_model plan) \<and>
    gc_Execute (pl_generation plan) (generation_request_of plan cr) e1 = (Inr (re_Events res), e2) \<and>
    xs_trace s' = tr @ [CGenerate (rm_Provider (pl_model plan)) (re_AccountID res) (generation_request_of plan cr),
      CSuccess (re_AccountID res) (re_Model res)] @
      (if ex_usage ex = None then [] else [CRecord (re_AccountID res) (completedUsage (ex_terminal ex) (re_Events res))])"
proof (cases rule: with_plan_cases [OF assms [unfolded exec_Execute_def]])
  case 1
  then show ?thesis by blast
next
  case (2 plan ordered s0)
  from try_candidates_delivers [OF 2(4)] obtain account cr s1 evs s2 where
    p: "acc_Provider account = rm_Provider (pl_model plan)"
    and g: "execute_generation plan account cr s1 = (Inr evs, s2)"
    and f: "execute_finish ex plan account evs s2 = (Inr res, s')" by blast
  from g have g': "gc_Execute (pl_generation plan) (generation_request_of plan cr) (xs_env s1) = (Inr evs, xs_env s2)"
      "xs_trace s2 = xs_trace s1 @ [CGenerate (acc_Provider account) (acc_ID account) (generation_request_of plan cr)]"
    by (auto simp: execute_generation_def Let_def traced_def in_env_def split: prod.splits)
  from f have "re_Events res = evs" "re_Model res = rm_UpstreamName (pl_model plan)" "re_AccountID res = acc_ID account"
      "xs_trace s' = xs_trace s2 @ [CSuccess (acc_ID account) (rm_UpstreamName (pl_model plan))] @
        (if ex_usage ex = None then [] else [CRecord (acc_ID account) (completedUsage (ex_terminal ex) evs)])"
    by (auto simp: execute_finish_def Let_def monad_simps traced_def in_env_def exec_record_def
        split: prod.splits sum.splits option.splits)
  with 2(1) p g' have "prepare ex request = Inr plan \<and> re_Model res = rm_UpstreamName (pl_model plan) \<and>
    gc_Execute (pl_generation plan) (generation_request_of plan cr) (xs_env s1) = (Inr (re_Events res), xs_env s2) \<and>
    xs_trace s' = xs_trace s1 @ [CGenerate (rm_Provider (pl_model plan)) (re_AccountID res) (generation_request_of plan cr),
      CSuccess (re_AccountID res) (re_Model res)] @
      (if ex_usage ex = None then [] else [CRecord (re_AccountID res) (completedUsage (ex_terminal ex) (re_Events res))])"
    by simp
  then show ?thesis by blast
qed


section \<open>Witnesses\<close>

text \<open>Two Devin accounts; the first one's credential is rate limited, the second one's works.\<close>

definition token_login :: "string \<Rightarrow> account" where
  "token_login t = sample_login\<lparr>acc_Credentials := blank_credentials\<lparr>ac_OpaqueToken := t\<rparr>\<rparr>"

definition two_accounts :: database where
  "two_accounts =
     snd (upsertLogin sample_accounts (token_login ''t2'') (from_unix 20) (Inr ''nn'') (Inr ''b'')
       (snd (upsertLogin sample_accounts (token_login ''t1'') (from_unix 10) (Inr ''nn'') (Inr ''a'') empty_database)))"

definition limited_error :: go_error where
  "limited_error = UpstreamE \<lparr>ue_Provider = Devin, ue_Status = 429, ue_Classification =
     empty_classification\<lparr>ec_Class := ClassRateLimit, ec_RetryNext := True, ec_CooldownScope := CooldownModel\<rparr>\<rparr>"

definition sample_event :: event where
  "sample_event = \<lparr>ev_Event = ''response.completed'', ev_Data = [], ev_Usage =
     \<lparr>us_InputTokens = 5, us_OutputTokens = 6, us_TotalTokens = 11, us_CacheReadTokens = 1\<rparr>\<rparr>"

definition sample_client :: "(unit env, nat) generation_client" where
  "sample_client =
     \<lparr>gc_Execute = (\<lambda>req. if gr_Credential req = ''bad'' then raise limited_error else ret [sample_event]),
      gc_Stream = (\<lambda>req. if gr_Credential req = ''bad'' then raise limited_error else ret 7),
      gc_Next = (\<lambda>h. ret sample_event), gc_Close = (\<lambda>h. ret ())\<rparr>"

definition sample_credentials :: "unit env credential_manager" where
  "sample_credentials =
     \<lparr>cm_Credential = (\<lambda>a. ret (if a = ''acct_61'' then ''bad'' else ''good'')),
      cm_AuthenticationFailed = (\<lambda>a u. ret ()), cm_CredentialUsable = Some (\<lambda>a. ret True)\<rparr>"

definition sample_model :: resolved_model where
  "sample_model = \<lparr>rm_PublicName = ''pub'', rm_UpstreamName = ''up'', rm_Provider = Devin, rm_OwnedBy = ''o'', rm_PolicyKey = ''p''\<rparr>"

definition sample_executor :: "(unit, nat, unit, unit, unit, unit) executor" where
  "sample_executor =
     \<lparr>ex_catalog = Some (\<lambda>n. if n = ''pub'' then Inr sample_model else Inl ErrUnknownModel),
      ex_registry = Some (\<lambda>k p. Some (empty_capabilities\<lparr>cap_Policy := Some (\<lambda>m c. Inr c),
        cap_Generation := Some sample_client, cap_Credentials := Some sample_credentials\<rparr>)),
      ex_cooldowns = sample_accounts, ex_sources = sql_sources sample_accounts (\<lambda>_. []),
      ex_usage = Some (\<lambda>a v. in_db (usage_Add a v)),
      ex_decode = (\<lambda>b. if b = [] then Inl ErrEOF else Inr (JObj [(''model'', JStr ''pub'')], [])),
      ex_terminal = (\<lambda>_. None)\<rparr>"

definition sample_exec_state :: "unit exec_state" where
  "sample_exec_state =
     \<lparr>xs_env = \<lparr>env_db = two_accounts, env_clock = (\<lambda>_. from_unix 1000), env_tick = 0, env_world = ()\<rparr>,
      xs_cursors = NewScheduler, xs_trace = []\<rparr>"

definition sample_request :: exec_request where
  "sample_request = \<lparr>rq_Model = ''pub'', rq_Body = ''{}'', rq_PreferredAccountID = []\<rparr>"

definition sample_execution :: "(go_error + exec_result) \<times> unit exec_state" where
  "sample_execution = exec_Execute sample_executor sample_request sample_exec_state"

definition sample_calls :: "call list" where
  "sample_calls =
     [CCredential ''acct_61'', CGenerate Devin ''acct_61'' \<lparr>gr_Model = sample_model,
        gr_Canonical = [(''model'', JStr ''up'')], gr_Credential = ''bad''\<rparr>,
      CRecord ''acct_61'' failure_delta,
      CApply ''acct_61'' ''up'' (empty_classification\<lparr>ec_Class := ClassRateLimit, ec_RetryNext := True, ec_CooldownScope := CooldownModel\<rparr>),
      CCredential ''acct_62'', CGenerate Devin ''acct_62'' \<lparr>gr_Model = sample_model,
        gr_Canonical = [(''model'', JStr ''up'')], gr_Credential = ''good''\<rparr>,
      CSuccess ''acct_62'' ''up'', CRecord ''acct_62'' (usage_delta 5 6 1)]"

lemma sample_execution_trace: "xs_trace (snd sample_execution) = sample_calls"
  by code_simp


lemma sample_execution_result:
  "fst sample_execution = Inr \<lparr>re_Model = ''up'', re_AccountID = ''acct_62'', re_Events = [sample_event]\<rparr>"
  by code_simp

lemma sample_execution_run:
  "exec_Execute sample_executor sample_request sample_exec_state =
     (Inr \<lparr>re_Model = ''up'', re_AccountID = ''acct_62'', re_Events = [sample_event]\<rparr>, snd sample_execution)"
  using sample_execution_result unfolding sample_execution_def by (metis prod.collapse)

lemma sample_executor_sel:
  "ex_sources sample_executor = sql_sources sample_accounts (\<lambda>_. [])"
  "ex_usage sample_executor = Some (\<lambda>a v. in_db (usage_Add a v))" "xs_trace sample_exec_state = []"
  by (simp_all add: sample_executor_def sample_exec_state_def)

theorem execute_confined_witness:
  "\<exists>plan accounts e. prepare sample_executor sample_request = Inr plan \<and>
     src_accounts_List (ex_sources sample_executor) (xs_env sample_exec_state) = (Inr accounts, e) \<and>
     list_all (faithful_call plan (\<lambda>i. \<exists>a \<in> set accounts. acc_ID a = i \<and> serves (pl_model plan) a)) sample_calls"
  using execute_confined [OF sample_executor_sel(1) sample_execution_run] sample_execution_trace sample_executor_sel(3)
  by (simp add: sample_calls_def)

theorem execute_generations_bounded_witness:
  "calls is_generate sample_exec_state < calls is_generate (snd sample_execution) \<and>
   (\<exists>plan ordered s1. prepare sample_executor sample_request = Inr plan \<and>
      candidates sample_executor (pl_model plan) (pl_credentials plan) [] sample_exec_state = (Inr ordered, s1) \<and>
      calls is_generate (snd sample_execution) \<le> calls is_generate sample_exec_state + 2 * length ordered)"
proof -
  have "calls is_generate sample_exec_state = 0" "calls is_generate (snd sample_execution) = 2"
    by (simp_all add: calls_def sample_execution_trace sample_executor_sel(3) sample_calls_def)
  with execute_generations_bounded [OF sample_execution_run] show ?thesis
    by (auto simp: sample_request_def)
qed

theorem execute_failures_accounted_witness:
  "calls is_failure_record (snd sample_execution) + calls is_apply sample_exec_state =
   calls is_failure_record sample_exec_state + calls is_apply (snd sample_execution)"
  by (rule execute_failures_accounted [OF sample_executor_sel(2) sample_execution_run])

theorem execute_success_witness:
  "\<exists>plan cr e1 e2 tr. prepare sample_executor sample_request = Inr plan \<and>
     gc_Execute (pl_generation plan) (generation_request_of plan cr) e1 = (Inr [sample_event], e2) \<and>
     xs_trace (snd sample_execution) = tr @ [CGenerate (rm_Provider (pl_model plan)) ''acct_62'' (generation_request_of plan cr),
       CSuccess ''acct_62'' ''up'', CRecord ''acct_62'' (completedUsage (ex_terminal sample_executor) [sample_event])]"
  using execute_success [OF sample_execution_run] sample_executor_sel(2) by fastforce

end
