(* ===== verification/Routed_Stream.thy ===== *)
theory Routed_Stream
  imports Executor
begin

text \<open>
  Routed streams (\<open>internal/routing/stream.go\<close>): \<open>Executor.Stream\<close>, which opens an upstream
  stream and buffers its first event, and \<open>RoutedStream\<close>, which hands out events, settles usage
  and cooldown once, and may be closed concurrently with a pending read.

  The mutex sections of \<open>Next\<close> are separate steps: \<open>stream_enter\<close> up to the upstream read,
  \<open>stream_leave\<close> after it. The step relation interleaves reads with \<open>Close\<close> at these points.
  What a section does after unlocking touches the stream's shared fields only through
  \<open>recordOnce\<close>, so it belongs to the step of the section.
\<close>


section \<open>Opening a stream\<close>

record 'h routed_stream =
  rt_stream :: 'h
  rt_first :: "event option"
  rt_accountID :: string
  rt_model :: string
  rt_committed :: bool
  rt_terminal :: bool
  rt_recorded :: bool

definition newRoutedStream :: "'h \<Rightarrow> event \<Rightarrow> string \<Rightarrow> string \<Rightarrow> 'h routed_stream" where
  "newRoutedStream h first a m =
     \<lparr>rt_stream = h, rt_first = Some first, rt_accountID = a, rt_model = m, rt_committed = False,
      rt_terminal = False, rt_recorded = False\<rparr>"

definition open_generation ::
  "('w, 'h) execution_plan \<Rightarrow> account \<Rightarrow> credential \<Rightarrow> ('w exec_state, go_error, 'h \<times> event) op" where
  "open_generation plan account credential =
     (let a = acc_ID account; req = generation_request_of plan credential; gc = pl_generation plan in
      andThen (traced (CGenerate (acc_Provider account) a req) (gc_Stream gc req)) (\<lambda>h.
      attempt (traced (CFirstEvent a) (gc_Next gc h)) (\<lambda>r. case r of
        Inr first \<Rightarrow> ret (h, first)
      | Inl e \<Rightarrow> attempt (traced (CClose a) (gc_Close gc h)) (\<lambda>_. raise e))))"

definition stream_finish ::
  "('w, 'h) execution_plan \<Rightarrow> account \<Rightarrow> 'h \<times> event \<Rightarrow> ('w exec_state, go_error, 'h routed_stream) op" where
  "stream_finish plan account p =
     ret (newRoutedStream (fst p) (snd p) (acc_ID account) (rm_UpstreamName (pl_model plan)))"

definition exec_Stream ::
  "('w, 'h, 'r, 'l, 'd, 'u) executor \<Rightarrow> exec_request \<Rightarrow> ('w exec_state, go_error, 'h routed_stream) op" where
  "exec_Stream ex request =
     with_plan ex request (\<lambda>plan ordered.
       try_candidates ex plan (open_generation plan) (stream_finish plan) None ordered)"


section \<open>Using a stream\<close>

type_synonym ('w, 'h) stream_state = "'w exec_state \<times> 'h routed_stream"

definition in_exec :: "('w exec_state, go_error, 'a) op \<Rightarrow> (('w, 'h) stream_state, go_error, 'a) op" where
  "in_exec m s = (case m (fst s) of (r, e) \<Rightarrow> (r, (e, snd s)))"

definition modify_stream :: "('h routed_stream \<Rightarrow> 'h routed_stream) \<Rightarrow> (('w, 'h) stream_state, go_error, unit) op" where
  "modify_stream f = putState (\<lambda>s. (fst s, f (snd s)))"

text \<open>\<open>_ = op()\<close>: the error is dropped.\<close>

definition ignore :: "('s, go_error, 'a) op \<Rightarrow> ('s, go_error, unit) op" where
  "ignore m = attempt m (\<lambda>_. ret ())"

definition stream_record ::
  "('w, 'h, 'r, 'l, 'd, 'u) executor \<Rightarrow> local_usage_counters \<Rightarrow> (('w, 'h) stream_state, go_error, unit) op" where
  "stream_record ex v =
     andThen (getState snd) (\<lambda>rt.
       if rt_recorded rt then ret ()
       else andThen (modify_stream (\<lambda>rt. rt\<lparr>rt_recorded := True\<rparr>))
              (\<lambda>_. in_exec (exec_record ex (rt_accountID rt) v)))"

definition close_upstream ::
  "('w env, 'h) generation_client \<Rightarrow> (('w, 'h) stream_state, go_error, unit) op" where
  "close_upstream gc =
     andThen (getState snd) (\<lambda>rt. in_exec (traced (CClose (rt_accountID rt)) (gc_Close gc (rt_stream rt))))"

definition finishSuccess ::
  "('w, 'h, 'r, 'l, 'd, 'u) executor \<Rightarrow> ('w env, 'h) generation_client \<Rightarrow> local_usage_counters \<Rightarrow>
   (('w, 'h) stream_state, go_error, unit) op" where
  "finishSuccess ex gc v =
     andThen (stream_record ex v) (\<lambda>_.
     andThen (getState snd) (\<lambda>rt.
     andThen (ignore (in_exec (traced (CSuccess (rt_accountID rt) (rt_model rt))
                (in_db (cooldown_Success (rt_accountID rt) (rt_model rt)))))) (\<lambda>_.
     ignore (close_upstream gc))))"

abbreviation ErrStreamClosed :: go_error where "ErrStreamClosed \<equiv> ErrNew ''stream is closed''"

definition finishFailure ::
  "('w, 'h, 'r, 'l, 'd, 'u) executor \<Rightarrow> ('w env, 'h) generation_client \<Rightarrow> go_error \<Rightarrow>
   (('w, 'h) stream_state, go_error, go_error) op" where
  "finishFailure ex gc cause =
     andThen (getState snd) (\<lambda>rt.
       if rt_terminal rt then ret ErrStreamClosed
       else
         andThen (modify_stream (\<lambda>rt. rt\<lparr>rt_terminal := True\<rparr>)) (\<lambda>_.
         andThen (ignore (close_upstream gc)) (\<lambda>_.
         andThen (stream_record ex failure_delta) (\<lambda>_.
         let c = classifyExecutionError cause in
         andThen (if ec_Class c \<noteq> ClassCancelled
                  then ignore (in_exec (traced (CApply (rt_accountID rt) (rt_model rt) c)
                         (andThen time_Now (\<lambda>now. in_db (cooldown_Apply (ex_cooldowns ex) (rt_accountID rt) (rt_model rt) c now)))))
                  else ret ()) (\<lambda>_.
         ret (ExecutionE c))))))"

text \<open>Handing out an event, inside the mutex and after it.\<close>

definition emit_event ::
  "('w, 'h, 'r, 'l, 'd, 'u) executor \<Rightarrow> ('w env, 'h) generation_client \<Rightarrow> event \<Rightarrow>
   (('w, 'h) stream_state, go_error, unit) op" where
  "emit_event ex gc ev =
     (let usage = terminalUsage (ex_terminal ex) ev in
      andThen (modify_stream (\<lambda>rt. rt\<lparr>rt_committed := True, rt_terminal := rt_terminal rt \<or> usage \<noteq> None\<rparr>)) (\<lambda>_.
      case usage of Some v \<Rightarrow> finishSuccess ex gc v | None \<Rightarrow> ret ()))"

text \<open>\<open>Next\<close> up to the upstream read: \<open>Some r\<close> when it returns before it.\<close>

definition stream_enter ::
  "('w, 'h, 'r, 'l, 'd, 'u) executor \<Rightarrow> ('w env, 'h) generation_client \<Rightarrow> go_error option \<Rightarrow>
   (('w, 'h) stream_state, go_error, (go_error + event) option) op" where
  "stream_enter ex gc ctxErr =
     (case ctxErr of
        Some err \<Rightarrow> andThen (finishFailure ex gc err) (\<lambda>e. ret (Some (Inl e)))
      | None \<Rightarrow>
          andThen (getState snd) (\<lambda>rt.
            if rt_terminal rt then ret (Some (Inl ErrStreamClosed))
            else case rt_first rt of
              Some ev \<Rightarrow>
                andThen (modify_stream (\<lambda>rt. rt\<lparr>rt_first := None\<rparr>)) (\<lambda>_.
                andThen (emit_event ex gc ev) (\<lambda>_. ret (Some (Inr ev))))
            | None \<Rightarrow> ret None))"

definition stream_upstream ::
  "('w env, 'h) generation_client \<Rightarrow> (('w, 'h) stream_state, go_error, event) op" where
  "stream_upstream gc = andThen (getState snd) (\<lambda>rt. in_exec (in_env (gc_Next gc (rt_stream rt))))"

definition stream_leave ::
  "('w, 'h, 'r, 'l, 'd, 'u) executor \<Rightarrow> ('w env, 'h) generation_client \<Rightarrow> go_error + event \<Rightarrow>
   (('w, 'h) stream_state, go_error, go_error + event) op" where
  "stream_leave ex gc r =
     (case r of
        Inl err \<Rightarrow> andThen (finishFailure ex gc err) (\<lambda>e. ret (Inl e))
      | Inr ev \<Rightarrow>
          andThen (getState snd) (\<lambda>rt.
            if rt_terminal rt then ret (Inl ErrStreamClosed)
            else andThen (emit_event ex gc ev) (\<lambda>_. ret (Inr ev))))"

text \<open>\<open>Next\<close> without interference.\<close>

definition stream_Next ::
  "('w, 'h, 'r, 'l, 'd, 'u) executor \<Rightarrow> ('w env, 'h) generation_client \<Rightarrow> go_error option \<Rightarrow>
   (('w, 'h) stream_state, go_error, event) op" where
  "stream_Next ex gc ctxErr =
     andThen (stream_enter ex gc ctxErr) (\<lambda>early. case early of
       Some r \<Rightarrow> lift_result r
     | None \<Rightarrow> attempt (stream_upstream gc) (\<lambda>r. andThen (stream_leave ex gc r) lift_result))"

definition stream_Close ::
  "('w, 'h, 'r, 'l, 'd, 'u) executor \<Rightarrow> ('w env, 'h) generation_client \<Rightarrow> (('w, 'h) stream_state, go_error, unit) op" where
  "stream_Close ex gc =
     andThen (getState snd) (\<lambda>rt.
     andThen (if rt_terminal rt then ret ()
              else andThen (modify_stream (\<lambda>rt. rt\<lparr>rt_terminal := True\<rparr>)) (\<lambda>_. stream_record ex failure_delta)) (\<lambda>_.
     close_upstream gc))"


section \<open>Interleaved use\<close>

datatype reader = Idle | Waiting | Arrived "go_error + event"

record ('w, 'h) stream_cfg =
  sc_state :: "('w, 'h) stream_state"
  sc_reader :: reader
  sc_results :: "(go_error + event) list"

text \<open>One step: the reader enters \<open>Next\<close> with its context's error, if any; the upstream answers;
  the reader leaves \<open>Next\<close>; or someone closes the stream.\<close>

inductive stream_step ::
  "('w, 'h, 'r, 'l, 'd, 'u) executor \<Rightarrow> ('w env, 'h) generation_client \<Rightarrow> ('w, 'h) stream_cfg \<Rightarrow> ('w, 'h) stream_cfg \<Rightarrow> bool"
  for ex gc where
  enter_returns: "sc_reader c = Idle \<Longrightarrow> stream_enter ex gc ctxErr (sc_state c) = (Inr (Some r), s) \<Longrightarrow>
    stream_step ex gc c \<lparr>sc_state = s, sc_reader = Idle, sc_results = sc_results c @ [r]\<rparr>"
| enter_waits: "sc_reader c = Idle \<Longrightarrow> stream_enter ex gc ctxErr (sc_state c) = (Inr None, s) \<Longrightarrow>
    stream_step ex gc c \<lparr>sc_state = s, sc_reader = Waiting, sc_results = sc_results c\<rparr>"
| upstream: "sc_reader c = Waiting \<Longrightarrow> stream_upstream gc (sc_state c) = (r, s) \<Longrightarrow>
    stream_step ex gc c \<lparr>sc_state = s, sc_reader = Arrived r, sc_results = sc_results c\<rparr>"
| leave: "sc_reader c = Arrived r0 \<Longrightarrow> stream_leave ex gc r0 (sc_state c) = (Inr r, s) \<Longrightarrow>
    stream_step ex gc c \<lparr>sc_state = s, sc_reader = Idle, sc_results = sc_results c @ [r]\<rparr>"
| close: "stream_Close ex gc (sc_state c) = (r, s) \<Longrightarrow>
    stream_step ex gc c \<lparr>sc_state = s, sc_reader = sc_reader c, sc_results = sc_results c\<rparr>"


section \<open>What the operations do to the stream\<close>

lemma in_exec_run: "in_exec m s = (fst (m (fst s)), (snd (m (fst s)), snd s))"
  by (simp add: in_exec_def split_def)

lemma ignore_run: "ignore m s = (Inr (), snd (m s))"
  by (simp add: ignore_def attempt_run ret_run split_def)

lemma modify_stream_run: "modify_stream f s = (Inr (), (fst s, f (snd s)))"
  by (simp add: modify_stream_def putState_run)

lemma exec_record_run: "fst (exec_record ex a v e) = Inr ()"
  by (simp add: exec_record_def attempt_run ret_run split_def split: option.splits)

lemma close_upstream_stream: "snd (snd (close_upstream gc s)) = snd s"
  by (simp add: close_upstream_def andThen_run getState_run in_exec_run)

text \<open>Each operation succeeds, with this effect on the stream's own fields.\<close>

lemma stream_record_run:
  "\<exists>e. stream_record ex v s = (Inr (), (e, (snd s)\<lparr>rt_recorded := True\<rparr>))"
  by (cases s) (auto simp: stream_record_def andThen_run getState_run in_exec_run modify_stream_run exec_record_run ret_run)

lemma finishSuccess_run:
  "\<exists>e. finishSuccess ex gc v s = (Inr (), (e, (snd s)\<lparr>rt_recorded := True\<rparr>))"
proof -
  obtain e where "stream_record ex v s = (Inr (), (e, (snd s)\<lparr>rt_recorded := True\<rparr>))"
    using stream_record_run by blast
  then show ?thesis
    by (simp add: finishSuccess_def andThen_run getState_run ignore_run in_exec_run)
       (metis close_upstream_stream prod.collapse snd_conv)
qed

lemma finishFailure_run:
  "\<exists>e err. finishFailure ex gc cause s = (Inr err, (e,
     if rt_terminal (snd s) then snd s else (snd s)\<lparr>rt_terminal := True, rt_recorded := True\<rparr>))"
proof (cases "rt_terminal (snd s)")
  case True
  then show ?thesis by (cases s) (simp add: finishFailure_def andThen_run getState_run ret_run)
next
  case False
  define s1 where "s1 = snd (close_upstream gc (fst s, (snd s)\<lparr>rt_terminal := True\<rparr>))"
  have s1: "snd s1 = (snd s)\<lparr>rt_terminal := True\<rparr>" by (simp add: s1_def close_upstream_stream)
  obtain e where e: "stream_record ex failure_delta s1 = (Inr (), (e, (snd s1)\<lparr>rt_recorded := True\<rparr>))"
    using stream_record_run by blast
  show ?thesis
    using False s1 e
    by (simp add: finishFailure_def andThen_run getState_run modify_stream_run ignore_run in_exec_run ret_run Let_def
        s1_def [symmetric])
qed

lemma emit_event_run:
  "\<exists>e. emit_event ex gc ev s = (Inr (), (e, (snd s)\<lparr>rt_committed := True,
     rt_terminal := rt_terminal (snd s) \<or> terminalUsage (ex_terminal ex) ev \<noteq> None,
     rt_recorded := rt_recorded (snd s) \<or> terminalUsage (ex_terminal ex) ev \<noteq> None\<rparr>))"
proof (cases "terminalUsage (ex_terminal ex) ev")
  case None
  then show ?thesis by (cases s) (simp add: emit_event_def andThen_run modify_stream_run ret_run)
next
  case (Some v)
  let ?s = "(fst s, (snd s)\<lparr>rt_committed := True, rt_terminal := True\<rparr>)"
  obtain e where "finishSuccess ex gc v ?s = (Inr (), (e, (snd ?s)\<lparr>rt_recorded := True\<rparr>))"
    using finishSuccess_run by blast
  with Some show ?thesis by (simp add: emit_event_def andThen_run modify_stream_run)
qed


section \<open>Usage records\<close>

definition is_record :: "call \<Rightarrow> bool" where
  "is_record c \<longleftrightarrow> (\<exists>a v. c = CRecord a v)"

lemma is_record_simps [simp]:
  "is_record (CRecord a v)" "\<not> is_record (CCredential a)" "\<not> is_record (CGenerate k a req)"
  "\<not> is_record (CFirstEvent a)" "\<not> is_record (CClose a)" "\<not> is_record (CAuthFailed a u)"
  "\<not> is_record (CSuccess a m)" "\<not> is_record (CApply a m c)"
  by (simp_all add: is_record_def)

text \<open>The trace grows by one record exactly when \<open>recordOnce\<close> fires.\<close>

definition recorded_once :: "('w, 'h) stream_state \<Rightarrow> ('w, 'h) stream_state \<Rightarrow> bool" where
  "recorded_once s s' \<longleftrightarrow>
     calls is_record (fst s') + of_bool (rt_recorded (snd s)) = calls is_record (fst s) + of_bool (rt_recorded (snd s'))"

lemma recorded_once_reflp [keeps_intros]: "reflp recorded_once"
  and recorded_once_transp [keeps_intros]: "transp recorded_once"
  by (auto simp: reflp_def transp_def recorded_once_def)

lemma recorded_once_getState [keeps_intros]: "keeps recorded_once (getState f)"
  by (simp add: keeps_def getState_def recorded_once_def)

lemma recorded_once_modify [keeps_intros]:
  "(\<And>rt. rt_recorded (f rt) = rt_recorded rt) \<Longrightarrow> keeps recorded_once (modify_stream f)"
  by (simp add: keeps_def modify_stream_run recorded_once_def)

lemma recorded_once_in_exec:
  assumes "only (\<lambda>c. \<not> is_record c) m"
  shows "keeps recorded_once (in_exec m)"
proof -
  have "calls is_record (snd (m e)) = calls is_record e" for e
  proof -
    from keepsD [OF assms, of e] obtain ts where "xs_trace (snd (m e)) = xs_trace e @ ts" "list_all (\<lambda>c. \<not> is_record c) ts"
      by (auto simp: appends_def)
    then show ?thesis by (simp add: calls_def list_all_iff filter_empty_conv)
  qed
  then show ?thesis by (simp add: keeps_def in_exec_run recorded_once_def)
qed

lemma recorded_once_ignore [keeps_intros]: "keeps recorded_once m \<Longrightarrow> keeps recorded_once (ignore m)"
  unfolding ignore_def by (intro keeps_intros)

lemma recorded_once_record [keeps_intros]:
  fixes ex :: "('w, 'h, 'r, 'l, 'd, 'u) executor"
  assumes "ex_usage ex = Some f"
  shows "keeps recorded_once (stream_record ex v)"
  unfolding keeps_def
proof
  fix s :: "('w, 'h) stream_state"
  have "calls is_record (snd (exec_record ex a v e)) = calls is_record e + 1" for a e
    using assms by (simp add: exec_record_def attempt_run ret_run traced_def in_env_def calls_def split: prod.splits)
  then show "recorded_once s (snd (stream_record ex v s))"
    by (cases s) (auto simp: stream_record_def andThen_run getState_run in_exec_run modify_stream_run ret_run recorded_once_def)
qed

lemma recorded_once_close [keeps_intros]: "keeps recorded_once (close_upstream gc)"
  unfolding close_upstream_def by (intro keeps_intros recorded_once_in_exec) simp

lemma recorded_once_finish [keeps_intros]:
  assumes "ex_usage ex = Some f"
  shows "keeps recorded_once (finishSuccess ex gc v)" "keeps recorded_once (finishFailure ex gc cause)"
  unfolding finishSuccess_def finishFailure_def Let_def
  by (intro keeps_andThen keeps_if keeps_ret recorded_once_reflp recorded_once_transp recorded_once_getState
      recorded_once_ignore recorded_once_modify recorded_once_close recorded_once_record [OF assms] recorded_once_in_exec
      keeps_intros; simp)+

lemma recorded_once_steps:
  assumes "ex_usage ex = Some f"
  shows "keeps recorded_once (stream_enter ex gc ctxErr)" "keeps recorded_once (stream_leave ex gc r)"
    "keeps recorded_once (stream_Close ex gc)" "keeps recorded_once (stream_upstream gc)"
proof -
  have em: "keeps recorded_once (emit_event ex gc ev)" for ev
    unfolding emit_event_def Let_def
    by (intro keeps_intros recorded_once_finish [OF assms]) simp_all
  show "keeps recorded_once (stream_enter ex gc ctxErr)"
    unfolding stream_enter_def by (intro keeps_intros recorded_once_finish [OF assms] em) simp_all
  show "keeps recorded_once (stream_leave ex gc r)"
    unfolding stream_leave_def by (intro keeps_intros recorded_once_finish [OF assms] em)
  show "keeps recorded_once (stream_Close ex gc)"
    unfolding stream_Close_def by (intro keeps_intros recorded_once_record [OF assms]) simp_all
  show "keeps recorded_once (stream_upstream gc)"
    unfolding stream_upstream_def by (intro keeps_intros recorded_once_in_exec)
qed


section \<open>All interleavings\<close>

lemma stream_enter_run:
  obtains (failed) err e where "stream_enter ex gc ctxErr s = (Inr (Some (Inl err)), (e,
       if rt_terminal (snd s) then snd s else (snd s)\<lparr>rt_terminal := True, rt_recorded := True\<rparr>))"
  | (event) ev e where "\<not> rt_terminal (snd s)" "stream_enter ex gc ctxErr s = (Inr (Some (Inr ev)), (e,
       (snd s)\<lparr>rt_first := None, rt_committed := True, rt_terminal := terminalUsage (ex_terminal ex) ev \<noteq> None,
         rt_recorded := rt_recorded (snd s) \<or> terminalUsage (ex_terminal ex) ev \<noteq> None\<rparr>))"
  | (waits) "\<not> rt_terminal (snd s)" "stream_enter ex gc ctxErr s = (Inr None, s)"
proof (cases ctxErr)
  case (Some err)
  obtain e er where "finishFailure ex gc err s = (Inr er, (e,
     if rt_terminal (snd s) then snd s else (snd s)\<lparr>rt_terminal := True, rt_recorded := True\<rparr>))"
    using finishFailure_run by blast
  with Some failed show ?thesis by (simp add: stream_enter_def andThen_run ret_run)
next
  case None
  consider "rt_terminal (snd s)" | ev where "\<not> rt_terminal (snd s)" "rt_first (snd s) = Some ev"
    | "\<not> rt_terminal (snd s)" "rt_first (snd s) = None" by (cases "rt_first (snd s)") auto
  then show ?thesis
  proof cases
    case 1
    with None failed [of ErrStreamClosed "fst s"] show ?thesis
      by (simp add: stream_enter_def andThen_run getState_run ret_run)
  next
    case (2 ev)
    let ?s = "(fst s, (snd s)\<lparr>rt_first := None\<rparr>)"
    obtain e where "emit_event ex gc ev ?s = (Inr (), (e, (snd ?s)\<lparr>rt_committed := True,
       rt_terminal := rt_terminal (snd ?s) \<or> terminalUsage (ex_terminal ex) ev \<noteq> None,
       rt_recorded := rt_recorded (snd ?s) \<or> terminalUsage (ex_terminal ex) ev \<noteq> None\<rparr>))"
      using emit_event_run by blast
    with 2 None event show ?thesis
      by (simp add: stream_enter_def andThen_run getState_run modify_stream_run ret_run)
  next
    case 3
    with None waits show ?thesis by (simp add: stream_enter_def andThen_run getState_run ret_run)
  qed
qed

lemma stream_leave_run:
  obtains (failed) err e where "stream_leave ex gc r s = (Inr (Inl err), (e,
       if rt_terminal (snd s) then snd s else (snd s)\<lparr>rt_terminal := True, rt_recorded := True\<rparr>))"
  | (event) ev e where "\<not> rt_terminal (snd s)" "r = Inr ev" "stream_leave ex gc r s = (Inr (Inr ev), (e,
       (snd s)\<lparr>rt_committed := True, rt_terminal := terminalUsage (ex_terminal ex) ev \<noteq> None,
         rt_recorded := rt_recorded (snd s) \<or> terminalUsage (ex_terminal ex) ev \<noteq> None\<rparr>))"
proof (cases r)
  case (Inl err)
  obtain e er where "finishFailure ex gc err s = (Inr er, (e,
     if rt_terminal (snd s) then snd s else (snd s)\<lparr>rt_terminal := True, rt_recorded := True\<rparr>))"
    using finishFailure_run by blast
  with Inl failed show ?thesis by (simp add: stream_leave_def andThen_run ret_run)
next
  case (Inr ev)
  show ?thesis
  proof (cases "rt_terminal (snd s)")
    case True
    with Inr failed [of ErrStreamClosed "fst s"] show ?thesis
      by (simp add: stream_leave_def andThen_run getState_run ret_run)
  next
    case False
    obtain e where "emit_event ex gc ev s = (Inr (), (e, (snd s)\<lparr>rt_committed := True,
       rt_terminal := rt_terminal (snd s) \<or> terminalUsage (ex_terminal ex) ev \<noteq> None,
       rt_recorded := rt_recorded (snd s) \<or> terminalUsage (ex_terminal ex) ev \<noteq> None\<rparr>))"
      using emit_event_run by blast
    with False Inr event show ?thesis by (simp add: stream_leave_def andThen_run getState_run ret_run)
  qed
qed

lemma stream_Close_run:
  "snd (snd (stream_Close ex gc s)) = (if rt_terminal (snd s) then snd s else (snd s)\<lparr>rt_terminal := True, rt_recorded := True\<rparr>)"
proof (cases "rt_terminal (snd s)")
  case False
  let ?s = "(fst s, (snd s)\<lparr>rt_terminal := True\<rparr>)"
  obtain e where "stream_record ex failure_delta ?s = (Inr (), (e, (snd ?s)\<lparr>rt_recorded := True\<rparr>))"
    using stream_record_run by blast
  with False show ?thesis
    by (simp add: stream_Close_def andThen_run getState_run modify_stream_run close_upstream_stream)
qed (simp add: stream_Close_def andThen_run getState_run ret_run close_upstream_stream)

lemma stream_upstream_run: "snd (snd (stream_upstream gc s)) = snd s"
  by (simp add: stream_upstream_def andThen_run getState_run in_exec_run)

text \<open>Results handed out: events, then errors, errors only once the stream is over.\<close>

definition results_ok :: "bool \<Rightarrow> (go_error + event) list \<Rightarrow> bool" where
  "results_ok over rs \<longleftrightarrow> (\<exists>evs errs. rs = map Inr evs @ map Inl errs \<and> (errs \<noteq> [] \<longrightarrow> over))"

lemma results_ok_error: "results_ok b rs \<Longrightarrow> results_ok True (rs @ [Inl err])"
  unfolding results_ok_def by (metis append.assoc list.simps(8,9) map_append)

lemma results_ok_event: "results_ok False rs \<Longrightarrow> results_ok b (rs @ [Inr ev])"
  unfolding results_ok_def by (metis append_Nil2 list.simps(8,9) map_append)

lemma results_ok_over: "results_ok b rs \<Longrightarrow> results_ok True rs"
  unfolding results_ok_def by blast

text \<open>The invariant: usage has been recorded exactly when the stream is over.\<close>

definition stream_inv :: "nat \<Rightarrow> ('w, 'h) stream_cfg \<Rightarrow> bool" where
  "stream_inv n c \<longleftrightarrow>
     rt_recorded (snd (sc_state c)) = rt_terminal (snd (sc_state c)) \<and>
     calls is_record (fst (sc_state c)) = n + of_bool (rt_terminal (snd (sc_state c))) \<and>
     results_ok (rt_terminal (snd (sc_state c))) (sc_results c)"

lemmas stream_inv_simps = stream_inv_def recorded_once_def results_ok_error results_ok_event results_ok_over

lemma stream_step_inv:
  assumes "ex_usage ex = Some f" "stream_step ex gc c c'" "stream_inv n c"
  shows "stream_inv n c'"
  using assms(2)
proof cases
  case (enter_returns ctxErr r s)
  from keepsD' [OF recorded_once_steps(1) [OF assms(1)] enter_returns(3)] have k: "recorded_once (sc_state c) s" .
  from assms(3) show ?thesis
    by (cases ex gc ctxErr "sc_state c" rule: stream_enter_run)
       (use enter_returns k in \<open>auto simp: stream_inv_simps split: if_splits\<close>)
next
  case (enter_waits ctxErr s)
  from assms(3) show ?thesis
    by (cases ex gc ctxErr "sc_state c" rule: stream_enter_run) (use enter_waits in \<open>auto simp: stream_inv_simps\<close>)
next
  case (upstream r s)
  from keepsD' [OF recorded_once_steps(4) [OF assms(1)] upstream(3)] have k: "recorded_once (sc_state c) s" .
  have "snd s = snd (sc_state c)" using stream_upstream_run [of gc "sc_state c"] upstream(3) by simp
  with k assms(3) upstream(1) show ?thesis by (simp add: stream_inv_simps)
next
  case (leave r0 r s)
  from keepsD' [OF recorded_once_steps(2) [OF assms(1)] leave(3)] have k: "recorded_once (sc_state c) s" .
  from assms(3) show ?thesis
    by (cases ex gc r0 "sc_state c" rule: stream_leave_run)
       (use leave k in \<open>auto simp: stream_inv_simps split: if_splits\<close>)
next
  case (close r s)
  from keepsD' [OF recorded_once_steps(3) [OF assms(1)] close(2)] have k: "recorded_once (sc_state c) s" .
  have "snd s = (if rt_terminal (snd (sc_state c)) then snd (sc_state c)
      else (snd (sc_state c))\<lparr>rt_terminal := True, rt_recorded := True\<rparr>)"
    using stream_Close_run [of ex gc "sc_state c"] close(2) by simp
  with k assms(3) close(1) show ?thesis by (auto simp: stream_inv_simps)
qed


section \<open>Properties\<close>

text \<open>C3: However reads, upstream answers and concurrent closes interleave, a routed stream
  records usage exactly once, when it ends: from a freshly opened stream, every reachable
  configuration has one usage record more than at the start if the stream is over and none
  otherwise, and its results are events followed by errors.\<close>

theorem stream_settles_once:
  assumes "ex_usage ex = Some f"
    and "(stream_step ex gc)\<^sup>*\<^sup>* \<lparr>sc_state = (e0, newRoutedStream h ev a m), sc_reader = Idle, sc_results = []\<rparr> c"
  shows "calls is_record (fst (sc_state c)) = calls is_record e0 + of_bool (rt_terminal (snd (sc_state c))) \<and>
    (\<exists>evs errs. sc_results c = map Inr evs @ map Inl errs \<and> (errs \<noteq> [] \<longrightarrow> rt_terminal (snd (sc_state c))))"
proof -
  from assms(2) have "stream_inv (calls is_record e0) c"
  proof (induction rule: rtranclp_induct)
    case base
    show ?case by (simp add: stream_inv_def newRoutedStream_def results_ok_def)
  next
    case (step c1 c2)
    with stream_step_inv [OF assms(1)] show ?case by blast
  qed
  then show ?thesis by (simp add: stream_inv_def results_ok_def)
qed

text \<open>A stream that is over stays over: whatever happens next, no event is delivered any
  more (a read can only return an error) and no usage is recorded again.\<close>

theorem stream_over_is_final:
  assumes "ex_usage ex = Some f" "stream_step ex gc c c'" "rt_terminal (snd (sc_state c))"
    and "rt_recorded (snd (sc_state c))"
  shows "rt_terminal (snd (sc_state c')) \<and> calls is_record (fst (sc_state c')) = calls is_record (fst (sc_state c)) \<and>
    (sc_results c' = sc_results c \<or> (\<exists>err. sc_results c' = sc_results c @ [Inl err]))"
  using assms(2)
proof cases
  case (enter_returns ctxErr r s)
  from keepsD' [OF recorded_once_steps(1) [OF assms(1)] enter_returns(3)] have "recorded_once (sc_state c) s" .
  then show ?thesis
    by (cases ex gc ctxErr "sc_state c" rule: stream_enter_run)
       (use enter_returns assms(3,4) in \<open>auto simp: recorded_once_def\<close>)
next
  case (enter_waits ctxErr s)
  then show ?thesis
    by (cases ex gc ctxErr "sc_state c" rule: stream_enter_run) (use assms(3) in auto)
next
  case (upstream r s)
  from keepsD' [OF recorded_once_steps(4) [OF assms(1)] upstream(3)] have k: "recorded_once (sc_state c) s" .
  have "snd s = snd (sc_state c)" using stream_upstream_run [of gc "sc_state c"] upstream(3) by simp
  with k assms(3) upstream(1) show ?thesis by (simp add: recorded_once_def)
next
  case (leave r0 r s)
  from keepsD' [OF recorded_once_steps(2) [OF assms(1)] leave(3)] have "recorded_once (sc_state c) s" .
  then show ?thesis
    by (cases ex gc r0 "sc_state c" rule: stream_leave_run) (use leave assms(3,4) in \<open>auto simp: recorded_once_def\<close>)
next
  case (close r s)
  from keepsD' [OF recorded_once_steps(3) [OF assms(1)] close(2)] have k: "recorded_once (sc_state c) s" .
  have "snd s = snd (sc_state c)" using stream_Close_run [of ex gc "sc_state c"] close(2) assms(3) by simp
  with k assms(3) close(1) show ?thesis by (simp add: recorded_once_def)
qed

text \<open>\<open>Stream\<close> commits to one account only with its first event in hand: when it succeeds,
  the returned stream is fresh, belongs to an account of the resolved provider, and holds the
  first event that the just opened upstream stream delivered; nothing is recorded for it yet.\<close>

theorem stream_opens_with_first_event:
  assumes "exec_Stream ex request s = (Inr rt, s')"
  shows "\<exists>plan cr h first e1 e2 e3 tr. prepare ex request = Inr plan \<and>
    gc_Stream (pl_generation plan) (generation_request_of plan cr) e1 = (Inr h, e2) \<and>
    gc_Next (pl_generation plan) h e2 = (Inr first, e3) \<and>
    rt = newRoutedStream h first (rt_accountID rt) (rm_UpstreamName (pl_model plan)) \<and>
    xs_trace s' = tr @ [CGenerate (rm_Provider (pl_model plan)) (rt_accountID rt) (generation_request_of plan cr),
      CFirstEvent (rt_accountID rt)]"
proof (cases rule: with_plan_cases [OF assms [unfolded exec_Stream_def]])
  case 1
  then show ?thesis by blast
next
  case (2 plan ordered s0)
  from try_candidates_delivers [OF 2(4)] obtain account cr s1 p s2 where
    a: "acc_Provider account = rm_Provider (pl_model plan)"
    and g: "open_generation plan account cr s1 = (Inr p, s2)"
    and f: "stream_finish plan account p s2 = (Inr rt, s')" by blast
  let ?gc = "pl_generation plan" and ?req = "generation_request_of plan cr"
  obtain q e2 where q: "gc_Stream ?gc ?req (xs_env s1) = (q, e2)" by fastforce
  with g obtain h where h: "q = Inr h"
    by (cases q) (auto simp: open_generation_def Let_def andThen_run traced_def in_env_def)
  obtain q2 e3 where q2: "gc_Next ?gc h e2 = (q2, e3)" by fastforce
  with g q h obtain first where first: "q2 = Inr first"
    by (cases q2) (auto simp: open_generation_def Let_def andThen_run attempt_run traced_def in_env_def raise_run split: prod.splits)
  have "p = (h, first)" "xs_trace s2 = xs_trace s1 @ [CGenerate (rm_Provider (pl_model plan)) (acc_ID account) ?req, CFirstEvent (acc_ID account)]"
    using g q h q2 first a by (auto simp: open_generation_def Let_def andThen_run attempt_run traced_def in_env_def ret_run)
  moreover have "rt = newRoutedStream (fst p) (snd p) (acc_ID account) (rm_UpstreamName (pl_model plan))" "s' = s2"
    using f by (simp_all add: stream_finish_def ret_run)
  ultimately have "prepare ex request = Inr plan \<and> gc_Stream ?gc ?req (xs_env s1) = (Inr h, e2) \<and>
    gc_Next ?gc h e2 = (Inr first, e3) \<and> rt = newRoutedStream h first (rt_accountID rt) (rm_UpstreamName (pl_model plan)) \<and>
    xs_trace s' = xs_trace s1 @ [CGenerate (rm_Provider (pl_model plan)) (rt_accountID rt) ?req, CFirstEvent (rt_accountID rt)]"
    using 2(1) q h q2 first by (simp add: newRoutedStream_def)
  then show ?thesis by blast
qed


section \<open>Witnesses\<close>

definition sample_stream :: "(go_error + nat routed_stream) \<times> unit exec_state" where
  "sample_stream = exec_Stream sample_executor sample_request sample_exec_state"

lemma sample_stream_result: "fst sample_stream = Inr (newRoutedStream 7 sample_event ''acct_62'' ''up'')"
  by code_simp

theorem stream_opens_with_first_event_witness:
  "\<exists>tr cr. xs_trace (snd sample_stream) = tr @ [CGenerate Devin ''acct_62'' (generation_request_of
      (projr (prepare sample_executor sample_request)) cr), CFirstEvent ''acct_62'']"
proof -
  have run: "exec_Stream sample_executor sample_request sample_exec_state =
      (Inr (newRoutedStream 7 sample_event ''acct_62'' ''up''), snd sample_stream)"
    using sample_stream_result unfolding sample_stream_def by (metis prod.collapse)
  have m: "rm_Provider (pl_model (projr (prepare sample_executor sample_request))) = Devin" by code_simp
  from stream_opens_with_first_event [OF run] m show ?thesis by (fastforce simp: newRoutedStream_def)
qed

definition sample_closed :: "(unit, nat) stream_cfg" where
  "sample_closed = \<lparr>sc_state = snd (stream_Close sample_executor sample_client
     (sample_exec_state, newRoutedStream 7 sample_event ''acct_62'' ''up'')), sc_reader = Idle, sc_results = []\<rparr>"

lemma sample_close_step:
  "stream_step sample_executor sample_client
     \<lparr>sc_state = (sample_exec_state, newRoutedStream 7 sample_event ''acct_62'' ''up''), sc_reader = Idle, sc_results = []\<rparr> sample_closed"
  using stream_step.close [of sample_executor sample_client
      "\<lparr>sc_state = (sample_exec_state, newRoutedStream 7 sample_event ''acct_62'' ''up''), sc_reader = Idle, sc_results = []\<rparr>",
      OF prod.collapse [symmetric]]
  by (simp add: sample_closed_def)

lemma sample_closed_over: "rt_terminal (snd (sc_state sample_closed))" "rt_recorded (snd (sc_state sample_closed))"
  by code_simp+

theorem stream_settles_once_witness:
  "calls is_record (fst (sc_state sample_closed)) = calls is_record sample_exec_state + 1"
  using stream_settles_once [OF sample_executor_sel(2) r_into_rtranclp [where r = "stream_step sample_executor sample_client", OF sample_close_step]] sample_closed_over by simp

theorem stream_over_is_final_witness:
  "\<exists>c'. stream_step sample_executor sample_client sample_closed c' \<and>
     calls is_record (fst (sc_state c')) = calls is_record (fst (sc_state sample_closed))"
proof -
  have "stream_step sample_executor sample_client sample_closed
      \<lparr>sc_state = snd (stream_Close sample_executor sample_client (sc_state sample_closed)), sc_reader = sc_reader sample_closed,
       sc_results = sc_results sample_closed\<rparr>"
    by (rule stream_step.close [OF prod.collapse [symmetric]])
  with stream_over_is_final [OF sample_executor_sel(2) this sample_closed_over] show ?thesis by blast
qed

end
