(* ===== verification/Translate_Common.thy ===== *)
theory Translate_Common
  imports Envelope
begin

text \<open>
  The shared part of the protocol translators: \<open>internal/translate/common/common.go\<close> and
  \<open>internal/translate/registry/registry.go\<close>. JSON text is converted by a codec, a parameter:
  \<open>jc_parse\<close> is \<open>json.Unmarshal\<close> of one value, \<open>jc_decode\<close> one \<open>Decoder.Decode\<close> (the value and
  the rest of the input, or an error), \<open>jc_print\<close> is \<open>json.Marshal\<close>, \<open>jc_num\<close> the 64-bit integer
  that \<open>Number\<close> reads from a number literal. Go's \<open>nil\<close> is \<open>JNull\<close>; indexing a missing key of a
  map yields it.

  Shown: SSE frames are undone by \<open>EventData\<close>; shortened tool names are at most 64 bytes long and
  are translated back.
\<close>

record json_codec =
  jc_parse :: "string \<Rightarrow> json option"
  jc_decode :: "string \<Rightarrow> go_error + json \<times> string"
  jc_print :: "json \<Rightarrow> string"
  jc_num :: "string \<Rightarrow> int"
  jc_sha256 :: "string \<Rightarrow> string"


section \<open>Dynamic values\<close>

definition jindex :: "jobject \<Rightarrow> string \<Rightarrow> json" where
  "jindex m k = (case jget m k of None \<Rightarrow> JNull | Some v \<Rightarrow> v)"

definition is_object :: "json \<Rightarrow> bool" where
  "is_object v = (case v of JObj _ \<Rightarrow> True | _ \<Rightarrow> False)"

definition Object :: "json \<Rightarrow> jobject" where
  "Object v = (case v of JObj m \<Rightarrow> m | _ \<Rightarrow> [])"

definition Array :: "json \<Rightarrow> json list" where
  "Array v = (case v of JArr xs \<Rightarrow> xs | _ \<Rightarrow> [])"

definition StringOf :: "json \<Rightarrow> string" where
  "StringOf v = (case v of JStr s \<Rightarrow> s | _ \<Rightarrow> [])"

definition NumberOf :: "json_codec \<Rightarrow> json \<Rightarrow> int" where
  "NumberOf c v = (case v of JNum s \<Rightarrow> jc_num c s | _ \<Rightarrow> 0)"

abbreviation str_field :: "jobject \<Rightarrow> string \<Rightarrow> string" where
  "str_field m k \<equiv> StringOf (jindex m k)"

abbreviation obj_field :: "jobject \<Rightarrow> string \<Rightarrow> jobject" where
  "obj_field m k \<equiv> Object (jindex m k)"

fun CopyFields :: "jobject \<Rightarrow> jobject \<Rightarrow> string list \<Rightarrow> jobject" where
  "CopyFields dst src [] = dst"
| "CopyFields dst src (k # ks) =
     CopyFields (case jget src k of None \<Rightarrow> dst | Some v \<Rightarrow> jset dst k v) src ks"

text \<open>Decimal integers, as \<open>json.Marshal\<close> writes an \<open>int\<close> or \<open>int64\<close>.\<close>

fun nat_decimal :: "nat \<Rightarrow> string" where
  "nat_decimal n = (if n < 10 then [char_of (48 + n)] else nat_decimal (n div 10) @ [char_of (48 + n mod 10)])"

declare nat_decimal.simps [simp del]

definition itoa :: "int \<Rightarrow> string" where
  "itoa i = (if i < 0 then CHR ''-'' # nat_decimal (nat (- i)) else nat_decimal (nat i))"

text \<open>A decimal number is read back, so two integers with the same digits are equal.\<close>

definition decimal_value :: "string \<Rightarrow> nat" where
  "decimal_value s = foldl (\<lambda>n ch. 10 * n + (of_char ch - 48)) 0 s"

lemma decimal_value_nat: "decimal_value (nat_decimal n) = n"
proof (induction n rule: nat_decimal.induct)
  case (1 n)
  have digit: "of_char (char_of (48 + d) :: char) - 48 = d" if "d < 10" for d :: nat
    using that by (simp add: of_char_of)
  show ?case using 1 by (subst nat_decimal.simps) (simp add: decimal_value_def digit)
qed

lemma nat_decimal_digit: "hd (nat_decimal n) \<noteq> CHR ''-''"
proof (induction n rule: nat_decimal.induct)
  case (1 n)
  have ne: "nat_decimal m \<noteq> []" for m by (subst nat_decimal.simps) simp
  have digit: "(char_of (48 + d) :: char) \<noteq> CHR ''-''" if "d < 10" for d :: nat
  proof
    assume "(char_of (48 + d) :: char) = CHR ''-''"
    then have "of_char (char_of (48 + d) :: char) = (45 :: nat)" by simp
    with that show False by (simp add: of_char_of)
  qed
  show ?case using 1 by (subst nat_decimal.simps) (simp add: ne digit)
qed

lemma itoa_eq: "itoa i = itoa j \<longleftrightarrow> i = j"
proof
  assume "itoa i = itoa j"
  moreover have "hd (itoa k) = CHR ''-'' \<longleftrightarrow> k < 0" for k by (simp add: itoa_def nat_decimal_digit)
  ultimately have "i < 0 \<longleftrightarrow> j < 0" and eq: "itoa i = itoa j" by metis+
  then have "decimal_value (nat_decimal (nat \<bar>i\<bar>)) = decimal_value (nat_decimal (nat \<bar>j\<bar>))"
    by (simp add: itoa_def split: if_splits)
  with \<open>i < 0 \<longleftrightarrow> j < 0\<close> show "i = j" unfolding decimal_value_nat by arith
qed simp

abbreviation JInt :: "int \<Rightarrow> json" where
  "JInt i \<equiv> JNum (itoa i)"


section \<open>Requests\<close>

definition DecodeObject :: "json_codec \<Rightarrow> string \<Rightarrow> go_error + jobject" where
  "DecodeObject c body =
     (let malformed = Inl (ErrNew ''malformed JSON request'') in
      case jc_decode c body of
        Inl _ \<Rightarrow> malformed
      | Inr (v, rest) \<Rightarrow>
          if v \<noteq> JNull \<and> \<not> is_object v then malformed
          else case jc_decode c rest of
            Inr _ \<Rightarrow> malformed
          | Inl e \<Rightarrow>
              if e \<noteq> ErrEOF then malformed
              else if v = JNull then Inl (ErrNew ''request body must be a JSON object'')
              else Inr (Object v))"

definition ShortName :: "json_codec \<Rightarrow> string \<Rightarrow> string" where
  "ShortName c name =
     (if length name \<le> 64 then name
      else take 51 name @ ''_'' @ hex_encode (take 6 (jc_sha256 c name)))"

type_synonym names = "string \<Rightarrow> string option"

definition name_of :: "names \<Rightarrow> string \<Rightarrow> string" where
  "name_of m n = (case m n of None \<Rightarrow> [] | Some s \<Rightarrow> s)"

definition tool_name :: "bool \<Rightarrow> json \<Rightarrow> string" where
  "tool_name anthropic v =
     (if anthropic then str_field (Object v) ''name'' else str_field (obj_field (Object v) ''function'') ''name'')"

fun tool_names_loop :: "json_codec \<Rightarrow> bool \<Rightarrow> json list \<Rightarrow> names \<times> names \<Rightarrow> names \<times> names" where
  "tool_names_loop c anthropic [] fr = fr"
| "tool_names_loop c anthropic (v # vs) (forward, reverse) =
     (let name = tool_name anthropic v in
      if name = [] then tool_names_loop c anthropic vs (forward, reverse)
      else let short = ShortName c name in
        tool_names_loop c anthropic vs (forward(name \<mapsto> short), reverse(short \<mapsto> name)))"

definition ToolNames :: "json_codec \<Rightarrow> jobject \<Rightarrow> bool \<Rightarrow> names \<times> names" where
  "ToolNames c request anthropic =
     tool_names_loop c anthropic (Array (jindex request ''tools'')) (Map.empty, Map.empty)"

text \<open>The tool maps of the original request; an undecodable request has none.\<close>

definition toolMaps :: "json_codec \<Rightarrow> bool \<Rightarrow> string \<Rightarrow> names \<times> names" where
  "toolMaps c anthropic original =
     (case DecodeObject c original of Inl _ \<Rightarrow> (Map.empty, Map.empty) | Inr request \<Rightarrow> ToolNames c request anthropic)"

definition ContentText :: "json \<Rightarrow> string" where
  "ContentText content =
     (case content of
        JStr s \<Rightarrow> s
      | _ \<Rightarrow> concat (map (\<lambda>v. let part = Object v; ty = str_field part ''type'' in
          if ty = ''text'' \<or> ty = ''input_text'' \<or> ty = ''output_text'' then str_field part ''text'' else [])
          (Array content)))"


section \<open>Responses\<close>

record token_usage =
  tu_input :: int
  tu_output :: int
  tu_total :: int
  tu_cached :: int
  tu_reasoning :: int

text \<open>\<open>int64\<close> addition wraps.\<close>

definition wrap64 :: "int \<Rightarrow> int" where
  "wrap64 i = (i + 2 ^ 63) mod 2 ^ 64 - 2 ^ 63"

definition Usage :: "json_codec \<Rightarrow> jobject \<Rightarrow> token_usage" where
  "Usage c response =
     (let usage = obj_field response ''usage'';
          input = NumberOf c (jindex usage ''input_tokens'');
          output = NumberOf c (jindex usage ''output_tokens'');
          total = NumberOf c (jindex usage ''total_tokens'')
      in \<lparr>tu_input = input, tu_output = output,
          tu_total = (if total = 0 then wrap64 (input + output) else total),
          tu_cached = NumberOf c (jindex (obj_field usage ''input_tokens_details'') ''cached_tokens''),
          tu_reasoning = NumberOf c (jindex (obj_field usage ''output_tokens_details'') ''reasoning_tokens'')\<rparr>)"

text \<open>\<open>json.Unmarshal\<close> into a fresh \<open>map[string]any\<close>; \<open>null\<close> leaves it nil.\<close>

definition unmarshal_object :: "json_codec \<Rightarrow> string \<Rightarrow> jobject option" where
  "unmarshal_object c data =
     (case jc_parse c data of Some (JObj m) \<Rightarrow> Some m | Some JNull \<Rightarrow> Some [] | _ \<Rightarrow> None)"

definition is_terminal_type :: "string \<Rightarrow> bool" where
  "is_terminal_type t \<longleftrightarrow> t = ''response.completed'' \<or> t = ''response.incomplete''"

definition terminal_event :: "json_codec \<Rightarrow> string \<Rightarrow> jobject option" where
  "terminal_event c ev =
     (let data = (if take 5 ev = ''data:'' then trimSpace (drop 5 ev) else ev) in
      case unmarshal_object c data of
        None \<Rightarrow> None
      | Some event \<Rightarrow>
          if is_terminal_type (str_field event ''type'') \<and> is_object (jindex event ''response'')
          then Some (obj_field event ''response'') else None)"

definition TerminalResponse :: "json_codec \<Rightarrow> string list \<Rightarrow> go_error + jobject" where
  "TerminalResponse c events =
     (case List.find (\<lambda>r. r \<noteq> None) (map (terminal_event c) (rev events)) of
        Some (Some response) \<Rightarrow> Inr response
      | _ \<Rightarrow> Inl (ErrNew ''canonical event stream has no terminal response''))"

definition StopReason :: "jobject \<Rightarrow> bool \<Rightarrow> string" where
  "StopReason response hasTool =
     (if hasTool then ''tool_calls''
      else if str_field response ''status'' = ''incomplete'' then
        let reason = str_field (obj_field response ''incomplete_details'') ''reason'' in
        if reason = ''max_output_tokens'' \<or> reason = ''max_tokens'' then ''length''
        else if reason = ''content_filter'' then ''content_filter'' else ''stop''
      else ''stop'')"


section \<open>The registry\<close>

definition OpenAIChat :: string where "OpenAIChat = ''openai.chat_completions''"
definition OpenAIResponses :: string where "OpenAIResponses = ''openai.responses''"
definition Anthropic :: string where "Anthropic = ''anthropic.messages''"

type_synonym 't translators = "string \<Rightarrow> 't option"

definition translators_Register :: "string \<Rightarrow> 't option \<Rightarrow> ('t translators, go_error, unit) op" where
  "translators_Register format transform =
     (\<lambda>ts. case transform of
        None \<Rightarrow> (Inl (ErrNew ''translator format and transform are required''), ts)
      | Some t \<Rightarrow>
          if format = [] then (Inl (ErrNew ''translator format and transform are required''), ts)
          else if ts format \<noteq> None then (Inl (ErrNew (''translator already registered: '' @ format)), ts)
          else (Inr (), ts(format \<mapsto> t)))"

definition translators_Get :: "'t translators \<Rightarrow> string \<Rightarrow> 't option" where
  "translators_Get ts format = ts format"

definition blank_char :: "char \<Rightarrow> bool" where
  "blank_char c \<longleftrightarrow> c = CHR '' '' \<or> c = CHR 0x09"

definition newline_char :: "char \<Rightarrow> bool" where
  "newline_char c \<longleftrightarrow> c = CHR 0x0A \<or> c = CHR 0x0D"

definition EventData :: "string \<Rightarrow> string" where
  "EventData event =
     rev (dropWhile newline_char (rev (if take 5 event = ''data:'' then dropWhile blank_char (drop 5 event) else event)))"

definition SSE :: "string \<Rightarrow> string \<Rightarrow> string" where
  "SSE event data =
     (if event \<noteq> [] then ''event: '' @ event @ [CHR 0x0A] else []) @ ''data: '' @ data @ [CHR 0x0A, CHR 0x0A]"

definition JSONEventType :: "json_codec \<Rightarrow> string \<Rightarrow> string" where
  "JSONEventType c event =
     (case unmarshal_object c (EventData event) of None \<Rightarrow> [] | Some m \<Rightarrow> str_field m ''type'')"

definition IsTerminalEvent :: "json_codec \<Rightarrow> string \<Rightarrow> bool" where
  "IsTerminalEvent c event \<longleftrightarrow> is_terminal_type (JSONEventType c event)"


section \<open>Lemmas\<close>

lemma jindex_jset [simp]: "jindex (jset m k v) k' = (if k' = k then v else jindex m k')"
  by (simp add: jindex_def)

lemma Object_simps [simp]: "Object (JObj m) = m" "Object JNull = []" "is_object (JObj m)" "\<not> is_object JNull"
  by (simp_all add: Object_def is_object_def)

lemma Array_JArr [simp]: "Array (JArr xs) = xs" by (simp add: Array_def)

lemma StringOf_JStr [simp]: "StringOf (JStr s) = s" by (simp add: StringOf_def)

lemma length_hex_encode: "length (hex_encode bs) = 2 * length bs"
  by (induction bs) (simp_all add: hex_encode_def)

lemma ShortName_length: "length (ShortName c name) \<le> 64"
  by (simp add: ShortName_def length_hex_encode)

lemma tool_names_loop_spec:
  assumes "inj_on (ShortName c) (set (map (tool_name anthropic) vs) \<union> dom f)"
    and "\<And>n s. f n = Some s \<Longrightarrow> s = ShortName c n \<and> r s = Some n"
    and "tool_names_loop c anthropic vs (f, r) = (f', r')"
  shows "dom f' = dom f \<union> (set (map (tool_name anthropic) vs) - {[]}) \<and>
    (\<forall>n s. f' n = Some s \<longrightarrow> s = ShortName c n \<and> r' s = Some n)"
  using assms
proof (induction vs arbitrary: f r)
  case (Cons v vs)
  let ?n = "tool_name anthropic v"
  show ?case
  proof (cases "?n = []")
    case True
    have "inj_on (ShortName c) (set (map (tool_name anthropic) vs) \<union> dom f)"
      by (rule inj_on_subset [OF Cons.prems(1)]) auto
    from Cons.IH [OF this Cons.prems(2)] Cons.prems(3) True show ?thesis by auto
  next
    case False
    let ?f = "f(?n \<mapsto> ShortName c ?n)" and ?r = "r(ShortName c ?n \<mapsto> ?n)"
    have inj: "inj_on (ShortName c) (set (map (tool_name anthropic) vs) \<union> dom ?f)"
      by (rule inj_on_subset [OF Cons.prems(1)]) auto
    have keep: "s = ShortName c n \<and> ?r s = Some n" if "?f n = Some s" for n s
    proof (cases "n = ?n")
      case False
      with that have "f n = Some s" by simp
      with Cons.prems(2) have s: "s = ShortName c n" "r s = Some n" by auto
      have "ShortName c n \<noteq> ShortName c ?n"
        using inj_onD [OF Cons.prems(1), of n ?n] \<open>f n = Some s\<close> False by (auto simp: dom_def)
      with s show ?thesis by simp
    qed (use that in auto)
    have run: "tool_names_loop c anthropic vs (?f, ?r) = (f', r')"
      using Cons.prems(3) False by (simp add: Let_def)
    have "dom ?f \<union> (set (map (tool_name anthropic) vs) - {[]}) = dom f \<union> (set (map (tool_name anthropic) (v # vs)) - {[]})"
      using False by auto
    with Cons.IH [OF inj keep run] show ?thesis by metis
  qed
qed simp

text \<open>Tool names survive the round trip. Every tool of a request is sent upstream under a name of
  at most 64 bytes, and unless two different tool names of the request collide after shortening,
  the name that comes back from upstream is mapped to the client's own name.\<close>

theorem tool_names_roundtrip:
  assumes "ToolNames c request anthropic = (forward, reverse)"
    and "inj_on (ShortName c) (set (map (tool_name anthropic) (Array (jindex request ''tools''))))"
    and "name \<in> set (map (tool_name anthropic) (Array (jindex request ''tools'')))" "name \<noteq> []"
  shows "forward name = Some (ShortName c name) \<and> reverse (ShortName c name) = Some name \<and> length (ShortName c name) \<le> 64"
proof -
  have "dom forward = set (map (tool_name anthropic) (Array (jindex request ''tools''))) - {[]} \<and>
    (\<forall>n s. forward n = Some s \<longrightarrow> s = ShortName c n \<and> reverse s = Some n)"
    using tool_names_loop_spec [of c anthropic "Array (jindex request ''tools'')" Map.empty Map.empty forward reverse] assms(1,2)
    by (simp add: ToolNames_def)
  moreover from this assms(3,4) obtain s where "forward name = Some s" by blast
  ultimately show ?thesis using ShortName_length by blast
qed

text \<open>A codec for the sample runs: a table of documents, printed as their names.\<close>

definition table_codec :: "(string \<times> json) list \<Rightarrow> json_codec" where
  "table_codec docs =
     \<lparr>jc_parse = map_of docs,
      jc_decode = (\<lambda>t. case map_of docs t of Some v \<Rightarrow> Inr (v, []) | None \<Rightarrow> Inl (if t = [] then ErrEOF else ErrNew ''syntax'')),
      jc_print = (\<lambda>v. case List.find (\<lambda>(_, w). w = v) docs of Some (t, _) \<Rightarrow> t | None \<Rightarrow> ''?''),
      jc_num = (\<lambda>t. int (length t)),
      jc_sha256 = (\<lambda>t. take 32 (t @ replicate 32 (CHR ''0'')))\<rparr>"

definition sample_tools :: jobject where
  "sample_tools = [(''tools'', JArr [JObj [(''name'', JStr ''search'')], JObj [(''name'', JStr (replicate 70 (CHR ''a'')))]])]"

theorem tool_names_roundtrip_witness:
  "\<exists>forward reverse. ToolNames (table_codec []) sample_tools True = (forward, reverse) \<and>
     length (name_of forward (replicate 70 (CHR ''a''))) = 64 \<and>
     reverse (name_of forward (replicate 70 (CHR ''a''))) = Some (replicate 70 (CHR ''a''))"
proof -
  let ?c = "table_codec []" and ?n = "replicate 70 (CHR ''a'')"
  obtain forward reverse where t: "ToolNames ?c sample_tools True = (forward, reverse)"
    by (cases "ToolNames ?c sample_tools True")
  have names: "map (tool_name True) (Array (jindex sample_tools ''tools'')) = [''search'', ?n]" by code_simp
  have "ShortName ?c ''search'' \<noteq> ShortName ?c ?n" by code_simp
  then have "inj_on (ShortName ?c) (set (map (tool_name True) (Array (jindex sample_tools ''tools''))))"
    unfolding names by (simp add: inj_on_def)
  from tool_names_roundtrip [OF t this, of ?n] have r: "forward ?n = Some (ShortName ?c ?n)" "reverse (ShortName ?c ?n) = Some ?n"
    unfolding names by simp_all
  have "length (ShortName ?c ?n) = 64" by code_simp
  with t r show ?thesis by (simp add: name_of_def)
qed

lemma EventData_data_line:
  assumes "data \<noteq> []" "\<not> blank_char (hd data)" "\<not> newline_char (last data)"
  shows "EventData (''data: '' @ data @ [CHR 0x0A, CHR 0x0A]) = data"
proof -
  obtain x xs where d: "data = x # xs" using assms(1) by (cases data) auto
  obtain ys y where r: "data = ys @ [y]" using assms(1) by (metis rev_exhaust)
  have "dropWhile blank_char (drop 5 (''data: '' @ data @ [CHR 0x0A, CHR 0x0A])) = data @ [CHR 0x0A, CHR 0x0A]"
    using assms(2) by (simp add: d) (simp add: blank_char_def)
  moreover have "rev (dropWhile newline_char (rev (data @ [CHR 0x0A, CHR 0x0A]))) = data"
    using assms(3) by (simp add: r) (simp add: newline_char_def)
  ultimately show ?thesis by (simp add: EventData_def)
qed

end
