(* ===== verification/Search_Inject.thy ===== *)
theory Search_Inject
  imports Translate_Common
begin

text \<open>
  The mandatory search tool (\<open>internal/search/inject.go\<close>): \<open>Inject\<close> adds it to a canonical request,
  \<open>Validate\<close> checks that it is there exactly once. Both are shown equivalent to declarative
  specifications, and \<open>Inject\<close> is idempotent.
\<close>

text \<open>\<open>tool["type"] == "x_search"\<close> compares dynamic values.\<close>

definition is_search :: "json \<Rightarrow> bool" where
  "is_search tool \<longleftrightarrow> jget (Object tool) ''type'' = Some (JStr ''x_search'')"

fun count_search :: "json list \<Rightarrow> nat \<Rightarrow> go_error + nat" where
  "count_search [] n = Inr n"
| "count_search (raw # tools) n =
     (if \<not> is_object raw then Inl (ErrNew ''canonical tool must be an object'')
      else count_search tools (if is_search raw then Suc n else n))"

definition search_disabled :: "jobject \<Rightarrow> bool" where
  "search_disabled request \<longleftrightarrow> jget request ''tool_choice'' = Some (JStr ''none'')"

text \<open>A nil map is \<open>None\<close>.\<close>

definition search_Validate :: "jobject option \<Rightarrow> go_error option" where
  "search_Validate req =
     (case req of
        None \<Rightarrow> Some (ErrNew ''canonical request must be an object'')
      | Some request \<Rightarrow>
          if search_disabled request then Some (ErrNew ''canonical request cannot disable x_search'')
          else case jget request ''tools'' of
            None \<Rightarrow> Some (ErrNew ''canonical request must contain exactly one x_search tool, found 0'')
          | Some (JArr tools) \<Rightarrow>
              (case count_search tools 0 of
                 Inl e \<Rightarrow> Some e
               | Inr n \<Rightarrow> if n \<noteq> 1 then Some (ErrNew (''canonical request must contain exactly one x_search tool, found '' @ itoa (int n)))
                          else None)
          | Some _ \<Rightarrow> Some (ErrNew ''canonical tools must be an array''))"

definition x_search_tool :: json where
  "x_search_tool = JObj [(''type'', JStr ''x_search'')]"

text \<open>The request map is updated in place: the new map and the error, if any. On an early return
  the map is unchanged.\<close>

definition search_Inject :: "jobject option \<Rightarrow> go_error option \<times> jobject option" where
  "search_Inject req =
     (case req of
        None \<Rightarrow> (Some (ErrNew ''canonical request must be an object''), None)
      | Some request \<Rightarrow>
          (case (case jget request ''tools'' of
                   None \<Rightarrow> Inr [] | Some JNull \<Rightarrow> Inr [] | Some (JArr ts) \<Rightarrow> Inr ts
                 | Some _ \<Rightarrow> Inl (ErrNew ''canonical tools must be an array'')) of
             Inl e \<Rightarrow> (Some e, req)
           | Inr tools \<Rightarrow>
               (case count_search tools 0 of
                  Inl e \<Rightarrow> (Some e, req)
                | Inr n \<Rightarrow>
                    if 1 < n then (Some (ErrNew ''canonical request contains duplicate x_search tools''), req)
                    else let r1 = jset request ''tools'' (JArr (if n = 0 then tools @ [x_search_tool] else tools));
                             r2 = (if search_disabled r1 then jset r1 ''tool_choice'' (JStr ''auto'') else r1)
                         in (search_Validate (Some r2), Some r2))))"


section \<open>Specification\<close>

definition searchable :: "jobject \<Rightarrow> bool" where
  "searchable request \<longleftrightarrow>
     (\<exists>tools. jget request ''tools'' = Some (JArr tools) \<and> list_all is_object tools \<and> length (filter is_search tools) = 1) \<and>
     jget request ''tool_choice'' \<noteq> Some (JStr ''none'')"

lemma count_search_spec:
  "count_search tools n =
     (if list_all is_object tools then Inr (n + length (filter is_search tools))
      else Inl (ErrNew ''canonical tool must be an object''))"
  by (induction tools n rule: count_search.induct) auto

lemma search_Validate_spec: "search_Validate (Some request) = None \<longleftrightarrow> searchable request"
  by (auto simp: search_Validate_def searchable_def search_disabled_def count_search_spec
      split: option.splits json.splits sum.splits if_splits)

text \<open>The client's own tools: what is there before the search tool is added.\<close>

definition client_tools :: "jobject \<Rightarrow> json list" where
  "client_tools request = Array (jindex request ''tools'')"

definition injectable :: "jobject \<Rightarrow> bool" where
  "injectable request \<longleftrightarrow>
     (case jget request ''tools'' of None \<Rightarrow> True | Some JNull \<Rightarrow> True
      | Some (JArr ts) \<Rightarrow> list_all is_object ts \<and> length (filter is_search ts) \<le> 1 | Some _ \<Rightarrow> False)"

lemma x_search_tool_is: "is_search x_search_tool" "is_object x_search_tool"
  by (simp_all add: is_search_def x_search_tool_def jget_def)

lemma search_Inject_run:
  assumes "injectable request"
  defines "ts \<equiv> client_tools request"
  defines "r1 \<equiv> jset request ''tools'' (JArr (if filter is_search ts = [] then ts @ [x_search_tool] else ts))"
  shows "search_Inject (Some request) = (None, Some (if search_disabled request then jset r1 ''tool_choice'' (JStr ''auto'') else r1))"
proof -
  have ok: "list_all is_object ts" "length (filter is_search ts) \<le> 1"
    and tools: "(case jget request ''tools'' of
                   None \<Rightarrow> Inr [] | Some JNull \<Rightarrow> Inr [] | Some (JArr ts) \<Rightarrow> Inr ts
                 | Some _ \<Rightarrow> Inl (ErrNew ''canonical tools must be an array'')) = Inr ts"
    using assms(1) by (auto simp: ts_def client_tools_def injectable_def Array_def jindex_def split: option.splits json.splits)
  let ?r2 = "if search_disabled request then jset r1 ''tool_choice'' (JStr ''auto'') else r1"
  have d: "search_disabled r1 = search_disabled request" by (simp add: r1_def search_disabled_def)
  have "length (filter is_search (if filter is_search ts = [] then ts @ [x_search_tool] else ts)) = 1"
    using ok(2) x_search_tool_is(1) by (cases "filter is_search ts") auto
  then have "searchable ?r2"
    using ok(1) x_search_tool_is(2) d by (auto simp: searchable_def r1_def search_disabled_def)
  then have v: "search_Validate (Some ?r2) = None" by (simp only: search_Validate_spec)
  have c: "count_search ts 0 = Inr (length (filter is_search ts))" using ok(1) by (simp add: count_search_spec)
  have e: "jset request ''tools'' (JArr (if length (filter is_search ts) = 0 then ts @ [x_search_tool] else ts)) = r1"
    by (simp add: r1_def)
  show ?thesis
    unfolding search_Inject_def option.case tools sum.case c Let_def e d
    using ok(2) v by simp
qed

lemma search_Inject_ok:
  assumes "injectable request"
  shows "\<exists>r. search_Inject (Some request) = (None, Some r) \<and> searchable r"
proof -
  obtain r where r: "search_Inject (Some request) = (None, Some r)" using search_Inject_run [OF assms] by blast
  then have "searchable r"
    using search_Validate_spec [of r]
    by (auto simp: search_Inject_def Let_def split: option.splits json.splits sum.splits if_splits)
  with r show ?thesis by blast
qed

text \<open>C35: Search cannot be left out. \<open>Inject\<close> succeeds exactly on requests whose tools are absent,
  null or an array of objects with at most one search tool; then the request has exactly one
  search tool, keeps every client tool in order, and no longer disables tools. Everything else is
  refused, and \<open>Validate\<close> accepts exactly the requests with one search tool that is not disabled.\<close>

theorem search_mandatory:
  "(fst (search_Inject (Some request)) = None \<longleftrightarrow> injectable request) \<and>
   (injectable request \<longrightarrow> (\<exists>r. snd (search_Inject (Some request)) = Some r \<and> searchable r \<and>
      filter (\<lambda>t. \<not> is_search t) (client_tools r) = filter (\<lambda>t. \<not> is_search t) (client_tools request) \<and>
      search_Inject (Some r) = (None, Some r))) \<and>
   (search_Validate (Some request) = None \<longleftrightarrow> searchable request)"
proof -
  have "injectable request" if "fst (search_Inject (Some request)) = None"
    using that by (auto simp: search_Inject_def injectable_def count_search_spec split: option.splits json.splits sum.splits if_splits)
  moreover have "\<exists>r. search_Inject (Some request) = (None, Some r) \<and> searchable r \<and>
      filter (\<lambda>t. \<not> is_search t) (client_tools r) = filter (\<lambda>t. \<not> is_search t) (client_tools request) \<and>
      search_Inject (Some r) = (None, Some r)" if inj: "injectable request"
  proof -
    obtain r where r: "search_Inject (Some request) = (None, Some r)" and s: "searchable r"
      using search_Inject_ok [OF inj] by blast
    have t: "filter (\<lambda>t. \<not> is_search t) (client_tools r) = filter (\<lambda>t. \<not> is_search t) (client_tools request)"
      using search_Inject_run [OF inj] r x_search_tool_is(1) by (auto simp: client_tools_def split: if_splits)
    from s obtain tools where tools: "jget r ''tools'' = Some (JArr tools)" "list_all is_object tools"
      "length (filter is_search tools) = 1" and nd: "\<not> search_disabled r"
      by (auto simp: searchable_def search_disabled_def)
    then have ij: "injectable r" and ct: "client_tools r = tools" "filter is_search tools \<noteq> []"
      by (auto simp: injectable_def client_tools_def jindex_def)
    have "search_Inject (Some r) = (None, Some r)"
      using search_Inject_run [OF ij] ct nd jset_same [OF tools(1)] by simp
    with r s t show ?thesis by blast
  qed
  ultimately show ?thesis using search_Validate_spec [of request] by (metis fst_conv snd_conv)
qed

definition sample_search_request :: jobject where
  "sample_search_request = [(''tools'', JArr [JObj [(''type'', JStr ''function''), (''name'', JStr ''f'')]]),
     (''tool_choice'', JStr ''none'')]"

theorem search_mandatory_witness:
  "\<exists>r. snd (search_Inject (Some sample_search_request)) = Some r \<and> searchable r \<and> length (client_tools r) = 2 \<and>
     search_Inject (Some r) = (None, Some r)"
proof -
  have "injectable sample_search_request" by code_simp
  then obtain r where r: "snd (search_Inject (Some sample_search_request)) = Some r" "searchable r"
    "search_Inject (Some r) = (None, Some r)"
    using search_mandatory [of sample_search_request] by blast
  have "length (client_tools (the (snd (search_Inject (Some sample_search_request))))) = 2" by code_simp
  with r show ?thesis by auto
qed

end
