(* ===== verification/Translate_Requests.thy ===== *)
theory Translate_Requests
  imports Search_Inject
begin

text \<open>
  From client requests to canonical ones: OpenAI Chat Completions
  (\<open>internal/translate/openai/chatcompletions/request.go\<close>), OpenAI Responses
  (\<open>.../openai/responses/request.go\<close>) and Anthropic Messages
  (\<open>internal/translate/anthropic/request.go\<close>). Each \<open>Request\<close> decodes the body, builds the
  canonical object and marshals it; the construction is the \<open>_canonical\<close> function of the decoded
  object.

  Shown: whatever a translator accepts becomes a well-formed canonical request, and the
  translations of chat and messages requests always take the search tool.
\<close>

abbreviation obj :: "(string \<times> json) list \<Rightarrow> json" where "obj \<equiv> JObj"

definition text_part :: "string \<Rightarrow> string \<Rightarrow> json" where
  "text_part ty t = obj [(''type'', JStr ty), (''text'', JStr t)]"

definition message_item :: "string \<Rightarrow> json list \<Rightarrow> json" where
  "message_item role parts = obj [(''type'', JStr ''message''), (''role'', JStr role), (''content'', JArr parts)]"

definition base_request :: "string \<Rightarrow> bool \<Rightarrow> jobject" where
  "base_request model stream =
     [(''model'', JStr model), (''input'', JArr []), (''stream'', JBool stream), (''store'', JBool False),
      (''parallel_tool_calls'', JBool True), (''include'', JArr [JStr ''reasoning.encrypted_content''])]"

text \<open>The shortened name of a known tool; otherwise the given fallback.\<close>

definition forward_name :: "names \<Rightarrow> string \<Rightarrow> string \<Rightarrow> string" where
  "forward_name forward name fallback = (if name_of forward name \<noteq> [] then name_of forward name else fallback)"


section \<open>Chat Completions\<close>

definition chat_part :: "string \<Rightarrow> string \<Rightarrow> json \<Rightarrow> json list" where
  "chat_part role partType raw =
     (let part = Object raw; ty = str_field part ''type'' in
      if ty = ''text'' then [text_part partType (str_field part ''text'')]
      else if ty = ''image_url'' then
        if role = ''user'' then
          let image = obj_field part ''image_url'' in
          [obj (CopyFields [(''type'', JStr ''input_image''), (''image_url'', JStr (str_field image ''url''))] image [''detail''])]
        else []
      else if ty = ''input_audio'' then
        if role = ''user'' then
          let audio = obj_field part ''input_audio'' in
          [obj [(''type'', JStr ''input_audio''), (''data'', jindex audio ''data''), (''format'', jindex audio ''format'')]]
        else []
      else if ty = ''file'' then
        if role = ''user'' then
          [obj (CopyFields [(''type'', JStr ''input_file'')] (obj_field part ''file'') [''file_data'', ''file_id'', ''filename''])]
        else []
      else [])"

definition chatContent :: "string \<Rightarrow> json \<Rightarrow> go_error + json list" where
  "chatContent role content =
     (let partType = (if role = ''assistant'' then ''output_text'' else ''input_text'') in
      case content of
        JStr t \<Rightarrow> Inr (if t = [] then [] else [text_part partType t])
      | JNull \<Rightarrow> Inr []
      | JArr items \<Rightarrow> Inr (concat (map (chat_part role partType) items))
      | _ \<Rightarrow> Inl (ErrNew ''message content must be a string or array''))"

definition toolOutput :: "json_codec \<Rightarrow> json \<Rightarrow> json" where
  "toolOutput c v = (case v of JStr t \<Rightarrow> JStr t | JArr xs \<Rightarrow> JArr xs | _ \<Rightarrow> JStr (jc_print c v))"

definition chat_call :: "json_codec \<Rightarrow> names \<Rightarrow> json \<Rightarrow> json list" where
  "chat_call c forward rawCall =
     (let call = Object rawCall; function = obj_field call ''function'' in
      if str_field call ''type'' \<noteq> ''function'' then []
      else let name = str_field function ''name'' in
        [obj [(''type'', JStr ''function_call''), (''call_id'', JStr (str_field call ''id'')),
              (''name'', JStr (forward_name forward name (ShortName c name))),
              (''arguments'', JStr (str_field function ''arguments''))]])"

definition chat_message :: "json_codec \<Rightarrow> names \<Rightarrow> json \<Rightarrow> go_error + json list" where
  "chat_message c forward rawMessage =
     (let message = Object rawMessage; role0 = str_field message ''role'' in
      if role0 = [] then Inl (ErrNew ''message role is required'')
      else if role0 = ''tool'' then
        Inr [obj [(''type'', JStr ''function_call_output''), (''call_id'', JStr (str_field message ''tool_call_id'')),
                  (''output'', toolOutput c (jindex message ''content''))]]
      else let role = (if role0 = ''system'' then ''developer'' else role0) in
        case chatContent role (jindex message ''content'') of
          Inl e \<Rightarrow> Inl e
        | Inr parts \<Rightarrow>
            Inr ((if parts \<noteq> [] then [message_item role parts] else []) @
                 (if role = ''assistant'' then concat (map (chat_call c forward) (Array (jindex message ''tool_calls''))) else [])))"

fun chat_input :: "json_codec \<Rightarrow> names \<Rightarrow> json list \<Rightarrow> go_error + json list" where
  "chat_input c forward [] = Inr []"
| "chat_input c forward (m # ms) =
     (case chat_message c forward m of
        Inl e \<Rightarrow> Inl e
      | Inr items \<Rightarrow> (case chat_input c forward ms of Inl e \<Rightarrow> Inl e | Inr rest \<Rightarrow> Inr (items @ rest)))"

definition chat_tool :: "names \<Rightarrow> json \<Rightarrow> json list" where
  "chat_tool forward rawTool =
     (let tool = Object rawTool; function = jindex tool ''function'' in
      if str_field tool ''type'' \<noteq> ''function'' \<or> \<not> is_object function then []
      else let name = str_field (Object function) ''name'' in
        [obj (CopyFields [(''type'', JStr ''function''), (''name'', JStr (forward_name forward name name))] (Object function)
           [''description'', ''parameters'', ''strict''])])"

definition convertToolChoice :: "jobject \<Rightarrow> json \<Rightarrow> names \<Rightarrow> jobject" where
  "convertToolChoice out raw forward =
     (case raw of
        JStr t \<Rightarrow> jset out ''tool_choice'' (JStr t)
      | _ \<Rightarrow>
          let choice = Object raw; function = jindex choice ''function'' in
          if str_field choice ''type'' = ''function'' \<and> is_object function then
            let name = str_field (Object function) ''name'' in
            jset out ''tool_choice'' (obj [(''type'', JStr ''function''), (''name'', JStr (forward_name forward name name))])
          else out)"

definition chat_format :: "jobject \<Rightarrow> json" where
  "chat_format format =
     (if is_object (jindex format ''json_schema'')
      then obj (CopyFields [(''type'', JStr ''json_schema'')] (obj_field format ''json_schema'') [''name'', ''schema'', ''strict'', ''description''])
      else obj [(''type'', JStr (str_field format ''type''))])"

definition chat_canonical :: "json_codec \<Rightarrow> string \<Rightarrow> jobject \<Rightarrow> bool \<Rightarrow> go_error + jobject" where
  "chat_canonical c model0 request stream =
     (case jindex request ''messages'' of
        JArr messages \<Rightarrow>
          let model = (if model0 = [] then str_field request ''model'' else model0);
              forward = fst (ToolNames c request False) in
          (case chat_input c forward messages of
             Inl e \<Rightarrow> Inl e
           | Inr input \<Rightarrow>
               let o1 = jset (base_request model stream) ''input'' (JArr input);
                   tools = Array (jindex request ''tools'');
                   o2 = (if tools \<noteq> [] then jset o1 ''tools'' (JArr (concat (map (chat_tool forward) tools))) else o1);
                   o3 = convertToolChoice o2 (jindex request ''tool_choice'') forward;
                   o4 = jset o3 ''reasoning'' (obj ((''summary'', JStr ''auto'') #
                          (case jget request ''reasoning_effort'' of None \<Rightarrow> [] | Some v \<Rightarrow> [(''effort'', v)])));
                   o5 = (if is_object (jindex request ''response_format'')
                         then jset o4 ''text'' (obj [(''format'', chat_format (obj_field request ''response_format''))]) else o4)
               in Inr (CopyFields o5 request [''metadata'', ''stop'']))
      | _ \<Rightarrow> Inl (ErrNew ''messages must be an array''))"

definition chat_Request :: "json_codec \<Rightarrow> string \<Rightarrow> string \<Rightarrow> bool \<Rightarrow> go_error + string" where
  "chat_Request c model body stream =
     (case DecodeObject c body of Inl e \<Rightarrow> Inl e | Inr request \<Rightarrow>
      map_sum id (\<lambda>out. jc_print c (JObj out)) (chat_canonical c model request stream))"


section \<open>Responses\<close>

fun retype_parts :: "string \<Rightarrow> json list \<Rightarrow> go_error + json list" where
  "retype_parts textType [] = Inr []"
| "retype_parts textType (raw # rest) =
     (if \<not> is_object raw then Inl (ErrNew ''message content items must be objects'')
      else case retype_parts textType rest of
        Inl e \<Rightarrow> Inl e
      | Inr ps \<Rightarrow> Inr ((if str_field (Object raw) ''type'' = ''text'' then obj (jset (Object raw) ''type'' (JStr textType)) else raw) # ps))"

definition normalizeMessage :: "jobject \<Rightarrow> go_error + jobject" where
  "normalizeMessage item =
     (let role0 = str_field item ''role'' in
      if role0 \<notin> {''system'', ''developer'', ''user'', ''assistant''}
      then Inl (ErrNew ''message role must be developer, user, or assistant'')
      else let role = (if role0 = ''system'' then ''developer'' else role0);
               item1 = jset (jset item ''role'' (JStr role)) ''type'' (JStr ''message'');
               textType = (if role = ''assistant'' then ''output_text'' else ''input_text'') in
        case jindex item1 ''content'' of
          JStr t \<Rightarrow> Inr (jset item1 ''content'' (JArr [text_part textType t]))
        | JArr content \<Rightarrow> map_sum id (\<lambda>ps. jset item1 ''content'' (JArr ps)) (retype_parts textType content)
        | _ \<Rightarrow> Inl (ErrNew ''message content must be a string or array''))"

definition other_item_types :: "string list" where
  "other_item_types = [''function_call'', ''function_call_output'', ''reasoning'', ''item_reference'']"

definition response_item :: "json \<Rightarrow> go_error + json" where
  "response_item raw =
     (if \<not> is_object raw then Inl (ErrNew ''input items must be objects'')
      else let item0 = Object raw; kind0 = str_field item0 ''type'';
               untyped = (kind0 = [] \<and> str_field item0 ''role'' \<noteq> []);
               kind = (if untyped then ''message'' else kind0);
               item = (if untyped then jset item0 ''type'' (JStr kind) else item0) in
        if kind = ''message'' then map_sum id JObj (normalizeMessage item)
        else if kind \<in> set other_item_types then Inr (JObj item)
        else Inl (ErrNew ''unsupported input item type''))"

fun response_items :: "json list \<Rightarrow> go_error + json list" where
  "response_items [] = Inr []"
| "response_items (raw # rest) =
     (case response_item raw of
        Inl e \<Rightarrow> Inl e
      | Inr item \<Rightarrow> (case response_items rest of Inl e \<Rightarrow> Inl e | Inr items \<Rightarrow> Inr (item # items)))"

definition mergeInclude :: "json list \<Rightarrow> string \<Rightarrow> json list" where
  "mergeInclude values want = (if list_ex (\<lambda>v. StringOf v = want) values then values else values @ [JStr want])"

definition dropped_fields :: "string list" where
  "dropped_fields = [''max_output_tokens'', ''max_completion_tokens'', ''temperature'', ''top_p'', ''truncation'', ''user'', ''context_management'']"

definition response_input :: "json \<Rightarrow> go_error + json list" where
  "response_input v =
     (case v of
        JStr t \<Rightarrow> Inr [message_item ''user'' [text_part ''input_text'' t]]
      | JArr items \<Rightarrow> response_items items
      | JNull \<Rightarrow> Inl (ErrNew ''input is required'')
      | _ \<Rightarrow> Inl (ErrNew ''input must be a string or array''))"

text \<open>The fields that are set and deleted once the input is normalised.\<close>

definition responses_finish :: "jobject \<Rightarrow> json list \<Rightarrow> jobject" where
  "responses_finish request input =
     (let r1 = jset request ''input'' (JArr input);
          r2 = jset (jset (jset r1 ''stream'' (JBool True)) ''store'' (JBool False)) ''parallel_tool_calls'' (JBool True);
          r3 = jset r2 ''include'' (JArr (mergeInclude (Array (jindex r2 ''include'')) ''reasoning.encrypted_content''));
          r4 = fold (\<lambda>k r. jdel r k) dropped_fields r3;
          tier = str_field r4 ''service_tier''
      in if tier \<noteq> [] \<and> tier \<noteq> ''priority'' then jdel r4 ''service_tier'' else r4)"

definition responses_canonical :: "string \<Rightarrow> jobject \<Rightarrow> go_error + jobject" where
  "responses_canonical model request0 =
     (if model = [] \<and> str_field request0 ''model'' = [] then Inl (ErrNew ''model is required'')
      else let request = (if model \<noteq> [] then jset request0 ''model'' (JStr model) else request0) in
        map_sum id (responses_finish request) (response_input (jindex request ''input'')))"

definition responses_Request :: "json_codec \<Rightarrow> string \<Rightarrow> string \<Rightarrow> bool \<Rightarrow> go_error + string" where
  "responses_Request c model body stream =
     (case DecodeObject c body of Inl e \<Rightarrow> Inl e | Inr request \<Rightarrow>
      map_sum id (\<lambda>out. jc_print c (JObj out)) (responses_canonical model request))"


section \<open>Anthropic Messages\<close>

definition anthropicSystem :: "json \<Rightarrow> go_error + json list" where
  "anthropicSystem v =
     (case v of
        JNull \<Rightarrow> Inr []
      | JStr t \<Rightarrow> Inr [text_part ''input_text'' t]
      | JArr xs \<Rightarrow> Inr (concat (map (\<lambda>raw. let block = Object raw in
            if str_field block ''type'' = ''text'' then [text_part ''input_text'' (str_field block ''text'')] else []) xs))
      | _ \<Rightarrow> Inl (ErrNew ''system must be a string or array''))"

definition data_url :: "jobject \<Rightarrow> string" where
  "data_url source = ''data:'' @ str_field source ''media_type'' @ '';base64,'' @ str_field source ''data''"

definition image_part :: "string \<Rightarrow> json" where
  "image_part url = obj [(''type'', JStr ''input_image''), (''image_url'', JStr url)]"

definition anthropicToolOutput :: "json \<Rightarrow> json" where
  "anthropicToolOutput v =
     (case v of
        JStr t \<Rightarrow> JStr t
      | JArr xs \<Rightarrow> JArr (concat (map (\<lambda>raw. let block = Object raw; ty = str_field block ''type'' in
            if ty = ''text'' then [text_part ''input_text'' (str_field block ''text'')]
            else if ty = ''image'' then [image_part (data_url (obj_field block ''source''))]
            else []) xs))
      | _ \<Rightarrow> JStr [])"

text \<open>The blocks of one message: the items so far and the pending parts; \<open>flush\<close> turns the parts
  into a message.\<close>

type_synonym pending_blocks = "json list \<times> json list"

definition flush :: "string \<Rightarrow> pending_blocks \<Rightarrow> pending_blocks" where
  "flush role st = (case st of (input, parts) \<Rightarrow> if parts \<noteq> [] then (input @ [message_item role parts], []) else (input, parts))"

definition image_parts :: "jobject \<Rightarrow> json list" where
  "image_parts source =
     (if str_field source ''type'' = ''base64'' then [image_part (data_url source)]
      else if str_field source ''url'' \<noteq> [] then [image_part (str_field source ''url'')] else [])"

definition thinking_item :: "jobject \<Rightarrow> json" where
  "thinking_item block =
     obj ([(''type'', JStr ''reasoning''),
           (''summary'', JArr (if str_field block ''thinking'' \<noteq> [] then [text_part ''summary_text'' (str_field block ''thinking'')] else []))] @
          (if str_field block ''signature'' \<noteq> [] then [(''encrypted_content'', JStr (str_field block ''signature''))] else []))"

definition anthropic_block :: "json_codec \<Rightarrow> names \<Rightarrow> string \<Rightarrow> json \<Rightarrow> pending_blocks \<Rightarrow> pending_blocks" where
  "anthropic_block c forward role raw st =
     (let block = Object raw; ty = str_field block ''type''; push = (\<lambda>item. case flush role st of (input, parts) \<Rightarrow> (input @ [item], parts)) in
      if ty = ''text'' then
        (fst st, snd st @ [text_part (if role = ''assistant'' then ''output_text'' else ''input_text'') (str_field block ''text'')])
      else if ty = ''image'' then
        if role = ''user'' then (fst st, snd st @ image_parts (obj_field block ''source'')) else st
      else if ty = ''thinking'' then
        if role = ''assistant'' then push (thinking_item block) else st
      else if ty = ''tool_use'' then
        let name = str_field block ''name'' in
        push (obj [(''type'', JStr ''function_call''), (''call_id'', JStr (ShortName c (str_field block ''id''))),
                   (''name'', JStr (forward_name forward name (ShortName c name))),
                   (''arguments'', JStr (jc_print c (jindex block ''input'')))])
      else if ty = ''tool_result'' then
        push (obj [(''type'', JStr ''function_call_output''), (''call_id'', JStr (ShortName c (str_field block ''tool_use_id''))),
                   (''output'', anthropicToolOutput (jindex block ''content''))])
      else st)"

definition anthropic_message :: "json_codec \<Rightarrow> names \<Rightarrow> json \<Rightarrow> go_error + json list" where
  "anthropic_message c forward rawMessage =
     (let message = Object rawMessage; role = str_field message ''role'' in
      if role \<noteq> ''user'' \<and> role \<noteq> ''assistant'' then Inl (ErrNew ''message role must be user or assistant'')
      else case jindex message ''content'' of
        JStr t \<Rightarrow> Inr [message_item role [text_part (if role = ''assistant'' then ''output_text'' else ''input_text'') t]]
      | JArr blocks \<Rightarrow> Inr (fst (flush role (fold (anthropic_block c forward role) blocks ([], []))))
      | _ \<Rightarrow> Inl (ErrNew ''message content must be a string or array''))"

fun anthropic_input :: "json_codec \<Rightarrow> names \<Rightarrow> json list \<Rightarrow> go_error + json list" where
  "anthropic_input c forward [] = Inr []"
| "anthropic_input c forward (m # ms) =
     (case anthropic_message c forward m of
        Inl e \<Rightarrow> Inl e
      | Inr items \<Rightarrow> (case anthropic_input c forward ms of Inl e \<Rightarrow> Inl e | Inr rest \<Rightarrow> Inr (items @ rest)))"

definition anthropic_tool :: "names \<Rightarrow> json \<Rightarrow> json" where
  "anthropic_tool forward raw =
     (let tool = Object raw; name = str_field tool ''name'' in
      obj (CopyFields [(''type'', JStr ''function''), (''name'', JStr (forward_name forward name name)),
             (''parameters'', jindex tool ''input_schema'')] tool [''description'']))"

definition convertAnthropicChoice :: "jobject \<Rightarrow> json \<Rightarrow> names \<Rightarrow> jobject" where
  "convertAnthropicChoice out raw forward =
     (if \<not> is_object raw then out
      else let choice = Object raw;
               o1 = (case jindex choice ''disable_parallel_tool_use'' of
                       JBool disabled \<Rightarrow> jset out ''parallel_tool_calls'' (JBool (\<not> disabled)) | _ \<Rightarrow> out);
               ty = str_field choice ''type'' in
        if ty \<in> {''auto'', ''any'', ''none''} then
          jset o1 ''tool_choice'' (JStr (if ty = ''any'' then ''required'' else ty))
        else if ty = ''tool'' then
          let name = str_field choice ''name'' in
          jset o1 ''tool_choice'' (obj [(''type'', JStr ''function''), (''name'', JStr (forward_name forward name name))])
        else o1)"

text \<open>Tools, tool choice, thinking and stop sequences, once the input is built.\<close>

definition anthropic_finish :: "jobject \<Rightarrow> names \<Rightarrow> jobject \<Rightarrow> jobject" where
  "anthropic_finish request forward o1 =
     (let tools = Array (jindex request ''tools'');
          o2 = (if tools \<noteq> [] then jset (jset o1 ''tools'' (JArr (map (anthropic_tool forward) tools))) ''tool_choice'' (JStr ''auto'')
                else o1);
          o3 = convertAnthropicChoice o2 (jindex request ''tool_choice'') forward;
          o4 = (if is_object (jindex request ''thinking'') \<and>
                   str_field (obj_field request ''thinking'') ''type'' \<in> {''enabled'', ''adaptive'', ''auto''}
                then jset o3 ''reasoning'' (obj [(''summary'', JStr ''auto'')]) else o3);
          stops = Array (jindex request ''stop_sequences'')
      in if stops \<noteq> [] then jset o4 ''stop'' (JArr stops) else o4)"

definition anthropic_canonical :: "json_codec \<Rightarrow> string \<Rightarrow> jobject \<Rightarrow> bool \<Rightarrow> go_error + jobject" where
  "anthropic_canonical c model0 request stream =
     (case jindex request ''messages'' of
        JArr messages \<Rightarrow>
          let model = (if model0 = [] then str_field request ''model'' else model0) in
          if model = [] then Inl (ErrNew ''model is required'')
          else (case anthropicSystem (jindex request ''system'') of
            Inl e \<Rightarrow> Inl e
          | Inr systemParts \<Rightarrow>
              let forward = fst (ToolNames c request True) in
              (case anthropic_input c forward messages of
                 Inl e \<Rightarrow> Inl e
               | Inr items \<Rightarrow>
                   Inr (anthropic_finish request forward
                     (jset (base_request model stream) ''input''
                        (JArr ((if systemParts \<noteq> [] then [message_item ''developer'' systemParts] else []) @ items))))))
      | _ \<Rightarrow> Inl (ErrNew ''messages must be an array''))"

definition anthropic_Request :: "json_codec \<Rightarrow> string \<Rightarrow> string \<Rightarrow> bool \<Rightarrow> go_error + string" where
  "anthropic_Request c model body stream =
     (case DecodeObject c body of Inl e \<Rightarrow> Inl e | Inr request \<Rightarrow>
      map_sum id (\<lambda>out. jc_print c (JObj out)) (anthropic_canonical c model request stream))"


section \<open>Canonical requests\<close>

definition short_tool :: "json \<Rightarrow> bool" where
  "short_tool v \<longleftrightarrow> str_field (Object v) ''type'' = ''function_call'' \<longrightarrow> length (str_field (Object v) ''name'') \<le> 64"

definition canonical_item :: "json \<Rightarrow> bool" where
  "canonical_item v \<longleftrightarrow> is_object v \<and>
     (let item = Object v; ty = str_field item ''type'' in
      ty \<in> set (''message'' # other_item_types) \<and>
      (ty = ''message'' \<longrightarrow>
         str_field item ''role'' \<notin> {[], ''system'', ''tool''} \<and>
         (\<exists>parts. jindex item ''content'' = JArr parts \<and> list_all is_object parts)))"

definition canonical_request :: "jobject \<Rightarrow> bool" where
  "canonical_request r \<longleftrightarrow>
     jget r ''store'' = Some (JBool False) \<and>
     JStr ''reasoning.encrypted_content'' \<in> set (Array (jindex r ''include'')) \<and>
     (\<exists>items. jget r ''input'' = Some (JArr items) \<and> list_all canonical_item items)"

lemma jget_CopyFields:
  "jget (CopyFields dst src ks) k = (if k \<in> set ks \<and> jget src k \<noteq> None then jget src k else jget dst k)"
  by (induction dst src ks rule: CopyFields.induct) (auto split: option.splits)

lemma jget_literal [simp]: "jget ((k', v) # m) k = (if k' = k then Some v else jget m k)" "jget [] k = None"
  by (simp_all add: jget_def)

lemmas item_simps = jindex_def message_item_def text_part_def image_part_def thinking_item_def other_item_types_def
  canonical_item_def short_tool_def

lemma jindex_CopyFields:
  "k \<notin> set ks \<Longrightarrow> jindex (CopyFields dst src ks) k = jindex dst k"
  by (simp add: jindex_def jget_CopyFields)

lemma tool_names_short:
  assumes "tool_names_loop c anthropic vs (f, r) = (f', r')" "\<And>n s. f n = Some s \<Longrightarrow> length s \<le> 64" "f' n = Some s"
  shows "length s \<le> 64"
  using assms
proof (induction vs arbitrary: f r)
  case (Cons v vs)
  show ?case
  proof (cases "tool_name anthropic v = []")
    case True
    then show ?thesis using Cons.IH [OF _ Cons.prems(2,3)] Cons.prems(1) by simp
  next
    case False
    with Cons.prems(1) have run: "tool_names_loop c anthropic vs
        (f(tool_name anthropic v \<mapsto> ShortName c (tool_name anthropic v)),
         r(ShortName c (tool_name anthropic v) \<mapsto> tool_name anthropic v)) = (f', r')"
      by (simp add: Let_def)
    show ?thesis
      by (rule Cons.IH [OF run _ Cons.prems(3)]) (use Cons.prems(2) ShortName_length in \<open>auto split: if_splits\<close>)
  qed
qed simp

definition short_names :: "names \<Rightarrow> bool" where
  "short_names forward \<longleftrightarrow> (\<forall>n s. forward n = Some s \<longrightarrow> length s \<le> 64)"

lemma ToolNames_short: "short_names (fst (ToolNames c request anthropic))"
  using tool_names_short [of c anthropic "Array (jindex request ''tools'')" Map.empty Map.empty]
  by (cases "ToolNames c request anthropic") (auto simp: ToolNames_def short_names_def)

lemma forward_name_short:
  assumes "short_names forward"
  shows "length (forward_name forward name (ShortName c name')) \<le> 64"
proof (cases "forward name")
  case (Some s)
  with assms have "length s \<le> 64" by (auto simp: short_names_def)
  with Some show ?thesis by (simp add: forward_name_def name_of_def ShortName_length)
qed (simp add: forward_name_def name_of_def ShortName_length)

definition good_item :: "json \<Rightarrow> bool" where
  "good_item v \<longleftrightarrow> canonical_item v \<and> short_tool v"

lemma message_item_good:
  assumes "role \<notin> {[], ''system'', ''tool''}" "list_all is_object parts"
  shows "good_item (message_item role parts)"
  using assms by (simp add: good_item_def item_simps)

lemma chat_part_objects: "list_all is_object (chat_part role partType raw)"
  by (simp add: chat_part_def Let_def text_part_def)

lemma chatContent_objects: "chatContent role content = Inr parts \<Longrightarrow> list_all is_object parts"
  using chat_part_objects by (auto simp: chatContent_def Let_def text_part_def list_all_iff split: json.splits if_splits)

lemma chat_call_good:
  assumes "short_names forward"
  shows "list_all good_item (chat_call c forward rawCall)"
  using forward_name_short [OF assms] by (simp add: chat_call_def Let_def good_item_def item_simps)

lemma list_all_concat_map: "(\<And>x. list_all P (f x)) \<Longrightarrow> list_all P (concat (map f xs))"
  by (induction xs) simp_all

lemma chat_message_good:
  assumes "short_names forward" "chat_message c forward raw = Inr items"
  shows "list_all good_item items"
proof -
  let ?m = "Object raw"
  consider (none) "str_field ?m ''role'' = []" | (tool) "str_field ?m ''role'' = ''tool''"
    | (msg) "str_field ?m ''role'' \<notin> {[], ''tool''}" by auto
  then show ?thesis
  proof cases
    case tool
    with assms(2) show ?thesis by (auto simp: chat_message_def Let_def good_item_def item_simps)
  next
    case msg
    let ?role = "if str_field ?m ''role'' = ''system'' then ''developer'' else str_field ?m ''role''"
    from msg assms(2) obtain parts where p: "chatContent ?role (jindex ?m ''content'') = Inr parts"
      and items: "items = (if parts \<noteq> [] then [message_item ?role parts] else []) @
        (if ?role = ''assistant'' then concat (map (chat_call c forward) (Array (jindex ?m ''tool_calls''))) else [])"
      by (auto simp: chat_message_def Let_def split: sum.splits)
    have "good_item (message_item ?role parts)"
      by (rule message_item_good [OF _ chatContent_objects [OF p]]) (use msg in auto)
    then show ?thesis
      unfolding items using list_all_concat_map [of good_item "chat_call c forward", OF chat_call_good [OF assms(1)]] by simp
  qed (use assms(2) in \<open>simp add: chat_message_def Let_def\<close>)
qed

lemma chat_input_good:
  "short_names forward \<Longrightarrow> chat_input c forward ms = Inr items \<Longrightarrow> list_all good_item items"
  by (induction ms arbitrary: items) (auto dest: chat_message_good split: sum.splits)

lemma chat_tool_good: "list_all (\<lambda>v. is_object v \<and> \<not> is_search v) (chat_tool forward raw)"
  by (simp add: chat_tool_def Let_def is_search_def jget_CopyFields del: CopyFields.simps)

lemma injectable_if_no_search:
  assumes "jget r ''tools'' = Some (JArr ts) \<and> list_all (\<lambda>v. is_object v \<and> \<not> is_search v) ts \<or> jget r ''tools'' = None"
  shows "injectable r"
proof -
  have "filter is_search ts = [] \<and> list_all is_object ts" if "list_all (\<lambda>v. is_object v \<and> \<not> is_search v) ts" for ts
    using that by (induction ts) auto
  with assms show ?thesis by (auto simp: injectable_def)
qed


lemma jget_convertToolChoice: "k \<noteq> ''tool_choice'' \<Longrightarrow> jget (convertToolChoice out raw forward) k = jget out k"
  by (simp add: convertToolChoice_def Let_def split: json.splits)

lemma chat_canonical_good:
  assumes "chat_canonical c model request stream = Inr out"
  shows "canonical_request out \<and> injectable out \<and> jget out ''stream'' = Some (JBool stream) \<and>
    list_all short_tool (Array (jindex out ''input''))"
proof -
  let ?forward = "fst (ToolNames c request False)"
  from assms obtain messages input where m: "jindex request ''messages'' = JArr messages"
      and i: "chat_input c ?forward messages = Inr input"
    by (auto simp: chat_canonical_def Let_def split: json.splits sum.splits)
  from chat_input_good [OF ToolNames_short i] have good: "list_all good_item input" .
  have get: "jget out ''input'' = Some (JArr input)" "jget out ''store'' = Some (JBool False)"
      "jget out ''stream'' = Some (JBool stream)" "jget out ''include'' = Some (JArr [JStr ''reasoning.encrypted_content''])"
      "jget out ''tools'' = (if Array (jindex request ''tools'') \<noteq> []
         then Some (JArr (concat (map (chat_tool ?forward) (Array (jindex request ''tools''))))) else None)"
    using assms m i by (auto simp: chat_canonical_def Let_def jget_CopyFields jget_convertToolChoice base_request_def
        simp del: CopyFields.simps)
  have "injectable out"
    using get(5) list_all_concat_map [of _ "chat_tool ?forward", OF chat_tool_good]
    by (intro injectable_if_no_search) (auto split: if_splits)
  with good get show ?thesis
    by (auto simp: canonical_request_def jindex_def good_item_def list_all_iff)
qed


lemma map_sum_id_Inr: "map_sum id f x = Inr y \<longleftrightarrow> (\<exists>a. x = Inr a \<and> y = f a)"
  by (cases x) auto

lemma StringOf_eq: "t \<noteq> [] \<Longrightarrow> StringOf v = t \<longleftrightarrow> v = JStr t"
  by (auto simp: StringOf_def split: json.splits)

lemma retype_parts_objects: "retype_parts ty content = Inr parts \<Longrightarrow> list_all is_object parts"
  by (induction ty content arbitrary: parts rule: retype_parts.induct) (auto split: if_splits sum.splits)

lemma normalizeMessage_item: "normalizeMessage item = Inr item' \<Longrightarrow> canonical_item (JObj item')"
  using retype_parts_objects
  by (auto simp: normalizeMessage_def Let_def canonical_item_def text_part_def map_sum_id_Inr split: json.splits if_splits)

lemma response_item_canonical:
  assumes "response_item raw = Inr item"
  shows "canonical_item item"
proof (cases "str_field (Object raw) ''type'' = [] \<and> str_field (Object raw) ''role'' \<noteq> [] \<or> str_field (Object raw) ''type'' = ''message''")
  case True
  then show ?thesis using assms
    by (auto simp: response_item_def Let_def map_sum_id_Inr dest: normalizeMessage_item split: if_splits)
next
  case False
  then show ?thesis using assms
    by (auto simp: response_item_def Let_def canonical_item_def other_item_types_def split: if_splits)
qed

lemma response_items_canonical: "response_items raws = Inr items \<Longrightarrow> list_all canonical_item items"
  by (induction raws arbitrary: items) (auto dest: response_item_canonical split: sum.splits)

lemma mergeInclude_has: "want \<noteq> [] \<Longrightarrow> JStr want \<in> set (mergeInclude values want)"
  by (auto simp: mergeInclude_def list_ex_iff StringOf_eq)

lemma jget_drop: "jget (fold (\<lambda>k r. jdel r k) ks r) k = (if k \<in> set ks then None else jget r k)"
  by (induction ks arbitrary: r) auto

lemma jget_responses_finish:
  "jget (responses_finish r input) k =
     (if k = ''input'' then Some (JArr input) else if k = ''stream'' then Some (JBool True)
      else if k = ''store'' then Some (JBool False) else if k = ''parallel_tool_calls'' then Some (JBool True)
      else if k = ''include'' then Some (JArr (mergeInclude (Array (jindex r ''include'')) ''reasoning.encrypted_content''))
      else if k \<in> set dropped_fields then None
      else if k = ''service_tier'' \<and> str_field r k \<noteq> [] \<and> str_field r k \<noteq> ''priority'' then None else jget r k)"
  by (simp add: responses_finish_def Let_def jget_drop jindex_def) (simp add: dropped_fields_def)

lemma response_input_canonical: "response_input v = Inr input \<Longrightarrow> list_all canonical_item input"
  using message_item_good [of "''user''"]
  by (auto simp: response_input_def good_item_def text_part_def dest: response_items_canonical split: json.splits)

lemma responses_canonical_good:
  assumes "responses_canonical model request = Inr out"
  shows "canonical_request out \<and> jget out ''stream'' = Some (JBool True) \<and> str_field out ''model'' \<noteq> [] \<and>
    list_all (\<lambda>k. jget out k = None) dropped_fields \<and> str_field out ''service_tier'' \<in> {[], ''priority''}"
proof -
  define r where "r = (if model \<noteq> [] then jset request ''model'' (JStr model) else request)"
  have model: "str_field r ''model'' \<noteq> []"
    using assms by (auto simp: responses_canonical_def r_def split: if_splits)
  from assms obtain input where input: "list_all canonical_item input" and out: "out = responses_finish r input"
    by (auto simp: responses_canonical_def r_def [symmetric] Let_def map_sum_id_Inr dest: response_input_canonical split: if_splits)
  have "canonical_request out \<and> jget out ''stream'' = Some (JBool True)"
    using input mergeInclude_has [of "''reasoning.encrypted_content''"]
    by (simp add: canonical_request_def jindex_def out jget_responses_finish)
  moreover have "str_field out ''model'' \<noteq> []"
    using model by (simp add: jindex_def out jget_responses_finish dropped_fields_def)
  moreover have "list_all (\<lambda>k. jget out k = None) dropped_fields"
    by (simp add: out jget_responses_finish list_all_iff) (simp add: dropped_fields_def)
  moreover have "str_field out ''service_tier'' \<in> {[], ''priority''}"
    by (simp add: jindex_def out jget_responses_finish dropped_fields_def StringOf_def)
  ultimately show ?thesis by blast
qed


subsection \<open>Anthropic\<close>

definition good_pending :: "pending_blocks \<Rightarrow> bool" where
  "good_pending st \<longleftrightarrow> list_all good_item (fst st) \<and> list_all is_object (snd st)"

lemma flush_good: "role \<in> {''user'', ''assistant''} \<Longrightarrow> good_pending st \<Longrightarrow> good_pending (flush role st)"
  using message_item_good [of role "snd st"] by (auto simp: flush_def good_pending_def split: prod.splits)

lemma tool_item_good:
  assumes "short_names forward"
  shows "good_item (obj [(''type'', JStr ''function_call''), (''call_id'', JStr cid),
      (''name'', JStr (forward_name forward name (ShortName c name))), (''arguments'', a)])"
    "good_item (obj [(''type'', JStr ''function_call_output''), (''call_id'', i), (''output'', out)])"
    "good_item (thinking_item block)"
  using forward_name_short [OF assms] by (simp_all add: good_item_def item_simps)

lemma push_good:
  assumes "role \<in> {''user'', ''assistant''}" "good_pending st" "good_item item"
  shows "good_pending (case flush role st of (input, parts) \<Rightarrow> (input @ [item], parts))"
  using flush_good [OF assms(1,2)] assms(3) by (auto simp: good_pending_def split: prod.splits)

lemma parts_good: "good_pending st \<Longrightarrow> list_all is_object ps \<Longrightarrow> good_pending (fst st, snd st @ ps)"
  by (simp add: good_pending_def)

lemma anthropic_block_good:
  assumes "short_names forward" "role \<in> {''user'', ''assistant''}" "good_pending st"
  shows "good_pending (anthropic_block c forward role raw st)"
  using push_good [OF assms(2,3) tool_item_good(1) [OF assms(1)]] push_good [OF assms(2,3) tool_item_good(2) [OF assms(1)]]
    push_good [OF assms(2,3) tool_item_good(3) [OF assms(1)]] parts_good [OF assms(3)] assms(3)
  by (auto simp: anthropic_block_def Let_def image_parts_def image_part_def text_part_def)

lemma anthropic_message_good:
  assumes "short_names forward" "anthropic_message c forward raw = Inr items"
  shows "list_all good_item items"
proof -
  let ?role = "str_field (Object raw) ''role''"
  have role: "?role \<in> {''user'', ''assistant''}"
    using assms(2) by (auto simp: anthropic_message_def Let_def split: if_splits)
  have "good_pending (fold (anthropic_block c forward ?role) blocks st)" if "good_pending st" for blocks st
    using that by (induction blocks arbitrary: st) (simp_all add: anthropic_block_good [OF assms(1) role])
  from this [of "([], [])"] have "list_all good_item (fst (flush ?role (fold (anthropic_block c forward ?role) blocks ([], []))))" for blocks
    using flush_good [OF role, of "fold (anthropic_block c forward ?role) blocks ([], [])"] by (simp add: good_pending_def)
  then show ?thesis
    using assms(2) role message_item_good [of ?role]
    by (auto simp: anthropic_message_def Let_def text_part_def split: if_splits json.splits)
qed

lemma anthropic_input_good:
  "short_names forward \<Longrightarrow> anthropic_input c forward ms = Inr items \<Longrightarrow> list_all good_item items"
  by (induction ms arbitrary: items) (auto dest: anthropic_message_good split: sum.splits)

lemma anthropicSystem_objects: "anthropicSystem v = Inr parts \<Longrightarrow> list_all is_object parts"
  by (auto simp: anthropicSystem_def Let_def text_part_def list_all_iff split: json.splits if_splits)

lemma anthropic_tool_good: "is_object (anthropic_tool forward raw) \<and> \<not> is_search (anthropic_tool forward raw)"
  by (simp add: anthropic_tool_def Let_def is_search_def jget_CopyFields del: CopyFields.simps)

lemma jget_convertAnthropicChoice:
  "k \<notin> {''tool_choice'', ''parallel_tool_calls''} \<Longrightarrow> jget (convertAnthropicChoice out raw forward) k = jget out k"
  by (simp add: convertAnthropicChoice_def Let_def split: json.splits)

lemma jget_anthropic_finish:
  "k \<notin> {''tools'', ''tool_choice'', ''parallel_tool_calls'', ''reasoning'', ''stop''} \<Longrightarrow>
     jget (anthropic_finish request forward o1) k = jget o1 k"
  "jget (anthropic_finish request forward o1) ''tools'' =
     (if Array (jindex request ''tools'') \<noteq> [] then Some (JArr (map (anthropic_tool forward) (Array (jindex request ''tools''))))
      else jget o1 ''tools'')"
  by (simp_all add: anthropic_finish_def Let_def jget_convertAnthropicChoice)

lemma anthropic_canonical_good:
  assumes "anthropic_canonical c model request stream = Inr out"
  shows "canonical_request out \<and> injectable out \<and> jget out ''stream'' = Some (JBool stream) \<and>
    list_all short_tool (Array (jindex out ''input''))"
proof -
  let ?forward = "fst (ToolNames c request True)"
  from assms obtain messages items parts m where
      sys: "anthropicSystem (jindex request ''system'') = Inr parts" and i: "anthropic_input c ?forward messages = Inr items"
      and out: "out = anthropic_finish request ?forward (jset (base_request m stream) ''input''
        (JArr ((if parts \<noteq> [] then [message_item ''developer'' parts] else []) @ items)))"
    by (auto simp: anthropic_canonical_def Let_def split: json.splits sum.splits if_splits)
  define input where "input = (if parts \<noteq> [] then [message_item ''developer'' parts] else []) @ items"
  have good: "list_all good_item input"
    using anthropic_input_good [OF ToolNames_short i] message_item_good [OF _ anthropicSystem_objects [OF sys], of "''developer''"]
    by (simp add: input_def)
  have get: "jget out ''input'' = Some (JArr input)" "jget out ''store'' = Some (JBool False)"
      "jget out ''stream'' = Some (JBool stream)" "jget out ''include'' = Some (JArr [JStr ''reasoning.encrypted_content''])"
      "jget out ''tools'' = (if Array (jindex request ''tools'') \<noteq> []
         then Some (JArr (map (anthropic_tool ?forward) (Array (jindex request ''tools'')))) else None)"
    by (simp_all add: out input_def jget_anthropic_finish base_request_def)
  have "injectable out"
    using get(5) anthropic_tool_good [of ?forward]
    by (intro injectable_if_no_search) (auto simp: list_all_iff split: if_splits)
  with good get show ?thesis
    by (auto simp: canonical_request_def jindex_def good_item_def list_all_iff)
qed

text \<open>C21: Whatever the translators accept becomes a canonical request. Its \<open>input\<close> is an array of
  items of the five known types, messages carry a non-empty role other than \<open>system\<close> and \<open>tool\<close>
  and an array of content objects, \<open>store\<close> is false and encrypted reasoning is included. Chat and
  messages requests send tool names of at most 64 bytes and always take the mandatory search tool;
  responses requests lose the unsupported fields and every service tier but \<open>priority\<close>.\<close>

theorem translated_requests_canonical:
  "(chat_Request c model body stream = Inr t \<longrightarrow>
      (\<exists>out r. t = jc_print c (JObj out) \<and> canonical_request out \<and> jget out ''stream'' = Some (JBool stream) \<and>
         list_all short_tool (Array (jindex out ''input'')) \<and> search_Inject (Some out) = (None, Some r) \<and> searchable r)) \<and>
   (anthropic_Request c model body stream = Inr t \<longrightarrow>
      (\<exists>out r. t = jc_print c (JObj out) \<and> canonical_request out \<and> jget out ''stream'' = Some (JBool stream) \<and>
         list_all short_tool (Array (jindex out ''input'')) \<and> search_Inject (Some out) = (None, Some r) \<and> searchable r)) \<and>
   (responses_Request c model body stream = Inr t \<longrightarrow>
      (\<exists>out. t = jc_print c (JObj out) \<and> canonical_request out \<and> str_field out ''model'' \<noteq> [] \<and>
         list_all (\<lambda>k. jget out k = None) dropped_fields \<and> str_field out ''service_tier'' \<in> {[], ''priority''}))"
proof -
  have inject: "\<exists>r. search_Inject (Some out) = (None, Some r) \<and> searchable r" if "injectable out" for out
    by (rule search_Inject_ok [OF that])
  have "\<exists>out r. t = jc_print c (JObj out) \<and> canonical_request out \<and> jget out ''stream'' = Some (JBool stream) \<and>
      list_all short_tool (Array (jindex out ''input'')) \<and> search_Inject (Some out) = (None, Some r) \<and> searchable r"
    if "chat_Request c model body stream = Inr t"
    using that chat_canonical_good [of c model _ stream] inject
    by (fastforce simp: chat_Request_def map_sum_id_Inr split: sum.splits)
  moreover have "\<exists>out r. t = jc_print c (JObj out) \<and> canonical_request out \<and> jget out ''stream'' = Some (JBool stream) \<and>
      list_all short_tool (Array (jindex out ''input'')) \<and> search_Inject (Some out) = (None, Some r) \<and> searchable r"
    if "anthropic_Request c model body stream = Inr t"
    using that anthropic_canonical_good [of c model _ stream] inject
    by (fastforce simp: anthropic_Request_def map_sum_id_Inr split: sum.splits)
  moreover have "\<exists>out. t = jc_print c (JObj out) \<and> canonical_request out \<and> str_field out ''model'' \<noteq> [] \<and>
      list_all (\<lambda>k. jget out k = None) dropped_fields \<and> str_field out ''service_tier'' \<in> {[], ''priority''}"
    if "responses_Request c model body stream = Inr t"
    using that responses_canonical_good [of model]
    by (fastforce simp: responses_Request_def map_sum_id_Inr split: sum.splits)
  ultimately show ?thesis by blast
qed

definition sample_chat_request :: jobject where
  "sample_chat_request =
     [(''model'', JStr ''grok''),
      (''messages'', JArr [JObj [(''role'', JStr ''system''), (''content'', JStr ''be brief'')],
                        JObj [(''role'', JStr ''user''), (''content'', JStr ''hi'')]]),
      (''tools'', JArr [JObj [(''type'', JStr ''function''), (''function'', JObj [(''name'', JStr ''f'')])]])]"

theorem translated_requests_canonical_witness:
  "\<exists>out r. chat_Request (table_codec [(''R'', JObj sample_chat_request)]) [] ''R'' True =
       Inr (jc_print (table_codec [(''R'', JObj sample_chat_request)]) (JObj out)) \<and>
     canonical_request out \<and> search_Inject (Some out) = (None, Some r) \<and> searchable r"
proof -
  let ?c = "table_codec [(''R'', JObj sample_chat_request)]"
  have "chat_Request ?c [] ''R'' True = Inr ''?''" by code_simp
  then show ?thesis using translated_requests_canonical [of ?c "[]" "''R''" True "''?''"] by metis
qed

end
