(* ===== verification/Translate_Chat.thy ===== *)
theory Translate_Chat
  imports Translate_Requests
begin

text \<open>
  From canonical responses to chat completions
  (\<open>internal/translate/openai/chatcompletions/response.go\<close>): \<open>Response\<close> for a finished answer,
  \<open>Stream\<close> for one event. The clock \<open>time.Now().Unix()\<close> is the argument \<open>now\<close>.

  Shown: a streamed answer numbers its tool calls 0, 1, 2, ..., argument fragments belong to
  announced calls, and \<open>tool_calls\<close> is the finish reason exactly when a call was announced.
\<close>

record cstream =
  cs_ID :: string
  cs_Model :: string
  cs_Created :: int
  cs_FunctionIndex :: int
  cs_FunctionIndexes :: "string \<Rightarrow> int option"
  cs_OutputFunctionIndexes :: "int \<Rightarrow> int option"
  cs_FunctionArgumentsSeen :: "int \<Rightarrow> bool"
  cs_HasClientTool :: bool
  cs_TextSeen :: bool

definition new_cstream :: "string \<Rightarrow> int \<Rightarrow> cstream" where
  "new_cstream model now =
     \<lparr>cs_ID = [], cs_Model = model, cs_Created = now, cs_FunctionIndex = -1, cs_FunctionIndexes = Map.empty,
      cs_OutputFunctionIndexes = Map.empty, cs_FunctionArgumentsSeen = (\<lambda>_. False), cs_HasClientTool = False,
      cs_TextSeen = False\<rparr>"


section \<open>A finished answer\<close>

definition chat_usage :: "json_codec \<Rightarrow> jobject \<Rightarrow> jobject" where
  "chat_usage c response =
     (let u = Usage c response in
      [(''prompt_tokens'', JInt (tu_input u)), (''completion_tokens'', JInt (tu_output u)), (''total_tokens'', JInt (tu_total u))] @
      (if tu_cached u > 0 then [(''prompt_tokens_details'', JObj [(''cached_tokens'', JInt (tu_cached u))])] else []) @
      (if tu_reasoning u > 0 then [(''completion_tokens_details'', JObj [(''reasoning_tokens'', JInt (tu_reasoning u))])] else []))"

definition output_text :: "jobject \<Rightarrow> string" where
  "output_text item =
     concat (map (\<lambda>p. if str_field (Object p) ''type'' = ''output_text'' then str_field (Object p) ''text'' else [])
       (Array (jindex item ''content'')))"

definition chat_tool_call :: "names \<Rightarrow> jobject \<Rightarrow> json" where
  "chat_tool_call reverse item =
     obj [(''id'', JStr (str_field item ''call_id'')), (''type'', JStr ''function''),
          (''function'', JObj [(''name'', JStr (forward_name reverse (str_field item ''name'') (str_field item ''name''))),
                               (''arguments'', JStr (str_field item ''arguments''))])]"

text \<open>The text, the reasoning and the tool calls collected from the output items.\<close>

fun chat_output :: "names \<Rightarrow> json list \<Rightarrow> string \<times> string \<times> json list \<Rightarrow> string \<times> string \<times> json list" where
  "chat_output reverse [] acc = acc"
| "chat_output reverse (raw # rest) (t, reasoning, calls) =
     (let item = Object raw; ty = str_field item ''type'' in
      chat_output reverse rest
        (if ty = ''message'' then (t @ output_text item, reasoning, calls)
         else if ty = ''reasoning'' then
           (t, reasoning @ concat (map (\<lambda>s. str_field (Object s) ''text'') (Array (jindex item ''summary''))), calls)
         else if ty = ''function_call'' then (t, reasoning, calls @ [chat_tool_call reverse item])
         else (t, reasoning, calls)))"

definition chat_completion :: "json_codec \<Rightarrow> string \<Rightarrow> names \<Rightarrow> int \<Rightarrow> jobject \<Rightarrow> jobject" where
  "chat_completion c model0 reverse now response =
     (case chat_output reverse (Array (jindex response ''output'')) ([], [], []) of (t, reasoning, calls) \<Rightarrow>
      let m = str_field response ''model'';
          message = [(''role'', JStr ''assistant''), (''content'', JStr t)] @
            (if reasoning \<noteq> [] then [(''reasoning_content'', JStr reasoning)] else []) @
            (if calls \<noteq> [] then [(''tool_calls'', JArr calls)] else []);
          created = NumberOf c (jindex response ''created_at'')
      in [(''id'', JStr (str_field response ''id'')), (''object'', JStr ''chat.completion''),
          (''created'', JInt (if created = 0 then now else created)), (''model'', JStr (if m \<noteq> [] then m else model0)),
          (''choices'', JArr [JObj [(''index'', JInt 0), (''message'', JObj message),
             (''finish_reason'', JStr (StopReason response (calls \<noteq> [])))]]),
          (''usage'', JObj (chat_usage c response))])"

definition chat_Response :: "json_codec \<Rightarrow> string \<Rightarrow> string \<Rightarrow> int \<Rightarrow> string list \<Rightarrow> go_error + string" where
  "chat_Response c model original now events =
     map_sum id (\<lambda>response. jc_print c (JObj (chat_completion c model (snd (toolMaps c False original)) now response)))
       (TerminalResponse c events)"


section \<open>One event\<close>

definition chatFunctionIndex :: "json_codec \<Rightarrow> cstream \<Rightarrow> jobject \<Rightarrow> int option" where
  "chatFunctionIndex c st envelope =
     (let callID = str_field envelope ''call_id'' in
      if callID \<noteq> [] then cs_FunctionIndexes st callID
      else cs_OutputFunctionIndexes st (NumberOf c (jindex envelope ''output_index'')))"

definition announceChatFunction :: "cstream \<Rightarrow> names \<Rightarrow> jobject \<Rightarrow> int \<Rightarrow> string \<Rightarrow> jobject \<times> cstream" where
  "announceChatFunction st reverse item outputIndex arguments =
     (let i = cs_FunctionIndex st + 1;
          key = (if str_field item ''call_id'' = [] then str_field item ''id'' else str_field item ''call_id'');
          name = forward_name reverse (str_field item ''name'') (str_field item ''name'') in
      ([(''role'', JStr ''assistant''),
        (''tool_calls'', JArr [obj [(''index'', JInt i), (''id'', JStr key), (''type'', JStr ''function''),
           (''function'', JObj [(''name'', JStr name), (''arguments'', JStr arguments)])]])],
       st\<lparr>cs_FunctionIndex := i, cs_HasClientTool := True,
          cs_FunctionIndexes := (if key \<noteq> [] then (cs_FunctionIndexes st)(key \<mapsto> i) else cs_FunctionIndexes st),
          cs_OutputFunctionIndexes := (cs_OutputFunctionIndexes st)(outputIndex \<mapsto> i)\<rparr>))"

definition fragment :: "int \<Rightarrow> string \<Rightarrow> jobject" where
  "fragment i arguments =
     [(''tool_calls'', JArr [obj [(''index'', JInt i), (''function'', JObj [(''arguments'', JStr arguments)])]])]"

text \<open>The delta and the finish reason (\<open>JNull\<close> is nil), or no chunk at all.\<close>

definition chat_delta :: "json_codec \<Rightarrow> names \<Rightarrow> jobject \<Rightarrow> cstream \<Rightarrow> (jobject \<times> json) option \<times> cstream" where
  "chat_delta c reverse envelope st =
     (let kind = str_field envelope ''type''; item = obj_field envelope ''item'';
          out = NumberOf c (jindex envelope ''output_index'');
          announced = (\<lambda>arguments. case announceChatFunction st reverse item out arguments of (d, s) \<Rightarrow> (Some (d, JNull), s)) in
      if kind = ''response.output_text.delta'' then
        (Some ([(''role'', JStr ''assistant''), (''content'', JStr (str_field envelope ''delta''))], JNull), st\<lparr>cs_TextSeen := True\<rparr>)
      else if kind = ''response.reasoning_summary_text.delta'' then
        (Some ([(''role'', JStr ''assistant''), (''reasoning_content'', JStr (str_field envelope ''delta''))], JNull), st)
      else if kind = ''response.output_item.added'' then
        (if str_field item ''type'' \<noteq> ''function_call'' then (None, st) else announced [])
      else if kind = ''response.function_call_arguments.delta'' then
        (case chatFunctionIndex c st envelope of
           None \<Rightarrow> (None, st)
         | Some i \<Rightarrow> (Some (fragment i (str_field envelope ''delta''), JNull),
                     st\<lparr>cs_FunctionArgumentsSeen := (cs_FunctionArgumentsSeen st)(i := True)\<rparr>))
      else if kind = ''response.function_call_arguments.done'' then
        (case chatFunctionIndex c st envelope of
           None \<Rightarrow> (None, st)
         | Some i \<Rightarrow> if cs_FunctionArgumentsSeen st i then (None, st)
                     else (Some (fragment i (str_field envelope ''arguments''), JNull), st))
      else if kind = ''response.output_item.done'' then
        (if str_field item ''type'' = ''message'' then
           if cs_TextSeen st \<or> output_text item = [] then (None, st)
           else (Some ([(''role'', JStr ''assistant''), (''content'', JStr (output_text item))], JNull), st\<lparr>cs_TextSeen := True\<rparr>)
         else if str_field item ''type'' = ''function_call'' then
           if chatFunctionIndex c st envelope \<noteq> None then (None, st) else announced (str_field item ''arguments'')
         else (None, st))
      else if is_terminal_type kind then
        (Some ([], JStr (StopReason (obj_field envelope ''response'') (cs_HasClientTool st))), st)
      else (None, st))"

definition chat_chunk :: "json_codec \<Rightarrow> jobject \<Rightarrow> cstream \<Rightarrow> jobject \<times> json \<Rightarrow> jobject" where
  "chat_chunk c envelope st p =
     [(''id'', JStr (cs_ID st)), (''object'', JStr ''chat.completion.chunk''), (''created'', JInt (cs_Created st)),
      (''model'', JStr (cs_Model st)),
      (''choices'', JArr [JObj [(''index'', JInt 0), (''delta'', JObj (fst p)), (''finish_reason'', snd p)]])] @
     (if snd p \<noteq> JNull then [(''usage'', JObj (chat_usage c (obj_field envelope ''response'')))] else [])"

definition chat_created :: "json_codec \<Rightarrow> jobject \<Rightarrow> cstream \<Rightarrow> cstream" where
  "chat_created c response st =
     (let m = str_field response ''model''; created = NumberOf c (jindex response ''created_at'') in
      st\<lparr>cs_ID := str_field response ''id'', cs_Model := (if m \<noteq> [] then m else cs_Model st),
         cs_Created := (if created > 0 then created else cs_Created st)\<rparr>)"

definition chat_event :: "json_codec \<Rightarrow> names \<Rightarrow> jobject \<Rightarrow> cstream \<Rightarrow> jobject list \<times> cstream" where
  "chat_event c reverse envelope st =
     (if str_field envelope ''type'' = ''response.created'' then ([], chat_created c (obj_field envelope ''response'') st)
      else case chat_delta c reverse envelope st of
        (None, s) \<Rightarrow> ([], s)
      | (Some p, s) \<Rightarrow> ([chat_chunk c envelope s p], s))"

definition chat_Stream :: "json_codec \<Rightarrow> string \<Rightarrow> string \<Rightarrow> int \<Rightarrow> string \<Rightarrow> cstream option \<Rightarrow> string list \<times> cstream" where
  "chat_Stream c model original now event state =
     (let st = (case state of None \<Rightarrow> new_cstream model now | Some s \<Rightarrow> s) in
      case unmarshal_object c (EventData event) of
        None \<Rightarrow> ([], st)
      | Some envelope \<Rightarrow>
          (case chat_event c (snd (toolMaps c False original)) envelope st of
             (chunks, s) \<Rightarrow> (map (\<lambda>o'. jc_print c (JObj o')) chunks, s)))"


section \<open>Tool calls of a stream\<close>

definition chunk_choice :: "jobject \<Rightarrow> jobject" where
  "chunk_choice chunk = (case Array (jindex chunk ''choices'') of [] \<Rightarrow> [] | v # _ \<Rightarrow> Object v)"

text \<open>The client's view with \<open>n\<close> calls announced so far: a new call has the index \<open>n\<close>, a fragment one
  below \<open>n\<close>, and the finish reason tells whether there were calls.\<close>

definition chunk_step :: "jobject \<Rightarrow> nat \<Rightarrow> nat option" where
  "chunk_step chunk n =
     (let delta = obj_field (chunk_choice chunk) ''delta''; finish = jindex (chunk_choice chunk) ''finish_reason'' in
      if finish \<noteq> JNull then (if (finish = JStr ''tool_calls'') = (n > 0) then Some n else None)
      else case Array (jindex delta ''tool_calls'') of
        [] \<Rightarrow> Some n
      | call # _ \<Rightarrow>
          if jget (Object call) ''id'' \<noteq> None then (if jindex (Object call) ''index'' = JInt (int n) then Some (Suc n) else None)
          else (if list_ex (\<lambda>i. jindex (Object call) ''index'' = JInt (int i)) [0..<n] then Some n else None))"

fun chunks_ok :: "jobject list \<Rightarrow> nat \<Rightarrow> nat option" where
  "chunks_ok [] n = Some n"
| "chunks_ok (x # xs) n = (case chunk_step x n of None \<Rightarrow> None | Some m \<Rightarrow> chunks_ok xs m)"

definition indexes_below :: "('k \<Rightarrow> int option) \<Rightarrow> nat \<Rightarrow> bool" where
  "indexes_below m n \<longleftrightarrow> (\<forall>i \<in> ran m. 0 \<le> i \<and> i < int n)"

definition chat_inv :: "cstream \<Rightarrow> nat \<Rightarrow> bool" where
  "chat_inv st n \<longleftrightarrow> cs_FunctionIndex st = int n - 1 \<and> (cs_HasClientTool st \<longleftrightarrow> n > 0) \<and>
     indexes_below (cs_FunctionIndexes st) n \<and> indexes_below (cs_OutputFunctionIndexes st) n"

lemma indexes_below_new: "indexes_below m n \<Longrightarrow> i = int n \<Longrightarrow> indexes_below (m(k \<mapsto> i)) (Suc n)"
  by (auto simp: indexes_below_def ran_def)

lemma indexes_below_Suc: "indexes_below m n \<Longrightarrow> indexes_below m (Suc n)"
  by (force simp: indexes_below_def)

lemma chunks_ok_append: "chunks_ok (xs @ ys) n = (case chunks_ok xs n of None \<Rightarrow> None | Some m \<Rightarrow> chunks_ok ys m)"
  by (induction xs n rule: chunks_ok.induct) (simp_all split: option.splits)

lemma chunk_choice_chunk [simp]:
  "chunk_choice (chat_chunk c envelope st p) = [(''index'', JInt 0), (''delta'', JObj (fst p)), (''finish_reason'', snd p)]"
  by (simp add: chunk_choice_def chat_chunk_def jindex_def)

lemma StopReason_tool: "(StopReason response has = ''tool_calls'') = has"
  by (simp add: StopReason_def Let_def)

definition delta_ok :: "(jobject \<times> json) option \<times> cstream \<Rightarrow> nat \<Rightarrow> bool" where
  "delta_ok r n \<longleftrightarrow>
     (case fst r of
        None \<Rightarrow> chat_inv (snd r) n
      | Some p \<Rightarrow> \<exists>m. chat_inv (snd r) m \<and> (\<forall>c e s. chunk_step (chat_chunk c e s p) n = Some m))"

lemma chatFunctionIndex_bound:
  assumes "chat_inv st n" "chatFunctionIndex c st envelope = Some i"
  shows "0 \<le> i \<and> i < int n"
  using assms by (auto simp: chat_inv_def indexes_below_def chatFunctionIndex_def Let_def ran_def split: if_splits)

lemma announce_ok:
  assumes "chat_inv st n" "announceChatFunction st reverse item i a = (d, s)"
  shows "delta_ok (Some (d, JNull), s) n"
proof -
  have "chat_inv s (Suc n)"
    using assms by (auto simp: announceChatFunction_def Let_def chat_inv_def indexes_below_new indexes_below_Suc split: if_splits)
  moreover have "chunk_step (chat_chunk c e s' (d, JNull)) n = Some (Suc n)" for c e s'
    using assms by (auto simp: announceChatFunction_def Let_def chunk_step_def jindex_def chat_inv_def)
  ultimately show ?thesis by (auto simp: delta_ok_def)
qed

lemma fragment_ok:
  assumes "chat_inv st n" "chat_inv s n" "chatFunctionIndex c st envelope = Some i"
  shows "delta_ok (Some (fragment i a, JNull), s) n"
proof -
  obtain k where k: "i = int k" "k < n" using chatFunctionIndex_bound [OF assms(1,3)] by (metis nonneg_int_cases of_nat_less_iff)
  then have "chunk_step (chat_chunk c e s' (fragment i a, JNull)) n = Some n" for c e s'
    by (auto simp: chunk_step_def fragment_def jindex_def list_ex_iff)
  with assms(2) show ?thesis by (auto simp: delta_ok_def)
qed

lemma quiet_ok:
  "chat_inv s n \<Longrightarrow> delta_ok (None, s) n"
  "chat_inv s n \<Longrightarrow> jget d ''tool_calls'' = None \<Longrightarrow> delta_ok (Some (d, JNull), s) n"
  by (auto simp: delta_ok_def chunk_step_def jindex_def Array_def)

lemma chat_inv_update [simp]:
  "chat_inv (st\<lparr>cs_TextSeen := b\<rparr>) n = chat_inv st n" "chat_inv (st\<lparr>cs_FunctionArgumentsSeen := f\<rparr>) n = chat_inv st n"
  "chat_inv (chat_created c r st) n = chat_inv st n"
  by (simp_all add: chat_inv_def chat_created_def Let_def)

lemma finish_ok: "chat_inv st n \<Longrightarrow> delta_ok (Some ([], JStr (StopReason response (cs_HasClientTool st))), st) n"
  by (auto simp: delta_ok_def chunk_step_def jindex_def chat_inv_def StopReason_tool)

lemma chat_delta_ok:
  assumes "chat_inv st n"
  shows "delta_ok (chat_delta c reverse envelope st) n"
  using assms announce_ok [OF assms] fragment_ok [OF assms] quiet_ok finish_ok
  by (simp add: chat_delta_def Let_def split: option.split prod.split)

lemma chat_event_ok:
  assumes "chat_inv st n"
  shows "\<exists>m. chunks_ok (fst (chat_event c reverse envelope st)) n = Some m \<and> chat_inv (snd (chat_event c reverse envelope st)) m"
  using chat_delta_ok [OF assms, of c reverse envelope] assms
  by (auto simp: chat_event_def delta_ok_def split: option.splits prod.splits)

fun chat_run :: "json_codec \<Rightarrow> string \<Rightarrow> string \<Rightarrow> int \<Rightarrow> string list \<Rightarrow> cstream option \<Rightarrow> string list \<times> cstream option" where
  "chat_run c model original now [] state = ([], state)"
| "chat_run c model original now (event # events) state =
     (case chat_Stream c model original now event state of (out, st) \<Rightarrow>
      case chat_run c model original now events (Some st) of (outs, state') \<Rightarrow> (out @ outs, state'))"


text \<open>The tool calls of a streamed chat completion are numbered 0, 1, 2, ... in the order they are
  announced, every argument fragment belongs to a call announced before it, and the finish reason
  is \<open>tool_calls\<close> exactly when a call was announced. This holds for every sequence of upstream
  events, malformed ones included.\<close>

theorem chat_stream_tool_calls:
  "\<exists>chunks n. fst (chat_run c model original now events None) = map (\<lambda>o'. jc_print c (JObj o')) chunks \<and>
     chunks_ok chunks 0 = Some n"
proof -
  have "\<exists>chunks m. fst (chat_run c model original now events state) = map (\<lambda>o'. jc_print c (JObj o')) chunks \<and>
      chunks_ok chunks n = Some m"
    if "chat_inv (case state of None \<Rightarrow> new_cstream model now | Some s \<Rightarrow> s) n" for state n
    using that
  proof (induction events arbitrary: state n)
    case (Cons event events)
    define st where "st = (case state of None \<Rightarrow> new_cstream model now | Some s \<Rightarrow> s)"
    obtain chunks s m where step: "chat_Stream c model original now event state = (map (\<lambda>o'. jc_print c (JObj o')) chunks, s)"
      "chunks_ok chunks n = Some m" "chat_inv s m"
    proof (cases "unmarshal_object c (EventData event)")
      case None
      then show ?thesis using Cons.prems by (intro that [of "[]" st n]) (simp_all add: chat_Stream_def st_def)
    next
      case (Some e)
      obtain chunks s where ce: "chat_event c (snd (toolMaps c False original)) e st = (chunks, s)" by fastforce
      from chat_event_ok [of st n c "snd (toolMaps c False original)" e] Cons.prems
      obtain m where "chunks_ok chunks n = Some m" "chat_inv s m" by (auto simp: ce st_def [symmetric])
      with Some ce show ?thesis by (intro that [of chunks s m]) (simp_all add: chat_Stream_def st_def [symmetric])
    qed
    from Cons.IH [of "Some s" m] step(3) obtain rest m' where
      "fst (chat_run c model original now events (Some s)) = map (\<lambda>o'. jc_print c (JObj o')) rest" "chunks_ok rest m = Some m'"
      by auto
    with step show ?case
      by (intro exI [of _ "chunks @ rest"] exI [of _ m']) (auto simp: chunks_ok_append split: prod.splits)
  qed simp
  from this [of None 0] show ?thesis by (simp add: chat_inv_def new_cstream_def indexes_below_def)
qed

end
