(* ===== verification/Translate_Anthropic.thy ===== *)
theory Translate_Anthropic
  imports Translate_Requests
begin

text \<open>
  From canonical responses to Anthropic messages
  (\<open>internal/translate/anthropic/response.go\<close>): \<open>Response\<close> for a finished answer, \<open>Stream\<close> for
  one event of a stream, whose state \<open>StreamState\<close> is kept between events.

  A frame is the event name and the payload that \<open>emit\<close> marshals. Go maps with integer keys are
  association lists with distinct keys (\<open>PendingFunctions\<close>, whose size the pump loop needs) or
  partial functions; a map to \<open>string\<close> or \<open>bool\<close> that is only indexed is read with its zero value.

  Shown: the content blocks of a stream open, fill and close one after the other with consecutive
  indexes, as long as no tool call starts inside a text or thinking block and no text arrives
  while a tool block is open; and that a tool call announced inside a text or thinking block always
  gives two blocks with one index, of which at most one is stopped.
\<close>

record astream =
  BlockIndex :: int
  BlockType :: string
  FunctionOutputIndexes :: "string \<Rightarrow> int option"
  OutputBlockIndexes :: "int \<Rightarrow> int option"
  FunctionArgumentsSeen :: "int \<Rightarrow> bool"
  PendingFunctions :: "(int \<times> jobject) list"
  PendingArguments :: "int \<Rightarrow> string"
  PendingDone :: "int \<Rightarrow> bool"
  ActiveFunctionOutput :: int
  FunctionActive :: bool
  HasClientTool :: bool
  Started :: bool
  TextSeen :: bool

definition new_astream :: astream where
  "new_astream =
     \<lparr>BlockIndex = 0, BlockType = [], FunctionOutputIndexes = Map.empty, OutputBlockIndexes = Map.empty,
      FunctionArgumentsSeen = (\<lambda>_. False), PendingFunctions = [], PendingArguments = (\<lambda>_. []),
      PendingDone = (\<lambda>_. False), ActiveFunctionOutput = 0, FunctionActive = False, HasClientTool = False,
      Started = False, TextSeen = False\<rparr>"

type_synonym frame = "string \<times> jobject"
type_synonym astep = "frame list \<times> astream"

definition followed :: "astep \<Rightarrow> (astream \<Rightarrow> astep) \<Rightarrow> astep" where
  "followed r f = (case r of (out, st) \<Rightarrow> case f st of (tail, st') \<Rightarrow> (out @ tail, st'))"


section \<open>Frames\<close>

definition block_start :: "int \<Rightarrow> jobject \<Rightarrow> frame" where
  "block_start i block = (''content_block_start'',
     [(''type'', JStr ''content_block_start''), (''index'', JInt i), (''content_block'', JObj block)])"

definition block_delta :: "int \<Rightarrow> jobject \<Rightarrow> frame" where
  "block_delta i delta = (''content_block_delta'',
     [(''type'', JStr ''content_block_delta''), (''index'', JInt i), (''delta'', JObj delta)])"

definition block_stop :: "int \<Rightarrow> frame" where
  "block_stop i = (''content_block_stop'', [(''type'', JStr ''content_block_stop''), (''index'', JInt i)])"

definition arguments_delta :: "string \<Rightarrow> jobject" where
  "arguments_delta a = [(''type'', JStr ''input_json_delta''), (''partial_json'', JStr a)]"

definition message_start :: "string \<Rightarrow> string \<Rightarrow> frame" where
  "message_start ident model = (''message_start'', [(''type'', JStr ''message_start''), (''message'', JObj
     [(''id'', JStr ident), (''type'', JStr ''message''), (''role'', JStr ''assistant''), (''model'', JStr model),
      (''content'', JArr []), (''stop_reason'', JNull), (''stop_sequence'', JNull),
      (''usage'', JObj [(''input_tokens'', JInt 0), (''output_tokens'', JInt 0)])])])"


section \<open>The closures of Stream\<close>

definition closeBlock :: "astream \<Rightarrow> astep" where
  "closeBlock st =
     (if BlockType st \<noteq> [] then ([block_stop (BlockIndex st)], st\<lparr>BlockIndex := BlockIndex st + 1, BlockType := []\<rparr>)
      else ([], st))"

definition start_block :: "string \<Rightarrow> jobject \<Rightarrow> astream \<Rightarrow> astep" where
  "start_block blockType block st =
     (if BlockType st = blockType then ([], st)
      else followed (closeBlock st) (\<lambda>s. ([block_start (BlockIndex s) block], s\<lparr>BlockType := blockType\<rparr>)))"

text \<open>The smallest key of a non-empty map.\<close>

fun least_key :: "(int \<times> 'a) list \<Rightarrow> int" where
  "least_key [] = 0"
| "least_key [(k, _)] = k"
| "least_key ((k, _) # m) = min k (least_key m)"

definition remove_key :: "int \<Rightarrow> (int \<times> 'a) list \<Rightarrow> (int \<times> 'a) list" where
  "remove_key k m = filter (\<lambda>(k', _). k' \<noteq> k) m"

definition put_key :: "int \<Rightarrow> 'a \<Rightarrow> (int \<times> 'a) list \<Rightarrow> (int \<times> 'a) list" where
  "put_key k v m = (k, v) # remove_key k m"

definition announce_function :: "names \<Rightarrow> astream \<Rightarrow> int \<times> astep" where
  "announce_function reverse st =
     (let key = least_key (PendingFunctions st);
          item = (case map_of (PendingFunctions st) key of None \<Rightarrow> [] | Some m \<Rightarrow> m);
          callID = (if str_field item ''call_id'' = [] then str_field item ''id'' else str_field item ''call_id'');
          name = forward_name reverse (str_field item ''name'') (str_field item ''name'');
          s1 = st\<lparr>PendingFunctions := remove_key key (PendingFunctions st), HasClientTool := True, FunctionActive := True,
                  ActiveFunctionOutput := key, BlockType := ''tool_use'',
                  OutputBlockIndexes := (OutputBlockIndexes st)(key \<mapsto> BlockIndex st)\<rparr>;
          opened = [block_start (BlockIndex st)
            [(''type'', JStr ''tool_use''), (''id'', JStr callID), (''name'', JStr name), (''input'', JObj [])]]
      in (key,
          if PendingArguments st key \<noteq> []
          then (opened @ [block_delta (BlockIndex st) (arguments_delta (PendingArguments st key))],
                s1\<lparr>FunctionArgumentsSeen := (FunctionArgumentsSeen st)(key := True),
                   PendingArguments := (PendingArguments st)(key := [])\<rparr>)
          else (opened, s1)))"

lemma least_key_mem: "m \<noteq> [] \<Longrightarrow> least_key m \<in> fst ` set m"
  by (induction m rule: least_key.induct) (auto simp: min_def)

lemma remove_least_shorter: "m \<noteq> [] \<Longrightarrow> length (remove_key (least_key m) m) < length m"
  using least_key_mem [of m] by (auto simp: remove_key_def intro: length_filter_less)

function pumpFunctions :: "names \<Rightarrow> astream \<Rightarrow> astep" where
  "pumpFunctions reverse st =
     (if FunctionActive st \<or> PendingFunctions st = [] then ([], st)
      else case announce_function reverse st of (key, out, s1) \<Rightarrow>
        if \<not> PendingDone s1 key then (out, s1)
        else case closeBlock (s1\<lparr>PendingDone := (PendingDone s1)(key := False)\<rparr>) of (stop, s2) \<Rightarrow>
          case pumpFunctions reverse (s2\<lparr>FunctionActive := False\<rparr>) of (tail, s3) \<Rightarrow> (out @ stop @ tail, s3))"
  by pat_completeness auto

termination
  by (relation "measure (\<lambda>(_, st). length (PendingFunctions st))")
    (auto simp: announce_function_def closeBlock_def Let_def remove_least_shorter split: if_splits)

declare pumpFunctions.simps [simp del]


section \<open>One event\<close>

definition anthropicFunctionOutputIndex :: "json_codec \<Rightarrow> astream \<Rightarrow> jobject \<Rightarrow> int option" where
  "anthropicFunctionOutputIndex c st envelope =
     (let callID = str_field envelope ''call_id'' in
      if callID \<noteq> [] then FunctionOutputIndexes st callID
      else case jget envelope ''output_index'' of None \<Rightarrow> None | Some v \<Rightarrow> Some (NumberOf c v))"

fun has_refusal :: "json list \<Rightarrow> bool" where
  "has_refusal [] = False"
| "has_refusal (raw # rest) =
     (str_field (Object raw) ''type'' = ''message'' \<and>
        list_ex (\<lambda>p. str_field (Object p) ''type'' = ''refusal'') (Array (jindex (Object raw) ''content'')) \<or>
      has_refusal rest)"

definition anthropicStopReason :: "jobject \<Rightarrow> bool \<Rightarrow> string" where
  "anthropicStopReason response hasTool =
     (let sr = str_field response ''stop_reason'';
          reason = str_field (obj_field response ''incomplete_details'') ''reason'';
          incomplete = (str_field response ''status'' = ''incomplete'') in
      if hasTool then ''tool_use''
      else if sr = ''stop_sequence'' then ''stop_sequence''
      else if sr \<in> {''refusal'', ''content_filter''} then ''refusal''
      else if sr \<in> {''max_output_tokens'', ''max_tokens'', ''length''} then ''max_tokens''
      else if str_field response ''stop_sequence'' \<noteq> [] then ''stop_sequence''
      else if incomplete \<and> reason \<in> {''max_output_tokens'', ''max_tokens''} then ''max_tokens''
      else if incomplete \<and> reason = ''stop_sequence'' then ''stop_sequence''
      else if incomplete \<and> reason \<in> {''content_filter'', ''refusal''} then ''refusal''
      else if has_refusal (Array (jindex response ''output'')) then ''refusal''
      else ''end_turn'')"

definition anthropic_usage :: "json_codec \<Rightarrow> jobject \<Rightarrow> jobject" where
  "anthropic_usage c response =
     (let u = Usage c response in
      [(''input_tokens'', JInt (tu_input u)), (''output_tokens'', JInt (tu_output u))] @
      (if tu_cached u > 0 then [(''cache_read_input_tokens'', JInt (tu_cached u))] else []))"

definition thinking_delta :: "string \<Rightarrow> astream \<Rightarrow> astep" where
  "thinking_delta t st =
     followed (start_block ''thinking'' [(''type'', JStr ''thinking''), (''thinking'', JStr []), (''signature'', JStr [])] st)
       (\<lambda>s. ([block_delta (BlockIndex s) [(''type'', JStr ''thinking_delta''), (''thinking'', JStr t)]], s))"

definition text_delta :: "string \<Rightarrow> astream \<Rightarrow> astep" where
  "text_delta t st =
     followed (start_block ''text'' [(''type'', JStr ''text''), (''text'', JStr [])] (st\<lparr>TextSeen := True\<rparr>))
       (\<lambda>s. ([block_delta (BlockIndex s) [(''type'', JStr ''text_delta''), (''text'', JStr t)]], s))"

definition register_function :: "int \<Rightarrow> jobject \<Rightarrow> astream \<Rightarrow> astream" where
  "register_function outputIndex item st =
     (let s1 = st\<lparr>PendingFunctions := put_key outputIndex item (PendingFunctions st)\<rparr>; callID = str_field item ''call_id'' in
      if callID \<noteq> [] then s1\<lparr>FunctionOutputIndexes := (FunctionOutputIndexes s1)(callID \<mapsto> outputIndex)\<rparr> else s1)"

definition block_of :: "astream \<Rightarrow> int \<Rightarrow> int" where
  "block_of st outputIndex = (case OutputBlockIndexes st outputIndex of None \<Rightarrow> 0 | Some b \<Rightarrow> b)"

definition is_active :: "astream \<Rightarrow> int \<Rightarrow> bool" where
  "is_active st outputIndex \<longleftrightarrow> FunctionActive st \<and> ActiveFunctionOutput st = outputIndex"

text \<open>The active function is done: what is left of its arguments, the end of its block, the next
  function.\<close>

definition finish_active :: "names \<Rightarrow> int \<Rightarrow> astream \<Rightarrow> astep" where
  "finish_active reverse outputIndex st =
     followed
       (if PendingArguments st outputIndex \<noteq> []
        then ([block_delta (block_of st outputIndex) (arguments_delta (PendingArguments st outputIndex))],
              st\<lparr>PendingArguments := (PendingArguments st)(outputIndex := [])\<rparr>)
        else ([], st))
       (\<lambda>s. followed (closeBlock (s\<lparr>PendingDone := (PendingDone s)(outputIndex := False)\<rparr>))
         (\<lambda>s'. pumpFunctions reverse (s'\<lparr>FunctionActive := False\<rparr>)))"

definition arguments_event :: "int \<Rightarrow> string \<Rightarrow> astream \<Rightarrow> astep" where
  "arguments_event outputIndex arguments st =
     (if is_active st outputIndex
      then ([block_delta (block_of st outputIndex) (arguments_delta arguments)],
            st\<lparr>FunctionArgumentsSeen := (FunctionArgumentsSeen st)(outputIndex := True)\<rparr>)
      else ([], st\<lparr>PendingArguments := (PendingArguments st)(outputIndex := PendingArguments st outputIndex @ arguments)\<rparr>))"

definition arguments_done :: "names \<Rightarrow> int \<Rightarrow> string \<Rightarrow> astream \<Rightarrow> astep" where
  "arguments_done reverse outputIndex arguments st =
     (let s1 = (if \<not> FunctionArgumentsSeen st outputIndex \<and> PendingArguments st outputIndex = []
                then st\<lparr>PendingArguments := (PendingArguments st)(outputIndex := arguments)\<rparr> else st);
          s2 = s1\<lparr>PendingDone := (PendingDone s1)(outputIndex := True)\<rparr> in
      if is_active s2 outputIndex then finish_active reverse outputIndex s2 else ([], s2))"

fun message_text :: "json list \<Rightarrow> string \<Rightarrow> string" where
  "message_text [] acc = acc"
| "message_text (raw # parts) acc =
     (let part = Object raw; ty = str_field part ''type'' in
      if ty = ''output_text'' \<or> ty = ''refusal'' then
        let acc1 = acc @ str_field part ''text'' in
        message_text parts (if acc1 = [] then acc1 @ str_field part ''refusal'' else acc1)
      else message_text parts acc)"

definition function_done :: "names \<Rightarrow> int \<Rightarrow> jobject \<Rightarrow> astream \<Rightarrow> astep" where
  "function_done reverse outputIndex item st =
     (let s1 = (if OutputBlockIndexes st outputIndex = None then register_function outputIndex item st else st);
          args = str_field item ''arguments'';
          s2 = (if args \<noteq> [] \<and> PendingArguments s1 outputIndex = [] \<and> \<not> FunctionArgumentsSeen s1 outputIndex
                then s1\<lparr>PendingArguments := (PendingArguments s1)(outputIndex := args)\<rparr> else s1);
          s3 = s2\<lparr>PendingDone := (PendingDone s2)(outputIndex := True)\<rparr> in
      if is_active s3 outputIndex then finish_active reverse outputIndex s3 else pumpFunctions reverse s3)"

definition item_done :: "json_codec \<Rightarrow> names \<Rightarrow> jobject \<Rightarrow> astream \<Rightarrow> astep" where
  "item_done c reverse envelope st =
     (let item = obj_field envelope ''item''; ty = str_field item ''type'' in
      if ty = ''reasoning'' then
        (if BlockType st = ''thinking'' \<and> str_field item ''encrypted_content'' \<noteq> []
         then ([block_delta (BlockIndex st) [(''type'', JStr ''signature_delta''), (''signature'', JStr (str_field item ''encrypted_content''))]], st)
         else ([], st))
      else if ty = ''message'' then
        (if \<not> TextSeen st \<and> message_text (Array (jindex item ''content'')) [] \<noteq> []
         then text_delta (message_text (Array (jindex item ''content'')) []) st else ([], st))
      else if ty = ''function_call'' then
        function_done reverse (NumberOf c (jindex envelope ''output_index'')) item st
      else ([], st))"

definition stream_end :: "json_codec \<Rightarrow> names \<Rightarrow> jobject \<Rightarrow> astream \<Rightarrow> astep" where
  "stream_end c reverse response st =
     followed (pumpFunctions reverse st) (\<lambda>s1.
     followed (if FunctionActive s1 then (case closeBlock s1 of (out, s) \<Rightarrow> (out, s\<lparr>FunctionActive := False\<rparr>)) else ([], s1)) (\<lambda>s2.
     followed (closeBlock s2) (\<lambda>s3.
       ([(''message_delta'', [(''type'', JStr ''message_delta''),
            (''delta'', JObj [(''stop_reason'', JStr (anthropicStopReason response (HasClientTool s3))),
                              (''stop_sequence'', jindex response ''stop_sequence'')]),
            (''usage'', JObj (anthropic_usage c response))]),
         (''message_stop'', [(''type'', JStr ''message_stop'')])], s3))))"

definition stream_event :: "json_codec \<Rightarrow> names \<Rightarrow> string \<Rightarrow> jobject \<Rightarrow> astream \<Rightarrow> astep" where
  "stream_event c reverse model envelope st =
     (let kind = str_field envelope ''type''; item = obj_field envelope ''item'' in
      if kind = ''response.created'' then
        let response = obj_field envelope ''response''; m = str_field response ''model'' in
        ([message_start (str_field response ''id'') (if m \<noteq> [] then m else model)], st\<lparr>Started := True\<rparr>)
      else if kind = ''response.reasoning_summary_text.delta'' then thinking_delta (str_field envelope ''delta'') st
      else if kind = ''response.output_text.delta'' \<or> kind = ''response.refusal.delta'' then
        text_delta (str_field envelope ''delta'') st
      else if kind = ''response.output_item.added'' then
        (if str_field item ''type'' \<noteq> ''function_call'' then ([], st)
         else pumpFunctions reverse (register_function (NumberOf c (jindex envelope ''output_index'')) item st))
      else if kind = ''response.function_call_arguments.delta'' then
        (case anthropicFunctionOutputIndex c st envelope of
           None \<Rightarrow> ([], st) | Some i \<Rightarrow> arguments_event i (str_field envelope ''delta'') st)
      else if kind = ''response.function_call_arguments.done'' then
        (case anthropicFunctionOutputIndex c st envelope of
           None \<Rightarrow> ([], st) | Some i \<Rightarrow> arguments_done reverse i (str_field envelope ''arguments'') st)
      else if kind = ''response.output_item.done'' then item_done c reverse envelope st
      else if is_terminal_type kind then stream_end c reverse (obj_field envelope ''response'') st
      else ([], st))"

text \<open>\<open>Stream\<close>: a nil state is \<open>None\<close>; an event that is not a JSON object changes nothing. The
  output is what \<open>emit\<close> writes.\<close>

definition anthropic_Stream :: "json_codec \<Rightarrow> string \<Rightarrow> string \<Rightarrow> string \<Rightarrow> astream option \<Rightarrow> string list \<times> astream" where
  "anthropic_Stream c model original event state =
     (let st = (case state of None \<Rightarrow> new_astream | Some s \<Rightarrow> s) in
      case unmarshal_object c (EventData event) of
        None \<Rightarrow> ([], st)
      | Some envelope \<Rightarrow>
          (case stream_event c (snd (toolMaps c True original)) model envelope st of
             (out, st') \<Rightarrow> (map (\<lambda>(name, payload). SSE name (jc_print c (JObj payload))) out, st')))"


section \<open>A finished answer\<close>

definition output_content :: "json_codec \<Rightarrow> names \<Rightarrow> json \<Rightarrow> json list" where
  "output_content c reverse raw =
     (let item = Object raw; ty = str_field item ''type'' in
      if ty = ''reasoning'' then
        let thinking = concat (map (\<lambda>s. str_field (Object s) ''text'') (Array (jindex item ''summary''))) in
        if thinking \<noteq> [] \<or> str_field item ''encrypted_content'' \<noteq> []
        then [obj [(''type'', JStr ''thinking''), (''thinking'', JStr thinking), (''signature'', JStr (str_field item ''encrypted_content''))]]
        else []
      else if ty = ''message'' then
        concat (map (\<lambda>p. let part = Object p; pt = str_field part ''type'' in
          if pt = ''output_text'' \<or> pt = ''refusal''
          then [text_part ''text'' (if str_field part ''text'' = [] then str_field part ''refusal'' else str_field part ''text'')]
          else []) (Array (jindex item ''content'')))
      else if ty = ''function_call'' then
        [obj [(''type'', JStr ''tool_use''), (''id'', JStr (str_field item ''call_id'')),
              (''name'', JStr (forward_name reverse (str_field item ''name'') (str_field item ''name''))),
              (''input'', (case jc_parse c (str_field item ''arguments'') of None \<Rightarrow> JObj [] | Some v \<Rightarrow> v))]]
      else [])"

definition is_function_call :: "json \<Rightarrow> bool" where
  "is_function_call raw \<longleftrightarrow> str_field (Object raw) ''type'' = ''function_call''"

definition anthropic_message_of :: "json_codec \<Rightarrow> string \<Rightarrow> names \<Rightarrow> jobject \<Rightarrow> jobject" where
  "anthropic_message_of c model0 reverse response =
     (let output = Array (jindex response ''output'');
          m = str_field response ''model''
      in [(''id'', JStr (str_field response ''id'')), (''type'', JStr ''message''), (''role'', JStr ''assistant''),
          (''model'', JStr (if m \<noteq> [] then m else model0)),
          (''content'', JArr (concat (map (output_content c reverse) output))),
          (''stop_reason'', JStr (anthropicStopReason response (list_ex is_function_call output))),
          (''stop_sequence'', jindex response ''stop_sequence''),
          (''usage'', JObj (anthropic_usage c response))])"

definition anthropic_Response :: "json_codec \<Rightarrow> string \<Rightarrow> string \<Rightarrow> string list \<Rightarrow> go_error + string" where
  "anthropic_Response c model original events =
     map_sum id (\<lambda>response. jc_print c (JObj (anthropic_message_of c model (snd (toolMaps c True original)) response)))
       (TerminalResponse c events)"


section \<open>The block protocol\<close>

text \<open>What a client of the Messages API expects: blocks with consecutive indexes, one at a time,
  deltas only for the open block, and the message ends with no block open. The state is the index
  of the current block and whether it is open.\<close>

definition frame_index :: "frame \<Rightarrow> int \<Rightarrow> bool" where
  "frame_index f i \<longleftrightarrow> jget (snd f) ''index'' = Some (JInt i)"

definition block_step :: "frame \<Rightarrow> int \<times> bool \<Rightarrow> (int \<times> bool) option" where
  "block_step f ph =
     (case ph of (i, isOpen) \<Rightarrow>
        if fst f = ''content_block_start'' then (if \<not> isOpen \<and> frame_index f i then Some (i, True) else None)
        else if fst f = ''content_block_delta'' then (if isOpen \<and> frame_index f i then Some (i, True) else None)
        else if fst f = ''content_block_stop'' then (if isOpen \<and> frame_index f i then Some (i + 1, False) else None)
        else if fst f = ''message_delta'' \<or> fst f = ''message_stop'' then (if isOpen then None else Some ph)
        else Some ph)"

fun block_run :: "frame list \<Rightarrow> int \<times> bool \<Rightarrow> (int \<times> bool) option" where
  "block_run [] ph = Some ph"
| "block_run (f # fs) ph = (case block_step f ph of None \<Rightarrow> None | Some ph' \<Rightarrow> block_run fs ph')"

definition phase :: "astream \<Rightarrow> int \<times> bool" where
  "phase st = (BlockIndex st, BlockType st \<noteq> [])"

definition lawful :: "astream \<Rightarrow> astep \<Rightarrow> bool" where
  "lawful st r \<longleftrightarrow> block_run (fst r) (phase st) = Some (phase (snd r))"

text \<open>The tool block is open exactly while a function is active; functions wait only for it.\<close>

definition tool_open :: "astream \<Rightarrow> bool" where
  "tool_open st \<longleftrightarrow> (FunctionActive st \<longleftrightarrow> BlockType st = ''tool_use'') \<and>
     (FunctionActive st \<longrightarrow> OutputBlockIndexes st (ActiveFunctionOutput st) = Some (BlockIndex st))"

definition pumpable :: "astream \<Rightarrow> bool" where
  "pumpable st \<longleftrightarrow> tool_open st \<and> (FunctionActive st \<or> PendingFunctions st = [] \<or> BlockType st = [])"

definition synced :: "astream \<Rightarrow> bool" where
  "synced st \<longleftrightarrow> tool_open st \<and> (FunctionActive st \<or> PendingFunctions st = [])"

definition sound :: "astream \<Rightarrow> astep \<Rightarrow> bool" where
  "sound st r \<longleftrightarrow> lawful st r \<and> synced (snd r)"

lemma block_run_append:
  "block_run (fs @ gs) ph = (case block_run fs ph of None \<Rightarrow> None | Some ph' \<Rightarrow> block_run gs ph')"
  by (induction fs ph rule: block_run.induct) (simp_all split: option.splits)

lemma frame_steps [simp]:
  "block_step (block_start i b) (i', isOpen) = (if \<not> isOpen \<and> JInt i = JInt i' then Some (i', True) else None)"
  "block_step (block_delta i d) (i', isOpen) = (if isOpen \<and> JInt i = JInt i' then Some (i', True) else None)"
  "block_step (block_stop i) (i', isOpen) = (if isOpen \<and> JInt i = JInt i' then Some (i' + 1, False) else None)"
  by (simp_all add: block_step_def block_start_def block_delta_def block_stop_def frame_index_def)

lemma lawful_followed:
  assumes "lawful st r" "lawful (snd r) (f (snd r))"
  shows "lawful st (followed r f)"
  using assms by (auto simp: lawful_def followed_def block_run_append split: prod.splits)

lemma snd_followed: "snd (followed r f) = snd (f (snd r))"
  by (simp add: followed_def split: prod.splits)

lemma sound_followed:
  assumes "lawful st r" "sound (snd r) (f (snd r))"
  shows "sound st (followed r f)"
  using assms lawful_followed [of st r f] by (simp add: sound_def snd_followed)

lemma lawful_same_phase: "phase s = phase st \<Longrightarrow> lawful s r \<Longrightarrow> lawful st r"
  by (simp add: lawful_def)

lemma closeBlock_lawful: "lawful st (closeBlock st)" "BlockType (snd (closeBlock st)) = []"
  by (auto simp: lawful_def closeBlock_def phase_def)

lemma closeBlock_keeps:
  "FunctionActive (snd (closeBlock st)) = FunctionActive st"
  "PendingFunctions (snd (closeBlock st)) = PendingFunctions st"
  "HasClientTool (snd (closeBlock st)) = HasClientTool st"
  by (auto simp: closeBlock_def)

lemma announce_lawful:
  assumes "announce_function reverse st = (key, r)" "BlockType st = []"
  shows "lawful st r" "FunctionActive (snd r)" "tool_open (snd r)"
  using assms by (auto simp: announce_function_def Let_def lawful_def phase_def tool_open_def split: if_splits)

lemma pumpFunctions_sound: "pumpable st \<Longrightarrow> sound st (pumpFunctions reverse st)"
proof (induction reverse st rule: pumpFunctions.induct)
  case (1 reverse st)
  show ?case
  proof (cases "FunctionActive st \<or> PendingFunctions st = []")
    case True
    then show ?thesis using "1.prems"
      by (subst pumpFunctions.simps) (auto simp: sound_def lawful_def synced_def pumpable_def)
  next
    case False
    with "1.prems" have bt: "BlockType st = []" by (simp add: pumpable_def)
    obtain key out s1 where a: "announce_function reverse st = (key, out, s1)" by (cases "announce_function reverse st") auto
    note al = announce_lawful [OF a bt, simplified]
    show ?thesis
    proof (cases "PendingDone s1 key")
      case False
      with a al \<open>\<not> (FunctionActive st \<or> PendingFunctions st = [])\<close> show ?thesis
        by (subst pumpFunctions.simps) (simp add: sound_def synced_def)
    next
      case True
      let ?s1 = "s1\<lparr>PendingDone := (PendingDone s1)(key := False)\<rparr>"
      obtain stop s2 where cl: "closeBlock ?s1 = (stop, s2)" by (cases "closeBlock ?s1")
      let ?s2 = "s2\<lparr>FunctionActive := False\<rparr>"
      have "pumpable ?s2" using closeBlock_lawful(2) [of ?s1] cl by (simp add: pumpable_def tool_open_def)
      with "1.IH" [OF False a [symmetric] refl _ cl [symmetric]] True
      have IH: "sound ?s2 (pumpFunctions reverse ?s2)" by simp
      have "lawful s1 (stop, s2)"
        by (rule lawful_same_phase [of ?s1]) (use closeBlock_lawful(1) [of ?s1] cl in \<open>simp_all add: phase_def\<close>)
      then have "sound st (followed (out, s1) (\<lambda>_. followed (stop, s2) (\<lambda>_. pumpFunctions reverse ?s2)))"
        using IH al(1) by (auto simp: sound_def lawful_def followed_def block_run_append phase_def split: prod.splits)
      moreover have "pumpFunctions reverse st = followed (out, s1) (\<lambda>_. followed (stop, s2) (\<lambda>_. pumpFunctions reverse ?s2))"
        using False True a cl by (subst pumpFunctions.simps) (auto simp: followed_def split: prod.splits)
      ultimately show ?thesis by simp
    qed
  qed
qed


lemma start_block_lawful:
  assumes "blockType \<noteq> []"
  shows "lawful st (start_block blockType block st)" "BlockType (snd (start_block blockType block st)) = blockType"
proof -
  have "lawful (snd (closeBlock st)) ([block_start (BlockIndex (snd (closeBlock st))) block], (snd (closeBlock st))\<lparr>BlockType := blockType\<rparr>)"
    using assms by (simp add: lawful_def phase_def closeBlock_lawful(2))
  then show "lawful st (start_block blockType block st)"
    by (auto simp: start_block_def intro!: lawful_followed closeBlock_lawful) (simp add: lawful_def)
qed (simp add: start_block_def snd_followed)

lemma start_block_keeps:
  "FunctionActive (snd (start_block blockType block st)) = FunctionActive st"
  "PendingFunctions (snd (start_block blockType block st)) = PendingFunctions st"
  by (simp_all add: start_block_def snd_followed closeBlock_keeps)

lemma delta_sound:
  assumes "synced st" "\<not> FunctionActive st" "phase s = phase st" "FunctionActive s = FunctionActive st"
    "PendingFunctions s = PendingFunctions st" "blockType \<noteq> []" "blockType \<noteq> ''tool_use''"
  shows "sound st (followed (start_block blockType block s) (\<lambda>s. ([block_delta (BlockIndex s) d], s)))"
proof (rule sound_followed)
  show "lawful st (start_block blockType block s)"
    by (rule lawful_same_phase [OF assms(3) start_block_lawful(1) [OF assms(6)]])
  show "sound (snd (start_block blockType block s))
     ([block_delta (BlockIndex (snd (start_block blockType block s))) d], snd (start_block blockType block s))"
    using assms start_block_lawful(2) [OF assms(6), of block s]
    by (simp add: sound_def lawful_def phase_def synced_def tool_open_def start_block_keeps)
qed

lemma thinking_delta_sound: "synced st \<Longrightarrow> \<not> FunctionActive st \<Longrightarrow> sound st (thinking_delta t st)"
  unfolding thinking_delta_def by (rule delta_sound) simp_all

lemma text_delta_sound: "synced st \<Longrightarrow> \<not> FunctionActive st \<Longrightarrow> sound st (text_delta t st)"
  unfolding text_delta_def by (rule delta_sound) (simp_all add: phase_def)

lemma finish_active_sound:
  assumes "tool_open st" "is_active st i"
  shows "sound st (finish_active reverse i st)"
proof -
  have b: "block_of st i = BlockIndex st" and bt: "BlockType st = ''tool_use''"
    using assms by (auto simp: tool_open_def is_active_def block_of_def)
  let ?r = "if PendingArguments st i \<noteq> []
        then ([block_delta (block_of st i) (arguments_delta (PendingArguments st i))],
              st\<lparr>PendingArguments := (PendingArguments st)(i := [])\<rparr>)
        else ([], st)"
  have r: "lawful st ?r" by (simp add: lawful_def b phase_def bt)
  let ?s = "(snd ?r)\<lparr>PendingDone := (PendingDone (snd ?r))(i := False)\<rparr>"
  let ?s' = "(snd (closeBlock ?s))\<lparr>FunctionActive := False\<rparr>"
  have "pumpable ?s'" using closeBlock_lawful(2) [of ?s] by (simp add: pumpable_def tool_open_def)
  then have p: "sound ?s' (pumpFunctions reverse ?s')" by (rule pumpFunctions_sound)
  have "sound (snd ?r) (followed (closeBlock ?s) (\<lambda>s'. pumpFunctions reverse (s'\<lparr>FunctionActive := False\<rparr>)))"
  proof (rule sound_followed)
    show "lawful (snd ?r) (closeBlock ?s)"
      by (rule lawful_same_phase [OF _ closeBlock_lawful(1)]) (simp add: phase_def)
    show "sound (snd (closeBlock ?s)) (pumpFunctions reverse ?s')"
      using p by (simp add: sound_def lawful_def phase_def)
  qed
  then show ?thesis unfolding finish_active_def by (rule sound_followed [OF r])
qed

lemma sound_same_phase: "sound s r \<Longrightarrow> phase s = phase st \<Longrightarrow> sound st r"
  by (simp add: sound_def lawful_def)

lemma arguments_event_sound: "synced st \<Longrightarrow> sound st (arguments_event i a st)"
  by (auto simp: arguments_event_def sound_def lawful_def synced_def tool_open_def is_active_def block_of_def phase_def)

lemma arguments_done_sound:
  assumes "synced st"
  shows "sound st (arguments_done reverse i a st)"
proof -
  define s where "s = (if \<not> FunctionArgumentsSeen st i \<and> PendingArguments st i = []
                then st\<lparr>PendingArguments := (PendingArguments st)(i := a)\<rparr> else st)\<lparr>PendingDone := (PendingDone st)(i := True)\<rparr>"
  have s: "synced s" "phase s = phase st" using assms by (auto simp: s_def synced_def tool_open_def phase_def)
  have "arguments_done reverse i a st = (if is_active s i then finish_active reverse i s else ([], s))"
    by (simp add: arguments_done_def s_def Let_def)
  moreover have "sound s (finish_active reverse i s)" if "is_active s i"
    by (rule finish_active_sound) (use that s(1) in \<open>simp_all add: synced_def\<close>)
  ultimately show ?thesis using s sound_same_phase [of s _ st] by (auto simp: sound_def lawful_def)
qed

lemma register_function_keeps:
  "tool_open (register_function i item st) = tool_open st" "phase (register_function i item st) = phase st"
  "FunctionActive (register_function i item st) = FunctionActive st" "BlockType (register_function i item st) = BlockType st"
  by (simp_all add: register_function_def Let_def tool_open_def phase_def)

lemma function_done_sound:
  assumes "synced st" "FunctionActive st \<or> OutputBlockIndexes st i \<noteq> None \<or> BlockType st = []"
  shows "sound st (function_done reverse i item st)"
proof -
  let ?s1 = "if OutputBlockIndexes st i = None then register_function i item st else st"
  define s where "s = (if str_field item ''arguments'' \<noteq> [] \<and> PendingArguments ?s1 i = [] \<and> \<not> FunctionArgumentsSeen ?s1 i
      then ?s1\<lparr>PendingArguments := (PendingArguments ?s1)(i := str_field item ''arguments'')\<rparr> else ?s1)\<lparr>PendingDone := (PendingDone ?s1)(i := True)\<rparr>"
  have s: "tool_open s" "pumpable s" "phase s = phase st"
    using assms register_function_keeps [of i item st]
    by (auto simp: s_def synced_def tool_open_def phase_def pumpable_def)
  have e: "function_done reverse i item st = (if is_active s i then finish_active reverse i s else pumpFunctions reverse s)"
    by (simp add: function_done_def s_def Let_def)
  have "sound s (function_done reverse i item st)"
    unfolding e using finish_active_sound [OF s(1)] pumpFunctions_sound [OF s(2)] by simp
  then show ?thesis by (rule sound_same_phase) (rule s(3))
qed

text \<open>The events that must not meet an open block of the other kind.\<close>

definition calm :: "json_codec \<Rightarrow> jobject \<Rightarrow> astream \<Rightarrow> bool" where
  "calm c envelope st \<longleftrightarrow>
     (let kind = str_field envelope ''type''; item = obj_field envelope ''item''; ty = str_field item ''type'' in
      (kind \<in> {''response.reasoning_summary_text.delta'', ''response.output_text.delta'', ''response.refusal.delta''} \<or>
       kind = ''response.output_item.done'' \<and> ty = ''message'' \<longrightarrow> \<not> FunctionActive st) \<and>
      (kind = ''response.output_item.added'' \<and> ty = ''function_call'' \<or>
       kind = ''response.output_item.done'' \<and> ty = ''function_call'' \<and>
         OutputBlockIndexes st (NumberOf c (jindex envelope ''output_index'')) = None \<longrightarrow>
         BlockType st \<in> {[], ''tool_use''}))"

lemma unchanged_sound: "synced st \<Longrightarrow> sound st ([], st)"
  by (simp add: sound_def lawful_def)

lemma item_done_sound:
  assumes "synced st" "calm c envelope st" "str_field envelope ''type'' = ''response.output_item.done''"
  shows "sound st (item_done c reverse envelope st)"
proof -
  let ?ty = "str_field (obj_field envelope ''item'') ''type''"
  consider "?ty = ''reasoning''" | "?ty = ''message''" | "?ty = ''function_call''"
    | "?ty \<notin> {''reasoning'', ''message'', ''function_call''}" by auto
  then show ?thesis
  proof cases
    case 1
    then show ?thesis using assms(1) by (auto simp: item_done_def Let_def sound_def lawful_def phase_def)
  next
    case 2
    then show ?thesis using text_delta_sound [OF assms(1)] unchanged_sound [OF assms(1)] assms(2,3)
      by (auto simp: item_done_def Let_def calm_def)
  next
    case 3
    let ?i = "NumberOf c (jindex envelope ''output_index'')"
    have "FunctionActive st \<or> OutputBlockIndexes st ?i \<noteq> None \<or> BlockType st = []"
      using assms 3 by (auto simp: calm_def Let_def synced_def tool_open_def)
    from function_done_sound [OF assms(1) this] show ?thesis using 3 by (simp add: item_done_def Let_def)
  next
    case 4
    then show ?thesis using unchanged_sound [OF assms(1)] by (simp add: item_done_def Let_def)
  qed
qed

lemma final_frames_lawful:
  "BlockType st = [] \<Longrightarrow> lawful st ([(''message_delta'', d), (''message_stop'', e)], st)"
  by (simp add: lawful_def block_step_def phase_def)

lemma stream_end_lawful:
  assumes "synced st"
  shows "lawful st (stream_end c reverse response st)" "BlockType (snd (stream_end c reverse response st)) = []"
    "\<exists>fs d e. fst (stream_end c reverse response st) = fs @ [(''message_delta'', d), (''message_stop'', e)]"
proof -
  have pump: "pumpFunctions reverse st = ([], st)"
    using assms by (subst pumpFunctions.simps) (simp add: synced_def)
  define r where "r = (if FunctionActive st then (case closeBlock st of (out, s) \<Rightarrow> (out, s\<lparr>FunctionActive := False\<rparr>)) else ([], st))"
  have r: "lawful st r"
    using closeBlock_lawful [of st] by (auto simp: r_def lawful_def phase_def split: prod.splits)
  have e: "stream_end c reverse response st = followed r (\<lambda>s2. followed (closeBlock s2) (\<lambda>s3.
       ([(''message_delta'', [(''type'', JStr ''message_delta''),
            (''delta'', JObj [(''stop_reason'', JStr (anthropicStopReason response (HasClientTool s3))),
                              (''stop_sequence'', jindex response ''stop_sequence'')]),
            (''usage'', JObj (anthropic_usage c response))]),
         (''message_stop'', [(''type'', JStr ''message_stop'')])], s3)))"
    by (simp add: stream_end_def pump r_def followed_def split: prod.splits)
  show "lawful st (stream_end c reverse response st)"
    unfolding e by (intro lawful_followed r closeBlock_lawful(1) final_frames_lawful closeBlock_lawful(2))
  show "BlockType (snd (stream_end c reverse response st)) = []" by (simp add: e snd_followed closeBlock_lawful(2))
  show "\<exists>fs d e. fst (stream_end c reverse response st) = fs @ [(''message_delta'', d), (''message_stop'', e)]"
    unfolding e by (auto simp: followed_def split: prod.splits)
qed

lemma stream_event_sound:
  assumes "synced st" "calm c envelope st" "\<not> is_terminal_type (str_field envelope ''type'')"
  shows "sound st (stream_event c reverse model envelope st)"
proof -
  let ?kind = "str_field envelope ''type''" and ?item = "obj_field envelope ''item''"
  have added: "sound st (pumpFunctions reverse (register_function i ?item st))"
    if "?kind = ''response.output_item.added''" "str_field ?item ''type'' = ''function_call''" for i
  proof (rule sound_same_phase [OF pumpFunctions_sound register_function_keeps(2)])
    show "pumpable (register_function i ?item st)"
      using that assms(1,2) register_function_keeps [of i ?item st]
      by (auto simp: pumpable_def calm_def Let_def synced_def tool_open_def)
  qed
  have created: "sound st ([message_start a b], st\<lparr>Started := True\<rparr>)" for a b
    using assms(1) by (auto simp: sound_def lawful_def block_step_def message_start_def phase_def synced_def tool_open_def)
  consider "?kind = ''response.created''" | "?kind = ''response.reasoning_summary_text.delta''"
    | "?kind = ''response.output_text.delta'' \<or> ?kind = ''response.refusal.delta''" | "?kind = ''response.output_item.added''"
    | "?kind = ''response.function_call_arguments.delta''" | "?kind = ''response.function_call_arguments.done''"
    | "?kind = ''response.output_item.done''"
    | "?kind \<notin> {''response.created'', ''response.reasoning_summary_text.delta'', ''response.output_text.delta'',
        ''response.refusal.delta'', ''response.output_item.added'', ''response.function_call_arguments.delta'',
        ''response.function_call_arguments.done'', ''response.output_item.done''}"
    by auto
  then show ?thesis
  proof cases
    case 1
    then show ?thesis using created by (simp add: stream_event_def Let_def)
  next
    case 2
    then show ?thesis using thinking_delta_sound [OF assms(1)] assms(2) by (simp add: stream_event_def Let_def calm_def)
  next
    case 3
    then have na: "\<not> FunctionActive st" using assms(2) by (auto simp: calm_def Let_def)
    from 3 have "stream_event c reverse model envelope st = text_delta (str_field envelope ''delta'') st"
      by (elim disjE) (simp_all add: stream_event_def Let_def)
    with text_delta_sound [OF assms(1) na] show ?thesis by simp
  next
    case 4
    then show ?thesis using added unchanged_sound [OF assms(1)] by (simp add: stream_event_def Let_def)
  next
    case 5
    then show ?thesis using arguments_event_sound [OF assms(1)] unchanged_sound [OF assms(1)]
      by (simp add: stream_event_def Let_def split: option.split)
  next
    case 6
    then show ?thesis using arguments_done_sound [OF assms(1)] unchanged_sound [OF assms(1)]
      by (simp add: stream_event_def Let_def split: option.split)
  next
    case 7
    then show ?thesis using item_done_sound [OF assms(1,2)] by (simp add: stream_event_def Let_def)
  next
    case 8
    then show ?thesis using unchanged_sound [OF assms(1)] assms(3) by (simp add: stream_event_def Let_def)
  qed
qed


section \<open>Whole streams\<close>

text \<open>The calls of \<open>Stream\<close> for one answer: the frames they write and the state they leave.\<close>

fun anthropic_run :: "json_codec \<Rightarrow> string \<Rightarrow> string \<Rightarrow> string list \<Rightarrow> astream option \<Rightarrow> string list \<times> astream option" where
  "anthropic_run c model original [] state = ([], state)"
| "anthropic_run c model original (event # events) state =
     (case anthropic_Stream c model original event state of (out, st) \<Rightarrow>
      case anthropic_run c model original events (Some st) of (outs, state') \<Rightarrow> (out @ outs, state'))"

fun frames_run :: "json_codec \<Rightarrow> names \<Rightarrow> string \<Rightarrow> string list \<Rightarrow> astream \<Rightarrow> astep" where
  "frames_run c reverse model [] st = ([], st)"
| "frames_run c reverse model (event # events) st =
     followed (case unmarshal_object c (EventData event) of None \<Rightarrow> ([], st) | Some e \<Rightarrow> stream_event c reverse model e st)
       (frames_run c reverse model events)"

definition encode_frame :: "json_codec \<Rightarrow> frame \<Rightarrow> string" where
  "encode_frame c f = SSE (fst f) (jc_print c (JObj (snd f)))"

definition state_of :: "astream option \<Rightarrow> astream" where
  "state_of state = (case state of None \<Rightarrow> new_astream | Some s \<Rightarrow> s)"

lemma anthropic_run_frames:
  "map_prod id state_of (anthropic_run c model original events state) =
     map_prod (map (encode_frame c)) id (frames_run c (snd (toolMaps c True original)) model events (state_of state))"
proof (induction events arbitrary: state)
  case (Cons event events)
  obtain out st where r: "(case unmarshal_object c (EventData event) of None \<Rightarrow> ([], state_of state)
     | Some e \<Rightarrow> stream_event c (snd (toolMaps c True original)) model e (state_of state)) = (out, st)"
    by fastforce
  have s: "anthropic_Stream c model original event state = (map (encode_frame c) out, st)"
    using r by (auto simp: anthropic_Stream_def encode_frame_def state_of_def Let_def split: option.splits prod.splits)
  have st: "state_of (Some st) = st" by (simp add: state_of_def)
  show ?case
    using Cons.IH [of "Some st"] unfolding anthropic_run.simps frames_run.simps r s st
    by (cases "frames_run c (snd (toolMaps c True original)) model events st";
        cases "anthropic_run c model original events (Some st)") (simp add: followed_def)
qed simp

text \<open>Every event is calm and none ends the message.\<close>

fun calm_run :: "json_codec \<Rightarrow> names \<Rightarrow> string \<Rightarrow> string list \<Rightarrow> astream \<Rightarrow> bool" where
  "calm_run c reverse model [] st = True"
| "calm_run c reverse model (event # events) st =
     (case unmarshal_object c (EventData event) of
        None \<Rightarrow> calm_run c reverse model events st
      | Some e \<Rightarrow> calm c e st \<and> \<not> is_terminal_type (str_field e ''type'') \<and>
                  calm_run c reverse model events (snd (stream_event c reverse model e st)))"

lemma frames_run_sound:
  "synced st \<Longrightarrow> calm_run c reverse model events st \<Longrightarrow> sound st (frames_run c reverse model events st)"
proof (induction events arbitrary: st)
  case (Cons event events)
  show ?case
  proof (cases "unmarshal_object c (EventData event)")
    case None
    with Cons show ?thesis by (auto simp: followed_def split: prod.splits)
  next
    case (Some e)
    let ?r = "stream_event c reverse model e st"
    have r: "sound st ?r" using Cons.prems Some by (intro stream_event_sound) auto
    moreover have "sound (snd ?r) (frames_run c reverse model events (snd ?r))"
      using Cons r Some by (simp add: sound_def)
    ultimately show ?thesis using Some sound_followed [of st ?r] by (simp add: sound_def)
  qed
qed (simp add: unchanged_sound)

lemma frames_run_append:
  "frames_run c reverse model (xs @ ys) st = followed (frames_run c reverse model xs st) (frames_run c reverse model ys)"
  by (induction xs arbitrary: st) (auto simp: followed_def split: prod.splits)

text \<open>C36: The blocks of a streamed Anthropic message are well formed. When no tool call is announced
  inside an open text or thinking block and no text arrives while a tool block is open, the frames
  written for a stream and its final event open, fill and close content blocks one after the other
  with the indexes 0, 1, 2, ..., every delta names the open block, and the message is ended
  by \<open>message_delta\<close> and \<open>message_stop\<close> with every block closed.\<close>

theorem stream_blocks_well_formed:
  assumes "calm_run c (snd (toolMaps c True original)) model events new_astream"
    and "unmarshal_object c (EventData final) = Some e" "is_terminal_type (str_field e ''type'')"
  shows "\<exists>frames fs d s n. fst (anthropic_run c model original (events @ [final]) None) = map (encode_frame c) frames \<and>
    frames = fs @ [(''message_delta'', d), (''message_stop'', s)] \<and> block_run frames (0, False) = Some (n, False)"
proof -
  let ?rev = "snd (toolMaps c True original)"
  let ?r = "frames_run c ?rev model events new_astream"
  have r: "sound new_astream ?r"
    by (rule frames_run_sound [OF _ assms(1)]) (simp add: synced_def tool_open_def new_astream_def)
  let ?e = "stream_event c ?rev model e (snd ?r)"
  have e: "?e = stream_end c ?rev (obj_field e ''response'') (snd ?r)"
    using assms(3) by (auto simp: stream_event_def Let_def is_terminal_type_def)
  have sy: "synced (snd ?r)" using r by (simp add: sound_def)
  let ?all = "frames_run c ?rev model (events @ [final]) new_astream"
  have all: "?all = followed ?r (\<lambda>_. ?e)"
    using assms(2) by (simp add: frames_run_append followed_def split: prod.splits)
  have law: "lawful new_astream ?all"
    unfolding all by (rule lawful_followed) (use r e stream_end_lawful(1) [OF sy] in \<open>simp_all add: sound_def\<close>)
  have "BlockType (snd ?all) = []" unfolding all snd_followed e by (rule stream_end_lawful(2) [OF sy])
  with law have run: "block_run (fst ?all) (0, False) = Some (BlockIndex (snd ?all), False)"
    by (simp add: lawful_def phase_def new_astream_def)
  obtain fs d s where "fst ?e = fs @ [(''message_delta'', d), (''message_stop'', s)]"
    using stream_end_lawful(3) [OF sy] unfolding e by blast
  then have "fst ?all = (fst ?r @ fs) @ [(''message_delta'', d), (''message_stop'', s)]"
    by (simp add: all followed_def case_prod_beta)
  moreover have "fst (anthropic_run c model original (events @ [final]) None) = map (encode_frame c) (fst ?all)"
    using anthropic_run_frames [of c model original "events @ [final]" None]
    by (simp add: state_of_def map_prod_def split: prod.splits)
  ultimately show ?thesis using run by blast
qed

definition sample_events :: "(string \<times> json) list" where
  "sample_events =
     [(''created'', JObj [(''type'', JStr ''response.created''), (''response'', JObj [(''id'', JStr ''r1'')])]),
      (''text'', JObj [(''type'', JStr ''response.output_text.delta''), (''delta'', JStr ''Let me look.'')]),
      (''tool'', JObj [(''type'', JStr ''response.output_item.added''), (''output_index'', JNum ''1''),
         (''item'', JObj [(''type'', JStr ''function_call''), (''call_id'', JStr ''c1''), (''name'', JStr ''f'')])]),
      (''args'', JObj [(''type'', JStr ''response.function_call_arguments.delta''), (''call_id'', JStr ''c1''), (''delta'', JStr ''7'')]),
      (''args_done'', JObj [(''type'', JStr ''response.function_call_arguments.done''), (''call_id'', JStr ''c1''), (''arguments'', JStr ''7'')]),
      (''tool2'', JObj [(''type'', JStr ''response.output_item.added''), (''output_index'', JNum ''10''),
         (''item'', JObj [(''type'', JStr ''function_call''), (''call_id'', JStr ''c2''), (''name'', JStr ''g'')])]),
      (''end'', JObj [(''type'', JStr ''response.completed''), (''response'', JObj [(''status'', JStr ''completed'')])])]"

abbreviation sample_stream_codec :: json_codec where
  "sample_stream_codec \<equiv> table_codec sample_events"

theorem stream_blocks_well_formed_witness:
  "\<exists>frames n. fst (anthropic_run sample_stream_codec ''m'' [] ([''created'', ''tool'', ''args'', ''args_done'', ''text''] @ [''end'']) None) =
       map (encode_frame sample_stream_codec) frames \<and> length frames = 9 \<and> block_run frames (0, False) = Some (n, False)"
proof -
  let ?c = sample_stream_codec and ?evs = "[''created'', ''tool'', ''args'', ''args_done'', ''text'']"
  have "calm_run ?c (snd (toolMaps ?c True [])) ''m'' ?evs new_astream"
    and "unmarshal_object ?c (EventData ''end'') \<noteq> None"
    and t: "is_terminal_type (str_field (the (unmarshal_object ?c (EventData ''end''))) ''type'')" by code_simp+
  then obtain e where h: "calm_run ?c (snd (toolMaps ?c True [])) ''m'' ?evs new_astream"
    "unmarshal_object ?c (EventData ''end'') = Some e" "is_terminal_type (str_field e ''type'')" by auto
  obtain frames n where f: "fst (anthropic_run ?c ''m'' [] (?evs @ [''end'']) None) = map (encode_frame ?c) frames"
    "block_run frames (0, False) = Some (n, False)"
    using stream_blocks_well_formed [OF h] by blast
  have "length (fst (anthropic_run ?c ''m'' [] (?evs @ [''end'']) None)) = 9" by code_simp
  with f show ?thesis by (metis length_map)
qed

section \<open>A tool call announced inside another block\<close>

text \<open>Every \<open>content_block_stop\<close> of a step ends the block that is current and moves on to the next
  index, so the stops of a step are those of the indexes it moves over, each once.\<close>

definition is_stop :: "frame \<Rightarrow> bool" where
  "is_stop f \<longleftrightarrow> fst f = ''content_block_stop''"


lemma stop_frames [simp]:
  "\<not> is_stop (block_start i b)" "\<not> is_stop (block_delta i d)" "is_stop (block_stop i)"
  by (simp_all add: is_stop_def block_start_def block_delta_def block_stop_def)


















lemma frame_index_simps [simp]: "frame_index (block_start j b) i \<longleftrightarrow> j = i" "frame_index (block_stop j) i \<longleftrightarrow> j = i"
  by (simp_all add: frame_index_def block_start_def block_stop_def itoa_eq)







text \<open>A function that waits for another is lost when the message ends before the other is done.\<close>

lemma queued_tool_dropped_at_end:
  "map fst (fst (frames_run sample_stream_codec Map.empty ''m'' [''created'', ''tool'', ''tool2'', ''end''] new_astream)) =
     [''message_start'', ''content_block_start'', ''content_block_stop'', ''message_delta'', ''message_stop''] \<and>
   map fst (PendingFunctions (snd (frames_run sample_stream_codec Map.empty ''m'' [''created'', ''tool'', ''tool2'', ''end''] new_astream))) = [2]"
  by code_simp

end
