(* ===== verification/Translate_Registry.thy ===== *)
theory Translate_Registry
  imports Translate_Chat Translate_Anthropic
begin

text \<open>
  The native Responses path (\<open>internal/translate/openai/responses/response.go\<close>) and the registry
  of the three translators that \<open>internal/translate/translate.go\<close> builds. The interface
  \<open>registry.Transformer\<close> is a datatype of its three implementations; its stream state, an
  \<open>interface{}\<close>, is a sum of theirs.
\<close>

section \<open>Native responses\<close>

definition responses_Stream :: "json_codec \<Rightarrow> string \<Rightarrow> go_error + string list" where
  "responses_Stream c event =
     (let data = EventData event in
      if jc_parse c data = None then Inl (ErrNew ''invalid canonical response event'') else Inr [data])"

definition responses_Response :: "json_codec \<Rightarrow> string list \<Rightarrow> go_error + string" where
  "responses_Response c events = map_sum id (\<lambda>r. jc_print c (JObj r)) (TerminalResponse c events)"


section \<open>Transformers\<close>

datatype transformer = ChatTransformer | ResponsesTransformer | AnthropicTransformer

datatype translator_state = NoState | ChatState cstream | AnthropicState astream

fun transformer_Request :: "transformer \<Rightarrow> json_codec \<Rightarrow> string \<Rightarrow> string \<Rightarrow> bool \<Rightarrow> go_error + string" where
  "transformer_Request ChatTransformer = chat_Request"
| "transformer_Request ResponsesTransformer = responses_Request"
| "transformer_Request AnthropicTransformer = anthropic_Request"

fun transformer_Response :: "transformer \<Rightarrow> json_codec \<Rightarrow> int \<Rightarrow> string \<Rightarrow> string \<Rightarrow> string list \<Rightarrow> go_error + string" where
  "transformer_Response ChatTransformer c now model original events = chat_Response c model original now events"
| "transformer_Response ResponsesTransformer c now model original events = responses_Response c events"
| "transformer_Response AnthropicTransformer c now model original events = anthropic_Response c model original events"

text \<open>\<open>typed, _ = ( *state).( *StreamState)\<close>: a state of another translator is read as nil.\<close>

definition chat_state :: "translator_state \<Rightarrow> cstream option" where
  "chat_state s = (case s of ChatState x \<Rightarrow> Some x | _ \<Rightarrow> None)"

definition anthropic_state :: "translator_state \<Rightarrow> astream option" where
  "anthropic_state s = (case s of AnthropicState x \<Rightarrow> Some x | _ \<Rightarrow> None)"

fun transformer_Stream ::
  "transformer \<Rightarrow> json_codec \<Rightarrow> int \<Rightarrow> string \<Rightarrow> string \<Rightarrow> string \<Rightarrow> translator_state \<Rightarrow> (go_error + string list) \<times> translator_state" where
  "transformer_Stream ChatTransformer c now model original event state =
     (case chat_Stream c model original now event (chat_state state) of (out, st) \<Rightarrow> (Inr out, ChatState st))"
| "transformer_Stream ResponsesTransformer c now model original event state = (responses_Stream c event, state)"
| "transformer_Stream AnthropicTransformer c now model original event state =
     (case anthropic_Stream c model original event (anthropic_state state) of (out, st) \<Rightarrow> (Inr out, AnthropicState st))"

text \<open>\<open>NewRegistry\<close> panics when a registration fails: the error is the panic.\<close>

definition NewRegistry :: "go_error + transformer translators" where
  "NewRegistry =
     (case translators_Register OpenAIChat (Some ChatTransformer) Map.empty of
        (Inl e, _) \<Rightarrow> Inl e
      | (Inr _, r1) \<Rightarrow> (case translators_Register OpenAIResponses (Some ResponsesTransformer) r1 of
          (Inl e, _) \<Rightarrow> Inl e
        | (Inr _, r2) \<Rightarrow> (case translators_Register Anthropic (Some AnthropicTransformer) r2 of
            (Inl e, _) \<Rightarrow> Inl e | (Inr _, r3) \<Rightarrow> Inr r3)))"

lemma NewRegistry_formats:
  "\<exists>r. NewRegistry = Inr r \<and> dom r = {OpenAIChat, OpenAIResponses, Anthropic} \<and>
     translators_Get r OpenAIChat = Some ChatTransformer \<and> translators_Get r OpenAIResponses = Some ResponsesTransformer \<and>
     translators_Get r Anthropic = Some AnthropicTransformer"
  by (auto simp: NewRegistry_def translators_Register_def translators_Get_def OpenAIChat_def OpenAIResponses_def Anthropic_def)

lemma registered_once:
  assumes "ts format \<noteq> None"
  shows "\<exists>e. translators_Register format transform ts = (Inl e, ts)"
  using assms by (auto simp: translators_Register_def split: option.splits)

text \<open>What a terminal event carries is what the client of the native path receives; the last
  terminal event counts.\<close>

lemma find_rev_last: "List.find P (rev (xs @ [x])) = (if P x then Some x else List.find P (rev xs))"
  by simp

lemma TerminalResponse_last:
  "TerminalResponse c (events @ [event]) = (case terminal_event c event of Some r \<Rightarrow> Inr r | None \<Rightarrow> TerminalResponse c events)"
  by (simp add: TerminalResponse_def split: option.splits)

text \<open>A finished answer does not depend on what else the stream held: once a terminal event has
  arrived, events without a terminal response after it change nothing, and every translator
  answers from that response; without one every translator fails.\<close>

theorem response_from_last_terminal:
  "(list_all (\<lambda>e. terminal_event c e = None) later \<longrightarrow>
      transformer_Response t c now model original (events @ event # later) =
        (if terminal_event c event \<noteq> None then transformer_Response t c now model original [event]
         else transformer_Response t c now model original events)) \<and>
   (list_all (\<lambda>e. terminal_event c e = None) events \<longrightarrow>
      transformer_Response t c now model original events = Inl (ErrNew ''canonical event stream has no terminal response''))"
proof -
  have skip: "TerminalResponse c (xs @ later) = TerminalResponse c xs" if "list_all (\<lambda>e. terminal_event c e = None) later" for xs later
    using that
  proof (induction later rule: rev_induct)
    case (snoc x later)
    then show ?case using TerminalResponse_last [of c "xs @ later" x] by simp
  qed simp
  have none: "TerminalResponse c events = Inl (ErrNew ''canonical event stream has no terminal response'')"
    if "list_all (\<lambda>e. terminal_event c e = None) events"
    using skip [OF that, of "[]"] by (simp add: TerminalResponse_def)
  have one: "TerminalResponse c (events @ event # later) =
      (if terminal_event c event \<noteq> None then TerminalResponse c [event] else TerminalResponse c events)"
    if "list_all (\<lambda>e. terminal_event c e = None) later"
    using skip [OF that, of "events @ [event]"] TerminalResponse_last [of c events event] TerminalResponse_last [of c "[]" event]
    by (auto split: option.splits)
  show ?thesis
    by (cases t) (simp_all add: chat_Response_def responses_Response_def anthropic_Response_def one none)
qed

theorem response_from_last_terminal_witness:
  "transformer_Response AnthropicTransformer sample_stream_codec 0 ''m'' [] ([''created'', ''text''] @ ''end'' # [''text'']) =
     transformer_Response AnthropicTransformer sample_stream_codec 0 ''m'' [] [''end''] \<and>
   transformer_Response ChatTransformer sample_stream_codec 0 ''m'' [] [''created'', ''text''] =
     Inl (ErrNew ''canonical event stream has no terminal response'')"
proof
  have "list_all (\<lambda>e. terminal_event sample_stream_codec e = None) [''text'']" "terminal_event sample_stream_codec ''end'' \<noteq> None"
    by code_simp+
  then show "transformer_Response AnthropicTransformer sample_stream_codec 0 ''m'' [] ([''created'', ''text''] @ ''end'' # [''text'']) =
     transformer_Response AnthropicTransformer sample_stream_codec 0 ''m'' [] [''end'']"
    using response_from_last_terminal [of sample_stream_codec "[''text'']" AnthropicTransformer 0 "''m''" "[]" "[''created'', ''text'']" "''end''"]
    by simp
  have "list_all (\<lambda>e. terminal_event sample_stream_codec e = None) [''created'', ''text'']" by code_simp
  then show "transformer_Response ChatTransformer sample_stream_codec 0 ''m'' [] [''created'', ''text''] =
     Inl (ErrNew ''canonical event stream has no terminal response'')"
    using response_from_last_terminal [of sample_stream_codec _ ChatTransformer 0 "''m''" "[]" "[''created'', ''text'']"] by blast
qed

end
