(* ===== verification/Request_Source.thy ===== *)
theory Request_Source
  imports Envelope
begin

text \<open>
  Who sent a request (\<open>internal/requestsource/source.go\<close>): the client address behind trusted
  proxies, and whether the connection is encrypted. \<open>netip.ParseAddr\<close>, \<open>netip.ParsePrefix\<close> and
  \<open>net.SplitHostPort\<close> are the parameter \<open>np\<close>; prefixes and containment are modelled on the bits
  of the addresses. Strings are bytes.

  Shown: entries that a client puts in front of the forwarded chain cannot change the address
  the gateway works with.
\<close>

section \<open>Addresses and prefixes\<close>

record prefix =
  pf_addr :: addr
  pf_bits :: int

fun BitLen :: "addr \<Rightarrow> int" where
  "BitLen AddrZero = 0"
| "BitLen (Addr4 _) = 32"
| "BitLen (Addr6 _ _) = 128"

fun Zone :: "addr \<Rightarrow> string" where
  "Zone (Addr6 _ z) = z"
| "Zone _ = []"

fun withoutZone :: "addr \<Rightarrow> addr" where
  "withoutZone (Addr6 b _) = Addr6 b []"
| "withoutZone a = a"

fun addr_bytes :: "addr \<Rightarrow> string" where
  "addr_bytes AddrZero = []"
| "addr_bytes (Addr4 b) = b"
| "addr_bytes (Addr6 b _) = b"

definition byte_bits :: "char \<Rightarrow> bool list" where
  "byte_bits ch = [digit7 ch, digit6 ch, digit5 ch, digit4 ch, digit3 ch, digit2 ch, digit1 ch, digit0 ch]"

text \<open>The bits of an address, the most significant first.\<close>

definition addr_bits :: "addr \<Rightarrow> bool list" where
  "addr_bits a = concat (map byte_bits (addr_bytes a))"

text \<open>\<open>netip.PrefixFrom\<close>: the zone is dropped; an impossible length is \<open>-1\<close>, an invalid prefix.\<close>

definition PrefixFrom :: "addr \<Rightarrow> int \<Rightarrow> prefix" where
  "PrefixFrom a bits =
     \<lparr>pf_addr = withoutZone a, pf_bits = (if a \<noteq> AddrZero \<and> 0 \<le> bits \<and> bits \<le> BitLen a then bits else -1)\<rparr>"

text \<open>\<open>Prefix.Contains\<close>. Masking the host bits of a prefix does not matter for it.\<close>

definition prefix_Contains :: "prefix \<Rightarrow> addr \<Rightarrow> bool" where
  "prefix_Contains p a \<longleftrightarrow> 0 \<le> pf_bits p \<and> Zone a = [] \<and> BitLen a = BitLen (pf_addr p) \<and> a \<noteq> AddrZero \<and>
     take (nat (pf_bits p)) (addr_bits a) = take (nat (pf_bits p)) (addr_bits (pf_addr p))"

record net_parser =
  np_ParseAddr :: "string \<Rightarrow> addr option"
  np_ParsePrefix :: "string \<Rightarrow> prefix option"
  np_SplitHost :: "string \<Rightarrow> string option"


section \<open>Strings\<close>

text \<open>\<open>strings.Split(s, ",")\<close>.\<close>

fun split_comma :: "string \<Rightarrow> string list" where
  "split_comma [] = [[]]"
| "split_comma (x # xs) =
     (if x = CHR '','' then [] # split_comma xs
      else case split_comma xs of [] \<Rightarrow> [[x]] | part # parts \<Rightarrow> (x # part) # parts)"

text \<open>\<open>strings.Trim(value, "[]")\<close>.\<close>

definition trim_brackets :: "string \<Rightarrow> string" where
  "trim_brackets v =
     (let P = (\<lambda>ch. ch = CHR ''['' \<or> ch = CHR '']'') in rev (dropWhile P (rev (dropWhile P v))))"

text \<open>\<open>strings.EqualFold\<close> with an ASCII word: besides the ASCII letters, the long s (bytes C5 BF)
  folds to s and the Kelvin sign (E2 84 AA) to k.\<close>

definition lower_byte :: "char \<Rightarrow> char" where
  "lower_byte ch = (if 65 \<le> (of_char ch :: nat) \<and> (of_char ch :: nat) \<le> 90 then char_of ((of_char ch :: nat) + 32) else ch)"

fun fold_case :: "string \<Rightarrow> string" where
  "fold_case [] = []"
| "fold_case (x # xs) =
     (if x = CHR 0xC5 \<and> take 1 xs = [CHR 0xBF] then CHR ''s'' # fold_case (drop 1 xs)
      else if x = CHR 0xE2 \<and> take 2 xs = [CHR 0x84, CHR 0xAA] then CHR ''k'' # fold_case (drop 2 xs)
      else lower_byte x # fold_case xs)"

definition EqualFold :: "string \<Rightarrow> string \<Rightarrow> bool" where
  "EqualFold s word \<longleftrightarrow> fold_case s = fold_case word"


section \<open>Trusted proxies\<close>

type_synonym trusted_proxies = "prefix list"

definition parse_proxy :: "net_parser \<Rightarrow> string \<Rightarrow> go_error + prefix" where
  "parse_proxy np value0 =
     (let value = trimSpace value0; bad = Inl (ErrNew (''invalid trusted proxy '' @ value)) in
      if value = [] then Inl (ErrNew ''trusted proxy entry cannot be blank'')
      else case np_ParseAddr np value of
        Some a \<Rightarrow> Inr (PrefixFrom (Unmap a) (BitLen (Unmap a)))
      | None \<Rightarrow>
          (case np_ParsePrefix np value of
             None \<Rightarrow> bad
           | Some p \<Rightarrow>
               let a = Unmap (pf_addr p); bits0 = pf_bits p;
                   bits = (if (case a of Addr4 _ \<Rightarrow> True | _ \<Rightarrow> False) \<and> bits0 > 32 then bits0 - 96 else bits0) in
               if bits < 0 \<or> bits > BitLen a then bad else Inr (PrefixFrom a bits)))"

fun ParseTrustedProxies :: "net_parser \<Rightarrow> string list \<Rightarrow> go_error + trusted_proxies" where
  "ParseTrustedProxies np [] = Inr []"
| "ParseTrustedProxies np (v # vs) =
     (case parse_proxy np v of Inl e \<Rightarrow> Inl e
      | Inr p \<Rightarrow> (case ParseTrustedProxies np vs of Inl e \<Rightarrow> Inl e | Inr ps \<Rightarrow> Inr (p # ps)))"

definition proxies_contains :: "trusted_proxies \<Rightarrow> addr \<Rightarrow> bool" where
  "proxies_contains ps address \<longleftrightarrow> list_ex (\<lambda>p. prefix_Contains p (Unmap address)) ps"

text \<open>A request as far as it is read here: headers by canonical name.\<close>

record http_request =
  hq_RemoteAddr :: string
  hq_TLS :: bool
  hq_Path :: string
  hq_Header :: "string \<Rightarrow> string list"

definition header_Get :: "http_request \<Rightarrow> string \<Rightarrow> string" where
  "header_Get r name = (case hq_Header r name of [] \<Rightarrow> [] | v # _ \<Rightarrow> v)"

definition remoteAddress :: "net_parser \<Rightarrow> string \<Rightarrow> addr option" where
  "remoteAddress np value =
     (let host = (case np_SplitHost np value of Some h \<Rightarrow> h | None \<Rightarrow> trim_brackets value) in
      map_option Unmap (np_ParseAddr np host))"

definition RequestIsHTTPS :: "net_parser \<Rightarrow> trusted_proxies \<Rightarrow> http_request \<Rightarrow> bool" where
  "RequestIsHTTPS np ps r \<longleftrightarrow>
     hq_TLS r \<or>
     (case remoteAddress np (hq_RemoteAddr r) of
        None \<Rightarrow> False
      | Some peer \<Rightarrow>
          if \<not> proxies_contains ps peer then False
          else let values = hq_Header r ''X-Forwarded-Proto'' in
            if values = [] then False
            else EqualFold (trimSpace (last (split_comma (last values)))) ''https'')"

definition maxForwardedForBytes :: int where "maxForwardedForBytes = 4096"
definition maxForwardedForHops :: nat where "maxForwardedForHops = 32"

fun forwarded_parts :: "net_parser \<Rightarrow> string list \<Rightarrow> addr list \<Rightarrow> go_error + addr list" where
  "forwarded_parts np [] chain = Inr chain"
| "forwarded_parts np (part0 # parts) chain =
     (let part = trimSpace part0 in
      if part = [] \<or> length chain \<ge> maxForwardedForHops then Inl (ErrNew ''invalid forwarded client chain'')
      else case np_ParseAddr np part of
        None \<Rightarrow> Inl (ErrNew ''invalid forwarded client address'')
      | Some a \<Rightarrow>
          if Zone a \<noteq> [] then Inl (ErrNew ''invalid forwarded client address'')
          else forwarded_parts np parts (chain @ [Unmap a]))"

fun forwarded_chain :: "net_parser \<Rightarrow> string list \<Rightarrow> int \<Rightarrow> addr list \<Rightarrow> go_error + addr list" where
  "forwarded_chain np [] bytes chain = Inr chain"
| "forwarded_chain np (value # values) bytes chain =
     (let bytes' = bytes + int (length value) in
      if bytes' > maxForwardedForBytes then Inl (ErrNew ''forwarded client chain is too large'')
      else case forwarded_parts np (split_comma value) chain of
        Inl e \<Rightarrow> Inl e | Inr chain' \<Rightarrow> forwarded_chain np values bytes' chain')"

text \<open>The last address that is not a trusted proxy, or the first one.\<close>

definition client_of :: "trusted_proxies \<Rightarrow> addr list \<Rightarrow> addr" where
  "client_of ps chain =
     (case find (\<lambda>a. \<not> proxies_contains ps a) (rev chain) of Some a \<Rightarrow> a
      | None \<Rightarrow> (case chain of [] \<Rightarrow> AddrZero | a # _ \<Rightarrow> a))"

definition ClientIP :: "net_parser \<Rightarrow> trusted_proxies \<Rightarrow> http_request \<Rightarrow> go_error + addr" where
  "ClientIP np ps r =
     (case remoteAddress np (hq_RemoteAddr r) of
        None \<Rightarrow> Inl (ErrNew ''invalid remote address'')
      | Some peer \<Rightarrow>
          if \<not> proxies_contains ps peer then Inr peer
          else let values = hq_Header r ''X-Forwarded-For'' in
            if values = [] then Inr peer
            else case forwarded_chain np values 0 [] of
              Inl e \<Rightarrow> Inl e
            | Inr chain \<Rightarrow> Inr (client_of ps (chain @ [peer])))"


section \<open>The chain\<close>

definition part_addr :: "net_parser \<Rightarrow> string \<Rightarrow> addr option" where
  "part_addr np part =
     (case np_ParseAddr np (trimSpace part) of None \<Rightarrow> None | Some a \<Rightarrow> if Zone a \<noteq> [] then None else Some (Unmap a))"

lemma forwarded_parts_Inr:
  "forwarded_parts np parts chain = Inr chain' \<Longrightarrow> \<exists>as. map (part_addr np) parts = map Some as \<and> chain' = chain @ as"
proof (induction parts arbitrary: chain)
  case (Cons part parts)
  from Cons.prems obtain a where a: "part_addr np part = Some a" and run: "forwarded_parts np parts (chain @ [a]) = Inr chain'"
    by (auto simp: Let_def part_addr_def split: if_splits option.splits)
  from Cons.IH [OF run] obtain as where "map (part_addr np) parts = map Some as" "chain' = (chain @ [a]) @ as" by blast
  with a show ?case by (intro exI [of _ "a # as"]) simp
qed simp

lemma forwarded_chain_Inr:
  "forwarded_chain np vs bytes chain = Inr chain' \<Longrightarrow>
     \<exists>as. map (part_addr np) (concat (map split_comma vs)) = map Some as \<and> chain' = chain @ as"
proof (induction vs arbitrary: bytes chain)
  case (Cons v vs)
  from Cons.prems obtain c1 where c1: "forwarded_parts np (split_comma v) chain = Inr c1"
    and run: "forwarded_chain np vs (bytes + int (length v)) c1 = Inr chain'"
    by (auto simp: Let_def split: if_splits sum.splits)
  from forwarded_parts_Inr [OF c1] Cons.IH [OF run] obtain as bs where
    "map (part_addr np) (split_comma v) = map Some as" "map (part_addr np) (concat (map split_comma vs)) = map Some bs"
    "chain' = chain @ as @ bs" by auto
  then show ?case by (intro exI [of _ "as @ bs"]) simp
qed simp

lemma find_app: "find P (xs @ ys) = (case find P xs of Some y \<Rightarrow> Some y | None \<Rightarrow> find P ys)"
  by (induction xs) auto

lemma client_of_suffix:
  assumes "\<exists>a \<in> set suffix. \<not> proxies_contains ps a"
  shows "client_of ps (front @ suffix) = client_of ps suffix"
proof -
  have "find (\<lambda>a. \<not> proxies_contains ps a) (rev suffix) \<noteq> None" using assms by (auto simp: find_None_iff)
  then show ?thesis by (auto simp: client_of_def find_app)
qed

text \<open>C18: Client addresses cannot be forged. An untrusted peer is the client itself, whatever headers it
  sends. Behind trusted proxies, let \<open>own\<close> be the entries that follow the client's in the forwarded
  chain, among them (or the peer itself) an untrusted address: then whatever the client puts in front
  of them, the gateway works with the last untrusted address of \<open>own\<close> and the peer, or refuses the
  request.\<close>

theorem client_address_unforgeable:
  assumes "remoteAddress np (hq_RemoteAddr r) = Some peer"
  shows "(\<not> proxies_contains ps peer \<longrightarrow> ClientIP np ps r = Inr peer) \<and>
    (proxies_contains ps peer \<and> concat (map split_comma (hq_Header r ''X-Forwarded-For'')) = forged @ own \<and>
     map (part_addr np) own = map Some as \<and> (\<exists>a \<in> set as. \<not> proxies_contains ps a) \<longrightarrow>
       ClientIP np ps r = Inr (client_of ps (as @ [peer])) \<or> (\<exists>e. ClientIP np ps r = Inl e))"
proof -
  have "ClientIP np ps r = Inr (client_of ps (as @ [peer]))"
    if h: "proxies_contains ps peer" "concat (map split_comma (hq_Header r ''X-Forwarded-For'')) = forged @ own"
      "map (part_addr np) own = map Some as" "\<exists>a \<in> set as. \<not> proxies_contains ps a"
      and ok: "ClientIP np ps r = Inr x" for x
  proof -
    from h(3,4) have "own \<noteq> []" by auto
    with h(2) have ne: "hq_Header r ''X-Forwarded-For'' \<noteq> []" by auto
    with ok h(1) assms obtain chain where c: "forwarded_chain np (hq_Header r ''X-Forwarded-For'') 0 [] = Inr chain"
      and x: "ClientIP np ps r = Inr (client_of ps (chain @ [peer]))"
      by (auto simp: ClientIP_def Let_def split: sum.splits)
    from forwarded_chain_Inr [OF c] h(2) obtain all where all: "map (part_addr np) (forged @ own) = map Some all" "chain = all"
      by auto
    have "map Some all = map (part_addr np) forged @ map Some as" using all(1) h(3) by simp
    then obtain fs where "all = fs @ as" by (auto simp: map_eq_append_conv)
    with all(2) x client_of_suffix [of "as @ [peer]" ps fs] h(4) show ?thesis by auto
  qed
  moreover have "\<not> proxies_contains ps peer \<Longrightarrow> ClientIP np ps r = Inr peer"
    using assms by (simp add: ClientIP_def)
  ultimately show ?thesis by (metis sum.exhaust)
qed

text \<open>Addresses for the sample requests: a letter is the IPv4 address with that last byte.\<close>

definition letter_parser :: net_parser where
  "letter_parser =
     \<lparr>np_ParseAddr = (\<lambda>t. case t of [ch] \<Rightarrow> Some (Addr4 [CHR 0x0A, CHR 0x00, CHR 0x00, ch]) | _ \<Rightarrow> None),
      np_ParsePrefix = (\<lambda>_. None), np_SplitHost = (\<lambda>t. Some (take 1 t))\<rparr>"

definition sample_proxies :: trusted_proxies where
  "sample_proxies = (case ParseTrustedProxies letter_parser ['' p '', ''q''] of Inl _ \<Rightarrow> [] | Inr ps \<Rightarrow> ps)"

definition sample_forwarded :: "string \<Rightarrow> http_request" where
  "sample_forwarded forwarded =
     \<lparr>hq_RemoteAddr = ''p:1'', hq_TLS = False, hq_Path = ''/'',
      hq_Header = (\<lambda>n. if n = ''X-Forwarded-For'' then [forwarded] else [])\<rparr>"

theorem client_address_unforgeable_witness:
  "ClientIP letter_parser sample_proxies (sample_forwarded ''z, c, q'') = Inr (Addr4 [CHR 0x0A, CHR 0x00, CHR 0x00, CHR ''c''])"
proof -
  let ?r = "sample_forwarded ''z, c, q''" and ?a = "\<lambda>ch. Addr4 [CHR 0x0A, CHR 0x00, CHR 0x00, ch]"
  have peer: "remoteAddress letter_parser (hq_RemoteAddr ?r) = Some (?a (CHR ''p''))"
    and parts: "concat (map split_comma (hq_Header ?r ''X-Forwarded-For'')) = [''z''] @ ['' c'', '' q'']"
    and own: "map (part_addr letter_parser) ['' c'', '' q''] = map Some [?a (CHR ''c''), ?a (CHR ''q'')]"
    and trusted: "proxies_contains sample_proxies (?a (CHR ''p''))" "\<not> proxies_contains sample_proxies (?a (CHR ''c''))"
    and ok: "isl (ClientIP letter_parser sample_proxies ?r) = False"
    and res: "client_of sample_proxies ([?a (CHR ''c''), ?a (CHR ''q'')] @ [?a (CHR ''p'')]) = ?a (CHR ''c'')"
    by code_simp+
  from trusted(2) have "\<exists>a \<in> set [?a (CHR ''c''), ?a (CHR ''q'')]. \<not> proxies_contains sample_proxies a" by simp
  then have "ClientIP letter_parser sample_proxies ?r = Inr (client_of sample_proxies ([?a (CHR ''c''), ?a (CHR ''q'')] @ [?a (CHR ''p'')])) \<or>
      (\<exists>e. ClientIP letter_parser sample_proxies ?r = Inl e)"
    using client_address_unforgeable [OF peer, of sample_proxies "[''z'']" "['' c'', '' q'']"] trusted(1) parts own by blast
  with ok res show ?thesis by (metis isl_def)
qed

end
