(* ===== verification/Store_Keys.thy ===== *)
theory Store_Keys
  imports Store_Accounts Moving_Table
begin

text \<open>
  Client API keys (\<open>internal/store/api_keys.go\<close>, \<open>internal/accounts/apikeys.go\<close>) and
  administrator sessions (\<open>internal/store/admin_sessions.go\<close>). Only hashes of keys and session
  tokens are stored; the hash function is a parameter. Shown: a created key authenticates, only
  the plaintext's own hash does, and a revoked key or session never comes back, along any run.
\<close>


section \<open>API keys\<close>

record api_key =
  ky_ID :: string
  ky_Prefix :: string
  ky_Label :: string
  ky_CreatedAt :: time
  ky_LastUsedAt :: "time option"
  ky_RevokedAt :: "time option"

record key_repository =
  kr_sha256 :: "string \<Rightarrow> string"
  kr_lastUseInterval :: duration

definition NewAPIKeyRepository :: "(string \<Rightarrow> string) \<Rightarrow> key_repository" where
  "NewAPIKeyRepository sha = \<lparr>kr_sha256 = sha, kr_lastUseInterval = hour\<rparr>"

text \<open>The id is the primary key and \<open>key_hash\<close> is unique.\<close>

definition key_Create :: "key_repository \<Rightarrow> string \<Rightarrow> string \<Rightarrow> string \<Rightarrow> string \<Rightarrow> time \<Rightarrow> api_key dbop" where
  "key_Create r i prefix label plaintext now =
     (let hash = kr_sha256 r plaintext; created = from_unix (unix now);
          row = \<lparr>ak_id = i, ak_prefix = prefix, ak_key_hash = hash, ak_label = label, ak_created_at = unix created,
                 ak_last_used_at = None, ak_revoked_at = None\<rparr>
      in andThen (db_exec_checked ''UNIQUE constraint failed: api_keys''
           (\<lambda>d. row_get ak_id i (db_keys d) = None \<and> row_get ak_key_hash hash (db_keys d) = None)
           (\<lambda>d. ((), d\<lparr>db_keys := db_keys d @ [row]\<rparr>)))
         (\<lambda>_. ret \<lparr>ky_ID = i, ky_Prefix = prefix, ky_Label = label, ky_CreatedAt = created, ky_LastUsedAt = None,
            ky_RevokedAt = None\<rparr>))"

text \<open>The scan of \<open>Authenticate\<close>: the last unrevoked row with the candidate hash. The copy leaves
  \<open>RevokedAt\<close> unset.\<close>

definition key_matches :: "string \<Rightarrow> key_row \<Rightarrow> bool" where
  "key_matches hash row \<longleftrightarrow> ak_key_hash row = hash \<and> ak_revoked_at row = None"

definition matched_key :: "key_row \<Rightarrow> api_key" where
  "matched_key row = \<lparr>ky_ID = ak_id row, ky_Prefix = ak_prefix row, ky_Label = ak_label row,
     ky_CreatedAt = from_unix (ak_created_at row), ky_LastUsedAt = timePtr (ak_last_used_at row), ky_RevokedAt = None\<rparr>"

fun scan_keys :: "string \<Rightarrow> api_key option \<Rightarrow> key_row list \<Rightarrow> api_key option" where
  "scan_keys hash found [] = found"
| "scan_keys hash found (row # rows) =
     scan_keys hash (if key_matches hash row then Some (matched_key row) else found) rows"

definition touch_key :: "string \<Rightarrow> int \<Rightarrow> database \<Rightarrow> nat \<times> database" where
  "touch_key i used d =
     (let P = (\<lambda>row. ak_id row = i \<and> ak_revoked_at row = None) in
      (length (filter P (db_keys d)),
       d\<lparr>db_keys := map (\<lambda>row. if P row then row\<lparr>ak_last_used_at := Some used\<rparr> else row) (db_keys d)\<rparr>))"

definition record_use :: "key_repository \<Rightarrow> time \<Rightarrow> api_key \<Rightarrow> api_key dbop" where
  "record_use r now matched =
     (if (case ky_LastUsedAt matched of None \<Rightarrow> True | Some t \<Rightarrow> time_before t (now - kr_lastUseInterval r))
      then andThen (db_exec (touch_key (ky_ID matched) (unix now))) (\<lambda>n.
           andThen (requireAffected n) (\<lambda>_.
           ret (matched\<lparr>ky_LastUsedAt := Some (from_unix (unix now))\<rparr>)))
      else ret matched)"

definition key_Authenticate :: "key_repository \<Rightarrow> string \<Rightarrow> string \<Rightarrow> time \<Rightarrow> api_key dbop" where
  "key_Authenticate r prefix plaintext now =
     db_tx (andThen (db_query (\<lambda>d. filter (\<lambda>row. ak_prefix row = prefix) (db_keys d))) (\<lambda>rows.
       case scan_keys (kr_sha256 r plaintext) None rows of
         None \<Rightarrow> raise ErrNoRows
       | Some matched \<Rightarrow> record_use r now matched))"

definition key_of_row :: "key_row \<Rightarrow> api_key" where
  "key_of_row row = (matched_key row)\<lparr>ky_RevokedAt := timePtr (ak_revoked_at row)\<rparr>"

definition key_List :: "api_key list dbop" where
  "key_List = andThen (db_query (\<lambda>d. sort_key (\<lambda>row. (ak_created_at row, ak_id row)) (db_keys d)))
     (\<lambda>rows. ret (map key_of_row rows))"

definition revoke_key :: "string \<Rightarrow> int \<Rightarrow> database \<Rightarrow> nat \<times> database" where
  "revoke_key i now d =
     (let P = (\<lambda>row. ak_id row = i \<and> ak_revoked_at row = None) in
      (length (filter P (db_keys d)),
       d\<lparr>db_keys := map (\<lambda>row. if P row then row\<lparr>ak_revoked_at := Some now\<rparr> else row) (db_keys d)\<rparr>))"

definition key_Revoke :: "string \<Rightarrow> time \<Rightarrow> unit dbop" where
  "key_Revoke i now = andThen (db_exec (revoke_key i (unix now))) requireAffected"


subsection \<open>The key service\<close>

definition APIKeyPrefix :: string where "APIKeyPrefix = ''byos_''"

record created_key =
  ck_Key :: api_key
  ck_Plaintext :: string

definition randomPublicID :: "string \<Rightarrow> go_error + string \<Rightarrow> go_error + string" where
  "randomPublicID prefix rnd = (case rnd of Inl e \<Rightarrow> Inl e | Inr raw \<Rightarrow> Inr (prefix @ EncodeToString raw))"

definition keys_Create ::
  "key_repository \<Rightarrow> string \<Rightarrow> go_error + string \<Rightarrow> go_error + string \<Rightarrow> time \<Rightarrow> created_key dbop" where
  "keys_Create r label secretRnd idRnd now =
     reject (trimSpace label = []) (ErrNew ''api key label is required'')
     (andThen (lift_result secretRnd) (\<lambda>raw.
      let plaintext = APIKeyPrefix @ EncodeToString raw in
      andThen (lift_result (randomPublicID ''key_'' idRnd)) (\<lambda>i.
      andThen (key_Create r i (take 12 plaintext) label plaintext now) (\<lambda>key.
      ret \<lparr>ck_Key = key, ck_Plaintext = plaintext\<rparr>))))"

definition keys_Authenticate :: "key_repository \<Rightarrow> string \<Rightarrow> time \<Rightarrow> api_key dbop" where
  "keys_Authenticate r plaintext now =
     reject (\<not> hasPrefix plaintext APIKeyPrefix \<or> length plaintext < 12) (ErrNew ''invalid api key'')
     (key_Authenticate r (take 12 plaintext) plaintext now)"


section \<open>Administrator sessions\<close>

record admin_session =
  ads_CSRFSecret :: string
  ads_CreatedAt :: time
  ads_ExpiresAt :: time
  ads_RevokedAt :: "time option"

record created_session =
  cs_Token :: string
  cs_Session :: admin_session

record session_repository =
  sr_key :: string
  sr_aead :: aead
  sr_sha256 :: "string \<Rightarrow> string"

definition session_Create ::
  "session_repository \<Rightarrow> time \<Rightarrow> time \<Rightarrow> go_error + string \<Rightarrow> go_error + string \<Rightarrow> go_error + string \<Rightarrow> created_session dbop" where
  "session_Create r createdAt0 expiresAt0 tokenRnd csrfRnd nonce =
     (let createdAt = from_unix (unix createdAt0); expiresAt = from_unix (unix expiresAt0) in
      reject (\<not> time_after expiresAt createdAt) (ErrNew ''admin session expiry must follow creation'')
      (andThen (wrap_op ''generate admin session token'' (lift_result tokenRnd)) (\<lambda>tokenBytes.
       andThen (wrap_op ''generate admin session CSRF secret'' (lift_result csrfRnd)) (\<lambda>csrfSecret.
       andThen (wrap_op ''encrypt admin session CSRF secret'' (lift_result (Encrypt (sr_aead r) (sr_key r) nonce csrfSecret))) (\<lambda>encrypted.
       let token = EncodeToString tokenBytes; hash = sr_sha256 r token in
       andThen (wrap_op ''create admin session''
           (db_exec_checked ''UNIQUE constraint failed: admin_sessions.id_hash''
              (\<lambda>d. row_get se_id_hash hash (db_admin_sessions d) = None)
              (\<lambda>d. ((), d\<lparr>db_admin_sessions := db_admin_sessions d @
                 [\<lparr>se_id_hash = hash, se_csrf_secret = encrypted, se_created_at = unix createdAt,
                   se_expires_at = unix expiresAt, se_revoked_at = None\<rparr>]\<rparr>)))) (\<lambda>_.
       ret \<lparr>cs_Token = token, cs_Session = \<lparr>ads_CSRFSecret = csrfSecret, ads_CreatedAt = createdAt,
             ads_ExpiresAt = expiresAt, ads_RevokedAt = None\<rparr>\<rparr>))))))"

definition session_live :: "string \<Rightarrow> time \<Rightarrow> admin_session_row \<Rightarrow> bool" where
  "session_live hash now row \<longleftrightarrow> se_id_hash row = hash \<and> se_revoked_at row = None \<and> unix now < se_expires_at row"

definition session_Get :: "session_repository \<Rightarrow> string \<Rightarrow> time \<Rightarrow> admin_session dbop" where
  "session_Get r token now =
     andThen (db_query_row (\<lambda>d. find (session_live (sr_sha256 r token) now) (db_admin_sessions d))) (\<lambda>row.
     andThen (wrap_op ''decrypt admin session CSRF secret''
         (lift_result (Decrypt (sr_aead r) (sr_key r) (se_csrf_secret row)))) (\<lambda>secret.
     reject (length secret \<noteq> 32) (ErrNew ''invalid admin session CSRF secret'')
     (ret \<lparr>ads_CSRFSecret = secret, ads_CreatedAt = from_unix (se_created_at row),
           ads_ExpiresAt = from_unix (se_expires_at row), ads_RevokedAt = None\<rparr>)))"

definition revoke_session :: "string \<Rightarrow> int \<Rightarrow> database \<Rightarrow> nat \<times> database" where
  "revoke_session hash now d =
     (let P = (\<lambda>row. se_id_hash row = hash \<and> se_revoked_at row = None) in
      (length (filter P (db_admin_sessions d)),
       d\<lparr>db_admin_sessions := map (\<lambda>row. if P row then row\<lparr>se_revoked_at := Some now\<rparr> else row) (db_admin_sessions d)\<rparr>))"

definition session_Revoke :: "session_repository \<Rightarrow> string \<Rightarrow> time \<Rightarrow> unit dbop" where
  "session_Revoke r token now =
     andThen (wrap_op ''revoke admin session'' (db_exec (revoke_session (sr_sha256 r token) (unix now)))) requireAffected"

definition session_Cleanup :: "time \<Rightarrow> nat dbop" where
  "session_Cleanup before =
     wrap_op ''clean admin sessions'' (db_exec (\<lambda>d.
       let rows = db_admin_sessions d;
           rows' = delete_limit cleanupBatchSize (\<lambda>row. se_expires_at row \<le> unix before \<or>
             (case se_revoked_at row of None \<Rightarrow> False | Some t \<Rightarrow> t \<le> unix before)) rows
       in (length rows - length rows', d\<lparr>db_admin_sessions := rows'\<rparr>)))"


section \<open>What the scan finds\<close>

lemma scan_keys_filter:
  "scan_keys hash found rows =
     (case filter (key_matches hash) rows of [] \<Rightarrow> found | ms \<Rightarrow> Some (matched_key (last ms)))"
  by (induction rows arbitrary: found) (auto split: list.splits)

lemma scan_keys_Some:
  assumes "scan_keys hash None rows = Some key"
  shows "\<exists>row \<in> set rows. key_matches hash row \<and> key = matched_key row"
proof -
  from assms have ne: "filter (key_matches hash) rows \<noteq> []" and key: "key = matched_key (last (filter (key_matches hash) rows))"
    by (auto simp: scan_keys_filter split: list.splits)
  from last_in_set [OF ne] key show ?thesis by auto
qed

lemma record_use_returns:
  "record_use r now matched d = (Inr key, d') \<Longrightarrow> ky_ID key = ky_ID matched \<and> ky_Label key = ky_Label matched"
  by (auto simp: record_use_def returns_simps split: if_splits)

lemma key_Authenticate_returns:
  assumes "key_Authenticate r prefix plaintext now d = (Inr key, d')"
  obtains row where "row \<in> set (db_keys d)" "ak_prefix row = prefix" "ak_key_hash row = kr_sha256 r plaintext"
    "ak_revoked_at row = None" "ky_ID key = ak_id row" "ky_Label key = ak_label row"
proof -
  let ?q = "db_query (\<lambda>d. filter (\<lambda>row. ak_prefix row = prefix) (db_keys d))"
  from assms obtain d1 d2 where t: "tables d1 = tables d"
    and b: "andThen ?q (\<lambda>rows. case scan_keys (kr_sha256 r plaintext) None rows of
         None \<Rightarrow> raise ErrNoRows | Some matched \<Rightarrow> record_use r now matched) d1 = (Inr key, d2)"
    unfolding key_Authenticate_def by (rule db_tx_Inr)
  then obtain rows d3 matched where q: "?q d1 = (Inr rows, d3)"
    and m: "scan_keys (kr_sha256 r plaintext) None rows = Some matched" "record_use r now matched d3 = (Inr key, d2)"
    by (auto simp: returns_simps split: option.splits)
  have "rows = filter (\<lambda>row. ak_prefix row = prefix) (db_keys d)"
    using db_query_returns [OF q] tables_eqD(7) [OF t] tables_eqD(7) by metis
  with scan_keys_Some [OF m(1)] record_use_returns [OF m(2)] that show ?thesis
    by (auto simp: key_matches_def matched_key_def)
qed


section \<open>Revocation is for good\<close>

text \<open>An unrevoked row may be touched or revoked; a revoked row does not change.\<close>

definition key_moves :: "key_row \<Rightarrow> key_row \<Rightarrow> bool" where
  "key_moves old new \<longleftrightarrow> ak_revoked_at old = None \<and> ak_id new = ak_id old \<and> ak_prefix new = ak_prefix old \<and>
     ak_key_hash new = ak_key_hash old \<and> ak_label new = ak_label old \<and> ak_created_at new = ak_created_at old"

inductive key_step :: "key_repository \<Rightarrow> database \<Rightarrow> database \<Rightarrow> bool" for r :: key_repository where
  Create: "key_step r d (snd (keys_Create r label secretRnd idRnd now d))"
| Authenticate: "key_step r d (snd (keys_Authenticate r plaintext now d))"
| Revoke: "key_step r d (snd (key_Revoke i now d))"

abbreviation keys_evolve :: "database \<Rightarrow> database \<Rightarrow> bool" where
  "keys_evolve \<equiv> evolving db_keys key_moves"

lemma keys_evolve_tables: "table_rel keys_evolve"
  by (rule evolving_tables) simp

lemmas keys_evolve_intros = keys_evolve_tables evolving_reflp [of db_keys key_moves] evolving_transp [of db_keys key_moves]

lemma touch_key_evolves: "keys_evolve d (snd (touch_key i used d))"
  using extends_map [of "\<lambda>row. ak_id row = i \<and> ak_revoked_at row = None" key_moves "\<lambda>row. row\<lparr>ak_last_used_at := Some used\<rparr>"]
  by (simp add: evolving_def touch_key_def Let_def key_moves_def)

lemma revoke_key_evolves: "keys_evolve d (snd (revoke_key i now d))"
  using extends_map [of "\<lambda>row. ak_id row = i \<and> ak_revoked_at row = None" key_moves "\<lambda>row. row\<lparr>ak_revoked_at := Some now\<rparr>"]
  by (simp add: evolving_def revoke_key_def Let_def key_moves_def)

lemma keys_Create_evolves: "keeps keys_evolve (keys_Create r label secretRnd idRnd now)"
  unfolding keys_Create_def key_Create_def Let_def
  by (intro keeps_intros keys_evolve_intros) (simp_all add: evolving_def extends_append)

lemma keys_Authenticate_evolves: "keeps keys_evolve (keys_Authenticate r plaintext now)"
  unfolding keys_Authenticate_def key_Authenticate_def record_use_def
  by (intro keeps_intros keys_evolve_intros touch_key_evolves)

lemma key_Revoke_evolves: "keeps keys_evolve (key_Revoke i now)"
  unfolding key_Revoke_def by (intro keeps_intros keys_evolve_intros revoke_key_evolves)

lemma key_step_evolves: "key_step r d d' \<Longrightarrow> keys_evolve d d'"
  by (induction rule: key_step.induct)
     (rule keepsD, rule keys_Create_evolves keys_Authenticate_evolves key_Revoke_evolves)+

interpretation apikeys: moving_table db_keys "key_step r" key_moves
  using key_step_evolves unfolding evolving_def by unfold_locales blast

lemma revoked_row_final: "key_moves\<^sup>*\<^sup>* row row' \<Longrightarrow> ak_revoked_at row \<noteq> None \<Longrightarrow> row' = row"
  by (erule converse_rtranclpE) (auto simp: key_moves_def)


section \<open>Invariant\<close>

definition keys_inv :: "database \<Rightarrow> bool" where
  "keys_inv d \<longleftrightarrow> unique_rows ak_id (db_keys d) \<and> unique_rows ak_key_hash (db_keys d)"

lemma keys_inv_tables: "table_rel (stable keys_inv)"
  by (rule table_rel_stable) (simp add: keys_inv_def)

lemmas keys_inv_intros = keys_inv_tables stable_reflp [of keys_inv] stable_transp [of keys_inv]

lemma keys_inv_map:
  "(\<And>row. ak_id (f row) = ak_id row \<and> ak_key_hash (f row) = ak_key_hash row) \<Longrightarrow>
   stable keys_inv d (d\<lparr>db_keys := map (\<lambda>row. if P row then f row else row) (db_keys d)\<rparr>)"
  by (simp add: stable_def keys_inv_def unique_rows_def comp_def if_distrib cong: if_cong)

lemma keys_inv_append:
  "row_get ak_id (ak_id row) (db_keys d) = None \<Longrightarrow> row_get ak_key_hash (ak_key_hash row) (db_keys d) = None \<Longrightarrow>
   stable keys_inv d (d\<lparr>db_keys := db_keys d @ [row]\<rparr>)"
  by (auto simp: stable_def keys_inv_def unique_rows_def row_get_None_iff)

lemma key_step_inv: "key_step r d d' \<Longrightarrow> stable keys_inv d d'"
proof (induction rule: key_step.induct)
  case (Create d label secretRnd idRnd now)
  have "keeps (stable keys_inv) (keys_Create r label secretRnd idRnd now)"
    unfolding keys_Create_def key_Create_def Let_def
    by (intro keeps_intros keys_inv_intros) (simp, intro keys_inv_append, simp_all)
  then show ?case by (rule keepsD)
next
  case (Authenticate d plaintext now)
  have "keeps (stable keys_inv) (keys_Authenticate r plaintext now)"
    unfolding keys_Authenticate_def key_Authenticate_def record_use_def touch_key_def Let_def
    by (intro keeps_intros keys_inv_intros) (simp add: keys_inv_map)
  then show ?case by (rule keepsD)
next
  case (Revoke d i now)
  have "keeps (stable keys_inv) (key_Revoke i now)"
    unfolding key_Revoke_def revoke_key_def Let_def
    by (intro keeps_intros keys_inv_intros) (simp add: keys_inv_map)
  then show ?case by (rule keepsD)
qed

lemma key_run_inv: "(key_step r)\<^sup>*\<^sup>* d d' \<Longrightarrow> keys_inv d \<Longrightarrow> keys_inv d'"
  by (induction rule: rtranclp_induct) (auto simp: stable_def dest!: key_step_inv)


section \<open>Properties\<close>

text \<open>A revoked API key is dead. After \<open>Revoke\<close> of an id has succeeded, whatever keys are
  created, used or revoked afterwards, no plaintext ever authenticates as that id again; and what
  does authenticate is an unrevoked stored key whose hash is the hash of the plaintext.\<close>

lemma revoked_key_rejected:
  assumes "keys_inv d" "key_Revoke i now d = (Inr (), d1)" "(key_step r)\<^sup>*\<^sup>* d1 d2"
    and auth: "keys_Authenticate r plaintext now' d2 = (Inr key, d3)"
  shows "ky_ID key \<noteq> i \<and>
    (\<exists>row \<in> set (db_keys d2). ak_id row = ky_ID key \<and> ak_key_hash row = kr_sha256 r plaintext \<and> ak_revoked_at row = None)"
proof -
  have step: "key_step r d d1" using key_step.Revoke [of r d i now] assms(2) by simp
  have inv: "keys_inv d2" using assms(1) step key_step_inv [OF step] key_run_inv [OF assms(3)] by (simp add: stable_def)
  obtain n d0 where rv: "revoke_key i (unix now) d0 = (n, d1)" "n \<noteq> 0"
    using assms(2) by (auto simp: key_Revoke_def returns_simps elim!: db_exec_returns)
  then have "length (filter (\<lambda>row. ak_id row = i \<and> ak_revoked_at row = None) (db_keys d0)) \<noteq> 0"
    by (simp add: revoke_key_def Let_def)
  then obtain row0 where row0: "row0 \<in> set (db_keys d0)" "ak_id row0 = i" "ak_revoked_at row0 = None"
    by (auto simp: filter_empty_conv)
  have "\<exists>row \<in> set (db_keys d1). ak_id row = i \<and> ak_revoked_at row \<noteq> None"
    using rv(1) row0 by (auto simp: revoke_key_def Let_def intro!: bexI [of _ "row0\<lparr>ak_revoked_at := Some (unix now)\<rparr>"])
  then obtain k where k: "k < length (db_keys d1)" "ak_id (db_keys d1 ! k) = i" "ak_revoked_at (db_keys d1 ! k) \<noteq> None"
    by (auto simp: in_set_conv_nth)
  then have k2: "k < length (db_keys d2)" "db_keys d2 ! k = db_keys d1 ! k"
    using apikeys.run_nth [OF assms(3) k(1)] revoked_row_final by auto
  from auth have "key_Authenticate r (take 12 plaintext) plaintext now' d2 = (Inr key, d3)"
    by (simp add: keys_Authenticate_def reject_returns)
  then show ?thesis
  proof (rule key_Authenticate_returns)
    fix row assume row: "row \<in> set (db_keys d2)" "ak_key_hash row = kr_sha256 r plaintext" "ak_revoked_at row = None"
      "ky_ID key = ak_id row"
    have "row \<noteq> db_keys d2 ! k" using row(3) k(3) k2(2) by auto
    moreover have "row_get ak_id (ak_id row) (db_keys d2) = Some row"
      "row_get ak_id i (db_keys d2) = Some (db_keys d2 ! k)"
      using row_get_mem [of ak_id "db_keys d2"] inv row(1) k2 k(2) nth_mem [OF k2(1)] by (auto simp: keys_inv_def)
    ultimately show ?thesis using row by auto
  qed
qed

lemma scan_keys_unique:
  assumes "row \<in> set rows" "key_matches hash row" "\<And>q. q \<in> set rows \<Longrightarrow> ak_key_hash q = hash \<Longrightarrow> q = row"
  shows "scan_keys hash None rows = Some (matched_key row)"
proof -
  let ?ms = "filter (key_matches hash) rows"
  have ne: "?ms \<noteq> []" using assms(1,2) by (auto simp: filter_empty_conv)
  then have "last ?ms = row" using last_in_set [OF ne] assms(3) by (auto simp: key_matches_def)
  with ne show ?thesis by (auto simp: scan_keys_filter split: list.splits)
qed

lemma record_use_ok:
  assumes "db_faults d = []" "row \<in> set (db_keys d)" "ak_revoked_at row = None"
  shows "\<exists>key d'. record_use r now (matched_key row) d = (Inr key, d') \<and> ky_ID key = ak_id row \<and> db_faults d' = []"
proof -
  have "filter (\<lambda>q. ak_id q = ak_id row \<and> ak_revoked_at q = None) (db_keys d) \<noteq> []"
    using assms(2,3) by (auto simp: filter_empty_conv)
  then obtain n d1 where "touch_key (ak_id row) (unix now) d = (n, d1)" "n \<noteq> 0" "db_faults d1 = []"
    using assms(1) by (simp add: touch_key_def Let_def)
  moreover have "ky_ID (matched_key row) = ak_id row" by (simp add: matched_key_def)
  ultimately show ?thesis using assms(1) by (simp add: record_use_def monad_simps)
qed

lemma key_Authenticate_ok:
  assumes "db_faults d = []" "keys_inv d" "row \<in> set (db_keys d)" "ak_prefix row = prefix"
    "ak_key_hash row = kr_sha256 r plaintext" "ak_revoked_at row = None"
  shows "\<exists>key d'. key_Authenticate r prefix plaintext now d = (Inr key, d') \<and> ky_ID key = ak_id row"
proof -
  have u: "q = row" if "q \<in> set (db_keys d)" "ak_key_hash q = kr_sha256 r plaintext" for q
    using row_get_mem [of ak_key_hash "db_keys d"] assms(2,3,5) that by (metis keys_inv_def option.inject)
  have "scan_keys (kr_sha256 r plaintext) None (filter (\<lambda>row. ak_prefix row = prefix) (db_keys d)) = Some (matched_key row)"
    by (rule scan_keys_unique [OF _ _ u]) (use assms(3-6) in \<open>simp_all add: key_matches_def\<close>)
  moreover obtain key d' where "record_use r now (matched_key row) d = (Inr key, d')" "ky_ID key = ak_id row" "db_faults d' = []"
    using record_use_ok [OF assms(1,3,6)] by blast
  ultimately show ?thesis
    using assms(1) by (simp add: key_Authenticate_def db_tx_def monad_simps)
qed

lemma key_moves_identity:
  "key_moves\<^sup>*\<^sup>* row row' \<Longrightarrow> ak_id row' = ak_id row \<and> ak_prefix row' = ak_prefix row \<and> ak_key_hash row' = ak_key_hash row"
  by (induction rule: rtranclp_induct) (auto simp: key_moves_def)

lemma EncodeToString_length: "length (EncodeToString bs) \<ge> length bs"
proof -
  have "length ns \<le> length (b64_sextets ns)" for ns by (induction ns rule: b64_sextets.induct) auto
  from this [of "map of_char bs"] show ?thesis by (simp add: EncodeToString_def)
qed

lemma created_row:
  assumes "keys_Create r label (Inr raw) idRnd now d = (Inr created, d1)"
  shows "\<exists>row \<in> set (db_keys d1). ak_id row = ky_ID (ck_Key created) \<and>
    ak_prefix row = take 12 (APIKeyPrefix @ EncodeToString raw) \<and>
    ak_key_hash row = kr_sha256 r (APIKeyPrefix @ EncodeToString raw)"
proof -
  let ?p = "APIKeyPrefix @ EncodeToString raw"
  from assms obtain i key where c: "key_Create r i (take 12 ?p) label ?p now d = (Inr key, d1)" "created = \<lparr>ck_Key = key, ck_Plaintext = ?p\<rparr>"
    by (auto simp: keys_Create_def returns_simps Let_def)
  define row where "row = \<lparr>ak_id = i, ak_prefix = take 12 ?p, ak_key_hash = kr_sha256 r ?p, ak_label = label,
    ak_created_at = unix (from_unix (unix now)), ak_last_used_at = None, ak_revoked_at = None\<rparr>"
  from c(1) obtain u where u: "db_exec_checked ''UNIQUE constraint failed: api_keys''
      (\<lambda>d. row_get ak_id i (db_keys d) = None \<and> row_get ak_key_hash (kr_sha256 r ?p) (db_keys d) = None)
      (\<lambda>d. ((), d\<lparr>db_keys := db_keys d @ [row]\<rparr>)) d = (Inr u, d1)" "ky_ID key = i"
    unfolding key_Create_def Let_def row_def [symmetric] by (auto simp: returns_simps)
  obtain d0 where "d1 = d0\<lparr>db_keys := db_keys d0 @ [row]\<rparr>"
    using u(1) by (rule db_exec_checked_returns) auto
  then have "row \<in> set (db_keys d1)" by simp
  then show ?thesis using u(2) c(2) by (intro bexI [of _ row]) (simp_all add: row_def)
qed

text \<open>A created API key works. The plaintext handed out by \<open>Create\<close> authenticates as the created
  id on any later database of the repository, as long as the key has not been revoked and storage
  works.\<close>

theorem created_key_authenticates:
  assumes "keys_inv d" "keys_Create r label (Inr raw) idRnd now d = (Inr created, d1)" "length raw = 32"
    and run: "(key_step r)\<^sup>*\<^sup>* d1 d2" and ok: "db_faults d2 = []"
    and live: "\<And>row. row \<in> set (db_keys d2) \<Longrightarrow> ak_id row = ky_ID (ck_Key created) \<Longrightarrow> ak_revoked_at row = None"
  shows "\<exists>key d3. keys_Authenticate r (ck_Plaintext created) now' d2 = (Inr key, d3) \<and> ky_ID key = ky_ID (ck_Key created)"
proof -
  let ?p = "APIKeyPrefix @ EncodeToString raw"
  have step: "key_step r d d1" using key_step.Create [of r d label "Inr raw" idRnd now] assms(2) by simp
  then have inv: "keys_inv d2" using assms(1) key_step_inv [OF step] key_run_inv [OF run] by (simp add: stable_def)
  from assms(2) have p: "ck_Plaintext created = ?p"
    by (auto simp: keys_Create_def returns_simps Let_def)
  obtain row where row: "row \<in> set (db_keys d1)" "ak_id row = ky_ID (ck_Key created)" "ak_prefix row = take 12 ?p"
    "ak_key_hash row = kr_sha256 r ?p"
    using created_row [OF assms(2)] by blast
  obtain k where k: "k < length (db_keys d1)" "db_keys d1 ! k = row" using row(1) by (auto simp: in_set_conv_nth)
  let ?q = "db_keys d2 ! k"
  have q: "k < length (db_keys d2)" "key_moves\<^sup>*\<^sup>* row ?q" using apikeys.run_nth [OF run k(1)] k(2) by auto
  then have same: "ak_id ?q = ak_id row" "ak_prefix ?q = ak_prefix row" "ak_key_hash ?q = ak_key_hash row"
    using key_moves_identity by metis+
  have "length ?p \<ge> 12" using EncodeToString_length [of raw] assms(3) by (simp add: APIKeyPrefix_def)
  then show ?thesis
    using key_Authenticate_ok [OF ok inv nth_mem [OF q(1)], of "take 12 ?p" r ?p now'] same row live [OF nth_mem [OF q(1)]]
    by (auto simp: keys_Authenticate_def p reject_run)
qed


lemma find_append_None: "(\<And>x. x \<in> set xs \<Longrightarrow> \<not> P x) \<Longrightarrow> find P (xs @ ys) = find P ys"
  by (induction xs) auto

text \<open>An administrator session opens exactly while it lives. With working storage the token
  handed out by \<open>Create\<close> reads back the session with its CSRF secret at every time before its
  expiry; at or after the expiry, or once revoked, the token is refused.\<close>

theorem admin_session_lifetime:
  assumes laws: "aead_laws (sr_aead r)" "length nonce = ad_NonceSize (sr_aead r)" and csrf: "length csrf = 32"
    and d: "db_faults d = []" and u: "row_get se_id_hash (sr_sha256 r (EncodeToString token)) (db_admin_sessions d) = None"
    and t: "unix createdAt < unix expiresAt"
  shows "\<exists>created d1. session_Create r createdAt expiresAt (Inr token) (Inr csrf) (Inr nonce) d = (Inr created, d1) \<and>
    ads_CSRFSecret (cs_Session created) = csrf \<and>
    (\<forall>now. fst (session_Get r (cs_Token created) now d1) =
       (if unix now < unix expiresAt then Inr (cs_Session created) else Inl ErrNoRows)) \<and>
    (\<forall>now now'. fst (session_Get r (cs_Token created) now (snd (session_Revoke r (cs_Token created) now' d1))) = Inl ErrNoRows)"
proof -
  let ?hash = "sr_sha256 r (EncodeToString token)"
  obtain env where env: "Encrypt (sr_aead r) (sr_key r) (Inr nonce) csrf = Inr env" "Decrypt (sr_aead r) (sr_key r) env = Inr csrf"
    using Decrypt_Encrypt [OF laws] by (auto simp: Encrypt_def)
  define row where "row = \<lparr>se_id_hash = ?hash, se_csrf_secret = env, se_created_at = unix createdAt,
    se_expires_at = unix expiresAt, se_revoked_at = None\<rparr>"
  define d1 where "d1 = d\<lparr>db_admin_sessions := db_admin_sessions d @ [row]\<rparr>"
  define created where "created = \<lparr>cs_Token = EncodeToString token, cs_Session = \<lparr>ads_CSRFSecret = csrf,
    ads_CreatedAt = from_unix (unix createdAt), ads_ExpiresAt = from_unix (unix expiresAt), ads_RevokedAt = None\<rparr>\<rparr>"
  have other: "se_id_hash q \<noteq> ?hash" if "q \<in> set (db_admin_sessions d)" for q
    using u that unfolding row_get_None_iff by (metis imageI)
  then have get: "find (session_live ?hash now) (db_admin_sessions d1) = (if unix now < unix expiresAt then Some row else None)" for now
    by (simp add: d1_def find_append_None session_live_def row_def)
  have "find (session_live ?hash now) (db_admin_sessions (snd (revoke_session ?hash t d1))) = None" for now t
    by (auto simp: find_None_iff session_live_def revoke_session_def Let_def)
  moreover have "db_faults d1 = []" using d by (simp add: d1_def)
  ultimately have "fst (session_Get r (EncodeToString token) now (snd (session_Revoke r (EncodeToString token) now' d1))) = Inl ErrNoRows" for now now'
    by (simp add: session_Get_def session_Revoke_def monad_simps revoke_session_def Let_def)
  moreover have "fst (session_Get r (EncodeToString token) now d1) =
      (if unix now < unix expiresAt then Inr (cs_Session created) else Inl ErrNoRows)" for now
    using get [of now] d csrf env(2)
    by (simp add: session_Get_def monad_simps d1_def [symmetric] \<open>db_faults d1 = []\<close>, simp add: row_def created_def lift_result_def ret_def reject_def)
  moreover have "session_Create r createdAt expiresAt (Inr token) (Inr csrf) (Inr nonce) d = (Inr created, d1)"
    using t u d env(1) by (simp add: session_Create_def Let_def monad_simps time_after_def lift_result_def created_def d1_def row_def)
  ultimately show ?thesis by (intro exI [of _ created] exI [of _ d1]) (simp add: created_def)
qed


section \<open>Witnesses\<close>

definition sample_keys :: key_repository where
  "sample_keys = NewAPIKeyRepository id"

definition sample_raw :: string where
  "sample_raw = replicate 32 (CHR 0x00)"

definition sample_created_key :: "(go_error + created_key) \<times> database" where
  "sample_created_key = keys_Create sample_keys ''ci'' (Inr sample_raw) (Inr ''x'') 0 empty_database"

definition sample_key_db :: database where
  "sample_key_db = snd sample_created_key"

lemma sample_key_created:
  "keys_Create sample_keys ''ci'' (Inr sample_raw) (Inr ''x'') 0 empty_database = (Inr (projr (fst sample_created_key)), sample_key_db)"
proof -
  have "isl (fst sample_created_key) = False" by code_simp
  then show ?thesis by (cases "fst sample_created_key") (simp_all add: sample_key_db_def sample_created_key_def [symmetric] prod_eq_iff)
qed

lemma sample_key_facts:
  "keys_inv empty_database" "length sample_raw = 32" "db_faults sample_key_db = []"
  "list_all (\<lambda>row. ak_revoked_at row = None) (db_keys sample_key_db)"
  "ky_ID (ck_Key (projr (fst sample_created_key))) = ''key_eA''"
  by code_simp+

theorem created_key_authenticates_witness:
  "\<exists>key d3. keys_Authenticate sample_keys (ck_Plaintext (projr (fst sample_created_key))) (hour) sample_key_db = (Inr key, d3) \<and>
     ky_ID key = ''key_eA''"
  using created_key_authenticates [OF sample_key_facts(1) sample_key_created sample_key_facts(2) rtranclp.rtrancl_refl sample_key_facts(3)]
    sample_key_facts(4,5) by (simp add: list_all_iff)

definition two_keys :: database where
  "two_keys = snd (keys_Create sample_keys ''dev'' (Inr (replicate 32 (CHR 0x01))) (Inr ''y'') 0 sample_key_db)"

lemma sample_revocation:
  "keys_inv two_keys" "key_Revoke ''key_eA'' 3 two_keys = (Inr (), snd (key_Revoke ''key_eA'' 3 two_keys))"
proof -
  show "keys_inv two_keys" by code_simp
  have "fst (key_Revoke ''key_eA'' 3 two_keys) = Inr ()" by code_simp
  then show "key_Revoke ''key_eA'' 3 two_keys = (Inr (), snd (key_Revoke ''key_eA'' 3 two_keys))" by (metis prod.collapse)
qed

definition sample_sessions :: session_repository where
  "sample_sessions = \<lparr>sr_key = ''w'', sr_aead = sample_aead, sr_sha256 = id\<rparr>"

theorem admin_session_lifetime_witness:
  "\<exists>created d1. session_Create sample_sessions 0 (12 * hour) (Inr sample_raw) (Inr sample_raw) (Inr ''nn'') empty_database = (Inr created, d1) \<and>
     fst (session_Get sample_sessions (cs_Token created) (11 * hour) d1) = Inr (cs_Session created) \<and>
     fst (session_Get sample_sessions (cs_Token created) (12 * hour) d1) = Inl ErrNoRows"
proof -
  have "aead_laws (sr_aead sample_sessions)" by (simp add: sample_sessions_def sample_aead_laws)
  moreover have "length ''nn'' = ad_NonceSize (sr_aead sample_sessions)" "length sample_raw = 32" "db_faults empty_database = []"
    "row_get se_id_hash (sr_sha256 sample_sessions (EncodeToString sample_raw)) (db_admin_sessions empty_database) = None"
    "unix 0 < unix (12 * hour)" by code_simp+
  moreover have "unix (11 * hour) < unix (12 * hour)" "\<not> unix (12 * hour) < unix (12 * hour)" by code_simp+
  ultimately show ?thesis
    using admin_session_lifetime [of sample_sessions "''nn''" sample_raw empty_database sample_raw 0 "12 * hour"] by metis
qed

end
