(* ===== verification/Stored_Responses.thy ===== *)
theory Stored_Responses
  imports Moving_Table Translate_Common
begin

text \<open>
  Response chains: the repository \<open>internal/store/responses.go\<close>, the reconstruction of a
  conversation \<open>internal/sessions/reconstruct.go\<close> and the service \<open>internal/sessions/service.go\<close>.
  A client that sends \<open>previous_response_id\<close> continues a stored answer; the gateway walks the
  chain of stored nodes and sends the whole history upstream.

  The walk takes the number of nodes it may still visit, \<open>MaxChainNodes\<close> at first; running out
  is the code's own limit. \<open>ErrJSON\<close> stands for the errors of \<open>json.Unmarshal\<close>.

  Shown: what is sent is always self-contained and bounded, and storing an answer extends the
  history of its predecessor by exactly its input and output.
\<close>

section \<open>Repository\<close>

record response_session =
  rp_ResponseID :: string
  rp_UpstreamResponseID :: string
  rp_PreviousResponseID :: string
  rp_Model :: string
  rp_PreferredAccountID :: string
  rp_Input :: string
  rp_Output :: string
  rp_Store :: bool
  rp_CreatedAt :: time
  rp_ExpiresAt :: time

record response_repository =
  rr_aead :: aead
  rr_key :: string

abbreviation ErrJSON :: go_error where "ErrJSON \<equiv> Sentinel ''json''"
abbreviation ErrPreviousResponseNotFound :: go_error where
  "ErrPreviousResponseNotFound \<equiv> Sentinel ''previous_response_not_found''"
abbreviation ErrContextLengthExceeded :: go_error where
  "ErrContextLengthExceeded \<equiv> Sentinel ''context_length_exceeded''"

definition response_row_of :: "response_session \<Rightarrow> string \<Rightarrow> string \<Rightarrow> response_row" where
  "response_row_of v input output =
     \<lparr>rs_response_id = rp_ResponseID v, rs_upstream_id = nullString (rp_UpstreamResponseID v),
      rs_previous_id = nullString (rp_PreviousResponseID v), rs_model = rp_Model v,
      rs_preferred_account = nullString (rp_PreferredAccountID v), rs_input = input, rs_output = output,
      rs_store = rp_Store v, rs_created_at = unix (rp_CreatedAt v), rs_expires_at = unix (rp_ExpiresAt v)\<rparr>"

definition response_Put :: "response_repository \<Rightarrow> go_error + string \<Rightarrow> go_error + string \<Rightarrow> response_session \<Rightarrow> unit dbop" where
  "response_Put r inputNonce outputNonce v =
     andThen (lift_result (Encrypt (rr_aead r) (rr_key r) inputNonce (rp_Input v))) (\<lambda>input.
     andThen (lift_result (Encrypt (rr_aead r) (rr_key r) outputNonce (rp_Output v))) (\<lambda>output.
     db_exec_checked ''UNIQUE constraint failed: response_sessions.response_id''
       (\<lambda>d. row_get rs_response_id (rp_ResponseID v) (db_responses d) = None)
       (\<lambda>d. ((), d\<lparr>db_responses := db_responses d @ [response_row_of v input output]\<rparr>))))"

definition live_response :: "string \<Rightarrow> time \<Rightarrow> database \<Rightarrow> response_row option" where
  "live_response ident now d = find (\<lambda>row. rs_response_id row = ident \<and> unix now < rs_expires_at row) (db_responses d)"

definition response_of_row :: "response_repository \<Rightarrow> response_row \<Rightarrow> go_error + response_session" where
  "response_of_row r row =
     (case Decrypt (rr_aead r) (rr_key r) (rs_input row) of
        Inl e \<Rightarrow> Inl e
      | Inr input \<Rightarrow>
          (case Decrypt (rr_aead r) (rr_key r) (rs_output row) of
             Inl e \<Rightarrow> Inl e
           | Inr output \<Rightarrow> Inr
               \<lparr>rp_ResponseID = rs_response_id row, rp_UpstreamResponseID = coalesce (rs_upstream_id row),
                rp_PreviousResponseID = coalesce (rs_previous_id row), rp_Model = rs_model row,
                rp_PreferredAccountID = coalesce (rs_preferred_account row), rp_Input = input, rp_Output = output,
                rp_Store = rs_store row, rp_CreatedAt = from_unix (rs_created_at row),
                rp_ExpiresAt = from_unix (rs_expires_at row)\<rparr>))"

definition response_Get :: "response_repository \<Rightarrow> string \<Rightarrow> time \<Rightarrow> response_session dbop" where
  "response_Get r ident now =
     andThen (db_query_row (live_response ident now)) (\<lambda>row. lift_result (response_of_row r row))"

definition response_GetLink :: "string \<Rightarrow> time \<Rightarrow> (string \<times> string) dbop" where
  "response_GetLink ident now =
     andThen (db_query_row (live_response ident now)) (\<lambda>row.
       ret (coalesce (rs_previous_id row), coalesce (rs_preferred_account row)))"

definition response_Cleanup :: "time \<Rightarrow> nat dbop" where
  "response_Cleanup before =
     db_exec (\<lambda>d. let rows = db_responses d;
                       rows' = delete_limit cleanupBatchSize (\<lambda>row. rs_expires_at row < unix before) rows
                   in (length rows - length rows', d\<lparr>db_responses := rows'\<rparr>))"


section \<open>Histories\<close>

definition MaxChainNodes :: nat where "MaxChainNodes = 256"
definition MaxChainBytes :: int where "MaxChainBytes = 67108864"

record history =
  hb_items :: "json list"
  hb_references :: "string \<Rightarrow> jobject option"
  hb_encodedBytes :: int

definition newHistoryBuilder :: history where
  "newHistoryBuilder = \<lparr>hb_items = [], hb_references = Map.empty, hb_encodedBytes = 2\<rparr>"

definition continuity_kinds :: "string list" where
  "continuity_kinds = [''message'', ''function_call'', ''function_call_output'', ''reasoning'']"

text \<open>An item reference stands for the item it names.\<close>

definition resolve_item :: "history \<Rightarrow> jobject \<Rightarrow> go_error + jobject" where
  "resolve_item b item =
     (if str_field item ''type'' = ''item_reference''
      then (case hb_references b (str_field item ''item_id'') of
              None \<Rightarrow> Inl ErrPreviousResponseNotFound | Some m \<Rightarrow> Inr m)
      else Inr item)"

definition add_item :: "json_codec \<Rightarrow> jobject \<Rightarrow> history \<Rightarrow> go_error + history" where
  "add_item c item b =
     (let additional = int (length (jc_print c (JObj item))) + (if hb_items b \<noteq> [] then 1 else 0); ident = str_field item ''id'' in
      if hb_encodedBytes b + additional > MaxChainBytes then Inl ErrContextLengthExceeded
      else Inr \<lparr>hb_items = hb_items b @ [JObj item],
                hb_references = (if ident \<noteq> [] then (hb_references b)(ident \<mapsto> item) else hb_references b),
                hb_encodedBytes = hb_encodedBytes b + additional\<rparr>)"

fun history_append :: "json_codec \<Rightarrow> bool \<Rightarrow> json list \<Rightarrow> history \<Rightarrow> go_error + history" where
  "history_append c strict [] b = Inr b"
| "history_append c strict (raw # rest) b =
     (if \<not> is_object raw then Inl (ErrNew ''invalid canonical continuity item'')
      else case resolve_item b (Object raw) of
        Inl e \<Rightarrow> Inl e
      | Inr item \<Rightarrow>
          if str_field item ''type'' \<in> set continuity_kinds then
            (case add_item c item b of Inl e \<Rightarrow> Inl e | Inr b' \<Rightarrow> history_append c strict rest b')
          else if strict then Inl (ErrNew (''unsupported canonical continuity item '' @ str_field item ''type''))
          else history_append c strict rest b)"

definition inputItems :: "json \<Rightarrow> go_error + json list" where
  "inputItems v =
     (case v of
        JNull \<Rightarrow> Inr []
      | JStr t \<Rightarrow> Inr [JObj [(''type'', JStr ''message''), (''role'', JStr ''user''), (''content'', JStr t)]]
      | JArr xs \<Rightarrow> Inr xs
      | _ \<Rightarrow> Inl (ErrNew ''invalid canonical input''))"

definition extractInput :: "json_codec \<Rightarrow> string \<Rightarrow> go_error + json list" where
  "extractInput c raw =
     (case unmarshal_object c raw of None \<Rightarrow> Inl ErrJSON | Some request \<Rightarrow> inputItems (jindex request ''input''))"

definition extractOutput :: "json_codec \<Rightarrow> string \<Rightarrow> go_error + json list" where
  "extractOutput c raw =
     (case unmarshal_object c raw of None \<Rightarrow> Inl ErrJSON | Some response \<Rightarrow> Inr (Array (jindex response ''output'')))"

record reconstruction =
  rc_Body :: string
  rc_PreferredAccountID :: string

text \<open>\<open>request["input"] = builder.items\<close>: the slice is nil until an item is appended, and a nil slice is
  marshalled as \<open>null\<close>.\<close>

definition items_value :: "history \<Rightarrow> json" where
  "items_value b = (if hb_items b = [] then JNull else JArr (hb_items b))"

definition normalizeCurrent :: "json_codec \<Rightarrow> string \<Rightarrow> history \<Rightarrow> go_error + reconstruction" where
  "normalizeCurrent c current b =
     (case jc_parse c current of
        Some (JObj request) \<Rightarrow>
          (case inputItems (jindex request ''input'') of
             Inl e \<Rightarrow> Inl e
           | Inr items \<Rightarrow>
               (case history_append c True items b of
                  Inl e \<Rightarrow> Inl e
                | Inr b' \<Rightarrow>
                    let request' = jset (jdel (jset request ''input'' (items_value b')) ''previous_response_id'') ''store'' (JBool False);
                        body = jc_print c (JObj request') in
                    if int (length body) > MaxChainBytes then Inl ErrContextLengthExceeded
                    else Inr \<lparr>rc_Body = body, rc_PreferredAccountID = []\<rparr>))
      | _ \<Rightarrow> Inl (ErrNew ''invalid canonical request''))"

definition not_found :: "'a dbop \<Rightarrow> 'a dbop" where
  "not_found m d =
     (case m d of (Inl e, d') \<Rightarrow> (Inl (if errors_is e ErrNoRows then ErrPreviousResponseNotFound else e), d') | (Inr x, d') \<Rightarrow> (Inr x, d'))"

text \<open>The first loop of \<open>Reconstruct\<close>: the identifiers from the newest to the oldest, and the
  account of the newest; \<open>n\<close> is \<open>MaxChainNodes - len(reverseIDs)\<close>.\<close>

fun chain_walk :: "time \<Rightarrow> nat \<Rightarrow> string list \<Rightarrow> string \<Rightarrow> string \<Rightarrow> (string list \<times> string) dbop" where
  "chain_walk now 0 ids preferred ident =
     (if ident = [] then ret (ids, preferred) else raise ErrContextLengthExceeded)"
| "chain_walk now (Suc n) ids preferred ident =
     (if ident = [] then ret (ids, preferred)
      else if ident \<in> set ids then raise ErrContextLengthExceeded
      else andThen (not_found (response_GetLink ident now)) (\<lambda>p.
        chain_walk now n (ids @ [ident]) (if ids = [] then snd p else preferred) (fst p)))"

definition node_history :: "json_codec \<Rightarrow> response_session \<Rightarrow> history \<Rightarrow> go_error + history" where
  "node_history c node b =
     (case extractInput c (rp_Input node) of Inl e \<Rightarrow> Inl e | Inr inputs \<Rightarrow>
      (case history_append c True inputs b of Inl e \<Rightarrow> Inl e | Inr b1 \<Rightarrow>
       (case extractOutput c (rp_Output node) of Inl e \<Rightarrow> Inl e | Inr outputs \<Rightarrow> history_append c False outputs b1)))"

text \<open>The second loop, from the oldest node to the newest.\<close>

fun chain_history :: "json_codec \<Rightarrow> response_repository \<Rightarrow> time \<Rightarrow> string list \<Rightarrow> history \<Rightarrow> history dbop" where
  "chain_history c r now [] b = ret b"
| "chain_history c r now (ident # ids) b =
     andThen (not_found (response_Get r ident now)) (\<lambda>node.
     andThen (lift_result (node_history c node b)) (chain_history c r now ids))"

definition load_history :: "json_codec \<Rightarrow> response_repository \<Rightarrow> string \<Rightarrow> time \<Rightarrow> (history \<times> string) dbop" where
  "load_history c r previousID now =
     andThen (chain_walk now MaxChainNodes [] [] previousID) (\<lambda>p.
     andThen (chain_history c r now (rev (fst p)) newHistoryBuilder) (\<lambda>b. ret (b, snd p)))"

definition Reconstruct :: "json_codec \<Rightarrow> response_repository \<Rightarrow> string \<Rightarrow> string \<Rightarrow> time \<Rightarrow> reconstruction dbop" where
  "Reconstruct c r current previousID now =
     (if previousID = [] then lift_result (normalizeCurrent c current newHistoryBuilder)
      else andThen (load_history c r previousID now) (\<lambda>p.
           andThen (lift_result (normalizeCurrent c current (fst p))) (\<lambda>result.
           ret (result\<lparr>rc_PreferredAccountID := snd p\<rparr>))))"


section \<open>Service\<close>

definition Retention :: time where "Retention = 30 * 24 * 3600 * second"

text \<open>\<open>previous\<close> is \<open>json.Unmarshal\<close> into the structure with the field \<open>previous_response_id\<close>.\<close>

definition sessions_Prepare ::
  "json_codec \<Rightarrow> (string \<Rightarrow> go_error + string) \<Rightarrow> response_repository \<Rightarrow> string \<Rightarrow> time \<Rightarrow> reconstruction dbop" where
  "sessions_Prepare c previous r body now =
     (case previous body of Inl e \<Rightarrow> raise e | Inr p \<Rightarrow> Reconstruct c r body p now)"

record completed_node =
  cm_ResponseID :: string
  cm_UpstreamResponseID :: string
  cm_PreviousResponseID :: string
  cm_Model :: string
  cm_AccountID :: string
  cm_CanonicalInput :: string
  cm_TerminalOutput :: string
  cm_Store :: "bool option"

definition node_of :: "completed_node \<Rightarrow> time \<Rightarrow> response_session" where
  "node_of node now =
     \<lparr>rp_ResponseID = cm_ResponseID node, rp_UpstreamResponseID = cm_UpstreamResponseID node,
      rp_PreviousResponseID = cm_PreviousResponseID node, rp_Model = cm_Model node,
      rp_PreferredAccountID = cm_AccountID node, rp_Input = cm_CanonicalInput node,
      rp_Output = cm_TerminalOutput node, rp_Store = True, rp_CreatedAt = now, rp_ExpiresAt = now + Retention\<rparr>"

definition PersistCompleted ::
  "response_repository \<Rightarrow> go_error + string \<Rightarrow> go_error + string \<Rightarrow> completed_node \<Rightarrow> bool \<Rightarrow> time \<Rightarrow> unit dbop" where
  "PersistCompleted r inputNonce outputNonce node terminal now =
     (if \<not> terminal \<or> cm_Store node = Some False then ret ()
      else if cm_ResponseID node = [] \<or> cm_TerminalOutput node = [] then raise (ErrNew ''completed response data is required'')
      else response_Put r inputNonce outputNonce (node_of node now))"

definition sessions_Cleanup :: "time \<Rightarrow> nat dbop" where
  "sessions_Cleanup now = response_Cleanup now"


section \<open>What is sent upstream\<close>

definition continuity_item :: "json \<Rightarrow> bool" where
  "continuity_item v \<longleftrightarrow> is_object v \<and> str_field (Object v) ''type'' \<in> set continuity_kinds"

text \<open>How \<open>json.Marshal\<close> writes an array.\<close>

fun comma_join :: "string list \<Rightarrow> string" where
  "comma_join [] = []"
| "comma_join [x] = x"
| "comma_join (x # xs) = x @ '','' @ comma_join xs"

definition prints_arrays :: "json_codec \<Rightarrow> bool" where
  "prints_arrays c \<longleftrightarrow> (\<forall>xs. jc_print c (JArr xs) = ''['' @ comma_join (map (jc_print c) xs) @ '']'')"

text \<open>The builder counts exactly the bytes of the array it builds.\<close>

definition history_ok :: "json_codec \<Rightarrow> history \<Rightarrow> bool" where
  "history_ok c b \<longleftrightarrow> list_all continuity_item (hb_items b) \<and> hb_encodedBytes b \<le> MaxChainBytes \<and>
     hb_encodedBytes b = int (length (comma_join (map (jc_print c) (hb_items b)))) + 2"

lemma length_comma_join_snoc:
  "length (comma_join (xs @ [x])) = length (comma_join xs) + length x + (if xs \<noteq> [] then 1 else 0)"
  by (induction xs rule: comma_join.induct) auto

lemma add_item_ok:
  assumes "history_ok c b" "str_field item ''type'' \<in> set continuity_kinds" "add_item c item b = Inr b'"
  shows "history_ok c b'"
  using assms by (auto simp: add_item_def Let_def history_ok_def continuity_item_def length_comma_join_snoc split: if_splits)

lemma history_append_ok: "history_ok c b \<Longrightarrow> history_append c strict raws b = Inr b' \<Longrightarrow> history_ok c b'"
  by (induction c strict raws b rule: history_append.induct) (auto intro: add_item_ok split: if_splits sum.splits)

lemma node_history_ok: "history_ok c b \<Longrightarrow> node_history c node b = Inr b' \<Longrightarrow> history_ok c b'"
  by (auto simp: node_history_def intro: history_append_ok split: sum.splits)

lemma new_history_ok: "history_ok c newHistoryBuilder"
  by (simp add: history_ok_def newHistoryBuilder_def MaxChainBytes_def)

lemma not_found_returns [returns_simps]: "not_found m d = (Inr x, d') \<longleftrightarrow> m d = (Inr x, d')"
  by (auto simp: not_found_def split: prod.splits sum.splits)

lemma chain_history_ok:
  "history_ok c b \<Longrightarrow> chain_history c r now ids b d = (Inr b', d') \<Longrightarrow> history_ok c b'"
  by (induction ids arbitrary: b d) (auto simp: returns_simps intro: node_history_ok)

lemma load_history_ok: "load_history c r p now d = (Inr (b, a), d') \<Longrightarrow> history_ok c b"
  by (auto simp: load_history_def returns_simps intro: chain_history_ok [OF new_history_ok])

definition self_contained :: "json_codec \<Rightarrow> string \<Rightarrow> bool" where
  "self_contained c body \<longleftrightarrow> (\<exists>request items. body = jc_print c (JObj request) \<and> int (length body) \<le> MaxChainBytes \<and>
     jget request ''input'' = Some (if items = [] then JNull else JArr items) \<and> list_all continuity_item items \<and>
     jget request ''store'' = Some (JBool False) \<and> jget request ''previous_response_id'' = None \<and>
     (prints_arrays c \<longrightarrow> int (length (jc_print c (JArr items))) \<le> MaxChainBytes))"

lemma normalizeCurrent_self_contained:
  assumes "history_ok c b" "normalizeCurrent c current b = Inr res"
  shows "self_contained c (rc_Body res)"
proof -
  from assms(2) obtain request items b' where b': "history_append c True items b = Inr b'"
    and body: "rc_Body res = jc_print c (JObj (jset (jdel (jset request ''input'' (items_value b')) ''previous_response_id'') ''store'' (JBool False)))"
      "int (length (rc_Body res)) \<le> MaxChainBytes"
    by (auto simp: normalizeCurrent_def Let_def split: option.splits json.splits sum.splits if_splits)
  have ok: "history_ok c b'" by (rule history_append_ok [OF assms(1) b'])
  then have "prints_arrays c \<Longrightarrow> int (length (jc_print c (JArr (hb_items b')))) \<le> MaxChainBytes"
    by (simp add: prints_arrays_def history_ok_def)
  then show ?thesis unfolding self_contained_def
    using ok body
    by (intro exI [of _ "jset (jdel (jset request ''input'' (items_value b')) ''previous_response_id'') ''store'' (JBool False)"]
        exI [of _ "hb_items b'"]) (simp add: history_ok_def items_value_def)
qed

lemma walk_bounded:
  "chain_walk now n acc a0 p d = (Inr (ids, a), d') \<Longrightarrow> distinct acc \<Longrightarrow> distinct ids \<and> length ids \<le> n + length acc"
proof (induction n arbitrary: acc a0 p d)
  case (Suc n)
  show ?case
  proof (cases "p = []")
    case False
    with Suc.prems(1) have "p \<notin> set acc" by (auto simp: returns_simps)
    moreover from this False Suc.prems(1) obtain q d1 where
      "chain_walk now n (acc @ [p]) (if acc = [] then snd q else a0) (fst q) d1 = (Inr (ids, a), d')"
      by (simp add: returns_simps del: split_paired_Ex) blast
    ultimately show ?thesis using Suc.IH [of "acc @ [p]"] Suc.prems(2) by force
  qed (use Suc.prems in \<open>auto simp: returns_simps\<close>)
qed (auto simp: returns_simps split: if_splits)

text \<open>C20: Whatever is sent upstream for a continued conversation is self-contained. When \<open>Prepare\<close>
  succeeds, under whatever driver faults, the body names no earlier response and asks for no
  storage, its input consists of messages, calls, call outputs and reasoning only, with every item
  reference resolved, and is \<open>null\<close> when there are none of these, and neither the body nor its input
  exceeds 64 MiB. A conversation is read through at most 256 different nodes.\<close>

theorem prepared_request_self_contained:
  "(sessions_Prepare c previous r body now d = (Inr res, d') \<longrightarrow> self_contained c (rc_Body res)) \<and>
   (chain_walk now MaxChainNodes [] [] p d = (Inr (ids, a), d') \<longrightarrow> distinct ids \<and> length ids \<le> MaxChainNodes)"
proof -
  have "self_contained c (rc_Body res)" if "sessions_Prepare c previous r body now d = (Inr res, d')"
  proof -
    from that obtain p where run: "Reconstruct c r body p now d = (Inr res, d')"
      by (auto simp: sessions_Prepare_def returns_simps split: sum.splits)
    show ?thesis
    proof (cases "p = []")
      case True
      with run show ?thesis
        by (auto simp: Reconstruct_def returns_simps intro: normalizeCurrent_self_contained [OF new_history_ok])
    next
      case False
      with run obtain b a d1 res0 where "load_history c r p now d = (Inr (b, a), d1)" "normalizeCurrent c body b = Inr res0"
        "rc_Body res = rc_Body res0"
        by (auto simp: Reconstruct_def returns_simps)
      then show ?thesis using normalizeCurrent_self_contained [OF load_history_ok] by metis
    qed
  qed
  then show ?thesis using walk_bounded [of now MaxChainNodes "[]" "[]" p d ids a d'] by auto
qed


section \<open>Conversations grow\<close>

text \<open>The nodes from \<open>ident\<close> to the beginning of its conversation.\<close>

fun linked :: "database \<Rightarrow> time \<Rightarrow> string list \<Rightarrow> string \<Rightarrow> bool" where
  "linked d now [] ident \<longleftrightarrow> ident = []"
| "linked d now (i # js) ident \<longleftrightarrow> ident = i \<and> i \<noteq> [] \<and>
     (case live_response i now d of None \<Rightarrow> False | Some row \<Rightarrow> linked d now js (coalesce (rs_previous_id row)))"

definition account_of :: "database \<Rightarrow> time \<Rightarrow> string \<Rightarrow> string" where
  "account_of d now i = (case live_response i now d of None \<Rightarrow> [] | Some row \<Rightarrow> coalesce (rs_preferred_account row))"

lemma not_found_run [monad_simps]:
  "not_found m d = (case m d of (Inl e, d') \<Rightarrow> (Inl (if errors_is e ErrNoRows then ErrPreviousResponseNotFound else e), d')
     | (Inr x, d') \<Rightarrow> (Inr x, d'))"
  by (simp add: not_found_def)

lemma GetLink_run:
  "db_faults d = [] \<Longrightarrow> not_found (response_GetLink i now) d =
     (case live_response i now d of None \<Rightarrow> (Inl ErrPreviousResponseNotFound, d)
      | Some row \<Rightarrow> (Inr (coalesce (rs_previous_id row), coalesce (rs_preferred_account row)), d))"
  by (simp add: response_GetLink_def monad_simps split: option.split)

lemma Get_run:
  "db_faults d = [] \<Longrightarrow> response_Get r i now d =
     (case live_response i now d of None \<Rightarrow> (Inl ErrNoRows, d) | Some row \<Rightarrow> (response_of_row r row, d))"
  by (simp add: response_Get_def monad_simps split: option.split)

lemma walk_linked:
  assumes "db_faults d = []" "chain_walk now n acc a0 p d = (Inr (ids, a), d')"
  shows "\<exists>js. ids = acc @ js \<and> linked d now js p \<and> d' = d"
  using assms(2)
proof (induction n arbitrary: acc a0 p)
  case (Suc n)
  show ?case
  proof (cases "p = []")
    case True
    with Suc.prems show ?thesis by (intro exI [of _ "[]"]) (auto simp: returns_simps)
  next
    case False
    with Suc.prems obtain row a1 where row: "live_response p now d = Some row"
      and run: "chain_walk now n (acc @ [p]) a1 (coalesce (rs_previous_id row)) d = (Inr (ids, a), d')"
      by (auto simp: andThen_run GetLink_run [OF assms(1)] raise_run split: if_splits option.splits)
    from Suc.IH [OF run] obtain js where "ids = (acc @ [p]) @ js" "linked d now js (coalesce (rs_previous_id row))" "d' = d"
      by blast
    with row False show ?thesis by (intro exI [of _ "p # js"]) simp
  qed
qed (auto simp: returns_simps split: if_splits intro!: exI [of _ "[]"])

lemma linked_walk:
  assumes "db_faults d = []" "linked d now js p" "distinct (acc @ js)" "length js \<le> n"
  shows "chain_walk now n acc a0 p d =
    (Inr (acc @ js, if acc = [] \<and> js \<noteq> [] then account_of d now p else a0), d)"
  using assms(2-4)
proof (induction js arbitrary: n acc a0 p)
  case Nil
  then show ?case by (cases n) (simp_all add: ret_run)
next
  case (Cons i js)
  obtain m where n: "n = Suc m" using Cons.prems(3) by (cases n) auto
  from Cons.prems(1) obtain row where row: "live_response i now d = Some row" "p = i" "i \<noteq> []"
    "linked d now js (coalesce (rs_previous_id row))"
    by (auto split: option.splits)
  have "chain_walk now m (acc @ [i]) (if acc = [] then coalesce (rs_preferred_account row) else a0) (coalesce (rs_previous_id row)) d =
      (Inr (acc @ i # js, if acc = [] then coalesce (rs_preferred_account row) else a0), d)"
    using Cons.IH [OF row(4), of "acc @ [i]" m] Cons.prems(2,3) n by simp
  with n row Cons.prems(2) show ?case
    by (auto simp: andThen_run GetLink_run [OF assms(1)] account_of_def)
qed

lemma chain_history_append:
  "chain_history c r now (xs @ ys) b = andThen (chain_history c r now xs b) (chain_history c r now ys)"
  by (induction xs arbitrary: b) (auto simp: fun_eq_iff monad_simps split: prod.splits sum.splits)

text \<open>Loading a chain reads the nodes and nothing else.\<close>

lemma chain_history_cong:
  assumes "db_faults d = []" "db_faults d' = []" "\<And>i. i \<in> set ids \<Longrightarrow> live_response i now d' = live_response i now d"
  shows "chain_history c r now ids b d' = (fst (chain_history c r now ids b d), d')"
  using assms(3)
proof (induction ids arbitrary: b)
  case (Cons i ids)
  have e: "live_response i now d' = live_response i now d" using Cons.prems by simp
  show ?case
  proof (cases "live_response i now d")
    case (Some row)
    show ?thesis
    proof (cases "response_of_row r row")
      case (Inr node)
      then show ?thesis
        using Some e Cons.IH Cons.prems
        by (simp add: monad_simps Get_run [OF assms(1)] Get_run [OF assms(2)] split: sum.split)
    qed (use Some e in \<open>simp add: monad_simps Get_run [OF assms(1)] Get_run [OF assms(2)]\<close>)
  qed (use e in \<open>simp add: monad_simps Get_run [OF assms(1)] Get_run [OF assms(2)]\<close>)
qed (simp add: monad_simps)

lemma linked_live: "linked d now js p \<Longrightarrow> i \<in> set js \<Longrightarrow> live_response i now d \<noteq> None"
  by (induction js arbitrary: p) (auto split: option.splits)

lemma linked_cong:
  "(\<And>i. i \<in> set js \<Longrightarrow> live_response i now d' = live_response i now d) \<Longrightarrow> linked d' now js p = linked d now js p"
  by (induction js arbitrary: p) (auto split: option.splits)

lemma find_snoc: "find P (xs @ [x]) = (case find P xs of Some y \<Rightarrow> Some y | None \<Rightarrow> if P x then Some x else None)"
  by (induction xs) auto

text \<open>A stored answer: its row, live until it expires, and everything else as before.\<close>

lemma PersistCompleted_stored:
  assumes "aead_laws (rr_aead r)" "length n1 = ad_NonceSize (rr_aead r)" "length n2 = ad_NonceSize (rr_aead r)"
    and "db_faults d = []" "cm_Store node \<noteq> Some False"
    and "PersistCompleted r (Inr n1) (Inr n2) node True now d = (Inr (), d')"
  obtains row where "db_faults d' = []" "cm_ResponseID node \<noteq> []"
    "\<And>later. unix later < unix (now + Retention) \<Longrightarrow> live_response (cm_ResponseID node) later d' = Some row"
    "\<And>i later. i \<noteq> cm_ResponseID node \<Longrightarrow> live_response i later d' = live_response i later d"
    "\<And>later. live_response (cm_ResponseID node) later d = None"
    "coalesce (rs_previous_id row) = cm_PreviousResponseID node" "coalesce (rs_preferred_account row) = cm_AccountID node"
    "response_of_row r row = Inr ((node_of node now)\<lparr>rp_CreatedAt := from_unix (unix now), rp_ExpiresAt := from_unix (unix (now + Retention))\<rparr>)"
proof -
  let ?v = "node_of node now"
  from assms(5,6) have id: "cm_ResponseID node \<noteq> []" and put: "response_Put r (Inr n1) (Inr n2) ?v d = (Inr (), d')"
    by (auto simp: PersistCompleted_def returns_simps split: if_splits)
  obtain e1 e2 where e: "Encrypt (rr_aead r) (rr_key r) (Inr n1) (rp_Input ?v) = Inr e1"
    "Encrypt (rr_aead r) (rr_key r) (Inr n2) (rp_Output ?v) = Inr e2" by (simp add: Encrypt_def)
  define row where "row = response_row_of ?v e1 e2"
  from put e assms(4) have fresh: "row_get rs_response_id (cm_ResponseID node) (db_responses d) = None"
    and d': "d' = d\<lparr>db_responses := db_responses d @ [row]\<rparr>"
    by (auto simp: response_Put_def monad_simps row_def node_of_def split: if_splits)
  have old: "live_response (cm_ResponseID node) later d = None" for later
    using fresh by (auto simp: live_response_def row_get_def find_None_iff)
  have app: "live_response i later d' = (case live_response i later d of Some x \<Rightarrow> Some x
      | None \<Rightarrow> if i = cm_ResponseID node \<and> unix later < unix (now + Retention) then Some row else None)" for i later
    by (simp add: live_response_def d' find_snoc row_def response_row_of_def node_of_def eq_commute split: option.split)
  show ?thesis
  proof (rule that [of row])
    show "response_of_row r row = Inr (?v\<lparr>rp_CreatedAt := from_unix (unix now), rp_ExpiresAt := from_unix (unix (now + Retention))\<rparr>)"
      using Decrypt_Encrypt [OF assms(1,2) e(1)] Decrypt_Encrypt [OF assms(1,3) e(2)]
      by (simp add: response_of_row_def row_def response_row_of_def node_of_def)
  qed (use id assms(4) old app in \<open>simp_all add: d' row_def response_row_of_def node_of_def split: option.splits\<close>)
qed

lemma load_history_reads: "db_faults d = [] \<Longrightarrow> load_history c r p now d = (Inr x, d') \<Longrightarrow> d' = d"
  using chain_history_cong [of d d _ now c r newHistoryBuilder] walk_linked [of d now MaxChainNodes "[]" "[]" p]
  by (auto simp: load_history_def returns_simps) (metis snd_conv)

text \<open>C19: Conversations grow by their answers. After an answer to \<open>previous_response_id\<close> is stored, the
  history of the answer is the history of its predecessor extended by the answer's own input and
  output, as long as the predecessor's chain has room for one more node and the answer has not
  expired; the account that gave the answer is preferred for the continuation. The other stored
  conversations are read as before.\<close>

theorem stored_answer_extends_history:
  assumes "aead_laws (rr_aead r)" "length n1 = ad_NonceSize (rr_aead r)" "length n2 = ad_NonceSize (rr_aead r)"
    and "db_faults d = []" "cm_Store node \<noteq> Some False"
    and "PersistCompleted r (Inr n1) (Inr n2) node True now d = (Inr (), d')"
    and "chain_walk later MaxChainNodes [] [] (cm_PreviousResponseID node) d = (Inr (ids, a), d)" "length ids < MaxChainNodes"
    and "load_history c r (cm_PreviousResponseID node) later d = (Inr (h, a'), d)"
    and "unix later < unix (now + Retention)"
  shows "load_history c r (cm_ResponseID node) later d' =
    (map_sum id (\<lambda>h'. (h', cm_AccountID node)) (node_history c (node_of node now) h), d')"
proof -
  from PersistCompleted_stored [OF assms(1-6)] obtain row where row: "db_faults d' = []" "cm_ResponseID node \<noteq> []"
    "\<And>later. unix later < unix (now + Retention) \<Longrightarrow> live_response (cm_ResponseID node) later d' = Some row"
    "\<And>i later. i \<noteq> cm_ResponseID node \<Longrightarrow> live_response i later d' = live_response i later d"
    "\<And>later. live_response (cm_ResponseID node) later d = None"
    "coalesce (rs_previous_id row) = cm_PreviousResponseID node" "coalesce (rs_preferred_account row) = cm_AccountID node"
    "response_of_row r row = Inr ((node_of node now)\<lparr>rp_CreatedAt := from_unix (unix now), rp_ExpiresAt := from_unix (unix (now + Retention))\<rparr>)"
    by blast
  let ?id = "cm_ResponseID node"
  from walk_linked [OF assms(4,7)] have l: "linked d later ids (cm_PreviousResponseID node)" by simp
  have new: "?id \<notin> set ids" using linked_live [OF l] row(5) by blast
  have same: "live_response i later d' = live_response i later d" if "i \<in> set ids" for i
    using row(4) that new by metis
  have l': "linked d' later (?id # ids) ?id"
    using l linked_cong [of ids later d' d, OF same] row(2,3,6) assms(10) by simp
  have dist: "distinct (?id # ids)" using walk_bounded [OF assms(7)] new by simp
  have walk: "chain_walk later MaxChainNodes [] [] ?id d' = (Inr (?id # ids, cm_AccountID node), d')"
    using linked_walk [OF row(1) l', of "[]" MaxChainNodes "[]"] dist assms(8) row(3,7) assms(10) by (simp add: account_of_def)
  have "chain_history c r later (rev ids) newHistoryBuilder d = (Inr h, d)"
    using assms(7,9) by (auto simp: load_history_def monad_simps split: prod.splits sum.splits)
  then have "chain_history c r later (rev ids) newHistoryBuilder d' = (Inr h, d')"
    using chain_history_cong [OF assms(4) row(1), of "rev ids" later c r newHistoryBuilder] same by simp
  moreover have "node_history c ((node_of node now)\<lparr>rp_CreatedAt := t1, rp_ExpiresAt := t2\<rparr>) h = node_history c (node_of node now) h" for t1 t2
    by (simp add: node_history_def cong: sum.case_cong)
  ultimately have "chain_history c r later (rev (?id # ids)) newHistoryBuilder d' = (node_history c (node_of node now) h, d')"
    using row(3) [OF assms(10)] row(8)
    by (simp add: chain_history_append monad_simps Get_run [OF row(1)] split: sum.split)
  with walk show ?thesis by (simp add: load_history_def monad_simps split: sum.split)
qed



section \<open>A sample conversation\<close>

definition sample_docs :: "(string \<times> json) list" where
  "sample_docs =
     [(''ask'', JObj [(''input'', JStr ''hello'')]),
      (''answer'', JObj [(''output'', JArr [JObj [(''type'', JStr ''x_search_call'')],
         JObj [(''type'', JStr ''message''), (''id'', JStr ''m1''), (''content'', JArr [])]])]),
      (''more'', JObj [(''input'', JArr [JObj [(''type'', JStr ''item_reference''), (''item_id'', JStr ''m1'')]]),
                       (''previous_response_id'', JStr ''r1'')])]"

definition sample_responses :: response_repository where
  "sample_responses = \<lparr>rr_aead = sample_aead, rr_key = ''k''\<rparr>"

definition sample_node :: "string \<Rightarrow> string \<Rightarrow> string \<Rightarrow> completed_node" where
  "sample_node ident previous input =
     \<lparr>cm_ResponseID = ident, cm_UpstreamResponseID = ''up'', cm_PreviousResponseID = previous, cm_Model = ''grok'',
      cm_AccountID = ''acct'', cm_CanonicalInput = input, cm_TerminalOutput = ''answer'', cm_Store = None\<rparr>"

definition sample_one :: database where
  "sample_one = snd (PersistCompleted sample_responses (Inr ''nn'') (Inr ''nn'') (sample_node ''r1'' [] ''ask'') True 0 empty_database)"

definition sample_two :: database where
  "sample_two = snd (PersistCompleted sample_responses (Inr ''nn'') (Inr ''nn'') (sample_node ''r2'' ''r1'' ''more'') True 0 sample_one)"

definition sample_history :: "go_error + history \<times> string" where
  "sample_history = fst (load_history (table_codec sample_docs) sample_responses ''r1'' 0 sample_one)"

theorem prepared_request_self_contained_witness:
  "\<exists>res. fst (sessions_Prepare (table_codec sample_docs) (\<lambda>_. Inr ''r1'') sample_responses ''more'' 0 sample_one) = Inr res \<and>
     self_contained (table_codec sample_docs) (rc_Body res) \<and> rc_PreferredAccountID res = ''acct''"
proof -
  let ?run = "sessions_Prepare (table_codec sample_docs) (\<lambda>_. Inr ''r1'') sample_responses ''more'' 0 sample_one"
  have "fst ?run = Inr \<lparr>rc_Body = ''?'', rc_PreferredAccountID = ''acct''\<rparr>" by code_simp
  then have run: "?run = (Inr \<lparr>rc_Body = ''?'', rc_PreferredAccountID = ''acct''\<rparr>, snd ?run)" by (metis prod.collapse)
  from prepared_request_self_contained run
  have "self_contained (table_codec sample_docs) (rc_Body \<lparr>rc_Body = ''?'', rc_PreferredAccountID = ''acct''\<rparr>)" by blast
  with run show ?thesis by (metis fst_conv reconstruction.select_convs(2))
qed

theorem stored_answer_extends_history_witness:
  "\<exists>h. sample_history = Inr (h, ''acct'') \<and> length (hb_items h) = 2 \<and>
     load_history (table_codec sample_docs) sample_responses ''r2'' 0 sample_two =
       (map_sum id (\<lambda>h'. (h', ''acct'')) (node_history (table_codec sample_docs) (node_of (sample_node ''r2'' ''r1'' ''more'') 0) h), sample_two)"
proof -
  let ?c = "table_codec sample_docs" and ?r = sample_responses and ?n = "sample_node ''r2'' ''r1'' ''more''"
  have laws: "aead_laws (rr_aead ?r)" "length ''nn'' = ad_NonceSize (rr_aead ?r)"
    by (simp add: sample_responses_def sample_aead_laws, simp add: sample_responses_def sample_aead_def)
  have faults: "db_faults sample_one = []" and st: "cm_Store ?n \<noteq> Some False"
    and put: "fst (PersistCompleted ?r (Inr ''nn'') (Inr ''nn'') ?n True 0 sample_one) = Inr ()"
    and walk: "fst (chain_walk 0 MaxChainNodes [] [] ''r1'' sample_one) = Inr ([''r1''], ''acct'')"
    and hist: "map_sum (\<lambda>_. ()) (\<lambda>(h, a). (length (hb_items h), a)) sample_history = Inr (2, ''acct'')"
    and time: "unix 0 < unix (0 + Retention)"
    by code_simp+
  from put have put': "PersistCompleted ?r (Inr ''nn'') (Inr ''nn'') ?n True 0 sample_one = (Inr (), sample_two)"
    unfolding sample_two_def by (metis prod.collapse)
  have walk': "chain_walk 0 MaxChainNodes [] [] ''r1'' sample_one = (Inr ([''r1''], ''acct''), sample_one)"
    using walk walk_linked [OF faults] by (metis prod.collapse)
  have "\<exists>h. r = Inr (h, ''acct'') \<and> length (hb_items h) = 2"
    if "map_sum (\<lambda>_. ()) (\<lambda>(h, a). (length (hb_items h), a)) r = Inr (2, ''acct'')" for r :: "go_error + history \<times> string"
    using that by (cases r) auto
  from this [OF hist] obtain h where h: "sample_history = Inr (h, ''acct'')" "length (hb_items h) = 2" by blast
  have load: "load_history ?c ?r ''r1'' 0 sample_one = (Inr (h, ''acct''), sample_one)"
    using h(1) load_history_reads [OF faults] unfolding sample_history_def by (metis prod.collapse)
  have n: "cm_PreviousResponseID ?n = ''r1''" "cm_ResponseID ?n = ''r2''" "cm_AccountID ?n = ''acct''"
    by (simp_all add: sample_node_def)
  have "length [''r1''] < MaxChainNodes" by (simp add: MaxChainNodes_def)
  from stored_answer_extends_history [OF laws laws(2) faults st put', unfolded n, OF walk' this load time] h
  show ?thesis by blast
qed

end
