(* ===== verification/Api_Gate.thy ===== *)
theory Api_Gate
  imports Request_Source Throttle_Ladder Store_Keys Stored_Responses Scheduler
begin

text \<open>
  The gates of the HTTP API: administrator authentication
  (\<open>internal/api/middleware/admin_auth.go\<close>), client authentication
  (\<open>internal/api/middleware/client_auth.go\<close>) and the public form of errors (\<open>internal/api/errors\<close>).
  A middleware either passes the request on (\<open>Serve\<close>) or writes a response.

  Shown: what a request must present to be passed on, through the throttle and the key
  repository, and the statuses of error responses.
\<close>

record http_response =
  hr_Status :: int
  hr_Header :: "(string \<times> string) list"
  hr_Body :: json


section \<open>Public errors\<close>

datatype error_kind = Validation | Authentication | ModelUnavailable | Cooldown | ContextLimit
  | PreviousResponseNotFound | UpstreamFailure | InternalFailure

record public_error =
  pe_Status :: int
  pe_Type :: string
  pe_Code :: string
  pe_Message :: string
  pe_Param :: string
  pe_RetryAfter :: duration

definition FromClassification :: "error_classification \<Rightarrow> error_kind" where
  "FromClassification v =
     (if ec_Class v = ClassValidation then Validation
      else if ec_Class v = ClassUnauthorized \<or> ec_Class v = ClassInvalidGrant then Authentication
      else if ec_Class v = ClassRateLimit \<or> ec_Class v = ClassFreeUsageExhausted then Cooldown
      else if ec_Class v \<in> {ClassPermission, ClassTransient, ClassConnection, ClassUpstream} then UpstreamFailure
      else InternalFailure)"

definition KindOf :: "go_error \<Rightarrow> error_kind" where
  "KindOf err =
     (if errors_is err ErrModelUnavailable \<or> errors_is err ErrNoAvailableAccounts then ModelUnavailable
      else if errors_is err ErrContextLengthExceeded then ContextLimit
      else if errors_is err ErrPreviousResponseNotFound then PreviousResponseNotFound
      else case as_upstream err of
        Some u \<Rightarrow> FromClassification (ue_Classification u)
      | None \<Rightarrow> InternalFailure)"

definition public :: "int \<Rightarrow> string \<Rightarrow> string \<Rightarrow> string \<Rightarrow> public_error" where
  "public status ty code message =
     \<lparr>pe_Status = status, pe_Type = ty, pe_Code = code, pe_Message = message, pe_Param = [], pe_RetryAfter = 0\<rparr>"

fun OpenAI_error :: "error_kind \<Rightarrow> duration \<Rightarrow> public_error" where
  "OpenAI_error Validation _ = public 400 ''invalid_request_error'' ''invalid_request_error'' ''invalid request''"
| "OpenAI_error Authentication _ = public 401 ''authentication_error'' ''invalid_api_key'' ''invalid authentication credentials''"
| "OpenAI_error ModelUnavailable _ = public 404 ''invalid_request_error'' ''model_not_found'' ''requested model is unavailable''"
| "OpenAI_error Cooldown retry =
     (public 429 ''rate_limit_error'' ''rate_limit_exceeded'' ''all available accounts are rate limited'')\<lparr>pe_RetryAfter := retry\<rparr>"
| "OpenAI_error ContextLimit _ =
     public 400 ''invalid_request_error'' ''context_length_exceeded'' ''reconstructed context exceeds the allowed limit''"
| "OpenAI_error PreviousResponseNotFound _ =
     public 400 ''invalid_request_error'' ''previous_response_not_found'' ''previous response was not found or has expired''"
| "OpenAI_error UpstreamFailure _ = public 502 ''api_error'' ''provider_error'' ''upstream provider error''"
| "OpenAI_error InternalFailure _ = public 500 ''internal_error'' ''internal_error'' ''internal server error''"

fun Anthropic_error :: "error_kind \<Rightarrow> duration \<Rightarrow> public_error" where
  "Anthropic_error Authentication _ = public 401 ''authentication_error'' [] ''invalid authentication credentials''"
| "Anthropic_error ModelUnavailable _ = public 404 ''not_found_error'' [] ''requested model is unavailable''"
| "Anthropic_error Cooldown retry =
     (public 429 ''rate_limit_error'' [] ''all available accounts are rate limited'')\<lparr>pe_RetryAfter := retry\<rparr>"
| "Anthropic_error UpstreamFailure _ = public 502 ''api_error'' [] ''upstream provider error''"
| "Anthropic_error InternalFailure _ = public 500 ''api_error'' [] ''internal server error''"
| "Anthropic_error kind retry = public 400 ''invalid_request_error'' [] (pe_Message (OpenAI_error kind retry))"

definition OpenAIClassification :: "error_classification \<Rightarrow> duration \<Rightarrow> public_error" where
  "OpenAIClassification v retry =
     (let r = OpenAI_error (FromClassification v) retry in
      r\<lparr>pe_Status := (if ec_PublicStatus v \<noteq> 0 then ec_PublicStatus v else pe_Status r),
        pe_Code := (if ec_PublicCode v \<noteq> [] then ec_PublicCode v else pe_Code r),
        pe_Message := (if ec_PublicMessage v \<noteq> [] then ec_PublicMessage v else pe_Message r)\<rparr>)"

definition AnthropicClassification :: "error_classification \<Rightarrow> duration \<Rightarrow> public_error" where
  "AnthropicClassification v retry =
     (let r = Anthropic_error (FromClassification v) retry in
      r\<lparr>pe_Status := (if ec_PublicStatus v \<noteq> 0 then ec_PublicStatus v else pe_Status r),
        pe_Message := (if ec_PublicMessage v \<noteq> [] then ec_PublicMessage v else pe_Message r)\<rparr>)"

definition nullable :: "string \<Rightarrow> json" where
  "nullable v = (if v = [] then JNull else JStr v)"

definition retryAfterSeconds :: "duration \<Rightarrow> int" where
  "retryAfterSeconds d = go_quot (d + second - 1) second"

definition error_headers :: "public_error \<Rightarrow> (string \<times> string) list" where
  "error_headers v = [(''Content-Type'', ''application/json'')] @
     (if pe_RetryAfter v > 0 then [(''Retry-After'', itoa (retryAfterSeconds (pe_RetryAfter v)))] else [])"

definition WriteOpenAI :: "public_error \<Rightarrow> http_response" where
  "WriteOpenAI v =
     \<lparr>hr_Status = (if pe_Status v = 0 then 500 else pe_Status v), hr_Header = error_headers v,
      hr_Body = JObj [(''error'', JObj [(''type'', JStr (if pe_Type v = [] then ''internal_error'' else pe_Type v)),
        (''code'', nullable (pe_Code v)),
        (''message'', JStr (if pe_Message v = [] then ''internal server error'' else pe_Message v)),
        (''param'', nullable (pe_Param v))])]\<rparr>"

definition WriteAnthropic :: "public_error \<Rightarrow> http_response" where
  "WriteAnthropic v =
     \<lparr>hr_Status = (if pe_Status v = 0 then 500 else pe_Status v), hr_Header = error_headers v,
      hr_Body = JObj [(''type'', JStr ''error''), (''error'', JObj
        [(''type'', JStr (if pe_Type v = [] then ''api_error'' else pe_Type v)),
         (''message'', JStr (if pe_Message v = [] then ''internal server error'' else pe_Message v))])]\<rparr>"


lemma error_statuses:
  "pe_Status (OpenAI_error kind retry) \<in> {400, 401, 404, 429, 500, 502}"
  "pe_Status (Anthropic_error kind retry) = pe_Status (OpenAI_error kind retry)"
  by (cases kind; simp add: public_def)+

text \<open>Both protocols give a client the same status and message, and a waiting time exactly for
  cooldowns.\<close>

lemma error_protocols_agree:
  "pe_Message (Anthropic_error kind retry) = pe_Message (OpenAI_error kind retry)"
  "pe_RetryAfter (OpenAI_error kind retry) = (if kind = Cooldown then retry else 0)"
  "pe_RetryAfter (Anthropic_error kind retry) = (if kind = Cooldown then retry else 0)"
  by (cases kind; simp add: public_def)+


section \<open>Credentials\<close>

text \<open>\<open>strings.Cut(header, " ")\<close>.\<close>

definition cut_space :: "string \<Rightarrow> string \<times> string \<times> bool" where
  "cut_space h =
     (let a = takeWhile (\<lambda>ch. ch \<noteq> CHR '' '') h in
      if length a < length h then (a, drop (Suc (length a)) h, True) else (h, [], False))"

datatype 'i gate = Serve 'i | Respond http_response


section \<open>Administrators\<close>

text \<open>Looking at a token is an effect, so that it can be observed: the world of the guard is the list of
  the tokens that have been hashed and compared, in order.\<close>

definition admin_token :: "http_request \<Rightarrow> string" where
  "admin_token r = trimSpace (fst (snd (cut_space (header_Get r ''Authorization''))))"

definition admin_credential :: "(string \<Rightarrow> string) \<Rightarrow> string \<Rightarrow> http_request \<Rightarrow> bool" where
  "admin_credential sha256 expected r =
     (case cut_space (header_Get r ''Authorization'') of (scheme, token, ok) \<Rightarrow>
        ok \<and> EqualFold scheme ''Bearer'' \<and> sha256 (trimSpace token) = sha256 expected)"

definition check_admin :: "(string \<Rightarrow> string) \<Rightarrow> string \<Rightarrow> http_request \<Rightarrow> string list \<Rightarrow> bool \<times> string list" where
  "check_admin sha256 expected r seen = (admin_credential sha256 expected r, seen @ [admin_token r])"

definition adminRetryAfterSeconds :: "duration \<Rightarrow> int" where
  "adminRetryAfterSeconds v = (let s = go_quot (v + second - 1) second in if s < 1 then 1 else s)"

definition admin_error :: "int \<Rightarrow> (string \<times> string) list \<Rightarrow> string \<Rightarrow> string \<Rightarrow> http_response" where
  "admin_error status headers kind message =
     \<lparr>hr_Status = status,
      hr_Header = headers @ [(''Cache-Control'', ''no-store''), (''Content-Type'', ''application/json'')],
      hr_Body = JObj [(''error'', JObj [(''type'', JStr kind), (''message'', JStr message)])]\<rparr>"

definition unavailable :: http_response where
  "unavailable = admin_error 503 [] ''service_unavailable_error'' ''authentication is temporarily unavailable''"

definition AdminAuth ::
  "net_parser \<Rightarrow> trusted_proxies \<Rightarrow> (string \<Rightarrow> string) \<Rightarrow> ('s, addr) guard \<Rightarrow> string \<Rightarrow> time \<Rightarrow> http_request \<Rightarrow>
   ('s, string list) guard_state \<Rightarrow> unit gate \<times> ('s, string list) guard_state" where
  "AdminAuth np ps sha256 gd expected clock r g =
     (case ClientIP np ps r of
        Inl _ \<Rightarrow> (Respond unavailable, g)
      | Inr source \<Rightarrow>
          (case guard_Evaluate gd clock source ''admin_bearer'' (check_admin sha256 expected r) g of
             (Inl _, g') \<Rightarrow> (Respond unavailable, g')
           | (Inr oc, g') \<Rightarrow>
               (case oc_Disposition oc of
                  Authenticated \<Rightarrow> Serve ()
                | Blocked \<Rightarrow> Respond (admin_error 429 [(''Retry-After'', itoa (adminRetryAfterSeconds (oc_RetryAfter oc)))]
                    ''rate_limit_error'' ''too many authentication attempts'')
                | Rejected \<Rightarrow> Respond (admin_error 401 [(''WWW-Authenticate'', ''Bearer'')]
                    ''authentication_error'' ''invalid authentication credentials''), g')))"


section \<open>Clients\<close>

definition client_token :: "http_request \<Rightarrow> string" where
  "client_token r =
     (case cut_space (header_Get r ''Authorization'') of (scheme, token, bearer) \<Rightarrow>
        trimSpace (if \<not> bearer \<or> \<not> EqualFold scheme ''Bearer'' \<or> trimSpace token = []
                   then (if hasPrefix (hq_Path r) ''/v1/messages'' then header_Get r ''X-Api-Key'' else [])
                   else token))"

definition writeClientUnauthorized :: "http_request \<Rightarrow> http_response" where
  "writeClientUnauthorized r =
     (let response = (if hasPrefix (hq_Path r) ''/v1/messages'' then WriteAnthropic (Anthropic_error Authentication 0)
                      else WriteOpenAI (OpenAI_error Authentication 0)) in
      response\<lparr>hr_Header := (''WWW-Authenticate'', ''Bearer'') # hr_Header response\<rparr>)"

text \<open>The identity is the key's ID and label.\<close>

definition ClientAuth :: "key_repository \<Rightarrow> time \<Rightarrow> http_request \<Rightarrow> database \<Rightarrow> (string \<times> string) gate \<times> database" where
  "ClientAuth kr now r d =
     (if client_token r = [] then (Respond (writeClientUnauthorized r), d)
      else case keys_Authenticate kr (client_token r) now d of
        (Inl _, d') \<Rightarrow> (Respond (writeClientUnauthorized r), d')
      | (Inr key, d') \<Rightarrow> (Serve (ky_ID key, ky_Label key), d'))"


section \<open>What passes the gates\<close>

definition gate_status :: "'i gate \<Rightarrow> int" where
  "gate_status res = (case res of Serve _ \<Rightarrow> 200 | Respond h \<Rightarrow> hr_Status h)"

lemma adminRetryAfterSeconds_pos: "1 \<le> adminRetryAfterSeconds v"
  by (simp add: adminRetryAfterSeconds_def Let_def)

text \<open>The guard looks at a credential once or, when it blocks or storage fails before, not at all.\<close>

lemma guard_looks_once:
  assumes "guard_Evaluate gd clock src surf verify g = (o1, g')" "verify (gs_world g) = (ok, v)"
  shows "(gs_world g' = gs_world g \<and> (\<forall>oc. o1 = Inr oc \<longrightarrow> oc_Disposition oc = Blocked)) \<or>
    (gs_world g' = v \<and> (\<forall>oc. o1 = Inr oc \<longrightarrow> oc_Disposition oc = (if ok then Authenticated else Rejected)))"
  using assms
  by (auto simp: guard_Evaluate_def Let_def in_repo_def logTransitions_def monad_simps split: sum.splits prod.splits if_splits option.splits)

text \<open>C17: Nobody becomes administrator past the throttle. A request is passed on only when its
  source address is known and not refused by the throttle and its bearer token has the expected
  digest, and then the failures of the source are forgotten. While the source is refused, every
  request from it is answered 429 or 503 whatever token it carries, and the token is not looked at.
  No request has its token looked at twice; one that is passed on has had it looked at, and one that is
  answered 401 has, too, and it was wrong.\<close>

theorem admin_gate:
  assumes "gd_repository gd = sql_repository" "zero_time \<le> from_unix (unix clock)"
    and "AdminAuth np ps sha256 gd expected clock r g = (res, g')"
  shows "(res = Serve () \<longrightarrow> (\<exists>source. ClientIP np ps r = Inr source \<and> admin_credential sha256 expected r \<and>
      \<not> from_unix (unix clock) < refused_until (gd_hash gd (gd_unmap gd source)) (gs_repo g) \<and>
      source_row (gd_hash gd (gd_unmap gd source)) (gs_repo g') = None) \<and> gs_world g' = gs_world g @ [admin_token r]) \<and>
    (\<forall>source. ClientIP np ps r = Inr source \<and>
      from_unix (unix clock) < refused_until (gd_hash gd (gd_unmap gd source)) (gs_repo g) \<longrightarrow>
        gate_status res \<in> {429, 503} \<and> gs_world g' = gs_world g) \<and>
    (gate_status res = 401 \<longrightarrow> \<not> admin_credential sha256 expected r \<and> gs_world g' = gs_world g @ [admin_token r]) \<and>
    gate_status res \<in> {200, 401, 429, 503} \<and> gs_world g' \<in> {gs_world g, gs_world g @ [admin_token r]}"
proof (cases "ClientIP np ps r")
  case (Inl e)
  with assms(3) show ?thesis by (auto simp: AdminAuth_def gate_status_def unavailable_def admin_error_def)
next
  case (Inr source)
  let ?verify = "check_admin sha256 expected r"
  obtain o1 g1 where run: "guard_Evaluate gd clock source ''admin_bearer'' ?verify g = (o1, g1)" by fastforce
  have g1: "g1 = g'" using assms(3) Inr run by (auto simp: AdminAuth_def split: sum.splits disposition.splits)
  note looks = guard_looks_once [OF run [unfolded g1] check_admin_def]
  have served: "admin_credential sha256 expected r \<and> \<not> from_unix (unix clock) < refused_until (gd_hash gd (gd_unmap gd source)) (gs_repo g) \<and>
      source_row (gd_hash gd (gd_unmap gd source)) (gs_repo g') = None \<and> gs_world g' = gs_world g @ [admin_token r]" if "res = Serve ()"
  proof -
    from that assms(3) Inr run obtain oc where oc: "o1 = Inr oc" "oc_Disposition oc = Authenticated"
      by (auto simp: AdminAuth_def split: sum.splits disposition.splits)
    from sql.evaluate_authenticated [OF assms(1,2), of source "''admin_bearer''" ?verify g oc g'] run oc g1 looks
    show ?thesis by (auto simp: check_admin_def)
  qed
  have blocked: "gate_status res \<in> {429, 503} \<and> gs_world g' = gs_world g"
    if b: "from_unix (unix clock) < refused_until (gd_hash gd (gd_unmap gd source)) (gs_repo g)"
  proof -
    from sql.evaluate_blocked [OF assms(1,2) b run [unfolded g1]] assms(3) Inr run show ?thesis
      by (cases o1) (auto simp: AdminAuth_def gate_status_def unavailable_def admin_error_def)
  qed
  have "(gate_status res = 401 \<longrightarrow> \<not> admin_credential sha256 expected r \<and> gs_world g' = gs_world g @ [admin_token r]) \<and>
      gate_status res \<in> {200, 401, 429, 503} \<and> gs_world g' \<in> {gs_world g, gs_world g @ [admin_token r]}"
    using assms(3) Inr run looks
    by (auto simp: AdminAuth_def gate_status_def unavailable_def admin_error_def split: sum.splits disposition.splits if_splits)
  with served blocked Inr show ?thesis by auto
qed

text \<open>A served request presents a stored key; a stored key is served when storage works.\<close>

lemma served_key:
  assumes "ClientAuth kr now r d = (Serve (ident, label), d')"
  shows "client_token r \<noteq> [] \<and> (\<exists>row \<in> set (db_keys d). ak_id row = ident \<and> ak_label row = label \<and>
    ak_key_hash row = kr_sha256 kr (client_token r) \<and> ak_revoked_at row = None)"
proof -
  from assms obtain key where "client_token r \<noteq> []" "key_Authenticate kr (take 12 (client_token r)) (client_token r) now d = (Inr key, d')"
      "ident = ky_ID key" "label = ky_Label key"
    by (auto simp: ClientAuth_def keys_Authenticate_def returns_simps split: if_splits prod.splits sum.splits)
  then show ?thesis by (auto elim!: key_Authenticate_returns)
qed

lemma stored_key_served:
  assumes "ClientAuth kr now r d = (res, d')" "keys_inv d" "db_faults d = []"
    and row: "row \<in> set (db_keys d)" "ak_key_hash row = kr_sha256 kr (client_token r)" "ak_revoked_at row = None"
    and token: "ak_prefix row = take 12 (client_token r)" "hasPrefix (client_token r) APIKeyPrefix" "12 \<le> length (client_token r)"
  shows "res = Serve (ak_id row, ak_label row)"
proof -
  obtain key d1 where "keys_Authenticate kr (client_token r) now d = (Inr key, d1)"
    using key_Authenticate_ok [OF assms(3,2) row(1) token(1) row(2,3), of now] token(2,3) by (auto simp: keys_Authenticate_def reject_run)
  moreover have "client_token r \<noteq> []" using token(3) by auto
  ultimately obtain ident label where s: "res = Serve (ident, label)" using assms(1) by (auto simp: ClientAuth_def)
  with served_key assms(1) obtain q where q: "q \<in> set (db_keys d)" "ak_id q = ident" "ak_label q = label" "ak_key_hash q = kr_sha256 kr (client_token r)"
    by blast
  then have "q = row" using row_get_mem [of ak_key_hash "db_keys d"] assms(2) row(1,2) by (metis keys_inv_def option.inject)
  with q s show ?thesis by simp
qed

text \<open>C16: Clients are served only with live keys. Whatever the store holds and whatever the driver does, a
  request that is passed on carries the plaintext of a stored key that is not revoked and is served
  under this key's identity and label; everything else is answered 401. When storage works, every
  request with the plaintext of an unrevoked key is passed on. And a key that was revoked at any
  time before is not served again, whatever operations the key store has gone through since.\<close>

theorem client_gate:
  assumes "ClientAuth kr now r d = (res, d')"
  shows "(\<forall>ident label. res = Serve (ident, label) \<longrightarrow> client_token r \<noteq> [] \<and>
      (\<exists>row \<in> set (db_keys d). ak_id row = ident \<and> ak_label row = label \<and> ak_key_hash row = kr_sha256 kr (client_token r) \<and>
         ak_revoked_at row = None)) \<and>
    ((\<exists>identity. res = Serve identity) \<or> gate_status res = 401) \<and>
    (\<forall>row \<in> set (db_keys d). keys_inv d \<and> db_faults d = [] \<and> ak_key_hash row = kr_sha256 kr (client_token r) \<and> ak_revoked_at row = None \<and>
       ak_prefix row = take 12 (client_token r) \<and> hasPrefix (client_token r) APIKeyPrefix \<and> 12 \<le> length (client_token r) \<longrightarrow>
       res = Serve (ak_id row, ak_label row)) \<and>
    (\<forall>d0 d1 i earlier label. keys_inv d0 \<and> key_Revoke i earlier d0 = (Inr (), d1) \<and> (key_step kr)\<^sup>*\<^sup>* d1 d \<longrightarrow> res \<noteq> Serve (i, label))"
proof -
  have "res \<noteq> Serve (i, label)" if "keys_inv d0" "key_Revoke i earlier d0 = (Inr (), d1)" "(key_step kr)\<^sup>*\<^sup>* d1 d" for d0 d1 i earlier label
  proof
    assume "res = Serve (i, label)"
    then obtain key where "keys_Authenticate kr (client_token r) now d = (Inr key, d')" "i = ky_ID key"
      using assms by (auto simp: ClientAuth_def split: if_splits prod.splits sum.splits)
    with revoked_key_rejected [OF that] show False by blast
  qed
  moreover have "(\<exists>identity. res = Serve identity) \<or> gate_status res = 401"
    using assms
    by (auto simp: ClientAuth_def gate_status_def writeClientUnauthorized_def Let_def WriteAnthropic_def WriteOpenAI_def public_def
        split: if_splits prod.splits sum.splits)
  ultimately show ?thesis using served_key assms stored_key_served [OF assms] by blast
qed


section \<open>Sample requests\<close>

definition sample_bearer :: "string \<Rightarrow> http_request" where
  "sample_bearer token =
     \<lparr>hq_RemoteAddr = ''a:1'', hq_TLS = False, hq_Path = ''/v1/models'',
      hq_Header = (\<lambda>n. if n = ''Authorization'' then [''Bearer '' @ token] else [])\<rparr>"

definition second_key :: string where
  "second_key = APIKeyPrefix @ EncodeToString (replicate 32 (CHR 0x01))"

theorem client_gate_witness:
  "\<exists>ident label. fst (ClientAuth sample_keys 5 (sample_bearer second_key) (snd (key_Revoke ''key_eA'' 3 two_keys))) = Serve (ident, label) \<and>
     ident \<noteq> ''key_eA'' \<and> (\<exists>row \<in> set (db_keys (snd (key_Revoke ''key_eA'' 3 two_keys))). ak_id row = ident \<and> ak_label row = label \<and> ak_revoked_at row = None)"
proof -
  let ?d = "snd (key_Revoke ''key_eA'' 3 two_keys)"
  let ?a = "ClientAuth sample_keys 5 (sample_bearer second_key) ?d"
  have run: "?a = (fst ?a, snd ?a)" by simp
  have "gate_status (fst ?a) = 200" by code_simp
  then obtain ident label where s: "fst ?a = Serve (ident, label)" using client_gate [OF run] by auto
  have "ident \<noteq> ''key_eA''" using client_gate [OF run] s sample_revocation rtranclp.rtrancl_refl by blast
  moreover have "\<exists>row \<in> set (db_keys ?d). ak_id row = ident \<and> ak_label row = label \<and> ak_revoked_at row = None"
    using client_gate [OF run] s by blast
  ultimately show ?thesis using s by blast
qed

definition address_guard :: "(database, addr) guard" where
  "address_guard = \<lparr>gd_repository = sql_repository, gd_hash = admin_source_message, gd_unmap = Unmap, gd_policy = DefaultPolicy\<rparr>"

definition sample_admin :: "string \<Rightarrow> unit gate \<times> (database, string list) guard_state" where
  "sample_admin token =
     AdminAuth letter_parser [] id address_guard ''secret'' 0 (sample_bearer token)
       \<lparr>gs_repo = empty_database, gs_world = [], gs_log = []\<rparr>"

theorem admin_gate_witness:
  "fst (sample_admin ''secret'') = Serve () \<and> gate_status (fst (sample_admin ''guess'')) = 401 \<and>
   (\<exists>source. ClientIP letter_parser [] (sample_bearer ''secret'') = Inr source \<and>
      source_row (admin_source_message (Unmap source)) (gs_repo (snd (sample_admin ''secret''))) = None) \<and>
   gs_world (snd (sample_admin ''secret'')) = [''secret'']"
proof -
  have s: "fst (sample_admin ''secret'') = Serve ()" "gate_status (fst (sample_admin ''guess'')) = 401"
    "zero_time \<le> from_unix (unix 0)" "admin_token (sample_bearer ''secret'') = ''secret''" by code_simp+
  then have "AdminAuth letter_parser [] id address_guard ''secret'' 0 (sample_bearer ''secret'')
       \<lparr>gs_repo = empty_database, gs_world = [], gs_log = []\<rparr> = (Serve (), snd (sample_admin ''secret''))"
    unfolding sample_admin_def by (metis prod.collapse)
  from admin_gate [OF _ s(3) this] s(1,2,4) show ?thesis
    by (auto simp: address_guard_def)
qed

end
