(* ===== verification/Devin_Proto.thy ===== *)
theory Devin_Proto
  imports Provider_Types
begin

text \<open>
  Devin's messages on the wire (\<open>internal/devin/proto/proto.go\<close>). The package \<open>protowire\<close> is a
  parameter: its append functions give the bytes they append, its consume functions keep Go's
  convention of a negative count for an error. A \<open>float64\<close> is its IEEE bit pattern. Sending loops
  are recursions over the sent lists; a receiving loop ends when no byte is left, and since it runs
  as long as \<open>protowire\<close> makes progress, its value is an option: \<open>None\<close> if it did not end.

  Shown: every receiving loop ends, within the limits of the code; the decoder computes what the
  fields of a message mean, and the messages that are both sent and received are read back as
  they were sent; a message that is absent is nevertheless sent, as an empty one.
\<close>

section \<open>The parameter protowire\<close>

definition VarintType :: int where "VarintType = 0"
definition Fixed64Type :: int where "Fixed64Type = 1"
definition BytesType :: int where "BytesType = 2"

record protowire =
  pw_tag :: "int \<Rightarrow> int \<Rightarrow> string"
  pw_varint :: "64 word \<Rightarrow> string"
  pw_fixed64 :: "64 word \<Rightarrow> string"
  pw_bytes :: "string \<Rightarrow> string"
  pw_ConsumeTag :: "string \<Rightarrow> int \<times> int \<times> int"
  pw_ConsumeVarint :: "string \<Rightarrow> 64 word \<times> int"
  pw_ConsumeBytes :: "string \<Rightarrow> string \<times> int"
  pw_ConsumeFieldValue :: "int \<Rightarrow> int \<Rightarrow> string \<Rightarrow> int"
  pw_ParseError :: "int \<Rightarrow> go_error"

section \<open>Messages\<close>

type_synonym float64 = "64 word"

record metadata =
  md_IDEName :: string
  md_ExtensionVersion :: string
  md_APIKey :: string
  md_Locale :: string
  md_IDEVersion :: string
  md_ExtensionName :: string
  md_UserJWT :: string

record jwt_response =
  jr_UserJWT :: string
  jr_CustomAPIServerURL :: string

record completion_configuration =
  cc_NumCompletions :: "64 word"
  cc_MaxTokens :: "64 word"
  cc_MaxNewlines :: "64 word"
  cc_Temperature :: float64
  cc_FirstTemperature :: float64
  cc_TopK :: "64 word"
  cc_TopP :: float64
  cc_StopPatterns :: "string list"
  cc_Seed :: "64 word"
  cc_FIMEOTProbabilityThreshold :: float64
  cc_UseFIMEOTThreshold :: bool
  cc_DoNotScoreStopTokens :: bool
  cc_SqrtLenNormalizedLogProbScore :: bool
  cc_LastMessageIsPartial :: bool

record chat_tool_call =
  tc_ID :: string
  tc_Name :: string
  tc_ArgumentsJSON :: string

record image_data =
  im_Base64Data :: string
  im_MIMEType :: string
  im_Caption :: string

record prompt_cache_options =
  po_Type :: int

record chat_prompt =
  cp_MessageID :: string
  cp_Source :: int
  cp_Prompt :: string
  cp_ToolCalls :: "chat_tool_call list"
  cp_ToolCallID :: string
  cp_PromptCacheOptions :: "prompt_cache_options option"
  cp_ToolResultIsError :: bool
  cp_Images :: "image_data list"
  cp_Thinking :: string
  cp_Signature :: string
  cp_OutputID :: string
  cp_SignatureType :: string
  cp_Phase :: string

record tool_definition =
  td_Name :: string
  td_Description :: string
  td_JSONSchemaString :: string
  td_Strict :: bool

record tool_choice =
  ch_OptionName :: string
  ch_ToolName :: string

record chat_request =
  cr_Metadata :: "metadata option"
  cr_Prompt :: string
  cr_ChatMessagePrompts :: "chat_prompt list"
  cr_ChatModelUID :: string
  cr_RequestType :: int
  cr_Configuration :: "completion_configuration option"
  cr_Tools :: "tool_definition list"
  cr_DisableParallelToolCalls :: bool
  cr_ToolChoice :: "tool_choice option"
  cr_SystemPromptCacheOptions :: "prompt_cache_options option"
  cr_CascadeID :: string
  cr_ProviderSource :: int
  cr_PlannerMode :: int
  cr_ExecutionID :: string

record model_usage =
  mu_ModelUID :: string
  mu_BillingModelUID :: string
  mu_RequestedModelUID :: string
  mu_InputTokens :: "64 word"
  mu_OutputTokens :: "64 word"
  mu_CacheWriteTokens :: "64 word"
  mu_CacheReadTokens :: "64 word"
  mu_MessageID :: string

record chat_frame =
  cf_MessageID :: string
  cf_DeltaText :: string
  cf_DeltaTokens :: "32 word"
  cf_StopReason :: int
  cf_DeltaToolCalls :: "chat_tool_call list"
  cf_Usage :: "model_usage option"
  cf_DeltaThinking :: string
  cf_DeltaSignature :: string
  cf_OutputID :: string
  cf_RequestID :: string
  cf_DeltaSignatureType :: string
  cf_ActualModelUID :: "string option"
  cf_Phase :: string

definition ChatMessageSourceUser :: int where "ChatMessageSourceUser = 1"
definition ChatMessageSourceSystem :: int where "ChatMessageSourceSystem = 2"
definition ChatMessageSourceTool :: int where "ChatMessageSourceTool = 4"
definition ChatMessageSourceSystemPrompt :: int where "ChatMessageSourceSystemPrompt = 5"
definition ConversationalPlannerModeDefault :: int where "ConversationalPlannerModeDefault = 1"
definition ProviderSourceCascade :: int where "ProviderSourceCascade = 12"
definition ChatMessageRequestTypeCascade :: int where "ChatMessageRequestTypeCascade = 5"
definition CacheControlTypeEphemeral :: int where "CacheControlTypeEphemeral = 1"
definition StopReasonUnspecified :: int where "StopReasonUnspecified = 0"
definition StopReasonIncomplete :: int where "StopReasonIncomplete = 1"
definition StopReasonMaxTokens :: int where "StopReasonMaxTokens = 3"
definition StopReasonPartial :: int where "StopReasonPartial = 9"
definition StopReasonContentFilter :: int where "StopReasonContentFilter = 11"
definition StopReasonError :: int where "StopReasonError = 13"


section \<open>Sending\<close>

definition stringField :: "protowire \<Rightarrow> string \<Rightarrow> int \<Rightarrow> string \<Rightarrow> string" where
  "stringField pw b n s = (if s = [] then b else b @ pw_tag pw n BytesType @ pw_bytes pw s)"

definition varintField :: "protowire \<Rightarrow> string \<Rightarrow> int \<Rightarrow> 64 word \<Rightarrow> string" where
  "varintField pw b n v = (if v = 0 then b else b @ pw_tag pw n VarintType @ pw_varint pw v)"

text \<open>\<open>v == 0\<close> holds of both zeros.\<close>

definition float_is_zero :: "float64 \<Rightarrow> bool" where
  "float_is_zero v \<longleftrightarrow> v = 0 \<or> v = 0x8000000000000000"

definition fixed64Field :: "protowire \<Rightarrow> string \<Rightarrow> int \<Rightarrow> float64 \<Rightarrow> string" where
  "fixed64Field pw b n v = (if float_is_zero v then b else b @ pw_tag pw n Fixed64Type @ pw_fixed64 pw v)"

text \<open>
  The argument is what \<open>m.Marshal()\<close> returns. Every caller passes a pointer, which makes an
  interface value that is not nil even if the pointer is, so the early return for \<open>m == nil\<close> is
  never taken; \<open>Marshal\<close> of a nil pointer returns no bytes.
\<close>

definition messageField :: "protowire \<Rightarrow> string \<Rightarrow> int \<Rightarrow> go_error + string \<Rightarrow> go_error + string" where
  "messageField pw b n m = (case m of Inl e \<Rightarrow> Inl e | Inr p \<Rightarrow> Inr (b @ pw_tag pw n BytesType @ pw_bytes pw p))"

fun messageFields :: "protowire \<Rightarrow> string \<Rightarrow> int \<Rightarrow> (go_error + string) list \<Rightarrow> go_error + string" where
  "messageFields pw b n [] = Inr b"
| "messageFields pw b n (m # ms) = (case messageField pw b n m of Inl e \<Rightarrow> Inl e | Inr b' \<Rightarrow> messageFields pw b' n ms)"

definition boolVarint :: "bool \<Rightarrow> 64 word" where
  "boolVarint v = (if v then 1 else 0)"

text \<open>\<open>Marshal\<close> of a pointer, which may be nil.\<close>

definition marshal_ptr :: "('m \<Rightarrow> go_error + string) \<Rightarrow> 'm option \<Rightarrow> go_error + string" where
  "marshal_ptr marshal m = (case m of None \<Rightarrow> Inr [] | Some x \<Rightarrow> marshal x)"

definition Metadata_Marshal :: "protowire \<Rightarrow> metadata \<Rightarrow> go_error + string" where
  "Metadata_Marshal pw m =
     (let b = stringField pw [] 1 (md_IDEName m);
          b = stringField pw b 2 (md_ExtensionVersion m);
          b = stringField pw b 3 (md_APIKey m);
          b = stringField pw b 4 (md_Locale m);
          b = stringField pw b 7 (md_IDEVersion m);
          b = stringField pw b 12 (md_ExtensionName m)
      in Inr (stringField pw b 21 (md_UserJWT m)))"

definition GetUserJWTRequest_Marshal :: "protowire \<Rightarrow> metadata option \<Rightarrow> go_error + string" where
  "GetUserJWTRequest_Marshal pw m = messageField pw [] 1 (marshal_ptr (Metadata_Marshal pw) m)"

definition GetUserJWTResponse_Marshal :: "protowire \<Rightarrow> jwt_response \<Rightarrow> go_error + string" where
  "GetUserJWTResponse_Marshal pw m =
     (let b = stringField pw [] 1 (jr_UserJWT m)
      in Inr (stringField pw b 2 (jr_CustomAPIServerURL m)))"

definition CompletionConfiguration_Marshal :: "protowire \<Rightarrow> completion_configuration \<Rightarrow> go_error + string" where
  "CompletionConfiguration_Marshal pw m =
     (let b = varintField pw [] 1 (cc_NumCompletions m);
          b = varintField pw b 2 (cc_MaxTokens m);
          b = varintField pw b 3 (cc_MaxNewlines m);
          b = fixed64Field pw b 5 (cc_Temperature m);
          b = fixed64Field pw b 6 (cc_FirstTemperature m);
          b = varintField pw b 7 (cc_TopK m);
          b = fixed64Field pw b 8 (cc_TopP m);
          b = fold (\<lambda>s b. stringField pw b 9 s) (cc_StopPatterns m) b;
          b = varintField pw b 10 (cc_Seed m);
          b = fixed64Field pw b 11 (cc_FIMEOTProbabilityThreshold m);
          b = varintField pw b 12 (boolVarint (cc_UseFIMEOTThreshold m));
          b = varintField pw b 13 (boolVarint (cc_DoNotScoreStopTokens m));
          b = varintField pw b 14 (boolVarint (cc_SqrtLenNormalizedLogProbScore m))
      in Inr (varintField pw b 15 (boolVarint (cc_LastMessageIsPartial m))))"

definition ChatToolCall_Marshal :: "protowire \<Rightarrow> chat_tool_call \<Rightarrow> go_error + string" where
  "ChatToolCall_Marshal pw m =
     (let b = stringField pw [] 1 (tc_ID m);
          b = stringField pw b 2 (tc_Name m)
      in Inr (stringField pw b 3 (tc_ArgumentsJSON m)))"

definition ImageData_Marshal :: "protowire \<Rightarrow> image_data \<Rightarrow> go_error + string" where
  "ImageData_Marshal pw m =
     (let b = stringField pw [] 1 (im_Base64Data m);
          b = stringField pw b 2 (im_MIMEType m)
      in Inr (stringField pw b 3 (im_Caption m)))"

definition PromptCacheOptions_Marshal :: "protowire \<Rightarrow> prompt_cache_options \<Rightarrow> go_error + string" where
  "PromptCacheOptions_Marshal pw m = Inr (varintField pw [] 1 (word_of_int (po_Type m)))"

definition ChatMessagePrompt_Marshal :: "protowire \<Rightarrow> chat_prompt \<Rightarrow> go_error + string" where
  "ChatMessagePrompt_Marshal pw m =
     (let b = stringField pw [] 1 (cp_MessageID m);
          b = varintField pw b 2 (word_of_int (cp_Source m));
          b = stringField pw b 3 (cp_Prompt m)
      in case messageFields pw b 6 (map (ChatToolCall_Marshal pw) (cp_ToolCalls m)) of Inl e \<Rightarrow> Inl e | Inr b \<Rightarrow>
     (let b = stringField pw b 7 (cp_ToolCallID m)
      in case messageField pw b 8 (marshal_ptr (PromptCacheOptions_Marshal pw) (cp_PromptCacheOptions m)) of Inl e \<Rightarrow> Inl e | Inr b \<Rightarrow>
     (let b = varintField pw b 9 (boolVarint (cp_ToolResultIsError m))
      in case messageFields pw b 10 (map (ImageData_Marshal pw) (cp_Images m)) of Inl e \<Rightarrow> Inl e | Inr b \<Rightarrow>
     (let b = stringField pw b 11 (cp_Thinking m);
          b = stringField pw b 12 (cp_Signature m);
          b = stringField pw b 15 (cp_OutputID m);
          b = stringField pw b 18 (cp_SignatureType m)
      in Inr (stringField pw b 19 (cp_Phase m))))))"

definition ChatToolDefinition_Marshal :: "protowire \<Rightarrow> tool_definition \<Rightarrow> go_error + string" where
  "ChatToolDefinition_Marshal pw m =
     (let b = stringField pw [] 1 (td_Name m);
          b = stringField pw b 2 (td_Description m);
          b = stringField pw b 3 (td_JSONSchemaString m)
      in Inr (varintField pw b 12 (boolVarint (td_Strict m))))"

definition ChatToolChoice_Marshal :: "protowire \<Rightarrow> tool_choice \<Rightarrow> go_error + string" where
  "ChatToolChoice_Marshal pw m =
     (if ch_OptionName m \<noteq> [] \<and> ch_ToolName m \<noteq> [] then Inl (ErrNew ''devin proto: chat tool choice has both option and tool'')
      else if ch_ToolName m \<noteq> [] then Inr (stringField pw [] 2 (ch_ToolName m))
      else Inr (stringField pw [] 1 (ch_OptionName m)))"

definition ModelUsageStats_Marshal :: "protowire \<Rightarrow> model_usage \<Rightarrow> go_error + string" where
  "ModelUsageStats_Marshal pw m =
     (let b = varintField pw [] 2 (mu_InputTokens m);
          b = varintField pw b 3 (mu_OutputTokens m);
          b = varintField pw b 4 (mu_CacheWriteTokens m);
          b = varintField pw b 5 (mu_CacheReadTokens m);
          b = stringField pw b 7 (mu_MessageID m);
          b = stringField pw b 9 (mu_ModelUID m);
          b = stringField pw b 10 (mu_BillingModelUID m)
      in Inr (stringField pw b 11 (mu_RequestedModelUID m)))"

definition GetChatMessageRequest_Marshal :: "protowire \<Rightarrow> chat_request \<Rightarrow> go_error + string" where
  "GetChatMessageRequest_Marshal pw m =
     (case messageField pw [] 1 (marshal_ptr (Metadata_Marshal pw) (cr_Metadata m)) of Inl e \<Rightarrow> Inl e | Inr b \<Rightarrow>
     (let b = stringField pw b 2 (cr_Prompt m)
      in case messageFields pw b 3 (map (ChatMessagePrompt_Marshal pw) (cr_ChatMessagePrompts m)) of Inl e \<Rightarrow> Inl e | Inr b \<Rightarrow>
     (let b = varintField pw b 7 (word_of_int (cr_RequestType m))
      in case messageField pw b 8 (marshal_ptr (CompletionConfiguration_Marshal pw) (cr_Configuration m)) of Inl e \<Rightarrow> Inl e | Inr b \<Rightarrow>
     (case messageFields pw b 10 (map (ChatToolDefinition_Marshal pw) (cr_Tools m)) of Inl e \<Rightarrow> Inl e | Inr b \<Rightarrow>
     (let b = varintField pw b 11 (boolVarint (cr_DisableParallelToolCalls m))
      in case messageField pw b 12 (marshal_ptr (ChatToolChoice_Marshal pw) (cr_ToolChoice m)) of Inl e \<Rightarrow> Inl e | Inr b \<Rightarrow>
     (case messageField pw b 13 (marshal_ptr (PromptCacheOptions_Marshal pw) (cr_SystemPromptCacheOptions m)) of Inl e \<Rightarrow> Inl e | Inr b \<Rightarrow>
     (let b = stringField pw b 16 (cr_CascadeID m);
          b = varintField pw b 18 (word_of_int (cr_ProviderSource m));
          b = varintField pw b 20 (word_of_int (cr_PlannerMode m));
          b = stringField pw b 21 (cr_ChatModelUID m)
      in Inr (stringField pw b 22 (cr_ExecutionID m)))))))))"

section \<open>Receiving\<close>

definition maxUnmarshalBytes :: int where "maxUnmarshalBytes = 32 * 2 ^ 20"
definition maxDeltaToolCalls :: int where "maxDeltaToolCalls = 4096"

definition skip :: "int \<Rightarrow> string \<Rightarrow> string" where "skip k b = drop (nat k) b"

definition consumeBytesField :: "protowire \<Rightarrow> string \<Rightarrow> go_error + string \<times> string" where
  "consumeBytesField pw b = (case pw_ConsumeBytes pw b of (v, n) \<Rightarrow>
     if n < 0 then Inl (pw_ParseError pw n) else Inr (v, skip n b))"

definition consumeVarintField :: "protowire \<Rightarrow> string \<Rightarrow> go_error + 64 word \<times> string" where
  "consumeVarintField pw b = (case pw_ConsumeVarint pw b of (v, k) \<Rightarrow>
     if k < 0 then Inl (pw_ParseError pw k) else Inr (v, skip k b))"

definition skipField :: "protowire \<Rightarrow> int \<Rightarrow> int \<Rightarrow> string \<Rightarrow> go_error + string" where
  "skipField pw n typ b = (let k = pw_ConsumeFieldValue pw n typ b in
     if k < 0 then Inl (pw_ParseError pw k) else Inr (skip k b))"

text \<open>The rune \<open>field + '0'\<close> is an ASCII character for the fields that are checked.\<close>

definition wire_error :: "int \<Rightarrow> go_error" where
  "wire_error field = ErrNew (''devin proto: invalid wire type for field '' @ [char_of (nat (field + 48))])"

definition checkWire :: "int \<Rightarrow> int \<Rightarrow> int \<Rightarrow> go_error option" where
  "checkWire field got want = (if got \<noteq> want then Some (wire_error field) else None)"

text \<open>A field with its wire type checked and its value consumed.\<close>

definition bytes_value :: "protowire \<Rightarrow> int \<Rightarrow> int \<Rightarrow> string \<Rightarrow> go_error + string \<times> string" where
  "bytes_value pw field typ b = (case checkWire field typ BytesType of Some e \<Rightarrow> Inl e | None \<Rightarrow> consumeBytesField pw b)"

definition varint_value :: "protowire \<Rightarrow> int \<Rightarrow> int \<Rightarrow> string \<Rightarrow> go_error + 64 word \<times> string" where
  "varint_value pw field typ b = (case checkWire field typ VarintType of Some e \<Rightarrow> Inl e | None \<Rightarrow> consumeVarintField pw b)"

text \<open>
  The loop \<open>for len(b) > 0\<close> the decoders share: consume a tag, then handle the field, which
  gives the new message and the bytes that are left.
\<close>

partial_function (option) fields_loop ::
    "protowire \<Rightarrow> (int \<Rightarrow> int \<Rightarrow> string \<Rightarrow> 'm \<Rightarrow> (go_error + 'm \<times> string) option) \<Rightarrow> string \<Rightarrow> 'm \<Rightarrow> (go_error + 'm) option" where
  "fields_loop pw handle b m =
     (if b = [] then Some (Inr m)
      else (case pw_ConsumeTag pw b of (n, t, k) \<Rightarrow>
        if k < 0 then Some (Inl (pw_ParseError pw k))
        else Option.bind (handle n t (skip k b) m) (\<lambda>r. case r of Inl e \<Rightarrow> Some (Inl e) | Inr (m', rest) \<Rightarrow> fields_loop pw handle rest m')))"

declare fields_loop.simps [code]

definition skip_unknown :: "protowire \<Rightarrow> int \<Rightarrow> int \<Rightarrow> string \<Rightarrow> 'm \<Rightarrow> (go_error + 'm \<times> string) option" where
  "skip_unknown pw n t b m = Some (map_sum id (Pair m) (skipField pw n t b))"

text \<open>\<open>GetUserJWTResponse.Unmarshal\<close>: a known field of another wire type is skipped.\<close>

definition jwt_field :: "protowire \<Rightarrow> int \<Rightarrow> int \<Rightarrow> string \<Rightarrow> jwt_response \<Rightarrow> (go_error + jwt_response \<times> string) option" where
  "jwt_field pw n t b m =
     (if (n = 1 \<or> n = 2) \<and> t = BytesType
      then Some (map_sum id (apfst (\<lambda>s. if n = 1 then m\<lparr>jr_UserJWT := s\<rparr> else m\<lparr>jr_CustomAPIServerURL := s\<rparr>)) (consumeBytesField pw b))
      else skip_unknown pw n t b m)"

definition empty_jwt :: jwt_response where "empty_jwt = \<lparr>jr_UserJWT = [], jr_CustomAPIServerURL = []\<rparr>"

definition GetUserJWTResponse_Unmarshal :: "protowire \<Rightarrow> string \<Rightarrow> (go_error + jwt_response) option" where
  "GetUserJWTResponse_Unmarshal pw b = fields_loop pw (jwt_field pw) b empty_jwt"

definition empty_tool_call :: chat_tool_call where "empty_tool_call = \<lparr>tc_ID = [], tc_Name = [], tc_ArgumentsJSON = []\<rparr>"

definition set_tool_call :: "int \<Rightarrow> string \<Rightarrow> chat_tool_call \<Rightarrow> chat_tool_call" where
  "set_tool_call field s m =
     (if field = 1 then m\<lparr>tc_ID := s\<rparr> else if field = 2 then m\<lparr>tc_Name := s\<rparr> else m\<lparr>tc_ArgumentsJSON := s\<rparr>)"

definition tool_call_field :: "protowire \<Rightarrow> int \<Rightarrow> int \<Rightarrow> string \<Rightarrow> chat_tool_call \<Rightarrow> (go_error + chat_tool_call \<times> string) option" where
  "tool_call_field pw field typ b m =
     (if 1 \<le> field \<and> field \<le> 3 then Some (map_sum id (apfst (\<lambda>s. set_tool_call field s m)) (bytes_value pw field typ b))
      else skip_unknown pw field typ b m)"

abbreviation ErrMessageTooLarge :: go_error where "ErrMessageTooLarge \<equiv> ErrNew ''devin proto: message too large''"

definition ChatToolCall_Unmarshal :: "protowire \<Rightarrow> string \<Rightarrow> (go_error + chat_tool_call) option" where
  "ChatToolCall_Unmarshal pw b =
     (if int (length b) > maxUnmarshalBytes then Some (Inl ErrMessageTooLarge)
      else fields_loop pw (tool_call_field pw) b empty_tool_call)"

definition empty_model_usage :: model_usage where
  "empty_model_usage = \<lparr>mu_ModelUID = [], mu_BillingModelUID = [], mu_RequestedModelUID = [], mu_InputTokens = 0, mu_OutputTokens = 0,
     mu_CacheWriteTokens = 0, mu_CacheReadTokens = 0, mu_MessageID = []\<rparr>"

definition set_usage_count :: "int \<Rightarrow> 64 word \<Rightarrow> model_usage \<Rightarrow> model_usage" where
  "set_usage_count field v m =
     (if field = 2 then m\<lparr>mu_InputTokens := v\<rparr> else if field = 3 then m\<lparr>mu_OutputTokens := v\<rparr>
      else if field = 4 then m\<lparr>mu_CacheWriteTokens := v\<rparr> else m\<lparr>mu_CacheReadTokens := v\<rparr>)"

definition set_usage_text :: "int \<Rightarrow> string \<Rightarrow> model_usage \<Rightarrow> model_usage" where
  "set_usage_text field s m =
     (if field = 7 then m\<lparr>mu_MessageID := s\<rparr> else if field = 9 then m\<lparr>mu_ModelUID := s\<rparr>
      else if field = 10 then m\<lparr>mu_BillingModelUID := s\<rparr> else m\<lparr>mu_RequestedModelUID := s\<rparr>)"

definition usage_field :: "protowire \<Rightarrow> int \<Rightarrow> int \<Rightarrow> string \<Rightarrow> model_usage \<Rightarrow> (go_error + model_usage \<times> string) option" where
  "usage_field pw field typ b m =
     (if field \<in> {2, 3, 4, 5} then Some (map_sum id (apfst (\<lambda>v. set_usage_count field v m)) (varint_value pw field typ b))
      else if field \<in> {7, 9, 10, 11} then Some (map_sum id (apfst (\<lambda>s. set_usage_text field s m)) (bytes_value pw field typ b))
      else skip_unknown pw field typ b m)"

definition ModelUsageStats_Unmarshal :: "protowire \<Rightarrow> string \<Rightarrow> (go_error + model_usage) option" where
  "ModelUsageStats_Unmarshal pw b =
     (if int (length b) > maxUnmarshalBytes then Some (Inl ErrMessageTooLarge)
      else fields_loop pw (usage_field pw) b empty_model_usage)"

definition empty_frame :: chat_frame where
  "empty_frame = \<lparr>cf_MessageID = [], cf_DeltaText = [], cf_DeltaTokens = 0, cf_StopReason = 0, cf_DeltaToolCalls = [], cf_Usage = None,
     cf_DeltaThinking = [], cf_DeltaSignature = [], cf_OutputID = [], cf_RequestID = [], cf_DeltaSignatureType = [],
     cf_ActualModelUID = None, cf_Phase = []\<rparr>"

definition set_frame_text :: "int \<Rightarrow> string \<Rightarrow> chat_frame \<Rightarrow> chat_frame" where
  "set_frame_text field s m =
     (if field = 1 then m\<lparr>cf_MessageID := s\<rparr> else if field = 3 then m\<lparr>cf_DeltaText := s\<rparr>
      else if field = 9 then m\<lparr>cf_DeltaThinking := s\<rparr> else if field = 10 then m\<lparr>cf_DeltaSignature := s\<rparr>
      else if field = 15 then m\<lparr>cf_OutputID := s\<rparr> else if field = 17 then m\<lparr>cf_RequestID := s\<rparr>
      else if field = 21 then m\<lparr>cf_DeltaSignatureType := s\<rparr> else if field = 23 then m\<lparr>cf_ActualModelUID := Some s\<rparr>
      else m\<lparr>cf_Phase := s\<rparr>)"

definition frame_texts :: "int set" where "frame_texts = {1, 3, 9, 10, 15, 17, 21, 23, 25}"

definition set_frame_count :: "int \<Rightarrow> 64 word \<Rightarrow> chat_frame \<Rightarrow> go_error + chat_frame" where
  "set_frame_count field v m =
     (if field = 4 \<and> v > 0xFFFFFFFF then Inl (ErrNew ''devin proto: uint32 overflow'')
      else if field = 5 \<and> v > 0x7FFFFFFF then Inl (ErrNew ''devin proto: int32 overflow'')
      else if field = 4 then Inr (m\<lparr>cf_DeltaTokens := ucast v\<rparr>)
      else Inr (m\<lparr>cf_StopReason := sint (ucast v :: 32 word)\<rparr>))"

text \<open>A nested message: its bytes are consumed, then decoded on their own.\<close>

definition nested :: "(string \<Rightarrow> (go_error + 'n) option) \<Rightarrow> ('n \<Rightarrow> 'm) \<Rightarrow> go_error + string \<times> string \<Rightarrow> (go_error + 'm \<times> string) option" where
  "nested unmarshal f value =
     (case value of Inl e \<Rightarrow> Some (Inl e) | Inr (v, rest) \<Rightarrow> map_option (map_sum id (\<lambda>x. (f x, rest))) (unmarshal v))"

definition frame_field :: "protowire \<Rightarrow> int \<Rightarrow> int \<Rightarrow> string \<Rightarrow> chat_frame \<Rightarrow> (go_error + chat_frame \<times> string) option" where
  "frame_field pw field typ b m =
     (if field \<in> frame_texts then Some (map_sum id (apfst (\<lambda>s. set_frame_text field s m)) (bytes_value pw field typ b))
      else if field \<in> {4, 5} then
        (case varint_value pw field typ b of Inl e \<Rightarrow> Some (Inl e)
         | Inr (v, rest) \<Rightarrow> Some (map_sum id (\<lambda>m. (m, rest)) (set_frame_count field v m)))
      else if field = 6 then
        (case checkWire field typ BytesType of Some e \<Rightarrow> Some (Inl e) | None \<Rightarrow>
         if int (length (cf_DeltaToolCalls m)) \<ge> maxDeltaToolCalls then Some (Inl (ErrNew ''devin proto: too many tool calls''))
         else nested (ChatToolCall_Unmarshal pw) (\<lambda>call. m\<lparr>cf_DeltaToolCalls := cf_DeltaToolCalls m @ [call]\<rparr>) (consumeBytesField pw b))
      else if field = 7 then
        nested (ModelUsageStats_Unmarshal pw) (\<lambda>u. m\<lparr>cf_Usage := Some u\<rparr>) (bytes_value pw field typ b)
      else skip_unknown pw field typ b m)"

definition GetChatMessageResponse_Unmarshal :: "protowire \<Rightarrow> string \<Rightarrow> (go_error + chat_frame) option" where
  "GetChatMessageResponse_Unmarshal pw b =
     (if int (length b) > maxUnmarshalBytes then Some (Inl ErrMessageTooLarge)
      else fields_loop pw (frame_field pw) b empty_frame)"

section \<open>What protowire promises\<close>

definition number_ok :: "int \<Rightarrow> bool" where "number_ok n \<longleftrightarrow> 1 \<le> n \<and> n < 2 ^ 29"

text \<open>
  Consuming undoes appending and takes exactly the appended bytes; a tag takes at least one
  byte. Strings longer than an \<open>int64\<close> do not exist.
\<close>

definition wire_laws :: "protowire \<Rightarrow> bool" where
  "wire_laws pw \<longleftrightarrow>
     (\<forall>n t rest. number_ok n \<and> t \<in> {VarintType, Fixed64Type, BytesType} \<longrightarrow>
        pw_tag pw n t \<noteq> [] \<and> pw_ConsumeTag pw (pw_tag pw n t @ rest) = (n, t, int (length (pw_tag pw n t)))) \<and>
     (\<forall>v rest. pw_ConsumeVarint pw (pw_varint pw v @ rest) = (v, int (length (pw_varint pw v)))) \<and>
     (\<forall>s rest. int (length s) < 2 ^ 63 \<longrightarrow> pw_ConsumeBytes pw (pw_bytes pw s @ rest) = (s, int (length (pw_bytes pw s)))) \<and>
     (\<forall>n v rest. number_ok n \<longrightarrow> pw_ConsumeFieldValue pw n VarintType (pw_varint pw v @ rest) = int (length (pw_varint pw v))) \<and>
     (\<forall>n v rest. number_ok n \<longrightarrow> pw_ConsumeFieldValue pw n Fixed64Type (pw_fixed64 pw v @ rest) = int (length (pw_fixed64 pw v))) \<and>
     (\<forall>n s rest. number_ok n \<and> int (length s) < 2 ^ 63 \<longrightarrow> pw_ConsumeFieldValue pw n BytesType (pw_bytes pw s @ rest) = int (length (pw_bytes pw s))) \<and>
     (\<forall>s. length s \<le> length (pw_bytes pw s)) \<and>
     (\<forall>b n t k. b \<noteq> [] \<and> pw_ConsumeTag pw b = (n, t, k) \<and> 0 \<le> k \<longrightarrow> 1 \<le> k)"


section \<open>The loops end\<close>

text \<open>An answer to the bytes \<open>b\<close>: an error, or a message with \<open>P\<close> and no more bytes than before.\<close>

definition answer :: "('m \<Rightarrow> bool) \<Rightarrow> string \<Rightarrow> (go_error + 'm \<times> string) option \<Rightarrow> bool" where
  "answer P b r \<longleftrightarrow> (\<exists>x. r = Some x \<and> (\<forall>m' rest. x = Inr (m', rest) \<longrightarrow> P m' \<and> length rest \<le> length b))"

definition answers :: "(int \<Rightarrow> int \<Rightarrow> string \<Rightarrow> 'm \<Rightarrow> (go_error + 'm \<times> string) option) \<Rightarrow> ('m \<Rightarrow> bool) \<Rightarrow> bool" where
  "answers handle P \<longleftrightarrow> (\<forall>n t b m. P m \<longrightarrow> answer P b (handle n t b m))"

lemma fields_loop_ends:
  assumes "wire_laws pw" "answers handle P" "P m"
  shows "\<exists>r. fields_loop pw handle b m = Some r \<and> (\<forall>m'. r = Inr m' \<longrightarrow> P m')"
  using assms(3)
proof (induction b arbitrary: m rule: length_induct)
  case (1 b)
  show ?case
  proof (cases "b = []")
    case True
    then show ?thesis using 1(2) by (subst fields_loop.simps) simp
  next
    case False
    obtain n t k where tag: "pw_ConsumeTag pw b = (n, t, k)" by (metis prod_cases3)
    show ?thesis
    proof (cases "k < 0")
      case True
      then show ?thesis using False tag by (subst fields_loop.simps) simp
    next
      case k: False
      then have pos: "1 \<le> k" using assms(1) False tag by (simp add: wire_laws_def)
      obtain r where r: "handle n t (skip k b) m = Some r" "\<And>m' rest. r = Inr (m', rest) \<Longrightarrow> P m' \<and> length rest \<le> length (skip k b)"
        using assms(2) 1(2) unfolding answers_def answer_def by blast
      show ?thesis
      proof (cases r)
        case (Inl e)
        then show ?thesis using False tag k r by (subst fields_loop.simps) simp
      next
        case (Inr mr)
        obtain m' rest where mr: "mr = (m', rest)" by fastforce
        have le: "length rest \<le> length (skip k b)" and P: "P m'" using r(2) [of m' rest] Inr mr by simp_all
        have "length (skip k b) < length b" using pos False by (cases b) (auto simp: skip_def)
        with le have less: "length rest < length b" by (rule le_less_trans)
        have "fields_loop pw handle b m = fields_loop pw handle rest m'"
          using False tag k r(1) Inr mr by (subst fields_loop.simps) simp
        then show ?thesis using 1(1) less P by simp
      qed
    qed
  qed
qed

lemma skip_length [simp]: "length (skip k b) \<le> length b"
  by (simp add: skip_def)

lemma consumed_shorter:
  "consumeBytesField pw b = Inr (s, rest) \<Longrightarrow> length rest \<le> length b"
  "consumeVarintField pw b = Inr (v, rest) \<Longrightarrow> length rest \<le> length b"
  "bytes_value pw field typ b = Inr (s, rest) \<Longrightarrow> length rest \<le> length b"
  "varint_value pw field typ b = Inr (v, rest) \<Longrightarrow> length rest \<le> length b"
  "skipField pw n t b = Inr rest \<Longrightarrow> length rest \<le> length b"
  by (auto simp: consumeBytesField_def consumeVarintField_def bytes_value_def varint_value_def skipField_def Let_def
    split: prod.splits if_splits option.splits)

lemma answer_error [intro!]: "answer P b (Some (Inl e))"
  by (simp add: answer_def)

lemma answer_value:
  assumes "\<And>x rest. val = Inr (x, rest) \<Longrightarrow> length rest \<le> length b" "\<And>x. P (f x)"
  shows "answer P b (Some (map_sum id (apfst f) val))"
  using assms by (cases val) (auto simp: answer_def)

lemma answer_skip [intro!]: "P m \<Longrightarrow> answer P b (skip_unknown pw n t b m)"
  by (cases "skipField pw n t b") (auto simp: skip_unknown_def answer_def dest: consumed_shorter)

lemma answer_nested:
  assumes "\<And>x rest. val = Inr (x, rest) \<Longrightarrow> length rest \<le> length b" "\<And>v. \<exists>r. unmarshal v = Some r" "\<And>x. P (f x)"
  shows "answer P b (nested unmarshal f val)"
proof (cases val)
  case (Inr vr)
  obtain v rest r where "vr = (v, rest)" "unmarshal v = Some r" using assms(2) by (metis surj_pair)
  then show ?thesis using assms(1,3) Inr by (cases r) (auto simp: nested_def answer_def)
qed (simp add: nested_def answer_error)

lemma jwt_field_answers: "answers (jwt_field pw) (\<lambda>_. True)"
  unfolding answers_def jwt_field_def by (auto intro!: answer_value dest: consumed_shorter)

lemma tool_call_field_answers: "answers (tool_call_field pw) (\<lambda>_. True)"
  unfolding answers_def tool_call_field_def by (auto intro!: answer_value dest: consumed_shorter)

lemma usage_field_answers: "answers (usage_field pw) (\<lambda>_. True)"
  unfolding answers_def usage_field_def by (auto intro!: answer_value dest: consumed_shorter)

lemma tool_call_ends: "wire_laws pw \<Longrightarrow> \<exists>r. ChatToolCall_Unmarshal pw b = Some r"
  using fields_loop_ends [OF _ tool_call_field_answers] by (auto simp: ChatToolCall_Unmarshal_def)

lemma usage_ends: "wire_laws pw \<Longrightarrow> \<exists>r. ModelUsageStats_Unmarshal pw b = Some r"
  using fields_loop_ends [OF _ usage_field_answers] by (auto simp: ModelUsageStats_Unmarshal_def)

abbreviation calls_bounded :: "chat_frame \<Rightarrow> bool" where
  "calls_bounded m \<equiv> int (length (cf_DeltaToolCalls m)) \<le> maxDeltaToolCalls"

lemma set_frame_calls:
  "cf_DeltaToolCalls (set_frame_text field s m) = cf_DeltaToolCalls m"
  "set_frame_count field v m = Inr m' \<Longrightarrow> cf_DeltaToolCalls m' = cf_DeltaToolCalls m"
  by (auto simp: set_frame_text_def set_frame_count_def split: if_splits)

lemma frame_field_answers:
  assumes "wire_laws pw"
  shows "answers (frame_field pw) calls_bounded"
  unfolding answers_def
proof (intro allI impI)
  fix n t :: int and b :: string and m :: chat_frame
  assume P: "calls_bounded m"
  consider "n \<in> frame_texts" | "n \<notin> frame_texts" "n \<in> {4, 5}" | "n = 6" | "n = 7" | "n \<notin> frame_texts \<union> {4, 5, 6, 7}"
    by auto
  then show "answer calls_bounded b (frame_field pw n t b m)"
  proof cases
    case 1
    then show ?thesis using P by (auto simp: frame_field_def set_frame_calls intro!: answer_value dest: consumed_shorter)
  next
    case 2
    show ?thesis
    proof (cases "varint_value pw n t b")
      case (Inr vr)
      obtain v rest where vr: "vr = (v, rest)" by fastforce
      then show ?thesis using 2 P Inr
        by (cases "set_frame_count n v m") (auto simp: frame_field_def answer_def set_frame_calls dest: consumed_shorter)
    qed (use 2 in \<open>auto simp: frame_field_def\<close>)
  next
    case 3
    then show ?thesis using P tool_call_ends [OF assms]
      by (auto simp: frame_field_def frame_texts_def intro!: answer_nested split: option.split dest: consumed_shorter)
  next
    case 4
    then show ?thesis using P usage_ends [OF assms]
      by (auto simp: frame_field_def frame_texts_def intro!: answer_nested dest: consumed_shorter)
  next
    case 5
    then show ?thesis using P by (auto simp: frame_field_def)
  qed
qed

section \<open>What the decoders compute\<close>

datatype wire_value = WVarint "64 word" | WFixed64 "64 word" | WBytes string

fun wire_type :: "wire_value \<Rightarrow> int" where
  "wire_type (WVarint _) = VarintType"
| "wire_type (WFixed64 _) = Fixed64Type"
| "wire_type (WBytes _) = BytesType"

fun value_bytes :: "protowire \<Rightarrow> wire_value \<Rightarrow> string" where
  "value_bytes pw (WVarint v) = pw_varint pw v"
| "value_bytes pw (WFixed64 v) = pw_fixed64 pw v"
| "value_bytes pw (WBytes s) = pw_bytes pw s"

type_synonym wire_field = "int \<times> wire_value"

definition field_ok :: "wire_field \<Rightarrow> bool" where
  "field_ok f \<longleftrightarrow> number_ok (fst f) \<and> (case snd f of WBytes s \<Rightarrow> int (length s) < 2 ^ 63 | _ \<Rightarrow> True)"

definition fields_bytes :: "protowire \<Rightarrow> wire_field list \<Rightarrow> string" where
  "fields_bytes pw fs = concat (map (\<lambda>(n, v). pw_tag pw n (wire_type v) @ value_bytes pw v) fs)"

text \<open>A message is the effect of its fields one after the other.\<close>

fun apply_fields :: "(wire_field \<Rightarrow> 'm \<Rightarrow> go_error + 'm) \<Rightarrow> wire_field list \<Rightarrow> 'm \<Rightarrow> go_error + 'm" where
  "apply_fields step [] m = Inr m"
| "apply_fields step (f # fs) m = (case step f m of Inl e \<Rightarrow> Inl e | Inr m' \<Rightarrow> apply_fields step fs m')"

definition text_step :: "(int \<Rightarrow> bool) \<Rightarrow> (int \<Rightarrow> string \<Rightarrow> 'm \<Rightarrow> 'm) \<Rightarrow> wire_field \<Rightarrow> 'm \<Rightarrow> go_error + 'm" where
  "text_step known put f m = (if \<not> known (fst f) then Inr m else case snd f of WBytes s \<Rightarrow> Inr (put (fst f) s m) | _ \<Rightarrow> Inl (wire_error (fst f)))"

definition tool_call_step :: "wire_field \<Rightarrow> chat_tool_call \<Rightarrow> go_error + chat_tool_call" where
  "tool_call_step = text_step (\<lambda>n. 1 \<le> n \<and> n \<le> 3) set_tool_call"

definition usage_step :: "wire_field \<Rightarrow> model_usage \<Rightarrow> go_error + model_usage" where
  "usage_step f m =
     (if fst f \<in> {2, 3, 4, 5} then (case snd f of WVarint v \<Rightarrow> Inr (set_usage_count (fst f) v m) | _ \<Rightarrow> Inl (wire_error (fst f)))
      else text_step (\<lambda>n. n \<in> {7, 9, 10, 11}) set_usage_text f m)"

definition jwt_step :: "wire_field \<Rightarrow> jwt_response \<Rightarrow> go_error + jwt_response" where
  "jwt_step f m =
     (case snd f of WBytes s \<Rightarrow> Inr (if fst f = 1 then m\<lparr>jr_UserJWT := s\<rparr> else if fst f = 2 then m\<lparr>jr_CustomAPIServerURL := s\<rparr> else m)
      | _ \<Rightarrow> Inr m)"

definition frame_step :: "protowire \<Rightarrow> wire_field \<Rightarrow> chat_frame \<Rightarrow> go_error + chat_frame" where
  "frame_step pw f m =
     (if fst f \<in> {4, 5} then (case snd f of WVarint v \<Rightarrow> set_frame_count (fst f) v m | _ \<Rightarrow> Inl (wire_error (fst f)))
      else if fst f = 6 then
        (case snd f of WBytes s \<Rightarrow>
           if int (length (cf_DeltaToolCalls m)) \<ge> maxDeltaToolCalls then Inl (ErrNew ''devin proto: too many tool calls'')
           else map_sum id (\<lambda>call. m\<lparr>cf_DeltaToolCalls := cf_DeltaToolCalls m @ [call]\<rparr>) (the (ChatToolCall_Unmarshal pw s))
         | _ \<Rightarrow> Inl (wire_error (fst f)))
      else if fst f = 7 then
        (case snd f of WBytes s \<Rightarrow> map_sum id (\<lambda>u. m\<lparr>cf_Usage := Some u\<rparr>) (the (ModelUsageStats_Unmarshal pw s)) | _ \<Rightarrow> Inl (wire_error (fst f)))
      else text_step (\<lambda>n. n \<in> frame_texts) set_frame_text f m)"

text \<open>How the values of well-formed fields are consumed.\<close>

lemma consume_values:
  assumes "wire_laws pw"
  shows "int (length s) < 2 ^ 63 \<Longrightarrow> consumeBytesField pw (pw_bytes pw s @ rest) = Inr (s, rest)"
    and "consumeVarintField pw (pw_varint pw v @ rest) = Inr (v, rest)"
  using assms by (simp_all add: wire_laws_def consumeBytesField_def consumeVarintField_def skip_def)

lemma skip_values:
  assumes "wire_laws pw" "field_ok (n, v)"
  shows "skipField pw n (wire_type v) (value_bytes pw v @ rest) = Inr rest"
  using assms by (cases v) (simp_all add: wire_laws_def field_ok_def skipField_def skip_def Let_def)

lemma type_distinct [simp]:
  "BytesType \<noteq> VarintType" "VarintType \<noteq> BytesType" "Fixed64Type \<noteq> VarintType" "Fixed64Type \<noteq> BytesType"
  "BytesType \<noteq> Fixed64Type" "VarintType \<noteq> Fixed64Type"
  by (simp_all add: BytesType_def VarintType_def Fixed64Type_def)

lemma bytes_value_field:
  assumes "wire_laws pw" "field_ok (n, v)"
  shows "bytes_value pw n (wire_type v) (value_bytes pw v @ rest) =
    (case v of WBytes s \<Rightarrow> Inr (s, rest) | _ \<Rightarrow> Inl (wire_error n))"
  using assms by (cases v) (simp_all add: bytes_value_def checkWire_def field_ok_def consume_values)

lemma varint_value_field:
  assumes "wire_laws pw" "field_ok (n, v)"
  shows "varint_value pw n (wire_type v) (value_bytes pw v @ rest) =
    (case v of WVarint w \<Rightarrow> Inr (w, rest) | _ \<Rightarrow> Inl (wire_error n))"
  using assms by (cases v) (simp_all add: varint_value_def checkWire_def consume_values)

lemma skip_unknown_field:
  assumes "wire_laws pw" "field_ok (n, v)"
  shows "skip_unknown pw n (wire_type v) (value_bytes pw v @ rest) m = Some (Inr (m, rest))"
  using skip_values [OF assms] by (simp add: skip_unknown_def)

lemmas field_values = bytes_value_field varint_value_field skip_unknown_field

lemma fields_loop_decodes:
  assumes laws: "wire_laws pw" and ok: "\<forall>f\<in>set fs. field_ok f"
    and handle: "\<And>n v rest m. field_ok (n, v) \<Longrightarrow>
      handle n (wire_type v) (value_bytes pw v @ rest) m = Some (map_sum id (\<lambda>m'. (m', rest)) (step (n, v) m))"
  shows "fields_loop pw handle (fields_bytes pw fs) m = Some (apply_fields step fs m)"
  using ok
proof (induction fs arbitrary: m)
  case Nil
  then show ?case by (subst fields_loop.simps) (simp add: fields_bytes_def)
next
  case (Cons f fs)
  obtain n v where f: "f = (n, v)" by fastforce
  let ?tag = "pw_tag pw n (wire_type v)" and ?rest = "fields_bytes pw fs"
  have ok: "field_ok (n, v)" using Cons.prems f by simp
  have "wire_type v \<in> {VarintType, Fixed64Type, BytesType}" by (cases v) simp_all
  moreover have "number_ok n" using ok by (simp add: field_ok_def)
  ultimately have tag: "?tag \<noteq> []" "pw_ConsumeTag pw (?tag @ value_bytes pw v @ ?rest) = (n, wire_type v, int (length ?tag))"
    using laws [unfolded wire_laws_def, THEN conjunct1, rule_format, of n "wire_type v" "value_bytes pw v @ ?rest"] by simp_all
  have bytes: "fields_bytes pw (f # fs) = ?tag @ value_bytes pw v @ ?rest" by (simp add: fields_bytes_def f)
  have "fields_loop pw handle (fields_bytes pw (f # fs)) m =
    Option.bind (handle n (wire_type v) (value_bytes pw v @ ?rest) m) (\<lambda>r. case r of Inl e \<Rightarrow> Some (Inl e) | Inr (m', rest) \<Rightarrow> fields_loop pw handle rest m')"
    using tag by (subst fields_loop.simps) (simp add: bytes skip_def)
  also have "\<dots> = Some (apply_fields step (f # fs) m)"
    using Cons by (cases "step (n, v) m") (simp_all add: handle [OF ok] f)
  finally show ?case .
qed

lemma tool_call_handled:
  assumes "wire_laws pw" "field_ok (n, v)"
  shows "tool_call_field pw n (wire_type v) (value_bytes pw v @ rest) m = Some (map_sum id (\<lambda>m'. (m', rest)) (tool_call_step (n, v) m))"
  by (auto simp: tool_call_field_def tool_call_step_def text_step_def field_values [OF assms] split: wire_value.split)

lemma usage_handled:
  assumes "wire_laws pw" "field_ok (n, v)"
  shows "usage_field pw n (wire_type v) (value_bytes pw v @ rest) m = Some (map_sum id (\<lambda>m'. (m', rest)) (usage_step (n, v) m))"
  by (auto simp: usage_field_def usage_step_def text_step_def field_values [OF assms] split: wire_value.split)

lemma jwt_handled:
  assumes "wire_laws pw" "field_ok (n, v)"
  shows "jwt_field pw n (wire_type v) (value_bytes pw v @ rest) m = Some (map_sum id (\<lambda>m'. (m', rest)) (jwt_step (n, v) m))"
  using assms bytes_value_field [OF assms, of rest]
  by (auto simp: jwt_field_def jwt_step_def bytes_value_def checkWire_def skip_unknown_field split: wire_value.split if_splits)

lemma frame_handled:
  assumes "wire_laws pw" "field_ok (n, v)"
  shows "frame_field pw n (wire_type v) (value_bytes pw v @ rest) m = Some (map_sum id (\<lambda>m'. (m', rest)) (frame_step pw (n, v) m))"
proof -
  obtain u where u: "ModelUsageStats_Unmarshal pw s = Some (u s)" for s using usage_ends [OF assms(1)] by metis
  obtain c where c: "ChatToolCall_Unmarshal pw s = Some (c s)" for s using tool_call_ends [OF assms(1)] by metis
  have "frame_texts \<inter> {4, 5, 6, 7} = {}" by (simp add: frame_texts_def)
  then consider "n \<in> frame_texts" "n \<notin> {4, 5, 6, 7}" | "n \<in> {4, 5}" "n \<notin> frame_texts" | "n = 6" | "n = 7" | "n \<notin> frame_texts \<union> {4, 5, 6, 7}"
    by blast
  then show ?thesis
  proof cases
    case 1
    then show ?thesis by (auto simp: frame_field_def frame_step_def text_step_def field_values [OF assms] split: wire_value.split)
  next
    case 2
    then show ?thesis using field_values [OF assms] by (cases v) (auto simp: frame_field_def frame_step_def)
  next
    case 3
    then show ?thesis using assms
      by (cases v) (simp_all add: frame_field_def frame_step_def frame_texts_def checkWire_def field_ok_def consume_values nested_def c sum.map_comp comp_def id_def)
  next
    case 4
    then show ?thesis using bytes_value_field [OF assms, of rest]
      by (cases v) (simp_all add: frame_field_def frame_step_def frame_texts_def nested_def u sum.map_comp comp_def id_def)
  next
    case 5
    then show ?thesis by (auto simp: frame_field_def frame_step_def text_step_def field_values [OF assms] split: wire_value.split)
  qed
qed

section \<open>Round trips\<close>

definition text_field :: "int \<Rightarrow> string \<Rightarrow> wire_field list" where
  "text_field n s = (if s = [] then [] else [(n, WBytes s)])"

definition count_field :: "int \<Rightarrow> 64 word \<Rightarrow> wire_field list" where
  "count_field n v = (if v = 0 then [] else [(n, WVarint v)])"

lemma sent_fields [simp]:
  "stringField pw (fields_bytes pw fs) n s = fields_bytes pw (fs @ text_field n s)"
  "varintField pw (fields_bytes pw fs) n v = fields_bytes pw (fs @ count_field n v)"
  "stringField pw [] n s = fields_bytes pw (text_field n s)"
  "varintField pw [] n v = fields_bytes pw (count_field n v)"
  by (simp_all add: stringField_def varintField_def fields_bytes_def text_field_def count_field_def)

definition tool_call_fields :: "chat_tool_call \<Rightarrow> wire_field list" where
  "tool_call_fields m = text_field 1 (tc_ID m) @ text_field 2 (tc_Name m) @ text_field 3 (tc_ArgumentsJSON m)"

definition usage_fields :: "model_usage \<Rightarrow> wire_field list" where
  "usage_fields m = count_field 2 (mu_InputTokens m) @ count_field 3 (mu_OutputTokens m) @ count_field 4 (mu_CacheWriteTokens m) @
     count_field 5 (mu_CacheReadTokens m) @ text_field 7 (mu_MessageID m) @ text_field 9 (mu_ModelUID m) @
     text_field 10 (mu_BillingModelUID m) @ text_field 11 (mu_RequestedModelUID m)"

definition jwt_fields :: "jwt_response \<Rightarrow> wire_field list" where
  "jwt_fields m = text_field 1 (jr_UserJWT m) @ text_field 2 (jr_CustomAPIServerURL m)"

text \<open>A sender of answers, for which the code has no counterpart.\<close>

definition frame_fields :: "protowire \<Rightarrow> chat_frame \<Rightarrow> wire_field list" where
  "frame_fields pw m =
     text_field 1 (cf_MessageID m) @ text_field 3 (cf_DeltaText m) @ count_field 4 (ucast (cf_DeltaTokens m)) @
     count_field 5 (word_of_int (cf_StopReason m)) @ map (\<lambda>call. (6, WBytes (fields_bytes pw (tool_call_fields call)))) (cf_DeltaToolCalls m) @
     (case cf_Usage m of None \<Rightarrow> [] | Some u \<Rightarrow> [(7, WBytes (fields_bytes pw (usage_fields u)))]) @
     text_field 9 (cf_DeltaThinking m) @ text_field 10 (cf_DeltaSignature m) @ text_field 15 (cf_OutputID m) @
     text_field 17 (cf_RequestID m) @ text_field 21 (cf_DeltaSignatureType m) @
     (case cf_ActualModelUID m of None \<Rightarrow> [] | Some s \<Rightarrow> [(23, WBytes s)]) @ text_field 25 (cf_Phase m)"

lemma marshalled:
  "ChatToolCall_Marshal pw c = Inr (fields_bytes pw (tool_call_fields c))"
  "ModelUsageStats_Marshal pw u = Inr (fields_bytes pw (usage_fields u))"
  "GetUserJWTResponse_Marshal pw j = Inr (fields_bytes pw (jwt_fields j))"
  by (simp_all add: ChatToolCall_Marshal_def ModelUsageStats_Marshal_def GetUserJWTResponse_Marshal_def Let_def
      tool_call_fields_def usage_fields_def jwt_fields_def)

lemma apply_fields_append:
  "apply_fields step (fs @ gs) m = (case apply_fields step fs m of Inl e \<Rightarrow> Inl e | Inr m' \<Rightarrow> apply_fields step gs m')"
  by (induction fs arbitrary: m) (auto split: sum.splits)

lemma field_within:
  assumes "wire_laws pw" "(n, WBytes s) \<in> set fs"
  shows "length s \<le> length (fields_bytes pw fs)"
proof -
  obtain gs hs where "fs = gs @ (n, WBytes s) # hs" using assms(2) by (auto dest: split_list)
  then have "length (pw_bytes pw s) \<le> length (fields_bytes pw fs)" by (simp add: fields_bytes_def)
  moreover have "length s \<le> length (pw_bytes pw s)" using assms(1) by (simp add: wire_laws_def)
  ultimately show ?thesis by simp
qed

lemma fields_ok:
  assumes "wire_laws pw" "int (length (fields_bytes pw fs)) < 2 ^ 63" "\<forall>f\<in>set fs. number_ok (fst f)"
  shows "\<forall>f\<in>set fs. field_ok f"
proof
  fix f assume f: "f \<in> set fs"
  show "field_ok f"
  proof (cases "snd f")
    case (WBytes s)
    then have "(fst f, WBytes s) \<in> set fs" using f by (metis prod.collapse)
    then have "int (length s) < 2 ^ 63" using field_within [OF assms(1)] assms(2) by (meson of_nat_le_iff order_le_less_trans)
    then show ?thesis using WBytes assms(3) f by (simp add: field_ok_def)
  qed (use assms(3) f in \<open>simp_all add: field_ok_def\<close>)
qed

lemma small_fields_ok:
  assumes "wire_laws pw" "\<forall>f\<in>set fs. number_ok (fst f)" "int (length (fields_bytes pw fs)) \<le> maxUnmarshalBytes"
  shows "\<forall>f\<in>set fs. field_ok f"
proof (rule fields_ok [OF assms(1) _ assms(2)])
  show "int (length (fields_bytes pw fs)) < 2 ^ 63" using assms(3) by (simp add: maxUnmarshalBytes_def)
qed

lemma field_numbers: "f \<in> set (text_field n s) \<Longrightarrow> fst f = n" "f \<in> set (count_field n v) \<Longrightarrow> fst f = n"
  by (auto simp: text_field_def count_field_def split: if_splits)

lemma numbers_ok:
  "\<forall>f\<in>set (tool_call_fields c). number_ok (fst f)" "\<forall>f\<in>set (usage_fields u). number_ok (fst f)"
  "\<forall>f\<in>set (jwt_fields j). number_ok (fst f)" "\<forall>f\<in>set (frame_fields pw m). number_ok (fst f)"
  by (auto simp: tool_call_fields_def usage_fields_def jwt_fields_def frame_fields_def number_ok_def
      dest!: field_numbers split: option.splits)

lemma apply_text_field: "apply_fields step (text_field n s) m = (if s = [] then Inr m else step (n, WBytes s) m)"
  by (simp add: text_field_def split: sum.split)

lemma apply_count_field: "apply_fields step (count_field n v) m = (if v = 0 then Inr m else step (n, WVarint v) m)"
  by (simp add: count_field_def split: sum.split)

lemmas apply_simps = apply_fields_append apply_text_field apply_count_field

lemma tool_call_applied: "apply_fields tool_call_step (tool_call_fields c) empty_tool_call = Inr c"
  by (cases c) (simp add: tool_call_fields_def apply_simps tool_call_step_def text_step_def set_tool_call_def empty_tool_call_def)

lemma jwt_applied: "apply_fields jwt_step (jwt_fields j) empty_jwt = Inr j"
  by (cases j) (simp add: jwt_fields_def apply_simps jwt_step_def empty_jwt_def)

text \<open>A field of an empty place fills it.\<close>

lemma usage_filled:
  "mu_InputTokens m = 0 \<Longrightarrow> apply_fields usage_step (count_field 2 xInputTokens) m = Inr (m\<lparr>mu_InputTokens := xInputTokens\<rparr>)"
  "mu_OutputTokens m = 0 \<Longrightarrow> apply_fields usage_step (count_field 3 xOutputTokens) m = Inr (m\<lparr>mu_OutputTokens := xOutputTokens\<rparr>)"
  "mu_CacheWriteTokens m = 0 \<Longrightarrow> apply_fields usage_step (count_field 4 xCacheWriteTokens) m = Inr (m\<lparr>mu_CacheWriteTokens := xCacheWriteTokens\<rparr>)"
  "mu_CacheReadTokens m = 0 \<Longrightarrow> apply_fields usage_step (count_field 5 xCacheReadTokens) m = Inr (m\<lparr>mu_CacheReadTokens := xCacheReadTokens\<rparr>)"
  "mu_MessageID m = [] \<Longrightarrow> apply_fields usage_step (text_field 7 xMessageID) m = Inr (m\<lparr>mu_MessageID := xMessageID\<rparr>)"
  "mu_ModelUID m = [] \<Longrightarrow> apply_fields usage_step (text_field 9 xModelUID) m = Inr (m\<lparr>mu_ModelUID := xModelUID\<rparr>)"
  "mu_BillingModelUID m = [] \<Longrightarrow> apply_fields usage_step (text_field 10 xBillingModelUID) m = Inr (m\<lparr>mu_BillingModelUID := xBillingModelUID\<rparr>)"
  "mu_RequestedModelUID m = [] \<Longrightarrow> apply_fields usage_step (text_field 11 xRequestedModelUID) m = Inr (m\<lparr>mu_RequestedModelUID := xRequestedModelUID\<rparr>)"
  by (cases m; simp add: apply_simps usage_step_def text_step_def set_usage_count_def set_usage_text_def)+

lemma usage_applied: "apply_fields usage_step (usage_fields u) empty_model_usage = Inr u"
  by (cases u) (simp add: usage_fields_def apply_fields_append usage_filled empty_model_usage_def)

lemma frame_text_filled:
  "cf_MessageID m = [] \<Longrightarrow> apply_fields (frame_step pw) (text_field 1 xMessageID) m = Inr (m\<lparr>cf_MessageID := xMessageID\<rparr>)"
  "cf_DeltaText m = [] \<Longrightarrow> apply_fields (frame_step pw) (text_field 3 xDeltaText) m = Inr (m\<lparr>cf_DeltaText := xDeltaText\<rparr>)"
  "cf_DeltaThinking m = [] \<Longrightarrow> apply_fields (frame_step pw) (text_field 9 xDeltaThinking) m = Inr (m\<lparr>cf_DeltaThinking := xDeltaThinking\<rparr>)"
  "cf_DeltaSignature m = [] \<Longrightarrow> apply_fields (frame_step pw) (text_field 10 xDeltaSignature) m = Inr (m\<lparr>cf_DeltaSignature := xDeltaSignature\<rparr>)"
  "cf_OutputID m = [] \<Longrightarrow> apply_fields (frame_step pw) (text_field 15 xOutputID) m = Inr (m\<lparr>cf_OutputID := xOutputID\<rparr>)"
  "cf_RequestID m = [] \<Longrightarrow> apply_fields (frame_step pw) (text_field 17 xRequestID) m = Inr (m\<lparr>cf_RequestID := xRequestID\<rparr>)"
  "cf_DeltaSignatureType m = [] \<Longrightarrow> apply_fields (frame_step pw) (text_field 21 xDeltaSignatureType) m = Inr (m\<lparr>cf_DeltaSignatureType := xDeltaSignatureType\<rparr>)"
  "cf_Phase m = [] \<Longrightarrow> apply_fields (frame_step pw) (text_field 25 xPhase) m = Inr (m\<lparr>cf_Phase := xPhase\<rparr>)"
  by (cases m; simp add: apply_simps frame_step_def frame_texts_def text_step_def set_frame_text_def)+

lemma tokens_filled:
  "cf_DeltaTokens m = 0 \<Longrightarrow> apply_fields (frame_step pw) (count_field 4 (ucast w)) m = Inr (m\<lparr>cf_DeltaTokens := w\<rparr>)"
proof -
  assume z: "cf_DeltaTokens m = 0"
  have le: "(ucast w :: 64 word) \<le> 0xFFFFFFFF"
    using uint_lt2p [of w] by (simp add: word_le_def unsigned_ucast_eq take_bit_int_eq_self)
  have id: "ucast (ucast w :: 64 word) = w" 
    using uint_lt2p [of w] by (simp add: word_uint_eq_iff unsigned_ucast_eq unsigned_take_bit_eq take_bit_int_eq_self)
  show ?thesis
  proof (cases "(ucast w :: 64 word) = 0")
    case True
    then have "w = 0" using id by simp
    then show ?thesis using z by (cases m) (simp add: apply_simps)
  next
    case False
    then show ?thesis using le by (simp add: apply_simps frame_step_def set_frame_count_def id not_less)
  qed
qed

lemma stop_filled:
  assumes "cf_StopReason m = 0" "0 \<le> r" "r < 2 ^ 31"
  shows "apply_fields (frame_step pw) (count_field 5 (word_of_int r)) m = Inr (m\<lparr>cf_StopReason := r\<rparr>)"
proof -
  have u: "uint (word_of_int r :: 64 word) = r" using assms by (simp add: uint_word_of_int)
  have le: "(word_of_int r :: 64 word) \<le> 0x7FFFFFFF" using assms by (simp add: word_le_def u)
  have s: "sint (ucast (word_of_int r :: 64 word) :: 32 word) = r"
    using assms u by (simp add: signed_ucast_eq signed_take_bit_int_eq_self)
  show ?thesis
  proof (cases "(word_of_int r :: 64 word) = 0")
    case True
    then have "r = 0" using u by simp
    then show ?thesis using assms(1) by (cases m) (simp add: apply_simps)
  next
    case False
    then show ?thesis using le by (simp add: apply_simps frame_step_def set_frame_count_def s not_less)
  qed
qed

lemma tool_call_roundtrip:
  assumes "wire_laws pw" "int (length (fields_bytes pw (tool_call_fields c))) \<le> maxUnmarshalBytes"
  shows "ChatToolCall_Unmarshal pw (fields_bytes pw (tool_call_fields c)) = Some (Inr c)"
  using fields_loop_decodes [OF assms(1) small_fields_ok [OF assms(1) numbers_ok(1) assms(2)], where handle = "tool_call_field pw" and step = tool_call_step]
    tool_call_handled [OF assms(1)] assms(2)
  by (simp add: ChatToolCall_Unmarshal_def tool_call_applied)

lemma usage_roundtrip:
  assumes "wire_laws pw" "int (length (fields_bytes pw (usage_fields u))) \<le> maxUnmarshalBytes"
  shows "ModelUsageStats_Unmarshal pw (fields_bytes pw (usage_fields u)) = Some (Inr u)"
  using fields_loop_decodes [OF assms(1) small_fields_ok [OF assms(1) numbers_ok(2) assms(2)], where handle = "usage_field pw" and step = usage_step]
    usage_handled [OF assms(1)] assms(2)
  by (simp add: ModelUsageStats_Unmarshal_def usage_applied)

lemma jwt_roundtrip:
  assumes "wire_laws pw" "int (length (fields_bytes pw (jwt_fields j))) < 2 ^ 63"
  shows "GetUserJWTResponse_Unmarshal pw (fields_bytes pw (jwt_fields j)) = Some (Inr j)"
  using fields_loop_decodes [OF assms(1) fields_ok [OF assms numbers_ok(3)], where handle = "jwt_field pw" and step = jwt_step]
    jwt_handled [OF assms(1)]
  by (simp add: GetUserJWTResponse_Unmarshal_def jwt_applied)

lemma frame_decoded:
  assumes "wire_laws pw" "\<forall>f\<in>set fs. number_ok (fst f)" "int (length (fields_bytes pw fs)) \<le> maxUnmarshalBytes"
  shows "GetChatMessageResponse_Unmarshal pw (fields_bytes pw fs) = Some (apply_fields (frame_step pw) fs empty_frame)"
  using fields_loop_decodes [OF assms(1) small_fields_ok [OF assms], where handle = "frame_field pw" and step = "frame_step pw"]
    frame_handled [OF assms(1)] assms(3)
  by (simp add: GetChatMessageResponse_Unmarshal_def)

lemma calls_filled:
  assumes "wire_laws pw" "int (length (cf_DeltaToolCalls m) + length calls) \<le> maxDeltaToolCalls"
    and "\<forall>call\<in>set calls. int (length (fields_bytes pw (tool_call_fields call))) \<le> maxUnmarshalBytes"
  shows "apply_fields (frame_step pw) (map (\<lambda>call. (6, WBytes (fields_bytes pw (tool_call_fields call)))) calls) m =
    Inr (m\<lparr>cf_DeltaToolCalls := cf_DeltaToolCalls m @ calls\<rparr>)"
  using assms(2,3)
proof (induction calls arbitrary: m)
  case (Cons call calls)
  then show ?case by (simp add: frame_step_def tool_call_roundtrip [OF assms(1)])
qed simp

lemma usage_message_filled:
  assumes "wire_laws pw" "int (length (fields_bytes pw (usage_fields u))) \<le> maxUnmarshalBytes"
  shows "apply_fields (frame_step pw) [(7, WBytes (fields_bytes pw (usage_fields u)))] m = Inr (m\<lparr>cf_Usage := Some u\<rparr>)"
  by (simp add: frame_step_def usage_roundtrip [OF assms])

lemma actual_model_filled:
  "apply_fields (frame_step pw) [(23, WBytes s)] m = Inr (m\<lparr>cf_ActualModelUID := Some s\<rparr>)"
  by (simp add: frame_step_def frame_texts_def text_step_def set_frame_text_def)

lemma frame_applied:
  assumes "wire_laws pw" "0 \<le> cf_StopReason m" "cf_StopReason m < 2 ^ 31" "calls_bounded m"
    and "int (length (fields_bytes pw (frame_fields pw m))) \<le> maxUnmarshalBytes"
  shows "apply_fields (frame_step pw) (frame_fields pw m) empty_frame = Inr m"
proof -
  have nested: "int (length s) \<le> maxUnmarshalBytes" if "(n, WBytes s) \<in> set (frame_fields pw m)" for n s
    using field_within [OF assms(1) that] assms(5) by simp
  have calls: "\<forall>call\<in>set (cf_DeltaToolCalls m). int (length (fields_bytes pw (tool_call_fields call))) \<le> maxUnmarshalBytes"
    by (auto intro!: nested simp: frame_fields_def image_iff)
  have usage: "int (length (fields_bytes pw (usage_fields u))) \<le> maxUnmarshalBytes" if "cf_Usage m = Some u" for u
    using that by (intro nested [of 7]) (simp add: frame_fields_def)
  have usage': "apply_fields (frame_step pw) (case cf_Usage m of None \<Rightarrow> [] | Some u \<Rightarrow> [(7, WBytes (fields_bytes pw (usage_fields u)))]) f =
      Inr (f\<lparr>cf_Usage := cf_Usage m\<rparr>)" if "cf_Usage f = None" for f
    using that usage_message_filled [OF assms(1) usage] by (cases "cf_Usage m") (simp_all del: apply_fields.simps(2))
  have model': "apply_fields (frame_step pw) (case cf_ActualModelUID m of None \<Rightarrow> [] | Some s \<Rightarrow> [(23, WBytes s)]) f =
      Inr (f\<lparr>cf_ActualModelUID := cf_ActualModelUID m\<rparr>)" if "cf_ActualModelUID f = None" for f
    using that by (cases "cf_ActualModelUID m") (simp_all add: actual_model_filled del: apply_fields.simps(2))
  show ?thesis
    using assms(2-4) by (simp add: frame_fields_def apply_fields_append frame_text_filled tokens_filled stop_filled
      calls_filled [OF assms(1) _ calls] usage' model' empty_frame_def)
qed

text \<open>Messages are read back as they were sent. Under the laws of \<open>protowire\<close>, decoding a tool call,
  the usage statistics or a JWT response that the code encoded gives the message that was encoded,
  whatever its fields, and a chat frame sent field by field is decoded to exactly that frame, as
  long as the limits of the decoder (32 MiB, 4096 tool calls, an \<open>int32\<close> stop reason) are kept.
\<close>

theorem messages_roundtrip:
  assumes "wire_laws pw"
  shows "(\<forall>c b. ChatToolCall_Marshal pw c = Inr b \<and> int (length b) \<le> maxUnmarshalBytes \<longrightarrow> ChatToolCall_Unmarshal pw b = Some (Inr c)) \<and>
    (\<forall>u b. ModelUsageStats_Marshal pw u = Inr b \<and> int (length b) \<le> maxUnmarshalBytes \<longrightarrow> ModelUsageStats_Unmarshal pw b = Some (Inr u)) \<and>
    (\<forall>j b. GetUserJWTResponse_Marshal pw j = Inr b \<and> int (length b) < 2 ^ 63 \<longrightarrow> GetUserJWTResponse_Unmarshal pw b = Some (Inr j)) \<and>
    (\<forall>m b. b = fields_bytes pw (frame_fields pw m) \<and> int (length b) \<le> maxUnmarshalBytes \<and> 0 \<le> cf_StopReason m \<and> cf_StopReason m < 2 ^ 31 \<and>
       int (length (cf_DeltaToolCalls m)) \<le> maxDeltaToolCalls \<longrightarrow> GetChatMessageResponse_Unmarshal pw b = Some (Inr m))"
  using tool_call_roundtrip [OF assms] usage_roundtrip [OF assms] jwt_roundtrip [OF assms]
    frame_decoded [OF assms numbers_ok(4)] frame_applied [OF assms]
  by (simp add: marshalled)

text \<open>C28: Every answer is decoded. Whatever bytes arrive, the decoder of chat frames comes to an end, and
  a frame it returns came from at most 32 MiB and has at most 4096 tool calls; the JWT decoder
  comes to an end as well. On a message made of fields it computes the effect of the fields one
  after the other: texts and counts replace what an earlier field said, tool calls accumulate,
  unknown fields are skipped, a known field of another wire type is an error.
\<close>

theorem frames_decoded:
  assumes "wire_laws pw"
  shows "(\<exists>r. GetChatMessageResponse_Unmarshal pw b = Some r \<and>
      (\<forall>m. r = Inr m \<longrightarrow> int (length b) \<le> maxUnmarshalBytes \<and> int (length (cf_DeltaToolCalls m)) \<le> maxDeltaToolCalls)) \<and>
    (\<exists>r. GetUserJWTResponse_Unmarshal pw b = Some r) \<and>
    ((\<forall>f\<in>set fs. number_ok (fst f)) \<and> b = fields_bytes pw fs \<and> int (length b) \<le> maxUnmarshalBytes \<longrightarrow>
      GetChatMessageResponse_Unmarshal pw b = Some (apply_fields (frame_step pw) fs empty_frame))"
proof -
  have "calls_bounded empty_frame" by (simp add: empty_frame_def maxDeltaToolCalls_def)
  from fields_loop_ends [OF assms frame_field_answers [OF assms] this, where b = b]
  have "\<exists>r. GetChatMessageResponse_Unmarshal pw b = Some r \<and>
      (\<forall>m. r = Inr m \<longrightarrow> int (length b) \<le> maxUnmarshalBytes \<and> calls_bounded m)"
    by (auto simp: GetChatMessageResponse_Unmarshal_def)
  moreover have "\<exists>r. GetUserJWTResponse_Unmarshal pw b = Some r"
    using fields_loop_ends [OF assms jwt_field_answers, where b = b] by (auto simp: GetUserJWTResponse_Unmarshal_def)
  ultimately show ?thesis using frame_decoded [OF assms] by blast
qed

lemma messageFields_total: "(\<And>x. \<exists>p. marshal x = Inr p) \<Longrightarrow> \<exists>p. messageFields pw b n (map marshal xs) = Inr p"
proof (induction xs arbitrary: b)
  case (Cons x xs)
  moreover obtain p where "marshal x = Inr p" using Cons.prems by blast
  ultimately show ?case by (simp add: messageField_def)
qed simp

lemma prompt_parts:
  "\<exists>p. messageFields pw b n (map (ChatToolCall_Marshal pw) xs) = Inr p"
  "\<exists>p. messageFields pw b n (map (ImageData_Marshal pw) ys) = Inr p"
  by (rule messageFields_total, simp add: marshalled ImageData_Marshal_def Let_def)+

lemma field_appends:
  "\<exists>d. b' = b @ d \<Longrightarrow> \<exists>d. stringField pw b' n s = b @ d"
  "\<exists>d. b' = b @ d \<Longrightarrow> \<exists>d. varintField pw b' n v = b @ d"
  by (auto simp: stringField_def varintField_def)

lemma messageFields_appends: "messageFields pw b' n ms = Inr p \<Longrightarrow> \<exists>d. b' = b @ d \<Longrightarrow> \<exists>d. p = b @ d"
proof (induction ms arbitrary: b')
  case (Cons m ms)
  then obtain c where c: "messageField pw b' n m = Inr c" "messageFields pw c n ms = Inr p" by (auto split: sum.splits)
  then have "\<exists>d. c = b @ d" using Cons.prems(2) by (auto simp: messageField_def split: sum.splits)
  then show ?case using Cons.IH c(2) by blast
qed auto

text \<open>An absent message is sent as an empty one. \<open>messageField\<close> means to leave out a message that is
  nil, but its callers pass nil pointers inside an interface value that is not nil: a prompt
  without cache options is encoded with field 8 present and empty, byte for byte like a prompt whose
  cache options are of type \<open>UNSPECIFIED\<close>, and a request without tool choice, configuration or system
  cache options like one with the empty messages.
\<close>

theorem absent_messages_sent_empty:
  "\<exists>before after. ChatMessagePrompt_Marshal pw (m\<lparr>cp_PromptCacheOptions := None\<rparr>) =
      Inr (before @ pw_tag pw 8 BytesType @ pw_bytes pw [] @ after) \<and>
    ChatMessagePrompt_Marshal pw (m\<lparr>cp_PromptCacheOptions := None\<rparr>) =
      ChatMessagePrompt_Marshal pw (m\<lparr>cp_PromptCacheOptions := Some \<lparr>po_Type = 0\<rparr>\<rparr>) \<and>
    GetChatMessageRequest_Marshal pw (r\<lparr>cr_ToolChoice := None\<rparr>) =
      GetChatMessageRequest_Marshal pw (r\<lparr>cr_ToolChoice := Some \<lparr>ch_OptionName = [], ch_ToolName = []\<rparr>\<rparr>) \<and>
    GetChatMessageRequest_Marshal pw (r\<lparr>cr_SystemPromptCacheOptions := None\<rparr>) =
      GetChatMessageRequest_Marshal pw (r\<lparr>cr_SystemPromptCacheOptions := Some \<lparr>po_Type = 0\<rparr>\<rparr>)"
proof -
  have same: "marshal_ptr (PromptCacheOptions_Marshal pw) None = marshal_ptr (PromptCacheOptions_Marshal pw) (Some \<lparr>po_Type = 0\<rparr>)"
    "marshal_ptr (ChatToolChoice_Marshal pw) None = marshal_ptr (ChatToolChoice_Marshal pw) (Some \<lparr>ch_OptionName = [], ch_ToolName = []\<rparr>)"
    by (simp_all add: marshal_ptr_def PromptCacheOptions_Marshal_def varintField_def ChatToolChoice_Marshal_def stringField_def)
  let ?b0 = "stringField pw (varintField pw (stringField pw [] 1 (cp_MessageID m)) 2 (word_of_int (cp_Source m))) 3 (cp_Prompt m)"
  obtain b1 where b1: "messageFields pw ?b0 6 (map (ChatToolCall_Marshal pw) (cp_ToolCalls m)) = Inr b1" using prompt_parts(1) by blast
  let ?b2 = "stringField pw b1 7 (cp_ToolCallID m)"
  let ?b3 = "?b2 @ pw_tag pw 8 BytesType @ pw_bytes pw []"
  have m3: "messageField pw ?b2 8 (marshal_ptr (PromptCacheOptions_Marshal pw) None) = Inr ?b3"
    by (simp add: messageField_def marshal_ptr_def)
  let ?b4 = "varintField pw ?b3 9 (boolVarint (cp_ToolResultIsError m))"
  obtain b5 where b5: "messageFields pw ?b4 10 (map (ImageData_Marshal pw) (cp_Images m)) = Inr b5" using prompt_parts(2) by blast
  let ?b6 = "stringField pw (stringField pw (stringField pw (stringField pw (stringField pw b5 11 (cp_Thinking m)) 12 (cp_Signature m))
    15 (cp_OutputID m)) 18 (cp_SignatureType m)) 19 (cp_Phase m)"
  have "ChatMessagePrompt_Marshal pw (m\<lparr>cp_PromptCacheOptions := None\<rparr>) = Inr ?b6"
    by (simp add: ChatMessagePrompt_Marshal_def Let_def b1 m3 b5 del: sent_fields)
  moreover have "\<exists>d. ?b6 = ?b3 @ d"
    by (intro field_appends messageFields_appends [OF b5]) simp
  ultimately have "\<exists>before after. ChatMessagePrompt_Marshal pw (m\<lparr>cp_PromptCacheOptions := None\<rparr>) =
      Inr (before @ pw_tag pw 8 BytesType @ pw_bytes pw [] @ after)" by auto
  moreover have "ChatMessagePrompt_Marshal pw (m\<lparr>cp_PromptCacheOptions := None\<rparr>) =
      ChatMessagePrompt_Marshal pw (m\<lparr>cp_PromptCacheOptions := Some \<lparr>po_Type = 0\<rparr>\<rparr>)"
    by (simp add: ChatMessagePrompt_Marshal_def same Let_def cong: sum.case_cong del: sent_fields)
  moreover have "GetChatMessageRequest_Marshal pw (r\<lparr>cr_ToolChoice := None\<rparr>) =
      GetChatMessageRequest_Marshal pw (r\<lparr>cr_ToolChoice := Some \<lparr>ch_OptionName = [], ch_ToolName = []\<rparr>\<rparr>)"
    by (simp add: GetChatMessageRequest_Marshal_def same Let_def cong: sum.case_cong del: sent_fields)
  moreover have "GetChatMessageRequest_Marshal pw (r\<lparr>cr_SystemPromptCacheOptions := None\<rparr>) =
      GetChatMessageRequest_Marshal pw (r\<lparr>cr_SystemPromptCacheOptions := Some \<lparr>po_Type = 0\<rparr>\<rparr>)"
    by (simp add: GetChatMessageRequest_Marshal_def same Let_def cong: sum.case_cong del: sent_fields)
  ultimately show ?thesis by auto
qed

section \<open>A concrete wire format\<close>

text \<open>Base 128 varints, as in the protocol buffers encoding.\<close>

fun base128 :: "nat \<Rightarrow> string" where
  "base128 n = (if n < 128 then [char_of n] else char_of (n mod 128 + 128) # base128 (n div 128))"

declare base128.simps [simp del]

fun take128 :: "string \<Rightarrow> (nat \<times> nat) option" where
  "take128 [] = None"
| "take128 (c # cs) =
     (let d = of_char c in
      if d < 128 then Some (d, 1) else case take128 cs of None \<Rightarrow> None | Some (v, k) \<Rightarrow> Some (d - 128 + 128 * v, k + 1))"

lemma take128_base128: "take128 (base128 n @ rest) = Some (n, length (base128 n))"
proof (induction n rule: base128.induct)
  case (1 n)
  show ?case
  proof (cases "n < 128")
    case True
    then show ?thesis by (subst (1 2) base128.simps) simp
  next
    case False
    then show ?thesis using 1 by (subst (1 2) base128.simps) (simp add: Let_def)
  qed
qed

lemma base128_not_empty [simp]: "base128 n \<noteq> []"
  by (subst base128.simps) simp

lemma take128_positive: "take128 b = Some (v, k) \<Longrightarrow> 1 \<le> k"
  by (cases b) (auto simp: Let_def split: if_splits option.splits)

definition demo_bytes :: "string \<Rightarrow> string \<times> int" where
  "demo_bytes b = (case take128 b of None \<Rightarrow> ([], -1)
     | Some (n, k) \<Rightarrow> if k + n \<le> length b then (take n (drop k b), int (k + n)) else ([], -1))"

definition demo_wire :: protowire where
  "demo_wire =
     \<lparr>pw_tag = (\<lambda>n t. base128 (nat n * 8 + nat t)), pw_varint = (\<lambda>v. base128 (unat v)),
      pw_fixed64 = (\<lambda>v. map (\<lambda>i. char_of (unat (drop_bit (8 * i) v) mod 256)) [0..<8]),
      pw_bytes = (\<lambda>s. base128 (length s) @ s),
      pw_ConsumeTag = (\<lambda>b. case take128 b of None \<Rightarrow> (0, 0, -1) | Some (v, k) \<Rightarrow> (int (v div 8), int (v mod 8), int k)),
      pw_ConsumeVarint = (\<lambda>b. case take128 b of None \<Rightarrow> (0, -1) | Some (v, k) \<Rightarrow> (word_of_nat v, int k)),
      pw_ConsumeBytes = demo_bytes,
      pw_ConsumeFieldValue = (\<lambda>n t b. if t = VarintType then (case take128 b of None \<Rightarrow> -1 | Some (v, k) \<Rightarrow> int k)
        else if t = Fixed64Type then (if length b < 8 then -1 else 8) else if t = BytesType then snd (demo_bytes b) else -1),
      pw_ParseError = (\<lambda>k. ErrNew ''parse error'')\<rparr>"

lemma demo_bytes_inverse: "demo_bytes (base128 (length s) @ s @ rest) = (s, int (length (base128 (length s)) + length s))"
  by (simp add: demo_bytes_def take128_base128)

lemma demo_laws: "wire_laws demo_wire"
  unfolding wire_laws_def
proof (intro conjI allI impI)
  fix n t :: int and rest
  assume a: "number_ok n \<and> t \<in> {VarintType, Fixed64Type, BytesType}"
  then have t: "0 \<le> t" "t < 8" and n: "0 \<le> n" by (auto simp: number_ok_def VarintType_def Fixed64Type_def BytesType_def)
  have v: "(nat n * 8 + nat t) div 8 = nat n" "(nat n * 8 + nat t) mod 8 = nat t" using t by simp_all
  show "pw_tag demo_wire n t \<noteq> []" by (simp add: demo_wire_def)
  show "pw_ConsumeTag demo_wire (pw_tag demo_wire n t @ rest) = (n, t, int (length (pw_tag demo_wire n t)))"
    using n t(1) by (simp add: demo_wire_def take128_base128 v del: div_mult_self3 mod_mult_self3)
next
  fix b and n t k :: int
  assume "b \<noteq> [] \<and> pw_ConsumeTag demo_wire b = (n, t, k) \<and> 0 \<le> k"
  then show "1 \<le> k" using take128_positive [of b] by (auto simp: demo_wire_def split: option.splits)
qed (auto simp: demo_wire_def take128_base128 demo_bytes_inverse)

definition sample_call :: chat_tool_call where
  "sample_call = \<lparr>tc_ID = ''c1'', tc_Name = [], tc_ArgumentsJSON = ''{}''\<rparr>"

definition sample_response :: chat_frame where
  "sample_response = empty_frame\<lparr>cf_DeltaText := ''hi'', cf_StopReason := 10, cf_DeltaTokens := 300, cf_DeltaToolCalls := [sample_call, sample_call],
     cf_ActualModelUID := Some []\<rparr>"

theorem messages_roundtrip_witness:
  "(\<exists>b. ChatToolCall_Marshal demo_wire sample_call = Inr b \<and> length b = 8 \<and> ChatToolCall_Unmarshal demo_wire b = Some (Inr sample_call)) \<and>
   length (fields_bytes demo_wire (frame_fields demo_wire sample_response)) = 32 \<and>
   GetChatMessageResponse_Unmarshal demo_wire (fields_bytes demo_wire (frame_fields demo_wire sample_response)) = Some (Inr sample_response)"
proof -
  have "length (fields_bytes demo_wire (tool_call_fields sample_call)) = 8" by code_simp
  moreover have "length (fields_bytes demo_wire (frame_fields demo_wire sample_response)) = 32" by code_simp
  moreover have "0 \<le> cf_StopReason sample_response \<and> cf_StopReason sample_response < 2 ^ 31" "length (cf_DeltaToolCalls sample_response) = 2"
    by code_simp+
  ultimately show ?thesis using messages_roundtrip [OF demo_laws]
    by (simp add: marshalled maxUnmarshalBytes_def maxDeltaToolCalls_def)
qed

theorem frames_decoded_witness:
  "GetChatMessageResponse_Unmarshal demo_wire (fields_bytes demo_wire [(3, WBytes ''hi''), (99, WVarint 7), (3, WBytes ''ho'')]) =
     Some (Inr (empty_frame\<lparr>cf_DeltaText := ''ho''\<rparr>)) \<and>
   (\<exists>r. GetChatMessageResponse_Unmarshal demo_wire ''x'' = Some r) \<and> ''x'' \<noteq> fields_bytes demo_wire []"
proof -
  let ?fs = "[(3, WBytes ''hi''), (99, WVarint 7), (3, WBytes ''ho'')]"
  have "int (length (fields_bytes demo_wire ?fs)) \<le> maxUnmarshalBytes" by code_simp
  moreover have "\<forall>f\<in>set ?fs. number_ok (fst f)" by (simp add: number_ok_def)
  moreover have "apply_fields (frame_step demo_wire) ?fs empty_frame = Inr (empty_frame\<lparr>cf_DeltaText := ''ho''\<rparr>)"
    by (simp add: frame_step_def text_step_def frame_texts_def set_frame_text_def)
  ultimately show ?thesis
    using frames_decoded [OF demo_laws, of "fields_bytes demo_wire ?fs" ?fs] frames_decoded [OF demo_laws, of "''x''" "[]"]
    by (auto simp: fields_bytes_def)
qed

end
