(* ===== verification/Devin_Mapper.thy ===== *)
theory Devin_Mapper
  imports Translate_Chat Devin_Proto
begin

text \<open>
  Devin's answers as canonical events: the stream mapper (\<open>internal/devin/stream_mapper.go\<close>). A mapper event is its kind, its fields and its usage; \<open>Data\<close> is
  the fields marshalled. Errors of \<open>json.Marshal\<close> on the mapper's own fields do not occur.
  \<open>json.Valid\<close> is whether the codec parses.

  Shown: the events of an answer are numbered without gaps, begin with \<open>response.created\<close> and
  end with the terminal event, and the finished answer in the terminal event consists of exactly
  the text, reasoning and tool arguments that were streamed.
\<close>

section \<open>The mapper\<close>

record mapped_tool =
  mt_id :: string
  mt_name :: string
  mt_arguments :: string
  mt_outputIndex :: int
  mt_done :: bool

record mapper =
  sm_selectedModel :: string
  sm_responseID :: string
  sm_actualModel :: string
  sm_maxToolBytes :: int
  sm_created :: bool
  sm_terminal :: bool
  sm_reasoningOpen :: bool
  sm_reasoningDone :: bool
  sm_thinking :: string
  sm_signature :: string
  sm_text :: string
  sm_stop :: int
  sm_usage :: usage
  sm_tools :: "string \<Rightarrow> mapped_tool option"
  sm_toolOrder :: "string list"
  sm_activeTool :: string
  sm_nextOutput :: int
  sm_reasoningIndex :: int
  sm_textIndex :: int
  sm_sequenceNumber :: int
  sm_outputItems :: "int \<Rightarrow> json option"

type_synonym mevent = "string \<times> jobject \<times> usage"
type_synonym 'a mop = "(mapper, go_error, 'a) op"

abbreviation ErrMalformedStream :: go_error where "ErrMalformedStream \<equiv> Sentinel ''malformed Devin stream''"
abbreviation ErrToolArgumentsTooLarge :: go_error where
  "ErrToolArgumentsTooLarge \<equiv> Sentinel ''Devin tool arguments exceed configured limit''"
abbreviation ErrInvalidClientConfig :: go_error where
  "ErrInvalidClientConfig \<equiv> Sentinel ''invalid Devin client configuration''"

definition NewStreamMapper :: "string \<Rightarrow> string \<Rightarrow> int \<Rightarrow> go_error + mapper" where
  "NewStreamMapper selectedModel responseID maxToolArgumentBytes =
     (if trimSpace selectedModel = [] \<or> maxToolArgumentBytes \<le> 0 then Inl ErrInvalidClientConfig
      else Inr \<lparr>sm_selectedModel = selectedModel, sm_responseID = (if responseID = [] then ''devin-response'' else responseID),
        sm_actualModel = [], sm_maxToolBytes = maxToolArgumentBytes, sm_created = False, sm_terminal = False,
        sm_reasoningOpen = False, sm_reasoningDone = False, sm_thinking = [], sm_signature = [], sm_text = [],
        sm_stop = 0, sm_usage = empty_usage, sm_tools = Map.empty, sm_toolOrder = [], sm_activeTool = [],
        sm_nextOutput = 0, sm_reasoningIndex = -1, sm_textIndex = -1, sm_sequenceNumber = 0, sm_outputItems = Map.empty\<rparr>)"

definition model_name :: "mapper \<Rightarrow> string" where
  "model_name m = (if sm_actualModel m \<noteq> [] then sm_actualModel m else sm_selectedModel m)"

definition mapper_event :: "string \<Rightarrow> jobject \<Rightarrow> mevent mop" where
  "mapper_event kind payload m =
     (Inr (kind, jset (jset payload ''type'' (JStr kind)) ''sequence_number'' (JInt (sm_sequenceNumber m)), empty_usage),
      m\<lparr>sm_sequenceNumber := sm_sequenceNumber m + 1\<rparr>)"

text \<open>\<open>if cond { ev := ...; out = append(out, ev) }\<close>.\<close>

definition emit_if :: "(mapper \<Rightarrow> bool) \<Rightarrow> mevent mop \<Rightarrow> mevent list mop" where
  "emit_if P e m = (if P m then andThen e (\<lambda>x. ret [x]) m else (Inr [], m))"

definition reasoningItem :: "mapper \<Rightarrow> json" where
  "reasoningItem m =
     obj [(''type'', JStr ''reasoning''), (''id'', JStr ''reasoning-0''),
          (''summary'', JArr [obj [(''type'', JStr ''summary_text''), (''text'', JStr (sm_thinking m))]]),
          (''encrypted_content'', JStr (sm_signature m))]"

definition finishReasoning :: "mevent mop" where
  "finishReasoning m =
     (let item = reasoningItem m; i = sm_reasoningIndex m in
      mapper_event ''response.output_item.done'' [(''output_index'', JInt i), (''item'', item)]
        (m\<lparr>sm_reasoningOpen := False, sm_reasoningDone := True, sm_outputItems := (sm_outputItems m)(i \<mapsto> item)\<rparr>))"

text \<open>\<open>math.MaxInt64\<close> as an unsigned constant.\<close>

definition max_int64 :: "64 word" where "max_int64 = 0x7FFFFFFFFFFFFFFF"

definition checkedUsage :: "model_usage \<Rightarrow> go_error + usage" where
  "checkedUsage u =
     (if mu_InputTokens u > max_int64 \<or> mu_OutputTokens u > max_int64 \<or> mu_CacheReadTokens u > max_int64 \<or>
         mu_InputTokens u > max_int64 - mu_OutputTokens u
      then Inl ErrMalformedStream
      else Inr \<lparr>us_InputTokens = sint (mu_InputTokens u), us_OutputTokens = sint (mu_OutputTokens u),
                us_TotalTokens = sint (mu_InputTokens u + mu_OutputTokens u), us_CacheReadTokens = sint (mu_CacheReadTokens u)\<rparr>)"

definition created_event :: "mevent mop" where
  "created_event m =
     mapper_event ''response.created''
       [(''response'', obj [(''id'', JStr (sm_responseID m)), (''object'', JStr ''response''),
          (''status'', JStr ''in_progress''), (''model'', JStr (model_name m))])]
       (m\<lparr>sm_created := True\<rparr>)"

text \<open>The assignments at the beginning of \<open>Push\<close>.\<close>

definition note_frame :: "chat_frame \<Rightarrow> mapper \<Rightarrow> mapper" where
  "note_frame frame m =
     m\<lparr>sm_responseID := (if \<not> sm_created m \<and> cf_MessageID frame \<noteq> [] then cf_MessageID frame else sm_responseID m),
       sm_actualModel := (case cf_ActualModelUID frame of None \<Rightarrow> sm_actualModel m
          | Some u \<Rightarrow> if trimSpace u \<noteq> [] then u else sm_actualModel m),
       sm_signature := (if cf_DeltaSignature frame \<noteq> [] then cf_DeltaSignature frame else sm_signature m)\<rparr>"

definition note_outcome :: "chat_frame \<Rightarrow> unit mop" where
  "note_outcome frame m =
     (let m1 = (if cf_StopReason frame \<noteq> StopReasonUnspecified then m\<lparr>sm_stop := cf_StopReason frame\<rparr> else m) in
      case cf_Usage frame of
        None \<Rightarrow> (Inr (), m1)
      | Some u \<Rightarrow> (case checkedUsage u of Inl e \<Rightarrow> (Inl e, m1) | Inr us \<Rightarrow> (Inr (), m1\<lparr>sm_usage := us\<rparr>)))"

definition push_thinking :: "string \<Rightarrow> mevent mop" where
  "push_thinking t m =
     (let m1 = (if sm_reasoningIndex m < 0 then m\<lparr>sm_reasoningIndex := sm_nextOutput m, sm_nextOutput := sm_nextOutput m + 1\<rparr> else m) in
      mapper_event ''response.reasoning_summary_text.delta'' [(''delta'', JStr t)]
        (m1\<lparr>sm_reasoningOpen := True, sm_thinking := sm_thinking m1 @ t\<rparr>))"

definition push_text :: "string \<Rightarrow> mevent mop" where
  "push_text t m =
     (let m1 = (if sm_textIndex m < 0 then m\<lparr>sm_textIndex := sm_nextOutput m, sm_nextOutput := sm_nextOutput m + 1\<rparr> else m) in
      mapper_event ''response.output_text.delta'' [(''delta'', JStr t)] (m1\<lparr>sm_text := sm_text m1 @ t\<rparr>))"

definition reasoning_pending :: "mapper \<Rightarrow> bool" where
  "reasoning_pending m \<longleftrightarrow> sm_reasoningOpen m \<and> \<not> sm_reasoningDone m"

text \<open>A tool call that is new is announced.\<close>

definition announce_tool :: "string \<Rightarrow> string \<Rightarrow> mevent list mop" where
  "announce_tool ident name m =
     (case sm_tools m ident of
        None \<Rightarrow>
          if name = [] then (Inl ErrMalformedStream, m)
          else let i = sm_nextOutput m;
                   t = \<lparr>mt_id = ident, mt_name = name, mt_arguments = [], mt_outputIndex = i, mt_done = False\<rparr> in
            andThen (mapper_event ''response.output_item.added''
                [(''output_index'', JInt i),
                 (''item'', obj [(''type'', JStr ''function_call''), (''id'', JStr ident), (''call_id'', JStr ident),
                   (''name'', JStr name), (''arguments'', JStr [])])]) (\<lambda>x. ret [x])
              (m\<lparr>sm_nextOutput := i + 1, sm_tools := (sm_tools m)(ident \<mapsto> t), sm_toolOrder := sm_toolOrder m @ [ident]\<rparr>)
      | Some t \<Rightarrow> if name \<noteq> [] \<and> name \<noteq> mt_name t then (Inl ErrMalformedStream, m) else (Inr [], m))"

text \<open>Argument text that repeats what has arrived is taken as the accumulated text.\<close>

definition argument_delta :: "string \<Rightarrow> string \<Rightarrow> string" where
  "argument_delta arguments delta = (if hasPrefix delta arguments then drop (length arguments) delta else delta)"

definition add_arguments :: "string \<Rightarrow> string \<Rightarrow> mevent list mop" where
  "add_arguments ident argumentsJSON m =
     (case sm_tools m ident of
        None \<Rightarrow> (Inr [], m)
      | Some t \<Rightarrow>
          let delta = argument_delta (mt_arguments t) argumentsJSON in
          if argumentsJSON = [] \<or> delta = [] then (Inr [], m)
          else if int (length (mt_arguments t)) + int (length delta) > sm_maxToolBytes m then (Inl ErrToolArgumentsTooLarge, m)
          else andThen (mapper_event ''response.function_call_arguments.delta''
                 [(''output_index'', JInt (mt_outputIndex t)), (''item_id'', JStr ident), (''delta'', JStr delta)]) (\<lambda>x. ret [x])
               (m\<lparr>sm_tools := (sm_tools m)(ident \<mapsto> t\<lparr>mt_arguments := mt_arguments t @ delta\<rparr>)\<rparr>))"

definition pushTool :: "chat_tool_call \<Rightarrow> mevent list mop" where
  "pushTool call m =
     (let ident = (if tc_ID call = [] then sm_activeTool m else tc_ID call) in
      if ident = [] then (Inl ErrMalformedStream, m)
      else andThen (announce_tool ident (tc_Name call)) (\<lambda>o1.
           andThen (putState (\<lambda>m. m\<lparr>sm_activeTool := ident\<rparr>)) (\<lambda>_.
           andThen (add_arguments ident (tc_ArgumentsJSON call)) (\<lambda>o2. ret (o1 @ o2)))) m)"

fun push_tools :: "chat_tool_call list \<Rightarrow> mevent list mop" where
  "push_tools [] = ret []"
| "push_tools (call # calls) = andThen (pushTool call) (\<lambda>o1. andThen (push_tools calls) (\<lambda>o2. ret (o1 @ o2)))"

text \<open>\<open>Push\<close> of a frame that is not nil.\<close>

definition mapper_Push :: "chat_frame \<Rightarrow> mevent list mop" where
  "mapper_Push frame m =
     (if sm_terminal m then (Inr [], m)
      else if sm_reasoningDone m \<and> (cf_DeltaThinking frame \<noteq> [] \<or> cf_DeltaSignature frame \<noteq> []) then (Inl ErrMalformedStream, m)
      else andThen (emit_if (\<lambda>m. \<not> sm_created m) created_event) (\<lambda>o1.
           andThen (note_outcome frame) (\<lambda>_.
           andThen (emit_if (\<lambda>_. cf_DeltaThinking frame \<noteq> []) (push_thinking (cf_DeltaThinking frame))) (\<lambda>o2.
           andThen (emit_if (\<lambda>m. cf_DeltaText frame \<noteq> [] \<and> reasoning_pending m) finishReasoning) (\<lambda>o3.
           andThen (emit_if (\<lambda>_. cf_DeltaText frame \<noteq> []) (push_text (cf_DeltaText frame))) (\<lambda>o4.
           andThen (push_tools (cf_DeltaToolCalls frame)) (\<lambda>o5. ret (o1 @ o2 @ o3 @ o4 @ o5)))))))
           (note_frame frame m))"

definition message_item_of :: "mapper \<Rightarrow> json" where
  "message_item_of m =
     obj [(''type'', JStr ''message''), (''id'', JStr ''message-0''), (''role'', JStr ''assistant''), (''status'', JStr ''completed''),
          (''content'', JArr [obj [(''type'', JStr ''output_text''), (''text'', JStr (sm_text m)), (''annotations'', JArr [])]])]"

definition finish_message :: "mevent mop" where
  "finish_message m =
     mapper_event ''response.output_item.done'' [(''output_index'', JInt (sm_textIndex m)), (''item'', message_item_of m)]
       (m\<lparr>sm_outputItems := (sm_outputItems m)(sm_textIndex m \<mapsto> message_item_of m)\<rparr>)"

definition tool_item :: "mapped_tool \<Rightarrow> json" where
  "tool_item t =
     obj [(''type'', JStr ''function_call''), (''id'', JStr (mt_id t)), (''call_id'', JStr (mt_id t)), (''name'', JStr (mt_name t)),
          (''arguments'', JStr (mt_arguments t)), (''status'', JStr ''completed'')]"

definition finish_tool :: "json_codec \<Rightarrow> string \<Rightarrow> mevent list mop" where
  "finish_tool c ident m =
     (case sm_tools m ident of
        None \<Rightarrow> (Inr [], m)
      | Some t \<Rightarrow>
          if jc_parse c (mt_arguments t) = None then (Inl ErrMalformedStream, m)
          else andThen (mapper_event ''response.function_call_arguments.done''
                 [(''output_index'', JInt (mt_outputIndex t)), (''item_id'', JStr ident), (''arguments'', JStr (mt_arguments t))]) (\<lambda>e1.
               andThen (putState (\<lambda>m. m\<lparr>sm_outputItems := (sm_outputItems m)(mt_outputIndex t \<mapsto> tool_item t)\<rparr>)) (\<lambda>_.
               andThen (mapper_event ''response.output_item.done''
                 [(''output_index'', JInt (mt_outputIndex t)), (''item'', tool_item t)]) (\<lambda>e2.
               andThen (putState (\<lambda>m. m\<lparr>sm_tools := (sm_tools m)(ident \<mapsto> t\<lparr>mt_done := True\<rparr>)\<rparr>)) (\<lambda>_. ret [e1, e2])))) m)"

fun finish_tools :: "json_codec \<Rightarrow> string list \<Rightarrow> mevent list mop" where
  "finish_tools c [] = ret []"
| "finish_tools c (ident # ids) = andThen (finish_tool c ident) (\<lambda>o1. andThen (finish_tools c ids) (\<lambda>o2. ret (o1 @ o2)))"

definition final_output :: "mapper \<Rightarrow> json list" where
  "final_output m = concat (map (\<lambda>i. case sm_outputItems m (int i) of None \<Rightarrow> [] | Some v \<Rightarrow> [v]) [0..<nat (sm_nextOutput m)])"

definition final_status :: "int \<Rightarrow> string \<times> string" where
  "final_status stop =
     (if stop = StopReasonMaxTokens then (''incomplete'', ''max_output_tokens'')
      else if stop = StopReasonIncomplete \<or> stop = StopReasonPartial then (''incomplete'', ''incomplete'')
      else if stop = StopReasonContentFilter then (''incomplete'', ''content_filter'')
      else (''completed'', []))"

definition final_response :: "mapper \<Rightarrow> jobject" where
  "final_response m =
     (let u = sm_usage m; st = final_status (sm_stop m) in
      [(''id'', JStr (sm_responseID m)), (''object'', JStr ''response''), (''model'', JStr (model_name m)), (''status'', JStr (fst st)),
       (''output'', JArr (final_output m)),
       (''usage'', obj [(''input_tokens'', JInt (us_InputTokens u)), (''output_tokens'', JInt (us_OutputTokens u)),
          (''total_tokens'', JInt (us_TotalTokens u)),
          (''input_tokens_details'', obj [(''cached_tokens'', JInt (us_CacheReadTokens u))])])] @
      (if snd st \<noteq> [] then [(''incomplete_details'', obj [(''reason'', JStr (snd st))])] else []))"

definition final_event :: "mevent mop" where
  "final_event m =
     andThen (mapper_event (if fst (final_status (sm_stop m)) = ''incomplete'' then ''response.incomplete'' else ''response.completed'')
         [(''response'', JObj (final_response m))]) (\<lambda>e.
     andThen (putState (\<lambda>m. m\<lparr>sm_terminal := True\<rparr>)) (\<lambda>_. ret (fst e, fst (snd e), sm_usage m))) m"

definition store_reasoning :: "mapper \<Rightarrow> mapper" where
  "store_reasoning m =
     (if sm_reasoningIndex m \<ge> 0 then m\<lparr>sm_outputItems := (sm_outputItems m)(sm_reasoningIndex m \<mapsto> reasoningItem m)\<rparr> else m)"

text \<open>\<open>Finalize\<close> of a mapper that is not nil.\<close>

definition mapper_Finalize :: "json_codec \<Rightarrow> mevent list mop" where
  "mapper_Finalize c m =
     (if sm_terminal m then (Inr [], m)
      else if sm_stop m = StopReasonError then (Inl ErrMalformedStream, m)
      else andThen (emit_if (\<lambda>m. \<not> sm_created m) created_event) (\<lambda>o1.
           andThen (emit_if reasoning_pending finishReasoning) (\<lambda>o2.
           andThen (putState store_reasoning) (\<lambda>_.
           andThen (emit_if (\<lambda>m. sm_text m \<noteq> []) finish_message) (\<lambda>o3.
           andThen (getState sm_toolOrder) (\<lambda>ids.
           andThen (finish_tools c ids) (\<lambda>o4.
           andThen final_event (\<lambda>e. ret (o1 @ o2 @ o3 @ o4 @ [e])))))))) m)"

text \<open>The provider events that leave the mapper.\<close>

definition encode_mevent :: "json_codec \<Rightarrow> mevent \<Rightarrow> event" where
  "encode_mevent c e = \<lparr>ev_Event = fst e, ev_Data = jc_print c (JObj (fst (snd e))), ev_Usage = snd (snd e)\<rparr>"


section \<open>Token counts\<close>

text \<open>Accepted counts are exact: nothing is truncated and the sum does not wrap.\<close>

lemma checkedUsage_exact:
  assumes "checkedUsage u = Inr us"
  shows "us_InputTokens us = int (unat (mu_InputTokens u)) \<and> us_OutputTokens us = int (unat (mu_OutputTokens u)) \<and>
    us_TotalTokens us = us_InputTokens us + us_OutputTokens us \<and> us_TotalTokens us < 2 ^ 63"
proof -
  let ?i = "mu_InputTokens u" and ?o = "mu_OutputTokens u"
  from assms have le: "?i \<le> max_int64" "?o \<le> max_int64" "?i \<le> max_int64 - ?o" "mu_CacheReadTokens u \<le> max_int64"
    and us: "us = \<lparr>us_InputTokens = sint ?i, us_OutputTokens = sint ?o, us_TotalTokens = sint (?i + ?o), us_CacheReadTokens = sint (mu_CacheReadTokens u)\<rparr>"
    by (auto simp: checkedUsage_def not_less split: if_splits)
  have max: "uint max_int64 = 2 ^ 63 - 1" by (simp add: max_int64_def)
  have small: "sint w = uint w" if "uint w < 2 ^ 63" for w :: "64 word"
  proof -
    have "- (2 ^ 63) \<le> uint w" by (rule order_trans [OF _ uint_ge_0]) simp
    then have "signed_take_bit 63 (uint w) = uint w" using that by (rule signed_take_bit_int_eq_self)
    then show ?thesis by (simp add: sint_uint)
  qed
  have io: "uint ?i \<le> 2 ^ 63 - 1 - uint ?o"
    using le(2,3) max uint_minus_simple_alt [of ?o max_int64] by (simp add: word_le_def)
  then have sum: "uint (?i + ?o) = uint ?i + uint ?o"
    using uint_add_lem [of ?i ?o] by simp
  have nonneg: "0 \<le> uint ?i" "0 \<le> uint ?o" by simp_all
  from io nonneg have "uint ?i < 2 ^ 63" "uint ?o < 2 ^ 63" by linarith+
  then show ?thesis using small [of ?i] small [of ?o] small [of "?i + ?o"] sum io nonneg by (simp add: us)
qed


section \<open>What was streamed\<close>

definition delta_of :: "string \<Rightarrow> mevent \<Rightarrow> string" where
  "delta_of kind e = (if fst e = kind then str_field (fst (snd e)) ''delta'' else [])"

definition streamed_text :: "mevent list \<Rightarrow> string" where
  "streamed_text evs = concat (map (delta_of ''response.output_text.delta'') evs)"

definition streamed_thinking :: "mevent list \<Rightarrow> string" where
  "streamed_thinking evs = concat (map (delta_of ''response.reasoning_summary_text.delta'') evs)"

definition streamed_arguments :: "string \<Rightarrow> mevent list \<Rightarrow> string" where
  "streamed_arguments ident evs =
     concat (map (delta_of ''response.function_call_arguments.delta'') (filter (\<lambda>e. str_field (fst (snd e)) ''item_id'' = ident) evs))"

definition announced :: "mevent list \<Rightarrow> (string \<times> string) list" where
  "announced evs =
     map (\<lambda>e. let item = obj_field (fst (snd e)) ''item'' in (str_field item ''call_id'', str_field item ''name''))
       (filter (\<lambda>e. fst e = ''response.output_item.added'') evs)"

lemmas streamed_defs = delta_of_def streamed_text_def streamed_thinking_def streamed_arguments_def announced_def

definition numbered :: "mevent list \<Rightarrow> bool" where
  "numbered evs \<longleftrightarrow> map (\<lambda>e. jindex (fst (snd e)) ''sequence_number'') evs = map (\<lambda>i. JInt (int i)) [0..<length evs]"

lemma numbered_snoc [simp]:
  "numbered (evs @ [e]) \<longleftrightarrow> numbered evs \<and> jindex (fst (snd e)) ''sequence_number'' = JInt (int (length evs))"
  by (simp add: numbered_def)

text \<open>The output slots in the order they were opened, the abstract state behind the indexes.\<close>

datatype slot = Reasoning | Message | Tool string

definition position :: "slot \<Rightarrow> slot list \<Rightarrow> int" where
  "position x xs = (if x \<in> set xs then int (length (takeWhile (\<lambda>y. y \<noteq> x) xs)) else -1)"

lemma position_snoc [simp]:
  "x \<in> set xs \<Longrightarrow> position x (xs @ [y]) = position x xs"
  "x \<notin> set xs \<Longrightarrow> position x (xs @ [x]) = int (length xs)"
  "x \<noteq> y \<Longrightarrow> position x (xs @ [y]) = position x xs"
  "position x [] = -1"
  by (auto simp: position_def takeWhile_append takeWhile_eq_all_conv split: if_splits)

lemma position_neg [simp]: "position x xs < 0 \<longleftrightarrow> x \<notin> set xs" "0 \<le> position x xs \<longleftrightarrow> x \<in> set xs"
  by (auto simp: position_def)

lemma position_nth:
  assumes "distinct xs" "i < length xs"
  shows "position (xs ! i) xs = int i"
  using assms
proof (induction xs arbitrary: i)
  case (Cons x xs)
  then show ?case by (cases i) (auto simp: position_def nth_Cons')
qed simp

fun slot_tools :: "slot list \<Rightarrow> string list" where
  "slot_tools [] = []"
| "slot_tools (Tool ident # xs) = ident # slot_tools xs"
| "slot_tools (_ # xs) = slot_tools xs"

lemma slot_tools_append [simp]: "slot_tools (xs @ ys) = slot_tools xs @ slot_tools ys"
  by (induction xs rule: slot_tools.induct) auto

lemma set_slot_tools [simp]: "ident \<in> set (slot_tools xs) \<longleftrightarrow> Tool ident \<in> set xs"
  by (induction xs rule: slot_tools.induct) auto

definition slots_of :: "mapper \<Rightarrow> slot list \<Rightarrow> bool" where
  "slots_of m slots \<longleftrightarrow>
     sm_nextOutput m = int (length slots) \<and> distinct slots \<and> sm_toolOrder m = slot_tools slots \<and>
     sm_reasoningIndex m = position Reasoning slots \<and> sm_textIndex m = position Message slots \<and>
     (Reasoning \<in> set slots \<longleftrightarrow> sm_thinking m \<noteq> []) \<and> (Message \<in> set slots \<longleftrightarrow> sm_text m \<noteq> []) \<and>
     dom (sm_tools m) = {ident. Tool ident \<in> set slots} \<and>
     (\<forall>ident t. sm_tools m ident = Some t \<longrightarrow> mt_id t = ident \<and> mt_outputIndex t = position (Tool ident) slots)"

definition streamed :: "mapper \<Rightarrow> mevent list \<Rightarrow> bool" where
  "streamed m evs \<longleftrightarrow>
     sm_text m = streamed_text evs \<and> sm_thinking m = streamed_thinking evs \<and>
     (\<forall>ident. streamed_arguments ident evs = (case sm_tools m ident of None \<Rightarrow> [] | Some t \<Rightarrow> mt_arguments t)) \<and>
     announced evs = map (\<lambda>ident. (ident, mt_name (the (sm_tools m ident)))) (sm_toolOrder m)"

definition run_of :: "mapper \<Rightarrow> mevent list \<Rightarrow> bool" where
  "run_of m evs \<longleftrightarrow>
     numbered evs \<and> \<not> sm_terminal m \<and> sm_sequenceNumber m = int (length evs) \<and> (sm_created m \<longleftrightarrow> evs \<noteq> []) \<and>
     (evs \<noteq> [] \<longrightarrow> fst (hd evs) = ''response.created'')"

definition mapper_inv :: "mapper \<Rightarrow> mevent list \<Rightarrow> slot list \<Rightarrow> bool" where
  "mapper_inv m evs slots \<longleftrightarrow> slots_of m slots \<and> streamed m evs \<and> run_of m evs"


lemma jindex_literal [simp]: "jindex [] k = JNull" "jindex ((k', v) # m) k = (if k = k' then v else jindex m k)"
  by (auto simp: jindex_def jget_def)

lemma mapper_event_returns [returns_simps]:
  "mapper_event kind payload m = (Inr e, m') \<longleftrightarrow>
     e = (kind, jset (jset payload ''type'' (JStr kind)) ''sequence_number'' (JInt (sm_sequenceNumber m)), empty_usage) \<and>
     m' = m\<lparr>sm_sequenceNumber := sm_sequenceNumber m + 1\<rparr>"
  by (auto simp: mapper_event_def)

lemma emit_if_returns [returns_simps]:
  "emit_if P e m = (Inr out, m') \<longleftrightarrow> (if P m then \<exists>x. e m = (Inr x, m') \<and> out = [x] else out = [] \<and> m' = m)"
  by (auto simp: emit_if_def returns_simps)

lemma putState_returns [returns_simps]: "putState f m = (Inr u, m') \<longleftrightarrow> m' = f m"
  by (auto simp: putState_def)

lemma getState_returns [returns_simps]: "getState f m = (Inr x, m') \<longleftrightarrow> x = f m \<and> m' = m"
  by (auto simp: getState_def)

text \<open>What one more event adds to the views.\<close>

lemma streamed_nil [simp]:
  "streamed_text [] = []" "streamed_thinking [] = []" "streamed_arguments ident [] = []" "announced [] = []"
  by (simp_all add: streamed_defs)

lemma streamed_snoc [simp]:
  "streamed_text (evs @ [e]) = streamed_text evs @ delta_of ''response.output_text.delta'' e"
  "streamed_thinking (evs @ [e]) = streamed_thinking evs @ delta_of ''response.reasoning_summary_text.delta'' e"
  "streamed_arguments ident (evs @ [e]) = streamed_arguments ident evs @
     (if str_field (fst (snd e)) ''item_id'' = ident then delta_of ''response.function_call_arguments.delta'' e else [])"
  "announced (evs @ [e]) = announced evs @ (if fst e = ''response.output_item.added''
     then [(str_field (obj_field (fst (snd e)) ''item'') ''call_id'', str_field (obj_field (fst (snd e)) ''item'') ''name'')] else [])"
  by (simp_all add: streamed_defs Let_def)

text \<open>Events that carry no content.\<close>

definition silent :: "mevent \<Rightarrow> bool" where
  "silent e \<longleftrightarrow> fst e \<notin> {''response.output_text.delta'', ''response.reasoning_summary_text.delta'',
     ''response.function_call_arguments.delta'', ''response.output_item.added''}"

lemma silent_streamed [simp]: "silent e \<Longrightarrow> streamed m (evs @ [e]) = streamed m evs"
  by (simp add: silent_def streamed_def delta_of_def)

lemma run_of_snoc:
  assumes "run_of m evs" "evs \<noteq> []" "jindex (fst (snd e)) ''sequence_number'' = JInt (sm_sequenceNumber m)"
    "sm_sequenceNumber m' = sm_sequenceNumber m + 1" "sm_created m' = sm_created m" "sm_terminal m' = sm_terminal m"
  shows "run_of m' (evs @ [e])"
  using assms by (simp add: run_of_def)

text \<open>The events between the first and the last one, one lemma per operation.\<close>

lemma created_event_inv:
  assumes "mapper_inv m [] slots" "created_event m = (Inr e, m')"
  shows "mapper_inv m' [e] slots"
proof -
  from assms(2) have e: "fst e = ''response.created''" "jindex (fst (snd e)) ''sequence_number'' = JInt (sm_sequenceNumber m)"
    and m': "m' = m\<lparr>sm_created := True, sm_sequenceNumber := sm_sequenceNumber m + 1\<rparr>"
    by (simp_all add: created_event_def returns_simps)
  have "silent e" by (simp add: silent_def e)
  moreover have "streamed m' [] = streamed m []" "slots_of m' slots = slots_of m slots"
    by (simp_all add: m' streamed_def slots_of_def)
  ultimately show ?thesis using assms(1) e silent_streamed [of e m' "[]"]
    by (simp add: mapper_inv_def run_of_def numbered_def m')
qed

lemma note_frame_inv [simp]: "mapper_inv (note_frame frame m) evs slots = mapper_inv m evs slots"
  by (simp add: note_frame_def mapper_inv_def slots_of_def streamed_def run_of_def)

lemma note_frame_created [simp]: "sm_created (note_frame frame m) = sm_created m" "sm_terminal (note_frame frame m) = sm_terminal m"
  by (simp_all add: note_frame_def)

lemma outcome_fields_inv [simp]:
  "mapper_inv (m\<lparr>sm_stop := st\<rparr>) evs slots = mapper_inv m evs slots"
  "mapper_inv (m\<lparr>sm_usage := us\<rparr>) evs slots = mapper_inv m evs slots"
  "mapper_inv (m\<lparr>sm_activeTool := ident\<rparr>) evs slots = mapper_inv m evs slots"
  by (simp_all add: mapper_inv_def slots_of_def streamed_def run_of_def)

lemma note_outcome_inv:
  assumes "note_outcome frame m = (Inr u, m')"
  shows "mapper_inv m' evs slots = mapper_inv m evs slots"
  using assms by (auto simp: note_outcome_def Let_def split: option.splits sum.splits if_splits)

lemma finishReasoning_inv:
  assumes "finishReasoning m = (Inr e, m')" "mapper_inv m evs slots" "evs \<noteq> []"
  shows "mapper_inv m' (evs @ [e]) slots"
proof -
  from assms(1) have e: "silent e" "jindex (fst (snd e)) ''sequence_number'' = JInt (sm_sequenceNumber m)"
    and m': "sm_sequenceNumber m' = sm_sequenceNumber m + 1" "sm_created m' = sm_created m" "sm_terminal m' = sm_terminal m"
      "streamed m' evs = streamed m evs" "slots_of m' slots = slots_of m slots"
    by (auto simp: finishReasoning_def Let_def returns_simps silent_def streamed_def slots_of_def)
  then show ?thesis using assms(2,3) by (auto simp: mapper_inv_def intro: run_of_snoc)
qed

lemma push_thinking_inv:
  assumes "push_thinking t m = (Inr e, m')" "mapper_inv m evs slots" "t \<noteq> []" "evs \<noteq> []"
  shows "\<exists>slots'. mapper_inv m' (evs @ [e]) slots'"
proof -
  let ?slots = "if Reasoning \<in> set slots then slots else slots @ [Reasoning]"
  have ix: "sm_reasoningIndex m < 0 \<longleftrightarrow> Reasoning \<notin> set slots" using assms(2) by (simp add: mapper_inv_def slots_of_def)
  from assms(1) have "run_of m' (evs @ [e])"
    using assms(2,4) by (intro run_of_snoc [of m]) (auto simp: push_thinking_def Let_def returns_simps mapper_inv_def)
  moreover have "streamed m' (evs @ [e])"
    using assms by (simp add: push_thinking_def Let_def returns_simps mapper_inv_def streamed_def delta_of_def)
  moreover have "slots_of m' ?slots"
    using assms ix by (auto simp: push_thinking_def Let_def returns_simps mapper_inv_def slots_of_def)
  ultimately show ?thesis unfolding mapper_inv_def by blast
qed

lemma push_text_inv:
  assumes "push_text t m = (Inr e, m')" "mapper_inv m evs slots" "t \<noteq> []" "evs \<noteq> []"
  shows "\<exists>slots'. mapper_inv m' (evs @ [e]) slots'"
proof -
  let ?slots = "if Message \<in> set slots then slots else slots @ [Message]"
  have ix: "sm_textIndex m < 0 \<longleftrightarrow> Message \<notin> set slots" using assms(2) by (simp add: mapper_inv_def slots_of_def)
  from assms(1) have "run_of m' (evs @ [e])"
    using assms(2,4) by (intro run_of_snoc [of m]) (auto simp: push_text_def Let_def returns_simps mapper_inv_def)
  moreover have "streamed m' (evs @ [e])"
    using assms by (simp add: push_text_def Let_def returns_simps mapper_inv_def streamed_def delta_of_def)
  moreover have "slots_of m' ?slots"
    using assms ix by (auto simp: push_text_def Let_def returns_simps mapper_inv_def slots_of_def)
  ultimately show ?thesis unfolding mapper_inv_def by blast
qed

lemma new_tool_inv:
  assumes "sm_tools m ident = None" "mapper_inv m evs slots" "evs \<noteq> []"
    and "announce_tool ident name m = (Inr out, m')"
  shows "mapper_inv m' (evs @ out) (slots @ [Tool ident])"
proof -
  define t where "t = \<lparr>mt_id = ident, mt_name = name, mt_arguments = [], mt_outputIndex = sm_nextOutput m, mt_done = False\<rparr>"
  from assms(1,4) obtain e where out: "out = [e]" and e: "fst e = ''response.output_item.added''"
      "jindex (fst (snd e)) ''sequence_number'' = JInt (sm_sequenceNumber m)"
      "str_field (obj_field (fst (snd e)) ''item'') ''call_id'' = ident" "str_field (obj_field (fst (snd e)) ''item'') ''name'' = name"
    and m': "m' = m\<lparr>sm_nextOutput := sm_nextOutput m + 1, sm_tools := (sm_tools m)(ident \<mapsto> t),
      sm_toolOrder := sm_toolOrder m @ [ident], sm_sequenceNumber := sm_sequenceNumber m + 1\<rparr>"
    by (auto simp: announce_tool_def Let_def returns_simps t_def split: if_splits)
  have new: "Tool ident \<notin> set slots" "ident \<notin> set (sm_toolOrder m)"
    using assms(1,2) by (auto simp: mapper_inv_def slots_of_def)
  have "run_of m' (evs @ out)"
    unfolding out using assms(2,3) e(2) by (intro run_of_snoc [of m]) (simp_all add: mapper_inv_def m')
  moreover have "streamed m' (evs @ out)"
    using assms(1,2) new e by (auto simp: out m' t_def mapper_inv_def streamed_def delta_of_def)
  moreover have "slots_of m' (slots @ [Tool ident])"
    using assms(1,2) new by (auto simp: m' t_def mapper_inv_def slots_of_def)
  ultimately show ?thesis by (simp add: mapper_inv_def)
qed

lemma announce_tool_inv:
  assumes "announce_tool ident name m = (Inr out, m')" "mapper_inv m evs slots" "evs \<noteq> []"
  shows "\<exists>slots'. mapper_inv m' (evs @ out) slots'"
proof (cases "sm_tools m ident")
  case None
  then show ?thesis using new_tool_inv assms by blast
next
  case (Some t)
  then show ?thesis using assms by (auto simp: announce_tool_def split: if_splits)
qed

lemma slots_sequenceNumber [simp]: "slots_of (m\<lparr>sm_sequenceNumber := n\<rparr>) slots = slots_of m slots"
  by (simp add: slots_of_def)

lemma tool_update_slots:
  assumes "sm_tools m ident = Some t" "mt_id t' = mt_id t" "mt_outputIndex t' = mt_outputIndex t"
  shows "slots_of (m\<lparr>sm_tools := (sm_tools m)(ident \<mapsto> t')\<rparr>) slots = slots_of m slots"
proof -
  have dom: "dom ((sm_tools m)(ident \<mapsto> t')) = dom (sm_tools m)" using assms(1) by auto
  have each: "(\<forall>i u. ((sm_tools m)(ident \<mapsto> t')) i = Some u \<longrightarrow> mt_id u = i \<and> mt_outputIndex u = position (Tool i) slots) \<longleftrightarrow>
    (\<forall>i u. sm_tools m i = Some u \<longrightarrow> mt_id u = i \<and> mt_outputIndex u = position (Tool i) slots)"
    using assms by (metis fun_upd_apply option.inject)
  show ?thesis by (simp add: slots_of_def dom each del: dom_fun_upd fun_upd_apply)
qed

lemma add_arguments_inv:
  assumes "add_arguments ident args m = (Inr out, m')" "mapper_inv m evs slots" "evs \<noteq> []"
  shows "mapper_inv m' (evs @ out) slots"
proof (cases "out = []")
  case True
  then show ?thesis using assms by (auto simp: add_arguments_def Let_def returns_simps split: option.splits if_splits)
next
  case False
  then obtain t where t: "sm_tools m ident = Some t" using assms(1) by (cases "sm_tools m ident") (auto simp: add_arguments_def)
  define d where "d = argument_delta (mt_arguments t) args"
  define e where "e = (''response.function_call_arguments.delta'',
    jset (jset [(''output_index'', JInt (mt_outputIndex t)), (''item_id'', JStr ident), (''delta'', JStr d)]
      ''type'' (JStr ''response.function_call_arguments.delta'')) ''sequence_number'' (JInt (sm_sequenceNumber m)), empty_usage)"
  have e: "fst e = ''response.function_call_arguments.delta''" "str_field (fst (snd e)) ''item_id'' = ident"
      "str_field (fst (snd e)) ''delta'' = d" "jindex (fst (snd e)) ''sequence_number'' = JInt (sm_sequenceNumber m)"
    by (simp_all add: e_def)
  have out: "out = [e]"
    and m': "m' = m\<lparr>sm_tools := (sm_tools m)(ident \<mapsto> t\<lparr>mt_arguments := mt_arguments t @ d\<rparr>), sm_sequenceNumber := sm_sequenceNumber m + 1\<rparr>"
    using assms(1) False t by (simp_all add: add_arguments_def Let_def returns_simps d_def e_def split: if_splits)
  have "run_of m' (evs @ out)"
    unfolding out using assms(2,3) e by (intro run_of_snoc [of m]) (simp_all add: mapper_inv_def m')
  moreover have "streamed m' (evs @ out)"
    using assms(2) e t by (simp add: out m' mapper_inv_def streamed_def delta_of_def)
  moreover have "slots_of m' slots"
    using assms(2) tool_update_slots [OF t, of "t\<lparr>mt_arguments := mt_arguments t @ d\<rparr>" slots]
    by (simp add: m' mapper_inv_def)
  ultimately show ?thesis by (simp add: mapper_inv_def)
qed

lemma pushTool_inv:
  assumes "pushTool call m = (Inr out, m')" "mapper_inv m evs slots" "evs \<noteq> []"
  shows "\<exists>slots'. mapper_inv m' (evs @ out) slots'"
proof -
  obtain ident o1 m1 o2 where 1: "announce_tool ident (tc_Name call) m = (Inr o1, m1)"
    and 2: "add_arguments ident (tc_ArgumentsJSON call) (m1\<lparr>sm_activeTool := ident\<rparr>) = (Inr o2, m')" and out: "out = o1 @ o2"
    using assms(1) by (auto simp: pushTool_def Let_def returns_simps split: if_splits)
  obtain slots1 where "mapper_inv m1 (evs @ o1) slots1" using announce_tool_inv [OF 1 assms(2,3)] by blast
  then have "mapper_inv m' ((evs @ o1) @ o2) slots1" using add_arguments_inv [OF 2, of "evs @ o1" slots1] assms(3) by simp
  then show ?thesis by (auto simp: out)
qed

lemma push_tools_inv:
  assumes "push_tools calls m = (Inr out, m')" "mapper_inv m evs slots" "evs \<noteq> []"
  shows "\<exists>slots'. mapper_inv m' (evs @ out) slots'"
  using assms
proof (induction calls arbitrary: m evs slots out)
  case (Cons call calls)
  obtain o1 m1 o2 where 1: "pushTool call m = (Inr o1, m1)" and 2: "push_tools calls m1 = (Inr o2, m')" and out: "out = o1 @ o2"
    using Cons.prems(1) by (auto simp: returns_simps)
  obtain slots1 where "mapper_inv m1 (evs @ o1) slots1" using pushTool_inv [OF 1 Cons.prems(2,3)] by blast
  then have "\<exists>slots'. mapper_inv m' ((evs @ o1) @ o2) slots'" using Cons.IH [OF 2] Cons.prems(3) by blast
  then show ?case by (simp add: out)
qed (auto simp: returns_simps)

text \<open>A run step that only happens under a condition.\<close>

lemma emit_if_inv:
  assumes "emit_if P op m = (Inr out, m')" "mapper_inv m evs slots"
    and "\<And>e m'. P m \<Longrightarrow> op m = (Inr e, m') \<Longrightarrow> \<exists>slots'. mapper_inv m' (evs @ [e]) slots'"
  shows "\<exists>slots'. mapper_inv m' (evs @ out) slots'"
  using assms by (auto simp: emit_if_returns split: if_splits)

lemma emit_created_inv:
  assumes "emit_if (\<lambda>m. \<not> sm_created m) created_event m = (Inr out, m')" "mapper_inv m evs slots"
  shows "mapper_inv m' (evs @ out) slots \<and> evs @ out \<noteq> []"
proof (cases "sm_created m")
  case True
  then show ?thesis using assms by (auto simp: emit_if_returns mapper_inv_def run_of_def)
next
  case False
  then have "evs = []" using assms(2) by (simp add: mapper_inv_def run_of_def)
  with assms False show ?thesis by (auto simp: emit_if_returns created_event_inv)
qed

lemma mapper_Push_inv:
  assumes "mapper_Push frame m = (Inr out, m')" "mapper_inv m evs slots"
  shows "\<exists>slots'. mapper_inv m' (evs @ out) slots'"
proof (cases "sm_terminal m")
  case True
  then show ?thesis using assms by (auto simp: mapper_Push_def)
next
  case False
  then obtain o1 m1 m2 o2 m3 o3 m4 o4 m5 o5 where
    1: "emit_if (\<lambda>m. \<not> sm_created m) created_event (note_frame frame m) = (Inr o1, m1)"
    and 2: "note_outcome frame m1 = (Inr (), m2)"
    and 3: "emit_if (\<lambda>_. cf_DeltaThinking frame \<noteq> []) (push_thinking (cf_DeltaThinking frame)) m2 = (Inr o2, m3)"
    and 4: "emit_if (\<lambda>m. cf_DeltaText frame \<noteq> [] \<and> reasoning_pending m) finishReasoning m3 = (Inr o3, m4)"
    and 5: "emit_if (\<lambda>_. cf_DeltaText frame \<noteq> []) (push_text (cf_DeltaText frame)) m4 = (Inr o4, m5)"
    and 6: "push_tools (cf_DeltaToolCalls frame) m5 = (Inr o5, m')"
    and out: "out = o1 @ o2 @ o3 @ o4 @ o5"
    using assms(1) by (auto simp: mapper_Push_def andThen_returns ret_returns split: if_splits)
  have i1: "mapper_inv m1 (evs @ o1) slots" and ne: "evs @ o1 \<noteq> []"
    using emit_created_inv [OF 1] assms(2) by auto
  have i2: "mapper_inv m2 (evs @ o1) slots" using note_outcome_inv [OF 2] i1 by simp
  obtain s3 where i3: "mapper_inv m3 ((evs @ o1) @ o2) s3"
    using emit_if_inv [OF 3 i2] push_thinking_inv i2 ne by blast
  obtain s4 where i4: "mapper_inv m4 (((evs @ o1) @ o2) @ o3) s4"
    using emit_if_inv [OF 4 i3] finishReasoning_inv i3 ne by (metis append_is_Nil_conv)
  obtain s5 where i5: "mapper_inv m5 ((((evs @ o1) @ o2) @ o3) @ o4) s5"
    using emit_if_inv [OF 5 i4] push_text_inv i4 ne by (metis append_is_Nil_conv)
  show ?thesis using push_tools_inv [OF 6 i5] ne by (auto simp: out)
qed

text \<open>\<open>Finalize\<close>: the output items of the slots that are finished.\<close>

definition slot_item :: "mapper \<Rightarrow> slot \<Rightarrow> json" where
  "slot_item m x = (case x of Reasoning \<Rightarrow> reasoningItem m | Message \<Rightarrow> message_item_of m | Tool ident \<Rightarrow> tool_item (the (sm_tools m ident)))"

definition filled :: "mapper \<Rightarrow> slot list \<Rightarrow> slot set \<Rightarrow> bool" where
  "filled m slots S \<longleftrightarrow> (\<forall>x\<in>set slots \<inter> S. sm_outputItems m (position x slots) = Some (slot_item m x))"

lemma position_inj: "x \<in> set xs \<Longrightarrow> y \<in> set xs \<Longrightarrow> position x xs = position y xs \<Longrightarrow> x = y"
proof (induction xs)
  case (Cons z xs)
  then show ?case by (auto simp: position_def split: if_splits)
qed simp

lemma filled_step:
  assumes "filled m slots S" "\<And>y. slot_item m' y = slot_item m y"
    and "sm_outputItems m' = (sm_outputItems m)(position x slots \<mapsto> slot_item m x)"
  shows "filled m' slots (insert x S)"
  unfolding filled_def
proof (intro ballI)
  fix y assume y: "y \<in> set slots \<inter> insert x S"
  show "sm_outputItems m' (position y slots) = Some (slot_item m' y)"
  proof (cases "position y slots = position x slots")
    case True
    then have "y = x" using y position_neg(2) [of x slots] position_neg(2) [of y slots] position_inj [of y slots x] by (cases "x \<in> set slots") auto
    then show ?thesis by (simp add: assms(2,3))
  next
    case False
    then have "y \<in> set slots \<inter> S" using y by auto
    then show ?thesis using False assms by (auto simp: filled_def)
  qed
qed

lemma final_output_filled:
  assumes "slots_of m slots" "filled m slots S" "set slots \<subseteq> S"
  shows "final_output m = map (slot_item m) slots"
proof -
  have len: "nat (sm_nextOutput m) = length slots" and "distinct slots" using assms(1) by (auto simp: slots_of_def)
  then have at: "sm_outputItems m (int i) = Some (slot_item m (slots ! i))" if "i < length slots" for i
    using that assms(2,3) position_nth [of slots i] nth_mem [of i slots] unfolding filled_def by (metis IntI subsetD)
  have "final_output m = concat (map (\<lambda>i. [slot_item m (slots ! i)]) [0..<length slots])"
    unfolding final_output_def len by (intro arg_cong [where f = concat] map_cong) (simp_all add: at)
  also have "\<dots> = map (slot_item m) (map ((!) slots) [0..<length slots])" by (simp add: comp_def)
  finally show ?thesis by (simp only: map_nth)
qed

lemma slot_item_cong:
  assumes "sm_thinking m' = sm_thinking m" "sm_signature m' = sm_signature m" "sm_text m' = sm_text m"
    and "\<And>ident. tool_item (the (sm_tools m' ident)) = tool_item (the (sm_tools m ident))"
  shows "slot_item m' x = slot_item m x"
  using assms by (simp add: slot_item_def reasoningItem_def message_item_of_def split: slot.split)

lemma outputItems_inv [simp]: "mapper_inv (m\<lparr>sm_outputItems := f\<rparr>) evs slots = mapper_inv m evs slots"
  by (simp add: mapper_inv_def slots_of_def streamed_def run_of_def)

lemma silent_event_inv:
  assumes "mapper_event kind payload m = (Inr e, m')" "mapper_inv m evs slots" "evs \<noteq> []" "silent (kind, [], empty_usage)"
  shows "mapper_inv m' (evs @ [e]) slots \<and> sm_outputItems m' = sm_outputItems m \<and> sm_tools m' = sm_tools m \<and>
    (\<forall>x. slot_item m' x = slot_item m x)"
proof -
  from assms(1,4) have e: "silent e" "jindex (fst (snd e)) ''sequence_number'' = JInt (sm_sequenceNumber m)"
    and m': "m' = m\<lparr>sm_sequenceNumber := sm_sequenceNumber m + 1\<rparr>"
    by (simp_all add: returns_simps silent_def)
  have "run_of m' (evs @ [e])" using assms(2,3) e(2) by (intro run_of_snoc [of m]) (simp_all add: mapper_inv_def m')
  moreover have "streamed m' evs = streamed m evs" by (simp add: m' streamed_def)
  moreover have "slot_item m' x = slot_item m x" for x by (rule slot_item_cong) (simp_all add: m')
  moreover have "sm_outputItems m' = sm_outputItems m" "sm_tools m' = sm_tools m" by (simp_all add: m')
  moreover have "slots_of m' slots = slots_of m slots" by (simp add: m')
  ultimately show ?thesis using assms(2) e(1) by (simp add: mapper_inv_def)
qed

lemma finish_message_inv:
  assumes "finish_message m = (Inr e, m')" "mapper_inv m evs slots" "evs \<noteq> []" "filled m slots S"
  shows "mapper_inv m' (evs @ [e]) slots \<and> filled m' slots (insert Message S)"
proof -
  let ?m = "m\<lparr>sm_outputItems := (sm_outputItems m)(sm_textIndex m \<mapsto> message_item_of m)\<rparr>"
  have 1: "mapper_inv m' (evs @ [e]) slots" "sm_outputItems m' = sm_outputItems ?m" "\<And>x. slot_item m' x = slot_item ?m x"
    using silent_event_inv [OF assms(1) [unfolded finish_message_def], of evs slots] assms(2,3) by (simp_all add: silent_def)
  have "slot_item m' x = slot_item m x" for x unfolding 1(3) by (rule slot_item_cong) simp_all
  moreover have "sm_textIndex m = position Message slots" using assms(2) by (simp add: mapper_inv_def slots_of_def)
  ultimately have "filled m' slots (insert Message S)"
    using assms(4) by (intro filled_step [of m]) (simp_all add: 1(2) slot_item_def)
  with 1(1) show ?thesis by simp
qed

lemma tool_done_inv:
  assumes "sm_tools m ident = Some t" "m' = m\<lparr>sm_tools := (sm_tools m)(ident \<mapsto> t\<lparr>mt_done := True\<rparr>)\<rparr>"
  shows "mapper_inv m' evs slots = mapper_inv m evs slots" "slot_item m' x = slot_item m x"
proof -
  have args: "(case sm_tools m' i of None \<Rightarrow> [] | Some u \<Rightarrow> mt_arguments u) = (case sm_tools m i of None \<Rightarrow> [] | Some u \<Rightarrow> mt_arguments u)"
    and names: "mt_name (the (sm_tools m' i)) = mt_name (the (sm_tools m i))" for i
    using assms by simp_all
  have rest: "sm_text m' = sm_text m" "sm_thinking m' = sm_thinking m" "sm_toolOrder m' = sm_toolOrder m"
    by (simp_all add: assms(2))
  have "streamed m' evs = streamed m evs" unfolding streamed_def args names rest by (rule refl)
  moreover have "run_of m' evs = run_of m evs" by (simp add: assms(2) run_of_def)
  ultimately show "mapper_inv m' evs slots = mapper_inv m evs slots"
    using tool_update_slots [OF assms(1), of "t\<lparr>mt_done := True\<rparr>"] by (simp add: mapper_inv_def assms(2))
  show "slot_item m' x = slot_item m x" using assms by (intro slot_item_cong) (auto simp: tool_item_def)
qed

lemma finish_tool_inv:
  assumes "finish_tool c ident m = (Inr out, m')" "mapper_inv m evs slots" "evs \<noteq> []" "filled m slots S" "Tool ident \<in> set slots"
  shows "mapper_inv m' (evs @ out) slots \<and> filled m' slots (insert (Tool ident) S)"
proof -
  have "ident \<in> dom (sm_tools m)" using assms(2,5) by (simp add: mapper_inv_def slots_of_def)
  then obtain t where t: "sm_tools m ident = Some t" by blast
  then have ix: "mt_outputIndex t = position (Tool ident) slots" using assms(2) by (simp add: mapper_inv_def slots_of_def)
  from assms(1) t obtain e1 m1 e2 m3 where
    1: "mapper_event ''response.function_call_arguments.done''
      [(''output_index'', JInt (mt_outputIndex t)), (''item_id'', JStr ident), (''arguments'', JStr (mt_arguments t))] m = (Inr e1, m1)"
    and 2: "mapper_event ''response.output_item.done'' [(''output_index'', JInt (mt_outputIndex t)), (''item'', tool_item t)]
      (m1\<lparr>sm_outputItems := (sm_outputItems m1)(mt_outputIndex t \<mapsto> tool_item t)\<rparr>) = (Inr e2, m3)"
    and m': "m' = m3\<lparr>sm_tools := (sm_tools m3)(ident \<mapsto> t\<lparr>mt_done := True\<rparr>)\<rparr>" and out: "out = [e1, e2]"
    by (auto simp: finish_tool_def andThen_returns putState_returns ret_returns split: if_splits)
  let ?m2 = "m1\<lparr>sm_outputItems := (sm_outputItems m1)(mt_outputIndex t \<mapsto> tool_item t)\<rparr>"
  have i1: "mapper_inv m1 (evs @ [e1]) slots" "sm_outputItems m1 = sm_outputItems m" "sm_tools m1 = sm_tools m" "\<And>x. slot_item m1 x = slot_item m x"
    using silent_event_inv [OF 1 assms(2,3)] by (simp_all add: silent_def)
  have sm: "slot_item ?m2 x = slot_item m1 x" for x by (rule slot_item_cong) simp_all
  have i2: "mapper_inv m3 ((evs @ [e1]) @ [e2]) slots" "sm_outputItems m3 = (sm_outputItems m)(mt_outputIndex t \<mapsto> tool_item t)"
    "sm_tools m3 = sm_tools m" "\<And>x. slot_item m3 x = slot_item m x"
    using silent_event_inv [OF 2, of "evs @ [e1]" slots] i1 sm by (simp_all add: silent_def)
  have td: "mapper_inv m' ((evs @ [e1]) @ [e2]) slots" "\<And>x. slot_item m' x = slot_item m x"
    using tool_done_inv [OF _ m'] i2 t by simp_all
  moreover have "filled m' slots (insert (Tool ident) S)"
    using assms(4) td(2) by (intro filled_step [of m]) (simp_all add: m' i2(2) ix slot_item_def t)
  ultimately show ?thesis by (simp add: out)
qed

lemma finish_tools_inv:
  assumes "finish_tools c ids m = (Inr out, m')" "mapper_inv m evs slots" "evs \<noteq> []" "filled m slots S" "Tool ` set ids \<subseteq> set slots"
  shows "mapper_inv m' (evs @ out) slots \<and> filled m' slots (S \<union> Tool ` set ids)"
  using assms
proof (induction ids arbitrary: m evs out S)
  case (Cons ident ids)
  obtain o1 m1 o2 where 1: "finish_tool c ident m = (Inr o1, m1)" and 2: "finish_tools c ids m1 = (Inr o2, m')" and out: "out = o1 @ o2"
    using Cons.prems(1) by (auto simp: returns_simps)
  have "mapper_inv m1 (evs @ o1) slots \<and> filled m1 slots (insert (Tool ident) S)"
    using finish_tool_inv [OF 1] Cons.prems by simp
  then show ?case using Cons.IH [OF 2, of "evs @ o1" "insert (Tool ident) S"] Cons.prems by (simp add: out)
qed (auto simp: returns_simps)

text \<open>\<open>reasoningIndex >= 0\<close> stores the reasoning item once more.\<close>

lemma store_reasoning_inv:
  assumes "mapper_inv m evs slots"
  defines "m' \<equiv> store_reasoning m"
  shows "mapper_inv m' evs slots \<and> filled m' slots {Reasoning}"
proof -
  have ix: "sm_reasoningIndex m = position Reasoning slots" using assms(1) by (simp add: mapper_inv_def slots_of_def)
  have sm: "slot_item m' x = slot_item m x" for x unfolding m'_def store_reasoning_def by (rule slot_item_cong) simp_all
  have "filled m' slots {Reasoning}"
  proof (cases "Reasoning \<in> set slots")
    case True
    then have "sm_outputItems m' = (sm_outputItems m)(position Reasoning slots \<mapsto> slot_item m Reasoning)"
      by (simp add: m'_def store_reasoning_def ix slot_item_def)
    then show ?thesis using filled_step [of m slots "{}" m' Reasoning] sm by (simp add: filled_def)
  qed (simp add: filled_def)
  moreover have "mapper_inv m' evs slots" using assms(1) by (simp add: m'_def store_reasoning_def)
  ultimately show ?thesis by simp
qed

definition terminal_kinds :: "string list" where "terminal_kinds = [''response.completed'', ''response.incomplete'']"

lemma final_event_inv:
  assumes "final_event m = (Inr e, m')" "mapper_inv m evs slots" "evs \<noteq> []"
  shows "streamed m (evs @ [e]) \<and> numbered (evs @ [e]) \<and> fst e \<in> set terminal_kinds \<and>
    jindex (fst (snd e)) ''response'' = JObj (final_response m) \<and> sm_terminal m'"
proof -
  define kind where "kind = (if fst (final_status (sm_stop m)) = ''incomplete'' then ''response.incomplete'' else ''response.completed'')"
  then have kind: "kind \<in> set terminal_kinds" by (simp add: terminal_kinds_def)
  obtain m1 e1 where 1: "mapper_event kind [(''response'', JObj (final_response m))] m = (Inr e1, m1)"
    and e: "e = (fst e1, fst (snd e1), sm_usage m)" and m': "m' = m1\<lparr>sm_terminal := True\<rparr>"
    using assms(1) unfolding final_event_def andThen_returns putState_returns ret_returns kind_def by blast
  have f: "fst e = kind" "jindex (fst (snd e)) ''sequence_number'' = JInt (sm_sequenceNumber m)"
    "jindex (fst (snd e)) ''response'' = JObj (final_response m)"
    using 1 by (simp_all add: e returns_simps)
  have "silent e" using kind f(1) by (auto simp: silent_def terminal_kinds_def)
  then show ?thesis using assms(2,3) f kind by (simp add: mapper_inv_def run_of_def m')
qed

text \<open>A finished run ends with a terminal event made of the finished slots.\<close>

lemma mapper_Finalize_inv:
  assumes "mapper_Finalize c m = (Inr out, m')" "mapper_inv m evs slots"
  shows "\<exists>m1 e out1. out = out1 @ [e] \<and> mapper_inv m1 (evs @ out1) slots \<and> evs @ out1 \<noteq> [] \<and>
    final_output m1 = map (slot_item m1) slots \<and> final_event m1 = (Inr e, m')"
proof -
  have nt: "\<not> sm_terminal m" using assms(2) by (simp add: mapper_inv_def run_of_def)
  obtain o1 m1 o2 m2 o3 m4 o4 m5 e where
    1: "emit_if (\<lambda>m. \<not> sm_created m) created_event m = (Inr o1, m1)"
    and 2: "emit_if reasoning_pending finishReasoning m1 = (Inr o2, m2)"
    and 3: "emit_if (\<lambda>m. sm_text m \<noteq> []) finish_message (store_reasoning m2) = (Inr o3, m4)"
    and 4: "finish_tools c (sm_toolOrder m4) m4 = (Inr o4, m5)"
    and 5: "final_event m5 = (Inr e, m')" and out: "out = o1 @ o2 @ o3 @ o4 @ [e]"
    using assms(1) nt unfolding mapper_Finalize_def
    by (simp only: andThen_returns putState_returns getState_returns ret_returns if_False split: if_splits) blast+
  have i1: "mapper_inv m1 (evs @ o1) slots" and ne: "evs @ o1 \<noteq> []" using emit_created_inv [OF 1 assms(2)] by auto
  have i2: "mapper_inv m2 ((evs @ o1) @ o2) slots"
    using 2 i1 finishReasoning_inv [OF _ i1 ne] by (auto simp: emit_if_returns split: if_splits)
  have i3: "mapper_inv (store_reasoning m2) ((evs @ o1) @ o2) slots \<and> filled (store_reasoning m2) slots {Reasoning}" using store_reasoning_inv [OF i2] .
  have i4: "mapper_inv m4 (((evs @ o1) @ o2) @ o3) slots \<and> filled m4 slots {Message, Reasoning}"
  proof (cases "sm_text (store_reasoning m2) = []")
    case True
    then have "m4 = store_reasoning m2" "o3 = []" using 3 by (simp_all add: emit_if_returns)
    moreover have "Message \<notin> set slots" using i3 True by (simp add: mapper_inv_def slots_of_def)
    ultimately show ?thesis using i3 by (auto simp: filled_def)
  next
    case False
    then obtain x where "finish_message (store_reasoning m2) = (Inr x, m4)" "o3 = [x]" using 3 by (auto simp: emit_if_returns)
    then show ?thesis using finish_message_inv [of "store_reasoning m2" x m4 "(evs @ o1) @ o2" slots "{Reasoning}"] i3 ne by auto
  qed
  have order: "sm_toolOrder m4 = slot_tools slots" using i4 by (simp add: mapper_inv_def slots_of_def)
  have tools: "Tool ` set (slot_tools slots) \<subseteq> set slots" by auto
  have i5: "mapper_inv m5 ((((evs @ o1) @ o2) @ o3) @ o4) slots \<and> filled m5 slots ({Message, Reasoning} \<union> Tool ` set (slot_tools slots))"
    using finish_tools_inv [OF 4 [unfolded order], of "((evs @ o1) @ o2) @ o3" slots "{Message, Reasoning}"] i4 ne tools by auto
  have "set slots \<subseteq> {Message, Reasoning} \<union> Tool ` set (slot_tools slots)"
  proof
    fix x assume "x \<in> set slots"
    then show "x \<in> {Message, Reasoning} \<union> Tool ` set (slot_tools slots)" by (cases x rule: slot.exhaust) auto
  qed
  then have "final_output m5 = map (slot_item m5) slots"
    using i5 by (intro final_output_filled) (auto simp: mapper_inv_def)
  with i5 5 ne show ?thesis by (intro exI [of _ m5] exI [of _ e] exI [of _ "o1 @ o2 @ o3 @ o4"]) (auto simp: out)
qed

lemma concat_single: "distinct xs \<Longrightarrow> concat (map (\<lambda>x. if x = y then f else []) xs) = (if y \<in> set xs then f else [])"
  by (induction xs) auto

definition tool_call_of :: "names \<Rightarrow> string \<times> string \<Rightarrow> string \<Rightarrow> json" where
  "tool_call_of reverse call args =
     obj [(''id'', JStr (fst call)), (''type'', JStr ''function''),
          (''function'', obj [(''name'', JStr (forward_name reverse (snd call) (snd call))), (''arguments'', JStr args)])]"

lemma slot_item_simps:
  "slot_item m Reasoning = obj [(''type'', JStr ''reasoning''), (''id'', JStr ''reasoning-0''),
     (''summary'', JArr [obj [(''type'', JStr ''summary_text''), (''text'', JStr (sm_thinking m))]]), (''encrypted_content'', JStr (sm_signature m))]"
  "slot_item m Message = obj [(''type'', JStr ''message''), (''id'', JStr ''message-0''), (''role'', JStr ''assistant''),
     (''status'', JStr ''completed''),
     (''content'', JArr [obj [(''type'', JStr ''output_text''), (''text'', JStr (sm_text m)), (''annotations'', JArr [])]])]"
  "slot_item m (Tool ident) = (let t = the (sm_tools m ident) in
     obj [(''type'', JStr ''function_call''), (''id'', JStr (mt_id t)), (''call_id'', JStr (mt_id t)), (''name'', JStr (mt_name t)),
          (''arguments'', JStr (mt_arguments t)), (''status'', JStr ''completed'')])"
  by (simp_all add: slot_item_def reasoningItem_def message_item_of_def tool_item_def Let_def)

lemma chat_output_slots:
  "chat_output reverse (map (slot_item m) slots) (t, r, calls) =
     (t @ concat (map (\<lambda>x. if x = Message then sm_text m else []) slots),
      r @ concat (map (\<lambda>x. if x = Reasoning then sm_thinking m else []) slots),
      calls @ map (\<lambda>ident. let u = the (sm_tools m ident) in tool_call_of reverse (mt_id u, mt_name u) (mt_arguments u)) (slot_tools slots))"
proof (induction slots arbitrary: t r calls)
  case (Cons x slots)
  then show ?case
    by (cases x) (simp_all add: slot_item_simps output_text_def chat_tool_call_def tool_call_of_def Let_def)
qed simp

lemma chat_output_complete:
  assumes "slots_of m slots" "streamed m evs"
  shows "chat_output reverse (map (slot_item m) slots) ([], [], []) =
    (streamed_text evs, streamed_thinking evs, map (\<lambda>call. tool_call_of reverse call (streamed_arguments (fst call) evs)) (announced evs))"
proof -
  have tools: "\<exists>u. sm_tools m ident = Some u \<and> mt_id u = ident" if "Tool ident \<in> set slots" for ident
    using assms(1) that unfolding slots_of_def by blast
  have "(let u = the (sm_tools m ident) in tool_call_of reverse (mt_id u, mt_name u) (mt_arguments u)) =
      tool_call_of reverse (ident, mt_name (the (sm_tools m ident))) (streamed_arguments ident evs)"
    if "ident \<in> set (slot_tools slots)" for ident
    using tools [of ident] that assms(2) by (auto simp: streamed_def)
  moreover have "distinct slots" "sm_toolOrder m = slot_tools slots" using assms(1) by (simp_all add: slots_of_def)
  ultimately show ?thesis
    using assms by (simp add: chat_output_slots concat_single slots_of_def streamed_def comp_def)
qed

section \<open>A whole answer\<close>

text \<open>The frames of an answer pushed in order.\<close>

fun push_frames :: "chat_frame list \<Rightarrow> mevent list mop" where
  "push_frames [] = ret []"
| "push_frames (frame # frames) = andThen (mapper_Push frame) (\<lambda>o1. andThen (push_frames frames) (\<lambda>o2. ret (o1 @ o2)))"

lemma push_frames_inv:
  assumes "push_frames frames m = (Inr out, m')" "mapper_inv m evs slots"
  shows "\<exists>slots'. mapper_inv m' (evs @ out) slots'"
  using assms
proof (induction frames arbitrary: m evs slots out)
  case (Cons frame frames)
  obtain o1 m1 o2 where 1: "mapper_Push frame m = (Inr o1, m1)" and 2: "push_frames frames m1 = (Inr o2, m')" and out: "out = o1 @ o2"
    using Cons.prems(1) by (auto simp: returns_simps)
  obtain slots1 where "mapper_inv m1 (evs @ o1) slots1" using mapper_Push_inv [OF 1 Cons.prems(2)] by blast
  then have "\<exists>slots'. mapper_inv m' ((evs @ o1) @ o2) slots'" using Cons.IH [OF 2] by blast
  then show ?case by (simp add: out)
qed (auto simp: returns_simps)

lemma new_mapper_inv: "NewStreamMapper model responseID maxBytes = Inr m \<Longrightarrow> mapper_inv m [] []"
  by (auto simp: NewStreamMapper_def mapper_inv_def slots_of_def streamed_def run_of_def numbered_def split: if_splits)

text \<open>C25: Devin's answer, mapped. When a new mapper takes all frames of an answer and finishes, its
  events are numbered 0, 1, 2, ... without gaps, the first is \<open>response.created\<close> and the last the
  terminal event. The answer inside the terminal event, read the way the chat translation reads a
  finished answer, consists of exactly the text, the reasoning and the tool calls (in the order
  they were announced, each with its argument fragments joined) that were streamed before it. A
  mapper that has finished emits nothing more.
\<close>

theorem mapped_answer_complete:
  assumes "NewStreamMapper model responseID maxBytes = Inr m0"
    and "push_frames frames m0 = (Inr pushed, m1)" "mapper_Finalize c m1 = (Inr final, m2)"
  defines "evs \<equiv> pushed @ final"
  shows "map (\<lambda>e. jindex (fst (snd e)) ''sequence_number'') evs = map (\<lambda>i. JInt (int i)) [0..<length evs]
    \<and> fst (hd evs) = ''response.created'' \<and> fst (last evs) \<in> {''response.completed'', ''response.incomplete''}
    \<and> chat_output reverse (Array (jindex (obj_field (fst (snd (last evs))) ''response'') ''output'')) ([], [], []) =
        (streamed_text evs, streamed_thinking evs,
         map (\<lambda>call. tool_call_of reverse call (streamed_arguments (fst call) evs)) (announced evs))
    \<and> mapper_Push frame m2 = (Inr [], m2) \<and> mapper_Finalize c m2 = (Inr [], m2)"
proof -
  obtain slots where inv: "mapper_inv m1 pushed slots"
    using push_frames_inv [OF assms(2) new_mapper_inv [OF assms(1)]] by auto
  obtain m3 e out1 where final: "final = out1 @ [e]" and i3: "mapper_inv m3 (pushed @ out1) slots" and ne: "pushed @ out1 \<noteq> []"
    and items: "final_output m3 = map (slot_item m3) slots" and fe: "final_event m3 = (Inr e, m2)"
    using mapper_Finalize_inv [OF assms(3) inv] by blast
  have e: "streamed m3 evs" "numbered evs" "fst e \<in> set terminal_kinds" "jindex (fst (snd e)) ''response'' = JObj (final_response m3)"
    "sm_terminal m2" using final_event_inv [OF fe i3 ne] by (simp_all add: evs_def final)
  have last: "last evs = e" "hd evs = hd (pushed @ out1)" using ne by (auto simp: evs_def final hd_append)
  have out: "Array (jindex (final_response m3) ''output'') = map (slot_item m3) slots"
    by (simp add: final_response_def items Let_def)
  have "chat_output reverse (map (slot_item m3) slots) ([], [], []) =
    (streamed_text evs, streamed_thinking evs, map (\<lambda>call. tool_call_of reverse call (streamed_arguments (fst call) evs)) (announced evs))"
    using i3 e(1) by (intro chat_output_complete) (auto simp: mapper_inv_def)
  moreover have "fst (hd evs) = ''response.created''" using i3 ne by (simp add: last(2) mapper_inv_def run_of_def)
  ultimately show ?thesis using e by (simp add: last(1) out numbered_def terminal_kinds_def mapper_Push_def mapper_Finalize_def)
qed

text \<open>An answer with reasoning, text and a tool call whose arguments arrive in two frames.\<close>

definition sample_frame :: chat_frame where
  "sample_frame = empty_frame\<lparr>cf_MessageID := ''m1''\<rparr>"

definition sample_frames :: "chat_frame list" where
  "sample_frames =
     [sample_frame\<lparr>cf_DeltaThinking := ''hm''\<rparr>, sample_frame\<lparr>cf_DeltaText := ''hi''\<rparr>,
      sample_frame\<lparr>cf_DeltaToolCalls := [\<lparr>tc_ID = ''c1'', tc_Name = ''f'', tc_ArgumentsJSON = ''{''\<rparr>]\<rparr>,
      sample_frame\<lparr>cf_DeltaToolCalls := [\<lparr>tc_ID = [], tc_Name = [], tc_ArgumentsJSON = ''{}''\<rparr>],
        cf_Usage := Some (empty_model_usage\<lparr>mu_InputTokens := 3, mu_OutputTokens := 4, mu_CacheReadTokens := 1\<rparr>)\<rparr>]"

definition sample_mapper :: mapper where
  "sample_mapper = projr (NewStreamMapper ''swe'' [] 100)"

abbreviation braces_codec :: json_codec where "braces_codec \<equiv> table_codec [(''{}'', JObj [])]"

abbreviation sample_pushed :: "(go_error + mevent list) \<times> mapper" where "sample_pushed \<equiv> push_frames sample_frames sample_mapper"

abbreviation sample_final :: "(go_error + mevent list) \<times> mapper" where
  "sample_final \<equiv> mapper_Finalize braces_codec (snd sample_pushed)"

abbreviation sample_evs :: "mevent list" where "sample_evs \<equiv> projr (fst sample_pushed) @ projr (fst sample_final)"

theorem mapped_answer_complete_witness:
  "map fst sample_evs = [''response.created'', ''response.reasoning_summary_text.delta'', ''response.output_item.done'',
     ''response.output_text.delta'', ''response.output_item.added'', ''response.function_call_arguments.delta'',
     ''response.function_call_arguments.delta'', ''response.output_item.done'', ''response.function_call_arguments.done'',
     ''response.output_item.done'', ''response.completed'']
   \<and> chat_output Map.empty (Array (jindex (obj_field (fst (snd (last sample_evs))) ''response'') ''output'')) ([], [], []) =
     (''hi'', ''hm'', [tool_call_of Map.empty (''c1'', ''f'') ''{}''])"
proof -
  have ok: "isl (NewStreamMapper ''swe'' [] 100) = False" "isl (fst sample_pushed) = False" "isl (fst sample_final) = False"
    by code_simp+
  then have "NewStreamMapper ''swe'' [] 100 = Inr sample_mapper" "sample_pushed = (Inr (projr (fst sample_pushed)), snd sample_pushed)"
    "sample_final = (Inr (projr (fst sample_final)), snd sample_final)"
    by (auto simp: sample_mapper_def isl_def intro!: prod_eqI)
  note run = mapped_answer_complete [OF this, of Map.empty]
  have "map fst sample_evs = [''response.created'', ''response.reasoning_summary_text.delta'', ''response.output_item.done'',
     ''response.output_text.delta'', ''response.output_item.added'', ''response.function_call_arguments.delta'',
     ''response.function_call_arguments.delta'', ''response.output_item.done'', ''response.function_call_arguments.done'',
     ''response.output_item.done'', ''response.completed'']" by code_simp
  moreover have "streamed_text sample_evs = ''hi''" "streamed_thinking sample_evs = ''hm''" "announced sample_evs = [(''c1'', ''f'')]"
    "streamed_arguments ''c1'' sample_evs = ''{}''" by code_simp+
  ultimately show ?thesis using run by simp
qed

end
