(* ===== verification/Devin_Request.thy ===== *)
theory Devin_Request
  imports Devin_Mapper
begin

text \<open>
  From a canonical request to Devin's chat request (\<open>internal/devin/chat_builder.go\<close>). JSON text
  comes from the codec of the translators, as does SHA-256; \<open>json.Marshal\<close> of a canonical request,
  which is a JSON value, does not fail. Whether a string is standard base64 is decided as
  \<open>encoding/base64\<close> does. Messages with \<open>%q\<close> are modelled without the quotes.

  Shown: what the builder accepts is encodable and complete, one prompt for every input item in
  order, with the credentials it was given, valid tool calls and images, and a tool choice that
  names a defined tool.
\<close>

section \<open>Standard library\<close>

definition hasSuffix :: "string \<Rightarrow> string \<Rightarrow> bool" where
  "hasSuffix s t = hasPrefix (rev s) (rev t)"

definition trimSuffix :: "string \<Rightarrow> string \<Rightarrow> string" where
  "trimSuffix s t = (if hasSuffix s t then take (length s - length t) s else s)"

text \<open>\<open>strings.Cut\<close> at a comma.\<close>

fun cut_comma :: "string \<Rightarrow> string \<times> string \<times> bool" where
  "cut_comma [] = ([], [], False)"
| "cut_comma (x # xs) = (if x = CHR '','' then ([], xs, True) else (case cut_comma xs of (a, b, ok) \<Rightarrow> (x # a, b, ok)))"

text \<open>
  Does \<open>DecodeString\<close> succeed? Line breaks are ignored; a group that is not full is only allowed
  at the end, without padding for \<open>RawStdEncoding\<close>, filled up with \<open>=\<close> for \<open>StdEncoding\<close>.
\<close>

definition std_alphabet :: string where
  "std_alphabet = ''ABCDEFGHIJKLMNOPQRSTUVWXYZabcdefghijklmnopqrstuvwxyz0123456789+/''"

definition no_breaks :: "string \<Rightarrow> string" where
  "no_breaks s = filter (\<lambda>c. c \<noteq> CHR 0x0A \<and> c \<noteq> CHR 0x0D) s"

definition raw_std_valid :: "string \<Rightarrow> bool" where
  "raw_std_valid s = (let t = no_breaks s in list_all (\<lambda>c. c \<in> set std_alphabet) t \<and> length t mod 4 \<noteq> 1)"

definition std_valid :: "string \<Rightarrow> bool" where
  "std_valid s =
     (let t = no_breaks s; body = (if hasSuffix t ''=='' then trimSuffix t ''=='' else trimSuffix t ''='') in
      length t mod 4 = 0 \<and> list_all (\<lambda>c. c \<in> set std_alphabet) body)"

definition bool_field :: "jobject \<Rightarrow> string \<Rightarrow> bool" where
  "bool_field m k = (case jindex m k of JBool b \<Rightarrow> b | _ \<Rightarrow> False)"


section \<open>Content\<close>

definition inlineImage :: "string \<Rightarrow> go_error + image_data" where
  "inlineImage val =
     (if \<not> hasPrefix val ''data:'' then Inl (ErrNew ''remote images are not supported'')
      else case cut_comma (trimPrefix val ''data:'') of (header, encoded, ok) \<Rightarrow>
        if \<not> ok \<or> \<not> hasSuffix header '';base64'' then Inl (ErrNew ''image must be a base64 data URL'')
        else let mime = trimSuffix header '';base64'' in
          if mime = [] then Inl (ErrNew ''image MIME type is required'')
          else if \<not> std_valid encoded then Inl (ErrNew ''image has invalid base64 data'')
          else Inr \<lparr>im_Base64Data = encoded, im_MIMEType = mime, im_Caption = []\<rparr>)"

fun content_parts :: "json list \<Rightarrow> string \<times> image_data list \<Rightarrow> go_error + string \<times> image_data list" where
  "content_parts [] acc = Inr acc"
| "content_parts (rawPart # parts) (txt, images) =
     (case rawPart of
        JObj part \<Rightarrow>
          let ty = str_field part ''type'' in
          if ty = ''input_text'' \<or> ty = ''output_text'' then content_parts parts (txt @ str_field part ''text'', images)
          else if ty = ''input_image'' then
            orFail (inlineImage (str_field part ''image_url'')) (\<lambda>image. content_parts parts (txt, images @ [image]))
          else Inl (ErrNew (''unsupported content type '' @ ty))
      | _ \<Rightarrow> Inl (ErrNew ''content part must be an object''))"

definition prompt_content :: "json \<Rightarrow> go_error + string \<times> image_data list" where
  "prompt_content raw =
     (case raw of JArr parts \<Rightarrow> content_parts parts ([], []) | _ \<Rightarrow> Inl (ErrNew ''message content must be an array''))"

definition outputContent :: "json \<Rightarrow> go_error + string \<times> image_data list" where
  "outputContent raw = (case raw of JStr txt \<Rightarrow> Inr (txt, []) | _ \<Rightarrow> prompt_content raw)"

fun summary_parts :: "json list \<Rightarrow> go_error + string" where
  "summary_parts [] = Inr []"
| "summary_parts (rawPart # parts) =
     (case rawPart of
        JObj part \<Rightarrow>
          if str_field part ''type'' \<noteq> ''summary_text'' then Inl (ErrNew ''reasoning summary is malformed'')
          else orFail (summary_parts parts) (\<lambda>rest. Inr (str_field part ''text'' @ rest))
      | _ \<Rightarrow> Inl (ErrNew ''reasoning summary is malformed''))"

definition summaryText :: "json \<Rightarrow> go_error + string" where
  "summaryText raw = (case raw of JArr parts \<Rightarrow> summary_parts parts | _ \<Rightarrow> Inl (ErrNew ''reasoning summary must be an array''))"


section \<open>Prompts\<close>

definition nul :: string where "nul = [CHR 0x00]"

definition structuralID :: "json_codec \<Rightarrow> string \<Rightarrow> string" where
  "structuralID c seed =
     (let hexed = hex_encode (jc_sha256 c seed) in
      take 8 hexed @ ''-'' @ take 4 (drop 8 hexed) @ ''-'' @ take 4 (drop 12 hexed) @ ''-'' @ take 4 (drop 16 hexed) @ ''-'' @
      take 12 (drop 20 hexed))"

definition itemID :: "jobject \<Rightarrow> string \<Rightarrow> string" where
  "itemID item fallback = (if str_field item ''id'' \<noteq> [] then str_field item ''id'' else fallback)"

definition empty_prompt :: chat_prompt where
  "empty_prompt = \<lparr>cp_MessageID = [], cp_Source = 0, cp_Prompt = [], cp_ToolCalls = [], cp_ToolCallID = [], cp_PromptCacheOptions = None,
     cp_ToolResultIsError = False, cp_Images = [], cp_Thinking = [], cp_Signature = [], cp_OutputID = [], cp_SignatureType = [], cp_Phase = []\<rparr>"

definition item_error :: "nat \<Rightarrow> go_error \<Rightarrow> go_error" where
  "item_error index e = Wrapf (''devin: input item '' @ itoa (int index)) [e]"

definition item_refused :: "nat \<Rightarrow> string \<Rightarrow> go_error + 'a" where
  "item_refused index what = Inl (ErrNew (''devin: input item '' @ itoa (int index) @ what))"

definition at_item :: "nat \<Rightarrow> go_error + 'a \<Rightarrow> go_error + 'a" where
  "at_item index r = map_sum (item_error index) id r"

text \<open>The identifier of a prompt whose item has none.\<close>

definition position_id :: "json_codec \<Rightarrow> string \<Rightarrow> nat \<Rightarrow> string \<Rightarrow> string" where
  "position_id c cascadeID index what = structuralID c (cascadeID @ nul @ itoa (int index) @ nul @ what)"

definition role_source :: "string \<Rightarrow> (int \<times> prompt_cache_options option) option" where
  "role_source role =
     (if role = ''assistant'' then Some (ChatMessageSourceSystem, None)
      else if role = ''system'' then Some (ChatMessageSourceSystemPrompt, Some \<lparr>po_Type = CacheControlTypeEphemeral\<rparr>)
      else if role = ''developer'' \<or> role = ''user'' then Some (ChatMessageSourceUser, None)
      else None)"

definition message_prompt :: "json_codec \<Rightarrow> string \<Rightarrow> nat \<Rightarrow> jobject \<Rightarrow> go_error + chat_prompt \<times> string list" where
  "message_prompt c cascadeID index item =
     (let role = str_field item ''role'' in
      orFail (at_item index (prompt_content (jindex item ''content''))) (\<lambda>(txt, images).
        case role_source role of
          None \<Rightarrow> item_refused index ('' has unsupported role '' @ role)
        | Some (source, cacheOptions) \<Rightarrow>
            Inr (empty_prompt\<lparr>cp_MessageID := itemID item (position_id c cascadeID index role), cp_Source := source, cp_Prompt := txt,
                   cp_Images := images, cp_PromptCacheOptions := cacheOptions\<rparr>,
                 if role = ''developer'' \<or> role = ''system'' then [txt] else [])))"

definition reasoning_prompt :: "json_codec \<Rightarrow> string \<Rightarrow> nat \<Rightarrow> jobject \<Rightarrow> go_error + chat_prompt" where
  "reasoning_prompt c cascadeID index item =
     orFail (at_item index (summaryText (jindex item ''summary''))) (\<lambda>thinking.
       Inr (empty_prompt\<lparr>cp_MessageID := itemID item (position_id c cascadeID index ''reasoning''), cp_Source := ChatMessageSourceSystem,
         cp_Thinking := thinking, cp_Signature := str_field item ''encrypted_content'', cp_OutputID := str_field item ''id''\<rparr>))"

definition call_prompt :: "json_codec \<Rightarrow> string \<Rightarrow> nat \<Rightarrow> jobject \<Rightarrow> go_error + chat_prompt" where
  "call_prompt c cascadeID index item =
     (let ident = str_field item ''call_id''; name = str_field item ''name''; arguments = str_field item ''arguments'' in
      if ident = [] \<or> name = [] \<or> jc_parse c arguments = None then item_refused index '' has malformed function call''
      else Inr (empty_prompt\<lparr>cp_MessageID := itemID item (position_id c cascadeID index ''assistant''), cp_Source := ChatMessageSourceSystem,
        cp_ToolCalls := [\<lparr>tc_ID = ident, tc_Name = name, tc_ArgumentsJSON = arguments\<rparr>], cp_OutputID := str_field item ''id''\<rparr>))"

definition result_prompt :: "json_codec \<Rightarrow> string \<Rightarrow> nat \<Rightarrow> jobject \<Rightarrow> go_error + chat_prompt" where
  "result_prompt c cascadeID index item =
     (let ident = str_field item ''call_id'' in
      if ident = [] then item_refused index '' has no call_id''
      else orFail (at_item index (outputContent (jindex item ''output''))) (\<lambda>(txt, images).
        Inr (empty_prompt\<lparr>cp_MessageID := itemID item (position_id c cascadeID index (''tool'' @ nul @ ident)), cp_Source := ChatMessageSourceTool,
          cp_ToolCallID := ident, cp_ToolResultIsError := bool_field item ''is_error'', cp_Prompt := txt, cp_Images := images,
          cp_OutputID := str_field item ''id''\<rparr>)))"

definition item_prompt :: "json_codec \<Rightarrow> string \<Rightarrow> nat \<Rightarrow> json \<Rightarrow> go_error + chat_prompt \<times> string list" where
  "item_prompt c cascadeID index raw =
     (case raw of
        JObj item \<Rightarrow>
          let ty = str_field item ''type''; plain = map_sum id (\<lambda>p. (p, [])) in
          if ty = ''message'' then message_prompt c cascadeID index item
          else if ty = ''reasoning'' then plain (reasoning_prompt c cascadeID index item)
          else if ty = ''function_call'' then plain (call_prompt c cascadeID index item)
          else if ty = ''function_call_output'' then plain (result_prompt c cascadeID index item)
          else item_refused index ('' has unsupported type '' @ ty)
      | _ \<Rightarrow> item_refused index '' must be an object'')"

fun item_prompts :: "json_codec \<Rightarrow> string \<Rightarrow> nat \<Rightarrow> json list \<Rightarrow> go_error + chat_prompt list \<times> string list" where
  "item_prompts c cascadeID index [] = Inr ([], [])"
| "item_prompts c cascadeID index (raw # input) =
     orFail (item_prompt c cascadeID index raw) (\<lambda>(p, sys).
     orFail (item_prompts c cascadeID (Suc index) input) (\<lambda>(ps, syss). Inr (p # ps, sys @ syss)))"

fun join_with :: "string \<Rightarrow> string list \<Rightarrow> string" where
  "join_with sep [] = []"
| "join_with sep [x] = x"
| "join_with sep (x # xs) = x @ sep @ join_with sep xs"

definition buildChatPrompts :: "json_codec \<Rightarrow> json list \<Rightarrow> string \<Rightarrow> go_error + chat_prompt list \<times> string" where
  "buildChatPrompts c input cascadeID =
     map_sum id (apsnd (join_with [CHR 0x0A, CHR 0x0A])) (item_prompts c cascadeID 0 input)"


section \<open>Tools and stops\<close>

fun tool_list :: "json_codec \<Rightarrow> nat \<Rightarrow> json list \<Rightarrow> go_error + tool_definition list" where
  "tool_list c index [] = Inr []"
| "tool_list c index (rawItem # items) =
     (case rawItem of
        JObj item \<Rightarrow>
          let name = str_field item ''name'' in
          if str_field item ''type'' \<noteq> ''function'' then Inl (ErrNew (''devin: tool '' @ itoa (int index) @ '' is malformed''))
          else if name = [] then Inl (ErrNew (''devin: tool '' @ itoa (int index) @ '' has no name''))
          else (case jget item ''parameters'' of
              None \<Rightarrow> Inl (ErrNew (''devin: tool '' @ itoa (int index) @ '' has no parameters''))
            | Some parameters \<Rightarrow> orFail (tool_list c (Suc index) items) (\<lambda>ts.
                Inr (\<lparr>td_Name = name, td_Description = str_field item ''description'', td_JSONSchemaString = jc_print c parameters,
                      td_Strict = bool_field item ''strict''\<rparr> # ts)))
      | _ \<Rightarrow> Inl (ErrNew (''devin: tool '' @ itoa (int index) @ '' is malformed'')))"

definition buildTools :: "json_codec \<Rightarrow> json \<Rightarrow> go_error + tool_definition list" where
  "buildTools c raw =
     (case raw of JNull \<Rightarrow> Inr [] | JArr items \<Rightarrow> tool_list c 0 items | _ \<Rightarrow> Inl (ErrNew ''devin: tools must be an array''))"

definition option_choice :: "string \<Rightarrow> tool_choice" where "option_choice option = \<lparr>ch_OptionName = option, ch_ToolName = []\<rparr>"

definition buildToolChoice :: "json \<Rightarrow> tool_definition list \<Rightarrow> go_error + tool_choice" where
  "buildToolChoice raw tools =
     (case raw of
        JNull \<Rightarrow> Inr (option_choice ''auto'')
      | JStr option \<Rightarrow>
          if option = [] \<or> option = ''auto'' then Inr (option_choice ''auto'')
          else if option = ''none'' then Inr (option_choice ''none'')
          else if option = ''required'' then Inl (ErrNew ''devin: tool choice required is not supported'')
          else Inl (ErrNew (''devin: unsupported tool choice '' @ option))
      | JObj choice \<Rightarrow>
          let name = str_field choice ''name'' in
          if str_field choice ''type'' \<noteq> ''function'' \<or> name = [] then Inl (ErrNew ''devin: malformed selected tool choice'')
          else if list_ex (\<lambda>t. td_Name t = name) tools then Inr \<lparr>ch_OptionName = [], ch_ToolName = name\<rparr>
          else Inl (ErrNew (''devin: selected tool '' @ name @ '' is not defined''))
      | _ \<Rightarrow> Inl (ErrNew ''devin: malformed selected tool choice''))"

definition defaultStopPatterns :: "string list" where
  "defaultStopPatterns = [''<|user|>'', ''<|bot|>'', ''<|context_request|>'', ''<|endoftext|>'', ''<|end_of_turn|>'']"

fun stop_strings :: "json list \<Rightarrow> go_error + string list" where
  "stop_strings [] = Inr []"
| "stop_strings (item # items) =
     (case item of JStr stop \<Rightarrow> orFail (stop_strings items) (\<lambda>rest. Inr (stop # rest))
      | _ \<Rightarrow> Inl (ErrNew ''devin: stop array must contain strings''))"

definition buildStops :: "json \<Rightarrow> go_error + string list" where
  "buildStops raw =
     (case raw of
        JNull \<Rightarrow> Inr defaultStopPatterns
      | JStr stop \<Rightarrow> Inr (defaultStopPatterns @ [stop])
      | JArr items \<Rightarrow> map_sum id (\<lambda>stops. defaultStopPatterns @ stops) (stop_strings items)
      | _ \<Rightarrow> Inl (ErrNew ''devin: stop must be a string or array''))"


section \<open>The request\<close>

text \<open>\<open>0.4\<close> and \<open>1\<close> as IEEE doubles.\<close>

definition float_0_4 :: float64 where "float_0_4 = 0x3FD999999999999A"
definition float_1 :: float64 where "float_1 = 0x3FF0000000000000"

definition chat_metadata :: "string \<Rightarrow> string \<Rightarrow> metadata" where
  "chat_metadata sessionToken userJWT =
     \<lparr>md_IDEName = ''windsurf'', md_ExtensionVersion = ''1.48.2'', md_APIKey = sessionToken, md_Locale = ''en'', md_IDEVersion = ''3.2.23'',
      md_ExtensionName = ''windsurf'', md_UserJWT = userJWT\<rparr>"

definition chat_configuration :: "string list \<Rightarrow> completion_configuration" where
  "chat_configuration stops =
     \<lparr>cc_NumCompletions = 1, cc_MaxTokens = 64000, cc_MaxNewlines = 200, cc_Temperature = float_0_4, cc_FirstTemperature = float_0_4,
      cc_TopK = 50, cc_TopP = float_1, cc_StopPatterns = stops, cc_Seed = 0, cc_FIMEOTProbabilityThreshold = float_1,
      cc_UseFIMEOTThreshold = False, cc_DoNotScoreStopTokens = False, cc_SqrtLenNormalizedLogProbScore = False, cc_LastMessageIsPartial = False\<rparr>"

definition BuildChatRequest :: "json_codec \<Rightarrow> jobject \<Rightarrow> string \<Rightarrow> string \<Rightarrow> go_error + chat_request" where
  "BuildChatRequest c canonical sessionToken userJWT =
     (let model = str_field canonical ''model'' in
      if model = [] then Inl (ErrNew ''devin: model is required'')
      else case jindex canonical ''input'' of
        JArr input \<Rightarrow>
          let struct = jc_print c (JObj canonical); cascadeID = structuralID c (''cascade'' @ nul @ struct) in
          orFail (buildChatPrompts c input cascadeID) (\<lambda>(prompts, systemPrompt).
          orFail (buildTools c (jindex canonical ''tools'')) (\<lambda>tools.
          orFail (buildToolChoice (jindex canonical ''tool_choice'') tools) (\<lambda>choice.
          orFail (buildStops (jindex canonical ''stop'')) (\<lambda>stops.
            Inr \<lparr>cr_Metadata = Some (chat_metadata sessionToken userJWT), cr_Prompt = systemPrompt, cr_ChatMessagePrompts = prompts,
              cr_ChatModelUID = model, cr_RequestType = ChatMessageRequestTypeCascade, cr_Configuration = Some (chat_configuration stops),
              cr_Tools = tools, cr_DisableParallelToolCalls = True, cr_ToolChoice = Some choice,
              cr_SystemPromptCacheOptions = Some \<lparr>po_Type = CacheControlTypeEphemeral\<rparr>, cr_CascadeID = cascadeID,
              cr_ProviderSource = ProviderSourceCascade, cr_PlannerMode = ConversationalPlannerModeDefault,
              cr_ExecutionID = structuralID c (''execution'' @ nul @ struct)\<rparr>))))
      | _ \<Rightarrow> Inl (ErrNew ''devin: input must be an array''))"

section \<open>What a request says\<close>

definition parts_text :: "json \<Rightarrow> string" where
  "parts_text raw = concat (map (\<lambda>p. if str_field (Object p) ''type'' = ''input_image'' then [] else str_field (Object p) ''text'') (Array raw))"

definition image_ok :: "image_data \<Rightarrow> bool" where
  "image_ok im \<longleftrightarrow> std_valid (im_Base64Data im) \<and> im_MIMEType im \<noteq> [] \<and> im_Caption im = []"

text \<open>The data URL of an image, and those of the images of a content.\<close>

definition image_url :: "image_data \<Rightarrow> string" where
  "image_url im = ''data:'' @ im_MIMEType im @ '';base64,'' @ im_Base64Data im"

definition parts_images :: "json \<Rightarrow> string list" where
  "parts_images raw = map (\<lambda>p. str_field (Object p) ''image_url'') (filter (\<lambda>p. str_field (Object p) ''type'' = ''input_image'') (Array raw))"

text \<open>The images of a prompt are those of a content, none left out.\<close>

definition says_images :: "json \<Rightarrow> chat_prompt \<Rightarrow> bool" where
  "says_images raw p \<longleftrightarrow> list_all image_ok (cp_Images p) \<and> map image_url (cp_Images p) = parts_images raw"

text \<open>A prompt that says what its input item says, and nothing else.\<close>

definition faithful_prompt :: "json_codec \<Rightarrow> json \<Rightarrow> chat_prompt \<Rightarrow> bool" where
  "faithful_prompt c raw p \<longleftrightarrow>
     (let item = Object raw; ty = str_field item ''type''; ident = str_field item ''id''; call = str_field item ''call_id'';
          p0 = empty_prompt\<lparr>cp_MessageID := cp_MessageID p, cp_Images := cp_Images p\<rparr> in
      cp_MessageID p \<noteq> [] \<and> (ident \<noteq> [] \<longrightarrow> cp_MessageID p = ident) \<and>
      ((ty = ''message'' \<and> says_images (jindex item ''content'') p \<and>
          (\<exists>source opts. role_source (str_field item ''role'') = Some (source, opts) \<and>
             p = p0\<lparr>cp_Source := source, cp_Prompt := parts_text (jindex item ''content''), cp_PromptCacheOptions := opts\<rparr>)) \<or>
       (ty = ''reasoning'' \<and> cp_Images p = [] \<and>
          p = p0\<lparr>cp_Source := ChatMessageSourceSystem, cp_Thinking := concat (map (\<lambda>s. str_field (Object s) ''text'') (Array (jindex item ''summary''))),
                cp_Signature := str_field item ''encrypted_content'', cp_OutputID := ident\<rparr>) \<or>
       (ty = ''function_call'' \<and> cp_Images p = [] \<and> call \<noteq> [] \<and> str_field item ''name'' \<noteq> [] \<and> jc_parse c (str_field item ''arguments'') \<noteq> None \<and>
          p = p0\<lparr>cp_Source := ChatMessageSourceSystem, cp_OutputID := ident,
                cp_ToolCalls := [\<lparr>tc_ID = call, tc_Name = str_field item ''name'', tc_ArgumentsJSON = str_field item ''arguments''\<rparr>]\<rparr>) \<or>
       (ty = ''function_call_output'' \<and> call \<noteq> [] \<and> says_images (jindex item ''output'') p \<and>
          p = p0\<lparr>cp_Source := ChatMessageSourceTool, cp_ToolCallID := call, cp_ToolResultIsError := bool_field item ''is_error'', cp_OutputID := ident,
                cp_Prompt := (case jindex item ''output'' of JStr txt \<Rightarrow> txt | raw \<Rightarrow> parts_text raw)\<rparr>)))"

text \<open>The instructions among the input items.\<close>

definition is_instruction :: "json \<Rightarrow> bool" where
  "is_instruction raw \<longleftrightarrow> str_field (Object raw) ''type'' = ''message'' \<and> str_field (Object raw) ''role'' \<in> {''developer'', ''system''}"

definition instructions :: "json list \<Rightarrow> string list" where
  "instructions input = map (\<lambda>raw. parts_text (jindex (Object raw) ''content'')) (filter is_instruction input)"

definition faithful_tool :: "json_codec \<Rightarrow> json \<Rightarrow> tool_definition \<Rightarrow> bool" where
  "faithful_tool c raw t \<longleftrightarrow>
     (let item = Object raw in
      str_field item ''type'' = ''function'' \<and> str_field item ''name'' \<noteq> [] \<and>
      (\<exists>parameters. jget item ''parameters'' = Some parameters \<and>
         t = \<lparr>td_Name = str_field item ''name'', td_Description = str_field item ''description'', td_JSONSchemaString = jc_print c parameters,
              td_Strict = bool_field item ''strict''\<rparr>))"

text \<open>What a tool choice and the stops of a request ask for.\<close>

definition faithful_choice :: "json \<Rightarrow> tool_definition list \<Rightarrow> tool_choice \<Rightarrow> bool" where
  "faithful_choice raw tools ch \<longleftrightarrow>
     (case raw of
        JNull \<Rightarrow> ch = option_choice ''auto''
      | JStr option \<Rightarrow> option \<in> {[], ''auto'', ''none''} \<and> ch = option_choice (if option = ''none'' then ''none'' else ''auto'')
      | JObj choice \<Rightarrow> str_field choice ''type'' = ''function'' \<and> str_field choice ''name'' \<noteq> [] \<and> str_field choice ''name'' \<in> td_Name ` set tools \<and>
          ch = \<lparr>ch_OptionName = [], ch_ToolName = str_field choice ''name''\<rparr>
      | _ \<Rightarrow> False)"

definition faithful_stops :: "json \<Rightarrow> string list \<Rightarrow> bool" where
  "faithful_stops raw stops \<longleftrightarrow>
     (case raw of JNull \<Rightarrow> stops = [] | JStr stop \<Rightarrow> stops = [stop] | JArr items \<Rightarrow> items = map JStr stops | _ \<Rightarrow> False)"

lemma cut_comma_parts: "cut_comma s = (a, b, True) \<Longrightarrow> s = a @ '','' @ b"
  by (induction s arbitrary: a b) (auto split: if_splits prod.splits)

lemma trimSuffix_parts: "hasSuffix s t \<Longrightarrow> s = trimSuffix s t @ t"
  by (auto simp: hasSuffix_def trimSuffix_def hasPrefix_iff) (metis append_take_drop_id length_append length_rev rev_append rev_rev_ident add_diff_cancel_right' append_eq_conv_conj)

lemma inlineImage_ok:
  assumes "inlineImage v = Inr im"
  shows "image_ok im \<and> image_url im = v"
proof -
  obtain header encoded where h: "hasPrefix v ''data:''" "cut_comma (trimPrefix v ''data:'') = (header, encoded, True)" "hasSuffix header '';base64''"
      "trimSuffix header '';base64'' \<noteq> []" "std_valid encoded" "im = \<lparr>im_Base64Data = encoded, im_MIMEType = trimSuffix header '';base64'', im_Caption = []\<rparr>"
    using assms by (auto simp: inlineImage_def Let_def split: if_splits prod.splits)
  have "v = ''data:'' @ trimPrefix v ''data:''" using h(1) by (auto simp: hasPrefix_iff trimPrefix_def)
  also have "trimPrefix v ''data:'' = header @ '','' @ encoded" by (rule cut_comma_parts [OF h(2)])
  also have "header = trimSuffix header '';base64'' @ '';base64''" by (rule trimSuffix_parts [OF h(3)])
  finally show ?thesis using h(4-6) by (simp add: image_ok_def image_url_def)
qed

lemma content_parts_ok:
  "content_parts parts (t, ims) = Inr (t', ims') \<Longrightarrow>
     t' = t @ parts_text (JArr parts) \<and> (\<exists>more. ims' = ims @ more \<and> list_all image_ok more \<and> map image_url more = parts_images (JArr parts))"
proof (induction parts arbitrary: t ims)
  case Nil
  then show ?case by (simp add: parts_text_def parts_images_def Array_def)
next
  case (Cons rawPart parts)
  obtain part where part: "rawPart = JObj part" using Cons.prems(1) by (cases rawPart) auto
  let ?ty = "str_field part ''type''"
  consider "?ty = ''input_text'' \<or> ?ty = ''output_text''" | "?ty = ''input_image''"
    using Cons.prems(1) part by (auto simp: Let_def split: if_splits)
  then show ?case
  proof cases
    case 1
    then have "content_parts parts (t @ str_field part ''text'', ims) = Inr (t', ims')" using Cons.prems(1) part by (simp add: Let_def)
    from Cons.IH [OF this] show ?thesis using 1 by (auto simp: part parts_text_def parts_images_def Array_def Object_def)
  next
    case 2
    then obtain im where im: "inlineImage (str_field part ''image_url'') = Inr im" "content_parts parts (t, ims @ [im]) = Inr (t', ims')"
      using Cons.prems(1) part by (auto simp: returns_simps Let_def)
    from Cons.IH [OF im(2)] obtain more where
      "t' = t @ parts_text (JArr parts)" "ims' = ims @ im # more" "list_all image_ok more" "map image_url more = parts_images (JArr parts)" by auto
    with inlineImage_ok [OF im(1)] 2 show ?thesis by (auto simp: part parts_text_def parts_images_def Array_def Object_def)
  qed
qed

lemma prompt_content_ok:
  "prompt_content raw = Inr (t, ims) \<Longrightarrow> t = parts_text raw \<and> list_all image_ok ims \<and> map image_url ims = parts_images raw"
  using content_parts_ok [of _ "[]" "[]" t ims] by (auto simp: prompt_content_def split: json.splits)

lemma outputContent_ok:
  "outputContent raw = Inr (t, ims) \<Longrightarrow>
     t = (case raw of JStr txt \<Rightarrow> txt | raw \<Rightarrow> parts_text raw) \<and> list_all image_ok ims \<and> map image_url ims = parts_images raw"
  by (cases raw) (auto simp: outputContent_def parts_images_def Array_def dest: prompt_content_ok)

lemma summary_parts_ok: "summary_parts parts = Inr t \<Longrightarrow> t = concat (map (\<lambda>s. str_field (Object s) ''text'') parts)"
  by (induction parts arbitrary: t) (auto simp: returns_simps Object_def split: json.splits if_splits)

lemma summaryText_ok: "summaryText raw = Inr t \<Longrightarrow> t = concat (map (\<lambda>s. str_field (Object s) ''text'') (Array raw))"
  by (cases raw) (auto simp: summaryText_def Array_def dest: summary_parts_ok)

lemma itemID_known: "itemID item (position_id c cascadeID index what) \<noteq> []" "str_field item ''id'' \<noteq> [] \<Longrightarrow> itemID item fallback = str_field item ''id''"
  by (auto simp: itemID_def position_id_def structuralID_def Let_def)

lemma at_item_returns [returns_simps]: "at_item index r = Inr x \<longleftrightarrow> r = Inr x"
  by (cases r) (auto simp: at_item_def)

lemma message_prompt_faithful:
  assumes "message_prompt c cascadeID index item = Inr (p, sys)" "str_field item ''type'' = ''message''"
  shows "faithful_prompt c (JObj item) p"
proof -
  obtain t ims src opts where *: "prompt_content (jindex item ''content'') = Inr (t, ims)"
      "role_source (str_field item ''role'') = Some (src, opts)"
      "p = empty_prompt\<lparr>cp_MessageID := itemID item (position_id c cascadeID index (str_field item ''role'')), cp_Source := src, cp_Prompt := t,
        cp_Images := ims, cp_PromptCacheOptions := opts\<rparr>"
    using assms(1) by (auto simp: message_prompt_def Let_def returns_simps item_refused_def split: option.splits)
  then show ?thesis using prompt_content_ok [OF *(1)] assms(2)
    by (simp add: faithful_prompt_def says_images_def Object_def itemID_known empty_prompt_def)
qed

lemma reasoning_prompt_faithful:
  assumes "reasoning_prompt c cascadeID index item = Inr p" "str_field item ''type'' = ''reasoning''"
  shows "faithful_prompt c (JObj item) p"
  using assms by (auto simp: reasoning_prompt_def returns_simps faithful_prompt_def Object_def itemID_known empty_prompt_def dest: summaryText_ok)

lemma call_prompt_faithful:
  assumes "call_prompt c cascadeID index item = Inr p" "str_field item ''type'' = ''function_call''"
  shows "faithful_prompt c (JObj item) p"
  using assms by (auto simp: call_prompt_def Let_def item_refused_def faithful_prompt_def Object_def itemID_known empty_prompt_def split: if_splits)

lemma result_prompt_faithful:
  assumes "result_prompt c cascadeID index item = Inr p" "str_field item ''type'' = ''function_call_output''"
  shows "faithful_prompt c (JObj item) p"
  using assms by (auto simp: result_prompt_def Let_def returns_simps item_refused_def faithful_prompt_def says_images_def Object_def itemID_known empty_prompt_def
    dest: outputContent_ok split: if_splits)

lemma map_sum_plain [returns_simps]: "map_sum id (\<lambda>p. (p, [])) r = Inr (p, sys) \<longleftrightarrow> r = Inr p \<and> sys = []"
  by (cases r) auto

lemma item_prompt_faithful: "item_prompt c cascadeID index raw = Inr (p, sys) \<Longrightarrow> faithful_prompt c raw p"
  by (cases raw) (auto simp: item_prompt_def item_refused_def Let_def returns_simps
    intro: message_prompt_faithful reasoning_prompt_faithful call_prompt_faithful result_prompt_faithful split: if_splits)

lemma item_prompts_faithful: "item_prompts c cascadeID index input = Inr (ps, syss) \<Longrightarrow> list_all2 (faithful_prompt c) input ps"
  by (induction input arbitrary: index ps syss) (auto simp: returns_simps dest: item_prompt_faithful)

lemma item_prompt_instructions: "item_prompt c cascadeID index raw = Inr (p, sys) \<Longrightarrow> sys = instructions [raw]"
  by (cases raw) (auto simp: item_prompt_def item_refused_def message_prompt_def instructions_def is_instruction_def Object_def Let_def returns_simps
    dest: prompt_content_ok split: if_splits option.splits)

lemma item_prompts_instructions: "item_prompts c cascadeID index input = Inr (ps, syss) \<Longrightarrow> syss = instructions input"
proof (induction input arbitrary: index ps syss)
  case (Cons raw input)
  then obtain p sys ps' syss' where "item_prompt c cascadeID index raw = Inr (p, sys)" "item_prompts c cascadeID (Suc index) input = Inr (ps', syss')"
    "syss = sys @ syss'" by (auto simp: returns_simps)
  with Cons.IH item_prompt_instructions show ?case by (fastforce simp: instructions_def)
qed (simp add: instructions_def)

lemma buildChatPrompts_ok:
  "buildChatPrompts c input cascadeID = Inr (ps, sys) \<Longrightarrow>
     list_all2 (faithful_prompt c) input ps \<and> sys = join_with [CHR 0x0A, CHR 0x0A] (instructions input)"
  using item_prompts_faithful item_prompts_instructions
  by (cases "item_prompts c cascadeID 0 input") (fastforce simp: buildChatPrompts_def)+

lemma tool_list_ok: "tool_list c index items = Inr ts \<Longrightarrow> list_all2 (faithful_tool c) items ts"
  by (induction items arbitrary: index ts) (auto simp: Let_def returns_simps faithful_tool_def Object_def split: json.splits if_splits option.splits)

lemma buildTools_ok: "buildTools c raw = Inr ts \<Longrightarrow> list_all2 (faithful_tool c) (Array raw) ts"
  by (cases raw) (auto simp: buildTools_def Array_def dest: tool_list_ok)

lemma buildToolChoice_ok: "buildToolChoice raw tools = Inr ch \<Longrightarrow> faithful_choice raw tools ch"
  by (cases raw; auto simp: buildToolChoice_def faithful_choice_def Let_def list_ex_iff intro!: rev_image_eqI split: if_splits)

lemma stop_strings_ok: "stop_strings items = Inr stops \<Longrightarrow> items = map JStr stops"
  by (induction items arbitrary: stops) (auto simp: returns_simps split: json.splits)

lemma buildStops_ok: "buildStops raw = Inr stops \<Longrightarrow> \<exists>asked. stops = defaultStopPatterns @ asked \<and> faithful_stops raw asked"
proof (cases raw)
  case (JArr items)
  then show "buildStops raw = Inr stops \<Longrightarrow> ?thesis"
    by (cases "stop_strings items") (auto simp: buildStops_def faithful_stops_def dest: stop_strings_ok)
qed (auto simp: buildStops_def faithful_stops_def)

text \<open>Every part of a built request can be encoded.\<close>

lemma encodable_parts:
  "\<exists>p. ChatMessagePrompt_Marshal pw m = Inr p" "\<exists>p. ChatToolDefinition_Marshal pw d = Inr p"
  "\<exists>p. Metadata_Marshal pw md = Inr p" "\<exists>p. CompletionConfiguration_Marshal pw cc = Inr p"
  "\<exists>p. PromptCacheOptions_Marshal pw po = Inr p"
proof -
  obtain b1 where 1: "messageFields pw (stringField pw (varintField pw (stringField pw [] 1 (cp_MessageID m)) 2 (word_of_int (cp_Source m))) 3 (cp_Prompt m))
      6 (map (ChatToolCall_Marshal pw) (cp_ToolCalls m)) = Inr b1" using prompt_parts(1) by blast
  obtain p where 2: "marshal_ptr (PromptCacheOptions_Marshal pw) (cp_PromptCacheOptions m) = Inr p"
    by (cases "cp_PromptCacheOptions m") (simp_all add: marshal_ptr_def PromptCacheOptions_Marshal_def)
  obtain b3 where 3: "messageFields pw (varintField pw (stringField pw b1 7 (cp_ToolCallID m) @ pw_tag pw 8 BytesType @ pw_bytes pw p) 9
      (boolVarint (cp_ToolResultIsError m))) 10 (map (ImageData_Marshal pw) (cp_Images m)) = Inr b3" using prompt_parts(2) by blast
  show "\<exists>p. ChatMessagePrompt_Marshal pw m = Inr p"
    by (simp add: ChatMessagePrompt_Marshal_def Let_def 1 2 3 messageField_def del: sent_fields)
qed (simp_all add: ChatToolDefinition_Marshal_def Metadata_Marshal_def CompletionConfiguration_Marshal_def PromptCacheOptions_Marshal_def Let_def)

lemma marshal_ptr_total: "(\<And>x. \<exists>p. marshal x = Inr p) \<Longrightarrow> \<exists>p. marshal_ptr marshal m = Inr p"
  by (cases m) (simp_all add: marshal_ptr_def)

lemma request_encodable:
  assumes "cr_ToolChoice r = Some ch" "ch_OptionName ch = [] \<or> ch_ToolName ch = []"
  shows "\<exists>b. GetChatMessageRequest_Marshal pw r = Inr b"
proof -
  obtain m1 where 1: "marshal_ptr (Metadata_Marshal pw) (cr_Metadata r) = Inr m1" using marshal_ptr_total encodable_parts(3) by metis
  have msgs: "\<exists>p. messageFields pw b n (map (ChatMessagePrompt_Marshal pw) xs) = Inr p" "\<exists>p. messageFields pw b n (map (ChatToolDefinition_Marshal pw) ys) = Inr p" for b n xs ys
    by (rule messageFields_total, rule encodable_parts)+
  obtain m8 where 8: "marshal_ptr (CompletionConfiguration_Marshal pw) (cr_Configuration r) = Inr m8" using marshal_ptr_total encodable_parts(4) by metis
  obtain m12 where 12: "marshal_ptr (ChatToolChoice_Marshal pw) (cr_ToolChoice r) = Inr m12"
    using assms by (cases "ch_ToolName ch = []") (auto simp: marshal_ptr_def ChatToolChoice_Marshal_def)
  obtain m13 where 13: "marshal_ptr (PromptCacheOptions_Marshal pw) (cr_SystemPromptCacheOptions r) = Inr m13" using marshal_ptr_total encodable_parts(5) by metis
  let ?b1 = "stringField pw (pw_tag pw 1 BytesType @ pw_bytes pw m1) 2 (cr_Prompt r)"
  obtain b3 where 3: "messageFields pw ?b1 3 (map (ChatMessagePrompt_Marshal pw) (cr_ChatMessagePrompts r)) = Inr b3" using msgs(1) by blast
  let ?b8 = "varintField pw b3 7 (word_of_int (cr_RequestType r)) @ pw_tag pw 8 BytesType @ pw_bytes pw m8"
  obtain b10 where 10: "messageFields pw ?b8 10 (map (ChatToolDefinition_Marshal pw) (cr_Tools r)) = Inr b10" using msgs(2) by blast
  show ?thesis
    by (simp add: GetChatMessageRequest_Marshal_def messageField_def Let_def 1 3 8 10 12 13 del: sent_fields)
qed

text \<open>C27: A built request says what was asked. Whatever canonical request the builder accepts, the result
  carries exactly the session token and user JWT it was given and the requested model. It has one
  prompt for every input item, in order, which says what the item says and nothing else: its text,
  reasoning, tool call with valid arguments or tool result, and all its images, inline and in valid
  base64. The system prompt consists of the instructions among the items. There is one tool
  definition for every tool, in order, with its name, description, strictness and the text of its
  schema; the tool choice is the one asked for, automatic by default, and a chosen tool is defined
  (\<open>required\<close> is never accepted); the stop patterns are the default ones followed by those asked for. And
  the request can be encoded.\<close>

theorem built_request_faithful:
  assumes "BuildChatRequest c canonical sessionToken userJWT = Inr r"
  shows "cr_Metadata r = Some (chat_metadata sessionToken userJWT) \<and> cr_ChatModelUID r = str_field canonical ''model'' \<and> cr_ChatModelUID r \<noteq> []
    \<and> list_all2 (faithful_prompt c) (Array (jindex canonical ''input'')) (cr_ChatMessagePrompts r)
    \<and> cr_Prompt r = join_with [CHR 0x0A, CHR 0x0A] (instructions (Array (jindex canonical ''input'')))
    \<and> list_all2 (faithful_tool c) (Array (jindex canonical ''tools'')) (cr_Tools r)
    \<and> (\<exists>ch. cr_ToolChoice r = Some ch \<and> faithful_choice (jindex canonical ''tool_choice'') (cr_Tools r) ch)
    \<and> (\<exists>asked. cr_Configuration r = Some (chat_configuration (defaultStopPatterns @ asked)) \<and> faithful_stops (jindex canonical ''stop'') asked)
    \<and> (\<exists>b. GetChatMessageRequest_Marshal pw r = Inr b)"
proof -
  let ?id = "structuralID c (''cascade'' @ nul @ jc_print c (JObj canonical))"
  from assms obtain input prompts sys tools choice stops where model: "str_field canonical ''model'' \<noteq> []"
    and input: "jindex canonical ''input'' = JArr input" and p: "buildChatPrompts c input ?id = Inr (prompts, sys)"
    and tools: "buildTools c (jindex canonical ''tools'') = Inr tools"
    and choice: "buildToolChoice (jindex canonical ''tool_choice'') tools = Inr choice"
    and stops: "buildStops (jindex canonical ''stop'') = Inr stops"
    and r: "cr_Metadata r = Some (chat_metadata sessionToken userJWT)" "cr_ChatModelUID r = str_field canonical ''model''"
      "cr_ChatMessagePrompts r = prompts" "cr_Tools r = tools" "cr_ToolChoice r = Some choice" "cr_Configuration r = Some (chat_configuration stops)"
      "cr_Prompt r = sys"
    by (auto simp: BuildChatRequest_def Let_def returns_simps split: if_splits json.splits)
  note ch = buildToolChoice_ok [OF choice]
  have "ch_OptionName choice = [] \<or> ch_ToolName choice = []"
    using ch by (auto simp: faithful_choice_def option_choice_def split: json.splits)
  then have "\<exists>b. GetChatMessageRequest_Marshal pw r = Inr b" by (rule request_encodable [OF r(5)])
  with ch model r input buildChatPrompts_ok [OF p] buildTools_ok [OF tools] buildStops_ok [OF stops] show ?thesis
    by (auto simp: Array_def [of "JArr input"])
qed

definition sample_tool_request :: jobject where
  "sample_tool_request =
     [(''model'', JStr ''swe''),
      (''input'', JArr [obj [(''type'', JStr ''message''), (''role'', JStr ''system''),
          (''content'', JArr [obj [(''type'', JStr ''input_text''), (''text'', JStr ''be '')], obj [(''type'', JStr ''input_text''), (''text'', JStr ''brief'')]])],
        obj [(''type'', JStr ''function_call''), (''call_id'', JStr ''c1''), (''name'', JStr ''f''), (''arguments'', JStr ''{}'')]]),
      (''tools'', JArr [obj [(''type'', JStr ''function''), (''name'', JStr ''f''), (''parameters'', JObj [])]]),
      (''tool_choice'', obj [(''type'', JStr ''function''), (''name'', JStr ''f'')])]"

theorem built_request_faithful_witness:
  "\<exists>r. BuildChatRequest braces_codec sample_tool_request ''t'' ''j'' = Inr r \<and> map cp_Prompt (cr_ChatMessagePrompts r) = [''be brief'', []] \<and>
     map cp_ToolCalls (cr_ChatMessagePrompts r) = [[], [\<lparr>tc_ID = ''c1'', tc_Name = ''f'', tc_ArgumentsJSON = ''{}''\<rparr>]] \<and>
     (\<exists>b. GetChatMessageRequest_Marshal demo_wire r = Inr b)"
proof -
  let ?b = "BuildChatRequest braces_codec sample_tool_request ''t'' ''j''"
  have "isl ?b = False" by code_simp
  then obtain r where run: "?b = Inr r" by (cases ?b) auto
  have "map cp_Prompt (cr_ChatMessagePrompts (projr ?b)) = [''be brief'', []]"
    "map cp_ToolCalls (cr_ChatMessagePrompts (projr ?b)) = [[], [\<lparr>tc_ID = ''c1'', tc_Name = ''f'', tc_ArgumentsJSON = ''{}''\<rparr>]]" by code_simp+
  then have "map cp_Prompt (cr_ChatMessagePrompts r) = [''be brief'', []]"
    "map cp_ToolCalls (cr_ChatMessagePrompts r) = [[], [\<lparr>tc_ID = ''c1'', tc_Name = ''f'', tc_ArgumentsJSON = ''{}''\<rparr>]]"
    unfolding run sum.sel by this
  moreover have "\<exists>b. GetChatMessageRequest_Marshal demo_wire r = Inr b"
    using built_request_faithful [OF run, where pw = demo_wire] by (elim conjE)
  ultimately show ?thesis by (intro exI [of _ r] conjI run)
qed

end
