(* ===== verification/Devin_Client.thy ===== *)
theory Devin_Client
  imports Devin_Request Request_Source
begin

text \<open>
  The client of Devin's API: session tokens (\<open>internal/devin/session.go\<close>), trusted origins and
  addresses (\<open>internal/devin/trust.go\<close>), configuration, bootstrap and unary calls
  (\<open>internal/devin/client.go\<close>). URL, IP and HTTP date parsing, Unicode lower case and gzip are the
  parameter \<open>devin_net\<close>; the resolver, the dialer and the HTTP round trip are operations on the
  world. Time-outs are the context's and not modelled; a request for a valid URL can always be
  made. Of a TLS configuration the fields that are kept or reset are modelled.

  Shown: a connection is only ever dialled to a public address that was resolved for it;
  bootstrap credentials go to the fixed bootstrap origin only; unary responses
  stay within the configured limits; a client never keeps the unsafe parts of a transport.
\<close>

section \<open>The standard library\<close>

record url =
  u_Scheme :: string
  u_Host :: string
  u_Hostname :: string
  u_Port :: string
  u_User :: bool
  u_RawQuery :: string
  u_Fragment :: string
  u_Path :: string
  u_RawPath :: string

text \<open>
  \<open>dn_Gunzip\<close> (of one member, or of several) is \<open>None\<close> if \<open>gzip.NewReader\<close> fails; otherwise it has the bytes the reader yields,
  the error that ends them, whether \<open>Close\<close> succeeds and how much of the source is left over.
\<close>

record devin_net =
  dn_ParseURL :: "string \<Rightarrow> url option"
  dn_URLString :: "url \<Rightarrow> string"
  dn_IsIP :: "string \<Rightarrow> bool"
  dn_ToLower :: "string \<Rightarrow> string"
  dn_ParseTime :: "string \<Rightarrow> time option"
  dn_SplitHostPort :: "string \<Rightarrow> (string \<times> string) option"
  dn_Gunzip :: "bool \<Rightarrow> string \<Rightarrow> (string \<times> bool \<times> bool \<times> nat) option"

text \<open>\<open>strconv.ParseUint(value, 10, 31)\<close>.\<close>

definition is_digit :: "char \<Rightarrow> bool" where
  "is_digit c \<longleftrightarrow> 48 \<le> (of_char c :: int) \<and> (of_char c :: int) \<le> 57"

definition decimal :: "string \<Rightarrow> int" where
  "decimal s = foldl (\<lambda>n c. 10 * n + (of_char c - 48)) 0 s"

definition ParseUint31 :: "string \<Rightarrow> int option" where
  "ParseUint31 s = (if s \<noteq> [] \<and> list_all is_digit s \<and> decimal s < 2 ^ 31 then Some (decimal s) else None)"


section \<open>Session tokens\<close>

definition SessionTokenPrefix :: string where "SessionTokenPrefix = ''devin-session-token$''"

function strip_token :: "string \<Rightarrow> string" where
  "strip_token token =
     (if hasPrefix token SessionTokenPrefix then strip_token (trimSpace (trimPrefix token SessionTokenPrefix)) else token)"
  by pat_completeness auto

termination
proof (relation "measure length")
  fix token assume "hasPrefix token SessionTokenPrefix"
  then obtain rest where "token = SessionTokenPrefix @ rest" by (auto simp: hasPrefix_iff)
  then show "(trimSpace (trimPrefix token SessionTokenPrefix), token) \<in> measure length"
    using trimSpace_length [of rest] by (simp add: trimPrefix_def SessionTokenPrefix_def)
qed simp

declare strip_token.simps [simp del]

abbreviation ErrSessionTokenRequired :: go_error where
  "ErrSessionTokenRequired \<equiv> Sentinel ''devin session token is required''"

definition NormalizeSessionToken :: "string \<Rightarrow> go_error + string" where
  "NormalizeSessionToken token =
     (let t = strip_token (trimSpace token) in
      if t = [] then Inl ErrSessionTokenRequired else Inr (SessionTokenPrefix @ t))"

lemma strip_token_props:
  assumes "trimSpace token = token"
  shows "trimSpace (strip_token token) = strip_token token \<and> \<not> hasPrefix (strip_token token) SessionTokenPrefix"
  using assms
proof (induction token rule: strip_token.induct)
  case (1 token)
  then show ?case by (subst (1 2 3) strip_token.simps) (simp add: trimSpace_idem)
qed

text \<open>A normalized token is a fixed point.\<close>

lemma NormalizeSessionToken_idem:
  assumes "NormalizeSessionToken token = Inr t" "trimSpace t = t"
  shows "NormalizeSessionToken t = Inr t"
proof -
  obtain s where s: "t = SessionTokenPrefix @ s" "s = strip_token (trimSpace token)" "s \<noteq> []"
    using assms(1) by (auto simp: NormalizeSessionToken_def Let_def split: if_splits)
  have p: "trimSpace s = s" "\<not> hasPrefix s SessionTokenPrefix"
    using strip_token_props [of "trimSpace token"] by (simp_all add: s(2) trimSpace_idem)
  have "strip_token t = strip_token s"
    by (subst strip_token.simps) (simp add: s(1) trimPrefix_def p(1))
  also have "\<dots> = s" by (subst strip_token.simps) (simp add: p(2))
  finally show ?thesis using s assms(2) by (simp add: NormalizeSessionToken_def)
qed


definition SourceMetadata :: "string \<Rightarrow> go_error + metadata" where
  "SourceMetadata sessionToken = orFail (NormalizeSessionToken sessionToken) (\<lambda>normalized. Inr (chat_metadata normalized []))"


section \<open>Trusted origins\<close>

definition DefaultBaseURL :: string where "DefaultBaseURL = ''https://server.codeium.com''"
definition defaultBaseHost :: string where "defaultBaseHost = ''server.codeium.com''"

abbreviation ErrUntrustedOrigin :: go_error where "ErrUntrustedOrigin \<equiv> Sentinel ''devin API origin is not trusted''"

text \<open>\<open>IsAbs\<close> is that the scheme is not empty.\<close>

definition validateHTTPSOrigin :: "devin_net \<Rightarrow> string \<Rightarrow> string list \<Rightarrow> go_error + url" where
  "validateHTTPSOrigin dn raw allowedHosts =
     (case dn_ParseURL dn raw of
        None \<Rightarrow> Inl ErrUntrustedOrigin
      | Some u \<Rightarrow>
          let host = u_Hostname u in
          if u_Scheme u = [] \<or> u_Scheme u \<noteq> ''https'' \<or> u_Host u = [] \<or> u_User u \<or> u_RawQuery u \<noteq> [] \<or> u_Fragment u \<noteq> [] \<or>
             (u_Path u \<noteq> [] \<and> u_Path u \<noteq> ''/'') \<or> u_RawPath u \<noteq> [] then Inl ErrUntrustedOrigin
          else if host = [] \<or> dn_IsIP dn host \<or> u_Port u \<noteq> [] \<or> host \<noteq> defaultBaseHost \<and> host \<notin> set allowedHosts
          then Inl ErrUntrustedOrigin
          else Inr (u\<lparr>u_Path := []\<rparr>))"

definition ValidateAuthOrigin :: "devin_net \<Rightarrow> go_error + url" where
  "ValidateAuthOrigin dn = validateHTTPSOrigin dn DefaultBaseURL []"

definition ValidateAPIOrigin :: "devin_net \<Rightarrow> string \<Rightarrow> string list \<Rightarrow> go_error + url" where
  "ValidateAPIOrigin dn raw allowedHosts =
     validateHTTPSOrigin dn (if trimSpace raw = [] then DefaultBaseURL else raw) allowedHosts"


section \<open>Public addresses\<close>

definition octet :: "nat \<Rightarrow> string \<Rightarrow> int" where "octet i b = of_char (b ! i)"

text \<open>\<open>netip.Addr.IsPrivate\<close> and \<open>IsGlobalUnicast\<close> of an address that is not IPv4-mapped.\<close>

fun IsPrivate :: "addr \<Rightarrow> bool" where
  "IsPrivate AddrZero = False"
| "IsPrivate (Addr4 b) \<longleftrightarrow> octet 0 b = 10 \<or> (octet 0 b = 172 \<and> octet 1 b div 16 = 1) \<or> (octet 0 b = 192 \<and> octet 1 b = 168)"
| "IsPrivate (Addr6 b _) \<longleftrightarrow> octet 0 b div 2 = 126"

fun IsLoopback :: "addr \<Rightarrow> bool" where
  "IsLoopback AddrZero = False"
| "IsLoopback (Addr4 b) \<longleftrightarrow> octet 0 b = 127"
| "IsLoopback (Addr6 b _) \<longleftrightarrow> b = replicate 15 (CHR 0x00) @ [CHR 0x01]"

fun IsMulticast :: "addr \<Rightarrow> bool" where
  "IsMulticast AddrZero = False"
| "IsMulticast (Addr4 b) \<longleftrightarrow> octet 0 b div 16 = 14"
| "IsMulticast (Addr6 b _) \<longleftrightarrow> octet 0 b = 255"

fun IsLinkLocalUnicast :: "addr \<Rightarrow> bool" where
  "IsLinkLocalUnicast AddrZero = False"
| "IsLinkLocalUnicast (Addr4 b) \<longleftrightarrow> octet 0 b = 169 \<and> octet 1 b = 254"
| "IsLinkLocalUnicast (Addr6 b _) \<longleftrightarrow> octet 0 b = 254 \<and> octet 1 b div 64 = 2"

definition IsGlobalUnicast :: "addr \<Rightarrow> bool" where
  "IsGlobalUnicast a \<longleftrightarrow> a \<noteq> AddrZero \<and> a \<noteq> Addr4 (replicate 4 (CHR 0x00)) \<and> a \<noteq> Addr4 (replicate 4 (CHR 0xFF)) \<and>
     a \<noteq> Addr6 (replicate 16 (CHR 0x00)) [] \<and> \<not> IsLoopback a \<and> \<not> IsMulticast a \<and> \<not> IsLinkLocalUnicast a"

definition v4_prefix :: "nat list \<Rightarrow> int \<Rightarrow> prefix" where "v4_prefix bs n = PrefixFrom (Addr4 (map char_of bs)) n"
definition v6_prefix :: "nat list \<Rightarrow> int \<Rightarrow> prefix" where
  "v6_prefix bs n = PrefixFrom (Addr6 (map char_of bs @ replicate (16 - length bs) (CHR 0x00)) []) n"

definition nonPublicPrefixes :: "prefix list" where
  "nonPublicPrefixes =
     [v4_prefix [0, 0, 0, 0] 8, v4_prefix [100, 64, 0, 0] 10, v4_prefix [192, 0, 0, 0] 24, v4_prefix [192, 0, 2, 0] 24,
      v4_prefix [198, 18, 0, 0] 15, v4_prefix [198, 51, 100, 0] 24, v4_prefix [203, 0, 113, 0] 24, v4_prefix [240, 0, 0, 0] 4,
      v6_prefix [0x20, 0x01, 0x0D, 0xB8] 32, v6_prefix [0x20, 0x01, 0x00, 0x02] 48]"

definition isPublicAddress :: "addr \<Rightarrow> bool" where
  "isPublicAddress address0 =
     (let address = Unmap address0 in
      if address = AddrZero \<or> \<not> IsGlobalUnicast address \<or> IsPrivate address then False
      else \<not> list_ex (\<lambda>p. prefix_Contains p address) nonPublicPrefixes)"

definition publicAddresses :: "(string \<Rightarrow> ('w, go_error, addr list) op) \<Rightarrow> string \<Rightarrow> ('w, go_error, addr list) op" where
  "publicAddresses lookup host =
     attempt (lookup host) (\<lambda>r. case r of
         Inl e \<Rightarrow> raise ErrUntrustedOrigin
       | Inr addresses \<Rightarrow>
           if addresses = [] \<or> list_ex (\<lambda>a. \<not> isPublicAddress a) addresses then raise ErrUntrustedOrigin else ret addresses)"

text \<open>The dialer gets an address and a port.\<close>

fun dial_addresses :: "(addr \<Rightarrow> string \<Rightarrow> ('w, go_error, 'c) op) \<Rightarrow> string \<Rightarrow> addr list \<Rightarrow> go_error list \<Rightarrow> ('w, go_error, 'c) op" where
  "dial_addresses dial port [] failed = raise (Wrapf ''devin trusted dial failed'' failed)"
| "dial_addresses dial port (ip # ips) failed =
     attempt (dial ip port) (\<lambda>r. case r of Inr conn \<Rightarrow> ret conn | Inl dialErr \<Rightarrow> dial_addresses dial port ips [dialErr])"

definition trustedDialer :: "devin_net \<Rightarrow> (string \<Rightarrow> ('w, go_error, addr list) op) \<Rightarrow> (addr \<Rightarrow> string \<Rightarrow> ('w, go_error, 'c) op) \<Rightarrow>
    string \<Rightarrow> ('w, go_error, 'c) op" where
  "trustedDialer dn lookup dial address =
     (case dn_SplitHostPort dn address of
        None \<Rightarrow> raise ErrUntrustedOrigin
      | Some (host, port) \<Rightarrow> andThen (publicAddresses lookup host) (\<lambda>addresses. dial_addresses dial port addresses []))"

section \<open>Configuration\<close>

record client_config =
  gc_UnaryTimeout :: duration
  gc_MaxCompressedBytes :: int
  gc_MaxDecompressedBytes :: int
  gc_StreamIdleTimeout :: duration
  gc_StreamDeadline :: duration
  gc_MaxFrameCompressedBytes :: int
  gc_MaxFrameDecompressedBytes :: int
  gc_MaxStreamBytes :: int
  gc_MaxToolArgumentBytes :: int
  gc_MaxNonStreamBytes :: int
  gc_AllowedChatHosts :: "string list"

definition within :: "int \<Rightarrow> int \<Rightarrow> int \<Rightarrow> bool" where "within lo x hi \<longleftrightarrow> lo \<le> x \<and> x \<le> hi"

definition kib :: int where "kib = 1024"
definition mib :: int where "mib = 1024 * kib"

definition validClientConfig :: "client_config \<Rightarrow> bool" where
  "validClientConfig cfg \<longleftrightarrow>
     within second (gc_UnaryTimeout cfg) minute \<and>
     within kib (gc_MaxCompressedBytes cfg) (8 * mib) \<and>
     within kib (gc_MaxDecompressedBytes cfg) (32 * mib) \<and>
     within (5 * second) (gc_StreamIdleTimeout cfg) (5 * minute) \<and>
     (gc_StreamDeadline cfg = 0 \<or> within (30 * second) (gc_StreamDeadline cfg) (30 * minute)) \<and>
     within kib (gc_MaxFrameCompressedBytes cfg) (16 * mib) \<and>
     within kib (gc_MaxFrameDecompressedBytes cfg) (64 * mib) \<and>
     within mib (gc_MaxStreamBytes cfg) (256 * mib) \<and>
     within kib (gc_MaxToolArgumentBytes cfg) (16 * mib) \<and>
     within mib (gc_MaxNonStreamBytes cfg) (128 * mib)"

text \<open>
  What \<open>NewClient\<close> reads and writes of an HTTP transport: the TLS dial and protocol hooks, the root
  certificates, the verification-bypass flag, the proxy, and which dialer is used.
\<close>

record transport =
  tp_DialTLS :: bool
  tp_TLSNextProto :: bool
  tp_RootCAs :: "string option"
  tp_InsecureSkipVerify :: bool
  tp_OtherTLSFields :: bool
  tp_MinTLS12 :: bool
  tp_Proxy :: bool
  tp_TrustedDialer :: bool
  tp_ForceHTTP2 :: bool
  tp_HeaderTimeout :: duration

datatype round_tripper = NoTripper | Transport transport | OtherTripper

record http_client =
  hc_Transport :: transport
  hc_Timeout :: duration
  hc_RefuseRedirects :: bool

record devin_client =
  dc_http :: http_client
  dc_allowedHosts :: "string list"
  dc_config :: client_config

abbreviation ErrUnsafeTLSDialHooks :: go_error where "ErrUnsafeTLSDialHooks \<equiv> Sentinel ''Devin HTTP transport TLS dial hooks are not allowed''"
abbreviation ErrUnsafeTLSNextProto :: go_error where "ErrUnsafeTLSNextProto \<equiv> Sentinel ''Devin HTTP transport TLS protocol hooks are not allowed''"

definition host_refused :: "devin_net \<Rightarrow> string \<Rightarrow> bool" where
  "host_refused dn host \<longleftrightarrow> host = [] \<or> host \<noteq> trimSpace host \<or> dn_ToLower dn host \<noteq> host \<or> dn_IsIP dn host \<or> CHR '':'' \<in> set host"

definition harden :: "duration \<Rightarrow> transport \<Rightarrow> transport" where
  "harden timeout t =
     t\<lparr>tp_InsecureSkipVerify := False, tp_OtherTLSFields := False, tp_MinTLS12 := True, tp_Proxy := False, tp_TrustedDialer := True,
       tp_ForceHTTP2 := True, tp_HeaderTimeout := timeout\<rparr>"

text \<open>The base is no client, or a client with its transport; \<open>standard\<close> is \<open>http.DefaultTransport\<close>.\<close>

definition base_transport :: "transport \<Rightarrow> round_tripper option \<Rightarrow> go_error + transport" where
  "base_transport standard base =
     (case base of
        None \<Rightarrow> Inr standard
      | Some NoTripper \<Rightarrow> Inr standard
      | Some OtherTripper \<Rightarrow> Inl ErrInvalidClientConfig
      | Some (Transport t) \<Rightarrow>
          if tp_DialTLS t then Inl ErrUnsafeTLSDialHooks
          else if tp_TLSNextProto t then Inl ErrUnsafeTLSNextProto
          else Inr t)"

definition NewDevinClient :: "devin_net \<Rightarrow> transport \<Rightarrow> round_tripper option \<Rightarrow> client_config \<Rightarrow> go_error + devin_client" where
  "NewDevinClient dn standard base cfg =
     (if \<not> validClientConfig cfg \<or> gc_AllowedChatHosts cfg = [] then Inl ErrInvalidClientConfig
      else if list_ex (host_refused dn) (gc_AllowedChatHosts cfg) then Inl ErrInvalidClientConfig
      else orFail (base_transport standard base) (\<lambda>t.
        Inr \<lparr>dc_http = \<lparr>hc_Transport = harden (gc_UnaryTimeout cfg) t, hc_Timeout = 0, hc_RefuseRedirects = True\<rparr>,
             dc_allowedHosts = gc_AllowedChatHosts cfg, dc_config = cfg\<rparr>))"


section \<open>Unary calls\<close>

abbreviation ErrRedirect :: go_error where "ErrRedirect \<equiv> Sentinel ''Devin API redirects are not allowed''"
abbreviation ErrResponseTooLarge :: go_error where "ErrResponseTooLarge \<equiv> Sentinel ''Devin API response exceeds configured limit''"
abbreviation ErrMalformedResponse :: go_error where "ErrMalformedResponse \<equiv> Sentinel ''malformed Devin API response''"
abbreviation ErrEmptyUserJWT :: go_error where "ErrEmptyUserJWT \<equiv> Sentinel ''Devin API returned an empty user JWT''"

text \<open>A reader: the bytes it yields and whether an error ends them.\<close>

definition readBounded :: "string \<Rightarrow> bool \<Rightarrow> int \<Rightarrow> go_error + string" where
  "readBounded bytes failing limit =
     (if failing \<and> int (length bytes) < limit + 1 then Inl ErrMalformedResponse
      else if int (length bytes) > limit then Inl ErrResponseTooLarge
      else Inr bytes)"

definition decodeUnaryBody :: "devin_net \<Rightarrow> string \<Rightarrow> string \<Rightarrow> int \<Rightarrow> go_error + string" where
  "decodeUnaryBody dn body encoding0 limit =
     (let encoding = dn_ToLower dn (trimSpace encoding0); gzipped = hasPrefix body [CHR 0x1F, CHR 0x8B] in
      if encoding \<noteq> [] \<and> encoding \<noteq> ''identity'' \<and> encoding \<noteq> ''gzip'' then Inl ErrMalformedResponse
      else if encoding \<noteq> ''gzip'' \<and> \<not> gzipped then
        (if int (length body) > limit then Inl ErrResponseTooLarge else Inr body)
      else case dn_Gunzip dn False body of
        None \<Rightarrow> Inl ErrMalformedResponse
      | Some (bytes, failing, closeOk, left) \<Rightarrow>
          orFail (readBounded bytes failing limit) (\<lambda>decoded.
            if \<not> closeOk \<or> left \<noteq> 0 then Inl ErrMalformedResponse else Inr decoded))"

definition parseRetryAfter :: "devin_net \<Rightarrow> string \<Rightarrow> time \<Rightarrow> time option" where
  "parseRetryAfter dn value0 now =
     (let val = trimSpace value0 in
      if val = [] then None
      else case ParseUint31 val of
        Some seconds \<Rightarrow> Some (now + seconds * second)
      | None \<Rightarrow> map_option (\<lambda>parsed. if time_before parsed now then now else parsed) (dn_ParseTime dn val))"

definition status_failure :: "int \<Rightarrow> error_classification \<Rightarrow> go_error" where
  "status_failure status cl = UpstreamE \<lparr>ue_Provider = Devin, ue_Status = status, ue_Classification = cl\<rparr>"

definition upstream_problem :: error_classification where
  "upstream_problem = empty_classification\<lparr>ec_Class := ClassUpstream, ec_PublicStatus := 502, ec_PublicCode := ''provider_error'',
     ec_PublicMessage := ''upstream provider error''\<rparr>"

definition status_classification :: "devin_net \<Rightarrow> int \<Rightarrow> string \<Rightarrow> time \<Rightarrow> error_classification" where
  "status_classification dn status retryAfter now =
     (if status = 400 \<or> status = 404 then
        upstream_problem\<lparr>ec_Class := ClassValidation, ec_PublicStatus := 400, ec_PublicCode := ''invalid_request_error'',
          ec_PublicMessage := ''invalid model or request payload''\<rparr>
      else if status = 401 \<or> status = 403 then
        upstream_problem\<lparr>ec_Class := ClassUnauthorized, ec_RetryNext := True, ec_RefreshSame := True, ec_DisableAccount := True,
          ec_ReloginRequired := True, ec_CooldownScope := CooldownAccount, ec_PublicStatus := 401,
          ec_PublicCode := ''provider_authentication_error'', ec_PublicMessage := ''provider authentication is required''\<rparr>
      else if status = 429 then
        let cl = upstream_problem\<lparr>ec_Class := ClassRateLimit, ec_RetryNext := True, ec_CooldownScope := CooldownModel, ec_PublicStatus := 429,
              ec_PublicCode := ''rate_limit_exceeded'', ec_PublicMessage := ''all available accounts are rate limited''\<rparr> in
        case parseRetryAfter dn retryAfter now of
          None \<Rightarrow> cl
        | Some retryAt \<Rightarrow> cl\<lparr>ec_ExplicitRetryAfter := True, ec_RetryAfter := retryAt, ec_Cooldown := time_sub retryAt now\<rparr>
      else if status = 408 \<or> status = 500 \<or> status = 502 \<or> status = 503 \<or> status = 504 then
        upstream_problem\<lparr>ec_Class := ClassTransient, ec_RetryNext := True, ec_CooldownScope := CooldownModel, ec_Cooldown := minute,
          ec_PublicStatus := 503, ec_PublicCode := ''provider_unavailable''\<rparr>
      else upstream_problem)"

definition classifyStatus :: "devin_net \<Rightarrow> int \<Rightarrow> string \<Rightarrow> time \<Rightarrow> go_error" where
  "classifyStatus dn status retryAfter now = status_failure status (status_classification dn status retryAfter now)"

text \<open>A response with the headers that are read, and the bytes and failure of its body.\<close>

record api_response =
  ap_Status :: int
  ap_RetryAfter :: string
  ap_ContentEncoding :: string
  ap_Body :: string
  ap_BodyFails :: bool

record api_request =
  aq_URL :: string
  aq_Headers :: "(string \<times> string) list"
  aq_Body :: string

definition transport_error :: "go_error \<Rightarrow> go_error" where
  "transport_error err =
     (if errors_is err ErrRedirect then ErrRedirect
      else if errors_is err ErrCanceled then ErrCanceled
      else if errors_is err ErrDeadlineExceeded then ErrDeadlineExceeded
      else Wrapf ''Devin API transport'' [err])"

definition read_response :: "devin_net \<Rightarrow> devin_client \<Rightarrow> time \<Rightarrow> api_response \<Rightarrow> go_error + string" where
  "read_response dn dc now response =
     (if ap_Status response < 200 \<or> ap_Status response \<ge> 300 then Inl (classifyStatus dn (ap_Status response) (ap_RetryAfter response) now)
      else orFail (readBounded (ap_Body response) (ap_BodyFails response) (gc_MaxCompressedBytes (dc_config dc))) (\<lambda>compressed.
        decodeUnaryBody dn compressed (ap_ContentEncoding response) (gc_MaxDecompressedBytes (dc_config dc))))"

definition unary_request :: "string \<Rightarrow> string \<Rightarrow> api_request" where
  "unary_request endpoint payload =
     \<lparr>aq_URL = endpoint, aq_Headers = [(''Content-Type'', ''application/proto''), (''Connect-Protocol-Version'', ''1''), (''Accept'', ''*/*'')],
      aq_Body = payload\<rparr>"

type_synonym 'w round_trip = "api_request \<Rightarrow> ('w, go_error, api_response) op"

definition postUnaryProto :: "devin_net \<Rightarrow> devin_client \<Rightarrow> 'w round_trip \<Rightarrow> time \<Rightarrow> string \<Rightarrow> string \<Rightarrow> ('w, go_error, string) op" where
  "postUnaryProto dn dc send now endpoint payload =
     attempt (send (unary_request endpoint payload)) (\<lambda>r. case r of
         Inl err \<Rightarrow> raise (transport_error err)
       | Inr response \<Rightarrow> (\<lambda>w. (read_response dn dc now response, w)))"

record auth_session =
  as_UserJWT :: string
  as_APIBaseURL :: string
  as_SessionToken :: string

definition AuthServiceGetUserJWTPath :: string where "AuthServiceGetUserJWTPath = ''/exa.auth_pb.AuthService/GetUserJwt''"
definition APIServiceGetChatMessagePath :: string where
  "APIServiceGetChatMessagePath = ''/exa.api_server_pb.ApiServerService/GetChatMessage''"

text \<open>The JWT decoder ends (\<open>frames_decoded\<close>), so \<open>the\<close> picks its answer.\<close>

definition session_of :: "devin_net \<Rightarrow> protowire \<Rightarrow> devin_client \<Rightarrow> string \<Rightarrow> string \<Rightarrow> go_error + auth_session" where
  "session_of dn pw dc normalized body =
     (case the (GetUserJWTResponse_Unmarshal pw body) of
        Inl e \<Rightarrow> Inl ErrMalformedResponse
      | Inr response \<Rightarrow>
          if trimSpace (jr_UserJWT response) = [] then Inl ErrEmptyUserJWT
          else orFail (ValidateAPIOrigin dn (jr_CustomAPIServerURL response) (dc_allowedHosts dc)) (\<lambda>apiBase.
            Inr \<lparr>as_UserJWT = jr_UserJWT response, as_APIBaseURL = dn_URLString dn apiBase, as_SessionToken = normalized\<rparr>))"

definition GetUserJWT :: "devin_net \<Rightarrow> protowire \<Rightarrow> devin_client \<Rightarrow> 'w round_trip \<Rightarrow> time \<Rightarrow> string \<Rightarrow> ('w, go_error, auth_session) op" where
  "GetUserJWT dn pw dc send now sessionToken w =
     (case SourceMetadata sessionToken of
        Inl e \<Rightarrow> (Inl e, w)
      | Inr md \<Rightarrow>
          (case GetUserJWTRequest_Marshal pw (Some md) of
             Inl e \<Rightarrow> (Inl ErrResponseTooLarge, w)
           | Inr requestBody \<Rightarrow>
               if int (length requestBody) > gc_MaxCompressedBytes (dc_config dc) then (Inl ErrResponseTooLarge, w)
               else (case ValidateAuthOrigin dn of
                   Inl e \<Rightarrow> (Inl e, w)
                 | Inr base \<Rightarrow>
                     andThen (postUnaryProto dn dc send now (dn_URLString dn base @ AuthServiceGetUserJWTPath) requestBody)
                       (\<lambda>body w. (session_of dn pw dc (md_APIKey md) body, w)) w)))"

definition PrepareChatRequest :: "devin_net \<Rightarrow> protowire \<Rightarrow> json_codec \<Rightarrow> devin_client \<Rightarrow> 'w round_trip \<Rightarrow> time \<Rightarrow> string \<Rightarrow> jobject \<Rightarrow>
    ('w, go_error, chat_request \<times> url) op" where
  "PrepareChatRequest dn pw c dc send now sessionToken canonical =
     andThen (GetUserJWT dn pw dc send now sessionToken) (\<lambda>auth w.
       (orFail (ValidateAPIOrigin dn (as_APIBaseURL auth) (dc_allowedHosts dc)) (\<lambda>origin.
        orFail (BuildChatRequest c canonical (as_SessionToken auth) (as_UserJWT auth)) (\<lambda>request. Inr (request, origin))), w))"

section \<open>Connections\<close>

text \<open>The dialled addresses, noted beside the world.\<close>

definition logged_dial :: "(addr \<Rightarrow> string \<Rightarrow> ('w, go_error, 'c) op) \<Rightarrow> addr \<Rightarrow> string \<Rightarrow> ('w \<times> (addr \<times> string) list, go_error, 'c) op" where
  "logged_dial dial ip port = (\<lambda>(w, log). case dial ip port w of (r, w') \<Rightarrow> (r, (w', log @ [(ip, port)])))"

definition beside :: "('w, 'e, 'a) op \<Rightarrow> ('w \<times> 'l, 'e, 'a) op" where
  "beside m = (\<lambda>(w, log). case m w of (r, w') \<Rightarrow> (r, (w', log)))"

lemma dial_addresses_log:
  assumes "dial_addresses (logged_dial dial) port ips failed (w, log) = (r, (w', log'))"
  shows "\<exists>tried rest. ips = tried @ rest \<and> log' = log @ map (\<lambda>ip. (ip, port)) tried"
  using assms
proof (induction ips arbitrary: failed w log)
  case Nil
  then show ?case by (simp add: raise_def)
next
  case (Cons ip ips)
  obtain d w1 where "dial ip port w = (d, w1)" by fastforce
  then have d: "logged_dial dial ip port (w, log) = (d, (w1, log @ [(ip, port)]))" by (simp add: logged_dial_def)
  show ?case
  proof (cases d)
    case (Inl e)
    then have "dial_addresses (logged_dial dial) port ips [e] (w1, log @ [(ip, port)]) = (r, (w', log'))"
      using Cons.prems by (simp add: attempt_def d)
    from Cons.IH [OF this] obtain tried rest where "ips = tried @ rest" "log' = (log @ [(ip, port)]) @ map (\<lambda>ip. (ip, port)) tried"
      by blast
    then have "ip # ips = (ip # tried) @ rest \<and> log' = log @ map (\<lambda>ip. (ip, port)) (ip # tried)" by simp
    then show ?thesis by blast
  next
    case (Inr conn)
    then have "log' = log @ map (\<lambda>ip. (ip, port)) [ip]" using Cons.prems by (simp add: attempt_def d ret_def)
    then show ?thesis by (intro exI [of _ "[ip]"] exI [of _ ips]) simp
  qed
qed

text \<open>C26: Devin connections go to public addresses. Whatever the resolver answers and however dialling
  goes, the dialer of the client resolves the host once and dials, in order, only addresses of
  that answer with the port it was asked for, each of them a valid global unicast address that
  is not private, loopback, link-local, multicast or in a reserved network; if the answer is empty
  or contains any other address, nothing is dialled.
\<close>

theorem dials_public_addresses:
  assumes "trustedDialer dn (\<lambda>host. beside (lookup host)) (logged_dial dial) address (w, []) = (r, (w', log))"
  shows "log = [] \<or> (\<exists>host port addresses w1 rest. dn_SplitHostPort dn address = Some (host, port) \<and> lookup host w = (Inr addresses, w1) \<and>
    addresses = map fst log @ rest \<and> (\<forall>a\<in>set addresses. isPublicAddress a \<and> \<not> IsPrivate (Unmap a) \<and> \<not> IsLoopback (Unmap a) \<and>
      \<not> IsLinkLocalUnicast (Unmap a) \<and> Unmap a \<noteq> AddrZero) \<and> (\<forall>d\<in>set log. snd d = port))"
proof (cases "dn_SplitHostPort dn address")
  case None
  then show ?thesis using assms by (simp add: trustedDialer_def raise_def)
next
  case (Some hp)
  obtain host port where hp: "hp = (host, port)" by fastforce
  obtain l w1 where l: "lookup host w = (l, w1)" by fastforce
  show ?thesis
  proof (cases "\<exists>as. l = Inr as \<and> as \<noteq> [] \<and> list_all isPublicAddress as")
    case True
    then obtain as where as: "l = Inr as" "as \<noteq> []" "list_all isPublicAddress as" by blast
    then have "dial_addresses (logged_dial dial) port as [] (w1, []) = (r, (w', log))"
      using assms Some hp l by (simp add: trustedDialer_def publicAddresses_def andThen_def attempt_def beside_def ret_def list_all_iff list_ex_iff)
    from dial_addresses_log [OF this] obtain tried rest where t: "as = tried @ rest" "log = map (\<lambda>ip. (ip, port)) tried" by auto
    have "isPublicAddress a \<and> \<not> IsPrivate (Unmap a) \<and> \<not> IsLoopback (Unmap a) \<and> \<not> IsLinkLocalUnicast (Unmap a) \<and> Unmap a \<noteq> AddrZero"
      if "a \<in> set as" for a
      using as(3) that by (auto simp: list_all_iff isPublicAddress_def IsGlobalUnicast_def Let_def split: if_splits)
    then have "dn_SplitHostPort dn address = Some (host, port) \<and> lookup host w = (Inr as, w1) \<and> as = map fst log @ rest \<and>
        (\<forall>a\<in>set as. isPublicAddress a \<and> \<not> IsPrivate (Unmap a) \<and> \<not> IsLoopback (Unmap a) \<and>
          \<not> IsLinkLocalUnicast (Unmap a) \<and> Unmap a \<noteq> AddrZero) \<and> (\<forall>d\<in>set log. snd d = port)"
      using Some hp l as(1) t by (auto simp: comp_def)
    then show ?thesis by blast
  next
    case False
    then have "log = []"
      using assms Some hp l
      by (cases l) (auto simp: trustedDialer_def publicAddresses_def andThen_def attempt_def beside_def raise_def list_all_iff list_ex_iff split: if_splits)
    then show ?thesis ..
  qed
qed

section \<open>Credentials\<close>

definition logged_send :: "'w round_trip \<Rightarrow> ('w \<times> api_request list) round_trip" where
  "logged_send send q = (\<lambda>(w, log). case send q w of (r, w') \<Rightarrow> (r, (w', log @ [q])))"

definition origin_ok :: "devin_net \<Rightarrow> string list \<Rightarrow> url \<Rightarrow> bool" where
  "origin_ok dn hosts u \<longleftrightarrow> u_Scheme u = ''https'' \<and> u_Hostname u \<in> insert defaultBaseHost (set hosts) \<and> u_Hostname u \<noteq> [] \<and>
     \<not> dn_IsIP dn (u_Hostname u) \<and> u_Port u = [] \<and> \<not> u_User u \<and> u_Path u = [] \<and> u_RawQuery u = [] \<and> u_Fragment u = []"

lemma validateHTTPSOrigin_ok: "validateHTTPSOrigin dn raw hosts = Inr u \<Longrightarrow> origin_ok dn hosts u"
  by (auto simp: validateHTTPSOrigin_def origin_ok_def Let_def split: option.splits if_splits)

lemma GetUserJWT_sends:
  assumes "GetUserJWT dn pw dc (logged_send send) now tok (w, []) = (r, (w', log))"
  shows "(\<forall>q\<in>set log. \<exists>u payload. ValidateAuthOrigin dn = Inr u \<and> q = unary_request (dn_URLString dn u @ AuthServiceGetUserJWTPath) payload) \<and>
    length log \<le> 1 \<and> (\<forall>auth. r = Inr auth \<longrightarrow> NormalizeSessionToken tok = Inr (as_SessionToken auth) \<and> trimSpace (as_UserJWT auth) \<noteq> [])"
proof (cases "SourceMetadata tok")
  case (Inr md)
  have key: "NormalizeSessionToken tok = Inr (md_APIKey md)" using Inr by (auto simp: SourceMetadata_def returns_simps chat_metadata_def)
  show ?thesis
  proof (cases "GetUserJWTRequest_Marshal pw (Some md)")
    case body: (Inr b)
    show ?thesis
    proof (cases "int (length b) > gc_MaxCompressedBytes (dc_config dc)")
      case fits: False
      show ?thesis
      proof (cases "ValidateAuthOrigin dn")
        case base: (Inr u)
        let ?q = "unary_request (dn_URLString dn u @ AuthServiceGetUserJWTPath) b"
        obtain s w1 where s: "send ?q w = (s, w1)" by fastforce
        have run: "andThen (postUnaryProto dn dc (logged_send send) now (dn_URLString dn u @ AuthServiceGetUserJWTPath) b)
            (\<lambda>body w. (session_of dn pw dc (md_APIKey md) body, w)) (w, []) = (r, (w', log))"
          using assms Inr body fits base by (simp add: GetUserJWT_def)
        then have "log = [?q]"
          using s by (cases s) (auto simp: postUnaryProto_def attempt_def andThen_def raise_def logged_send_def split: sum.splits)
        moreover have "\<forall>auth. r = Inr auth \<longrightarrow> as_SessionToken auth = md_APIKey md \<and> trimSpace (as_UserJWT auth) \<noteq> []"
          using run s by (cases s) (auto simp: postUnaryProto_def attempt_def andThen_def raise_def logged_send_def session_of_def returns_simps
            split: sum.splits if_splits)
        ultimately show ?thesis using base key by auto
      qed (use assms Inr body fits in \<open>auto simp: GetUserJWT_def\<close>)
    qed (use assms Inr body in \<open>auto simp: GetUserJWT_def\<close>)
  qed (use assms Inr in \<open>auto simp: GetUserJWT_def\<close>)
qed (use assms in \<open>auto simp: GetUserJWT_def\<close>)

text \<open>
  Devin credentials stay with trusted origins. Preparing a chat request makes at most one HTTP
  request, to the fixed bootstrap origin (HTTPS, \<open>server.codeium.com\<close>, no port, no user); if it
  succeeds, the chat origin is an HTTPS origin of that host or of a configured one, never an IP
  address, and the wire request carries the normalized session token and a JWT that is not blank.
  This holds whatever the server answers.
\<close>

lemma prepare_trusted:
  assumes "PrepareChatRequest dn pw c dc (logged_send send) now sessionToken canonical (w, []) = (r, (w', log))"
  shows "length log \<le> 1
    \<and> (\<forall>q\<in>set log. \<exists>u. origin_ok dn [] u \<and> u_Hostname u = defaultBaseHost \<and> aq_URL q = dn_URLString dn u @ AuthServiceGetUserJWTPath)
    \<and> (\<forall>request origin. r = Inr (request, origin) \<longrightarrow> origin_ok dn (dc_allowedHosts dc) origin \<and>
         (\<exists>t jwt. NormalizeSessionToken sessionToken = Inr t \<and> trimSpace jwt \<noteq> [] \<and> cr_Metadata request = Some (chat_metadata t jwt)))"
proof -
  obtain a w1 log1 where a: "GetUserJWT dn pw dc (logged_send send) now sessionToken (w, []) = (a, (w1, log1))" by (metis prod.collapse)
  then have log: "log1 = log" using assms by (cases a) (auto simp: PrepareChatRequest_def andThen_def)
  note sends = GetUserJWT_sends [OF a]
  have "origin_ok dn (dc_allowedHosts dc) origin \<and>
         (\<exists>t jwt. NormalizeSessionToken sessionToken = Inr t \<and> trimSpace jwt \<noteq> [] \<and> cr_Metadata request = Some (chat_metadata t jwt))"
    if r: "r = Inr (request, origin)" for request origin
  proof -
    obtain auth where auth: "a = Inr auth" "ValidateAPIOrigin dn (as_APIBaseURL auth) (dc_allowedHosts dc) = Inr origin"
        "BuildChatRequest c canonical (as_SessionToken auth) (as_UserJWT auth) = Inr request"
      using assms a r by (cases a) (auto simp: PrepareChatRequest_def andThen_def returns_simps)
    have "cr_Metadata request = Some (chat_metadata (as_SessionToken auth) (as_UserJWT auth))"
      using auth(3) by (auto simp: BuildChatRequest_def Let_def returns_simps split: if_splits json.splits)
    then show ?thesis using sends auth(1,2) validateHTTPSOrigin_ok by (auto simp: ValidateAPIOrigin_def)
  qed
  moreover have "\<forall>q\<in>set log. \<exists>u. origin_ok dn [] u \<and> u_Hostname u = defaultBaseHost \<and> aq_URL q = dn_URLString dn u @ AuthServiceGetUserJWTPath"
    using sends log validateHTTPSOrigin_ok [of dn DefaultBaseURL "[]"] by (fastforce simp: ValidateAuthOrigin_def unary_request_def origin_ok_def)
  ultimately show ?thesis using sends log by auto
qed

section \<open>Limits\<close>

text \<open>Bodies stay within the limits, and a retry time is never in the past or a wrapped duration.\<close>

lemma unary_bounded:
  assumes "read_response dn dc now response = Inr body"
  shows "int (length (ap_Body response)) \<le> gc_MaxCompressedBytes (dc_config dc) \<and> int (length body) \<le> gc_MaxDecompressedBytes (dc_config dc)"
  using assms by (auto simp: read_response_def readBounded_def decodeUnaryBody_def returns_simps Let_def split: if_splits option.splits)

lemma retry_after_future:
  assumes "parseRetryAfter dn header now = Some t"
  shows "now \<le> t"
proof (cases "ParseUint31 (trimSpace header)")
  case None
  then show ?thesis using assms by (auto simp: parseRetryAfter_def Let_def time_before_def split: if_splits)
next
  case (Some seconds)
  have step: "0 \<le> foldl (\<lambda>n c. 10 * n + (of_char c - 48)) k s" if "list_all is_digit s" "0 \<le> k" for s and k :: int
    using that by (induction s arbitrary: k) (auto simp: is_digit_def)
  then have "0 \<le> seconds" using Some by (auto simp: ParseUint31_def decimal_def split: if_splits)
  then show ?thesis using assms Some by (auto simp: parseRetryAfter_def Let_def second_def split: if_splits)
qed

text \<open>A Devin client is hardened. Whatever HTTP client it is given, a client that is made verifies TLS
  certificates (1.2 or newer, no verification hooks) against the given or the system roots, uses
  no proxy, dials through the trusted dialer, refuses redirects and has no transport hooks that
  could bypass this; its allowed hosts are non-empty lower-case names without port or spaces, not IP
  addresses; and every limit is within its hard bounds, so no stream can hold more than 256 MiB
  and no tool call more than 16 MiB.
\<close>

theorem client_hardened:
  assumes "NewDevinClient dn standard base cfg = Inr dc"
  shows "(let t = hc_Transport (dc_http dc) in \<not> tp_InsecureSkipVerify t \<and> tp_MinTLS12 t \<and> \<not> tp_OtherTLSFields t \<and> \<not> tp_Proxy t \<and> tp_TrustedDialer t \<and>
        (base = Some (Transport t0) \<longrightarrow> \<not> tp_DialTLS t \<and> \<not> tp_TLSNextProto t \<and> tp_RootCAs t = tp_RootCAs t0)) \<and>
    hc_RefuseRedirects (dc_http dc) \<and> base \<noteq> Some OtherTripper \<and> dc_allowedHosts dc \<noteq> [] \<and>
    (\<forall>host\<in>set (dc_allowedHosts dc). host \<noteq> [] \<and> trimSpace host = host \<and> dn_ToLower dn host = host \<and> \<not> dn_IsIP dn host \<and> CHR '':'' \<notin> set host) \<and>
    gc_MaxStreamBytes (dc_config dc) \<le> 256 * 1024 * 1024 \<and> gc_MaxToolArgumentBytes (dc_config dc) \<le> 16 * 1024 * 1024 \<and>
    0 < gc_MaxNonStreamBytes (dc_config dc) \<and> 0 < gc_MaxToolArgumentBytes (dc_config dc)"
proof -
  from assms obtain t where valid: "validClientConfig cfg" "gc_AllowedChatHosts cfg \<noteq> []" "\<not> list_ex (host_refused dn) (gc_AllowedChatHosts cfg)"
    and t: "base_transport standard base = Inr t"
    and dc: "dc = \<lparr>dc_http = \<lparr>hc_Transport = harden (gc_UnaryTimeout cfg) t, hc_Timeout = 0, hc_RefuseRedirects = True\<rparr>,
      dc_allowedHosts = gc_AllowedChatHosts cfg, dc_config = cfg\<rparr>"
    by (auto simp: NewDevinClient_def returns_simps split: if_splits)
  have hosts: "\<forall>host\<in>set (gc_AllowedChatHosts cfg). host \<noteq> [] \<and> trimSpace host = host \<and> dn_ToLower dn host = host \<and> \<not> dn_IsIP dn host \<and> CHR '':'' \<notin> set host"
    using valid(3) by (auto simp: list_ex_iff host_refused_def)
  have "base = Some (Transport t0) \<longrightarrow> t = t0 \<and> \<not> tp_DialTLS t0 \<and> \<not> tp_TLSNextProto t0" "base \<noteq> Some OtherTripper"
    using t by (auto simp: base_transport_def split: if_splits)
  moreover have "gc_MaxStreamBytes cfg \<le> 256 * 1024 * 1024" "gc_MaxToolArgumentBytes cfg \<le> 16 * 1024 * 1024" "0 < gc_MaxNonStreamBytes cfg"
    "0 < gc_MaxToolArgumentBytes cfg"
    using valid(1) by (auto simp: validClientConfig_def within_def mib_def kib_def)
  ultimately show ?thesis using valid(2) hosts by (auto simp: dc harden_def Let_def)
qed

section \<open>Examples\<close>

definition sample_url :: url where
  "sample_url = \<lparr>u_Scheme = ''https'', u_Host = defaultBaseHost, u_Hostname = defaultBaseHost, u_Port = [], u_User = False, u_RawQuery = [],
     u_Fragment = [], u_Path = [], u_RawPath = []\<rparr>"

definition sample_net :: devin_net where
  "sample_net = \<lparr>dn_ParseURL = (\<lambda>s. if s = DefaultBaseURL then Some sample_url else None), dn_URLString = (\<lambda>u. ''https://'' @ u_Host u),
     dn_IsIP = (\<lambda>_. False), dn_ToLower = id, dn_ParseTime = (\<lambda>_. None), dn_SplitHostPort = (\<lambda>s. Some (s, ''443'')), dn_Gunzip = (\<lambda>_ _. None)\<rparr>"

definition sample_config :: client_config where
  "sample_config = \<lparr>gc_UnaryTimeout = 10 * second, gc_MaxCompressedBytes = mib, gc_MaxDecompressedBytes = mib, gc_StreamIdleTimeout = minute,
     gc_StreamDeadline = 0, gc_MaxFrameCompressedBytes = mib, gc_MaxFrameDecompressedBytes = mib, gc_MaxStreamBytes = mib,
     gc_MaxToolArgumentBytes = mib, gc_MaxNonStreamBytes = mib, gc_AllowedChatHosts = [''chat.example.com'']\<rparr>"

definition sample_transport :: transport where
  "sample_transport = \<lparr>tp_DialTLS = False, tp_TLSNextProto = False, tp_RootCAs = Some ''roots'', tp_InsecureSkipVerify = True, tp_OtherTLSFields = True,
     tp_MinTLS12 = False, tp_Proxy = True, tp_TrustedDialer = False, tp_ForceHTTP2 = False, tp_HeaderTimeout = 0\<rparr>"

definition sample_client :: devin_client where
  "sample_client = \<lparr>dc_http = \<lparr>hc_Transport = harden (10 * second) sample_transport, hc_Timeout = 0, hc_RefuseRedirects = True\<rparr>,
     dc_allowedHosts = [''chat.example.com''], dc_config = sample_config\<rparr>"

lemma sample_client_made:
  "NewDevinClient sample_net sample_transport (Some (Transport sample_transport)) sample_config = Inr sample_client"
proof -
  have "validClientConfig sample_config" "\<not> list_ex (host_refused sample_net) (gc_AllowedChatHosts sample_config)" by code_simp+
  then show ?thesis by (simp add: NewDevinClient_def base_transport_def sample_client_def sample_transport_def sample_config_def)
qed

theorem client_hardened_witness:
  "\<not> tp_InsecureSkipVerify (hc_Transport (dc_http sample_client)) \<and> \<not> tp_Proxy (hc_Transport (dc_http sample_client)) \<and>
   tp_RootCAs (hc_Transport (dc_http sample_client)) = Some ''roots'' \<and> tp_InsecureSkipVerify sample_transport"
  using client_hardened [OF sample_client_made, of sample_transport] by (simp add: Let_def sample_transport_def)

definition sample_jwt :: jwt_response where "sample_jwt = \<lparr>jr_UserJWT = ''jwt'', jr_CustomAPIServerURL = []\<rparr>"

definition sample_reply :: api_response where
  "sample_reply = \<lparr>ap_Status = 200, ap_RetryAfter = [], ap_ContentEncoding = [], ap_Body = fields_bytes demo_wire (jwt_fields sample_jwt),
     ap_BodyFails = False\<rparr>"

definition sample_send :: "unit round_trip" where "sample_send q w = (Inr sample_reply, w)"

definition sample_canonical :: jobject where
  "sample_canonical =
     [(''model'', JStr ''swe''), (''input'', JArr [obj [(''type'', JStr ''message''), (''role'', JStr ''user''),
        (''content'', JArr [obj [(''type'', JStr ''input_text''), (''text'', JStr ''hi'')]])]])]"

definition sample_auth :: auth_session where
  "sample_auth = \<lparr>as_UserJWT = ''jwt'', as_APIBaseURL = DefaultBaseURL, as_SessionToken = ''devin-session-token$tok''\<rparr>"

lemma sample_auth_got:
  assumes "\<And>payload. send (unary_request (DefaultBaseURL @ AuthServiceGetUserJWTPath) payload) w = (Inr sample_reply, after payload)"
    and "gc_MaxCompressedBytes (dc_config dc) = 1048576" "gc_MaxDecompressedBytes (dc_config dc) = 1048576"
    and "dc_allowedHosts dc = dc_allowedHosts sample_client"
  shows "\<exists>payload. GetUserJWT sample_net demo_wire dc send 0 ''tok'' w = (Inr sample_auth, after payload)"
proof -
  let ?md = "chat_metadata ''devin-session-token$tok'' []"
  have 1: "SourceMetadata ''tok'' = Inr ?md" by code_simp
  have "isl (GetUserJWTRequest_Marshal demo_wire (Some ?md)) = False" "length (projr (GetUserJWTRequest_Marshal demo_wire (Some ?md))) < 1000"
    by code_simp+
  then obtain b where 2: "GetUserJWTRequest_Marshal demo_wire (Some ?md) = Inr b" "length b < 1000"
    by (cases "GetUserJWTRequest_Marshal demo_wire (Some ?md)") auto
  have 3: "ValidateAuthOrigin sample_net = Inr sample_url" "dn_URLString sample_net sample_url = DefaultBaseURL" by code_simp+
  have small: "length (fields_bytes demo_wire (jwt_fields sample_jwt)) = 5" by code_simp
  have plain: "hasPrefix (fields_bytes demo_wire (jwt_fields sample_jwt)) [CHR 0x1F, CHR 0x8B] = False" by code_simp
  have 4: "read_response sample_net dc 0 sample_reply = Inr (fields_bytes demo_wire (jwt_fields sample_jwt))"
    by (simp add: read_response_def sample_reply_def readBounded_def decodeUnaryBody_def Let_def small assms(2,3) plain sample_net_def)
  have "GetUserJWTResponse_Unmarshal demo_wire (fields_bytes demo_wire (jwt_fields sample_jwt)) = Some (Inr sample_jwt)"
    by (rule jwt_roundtrip [OF demo_laws]) (simp add: small)
  moreover have "ValidateAPIOrigin sample_net [] (dc_allowedHosts dc) = Inr sample_url" unfolding assms(4) by code_simp
  moreover have "trimSpace ''jwt'' = ''jwt''" by code_simp
  ultimately have 5: "session_of sample_net demo_wire dc ''devin-session-token$tok'' (fields_bytes demo_wire (jwt_fields sample_jwt)) = Inr sample_auth"
    using 3(2) by (simp add: session_of_def sample_jwt_def sample_auth_def)
  have "md_APIKey ?md = ''devin-session-token$tok''" by (simp add: chat_metadata_def)
  then show ?thesis using 1 2 3 4 5 assms(1,2) by (simp add: GetUserJWT_def postUnaryProto_def attempt_def andThen_def) blast
qed

lemma sample_auth_sent:
  "\<exists>q. GetUserJWT sample_net demo_wire sample_client (logged_send sample_send) 0 ''tok'' ((), []) = (Inr sample_auth, ((), [q]))"
proof -
  have "gc_MaxCompressedBytes (dc_config sample_client) = 1048576" "gc_MaxDecompressedBytes (dc_config sample_client) = 1048576" by code_simp+
  then have "\<exists>payload. GetUserJWT sample_net demo_wire sample_client (logged_send sample_send) 0 ''tok'' ((), []) =
      (Inr sample_auth, ((), [unary_request (DefaultBaseURL @ AuthServiceGetUserJWTPath) payload]))"
    by (intro sample_auth_got) (simp_all add: logged_send_def sample_send_def)
  then show ?thesis by blast
qed

lemma sample_prepared:
  "\<exists>request q. BuildChatRequest braces_codec sample_canonical ''devin-session-token$tok'' ''jwt'' = Inr request \<and>
     PrepareChatRequest sample_net demo_wire braces_codec sample_client (logged_send sample_send) 0 ''tok'' sample_canonical ((), []) =
       (Inr (request, sample_url), ((), [q]))"
proof -
  have "isl (BuildChatRequest braces_codec sample_canonical ''devin-session-token$tok'' ''jwt'') = False" by code_simp
  then obtain request where "BuildChatRequest braces_codec sample_canonical ''devin-session-token$tok'' ''jwt'' = Inr request"
    by (cases "BuildChatRequest braces_codec sample_canonical ''devin-session-token$tok'' ''jwt''") auto
  moreover have "ValidateAPIOrigin sample_net DefaultBaseURL (dc_allowedHosts sample_client) = Inr sample_url" by code_simp
  ultimately show ?thesis using sample_auth_sent by (auto simp: PrepareChatRequest_def andThen_def sample_auth_def)
qed

definition google_dns :: addr where "google_dns = Addr4 (map char_of [8, 8, 8, 8 :: nat])"

theorem dials_public_addresses_witness:
  "trustedDialer sample_net (\<lambda>host. beside (\<lambda>w. (Inr [google_dns], w))) (logged_dial (\<lambda>ip port w. (Inr ip, w))) ''api'' ((), []) =
     (Inr google_dns, ((), [(google_dns, ''443'')])) \<and> isPublicAddress google_dns \<and> \<not> isPublicAddress (Addr4 (map char_of [10, 0, 0, 1 :: nat]))"
proof -
  have run: "trustedDialer sample_net (\<lambda>host. beside (\<lambda>w. (Inr [google_dns], w))) (logged_dial (\<lambda>ip port w. (Inr ip, w))) ''api'' ((), []) =
     (Inr google_dns, ((), [(google_dns, ''443'')]))" by code_simp
  have "\<not> isPublicAddress (Addr4 (map char_of [10, 0, 0, 1 :: nat]))" by code_simp
  moreover from dials_public_addresses [OF run] have "isPublicAddress google_dns" by auto
  ultimately show ?thesis using run by simp
qed

end
