(* ===== verification/Devin_Trailers.thy ===== *)
theory Devin_Trailers
  imports Devin_Client
begin

text \<open>
  How a Devin stream ends (the second half of \<open>internal/devin/stream_client.go\<close>): the trailer
  metadata of the Connect end-of-stream envelope, which is split and checked on its raw JSON bytes,
  and the error object, which is validated and classified. Indexes are Go's; a scanner returns the
  index after what it scanned, or \<open>None\<close>. Decoding of a JSON text by \<open>encoding/json\<close> into Go values
  is the parameter \<open>raw_json\<close>; UTF-8 is decoded as by \<open>unicode/utf8\<close>.

  Shown: the scanners never read outside the text, make progress and end; the members split from an
  object make up that object again; accepted header names and values are well formed; the
  classification of Connect errors agrees with the one of HTTP statuses except for
  \<open>permission_denied\<close>.
\<close>

section \<open>Scanning JSON\<close>

definition is_ws :: "char \<Rightarrow> bool" where
  "is_ws c \<longleftrightarrow> c = CHR 0x20 \<or> c = CHR 0x09 \<or> c = CHR 0x0A \<or> c = CHR 0x0D"

function skipJSONWhitespace :: "string \<Rightarrow> nat \<Rightarrow> nat" where
  "skipJSONWhitespace b i = (if i < length b \<and> is_ws (b ! i) then skipJSONWhitespace b (i + 1) else i)"
  by pat_completeness auto

termination by (relation "measure (\<lambda>(b, i). length b - i)") auto

declare skipJSONWhitespace.simps [simp del]

definition matchJSONLiteral :: "string \<Rightarrow> nat \<Rightarrow> string \<Rightarrow> nat option" where
  "matchJSONLiteral b i lit = (if i + length lit \<le> length b \<and> take (length lit) (drop i b) = lit then Some (i + length lit) else None)"

text \<open>The loop of \<open>scanJSONString\<close>, after the opening quote.\<close>

function string_end :: "string \<Rightarrow> nat \<Rightarrow> nat option" where
  "string_end b i =
     (if i < length b then
        (if b ! i = CHR 0x22 then Some (i + 1)
         else if b ! i = CHR 0x5C then
           (if i + 1 \<ge> length b then None
            else if b ! (i + 1) = CHR ''u'' then (if i + 1 + 4 \<ge> length b then None else string_end b (i + 1 + 5))
            else string_end b (i + 1 + 1))
         else string_end b (i + 1))
      else None)"
  by pat_completeness auto

termination by (relation "measure (\<lambda>(b, i). length b - i)") auto

declare string_end.simps [simp del]

definition scanJSONString :: "string \<Rightarrow> nat \<Rightarrow> nat option" where
  "scanJSONString b i = (if i \<ge> length b \<or> b ! i \<noteq> CHR 0x22 then None else string_end b (i + 1))"

function skip_digits :: "string \<Rightarrow> nat \<Rightarrow> nat" where
  "skip_digits b i = (if i < length b \<and> is_digit (b ! i) then skip_digits b (i + 1) else i)"
  by pat_completeness auto

termination by (relation "measure (\<lambda>(b, i). length b - i)") auto

declare skip_digits.simps [simp del]

text \<open>The optional fraction and exponent after a number's digits.\<close>

definition scan_fraction :: "string \<Rightarrow> nat \<Rightarrow> nat option" where
  "scan_fraction b i =
     (if i < length b \<and> b ! i = CHR ''.'' then let j = skip_digits b (i + 1) in if j = i + 1 then None else Some j
      else Some i)"

definition scan_exponent :: "string \<Rightarrow> nat \<Rightarrow> nat option" where
  "scan_exponent b i =
     (if i < length b \<and> (b ! i = CHR ''e'' \<or> b ! i = CHR ''E'') then
        let k = (if i + 1 < length b \<and> (b ! (i + 1) = CHR ''+'' \<or> b ! (i + 1) = CHR ''-'') then i + 2 else i + 1); j = skip_digits b k
        in if j = k then None else Some j
      else Some i)"

definition scanJSONNumber :: "string \<Rightarrow> nat \<Rightarrow> nat option" where
  "scanJSONNumber b start =
     (let i = (if start < length b \<and> b ! start = CHR ''-'' then start + 1 else start); j = skip_digits b i in
      case scan_fraction b j of None \<Rightarrow> None | Some k \<Rightarrow>
      (case scan_exponent b k of None \<Rightarrow> None | Some l \<Rightarrow> if j = i \<or> l = start then None else Some l))"

lemma skipJSONWhitespace_range: "i \<le> skipJSONWhitespace b i \<and> (i \<le> length b \<longrightarrow> skipJSONWhitespace b i \<le> length b)"
proof (induction b i rule: skipJSONWhitespace.induct)
  case (1 b i)
  show ?case
  proof (cases "i < length b \<and> is_ws (b ! i)")
    case True
    then show ?thesis using 1 by (subst (1 2) skipJSONWhitespace.simps) auto
  next
    case False
    then show ?thesis by (subst (1 2) skipJSONWhitespace.simps) auto
  qed
qed

lemma skip_digits_range: "i \<le> skip_digits b i \<and> (i \<le> length b \<longrightarrow> skip_digits b i \<le> length b)"
proof (induction b i rule: skip_digits.induct)
  case (1 b i)
  show ?case
  proof (cases "i < length b \<and> is_digit (b ! i)")
    case True
    then show ?thesis using 1 by (subst (1 2) skip_digits.simps) auto
  next
    case False
    then show ?thesis by (subst (1 2) skip_digits.simps) auto
  qed
qed

lemma string_end_range: "string_end b i = Some j \<Longrightarrow> i < j \<and> j \<le> length b"
proof (induction b i rule: string_end.induct)
  case (1 b i)
  from 1(4) have i: "i < length b" by (subst (asm) string_end.simps) (simp split: if_splits)
  consider "b ! i = CHR 0x22" | "b ! i = CHR 0x5C" "i + 1 < length b" "b ! (i + 1) = CHR ''u''" "i + 1 + 4 < length b" "string_end b (i + 1 + 5) = Some j"
    | "b ! i = CHR 0x5C" "i + 1 < length b" "b ! (i + 1) \<noteq> CHR ''u''" "string_end b (i + 1 + 1) = Some j"
    | "b ! i \<noteq> CHR 0x22" "b ! i \<noteq> CHR 0x5C" "string_end b (i + 1) = Some j"
    using 1(4) i by (subst (asm) string_end.simps) (auto split: if_splits)
  then show ?case
  proof cases
    case a: 1
    then show ?thesis using 1(4) i by (subst (asm) string_end.simps) auto
  next
    case 2
    then show ?thesis using 1(1) i by auto
  next
    case 3
    then show ?thesis using 1(2) i by auto
  next
    case 4
    then show ?thesis using 1(3) i by auto
  qed
qed

lemma scanJSONString_range: "scanJSONString b i = Some j \<Longrightarrow> i + 1 < j \<and> j \<le> length b"
  by (auto simp: scanJSONString_def dest: string_end_range split: if_splits)

text \<open>Inside an object or array, with the stack of open delimiters.\<close>

function nested_end :: "string \<Rightarrow> nat \<Rightarrow> string \<Rightarrow> nat option" where
  "nested_end b i stack =
     (if stack = [] then Some i
      else if i \<ge> length b then None
      else if b ! i = CHR 0x22 then (case scanJSONString b i of None \<Rightarrow> None | Some j \<Rightarrow> nested_end b j stack)
      else if b ! i = CHR ''{'' \<or> b ! i = CHR ''['' then nested_end b (i + 1) (b ! i # stack)
      else if b ! i = CHR ''}'' \<or> b ! i = CHR '']'' then
        (if (b ! i = CHR ''}'' \<and> hd stack \<noteq> CHR ''{'') \<or> (b ! i = CHR '']'' \<and> hd stack \<noteq> CHR ''['') then None
         else nested_end b (i + 1) (tl stack))
      else nested_end b (i + 1) stack)"
  by pat_completeness auto

termination
  by (relation "measure (\<lambda>(b, i, stack). length b - i)") (auto dest: scanJSONString_range)

declare nested_end.simps [simp del]

definition scanJSONValue :: "string \<Rightarrow> nat \<Rightarrow> nat option" where
  "scanJSONValue b i =
     (if i \<ge> length b then None
      else if b ! i = CHR 0x22 then scanJSONString b i
      else if b ! i = CHR ''{'' \<or> b ! i = CHR ''['' then nested_end b (i + 1) [b ! i]
      else if b ! i = CHR ''t'' then matchJSONLiteral b i ''true''
      else if b ! i = CHR ''f'' then matchJSONLiteral b i ''false''
      else if b ! i = CHR ''n'' then matchJSONLiteral b i ''null''
      else scanJSONNumber b i)"

lemma nested_end_range: "nested_end b i stack = Some j \<Longrightarrow> i \<le> length b \<Longrightarrow> i \<le> j \<and> j \<le> length b"
proof (induction b i stack rule: nested_end.induct)
  case (1 b i stack)
  show ?case
  proof (cases "stack = [] \<or> i \<ge> length b")
    case True
    then show ?thesis using 1(5,6) by (subst (asm) nested_end.simps) (auto split: if_splits)
  next
    case False
    then consider k where "b ! i = CHR 0x22" "scanJSONString b i = Some k" "nested_end b k stack = Some j"
      | "b ! i \<noteq> CHR 0x22" "b ! i = CHR ''{'' \<or> b ! i = CHR ''[''" "nested_end b (i + 1) (b ! i # stack) = Some j"
      | "b ! i \<noteq> CHR 0x22" "\<not> (b ! i = CHR ''{'' \<or> b ! i = CHR ''['')" "b ! i = CHR ''}'' \<or> b ! i = CHR '']''"
        "\<not> ((b ! i = CHR ''}'' \<and> hd stack \<noteq> CHR ''{'') \<or> (b ! i = CHR '']'' \<and> hd stack \<noteq> CHR ''[''))" "nested_end b (i + 1) (tl stack) = Some j"
      | "b ! i \<noteq> CHR 0x22" "\<not> (b ! i = CHR ''{'' \<or> b ! i = CHR ''['')" "\<not> (b ! i = CHR ''}'' \<or> b ! i = CHR '']'')" "nested_end b (i + 1) stack = Some j"
      using 1(5) by (subst (asm) nested_end.simps) (auto split: if_splits option.splits)
    then show ?thesis
    proof cases
      case (1 k)
      then show ?thesis using "1.IH"(1) [of k] False scanJSONString_range [of b i k] by auto
    next
      case 2
      then show ?thesis using "1.IH"(2) False by auto
    next
      case 3
      then show ?thesis using "1.IH"(3) False by auto
    next
      case 4
      then show ?thesis using "1.IH"(4) False by auto
    qed
  qed
qed


lemma scan_fraction_range: "scan_fraction b i = Some j \<Longrightarrow> i \<le> length b \<Longrightarrow> i \<le> j \<and> j \<le> length b"
  using skip_digits_range [of "i + 1" b] by (auto simp: scan_fraction_def Let_def split: if_splits)

lemma scan_exponent_range: "scan_exponent b i = Some j \<Longrightarrow> i \<le> length b \<Longrightarrow> i \<le> j \<and> j \<le> length b"
  using skip_digits_range [of "i + 1" b] skip_digits_range [of "i + 2" b]
  by (auto simp: scan_exponent_def Let_def split: if_splits)

lemma scanJSONNumber_range:
  assumes "scanJSONNumber b i = Some j" "i < length b"
  shows "i < j \<and> j \<le> length b"
proof -
  define k where "k = (if i < length b \<and> b ! i = CHR ''-'' then i + 1 else i)"
  have k: "i \<le> k" "k \<le> length b" using assms(2) by (auto simp: k_def)
  then have d: "k \<le> skip_digits b k" "skip_digits b k \<le> length b" using skip_digits_range [of k b] by auto
  from assms(1) obtain l where l: "scan_fraction b (skip_digits b k) = Some l" "scan_exponent b l = Some j" "j \<noteq> i"
    by (auto simp: scanJSONNumber_def Let_def k_def [symmetric] split: option.splits if_splits)
  with d have "skip_digits b k \<le> l" "l \<le> length b" using scan_fraction_range by blast+
  with l(2) have "l \<le> j" "j \<le> length b" using scan_exponent_range by blast+
  with l(3) k(1) d(1) \<open>skip_digits b k \<le> l\<close> show ?thesis by linarith
qed

lemma scanJSONValue_range: "scanJSONValue b i = Some j \<Longrightarrow> i < j \<and> j \<le> length b"
  using nested_end_range [of b "i + 1" "[b ! i]" j]
  by (auto simp: scanJSONValue_def matchJSONLiteral_def split: if_splits dest: scanJSONString_range scanJSONNumber_range)


section \<open>Members of an object\<close>

definition substr :: "string \<Rightarrow> nat \<Rightarrow> nat \<Rightarrow> string" where
  "substr b i j = take (j - i) (drop i b)"

lemma member_progress:
  assumes "i < length b" "scanJSONString b i = Some k" "colon = skipJSONWhitespace b k" "v = skipJSONWhitespace b (colon + 1)"
    "scanJSONValue b v = Some ve" "e = skipJSONWhitespace b ve"
  shows "i < k" "k \<le> colon" "colon < v" "v < ve" "ve \<le> e" "ve \<le> length b" "e \<le> length b" "e < skipJSONWhitespace b (e + 1)"
  using assms scanJSONString_range [of b i k] skipJSONWhitespace_range [of k b] skipJSONWhitespace_range [of "colon + 1" b]
    scanJSONValue_range [of b v ve] skipJSONWhitespace_range [of ve b] skipJSONWhitespace_range [of "e + 1" b]
  by auto

text \<open>The loop of \<open>splitRawJSONObjectMembers\<close>; every return of \<open>ErrMalformedStream\<close> is \<open>None\<close>.\<close>

function members_from :: "string \<Rightarrow> nat \<Rightarrow> (string \<times> string) list option" where
  "members_from b i =
     (if i \<ge> length b \<or> b ! i \<noteq> CHR 0x22 then None
      else case scanJSONString b i of None \<Rightarrow> None | Some keyEnd \<Rightarrow>
        let colon = skipJSONWhitespace b keyEnd in
        if colon \<ge> length b \<or> b ! colon \<noteq> CHR '':'' then None
        else let valStart = skipJSONWhitespace b (colon + 1) in
          case scanJSONValue b valStart of None \<Rightarrow> None | Some valEnd \<Rightarrow>
            let m = (substr b i keyEnd, substr b valStart valEnd); e = skipJSONWhitespace b valEnd in
            if e \<ge> length b then None
            else if b ! e = CHR '','' then map_option (\<lambda>ms. m # ms) (members_from b (skipJSONWhitespace b (e + 1)))
            else if b ! e = CHR ''}'' then Some [m]
            else None)"
  by pat_completeness auto

termination
proof (relation "measure (\<lambda>(b, i). length b - i)", simp)
  fix b i keyEnd colon valStart valEnd m e
  assume a: "\<not> (length b \<le> i \<or> b ! i \<noteq> CHR 0x22)" "scanJSONString b i = Some keyEnd" "colon = skipJSONWhitespace b keyEnd"
    "valStart = skipJSONWhitespace b (colon + 1)" "scanJSONValue b valStart = Some valEnd" "e = skipJSONWhitespace b valEnd"
    "\<not> length b \<le> e"
  then have "i < length b" by simp
  from member_progress [OF this a(2-6)] a(7) show "((b, skipJSONWhitespace b (e + 1)), (b, i)) \<in> measure (\<lambda>(b, i). length b - i)" by simp
qed

declare members_from.simps [simp del]

definition splitRawJSONObjectMembers :: "string \<Rightarrow> go_error + (string \<times> string) list" where
  "splitRawJSONObjectMembers raw =
     (let b = trimSpace raw; i = skipJSONWhitespace b 1 in
      if i < length b \<and> b ! i = CHR ''}'' then Inr []
      else case members_from b i of None \<Rightarrow> Inl ErrMalformedStream | Some ms \<Rightarrow> Inr ms)"

text \<open>The text of a list of members, with white space anywhere between the tokens.\<close>

inductive members_text :: "(string \<times> string) list \<Rightarrow> string \<Rightarrow> bool" where
  none: "members_text [] []"
| one: "list_all is_ws w1 \<Longrightarrow> list_all is_ws w2 \<Longrightarrow> list_all is_ws w3 \<Longrightarrow> members_text [(k, v)] (k @ w1 @ '':'' @ w2 @ v @ w3)"
| more: "list_all is_ws w1 \<Longrightarrow> list_all is_ws w2 \<Longrightarrow> list_all is_ws w3 \<Longrightarrow> list_all is_ws w4 \<Longrightarrow> members_text ms t \<Longrightarrow> ms \<noteq> [] \<Longrightarrow>
    members_text ((k, v) # ms) (k @ w1 @ '':'' @ w2 @ v @ w3 @ '','' @ w4 @ t)"

lemma substr_drop: "i \<le> j \<Longrightarrow> drop i b = substr b i j @ drop j b"
  by (metis append_take_drop_id drop_drop le_add_diff_inverse2 substr_def)

lemma drop_at: "i < length b \<Longrightarrow> b ! i = c \<Longrightarrow> drop i b = c # drop (i + 1) b"
  by (metis Cons_nth_drop_Suc Suc_eq_plus1)

lemma skipped_ws: "list_all is_ws (substr b i (skipJSONWhitespace b i))"
proof (induction b i rule: skipJSONWhitespace.induct)
  case (1 b i)
  show ?case
  proof (cases "i < length b \<and> is_ws (b ! i)")
    case True
    have r: "i + 1 \<le> skipJSONWhitespace b (i + 1)" using skipJSONWhitespace_range by blast
    have "substr b i (skipJSONWhitespace b (i + 1)) = b ! i # substr b (i + 1) (skipJSONWhitespace b (i + 1))"
      using True r by (simp add: substr_def drop_at [of i b] take_Cons' del: drop_drop)
    then show ?thesis using 1 True by (subst skipJSONWhitespace.simps) simp
  next
    case False
    then show ?thesis by (subst skipJSONWhitespace.simps) (auto simp: substr_def)
  qed
qed


lemma members_from_cases:
  assumes "members_from b i = Some ms"
  obtains k colon v ve e where "i < length b" "b ! i = CHR 0x22" "scanJSONString b i = Some k" "colon = skipJSONWhitespace b k"
    "colon < length b" "b ! colon = CHR '':''" "v = skipJSONWhitespace b (colon + 1)" "scanJSONValue b v = Some ve"
    "e = skipJSONWhitespace b ve" "e < length b"
    "(b ! e = CHR '','' \<and> (\<exists>ms'. members_from b (skipJSONWhitespace b (e + 1)) = Some ms' \<and> ms = (substr b i k, substr b v ve) # ms')) \<or>
     (b ! e = CHR ''}'' \<and> ms = [(substr b i k, substr b v ve)])"
  using assms by (subst (asm) members_from.simps) (auto simp: Let_def not_le split: if_splits option.splits)

lemma members_from_nonempty: "members_from b i = Some ms \<Longrightarrow> ms \<noteq> []"
  by (erule members_from_cases) auto

lemma members_from_text: "members_from b i = Some ms \<Longrightarrow> \<exists>t rest. drop i b = t @ ''}'' @ rest \<and> members_text ms t"
proof (induction b i arbitrary: ms rule: members_from.induct)
  case (1 b i)
  from 1(2) obtain k colon v ve e where a: "i < length b" "b ! i = CHR 0x22" "scanJSONString b i = Some k" "colon = skipJSONWhitespace b k"
    "colon < length b" "b ! colon = CHR '':''" "v = skipJSONWhitespace b (colon + 1)" "scanJSONValue b v = Some ve"
    "e = skipJSONWhitespace b ve" "e < length b"
    and final: "(b ! e = CHR '','' \<and> (\<exists>ms'. members_from b (skipJSONWhitespace b (e + 1)) = Some ms' \<and> ms = (substr b i k, substr b v ve) # ms')) \<or>
     (b ! e = CHR ''}'' \<and> ms = [(substr b i k, substr b v ve)])" by (rule members_from_cases)
  note le = member_progress [OF a(1) a(3) a(4) a(7) a(8) a(9)]
  define w1 where "w1 = substr b k colon"
  define w2 where "w2 = substr b (colon + 1) v"
  define w3 where "w3 = substr b ve e"
  have ws: "list_all is_ws w1" "list_all is_ws w2" "list_all is_ws w3" using skipped_ws a(4,7,9) by (simp_all add: w1_def w2_def w3_def)
  have "drop i b = substr b i k @ w1 @ drop colon b"
    using le substr_drop [of i k b] substr_drop [of k colon b] by (simp add: w1_def)
  moreover have "drop colon b = '':'' @ w2 @ substr b v ve @ w3 @ drop e b"
    using le substr_drop [of "colon + 1" v b] substr_drop [of v ve b] substr_drop [of ve e b] drop_at [OF a(5,6)] by (simp add: w2_def w3_def)
  ultimately have split: "drop i b = substr b i k @ w1 @ '':'' @ w2 @ substr b v ve @ w3 @ drop e b" by simp
  from final show ?case
  proof (elim disjE conjE exE)
    fix ms' assume c: "b ! e = CHR '',''" "members_from b (skipJSONWhitespace b (e + 1)) = Some ms'" "ms = (substr b i k, substr b v ve) # ms'"
    define n where "n = skipJSONWhitespace b (e + 1)"
    from a(1,2) have start: "\<not> (length b \<le> i \<or> b ! i \<noteq> CHR 0x22)" by simp
    have "\<exists>t rest. drop n b = t @ ''}'' @ rest \<and> members_text ms' t"
      using 1(1) [OF start a(3) a(4) _ a(7) a(8) refl a(9) _ c(1)] a(5,6,10) c(2) by (simp add: n_def)
    then obtain t rest where t: "drop n b = t @ ''}'' @ rest" "members_text ms' t" by blast
    define w4 where "w4 = substr b (e + 1) n"
    have w4: "list_all is_ws w4" using skipped_ws by (simp add: w4_def n_def)
    have "drop e b = '','' @ w4 @ t @ ''}'' @ rest"
      using drop_at [OF a(10) c(1)] le(8) substr_drop [of "e + 1" n b] t(1) by (simp add: w4_def n_def)
    with split have "drop i b = (substr b i k @ w1 @ '':'' @ w2 @ substr b v ve @ w3 @ '','' @ w4 @ t) @ ''}'' @ rest" by simp
    moreover have "members_text ms (substr b i k @ w1 @ '':'' @ w2 @ substr b v ve @ w3 @ '','' @ w4 @ t)"
      unfolding c(3) using ws w4 t(2) members_from_nonempty [OF c(2)] by (rule members_text.more)
    ultimately show ?thesis by blast
  next
    assume c: "b ! e = CHR ''}''" "ms = [(substr b i k, substr b v ve)]"
    have "drop e b = ''}'' @ drop (e + 1) b" using drop_at [OF a(10) c(1)] by simp
    with split have "drop i b = (substr b i k @ w1 @ '':'' @ w2 @ substr b v ve @ w3) @ ''}'' @ drop (e + 1) b" by simp
    moreover have "members_text ms (substr b i k @ w1 @ '':'' @ w2 @ substr b v ve @ w3)"
      unfolding c(2) using ws by (rule members_text.one)
    ultimately show ?thesis by blast
  qed
qed

lemma split_members_text:
  assumes "splitRawJSONObjectMembers raw = Inr ms" "trimSpace raw = CHR ''{'' # body"
  shows "\<exists>w t rest. trimSpace raw = ''{'' @ w @ t @ ''}'' @ rest \<and> list_all is_ws w \<and> members_text ms t"
proof -
  define b where "b = trimSpace raw"
  define i where "i = skipJSONWhitespace b 1"
  have i: "1 \<le> i" using skipJSONWhitespace_range by (simp add: i_def)
  have b: "b = ''{'' @ substr b 1 i @ drop i b"
    using substr_drop [OF i, of b] assms(2) by (simp add: b_def)
  have w: "list_all is_ws (substr b 1 i)" by (simp add: i_def skipped_ws)
  have "\<exists>t rest. drop i b = t @ ''}'' @ rest \<and> members_text ms t"
  proof (cases "i < length b \<and> b ! i = CHR ''}''")
    case True
    then have "drop i b = [] @ ''}'' @ drop (i + 1) b" using drop_at [of i b] by simp
    moreover have "ms = []" using assms(1) True by (simp add: splitRawJSONObjectMembers_def b_def [symmetric] i_def [symmetric] Let_def del: One_nat_def)
    ultimately show ?thesis using members_text.none by blast
  next
    case False
    then have "members_from b i = Some ms"
      using assms(1) by (auto simp: splitRawJSONObjectMembers_def b_def [symmetric] i_def [symmetric] Let_def simp del: One_nat_def split: option.splits if_splits)
    then show ?thesis by (rule members_from_text)
  qed
  with b w show ?thesis unfolding b_def by metis
qed


section \<open>Strict strings\<close>

text \<open>\<open>utf8.DecodeRune\<close>: the size of the encoded rune at the beginning, \<open>None\<close> for \<open>(RuneError, 1)\<close>.\<close>

definition between :: "nat \<Rightarrow> char \<Rightarrow> nat \<Rightarrow> bool" where
  "between lo c hi \<longleftrightarrow> lo \<le> of_char c \<and> of_char c \<le> hi"

definition cont :: "char \<Rightarrow> bool" where "cont c \<longleftrightarrow> between 0x80 c 0xBF"

fun rune_size :: "string \<Rightarrow> nat option" where
  "rune_size [] = Some 0"
| "rune_size (a # s) =
     (if between 0 a 0x7F then Some 1
      else case s of [] \<Rightarrow> None | b # s2 \<Rightarrow>
        if between 0xC2 a 0xDF \<and> cont b then Some 2
        else case s2 of [] \<Rightarrow> None | c # s3 \<Rightarrow>
          if cont c \<and> ((between 0xE0 a 0xE0 \<and> between 0xA0 b 0xBF) \<or> (between 0xE1 a 0xEC \<and> cont b) \<or>
              (between 0xED a 0xED \<and> between 0x80 b 0x9F) \<or> (between 0xEE a 0xEF \<and> cont b)) then Some 3
          else case s3 of [] \<Rightarrow> None | d # s4 \<Rightarrow>
            if cont c \<and> cont d \<and> ((between 0xF0 a 0xF0 \<and> between 0x90 b 0xBF) \<or> (between 0xF1 a 0xF3 \<and> cont b) \<or>
                (between 0xF4 a 0xF4 \<and> between 0x80 b 0x8F)) then Some 4
            else None)"

declare rune_size.simps [simp del]

definition hex_val :: "char \<Rightarrow> int option" where
  "hex_val c =
     (let n = of_char c in
      if 48 \<le> n \<and> n \<le> 57 then Some (n - 48)
      else if 97 \<le> n \<and> n \<le> 102 then Some (n - 97 + 10)
      else if 65 \<le> n \<and> n \<le> 70 then Some (n - 65 + 10)
      else None)"

fun hex_run :: "nat \<Rightarrow> int \<Rightarrow> string \<Rightarrow> int option" where
  "hex_run 0 r b = Some r"
| "hex_run (Suc n) r [] = None"
| "hex_run (Suc n) r (c # b) = (case hex_val c of None \<Rightarrow> None | Some v \<Rightarrow> hex_run n (16 * r + v) b)"

definition parseHex4 :: "string \<Rightarrow> int option" where
  "parseHex4 b = hex_run 4 0 b"

text \<open>The loop of \<open>strictJSONStringValid\<close>; \<open>stop\<close> is its \<open>end\<close>.\<close>

definition high_surrogate :: "int \<Rightarrow> bool" where "high_surrogate r \<longleftrightarrow> 0xD800 \<le> r \<and> r \<le> 0xDBFF"
definition low_surrogate :: "int \<Rightarrow> bool" where "low_surrogate r \<longleftrightarrow> 0xDC00 \<le> r \<and> r \<le> 0xDFFF"

lemma rune_size_pos: "rune_size s = Some n \<Longrightarrow> s \<noteq> [] \<Longrightarrow> 0 < n \<and> n \<le> length s"
  by (cases s) (auto simp: rune_size.simps split: if_splits list.splits)

function strict_from :: "string \<Rightarrow> nat \<Rightarrow> bool" where
  "strict_from raw i =
     (let stop = length raw - 1 in
      if i \<ge> stop then True
      else if raw ! i \<noteq> CHR 0x5C then
        (case rune_size (substr raw i stop) of None \<Rightarrow> False | Some n \<Rightarrow> strict_from raw (i + n))
      else if i + 1 \<ge> stop then False
      else if raw ! (i + 1) \<noteq> CHR ''u'' then strict_from raw (i + 1 + 1)
      else if i + 1 + 5 > stop then False
      else case parseHex4 (drop (i + 1 + 1) raw) of None \<Rightarrow> False | Some r \<Rightarrow>
        let j = i + 1 + 5 in
        if high_surrogate r then
          (if j + 6 > stop \<or> raw ! j \<noteq> CHR 0x5C \<or> raw ! (j + 1) \<noteq> CHR ''u'' then False
           else case parseHex4 (drop (j + 2) raw) of None \<Rightarrow> False | Some lo \<Rightarrow> low_surrogate lo \<and> strict_from raw (j + 6))
        else if low_surrogate r then False
        else strict_from raw j)"
  by pat_completeness auto

termination
  by (relation "measure (\<lambda>(raw, i). length raw - 1 - i)") (auto simp: substr_def dest!: rune_size_pos)

declare strict_from.simps [simp del]

definition strictJSONStringValid :: "string \<Rightarrow> bool" where
  "strictJSONStringValid raw0 =
     (let raw = trimSpace raw0 in
      if length raw < 2 \<or> hd raw \<noteq> CHR 0x22 \<or> last raw \<noteq> CHR 0x22 then False else strict_from raw 1)"


text \<open>
  The grammar of the accepted contents: encoded runes, escapes, \<open>\u\<close> escapes of scalar values and
  pairs of surrogates.
\<close>

inductive strict_text :: "string \<Rightarrow> bool" where
  empty: "strict_text []"
| rune: "u \<noteq> [] \<Longrightarrow> hd u \<noteq> CHR 0x5C \<Longrightarrow> rune_size u = Some (length u) \<Longrightarrow> strict_text s \<Longrightarrow> strict_text (u @ s)"
| escape: "c \<noteq> CHR ''u'' \<Longrightarrow> strict_text s \<Longrightarrow> strict_text ([CHR 0x5C, c] @ s)"
| scalar: "length h = 4 \<Longrightarrow> parseHex4 h = Some r \<Longrightarrow> \<not> high_surrogate r \<Longrightarrow> \<not> low_surrogate r \<Longrightarrow> strict_text s \<Longrightarrow>
    strict_text ([CHR 0x5C, CHR ''u''] @ h @ s)"
| pair: "length h = 4 \<Longrightarrow> length l = 4 \<Longrightarrow> parseHex4 h = Some r \<Longrightarrow> parseHex4 l = Some lo \<Longrightarrow> high_surrogate r \<Longrightarrow> low_surrogate lo \<Longrightarrow>
    strict_text s \<Longrightarrow> strict_text ([CHR 0x5C, CHR ''u''] @ h @ [CHR 0x5C, CHR ''u''] @ l @ s)"

lemma rune_size_append: "rune_size u = Some (length u) \<Longrightarrow> u \<noteq> [] \<Longrightarrow> rune_size (u @ s) = Some (length u)"
  by (cases u) (auto simp: rune_size.simps split: if_splits list.splits)

lemma rune_size_take: "rune_size s = Some n \<Longrightarrow> s \<noteq> [] \<Longrightarrow> rune_size (take n s) = Some n \<and> length (take n s) = n"
  by (cases s) (auto simp: rune_size.simps split: if_splits list.splits)

lemma parseHex4_take: "4 \<le> length s \<Longrightarrow> parseHex4 s = parseHex4 (take 4 s)"
proof -
  assume "4 \<le> length s"
  have hex: "hex_run n r s = hex_run n r (take n s)" if "n \<le> length s" for n r s
    using that by (induction n r s rule: hex_run.induct) (auto split: option.splits)
  from hex [OF \<open>4 \<le> length s\<close>] show ?thesis by (simp add: parseHex4_def)
qed

lemma strict_text_rune:
  assumes "s \<noteq> []" "hd s \<noteq> CHR 0x5C"
  shows "strict_text s \<longleftrightarrow> (\<exists>n. rune_size s = Some n \<and> strict_text (drop n s))"
proof
  assume "strict_text s"
  then show "\<exists>n. rune_size s = Some n \<and> strict_text (drop n s)"
    using assms by (cases rule: strict_text.cases) (auto simp: rune_size_append)
next
  assume "\<exists>n. rune_size s = Some n \<and> strict_text (drop n s)"
  then obtain n where n: "rune_size s = Some n" "strict_text (drop n s)" by blast
  from rune_size_take [OF n(1) assms(1)] rune_size_pos [OF n(1) assms(1)] assms n(2)
  have "strict_text (take n s @ drop n s)" by (intro strict_text.rune) auto
  then show "strict_text s" by simp
qed

lemma strict_text_backslash:
  assumes "strict_text (CHR 0x5C # t)"
  obtains c s where "t = c # s" "c \<noteq> CHR ''u''" "strict_text s"
  | h r s where "t = CHR ''u'' # h @ s" "length h = 4" "parseHex4 h = Some r" "\<not> high_surrogate r" "\<not> low_surrogate r" "strict_text s"
  | h l r lo s where "t = CHR ''u'' # h @ [CHR 0x5C, CHR ''u''] @ l @ s" "length h = 4" "length l = 4" "parseHex4 h = Some r"
      "parseHex4 l = Some lo" "high_surrogate r" "low_surrogate lo" "strict_text s"
  using assms
proof (cases rule: strict_text.cases)
  case (rune u s)
  then show ?thesis by (cases u) auto
qed (use that in auto)

lemma strict_text_escape: "c \<noteq> CHR ''u'' \<Longrightarrow> strict_text (CHR 0x5C # c # s) \<longleftrightarrow> strict_text s"
proof
  assume "c \<noteq> CHR ''u''" "strict_text (CHR 0x5C # c # s)"
  then show "strict_text s" by (auto elim: strict_text_backslash)
qed (use strict_text.escape [of c s] in simp)

lemma strict_text_bare: "\<not> strict_text [CHR 0x5C]"
  by (auto elim: strict_text_backslash)

lemma strict_text_short: "length s < 4 \<Longrightarrow> \<not> strict_text (CHR 0x5C # CHR ''u'' # s)"
  by (auto elim: strict_text_backslash)

lemma strict_text_unicode:
  assumes "4 \<le> length s"
  shows "strict_text (CHR 0x5C # CHR ''u'' # s) \<longleftrightarrow>
    (case parseHex4 s of None \<Rightarrow> False | Some r \<Rightarrow>
       if high_surrogate r then
         (\<exists>l t lo. drop 4 s = [CHR 0x5C, CHR ''u''] @ l @ t \<and> length l = 4 \<and> parseHex4 l = Some lo \<and> low_surrogate lo \<and> strict_text t)
       else \<not> low_surrogate r \<and> strict_text (drop 4 s))" (is "?l = ?r")
proof
  assume ?l
  then show ?r
  proof (cases rule: strict_text_backslash)
    case (2 h r t)
    then show ?thesis using parseHex4_take [OF assms] by simp
  next
    case (3 h l r lo t)
    then show ?thesis using parseHex4_take [OF assms] by simp blast
  qed simp
next
  assume r: ?r
  define h where "h = take 4 s"
  have h: "length h = 4" "s = h @ drop 4 s" using assms by (simp_all add: h_def)
  from r obtain r where hex: "parseHex4 h = Some r" using parseHex4_take [OF assms] by (auto simp: h_def split: option.splits)
  show ?l
  proof (cases "high_surrogate r")
    case True
    then obtain l t lo where l: "drop 4 s = [CHR 0x5C, CHR ''u''] @ l @ t" "length l = 4" "parseHex4 l = Some lo" "low_surrogate lo" "strict_text t"
      using r hex parseHex4_take [OF assms] by (auto simp: h_def)
    from strict_text.pair [OF h(1) l(2) hex l(3) True l(4,5)] h(2) l(1) show ?thesis by simp
  next
    case False
    then have "\<not> low_surrogate r" "strict_text (drop 4 s)" using r hex parseHex4_take [OF assms] by (auto simp: h_def)
    from strict_text.scalar [OF h(1) hex False this] h(2) show ?thesis by simp
  qed
qed


lemma substr_Cons: "i < j \<Longrightarrow> j \<le> length b \<Longrightarrow> substr b i j = b ! i # substr b (i + 1) j"
  by (simp add: substr_def drop_at [of i b] take_Cons' del: drop_drop)

lemma substr_shift: "drop n (substr b i j) = substr b (i + n) j"
  by (simp add: substr_def drop_take add.commute)

lemma substr_length: "j \<le> length b \<Longrightarrow> length (substr b i j) = j - i"
  by (simp add: substr_def)

lemma parseHex4_substr: "i + 4 \<le> j \<Longrightarrow> j \<le> length b \<Longrightarrow> parseHex4 (substr b i j) = parseHex4 (drop i b)"
  using parseHex4_take [of "substr b i j"] parseHex4_take [of "drop i b"] by (simp add: substr_def)

lemma substr_pair:
  assumes "i + 6 \<le> j" "j \<le> length b"
  shows "(\<exists>l t lo. substr b i j = [CHR 0x5C, CHR ''u''] @ l @ t \<and> length l = 4 \<and> parseHex4 l = Some lo \<and> low_surrogate lo \<and> strict_text t) \<longleftrightarrow>
    b ! i = CHR 0x5C \<and> b ! (i + 1) = CHR ''u'' \<and>
    (case parseHex4 (drop (i + 2) b) of None \<Rightarrow> False | Some lo \<Rightarrow> low_surrogate lo \<and> strict_text (substr b (i + 6) j))" (is "?l \<longleftrightarrow> ?r")
proof -
  have s: "substr b i j = b ! i # b ! (i + 1) # substr b (i + 2) j"
    using assms substr_Cons [of i j b] substr_Cons [of "i + 1" j b] by simp
  have h: "parseHex4 (drop (i + 2) b) = parseHex4 (take 4 (substr b (i + 2) j))"
    using assms parseHex4_substr [of "i + 2" j b] parseHex4_take [of "substr b (i + 2) j"] by (simp add: substr_length)
  have t: "substr b (i + 2) j = take 4 (substr b (i + 2) j) @ substr b (i + 6) j" "length (take 4 (substr b (i + 2) j)) = 4"
    using assms substr_shift [of 4 b "i + 2" j] append_take_drop_id [of 4 "substr b (i + 2) j"] by (simp_all add: substr_length ac_simps)
  show ?thesis
  proof
    assume ?l
    then obtain l u lo where l: "substr b (i + 2) j = l @ u" "b ! i = CHR 0x5C" "b ! (i + 1) = CHR ''u''" "length l = 4" "parseHex4 l = Some lo"
      "low_surrogate lo" "strict_text u" using s by auto
    then have "take 4 (substr b (i + 2) j) = l" "substr b (i + 6) j = u" using substr_shift [of 4 b "i + 2" j] by (simp_all add: add.commute)
    with h l show ?r by simp
  next
    assume ?r
    then obtain lo where "b ! i = CHR 0x5C" "b ! (i + 1) = CHR ''u''" "parseHex4 (take 4 (substr b (i + 2) j)) = Some lo" "low_surrogate lo"
      "strict_text (substr b (i + 6) j)" using h by (auto split: option.splits)
    with s t show ?l by (metis append_Cons append_Nil)
  qed
qed

lemma substr_no_pair:
  assumes "j < i + 6" "j \<le> length b" "substr b i j = [CHR 0x5C, CHR ''u''] @ l @ t" "length l = 4"
  shows False
  using arg_cong [OF assms(3), of length] assms(1,2,4) by (simp add: substr_length)

lemma strict_from_text: "i \<le> length raw - 1 \<Longrightarrow> strict_from raw i \<longleftrightarrow> strict_text (substr raw i (length raw - 1))"
proof (induction raw i rule: strict_from.induct)
  case (1 raw i)
  define stop where "stop = length raw - 1"
  define s where "s = substr raw i stop"
  have stop: "stop \<le> length raw" "i \<le> stop" using 1(5) by (simp_all add: stop_def)
  show ?case
  proof (cases "i \<ge> stop")
    case True
    then have "s = []" "strict_from raw i" by (simp_all add: s_def substr_def strict_from.simps [of raw i] stop_def)
    then show ?thesis by (simp add: s_def stop_def strict_text.empty)
  next
    case False
    then have i: "i < stop" by simp
    have s: "s = raw ! i # substr raw (i + 1) stop" using substr_Cons [OF i stop(1)] by (simp add: s_def)
    show ?thesis
    proof (cases "raw ! i = CHR 0x5C")
      case plain: False
      have rune: "strict_text s \<longleftrightarrow> (\<exists>n. rune_size s = Some n \<and> strict_text (drop n s))"
        using plain s by (intro strict_text_rune) simp_all
      show ?thesis
      proof (cases "rune_size s")
        case None
        then show ?thesis using rune plain i by (subst strict_from.simps) (simp add: s_def stop_def)
      next
        case (Some n)
        then have n: "0 < n" "n \<le> length s" using rune_size_pos [OF Some] s by auto
        then have "i + n \<le> stop" using stop i by (simp add: s_def substr_length)
        then have "strict_from raw (i + n) \<longleftrightarrow> strict_text (drop n s)"
          using 1(1) [OF stop_def _ plain, of n] i Some by (simp add: s_def substr_shift stop_def)
        then show ?thesis using rune plain i Some by (subst strict_from.simps) (simp add: s_def stop_def)
      qed
    next
      case bs: True
      show ?thesis
      proof (cases "i + 1 \<ge> stop")
        case True
        then have "s = [CHR 0x5C]" using s bs by (simp add: substr_def)
        then show ?thesis using True bs i by (subst strict_from.simps) (simp add: s_def stop_def strict_text_bare)
      next
        case False
        then have i1: "i + 1 < stop" by simp
        have s2: "s = CHR 0x5C # raw ! (i + 1) # substr raw (i + 2) stop" using s bs substr_Cons [OF i1 stop(1)] by simp
        show ?thesis
        proof (cases "raw ! (i + 1) = CHR ''u''")
          case False
          have "strict_from raw (i + 1 + 1) \<longleftrightarrow> strict_text (substr raw (i + 2) stop)"
            using 1(2) [OF stop_def _ _ _ False] i1 i bs by (simp add: stop_def)
          then show ?thesis using False i1 i bs s2 strict_text_escape [OF False]
            by (subst strict_from.simps) (simp add: s_def stop_def)
        next
          case u: True
          show ?thesis
          proof (cases "i + 6 > stop")
            case True
            then have "length (substr raw (i + 2) stop) < 4" using stop i1 by (simp add: substr_length)
            then have "\<not> strict_text s" using strict_text_short s2 u by simp
            then show ?thesis using True i1 i bs u by (subst strict_from.simps) (simp add: s_def stop_def)
          next
            case False
            then have i6: "i + 6 \<le> stop" by simp
            have len: "4 \<le> length (substr raw (i + 2) stop)" using i6 stop by (simp add: substr_length)
            have h4: "parseHex4 (substr raw (i + 2) stop) = parseHex4 (drop (i + 2) raw)" using i6 stop by (intro parseHex4_substr) simp_all
            have d4: "drop 4 (substr raw (i + 2) stop) = substr raw (i + 6) stop"
              using substr_shift [of 4 raw "i + 2" stop] by (simp add: ac_simps)
            have grammar: "strict_text s \<longleftrightarrow>
              (case parseHex4 (drop (i + 2) raw) of None \<Rightarrow> False | Some r \<Rightarrow>
                 if high_surrogate r then
                   (\<exists>l t lo. substr raw (i + 6) stop = [CHR 0x5C, CHR ''u''] @ l @ t \<and> length l = 4 \<and> parseHex4 l = Some lo \<and> low_surrogate lo \<and> strict_text t)
                 else \<not> low_surrogate r \<and> strict_text (substr raw (i + 6) stop))"
              unfolding s2 u by (rule strict_text_unicode [OF len, unfolded h4 d4])
            have step: "strict_from raw i \<longleftrightarrow>
              (case parseHex4 (drop (i + 2) raw) of None \<Rightarrow> False | Some r \<Rightarrow>
                 if high_surrogate r then
                   (if i + 12 > stop \<or> raw ! (i + 6) \<noteq> CHR 0x5C \<or> raw ! (i + 7) \<noteq> CHR ''u'' then False
                    else case parseHex4 (drop (i + 8) raw) of None \<Rightarrow> False | Some lo \<Rightarrow> low_surrogate lo \<and> strict_from raw (i + 12))
                 else \<not> low_surrogate r \<and> strict_from raw (i + 6))"
              using i6 i1 i bs u by (subst strict_from.simps) (auto simp: stop_def Let_def add.commute split: option.split)
            show ?thesis
            proof (cases "parseHex4 (drop (i + 2) raw)")
              case None
              then show ?thesis using step grammar by (simp add: s_def stop_def)
            next
              case (Some r)
              have hex: "parseHex4 (drop (i + 1 + 1) raw) = Some r" using Some by simp
              show ?thesis
              proof (cases "high_surrogate r")
                case high: True
                show ?thesis
                proof (cases "i + 12 > stop")
                  case True
                  then have "j < i + 6 + 6" if "j = stop" for j using that by simp
                  then show ?thesis using step grammar Some high True substr_no_pair [of stop "i + 6" raw] stop(1)
                    by (auto simp: s_def stop_def)
                next
                  case False
                  have "strict_from raw (i + 12) \<longleftrightarrow> strict_text (substr raw (i + 12) stop)"
                    if "raw ! (i + 6) = CHR 0x5C" "raw ! (i + 7) = CHR ''u''" "parseHex4 (drop (i + 8) raw) = Some lo" for lo
                    using 1(3) [OF stop_def _ _ _ _ _ hex refl high] that i i1 i6 bs u False stop by (simp add: stop_def add.commute)
                  then show ?thesis using step grammar Some high False substr_pair [of "i + 6" stop raw] stop(1)
                    by (auto simp: s_def stop_def add.commute split: option.splits)
                qed
              next
                case False
                have "strict_from raw (i + 6) \<longleftrightarrow> strict_text (substr raw (i + 6) stop)" if "\<not> low_surrogate r"
                  using 1(4) [OF stop_def _ _ _ _ _ hex refl False that] i i1 i6 bs u stop by (simp add: stop_def add.commute)
                then show ?thesis using step grammar Some False by (auto simp: s_def stop_def)
              qed
            qed
          qed
        qed
      qed
    qed
  qed
qed


lemma strict_string_grammar:
  "strictJSONStringValid raw \<longleftrightarrow> (\<exists>body. trimSpace raw = [CHR 0x22] @ body @ [CHR 0x22] \<and> strict_text body)"
proof -
  define t where "t = trimSpace raw"
  have outer: "strictJSONStringValid raw \<longleftrightarrow> \<not> (length t < 2 \<or> hd t \<noteq> CHR 0x22 \<or> last t \<noteq> CHR 0x22) \<and> strict_from t 1"
    by (auto simp: strictJSONStringValid_def t_def [symmetric] Let_def)
  have parts: "\<not> (length t < 2 \<or> hd t \<noteq> CHR 0x22 \<or> last t \<noteq> CHR 0x22) \<longleftrightarrow> (\<exists>body. t = [CHR 0x22] @ body @ [CHR 0x22])"
  proof (cases t)
    case (Cons a u)
    then show ?thesis by (cases u rule: rev_cases) auto
  qed simp
  have inner: "strict_from t 1 \<longleftrightarrow> strict_text body" if "t = [CHR 0x22] @ body @ [CHR 0x22]" for body
    using that strict_from_text [of 1 t] by (simp add: substr_def)
  show ?thesis unfolding outer parts t_def [symmetric] using inner by blast
qed


section \<open>Trailer metadata\<close>

text \<open>
  \<open>json.Unmarshal\<close> of a text into a \<open>RawMessage\<close> (which succeeds exactly if \<open>json.Valid\<close>), a string,
  an object or array of raw messages, the error object and an error detail; \<open>None\<close> is an error.
\<close>

record connect_error =
  ce_Code :: string
  ce_Message :: string
  ce_Details :: "string list"

record raw_json =
  rj_Raw :: "string \<Rightarrow> string option"
  rj_String :: "string \<Rightarrow> string option"
  rj_Object :: "string \<Rightarrow> (string \<Rightarrow> string option) option"
  rj_Array :: "string \<Rightarrow> string list option"
  rj_Error :: "string \<Rightarrow> connect_error option"
  rj_Detail :: "string \<Rightarrow> (string option \<times> string option) option"

definition isHeaderTokenChar :: "char \<Rightarrow> bool" where
  "isHeaderTokenChar c \<longleftrightarrow> between 48 c 57 \<or> between 97 c 122 \<or> c = CHR ''_'' \<or> c = CHR ''-'' \<or> c = CHR ''.''"

text \<open>The loop visits the first byte of every rune; a rune of more than one byte begins with a byte that is refused.\<close>

definition rune_width :: "string \<Rightarrow> nat" where
  "rune_width s = (case rune_size s of None \<Rightarrow> 1 | Some n \<Rightarrow> max 1 n)"

function rune_starts :: "string \<Rightarrow> string" where
  "rune_starts [] = []"
| "rune_starts (c # s) = c # rune_starts (drop (rune_width (c # s) - 1) s)"
  by pat_completeness auto

termination by (relation "measure length") auto

definition validConnectHeaderName :: "string \<Rightarrow> bool" where
  "validConnectHeaderName s \<longleftrightarrow> s \<noteq> [] \<and> list_all isHeaderTokenChar (rune_starts s)"

fun metadata_values :: "raw_json \<Rightarrow> string list \<Rightarrow> go_error + string list" where
  "metadata_values rj [] = Inr []"
| "metadata_values rj (elem # arr) =
     (if \<not> strictJSONStringValid elem then Inl ErrMalformedStream
      else case rj_String rj elem of None \<Rightarrow> Inl ErrMalformedStream
      | Some s \<Rightarrow> orFail (metadata_values rj arr) (\<lambda>rest. Inr (s # rest)))"

definition parseTrailerMetadataValue :: "raw_json \<Rightarrow> string \<Rightarrow> go_error + string list" where
  "parseTrailerMetadataValue rj raw =
     (let trimmed = trimSpace raw in
      if trimmed = [] \<or> trimmed = ''null'' then Inl ErrMalformedStream
      else if hd trimmed \<noteq> CHR ''['' then Inl ErrMalformedStream
      else case rj_Array rj raw of None \<Rightarrow> Inl ErrMalformedStream | Some arr \<Rightarrow> metadata_values rj arr)"

type_synonym trailers = "string \<Rightarrow> string list option"

fun metadata_members :: "raw_json \<Rightarrow> (string \<times> string) list \<Rightarrow> trailers \<Rightarrow> go_error + trailers" where
  "metadata_members rj [] out = Inr out"
| "metadata_members rj ((keyRaw, valRaw) # ms) out =
     (if \<not> strictJSONStringValid keyRaw then Inl ErrMalformedStream
      else case rj_String rj keyRaw of None \<Rightarrow> Inl ErrMalformedStream
      | Some key \<Rightarrow>
          if \<not> validConnectHeaderName key then Inl ErrMalformedStream
          else if out key \<noteq> None then Inl ErrMalformedStream
          else orFail (parseTrailerMetadataValue rj valRaw) (\<lambda>vs. metadata_members rj ms (out(key \<mapsto> vs))))"

text \<open>The nil map and an empty one are both the empty map.\<close>

definition parseTrailerMetadata :: "raw_json \<Rightarrow> string \<Rightarrow> go_error + trailers" where
  "parseTrailerMetadata rj raw =
     (let trimmed = trimSpace raw in
      if trimmed = [] then Inl ErrMalformedStream
      else if trimmed = ''null'' then Inr Map.empty
      else if length trimmed < 2 \<or> hd trimmed \<noteq> CHR ''{'' \<or> last trimmed \<noteq> CHR ''}'' then Inl ErrMalformedStream
      else if rj_Raw rj trimmed = None then Inl ErrMalformedStream
      else case splitRawJSONObjectMembers trimmed of
        Inl e \<Rightarrow> Inl ErrMalformedStream
      | Inr members \<Rightarrow> metadata_members rj members Map.empty)"


section \<open>Connect errors\<close>

definition isValidStandardBase64 :: "string \<Rightarrow> bool" where
  "isValidStandardBase64 s \<longleftrightarrow> raw_std_valid s \<or> std_valid s"

definition validateConnectErrorMessage :: "raw_json \<Rightarrow> string \<Rightarrow> bool" where
  "validateConnectErrorMessage rj msg =
     (let trimmed = trimSpace msg in
      if msg = [] then True
      else if trimmed = ''null'' \<or> trimmed = [] \<or> hd trimmed \<noteq> CHR 0x22 then False
      else rj_String rj trimmed \<noteq> None)"

definition detail_valid :: "raw_json \<Rightarrow> string \<Rightarrow> bool" where
  "detail_valid rj d =
     (let trimmed = trimSpace d in
      if trimmed = [] \<or> trimmed = ''null'' \<or> hd trimmed \<noteq> CHR ''{'' then False
      else case rj_Detail rj d of
        Some (Some ty, Some val) \<Rightarrow> ty \<noteq> [] \<and> isValidStandardBase64 val
      | _ \<Rightarrow> False)"

definition validateConnectErrorDetails :: "raw_json \<Rightarrow> string list \<Rightarrow> bool" where
  "validateConnectErrorDetails rj details = list_all (detail_valid rj) details"

definition upstreamClassification :: error_classification where
  "upstreamClassification = upstream_problem\<lparr>ec_RetryNext := True, ec_CooldownScope := CooldownModel\<rparr>"

definition classifyConnectError :: "string \<Rightarrow> error_classification" where
  "classifyConnectError code =
     (if code = ''invalid_argument'' then
        empty_classification\<lparr>ec_Class := ClassValidation, ec_PublicStatus := 400, ec_PublicCode := ''invalid_request_error'',
          ec_PublicMessage := ''invalid model or request payload''\<rparr>
      else if code = ''unauthenticated'' then
        empty_classification\<lparr>ec_Class := ClassUnauthorized, ec_RetryNext := True, ec_RefreshSame := True, ec_DisableAccount := True,
          ec_ReloginRequired := True, ec_CooldownScope := CooldownAccount, ec_PublicStatus := 401,
          ec_PublicCode := ''provider_authentication_error'', ec_PublicMessage := ''provider authentication is required''\<rparr>
      else if code = ''permission_denied'' then
        empty_classification\<lparr>ec_Class := ClassPermission, ec_CooldownScope := CooldownAccount, ec_PublicStatus := 403,
          ec_PublicCode := ''provider_permission_error'', ec_PublicMessage := ''provider permission denied''\<rparr>
      else if code = ''resource_exhausted'' then
        empty_classification\<lparr>ec_Class := ClassRateLimit, ec_RetryNext := True, ec_CooldownScope := CooldownModel, ec_PublicStatus := 429,
          ec_PublicCode := ''rate_limit_exceeded'', ec_PublicMessage := ''all available accounts are rate limited''\<rparr>
      else if code = ''unavailable'' \<or> code = ''internal'' then
        empty_classification\<lparr>ec_Class := ClassTransient, ec_RetryNext := True, ec_CooldownScope := CooldownModel, ec_Cooldown := minute,
          ec_PublicStatus := 503, ec_PublicCode := ''provider_unavailable'', ec_PublicMessage := ''upstream provider error''\<rparr>
      else upstreamClassification)"

definition connectHTTPStatus :: "string \<Rightarrow> int" where
  "connectHTTPStatus code =
     (if code = ''invalid_argument'' then 400
      else if code = ''unauthenticated'' then 401
      else if code = ''permission_denied'' then 403
      else if code = ''resource_exhausted'' then 429
      else if code = ''internal'' then 500
      else if code = ''unavailable'' then 503
      else 502)"

definition classifyConnectEndStreamError :: "raw_json \<Rightarrow> string \<Rightarrow> go_error" where
  "classifyConnectEndStreamError rj raw =
     (let trimmed = trimSpace raw in
      if trimmed = [] \<or> trimmed = ''null'' then ErrMalformedStream
      else if hd trimmed \<noteq> CHR ''{'' then ErrMalformedStream
      else case rj_Error rj raw of None \<Rightarrow> ErrMalformedStream
      | Some problem \<Rightarrow>
          if ce_Code problem = [] then ErrMalformedStream
          else if \<not> validateConnectErrorMessage rj (ce_Message problem) then ErrMalformedStream
          else if \<not> validateConnectErrorDetails rj (ce_Details problem) then ErrMalformedStream
          else status_failure (connectHTTPStatus (ce_Code problem)) (classifyConnectError (ce_Code problem)))"


section \<open>What is accepted\<close>

lemma token_char_width: "isHeaderTokenChar c \<Longrightarrow> rune_width (c # s) = 1"
  by (auto simp: rune_width_def rune_size.simps isHeaderTokenChar_def between_def)

lemma validConnectHeaderName_iff: "validConnectHeaderName s \<longleftrightarrow> s \<noteq> [] \<and> list_all isHeaderTokenChar s"
proof -
  have "list_all isHeaderTokenChar (rune_starts s) \<longleftrightarrow> list_all isHeaderTokenChar s"
  proof (induction s rule: rune_starts.induct)
    case (2 c s)
    then show ?case by (cases "isHeaderTokenChar c") (simp_all add: token_char_width)
  qed simp
  then show ?thesis by (simp add: validConnectHeaderName_def)
qed

text \<open>A raw JSON string that is strictly valid, and what it decodes to.\<close>

definition strict_decoded :: "raw_json \<Rightarrow> string \<Rightarrow> string \<Rightarrow> bool" where
  "strict_decoded rj raw s \<longleftrightarrow>
     (\<exists>body. trimSpace raw = [CHR 0x22] @ body @ [CHR 0x22] \<and> strict_text body) \<and> rj_String rj raw = Some s"

lemma metadata_values_strict: "metadata_values rj arr = Inr vs \<Longrightarrow> list_all2 (strict_decoded rj) arr vs"
  by (induction rj arr arbitrary: vs rule: metadata_values.induct)
    (auto simp: strict_decoded_def strict_string_grammar orFail_returns split: if_splits option.splits)

definition member_decoded :: "raw_json \<Rightarrow> string \<times> string \<Rightarrow> string \<times> string list \<Rightarrow> bool" where
  "member_decoded rj m d \<longleftrightarrow>
     strict_decoded rj (fst m) (fst d) \<and> fst d \<noteq> [] \<and> list_all isHeaderTokenChar (fst d) \<and>
     (\<exists>arr. rj_Array rj (snd m) = Some arr \<and> list_all2 (strict_decoded rj) arr (snd d))"

lemma parsed_value: "parseTrailerMetadataValue rj raw = Inr vs \<Longrightarrow> \<exists>arr. rj_Array rj raw = Some arr \<and> list_all2 (strict_decoded rj) arr vs"
  by (auto simp: parseTrailerMetadataValue_def Let_def dest: metadata_values_strict split: if_splits option.splits)

lemma metadata_members_decoded:
  "metadata_members rj ms out = Inr md \<Longrightarrow>
     \<exists>ds. list_all2 (member_decoded rj) ms ds \<and> distinct (map fst ds) \<and> (\<forall>d\<in>set ds. out (fst d) = None) \<and> md = out ++ map_of ds"
proof (induction rj ms out arbitrary: md rule: metadata_members.induct)
  case (2 rj keyRaw valRaw ms out)
  from 2(2) obtain key vs where k: "strictJSONStringValid keyRaw" "rj_String rj keyRaw = Some key" "validConnectHeaderName key" "out key = None"
    "parseTrailerMetadataValue rj valRaw = Inr vs" "metadata_members rj ms (out(key \<mapsto> vs)) = Inr md"
    by (auto simp: orFail_returns split: if_splits option.splits)
  have "\<exists>ds. list_all2 (member_decoded rj) ms ds \<and> distinct (map fst ds) \<and> (\<forall>d\<in>set ds. (out(key \<mapsto> vs)) (fst d) = None) \<and> md = out(key \<mapsto> vs) ++ map_of ds"
    by (rule 2(1)) (use k in \<open>simp_all add: fun_upd_def\<close>)
  then obtain ds where ds: "list_all2 (member_decoded rj) ms ds" "distinct (map fst ds)" "\<forall>d\<in>set ds. (out(key \<mapsto> vs)) (fst d) = None"
    "md = out(key \<mapsto> vs) ++ map_of ds" by blast
  have "member_decoded rj (keyRaw, valRaw) (key, vs)"
    using k(1,2,3) parsed_value [OF k(5)] by (simp add: member_decoded_def strict_decoded_def strict_string_grammar validConnectHeaderName_iff)
  moreover have "key \<notin> fst ` set ds" using ds(3) by auto
  moreover have "out(key \<mapsto> vs) ++ map_of ds = out ++ map_of ((key, vs) # ds)"
  proof -
    have "map_of ds key = None" using \<open>key \<notin> fst ` set ds\<close> by (simp add: map_of_eq_None_iff)
    then show ?thesis by (auto simp: fun_eq_iff map_add_def split: option.split)
  qed
  moreover have "\<forall>d\<in>set ds. out (fst d) = None" using ds(3) by (metis fun_upd_apply option.distinct(1))
  ultimately have "list_all2 (member_decoded rj) ((keyRaw, valRaw) # ms) ((key, vs) # ds) \<and> distinct (map fst ((key, vs) # ds)) \<and>
      (\<forall>d\<in>set ((key, vs) # ds). out (fst d) = None) \<and> md = out ++ map_of ((key, vs) # ds)"
    using ds(1,2,4) k(4) by simp
  then show ?case by blast
qed auto

text \<open>Trailer metadata that is accepted is null or a JSON object; the members that are read make up the
  text of the object; their names are different lower case header names, the values lists of strings, and every
  name and string is valid UTF-8 without unpaired surrogates, decoded as it is written.\<close>

theorem trailers_wellformed:
  assumes "parseTrailerMetadata rj raw = Inr md" "trimSpace raw \<noteq> ''null''"
  shows "\<exists>members decoded w t rest. trimSpace raw = ''{'' @ w @ t @ ''}'' @ rest \<and> list_all is_ws w \<and> members_text members t \<and>
    list_all2 (member_decoded rj) members decoded \<and> distinct (map fst decoded) \<and> md = map_of decoded"
proof -
  from assms obtain members where m: "splitRawJSONObjectMembers (trimSpace raw) = Inr members" "metadata_members rj members Map.empty = Inr md"
    "hd (trimSpace raw) = CHR ''{''" "trimSpace raw \<noteq> []"
    by (auto simp: parseTrailerMetadata_def Let_def split: if_splits option.splits sum.splits)
  have "trimSpace raw = CHR ''{'' # tl (trimSpace raw)" using m(3,4) by (cases "trimSpace raw") auto
  then have "trimSpace (trimSpace raw) = CHR ''{'' # tl (trimSpace raw)" unfolding trimSpace_idem .
  from split_members_text [OF m(1) this] metadata_members_decoded [OF m(2)] show ?thesis by simp blast
qed

text \<open>A codec that decodes strings without escapes and arrays of one string.\<close>

definition sample_rj :: raw_json where
  "sample_rj = \<lparr>rj_Raw = Some, rj_String = (\<lambda>s. Some (butlast (tl (trimSpace s)))), rj_Object = (\<lambda>s. None), rj_Array = (\<lambda>s. Some [butlast (tl s)]),
     rj_Error = (\<lambda>s. None), rj_Detail = (\<lambda>s. None)\<rparr>"

abbreviation quoted :: "string \<Rightarrow> string" where "quoted s \<equiv> [CHR 0x22] @ s @ [CHR 0x22]"

definition sample_trailer :: string where
  "sample_trailer = ''{ '' @ quoted ''x-a'' @ '': ['' @ quoted ''b'' @ ''], '' @ quoted ''y'' @ '':['' @ quoted ''c'' @ ''] }''"

lemma sample_trailer_parsed: "parseTrailerMetadata sample_rj sample_trailer = Inr (Map.empty(''x-a'' \<mapsto> [''b''], ''y'' \<mapsto> [''c'']))"
proof -
  have t: "trimSpace sample_trailer = sample_trailer" by code_simp
  have split: "splitRawJSONObjectMembers sample_trailer =
      Inr [(quoted ''x-a'', ''['' @ quoted ''b'' @ '']''), (quoted ''y'', ''['' @ quoted ''c'' @ '']'')]" by code_simp
  have shape: "sample_trailer \<noteq> []" "sample_trailer \<noteq> ''null''" "\<not> length sample_trailer < 2" "hd sample_trailer = CHR ''{''"
    "last sample_trailer = CHR ''}''" by (simp_all add: sample_trailer_def)
  have strict: "strictJSONStringValid (quoted ''x-a'')" "strictJSONStringValid (quoted ''y'')" "strictJSONStringValid (quoted ''b'')"
    "strictJSONStringValid (quoted ''c'')" "validConnectHeaderName ''x-a''" "validConnectHeaderName ''y''" by code_simp+
  have vals: "parseTrailerMetadataValue sample_rj (''['' @ quoted ''b'' @ '']'') = Inr [''b'']"
    "parseTrailerMetadataValue sample_rj (''['' @ quoted ''c'' @ '']'') = Inr [''c'']"
    "rj_String sample_rj (quoted ''x-a'') = Some ''x-a''" "rj_String sample_rj (quoted ''y'') = Some ''y''" by code_simp+
  have "metadata_members sample_rj [(quoted ''x-a'', ''['' @ quoted ''b'' @ '']''), (quoted ''y'', ''['' @ quoted ''c'' @ '']'')] Map.empty =
      Inr (Map.empty(''x-a'' \<mapsto> [''b''], ''y'' \<mapsto> [''c'']))"
    using strict vals by (simp del: append.simps)
  moreover have "rj_Raw sample_rj sample_trailer \<noteq> None" by (simp add: sample_rj_def)
  ultimately show ?thesis unfolding parseTrailerMetadata_def Let_def t split using shape by simp
qed

theorem trailers_wellformed_witness:
  "parseTrailerMetadata sample_rj sample_trailer = Inr (Map.empty(''x-a'' \<mapsto> [''b''], ''y'' \<mapsto> [''c''])) \<and> trimSpace sample_trailer \<noteq> ''null'' \<and>
   (\<exists>members decoded. list_all2 (member_decoded sample_rj) members decoded \<and> map_of decoded ''y'' = Some [''c''])"
proof -
  have t: "trimSpace sample_trailer \<noteq> ''null''" by code_simp
  from trailers_wellformed [OF sample_trailer_parsed t] obtain members decoded where
    "list_all2 (member_decoded sample_rj) members decoded" "Map.empty(''x-a'' \<mapsto> [''b''], ''y'' \<mapsto> [''c'']) = map_of decoded" by blast
  then have "list_all2 (member_decoded sample_rj) members decoded \<and> map_of decoded ''y'' = Some [''c'']" by (metis fun_upd_same)
  with sample_trailer_parsed t show ?thesis by blast
qed

text \<open>Connect error codes are classified like the HTTP status they stand for exactly when they are
  \<open>invalid_argument\<close>, \<open>unauthenticated\<close>, \<open>resource_exhausted\<close>, \<open>internal\<close> or \<open>unavailable\<close>; a denied
  permission is not.\<close>

theorem connect_codes_mirror:
  "classifyConnectError code = status_classification dn (connectHTTPStatus code) [] now \<longleftrightarrow>
     code \<in> {''invalid_argument'', ''unauthenticated'', ''resource_exhausted'', ''internal'', ''unavailable''}"
  by (simp add: classifyConnectError_def status_classification_def connectHTTPStatus_def upstreamClassification_def upstream_problem_def
      parseRetryAfter_def empty_classification_def class_defs scope_defs)

end
