(* ===== verification/Devin_Stream.thy ===== *)
theory Devin_Stream
  imports Devin_Trailers
begin

text \<open>
  One chat stream of Devin's API: opening it and reading its Connect envelopes (the first half of
  \<open>internal/devin/stream_client.go\<close>). The body is what the server will send and whether an error
  (instead of its end) follows. \<open>readFrame\<close> waits for its reading goroutine, the caller, the
  stream's context or the idle timer, whichever comes first: each read consumes one element of
  \<open>st_interrupts\<close>, which says who did; when it is empty the goroutine always wins. An interrupted
  read closes the stream; what its goroutine still does is not observable, because reads of a
  closed body fail. The gzip compressor is a parameter.

  Shown: reading a stream to its clean end yields exactly the events that the declarative protocol
  of envelopes allows, in its order, and a stream ends cleanly only after an end-of-stream envelope
  without an error and within the configured limits.
\<close>

section \<open>State\<close>

abbreviation ErrStreamTruncated :: go_error where "ErrStreamTruncated \<equiv> Sentinel ''truncated Devin stream''"
abbreviation ErrStreamFrameTooLarge :: go_error where "ErrStreamFrameTooLarge \<equiv> Sentinel ''Devin stream frame exceeds configured limit''"
abbreviation ErrStreamLimit :: go_error where "ErrStreamLimit \<equiv> Sentinel ''Devin stream exceeds configured limit''"
abbreviation ErrStreamIdleTimeout :: go_error where "ErrStreamIdleTimeout \<equiv> Sentinel ''Devin stream idle timeout''"

record devin_env =
  de_net :: devin_net
  de_wire :: protowire
  de_raw :: raw_json
  de_codec :: json_codec
  de_Gzip :: "string \<Rightarrow> string option"

datatype interrupt = CallerDone go_error | ContextDone go_error | IdleTimer

record conn_stream =
  st_body :: string
  st_bodyFails :: bool
  st_interrupts :: "interrupt option list"
  st_maxCompressed :: int
  st_maxDecompressed :: int
  st_maxTotal :: int
  st_total :: int
  st_mapper :: mapper
  st_queue :: "event list"
  st_trailers :: trailers
  st_ended :: bool
  st_closed :: bool

section \<open>Reading an envelope\<close>

definition be32 :: "string \<Rightarrow> int" where
  "be32 s = foldl (\<lambda>n c. 256 * n + of_char c) 0 s"

definition put32 :: "int \<Rightarrow> string" where
  "put32 n = [char_of (n div 256 div 256 div 256), char_of (n div 256 div 256), char_of (n div 256), char_of n]"

text \<open>The payload of an envelope with its bytes as sent.\<close>

definition open_payload :: "devin_net \<Rightarrow> nat \<Rightarrow> string \<Rightarrow> int \<Rightarrow> go_error + string" where
  "open_payload dn flag raw maxDecompressed =
     (if \<not> odd flag then Inr raw
      else case dn_Gunzip dn True raw of
        None \<Rightarrow> Inl ErrMalformedStream
      | Some (bytes, failing, closeOk, left) \<Rightarrow>
          let decoded = take (nat (maxDecompressed + 1)) bytes in
          if (failing \<and> int (length bytes) < maxDecompressed + 1) \<or> \<not> closeOk then Inl ErrMalformedStream
          else if int (length decoded) > maxDecompressed then Inl ErrStreamFrameTooLarge
          else Inr decoded)"

datatype read_result = ReadEOF | ReadError go_error | ReadFrame nat string

text \<open>The reading goroutine.\<close>

definition read_envelope :: "devin_net \<Rightarrow> conn_stream \<Rightarrow> read_result \<times> conn_stream" where
  "read_envelope dn s =
     (let b = st_body s; gone = s\<lparr>st_body := []\<rparr> in
      if st_closed s then (ReadError ErrStreamTruncated, s)
      else if b = [] \<and> \<not> st_bodyFails s then (ReadEOF, s)
      else if length b < 5 then (ReadError ErrStreamTruncated, gone)
      else
        let flag = of_char (b ! 0); n = be32 (take 4 (drop 1 b)); s1 = s\<lparr>st_body := drop 5 b\<rparr> in
        if flag > 3 then (ReadError ErrMalformedStream, s1)
        else if n > st_maxCompressed s then (ReadError ErrStreamFrameTooLarge, s1)
        else if \<not> odd flag \<and> n > st_maxDecompressed s then (ReadError ErrStreamFrameTooLarge, s1)
        else if int (length (st_body s1)) < n then (ReadError ErrStreamTruncated, gone)
        else
          let raw = take (nat n) (st_body s1); s2 = s1\<lparr>st_body := drop (nat n) (st_body s1)\<rparr> in
          case open_payload dn flag raw (st_maxDecompressed s) of
            Inl e \<Rightarrow> (ReadError e, s2)
          | Inr decoded \<Rightarrow>
              if int (length decoded) > st_maxTotal s - st_total s then (ReadError ErrStreamLimit, s2)
              else (ReadFrame flag decoded, s2\<lparr>st_total := st_total s + int (length decoded)\<rparr>))"

definition conn_Close :: "conn_stream \<Rightarrow> conn_stream" where
  "conn_Close s = s\<lparr>st_closed := True\<rparr>"

definition readFrame :: "devin_net \<Rightarrow> conn_stream \<Rightarrow> read_result \<times> conn_stream" where
  "readFrame dn s =
     (let s1 = s\<lparr>st_interrupts := tl (st_interrupts s)\<rparr> in
      case st_interrupts s of
        Some (CallerDone e) # _ \<Rightarrow> (ReadError e, conn_Close s1)
      | Some (ContextDone e) # _ \<Rightarrow> (ReadError e, conn_Close s1)
      | Some IdleTimer # _ \<Rightarrow> (ReadError ErrStreamIdleTimeout, conn_Close s1)
      | _ \<Rightarrow> read_envelope dn s1)"


section \<open>Next\<close>

definition fill_queue :: "json_codec \<Rightarrow> mevent list mop \<Rightarrow> (conn_stream, go_error, unit) op" where
  "fill_queue c m s =
     (case m (st_mapper s) of
        (Inl e, m') \<Rightarrow> (Inl e, s\<lparr>st_mapper := m', st_queue := []\<rparr>)
      | (Inr evs, m') \<Rightarrow> (Inr (), s\<lparr>st_mapper := m', st_queue := map (encode_mevent c) evs\<rparr>))"

definition end_of_stream :: "devin_env \<Rightarrow> string \<Rightarrow> (conn_stream, go_error, unit) op" where
  "end_of_stream env payload s =
     (let rj = de_raw env in
      if payload = [] then (Inl ErrMalformedStream, s)
      else case rj_Raw rj payload of None \<Rightarrow> (Inl ErrMalformedStream, s) | Some raw \<Rightarrow>
        if trimSpace raw = [] \<or> hd (trimSpace raw) \<noteq> CHR ''{'' then (Inl ErrMalformedStream, s)
        else case rj_Object rj payload of None \<Rightarrow> (Inl ErrMalformedStream, s) | Some envelope \<Rightarrow>
          (case (case envelope ''metadata'' of None \<Rightarrow> Inr (st_trailers s) | Some rawMeta \<Rightarrow> parseTrailerMetadata rj rawMeta) of
             Inl e \<Rightarrow> (Inl ErrMalformedStream, s)
           | Inr meta \<Rightarrow>
               let s1 = s\<lparr>st_trailers := meta\<rparr> in
               case envelope ''error'' of
                 Some rawErr \<Rightarrow> (Inl (classifyConnectEndStreamError rj rawErr), s1)
               | None \<Rightarrow> fill_queue (de_codec env) (mapper_Finalize (de_codec env)) (s1\<lparr>st_ended := True\<rparr>)))"

text \<open>The decoder of chat frames ends (\<open>frames_decoded\<close>), so \<open>the\<close> picks its answer.\<close>

definition handle_frame :: "devin_env \<Rightarrow> nat \<Rightarrow> string \<Rightarrow> (conn_stream, go_error, unit) op" where
  "handle_frame env flag payload s =
     (if odd (flag div 2) then end_of_stream env payload s
      else case the (GetChatMessageResponse_Unmarshal (de_wire env) payload) of
        Inl e \<Rightarrow> (Inl ErrMalformedStream, s)
      | Inr frame \<Rightarrow> fill_queue (de_codec env) (mapper_Push frame) s)"

lemma read_envelope_shrinks: "read_envelope dn s = (ReadFrame flag payload, s') \<Longrightarrow> length (st_body s') < length (st_body s)"
  by (auto simp: read_envelope_def Let_def split: if_splits sum.splits)

lemma readFrame_shrinks: "readFrame dn s = (ReadFrame flag payload, s') \<Longrightarrow> length (st_body s') < length (st_body s)"
  by (auto simp: readFrame_def Let_def dest!: read_envelope_shrinks split: list.splits option.splits interrupt.splits)

lemma fill_queue_body: "st_body (snd (fill_queue c m s)) = st_body s"
  by (simp add: fill_queue_def split: prod.split sum.split)

lemma handle_frame_body: "st_body (snd (handle_frame env flag payload s)) = st_body s"
  by (simp add: handle_frame_def end_of_stream_def Let_def fill_queue_body split: option.split sum.split)

function conn_Next :: "devin_env \<Rightarrow> (conn_stream, go_error, event) op" where
  "conn_Next env s =
     (case st_queue s of
        ev # q \<Rightarrow> (Inr ev, s\<lparr>st_queue := q\<rparr>)
      | [] \<Rightarrow>
          if st_ended s then (Inl ErrEOF, s)
          else case readFrame (de_net env) s of
            (ReadError e, s1) \<Rightarrow> (Inl e, s1)
          | (ReadEOF, s1) \<Rightarrow> (Inl ErrStreamTruncated, s1)
          | (ReadFrame flag payload, s1) \<Rightarrow>
              (case handle_frame env flag payload s1 of
                 (Inl e, s2) \<Rightarrow> (Inl e, s2)
               | (Inr _, s2) \<Rightarrow> conn_Next env s2))"
  by pat_completeness auto

termination
  by (relation "measure (\<lambda>(env, s). length (st_body s))")
    (auto dest!: readFrame_shrinks [OF sym] arg_cong [of "(_, _)" "handle_frame _ _ _ _" "\<lambda>x. st_body (snd x)"] simp: handle_frame_body)

declare conn_Next.simps [simp del]


section \<open>Opening\<close>

definition chat_frame_request :: "string \<Rightarrow> string \<Rightarrow> api_request" where
  "chat_frame_request endpoint frame =
     \<lparr>aq_URL = endpoint,
      aq_Headers = [(''Content-Type'', ''application/connect+proto''), (''Connect-Protocol-Version'', ''1''),
        (''Connect-Content-Encoding'', ''gzip''), (''Accept-Encoding'', ''identity''), (''User-Agent'', ''connect-go/1.18.1 (go1.26.3)''),
        (''Connect-Accept-Encoding'', ''gzip'')],
      aq_Body = frame\<rparr>"

definition chat_frame_body :: "devin_env \<Rightarrow> client_config \<Rightarrow> chat_request \<Rightarrow> go_error + string" where
  "chat_frame_body env cfg message =
     (case GetChatMessageRequest_Marshal (de_wire env) message of
        Inl e \<Rightarrow> Inl ErrMalformedResponse
      | Inr payload \<Rightarrow>
          if int (length payload) > gc_MaxFrameDecompressedBytes cfg then Inl ErrStreamFrameTooLarge
          else case de_Gzip env payload of
            None \<Rightarrow> Inl ErrMalformedResponse
          | Some compressed \<Rightarrow>
              if int (length compressed) > gc_MaxFrameCompressedBytes cfg then Inl ErrStreamFrameTooLarge
              else Inr (CHR 0x01 # put32 (int (length compressed)) @ compressed))"

definition new_conn_stream :: "client_config \<Rightarrow> api_response \<Rightarrow> interrupt option list \<Rightarrow> mapper \<Rightarrow> conn_stream" where
  "new_conn_stream cfg response interrupts m =
     \<lparr>st_body = ap_Body response, st_bodyFails = ap_BodyFails response, st_interrupts = interrupts,
      st_maxCompressed = gc_MaxFrameCompressedBytes cfg, st_maxDecompressed = gc_MaxFrameDecompressedBytes cfg,
      st_maxTotal = gc_MaxStreamBytes cfg, st_total = 0, st_mapper = m, st_queue = [], st_trailers = Map.empty,
      st_ended = False, st_closed = False\<rparr>"

definition chat_stream_error :: "go_error \<Rightarrow> go_error" where
  "chat_stream_error err =
     (if errors_is err ErrCanceled then ErrCanceled else if errors_is err ErrDeadlineExceeded then ErrDeadlineExceeded else err)"

definition openChatStream :: "devin_env \<Rightarrow> devin_client \<Rightarrow> 'w round_trip \<Rightarrow> time \<Rightarrow> interrupt option list \<Rightarrow> chat_request \<Rightarrow> url \<Rightarrow>
    string \<Rightarrow> string \<Rightarrow> ('w, go_error, conn_stream) op" where
  "openChatStream env dc send now interrupts message origin selectedModel responseID w =
     (let cfg = dc_config dc in
      case chat_frame_body env cfg message of
        Inl e \<Rightarrow> (Inl e, w)
      | Inr frame \<Rightarrow>
          attempt (send (chat_frame_request (dn_URLString (de_net env) origin @ APIServiceGetChatMessagePath) frame)) (\<lambda>r. case r of
              Inl err \<Rightarrow> raise (chat_stream_error err)
            | Inr response \<Rightarrow>
                if ap_Status response < 200 \<or> ap_Status response \<ge> 300
                then raise (classifyStatus (de_net env) (ap_Status response) (ap_RetryAfter response) now)
                else (\<lambda>w. (map_sum id (new_conn_stream cfg response interrupts)
                        (NewStreamMapper selectedModel responseID (gc_MaxToolArgumentBytes cfg)), w))) w)"

definition StreamChat :: "devin_env \<Rightarrow> devin_client \<Rightarrow> 'w round_trip \<Rightarrow> time \<Rightarrow> interrupt option list \<Rightarrow> string \<Rightarrow> jobject \<Rightarrow>
    string \<Rightarrow> string \<Rightarrow> ('w, go_error, conn_stream) op" where
  "StreamChat env dc send now interrupts sessionToken canonical selectedModel responseID =
     (let cfg = dc_config dc in
      if gc_StreamIdleTimeout cfg \<le> 0 \<or> gc_MaxFrameCompressedBytes cfg \<le> 0 \<or> gc_MaxFrameDecompressedBytes cfg \<le> 0 \<or>
         gc_MaxStreamBytes cfg \<le> 0 \<or> gc_MaxToolArgumentBytes cfg \<le> 0
      then raise ErrInvalidClientConfig
      else andThen (PrepareChatRequest (de_net env) (de_wire env) (de_codec env) dc send now sessionToken canonical) (\<lambda>(wire, origin).
           openChatStream env dc send now interrupts wire origin selectedModel responseID))"


section \<open>The protocol\<close>

definition envelope :: "nat \<Rightarrow> string \<Rightarrow> string" where
  "envelope flag raw = char_of flag # put32 (int (length raw)) @ raw"

text \<open>What an envelope carries, within the limits of the stream.\<close>

definition carries :: "devin_env \<Rightarrow> conn_stream \<Rightarrow> int \<Rightarrow> nat \<Rightarrow> string \<Rightarrow> string \<Rightarrow> bool" where
  "carries env s tot flag raw payload \<longleftrightarrow>
     flag \<le> 3 \<and> int (length raw) \<le> st_maxCompressed s \<and> (even flag \<longrightarrow> int (length raw) \<le> st_maxDecompressed s) \<and>
     open_payload (de_net env) flag raw (st_maxDecompressed s) = Inr payload \<and> tot + int (length payload) \<le> st_maxTotal s"

definition clean_end :: "raw_json \<Rightarrow> string \<Rightarrow> bool" where
  "clean_end rj payload \<longleftrightarrow>
     payload \<noteq> [] \<and> (\<exists>raw members. rj_Raw rj payload = Some raw \<and> trimSpace raw \<noteq> [] \<and> hd (trimSpace raw) = CHR ''{'' \<and>
       rj_Object rj payload = Some members \<and> members ''error'' = None \<and>
       (\<forall>v. members ''metadata'' = Some v \<longrightarrow> (\<exists>t. parseTrailerMetadata rj v = Inr t)))"

inductive answers :: "devin_env \<Rightarrow> conn_stream \<Rightarrow> string \<Rightarrow> int \<Rightarrow> mapper \<Rightarrow> mevent list \<Rightarrow> bool" for env s where
  ended: "carries env s tot flag raw payload \<Longrightarrow> odd (flag div 2) \<Longrightarrow> clean_end (de_raw env) payload \<Longrightarrow>
    mapper_Finalize (de_codec env) m = (Inr evs, m') \<Longrightarrow> answers env s (envelope flag raw @ rest) tot m evs"
| frame: "carries env s tot flag raw payload \<Longrightarrow> even (flag div 2) \<Longrightarrow>
    GetChatMessageResponse_Unmarshal (de_wire env) payload = Some (Inr frame) \<Longrightarrow> mapper_Push frame m = (Inr evs, m') \<Longrightarrow>
    answers env s body (tot + int (length payload)) m' out \<Longrightarrow> answers env s (envelope flag raw @ body) tot m (evs @ out)"

fun drain :: "nat \<Rightarrow> devin_env \<Rightarrow> conn_stream \<Rightarrow> event list \<times> go_error option" where
  "drain 0 env s = ([], None)"
| "drain (Suc n) env s =
     (case conn_Next env s of
        (Inl e, s') \<Rightarrow> ([], Some e)
      | (Inr ev, s') \<Rightarrow> apfst (\<lambda>evs. ev # evs) (drain n env s'))"

text \<open>A stream between two batches, in the middle of an answer.\<close>

definition between_batches :: "conn_stream \<Rightarrow> bool" where
  "between_batches s \<longleftrightarrow> st_queue s = [] \<and> \<not> st_ended s \<and> \<not> st_closed s \<and> st_interrupts s = []"

definition limits_of :: "conn_stream \<Rightarrow> int \<times> int \<times> int" where
  "limits_of s = (st_maxCompressed s, st_maxDecompressed s, st_maxTotal s)"

lemma put32_length [simp]: "length (put32 n) = 4"
  by (simp add: put32_def)

lemma be32_put32:
  assumes "0 \<le> n" "n < 2 ^ 32"
  shows "be32 (put32 n) = n"
proof -
  define q1 where "q1 = n div 256"
  define q2 where "q2 = q1 div 256"
  define q3 where "q3 = q2 div 256"
  have "n = 256 * q1 + n mod 256" "q1 = 256 * q2 + q1 mod 256" "q2 = 256 * q3 + q2 mod 256" by (simp_all add: q1_def q2_def q3_def)
  moreover have "q3 mod 256 = q3" using assms by (simp add: q1_def q2_def q3_def)
  ultimately show ?thesis unfolding be32_def put32_def q1_def [symmetric] q2_def [symmetric] q3_def [symmetric] by simp
qed

lemma put32_be32:
  assumes "length s = 4"
  shows "put32 (be32 s) = s" "0 \<le> be32 s" "be32 s < 2 ^ 32"
proof -
  obtain a b c d where s: "s = [a, b, c, d]" using assms by (auto simp: length_Suc_conv eval_nat_numeral)
  define f :: "char \<Rightarrow> int" where "f = of_char"
  have r: "0 \<le> f x" "f x < 256" for x
  proof -
    have "f x = int (of_char x)" unfolding f_def by (rule of_nat_of_char [symmetric])
    then show "0 \<le> f x" "f x < 256" using nat_of_char_less_256 [of x] by linarith+
  qed
  have n: "be32 s = 256 * (256 * (256 * f a + f b) + f c) + f d" by (simp add: be32_def s f_def)
  have d1: "be32 s div 256 = 256 * (256 * f a + f b) + f c" using r [of d] by (simp add: n)
  have d2: "be32 s div 256 div 256 = 256 * f a + f b" unfolding d1 using r [of c] by simp
  have d3: "be32 s div 256 div 256 div 256 = f a" unfolding d2 using r [of b] by simp
  have low: "char_of (256 * k + f x) = x" for k x
    by (rule of_char_eqI [where 'a = int]) (simp add: f_def)
  have "char_of (be32 s div 256 div 256 div 256) = a" unfolding d3 using low [of 0 a] by simp
  moreover have "char_of (be32 s div 256 div 256) = b" unfolding d2 by (rule low)
  moreover have "char_of (be32 s div 256) = c" unfolding d1 by (rule low)
  moreover have "char_of (be32 s) = d" unfolding n by (rule low)
  ultimately show "put32 (be32 s) = s" unfolding put32_def s by (simp only:)
  show "0 \<le> be32 s" "be32 s < 2 ^ 32" using r [of a] r [of b] r [of c] r [of d] by (simp_all add: n)
qed


lemma char_flag: "n \<le> 3 \<Longrightarrow> of_char (char_of n) = n" for n :: nat
  by simp

lemma read_envelope_carries:
  assumes "between_batches s" "st_maxCompressed s < 2 ^ 32"
  shows "read_envelope (de_net env) s = (ReadFrame flag payload, s') \<longleftrightarrow>
    (\<exists>raw body. st_body s = envelope flag raw @ body \<and> carries env s (st_total s) flag raw payload \<and>
       s' = s\<lparr>st_body := body, st_total := st_total s + int (length payload)\<rparr>)" (is "?l \<longleftrightarrow> ?r")
proof
  assume ?l
  define b where "b = st_body s"
  define n where "n = be32 (take 4 (drop 1 b))"
  define raw where "raw = take (nat n) (drop 5 b)"
  from \<open>?l\<close> assms(1) have len: "5 \<le> length b"
    by (auto simp: read_envelope_def Let_def between_batches_def b_def split: if_splits)
  then have word: "put32 n = take 4 (drop 1 b)" "0 \<le> n" using put32_be32 [of "take 4 (drop 1 b)"] by (simp_all add: n_def)
  have f: "of_char (b ! 0) = flag" "flag \<le> 3" "n \<le> st_maxCompressed s" "even flag \<longrightarrow> n \<le> st_maxDecompressed s" "n \<le> int (length (drop 5 b))"
    "open_payload (de_net env) flag raw (st_maxDecompressed s) = Inr payload" "int (length payload) \<le> st_maxTotal s - st_total s"
    "s' = s\<lparr>st_body := drop (nat n) (drop 5 b), st_total := st_total s + int (length payload)\<rparr>"
    using \<open>?l\<close> assms(1) len
    by (auto simp: read_envelope_def Let_def between_batches_def b_def n_def raw_def not_less split: if_splits sum.splits)
  have raw: "int (length raw) = n" using f(5) word(2) by (simp add: raw_def)
  have flag: "char_of flag = b ! 0" using f(1) by auto
  have "b = b ! 0 # take 4 (drop 1 b) @ drop 5 b"
    using len append_take_drop_id [of 4 "drop 1 b"] by (cases b) simp_all
  moreover have "envelope flag raw = b ! 0 # take 4 (drop 1 b) @ raw" unfolding envelope_def flag raw word(1) ..
  moreover have "drop 5 b = raw @ drop (nat n) (drop 5 b)" by (simp add: raw_def del: drop_drop)
  ultimately have "b = envelope flag raw @ drop (nat n) (drop 5 b)" by (metis append_Cons append_assoc)
  with f raw show ?r by (auto simp: b_def carries_def)
next
  assume ?r
  then obtain raw body where b: "st_body s = envelope flag raw @ body" and c: "carries env s (st_total s) flag raw payload"
    and s': "s' = s\<lparr>st_body := body, st_total := st_total s + int (length payload)\<rparr>" by blast
  have "int (length raw) < 2 ^ 32" using c assms(2) by (simp add: carries_def)
  then have n: "be32 (put32 (int (length raw))) = int (length raw)" by (intro be32_put32) simp_all
  show ?l using assms(1) c
    by (simp add: read_envelope_def Let_def between_batches_def b s' envelope_def n carries_def not_less)
qed


lemma readFrame_quiet: "st_interrupts s = [] \<Longrightarrow> readFrame dn s = read_envelope dn s"
  by (cases s) (simp add: readFrame_def Let_def)

lemma read_envelope_errors: "read_envelope dn s = (ReadError e, s') \<Longrightarrow> e \<noteq> ErrEOF"
  by (auto simp: read_envelope_def open_payload_def Let_def split: if_splits sum.splits option.splits)

text \<open>The mapper never fails with \<open>io.EOF\<close>.\<close>

definition no_eof :: "('s, go_error, 'a) op \<Rightarrow> bool" where
  "no_eof m \<longleftrightarrow> (\<forall>s s'. m s \<noteq> (Inl ErrEOF, s'))"

lemma no_eof_andThen: "no_eof m \<Longrightarrow> (\<And>x. no_eof (f x)) \<Longrightarrow> no_eof (andThen m f)"
  by (auto simp: no_eof_def andThen_def split: prod.splits sum.splits)

lemma no_eof_ret: "no_eof (ret x)" "no_eof (getState g)" "no_eof (putState h)" "no_eof (mapper_event k p)"
  by (auto simp: no_eof_def ret_def getState_def putState_def mapper_event_def)

lemma no_eof_emit_if: "no_eof e \<Longrightarrow> no_eof (emit_if P e)"
proof -
  assume "no_eof e"
  then have "no_eof (andThen e (\<lambda>x. ret [x]))" by (intro no_eof_andThen no_eof_ret)
  then show ?thesis by (auto simp: no_eof_def emit_if_def split: if_splits)
qed

lemmas no_eof_intros = no_eof_andThen no_eof_ret no_eof_emit_if

lemma no_eof_applied: "no_eof m \<Longrightarrow> m s \<noteq> (Inl ErrEOF, s')"
  by (simp add: no_eof_def)

lemma no_eof_events: "no_eof created_event" "no_eof finishReasoning" "no_eof (push_thinking t)" "no_eof (push_text t)" "no_eof finish_message"
  by (auto simp: no_eof_def created_event_def finishReasoning_def push_thinking_def push_text_def finish_message_def mapper_event_def Let_def)

lemma no_eof_final: "no_eof final_event"
proof -
  have "no_eof (\<lambda>m. final_event m)" unfolding no_eof_def final_event_def
    by (intro allI no_eof_applied no_eof_intros)
  then show ?thesis .
qed

lemma no_eof_note: "no_eof (note_outcome frame)"
  by (auto simp: no_eof_def note_outcome_def checkedUsage_def Let_def split: option.splits if_splits)

lemma no_eof_announce: "no_eof (announce_tool i n)"
  by (auto simp: no_eof_def announce_tool_def Let_def andThen_def ret_def mapper_event_def split: option.splits if_splits)

lemma no_eof_add: "no_eof (add_arguments i a)"
  by (auto simp: no_eof_def add_arguments_def Let_def andThen_def ret_def mapper_event_def split: option.splits if_splits)

lemma no_eof_pushTool: "no_eof (pushTool call)"
proof -
  have "no_eof (andThen (announce_tool i n) (\<lambda>o1. andThen (putState h) (\<lambda>_. andThen (add_arguments i a) (\<lambda>o2. ret (o1 @ o2)))))" for i n h a
    by (intro no_eof_intros no_eof_announce no_eof_add)
  then show ?thesis by (auto simp: no_eof_def pushTool_def Let_def)
qed

lemma no_eof_push_tools: "no_eof (push_tools calls)"
  by (induction calls) (simp_all add: no_eof_intros no_eof_pushTool)

lemma no_eof_Push: "no_eof (mapper_Push frame)"
proof -
  have "no_eof (andThen (emit_if (\<lambda>m. \<not> sm_created m) created_event) (\<lambda>o1.
      andThen (note_outcome frame) (\<lambda>_.
      andThen (emit_if (\<lambda>_. cf_DeltaThinking frame \<noteq> []) (push_thinking (cf_DeltaThinking frame))) (\<lambda>o2.
      andThen (emit_if (\<lambda>m. cf_DeltaText frame \<noteq> [] \<and> reasoning_pending m) finishReasoning) (\<lambda>o3.
      andThen (emit_if (\<lambda>_. cf_DeltaText frame \<noteq> []) (push_text (cf_DeltaText frame))) (\<lambda>o4.
      andThen (push_tools (cf_DeltaToolCalls frame)) (\<lambda>o5. ret (o1 @ o2 @ o3 @ o4 @ o5))))))))"
    by (intro no_eof_intros no_eof_events no_eof_note no_eof_push_tools)
  then show ?thesis by (simp add: no_eof_def mapper_Push_def)
qed

lemma no_eof_finish_tool: "no_eof (finish_tool c ident)"
proof -
  have "no_eof (andThen (mapper_event k p) (\<lambda>e1. andThen (putState h) (\<lambda>_. andThen (mapper_event k2 p2) (\<lambda>e2.
      andThen (putState h2) (\<lambda>_. ret [e1, e2])))))" for k p h k2 p2 h2
    by (intro no_eof_intros)
  then show ?thesis by (auto simp: no_eof_def finish_tool_def split: option.splits)
qed

lemma no_eof_finish_tools: "no_eof (finish_tools c ids)"
  by (induction ids) (simp_all add: no_eof_intros no_eof_finish_tool)

lemma no_eof_Finalize: "no_eof (mapper_Finalize c)"
proof -
  have "no_eof (andThen (emit_if (\<lambda>m. \<not> sm_created m) created_event) (\<lambda>o1.
      andThen (emit_if reasoning_pending finishReasoning) (\<lambda>o2.
      andThen (putState store_reasoning) (\<lambda>_.
      andThen (emit_if (\<lambda>m. sm_text m \<noteq> []) finish_message) (\<lambda>o3.
      andThen (getState sm_toolOrder) (\<lambda>ids.
      andThen (finish_tools c ids) (\<lambda>o4.
      andThen final_event (\<lambda>e. ret (o1 @ o2 @ o3 @ o4 @ [e])))))))))"
    by (intro no_eof_intros no_eof_events no_eof_finish_tools no_eof_final)
  then show ?thesis by (simp add: no_eof_def mapper_Finalize_def)
qed



section \<open>Reading to the end\<close>

lemma fill_queue_iff:
  "fill_queue c m s = (Inr u, s') \<longleftrightarrow>
     (\<exists>evs m'. m (st_mapper s) = (Inr evs, m') \<and> s' = s\<lparr>st_mapper := m', st_queue := map (encode_mevent c) evs\<rparr>)"
  by (auto simp: fill_queue_def split: prod.splits sum.splits)

lemma fill_queue_error: "no_eof m \<Longrightarrow> fill_queue c m s \<noteq> (Inl ErrEOF, s')"
  by (auto simp: fill_queue_def no_eof_def split: prod.splits sum.splits)

definition after_batch :: "devin_env \<Rightarrow> mevent list \<Rightarrow> mapper \<Rightarrow> conn_stream \<Rightarrow> conn_stream" where
  "after_batch env evs m' s = s\<lparr>st_mapper := m', st_queue := map (encode_mevent (de_codec env)) evs\<rparr>"

lemma handle_end:
  assumes "odd (flag div 2)"
  shows "(\<exists>s2. handle_frame env flag payload s = (Inr u, s2) \<and> P s2) \<longleftrightarrow> clean_end (de_raw env) payload \<and>
    (\<exists>evs m' t. mapper_Finalize (de_codec env) (st_mapper s) = (Inr evs, m') \<and>
       t = (case the (rj_Object (de_raw env) payload) ''metadata'' of None \<Rightarrow> st_trailers s | Some v \<Rightarrow> projr (parseTrailerMetadata (de_raw env) v)) \<and>
       P (after_batch env evs m' (s\<lparr>st_trailers := t, st_ended := True\<rparr>)))"
  using assms
  by (auto simp: handle_frame_def end_of_stream_def clean_end_def Let_def fill_queue_iff after_batch_def split: option.splits sum.splits)

lemma handle_chat_frame:
  assumes "even (flag div 2)"
  shows "handle_frame env flag payload s = (Inr u, s2) \<longleftrightarrow>
    (\<exists>frame evs m'. the (GetChatMessageResponse_Unmarshal (de_wire env) payload) = Inr frame \<and>
       mapper_Push frame (st_mapper s) = (Inr evs, m') \<and> s2 = after_batch env evs m' s)"
  using assms by (auto simp: handle_frame_def fill_queue_iff after_batch_def split: sum.splits)

lemma classify_end_error: "classifyConnectEndStreamError rj raw \<noteq> ErrEOF"
  by (auto simp: classifyConnectEndStreamError_def Let_def status_failure_def split: option.splits)

lemma handle_frame_error: "handle_frame env flag payload s \<noteq> (Inl ErrEOF, s2)"
  using fill_queue_error [OF no_eof_Finalize] fill_queue_error [OF no_eof_Push] classify_end_error
  by (auto simp: handle_frame_def end_of_stream_def Let_def split: option.splits sum.splits)

lemma drain_same_next: "conn_Next env s = conn_Next env s2 \<Longrightarrow> 0 < n \<Longrightarrow> drain n env s = drain n env s2"
  by (cases n) simp_all

lemma conn_Next_queued: "st_queue s = ev # q \<Longrightarrow> conn_Next env s = (Inr ev, s\<lparr>st_queue := q\<rparr>)"
  by (simp add: conn_Next.simps [of env s])

lemma drain_queue: "st_queue s = q \<Longrightarrow> drain (length q + n) env s = apfst (\<lambda>evs. q @ evs) (drain n env (s\<lparr>st_queue := []\<rparr>))"
proof (induction q arbitrary: s)
  case Nil
  then have "s\<lparr>st_queue := []\<rparr> = s" by (cases s) simp
  then show ?case by (cases "drain n env s") simp
next
  case (Cons ev q)
  have "drain (length q + n) env (s\<lparr>st_queue := q\<rparr>) = apfst (\<lambda>evs. q @ evs) (drain n env (s\<lparr>st_queue := q\<rparr>\<lparr>st_queue := []\<rparr>))"
    by (rule Cons.IH) simp
  then show ?case using conn_Next_queued [OF Cons.prems] by (cases "drain n env (s\<lparr>st_queue := []\<rparr>)") simp
qed

lemma drain_queue_inv:
  "drain n env s = (evs, Some e) \<Longrightarrow> \<exists>k evs'. evs = st_queue s @ evs' \<and> drain k env (s\<lparr>st_queue := []\<rparr>) = (evs', Some e)"
proof (induction n arbitrary: s evs)
  case (Suc n)
  show ?case
  proof (cases "st_queue s")
    case Nil
    then have "s\<lparr>st_queue := []\<rparr> = s" by (cases s) simp
    with Suc.prems Nil show ?thesis by (metis append_Nil)
  next
    case (Cons ev q)
    with Suc.prems conn_Next_queued [OF Cons, of env] obtain evs1 where evs: "evs = ev # evs1" "drain n env (s\<lparr>st_queue := q\<rparr>) = (evs1, Some e)"
      by (auto simp: apfst_def map_prod_def split: prod.splits)
    from Suc.IH [OF evs(2)] obtain k evs' where "evs1 = q @ evs'" "drain k env (s\<lparr>st_queue := []\<rparr>) = (evs', Some e)" by auto
    then show ?thesis using evs(1) Cons by auto
  qed
qed simp


lemma drain_ended: "st_queue s = [] \<Longrightarrow> st_ended s \<Longrightarrow> drain (Suc n) env s = ([], Some ErrEOF)"
  by (simp add: conn_Next.simps [of env s])

lemma carries_limits: "limits_of s = limits_of s0 \<Longrightarrow> carries env s = carries env s0"
  by (simp add: limits_of_def carries_def fun_eq_iff)

lemma after_batch_simps [simp]:
  "st_body (after_batch env evs m s) = st_body s" "st_total (after_batch env evs m s) = st_total s"
  "st_mapper (after_batch env evs m s) = m" "st_queue (after_batch env evs m s) = map (encode_mevent (de_codec env)) evs"
  "st_ended (after_batch env evs m s) = st_ended s" "st_closed (after_batch env evs m s) = st_closed s"
  "st_interrupts (after_batch env evs m s) = st_interrupts s" "limits_of (after_batch env evs m s) = limits_of s"
  by (simp_all add: after_batch_def limits_of_def)

lemma next_of_frame:
  assumes "between_batches s" "read_envelope (de_net env) s = (ReadFrame flag payload, s1)" "handle_frame env flag payload s1 = (Inr u, s2)"
  shows "conn_Next env s = conn_Next env s2"
  using assms by (simp add: conn_Next.simps [of env s] between_batches_def readFrame_quiet)

lemma frames_decoded_total:
  assumes "wire_laws pw"
  shows "\<exists>r. GetChatMessageResponse_Unmarshal pw b = Some r"
proof -
  have "calls_bounded empty_frame" by (simp add: empty_frame_def maxDeltaToolCalls_def)
  from fields_loop_ends [OF assms frame_field_answers [OF assms] this, where b = b] show ?thesis
    by (auto simp: GetChatMessageResponse_Unmarshal_def)
qed

lemma drained_answers:
  assumes "drain n env s = (evs, Some ErrEOF)" "between_batches s" "limits_of s = limits_of s0" "st_maxCompressed s < 2 ^ 32" "wire_laws (de_wire env)"
  shows "\<exists>out. answers env s0 (st_body s) (st_total s) (st_mapper s) out \<and> evs = map (encode_mevent (de_codec env)) out"
  using assms(1-4)
proof (induction "length (st_body s)" arbitrary: s n evs rule: less_induct)
  case less
  from less.prems(1) obtain n' where n: "n = Suc n'" by (cases n) auto
  have quiet: "readFrame (de_net env) s = read_envelope (de_net env) s" "st_queue s = []" "\<not> st_ended s"
    using less.prems(2) by (simp_all add: between_batches_def readFrame_quiet)
  obtain r s1 where read: "read_envelope (de_net env) s = (r, s1)" by force
  have "\<exists>flag payload. r = ReadFrame flag payload"
    using less.prems(1) quiet read read_envelope_errors [of "de_net env" s] by (cases r) (auto simp: n conn_Next.simps [of env s])
  then obtain flag payload where r: "r = ReadFrame flag payload" by blast
  obtain h s2 where handle: "handle_frame env flag payload s1 = (h, s2)" by force
  have "\<exists>u. h = Inr u"
    using less.prems(1) quiet read r handle handle_frame_error [of env flag payload s1 s2] by (cases h) (auto simp: n conn_Next.simps [of env s])
  then obtain u where h: "handle_frame env flag payload s1 = (Inr u, s2)" using handle by blast
  from read_envelope_carries [OF less.prems(2,4), of env flag payload s1] read r obtain raw body where
    body: "st_body s = envelope flag raw @ body" and c: "carries env s (st_total s) flag raw payload"
    and s1: "s1 = s\<lparr>st_body := body, st_total := st_total s + int (length payload)\<rparr>" by blast
  have c0: "carries env s0 (st_total s) flag raw payload" using c carries_limits [OF less.prems(3)] by simp
  have "drain n env s2 = (evs, Some ErrEOF)"
    using less.prems(1) drain_same_next [OF next_of_frame [OF less.prems(2) _ h], of n] read r n by simp
  from drain_queue_inv [OF this] obtain k evs' where k: "evs = st_queue s2 @ evs'" "drain k env (s2\<lparr>st_queue := []\<rparr>) = (evs', Some ErrEOF)" by blast
  show ?case
  proof (cases "odd (flag div 2)")
    case True
    from h have "\<exists>s2'. handle_frame env flag payload s1 = (Inr u, s2') \<and> s2' = s2" by blast
    then obtain out m' where e: "clean_end (de_raw env) payload" "mapper_Finalize (de_codec env) (st_mapper s1) = (Inr out, m')"
      "st_queue s2 = map (encode_mevent (de_codec env)) out" "st_ended s2"
      unfolding handle_end [OF True] by auto
    have "evs' = []" using k(2) e(4) drain_ended [of "s2\<lparr>st_queue := []\<rparr>"] by (cases k) auto
    moreover have "answers env s0 (envelope flag raw @ body) (st_total s) (st_mapper s) out"
      using c0 True e(1,2) by (intro answers.ended) (simp_all add: s1)
    ultimately show ?thesis using k(1) e(3) body by auto
  next
    case False
    then obtain frame out1 m' where e: "the (GetChatMessageResponse_Unmarshal (de_wire env) payload) = Inr frame"
      "mapper_Push frame (st_mapper s1) = (Inr out1, m')" "s2 = after_batch env out1 m' s1"
      using handle_chat_frame [THEN iffD1, OF _ h] by auto
    let ?s3 = "s2\<lparr>st_queue := []\<rparr>"
    have "length (st_body ?s3) < length (st_body s)" by (simp add: e(3) s1 body envelope_def)
    moreover have "between_batches ?s3" using less.prems(2) by (simp add: between_batches_def e(3) s1)
    moreover have "limits_of ?s3 = limits_of s0" "st_maxCompressed ?s3 < 2 ^ 32"
      using less.prems(3,4) by (simp_all add: e(3) s1 limits_of_def after_batch_def)
    ultimately have "\<exists>out. answers env s0 (st_body ?s3) (st_total ?s3) (st_mapper ?s3) out \<and> evs' = map (encode_mevent (de_codec env)) out"
      using less.hyps [of ?s3 k evs'] k(2) by blast
    then obtain out where out: "answers env s0 body (st_total s + int (length payload)) m' out" "evs' = map (encode_mevent (de_codec env)) out"
      by (auto simp: e(3) s1)
    have dec: "GetChatMessageResponse_Unmarshal (de_wire env) payload = Some (Inr frame)"
      using e(1) frames_decoded_total [OF assms(5), of payload] by auto
    have "answers env s0 (envelope flag raw @ body) (st_total s) (st_mapper s) (out1 @ out)"
      using c0 False dec e(2) out(1) by (intro answers.frame [of env s0 "st_total s" flag raw payload frame]) (simp_all add: s1)
    moreover have "evs = map (encode_mevent (de_codec env)) (out1 @ out)" using k(1) out(2) by (simp add: e(3))
    ultimately show ?thesis using body by auto
  qed
qed


lemma drain_step:
  assumes "between_batches s" "read_envelope (de_net env) s = (ReadFrame flag payload, s1)" "handle_frame env flag payload s1 = (Inr u, s2)"
    and "drain n env (s2\<lparr>st_queue := []\<rparr>) = (evs, Some e)"
  shows "drain (length (st_queue s2) + n) env s = (st_queue s2 @ evs, Some e)"
proof -
  have "0 < n" using assms(4) by (cases n) auto
  then have "drain (length (st_queue s2) + n) env s = drain (length (st_queue s2) + n) env s2"
    by (intro drain_same_next next_of_frame [OF assms(1-3)]) simp
  also have "\<dots> = (st_queue s2 @ evs, Some e)" using drain_queue [OF refl, of s2 n env] assms(4) by simp
  finally show ?thesis .
qed

lemma answers_drained:
  assumes "answers env s0 b tot m out"
  shows "between_batches s \<Longrightarrow> limits_of s = limits_of s0 \<Longrightarrow> st_maxCompressed s < 2 ^ 32 \<Longrightarrow> st_body s = b \<Longrightarrow> st_total s = tot \<Longrightarrow> st_mapper s = m \<Longrightarrow>
    \<exists>n. drain n env s = (map (encode_mevent (de_codec env)) out, Some ErrEOF)"
  using assms
proof (induction arbitrary: s rule: answers.induct)
  case (ended tot flag raw payload m evs m' rest)
  let ?s1 = "s\<lparr>st_body := rest, st_total := tot + int (length payload)\<rparr>"
  have read: "read_envelope (de_net env) s = (ReadFrame flag payload, ?s1)"
    using ended.hyps(1) ended.prems carries_limits [OF ended.prems(2)] by (subst read_envelope_carries) auto
  have "\<exists>s2. handle_frame env flag payload ?s1 = (Inr (), s2) \<and> st_queue s2 = map (encode_mevent (de_codec env)) evs \<and> st_ended s2"
    unfolding handle_end [OF ended.hyps(2)] using ended.hyps(3,4) ended.prems(6) by simp
  then obtain s2 where s2: "handle_frame env flag payload ?s1 = (Inr (), s2)" "st_queue s2 = map (encode_mevent (de_codec env)) evs" "st_ended s2" by blast
  have "drain (Suc 0) env (s2\<lparr>st_queue := []\<rparr>) = ([], Some ErrEOF)" using s2(3) by (intro drain_ended) simp_all
  from drain_step [OF ended.prems(1) read s2(1) this] show ?case unfolding s2(2) append_Nil2 by blast
next
  case (frame tot flag raw payload frame m evs m' body out)
  let ?s1 = "s\<lparr>st_body := body, st_total := tot + int (length payload)\<rparr>"
  let ?s2 = "after_batch env evs m' ?s1"
  have read: "read_envelope (de_net env) s = (ReadFrame flag payload, ?s1)"
    using frame.hyps(1) frame.prems carries_limits [OF frame.prems(2)] by (subst read_envelope_carries) auto
  have h: "handle_frame env flag payload ?s1 = (Inr (), ?s2)"
    using handle_chat_frame [OF frame.hyps(2)] frame.hyps(3,4) frame.prems(6) by auto
  have "\<exists>n. drain n env (?s2\<lparr>st_queue := []\<rparr>) = (map (encode_mevent (de_codec env)) out, Some ErrEOF)"
    using frame.prems by (intro frame.IH) (simp_all add: between_batches_def limits_of_def after_batch_def)
  then obtain n where "drain n env (?s2\<lparr>st_queue := []\<rparr>) = (map (encode_mevent (de_codec env)) out, Some ErrEOF)" by blast
  from drain_step [OF frame.prems(1) read h this] show ?case unfolding after_batch_simps map_append by blast
qed

text \<open>C23: What a stream yields. When no read is interrupted, reading a stream until \<open>io.EOF\<close> yields
  exactly the events of an answer of the protocol: a sequence of envelopes that respect the limits
  on their size, on their decompressed size and on the sum of these, each (but the last) a chat
  frame the mapper accepts, then an end-of-stream envelope with an object without an error and with
  well-formed metadata, for which the mapper finishes. Whatever else the body is, the stream does
  not end with \<open>io.EOF\<close>.
\<close>

theorem stream_reads_protocol:
  assumes "wire_laws (de_wire env)" "between_batches s" "st_maxCompressed s < 2 ^ 32"
  shows "(\<exists>n. drain n env s = (evs, Some ErrEOF)) \<longleftrightarrow>
    (\<exists>out. answers env s (st_body s) (st_total s) (st_mapper s) out \<and> evs = map (encode_mevent (de_codec env)) out)"
  using drained_answers [OF _ assms(2) refl assms(3,1)] answers_drained [OF _ assms(2) refl assms(3) refl refl refl] by blast

lemma answers_frames:
  "answers env s b tot m out \<Longrightarrow> \<exists>frames pushed m1 final m2. push_frames frames m = (Inr pushed, m1) \<and>
     mapper_Finalize (de_codec env) m1 = (Inr final, m2) \<and> out = pushed @ final"
proof (induction rule: answers.induct)
  case (ended tot flag raw payload m evs m' rest)
  have "push_frames [] m = (Inr [], m)" by (simp add: ret_def)
  with ended.hyps(4) show ?case by fastforce
next
  case (frame tot flag raw payload frame m evs m' body out)
  then obtain frames pushed m1 final m2 where "push_frames frames m' = (Inr pushed, m1)" "mapper_Finalize (de_codec env) m1 = (Inr final, m2)"
    "out = pushed @ final" by blast
  moreover from this(1) frame.hyps(4) have "push_frames (frame # frames) m = (Inr (evs @ pushed), m1)"
    by (simp add: andThen_def ret_def)
  ultimately show ?case by fastforce
qed



section \<open>A chat\<close>

text \<open>The chat request that is sent: one compressed envelope with the marshalled request.\<close>

definition chat_post :: "devin_env \<Rightarrow> devin_client \<Rightarrow> string \<Rightarrow> api_request \<Rightarrow> bool" where
  "chat_post env dc sessionToken q \<longleftrightarrow>
     (\<exists>u message payload compressed t jwt.
        origin_ok (de_net env) (dc_allowedHosts dc) u \<and> aq_URL q = dn_URLString (de_net env) u @ APIServiceGetChatMessagePath \<and>
        aq_Body q = envelope 1 compressed \<and> int (length compressed) \<le> gc_MaxFrameCompressedBytes (dc_config dc) \<and>
        de_Gzip env payload = Some compressed \<and> GetChatMessageRequest_Marshal (de_wire env) message = Inr payload \<and>
        NormalizeSessionToken sessionToken = Inr t \<and> cr_Metadata message = Some (chat_metadata t jwt))"

lemma chat_frame_body_envelope:
  assumes "chat_frame_body env cfg message = Inr frame"
  shows "\<exists>payload compressed. frame = envelope 1 compressed \<and> int (length compressed) \<le> gc_MaxFrameCompressedBytes cfg \<and>
    de_Gzip env payload = Some compressed \<and> GetChatMessageRequest_Marshal (de_wire env) message = Inr payload"
proof -
  have "char_of (1 :: nat) = CHR 0x01" by code_simp
  then show ?thesis using assms by (auto simp: chat_frame_body_def envelope_def split: sum.splits if_splits option.splits)
qed

lemma openChatStream_sends:
  assumes "openChatStream env dc (logged_send send) now ints message origin model rid (w, log) = (r, (w', log'))"
  shows "log' = log \<or> (\<exists>frame. chat_frame_body env (dc_config dc) message = Inr frame \<and>
    log' = log @ [chat_frame_request (dn_URLString (de_net env) origin @ APIServiceGetChatMessagePath) frame])"
proof (cases "chat_frame_body env (dc_config dc) message")
  case (Inr frame)
  obtain x w1 where "send (chat_frame_request (dn_URLString (de_net env) origin @ APIServiceGetChatMessagePath) frame) w = (x, w1)" by force
  then show ?thesis using assms Inr
    by (auto simp: openChatStream_def Let_def attempt_def logged_send_def raise_def split: sum.splits if_splits)
qed (use assms in \<open>simp add: openChatStream_def Let_def\<close>)

text \<open>C22: Devin credentials stay with trusted origins. A chat makes at most two HTTP requests. Each of
  them goes to the fixed bootstrap origin (HTTPS, \<open>server.codeium.com\<close>, no port, no user), or posts
  the chat to an HTTPS origin of that host or of a configured one, never an IP address, as one
  compressed envelope within the limit with a marshalled request that carries the normalized
  session token. This holds whatever the servers answer.
\<close>

theorem chat_credentials_trusted:
  assumes "StreamChat env dc (logged_send send) now ints sessionToken canonical model rid (w, []) = (r, (w', log))"
  shows "length log \<le> 2 \<and> (\<forall>q\<in>set log. chat_post env dc sessionToken q \<or> (\<exists>u. origin_ok (de_net env) [] u \<and>
      u_Hostname u = defaultBaseHost \<and> aq_URL q = dn_URLString (de_net env) u @ AuthServiceGetUserJWTPath))"
proof -
  let ?prep = "PrepareChatRequest (de_net env) (de_wire env) (de_codec env) dc (logged_send send) now sessionToken canonical"
  obtain p w1 log1 where p: "?prep (w, []) = (p, (w1, log1))" by (metis prod.collapse)
  note trusted = prepare_trusted [OF p]
  show ?thesis
  proof (cases p)
    case (Inl e)
    then have "log = log1 \<or> log = []" using assms p by (auto simp: StreamChat_def Let_def andThen_def raise_def split: if_splits)
    then show ?thesis using trusted by auto
  next
    case (Inr mo)
    obtain message origin where mo: "mo = (message, origin)" by force
    have ok: "origin_ok (de_net env) (dc_allowedHosts dc) origin" and
      md: "\<exists>t jwt. NormalizeSessionToken sessionToken = Inr t \<and> cr_Metadata message = Some (chat_metadata t jwt)"
      using trusted Inr mo by auto
    have "log = [] \<or> openChatStream env dc (logged_send send) now ints message origin model rid (w1, log1) = (r, (w', log))"
      using assms p Inr mo by (auto simp: StreamChat_def Let_def andThen_def raise_def split: if_splits)
    then show ?thesis
    proof
      assume "openChatStream env dc (logged_send send) now ints message origin model rid (w1, log1) = (r, (w', log))"
      from openChatStream_sends [OF this] show ?thesis
      proof (elim disjE exE conjE)
        assume "log = log1"
        then show ?thesis using trusted by auto
      next
        fix frame assume f: "chat_frame_body env (dc_config dc) message = Inr frame"
          "log = log1 @ [chat_frame_request (dn_URLString (de_net env) origin @ APIServiceGetChatMessagePath) frame]"
        have "chat_post env dc sessionToken (chat_frame_request (dn_URLString (de_net env) origin @ APIServiceGetChatMessagePath) frame)"
          unfolding chat_post_def chat_frame_request_def using chat_frame_body_envelope [OF f(1)] ok md by simp blast
        then show ?thesis using trusted f(2) by auto
      qed
    qed simp
  qed
qed


lemma map_sum_Inr: "map_sum id f r = Inr y \<longleftrightarrow> (\<exists>x. r = Inr x \<and> y = f x)"
  by (cases r) auto

lemma opened_stream:
  assumes "openChatStream env dc send now ints message origin model rid w = (Inr s, w')"
  shows "\<exists>response m. s = new_conn_stream (dc_config dc) response ints m \<and> NewStreamMapper model rid (gc_MaxToolArgumentBytes (dc_config dc)) = Inr m \<and>
    200 \<le> ap_Status response \<and> ap_Status response < 300"
  using assms by (fastforce simp: openChatStream_def Let_def attempt_def raise_def map_sum_Inr not_less not_le split: sum.splits prod.splits if_splits)

text \<open>C24: A Devin stream that ends cleanly is a complete answer. If a stream that was opened with valid
  limits and is not interrupted is read until \<open>io.EOF\<close>, then its first event is \<open>response.created\<close>
  and its last event is \<open>response.completed\<close> or \<open>response.incomplete\<close>: an answer that the server
  cuts off, or ends with an error, is never mistaken for a finished one.
\<close>

theorem clean_stream_complete:
  assumes "wire_laws (de_wire env)" "validClientConfig (dc_config dc)"
    and "openChatStream env dc send now [] message origin model rid w = (Inr s, w')" "drain n env s = (evs, Some ErrEOF)"
  shows "evs \<noteq> [] \<and> ev_Event (hd evs) = ''response.created'' \<and> ev_Event (last evs) \<in> {''response.completed'', ''response.incomplete''}"
proof -
  obtain response m0 where s: "s = new_conn_stream (dc_config dc) response [] m0" and m0: "NewStreamMapper model rid (gc_MaxToolArgumentBytes (dc_config dc)) = Inr m0"
    using opened_stream [OF assms(3)] by blast
  have "gc_MaxFrameCompressedBytes (dc_config dc) \<le> 16 * 1024 * 1024"
    using assms(2) by (simp add: validClientConfig_def within_def mib_def kib_def)
  then have limit: "st_maxCompressed s < 2 ^ 32" by (simp add: s new_conn_stream_def)
  have "between_batches s" by (simp add: s new_conn_stream_def between_batches_def)
  from drained_answers [OF assms(4) this refl limit assms(1)] obtain out where
    out: "answers env s (st_body s) (st_total s) m0 out" "evs = map (encode_mevent (de_codec env)) out"
    by (auto simp: s new_conn_stream_def)
  then obtain frames pushed m1 final m2 where run: "push_frames frames m0 = (Inr pushed, m1)" "mapper_Finalize (de_codec env) m1 = (Inr final, m2)"
    "out = pushed @ final" using answers_frames by blast
  obtain slots where inv: "mapper_inv m1 pushed slots" using push_frames_inv [OF run(1) new_mapper_inv [OF m0]] by auto
  obtain m3 e out1 where final: "final = out1 @ [e]" and i3: "mapper_inv m3 (pushed @ out1) slots" and ne: "pushed @ out1 \<noteq> []"
    and fe: "final_event m3 = (Inr e, m2)" using mapper_Finalize_inv [OF run(2) inv] by blast
  have "fst e \<in> set terminal_kinds" using final_event_inv [OF fe i3 ne] by blast
  moreover have "fst (hd (pushed @ out1)) = ''response.created''" using i3 ne by (simp add: mapper_inv_def run_of_def)
  moreover have o: "out = (pushed @ out1) @ [e]" by (simp add: run(3) final)
  moreover have "hd out = hd (pushed @ out1)" using ne unfolding o by (rule hd_append2)
  moreover have "out \<noteq> []" "last out = e" using o by simp_all
  ultimately show ?thesis unfolding out(2) by (simp add: hd_map last_map encode_mevent_def terminal_kinds_def del: map_append)
qed


section \<open>Examples\<close>

definition sample_raw :: raw_json where
  "sample_raw = sample_rj\<lparr>rj_Object := (\<lambda>s. if s = ''{}'' then Some Map.empty else None)\<rparr>"

definition sample_env :: devin_env where
  "sample_env = \<lparr>de_net = sample_net, de_wire = demo_wire, de_raw = sample_raw, de_codec = braces_codec, de_Gzip = (\<lambda>_. Some ''z'')\<rparr>"

definition hi_frame :: string where "hi_frame = fields_bytes demo_wire [(3, WBytes ''hi'')]"

definition hi_reply :: api_response where
  "hi_reply = \<lparr>ap_Status = 200, ap_RetryAfter = [], ap_ContentEncoding = [], ap_Body = envelope 0 hi_frame @ envelope 2 ''{}'', ap_BodyFails = False\<rparr>"

definition hi_send :: "unit round_trip" where "hi_send q w = (Inr hi_reply, w)"

definition hi_mapper :: mapper where "hi_mapper = projr (NewStreamMapper ''swe'' [] mib)"

definition hi_stream :: conn_stream where "hi_stream = new_conn_stream sample_config hi_reply [] hi_mapper"

lemma hi_answer_for:
  assumes "mapper_Push (empty_frame\<lparr>cf_DeltaText := ''hi''\<rparr>) m = (Inr pushed, m1)" "mapper_Finalize braces_codec m1 = (Inr final, m2)"
    and "1000 \<le> st_maxCompressed s" "1000 \<le> st_maxDecompressed s" "1000 \<le> st_maxTotal s"
  shows "answers sample_env s (ap_Body hi_reply) 0 m (pushed @ final)"
proof -
  have len: "length hi_frame = 4" "trimSpace ''{}'' = ''{}''" by code_simp+
  have "GetChatMessageResponse_Unmarshal demo_wire hi_frame = Some (apply_fields (frame_step demo_wire) [(3, WBytes ''hi'')] empty_frame)"
    unfolding hi_frame_def using len(1) by (intro frame_decoded [OF demo_laws]) (simp_all add: hi_frame_def number_ok_def maxUnmarshalBytes_def)
  also have "apply_fields (frame_step demo_wire) [(3, WBytes ''hi'')] empty_frame = Inr (empty_frame\<lparr>cf_DeltaText := ''hi''\<rparr>)"
    by (simp add: frame_step_def text_step_def frame_texts_def set_frame_text_def)
  finally have dec: "GetChatMessageResponse_Unmarshal (de_wire sample_env) hi_frame = Some (Inr (empty_frame\<lparr>cf_DeltaText := ''hi''\<rparr>))"
    by (simp add: sample_env_def)
  have c: "carries sample_env s 0 0 hi_frame hi_frame" "carries sample_env s 4 2 ''{}'' ''{}''"
    using assms(3-5) by (simp_all add: carries_def len open_payload_def)
  have "clean_end (de_raw sample_env) ''{}''"
    by (simp add: clean_end_def sample_env_def sample_raw_def sample_rj_def len)
  moreover have "mapper_Finalize (de_codec sample_env) m1 = (Inr final, m2)" using assms(2) by (simp add: sample_env_def)
  ultimately have "answers sample_env s (envelope 2 ''{}'' @ []) (0 + int (length hi_frame)) m1 final"
    using c(2) by (intro answers.ended) (simp_all add: len)
  from answers.frame [OF c(1) _ dec assms(1) this] show ?thesis by (simp add: hi_reply_def)
qed

abbreviation hi_pushed :: "(go_error + mevent list) \<times> mapper" where
  "hi_pushed \<equiv> mapper_Push (empty_frame\<lparr>cf_DeltaText := ''hi''\<rparr>) hi_mapper"

abbreviation hi_final :: "(go_error + mevent list) \<times> mapper" where "hi_final \<equiv> mapper_Finalize braces_codec (snd hi_pushed)"

abbreviation hi_events :: "mevent list" where "hi_events \<equiv> projr (fst hi_pushed) @ projr (fst hi_final)"

lemma hi_answer: "answers sample_env hi_stream (st_body hi_stream) 0 hi_mapper hi_events"
proof -
  have ok: "isl (fst hi_pushed) = False" "isl (fst hi_final) = False" by code_simp+
  have pushed: "hi_pushed = (Inr (projr (fst hi_pushed)), snd hi_pushed)" using ok(1) by (cases "fst hi_pushed") (auto intro: prod_eqI)
  have final: "hi_final = (Inr (projr (fst hi_final)), snd hi_final)" using ok(2) by (cases "fst hi_final") (auto intro: prod_eqI)
  have "1000 \<le> st_maxCompressed hi_stream" "1000 \<le> st_maxDecompressed hi_stream" "1000 \<le> st_maxTotal hi_stream"
    "st_body hi_stream = ap_Body hi_reply"
    by (simp_all add: hi_stream_def new_conn_stream_def sample_config_def mib_def kib_def)
  with hi_answer_for [OF pushed final] show ?thesis by metis
qed

lemma hi_stream_ready: "wire_laws (de_wire sample_env)" "between_batches hi_stream" "st_maxCompressed hi_stream < 2 ^ 32"
  "st_total hi_stream = 0" "st_mapper hi_stream = hi_mapper" "de_codec sample_env = braces_codec"
  using demo_laws by (simp_all add: sample_env_def hi_stream_def new_conn_stream_def between_batches_def sample_config_def mib_def kib_def)

theorem stream_reads_protocol_witness:
  "(\<exists>n. drain n sample_env hi_stream = (map (encode_mevent braces_codec) hi_events, Some ErrEOF)) \<and>
   map fst hi_events = [''response.created'', ''response.output_text.delta'', ''response.output_item.done'', ''response.completed''] \<and>
   streamed_text hi_events = ''hi''"
proof -
  have "map fst hi_events = [''response.created'', ''response.output_text.delta'', ''response.output_item.done'', ''response.completed'']"
    "streamed_text hi_events = ''hi''" by code_simp+
  moreover have "\<exists>n. drain n sample_env hi_stream = (map (encode_mevent braces_codec) hi_events, Some ErrEOF)"
    using stream_reads_protocol [OF hi_stream_ready(1-3), of "map (encode_mevent braces_codec) hi_events"] hi_answer
    by (auto simp: hi_stream_ready)
  ultimately show ?thesis by blast
qed

definition plain_request :: chat_request where
  "plain_request =
     \<lparr>cr_Metadata = None, cr_Prompt = ''hi'', cr_ChatMessagePrompts = [], cr_ChatModelUID = ''swe'', cr_RequestType = 0, cr_Configuration = None,
      cr_Tools = [], cr_DisableParallelToolCalls = False, cr_ToolChoice = None, cr_SystemPromptCacheOptions = None, cr_CascadeID = [],
      cr_ProviderSource = 0, cr_PlannerMode = 0, cr_ExecutionID = []\<rparr>"

theorem clean_stream_complete_witness:
  "\<exists>n evs. openChatStream sample_env sample_client hi_send 0 [] plain_request sample_url ''swe'' [] () = (Inr hi_stream, ()) \<and>
     drain n sample_env hi_stream = (evs, Some ErrEOF) \<and> ev_Event (last evs) \<in> {''response.completed'', ''response.incomplete''}"
proof -
  have "isl (chat_frame_body sample_env sample_config plain_request) = False" by code_simp
  then obtain frame where frame: "chat_frame_body sample_env sample_config plain_request = Inr frame"
    by (cases "chat_frame_body sample_env sample_config plain_request") auto
  have "isl (NewStreamMapper ''swe'' [] mib) = False" "gc_MaxToolArgumentBytes sample_config = mib" by code_simp+
  then have mapper: "NewStreamMapper ''swe'' [] (gc_MaxToolArgumentBytes sample_config) = Inr hi_mapper"
    by (cases "NewStreamMapper ''swe'' [] mib") (auto simp: hi_mapper_def)
  have opened: "openChatStream sample_env sample_client hi_send 0 [] plain_request sample_url ''swe'' [] () = (Inr hi_stream, ())"
    using frame mapper by (simp add: openChatStream_def Let_def attempt_def hi_send_def sample_client_def hi_reply_def hi_stream_def)
  obtain n where n: "drain n sample_env hi_stream = (map (encode_mevent braces_codec) hi_events, Some ErrEOF)"
    using answers_drained [OF hi_answer hi_stream_ready(2) refl hi_stream_ready(3) refl] by (auto simp: hi_stream_ready)
  have "validClientConfig (dc_config sample_client)" by code_simp
  from clean_stream_complete [OF hi_stream_ready(1) this opened n] opened n show ?thesis by blast
qed

theorem chat_credentials_trusted_witness:
  "\<exists>r q log. StreamChat sample_env sample_client (logged_send sample_send) 0 [] ''tok'' sample_canonical ''swe'' [] ((), []) = (r, ((), q # log)) \<and>
     length log \<le> 1 \<and> (chat_post sample_env sample_client ''tok'' q \<or>
       (\<exists>u. origin_ok sample_net [] u \<and> aq_URL q = dn_URLString sample_net u @ AuthServiceGetUserJWTPath))"
proof -
  obtain request q where p: "PrepareChatRequest sample_net demo_wire braces_codec sample_client (logged_send sample_send) 0 ''tok'' sample_canonical ((), []) =
       (Inr (request, sample_url), ((), [q]))" using sample_prepared by blast
  have limits: "0 < gc_StreamIdleTimeout sample_config" "0 < gc_MaxFrameCompressedBytes sample_config" "0 < gc_MaxFrameDecompressedBytes sample_config"
    "0 < gc_MaxStreamBytes sample_config" "0 < gc_MaxToolArgumentBytes sample_config" by code_simp+
  have cfg: "dc_config sample_client = sample_config" by (simp add: sample_client_def)
  have net: "de_net sample_env = sample_net" "de_wire sample_env = demo_wire" "de_codec sample_env = braces_codec" by (simp_all add: sample_env_def)
  obtain r log' where o: "openChatStream sample_env sample_client (logged_send sample_send) 0 [] request sample_url ''swe'' [] ((), [q]) = (r, ((), log'))"
    by (metis prod.collapse old.unit.exhaust)
  have run: "StreamChat sample_env sample_client (logged_send sample_send) 0 [] ''tok'' sample_canonical ''swe'' [] ((), []) = (r, ((), log'))"
    using p o limits by (simp add: StreamChat_def Let_def andThen_def cfg net)
  obtain log where "log' = q # log" using openChatStream_sends [OF o] by auto
  with chat_credentials_trusted [OF run] run net show ?thesis by auto
qed

end
