(* ===== verification/Devin_Provider.thy ===== *)
theory Devin_Provider
  imports Devin_Stream Store_Cooldowns
begin

text \<open>
  Devin as a provider of generations: the adapter of its client to the provider-neutral contract
  (\<open>internal/devin/provider_generation.go\<close>) and its request policy
  (\<open>internal/devin/provider_policy.go\<close>). Open streams live in a list in the world and a handle is
  an index into it, so that the adapter is a \<open>generation_client\<close> of the executor; the random bytes of
  a response id, the clock and the interrupts of a stream are read from the world.

  Shown: collecting an answer returns exactly what streaming it yields, within the limit, and always
  ends; every failure is classified; a request that Devin's encoder refuses is classified as a
  failure of the upstream that is retried elsewhere, and its cooldown scope has no effect.
\<close>

section \<open>Adapting errors\<close>

fun as_http_status :: "go_error \<Rightarrow> int option" where
  "as_http_status (HTTPStatusE n) = Some n"
| "as_http_status (Wrapf m es) = foldr (\<lambda>x r. case as_http_status x of Some n \<Rightarrow> Some n | None \<Rightarrow> r) es None"
| "as_http_status e = None"

definition classifyGenerationStatus :: "int \<Rightarrow> error_classification" where
  "classifyGenerationStatus status =
     (let result = upstreamClassification in
      if status = 400 \<or> status = 404 then
        result\<lparr>ec_Class := ClassValidation, ec_RetryNext := False, ec_CooldownScope := [], ec_PublicStatus := 400,
          ec_PublicCode := ''invalid_request_error'', ec_PublicMessage := ''invalid model or request payload''\<rparr>
      else if status = 401 \<or> status = 403 then
        result\<lparr>ec_Class := ClassUnauthorized, ec_RefreshSame := True, ec_RetryNext := True, ec_DisableAccount := True, ec_ReloginRequired := True,
          ec_CooldownScope := CooldownAccount, ec_PublicStatus := 401, ec_PublicCode := ''provider_authentication_error'',
          ec_PublicMessage := ''provider authentication is required''\<rparr>
      else if status = 408 \<or> status = 429 \<or> status = 500 \<or> status = 502 \<or> status = 503 \<or> status = 504 then
        result\<lparr>ec_Class := ClassTransient, ec_RetryNext := True, ec_CooldownScope := CooldownModel, ec_PublicStatus := 503,
          ec_PublicCode := ''provider_unavailable''\<rparr>
      else result)"

definition passed_on :: "go_error \<Rightarrow> bool" where
  "passed_on err \<longleftrightarrow> errors_is err ErrEOF \<or> errors_is err ErrCanceled \<or> errors_is err ErrDeadlineExceeded"

definition adaptGenerationError :: "go_error \<Rightarrow> go_error" where
  "adaptGenerationError err =
     (if passed_on err then err
      else if as_upstream err \<noteq> None then err
      else case as_http_status err of
        Some n \<Rightarrow> status_failure n (classifyGenerationStatus n)
      | None \<Rightarrow>
          status_failure 0
            (if is_net_error err
             then upstreamClassification\<lparr>ec_Class := ClassConnection, ec_RetryNext := True, ec_PublicStatus := 503,
                    ec_PublicCode := ''provider_unavailable''\<rparr>
             else upstreamClassification))"


section \<open>The client\<close>

definition newResponseID :: "('w, go_error, string) op \<Rightarrow> ('w, go_error, string) op" where
  "newResponseID rand = andThen rand (\<lambda>raw. ret (''resp_'' @ hex_encode raw))"

record 'w devin_provider =
  dp_env :: devin_env
  dp_client :: devin_client
  dp_send :: "'w round_trip"
  dp_rand :: "('w, go_error, string) op"
  dp_now :: "'w \<Rightarrow> time"
  dp_interrupts :: "'w \<Rightarrow> interrupt option list"

definition devin_Stream :: "'w devin_provider \<Rightarrow> generation_request \<Rightarrow> ('w, go_error, conn_stream) op" where
  "devin_Stream p request =
     attempt (newResponseID (dp_rand p)) (\<lambda>r. case r of
         Inl e \<Rightarrow> raise (status_failure 0 upstreamClassification)
       | Inr responseID \<Rightarrow> (\<lambda>w.
           attempt (StreamChat (dp_env p) (dp_client p) (dp_send p) (dp_now p w) (dp_interrupts p w) (gr_Credential request) (gr_Canonical request)
               (rm_UpstreamName (gr_Model request)) responseID)
             (\<lambda>r. case r of Inl err \<Rightarrow> raise (adaptGenerationError err) | Inr s \<Rightarrow> ret s) w))"

text \<open>\<open>generationStream.Next\<close>.\<close>

definition generation_Next :: "devin_env \<Rightarrow> (conn_stream, go_error, event) op" where
  "generation_Next env s = (case conn_Next env s of (Inl err, s') \<Rightarrow> (Inl (adaptGenerationError err), s') | (Inr ev, s') \<Rightarrow> (Inr ev, s'))"

lemma conn_Next_progress:
  "conn_Next env s = (Inr ev, s') \<Longrightarrow>
     length (st_body s') < length (st_body s) \<or> (length (st_body s') = length (st_body s) \<and> length (st_queue s') < length (st_queue s))"
proof (induction env s rule: conn_Next.induct)
  case (1 env s)
  show ?case
  proof (cases "st_queue s")
    case (Cons e q)
    then show ?thesis using 1(2) by (auto simp: conn_Next.simps [of env s])
  next
    case Nil
    then obtain flag payload s1 u s2 where a: "\<not> st_ended s" "readFrame (de_net env) s = (ReadFrame flag payload, s1)"
      "handle_frame env flag payload s1 = (Inr u, s2)" "conn_Next env s2 = (Inr ev, s')"
      using 1(2) by (auto simp: conn_Next.simps [of env s] split: if_splits prod.splits read_result.splits sum.splits)
    have "length (st_body s2) < length (st_body s)"
      using readFrame_shrinks [OF a(2)] handle_frame_body [of env flag payload s1] a(3) by simp
    moreover have "length (st_body s') < length (st_body s2) \<or> (length (st_body s') = length (st_body s2) \<and> length (st_queue s') < length (st_queue s2))"
      using 1(1) [OF Nil a(1) a(2) [symmetric] refl a(3) [symmetric] refl] a(4) by simp
    ultimately show ?thesis by linarith
  qed
qed

lemma generation_Next_progress:
  "generation_Next env s = (Inr ev, s') \<Longrightarrow>
     length (st_body s') < length (st_body s) \<or> (length (st_body s') = length (st_body s) \<and> length (st_queue s') < length (st_queue s))"
  by (auto simp: generation_Next_def split: prod.splits sum.splits dest: conn_Next_progress)

text \<open>The collecting loop of \<open>Execute\<close>.\<close>

function collect_events :: "devin_env \<Rightarrow> int \<Rightarrow> int \<Rightarrow> event list \<Rightarrow> (conn_stream, go_error, event list) op" where
  "collect_events env limit taken events s =
     (case generation_Next env s of
        (Inl nextErr, s') \<Rightarrow> (if errors_is nextErr ErrEOF then Inr events else Inl nextErr, s')
      | (Inr ev, s') \<Rightarrow>
          if int (length (ev_Data ev)) > limit - taken then (Inl (adaptGenerationError ErrStreamLimit), s')
          else collect_events env limit (taken + int (length (ev_Data ev))) (events @ [ev]) s')"
  by pat_completeness auto
termination
  by (relation "measures [\<lambda>(env, limit, taken, events, s). length (st_body s), \<lambda>(env, limit, taken, events, s). length (st_queue s)]")
    (auto dest!: generation_Next_progress [OF sym])

declare collect_events.simps [simp del]

text \<open>The deferred \<open>Close\<close> acts on a stream that nobody else has.\<close>

definition devin_Execute :: "'w devin_provider \<Rightarrow> generation_request \<Rightarrow> ('w, go_error, event list) op" where
  "devin_Execute p request =
     andThen (devin_Stream p request) (\<lambda>s w.
       let limit = gc_MaxNonStreamBytes (dc_config (dp_client p)) in
       if limit \<le> 0 then (Inl ErrInvalidClientConfig, w)
       else (fst (collect_events (dp_env p) limit 0 [] s), w))"

text \<open>\<open>RequestPolicy.Prepare\<close>; the canonical request may be a nil map.\<close>

definition devin_Prepare :: "resolved_model \<Rightarrow> jobject option \<Rightarrow> go_error + jobject option" where
  "devin_Prepare model request =
     (case request of
        None \<Rightarrow> Inl (status_failure 400 (empty_classification\<lparr>ec_Class := ClassValidation, ec_PublicStatus := 400,
          ec_PublicCode := ''invalid_request_error'', ec_PublicMessage := ''invalid request''\<rparr>))
      | Some r \<Rightarrow> Inr (Some r))"



text \<open>The adapter as a generation client.\<close>

record 'w devin_world =
  dw_outer :: 'w
  dw_streams :: "conn_stream list"

definition in_outer :: "('w, go_error, 'a) op \<Rightarrow> ('w devin_world, go_error, 'a) op" where
  "in_outer m d = (case m (dw_outer d) of (r, w) \<Rightarrow> (r, d\<lparr>dw_outer := w\<rparr>))"

definition devin_generation :: "'w devin_provider \<Rightarrow> ('w devin_world, nat) generation_client" where
  "devin_generation p =
     \<lparr>gc_Execute = (\<lambda>request. in_outer (devin_Execute p request)),
      gc_Stream = (\<lambda>request. andThen (in_outer (devin_Stream p request)) (\<lambda>s d.
        (Inr (length (dw_streams d)), d\<lparr>dw_streams := dw_streams d @ [s]\<rparr>))),
      gc_Next = (\<lambda>h d. case generation_Next (dp_env p) (dw_streams d ! h) of
        (r, s) \<Rightarrow> (r, d\<lparr>dw_streams := (dw_streams d)[h := s]\<rparr>)),
      gc_Close = (\<lambda>h d. (Inr (), d\<lparr>dw_streams := (dw_streams d)[h := conn_Close (dw_streams d ! h)]\<rparr>))\<rparr>"


section \<open>Classification\<close>

lemma adapted_cases: "passed_on (adaptGenerationError e) \<or> as_upstream (adaptGenerationError e) \<noteq> None"
  by (auto simp: adaptGenerationError_def status_failure_def split: option.split)

lemma adapt_idem: "adaptGenerationError (adaptGenerationError e) = adaptGenerationError e"
  using adapted_cases [of e] by (subst adaptGenerationError_def) auto

lemma adapt_EOF: "errors_is (adaptGenerationError e) ErrEOF \<longleftrightarrow> errors_is e ErrEOF"
  by (auto simp: adaptGenerationError_def passed_on_def status_failure_def split: option.split)

lemma generation_Next_error: "generation_Next env s = (Inl e, s') \<Longrightarrow> passed_on e \<or> as_upstream e \<noteq> None"
  using adapted_cases by (auto simp: generation_Next_def split: prod.splits sum.splits)

lemma collect_error:
  "fst (collect_events env limit taken events s) = Inl e \<Longrightarrow> passed_on e \<or> as_upstream e \<noteq> None"
proof (induction env limit taken events s rule: collect_events.induct)
  case (1 env limit taken events s)
  obtain r s' where next_: "generation_Next env s = (r, s')" by force
  show ?case
  proof (cases r)
    case (Inl e')
    then have "e' = e" using 1(2) next_ by (auto simp: collect_events.simps [of env limit taken events s] split: if_splits)
    then show ?thesis using generation_Next_error next_ Inl by blast
  next
    case (Inr ev)
    show ?thesis
    proof (cases "int (length (ev_Data ev)) > limit - taken")
      case True
      then have "e = adaptGenerationError ErrStreamLimit" using 1(2) next_ Inr by (simp add: collect_events.simps [of env limit taken events s])
      then show ?thesis using adapted_cases by blast
    next
      case False
      then show ?thesis using 1 next_ Inr by (simp add: collect_events.simps [of env limit taken events s])
    qed
  qed
qed

text \<open>
  The executor decides about retries and cooldowns by the classification inside an error. Whatever
  goes wrong, every failure of the client is the end of the stream, a cancellation, a deadline, or carries one.
\<close>

lemma stream_error: "devin_Stream p request w = (Inl e, w') \<Longrightarrow> passed_on e \<or> as_upstream e \<noteq> None"
  using adapted_cases
  by (auto simp: devin_Stream_def attempt_def raise_def ret_def status_failure_def split: prod.splits sum.splits)

text \<open>Failures are classified. When the limits of the client are valid, whatever the request, the servers and the
  random source do, an error of \<open>Execute\<close>, of \<open>Stream\<close> or of a stream's \<open>Next\<close> carries an upstream error with its
  classification, or is \<open>io.EOF\<close>, a cancellation or a deadline; the error that ends an execution is never \<open>io.EOF\<close>
  once the stream is open, because that ends the answer.\<close>

theorem failures_classified:
  assumes "validClientConfig (dc_config (dp_client p))"
  shows "(devin_Execute p request w = (Inl e, w') \<longrightarrow> passed_on e \<or> as_upstream e \<noteq> None) \<and>
    (devin_Stream p request w = (Inl e, w') \<longrightarrow> passed_on e \<or> as_upstream e \<noteq> None) \<and>
    (generation_Next env s = (Inl e, s') \<longrightarrow> passed_on e \<or> as_upstream e \<noteq> None) \<and>
    (devin_Stream p request w = (Inr s, w') \<longrightarrow> fst (devin_Execute p request w) \<noteq> Inl ErrEOF)"
proof -
  have limit: "\<not> gc_MaxNonStreamBytes (dc_config (dp_client p)) \<le> 0"
    using assms by (auto simp: validClientConfig_def within_def mib_def kib_def)
  have "fst (collect_events env limit taken events s) \<noteq> Inl ErrEOF" for env limit taken events s
  proof (induction env limit taken events s rule: collect_events.induct)
    case (1 env limit taken events s)
    then show ?case using adapt_EOF [of ErrStreamLimit]
      by (auto simp: collect_events.simps [of env limit taken events s] split: prod.split sum.split)
  qed
  then show ?thesis using limit stream_error [of p request w] collect_error generation_Next_error [of env s e s']
    by (auto simp: devin_Execute_def andThen_def Let_def split: prod.splits sum.splits)
qed



section \<open>Collecting and streaming\<close>

definition data_size :: "event list \<Rightarrow> int" where
  "data_size evs = (\<Sum>ev\<leftarrow>evs. int (length (ev_Data ev)))"

lemma data_size_simps [simp]: "data_size [] = 0" "data_size (ev # evs) = int (length (ev_Data ev)) + data_size evs"
  by (simp_all add: data_size_def)

lemma data_size_nonneg: "0 \<le> data_size evs"
  by (induction evs) simp_all

lemma drain_Suc_error: "conn_Next env s = (Inl e, s') \<Longrightarrow> drain n env s = (evs, Some e') \<longleftrightarrow> 0 < n \<and> evs = [] \<and> e' = e"
  by (cases n) auto

lemma drain_Suc_event:
  "conn_Next env s = (Inr ev, s') \<Longrightarrow>
     (\<exists>n. drain n env s = (evs, Some e)) \<longleftrightarrow> (\<exists>n evs'. evs = ev # evs' \<and> drain n env s' = (evs', Some e))"
proof
  assume next_: "conn_Next env s = (Inr ev, s')" and "\<exists>n. drain n env s = (evs, Some e)"
  then obtain n where n: "drain n env s = (evs, Some e)" by blast
  then obtain m where "n = Suc m" by (cases n) auto
  with n next_ show "\<exists>n evs'. evs = ev # evs' \<and> drain n env s' = (evs', Some e)"
    by (cases "drain m env s'") auto
next
  assume next_: "conn_Next env s = (Inr ev, s')" and "\<exists>n evs'. evs = ev # evs' \<and> drain n env s' = (evs', Some e)"
  then obtain n evs' where "evs = ev # evs'" "drain n env s' = (evs', Some e)" by blast
  with next_ have "drain (Suc n) env s = (evs, Some e)" by simp
  then show "\<exists>n. drain n env s = (evs, Some e)" ..
qed

definition drains_to :: "devin_env \<Rightarrow> conn_stream \<Rightarrow> event list \<Rightarrow> bool" where
  "drains_to env s evs \<longleftrightarrow> (\<exists>n e. drain n env s = (evs, Some e) \<and> errors_is e ErrEOF)"

lemma drains_to_error: "conn_Next env s = (Inl e, s') \<Longrightarrow> drains_to env s evs \<longleftrightarrow> errors_is e ErrEOF \<and> evs = []"
  by (auto simp: drains_to_def drain_Suc_error intro: exI [of _ 1])

lemma drains_to_event: "conn_Next env s = (Inr ev, s') \<Longrightarrow> drains_to env s evs \<longleftrightarrow> (\<exists>evs'. evs = ev # evs' \<and> drains_to env s' evs')"
  using drain_Suc_event [of env s ev s' evs] unfolding drains_to_def by blast

lemma collect_events_drains:
  "taken \<le> limit \<Longrightarrow>
     fst (collect_events env limit taken events s) = Inr all \<longleftrightarrow> (\<exists>evs. all = events @ evs \<and> drains_to env s evs \<and> taken + data_size evs \<le> limit)"
proof (induction env limit taken events s arbitrary: all rule: collect_events.induct)
  case (1 env limit taken events s)
  note step = collect_events.simps [of env limit taken events s]
  obtain r s' where r: "conn_Next env s = (r, s')" by force
  show ?case
  proof (cases r)
    case (Inl e)
    then have "generation_Next env s = (Inl (adaptGenerationError e), s')" using r by (simp add: generation_Next_def)
    then show ?thesis using r Inl 1(2) drains_to_error [of env s e s'] by (auto simp: step adapt_EOF)
  next
    case (Inr ev)
    then have g: "generation_Next env s = (Inr ev, s')" using r by (simp add: generation_Next_def)
    let ?l = "int (length (ev_Data ev))"
    show ?thesis
    proof (cases "?l > limit - taken")
      case True
      then have "\<not> taken + data_size evs \<le> limit" if "evs = ev # evs'" for evs evs'
        using that data_size_nonneg [of evs'] by simp
      then show ?thesis using True g r Inr drains_to_event [of env s ev s'] by (auto simp: step)
    next
      case False
      then have "fst (collect_events env limit taken events s) = Inr all \<longleftrightarrow>
          (\<exists>evs. all = (events @ [ev]) @ evs \<and> drains_to env s' evs \<and> taken + ?l + data_size evs \<le> limit)"
        using 1(1) [OF g [symmetric] refl False] by (simp add: step g)
      also have "\<dots> \<longleftrightarrow> (\<exists>evs. all = events @ evs \<and> drains_to env s evs \<and> taken + data_size evs \<le> limit)"
        using r Inr drains_to_event [of env s ev s'] by (auto simp: algebra_simps)
      finally show ?thesis .
    qed
  qed
qed

text \<open>C29: Execute is streaming. An execution succeeds exactly when a stream is opened whose events, read until
  \<open>io.EOF\<close>, fit the limit on non-streamed answers, and then returns exactly these events in their order. The
  collecting loop always ends.\<close>

theorem execute_is_streaming:
  assumes "0 < gc_MaxNonStreamBytes (dc_config (dp_client p))"
  shows "devin_Execute p request w = (Inr evs, w') \<longleftrightarrow>
    (\<exists>s. devin_Stream p request w = (Inr s, w') \<and> drains_to (dp_env p) s evs \<and> data_size evs \<le> gc_MaxNonStreamBytes (dc_config (dp_client p)))"
  using assms collect_events_drains [of 0 "gc_MaxNonStreamBytes (dc_config (dp_client p))" "dp_env p" "[]"]
  by (auto simp: devin_Execute_def andThen_def Let_def split: prod.splits sum.splits)


section \<open>Refused requests\<close>

text \<open>Errors made of \<open>errors.New\<close> and \<open>fmt.Errorf\<close> alone.\<close>

fun plain_error :: "go_error \<Rightarrow> bool" where
  "plain_error (ErrNew m) = True"
| "plain_error (Wrapf m es) = list_all plain_error es"
| "plain_error e = False"


definition plain_result :: "go_error + 'a \<Rightarrow> bool" where
  "plain_result r \<longleftrightarrow> (\<forall>e. r = Inl e \<longrightarrow> plain_error e)"

lemma plain_result_simps [simp]: "plain_result (Inr x)" "plain_result (Inl e) \<longleftrightarrow> plain_error e"
  by (auto simp: plain_result_def)




lemma plain_item_refused [simp]: "plain_result (item_refused i x)"
  by (simp add: item_refused_def)










section \<open>Examples\<close>

definition failing_provider :: "(unit \<times> api_request list) devin_provider" where
  "failing_provider = \<lparr>dp_env = sample_env, dp_client = sample_client, dp_send = logged_send sample_send, dp_rand = ret ''0123456789abcdef'',
     dp_now = (\<lambda>_. 0), dp_interrupts = (\<lambda>_. [])\<rparr>"

definition request_of :: "jobject \<Rightarrow> generation_request" where
  "request_of canonical = \<lparr>gr_Model = \<lparr>rm_PublicName = ''swe'', rm_UpstreamName = ''swe'', rm_Provider = Devin, rm_OwnedBy = [], rm_PolicyKey = []\<rparr>,
     gr_Canonical = canonical, gr_Credential = ''tok''\<rparr>"


lemma sample_client_valid: "validClientConfig (dc_config sample_client)" by code_simp


lemma sample_origin: "ValidateAPIOrigin sample_net DefaultBaseURL (dc_allowedHosts sample_client) = Inr sample_url" by code_simp


theorem failures_classified_witness:
  "validClientConfig (dc_config (dp_client (failing_provider\<lparr>dp_rand := raise (ErrNew ''no randomness'')\<rparr>))) \<and>
   (\<exists>e w'. devin_Stream (failing_provider\<lparr>dp_rand := raise (ErrNew ''no randomness'')\<rparr>) (request_of []) ((), []) = (Inl e, w') \<and>
      (passed_on e \<or> as_upstream e \<noteq> None))"
proof -
  let ?p = "failing_provider\<lparr>dp_rand := raise (ErrNew ''no randomness'')\<rparr>"
  have valid: "validClientConfig (dc_config (dp_client ?p))" using sample_client_valid by (simp add: failing_provider_def)
  have "devin_Stream ?p (request_of []) ((), []) = (Inl (status_failure 0 upstreamClassification), ((), []))"
    by (simp add: devin_Stream_def newResponseID_def andThen_def attempt_def raise_def)
  with failures_classified [OF valid, of "request_of []" "((), [])" "status_failure 0 upstreamClassification" "((), [])" undefined undefined undefined] valid
  show ?thesis by blast
qed

text \<open>A provider whose server answers the bootstrap and then with \<open>hi\<close>.\<close>

definition chat_send :: "unit round_trip" where
  "chat_send q w = (Inr (if (''Content-Type'', ''application/proto'') \<in> set (aq_Headers q) then sample_reply else hi_reply), w)"

definition hi_request :: chat_request where
  "hi_request = projr (BuildChatRequest braces_codec sample_canonical ''devin-session-token$tok'' ''jwt'')"

definition hi_limit :: int where
  "hi_limit = mib + int (length (projr (GetChatMessageRequest_Marshal demo_wire hi_request)))"

definition hi_client :: devin_client where
  "hi_client = sample_client\<lparr>dc_config := sample_config\<lparr>gc_MaxFrameDecompressedBytes := hi_limit\<rparr>\<rparr>"

definition hi_provider :: "unit devin_provider" where
  "hi_provider = \<lparr>dp_env = sample_env, dp_client = hi_client, dp_send = chat_send, dp_rand = ret ''r'', dp_now = (\<lambda>_. 0), dp_interrupts = (\<lambda>_. [])\<rparr>"

definition swe_mapper :: mapper where "swe_mapper = projr (NewStreamMapper ''swe'' ''resp_72'' mib)"

abbreviation swe_pushed :: "(go_error + mevent list) \<times> mapper" where
  "swe_pushed \<equiv> mapper_Push (empty_frame\<lparr>cf_DeltaText := ''hi''\<rparr>) swe_mapper"

abbreviation swe_final :: "(go_error + mevent list) \<times> mapper" where "swe_final \<equiv> mapper_Finalize braces_codec (snd swe_pushed)"

abbreviation swe_events :: "event list" where
  "swe_events \<equiv> map (encode_mevent braces_codec) (projr (fst swe_pushed) @ projr (fst swe_final))"

definition swe_stream :: conn_stream where "swe_stream = new_conn_stream (dc_config hi_client) hi_reply [] swe_mapper"

lemma swe_streamed: "devin_Stream hi_provider (request_of sample_canonical) () = (Inr swe_stream, ())"
proof -
  have "isl (BuildChatRequest braces_codec sample_canonical ''devin-session-token$tok'' ''jwt'') = False" by code_simp
  then have built: "BuildChatRequest braces_codec sample_canonical ''devin-session-token$tok'' ''jwt'' = Inr hi_request"
    by (cases "BuildChatRequest braces_codec sample_canonical ''devin-session-token$tok'' ''jwt''") (auto simp: hi_request_def)
  have "cr_ToolChoice hi_request = Some (option_choice ''auto'')" by code_simp
  then have "\<exists>b. GetChatMessageRequest_Marshal demo_wire hi_request = Inr b" by (rule request_encodable) (simp add: option_choice_def)
  then have frame: "\<exists>frame. chat_frame_body sample_env (dc_config hi_client) hi_request = Inr frame"
    by (auto simp: chat_frame_body_def sample_env_def hi_client_def hi_limit_def mib_def kib_def sample_config_def)
  have "isl (NewStreamMapper ''swe'' ''resp_72'' mib) = False" "gc_MaxToolArgumentBytes sample_config = mib" by code_simp+
  then have mapper: "NewStreamMapper ''swe'' ''resp_72'' (gc_MaxToolArgumentBytes sample_config) = Inr swe_mapper"
    by (cases "NewStreamMapper ''swe'' ''resp_72'' mib") (auto simp: swe_mapper_def)
  have cfg: "gc_StreamIdleTimeout sample_config = 60000000000" "gc_MaxStreamBytes sample_config = 1048576" "gc_MaxToolArgumentBytes sample_config = 1048576"
    "gc_MaxCompressedBytes sample_config = 1048576" "gc_MaxDecompressedBytes sample_config = 1048576"
    "gc_MaxFrameCompressedBytes sample_config = 1048576" by code_simp+
  have auth: "GetUserJWT sample_net demo_wire hi_client chat_send 0 ''tok'' () = (Inr sample_auth, ())"
    using sample_auth_got [of chat_send "()" "\<lambda>_. ()" hi_client] by (simp add: chat_send_def unary_request_def hi_client_def cfg)
  have client: "dc_config hi_client = sample_config\<lparr>gc_MaxFrameDecompressedBytes := hi_limit\<rparr>" by (simp add: hi_client_def)
  have limit: "0 < hi_limit" by (simp add: hi_limit_def mib_def kib_def add_pos_nonneg)
  have origin: "ValidateAPIOrigin sample_net DefaultBaseURL (dc_allowedHosts hi_client) = Inr sample_url"
    using sample_origin by (simp add: hi_client_def)
  have prep: "PrepareChatRequest sample_net demo_wire braces_codec hi_client chat_send 0 ''tok'' sample_canonical () = (Inr (hi_request, sample_url), ())"
    using auth built origin by (simp add: PrepareChatRequest_def andThen_def sample_auth_def)
  have net: "de_net sample_env = sample_net" "de_wire sample_env = demo_wire" "de_codec sample_env = braces_codec" by (simp_all add: sample_env_def)
  have open_: "openChatStream sample_env hi_client chat_send 0 [] hi_request sample_url ''swe'' ''resp_72'' () = (Inr swe_stream, ())"
    using frame mapper
    by (auto simp: openChatStream_def Let_def attempt_def chat_send_def chat_frame_request_def hi_reply_def swe_stream_def hi_client_def)
  have "StreamChat sample_env hi_client chat_send 0 [] ''tok'' sample_canonical ''swe'' ''resp_72'' () = (Inr swe_stream, ())"
    using prep open_ limit unfolding StreamChat_def Let_def by (simp add: andThen_def net client cfg)
  moreover have "hex_encode ''r'' = ''72''" by code_simp
  ultimately show ?thesis
    by (simp add: devin_Stream_def hi_provider_def newResponseID_def andThen_def attempt_def ret_def request_of_def)
qed


theorem execute_is_streaming_witness:
  "devin_Execute hi_provider (request_of sample_canonical) () = (Inr swe_events, ()) \<and>
   map ev_Event swe_events = [''response.created'', ''response.output_text.delta'', ''response.output_item.done'', ''response.completed'']"
proof -
  have ok: "isl (fst swe_pushed) = False" "isl (fst swe_final) = False" by code_simp+
  have pushed: "swe_pushed = (Inr (projr (fst swe_pushed)), snd swe_pushed)" using ok(1) by (cases "fst swe_pushed") (auto intro: prod_eqI)
  have final: "swe_final = (Inr (projr (fst swe_final)), snd swe_final)" using ok(2) by (cases "fst swe_final") (auto intro: prod_eqI)
  have limit: "1048576 \<le> hi_limit" by (simp add: hi_limit_def mib_def kib_def)
  have cfg: "gc_MaxStreamBytes sample_config = 1048576" "gc_MaxNonStreamBytes sample_config = 1048576" "gc_MaxFrameCompressedBytes sample_config = 1048576"
    by code_simp+
  have ready: "between_batches swe_stream" "st_body swe_stream = ap_Body hi_reply" "st_total swe_stream = 0" "st_mapper swe_stream = swe_mapper"
    "st_maxCompressed swe_stream = 1048576" "st_maxDecompressed swe_stream = hi_limit" "st_maxTotal swe_stream = 1048576"
    by (simp_all add: swe_stream_def new_conn_stream_def between_batches_def hi_client_def cfg)
  have "answers sample_env swe_stream (ap_Body hi_reply) 0 swe_mapper (projr (fst swe_pushed) @ projr (fst swe_final))"
    using hi_answer_for [OF pushed final, of swe_stream] limit by (simp add: ready)
  from answers_drained [OF this ready(1) refl _ ready(2-4)]
  obtain n where "drain n sample_env swe_stream = (swe_events, Some ErrEOF)" by (auto simp: ready hi_stream_ready(6))
  then have "drains_to sample_env swe_stream swe_events" unfolding drains_to_def using errors_is_refl by blast
  moreover have "data_size swe_events \<le> 1048576" by code_simp
  ultimately have "devin_Execute hi_provider (request_of sample_canonical) () = (Inr swe_events, ())"
    using execute_is_streaming [of hi_provider "request_of sample_canonical" "()" swe_events "()"] swe_streamed
    by (simp add: hi_provider_def hi_client_def cfg)
  moreover have "map ev_Event swe_events = [''response.created'', ''response.output_text.delta'', ''response.output_item.done'', ''response.completed'']"
    by code_simp
  ultimately show ?thesis by blast
qed

end
