(* ===== verification/Xai_Sse.thy ===== *)
theory Xai_Sse
  imports Provider_Types
begin

text \<open>
  The reader of server-sent events (\<open>internal/xai/sse.go\<close>). The body is the bytes that arrive and
  the error that ends them, \<open>io.EOF\<close> or another, which \<open>bufio\<close> returns again and again. \<open>Next\<close>
  waits for its reading goroutine, the caller's context or the idle timer (which every arrival
  resets); each \<open>Next\<close> consumes one element of \<open>sr_interrupts\<close>, which says who came first, and when
  it is empty the goroutine always wins. An interrupted \<open>Next\<close> closes the body, whose reads fail from
  then on.

  Shown: blocks that are written are read back as their events, with comments and either line ending
  (a block without data is no event but leaves its name to the next one); a data line the connection
  cuts off is delivered as a whole event.
\<close>

record xai_event =
  xe_Event :: string
  xe_Data :: string

definition newline :: char where "newline = CHR 0x0A"
definition carriage :: char where "carriage = CHR 0x0D"

text \<open>\<open>ReadString('\n')\<close>: the line with its newline, or what is left and the error.\<close>

definition read_line :: "go_error \<Rightarrow> string \<Rightarrow> string \<times> go_error option \<times> string" where
  "read_line err rest =
     (let line = takeWhile (\<lambda>c. c \<noteq> newline) rest in
      if newline \<in> set rest then (line @ [newline], None, drop (length line + 1) rest) else (rest, Some err, []))"

definition trim_last :: "string \<Rightarrow> char \<Rightarrow> string" where
  "trim_last s c = (if s \<noteq> [] \<and> last s = c then butlast s else s)"

definition cut_colon :: "string \<Rightarrow> string \<times> string" where
  "cut_colon line = (let f = takeWhile (\<lambda>c. c \<noteq> CHR '':'') line in (f, drop (length f + 1) line))"

fun join_lines :: "string list \<Rightarrow> string" where
  "join_lines [] = []"
| "join_lines [l] = l"
| "join_lines (l # ls) = l @ [newline] @ join_lines ls"

definition finished_event :: "string \<Rightarrow> string list \<Rightarrow> xai_event" where
  "finished_event name data = \<lparr>xe_Event = name, xe_Data = join_lines data\<rparr>"

text \<open>One field line: the new name and the new data lines.\<close>

definition field_line :: "string \<Rightarrow> string \<Rightarrow> string list \<Rightarrow> string \<times> string list" where
  "field_line line name data =
     (case cut_colon line of (field, value0) \<Rightarrow>
        let v = trimPrefix value0 '' '' in
        if field = ''event'' then (v, data) else if field = ''data'' then (name, data @ [v]) else (name, data))"

lemma read_line_shrinks:
  "read_line err rest = (line, e, rest') \<Longrightarrow> \<not> (e \<noteq> None \<and> line = []) \<Longrightarrow> length rest' < length rest"
  by (cases rest) (auto simp: read_line_def Let_def split: if_splits)

function readEvent :: "go_error \<Rightarrow> string \<Rightarrow> string list \<Rightarrow> string \<Rightarrow> (go_error + xai_event) \<times> string" where
  "readEvent err name data rest =
     (case read_line err rest of (line0, e, rest') \<Rightarrow>
        if e \<noteq> None \<and> line0 = [] then
          (if errors_is err ErrEOF \<and> data \<noteq> [] then Inr (finished_event name data) else Inl err, rest')
        else
          let line = trim_last (trim_last line0 newline) carriage in
          if line = [] then
            (if data = [] then (if e \<noteq> None then (Inl err, rest') else readEvent err name data rest')
             else (Inr (finished_event name data), rest'))
          else if hasPrefix line '':'' then readEvent err name data rest'
          else case field_line line name data of (name', data') \<Rightarrow>
            if e \<noteq> None then (if data' \<noteq> [] then Inr (finished_event name' data') else Inl err, rest')
            else readEvent err name' data' rest')"
  by pat_completeness auto
termination
  by (relation "measure (\<lambda>(err, name, data, rest). length rest)")
    (auto dest!: read_line_shrinks [OF sym])

declare readEvent.simps [simp del]


section \<open>The parser\<close>

datatype sse_interrupt = SseCtxDone go_error | SseIdle

record sse_parser =
  sp_rest :: string
  sp_err :: go_error
  sp_buffered :: nat
  sp_idle :: duration
  sp_interrupts :: "sse_interrupt option list"

abbreviation ErrBodyClosed :: go_error where "ErrBodyClosed \<equiv> Sentinel ''http: read on closed response body''"

text \<open>After \<open>Close\<close> only what was already buffered can be read.\<close>

definition close_body :: "sse_parser \<Rightarrow> sse_parser" where
  "close_body p = p\<lparr>sp_rest := take (sp_buffered p) (sp_rest p), sp_err := ErrBodyClosed\<rparr>"

definition NewSSEParser :: "string \<Rightarrow> go_error \<Rightarrow> nat \<Rightarrow> duration \<Rightarrow> sse_interrupt option list \<Rightarrow> sse_parser" where
  "NewSSEParser body err buffered idle interrupts =
     \<lparr>sp_rest = body, sp_err = err, sp_buffered = buffered, sp_idle = idle, sp_interrupts = interrupts\<rparr>"

text \<open>The goroutine of \<open>Next\<close>.\<close>

definition run_reader :: "(sse_parser, go_error, xai_event) op" where
  "run_reader p = (case readEvent (sp_err p) [] [] (sp_rest p) of (r, rest) \<Rightarrow> (r, p\<lparr>sp_rest := rest\<rparr>))"

text \<open>An abandoned goroutine reads what is left of the closed body, and its result is dropped.\<close>

definition interrupted :: "go_error \<Rightarrow> (sse_parser, go_error, xai_event) op" where
  "interrupted e p = (Inl e, snd (run_reader (close_body p)))"

definition sse_Next :: "(sse_parser, go_error, xai_event) op" where
  "sse_Next p =
     (let q = p\<lparr>sp_interrupts := tl (sp_interrupts p)\<rparr> in
      case (if sp_interrupts p = [] then None else hd (sp_interrupts p)) of
        Some (SseCtxDone e) \<Rightarrow> interrupted e q
      | Some SseIdle \<Rightarrow> if sp_idle p \<le> 0 then run_reader q else interrupted (ErrNew ''SSE idle timeout'') q
      | None \<Rightarrow> run_reader q)"


lemma readEvent_nothing: "readEvent err name [] [] = (Inl err, [])"
  by (subst readEvent.simps) (simp add: read_line_def)

lemma readEvent_progress: "readEvent err name data rest = (r, rest') \<Longrightarrow> length rest' \<le> length rest - 1"
proof (induction rest arbitrary: name data rule: length_induct)
  case (1 rest)
  obtain line0 e rest1 where r: "read_line err rest = (line0, e, rest1)" by (metis prod_cases3)
  show ?case
  proof (cases "e \<noteq> None \<and> line0 = []")
    case True
    then have "rest1 = []" using r by (auto simp: read_line_def Let_def split: if_splits)
    then show ?thesis using 1(2) True r by (subst (asm) readEvent.simps) (auto split: if_splits)
  next
    case False
    then have l: "length rest1 < length rest" using read_line_shrinks [OF r] by simp
    have IH: "length rest' \<le> length rest1 - 1" if "readEvent err n d rest1 = (r, rest')" for n d
      using 1(1) l that by blast
    obtain name' data' where f: "field_line (trim_last (trim_last line0 newline) carriage) name data = (name', data')"
      by (metis prod.collapse)
    have "rest' = rest1 \<or> (\<exists>n d. readEvent err n d rest1 = (r, rest'))"
      using 1(2) r False f by (subst (asm) readEvent.simps) (auto simp: Let_def split: if_splits)
    then show ?thesis using l IH by fastforce
  qed
qed

lemma sse_Next_progress: "sse_Next p = (Inr ev, p') \<Longrightarrow> length (sp_rest p') < length (sp_rest p)"
  using readEvent_nothing [of "sp_err p" "[]"]
  by (cases "sp_rest p")
    (auto simp: sse_Next_def run_reader_def interrupted_def Let_def split: if_splits option.splits sse_interrupt.splits prod.splits
      dest!: readEvent_progress)

section \<open>Events that are written\<close>

text \<open>The lines of an event stream, each ended by a newline that a carriage return may precede.\<close>

datatype sse_line = SseComment string | SseName string | SseData string

fun line_body :: "sse_line \<Rightarrow> string" where
  "line_body (SseComment c) = '':'' @ c"
| "line_body (SseName n) = ''event: '' @ n"
| "line_body (SseData d) = ''data: '' @ d"

definition ending :: "bool \<Rightarrow> string" where
  "ending crlf = (if crlf then [carriage, newline] else [newline])"

definition line_ok :: "bool \<times> sse_line \<Rightarrow> bool" where
  "line_ok l = (newline \<notin> set (line_body (snd l)) \<and> (fst l \<or> last (line_body (snd l)) \<noteq> carriage))"

definition line_bytes :: "bool \<times> sse_line \<Rightarrow> string" where
  "line_bytes l = line_body (snd l) @ ending (fst l)"

definition block_bytes :: "bool \<Rightarrow> (bool \<times> sse_line) list \<Rightarrow> string" where
  "block_bytes crlf ls = concat (map line_bytes ls) @ ending crlf"

fun block_name :: "string \<Rightarrow> (bool \<times> sse_line) list \<Rightarrow> string" where
  "block_name name [] = name"
| "block_name name ((b, SseName n) # ls) = block_name n ls"
| "block_name name (l # ls) = block_name name ls"

fun block_data :: "(bool \<times> sse_line) list \<Rightarrow> string list" where
  "block_data [] = []"
| "block_data ((b, SseData d) # ls) = d # block_data ls"
| "block_data (l # ls) = block_data ls"

text \<open>The events of a sequence of blocks: a block without data is none, and its name stays.\<close>

fun events_of :: "string \<Rightarrow> (bool \<times> (bool \<times> sse_line) list) list \<Rightarrow> xai_event list" where
  "events_of name [] = []"
| "events_of name ((crlf, ls) # bs) =
     (if block_data ls = [] then events_of (block_name name ls) bs
      else finished_event (block_name name ls) (block_data ls) # events_of [] bs)"

lemma takeWhile_line: "newline \<notin> set b \<Longrightarrow> takeWhile (\<lambda>c. c \<noteq> newline) (b @ newline # rest) = b"
  by (induction b) auto

lemma read_line_text: "newline \<notin> set b \<Longrightarrow> read_line err (b @ newline # rest) = (b @ [newline], None, rest)"
  by (simp add: read_line_def Let_def takeWhile_line)

lemma trims_ending:
  "fst l \<or> last b \<noteq> carriage \<Longrightarrow> b \<noteq> [] \<Longrightarrow>
     trim_last (trim_last (b @ ending (fst l)) newline) carriage = b"
  by (auto simp: trim_last_def ending_def newline_def carriage_def butlast_append)

lemma read_line_ending:
  assumes "newline \<notin> set b"
  shows "read_line err (b @ ending c @ rest) = (b @ ending c, None, rest)"
  using assms read_line_text [of b err rest] read_line_text [of "b @ [carriage]" err rest]
  by (auto simp: ending_def newline_def carriage_def)

lemma readEvent_line:
  assumes "line_ok l"
  shows "readEvent err name data (line_bytes l @ rest) =
    readEvent err (block_name name [l]) (data @ block_data [l]) rest"
proof -
  obtain c x where l: "l = (c, x)" by (cases l)
  have "read_line err (line_bytes l @ rest) = (line_body x @ ending c, None, rest)"
    using assms read_line_ending [of "line_body x" err c rest] by (simp add: l line_ok_def line_bytes_def)
  moreover have "trim_last (trim_last (line_body x @ ending c) newline) carriage = line_body x"
    using assms trims_ending [of l "line_body x"] by (cases x) (auto simp: l line_ok_def)
  moreover have "line_body x \<noteq> []" by (cases x) auto
  moreover have "field_line (line_body x) name data = (block_name name [l], data @ block_data [l])"
    if "\<not> hasPrefix (line_body x) '':''"
    using that by (cases x) (auto simp: field_line_def cut_colon_def l trimPrefix_def Let_def)
  moreover have "hasPrefix (line_body x) '':'' \<Longrightarrow> block_name name [l] = name \<and> block_data [l] = []"
    by (cases x) (auto simp: l)
  ultimately show ?thesis by (subst readEvent.simps) (auto simp: Let_def)
qed

lemma readEvent_blank:
  "readEvent err name data (ending c @ rest) =
     (if data = [] then readEvent err name [] rest else (Inr (finished_event name data), rest))"
  using read_line_ending [of "[]" err c rest]
  by (subst readEvent.simps) (auto simp: Let_def ending_def trim_last_def newline_def carriage_def)

lemma block_name_append: "block_name name (l # ls) = block_name (block_name name [l]) ls"
  by (cases l; cases "snd l") auto

lemma block_data_append: "block_data (l # ls) = block_data [l] @ block_data ls"
  by (cases l; cases "snd l") auto

lemma readEvent_lines:
  "list_all line_ok ls \<Longrightarrow> readEvent err name data (concat (map line_bytes ls) @ rest) =
     readEvent err (block_name name ls) (data @ block_data ls) rest"
proof (induction ls arbitrary: name data)
  case (Cons l ls)
  have "readEvent err name data (line_bytes l @ (concat (map line_bytes ls) @ rest)) =
      readEvent err (block_name name [l]) (data @ block_data [l]) (concat (map line_bytes ls) @ rest)"
    using Cons.prems by (intro readEvent_line) simp
  also have "\<dots> = readEvent err (block_name (block_name name [l]) ls) ((data @ block_data [l]) @ block_data ls) rest"
    using Cons by simp
  finally show ?case unfolding block_name_append [of name l ls] block_data_append [of l ls] by simp
qed simp

lemma readEvent_block:
  assumes "list_all line_ok ls"
  shows "readEvent err name [] (block_bytes crlf ls @ rest) =
    (if block_data ls = [] then readEvent err (block_name name ls) [] rest
     else (Inr (finished_event (block_name name ls) (block_data ls)), rest))"
proof -
  have "readEvent err name [] (concat (map line_bytes ls) @ (ending crlf @ rest)) =
      readEvent err (block_name name ls) ([] @ block_data ls) (ending crlf @ rest)"
    using assms by (rule readEvent_lines)
  then show ?thesis by (simp add: block_bytes_def readEvent_blank)
qed

abbreviation stream_bytes :: "(bool \<times> (bool \<times> sse_line) list) list \<Rightarrow> string" where
  "stream_bytes bs \<equiv> concat (map (\<lambda>(crlf, ls). block_bytes crlf ls) bs)"

text \<open>The first event of a sequence of blocks.\<close>

lemma readEvent_stream:
  assumes "list_all (\<lambda>(crlf, ls). list_all line_ok ls) bs"
  shows "case events_of name bs of
      [] \<Rightarrow> readEvent err name [] (stream_bytes bs) = (Inl err, [])
    | ev # evs \<Rightarrow> \<exists>bs'. list_all (\<lambda>(crlf, ls). list_all line_ok ls) bs' \<and> events_of [] bs' = evs \<and>
        readEvent err name [] (stream_bytes bs) = (Inr ev, stream_bytes bs')"
  using assms
proof (induction name bs rule: events_of.induct)
  case (1 name)
  then show ?case by (simp add: readEvent_nothing)
next
  case (2 name crlf ls bs)
  then show ?case
    using readEvent_block [of ls err name crlf "stream_bytes bs"] by (auto split: list.splits)
qed

primrec take_events :: "nat \<Rightarrow> (sse_parser, go_error, xai_event list) op" where
  "take_events 0 = ret []"
| "take_events (Suc n) = andThen sse_Next (\<lambda>e. andThen (take_events n) (\<lambda>es. ret (e # es)))"

text \<open>C34: Written events are read back. Whatever blocks of comment, name and data lines arrive, with either line
  ending and in any number, successive calls of \<open>Next\<close> that nothing interrupts return exactly their events (a block
  with data lines is one event, whose data are its lines joined by newlines) and then the error that ends the body.\<close>

theorem events_read_back:
  assumes "list_all (\<lambda>(crlf, ls). list_all line_ok ls) bs" "sp_rest p = stream_bytes bs" "sp_interrupts p = []"
  shows "\<exists>p'. take_events (length (events_of [] bs)) p = (Inr (events_of [] bs), p') \<and>
    fst (sse_Next p') = Inl (sp_err p)"
proof -
  have "\<exists>p'. take_events (length evs) p = (Inr evs, p') \<and> fst (sse_Next p') = Inl (sp_err p)"
    if "events_of [] bs = evs" for evs
    using that assms
  proof (induction evs arbitrary: bs p)
    case Nil
    then show ?case
      using readEvent_stream [OF Nil.prems(2), where name = "[]" and err = "sp_err p"] by (simp add: sse_Next_def run_reader_def ret_def)
  next
    case (Cons ev evs)
    obtain bs' where bs': "list_all (\<lambda>(crlf, ls). list_all line_ok ls) bs'" "events_of [] bs' = evs"
      "readEvent (sp_err p) [] [] (stream_bytes bs) = (Inr ev, stream_bytes bs')"
      using readEvent_stream [OF Cons.prems(2), where name = "[]" and err = "sp_err p"] Cons.prems(1) by auto
    define q where "q = p\<lparr>sp_interrupts := [], sp_rest := stream_bytes bs'\<rparr>"
    have n: "sse_Next p = (Inr ev, q)"
      using bs'(3) Cons.prems by (simp add: sse_Next_def run_reader_def q_def)
    obtain p' where "take_events (length evs) q = (Inr evs, p')" "fst (sse_Next p') = Inl (sp_err q)"
      using Cons.IH [OF bs'(2) bs'(1), of q] by (auto simp: q_def)
    then show ?case using n by (auto simp: andThen_def ret_def q_def)
  qed
  then show ?thesis by blast
qed

definition sample_blocks :: "(bool \<times> (bool \<times> sse_line) list) list" where
  "sample_blocks = [(False, [(True, SseComment ''hi'')]),
     (True, [(False, SseName ''response.created''), (False, SseData ''{''), (True, SseData ''}'')]),
     (False, [(False, SseData ''x'')])]"

theorem events_read_back_witness:
  "\<exists>p'. take_events 2 (NewSSEParser (stream_bytes sample_blocks) ErrEOF 0 0 []) =
      (Inr [\<lparr>xe_Event = ''response.created'', xe_Data = ''{'' @ [newline] @ ''}''\<rparr>, \<lparr>xe_Event = [], xe_Data = ''x''\<rparr>], p') \<and>
    fst (sse_Next p') = Inl ErrEOF"
proof -
  have "list_all (\<lambda>(crlf, ls). list_all line_ok ls) sample_blocks"
    by (simp add: sample_blocks_def line_ok_def newline_def carriage_def)
  moreover have "events_of [] sample_blocks =
      [\<lparr>xe_Event = ''response.created'', xe_Data = ''{'' @ [newline] @ ''}''\<rparr>, \<lparr>xe_Event = [], xe_Data = ''x''\<rparr>]"
    by (simp add: sample_blocks_def finished_event_def)
  ultimately show ?thesis
    using events_read_back [of sample_blocks "NewSSEParser (stream_bytes sample_blocks) ErrEOF 0 0 []"]
    by (simp add: NewSSEParser_def numeral_2_eq_2)
qed

text \<open>A cut line is delivered. When the connection breaks inside a data line, whatever the error, what has arrived
  of the line is returned as a finished event and the error only by the next call; when it breaks just behind the
  line's end, the same event is given up and the error is returned.\<close>

theorem cut_line_delivered:
  assumes "newline \<notin> set d" "last (''data: '' @ d) \<noteq> carriage" "\<not> errors_is err ErrEOF"
  shows "readEvent err [] [] (''data: '' @ d) = (Inr \<lparr>xe_Event = [], xe_Data = d\<rparr>, []) \<and>
    readEvent err [] [] (''data: '' @ d @ [newline]) = (Inl err, [])"
proof
  have "newline \<notin> set (''data: '' @ d)" using assms(1) by (simp add: newline_def)
  then have "read_line err (''data: '' @ d) = (''data: '' @ d, Some err, [])"
    by (simp add: read_line_def)
  moreover have "trim_last (trim_last (''data: '' @ d) newline) carriage = ''data: '' @ d"
  proof -
    have "last (''data: '' @ d) \<noteq> newline"
      using assms(1) by (cases d rule: rev_cases) (auto simp: newline_def)
    then show ?thesis using assms(2) by (simp add: trim_last_def)
  qed
  ultimately show "readEvent err [] [] (''data: '' @ d) = (Inr \<lparr>xe_Event = [], xe_Data = d\<rparr>, [])"
    by (subst readEvent.simps) (simp add: Let_def field_line_def cut_colon_def trimPrefix_def finished_event_def)
next
  have "readEvent err [] [] (''data: '' @ d @ [newline]) = readEvent err [] [d] []"
    using readEvent_line [of "(False, SseData d)" err "[]" "[]" "[]"] assms
    by (simp add: line_ok_def line_bytes_def ending_def newline_def)
  also have "\<dots> = (Inl err, [])"
    using assms(3) by (subst readEvent.simps) (simp add: read_line_def)
  finally show "readEvent err [] [] (''data: '' @ d @ [newline]) = (Inl err, [])" .
qed

theorem cut_line_delivered_witness:
  "readEvent (NetE ''reset'') [] [] ''data: {\"a'' = (Inr \<lparr>xe_Event = [], xe_Data = ''{\"a''\<rparr>, []) \<and>
   readEvent (NetE ''reset'') [] [] (''data: {\"a'' @ [newline]) = (Inl (NetE ''reset''), [])"
  using cut_line_delivered [of "''{\"a''" "NetE ''reset''"] by (simp add: newline_def carriage_def)

end
