(* ===== verification/Xai_Client.thy ===== *)
theory Xai_Client
  imports Xai_Sse Search_Inject Store_Cooldowns
begin

text \<open>
  The xAI client (\<open>internal/xai/\<close>): building requests (\<open>headers.go\<close>, \<open>http.go\<close>), executing and streaming
  responses (\<open>responses.go\<close>), and its adapter to the provider contract (\<open>provider.go\<close>).

  A response body is its bytes, the error that ends it and what may interrupt its reading; \<open>xn_*\<close> are
  the URL parser, the JSON encoder and decoders, \<open>gjson\<close> and \<open>http.ParseTime\<close>. Timers and
  cancellations of a request appear as errors of the round trip or of the body.
\<close>

section \<open>The environment\<close>

text \<open>\<open>xai.UpstreamError\<close> is made in one place and never wrapped.\<close>

datatype xai_error = XErr go_error | XUpstream (xu_Status: int) (xu_Body: string) (xu_Headers: "(string \<times> string) list")

record xai_url =
  xu_Path :: string
  xu_RawQuery :: string
  xu_Other :: string

record xai_request =
  xq_Method :: string
  xq_URL :: string
  xq_Header :: "(string \<times> string) list"
  xq_Body :: string

record xai_response =
  xs_Status :: int
  xs_Header :: "(string \<times> string) list"
  xs_Body :: string
  xs_BodyErr :: go_error
  xs_Buffered :: nat
  xs_Interrupts :: "sse_interrupt option list"

type_synonym 'w xai_round_trip = "xai_request \<Rightarrow> ('w, go_error, xai_response) op"

record xai_env =
  xn_ParseURL :: "string \<Rightarrow> go_error + xai_url"
  xn_URLString :: "xai_url \<Rightarrow> string"
  xn_RequestOK :: "string \<Rightarrow> string \<Rightarrow> go_error option"
  xn_Encode :: "jobject \<Rightarrow> go_error + string"
  xn_TypeField :: "string \<Rightarrow> string"
  xn_Envelope :: "string \<Rightarrow> string option"
  xn_Object :: "string \<Rightarrow> jobject option"
  xn_ParseTime :: "string \<Rightarrow> time option"

record http_config =
  hc_BaseURL :: string
  hc_ClientVersion :: string
  hc_UserAgent :: string
  hc_RequestTimeout :: duration
  hc_SSEIdleTimeout :: duration


section \<open>Requests\<close>

fun header_set :: "(string \<times> string) list \<Rightarrow> string \<Rightarrow> string \<Rightarrow> (string \<times> string) list" where
  "header_set [] k v = [(k, v)]"
| "header_set ((k', v') # h) k v = (if k' = k then (k, v) # h else (k', v') # header_set h k v)"

definition header_get :: "(string \<times> string) list \<Rightarrow> string \<Rightarrow> string" where
  "header_get h k = (case map_of h k of Some v \<Rightarrow> v | None \<Rightarrow> [])"

lemma map_of_header_set [simp]: "map_of (header_set h k v) = (map_of h)(k \<mapsto> v)"
  by (induction h k v rule: header_set.induct) auto

text \<open>\<open>path.Join\<close> and \<open>path.Clean\<close>.\<close>

fun path_elements :: "string \<Rightarrow> string \<Rightarrow> string list" where
  "path_elements acc [] = [acc]"
| "path_elements acc (c # s) = (if c = CHR ''/'' then acc # path_elements [] s else path_elements (acc @ [c]) s)"

definition clean_step :: "bool \<Rightarrow> string list \<Rightarrow> string \<Rightarrow> string list" where
  "clean_step rooted st e =
     (if e = [] \<or> e = ''.'' then st
      else if e = ''..'' then
        (if st \<noteq> [] \<and> last st \<noteq> ''..'' then butlast st else if rooted then st else st @ [e])
      else st @ [e])"

fun join_path :: "string list \<Rightarrow> string" where
  "join_path [] = []"
| "join_path [e] = e"
| "join_path (e # es) = e @ ''/'' @ join_path es"

definition path_Clean :: "string \<Rightarrow> string" where
  "path_Clean p =
     (let rooted = hasPrefix p ''/'';
          s = (if rooted then ''/'' else []) @ join_path (foldl (clean_step rooted) [] (path_elements [] p))
      in if s = [] then ''.'' else s)"

definition path_Join :: "string \<Rightarrow> string \<Rightarrow> string" where
  "path_Join a b =
     (case filter (\<lambda>e. e \<noteq> []) [a, b] of [] \<Rightarrow> [] | es \<Rightarrow> path_Clean (join_path es))"

definition trim_slashes :: "string \<Rightarrow> string" where
  "trim_slashes s = rev (dropWhile (\<lambda>c. c = CHR ''/'') (rev s))"

definition xai_newRequest ::
  "xai_env \<Rightarrow> http_config \<Rightarrow> string \<Rightarrow> string \<Rightarrow> string \<Rightarrow> string \<Rightarrow> string \<Rightarrow> go_error + xai_request" where
  "xai_newRequest env c verb endpoint token model body =
     (case xn_ParseURL env (trim_slashes (hc_BaseURL c)) of
        Inl e \<Rightarrow> Inl e
      | Inr base \<Rightarrow>
          (case xn_ParseURL env endpoint of
             Inl e \<Rightarrow> Inl e
           | Inr parsed \<Rightarrow>
               let url = xn_URLString env (base\<lparr>xu_Path := path_Join (xu_Path base) (xu_Path parsed), xu_RawQuery := xu_RawQuery parsed\<rparr>) in
               (case xn_RequestOK env verb url of
                  Some e \<Rightarrow> Inl e
                | None \<Rightarrow>
                    let h1 = header_set [] ''Authorization'' (''Bearer '' @ token);
                        h2 = header_set h1 ''Content-Type'' ''application/json'';
                        h3 = header_set h2 ''Accept'' ''text/event-stream'';
                        h4 = header_set h3 ''X-Xai-Token-Auth'' ''xai-grok-cli'';
                        h5 = header_set h4 ''X-Grok-Client-Version'' (hc_ClientVersion c);
                        h6 = (if model \<noteq> [] then header_set h5 ''X-Grok-Model-Override'' model else h5);
                        h7 = header_set h6 ''User-Agent'' (hc_UserAgent c)
                    in Inr \<lparr>xq_Method = verb, xq_URL = url, xq_Header = h7, xq_Body = body\<rparr>)))"

text \<open>\<open>Client.Do\<close>, which model discovery and usage share; the caller reads the body.\<close>

definition xai_Do ::
  "xai_env \<Rightarrow> http_config \<Rightarrow> 'w xai_round_trip \<Rightarrow> string \<Rightarrow> string \<Rightarrow> string \<Rightarrow> string \<Rightarrow> string \<Rightarrow> string \<Rightarrow>
     ('w, go_error, xai_response) op" where
  "xai_Do env c send verb endpoint token model accept body =
     (case xai_newRequest env c verb endpoint token model body of
        Inl e \<Rightarrow> raise e
      | Inr request \<Rightarrow>
          send (if accept \<noteq> [] then request\<lparr>xq_Header := header_set (xq_Header request) ''Accept'' accept\<rparr> else request))"

definition xai_prepare :: "xai_env \<Rightarrow> jobject option \<Rightarrow> go_error + string" where
  "xai_prepare env canonical =
     (case search_Validate canonical of
        Some e \<Rightarrow> Inl (Wrapf ''x_search invariant'' [e])
      | None \<Rightarrow>
          let request = jset (jset (case canonical of None \<Rightarrow> [] | Some m \<Rightarrow> m) ''stream'' (JBool True)) ''store'' (JBool False) in
          (case xn_Encode env request of
             Inl e \<Rightarrow> Inl e
           | Inr encoded \<Rightarrow> Inr (if encoded \<noteq> [] \<and> last encoded = newline then butlast encoded else encoded)))"

definition lift_err :: "('w, go_error, 'a) op \<Rightarrow> ('w, xai_error, 'a) op" where
  "lift_err m w = (case m w of (Inl e, w') \<Rightarrow> (Inl (XErr e), w') | (Inr a, w') \<Rightarrow> (Inr a, w'))"

definition xai_open ::
  "xai_env \<Rightarrow> http_config \<Rightarrow> 'w xai_round_trip \<Rightarrow> string \<Rightarrow> string \<Rightarrow> jobject option \<Rightarrow> ('w, xai_error, sse_parser) op" where
  "xai_open env c send token model canonical =
     (case xai_prepare env canonical of
        Inl e \<Rightarrow> raise (XErr e)
      | Inr prepared \<Rightarrow>
          (case xai_newRequest env c ''POST'' ''responses'' token model prepared of
             Inl e \<Rightarrow> raise (XErr e)
           | Inr request \<Rightarrow>
               andThen (lift_err (send request)) (\<lambda>response.
                 if xs_Status response < 200 \<or> 300 \<le> xs_Status response
                 then raise (XUpstream (xs_Status response) (take 65536 (xs_Body response)) (xs_Header response))
                 else ret (NewSSEParser (xs_Body response) (xs_BodyErr response) (xs_Buffered response)
                        (hc_SSEIdleTimeout c) (xs_Interrupts response)))))"


section \<open>Responses\<close>

definition terminal_type :: "string \<Rightarrow> bool" where
  "terminal_type t \<longleftrightarrow> t = ''response.completed'' \<or> t = ''response.incomplete''"

text \<open>The reading loop of \<open>execute\<close>.\<close>

function xai_collect :: "xai_env \<Rightarrow> xai_event list \<Rightarrow> (sse_parser, go_error, xai_event list) op" where
  "xai_collect env events p =
     (case sse_Next p of
        (Inl err, p') \<Rightarrow> (Inl err, p')
      | (Inr ev, p') \<Rightarrow>
          if terminal_type (xn_TypeField env (xe_Data ev)) then (Inr (events @ [ev]), p')
          else xai_collect env (events @ [ev]) p')"
  by pat_completeness auto
termination
  by (relation "measure (\<lambda>(env, events, p). length (sp_rest p))") (auto dest: sse_Next_progress [OF sym])

declare xai_collect.simps [simp del]

text \<open>The deferred \<open>cancel\<close> and \<open>Close\<close> act on a body that nobody else has.\<close>

definition xai_execute ::
  "xai_env \<Rightarrow> http_config \<Rightarrow> 'w xai_round_trip \<Rightarrow> string \<Rightarrow> string \<Rightarrow> jobject option \<Rightarrow> ('w, xai_error, xai_event list) op" where
  "xai_execute env c send token model canonical =
     andThen (xai_open env c send token model canonical) (\<lambda>p.
       case fst (xai_collect env [] p) of Inl e \<Rightarrow> raise (XErr e) | Inr evs \<Rightarrow> ret evs)"

record response_stream =
  rs_parser :: sse_parser
  rs_first :: "xai_event option"

definition xai_stream ::
  "xai_env \<Rightarrow> http_config \<Rightarrow> 'w xai_round_trip \<Rightarrow> string \<Rightarrow> string \<Rightarrow> jobject option \<Rightarrow> ('w, xai_error, response_stream) op" where
  "xai_stream env c send token model canonical =
     andThen (xai_open env c send token model canonical) (\<lambda>p.
       case sse_Next p of
         (Inl e, p') \<Rightarrow> raise (XErr e)
       | (Inr first, p') \<Rightarrow>
           (case xn_Envelope env (xe_Data first) of
              None \<Rightarrow> raise (XErr (ErrNew ''upstream returned invalid first SSE event''))
            | Some t \<Rightarrow> if t = [] then raise (XErr (ErrNew ''upstream returned invalid first SSE event''))
                else ret \<lparr>rs_parser = p', rs_first = Some first\<rparr>))"

definition response_Close :: "response_stream \<Rightarrow> response_stream" where
  "response_Close s = s\<lparr>rs_parser := close_body (rs_parser s)\<rparr>"

text \<open>\<open>responseStream.Next\<close>; \<open>ctx\<close> is \<open>ctx.Err()\<close> at the call.\<close>

definition response_Next :: "go_error option \<Rightarrow> (response_stream, go_error, xai_event) op" where
  "response_Next ctx s =
     (case ctx of
        Some e \<Rightarrow> (Inl e, response_Close s)
      | None \<Rightarrow>
          (case rs_first s of
             Some ev \<Rightarrow> (Inr ev, s\<lparr>rs_first := None\<rparr>)
           | None \<Rightarrow> (case sse_Next (rs_parser s) of (r, p) \<Rightarrow> (r, s\<lparr>rs_parser := p\<rparr>))))"


section \<open>Classification of failures\<close>

text \<open>\<open>strconv.Atoi\<close>: an optional sign and digits, within 64 bits.\<close>

definition digits_value :: "string \<Rightarrow> int" where
  "digits_value s = foldl (\<lambda>n c. 10 * n + (of_char c - 48)) 0 s"

definition Atoi :: "string \<Rightarrow> int option" where
  "Atoi s =
     (let neg = hasPrefix s ''-''; ds = (if neg \<or> hasPrefix s ''+'' then tl s else s);
          n = (if neg then - digits_value ds else digits_value ds)
      in if ds \<noteq> [] \<and> list_all (\<lambda>c. CHR ''0'' \<le> c \<and> c \<le> CHR ''9'') ds \<and> - (2 ^ 63) \<le> n \<and> n < 2 ^ 63 then Some n else None)"

definition xai_parseRetryAfter :: "xai_env \<Rightarrow> string \<Rightarrow> time \<Rightarrow> time option" where
  "xai_parseRetryAfter env value0 now =
     (let v = trimSpace value0 in
      if v = [] then None
      else case (case Atoi v of Some n \<Rightarrow> if 0 \<le> n then Some n else None | None \<Rightarrow> None) of
        Some seconds \<Rightarrow> Some (now + wrap64 (seconds * second))
      | None \<Rightarrow>
          (case xn_ParseTime env v of
             None \<Rightarrow> None
           | Some parsed \<Rightarrow> Some (if time_before parsed now then now else parsed)))"

lemma jget_size: "jget m k = Some v \<Longrightarrow> size v < size_list (size_prod (\<lambda>_. 0) size) m"
  by (induction m) (auto simp: jget_def split: if_splits)

definition first_code :: "jobject \<Rightarrow> string" where
  "first_code payload = (let c = str_or_empty (jget payload ''code'') in if c \<noteq> [] then c else str_or_empty (jget payload ''type''))"

function exactErrorCode :: "jobject \<Rightarrow> string" where
  "exactErrorCode payload =
     (if first_code payload \<noteq> [] then first_code payload
      else case jget payload ''error'' of
        Some (JStr s) \<Rightarrow> s
      | Some (JObj m) \<Rightarrow> exactErrorCode m
      | _ \<Rightarrow> [])"
  by pat_completeness auto
termination
  by (relation "measure (size_list (size_prod (\<lambda>_. 0) size))") (auto dest!: jget_size)

declare exactErrorCode.simps [simp del]

definition freeUsageExhausted :: "xai_env \<Rightarrow> string \<Rightarrow> bool" where
  "freeUsageExhausted env body =
     (case xn_Object env body of None \<Rightarrow> False | Some payload \<Rightarrow> exactErrorCode payload = ''subscription:free-usage-exhausted'')"

definition xai_upstream :: error_classification where
  "xai_upstream = empty_classification\<lparr>ec_Class := ClassUpstream, ec_PublicStatus := 502,
     ec_PublicCode := ''provider_error'', ec_PublicMessage := ''upstream provider error''\<rparr>"

definition classifyUpstream :: "xai_env \<Rightarrow> int \<Rightarrow> (string \<times> string) list \<Rightarrow> string \<Rightarrow> time \<Rightarrow> error_classification" where
  "classifyUpstream env status headers body now =
     (if status = 400 \<or> status = 404 then
        xai_upstream\<lparr>ec_Class := ClassValidation, ec_PublicStatus := 400, ec_PublicCode := ''invalid_request_error'',
          ec_PublicMessage := ''invalid model or request payload''\<rparr>
      else if status = 401 then
        xai_upstream\<lparr>ec_Class := ClassUnauthorized, ec_RefreshSame := True, ec_RetryNext := True, ec_CooldownScope := CooldownAccount,
          ec_PublicStatus := 401, ec_PublicCode := ''provider_authentication_error''\<rparr>
      else if status = 402 \<or> status = 403 then
        xai_upstream\<lparr>ec_Class := ClassPermission, ec_CooldownScope := CooldownAccount, ec_PublicStatus := 403,
          ec_PublicCode := ''provider_permission_error''\<rparr>
      else if status = 408 \<or> status = 500 \<or> status = 502 \<or> status = 503 \<or> status = 504 then
        xai_upstream\<lparr>ec_Class := ClassTransient, ec_RetryNext := True, ec_CooldownScope := CooldownModel, ec_Cooldown := minute,
          ec_PublicStatus := 503, ec_PublicCode := ''provider_unavailable''\<rparr>
      else if status = 429 then
        let result = xai_upstream\<lparr>ec_PublicStatus := 429, ec_PublicCode := ''rate_limit_exceeded'',
              ec_PublicMessage := ''all available accounts are rate limited'', ec_RetryNext := True, ec_CooldownScope := CooldownModel\<rparr> in
        if freeUsageExhausted env body then
          result\<lparr>ec_Class := ClassFreeUsageExhausted, ec_Cooldown := 24 * hour, ec_RetryAfter := now + 24 * hour\<rparr>
        else let limited = result\<lparr>ec_Class := ClassRateLimit\<rparr> in
          (case xai_parseRetryAfter env (header_get headers ''Retry-After'') now of
             None \<Rightarrow> limited
           | Some retryAt \<Rightarrow> limited\<lparr>ec_ExplicitRetryAfter := True, ec_RetryAfter := retryAt, ec_Cooldown := time_sub retryAt now\<rparr>)
      else xai_upstream)"

definition xai_failure :: "int \<Rightarrow> error_classification \<Rightarrow> go_error" where
  "xai_failure status c = UpstreamE \<lparr>ue_Provider = XAI, ue_Status = status, ue_Classification = c\<rparr>"

definition xai_adaptError :: "xai_env \<Rightarrow> time \<Rightarrow> xai_error \<Rightarrow> go_error" where
  "xai_adaptError env now err =
     (case err of
        XErr e \<Rightarrow>
          if errors_is e ErrCanceled then e
          else xai_failure 0
            (if is_net_error e
             then xai_upstream\<lparr>ec_Class := ClassConnection, ec_RetryNext := True, ec_PublicStatus := 503, ec_PublicCode := ''provider_unavailable''\<rparr>
             else xai_upstream)
      | XUpstream status body headers \<Rightarrow> xai_failure status (classifyUpstream env status headers body now))"


section \<open>The provider\<close>

definition xai_Prepare :: "resolved_model \<Rightarrow> jobject option \<Rightarrow> go_error + jobject option" where
  "xai_Prepare model request =
     (case search_Inject request of
        (Some e, _) \<Rightarrow> Inl (xai_failure 400 (empty_classification\<lparr>ec_Class := ClassValidation, ec_PublicStatus := 400,
            ec_PublicCode := ''invalid_request_error'', ec_PublicMessage := ''invalid request''\<rparr>))
      | (None, r) \<Rightarrow> Inr r)"

definition providerEvent :: "xai_event \<Rightarrow> event" where
  "providerEvent e = \<lparr>ev_Event = xe_Event e, ev_Data = xe_Data e, ev_Usage = empty_usage\<rparr>"

record 'w xai_provider =
  xp_env :: xai_env
  xp_config :: http_config
  xp_send :: "'w xai_round_trip"
  xp_now :: "'w \<Rightarrow> time"

definition adapted :: "'w xai_provider \<Rightarrow> ('w, xai_error, 'a) op \<Rightarrow> ('w, go_error, 'a) op" where
  "adapted x m w = (case m w of (Inl e, w') \<Rightarrow> (Inl (xai_adaptError (xp_env x) (xp_now x w') e), w') | (Inr a, w') \<Rightarrow> (Inr a, w'))"

definition xai_Execute :: "'w xai_provider \<Rightarrow> generation_request \<Rightarrow> ('w, go_error, event list) op" where
  "xai_Execute x request =
     andThen (adapted x (xai_execute (xp_env x) (xp_config x) (xp_send x) (gr_Credential request) (rm_UpstreamName (gr_Model request))
         (Some (gr_Canonical request)))) (\<lambda>evs. ret (map providerEvent evs))"

definition xai_Stream :: "'w xai_provider \<Rightarrow> generation_request \<Rightarrow> ('w, go_error, response_stream) op" where
  "xai_Stream x request =
     adapted x (xai_stream (xp_env x) (xp_config x) (xp_send x) (gr_Credential request) (rm_UpstreamName (gr_Model request))
         (Some (gr_Canonical request)))"

definition providerStream_Next :: "xai_env \<Rightarrow> time \<Rightarrow> go_error option \<Rightarrow> (response_stream, go_error, event) op" where
  "providerStream_Next env now ctx s =
     (case response_Next ctx s of
        (Inl e, s') \<Rightarrow> (Inl (xai_adaptError env now (XErr e)), s')
      | (Inr ev, s') \<Rightarrow> (Inr (providerEvent ev), s'))"


section \<open>Executions read the answer\<close>

abbreviation well_formed_blocks :: "(bool \<times> (bool \<times> sse_line) list) list \<Rightarrow> bool" where
  "well_formed_blocks bs \<equiv> list_all (\<lambda>(crlf, ls). list_all line_ok ls) bs"

text \<open>What an execution makes of the events of a body that ends with an error.\<close>

definition up_to_terminal :: "xai_env \<Rightarrow> go_error \<Rightarrow> xai_event list \<Rightarrow> go_error + xai_event list" where
  "up_to_terminal env err evs =
     (let open_event = (\<lambda>e. \<not> terminal_type (xn_TypeField env (xe_Data e))) in
      case dropWhile open_event evs of [] \<Rightarrow> Inl err | e # _ \<Rightarrow> Inr (takeWhile open_event evs @ [e]))"

lemma up_to_terminal_Nil: "up_to_terminal env err [] = Inl err"
  by (simp add: up_to_terminal_def)

lemma up_to_terminal_Cons:
  "up_to_terminal env err (ev # evs) =
     (if terminal_type (xn_TypeField env (xe_Data ev)) then Inr [ev]
      else case up_to_terminal env err evs of Inl e \<Rightarrow> Inl e | Inr es \<Rightarrow> Inr (ev # es))"
  by (cases "dropWhile (\<lambda>e. \<not> terminal_type (xn_TypeField env (xe_Data e))) evs")
    (simp_all add: up_to_terminal_def Let_def del: dropWhile_eq_Nil_conv)

lemma sse_Next_stream:
  assumes "well_formed_blocks bs" "sp_rest p = stream_bytes bs" "sp_interrupts p = []"
  shows "case events_of [] bs of
      [] \<Rightarrow> fst (sse_Next p) = Inl (sp_err p)
    | ev # evs \<Rightarrow> \<exists>bs'. well_formed_blocks bs' \<and> events_of [] bs' = evs \<and> sse_Next p = (Inr ev, p\<lparr>sp_rest := stream_bytes bs'\<rparr>)"
  using readEvent_stream [OF assms(1), where name = "[]" and err = "sp_err p"] assms(2,3)
  by (auto simp: sse_Next_def run_reader_def Let_def split: list.splits)

lemma xai_collect_stream:
  assumes "well_formed_blocks bs" "sp_rest p = stream_bytes bs" "sp_interrupts p = []" "events_of [] bs = evs"
  shows "fst (xai_collect env acc p) = (case up_to_terminal env (sp_err p) evs of Inl e \<Rightarrow> Inl e | Inr es \<Rightarrow> Inr (acc @ es))"
  using assms
proof (induction evs arbitrary: bs p acc)
  case Nil
  then have "fst (sse_Next p) = Inl (sp_err p)" using sse_Next_stream [OF Nil.prems(1-3)] by simp
  then obtain p' where "sse_Next p = (Inl (sp_err p), p')" by (metis prod.collapse)
  then show ?case by (simp add: xai_collect.simps [of env acc p] up_to_terminal_Nil)
next
  case (Cons ev evs)
  obtain bs' where bs': "well_formed_blocks bs'" "events_of [] bs' = evs" "sse_Next p = (Inr ev, p\<lparr>sp_rest := stream_bytes bs'\<rparr>)"
    using sse_Next_stream [OF Cons.prems(1-3)] Cons.prems(4) by auto
  have "fst (xai_collect env (acc @ [ev]) (p\<lparr>sp_rest := stream_bytes bs'\<rparr>)) =
      (case up_to_terminal env (sp_err p) evs of Inl e \<Rightarrow> Inl e | Inr es \<Rightarrow> Inr ((acc @ [ev]) @ es))"
    using Cons.IH [OF bs'(1) _ _ bs'(2), of "p\<lparr>sp_rest := stream_bytes bs'\<rparr>" "acc @ [ev]"] Cons.prems(3) by simp
  then show ?case
    using bs'(3) by (auto simp: xai_collect.simps [of env acc p] up_to_terminal_Cons split: sum.splits)
qed

text \<open>An execution returns the answer up to its end. When the prepared request is answered with a success whose
  body is an event stream and nothing interrupts, \<open>Execute\<close> returns exactly the events up to and including the first
  terminal one, and never one behind it; a body that ends without a terminal event, however it ends, is a classified
  failure instead of a shorter answer.\<close>

theorem execute_up_to_terminal:
  assumes "xai_prepare (xp_env x) (Some (gr_Canonical request)) = Inr body"
    and "xai_newRequest (xp_env x) (xp_config x) ''POST'' ''responses'' (gr_Credential request) (rm_UpstreamName (gr_Model request)) body = Inr q"
    and "xp_send x q w = (Inr response, w')" "200 \<le> xs_Status response" "xs_Status response < 300"
    and "well_formed_blocks bs" "xs_Body response = stream_bytes bs" "xs_Interrupts response = []"
  shows "xai_Execute x request w =
    (case up_to_terminal (xp_env x) (xs_BodyErr response) (events_of [] bs) of
       Inl err \<Rightarrow> Inl (xai_adaptError (xp_env x) (xp_now x w') (XErr err))
     | Inr evs \<Rightarrow> Inr (map providerEvent evs), w')"
proof -
  let ?p = "NewSSEParser (xs_Body response) (xs_BodyErr response) (xs_Buffered response) (hc_SSEIdleTimeout (xp_config x)) (xs_Interrupts response)"
  have "fst (xai_collect (xp_env x) [] ?p) = up_to_terminal (xp_env x) (xs_BodyErr response) (events_of [] bs)"
    using xai_collect_stream [OF assms(6) _ _ refl, of ?p "xp_env x" "[]"] assms(7,8)
    by (simp add: NewSSEParser_def split: sum.splits)
  then show ?thesis
    using assms(1-5)
    by (auto simp: xai_Execute_def adapted_def xai_execute_def xai_open_def andThen_def lift_err_def ret_def raise_def split: sum.splits)
qed


section \<open>Failures\<close>

definition xai_classified :: "go_error \<Rightarrow> bool" where
  "xai_classified e \<longleftrightarrow> errors_is e ErrCanceled \<or> (\<exists>u. e = UpstreamE u \<and> ue_Provider u = XAI)"

lemma xai_adaptError_classified: "xai_classified (xai_adaptError env now e)"
  by (auto simp: xai_classified_def xai_adaptError_def xai_failure_def split: xai_error.splits)

lemma adapted_classified: "adapted x m w = (Inl e, w') \<Longrightarrow> xai_classified e"
  using xai_adaptError_classified by (auto simp: adapted_def split: prod.splits sum.splits)

text \<open>Failures are classified. Whatever the request and the servers, an error of \<open>Execute\<close>, of \<open>Stream\<close> or of a
  stream's \<open>Next\<close> is an upstream error of xAI with its classification, or carries a cancellation. In particular
  \<open>io.EOF\<close> never comes out of an xAI stream: a body that ends is an upstream failure, so an answer without its
  terminal event is not taken for a finished one.\<close>

theorem xai_failures_classified:
  "(xai_Execute x request w = (Inl e, w') \<longrightarrow> xai_classified e) \<and>
   (xai_Stream x request w = (Inl e, w') \<longrightarrow> xai_classified e) \<and>
   (providerStream_Next env now ctx s = (Inl e, s') \<longrightarrow> xai_classified e) \<and>
   \<not> xai_classified ErrEOF"
proof (intro conjI impI)
  show "xai_classified e" if "xai_Execute x request w = (Inl e, w')"
    using that adapted_classified by (auto simp: xai_Execute_def andThen_def ret_def split: prod.splits sum.splits)
  show "xai_classified e" if "xai_Stream x request w = (Inl e, w')"
    using that adapted_classified by (auto simp: xai_Stream_def)
  show "xai_classified e" if "providerStream_Next env now ctx s = (Inl e, s')"
    using that xai_adaptError_classified by (auto simp: providerStream_Next_def split: prod.splits sum.splits)
  show "\<not> xai_classified ErrEOF" by (simp add: xai_classified_def)
qed


section \<open>Rate limits\<close>

lemma wrap64_id: "- (2 ^ 63) \<le> i \<Longrightarrow> i < 2 ^ 63 \<Longrightarrow> wrap64 i = i"
  by (simp add: wrap64_def)

lemma wrap64_above:
  assumes "2 ^ 63 \<le> i" "i < 2 ^ 64"
  shows "wrap64 i = i - 2 ^ 64"
proof -
  have "(i + 2 ^ 63) mod 2 ^ 64 = (i + 2 ^ 63 - 2 ^ 64) mod 2 ^ 64" by (metis minus_mod_self2)
  also have "\<dots> = i + 2 ^ 63 - 2 ^ 64" using assms by (intro mod_pos_pos_trivial) simp_all
  finally show ?thesis by (simp add: wrap64_def)
qed

text \<open>C33: A rate limit with a number of seconds. Up to 9223372036 seconds, \<open>Retry-After\<close> becomes an explicit cooldown
  of exactly these seconds, which \<open>CooldownManager.Apply\<close> stores for the model. From 9223372037 to 18446744073 seconds
  the multiplication by \<open>time.Second\<close> wraps around to a negative duration: the explicit cooldown is in the past and
  \<open>Apply\<close> stores nothing, so the account that asked for the longest pause is used again at once.\<close>

theorem retry_after_seconds:
  fixes now :: time
  assumes "Atoi (trimSpace (header_get headers ''Retry-After'')) = Some n" "0 \<le> n" "\<not> freeUsageExhausted env body"
  defines "c \<equiv> classifyUpstream env 429 headers body now"
  shows "(0 < n \<and> n \<le> 9223372036 \<longrightarrow> ec_Cooldown c = n * second \<and> ec_RetryAfter c = now + n * second \<and>
      cooldown_Apply r a model c now =
        cooldown_Put \<lparr>cd_AccountID = a, cd_Model = model, cd_LastErrorClass = ClassRateLimit, cd_Until = Some (now + n * second),
          cd_BackoffLevel = 0, cd_LastErrorAt = Some now\<rparr>) \<and>
    (9223372037 \<le> n \<and> n \<le> 18446744073 \<longrightarrow> ec_Cooldown c < 0 \<and> ec_RetryAfter c < now \<and> cooldown_Apply r a model c now d = (Inr (), d))"
proof -
  have "trimSpace (header_get headers ''Retry-After'') \<noteq> []" using assms(1) by (auto simp: Atoi_def Let_def)
  then have "xai_parseRetryAfter env (header_get headers ''Retry-After'') now = Some (now + wrap64 (n * second))"
    using assms(1,2) by (simp add: xai_parseRetryAfter_def Let_def)
  then have c: "ec_Class c = ClassRateLimit" "ec_ExplicitRetryAfter c" "ec_CooldownScope c = CooldownModel" "\<not> ec_ReloginRequired c"
    "\<not> ec_DisableAccount c" "ec_RetryAfter c = now + wrap64 (n * second)" "ec_Cooldown c = time_sub (now + wrap64 (n * second)) now"
    using assms(3) by (simp_all add: c_def classifyUpstream_def Let_def xai_upstream_def empty_classification_def)
  show ?thesis
  proof (intro conjI impI; (elim conjE)?)
    assume n: "0 < n" "n \<le> 9223372036"
    have "wrap64 (n * second) = n * second" using n by (intro wrap64_id) (simp_all add: second_def)
    moreover have "time_sub (now + n * second) now = n * second" "0 < n * second"
      using n by (simp_all add: time_sub_def second_def min_duration_def max_duration_def)
    ultimately show "ec_Cooldown c = n * second" "ec_RetryAfter c = now + n * second"
      "cooldown_Apply r a model c now = cooldown_Put \<lparr>cd_AccountID = a, cd_Model = model, cd_LastErrorClass = ClassRateLimit,
        cd_Until = Some (now + n * second), cd_BackoffLevel = 0, cd_LastErrorAt = Some now\<rparr>"
      using c by (simp_all add: cooldown_Apply_def scope_defs Let_def)
  next
    assume n: "9223372037 \<le> n" "n \<le> 18446744073"
    have "wrap64 (n * second) = n * second - 2 ^ 64" using n by (intro wrap64_above) (simp_all add: second_def)
    then have "wrap64 (n * second) < 0" using n by (simp add: second_def)
    moreover from this have "time_sub (now + wrap64 (n * second)) now < 0"
      by (simp add: time_sub_def min_duration_def)
    ultimately show "ec_Cooldown c < 0" "ec_RetryAfter c < now" "cooldown_Apply r a model c now d = (Inr (), d)"
      using c by (simp_all add: cooldown_Apply_def scope_defs Let_def ret_def)
  qed
qed


section \<open>What is sent\<close>

lemma search_Inject_injectable: "fst (search_Inject (Some request)) = None \<Longrightarrow> injectable request"
  by (auto simp: search_Inject_def injectable_def count_search_spec split: option.splits json.splits sum.splits if_splits)

definition xai_logged :: "'w xai_round_trip \<Rightarrow> ('w \<times> xai_request list) xai_round_trip" where
  "xai_logged send q = (\<lambda>(w, log). case send q w of (r, w') \<Rightarrow> (r, (w', log @ [q])))"

text \<open>A request that says what the canonical request \<open>c\<close> says, streamed and not stored.\<close>

definition says :: "xai_env \<Rightarrow> string \<Rightarrow> string \<Rightarrow> jobject \<Rightarrow> xai_request \<Rightarrow> bool" where
  "says env token model c q \<longleftrightarrow>
     xq_Method q = ''POST'' \<and> header_get (xq_Header q) ''Authorization'' = ''Bearer '' @ token \<and>
     (model \<noteq> [] \<longrightarrow> header_get (xq_Header q) ''X-Grok-Model-Override'' = model) \<and>
     searchable c \<and>
     (\<exists>m b. xn_Encode env m = Inr b \<and> (xq_Body q = b \<or> xq_Body q @ [newline] = b) \<and>
        (\<forall>k. jget m k = (if k = ''stream'' then Some (JBool True) else if k = ''store'' then Some (JBool False) else jget c k)))"

lemma newRequest_headers:
  assumes "xai_newRequest env c verb endpoint token model body = Inr q"
  shows "xq_Method q = verb \<and> xq_Body q = body \<and> header_get (xq_Header q) ''Authorization'' = ''Bearer '' @ token \<and>
    (model \<noteq> [] \<longrightarrow> header_get (xq_Header q) ''X-Grok-Model-Override'' = model)"
proof -
  obtain base parsed where u: "xn_ParseURL env (trim_slashes (hc_BaseURL c)) = Inr base" "xn_ParseURL env endpoint = Inr parsed"
    using assms by (cases "xn_ParseURL env (trim_slashes (hc_BaseURL c))"; cases "xn_ParseURL env endpoint") (simp_all add: xai_newRequest_def)
  let ?url = "xn_URLString env (base\<lparr>xu_Path := path_Join (xu_Path base) (xu_Path parsed), xu_RawQuery := xu_RawQuery parsed\<rparr>)"
  have "xn_RequestOK env verb ?url = None"
    using assms u by (cases "xn_RequestOK env verb ?url") (simp_all add: xai_newRequest_def Let_def)
  with assms u show ?thesis
    by (simp add: xai_newRequest_def Let_def header_get_def del: header_set.simps) (drule sym, simp del: header_set.simps)
qed

lemma prepare_says:
  assumes "xai_prepare env (Some c) = Inr body"
  shows "searchable c \<and> (\<exists>m b. xn_Encode env m = Inr b \<and> (body = b \<or> body @ [newline] = b) \<and>
    (\<forall>k. jget m k = (if k = ''stream'' then Some (JBool True) else if k = ''store'' then Some (JBool False) else jget c k)))"
proof -
  let ?m = "jset (jset c ''stream'' (JBool True)) ''store'' (JBool False)"
  have "search_Validate (Some c) = None" using assms by (cases "search_Validate (Some c)") (simp_all add: xai_prepare_def)
  then have s: "searchable c" by (simp add: search_Validate_spec)
  obtain b where b: "xn_Encode env ?m = Inr b" "body = (if b \<noteq> [] \<and> last b = newline then butlast b else b)"
    using assms \<open>search_Validate (Some c) = None\<close> by (auto simp: xai_prepare_def Let_def split: sum.splits)
  then have "body = b \<or> body @ [newline] = b" by (metis append_butlast_last_id)
  moreover have "\<forall>k. jget ?m k = (if k = ''stream'' then Some (JBool True) else if k = ''store'' then Some (JBool False) else jget c k)"
    by simp
  ultimately show ?thesis using s b(1) by blast
qed

lemma open_sends:
  assumes "xai_open env c (xai_logged send) token model (Some canonical) (w, []) = (r, (w', log))"
  shows "log = [] \<or> (\<exists>q. log = [q] \<and> says env token model canonical q)"
proof (cases "xai_prepare env (Some canonical)")
  case (Inr body)
  show ?thesis
  proof (cases "xai_newRequest env c ''POST'' ''responses'' token model body")
    case q: (Inr q)
    have "log = [q]"
      using assms Inr q
      by (auto simp: xai_open_def andThen_def lift_err_def xai_logged_def raise_def ret_def split: prod.splits sum.splits if_splits)
    moreover have "says env token model canonical q"
      using newRequest_headers [OF q] prepare_says [OF Inr] by (auto simp: says_def)
    ultimately show ?thesis by blast
  qed (use assms Inr in \<open>simp add: xai_open_def raise_def\<close>)
qed (use assms in \<open>simp add: xai_open_def raise_def\<close>)

text \<open>C31: What is sent is what was asked. Executing or opening a stream sends at most one request, a POST with the
  credential as bearer token and the upstream model; its body encodes the canonical request, streamed and not stored,
  which has exactly one enabled search tool. A request the policy prepared, with its model replaced by the executor,
  is refused by the client only when it cannot be encoded.\<close>

theorem xai_request_faithful:
  fixes x :: "('w \<times> xai_request list) xai_provider"
  assumes "xp_send x = xai_logged send" "xai_Prepare m (Some given) = Inr (Some prepared)"
    and "canonical = jset prepared ''model'' (JStr (rm_UpstreamName (gr_Model request)))" "gr_Canonical request = canonical"
  shows "(xai_Execute x request (w, []) = (r, (w', log)) \<or> xai_Stream x request (w, []) = (r', (w', log)) \<longrightarrow>
      log = [] \<or> (\<exists>q. log = [q] \<and> says (xp_env x) (gr_Credential request) (rm_UpstreamName (gr_Model request)) canonical q)) \<and>
    (\<forall>e. xai_prepare (xp_env x) (Some canonical) = Inl e \<longrightarrow> (\<exists>c. xn_Encode (xp_env x) c = Inl e))"
proof (intro conjI impI allI)
  let ?open = "xai_open (xp_env x) (xp_config x) (xp_send x) (gr_Credential request) (rm_UpstreamName (gr_Model request)) (Some canonical)"
  obtain r0 w0 log0 where o: "?open (w, []) = (r0, (w0, log0))" by (metis prod_cases3)
  assume "xai_Execute x request (w, []) = (r, (w', log)) \<or> xai_Stream x request (w, []) = (r', (w', log))"
  then have "log = log0"
    using o assms(4)
    by (auto simp: xai_Execute_def xai_Stream_def adapted_def xai_execute_def xai_stream_def andThen_def ret_def raise_def
        split: prod.splits sum.splits option.splits if_splits)
  then show "log = [] \<or> (\<exists>q. log = [q] \<and> says (xp_env x) (gr_Credential request) (rm_UpstreamName (gr_Model request)) canonical q)"
    using open_sends [of "xp_env x" "xp_config x" send] o assms(1) by metis
next
  fix e assume e: "xai_prepare (xp_env x) (Some canonical) = Inl e"
  have "search_Inject (Some given) = (None, Some prepared)"
    using assms(2) by (auto simp: xai_Prepare_def split: prod.splits option.splits)
  moreover from this have "injectable given" using search_Inject_injectable [of given] by simp
  ultimately have "searchable prepared" using search_Inject_ok [of given] by auto
  then have "searchable canonical" by (simp add: assms(3) searchable_def)
  then have "search_Validate (Some canonical) = None" by (simp add: search_Validate_spec)
  then show "\<exists>c. xn_Encode (xp_env x) c = Inl e"
    using e by (auto simp: xai_prepare_def Let_def split: sum.splits)
qed


section \<open>Streams replay the checked event\<close>

text \<open>The reads of a consumer: \<open>n\<close> calls of \<open>Next\<close> whose context is alive.\<close>

primrec xai_reads :: "xai_env \<Rightarrow> time \<Rightarrow> nat \<Rightarrow> (response_stream, go_error, event list) op" where
  "xai_reads env now 0 = ret []"
| "xai_reads env now (Suc n) = andThen (providerStream_Next env now None) (\<lambda>e. andThen (xai_reads env now n) (\<lambda>es. ret (e # es)))"

lemma xai_reads_stream:
  assumes "well_formed_blocks bs" "sp_rest (rs_parser s) = stream_bytes bs" "sp_interrupts (rs_parser s) = []" "rs_first s = None"
    and "events_of [] bs = evs"
  shows "\<exists>s'. xai_reads env now (length evs) s = (Inr (map providerEvent evs), s') \<and>
    fst (providerStream_Next env now None s') = Inl (xai_adaptError env now (XErr (sp_err (rs_parser s))))"
  using assms
proof (induction evs arbitrary: bs s)
  case Nil
  then have "fst (sse_Next (rs_parser s)) = Inl (sp_err (rs_parser s))" using sse_Next_stream [OF Nil.prems(1-3)] by simp
  then obtain p' where "sse_Next (rs_parser s) = (Inl (sp_err (rs_parser s)), p')" by (metis prod.collapse)
  then show ?case using Nil.prems(4) by (simp add: ret_def providerStream_Next_def response_Next_def)
next
  case (Cons ev evs)
  obtain bs' where bs': "well_formed_blocks bs'" "events_of [] bs' = evs"
    "sse_Next (rs_parser s) = (Inr ev, (rs_parser s)\<lparr>sp_rest := stream_bytes bs'\<rparr>)"
    using sse_Next_stream [OF Cons.prems(1-3)] Cons.prems(5) by auto
  define s1 where "s1 = s\<lparr>rs_parser := (rs_parser s)\<lparr>sp_rest := stream_bytes bs'\<rparr>\<rparr>"
  have "providerStream_Next env now None s = (Inr (providerEvent ev), s1)"
    using bs'(3) Cons.prems(4) by (simp add: providerStream_Next_def response_Next_def s1_def)
  moreover obtain s' where "xai_reads env now (length evs) s1 = (Inr (map providerEvent evs), s')"
    "fst (providerStream_Next env now None s') = Inl (xai_adaptError env now (XErr (sp_err (rs_parser s))))"
    using Cons.IH [OF bs'(1) _ _ _ bs'(2), of s1] Cons.prems(3,4) by (auto simp: s1_def)
  ultimately show ?case by (auto simp: andThen_def ret_def)
qed

text \<open>C32: Nothing is lost by looking ahead. \<open>Stream\<close> reads the first event before it returns, to fail over while
  nothing has been delivered: it fails when there is none or when it has no type, and otherwise the consumer's reads
  return all the events of the answer, the checked one first and each once, and then a classified failure.\<close>

theorem stream_replays_first:
  assumes "xai_prepare (xp_env x) (Some (gr_Canonical request)) = Inr body"
    and "xai_newRequest (xp_env x) (xp_config x) ''POST'' ''responses'' (gr_Credential request) (rm_UpstreamName (gr_Model request)) body = Inr q"
    and "xp_send x q w = (Inr response, w')" "200 \<le> xs_Status response" "xs_Status response < 300"
    and "well_formed_blocks bs" "xs_Body response = stream_bytes bs" "xs_Interrupts response = []"
  shows "case events_of [] bs of
      [] \<Rightarrow> xai_Stream x request w = (Inl (xai_adaptError (xp_env x) (xp_now x w') (XErr (xs_BodyErr response))), w')
    | ev # evs \<Rightarrow>
        if xn_Envelope (xp_env x) (xe_Data ev) = None \<or> xn_Envelope (xp_env x) (xe_Data ev) = Some []
        then xai_Stream x request w = (Inl (xai_failure 0 xai_upstream), w')
        else \<exists>s s'. xai_Stream x request w = (Inr s, w') \<and>
          xai_reads env now (Suc (length evs)) s = (Inr (map providerEvent (ev # evs)), s') \<and>
          fst (providerStream_Next env now None s') = Inl (xai_adaptError env now (XErr (xs_BodyErr response)))"
proof -
  define p where "p = NewSSEParser (xs_Body response) (xs_BodyErr response) (xs_Buffered response) (hc_SSEIdleTimeout (xp_config x)) (xs_Interrupts response)"
  have p: "sp_rest p = stream_bytes bs" "sp_interrupts p = []" "sp_err p = xs_BodyErr response"
    using assms(7,8) by (simp_all add: p_def NewSSEParser_def)
  have o: "xai_open (xp_env x) (xp_config x) (xp_send x) (gr_Credential request) (rm_UpstreamName (gr_Model request))
      (Some (gr_Canonical request)) w = (Inr p, w')"
    using assms(1-5) by (simp add: xai_open_def andThen_def lift_err_def ret_def p_def)
  show ?thesis
  proof (cases "events_of [] bs")
    case Nil
    then have "fst (sse_Next p) = Inl (xs_BodyErr response)" using sse_Next_stream [OF assms(6) p(1,2)] p(3) by simp
    then obtain p' where "sse_Next p = (Inl (xs_BodyErr response), p')" by (metis prod.collapse)
    then show ?thesis using Nil o by (simp add: xai_Stream_def adapted_def xai_stream_def andThen_def raise_def)
  next
    case (Cons ev evs)
    obtain bs' where bs': "well_formed_blocks bs'" "events_of [] bs' = evs" "sse_Next p = (Inr ev, p\<lparr>sp_rest := stream_bytes bs'\<rparr>)"
      using sse_Next_stream [OF assms(6) p(1,2)] Cons by auto
    define s where "s = \<lparr>rs_parser = p\<lparr>sp_rest := stream_bytes bs'\<rparr>, rs_first = Some ev\<rparr>"
    obtain s' where "xai_reads env now (length evs) (s\<lparr>rs_first := None\<rparr>) = (Inr (map providerEvent evs), s')"
      "fst (providerStream_Next env now None s') = Inl (xai_adaptError env now (XErr (xs_BodyErr response)))"
      using xai_reads_stream [OF bs'(1) _ _ _ bs'(2), of "s\<lparr>rs_first := None\<rparr>"] p by (auto simp: s_def)
    then have r: "\<exists>s'. xai_reads env now (Suc (length evs)) s = (Inr (map providerEvent (ev # evs)), s') \<and>
        fst (providerStream_Next env now None s') = Inl (xai_adaptError env now (XErr (xs_BodyErr response)))"
      by (auto simp: andThen_def ret_def providerStream_Next_def response_Next_def s_def)
    show ?thesis
    proof (cases "xn_Envelope (xp_env x) (xe_Data ev) = None \<or> xn_Envelope (xp_env x) (xe_Data ev) = Some []")
      case True
      then have "xai_Stream x request w = (Inl (xai_failure 0 xai_upstream), w')"
        using o bs'(3) by (auto simp: xai_Stream_def adapted_def xai_stream_def andThen_def raise_def xai_adaptError_def)
      then show ?thesis using Cons True by simp
    next
      case False
      then have "xai_Stream x request w = (Inr s, w')"
        using o bs'(3) by (auto simp: xai_Stream_def adapted_def xai_stream_def andThen_def ret_def s_def)
      then show ?thesis using Cons False r by simp
    qed
  qed
qed


section \<open>Examples\<close>

text \<open>An environment in which the data of an event is its type.\<close>

definition sample_xai_env :: xai_env where
  "sample_xai_env = \<lparr>xn_ParseURL = (\<lambda>u. Inr \<lparr>xu_Path = u, xu_RawQuery = [], xu_Other = []\<rparr>), xn_URLString = xu_Path,
     xn_RequestOK = (\<lambda>_ _. None), xn_Encode = (\<lambda>m. Inr (concat (map fst m) @ [newline])), xn_TypeField = (\<lambda>d. d), xn_Envelope = Some,
     xn_Object = (\<lambda>_. None), xn_ParseTime = (\<lambda>_. None)\<rparr>"

definition sample_xai_config :: http_config where
  "sample_xai_config = \<lparr>hc_BaseURL = ''https://api.x.ai/v1'', hc_ClientVersion = ''1'', hc_UserAgent = ''byos'', hc_RequestTimeout = 0, hc_SSEIdleTimeout = 0\<rparr>"

definition sample_xai_blocks :: "(bool \<times> (bool \<times> sse_line) list) list" where
  "sample_xai_blocks = [(False, [(False, SseData ''response.created'')]), (False, [(False, SseData ''response.completed'')]),
     (False, [(False, SseData ''late'')])]"

definition sample_xai_response :: xai_response where
  "sample_xai_response = \<lparr>xs_Status = 200, xs_Header = [], xs_Body = stream_bytes sample_xai_blocks, xs_BodyErr = ErrEOF, xs_Buffered = 0, xs_Interrupts = []\<rparr>"

definition sample_xai_send :: "unit xai_round_trip" where "sample_xai_send q w = (Inr sample_xai_response, w)"

definition sample_xai :: "unit xai_provider" where
  "sample_xai = \<lparr>xp_env = sample_xai_env, xp_config = sample_xai_config, xp_send = sample_xai_send, xp_now = (\<lambda>_. 0)\<rparr>"

definition sample_grok :: resolved_model where
  "sample_grok = \<lparr>rm_PublicName = ''grok'', rm_UpstreamName = ''grok-4'', rm_Provider = XAI, rm_OwnedBy = ''byos'', rm_PolicyKey = ''xai''\<rparr>"

definition sample_xai_request :: generation_request where
  "sample_xai_request = \<lparr>gr_Model = sample_grok, gr_Canonical = [(''tools'', JArr [x_search_tool]), (''model'', JStr ''grok-4'')], gr_Credential = ''tok''\<rparr>"

definition sample_xai_event :: "string \<Rightarrow> event" where
  "sample_xai_event d = \<lparr>ev_Event = [], ev_Data = d, ev_Usage = empty_usage\<rparr>"

lemma sample_xai_sent:
  "\<exists>body q. xai_prepare sample_xai_env (Some (gr_Canonical sample_xai_request)) = Inr body \<and>
     xai_newRequest sample_xai_env sample_xai_config ''POST'' ''responses'' (gr_Credential sample_xai_request)
       (rm_UpstreamName (gr_Model sample_xai_request)) body = Inr q"
proof -
  have "search_Validate (Some (gr_Canonical sample_xai_request)) = None"
    by (simp add: search_Validate_spec searchable_def sample_xai_request_def jget_def x_search_tool_is)
  then have "\<exists>body. xai_prepare sample_xai_env (Some (gr_Canonical sample_xai_request)) = Inr body"
    by (simp add: xai_prepare_def sample_xai_env_def Let_def)
  moreover have "\<exists>q. xai_newRequest sample_xai_env sample_xai_config ''POST'' ''responses'' token model body = Inr q" for token model body
    by (simp add: xai_newRequest_def sample_xai_env_def Let_def del: header_set.simps)
  ultimately show ?thesis by blast
qed

lemma sample_xai_blocks_ok:
  "well_formed_blocks sample_xai_blocks"
  "events_of [] sample_xai_blocks = map (\<lambda>d. \<lparr>xe_Event = [], xe_Data = d\<rparr>) [''response.created'', ''response.completed'', ''late'']"
  by (simp_all add: sample_xai_blocks_def line_ok_def newline_def carriage_def finished_event_def)

theorem execute_up_to_terminal_witness:
  "xai_Execute sample_xai sample_xai_request () =
     (Inr [sample_xai_event ''response.created'', sample_xai_event ''response.completed''], ())"
proof -
  obtain body q where b: "xai_prepare sample_xai_env (Some (gr_Canonical sample_xai_request)) = Inr body"
    "xai_newRequest sample_xai_env sample_xai_config ''POST'' ''responses'' (gr_Credential sample_xai_request)
       (rm_UpstreamName (gr_Model sample_xai_request)) body = Inr q" using sample_xai_sent by blast
  have "up_to_terminal sample_xai_env ErrEOF (events_of [] sample_xai_blocks) =
      Inr (map (\<lambda>d. \<lparr>xe_Event = [], xe_Data = d\<rparr>) [''response.created'', ''response.completed''])"
    by (simp add: sample_xai_blocks_ok(2) up_to_terminal_Cons terminal_type_def sample_xai_env_def)
  then show ?thesis
    using execute_up_to_terminal [of sample_xai sample_xai_request body q "()" sample_xai_response "()" sample_xai_blocks] b
      sample_xai_blocks_ok(1)
    by (simp add: sample_xai_def sample_xai_send_def sample_xai_response_def providerEvent_def sample_xai_event_def)
qed

theorem stream_replays_first_witness:
  "\<exists>s s'. xai_Stream sample_xai sample_xai_request () = (Inr s, ()) \<and>
     xai_reads sample_xai_env 0 3 s =
       (Inr [sample_xai_event ''response.created'', sample_xai_event ''response.completed'', sample_xai_event ''late''], s') \<and>
     fst (providerStream_Next sample_xai_env 0 None s') = Inl (xai_failure 0 xai_upstream)"
proof -
  obtain body q where b: "xai_prepare sample_xai_env (Some (gr_Canonical sample_xai_request)) = Inr body"
    "xai_newRequest sample_xai_env sample_xai_config ''POST'' ''responses'' (gr_Credential sample_xai_request)
       (rm_UpstreamName (gr_Model sample_xai_request)) body = Inr q" using sample_xai_sent by blast
  have a: "xai_adaptError sample_xai_env 0 (XErr ErrEOF) = xai_failure 0 xai_upstream" by (simp add: xai_adaptError_def)
  show ?thesis
    using stream_replays_first [of sample_xai sample_xai_request body q "()" sample_xai_response "()" sample_xai_blocks sample_xai_env 0] b
      sample_xai_blocks_ok
    by (simp add: sample_xai_def sample_xai_send_def sample_xai_response_def providerEvent_def sample_xai_event_def a
        sample_xai_env_def [THEN arg_cong, of xn_Envelope] numeral_3_eq_3 del: xai_reads.simps)
qed

definition sample_xai_logged :: "(unit \<times> xai_request list) xai_provider" where
  "sample_xai_logged = \<lparr>xp_env = sample_xai_env, xp_config = sample_xai_config, xp_send = xai_logged sample_xai_send, xp_now = (\<lambda>_. 0)\<rparr>"

theorem xai_request_faithful_witness:
  "\<exists>w' log. xai_Execute sample_xai_logged sample_xai_request ((), []) = (fst (xai_Execute sample_xai_logged sample_xai_request ((), [])), (w', log)) \<and>
     (log = [] \<or> (\<exists>q. log = [q] \<and> says sample_xai_env ''tok'' ''grok-4'' (gr_Canonical sample_xai_request) q))"
proof -
  have p: "xai_Prepare sample_grok (Some []) = Inr (Some [(''tools'', JArr [x_search_tool])])"
    using search_Inject_run [of "[]"] by (simp add: xai_Prepare_def injectable_def jget_def client_tools_def jindex_def Array_def search_disabled_def)
  obtain w' log where r: "xai_Execute sample_xai_logged sample_xai_request ((), []) =
      (fst (xai_Execute sample_xai_logged sample_xai_request ((), [])), (w', log))" by (metis prod.collapse)
  show ?thesis
    using r xai_request_faithful [of sample_xai_logged sample_xai_send sample_grok "[]" _ "gr_Canonical sample_xai_request" sample_xai_request, OF _ p]
    by (fastforce simp: sample_xai_logged_def sample_xai_request_def sample_grok_def)
qed

theorem retry_after_seconds_witness:
  "ec_Cooldown (classifyUpstream sample_xai_env 429 [(''Retry-After'', ''120'')] [] 0) = 120 * second \<and>
   (\<forall>r a model d. cooldown_Apply r a model (classifyUpstream sample_xai_env 429 [(''Retry-After'', ''9223372037'')] [] 0) 0 d = (Inr (), d))"
proof -
  have "Atoi (trimSpace (header_get [(''Retry-After'', ''120'')] ''Retry-After'')) = Some 120"
    "Atoi (trimSpace (header_get [(''Retry-After'', ''9223372037'')] ''Retry-After'')) = Some 9223372037"
    by code_simp+
  moreover have "\<not> freeUsageExhausted sample_xai_env []" by (simp add: freeUsageExhausted_def sample_xai_env_def)
  ultimately show ?thesis
    using retry_after_seconds [of "[(''Retry-After'', ''120'')]" 120 sample_xai_env "[]" 0]
      retry_after_seconds [of "[(''Retry-After'', ''9223372037'')]" 9223372037 sample_xai_env "[]" 0] by simp
qed

definition sample_xai_down :: "unit xai_provider" where
  "sample_xai_down = sample_xai\<lparr>xp_send := (\<lambda>_ w. (Inl (NetE ''connection refused''), w))\<rparr>"

definition sample_ended :: response_stream where
  "sample_ended = \<lparr>rs_parser = NewSSEParser [] ErrEOF 0 0 [], rs_first = None\<rparr>"

theorem xai_failures_classified_witness:
  "(\<exists>e. xai_Execute sample_xai_down sample_xai_request () = (Inl e, ()) \<and> xai_classified e) \<and>
   (\<exists>e. fst (providerStream_Next sample_xai_env 0 None sample_ended) = Inl e \<and> xai_classified e \<and> e \<noteq> ErrEOF)"
proof
  obtain body q where "xai_prepare sample_xai_env (Some (gr_Canonical sample_xai_request)) = Inr body"
    "xai_newRequest sample_xai_env sample_xai_config ''POST'' ''responses'' (gr_Credential sample_xai_request)
       (rm_UpstreamName (gr_Model sample_xai_request)) body = Inr q" using sample_xai_sent by blast
  then have "\<exists>e. xai_Execute sample_xai_down sample_xai_request () = (Inl e, ())"
    by (simp add: xai_Execute_def adapted_def xai_execute_def xai_open_def andThen_def lift_err_def sample_xai_down_def sample_xai_def)
  then show "\<exists>e. xai_Execute sample_xai_down sample_xai_request () = (Inl e, ()) \<and> xai_classified e"
    using xai_failures_classified [THEN conjunct1, of sample_xai_down sample_xai_request "()" _ "()"] by blast
next
  obtain s' where "providerStream_Next sample_xai_env 0 None sample_ended = (Inl (xai_failure 0 xai_upstream), s')"
    by (simp add: providerStream_Next_def response_Next_def sample_ended_def sse_Next_def run_reader_def NewSSEParser_def readEvent_nothing xai_adaptError_def)
  then show "\<exists>e. fst (providerStream_Next sample_xai_env 0 None sample_ended) = Inl e \<and> xai_classified e \<and> e \<noteq> ErrEOF"
    using xai_failures_classified by (metis fst_conv)
qed

end
