(* ===== verification/Lifecycle_Types.thy ===== *)
theory Lifecycle_Types
  imports Executor OAuth_Flow
begin

text \<open>
  What the account lifecycles share: the provider-neutral vocabulary of \<open>provider/provider.go\<close> for
  authorizations, and the state on which the logins run, the environment of the executor with a
  source of randomness. Each drawing from that source has its own outcome.
\<close>

section \<open>Authorizations\<close>

record authorization_ref =
  rf_Provider :: kind
  rf_State :: string
  rf_SessionID :: string

record authorization =
  au_Ref :: authorization_ref
  au_SessionID :: string
  au_UserCode :: string
  au_VerificationURL :: string
  au_VerificationURLComplete :: string
  au_ExpiresAt :: time
  au_PollInterval :: duration

record authorization_session =
  as_Authorization :: authorization
  as_Status :: string
  as_AccountID :: string
  as_SanitizedMessage :: string

record account_result =
  re_Provider :: kind
  re_AccountID :: string

text \<open>\<open>Complete\<close> may wait for a user; \<open>None\<close> is a call that never returns.\<close>

record 's account_lifecycle =
  lc_Start :: "('s, go_error, authorization) op"
  lc_Status :: "authorization_ref \<Rightarrow> ('s, go_error, authorization_session) op"
  lc_Complete :: "authorization_ref \<Rightarrow> string \<Rightarrow> 's \<Rightarrow> ((go_error + account_result) \<times> 's) option"
  lc_Cancel :: "authorization_ref \<Rightarrow> ('s, go_error, unit) op"
  lc_Resume :: "('s, go_error, authorization_session list) op"

definition NewSessionID :: "go_error + string \<Rightarrow> go_error + string" where
  "NewSessionID rnd = (case rnd of Inl e \<Rightarrow> Inl (wrap ''session id randomness'' e) | Inr raw \<Rightarrow> Inr (EncodeToString raw))"


section \<open>The state of a login\<close>

record 'w login_world =
  li_world :: 'w
  li_rand :: "nat \<Rightarrow> go_error + string"
  li_draws :: nat

type_synonym 'w login = "'w login_world env"

definition draw :: "('w login, go_error, go_error + string) op" where
  "draw e = (let w = env_world e in (Inr (li_rand w (li_draws w)), e\<lparr>env_world := w\<lparr>li_draws := Suc (li_draws w)\<rparr>\<rparr>))"

definition outside :: "('w, go_error, 'a) op \<Rightarrow> ('w login, go_error, 'a) op" where
  "outside m e = (case m (li_world (env_world e)) of (r, w) \<Rightarrow> (r, e\<lparr>env_world := (env_world e)\<lparr>li_world := w\<rparr>\<rparr>))"

text \<open>A repository operation whose encryption draws its nonce.\<close>

definition sealing :: "(go_error + string \<Rightarrow> 'a dbop) \<Rightarrow> ('w login, go_error, 'a) op" where
  "sealing m = andThen draw (\<lambda>nonce. in_db (m nonce))"

text \<open>Relations on the database, on logins.\<close>

definition on_db :: "(database \<Rightarrow> database \<Rightarrow> bool) \<Rightarrow> 'w login \<Rightarrow> 'w login \<Rightarrow> bool" where
  "on_db R e e' \<longleftrightarrow> R (env_db e) (env_db e')"

lemma on_db_reflp [keeps_intros]: "reflp R \<Longrightarrow> reflp (on_db R)"
  by (auto simp: on_db_def reflp_def)

lemma on_db_transp [keeps_intros]: "transp R \<Longrightarrow> transp (on_db R)"
  unfolding transp_def on_db_def by blast

lemma keeps_in_db [keeps_intros]: "keeps R m \<Longrightarrow> keeps (on_db R) (in_db m)"
  by (auto simp: keeps_def on_db_def in_db_def split: prod.splits) (metis snd_conv)

lemma keeps_outside [keeps_intros]: "reflp R \<Longrightarrow> keeps (on_db R) (outside m)"
  by (auto simp: keeps_def on_db_def outside_def reflp_def split: prod.splits)

lemma keeps_draw [keeps_intros]: "reflp R \<Longrightarrow> keeps (on_db R) draw"
  by (auto simp: keeps_def on_db_def draw_def Let_def reflp_def)

lemma keeps_time_Now [keeps_intros]: "reflp R \<Longrightarrow> keeps (on_db R) time_Now"
  by (auto simp: keeps_def on_db_def time_Now_def reflp_def)

lemma keeps_sealing [keeps_intros]:
  "transp R \<Longrightarrow> reflp R \<Longrightarrow> (\<And>nonce. keeps R (m nonce)) \<Longrightarrow> keeps (on_db R) (sealing m)"
  unfolding sealing_def by (intro keeps_intros)

text \<open>Operations that do not touch the outside world.\<close>

definition same_world :: "'w login \<Rightarrow> 'w login \<Rightarrow> bool" where
  "same_world e e' \<longleftrightarrow> li_world (env_world e') = li_world (env_world e)"

lemma same_world_intros [keeps_intros]:
  "reflp same_world" "transp same_world" "keeps same_world (in_db m)" "keeps same_world draw" "keeps same_world time_Now"
  "keeps same_world (sealing f)"
  by (auto simp: keeps_def same_world_def in_db_def draw_def time_Now_def sealing_def andThen_def Let_def reflp_def transp_def split: prod.splits sum.splits)

text \<open>A session, once it has left \<open>pending\<close>, never comes back.\<close>

lemma left_pending:
  "row_moves\<^sup>*\<^sup>* row row' \<Longrightarrow> or_status row \<noteq> ''pending'' \<Longrightarrow> or_status row' \<noteq> ''pending''"
proof (induction rule: rtranclp_induct)
  case (step row1 row2)
  then show ?case by (auto simp: row_moves_def elim!: moves_from)
qed simp

interpretation oauth_evolution: moving_table db_oauth evolves row_moves
  by unfold_locales (simp add: evolving_def)

lemma evolves_find:
  "evolves d d' \<Longrightarrow> find (by_state r kind flow state) (db_oauth d) = Some row \<Longrightarrow>
     \<exists>row'. find (by_state r kind flow state) (db_oauth d') = Some row' \<and> row_moves\<^sup>*\<^sup>* row row'"
  by (rule oauth_evolution.run_find [OF r_into_rtranclp, of d d' "by_state r kind flow state"]) (auto simp: by_state_kept)


section \<open>Accounts that are read and marked\<close>

lemma account_scan_fields:
  "account_scan r row = Inr a \<Longrightarrow>
     acc_Provider a = ar_provider row \<and> acc_ID a = ar_id row \<and> acc_Enabled a = ar_enabled row \<and> acc_Status a = ar_status row"
  by (auto simp: account_scan_def kind_Scan_def ParseKind_def split: option.splits sum.splits if_splits)

lemma account_Get_returns:
  assumes "account_Get r i d = (Inr a, d')"
  shows "\<exists>row. row_get ar_id i (db_accounts d) = Some row \<and> account_scan r row = Inr a \<and> db_accounts d' = db_accounts d"
proof -
  have f: "db_accounts d' = db_accounts d"
    using keepsD' [OF account_Get_frame assms, of "same db_accounts"] by (simp add: same_def table_rel_same same_reflp same_transp)
  show ?thesis
  proof (cases d rule: db_query_row_cases [where f = "\<lambda>d. row_get ar_id i (db_accounts d)"])
    case (row x d1)
    with assms have "account_scan r x = Inr a" by (simp add: account_Get_def monad_simps)
    with row tables_eqD(2) [OF row(3)] f show ?thesis by auto
  qed (use assms in \<open>auto simp: account_Get_def monad_simps\<close>)
qed

lemma relogin_marks:
  assumes "account_MarkReloginRequired i kind d = (Inr u, d')" "row_get ar_id i (db_accounts d) = Some row" "ar_provider row = kind"
  shows "\<exists>row'. row_get ar_id i (db_accounts d') = Some row' \<and> \<not> ar_enabled row' \<and> ar_status row' = ''relogin_required''"
proof -
  let ?P = "\<lambda>row. ar_id row = i \<and> ar_provider row = kind"
  let ?f = "\<lambda>d row. row\<lparr>ar_enabled := False, ar_status := ''relogin_required'',
           ar_last_error := Some ''authentication expired; reconnect required'', ar_updated_at := db_epoch d\<rparr>"
  obtain n where "db_exec (\<lambda>d. update_accounts ?P (?f d) d) d = (Inr n, d')"
    using assms(1) by (auto simp: account_MarkReloginRequired_def returns_simps requireAffected_def reject_def raise_def ret_def split: if_splits)
  then obtain d0 where d0: "tables d0 = tables d" "update_accounts ?P (?f d0) d0 = (n, d')" by (rule db_exec_returns)
  then have m: "db_accounts d' = map (\<lambda>row. if ?P row then ?f d0 row else row) (db_accounts d)"
    using tables_eqD(2) [OF d0(1)] by (auto simp: update_accounts_def)
  define g :: "account_row \<Rightarrow> account_row" where "g = (\<lambda>row. if ?P row then ?f d0 row else row)"
  have g: "ar_id (g row) = ar_id row" for row by (simp add: g_def)
  have "row_get ar_id i (map g rows) = map_option g (row_get ar_id i rows)" for rows
    by (induction rows) (auto simp: table_simps g)
  from this [of "db_accounts d"] have "row_get ar_id i (db_accounts d') = Some (g row)"
    using m assms(2) by (simp add: g_def)
  then show ?thesis using assms(3) row_get_SomeD [OF assms(2)] by (simp add: g_def)
qed

text \<open>What a login leaves in the table: a new row, or the row of the same identity with the new credentials.\<close>

lemma upsert_account_accounts:
  "db_accounts d0 = db_accounts d \<Longrightarrow> upsert_account row d0 = (n, d1) \<Longrightarrow>
     fst (upsert_account row d) = n \<and> db_accounts (snd (upsert_account row d)) = db_accounts d1"
  by (auto simp: upsert_account_def split: option.splits if_splits)

lemma upsertLogin_row:
  assumes "upsertLogin r a now nonce idRnd d = (Inr b, d')"
  obtains fp i enc payload row where
    "fingerprint_account r (acc_Provider a) (acc_Credentials a) = Inr fp"
    "rk_marshal r (acc_Credentials a) = Inr payload" "Encrypt (rk_aead r) (k_oauth (rk_keys r)) nonce payload = Inr enc"
    "db_accounts d' = db_accounts (snd (upsert_account (login_row a i fp enc now) d))"
    "row_get ar_fingerprint fp (db_accounts d') = Some row" "account_scan r row = Inr b"
    "row = (case row_get ar_fingerprint fp (db_accounts d) of None \<Rightarrow> login_row a i fp enc now
       | Some old \<Rightarrow> relogin_row (login_row a i fp enc now) old)"
    "\<And>old. row_get ar_fingerprint fp (db_accounts d) = Some old \<Longrightarrow> ar_provider old = acc_Provider a"
    "row_get ar_id i (db_accounts d) = None"
proof -
  from assms obtain fp enc payload i n d1 d2 where
    f: "fingerprint_account r (acc_Provider a) (acc_Credentials a) = Inr fp"
      "rk_marshal r (acc_Credentials a) = Inr payload" "Encrypt (rk_aead r) (k_oauth (rk_keys r)) nonce payload = Inr enc"
    and up: "db_exec_checked ''UNIQUE constraint failed: accounts.id'' (\<lambda>d. row_get ar_id i (db_accounts d) = None)
             (upsert_account (login_row a i fp enc now)) d = (Inr n, d2)" "n \<noteq> 0"
    and get: "account_GetByFingerprint r fp d2 = (Inr b, d')"
    unfolding upsertLogin_def by (auto simp: returns_simps)
  from up(1) obtain d0 where d0: "upsert_account (login_row a i fp enc now) d0 = (n, d2)" "db_accounts d0 = db_accounts d"
      "row_get ar_id i (db_accounts d) = None"
    by (cases d rule: db_exec_checked_cases [where ok = "\<lambda>d. row_get ar_id i (db_accounts d) = None"
          and f = "upsert_account (login_row a i fp enc now)" and msg = "''UNIQUE constraint failed: accounts.id''"])
       (auto intro: prod_eqI dest: tables_eqD(2))
  from get show thesis
  proof (cases d2 rule: db_query_row_cases [where f = "\<lambda>d. row_get ar_fingerprint fp (db_accounts d)"])
    case (row x d3)
    with get have x: "account_scan r x = Inr b" "d' = d3"
      by (auto simp: account_GetByFingerprint_def returns_simps)
    have a: "db_accounts d' = db_accounts d2" using x(2) tables_eqD(2) [OF row(3)] by simp
    have g: "row_get ar_fingerprint fp (db_accounts d2) = Some x" using row tables_eqD(2) [OF row(3)] by simp
    note u = upsert_account_accounts [OF d0(2,1)]
    show thesis
    proof (rule that [OF f _ _ x(1)])
      show "db_accounts d' = db_accounts (snd (upsert_account (login_row a i fp enc now) d))" using u a by simp
      show "row_get ar_fingerprint fp (db_accounts d') = Some x" using g a by simp
      show "x = (case row_get ar_fingerprint fp (db_accounts d) of None \<Rightarrow> login_row a i fp enc now
         | Some old \<Rightarrow> relogin_row (login_row a i fp enc now) old)"
        using g unfolding u [THEN conjunct2, symmetric] using u [THEN conjunct1] up(2)
        by (auto simp: upsert_account_def table_simps split: option.splits if_splits)
      show "ar_provider old = acc_Provider a" if "row_get ar_fingerprint fp (db_accounts d) = Some old" for old
        using that u d0(1,2) up(2) by (auto simp: upsert_account_def split: if_splits)
      show "row_get ar_id i (db_accounts d) = None" by (rule d0(3))
    qed
  qed (auto simp: account_GetByFingerprint_def returns_simps)
qed

end
