(* ===== verification/Devin_OAuth.thy ===== *)
theory Devin_OAuth
  imports OAuth_Flow Devin_Client Request_Source Xai_Client
begin

text \<open>
  The protocol of the Devin login (\<open>oauth/devin/oauth.go\<close>, \<open>client.go\<close>, \<open>token.go\<close>, \<open>errors.go\<close>,
  \<open>identity.go\<close>): PKCE material and the authorization URL, callbacks, the token exchange and the expiry
  of tokens. URL parsing and printing, loopback addresses, SHA-256, gzip and JSON decoding are
  parameters; query strings are encoded and parsed as in \<open>net/url\<close>.

  Shown: what the authorization URL and the callback carry is read back; a callback is accepted
  only with one state and one code within the bounds.
\<close>

section \<open>Errors and environment\<close>

abbreviation ErrRandomness :: go_error where "ErrRandomness \<equiv> Sentinel ''devin oauth randomness unavailable''"
abbreviation ErrInvalidCallback :: go_error where "ErrInvalidCallback \<equiv> Sentinel ''invalid Devin OAuth callback configuration''"
abbreviation ErrInvalidAuthorization :: go_error where "ErrInvalidAuthorization \<equiv> Sentinel ''invalid Devin OAuth authorization request''"
abbreviation ErrExchangeConfig :: go_error where "ErrExchangeConfig \<equiv> Sentinel ''invalid Devin OAuth exchange configuration''"
abbreviation ErrExchangeTransport :: go_error where "ErrExchangeTransport \<equiv> Sentinel ''Devin OAuth exchange transport failed''"
abbreviation ErrExchangeRedirect :: go_error where "ErrExchangeRedirect \<equiv> Sentinel ''Devin OAuth exchange redirect refused''"
abbreviation ErrExchangeStatus :: go_error where "ErrExchangeStatus \<equiv> Sentinel ''Devin OAuth exchange rejected''"
abbreviation ErrExchangeEncoding :: go_error where "ErrExchangeEncoding \<equiv> Sentinel ''Devin OAuth exchange response encoding invalid''"
abbreviation ErrExchangeTooLarge :: go_error where "ErrExchangeTooLarge \<equiv> Sentinel ''Devin OAuth exchange response too large''"
abbreviation ErrExchangeProtocol :: go_error where "ErrExchangeProtocol \<equiv> Sentinel ''Devin OAuth exchange response invalid''"
abbreviation ErrExchangeTokenRequired :: go_error where "ErrExchangeTokenRequired \<equiv> Sentinel ''Devin OAuth exchange token missing''"

text \<open>\<open>Error\<close> unwraps to its kind and its cause.\<close>

definition protocolError :: "go_error \<Rightarrow> go_error" where
  "protocolError kind = Wrapf ''Devin OAuth exchange'' [kind]"

definition statusError :: "int \<Rightarrow> go_error" where
  "statusError status = Wrapf (''Devin OAuth exchange rejected (status '' @ itoa status @ '')'') [ErrExchangeStatus]"

definition safeContextCause :: "go_error \<Rightarrow> go_error option" where
  "safeContextCause err =
     (if errors_is err ErrCanceled then Some ErrCanceled
      else if errors_is err ErrDeadlineExceeded then Some ErrDeadlineExceeded else None)"

definition transportError :: "go_error \<Rightarrow> go_error" where
  "transportError cause =
     Wrapf ''Devin OAuth exchange transport failed''
       (ErrExchangeTransport # (case safeContextCause cause of None \<Rightarrow> [] | Some c \<Rightarrow> [c]))"

record login_url = url + u_Opaque :: string

text \<open>\<open>ln_Document\<close> decodes a body that is one JSON object of \<open>exchangeResponse\<close> and nothing else: the raw
  token, if there is one; \<open>ln_Claims\<close> one JSON object and nothing else; \<open>ln_Gunzip\<close> is as \<open>dn_Gunzip\<close>.\<close>

record login_net =
  ln_ParseURL :: "string \<Rightarrow> login_url option"
  ln_URLString :: "login_url \<Rightarrow> string"
  ln_Loopback :: "string \<Rightarrow> bool"
  ln_sha256 :: "string \<Rightarrow> string"
  ln_ToLower :: "string \<Rightarrow> string"
  ln_Gunzip :: "string \<Rightarrow> (string \<times> bool \<times> bool \<times> nat) option"
  ln_Document :: "string \<Rightarrow> json option option"
  ln_Claims :: "string \<Rightarrow> jobject option"
  ln_Marshal :: "string \<Rightarrow> string \<Rightarrow> string"

record oauth_config =
  oc_CallbackOrigin :: string
  oc_CallbackPath :: string


section \<open>Query strings\<close>

text \<open>\<open>url.QueryEscape\<close> and \<open>url.QueryUnescape\<close>.\<close>

definition unreserved :: "char \<Rightarrow> bool" where
  "unreserved c \<longleftrightarrow> c \<in> set ''ABCDEFGHIJKLMNOPQRSTUVWXYZabcdefghijklmnopqrstuvwxyz0123456789-_.~''"

definition upper_hex :: "nat \<Rightarrow> char" where "upper_hex n = ''0123456789ABCDEF'' ! n"

definition escape_char :: "char \<Rightarrow> string" where
  "escape_char c =
     (if unreserved c then [c] else if c = CHR '' '' then ''+''
      else [CHR ''%'', upper_hex (of_char c div 16), upper_hex (of_char c mod 16)])"

definition QueryEscape :: "string \<Rightarrow> string" where
  "QueryEscape s = concat (map escape_char s)"

definition unhex :: "char \<Rightarrow> nat option" where
  "unhex c =
     (let n = of_char c :: nat in
      if 48 \<le> n \<and> n \<le> 57 then Some (n - 48)
      else if 97 \<le> n \<and> n \<le> 102 then Some (n - 87)
      else if 65 \<le> n \<and> n \<le> 70 then Some (n - 55)
      else None)"

fun QueryUnescape :: "string \<Rightarrow> string option" where
  "QueryUnescape [] = Some []"
| "QueryUnescape (c # s) =
     (if c = CHR ''%'' then
        (case s of
           a # b # rest \<Rightarrow>
             (case (unhex a, unhex b) of
                (Some i, Some j) \<Rightarrow> map_option ((#) (char_of (16 * i + j))) (QueryUnescape rest)
              | _ \<Rightarrow> None)
         | _ \<Rightarrow> None)
      else map_option ((#) (if c = CHR ''+'' then CHR '' '' else c)) (QueryUnescape s))"

fun split_at :: "char \<Rightarrow> string \<Rightarrow> string \<Rightarrow> string list" where
  "split_at sep acc [] = [acc]"
| "split_at sep acc (c # s) = (if c = sep then acc # split_at sep [] s else split_at sep (acc @ [c]) s)"

definition query_pair :: "string \<Rightarrow> (string \<times> string) option" where
  "query_pair p =
     (let k = takeWhile (\<lambda>c. c \<noteq> CHR ''='') p; v = drop (length k + 1) p in
      if CHR '';'' \<in> set p then None
      else case QueryUnescape k of None \<Rightarrow> None | Some key \<Rightarrow> map_option (Pair key) (QueryUnescape v))"

text \<open>\<open>url.ParseQuery\<close>: the pairs in their order, or an error if any of them is wrong.\<close>

fun all_some :: "'a option list \<Rightarrow> 'a list option" where
  "all_some [] = Some []"
| "all_some (x # xs) = (case x of None \<Rightarrow> None | Some a \<Rightarrow> map_option ((#) a) (all_some xs))"

definition ParseQuery :: "string \<Rightarrow> (string \<times> string) list option" where
  "ParseQuery q = all_some (map query_pair (filter (\<lambda>p. p \<noteq> []) (split_at (CHR ''&'') [] q)))"

definition query_values :: "string \<Rightarrow> (string \<times> string) list \<Rightarrow> string list" where
  "query_values k ps = map snd (filter (\<lambda>p. fst p = k) ps)"

text \<open>\<open>Values.Encode\<close> of values with one entry per key, given in the order of their keys.\<close>

fun Encode :: "(string \<times> string) list \<Rightarrow> string" where
  "Encode [] = []"
| "Encode [(k, v)] = QueryEscape k @ ''='' @ QueryEscape v"
| "Encode ((k, v) # ps) = QueryEscape k @ ''='' @ QueryEscape v @ ''&'' @ Encode ps"

lemma hex_table: "list_all (\<lambda>i. unhex (upper_hex i) = Some i \<and> upper_hex i \<notin> set ''&=;'') [0..<16]"
  by code_simp

lemma unhex_upper_hex: "i < 16 \<Longrightarrow> unhex (upper_hex i) = Some i" "i < 16 \<Longrightarrow> upper_hex i \<notin> set ''&=;''"
  using hex_table by (auto simp: list_all_iff)

lemma escape_char_cases:
  obtains (plain) "escape_char c = [c]" "c \<noteq> CHR ''%''" "c \<noteq> CHR ''+''" "c \<notin> set ''&=;''"
  | (space) "c = CHR '' ''" "escape_char c = ''+''"
  | (hex) i j where "escape_char c = [CHR ''%'', upper_hex i, upper_hex j]" "i < 16" "j < 16" "char_of (16 * i + j) = c"
proof (cases "unreserved c")
  case True
  then show ?thesis using that(1) by (auto simp: unreserved_def escape_char_def)
next
  case False
  have n: "of_char c div 16 < (16 :: nat)" by (rule less_mult_imp_div_less) simp
  show ?thesis
  proof (cases "c = CHR '' ''")
    case True
    then show ?thesis using that(2) False by (simp add: escape_char_def)
  next
    case False
    have "char_of (16 * (of_char c div 16) + of_char c mod 16 :: nat) = c" by (simp only: mult_div_mod_eq char_of_char)
    then show ?thesis
      using that(3) [of "of_char c div 16" "of_char c mod 16"] \<open>\<not> unreserved c\<close> False n by (simp add: escape_char_def)
  qed
qed

lemma escape_char_plain: "d \<in> set (escape_char c) \<Longrightarrow> d \<notin> set ''&=;''"
  by (cases c rule: escape_char_cases) (use unhex_upper_hex(2) in auto)

lemma escape_char_nonempty: "escape_char c \<noteq> []"
  by (cases c rule: escape_char_cases) auto

lemma unescape_append: "QueryUnescape (escape_char c @ s) = map_option ((#) c) (QueryUnescape s)"
  by (cases c rule: escape_char_cases) (simp_all add: unhex_upper_hex)

lemma QueryUnescape_Escape: "QueryUnescape (QueryEscape s) = Some s"
  by (induction s) (simp_all add: QueryEscape_def unescape_append)

lemma escape_plain: "c \<in> set (QueryEscape s) \<Longrightarrow> c \<noteq> CHR ''&'' \<and> c \<noteq> CHR ''='' \<and> c \<noteq> CHR '';''"
  using escape_char_plain by (fastforce simp: QueryEscape_def)

lemma split_at_append:
  "sep \<notin> set p \<Longrightarrow> split_at sep acc (p @ sep # s) = (acc @ p) # split_at sep [] s"
  "sep \<notin> set p \<Longrightarrow> split_at sep acc p = [acc @ p]"
  by (induction p arbitrary: acc) auto

lemma query_pair_encoded: "query_pair (QueryEscape k @ ''='' @ QueryEscape v) = Some (k, v)"
proof -
  have "takeWhile (\<lambda>c. c \<noteq> CHR ''='') (QueryEscape k @ CHR ''='' # QueryEscape v) = QueryEscape k"
    using escape_plain [of _ k] by (subst takeWhile_append2) auto
  moreover have "CHR '';'' \<notin> set (QueryEscape k @ ''='' @ QueryEscape v)" using escape_plain by auto
  ultimately show ?thesis by (simp add: query_pair_def Let_def QueryUnescape_Escape)
qed

lemma ParseQuery_Encode: "ParseQuery (Encode ps) = Some ps"
proof (induction ps rule: Encode.induct)
  case 1
  show ?case by (simp add: ParseQuery_def)
next
  case (2 k v)
  have "CHR ''&'' \<notin> set (QueryEscape k @ ''='' @ QueryEscape v)" using escape_plain by auto
  then show ?case using query_pair_encoded [of k v] split_at_append(2) [of "CHR ''&''" "QueryEscape k @ ''='' @ QueryEscape v" "[]"]
    by (simp add: ParseQuery_def)
next
  case (3 k v p ps)
  have "CHR ''&'' \<notin> set (QueryEscape k @ ''='' @ QueryEscape v)" using escape_plain by auto
  then have "split_at (CHR ''&'') [] ((QueryEscape k @ ''='' @ QueryEscape v) @ CHR ''&'' # Encode (p # ps)) =
      (QueryEscape k @ ''='' @ QueryEscape v) # split_at (CHR ''&'') [] (Encode (p # ps))"
    using split_at_append(1) [of "CHR ''&''" "QueryEscape k @ ''='' @ QueryEscape v" "[]" "Encode (p # ps)"] by simp
  then show ?case using 3 query_pair_encoded [of k v] by (simp add: ParseQuery_def)
qed


section \<open>Authorization requests and callbacks\<close>

definition maxCallbackURLBytes :: nat where "maxCallbackURLBytes = 16384"
definition maxCallbackQueryBytes :: nat where "maxCallbackQueryBytes = 8192"
definition maxCallbackValueBytes :: nat where "maxCallbackValueBytes = 4096"

definition ChallengeS256 :: "login_net \<Rightarrow> string \<Rightarrow> string" where
  "ChallengeS256 ln verifier = EncodeToString (ln_sha256 ln verifier)"

definition generatePKCE :: "login_net \<Rightarrow> go_error + string \<Rightarrow> go_error + string \<times> string" where
  "generatePKCE ln rnd =
     (case rnd of
        Inl e \<Rightarrow> Inl (Wrapf ''verifier randomness'' [ErrRandomness])
      | Inr buf \<Rightarrow> Inr (EncodeToString buf, ChallengeS256 ln (EncodeToString buf)))"

definition generateState :: "go_error + string \<Rightarrow> go_error + string" where
  "generateState rnd =
     (case rnd of Inl e \<Rightarrow> Inl (Wrapf ''state randomness'' [ErrRandomness]) | Inr buf \<Rightarrow> Inr (EncodeToString buf))"

text \<open>\<open>strconv.ParseUint(port, 10, 16)\<close> and the test for zero.\<close>

definition valid_port :: "string \<Rightarrow> bool" where
  "valid_port s \<longleftrightarrow> s \<noteq> [] \<and> list_all is_digit s \<and> decimal s \<le> 65535 \<and> decimal s \<noteq> 0"

definition validCallbackOrigin :: "login_net \<Rightarrow> login_url \<Rightarrow> bool" where
  "validCallbackOrigin ln origin \<longleftrightarrow>
     u_Scheme origin = ''http'' \<and> u_Host origin \<noteq> [] \<and> \<not> u_User origin \<and> valid_port (u_Port origin) \<and>
     (EqualFold (u_Hostname origin) ''localhost'' \<or> ln_Loopback ln (u_Hostname origin))"

definition CallbackURL :: "login_net \<Rightarrow> oauth_config \<Rightarrow> go_error + string" where
  "CallbackURL ln config =
     (case ln_ParseURL ln (trimSuffix (oc_CallbackOrigin config) ''/'') of
        None \<Rightarrow> Inl ErrInvalidCallback
      | Some origin \<Rightarrow>
          if \<not> validCallbackOrigin ln origin \<or> u_RawQuery origin \<noteq> [] \<or> u_Fragment origin \<noteq> [] \<or>
             (u_Path origin \<noteq> [] \<and> u_Path origin \<noteq> ''/'') then Inl ErrInvalidCallback
          else
            (case ln_ParseURL ln (oc_CallbackPath config) of
               None \<Rightarrow> Inl ErrInvalidCallback
             | Some path \<Rightarrow>
                 if \<not> hasPrefix (oc_CallbackPath config) ''/'' \<or> hasPrefix (oc_CallbackPath config) ''//'' \<or> u_Scheme path \<noteq> [] \<or>
                    u_Host path \<noteq> [] \<or> u_RawQuery path \<noteq> [] \<or> u_Fragment path \<noteq> [] \<or> u_Path path \<noteq> oc_CallbackPath config
                 then Inl ErrInvalidCallback
                 else Inr (ln_URLString ln (origin\<lparr>u_Path := oc_CallbackPath config\<rparr>))))"

definition ParseCallbackQuery :: "string \<Rightarrow> go_error + string \<times> string" where
  "ParseCallbackQuery rawQuery =
     (if rawQuery = [] \<or> maxCallbackQueryBytes < length rawQuery then Inl ErrInvalidCallback
      else case ParseQuery rawQuery of
        None \<Rightarrow> Inl ErrInvalidCallback
      | Some ps \<Rightarrow>
          let keys = remdups (map fst ps); states = query_values ''state'' ps; codes = query_values ''code'' ps in
          if ''error'' \<in> set keys then Inl ErrInvalidAuthorization
          else if ''error_description'' \<in> set keys then Inl ErrInvalidAuthorization
          else if length keys \<noteq> 2 then Inl ErrInvalidCallback
          else if ''state'' \<notin> set keys \<or> ''code'' \<notin> set keys \<or> length states \<noteq> 1 \<or> length codes \<noteq> 1 \<or> hd states = [] \<or> hd codes = [] \<or>
             maxCallbackValueBytes < length (hd states) \<or> maxCallbackValueBytes < length (hd codes) then Inl ErrInvalidCallback
          else Inr (hd states, hd codes))"

definition ParseCallbackURL :: "login_net \<Rightarrow> string \<Rightarrow> string \<Rightarrow> go_error + string \<times> string" where
  "ParseCallbackURL ln value0 expectedRedirectURI =
     (let v = trimSpace value0 in
      if v = [] \<or> maxCallbackURLBytes < length v then Inl ErrInvalidCallback
      else case ln_ParseURL ln v of
        None \<Rightarrow> Inl ErrInvalidCallback
      | Some candidate \<Rightarrow>
          if u_Opaque candidate \<noteq> [] \<or> u_User candidate \<or> u_Fragment candidate \<noteq> [] \<or> u_RawPath candidate \<noteq> [] \<or>
             \<not> validCallbackOrigin ln candidate then Inl ErrInvalidCallback
          else
            (case ln_ParseURL ln expectedRedirectURI of
               None \<Rightarrow> Inl ErrInvalidCallback
             | Some expected \<Rightarrow>
                 if u_Opaque expected \<noteq> [] \<or> u_User expected \<or> u_RawQuery expected \<noteq> [] \<or> u_Fragment expected \<noteq> [] \<or>
                    u_RawPath expected \<noteq> [] \<or> \<not> validCallbackOrigin ln expected then Inl ErrInvalidCallback
                 else if u_Scheme candidate \<noteq> u_Scheme expected \<or> u_Host candidate \<noteq> u_Host expected \<or> u_Path candidate \<noteq> u_Path expected
                 then Inl ErrInvalidCallback
                 else ParseCallbackQuery (u_RawQuery candidate)))"

definition AuthorizationEndpoint :: string where "AuthorizationEndpoint = ''https://app.devin.ai/auth/cli/continue''"

definition authorization_query :: "string \<Rightarrow> string \<Rightarrow> string \<Rightarrow> (string \<times> string) list" where
  "authorization_query redirect state challenge =
     [(''code_challenge'', challenge), (''code_challenge_method'', ''S256''), (''prompt'', ''select_account''),
      (''redirect_uri'', redirect), (''state'', state)]"

definition AuthorizationURL :: "login_net \<Rightarrow> string \<Rightarrow> string \<Rightarrow> string \<Rightarrow> go_error + string" where
  "AuthorizationURL ln callbackURL state challenge =
     (case ln_ParseURL ln callbackURL of
        None \<Rightarrow> Inl ErrInvalidCallback
      | Some callback \<Rightarrow>
          if \<not> validCallbackOrigin ln callback \<or> u_Fragment callback \<noteq> [] then Inl ErrInvalidCallback
          else if state = [] \<or> challenge = [] then Inl ErrInvalidAuthorization
          else Inr (AuthorizationEndpoint @ ''?'' @ Encode (authorization_query (ln_URLString ln callback) state challenge)))"

text \<open>The URL, the state and the verifier.\<close>

definition BuildAuthorization :: "login_net \<Rightarrow> oauth_config \<Rightarrow> go_error + string \<Rightarrow> go_error + string \<Rightarrow> go_error + string \<times> string \<times> string" where
  "BuildAuthorization ln config rnd1 rnd2 =
     orFail (CallbackURL ln config) (\<lambda>callback.
     orFail (generatePKCE ln rnd1) (\<lambda>(verifier, challenge).
     orFail (generateState rnd2) (\<lambda>state.
     orFail (AuthorizationURL ln callback state challenge) (\<lambda>authorizationURL. Inr (authorizationURL, state, verifier)))))"


section \<open>Expiry\<close>

definition tokenExpirySkew :: duration where "tokenExpirySkew = 5 * minute"
definition tokenFallbackExpiry :: duration where "tokenFallbackExpiry = 365 * 24 * hour"
definition minimumJWTExpiry :: int where "minimumJWTExpiry = -62135596800"
definition maximumJWTExpiry :: int where "maximumJWTExpiry = 253402300799"

definition ExpiresAt :: "login_net \<Rightarrow> string \<Rightarrow> time \<Rightarrow> time" where
  "ExpiresAt ln opaqueToken now =
     (let fallback = now + tokenFallbackExpiry; parts = split_at (CHR ''.'') [] opaqueToken in
      if length parts \<noteq> 3 then fallback
      else case DecodeString (parts ! 1) of
        None \<Rightarrow> fallback
      | Some payload \<Rightarrow>
          (case ln_Claims ln payload of
             None \<Rightarrow> fallback
           | Some claims \<Rightarrow>
               (case jget claims ''exp'' of
                  Some (JNum n) \<Rightarrow>
                    (case Atoi n of
                       None \<Rightarrow> fallback
                     | Some seconds \<Rightarrow>
                         if seconds < minimumJWTExpiry \<or> maximumJWTExpiry < seconds then fallback
                         else from_unix seconds - tokenExpirySkew)
                | _ \<Rightarrow> fallback)))"

definition Usable :: "time \<Rightarrow> time \<Rightarrow> bool" where
  "Usable expiresAt now \<longleftrightarrow> time_before now expiresAt"

definition Credentials :: "login_net \<Rightarrow> string \<Rightarrow> time \<Rightarrow> account_credentials" where
  "Credentials ln opaqueToken now =
     \<lparr>ac_Issuer = [], ac_Subject = [], ac_Email = [], ac_AccessToken = [], ac_RefreshToken = [], ac_IDToken = [], ac_TokenEndpoint = [],
      ac_RawIdentity = [], ac_OpaqueToken = opaqueToken, ac_OpaqueTokenExpiresAt = Some (ExpiresAt ln opaqueToken now)\<rparr>"


section \<open>The token exchange\<close>

record exchange_config =
  xc_Timeout :: duration
  xc_MaxCompressedBytes :: int
  xc_MaxDecompressedBytes :: int

record exchange_response =
  er_Status :: int
  er_Encoding :: string
  er_Body :: string
  er_BodyFails :: bool

type_synonym 'w exchange_trip = "string \<Rightarrow> ('w, go_error, exchange_response) op"

definition ExchangeEndpoint :: string where "ExchangeEndpoint = ''https://api.devin.ai/auth/cli/token''"

definition validExchangeEndpoint :: "login_net \<Rightarrow> string \<Rightarrow> bool \<Rightarrow> bool" where
  "validExchangeEndpoint ln raw allowTestEndpoint =
     (case ln_ParseURL ln raw of
        None \<Rightarrow> False
      | Some u \<Rightarrow>
          \<not> u_User u \<and> u_RawQuery u = [] \<and> u_Fragment u = [] \<and>
          (if allowTestEndpoint then (u_Scheme u = ''http'' \<or> u_Scheme u = ''https'') \<and> u_Host u \<noteq> [] \<and> u_Path u \<noteq> []
           else u_Scheme u = ''https'' \<and> u_Host u = ''api.devin.ai'' \<and> u_Port u = [] \<and> u_Path u = ''/auth/cli/token''))"

text \<open>\<open>NewClient\<close>: the limits of the client; zero stands for the defaults.\<close>

definition NewExchangeClient :: "login_net \<Rightarrow> exchange_config \<Rightarrow> go_error + exchange_config" where
  "NewExchangeClient ln config =
     (let t = (if xc_Timeout config = 0 then 15 * second else xc_Timeout config);
          c = (if xc_MaxCompressedBytes config = 0 then 2097152 else xc_MaxCompressedBytes config);
          d = (if xc_MaxDecompressedBytes config = 0 then 8388608 else xc_MaxDecompressedBytes config)
      in if t \<le> 0 \<or> c \<le> 0 \<or> d \<le> 0 \<or> \<not> validExchangeEndpoint ln ExchangeEndpoint False then Inl ErrExchangeConfig
         else Inr \<lparr>xc_Timeout = t, xc_MaxCompressedBytes = c, xc_MaxDecompressedBytes = d\<rparr>)"

text \<open>\<open>io.ReadAll\<close> of a \<open>LimitReader\<close> of one byte more than the limit; the failure behind the bytes
  is met only when it comes before that.\<close>

definition readBounded :: "string \<Rightarrow> bool \<Rightarrow> int \<Rightarrow> go_error + string" where
  "readBounded bytes fails limit =
     (if fails \<and> int (length bytes) \<le> limit then Inl (protocolError ErrExchangeProtocol)
      else if int (length bytes) > limit then Inl (protocolError ErrExchangeTooLarge)
      else Inr bytes)"

definition decodeExchangeBody :: "login_net \<Rightarrow> string \<Rightarrow> string \<Rightarrow> int \<Rightarrow> go_error + string" where
  "decodeExchangeBody ln compressed encoding limit =
     (let e = ln_ToLower ln (trimSpace encoding) in
      if e = [] \<or> e = ''identity'' then
        (if int (length compressed) > limit then Inl (protocolError ErrExchangeTooLarge) else Inr compressed)
      else if e = ''gzip'' then
        (case ln_Gunzip ln compressed of
           None \<Rightarrow> Inl (protocolError ErrExchangeEncoding)
         | Some (bytes, fails, closes, left) \<Rightarrow>
             orFail (readBounded bytes fails limit) (\<lambda>decoded.
               if \<not> closes then Inl (protocolError ErrExchangeEncoding)
               else if left \<noteq> 0 then Inl (protocolError ErrExchangeEncoding)
               else Inr decoded))
      else Inl (protocolError ErrExchangeEncoding))"

definition parseExchangeToken :: "login_net \<Rightarrow> string \<Rightarrow> go_error + string" where
  "parseExchangeToken ln body =
     (case ln_Document ln body of
        None \<Rightarrow> Inl (protocolError ErrExchangeProtocol)
      | Some (Some (JStr token)) \<Rightarrow> if trimSpace token = [] then Inl (protocolError ErrExchangeTokenRequired) else Inr token
      | Some _ \<Rightarrow> Inl (protocolError ErrExchangeTokenRequired))"

text \<open>A redirect that the client refuses comes back as the error of \<open>CheckRedirect\<close>.\<close>

definition Exchange :: "login_net \<Rightarrow> exchange_config \<Rightarrow> 'w exchange_trip \<Rightarrow> string \<Rightarrow> string \<Rightarrow> ('w, go_error, string) op" where
  "Exchange ln c send code verifier =
     (if trimSpace code = [] \<or> trimSpace verifier = [] then raise (protocolError ErrExchangeProtocol)
      else attempt (send (ln_Marshal ln code verifier)) (\<lambda>r. case r of
        Inl err \<Rightarrow> raise (if errors_is err ErrExchangeRedirect then protocolError ErrExchangeRedirect else transportError err)
      | Inr response \<Rightarrow>
          if er_Status response < 200 \<or> 300 \<le> er_Status response then raise (statusError (er_Status response))
          else lift_result
            (orFail (readBounded (er_Body response) (er_BodyFails response) (xc_MaxCompressedBytes c)) (\<lambda>compressed.
             orFail (decodeExchangeBody ln compressed (er_Encoding response) (xc_MaxDecompressedBytes c)) (parseExchangeToken ln)))))"


section \<open>What is sent is read back\<close>

lemma query_values_in: "v \<in> set (query_values k ps) \<longleftrightarrow> (k, v) \<in> set ps"
  by (auto simp: query_values_def image_iff)

lemma two_keys_two_pairs:
  assumes "length (query_values a ps) = 1" "length (query_values b ps) = 1" "a \<noteq> b" "fst ` set ps = {a, b}"
  shows "length ps = 2 \<and> set ps = {(a, hd (query_values a ps)), (b, hd (query_values b ps))}"
proof -
  let ?P = "\<lambda>p. fst p = a"
  have "filter (\<lambda>p. \<not> ?P p) ps = filter (\<lambda>p. fst p = b) ps"
    by (rule filter_cong [OF refl]) (use assms(3,4) in auto)
  then have "length ps = length (query_values a ps) + length (query_values b ps)"
    using sum_length_filter_compl [of ?P ps] by (simp add: query_values_def)
  moreover have "(a, hd (query_values a ps)) \<in> set ps" "(b, hd (query_values b ps)) \<in> set ps"
    using assms(1,2) query_values_in by (metis hd_in_set length_0_conv zero_neq_one)+
  moreover have "p \<in> {(a, hd (query_values a ps)), (b, hd (query_values b ps))}" if "p \<in> set ps" for p
  proof -
    have one: "v = hd (query_values k ps)" if "length (query_values k ps) = 1" "(k, v) \<in> set ps" for k v
      using that query_values_in [of v k ps] by (cases "query_values k ps") auto
    have "fst p = a \<or> fst p = b" using that assms(4) by blast
    then show ?thesis using one [OF assms(1), of "snd p"] one [OF assms(2), of "snd p"] that by (cases p) auto
  qed
  ultimately show ?thesis using assms(1,2) by auto
qed

text \<open>C14: The callback is read back and nothing else is accepted. The authorization URL's query carries exactly the
  redirect address, the state, the S256 challenge and the prompt, whatever bytes they consist of; a callback whose
  query carries a state and a code within the bounds is read back as these; and whatever query is accepted has these
  two parameters once each, neither empty nor above 4096 bytes, and no other.\<close>

theorem callback_read_back:
  "(AuthorizationURL ln callback state challenge = Inr u \<longrightarrow> (\<exists>parsed. ln_ParseURL ln callback = Some parsed \<and>
      (\<exists>q. u = AuthorizationEndpoint @ ''?'' @ q \<and>
        ParseQuery q = Some [(''code_challenge'', challenge), (''code_challenge_method'', ''S256''), (''prompt'', ''select_account''),
          (''redirect_uri'', ln_URLString ln parsed), (''state'', state)]))) \<and>
   (0 < length s \<and> length s \<le> 4096 \<and> 0 < length c \<and> length c \<le> 4096 \<and> length (Encode [(''code'', c), (''state'', s)]) \<le> 8192 \<longrightarrow>
      ParseCallbackQuery (Encode [(''code'', c), (''state'', s)]) = Inr (s, c)) \<and>
   (ParseCallbackQuery raw = Inr (s', c') \<longrightarrow> (\<exists>ps. ParseQuery raw = Some ps \<and> length ps = 2 \<and>
      set ps = {(''state'', s'), (''code'', c')} \<and> s' \<noteq> [] \<and> c' \<noteq> [] \<and> length s' \<le> 4096 \<and> length c' \<le> 4096))"
proof (intro conjI impI)
  assume "AuthorizationURL ln callback state challenge = Inr u"
  then obtain parsed where p: "ln_ParseURL ln callback = Some parsed"
    "u = AuthorizationEndpoint @ ''?'' @ Encode (authorization_query (ln_URLString ln parsed) state challenge)"
    by (auto simp: AuthorizationURL_def split: option.splits if_splits)
  then show "\<exists>parsed. ln_ParseURL ln callback = Some parsed \<and>
      (\<exists>q. u = AuthorizationEndpoint @ ''?'' @ q \<and> ParseQuery q = Some [(''code_challenge'', challenge), (''code_challenge_method'', ''S256''), (''prompt'', ''select_account''),
          (''redirect_uri'', ln_URLString ln parsed), (''state'', state)])"
    using ParseQuery_Encode [of "authorization_query (ln_URLString ln parsed) state challenge"] unfolding authorization_query_def by blast
next
  assume b: "0 < length s \<and> length s \<le> 4096 \<and> 0 < length c \<and> length c \<le> 4096 \<and> length (Encode [(''code'', c), (''state'', s)]) \<le> 8192"
  have "Encode [(''code'', c), (''state'', s)] \<noteq> []" by (simp add: QueryEscape_def)
  then show "ParseCallbackQuery (Encode [(''code'', c), (''state'', s)]) = Inr (s, c)"
    using b ParseQuery_Encode [of "[(''code'', c), (''state'', s)]"]
    by (simp add: ParseCallbackQuery_def query_values_def maxCallbackQueryBytes_def maxCallbackValueBytes_def del: Encode.simps)
next
  assume a: "ParseCallbackQuery raw = Inr (s', c')"
  then obtain ps where ps: "ParseQuery raw = Some ps" by (auto simp: ParseCallbackQuery_def split: if_splits option.splits)
  with a have k: "length (remdups (map fst ps)) = 2" "''state'' \<in> fst ` set ps" "''code'' \<in> fst ` set ps"
    "length (query_values ''state'' ps) = 1" "length (query_values ''code'' ps) = 1"
    "s' = hd (query_values ''state'' ps)" "c' = hd (query_values ''code'' ps)" "s' \<noteq> []" "c' \<noteq> []" "length s' \<le> 4096" "length c' \<le> 4096"
    by (auto simp: ParseCallbackQuery_def Let_def maxCallbackValueBytes_def split: if_splits)
  have "card (fst ` set ps) = 2" using k(1) by (simp add: length_remdups_card_conv)
  moreover have "{''state'', ''code''} \<subseteq> fst ` set ps" using k(2,3) by simp
  ultimately have "fst ` set ps = {''state'', ''code''}"
    using card_subset_eq [of "fst ` set ps" "{''state'', ''code''}"] by simp
  then have "length ps = 2 \<and> set ps = {(''state'', s'), (''code'', c')}"
    using two_keys_two_pairs [OF k(4,5)] k(6,7) by simp
  then show "\<exists>ps. ParseQuery raw = Some ps \<and> length ps = 2 \<and> set ps = {(''state'', s'), (''code'', c')} \<and> s' \<noteq> [] \<and> c' \<noteq> [] \<and>
      length s' \<le> 4096 \<and> length c' \<le> 4096"
    using ps k by blast
qed


section \<open>Examples\<close>

text \<open>URLs of one loopback origin.\<close>

definition sample_origin :: string where "sample_origin = ''http://127.0.0.1:8080''"

definition sample_login_net :: login_net where
  "sample_login_net =
     \<lparr>ln_ParseURL = (\<lambda>s. if hasPrefix s sample_origin
        then Some \<lparr>u_Scheme = ''http'', u_Host = ''127.0.0.1:8080'', u_Hostname = ''127.0.0.1'', u_Port = ''8080'', u_User = False,
          u_RawQuery = [], u_Fragment = [], u_Path = drop (length sample_origin) s, u_RawPath = [], u_Opaque = []\<rparr>
        else Some \<lparr>u_Scheme = [], u_Host = [], u_Hostname = [], u_Port = [], u_User = False,
          u_RawQuery = [], u_Fragment = [], u_Path = s, u_RawPath = [], u_Opaque = []\<rparr>),
      ln_URLString = (\<lambda>u. sample_origin @ u_Path u), ln_Loopback = (\<lambda>h. h = ''127.0.0.1''), ln_sha256 = id, ln_ToLower = id,
      ln_Gunzip = (\<lambda>_. None), ln_Document = (\<lambda>b. Some (Some (JStr b))), ln_Claims = (\<lambda>_. None), ln_Marshal = (@)\<rparr>"

definition sample_oauth_config :: oauth_config where
  "sample_oauth_config = \<lparr>oc_CallbackOrigin = sample_origin, oc_CallbackPath = ''/cb''\<rparr>"

lemma sample_callback: "CallbackURL sample_login_net sample_oauth_config = Inr (sample_origin @ ''/cb'')"
  by code_simp

theorem callback_read_back_witness:
  "(\<exists>u q. AuthorizationURL sample_login_net (sample_origin @ ''/cb'') ''st'' ''ch'' = Inr u \<and> u = AuthorizationEndpoint @ ''?'' @ q \<and>
      ParseQuery q = Some [(''code_challenge'', ''ch''), (''code_challenge_method'', ''S256''), (''prompt'', ''select_account''),
          (''redirect_uri'', sample_origin @ ''/cb''), (''state'', ''st'')]) \<and>
   ParseCallbackQuery (Encode [(''code'', ''a b''), (''state'', ''st'')]) = Inr (''st'', ''a b'')"
proof
  have "\<not> isl (AuthorizationURL sample_login_net (sample_origin @ ''/cb'') ''st'' ''ch'')" by code_simp
  then have "\<exists>u. AuthorizationURL sample_login_net (sample_origin @ ''/cb'') ''st'' ''ch'' = Inr u" by (metis isl_def sum.exhaust)
  then obtain u where u: "AuthorizationURL sample_login_net (sample_origin @ ''/cb'') ''st'' ''ch'' = Inr u" by blast
  with callback_read_back [THEN conjunct1, of sample_login_net "sample_origin @ ''/cb''" "''st''" "''ch''" u]
  obtain parsed q where p: "ln_ParseURL sample_login_net (sample_origin @ ''/cb'') = Some parsed" "u = AuthorizationEndpoint @ ''?'' @ q"
    "ParseQuery q = Some [(''code_challenge'', ''ch''), (''code_challenge_method'', ''S256''), (''prompt'', ''select_account''),
       (''redirect_uri'', ln_URLString sample_login_net parsed), (''state'', ''st'')]" by (elim impE exE conjE) simp_all
  have "ln_URLString sample_login_net parsed = sample_origin @ ''/cb''" using p(1) by (auto simp: sample_login_net_def)
  with u p(2,3) show "\<exists>u q. AuthorizationURL sample_login_net (sample_origin @ ''/cb'') ''st'' ''ch'' = Inr u \<and> u = AuthorizationEndpoint @ ''?'' @ q \<and>
      ParseQuery q = Some [(''code_challenge'', ''ch''), (''code_challenge_method'', ''S256''), (''prompt'', ''select_account''),
          (''redirect_uri'', sample_origin @ ''/cb''), (''state'', ''st'')]" by (intro exI conjI) simp_all
  have "length (Encode [(''code'', ''a b''), (''state'', ''st'')]) \<le> 8192" by code_simp
  then show "ParseCallbackQuery (Encode [(''code'', ''a b''), (''state'', ''st'')]) = Inr (''st'', ''a b'')"
    using callback_read_back [THEN conjunct2, THEN conjunct1, of "''st''" "''a b''"] by simp
qed

end
