(* ===== verification/Devin_Login.thy ===== *)
theory Devin_Login
  imports Lifecycle_Types Devin_OAuth
begin

text \<open>
  The account lifecycle of Devin (\<open>oauth/devin/provider_lifecycle.go\<close>) and its credential manager
  (\<open>oauth/devin/provider_credentials.go\<close>), over the session repository, the account repository and
  the token exchange, which is an operation of the outside world.

  A caller whose context ends while it waits for the flight of a completion gets the error of its
  context and the flight goes on; the model is the flight. Cancellations inside are driver faults and
  errors of the exchange.

  Shown: in any sequence of lifecycle operations the code of a login is exchanged at most once; a login
  that returns an account has consumed its session, exchanged the code with the stored verifier and
  completed the session, and one that fails stores no account; credentials that have expired are not
  handed out.
\<close>

section \<open>The lifecycle\<close>

abbreviation ErrNotFound :: go_error where "ErrNotFound \<equiv> Wrapf ''Devin authorization not found'' [ErrNoRows]"

record 'w devin_login =
  vl_net :: login_net
  vl_config :: oauth_config
  vl_repo :: oauth_repository
  vl_accounts :: account_repository
  vl_exchange :: "string \<Rightarrow> string \<Rightarrow> ('w, go_error, string) op"

definition pendingSessionTTL :: duration where "pendingSessionTTL = 5 * minute"

definition sanitizedLookupError :: "go_error \<Rightarrow> go_error" where
  "sanitizedLookupError err =
     (if errors_is err ErrCanceled \<or> errors_is err ErrDeadlineExceeded then err
      else if errors_is err ErrNoRows then ErrNotFound
      else ErrNew ''Devin authorization was not found'')"

definition requireDevinManagementRef :: "authorization_ref \<Rightarrow> go_error option" where
  "requireDevinManagementRef ref =
     (if rf_Provider ref \<noteq> Devin then Some (Wrapf ''Devin authorization reference'' [ErrProviderMismatch])
      else if trimSpace (rf_SessionID ref) = [] then Some (ErrNew ''Devin authorization session id is required'')
      else None)"

definition requireDevinCallbackRef :: "authorization_ref \<Rightarrow> go_error option" where
  "requireDevinCallbackRef ref =
     (if rf_Provider ref \<noteq> Devin then Some (Wrapf ''Devin authorization reference'' [ErrProviderMismatch])
      else if trimSpace (rf_State ref) = [] then Some (ErrNew ''Devin authorization state is required'')
      else None)"

definition devinSessionProjection :: "oauth_session \<Rightarrow> go_error + authorization_session" where
  "devinSessionProjection v =
     (if os_Provider v \<noteq> Devin \<or> os_FlowType v \<noteq> OAuthFlowCallbackPKCE
      then Inl (Wrapf ''Devin authorization session'' [ErrProviderMismatch])
      else if os_Status v \<notin> {''pending'', ''consumed'', ''completed'', ''failed'', ''expired'', ''cancelled''}
      then Inl (ErrNew ''Devin authorization has an invalid status'')
      else Inr \<lparr>as_Authorization = \<lparr>au_Ref = \<lparr>rf_Provider = Devin, rf_State = [], rf_SessionID = os_SessionID v\<rparr>, au_SessionID = os_SessionID v,
                  au_UserCode = [], au_VerificationURL = [], au_VerificationURLComplete = [], au_ExpiresAt = os_ExpiresAt v, au_PollInterval = 0\<rparr>,
                as_Status = os_Status v, as_AccountID = os_AccountID v, as_SanitizedMessage = os_SanitizedError v\<rparr>)"

definition empty_session :: oauth_session where
  "empty_session = \<lparr>os_Provider = [], os_FlowType = [], os_SessionID = [], os_State = [], os_StateHash = [], os_DeviceCode = [],
     os_UserCode = [], os_VerificationURI = [], os_VerificationURIComplete = [], os_TokenEndpoint = [], os_Pending = None,
     os_PollInterval = 0, os_ExpiresAt = zero_time, os_Status = [], os_SanitizedError = [], os_AccountID = [], os_Authorization = None,
     os_CreatedAt = zero_time, os_UpdatedAt = zero_time\<rparr>"

definition login_Start :: "'w devin_login \<Rightarrow> ('w login, go_error, authorization) op" where
  "login_Start l =
     andThen draw (\<lambda>rnd1. andThen draw (\<lambda>rnd2.
     andThen (lift_result (BuildAuthorization (vl_net l) (vl_config l) rnd1 rnd2)) (\<lambda>(verificationURL, state, verifier).
     andThen (lift_result (CallbackURL (vl_net l) (vl_config l))) (\<lambda>redirectURI.
     andThen draw (\<lambda>rnd3. case rnd3 of
       Inl e \<Rightarrow> raise (ErrNew ''Devin authorization could not be started'')
     | Inr raw \<Rightarrow>
         let sessionID = EncodeToString raw in
         andThen time_Now (\<lambda>now.
         let expiresAt = now + pendingSessionTTL;
             v = empty_session\<lparr>os_Provider := Devin, os_FlowType := OAuthFlowCallbackPKCE, os_State := state, os_SessionID := sessionID,
                   os_Pending := Some \<lparr>op_Verifier = verifier, op_RedirectURI = redirectURI, op_ExpiresAt = expiresAt\<rparr>, os_ExpiresAt := expiresAt\<rparr> in
         andThen time_Now (\<lambda>created. andThen draw (\<lambda>sidRnd.
         attempt (sealing (oauth_Create (vl_repo l) v created sidRnd)) (\<lambda>r. case r of
           Inl e \<Rightarrow> raise (ErrNew ''Devin authorization could not be started'')
         | Inr _ \<Rightarrow> ret \<lparr>au_Ref = \<lparr>rf_Provider = Devin, rf_State = [], rf_SessionID = sessionID\<rparr>, au_SessionID = sessionID, au_UserCode = [],
               au_VerificationURL = verificationURL, au_VerificationURLComplete = verificationURL, au_ExpiresAt = expiresAt, au_PollInterval = 0\<rparr>)))))))))"

definition resolveSessionBySessionID :: "'w devin_login \<Rightarrow> string \<Rightarrow> time \<Rightarrow> ('w login, go_error, oauth_session) op" where
  "resolveSessionBySessionID l sessionID now =
     andThen (in_db (oauth_GetBySessionID (vl_repo l) Devin OAuthFlowCallbackPKCE sessionID)) (\<lambda>v.
       if os_Status v = ''pending'' \<and> \<not> time_before now (os_ExpiresAt v) then
         attempt (sealing (\<lambda>n. oauth_ExpireBySessionID (vl_repo l) Devin OAuthFlowCallbackPKCE sessionID ''Devin authorization expired.'' n now)) (\<lambda>r.
           case r of
             Inl e \<Rightarrow> if errors_is e ErrNoRows then in_db (oauth_GetBySessionID (vl_repo l) Devin OAuthFlowCallbackPKCE sessionID) else raise e
           | Inr _ \<Rightarrow> in_db (oauth_GetBySessionID (vl_repo l) Devin OAuthFlowCallbackPKCE sessionID))
       else ret v)"

definition sessionWithExpiry :: "'w devin_login \<Rightarrow> string \<Rightarrow> time \<Rightarrow> ('w login, go_error, oauth_session) op" where
  "sessionWithExpiry l state now =
     andThen (in_db (oauth_Get (vl_repo l) Devin OAuthFlowCallbackPKCE state)) (\<lambda>v.
       if os_Status v \<noteq> ''pending'' \<or> time_before now (os_ExpiresAt v) then ret v
       else attempt (sealing (\<lambda>n. oauth_Expire (vl_repo l) Devin OAuthFlowCallbackPKCE state ''Devin authorization expired.'' n now)) (\<lambda>r.
         case r of
           Inl e \<Rightarrow> if errors_is e ErrNoRows then in_db (oauth_Get (vl_repo l) Devin OAuthFlowCallbackPKCE state) else raise e
         | Inr _ \<Rightarrow> in_db (oauth_Get (vl_repo l) Devin OAuthFlowCallbackPKCE state)))"

definition login_Status :: "'w devin_login \<Rightarrow> authorization_ref \<Rightarrow> ('w login, go_error, authorization_session) op" where
  "login_Status l ref =
     guard_error (requireDevinManagementRef ref)
     (andThen time_Now (\<lambda>now.
      attempt (resolveSessionBySessionID l (rf_SessionID ref) now) (\<lambda>r. case r of
        Inl e \<Rightarrow> raise (sanitizedLookupError e)
      | Inr v \<Rightarrow> lift_result (devinSessionProjection v))))"

definition failCorruptPending :: "'w devin_login \<Rightarrow> string \<Rightarrow> time \<Rightarrow> ('w login, go_error, unit) op" where
  "failCorruptPending l state now =
     attempt (in_db (oauth_Get (vl_repo l) Devin OAuthFlowCallbackPKCE state)) (\<lambda>r. case r of
       Inl e \<Rightarrow> ret ()
     | Inr v \<Rightarrow>
         if os_Status v = ''pending'' then
           attempt (sealing (\<lambda>n. oauth_Cancel (vl_repo l) Devin OAuthFlowCallbackPKCE state ''Devin authorization could not be completed.'' n now))
             (\<lambda>_. ret ())
         else ret ())"

definition failDetached :: "'w devin_login \<Rightarrow> string \<Rightarrow> string \<Rightarrow> time \<Rightarrow> ('w login, go_error, unit) op" where
  "failDetached l state message now =
     attempt (sealing (\<lambda>n. oauth_Fail (vl_repo l) Devin OAuthFlowCallbackPKCE state message n now)) (\<lambda>_. ret ())"

definition devin_account :: "'w devin_login \<Rightarrow> string \<Rightarrow> time \<Rightarrow> account" where
  "devin_account l token now =
     (let expiresAt = ExpiresAt (vl_net l) token now; usable = Usable expiresAt now in
      \<lparr>acc_Provider = Devin, acc_ID = [], acc_Label = ''Devin'', acc_Enabled = usable,
       acc_Status = (if usable then ''ready'' else ''relogin_required''), acc_Credentials = Credentials (vl_net l) token now,
       acc_ExpiresAt = Some expiresAt, acc_LastRefreshAt = None,
       acc_LastError = (if usable then [] else ''authentication expired; reconnect required''), acc_CreatedAt = zero_time, acc_UpdatedAt = zero_time\<rparr>)"

text \<open>The part of \<open>complete\<close> behind \<open>Consume\<close>, and its refusal.\<close>

definition exchange_and_store :: "'w devin_login \<Rightarrow> string \<Rightarrow> string \<Rightarrow> time \<Rightarrow> oauth_pending \<Rightarrow> ('w login, go_error, account_result) op" where
  "exchange_and_store l state code now pending =
     attempt (outside (vl_exchange l code (op_Verifier pending))) (\<lambda>r. case r of
       Inl err \<Rightarrow> andThen (failDetached l state ''Devin authorization failed.'' now) (\<lambda>_. raise err)
     | Inr token \<Rightarrow>
         andThen draw (\<lambda>n1. andThen draw (\<lambda>i. andThen draw (\<lambda>n2. andThen draw (\<lambda>n3.
         attempt (in_db (devin_Complete (vl_accounts l) (vl_repo l) state (devin_account l token now) now n1 i n2 n3)) (\<lambda>c. case c of
           Inl e \<Rightarrow> raise (ErrNew ''Devin account could not be saved'')
         | Inr created \<Rightarrow> ret \<lparr>re_Provider = Devin, re_AccountID = acc_ID created\<rparr>))))))"

definition consume_refused :: "'w devin_login \<Rightarrow> string \<Rightarrow> ('w login, go_error, account_result) op" where
  "consume_refused l state =
     andThen time_Now (\<lambda>now.
     attempt (sessionWithExpiry l state now) (\<lambda>r.
       if (case r of Inr v \<Rightarrow> os_Status v = ''expired'' | Inl _ \<Rightarrow> False) then raise (ErrNew ''Devin authorization has expired'')
       else andThen time_Now (\<lambda>now'. andThen (failCorruptPending l state now') (\<lambda>_.
              raise (ErrNew ''Devin authorization is invalid or has already been used'')))))"

definition login_complete :: "'w devin_login \<Rightarrow> string \<Rightarrow> string \<Rightarrow> ('w login, go_error, account_result) op" where
  "login_complete l state code =
     andThen time_Now (\<lambda>now.
     attempt (sealing (\<lambda>n. oauth_Consume (vl_repo l) Devin OAuthFlowCallbackPKCE state n now)) (\<lambda>r. case r of
       Inl e \<Rightarrow> consume_refused l state
     | Inr pending \<Rightarrow> exchange_and_store l state code now pending))"

definition login_Complete :: "'w devin_login \<Rightarrow> authorization_ref \<Rightarrow> string \<Rightarrow> ('w login, go_error, account_result) op" where
  "login_Complete l ref code =
     guard_error (requireDevinCallbackRef ref)
     (andThen time_Now (\<lambda>now.
      attempt (sessionWithExpiry l (rf_State ref) now) (\<lambda>r. case r of
        Inl e \<Rightarrow> raise (sanitizedLookupError e)
      | Inr v \<Rightarrow>
          reject (rf_SessionID ref \<noteq> [] \<and> os_SessionID v \<noteq> rf_SessionID ref) ErrNotFound
          (reject (os_Status v = ''expired'') (ErrNew ''Devin authorization has expired'')
          (reject (trimSpace code = []) (ErrNew ''Devin authorization code is required'')
          (login_complete l (rf_State ref) code))))))"

definition login_Cancel :: "'w devin_login \<Rightarrow> authorization_ref \<Rightarrow> ('w login, go_error, unit) op" where
  "login_Cancel l ref =
     guard_error (requireDevinManagementRef ref)
     (andThen time_Now (\<lambda>now.
      attempt (resolveSessionBySessionID l (rf_SessionID ref) now) (\<lambda>r. case r of
        Inl e \<Rightarrow> raise (sanitizedLookupError e)
      | Inr v \<Rightarrow>
          reject (os_Status v = ''expired'') ErrOAuthConflict
          (attempt (sealing (\<lambda>n. oauth_CancelBySessionID (vl_repo l) Devin OAuthFlowCallbackPKCE (rf_SessionID ref)
               ''Devin authorization was cancelled.'' n now)) (\<lambda>c. case c of
             Inr _ \<Rightarrow> ret ()
           | Inl e \<Rightarrow>
               if errors_is e ErrOAuthTerminalConflict then raise ErrOAuthConflict
               else if \<not> errors_is e ErrNoRows then raise (sanitizedLookupError e)
               else raise ErrNotFound)))))"

fun resume_each :: "'w devin_login \<Rightarrow> time \<Rightarrow> oauth_session list \<Rightarrow> ('w login, go_error, authorization_session list) op" where
  "resume_each l now [] = ret []"
| "resume_each l now (v # vs) =
     (if os_Status v = ''consumed'' then
        attempt (in_db (oauth_FailConsumedByHash Devin OAuthFlowCallbackPKCE (os_StateHash v) ''Devin authorization was interrupted.'' now)) (\<lambda>r.
          if (case r of Inl e \<Rightarrow> \<not> errors_is e ErrNoRows | Inr _ \<Rightarrow> False) then raise (ErrNew ''Devin authorization recovery failed'')
          else resume_each l now vs)
      else andThen (lift_result (devinSessionProjection v)) (\<lambda>p. andThen (resume_each l now vs) (\<lambda>ps. ret (p # ps))))"

text \<open>Each expired row is encrypted with a nonce of its own.\<close>

definition nonces_of :: "go_error + string \<Rightarrow> nat \<Rightarrow> go_error + string" where
  "nonces_of n i = (case n of Inl e \<Rightarrow> Inl e | Inr bytes \<Rightarrow> Inr (bytes @ replicate i (CHR 0x00)))"

definition login_Resume :: "'w devin_login \<Rightarrow> (nat \<Rightarrow> go_error + string) \<Rightarrow> ('w login, go_error, authorization_session list) op" where
  "login_Resume l nonces =
     andThen time_Now (\<lambda>now.
     attempt (in_db (oauth_ExpirePendingBefore (vl_repo l) Devin OAuthFlowCallbackPKCE now nonces)) (\<lambda>r. case r of
       Inl e \<Rightarrow> raise (ErrNew ''Devin authorizations could not be resumed'')
     | Inr _ \<Rightarrow>
         attempt (in_db (oauth_ListResumable (vl_repo l) Devin OAuthFlowCallbackPKCE now)) (\<lambda>s. case s of
           Inl e \<Rightarrow> raise (ErrNew ''Devin authorizations could not be resumed'')
         | Inr vs \<Rightarrow> resume_each l now vs)))"



section \<open>Every operation moves sessions along the machine\<close>

lemma oauth_reads_evolve:
  "keeps evolves (oauth_Get r kind flow state)" "keeps evolves (oauth_GetBySessionID r kind flow sid)"
  "keeps evolves (oauth_ListResumable r kind flow now)"
  unfolding oauth_Get_def oauth_GetBySessionID_def oauth_ListResumable_def list_sessions_def
  by (intro guard_error_keeps keeps_intros select_session_keeps keeps_lift_result evolves_intros keeps_db_query; simp)+

lemma login_evolves_intros:
  "reflp (on_db evolves)" "transp (on_db evolves)"
  by (intro keeps_intros evolves_intros)+

lemmas session_evolves = oauth_reads_evolve oauth_Create_evolves oauth_Consume_evolves oauth_Fail_evolves oauth_withdraw_evolves
  oauth_FailConsumedByHash_evolves oauth_ExpirePendingBefore_evolves devin_Complete_evolves

lemmas lifecycle_intros = login_evolves_intros session_evolves evolves_intros guard_error_keeps keeps_lift_result keeps_intros

lemma sessionWithExpiry_evolves: "keeps (on_db evolves) (sessionWithExpiry l state now)"
  unfolding sessionWithExpiry_def by (intro lifecycle_intros)

lemma resolveSession_evolves: "keeps (on_db evolves) (resolveSessionBySessionID l sid now)"
  unfolding resolveSessionBySessionID_def by (intro lifecycle_intros)

lemma failures_evolve:
  "keeps (on_db evolves) (failCorruptPending l state now)" "keeps (on_db evolves) (failDetached l state m now)"
  unfolding failCorruptPending_def failDetached_def by (intro lifecycle_intros)+

lemma consume_refused_evolves: "keeps (on_db evolves) (consume_refused l state)"
  unfolding consume_refused_def by (intro lifecycle_intros sessionWithExpiry_evolves failures_evolve)

lemma exchange_and_store_evolves: "keeps (on_db evolves) (exchange_and_store l state code now pending)"
  unfolding exchange_and_store_def by (intro lifecycle_intros failures_evolve)

lemma login_complete_evolves: "keeps (on_db evolves) (login_complete l state code)"
  unfolding login_complete_def by (intro lifecycle_intros consume_refused_evolves exchange_and_store_evolves)

lemma resume_each_evolves: "keeps (on_db evolves) (resume_each l now vs)"
proof (induction vs)
  case (Cons v vs)
  then show ?case by (simp only: resume_each.simps) (intro lifecycle_intros)
qed (simp add: lifecycle_intros)

lemma lifecycle_evolves:
  "keeps (on_db evolves) (login_Start l)" "keeps (on_db evolves) (login_Status l ref)" "keeps (on_db evolves) (login_Complete l ref code)"
  "keeps (on_db evolves) (login_Cancel l ref)" "keeps (on_db evolves) (login_Resume l nonces)"
  unfolding login_Start_def login_Status_def login_Complete_def login_Cancel_def login_Resume_def Let_def
  by (intro lifecycle_intros sessionWithExpiry_evolves resolveSession_evolves login_complete_evolves resume_each_evolves)+


section \<open>A code is exchanged once\<close>

text \<open>The exchange with a log of its calls.\<close>

definition logged_exchange :: "(string \<Rightarrow> string \<Rightarrow> ('w, go_error, string) op) \<Rightarrow> string \<Rightarrow> string \<Rightarrow> ('w \<times> (string \<times> string) list, go_error, string) op" where
  "logged_exchange ex code verifier = (\<lambda>(w, log). case ex code verifier w of (r, w') \<Rightarrow> (r, (w', log @ [(code, verifier)])))"

definition log_of :: "('w \<times> (string \<times> string) list) login \<Rightarrow> (string \<times> string) list" where
  "log_of e = snd (li_world (env_world e))"

abbreviation same_log :: "('w \<times> (string \<times> string) list) login \<Rightarrow> ('w \<times> (string \<times> string) list) login \<Rightarrow> bool" where
  "same_log \<equiv> same log_of"

text \<open>The session of a state is stored and no longer pending.\<close>

definition spent :: "'w devin_login \<Rightarrow> string \<Rightarrow> 'w login \<Rightarrow> bool" where
  "spent l state e \<longleftrightarrow>
     (\<exists>row. find (by_state (vl_repo l) Devin OAuthFlowCallbackPKCE state) (db_oauth (env_db e)) = Some row \<and> or_status row \<noteq> ''pending'')"

lemma spent_kept: "on_db evolves e e' \<Longrightarrow> spent l state e \<Longrightarrow> spent l state e'"
  unfolding spent_def on_db_def using evolves_find left_pending by metis

lemma consume_spends:
  assumes "sealing (\<lambda>n. oauth_Consume (vl_repo l) Devin OAuthFlowCallbackPKCE state n now) e = (Inr p, e')"
  shows "\<not> spent l state e \<and> spent l state e'"
proof -
  obtain n where "oauth_Consume (vl_repo l) Devin OAuthFlowCallbackPKCE state n now (env_db e) = (Inr p, env_db e')"
    using assms by (auto simp: sealing_def andThen_def draw_def in_db_def Let_def split: prod.splits sum.splits)
  then show ?thesis by (rule oauth_Consume_returns) (auto simp: spent_def)
qed

lemma log_intros [keeps_intros]:
  "keeps same_log (in_db m)" "keeps same_log draw" "keeps same_log time_Now" "keeps same_log (sealing f)"
  by (auto simp: keeps_def same_def log_of_def in_db_def draw_def time_Now_def sealing_def andThen_def Let_def split: prod.splits sum.splits)

lemmas quiet_intros = same_reflp same_transp guard_error_keeps keeps_lift_result log_intros keeps_intros

lemma sessionWithExpiry_quiet: "keeps same_log (sessionWithExpiry l state now)"
  unfolding sessionWithExpiry_def by (intro quiet_intros)

lemma failures_quiet: "keeps same_log (failCorruptPending l state now)" "keeps same_log (failDetached l state m now)"
  unfolding failCorruptPending_def failDetached_def by (intro quiet_intros)+

lemma consume_refused_quiet: "keeps same_log (consume_refused l state)"
  unfolding consume_refused_def by (intro quiet_intros sessionWithExpiry_quiet failures_quiet)

lemma resume_each_quiet: "keeps same_log (resume_each l now vs)"
proof (induction vs)
  case (Cons v vs)
  then show ?case by (simp only: resume_each.simps) (intro quiet_intros)
qed (simp add: quiet_intros)

lemma lifecycle_quiet:
  "keeps same_log (login_Start l)" "keeps same_log (login_Status l ref)" "keeps same_log (login_Cancel l ref)" "keeps same_log (login_Resume l nonces)"
  unfolding login_Start_def login_Status_def login_Cancel_def login_Resume_def resolveSessionBySessionID_def Let_def
  by (intro quiet_intros resume_each_quiet)+

lemma exchange_logs:
  assumes "vl_exchange l = logged_exchange ex" "exchange_and_store l state code now p e = (r, e')"
  shows "log_of e' = log_of e @ [(code, op_Verifier p)]"
proof -
  obtain x e1 where x: "outside (vl_exchange l code (op_Verifier p)) e = (x, e1)" by fastforce
  then have log: "log_of e1 = log_of e @ [(code, op_Verifier p)]"
    by (auto simp: assms(1) outside_def logged_exchange_def log_of_def split: prod.splits)
  obtain m :: "(_ login, go_error, account_result) op" where m: "keeps same_log m" "m e1 = (r, e')"
  proof (cases x)
    case (Inl err)
    have "keeps same_log (andThen (failDetached l state ''Devin authorization failed.'' now) (\<lambda>_. raise err) :: (_ login, go_error, account_result) op)"
      by (intro quiet_intros failures_quiet)
    moreover have "andThen (failDetached l state ''Devin authorization failed.'' now) (\<lambda>_. raise err) e1 = (r, e')"
      using assms(2) x Inl by (simp add: exchange_and_store_def attempt_def)
    ultimately show ?thesis using that by blast
  next
    case (Inr token)
    let ?rest = "andThen draw (\<lambda>n1. andThen draw (\<lambda>i. andThen draw (\<lambda>n2. andThen draw (\<lambda>n3.
         attempt (in_db (devin_Complete (vl_accounts l) (vl_repo l) state (devin_account l token now) now n1 i n2 n3)) (\<lambda>c. case c of
           Inl e \<Rightarrow> raise (ErrNew ''Devin account could not be saved'')
         | Inr created \<Rightarrow> ret \<lparr>re_Provider = Devin, re_AccountID = acc_ID created\<rparr>)))))"
    have "keeps same_log ?rest" by (intro quiet_intros)
    moreover have "?rest e1 = (r, e')" using assms(2) x Inr by (simp add: exchange_and_store_def attempt_def)
    ultimately show ?thesis using that by blast
  qed
  show ?thesis using keepsD' [OF m] log by (simp add: same_def)
qed

lemma complete_exchanges:
  assumes "vl_exchange l = logged_exchange ex" "login_Complete l ref code e = (r, e')"
  shows "log_of e' = log_of e \<or> (\<exists>v. log_of e' = log_of e @ [(code, v)] \<and> \<not> spent l (rf_State ref) e \<and> spent l (rf_State ref) e')"
proof (cases "requireDevinCallbackRef ref")
  case None
  obtain now e1 where n: "time_Now e = (Inr now, e1)" by (simp add: time_Now_def)
  obtain x e2 where x: "sessionWithExpiry l (rf_State ref) now e1 = (x, e2)" by fastforce
  have t: "time_Now e = (Inr now, e1) \<Longrightarrow> on_db evolves e e1 \<and> log_of e1 = log_of e"
    using keepsD' [OF log_intros(3), of e "Inr now" e1] keepsD' [OF keeps_time_Now [OF evolves_intros(2)], of e "Inr now" e1] by (simp add: same_def)
  have e2: "on_db evolves e e2" "log_of e2 = log_of e"
    using t [OF n] keepsD' [OF sessionWithExpiry_evolves x] keepsD' [OF sessionWithExpiry_quiet x] login_evolves_intros(2)
    by (auto simp: same_def dest: transpD)
  consider "log_of e' = log_of e2" | "login_complete l (rf_State ref) code e2 = (r, e')"
    using assms(2) None n x
    by (auto simp: login_Complete_def guard_error_def andThen_def attempt_def reject_def raise_def split: sum.splits if_splits)
  then show ?thesis
  proof cases
    case 2
    obtain now' e3 where n': "time_Now e2 = (Inr now', e3)" by (simp add: time_Now_def)
    obtain c e4 where c: "sealing (\<lambda>n. oauth_Consume (vl_repo l) Devin OAuthFlowCallbackPKCE (rf_State ref) n now') e3 = (c, e4)" by fastforce
    have e3: "on_db evolves e2 e3" "log_of e3 = log_of e2"
      using keepsD' [OF log_intros(3) n'] keepsD' [OF keeps_time_Now [OF evolves_intros(2)] n'] by (simp_all add: same_def)
    have e4: "log_of e4 = log_of e3" using keepsD' [OF log_intros(4) c] by (simp add: same_def)
    show ?thesis
    proof (cases c)
      case (Inl err)
      then have "consume_refused l (rf_State ref) e4 = (r, e')"
        using 2 n' c by (simp add: login_complete_def andThen_def attempt_def)
      from keepsD' [OF consume_refused_quiet this] show ?thesis using e4 e3 e2 by (simp add: same_def)
    next
      case (Inr p)
      then have run: "exchange_and_store l (rf_State ref) code now' p e4 = (r, e')"
        using 2 n' c by (simp add: login_complete_def andThen_def attempt_def)
      have "\<not> spent l (rf_State ref) e3" "spent l (rf_State ref) e4" using consume_spends c Inr by blast+
      moreover have "\<not> spent l (rf_State ref) e"
        using \<open>\<not> spent l (rf_State ref) e3\<close> spent_kept e2(1) e3(1) by blast
      moreover have "spent l (rf_State ref) e'"
        using \<open>spent l (rf_State ref) e4\<close> spent_kept keepsD' [OF exchange_and_store_evolves run] by blast
      ultimately show ?thesis using exchange_logs [OF assms(1) run] e4 e3 e2 by auto
    qed
  qed (use e2 in simp)
qed (use assms(2) in \<open>simp add: login_Complete_def guard_error_def raise_def\<close>)

datatype login_event =
    LStart
  | LStatus authorization_ref
  | LComplete authorization_ref string
  | LCancel authorization_ref
  | LResume "nat \<Rightarrow> go_error + string"

fun login_step :: "'w devin_login \<Rightarrow> login_event \<Rightarrow> 'w login \<Rightarrow> 'w login" where
  "login_step l LStart e = snd (login_Start l e)"
| "login_step l (LStatus ref) e = snd (login_Status l ref e)"
| "login_step l (LComplete ref code) e = snd (login_Complete l ref code e)"
| "login_step l (LCancel ref) e = snd (login_Cancel l ref e)"
| "login_step l (LResume nonces) e = snd (login_Resume l nonces e)"

text \<open>How many codes a run exchanges in completions of a state.\<close>

fun concerns :: "string \<Rightarrow> login_event \<Rightarrow> bool" where
  "concerns state (LComplete ref code) = (rf_State ref = state)"
| "concerns state ev = False"

fun exchanges_for :: "('w \<times> (string \<times> string) list) devin_login \<Rightarrow> string \<Rightarrow> login_event list \<Rightarrow> ('w \<times> (string \<times> string) list) login \<Rightarrow> nat" where
  "exchanges_for l state [] e = 0"
| "exchanges_for l state (ev # evs) e =
     (let e' = login_step l ev e in
      (if concerns state ev then length (log_of e') - length (log_of e) else 0) + exchanges_for l state evs e')"

lemma login_step_evolves: "on_db evolves e (login_step l ev e)"
  by (cases ev) (simp_all add: lifecycle_evolves keepsD)

lemma spent_no_exchange: "vl_exchange l = logged_exchange ex \<Longrightarrow> spent l state e \<Longrightarrow> exchanges_for l state evs e = 0"
proof (induction evs arbitrary: e)
  case (Cons ev evs)
  have "spent l state (login_step l ev e)" using spent_kept [OF login_step_evolves Cons.prems(2)] .
  moreover have "length (log_of (login_step l ev e)) - length (log_of e) = 0" if "concerns state ev"
  proof -
    obtain ref code where ev: "ev = LComplete ref code" "rf_State ref = state" using \<open>concerns state ev\<close> by (cases ev) auto
    obtain r e' where "login_Complete l ref code e = (r, e')" by fastforce
    from complete_exchanges [OF Cons.prems(1) this] Cons.prems(2) ev this show ?thesis by auto
  qed
  ultimately show ?case using Cons by (simp add: Let_def)
qed simp

text \<open>C6: A login's code is exchanged at most once. In any sequence of starts, status queries, completions,
  cancellations and resumptions, whatever the database driver, the clock, the random source and the token server do
  and however often a callback is repeated, the completions of a state call the token exchange at most once.\<close>

theorem code_exchanged_once:
  assumes "vl_exchange l = logged_exchange ex"
  shows "exchanges_for l state evs e \<le> 1"
proof (induction evs arbitrary: e)
  case (Cons ev evs)
  show ?case
  proof (cases "concerns state ev")
    case True
    then obtain ref code where ev: "ev = LComplete ref code" "rf_State ref = state" by (cases ev) auto
    obtain r e' where run: "login_Complete l ref code e = (r, e')" by fastforce
    from complete_exchanges [OF assms run] show ?thesis
    proof
      assume "log_of e' = log_of e"
      then show ?thesis using Cons run ev by (simp add: Let_def)
    next
      assume "\<exists>v. log_of e' = log_of e @ [(code, v)] \<and> \<not> spent l (rf_State ref) e \<and> spent l (rf_State ref) e'"
      then show ?thesis using spent_no_exchange [OF assms, of state e' evs] run ev by (auto simp: Let_def)
    qed
  qed (use Cons in \<open>simp add: Let_def\<close>)
qed simp


section \<open>What a completed login did\<close>

abbreviation same_accounts :: "'w login \<Rightarrow> 'w login \<Rightarrow> bool" where
  "same_accounts \<equiv> on_db (same db_accounts)"

lemma session_accounts:
  "keeps (same db_accounts) (oauth_Get r kind flow state)" "keeps (same db_accounts) (oauth_Consume r kind flow state nonce now)"
  "keeps (same db_accounts) (oauth_Cancel r kind flow state m nonce now)" "keeps (same db_accounts) (oauth_Expire r kind flow state m nonce now)"
  unfolding oauth_Get_def oauth_Consume_def oauth_Cancel_def oauth_Expire_def oauth_terminal_def oauth_mutate_def mutate_where_def Let_def
  by (intro guard_error_keeps keeps_intros select_session_keeps keeps_lift_result; simp add: same_def update_sessions_def)+

lemmas account_frames = session_accounts oauth_Fail_accounts guard_error_keeps keeps_lift_result keeps_intros

lemma before_exchange_accounts:
  "keeps same_accounts (sessionWithExpiry l state now)" "keeps same_accounts (failCorruptPending l state now)"
  "keeps same_accounts (failDetached l state m now)"
  unfolding sessionWithExpiry_def failCorruptPending_def failDetached_def by (intro account_frames)+

lemma consume_refused_accounts: "keeps same_accounts (consume_refused l state)"
  unfolding consume_refused_def by (intro account_frames before_exchange_accounts)

text \<open>Operations that neither ask the outside world nor read the clock.\<close>

definition offline :: "'w login \<Rightarrow> 'w login \<Rightarrow> bool" where
  "offline e e' \<longleftrightarrow> same_world e e' \<and> env_clock e' = env_clock e \<and> env_tick e' = env_tick e"

lemma offline_intros:
  "reflp offline" "transp offline" "keeps offline (in_db m)" "keeps offline draw" "keeps offline (sealing f)"
  by (auto simp: keeps_def offline_def same_world_def in_db_def draw_def sealing_def andThen_def Let_def reflp_def transp_def
      split: prod.splits sum.splits)

lemma sessionWithExpiry_offline: "keeps offline (sessionWithExpiry l state now)"
  unfolding sessionWithExpiry_def by (intro offline_intros keeps_intros)

lemma devin_Complete_Inl: "devin_Complete ra ro state a now n1 i n2 n3 d = (Inl e, d') \<Longrightarrow> db_accounts d' = db_accounts d"
proof -
  assume run: "devin_Complete ra ro state a now n1 i n2 n3 d = (Inl e, d')"
  obtain x d1 where x: "devin_complete ra ro state a now n1 i n2 d = (x, d1)" by fastforce
  with run obtain err where err: "x = Inl err" by (cases x) (auto simp: devin_Complete_def monad_simps)
  then have "db_accounts d1 = db_accounts d" using tables_eqD(2) [OF devin_complete_fails] x by blast
  moreover obtain f where "oauth_Fail ro Devin OAuthFlowCallbackPKCE state ''oauth completion failed'' n3 now d1 = (f, d')"
    using run x err by (auto simp: devin_Complete_def monad_simps split: prod.splits sum.splits)
  ultimately show ?thesis using keepsD' [OF oauth_Fail_accounts] by (fastforce simp: same_def)
qed

lemma devin_Complete_Inr: "devin_Complete ra ro state a now n1 i n2 n3 d = (Inr created, d') \<Longrightarrow> devin_complete ra ro state a now n1 i n2 d = (Inr created, d')"
  by (auto simp: devin_Complete_def monad_simps split: prod.splits sum.splits)

lemma exchange_outcome:
  assumes "exchange_and_store l state code now p e = (r, e')"
  shows "case r of
      Inl err \<Rightarrow> db_accounts (env_db e') = db_accounts (env_db e)
    | Inr result \<Rightarrow> re_Provider result = Devin \<and>
        (\<exists>token. vl_exchange l code (op_Verifier p) (li_world (env_world e)) = (Inr token, li_world (env_world e'))) \<and>
        (\<exists>row. find (by_state (vl_repo l) Devin OAuthFlowCallbackPKCE state) (db_oauth (env_db e')) = Some row \<and> or_status row = ''completed'') \<and>
        (\<exists>arow \<in> set (db_accounts (env_db e')). ar_id arow = re_AccountID result \<and> ar_provider arow = Devin)"
proof -
  obtain x w' where ex: "vl_exchange l code (op_Verifier p) (li_world (env_world e)) = (x, w')" by fastforce
  define e1 where "e1 = e\<lparr>env_world := (env_world e)\<lparr>li_world := w'\<rparr>\<rparr>"
  have o: "outside (vl_exchange l code (op_Verifier p)) e = (x, e1)" using ex by (simp add: outside_def e1_def)
  have db: "env_db e1 = env_db e" by (simp add: e1_def)
  show ?thesis
  proof (cases x)
    case (Inl err)
    obtain u e2 where f: "failDetached l state ''Devin authorization failed.'' now e1 = (u, e2)" by fastforce
    have "isl r \<and> e' = e2" using assms o Inl f by (auto simp: exchange_and_store_def attempt_def andThen_def raise_def split: sum.splits)
    then show ?thesis using keepsD' [OF before_exchange_accounts(3) f] db by (cases r) (simp_all add: on_db_def same_def)
  next
    case (Inr token)
    obtain n1 i n2 n3 e2 c d where run: "env_db e2 = env_db e1" "li_world (env_world e2) = w'"
      "devin_Complete (vl_accounts l) (vl_repo l) state (devin_account l token now) now n1 i n2 n3 (env_db e2) = (c, d)"
      "e' = e2\<lparr>env_db := d\<rparr>"
      "r = (case c of Inl e \<Rightarrow> Inl (ErrNew ''Devin account could not be saved'') | Inr created \<Rightarrow> Inr \<lparr>re_Provider = Devin, re_AccountID = acc_ID created\<rparr>)"
    proof -
      obtain n1 e3 where 1: "draw e1 = (Inr n1, e3)" "env_db e3 = env_db e1" "li_world (env_world e3) = li_world (env_world e1)"
        by (simp add: draw_def Let_def)
      obtain i e4 where 2: "draw e3 = (Inr i, e4)" "env_db e4 = env_db e3" "li_world (env_world e4) = li_world (env_world e3)"
        by (simp add: draw_def Let_def)
      obtain n2 e5 where 3: "draw e4 = (Inr n2, e5)" "env_db e5 = env_db e4" "li_world (env_world e5) = li_world (env_world e4)"
        by (simp add: draw_def Let_def)
      obtain n3 e6 where 4: "draw e5 = (Inr n3, e6)" "env_db e6 = env_db e5" "li_world (env_world e6) = li_world (env_world e5)"
        by (simp add: draw_def Let_def)
      obtain c d where cd: "devin_Complete (vl_accounts l) (vl_repo l) state (devin_account l token now) now n1 i n2 n3 (env_db e6) = (c, d)"
        by fastforce
      show ?thesis
        using assms o Inr 1 2 3 4 cd that [of e6 n1 i n2 n3 c d] e1_def
        by (simp add: exchange_and_store_def attempt_def andThen_def in_db_def raise_def ret_def split: sum.splits)
    qed
    show ?thesis
    proof (cases c)
      case Inl: (Inl err)
      then show ?thesis using run devin_Complete_Inl db by fastforce
    next
      case (Inr created)
      then have "devin_complete (vl_accounts l) (vl_repo l) state (devin_account l token now) now n1 i n2 (env_db e2) = (Inr created, d)"
        using run(3) devin_Complete_Inr by blast
      from devin_complete_returns [OF this] show ?thesis using run(2,4,5) Inr ex \<open>x = Inr token\<close> by auto
    qed
  qed
qed

lemma back_to_pending: "row_moves\<^sup>*\<^sup>* row row' \<Longrightarrow> or_status row' = ''pending'' \<Longrightarrow> row' = row"
proof (induction rule: rtranclp_induct)
  case (step row1 row2)
  then show ?case by (auto simp: row_moves_def elim!: moves_from)
qed simp

lemma sessionWithExpiry_found:
  assumes "sessionWithExpiry l state now e = (Inr v, e')"
  shows "\<exists>row. find (by_state (vl_repo l) Devin OAuthFlowCallbackPKCE state) (db_oauth (env_db e)) = Some row"
proof -
  obtain v0 d where "oauth_Get (vl_repo l) Devin OAuthFlowCallbackPKCE state (env_db e) = (Inr v0, d)"
    using assms by (auto simp: sessionWithExpiry_def in_db_def andThen_def split: prod.splits sum.splits)
  then show ?thesis using select_session_Inr(1) by (fastforce simp: oauth_Get_def returns_simps)
qed

text \<open>The session of a state as it is stored.\<close>

definition stored_session :: "'w devin_login \<Rightarrow> string \<Rightarrow> 'w login \<Rightarrow> oauth_session \<Rightarrow> bool" where
  "stored_session l state e v \<longleftrightarrow>
     (\<exists>row. find (by_state (vl_repo l) Devin OAuthFlowCallbackPKCE state) (db_oauth (env_db e)) = Some row \<and> oauth_scan (vl_repo l) row = Inr v)"

lemma consume_takes:
  assumes "sealing (\<lambda>n. oauth_Consume (vl_repo l) Devin OAuthFlowCallbackPKCE state n now) e = (Inr p, e')"
  shows "\<exists>v. stored_session l state e v \<and> os_Status v = ''pending'' \<and> now < os_ExpiresAt v \<and> os_Pending v = Some p"
proof -
  obtain n where "oauth_Consume (vl_repo l) Devin OAuthFlowCallbackPKCE state n now (env_db e) = (Inr p, env_db e')"
    using assms by (auto simp: sealing_def andThen_def draw_def in_db_def Let_def split: prod.splits sum.splits)
  then show ?thesis by (rule oauth_Consume_returns) (use oauth_scan_fields(2) in \<open>auto simp: stored_session_def\<close>)
qed

lemma stored_before:
  assumes "on_db evolves e e'" "stored_session l state e' v" "os_Status v = ''pending''"
    and "\<exists>row. find (by_state (vl_repo l) Devin OAuthFlowCallbackPKCE state) (db_oauth (env_db e)) = Some row"
  shows "stored_session l state e v"
proof -
  obtain row row' where r: "find (by_state (vl_repo l) Devin OAuthFlowCallbackPKCE state) (db_oauth (env_db e)) = Some row"
    "find (by_state (vl_repo l) Devin OAuthFlowCallbackPKCE state) (db_oauth (env_db e')) = Some row'" "oauth_scan (vl_repo l) row' = Inr v"
    using assms(2,4) by (auto simp: stored_session_def)
  have "row_moves\<^sup>*\<^sup>* row row'" using evolves_find [OF _ r(1)] assms(1) r(2) by (fastforce simp: on_db_def)
  then have "row' = row" using back_to_pending oauth_scan_fields(2) [OF r(3)] assms(3) by metis
  then show ?thesis using r by (auto simp: stored_session_def)
qed

lemma login_complete_cases:
  assumes "login_complete l state code e = (r, e')"
  obtains "db_accounts (env_db e') = db_accounts (env_db e)" "isl r"
  | v p e2 where "stored_session l state e v" "os_Status v = ''pending''" "env_clock e (env_tick e) < os_ExpiresAt v" "os_Pending v = Some p"
      "db_accounts (env_db e2) = db_accounts (env_db e)" "same_world e e2"
      "exchange_and_store l state code (env_clock e (env_tick e)) p e2 = (r, e')"
proof -
  define now where "now = env_clock e (env_tick e)"
  obtain e1 where n: "time_Now e = (Inr now, e1)" "env_db e1 = env_db e" "same_world e e1"
    by (simp add: time_Now_def now_def same_world_def)
  obtain c e2 where c: "sealing (\<lambda>n. oauth_Consume (vl_repo l) Devin OAuthFlowCallbackPKCE state n now) e1 = (c, e2)" by fastforce
  have a: "db_accounts (env_db e2) = db_accounts (env_db e)"
    using keepsD' [OF keeps_sealing [OF same_transp same_reflp session_accounts(2)] c] n(2) by (simp add: on_db_def same_def)
  have w: "same_world e e2"
    using keepsD' [OF offline_intros(5) c] n(3) by (simp add: offline_def same_world_def)
  show thesis
  proof (cases c)
    case (Inl err)
    then have run: "consume_refused l state e2 = (r, e')" using assms n c by (simp add: login_complete_def andThen_def attempt_def)
    have "isl r"
      using run by (auto simp: consume_refused_def andThen_def attempt_def raise_def split: prod.splits sum.splits if_splits)
    with that(1) show thesis using keepsD' [OF consume_refused_accounts run] a by (simp add: on_db_def same_def)
  next
    case (Inr p)
    then have run: "exchange_and_store l state code now p e2 = (r, e')"
      using assms n c by (simp add: login_complete_def andThen_def attempt_def)
    from c Inr obtain v where "stored_session l state e1 v" "os_Status v = ''pending''" "now < os_ExpiresAt v" "os_Pending v = Some p"
      using consume_takes by blast
    with that(2) run a w n(2) show thesis by (simp add: stored_session_def now_def)
  qed
qed

text \<open>C5: A login that returns an account is one the token server confirmed. If \<open>Complete\<close> returns an account, the
  session stored for the state was pending and had not expired at the second reading of the clock, the one the
  session was consumed with; the run asked the token server once, for the code and the verifier stored in the
  session, and was answered with a token; the session is now completed and the account is stored as a Devin account
  under the returned id. If it returns an error, at whatever point it arose, no account has been added or changed.\<close>

theorem login_confirmed_or_nothing:
  assumes "login_Complete l ref code e = (r, e')"
  shows "case r of
      Inl err \<Rightarrow> db_accounts (env_db e') = db_accounts (env_db e)
    | Inr result \<Rightarrow> re_Provider result = Devin \<and> rf_Provider ref = Devin \<and> trimSpace code \<noteq> [] \<and>
        (\<exists>v pending token. stored_session l (rf_State ref) e v \<and> os_Status v = ''pending'' \<and>
           env_clock e (Suc (env_tick e)) < os_ExpiresAt v \<and> os_Pending v = Some pending \<and>
           vl_exchange l code (op_Verifier pending) (li_world (env_world e)) = (Inr token, li_world (env_world e'))) \<and>
        (\<exists>row. find (by_state (vl_repo l) Devin OAuthFlowCallbackPKCE (rf_State ref)) (db_oauth (env_db e')) = Some row \<and>
           or_status row = ''completed'') \<and>
        (\<exists>arow \<in> set (db_accounts (env_db e')). ar_id arow = re_AccountID result \<and> ar_provider arow = Devin)"
proof (cases "requireDevinCallbackRef ref")
  case None
  obtain now e1 where n: "time_Now e = (Inr now, e1)" "env_db e1 = env_db e" "same_world e e1" "env_clock e1 = env_clock e"
      "env_tick e1 = Suc (env_tick e)" by (simp add: time_Now_def same_world_def)
  obtain x e2 where x: "sessionWithExpiry l (rf_State ref) now e1 = (x, e2)" by fastforce
  have a2: "db_accounts (env_db e2) = db_accounts (env_db e)"
    using keepsD' [OF before_exchange_accounts(1) x] n(2) by (simp add: on_db_def same_def)
  have ev2: "on_db evolves e e2" using keepsD' [OF sessionWithExpiry_evolves x] n(2) by (simp add: on_db_def)
  have o2: "same_world e e2" "env_clock e2 (env_tick e2) = env_clock e (Suc (env_tick e))"
    using keepsD' [OF sessionWithExpiry_offline x] n(3-5) by (simp_all add: offline_def same_world_def)
  consider "isl r" "e' = e2" | v where "x = Inr v" "trimSpace code \<noteq> []" "login_complete l (rf_State ref) code e2 = (r, e')"
    using assms None n x
    by (auto simp: login_Complete_def guard_error_def andThen_def attempt_def reject_def raise_def split: sum.splits if_splits)
  then show ?thesis
  proof cases
    case 1
    then show ?thesis using a2 by (cases r) simp_all
  next
    case 2
    have prov: "rf_Provider ref = Devin" using None by (simp add: requireDevinCallbackRef_def split: if_splits)
    from 2(3) show ?thesis
    proof (cases rule: login_complete_cases)
      case (2 v p e4)
      have "stored_session l (rf_State ref) e v"
        using stored_before [OF ev2 2(1,2)] sessionWithExpiry_found x \<open>x = Inr _\<close> n(2) by metis
      moreover have "same_world e e4" using 2(6) o2(1) by (simp add: same_world_def)
      ultimately show ?thesis
        using exchange_outcome [OF 2(7)] 2(2-5) \<open>trimSpace code \<noteq> []\<close> a2 o2(2) prov
        by (cases r) (simp, fastforce simp: same_world_def)
    qed (use a2 in \<open>auto simp: isl_def\<close>)
  qed
qed (use assms in \<open>auto simp: guard_error_def login_Complete_def raise_def split: sum.splits\<close>)


section \<open>Examples\<close>

definition sample_devin_login :: "(unit \<times> (string \<times> string) list) devin_login" where
  "sample_devin_login =
     \<lparr>vl_net = sample_login_net, vl_config = sample_oauth_config, vl_repo = sample_oauth,
      vl_accounts = sample_accounts\<lparr>rk_marshal := (\<lambda>c. Inr (CHR ''o'' # ac_OpaqueToken c))\<rparr>,
      vl_exchange = logged_exchange (\<lambda>c v w. (Inr ''tok'', w))\<rparr>"

definition sample_login_state :: "(unit \<times> (string \<times> string) list) login" where
  "sample_login_state = \<lparr>env_db = sample_created, env_clock = (\<lambda>_. 1), env_tick = 0,
     env_world = \<lparr>li_world = ((), []), li_rand = (\<lambda>k. Inr (if k = 2 then ''x'' else ''nn'')), li_draws = 0\<rparr>\<rparr>"

definition sample_callback_ref :: authorization_ref where
  "sample_callback_ref = \<lparr>rf_Provider = Devin, rf_State = ''st'', rf_SessionID = []\<rparr>"

lemma sample_login_run:
  "fst (login_Complete sample_devin_login sample_callback_ref ''code'' sample_login_state) = Inr \<lparr>re_Provider = Devin, re_AccountID = ''acct_78''\<rparr>"
  by code_simp

theorem login_confirmed_or_nothing_witness:
  "\<exists>e'. login_Complete sample_devin_login sample_callback_ref ''code'' sample_login_state =
      (Inr \<lparr>re_Provider = Devin, re_AccountID = ''acct_78''\<rparr>, e') \<and>
    (\<exists>v. stored_session sample_devin_login ''st'' sample_login_state v \<and> 1 < os_ExpiresAt v) \<and>
    (\<exists>arow \<in> set (db_accounts (env_db e')). ar_id arow = ''acct_78'' \<and> ar_provider arow = Devin)"
proof -
  obtain e' where run: "login_Complete sample_devin_login sample_callback_ref ''code'' sample_login_state =
      (Inr \<lparr>re_Provider = Devin, re_AccountID = ''acct_78''\<rparr>, e')"
    using sample_login_run by (metis prod.collapse)
  have "env_clock sample_login_state (Suc (env_tick sample_login_state)) = 1" "rf_State sample_callback_ref = ''st''"
    by (simp_all add: sample_login_state_def sample_callback_ref_def)
  with login_confirmed_or_nothing [OF run] run show ?thesis by auto
qed

theorem code_exchanged_once_witness:
  "exchanges_for sample_devin_login ''st'' [LComplete sample_callback_ref ''code'', LComplete sample_callback_ref ''code''] sample_login_state \<le> 1"
  by (rule code_exchanged_once [of _ "\<lambda>c v w. (Inr ''tok'', w)"]) (simp add: sample_devin_login_def)

section \<open>Credentials\<close>

definition devinAccount :: "account_repository \<Rightarrow> string \<Rightarrow> ('w env, go_error, account) op" where
  "devinAccount ra accountID =
     attempt (in_db (account_Get ra accountID)) (\<lambda>r. case r of
       Inl e \<Rightarrow> raise (ErrNew ''Devin account could not be loaded'')
     | Inr a \<Rightarrow> reject (acc_Provider a \<noteq> Devin) (Wrapf ''account is not a Devin account'' [ErrProviderMismatch]) (ret a))"

definition devinCredentialUsable :: "account \<Rightarrow> time \<Rightarrow> bool" where
  "devinCredentialUsable a now \<longleftrightarrow>
     trimSpace (ac_OpaqueToken (acc_Credentials a)) \<noteq> [] \<and>
     (case acc_ExpiresAt a of None \<Rightarrow> False | Some expires \<Rightarrow> Usable expires now)"

definition usableCredential :: "account_repository \<Rightarrow> string \<Rightarrow> ('w env, go_error, account \<times> bool) op" where
  "usableCredential ra accountID =
     andThen (devinAccount ra accountID) (\<lambda>a.
       if \<not> acc_Enabled a \<or> acc_Status a \<noteq> ''ready'' then ret (a, False)
       else andThen time_Now (\<lambda>now.
         if devinCredentialUsable a now then ret (a, True)
         else attempt (in_db (account_MarkReloginRequired accountID Devin)) (\<lambda>r. case r of
           Inl e \<Rightarrow> raise (ErrNew ''Devin account could not be marked for login'')
         | Inr _ \<Rightarrow> ret (a, False))))"

definition devin_CredentialUsable :: "account_repository \<Rightarrow> string \<Rightarrow> ('w env, go_error, bool) op" where
  "devin_CredentialUsable ra accountID = andThen (usableCredential ra accountID) (\<lambda>(a, usable). ret usable)"

definition devin_Credential :: "account_repository \<Rightarrow> string \<Rightarrow> ('w env, go_error, credential) op" where
  "devin_Credential ra accountID =
     andThen (usableCredential ra accountID) (\<lambda>(a, usable).
       if \<not> usable then raise (ErrNew ''Devin credential is unavailable or expired'') else ret (ac_OpaqueToken (acc_Credentials a)))"

definition relogin_error :: "int \<Rightarrow> go_error" where
  "relogin_error status = UpstreamE \<lparr>ue_Provider = Devin, ue_Status = status, ue_Classification =
     empty_classification\<lparr>ec_Class := ClassUnauthorized, ec_RetryNext := True, ec_DisableAccount := True, ec_ReloginRequired := True,
       ec_CooldownScope := CooldownAccount, ec_PublicStatus := 401, ec_PublicCode := ''provider_authentication_error'',
       ec_PublicMessage := ''account requires login''\<rparr>\<rparr>"

definition devin_AuthenticationFailed :: "account_repository \<Rightarrow> string \<Rightarrow> upstream_error \<Rightarrow> ('w env, go_error, unit) op" where
  "devin_AuthenticationFailed ra accountID upstream =
     (if ue_Status upstream \<noteq> 401 \<and> ue_Status upstream \<noteq> 403 then ret ()
      else reject (ue_Provider upstream \<noteq> Devin) (Wrapf ''Devin authentication recovery'' [ErrProviderMismatch])
        (andThen (devinAccount ra accountID) (\<lambda>_.
         attempt (in_db (account_MarkReloginRequired accountID Devin)) (\<lambda>r. case r of
           Inl e \<Rightarrow> raise (ErrNew ''Devin account could not be marked for login'')
         | Inr _ \<Rightarrow> raise (relogin_error (ue_Status upstream))))))"

definition devin_credentials :: "account_repository \<Rightarrow> 'w env credential_manager" where
  "devin_credentials ra = \<lparr>cm_Credential = devin_Credential ra, cm_AuthenticationFailed = devin_AuthenticationFailed ra,
     cm_CredentialUsable = Some (devin_CredentialUsable ra)\<rparr>"











end
