(* ===== verification/Xai_OAuth.thy ===== *)
theory Xai_OAuth
  imports Lifecycle_Types Xai_Client
begin

text \<open>
  The xAI device flow (\<open>oauth/xai/discovery.go\<close>, \<open>device.go\<close>, \<open>poll.go\<close>, \<open>constants.go\<close>): discovery of the
  endpoints, the start of a flow and the polling for its token. URL parsing, JSON decoding, the
  HTTP exchanges and \<open>wait\<close> are parameters; \<open>wait\<close> lets the clock run on.

  The flights of \<open>Poll\<close> and the cancellation of a running poll are not represented: a cancelled poll is
  one whose \<open>wait\<close> or exchange fails with the error of its context. The description of an
  \<open>OAuthError\<close> is not represented either, nobody reads it.

  Calls of \<open>Discover\<close> overlap: its read of the cache, its request and its publication under the write
  lock are steps of their own, interleaved in any way by \<open>discovery_run\<close>.

  Shown: accepted endpoints are HTTPS addresses of x.ai and the calls of one client agree; a poll
  returns, and how often it can ask.
\<close>

section \<open>Constants and errors\<close>

definition xai_Issuer :: string where "xai_Issuer = ''https://auth.x.ai''"
definition DiscoveryURL :: string where "DiscoveryURL = xai_Issuer @ ''/.well-known/openid-configuration''"
definition DefaultClientID :: string where "DefaultClientID = ''b1a00492-073a-47ea-816f-4c329264a828''"
definition DefaultScopes :: string where "DefaultScopes = ''openid profile email offline_access grok-cli:access api:access''"
definition DeviceCodeGrantType :: string where "DeviceCodeGrantType = ''urn:ietf:params:oauth:grant-type:device_code''"
definition MinimumPollInterval :: duration where "MinimumPollInterval = 5 * second"
definition RefreshLead :: duration where "RefreshLead = 5 * minute"
definition MaximumFlowDuration :: duration where "MaximumFlowDuration = 30 * minute"

record xai_options =
  xo_ClientID :: string
  xo_Scopes :: string

definition withDefaults :: "xai_options \<Rightarrow> xai_options" where
  "withDefaults o1 =
     \<lparr>xo_ClientID = (if xo_ClientID o1 = [] then DefaultClientID else xo_ClientID o1),
      xo_Scopes = (if xo_Scopes o1 = [] then DefaultScopes else xo_Scopes o1)\<rparr>"

text \<open>An \<open>OAuthError\<close> is recognised by \<open>errors.As\<close>, here by its message.\<close>

definition OAuthError :: "string \<Rightarrow> go_error" where "OAuthError code = ErrNew (''xAI OAuth '' @ code)"

fun as_oauth :: "go_error \<Rightarrow> string option" where
  "as_oauth (ErrNew m) = (if hasPrefix m ''xAI OAuth '' then Some (drop 10 m) else None)"
| "as_oauth (Wrapf m es) = foldr (\<lambda>x r. case as_oauth x of Some c \<Rightarrow> Some c | None \<Rightarrow> r) es None"
| "as_oauth e = None"


section \<open>Discovery\<close>

text \<open>\<open>xt_Document\<close> and the other decoders yield \<open>None\<close> when \<open>json.Unmarshal\<close> fails.\<close>

record discovery_document =
  dd_issuer :: string
  dd_authorization :: string
  dd_device :: string
  dd_token :: string
  dd_jwks :: string
  dd_algs :: "string list"

record device_payload =
  dp_DeviceCode :: string
  dp_UserCode :: string
  dp_VerificationURI :: string
  dp_VerificationURIComplete :: string
  dp_ExpiresIn :: int
  dp_Interval :: int

record refresh_payload =
  rp_AccessToken :: string
  rp_RefreshToken :: string
  rp_IDToken :: string
  rp_ExpiresIn :: int
  rp_Error :: string

record xai_net =
  xt_Scheme_Host :: "string \<Rightarrow> (string \<times> string) option"
  xt_ToLower :: "string \<Rightarrow> string"
  xt_Document :: "string \<Rightarrow> discovery_document option"
  xt_Device :: "string \<Rightarrow> device_payload option"
  xt_Raw :: "string \<Rightarrow> jobject option"
  xt_Refresh :: "string \<Rightarrow> refresh_payload option"
  xt_Claims :: "jobject \<Rightarrow> go_error + string"

record discovery =
  di_Issuer :: string
  di_AuthorizationEndpoint :: string
  di_DeviceAuthorizationEndpoint :: string
  di_TokenEndpoint :: string
  di_JWKSURI :: string
  di_IDTokenSigningAlgs :: "string list"

text \<open>\<open>xt_Scheme_Host\<close>: the scheme and the host name of a URL that parses.\<close>

definition ValidateEndpoint :: "xai_net \<Rightarrow> string \<Rightarrow> string \<Rightarrow> go_error + string" where
  "ValidateEndpoint xt raw0 field =
     (let raw = trimSpace raw0 in
      if raw = [] then Inl (ErrNew (''xAI discovery '' @ field @ '' is empty''))
      else case xt_Scheme_Host xt raw of
        None \<Rightarrow> Inl (ErrNew (''xAI discovery '' @ field @ '' must be an absolute HTTPS URL''))
      | Some (scheme, hostname) \<Rightarrow>
          if scheme \<noteq> ''https'' \<or> hostname = [] then Inl (ErrNew (''xAI discovery '' @ field @ '' must be an absolute HTTPS URL''))
          else let host = xt_ToLower xt hostname in
            if host \<noteq> ''x.ai'' \<and> \<not> hasPrefix (rev host) (rev ''.x.ai'') then Inl (ErrNew (''xAI discovery '' @ field @ '' host is not on x.ai''))
            else Inr raw)"

definition supported_algs :: "string list" where
  "supported_algs = [''RS256'', ''RS384'', ''RS512'', ''ES256'', ''ES384'', ''ES512'', ''PS256'', ''PS384'', ''PS512'', ''EdDSA'']"

definition supportedIDTokenSigningAlgs :: "string list \<Rightarrow> string list" where
  "supportedIDTokenSigningAlgs = filter (\<lambda>v. v \<in> set supported_algs)"

record http_reply =
  hr_Status :: int
  hr_Body :: string
  hr_BodyErr :: "go_error option"

text \<open>\<open>io.ReadAll(io.LimitReader(body, 1<<20))\<close>.\<close>

definition read_reply :: "http_reply \<Rightarrow> go_error + string" where
  "read_reply r =
     (case hr_BodyErr r of
        Some e \<Rightarrow> if length (hr_Body r) < 1048576 then Inl e else Inr (take 1048576 (hr_Body r))
      | None \<Rightarrow> Inr (take 1048576 (hr_Body r)))"

definition accept_document :: "xai_net \<Rightarrow> discovery_document \<Rightarrow> go_error + discovery" where
  "accept_document xt raw =
     (let algs = supportedIDTokenSigningAlgs (dd_algs raw) in
      if algs = [] then Inl (ErrNew ''xAI discovery has no supported ID token signing algorithm'')
      else orFail (ValidateEndpoint xt (dd_issuer raw) ''issuer'') (\<lambda>issuer.
           orFail (ValidateEndpoint xt (dd_authorization raw) ''authorization_endpoint'') (\<lambda>auth.
           orFail (ValidateEndpoint xt (dd_device raw) ''device_authorization_endpoint'') (\<lambda>device.
           orFail (ValidateEndpoint xt (dd_token raw) ''token_endpoint'') (\<lambda>token.
           orFail (ValidateEndpoint xt (dd_jwks raw) ''jwks_uri'') (\<lambda>jwks.
           if issuer \<noteq> xai_Issuer then Inl (ErrNew ''xAI discovery issuer mismatch'')
           else Inr \<lparr>di_Issuer = issuer, di_AuthorizationEndpoint = auth, di_DeviceAuthorizationEndpoint = device,
                  di_TokenEndpoint = token, di_JWKSURI = jwks, di_IDTokenSigningAlgs = algs\<rparr>))))))"

text \<open>The three parts of \<open>Discover\<close>: the cache as the read lock shows it (the case of \<open>Discover\<close>
  below), the request, which holds no lock, and the cache as it is left under the write lock, where
  the document of an earlier writer is kept and returned.\<close>

definition fetch_discovery :: "xai_net \<Rightarrow> string \<Rightarrow> (string \<Rightarrow> ('w, go_error, http_reply) op) \<Rightarrow> ('w, go_error, discovery) op" where
  "fetch_discovery xt url get =
     andThen (lift_result (ValidateEndpoint xt url ''URL'')) (\<lambda>_.
     attempt (get url) (\<lambda>reply. case reply of
       Inl e \<Rightarrow> raise (Wrapf ''xAI discovery request'' [e])
     | Inr r \<Rightarrow>
         andThen (lift_result (read_reply r)) (\<lambda>body.
         reject (hr_Status r \<noteq> 200) (ErrNew (''xAI discovery returned HTTP '' @ itoa (hr_Status r)))
         (case xt_Document xt body of
            None \<Rightarrow> raise (ErrNew ''invalid xAI discovery document'')
          | Some raw \<Rightarrow> lift_result (accept_document xt raw)))))"

definition publish_discovery :: "discovery \<Rightarrow> discovery option \<Rightarrow> discovery \<times> discovery option" where
  "publish_discovery result cached = (case cached of None \<Rightarrow> (result, Some result) | Some d \<Rightarrow> (d, cached))"

text \<open>A call that no other call interrupts.\<close>

definition Discover ::
  "xai_net \<Rightarrow> string \<Rightarrow> (string \<Rightarrow> ('w, go_error, http_reply) op) \<Rightarrow> (discovery option \<times> 'w, go_error, discovery) op" where
  "Discover xt url get = (\<lambda>(cached, w).
     case cached of
       Some d \<Rightarrow> (Inr d, (cached, w))
     | None \<Rightarrow>
         (case fetch_discovery xt url get w of
            (Inl e, w') \<Rightarrow> (Inl e, (cached, w'))
          | (Inr result, w') \<Rightarrow> (case publish_discovery result cached of (d, cached') \<Rightarrow> (Inr d, (cached', w')))))"

text \<open>
  Calls that overlap. A call reads the cache; if that is empty it fetches a document and then
  publishes it, and between these steps other calls make theirs. A call is named by a number.
\<close>

record 'w discovery_client =
  dv_cached :: "discovery option"
  dv_world :: 'w
  dv_waiting :: "nat list"
  dv_ready :: "(nat \<times> discovery) list"
  dv_results :: "(nat \<times> (go_error + discovery)) list"

datatype 'w discovery_event =
    DRead nat
  | DFetch nat "string \<Rightarrow> ('w, go_error, http_reply) op"
  | DPublish nat

definition new_discovery_client :: "'w \<Rightarrow> 'w discovery_client" where
  "new_discovery_client w = \<lparr>dv_cached = None, dv_world = w, dv_waiting = [], dv_ready = [], dv_results = []\<rparr>"

fun discovery_step :: "xai_net \<Rightarrow> string \<Rightarrow> 'w discovery_event \<Rightarrow> 'w discovery_client \<Rightarrow> 'w discovery_client" where
  "discovery_step xt url (DRead i) c =
     (if i \<in> set (dv_waiting c) \<or> i \<in> fst ` set (dv_ready c) then c
      else case dv_cached c of
        Some d \<Rightarrow> c\<lparr>dv_results := (i, Inr d) # dv_results c\<rparr>
      | None \<Rightarrow> c\<lparr>dv_waiting := i # dv_waiting c\<rparr>)"
| "discovery_step xt url (DFetch i get) c =
     (if i \<notin> set (dv_waiting c) then c
      else let c1 = c\<lparr>dv_waiting := filter (\<lambda>j. j \<noteq> i) (dv_waiting c)\<rparr> in
        case fetch_discovery xt url get (dv_world c) of
          (Inl e, w') \<Rightarrow> c1\<lparr>dv_world := w', dv_results := (i, Inl e) # dv_results c\<rparr>
        | (Inr d, w') \<Rightarrow> c1\<lparr>dv_world := w', dv_ready := (i, d) # dv_ready c\<rparr>)"
| "discovery_step xt url (DPublish i) c =
     (case map_of (dv_ready c) i of
        None \<Rightarrow> c
      | Some result \<Rightarrow>
          (case publish_discovery result (dv_cached c) of
             (d, cached) \<Rightarrow> c\<lparr>dv_cached := cached, dv_ready := filter (\<lambda>(j, _). j \<noteq> i) (dv_ready c),
                              dv_results := (i, Inr d) # dv_results c\<rparr>))"

definition discovery_run :: "xai_net \<Rightarrow> string \<Rightarrow> 'w discovery_event list \<Rightarrow> 'w discovery_client \<Rightarrow> 'w discovery_client" where
  "discovery_run xt url evs c = fold (discovery_step xt url) evs c"

text \<open>\<open>CheckRedirect\<close> of the discovery client: a hop, and how many came before.\<close>

definition discovery_redirect :: "xai_net \<Rightarrow> string \<Rightarrow> nat \<Rightarrow> go_error option" where
  "discovery_redirect xt target via =
     (case ValidateEndpoint xt target ''redirect'' of
        Inl e \<Rightarrow> Some e
      | Inr _ \<Rightarrow> if 10 \<le> via then Some (ErrNew ''too many xAI discovery redirects'') else None)"

definition on_xai :: "xai_net \<Rightarrow> string \<Rightarrow> bool" where
  "on_xai xt u \<longleftrightarrow> (\<exists>hostname. xt_Scheme_Host xt u = Some (''https'', hostname) \<and> hostname \<noteq> [] \<and>
     (xt_ToLower xt hostname = ''x.ai'' \<or> hasPrefix (rev (xt_ToLower xt hostname)) (rev ''.x.ai'')))"

lemma ValidateEndpoint_ok: "ValidateEndpoint xt raw field = Inr u \<Longrightarrow> on_xai xt u \<and> u = trimSpace raw"
  by (auto simp: ValidateEndpoint_def on_xai_def Let_def split: option.splits if_splits)

definition trusted_discovery :: "xai_net \<Rightarrow> discovery \<Rightarrow> bool" where
  "trusted_discovery xt d \<longleftrightarrow> di_Issuer d = xai_Issuer \<and> on_xai xt (di_AuthorizationEndpoint d) \<and>
     on_xai xt (di_DeviceAuthorizationEndpoint d) \<and> on_xai xt (di_TokenEndpoint d) \<and> on_xai xt (di_JWKSURI d) \<and>
     di_IDTokenSigningAlgs d \<noteq> [] \<and> set (di_IDTokenSigningAlgs d) \<subseteq> set supported_algs"

lemma accept_document_trusted: "accept_document xt raw = Inr d \<Longrightarrow> trusted_discovery xt d"
  using ValidateEndpoint_ok
  by (auto simp: accept_document_def Let_def returns_simps trusted_discovery_def supportedIDTokenSigningAlgs_def split: if_splits)

lemma fetch_discovery_trusted: "fetch_discovery xt url get w = (Inr d, w') \<Longrightarrow> trusted_discovery xt d"
  using accept_document_trusted
  by (auto simp: fetch_discovery_def returns_simps attempt_def raise_def split: prod.splits sum.splits option.splits)

lemma Discover_trusted:
  assumes "\<forall>d. cached = Some d \<longrightarrow> trusted_discovery xt d" "Discover xt url get (cached, w) = (r, (cached', w'))"
  shows "(\<forall>d. r = Inr d \<longrightarrow> trusted_discovery xt d \<and> cached' = Some d) \<and> (\<forall>d. cached' = Some d \<longrightarrow> trusted_discovery xt d)"
  using assms fetch_discovery_trusted
  by (auto simp: Discover_def publish_discovery_def split: option.splits sum.splits prod.splits)

text \<open>What has been fetched is trusted, and what has been returned is the cached document.\<close>

definition discovery_inv :: "xai_net \<Rightarrow> 'w discovery_client \<Rightarrow> bool" where
  "discovery_inv xt c \<longleftrightarrow> (\<forall>d. dv_cached c = Some d \<longrightarrow> trusted_discovery xt d) \<and>
     (\<forall>(i, d) \<in> set (dv_ready c). trusted_discovery xt d) \<and>
     (\<forall>i d. (i, Inr d) \<in> set (dv_results c) \<longrightarrow> dv_cached c = Some d)"

lemma discovery_step_inv: "discovery_inv xt c \<Longrightarrow> discovery_inv xt (discovery_step xt url ev c)"
proof (cases ev)
  case (DRead i)
  assume "discovery_inv xt c"
  with DRead show ?thesis by (auto simp: discovery_inv_def split: option.splits)
next
  case (DFetch i get)
  assume "discovery_inv xt c"
  with DFetch show ?thesis
    using fetch_discovery_trusted by (auto simp: discovery_inv_def Let_def split: prod.splits sum.splits)
next
  case (DPublish i)
  assume "discovery_inv xt c"
  with DPublish show ?thesis
    by (auto simp: discovery_inv_def publish_discovery_def dest!: map_of_SomeD split: option.splits)
qed

lemma discovery_run_inv: "discovery_inv xt c \<Longrightarrow> discovery_inv xt (discovery_run xt url evs c)"
  unfolding discovery_run_def by (induction evs arbitrary: c) (simp_all add: discovery_step_inv)

lemma overlapping_discoveries:
  assumes "(i, Inr d1) \<in> set (dv_results (discovery_run xt url evs (new_discovery_client w)))"
    "(j, Inr d2) \<in> set (dv_results (discovery_run xt url evs (new_discovery_client w)))"
  shows "trusted_discovery xt d1 \<and> d2 = d1"
proof -
  have "discovery_inv xt (discovery_run xt url evs (new_discovery_client w))"
    by (rule discovery_run_inv) (simp add: discovery_inv_def new_discovery_client_def)
  then have inv: "\<And>i d. (i, Inr d) \<in> set (dv_results (discovery_run xt url evs (new_discovery_client w))) \<Longrightarrow>
      dv_cached (discovery_run xt url evs (new_discovery_client w)) = Some d \<and> trusted_discovery xt d"
    unfolding discovery_inv_def by blast
  from inv [OF assms(1)] inv [OF assms(2)] show ?thesis by simp
qed


section \<open>The device flow\<close>

record token_response =
  tr_AccessToken :: string
  tr_RefreshToken :: string
  tr_IDToken :: string
  tr_TokenType :: string
  tr_TokenEndpoint :: string
  tr_ExpiresIn :: int
  tr_ExpiresAt :: time

record device_authorization =
  da_State :: string
  da_UserCode :: string
  da_VerificationURI :: string
  da_VerificationURIComplete :: string
  da_SessionID :: string
  da_ExpiresAt :: time
  da_PollInterval :: duration

text \<open>\<open>xl_post\<close> posts a form to an endpoint, \<open>xl_wait\<close> is \<open>waitContext\<close>.\<close>

type_synonym form = "(string \<times> string) list"

record 'w xai_login =
  xl_net :: xai_net
  xl_options :: xai_options
  xl_repo :: oauth_repository
  xl_discover :: "('w, go_error, discovery) op"
  xl_post :: "string \<Rightarrow> form \<Rightarrow> ('w, go_error, http_reply) op"
  xl_wait :: "duration \<Rightarrow> ('w login, go_error, unit) op"

definition xai_session :: oauth_session where
  "xai_session = \<lparr>os_Provider = XAI, os_FlowType = OAuthFlowDevice, os_SessionID = [], os_State = [], os_StateHash = [], os_DeviceCode = [],
     os_UserCode = [], os_VerificationURI = [], os_VerificationURIComplete = [], os_TokenEndpoint = [], os_Pending = None,
     os_PollInterval = 0, os_ExpiresAt = zero_time, os_Status = [], os_SanitizedError = [], os_AccountID = [], os_Authorization = None,
     os_CreatedAt = zero_time, os_UpdatedAt = zero_time\<rparr>"

definition incomplete_device :: "device_payload \<Rightarrow> bool" where
  "incomplete_device p \<longleftrightarrow>
     trimSpace (dp_DeviceCode p) = [] \<or> trimSpace (dp_UserCode p) = [] \<or>
     (trimSpace (dp_VerificationURI p) = [] \<and> trimSpace (dp_VerificationURIComplete p) = []) \<or> dp_ExpiresIn p \<le> 0"

definition poll_interval :: "int \<Rightarrow> duration" where
  "poll_interval seconds = (let i = wrap64 (seconds * second) in if i < MinimumPollInterval then MinimumPollInterval else i)"

definition flow_expiry :: "time \<Rightarrow> int \<Rightarrow> time" where
  "flow_expiry now seconds =
     (let expires = now + wrap64 (seconds * second); latest = now + MaximumFlowDuration in
      if time_after expires latest then latest else expires)"

definition device_Start :: "'w xai_login \<Rightarrow> ('w login, go_error, device_authorization) op" where
  "device_Start l =
     andThen (outside (xl_discover l)) (\<lambda>d.
     attempt (outside (xl_post l (di_DeviceAuthorizationEndpoint d) [(''client_id'', xo_ClientID (xl_options l)), (''scope'', xo_Scopes (xl_options l))])) (\<lambda>reply.
     case reply of
       Inl e \<Rightarrow> raise (Wrapf ''xAI device authorization'' [e])
     | Inr r \<Rightarrow>
         andThen (lift_result (read_reply r)) (\<lambda>body.
         reject (hr_Status r < 200 \<or> 300 \<le> hr_Status r) (ErrNew (''xAI device authorization returned HTTP '' @ itoa (hr_Status r)))
         (case xt_Device (xl_net l) body of
            None \<Rightarrow> raise (ErrNew ''invalid xAI device authorization response'')
          | Some p \<Rightarrow>
              reject (incomplete_device p) (ErrNew ''incomplete xAI device authorization response'')
              (andThen draw (\<lambda>rnd1. andThen (lift_result rnd1) (\<lambda>raw1. andThen draw (\<lambda>rnd2. andThen (lift_result (NewSessionID rnd2)) (\<lambda>sessionID.
               let state = EncodeToString raw1; interval = poll_interval (dp_Interval p) in
               andThen time_Now (\<lambda>now.
               let expires = flow_expiry now (dp_ExpiresIn p);
                   v = xai_session\<lparr>os_State := state, os_SessionID := sessionID, os_DeviceCode := dp_DeviceCode p, os_UserCode := dp_UserCode p,
                         os_VerificationURI := dp_VerificationURI p, os_VerificationURIComplete := dp_VerificationURIComplete p,
                         os_TokenEndpoint := di_TokenEndpoint d, os_PollInterval := interval, os_ExpiresAt := expires\<rparr> in
               andThen time_Now (\<lambda>created. andThen draw (\<lambda>sidRnd.
               andThen (sealing (oauth_Create (xl_repo l) v created sidRnd)) (\<lambda>_.
               ret \<lparr>da_State = state, da_UserCode = dp_UserCode p, da_VerificationURI = dp_VerificationURI p,
                    da_VerificationURIComplete = dp_VerificationURIComplete p, da_SessionID = sessionID, da_ExpiresAt = expires,
                    da_PollInterval = interval\<rparr>)))))))))))))"

definition oauthStatusMessage :: "string \<Rightarrow> string" where
  "oauthStatusMessage code =
     (if code = ''access_denied'' then ''Device authorization was denied.''
      else if code = ''expired_token'' then ''Device authorization expired.''
      else ''Device authorization failed.'')"

text \<open>\<open>json.Unmarshal\<close> of a raw field into a string or an integer; what does not fit leaves the zero value.\<close>

definition raw_string :: "jobject \<Rightarrow> string \<Rightarrow> string" where
  "raw_string raw k = str_or_empty (jget raw k)"

definition raw_int :: "jobject \<Rightarrow> string \<Rightarrow> int" where
  "raw_int raw k = (case jget raw k of Some (JNum n) \<Rightarrow> (case Atoi n of Some i \<Rightarrow> i | None \<Rightarrow> 0) | _ \<Rightarrow> 0)"

text \<open>The token and the error code.\<close>

definition device_exchange :: "'w xai_login \<Rightarrow> string \<Rightarrow> string \<Rightarrow> ('w login, go_error, token_response \<times> string) op" where
  "device_exchange l endpoint deviceCode =
     andThen (outside (xl_post l endpoint
         [(''grant_type'', DeviceCodeGrantType), (''device_code'', deviceCode), (''client_id'', xo_ClientID (xl_options l))])) (\<lambda>r.
     andThen (lift_result (read_reply r)) (\<lambda>body.
     case xt_Raw (xl_net l) body of
       None \<Rightarrow> raise (ErrNew ''invalid xAI token response'')
     | Some raw \<Rightarrow>
         reject (500 \<le> hr_Status r) (ErrNew (''xAI token endpoint returned HTTP '' @ itoa (hr_Status r)))
         (ret (\<lparr>tr_AccessToken = raw_string raw ''access_token'', tr_RefreshToken = raw_string raw ''refresh_token'', tr_IDToken = raw_string raw ''id_token'',
                tr_TokenType = raw_string raw ''token_type'', tr_TokenEndpoint = [], tr_ExpiresIn = raw_int raw ''expires_in'', tr_ExpiresAt = zero_time\<rparr>,
               raw_string raw ''error''))))"

text \<open>A call whose result is dropped, with the repository's reading of the clock.\<close>

definition ending_call :: "(time \<Rightarrow> go_error + string \<Rightarrow> unit dbop) \<Rightarrow> ('w login, 'e, unit) op" where
  "ending_call f e = (Inr (), snd (andThen time_Now (\<lambda>now. sealing (f now)) e))"

definition device_expire :: "'w xai_login \<Rightarrow> string \<Rightarrow> string \<Rightarrow> ('w login, 'e, unit) op" where
  "device_expire l state code = ending_call (\<lambda>now n. oauth_Expire (xl_repo l) XAI OAuthFlowDevice state (oauthStatusMessage code) n now)"

definition device_fail :: "'w xai_login \<Rightarrow> string \<Rightarrow> string \<Rightarrow> ('w login, 'e, unit) op" where
  "device_fail l state message = ending_call (\<lambda>now n. oauth_Fail (xl_repo l) XAI OAuthFlowDevice state message n now)"

definition authorizedToken :: "'w xai_login \<Rightarrow> string \<Rightarrow> oauth_session \<Rightarrow> ('w login, go_error, token_response) op" where
  "authorizedToken l state v =
     (case os_Authorization v of
        None \<Rightarrow> andThen (device_fail l state (oauthStatusMessage ''invalid_authorization'')) (\<lambda>_. raise (ErrNew ''persisted xAI authorization is incomplete''))
      | Some a \<Rightarrow>
          if trimSpace (oa_AccessToken a) = []
          then andThen (device_fail l state (oauthStatusMessage ''invalid_authorization'')) (\<lambda>_. raise (ErrNew ''persisted xAI authorization is incomplete''))
          else andThen time_Now (\<lambda>now.
            if \<not> time_is_zero (oa_ExpiresAt a) \<and> \<not> time_before now (oa_ExpiresAt a)
            then andThen (device_expire l state ''expired_token'') (\<lambda>_. raise (OAuthError ''expired_token''))
            else ret \<lparr>tr_AccessToken = oa_AccessToken a, tr_RefreshToken = oa_RefreshToken a, tr_IDToken = oa_IDToken a, tr_TokenType = oa_TokenType a,
                      tr_TokenEndpoint = os_TokenEndpoint v, tr_ExpiresIn = oa_ExpiresIn a, tr_ExpiresAt = oa_ExpiresAt a\<rparr>))"

text \<open>
  One round of the loop of \<open>poll\<close>. It either ends the poll, with an error or a token, which is the
  error of the operation, or returns the interval of the next round.
\<close>

type_synonym ('w, 'a) round = "('w login, go_error + token_response, 'a) op"

definition ends :: "('w login, go_error, 'a) op \<Rightarrow> ('w, 'a) round" where
  "ends m e = (case m e of (Inl err, e') \<Rightarrow> (Inl (Inl err), e') | (Inr a, e') \<Rightarrow> (Inr a, e'))"

definition round_expired :: "'w xai_login \<Rightarrow> string \<Rightarrow> ('w, 'a) round" where
  "round_expired l state = andThen (device_expire l state ''expired_token'') (\<lambda>_. raise (Inl (OAuthError ''expired_token'')))"

definition round_wait :: "'w xai_login \<Rightarrow> string \<Rightarrow> oauth_session \<Rightarrow> duration \<Rightarrow> time \<Rightarrow> ('w, unit) round" where
  "round_wait l state v interval now =
     (let remaining = time_sub (os_ExpiresAt v) now in
      andThen (ends (xl_wait l (if remaining < interval then remaining else interval))) (\<lambda>_.
      andThen (ends time_Now) (\<lambda>now'.
      if \<not> time_before now' (os_ExpiresAt v) then round_expired l state
      else andThen (ends (in_db (oauth_GetPending (xl_repo l) XAI OAuthFlowDevice state now'))) (\<lambda>_. ret ()))))"

definition round_authorize :: "'w xai_login \<Rightarrow> string \<Rightarrow> oauth_session \<Rightarrow> token_response \<Rightarrow> ('w, 'a) round" where
  "round_authorize l state v token0 =
     (if trimSpace (tr_AccessToken token0) = [] then raise (Inl (ErrNew ''xAI token response missing access_token''))
      else andThen (if 0 < tr_ExpiresIn token0
                    then andThen (ends time_Now) (\<lambda>now. ret (token0\<lparr>tr_TokenEndpoint := os_TokenEndpoint v,
                           tr_ExpiresAt := now + wrap64 (tr_ExpiresIn token0 * second)\<rparr>))
                    else ret (token0\<lparr>tr_TokenEndpoint := os_TokenEndpoint v\<rparr>)) (\<lambda>token.
           andThen (ends time_Now) (\<lambda>authorizedAt. andThen (ends time_Now) (\<lambda>now.
           andThen (ends (sealing (\<lambda>n. oauth_Authorize (xl_repo l) XAI OAuthFlowDevice state
               \<lparr>oa_AccessToken = tr_AccessToken token, oa_RefreshToken = tr_RefreshToken token, oa_IDToken = tr_IDToken token,
                oa_TokenType = tr_TokenType token, oa_ExpiresIn = tr_ExpiresIn token, oa_AuthorizedAt = authorizedAt, oa_ExpiresAt = tr_ExpiresAt token\<rparr> n now))) (\<lambda>_.
           raise (Inr token))))))"

definition round_answer :: "'w xai_login \<Rightarrow> string \<Rightarrow> oauth_session \<Rightarrow> duration \<Rightarrow> token_response \<Rightarrow> string \<Rightarrow> ('w, duration) round" where
  "round_answer l state v interval token code =
     (if code = [] then round_authorize l state v token
      else if code = ''authorization_pending'' then ret interval
      else if code = ''slow_down'' then ret (wrap64 (interval + 5 * second))
      else if code = ''expired_token'' then andThen (device_expire l state code) (\<lambda>_. raise (Inl (OAuthError code)))
      else andThen (device_fail l state (oauthStatusMessage code)) (\<lambda>_. raise (Inl (OAuthError code))))"

definition poll_round :: "'w xai_login \<Rightarrow> string \<Rightarrow> oauth_session \<Rightarrow> duration \<Rightarrow> bool \<Rightarrow> ('w, duration) round" where
  "poll_round l state v interval first =
     andThen (ends time_Now) (\<lambda>now.
     if \<not> time_before now (os_ExpiresAt v) then round_expired l state
     else andThen (if first then ret () else round_wait l state v interval now) (\<lambda>_.
          andThen (ends (device_exchange l (os_TokenEndpoint v) (os_DeviceCode v))) (\<lambda>(token, code).
          round_answer l state v interval token code)))"

partial_function (option) poll_loop ::
  "'w xai_login \<Rightarrow> string \<Rightarrow> oauth_session \<Rightarrow> duration \<Rightarrow> bool \<Rightarrow> 'w login \<Rightarrow> ((go_error + token_response) \<times> 'w login) option" where
  "poll_loop l state v interval first e =
     (case poll_round l state v interval first e of
        (Inl result, e') \<Rightarrow> Some (result, e')
      | (Inr interval', e') \<Rightarrow> poll_loop l state v interval' False e')"

definition device_flow :: "'w xai_login \<Rightarrow> string \<Rightarrow> ('w login, go_error, oauth_session) op" where
  "device_flow l state = andThen time_Now (\<lambda>now. in_db (oauth_GetResumable (xl_repo l) XAI OAuthFlowDevice state now))"

definition device_poll :: "'w xai_login \<Rightarrow> string \<Rightarrow> 'w login \<Rightarrow> ((go_error + token_response) \<times> 'w login) option" where
  "device_poll l state e =
     (case device_flow l state e of
        (Inl err, e') \<Rightarrow> Some (Inl err, e')
      | (Inr v, e') \<Rightarrow>
          if os_Status v = ''authorized'' then Some (authorizedToken l state v e')
          else poll_loop l state v (max (os_PollInterval v) MinimumPollInterval) True e')"


section \<open>How often a poll asks\<close>

text \<open>Steps that leave the clock going and ask nothing; \<open>posts\<close> counts the exchanges in the outside world.\<close>

definition passes :: "('w \<Rightarrow> nat) \<Rightarrow> 'w login \<Rightarrow> 'w login \<Rightarrow> bool" where
  "passes posts e e' \<longleftrightarrow> env_clock e' = env_clock e \<and> env_tick e \<le> env_tick e' \<and> posts (li_world (env_world e')) = posts (li_world (env_world e))"

text \<open>
  What is relied on of the environment: a reading after a wait of \<open>d\<close> that was not interrupted is at
  least \<open>d\<close> after every earlier reading, and \<open>posts\<close> counts the posted forms.
\<close>

definition timer :: "'w xai_login \<Rightarrow> ('w \<Rightarrow> nat) \<Rightarrow> (nat \<Rightarrow> time) \<Rightarrow> bool" where
  "timer l posts clock \<longleftrightarrow>
     (\<forall>d e r e'. env_clock e = clock \<longrightarrow> xl_wait l d e = (r, e') \<longrightarrow> passes posts e e' \<and>
        (r = Inr () \<longrightarrow> (\<forall>i < env_tick e. \<forall>j \<ge> env_tick e'. clock i + d \<le> clock j))) \<and>
     (\<forall>u f w. posts (snd (xl_post l u f w)) = Suc (posts w))"

lemma passes_rel [keeps_intros]: "reflp (passes posts)" "transp (passes posts)"
  by (auto simp: reflp_def transp_def passes_def)

lemma passes_intros [keeps_intros]:
  "keeps (passes posts) (in_db m)" "keeps (passes posts) draw" "keeps (passes posts) time_Now"
  by (auto simp: keeps_def passes_def in_db_def draw_def time_Now_def Let_def split: prod.splits)

lemma keeps_ends [keeps_intros]: "keeps R m \<Longrightarrow> keeps R (ends m)"
  by (auto simp: keeps_def ends_def split: prod.splits sum.splits) (metis snd_conv)+

lemma ends_state: "snd (ends m e) = snd (m e)"
  by (auto simp: ends_def split: prod.splits sum.splits)

lemma passes_sealing [keeps_intros]: "keeps (passes posts) (sealing f)"
  unfolding sealing_def by (intro keeps_intros)

lemma passes_ending [keeps_intros]: "keeps (passes posts) (ending_call f)"
proof -
  have "keeps (passes posts) (andThen time_Now (\<lambda>now. sealing (f now)))" by (intro keeps_intros)
  then show ?thesis by (simp add: keeps_def ending_call_def)
qed

lemmas poll_intros = passes_ending keeps_ends keeps_lift_result keeps_intros

lemma round_answer_passes: "keeps (passes posts) (round_answer l state v interval token code)"
  unfolding round_answer_def round_authorize_def device_expire_def device_fail_def by (intro poll_intros)

lemma round_expired_passes: "keeps (passes posts) (round_expired l state :: ('w, 'a) round)"
  unfolding round_expired_def device_expire_def by (intro poll_intros)

lemma round_expired_ends: "round_expired l state e \<noteq> (Inr y, e')"
  by (auto simp: round_expired_def andThen_def device_expire_def ending_call_def raise_def)

lemma round_answer_interval:
  "round_answer l state v interval token code e = (Inr interval', e') \<Longrightarrow> interval' = interval \<or> interval' = wrap64 (interval + 5 * second)"
  by (auto simp: round_answer_def round_authorize_def returns_simps raise_def ret_def device_expire_def device_fail_def ending_call_def
      split: if_splits)

text \<open>One exchange.\<close>

definition asks_once :: "('w \<Rightarrow> nat) \<Rightarrow> 'w login \<Rightarrow> 'w login \<Rightarrow> bool" where
  "asks_once posts e e' \<longleftrightarrow> env_clock e' = env_clock e \<and> env_tick e \<le> env_tick e' \<and>
     posts (li_world (env_world e')) = Suc (posts (li_world (env_world e)))"

lemma asks_andThen:
  assumes "asks_once posts e (snd (m e))" "\<And>x. keeps (passes posts) (f x)"
  shows "asks_once posts e (snd (andThen m f e))"
proof (cases "m e")
  case (Pair r e1)
  with assms(1) have "asks_once posts e e1" by simp
  moreover have "passes posts e1 (snd (f x e1))" for x using assms(2) by (rule keepsD)
  ultimately have "asks_once posts e (snd (f x e1))" for x
    unfolding asks_once_def passes_def by (metis order_trans)
  with Pair \<open>asks_once posts e e1\<close> show ?thesis by (cases r) (simp_all add: andThen_def)
qed

lemma device_exchange_once:
  assumes "timer l posts clock"
  shows "asks_once posts e (snd (device_exchange l endpoint code e))"
proof -
  have "asks_once posts e (snd (outside (xl_post l endpoint form) e))" for form
    using assms by (auto simp: timer_def asks_once_def outside_def split: prod.splits) (metis snd_conv)
  then show ?thesis unfolding device_exchange_def by (intro asks_andThen poll_intros)
qed

definition ask :: "'w xai_login \<Rightarrow> string \<Rightarrow> oauth_session \<Rightarrow> duration \<Rightarrow> ('w, duration) round" where
  "ask l state v interval =
     andThen (ends (device_exchange l (os_TokenEndpoint v) (os_DeviceCode v))) (\<lambda>(token, code). round_answer l state v interval token code)"

lemma ask_once:
  assumes "timer l posts clock"
  shows "asks_once posts e (snd (ask l state v interval e))"
  unfolding ask_def by (intro asks_andThen keeps_case_prod round_answer_passes) (simp add: ends_state device_exchange_once [OF assms])

lemma ask_interval:
  "ask l state v interval e = (Inr interval', e') \<Longrightarrow> interval' = interval \<or> interval' = wrap64 (interval + 5 * second)"
  by (auto simp: ask_def returns_simps dest: round_answer_interval)

text \<open>A wait that lets the poll go on has lasted the whole interval.\<close>

lemma round_wait_lasts:
  assumes t: "timer l posts clock" and c: "env_clock e = clock" "i < env_tick e" "clock i < os_ExpiresAt v"
    and w: "round_wait l state v interval (clock i) e = (r, e')" and b: "interval \<le> max_duration"
  shows "passes posts e e' \<and> (r = Inr () \<longrightarrow> (\<exists>j < env_tick e'. clock i + interval \<le> clock j))"
proof -
  define d where "d = (if time_sub (os_ExpiresAt v) (clock i) < interval then time_sub (os_ExpiresAt v) (clock i) else interval)"
  obtain x e1 where x: "xl_wait l d e = (x, e1)" by fastforce
  have p: "passes posts e e1" "x = Inr () \<longrightarrow> (\<forall>j \<ge> env_tick e1. clock i + d \<le> clock j)"
    using t x c unfolding timer_def by blast+
  let ?rest = "andThen (ends time_Now) (\<lambda>now'.
      if \<not> time_before now' (os_ExpiresAt v) then round_expired l state
      else andThen (ends (in_db (oauth_GetPending (xl_repo l) XAI OAuthFlowDevice state now'))) (\<lambda>_. ret ()))"
  have k: "keeps (passes posts) ?rest" by (intro poll_intros round_expired_passes)
  have w': "andThen (ends (xl_wait l d)) (\<lambda>_. ?rest) e = (r, e')"
    using w unfolding round_wait_def d_def by (simp add: Let_def)
  show ?thesis
  proof (cases x)
    case (Inl err)
    with w' x p show ?thesis by (auto simp: andThen_def ends_def)
  next
    case (Inr u)
    with w' x have w2: "?rest e1 = (r, e')" by (simp add: andThen_def ends_def)
    have "passes posts e e'"
      using p(1) keepsD' [OF k w2] passes_rel(2) [THEN transpD] by blast
    moreover have "clock i + interval \<le> clock (env_tick e1) \<and> env_tick e1 < env_tick e'" if "r = Inr ()"
    proof -
      have e: "env_clock e1 = clock" using p(1) c(1) by (simp add: passes_def)
      with w2 that have ok: "clock (env_tick e1) < os_ExpiresAt v" "Suc (env_tick e1) = env_tick e'"
        by (auto simp: andThen_def ends_def time_Now_def time_before_def in_db_def ret_def round_expired_ends split: if_splits prod.splits sum.splits)
      have "clock i + d \<le> clock (env_tick e1)" using p(2) Inr by simp
      with ok c(3) b show ?thesis by (auto simp: d_def time_sub_def min_def max_def split: if_splits)
    qed
    ultimately show ?thesis by blast
  qed
qed

lemma poll_loop_ended: "poll_round l state v interval first e = (Inl r, e') \<Longrightarrow> poll_loop l state v interval first e = Some (r, e')"
  by (subst poll_loop.simps) simp

lemma poll_loop_again:
  "poll_round l state v interval first e = (Inr interval', e') \<Longrightarrow> poll_loop l state v interval first e = poll_loop l state v interval' False e'"
  by (subst poll_loop.simps) simp

text \<open>A round asks at most once, not at all after the expiry, and the poll goes on only after a whole interval.\<close>

lemma poll_round_asks:
  assumes t: "timer l posts clock" and c: "env_clock e = clock" and b: "interval \<le> max_duration"
    and r: "poll_round l state v interval first e = (r, e')"
  shows "env_clock e' = clock \<and>
     posts (li_world (env_world e')) \<le> posts (li_world (env_world e)) + (if clock (env_tick e) < os_ExpiresAt v then 1 else 0) \<and>
     (\<forall>interval'. r = Inr interval' \<longrightarrow> clock (env_tick e) < os_ExpiresAt v \<and> (interval' = interval \<or> interval' = wrap64 (interval + 5 * second)) \<and>
        (\<exists>j < env_tick e'. clock (env_tick e) + (if first then 0 else interval) \<le> clock j))"
proof -
  define now e0 where "now = clock (env_tick e)" and "e0 = e\<lparr>env_tick := Suc (env_tick e)\<rparr>"
  have n: "time_Now e = (Inr now, e0)" using c by (simp add: time_Now_def now_def e0_def)
  have e0: "env_clock e0 = clock" "env_tick e < env_tick e0" "posts (li_world (env_world e0)) = posts (li_world (env_world e))"
    using c by (simp_all add: e0_def)
  show ?thesis
  proof (cases "now < os_ExpiresAt v")
    case False
    then have x: "round_expired l state e0 = (r, e')"
      using r n by (simp add: poll_round_def andThen_def ends_def time_before_def)
    have "passes posts e0 e'" using keepsD' [OF round_expired_passes x] .
    moreover have "r \<noteq> Inr z" for z using x round_expired_ends by metis
    ultimately show ?thesis using e0 False by (auto simp: passes_def now_def [symmetric])
  next
    case True
    define pause where "pause = (if first then ret () else round_wait l state v interval now)"
    obtain y e1 where y: "pause e0 = (y, e1)" by fastforce
    have p: "passes posts e0 e1 \<and> (y = Inr () \<longrightarrow> (\<exists>j < env_tick e1. now + (if first then 0 else interval) \<le> clock j))"
    proof (cases first)
      case True
      with y have "e1 = e0" by (simp add: pause_def ret_def)
      with True e0 show ?thesis by (auto simp: passes_def now_def)
    next
      case False
      with y have "round_wait l state v interval (clock (env_tick e)) e0 = (y, e1)" by (simp add: pause_def now_def)
      from round_wait_lasts [OF t e0(1,2) _ this b] True False show ?thesis by (simp add: now_def)
    qed
    have rest: "(case y of Inl err \<Rightarrow> (Inl err, e1) | Inr u \<Rightarrow> ask l state v interval e1) = (r, e')"
      using r n y True by (simp add: poll_round_def ask_def andThen_def ends_def time_before_def pause_def split: sum.splits)
    show ?thesis
    proof (cases y)
      case (Inl err)
      with rest p e0 True show ?thesis by (auto simp: passes_def now_def)
    next
      case (Inr u)
      with rest have a: "ask l state v interval e1 = (r, e')" by simp
      then have "asks_once posts e1 e'" using ask_once [OF t, of e1 state v interval] by simp
      with a p Inr e0 True ask_interval [of l state v interval e1 _ e'] show ?thesis
        unfolding passes_def asks_once_def now_def by (auto) (meson order_less_le_trans)+
    qed
  qed
qed

text \<open>With at most \<open>n\<close> minimal intervals to the expiry, the rest of a poll asks at most \<open>n\<close> times.\<close>

lemma poll_loop_bounded:
  assumes t: "timer l posts clock" and m: "mono clock"
  shows "env_clock e = clock \<Longrightarrow> i < env_tick e \<Longrightarrow> os_ExpiresAt v \<le> clock i + int n * MinimumPollInterval \<Longrightarrow>
     MinimumPollInterval \<le> interval \<Longrightarrow> interval + int n * MinimumPollInterval \<le> max_duration \<Longrightarrow>
     \<exists>r e'. poll_loop l state v interval False e = Some (r, e') \<and> posts (li_world (env_world e')) \<le> posts (li_world (env_world e)) + n"
proof (induction n arbitrary: e i interval)
  case (0 e i interval)
  obtain r e' where p: "poll_round l state v interval False e = (r, e')" by fastforce
  have "\<not> clock (env_tick e) < os_ExpiresAt v" using 0 monoD [OF m, of i "env_tick e"] by simp
  moreover have "interval \<le> max_duration" using 0 by simp
  ultimately obtain result where "r = Inl result" "posts (li_world (env_world e')) \<le> posts (li_world (env_world e))"
    using poll_round_asks [OF t 0(1) _ p] by (cases r) auto
  with poll_loop_ended [of l state v interval False e result e'] p show ?case by auto
next
  case (Suc n e i interval)
  obtain r e' where p: "poll_round l state v interval False e = (r, e')" by fastforce
  have min: "0 < MinimumPollInterval" by (simp add: MinimumPollInterval_def second_def)
  have b: "interval \<le> max_duration" using Suc.prems(5) min by (smt (verit) mult_nonneg_nonneg of_nat_0_le_iff)
  note a = poll_round_asks [OF t Suc.prems(1) b p]
  show ?case
  proof (cases r)
    case (Inl result)
    with a poll_loop_ended p show ?thesis by (fastforce split: if_splits)
  next
    case (Inr interval')
    with a obtain j where j: "j < env_tick e'" "clock (env_tick e) + interval \<le> clock j" "env_clock e' = clock"
        "posts (li_world (env_world e')) \<le> Suc (posts (li_world (env_world e)))"
        "interval' = interval \<or> interval' = wrap64 (interval + 5 * second)"
      by (auto split: if_splits)
    have step: "interval + MinimumPollInterval + int n * MinimumPollInterval \<le> max_duration" using Suc.prems(5) by (simp add: algebra_simps)
    then have w: "wrap64 (interval + 5 * second) = interval + MinimumPollInterval"
      using min Suc.prems(4) by (subst wrap64_id) (auto simp: MinimumPollInterval_def max_duration_def second_def)
    have "clock i \<le> clock (env_tick e)" using Suc.prems(2) monoD [OF m] by simp
    then have "os_ExpiresAt v \<le> clock j + int n * MinimumPollInterval" using Suc.prems(3,4) j(2) by (simp add: algebra_simps)
    moreover have "MinimumPollInterval \<le> interval'" "interval' + int n * MinimumPollInterval \<le> max_duration"
      using j(5) w Suc.prems(4,5) min step by auto
    ultimately obtain r' e'' where "poll_loop l state v interval' False e' = Some (r', e'')"
        "posts (li_world (env_world e'')) \<le> posts (li_world (env_world e')) + n"
      using Suc.IH [OF j(3,1)] by blast
    with j(4) poll_loop_again [of l state v interval False e interval' e'] p Inr show ?thesis by auto
  qed
qed

lemma waiting_poll_bounded:
  assumes t: "timer l posts clock" and m: "mono clock" and e: "env_clock e = clock" "env_tick e = Suc i"
    and v: "os_ExpiresAt v \<le> clock i + MaximumFlowDuration" and b: "MinimumPollInterval \<le> interval" "interval \<le> 2 ^ 62"
  shows "\<exists>r e'. poll_loop l state v interval True e = Some (r, e') \<and> posts (li_world (env_world e')) \<le> posts (li_world (env_world e)) + 361"
proof -
  obtain y e2 where y: "poll_round l state v interval True e = (y, e2)" by fastforce
  have "interval \<le> max_duration" using b(2) by (simp add: max_duration_def)
  from poll_round_asks [OF t e(1) this y]
  have a: "env_clock e2 = clock" "posts (li_world (env_world e2)) \<le> Suc (posts (li_world (env_world e)))"
    "\<And>interval'. y = Inr interval' \<Longrightarrow> (interval' = interval \<or> interval' = wrap64 (interval + 5 * second)) \<and> (\<exists>j < env_tick e2. clock i \<le> clock j)"
    using monoD [OF m, of i "Suc i"] e(2) order_trans by (auto split: if_splits)
  show ?thesis
  proof (cases y)
    case (Inl result)
    with y a show ?thesis by (simp add: poll_loop_ended)
  next
    case (Inr interval')
    then obtain j where j: "j < env_tick e2" "clock i \<le> clock j" "interval' = interval \<or> interval' = wrap64 (interval + 5 * second)"
      using a(3) by blast
    have "MinimumPollInterval \<le> interval'" "interval' + int 360 * MinimumPollInterval \<le> max_duration"
      using j(3) b by (auto simp: wrap64_id MinimumPollInterval_def second_def max_duration_def)
    moreover have "os_ExpiresAt v \<le> clock j + int 360 * MinimumPollInterval"
      using v j(2) by (simp add: MaximumFlowDuration_def MinimumPollInterval_def minute_def)
    ultimately obtain r e' where "poll_loop l state v interval' False e2 = Some (r, e')"
        "posts (li_world (env_world e')) \<le> posts (li_world (env_world e2)) + 360"
      using poll_loop_bounded [OF t m a(1) j(1)] by blast
    with a(2) poll_loop_again [of l state v interval True e interval' e2] y Inr show ?thesis by auto
  qed
qed

text \<open>C12: Polling for the token of a device flow always returns, whatever the token endpoint answers:
  with a clock that does not run backwards and waits that last, a flow of at most the maximal
  duration, as \<open>Start\<close> makes it, is asked for at most once and then every five seconds of its thirty
  minutes, 361 times in all. The stored poll interval is taken to be at most \<open>2 ^ 62\<close> nanoseconds, 146
  years, so that the five seconds a \<open>slow_down\<close> adds do not wrap around the 64 bits of a duration.\<close>

theorem device_poll_bounded:
  assumes "timer l posts (env_clock e)" "mono (env_clock e)"
    and "\<forall>v e1. device_flow l state e = (Inr v, e1) \<longrightarrow>
       os_ExpiresAt v \<le> env_clock e (env_tick e) + MaximumFlowDuration \<and> os_PollInterval v \<le> 2 ^ 62"
  shows "\<exists>r e'. device_poll l state e = Some (r, e') \<and> posts (li_world (env_world e')) \<le> posts (li_world (env_world e)) + 361"
proof (cases "device_flow l state e")
  case (Pair x e1)
  define now where "now = env_clock e (env_tick e)"
  have e1: "env_clock e1 = env_clock e" "env_tick e1 = Suc (env_tick e)" "posts (li_world (env_world e1)) = posts (li_world (env_world e))"
    using Pair by (auto simp: device_flow_def andThen_def time_Now_def in_db_def split: prod.splits)
  show ?thesis
  proof (cases x)
    case (Inl err)
    with Pair e1 show ?thesis by (simp add: device_poll_def)
  next
    case (Inr v)
    with assms(3) Pair have v: "os_ExpiresAt v \<le> now + MaximumFlowDuration" "os_PollInterval v \<le> 2 ^ 62" by (auto simp: now_def)
    show ?thesis
    proof (cases "os_Status v = ''authorized''")
      case True
      have "keeps (passes posts) (authorizedToken l state v)"
        unfolding authorizedToken_def device_fail_def device_expire_def by (intro poll_intros)
      from keepsD [OF this, of e1] have "posts (li_world (env_world (snd (authorizedToken l state v e1)))) = posts (li_world (env_world e1))"
        by (simp add: passes_def)
      with True Pair Inr e1(3) show ?thesis
        by (simp add: device_poll_def) (metis le_add1 prod.collapse)
    next
      case False
      define interval where "interval = max (os_PollInterval v) MinimumPollInterval"
      have "MinimumPollInterval \<le> interval" "interval \<le> 2 ^ 62"
        using v(2) by (auto simp: interval_def MinimumPollInterval_def second_def)
      with waiting_poll_bounded [OF assms(1,2) e1(1,2) v(1) [unfolded now_def]] False Pair Inr e1(3)
      show ?thesis by (simp add: device_poll_def interval_def)
    qed
  qed
qed

text \<open>A clock of nanoseconds, an endpoint where the user never confirms.\<close>

definition sample_xai_net :: xai_net where
  "sample_xai_net =
     \<lparr>xt_Scheme_Host = (\<lambda>u. Some (''https'', if hasPrefix u ''https://evil'' then ''evil.example'' else ''auth.x.ai'')), xt_ToLower = (\<lambda>s. s),
      xt_Document = (\<lambda>b. Some \<lparr>dd_issuer = xai_Issuer, dd_authorization = xai_Issuer @ ''/a'', dd_device = xai_Issuer @ ''/d'',
         dd_token = b, dd_jwks = xai_Issuer @ ''/j'', dd_algs = [''none'', ''RS256'']\<rparr>),
      xt_Device = (\<lambda>_. Some \<lparr>dp_DeviceCode = ''dc'', dp_UserCode = ''uc'', dp_VerificationURI = ''vu'', dp_VerificationURIComplete = [],
         dp_ExpiresIn = 600, dp_Interval = 5\<rparr>),
      xt_Raw = (\<lambda>_. Some [(''error'', JStr ''authorization_pending'')]), xt_Refresh = (\<lambda>_. None), xt_Claims = (\<lambda>_. Inr [])\<rparr>"

definition sample_device_payload :: oauth_payload where
  "sample_device_payload = empty_payload\<lparr>pp_State := ''Yg'', pp_DeviceCode := ''dc'', pp_UserCode := ''uc'', pp_VerificationURI := ''vu'',
     pp_TokenEndpoint := ''t''\<rparr>"

definition sample_device_login :: "nat xai_login" where
  "sample_device_login =
     \<lparr>xl_net = sample_xai_net, xl_options = withDefaults \<lparr>xo_ClientID = [], xo_Scopes = []\<rparr>,
      xl_repo = sample_codec (map (payload_json (sample_codec [])) [sample_device_payload]),
      xl_discover = (\<lambda>n. (Inr \<lparr>di_Issuer = xai_Issuer, di_AuthorizationEndpoint = ''a'', di_DeviceAuthorizationEndpoint = ''d'', di_TokenEndpoint = ''t'',
         di_JWKSURI = ''j'', di_IDTokenSigningAlgs = [''RS256'']\<rparr>, n)),
      xl_post = (\<lambda>_ _ n. (Inr \<lparr>hr_Status = 200, hr_Body = [], hr_BodyErr = None\<rparr>, Suc n)),
      xl_wait = (\<lambda>d e. (Inr (), e\<lparr>env_tick := env_tick e + nat d\<rparr>))\<rparr>"

definition sample_device_session :: oauth_session where
  "sample_device_session = xai_session\<lparr>os_State := ''Yg'', os_SessionID := ''bm4'', os_DeviceCode := ''dc'', os_UserCode := ''uc'',
     os_VerificationURI := ''vu'', os_TokenEndpoint := ''t'', os_PollInterval := 5 * second, os_ExpiresAt := 600 * second\<rparr>"

definition sample_xai_started :: "nat login" where
  "sample_xai_started = \<lparr>env_db = snd (oauth_Create (xl_repo sample_device_login) sample_device_session 0 (Inr []) (Inr ''nn'') empty_database),
     env_clock = int, env_tick = 0, env_world = \<lparr>li_world = 0, li_rand = (\<lambda>_. Inr ''nn''), li_draws = 0\<rparr>\<rparr>"

lemma sample_xai_timer: "timer sample_device_login (\<lambda>n. n) int"
proof -
  have "int i + d \<le> int j" if "i < t" "t + nat d \<le> j" for i j t d using that by linarith
  then show ?thesis by (auto simp: timer_def sample_device_login_def passes_def)
qed

lemma sample_xai_flow:
  "case fst (device_flow sample_device_login ''Yg'' sample_xai_started) of Inl e \<Rightarrow> False
   | Inr v \<Rightarrow> os_ExpiresAt v = 600 * second \<and> os_PollInterval v = 5 * second"
  by code_simp

lemma sample_xai_state:
  "env_tick sample_xai_started = 0" "li_world (env_world sample_xai_started) = 0" "env_clock sample_xai_started = int"
  by (simp_all add: sample_xai_started_def)

theorem device_poll_bounded_witness:
  "\<exists>r e'. device_poll sample_device_login ''Yg'' sample_xai_started = Some (r, e') \<and> li_world (env_world e') \<le> 361"
proof -
  have "os_ExpiresAt v \<le> env_clock sample_xai_started (env_tick sample_xai_started) + MaximumFlowDuration \<and> os_PollInterval v \<le> 2 ^ 62"
    if "device_flow sample_device_login ''Yg'' sample_xai_started = (Inr v, e1)" for v e1
    using that sample_xai_flow
    by (simp add: sample_xai_state MaximumFlowDuration_def minute_def second_def)
  moreover have "mono int" by (simp add: mono_def)
  ultimately show ?thesis
    using device_poll_bounded [of sample_device_login "\<lambda>n. n" sample_xai_started "''Yg''"] sample_xai_timer
    by (simp add: sample_xai_state)
qed

text \<open>A client is asked again and again, each time the address may answer differently.\<close>

fun discoveries ::
  "xai_net \<Rightarrow> string \<Rightarrow> (string \<Rightarrow> ('w, go_error, http_reply) op) list \<Rightarrow> discovery option \<times> 'w \<Rightarrow> (go_error + discovery) list" where
  "discoveries xt url [] s = []"
| "discoveries xt url (get # gets) s = (case Discover xt url get s of (r, s') \<Rightarrow> r # discoveries xt url gets s')"

lemma discoveries_agree:
  "\<forall>d. fst s = Some d \<longrightarrow> trusted_discovery xt d \<Longrightarrow> Inr d1 \<in> set (discoveries xt url gets s) \<Longrightarrow>
     trusted_discovery xt d1 \<and> (\<forall>d. fst s = Some d \<longrightarrow> d1 = d)"
proof (induction gets arbitrary: s)
  case (Cons get gets s)
  obtain r s' where r: "Discover xt url get s = (r, s')" by (metis prod.exhaust)
  obtain cached w cached' w' where s: "s = (cached, w)" "s' = (cached', w')" by fastforce
  have t: "\<forall>d. r = Inr d \<longrightarrow> trusted_discovery xt d \<and> cached' = Some d" "\<forall>d. cached' = Some d \<longrightarrow> trusted_discovery xt d"
    using Discover_trusted [of cached xt url get w r cached' w'] Cons.prems(1) r s by auto
  have k: "cached = Some d \<Longrightarrow> r = Inr d \<and> cached' = Some d" for d using r s by (simp add: Discover_def)
  from Cons.prems(2) r consider "r = Inr d1" | "Inr d1 \<in> set (discoveries xt url gets s')" by auto
  then show ?case
  proof cases
    case 1
    with t k s show ?thesis by (cases cached) auto
  next
    case 2
    with Cons.IH [of s'] t k s show ?thesis by (cases cached) auto
  qed
qed simp

lemma discoveries_equal:
  "\<forall>d. fst s = Some d \<longrightarrow> trusted_discovery xt d \<Longrightarrow> Inr d1 \<in> set (discoveries xt url gets s) \<Longrightarrow>
     Inr d2 \<in> set (discoveries xt url gets s) \<Longrightarrow> d2 = d1"
proof (induction gets arbitrary: s)
  case (Cons get gets s)
  obtain r s' where r: "Discover xt url get s = (r, s')" by (metis prod.exhaust)
  obtain cached w cached' w' where s: "s = (cached, w)" "s' = (cached', w')" by fastforce
  have t: "\<forall>d. r = Inr d \<longrightarrow> trusted_discovery xt d \<and> cached' = Some d" "\<forall>d. cached' = Some d \<longrightarrow> trusted_discovery xt d"
    using Discover_trusted [of cached xt url get w r cached' w'] Cons.prems(1) r s by auto
  show ?case
  proof (cases r)
    case (Inl err)
    with Cons.prems(2,3) Cons.IH [of s'] t(2) r s show ?thesis by auto
  next
    case (Inr d)
    have "d' = d" if "Inr d' \<in> set (discoveries xt url (get # gets) s)" for d'
      using that discoveries_agree [of s' xt d' url gets] t r s Inr by auto
    with Cons.prems(2,3) show ?thesis by blast
  qed
qed simp

text \<open>C13: Whatever the discovery address answers, every discovery that succeeds names the issuer of xAI,
  endpoints that are HTTPS addresses of x.ai or a subdomain, and only supported signing algorithms, at
  least one; and all successful discoveries of one client agree, in calls made one after the other and
  in calls that overlap in any way, where several may fetch documents of their own at the same time.\<close>

theorem discoveries_trusted:
  "(\<forall>d1 d2. Inr d1 \<in> set (discoveries xt url gets (None, w)) \<longrightarrow> Inr d2 \<in> set (discoveries xt url gets (None, w)) \<longrightarrow>
      trusted_discovery xt d1 \<and> d2 = d1) \<and>
   (\<forall>i j d1 d2. (i, Inr d1) \<in> set (dv_results (discovery_run xt url evs (new_discovery_client w))) \<longrightarrow>
      (j, Inr d2) \<in> set (dv_results (discovery_run xt url evs (new_discovery_client w))) \<longrightarrow>
      trusted_discovery xt d1 \<and> d2 = d1)"
proof (intro conjI [OF allI [OF allI [OF impI [OF impI]]] allI [OF allI [OF allI [OF allI [OF impI [OF impI]]]]]])
  fix d1 d2 assume d: "Inr d1 \<in> set (discoveries xt url gets (None, w))" "Inr d2 \<in> set (discoveries xt url gets (None, w))"
  show "trusted_discovery xt d1 \<and> d2 = d1" using discoveries_agree [OF _ d(1)] discoveries_equal [OF _ d] by simp
qed (rule overlapping_discoveries)

definition sample_discovery_get :: "string \<Rightarrow> string \<Rightarrow> (unit, go_error, http_reply) op" where
  "sample_discovery_get token = (\<lambda>_ w. (Inr \<lparr>hr_Status = 200, hr_Body = token, hr_BodyErr = None\<rparr>, w))"

lemma sample_accepted:
  "accept_document sample_xai_net (the (xt_Document sample_xai_net ''https://auth.x.ai/t'')) =
     Inr \<lparr>di_Issuer = xai_Issuer, di_AuthorizationEndpoint = xai_Issuer @ ''/a'', di_DeviceAuthorizationEndpoint = xai_Issuer @ ''/d'',
       di_TokenEndpoint = ''https://auth.x.ai/t'', di_JWKSURI = xai_Issuer @ ''/j'', di_IDTokenSigningAlgs = [''RS256'']\<rparr>"
  "isl (accept_document sample_xai_net (the (xt_Document sample_xai_net ''https://evil.example/t'')))"
  "accept_document sample_xai_net (the (xt_Document sample_xai_net ''https://x.ai/t'')) =
     Inr \<lparr>di_Issuer = xai_Issuer, di_AuthorizationEndpoint = xai_Issuer @ ''/a'', di_DeviceAuthorizationEndpoint = xai_Issuer @ ''/d'',
       di_TokenEndpoint = ''https://x.ai/t'', di_JWKSURI = xai_Issuer @ ''/j'', di_IDTokenSigningAlgs = [''RS256'']\<rparr>"
  "\<not> isl (ValidateEndpoint sample_xai_net DiscoveryURL ''URL'')"
  by code_simp+

lemma sample_document: "xt_Document sample_xai_net b = Some (the (xt_Document sample_xai_net b))"
  by (simp add: sample_xai_net_def)

lemma sample_fetch:
  assumes "length b \<le> 1048576"
  shows "fetch_discovery sample_xai_net DiscoveryURL (sample_discovery_get b) () =
     (accept_document sample_xai_net (the (xt_Document sample_xai_net b)), ())"
proof -
  have r: "read_reply \<lparr>hr_Status = 200, hr_Body = b, hr_BodyErr = None\<rparr> = Inr b" using assms by (simp add: read_reply_def)
  obtain u where u: "ValidateEndpoint sample_xai_net DiscoveryURL ''URL'' = Inr u"
    using sample_accepted(4) by (cases "ValidateEndpoint sample_xai_net DiscoveryURL ''URL''") auto
  show ?thesis
    unfolding fetch_discovery_def
    by (subst sample_document) (simp add: u r sample_discovery_get_def andThen_def attempt_def lift_result_def reject_def ret_def raise_def split: sum.split)
qed

lemma sample_Discover:
  assumes "length b \<le> 1048576"
  shows "Discover sample_xai_net DiscoveryURL (sample_discovery_get b) (None, ()) =
     (case accept_document sample_xai_net (the (xt_Document sample_xai_net b)) of
        Inl e \<Rightarrow> (Inl e, (None, ())) | Inr d \<Rightarrow> (Inr d, (Some d, ())))"
  by (simp add: Discover_def sample_fetch [OF assms] publish_discovery_def split: sum.split)

lemma sample_discovery:
  "\<exists>d. Inr d \<in> set (discoveries sample_xai_net DiscoveryURL
      [sample_discovery_get ''https://evil.example/t'', sample_discovery_get ''https://auth.x.ai/t'', sample_discovery_get ''https://x.ai/t''] (None, ()))
    \<and> di_TokenEndpoint d = ''https://auth.x.ai/t''"
proof -
  obtain e where "accept_document sample_xai_net (the (xt_Document sample_xai_net ''https://evil.example/t'')) = Inl e"
    using sample_accepted(2) by (auto simp: isl_def)
  then show ?thesis
    by (intro exI [where x = "projr (accept_document sample_xai_net (the (xt_Document sample_xai_net ''https://auth.x.ai/t'')))"])
      (simp add: sample_Discover sample_accepted(1))
qed

text \<open>Two overlapping calls fetch different documents; both return the one that was published first.\<close>

abbreviation overlap :: "unit discovery_event list" where
  "overlap \<equiv> [DRead 1, DRead 2, DFetch 1 (sample_discovery_get ''https://auth.x.ai/t''), DFetch 2 (sample_discovery_get ''https://x.ai/t''),
     DPublish 2, DPublish 1]"

lemma sample_overlap:
  "\<exists>d. dv_results (discovery_run sample_xai_net DiscoveryURL overlap (new_discovery_client ())) = [(1, Inr d), (2, Inr d)] \<and>
     di_TokenEndpoint d = ''https://x.ai/t''"
  by (simp add: discovery_run_def new_discovery_client_def sample_fetch sample_accepted(1,3) publish_discovery_def)

theorem discoveries_trusted_witness:
  "(\<exists>d. Inr d \<in> set (discoveries sample_xai_net DiscoveryURL
      [sample_discovery_get ''https://evil.example/t'', sample_discovery_get ''https://auth.x.ai/t'', sample_discovery_get ''https://x.ai/t''] (None, ()))
    \<and> on_xai sample_xai_net (di_TokenEndpoint d) \<and> di_TokenEndpoint d = ''https://auth.x.ai/t'') \<and>
   (\<exists>d. dv_results (discovery_run sample_xai_net DiscoveryURL overlap (new_discovery_client ())) = [(1, Inr d), (2, Inr d)] \<and>
     on_xai sample_xai_net (di_TokenEndpoint d) \<and> di_TokenEndpoint d = ''https://x.ai/t'')"
proof -
  obtain d where d: "Inr d \<in> set (discoveries sample_xai_net DiscoveryURL
      [sample_discovery_get ''https://evil.example/t'', sample_discovery_get ''https://auth.x.ai/t'', sample_discovery_get ''https://x.ai/t''] (None, ()))"
    "di_TokenEndpoint d = ''https://auth.x.ai/t''"
    using sample_discovery by (elim exE conjE)
  from conjunct1 [OF discoveries_trusted, rule_format, OF d(1) d(1)] have a: "on_xai sample_xai_net (di_TokenEndpoint d)"
    by (simp only: trusted_discovery_def)
  obtain d' where d': "dv_results (discovery_run sample_xai_net DiscoveryURL overlap (new_discovery_client ())) = [(1, Inr d'), (2, Inr d')]"
    "di_TokenEndpoint d' = ''https://x.ai/t''"
    using sample_overlap by (elim exE conjE)
  have m: "(1, Inr d') \<in> set (dv_results (discovery_run sample_xai_net DiscoveryURL overlap (new_discovery_client ())))"
    unfolding d'(1) by simp
  from conjunct2 [OF discoveries_trusted, rule_format, OF m m] have b: "on_xai sample_xai_net (di_TokenEndpoint d')"
    by (simp only: trusted_discovery_def)
  show ?thesis by (intro conjI exI [of _ d] exI [of _ d'] d a d' b)
qed

end
