(* ===== verification/Xai_Lifecycle.thy ===== *)
theory Xai_Lifecycle
  imports Xai_OAuth
begin

text \<open>
  What xAI accounts live through (\<open>oauth/xai/refresh.go\<close>, \<open>provider_credentials.go\<close>, \<open>identity.go\<close>,
  \<open>provider_lifecycle.go\<close> and the rest of \<open>device.go\<close>): refreshing tokens, handing out credentials, and the
  provider-neutral lifecycle around the device flow. The OIDC verifier is a parameter. The flights of
  \<open>singleflight\<close> are not represented: a call runs alone. Polls in memory are not stopped by \<open>Stop\<close>, which
  is the failure of their \<open>wait\<close>.

  Shown: a refresh stores the rotated tokens of the account; a refused refresh token disables it; a login
  stores the verified identity and completes its session; reconnecting does not enable the account again.
\<close>

section \<open>Refreshing\<close>

definition NeedsRefresh :: "account \<Rightarrow> time \<Rightarrow> bool" where
  "NeedsRefresh a now \<longleftrightarrow> (case acc_ExpiresAt a of None \<Rightarrow> False | Some expires \<Rightarrow> \<not> time_after expires (now + RefreshLead))"

definition CredentialsUsable :: "account \<Rightarrow> time \<Rightarrow> bool" where
  "CredentialsUsable a now \<longleftrightarrow>
     trimSpace (ac_AccessToken (acc_Credentials a)) \<noteq> [] \<and>
     (\<not> NeedsRefresh a now \<or>
      trimSpace (ac_RefreshToken (acc_Credentials a)) \<noteq> [] \<and> trimSpace (ac_TokenEndpoint (acc_Credentials a)) \<noteq> [])"

definition wrong_account :: "string \<Rightarrow> go_error" where
  "wrong_account accountID = Wrapf (''account '' @ accountID @ '' is not an xAI account'') [ErrProviderMismatch]"

definition rotated :: "account_credentials \<Rightarrow> refresh_payload \<Rightarrow> account_credentials" where
  "rotated c p =
     c\<lparr>ac_AccessToken := rp_AccessToken p,
       ac_RefreshToken := (if rp_RefreshToken p \<noteq> [] then rp_RefreshToken p else ac_RefreshToken c),
       ac_IDToken := (if rp_IDToken p \<noteq> [] then rp_IDToken p else ac_IDToken c)\<rparr>"

text \<open>\<open>AccountRepository.UpsertLogin\<close>, which reads the clock itself.\<close>

definition UpsertLogin :: "account_repository \<Rightarrow> account \<Rightarrow> ('w login, go_error, account) op" where
  "UpsertLogin ra a =
     andThen time_Now (\<lambda>now. andThen draw (\<lambda>nonce. andThen draw (\<lambda>idRnd. in_db (upsertLogin ra a now nonce idRnd))))"

definition refresh_form :: "xai_options \<Rightarrow> string \<Rightarrow> form" where
  "refresh_form o1 token = [(''grant_type'', ''refresh_token''), (''refresh_token'', token), (''client_id'', xo_ClientID o1)]"

text \<open>What is done with the reply.\<close>

definition refresh_store :: "'w xai_login \<Rightarrow> account_repository \<Rightarrow> account \<Rightarrow> http_reply \<Rightarrow> ('w login, go_error, account) op" where
  "refresh_store l ra a r =
     andThen (lift_result (read_reply r)) (\<lambda>body.
     case xt_Refresh (xl_net l) body of
       None \<Rightarrow> raise (ErrNew ''invalid xAI refresh response'')
     | Some p \<Rightarrow>
         if rp_Error p = ''invalid_grant'' then
           attempt (in_db (account_MarkReloginRequired (acc_ID a) XAI)) (\<lambda>m. case m of
             Inl e \<Rightarrow> raise (Wrapf [] [OAuthError ''invalid_grant'', e])
           | Inr _ \<Rightarrow> raise (Wrapf [] [OAuthError ''invalid_grant'']))
         else reject (hr_Status r < 200 \<or> 300 \<le> hr_Status r \<or> rp_AccessToken p = []) (ErrNew (''xAI refresh returned HTTP '' @ itoa (hr_Status r)))
           (andThen time_Now (\<lambda>now.
            UpsertLogin ra (a\<lparr>acc_Credentials := rotated (acc_Credentials a) p, acc_ExpiresAt := Some (now + wrap64 (rp_ExpiresIn p * second)),
              acc_LastRefreshAt := Some now, acc_Status := ''ready''\<rparr>))))"

definition xai_refresh :: "'w xai_login \<Rightarrow> account_repository \<Rightarrow> string \<Rightarrow> ('w login, go_error, account) op" where
  "xai_refresh l ra accountID =
     andThen (in_db (account_Get ra accountID)) (\<lambda>a.
     reject (acc_Provider a \<noteq> XAI) (wrong_account accountID)
     (reject (trimSpace (ac_RefreshToken (acc_Credentials a)) = []) (ErrNew ''account has no refresh token'')
     (andThen (outside (xl_post l (ac_TokenEndpoint (acc_Credentials a)) (refresh_form (xl_options l) (ac_RefreshToken (acc_Credentials a))))) (\<lambda>r.
      refresh_store l ra a r))))"


section \<open>Credentials\<close>

definition providerCredentialError :: "go_error \<Rightarrow> go_error" where
  "providerCredentialError err =
     (case as_upstream err of
        Some u \<Rightarrow> xai_failure (ue_Status u) (ue_Classification u)
      | None \<Rightarrow>
          if as_oauth err = Some ''invalid_grant'' then
            xai_failure 401 (empty_classification\<lparr>ec_Class := ClassInvalidGrant, ec_RetryNext := True, ec_DisableAccount := True,
              ec_ReloginRequired := True, ec_CooldownScope := CooldownAccount, ec_PublicStatus := 401,
              ec_PublicCode := ''provider_authentication_error'', ec_PublicMessage := ''account requires login''\<rparr>)
          else if errors_is err ErrCanceled then
            xai_failure 0 (xai_upstream\<lparr>ec_Class := ClassCancelled, ec_PublicStatus := 408, ec_PublicCode := ''request_cancelled'',
              ec_PublicMessage := ''provider request cancelled''\<rparr>)
          else if is_net_error err then
            xai_failure 0 (xai_upstream\<lparr>ec_Class := ClassConnection, ec_RetryNext := True, ec_PublicStatus := 503,
              ec_PublicCode := ''provider_unavailable''\<rparr>)
          else xai_failure 0 xai_upstream)"

definition xaiAccount :: "account_repository \<Rightarrow> string \<Rightarrow> ('w login, go_error, account) op" where
  "xaiAccount ra accountID =
     andThen (in_db (account_Get ra accountID)) (\<lambda>a. reject (acc_Provider a \<noteq> XAI) (wrong_account accountID) (ret a))"

definition not_xai :: "string \<Rightarrow> go_error" where
  "not_xai accountID = ErrNew (''account '' @ accountID @ '' is not an xAI account'')"

definition xai_CredentialUsable :: "account_repository \<Rightarrow> string \<Rightarrow> ('w login, go_error, bool) op" where
  "xai_CredentialUsable ra accountID =
     andThen (in_db (account_Get ra accountID)) (\<lambda>a.
     reject (acc_Provider a \<noteq> XAI) (not_xai accountID)
     (if \<not> acc_Enabled a \<or> acc_Status a \<noteq> ''ready'' then ret False
      else andThen time_Now (\<lambda>now. ret (CredentialsUsable a now))))"

definition xai_NeedsRefresh :: "account_repository \<Rightarrow> string \<Rightarrow> time \<Rightarrow> ('w login, go_error, bool) op" where
  "xai_NeedsRefresh ra accountID now = andThen (xaiAccount ra accountID) (\<lambda>a. ret (NeedsRefresh a now))"

text \<open>The refresher of the manager may be missing.\<close>

type_synonym 'w refresher = "(string \<Rightarrow> ('w login, go_error, account) op) option"

definition refreshed :: "'w refresher \<Rightarrow> string \<Rightarrow> ('w login, go_error, account) op" where
  "refreshed rf accountID =
     (case rf of
        None \<Rightarrow> raise (ErrNew ''xAI credential refresh is unavailable'')
      | Some refresh \<Rightarrow> attempt (refresh accountID) (\<lambda>r. case r of Inl e \<Rightarrow> raise (providerCredentialError e) | Inr a \<Rightarrow> ret a))"

definition xai_Refresh :: "account_repository \<Rightarrow> 'w refresher \<Rightarrow> string \<Rightarrow> ('w login, go_error, unit) op" where
  "xai_Refresh ra rf accountID = andThen (xaiAccount ra accountID) (\<lambda>_. andThen (refreshed rf accountID) (\<lambda>_. ret ()))"

definition credential_of :: "account \<Rightarrow> go_error + credential" where
  "credential_of a =
     (let token = trimSpace (ac_AccessToken (acc_Credentials a)) in
      if token = [] then Inl (ErrNew ''xAI account has no access token'') else Inr token)"

definition xai_Credential :: "account_repository \<Rightarrow> 'w refresher \<Rightarrow> string \<Rightarrow> ('w login, go_error, credential) op" where
  "xai_Credential ra rf accountID =
     andThen (in_db (account_Get ra accountID)) (\<lambda>a.
     reject (acc_Provider a \<noteq> XAI) (not_xai accountID)
     (reject (\<not> acc_Enabled a \<or> acc_Status a \<noteq> ''ready'') (ErrNew ''xAI account is not ready'')
     (andThen time_Now (\<lambda>now.
      andThen (if NeedsRefresh a now then refreshed rf accountID else ret a) (\<lambda>a'. lift_result (credential_of a'))))))"

definition xai_AuthenticationFailed :: "'w refresher \<Rightarrow> string \<Rightarrow> upstream_error \<Rightarrow> ('w login, go_error, unit) op" where
  "xai_AuthenticationFailed rf accountID upstream =
     reject (ue_Provider upstream \<noteq> XAI \<or> ec_Class (ue_Classification upstream) \<noteq> ClassUnauthorized)
       (ErrNew ''xAI authentication recovery requires an unauthorized xAI error'')
       (andThen (refreshed rf accountID) (\<lambda>_. ret ()))"

definition xai_credentials :: "account_repository \<Rightarrow> 'w refresher \<Rightarrow> 'w login credential_manager" where
  "xai_credentials ra rf =
     \<lparr>cm_Credential = xai_Credential ra rf, cm_AuthenticationFailed = xai_AuthenticationFailed rf,
      cm_CredentialUsable = Some (xai_CredentialUsable ra)\<rparr>"


section \<open>The device flow service\<close>

definition device_Get :: "'w xai_login \<Rightarrow> string \<Rightarrow> ('w login, go_error, oauth_session) op" where
  "device_Get l state = in_db (oauth_Get (xl_repo l) XAI OAuthFlowDevice state)"

definition device_ListResumable :: "'w xai_login \<Rightarrow> ('w login, go_error, oauth_session list) op" where
  "device_ListResumable l = andThen time_Now (\<lambda>now. in_db (oauth_ListResumable (xl_repo l) XAI OAuthFlowDevice now))"

definition device_Complete :: "'w xai_login \<Rightarrow> string \<Rightarrow> string \<Rightarrow> ('w login, go_error, unit) op" where
  "device_Complete l state accountID =
     andThen time_Now (\<lambda>now. sealing (\<lambda>n. oauth_Complete (xl_repo l) XAI OAuthFlowDevice state accountID n now))"

definition device_Fail :: "'w xai_login \<Rightarrow> string \<Rightarrow> string \<Rightarrow> ('w login, go_error, unit) op" where
  "device_Fail l state sanitized =
     andThen time_Now (\<lambda>now. sealing (\<lambda>n. oauth_Fail (xl_repo l) XAI OAuthFlowDevice state sanitized n now))"

definition device_GetBySessionID :: "'w xai_login \<Rightarrow> string \<Rightarrow> ('w login, go_error, oauth_session) op" where
  "device_GetBySessionID l sessionID = in_db (oauth_GetBySessionID (xl_repo l) XAI OAuthFlowDevice sessionID)"

definition device_Cancel :: "'w xai_login \<Rightarrow> string \<Rightarrow> ('w login, go_error, unit) op" where
  "device_Cancel l state =
     andThen time_Now (\<lambda>now. sealing (\<lambda>n. oauth_Cancel (xl_repo l) XAI OAuthFlowDevice state ''Device authorization was cancelled.'' n now))"

definition device_CancelBySessionID :: "'w xai_login \<Rightarrow> string \<Rightarrow> string \<Rightarrow> ('w login, go_error, unit) op" where
  "device_CancelBySessionID l sessionID sanitized =
     andThen (device_GetBySessionID l sessionID) (\<lambda>_. andThen time_Now (\<lambda>now.
     sealing (\<lambda>n. oauth_CancelBySessionID (xl_repo l) XAI OAuthFlowDevice sessionID sanitized n now)))"


section \<open>Identities\<close>

text \<open>\<open>xf_token\<close> is the OIDC verifier: the verified token with its subject and its claims, if they decode.\<close>

record id_token =
  it_Subject :: string
  it_Claims :: "jobject option"

record identity =
  id_Issuer :: string
  id_Subject :: string
  id_Email :: string
  id_Claims :: jobject

record 'w xai_lifecycle =
  xf_login :: "'w xai_login"
  xf_accounts :: account_repository
  xf_issuer :: string
  xf_token :: "string \<Rightarrow> ('w, go_error, id_token) op"

definition identity_of :: "string \<Rightarrow> go_error + id_token \<Rightarrow> go_error + identity" where
  "identity_of issuer r =
     (case r of
        Inl e \<Rightarrow> Inl (ErrNew ''invalid xAI ID token'')
      | Inr t \<Rightarrow>
          (case it_Claims t of
             None \<Rightarrow> Inl (ErrNew ''invalid xAI ID token claims'')
           | Some claims \<Rightarrow>
               let subject = trimSpace (it_Subject t) in
               if subject = [] then Inl (ErrNew ''xAI ID token missing subject'')
               else Inr \<lparr>id_Issuer = issuer, id_Subject = subject, id_Email = str_or_empty (jget claims ''email''), id_Claims = claims\<rparr>))"

definition identity_Verify :: "'w xai_lifecycle \<Rightarrow> string \<Rightarrow> ('w login, go_error, identity) op" where
  "identity_Verify l raw = attempt (outside (xf_token l raw)) (\<lambda>r. lift_result (identity_of (xf_issuer l) r))"


section \<open>The lifecycle\<close>

definition authorizationProjection :: "string \<Rightarrow> string \<Rightarrow> string \<Rightarrow> string \<Rightarrow> time \<Rightarrow> duration \<Rightarrow> authorization" where
  "authorizationProjection sessionID userCode verificationURL completeURL expiresAt interval =
     (let complete = trimSpace completeURL in
      \<lparr>au_Ref = \<lparr>rf_Provider = XAI, rf_State = [], rf_SessionID = sessionID\<rparr>, au_SessionID = sessionID, au_UserCode = userCode,
       au_VerificationURL = (if complete = [] then trimSpace verificationURL else complete),
       au_VerificationURLComplete = complete, au_ExpiresAt = expiresAt, au_PollInterval = interval\<rparr>)"

definition sessionProjection :: "oauth_session \<Rightarrow> go_error + authorization_session" where
  "sessionProjection v =
     (if os_Status v \<notin> {''pending'', ''authorized'', ''consumed'', ''completed'', ''failed'', ''expired'', ''cancelled''}
      then Inl (ErrNew ''xAI authorization has an invalid status'')
      else Inr \<lparr>as_Authorization = authorizationProjection (os_SessionID v) (os_UserCode v) (os_VerificationURI v)
             (os_VerificationURIComplete v) (os_ExpiresAt v) (os_PollInterval v),
           as_Status = os_Status v, as_AccountID = os_AccountID v, as_SanitizedMessage = os_SanitizedError v\<rparr>)"

definition requireXAIManagementRef :: "authorization_ref \<Rightarrow> go_error option" where
  "requireXAIManagementRef ref =
     (if rf_Provider ref \<noteq> XAI then Some (Wrapf ''xAI authorization reference'' [ErrProviderMismatch])
      else if trimSpace (rf_SessionID ref) = [] then Some (ErrNew ''xAI authorization session id is required'') else None)"

definition xai_Start :: "'w xai_lifecycle \<Rightarrow> ('w login, go_error, authorization) op" where
  "xai_Start l =
     andThen (device_Start (xf_login l)) (\<lambda>f.
     ret (authorizationProjection (da_SessionID f) (da_UserCode f) (da_VerificationURI f) (da_VerificationURIComplete f) (da_ExpiresAt f) (da_PollInterval f)))"

definition xai_Status :: "'w xai_lifecycle \<Rightarrow> authorization_ref \<Rightarrow> ('w login, go_error, authorization_session) op" where
  "xai_Status l ref =
     guard_error (requireXAIManagementRef ref)
     (andThen (device_GetBySessionID (xf_login l) (rf_SessionID ref)) (\<lambda>v. lift_result (sessionProjection v)))"

definition unverified :: "'w xai_lifecycle \<Rightarrow> string \<Rightarrow> ('w login, go_error, 'a) op" where
  "unverified l state =
     andThen (device_fail (xf_login l) state ''The identity token could not be verified.'') (\<lambda>_.
     raise (ErrNew ''xAI identity token could not be verified''))"

definition token_expiry :: "token_response \<Rightarrow> ('w login, go_error, time) op" where
  "token_expiry token =
     (if time_is_zero (tr_ExpiresAt token) then andThen time_Now (\<lambda>now. ret (now + wrap64 (tr_ExpiresIn token * second)))
      else ret (tr_ExpiresAt token))"

definition xai_login_account :: "identity \<Rightarrow> string \<Rightarrow> token_response \<Rightarrow> time \<Rightarrow> account" where
  "xai_login_account i claims token expires =
     \<lparr>acc_Provider = XAI, acc_ID = [], acc_Label = [], acc_Enabled = False, acc_Status = ''ready'',
      acc_Credentials = \<lparr>ac_Issuer = id_Issuer i, ac_Subject = id_Subject i, ac_Email = id_Email i, ac_AccessToken = tr_AccessToken token,
        ac_RefreshToken = tr_RefreshToken token, ac_IDToken = tr_IDToken token, ac_TokenEndpoint = tr_TokenEndpoint token, ac_RawIdentity = claims,
        ac_OpaqueToken = [], ac_OpaqueTokenExpiresAt = None\<rparr>,
      acc_ExpiresAt = Some expires, acc_LastRefreshAt = None, acc_LastError = [], acc_CreatedAt = zero_time, acc_UpdatedAt = zero_time\<rparr>"

text \<open>The part of \<open>complete\<close> behind \<open>Poll\<close>.\<close>

definition store_identity :: "'w xai_lifecycle \<Rightarrow> string \<Rightarrow> token_response \<Rightarrow> ('w login, go_error, account_result) op" where
  "store_identity l state token =
     attempt (identity_Verify l (tr_IDToken token)) (\<lambda>r. case r of
       Inl err \<Rightarrow> if errors_is err ErrCanceled \<or> errors_is err ErrDeadlineExceeded then raise err else unverified l state
     | Inr identity \<Rightarrow>
         (case xt_Claims (xl_net (xf_login l)) (id_Claims identity) of
            Inl _ \<Rightarrow> unverified l state
          | Inr claims \<Rightarrow>
              andThen (token_expiry token) (\<lambda>expires.
              attempt (UpsertLogin (xf_accounts l) (xai_login_account identity claims token expires)) (\<lambda>u. case u of
                Inl _ \<Rightarrow> raise (ErrNew ''xAI account could not be saved'')
              | Inr a \<Rightarrow>
                  andThen (device_Complete (xf_login l) state (acc_ID a)) (\<lambda>_. ret \<lparr>re_Provider = XAI, re_AccountID = acc_ID a\<rparr>)))))"

definition completed_before :: "'w xai_lifecycle \<Rightarrow> oauth_session \<Rightarrow> ('w login, go_error, account_result) op" where
  "completed_before l v =
     reject (trimSpace (os_AccountID v) = []) (ErrNew ''completed xAI authorization is missing its account'')
     (andThen (in_db (account_Get (xf_accounts l) (os_AccountID v))) (\<lambda>_. ret \<lparr>re_Provider = XAI, re_AccountID = os_AccountID v\<rparr>))"

definition xai_complete :: "'w xai_lifecycle \<Rightarrow> string \<Rightarrow> 'w login \<Rightarrow> ((go_error + account_result) \<times> 'w login) option" where
  "xai_complete l sessionID e =
     (case device_GetBySessionID (xf_login l) sessionID e of
        (Inl err, e') \<Rightarrow> Some (Inl err, e')
      | (Inr v, e') \<Rightarrow>
          if os_Status v = ''completed'' then Some (completed_before l v e')
          else (case device_poll (xf_login l) (os_State v) e' of
                  None \<Rightarrow> None
                | Some (Inl err, e'') \<Rightarrow> Some (Inl err, e'')
                | Some (Inr token, e'') \<Rightarrow> Some (store_identity l (os_State v) token e'')))"

definition xai_Complete ::
  "'w xai_lifecycle \<Rightarrow> authorization_ref \<Rightarrow> string \<Rightarrow> 'w login \<Rightarrow> ((go_error + account_result) \<times> 'w login) option" where
  "xai_Complete l ref code e =
     (case requireXAIManagementRef ref of
        Some err \<Rightarrow> Some (Inl err, e)
      | None \<Rightarrow>
          if code \<noteq> [] then Some (Inl (ErrNew ''xAI authorization does not accept a callback code''), e)
          else xai_complete l (rf_SessionID ref) e)"

definition xai_Cancel :: "'w xai_lifecycle \<Rightarrow> authorization_ref \<Rightarrow> ('w login, go_error, unit) op" where
  "xai_Cancel l ref =
     guard_error (requireXAIManagementRef ref)
     (attempt (device_CancelBySessionID (xf_login l) (rf_SessionID ref) ''Device authorization was cancelled.'') (\<lambda>r. case r of
        Inl err \<Rightarrow> raise (if errors_is err ErrOAuthTerminalConflict then ErrOAuthConflict else err)
      | Inr u \<Rightarrow> ret u))"

fun project_all :: "oauth_session list \<Rightarrow> go_error + authorization_session list" where
  "project_all [] = Inr []"
| "project_all (v # vs) = orFail (sessionProjection v) (\<lambda>p. orFail (project_all vs) (\<lambda>ps. Inr (p # ps)))"

definition xai_Resume :: "'w xai_lifecycle \<Rightarrow> ('w login, go_error, authorization_session list) op" where
  "xai_Resume l = andThen (device_ListResumable (xf_login l)) (\<lambda>vs. lift_result (project_all vs))"


section \<open>Properties\<close>

definition account_at :: "account_repository \<Rightarrow> string \<Rightarrow> 'w login \<Rightarrow> account \<Rightarrow> bool" where
  "account_at ra accountID e a \<longleftrightarrow> (\<exists>row. row_get ar_id accountID (db_accounts (env_db e)) = Some row \<and> account_scan ra row = Inr a)"

lemma in_db_returns: "in_db m e = (Inr x, e') \<longleftrightarrow> (\<exists>d'. m (env_db e) = (Inr x, d') \<and> e' = e\<lparr>env_db := d'\<rparr>)"
  by (auto simp: in_db_def split: prod.splits)

lemma outside_returns:
  "outside m e = (r, e') \<longleftrightarrow> (\<exists>w'. m (li_world (env_world e)) = (r, w') \<and> e' = e\<lparr>env_world := (env_world e)\<lparr>li_world := w'\<rparr>\<rparr>)"
  by (auto simp: outside_def split: prod.splits)

text \<open>What a stored login leaves behind.\<close>

lemma UpsertLogin_row:
  assumes "UpsertLogin ra a e = (Inr b, e')"
  obtains fp i enc payload row now nonce where
    "fingerprint_account ra (acc_Provider a) (acc_Credentials a) = Inr fp"
    "rk_marshal ra (acc_Credentials a) = Inr payload"
    "li_rand (env_world e) (li_draws (env_world e)) = nonce" "Encrypt (rk_aead ra) (k_oauth (rk_keys ra)) nonce payload = Inr enc"
    "row_get ar_fingerprint fp (db_accounts (env_db e')) = Some row" "account_scan ra row = Inr b"
    "row = (case row_get ar_fingerprint fp (db_accounts (env_db e)) of None \<Rightarrow> login_row a i fp enc now
       | Some old \<Rightarrow> relogin_row (login_row a i fp enc now) old)"
    "\<And>old. row_get ar_fingerprint fp (db_accounts (env_db e)) = Some old \<Longrightarrow> ar_provider old = acc_Provider a"
proof -
  from assms obtain idRnd where u: "upsertLogin ra a (env_clock e (env_tick e)) (li_rand (env_world e) (li_draws (env_world e))) idRnd (env_db e) = (Inr b, env_db e')"
    by (auto simp: UpsertLogin_def andThen_def time_Now_def draw_def in_db_def Let_def split: prod.splits)
  show thesis by (rule upsertLogin_row [OF u], rule that) auto
qed

lemma stored_credentials:
  assumes "account_codec_laws ra" "Encrypt (rk_aead ra) (k_oauth (rk_keys ra)) nonce payload = Inr enc"
    and "\<forall>n. nonce = Inr n \<longrightarrow> length n = ad_NonceSize (rk_aead ra)" "rk_marshal ra c = Inr payload"
    and "account_scan ra row = Inr b" "ar_credentials row = enc"
  shows "acc_Credentials b = c"
proof -
  obtain n where n: "nonce = Inr n" using assms(2) by (cases nonce) (auto simp: Encrypt_def)
  then have "Decrypt (rk_aead ra) (k_oauth (rk_keys ra)) enc = Inr payload"
    using Decrypt_Encrypt assms(1-3) by (auto simp: account_codec_laws_def)
  moreover have "rk_unmarshal ra payload = Some c" using assms(1,4) by (simp add: account_codec_laws_def)
  ultimately show ?thesis using assms(5,6) by (auto simp: account_scan_def split: sum.splits if_splits)
qed

text \<open>What a refreshed account is before it is stored.\<close>

definition renewed :: "account \<Rightarrow> refresh_payload \<Rightarrow> time \<Rightarrow> account" where
  "renewed a p now = a\<lparr>acc_Credentials := rotated (acc_Credentials a) p, acc_ExpiresAt := Some (now + wrap64 (rp_ExpiresIn p * second)),
     acc_LastRefreshAt := Some now, acc_Status := ''ready''\<rparr>"

lemma refresh_posted:
  assumes "xai_refresh l ra accountID e = (Inr b, e')"
  obtains a reply body p now w' e3 where "account_at ra accountID e a" "acc_Provider a = XAI"
    "xl_post l (ac_TokenEndpoint (acc_Credentials a)) (refresh_form (xl_options l) (ac_RefreshToken (acc_Credentials a))) (li_world (env_world e)) = (Inr reply, w')"
    "read_reply reply = Inr body" "xt_Refresh (xl_net l) body = Some p" "200 \<le> hr_Status reply" "hr_Status reply < 300" "rp_AccessToken p \<noteq> []"
    "UpsertLogin ra (renewed a p now) e3 = (Inr b, e')" "env_world e3 = (env_world e)\<lparr>li_world := w'\<rparr>" "db_accounts (env_db e3) = db_accounts (env_db e)"
proof -
  from assms obtain a d1 reply e2 where g: "account_Get ra accountID (env_db e) = (Inr a, d1)" "acc_Provider a = XAI"
    and post: "outside (xl_post l (ac_TokenEndpoint (acc_Credentials a)) (refresh_form (xl_options l) (ac_RefreshToken (acc_Credentials a)))) (e\<lparr>env_db := d1\<rparr>) = (Inr reply, e2)"
    and st: "refresh_store l ra a reply e2 = (Inr b, e')"
    by (auto simp: xai_refresh_def returns_simps in_db_returns)
  from post obtain w' where w: "xl_post l (ac_TokenEndpoint (acc_Credentials a)) (refresh_form (xl_options l) (ac_RefreshToken (acc_Credentials a))) (li_world (env_world e)) = (Inr reply, w')"
    and e2: "e2 = e\<lparr>env_db := d1, env_world := (env_world e)\<lparr>li_world := w'\<rparr>\<rparr>"
    by (auto simp: outside_returns)
  have at: "account_at ra accountID e a" "db_accounts d1 = db_accounts (env_db e)"
    using account_Get_returns [OF g(1)] by (auto simp: account_at_def)
  from st obtain body p where b: "read_reply reply = Inr body" "xt_Refresh (xl_net l) body = Some p"
      "200 \<le> hr_Status reply" "hr_Status reply < 300" "rp_AccessToken p \<noteq> []"
    and u: "\<exists>now e3. time_Now e2 = (Inr now, e3) \<and> UpsertLogin ra (renewed a p now) e3 = (Inr b, e')"
    by (auto simp: refresh_store_def renewed_def returns_simps raise_def attempt_def split: option.splits if_splits sum.splits prod.splits)
  from u obtain now e3 where n: "time_Now e2 = (Inr now, e3)" and u: "UpsertLogin ra (renewed a p now) e3 = (Inr b, e')" by blast
  show thesis by (rule that [OF at(1) g(2) w b u]) (use n e2 at(2) in \<open>auto simp: time_Now_def\<close>)
qed

lemma fingerprint_rotated: "fingerprint_account ra XAI (rotated c p) = fingerprint_account ra XAI c"
  by (simp add: fingerprint_account_def rotated_def)

text \<open>C9: A refresh that succeeds stores the rotated tokens of the account. The account was one of xAI; its refresh
  token was posted to its own token endpoint; the reply was a success with an access token; the credentials now
  stored under the account's identity are the old ones with the tokens that were sent, an omitted refresh or
  identity token being kept; and the account is ready but as enabled as it was.\<close>

theorem refresh_rotates_tokens:
  assumes laws: "account_codec_laws ra"
    and nonce: "\<forall>n. li_rand (env_world e) (li_draws (env_world e)) = Inr n \<longrightarrow> length n = ad_NonceSize (rk_aead ra)"
    and run: "xai_refresh l ra accountID e = (Inr b, e')"
  shows "\<exists>a reply body p w' fp row. account_at ra accountID e a \<and> acc_Provider a = XAI \<and>
    xl_post l (ac_TokenEndpoint (acc_Credentials a)) [(''grant_type'', ''refresh_token''), (''refresh_token'', ac_RefreshToken (acc_Credentials a)), (''client_id'', xo_ClientID (xl_options l))]
      (li_world (env_world e)) = (Inr reply, w') \<and>
    read_reply reply = Inr body \<and> xt_Refresh (xl_net l) body = Some p \<and> 200 \<le> hr_Status reply \<and> hr_Status reply < 300 \<and> rp_AccessToken p \<noteq> [] \<and>
    fingerprint_account ra XAI (acc_Credentials a) = Inr fp \<and> row_get ar_fingerprint fp (db_accounts (env_db e')) = Some row \<and>
    account_scan ra row = Inr b \<and> acc_Credentials b = (acc_Credentials a)\<lparr>ac_AccessToken := rp_AccessToken p,
      ac_RefreshToken := (if rp_RefreshToken p = [] then ac_RefreshToken (acc_Credentials a) else rp_RefreshToken p),
      ac_IDToken := (if rp_IDToken p = [] then ac_IDToken (acc_Credentials a) else rp_IDToken p)\<rparr> \<and> acc_Status b = ''ready'' \<and>
    (\<forall>old. row_get ar_fingerprint fp (db_accounts (env_db e)) = Some old \<longrightarrow> acc_ID b = ar_id old \<and> acc_Enabled b = ar_enabled old)"
proof -
  from run obtain a reply body p now w' e3 where r: "account_at ra accountID e a" "acc_Provider a = XAI"
      "xl_post l (ac_TokenEndpoint (acc_Credentials a)) (refresh_form (xl_options l) (ac_RefreshToken (acc_Credentials a))) (li_world (env_world e)) = (Inr reply, w')"
      "read_reply reply = Inr body" "xt_Refresh (xl_net l) body = Some p" "200 \<le> hr_Status reply" "hr_Status reply < 300" "rp_AccessToken p \<noteq> []"
    and u: "UpsertLogin ra (renewed a p now) e3 = (Inr b, e')"
    and e3: "env_world e3 = (env_world e)\<lparr>li_world := w'\<rparr>" "db_accounts (env_db e3) = db_accounts (env_db e)"
    by (rule refresh_posted)
  show ?thesis
  proof (rule UpsertLogin_row [OF u])
    fix fp i enc payload row now' and nonce :: "go_error + string"
    let ?a = "renewed a p now"
    assume *: "fingerprint_account ra (acc_Provider ?a) (acc_Credentials ?a) = Inr fp" "rk_marshal ra (acc_Credentials ?a) = Inr payload"
      "li_rand (env_world e3) (li_draws (env_world e3)) = nonce" "Encrypt (rk_aead ra) (k_oauth (rk_keys ra)) nonce payload = Inr enc"
      "row_get ar_fingerprint fp (db_accounts (env_db e')) = Some row" "account_scan ra row = Inr b"
      "row = (case row_get ar_fingerprint fp (db_accounts (env_db e3)) of None \<Rightarrow> login_row ?a i fp enc now'
         | Some old \<Rightarrow> relogin_row (login_row ?a i fp enc now') old)"
    have row: "ar_credentials row = enc" "ar_status row = ''ready''"
      "\<forall>old. row_get ar_fingerprint fp (db_accounts (env_db e)) = Some old \<longrightarrow> ar_id row = ar_id old \<and> ar_enabled row = ar_enabled old"
      using *(7) e3(2) r(2) by (auto simp: renewed_def login_row_def relogin_row_def XAI_def Devin_def split: option.splits)
    have "acc_Credentials b = (acc_Credentials a)\<lparr>ac_AccessToken := rp_AccessToken p,
      ac_RefreshToken := (if rp_RefreshToken p = [] then ac_RefreshToken (acc_Credentials a) else rp_RefreshToken p),
      ac_IDToken := (if rp_IDToken p = [] then ac_IDToken (acc_Credentials a) else rp_IDToken p)\<rparr>"
      using stored_credentials [OF laws *(4) _ *(2) *(6) row(1)] nonce *(3) e3(1) by (simp add: renewed_def rotated_def)
    moreover have "fingerprint_account ra XAI (acc_Credentials a) = Inr fp" using *(1) fingerprint_rotated r(2) by (simp add: renewed_def)
    moreover have "acc_Status b = ''ready''"
      "\<forall>old. row_get ar_fingerprint fp (db_accounts (env_db e)) = Some old \<longrightarrow> acc_ID b = ar_id old \<and> acc_Enabled b = ar_enabled old"
      using account_scan_fields [OF *(6)] row(2,3) by simp_all
    ultimately show ?thesis using *(5,6) r(1,2) r(3) [unfolded refresh_form_def] r(4-8) by (intro exI conjI) assumption+
  qed
qed

lemma marking_works:
  assumes "db_faults d = []" "row_get ar_id i (db_accounts d) = Some row" "ar_provider row = XAI"
  shows "\<exists>d' row'. account_MarkReloginRequired i XAI d = (Inr (), d') \<and> row_get ar_id i (db_accounts d') = Some row' \<and>
    \<not> ar_enabled row' \<and> ar_status row' = ''relogin_required''"
proof -
  have "filter (\<lambda>row. ar_id row = i \<and> ar_provider row = XAI) (db_accounts d) \<noteq> []"
    using row_get_SomeD [OF assms(2)] assms(3) by (auto simp: filter_empty_conv)
  then have "\<exists>d'. account_MarkReloginRequired i XAI d = (Inr (), d')"
    using assms(1) by (simp add: account_MarkReloginRequired_def monad_simps update_accounts_def kind_Valid_def)
  with relogin_marks [OF _ assms(2,3)] show ?thesis by metis
qed

text \<open>C10: A refresh token that xAI has revoked ends the account. If the stored account of a request is due for a refresh
  and the token endpoint answers \<open>invalid_grant\<close>, no credential is handed out: the request gets an error that tells
  the executor to take the next account and to ask for a new login, and the account is disabled.\<close>

theorem invalid_grant_requires_login:
  assumes "db_faults (env_db e) = []" "row_get ar_id accountID (db_accounts (env_db e)) = Some row" "account_scan ra row = Inr a"
    and "acc_Provider a = XAI" "acc_Enabled a" "acc_Status a = ''ready''" "NeedsRefresh a (env_clock e (env_tick e))"
    and "trimSpace (ac_RefreshToken (acc_Credentials a)) \<noteq> []"
    and "xl_post l (ac_TokenEndpoint (acc_Credentials a)) (refresh_form (xl_options l) (ac_RefreshToken (acc_Credentials a))) (li_world (env_world e)) = (Inr reply, w')"
    and "read_reply reply = Inr body" "xt_Refresh (xl_net l) body = Some p" "rp_Error p = ''invalid_grant''"
  shows "\<exists>e' u row'. xai_Credential ra (Some (xai_refresh l ra)) accountID e = (Inl (UpstreamE u), e') \<and> ue_Provider u = XAI \<and>
    ec_Class (ue_Classification u) = ClassInvalidGrant \<and> ec_RetryNext (ue_Classification u) \<and> ec_ReloginRequired (ue_Classification u) \<and>
    row_get ar_id accountID (db_accounts (env_db e')) = Some row' \<and> \<not> ar_enabled row' \<and> ar_status row' = ''relogin_required''"
proof -
  have get: "account_Get ra accountID (env_db e) = (Inr a, env_db e)"
    using assms(1-3) by (simp add: account_Get_def monad_simps)
  have f: "acc_ID a = accountID" "ar_provider row = XAI"
    using account_scan_fields [OF assms(3)] row_get_SomeD [OF assms(2)] assms(4) by simp_all
  obtain d' row' where m: "account_MarkReloginRequired accountID XAI (env_db e) = (Inr (), d')"
      "row_get ar_id accountID (db_accounts d') = Some row'" "\<not> ar_enabled row'" "ar_status row' = ''relogin_required''"
    using marking_works [OF assms(1,2) f(2)] by blast
  let ?e2 = "e\<lparr>env_tick := Suc (env_tick e), env_world := (env_world e)\<lparr>li_world := w'\<rparr>\<rparr>"
  have store: "refresh_store l ra a reply ?e2 = (Inl (Wrapf [] [OAuthError ''invalid_grant'']), ?e2\<lparr>env_db := d'\<rparr>)"
    using assms(10-12) f(1) m(1) by (simp add: refresh_store_def monad_simps in_db_def)
  have refresh: "xai_refresh l ra accountID (e\<lparr>env_tick := Suc (env_tick e)\<rparr>) = (Inl (Wrapf [] [OAuthError ''invalid_grant'']), ?e2\<lparr>env_db := d'\<rparr>)"
    using get assms(4,8,9) store by (simp add: xai_refresh_def monad_simps in_db_def outside_def)
  have e: "providerCredentialError (Wrapf [] [OAuthError ''invalid_grant'']) =
      xai_failure 401 (empty_classification\<lparr>ec_Class := ClassInvalidGrant, ec_RetryNext := True, ec_DisableAccount := True,
        ec_ReloginRequired := True, ec_CooldownScope := CooldownAccount, ec_PublicStatus := 401,
        ec_PublicCode := ''provider_authentication_error'', ec_PublicMessage := ''account requires login''\<rparr>)"
    by (simp add: providerCredentialError_def OAuthError_def)
  have "xai_Credential ra (Some (xai_refresh l ra)) accountID e =
      (Inl (providerCredentialError (Wrapf [] [OAuthError ''invalid_grant''])), ?e2\<lparr>env_db := d'\<rparr>)"
    using get assms(4-7) refresh by (simp add: xai_Credential_def refreshed_def monad_simps in_db_def time_Now_def)
  with m show ?thesis unfolding e xai_failure_def by (intro exI conjI) (assumption | simp)+
qed

lemma mutate_accounts: "keeps (same db_accounts) (oauth_mutate r kind flow state nonce now st change)"
  unfolding oauth_mutate_def mutate_where_def Let_def
  by (intro guard_error_keeps keeps_intros select_session_keeps keeps_lift_result) (simp_all add: same_def update_sessions_def)

lemma unverified_accounts:
  assumes "unverified l state e = (r, e')"
  shows "isl r \<and> db_accounts (env_db e') = db_accounts (env_db e)"
proof -
  have "keeps (on_db (same db_accounts)) (andThen time_Now (\<lambda>now. sealing (\<lambda>n. oauth_Fail (xl_repo (xf_login l)) XAI OAuthFlowDevice state m n now)))" for m
    by (intro keeps_intros oauth_Fail_accounts)
  from keepsD [OF this, of e] assms show ?thesis
    by (auto simp: unverified_def device_fail_def ending_call_def monad_simps on_db_def same_def)
qed

lemma token_expiry_returns:
  "token_expiry token e = (x, e') \<Longrightarrow> \<not> isl x \<and> env_db e' = env_db e \<and> env_world e' = env_world e"
  by (auto simp: token_expiry_def monad_simps time_Now_def split: if_splits)

lemma device_Complete_returns:
  assumes "device_Complete l state accountID e = (Inr (), e')"
  shows "db_accounts (env_db e') = db_accounts (env_db e) \<and>
    (\<exists>row. find (by_state (xl_repo l) XAI OAuthFlowDevice state) (db_oauth (env_db e')) = Some row \<and> or_status row = ''completed'')"
proof -
  from assms obtain n now where "oauth_Complete (xl_repo l) XAI OAuthFlowDevice state accountID n now (env_db e) = (Inr (), env_db e')"
    by (auto simp: device_Complete_def sealing_def andThen_def time_Now_def draw_def in_db_def Let_def split: prod.splits)
  then have m: "oauth_mutate (xl_repo l) XAI OAuthFlowDevice state n now [''authorized''] (complete_change accountID) (env_db e) = (Inr (), env_db e')"
    by (simp add: oauth_Complete_def returns_simps OAuthFlowDevice_def OAuthFlowCallbackPKCE_def)
  have "db_accounts (env_db e') = db_accounts (env_db e)" using keepsD' [OF mutate_accounts m] by (simp add: same_def)
  moreover from m have "\<exists>row. find (by_state (xl_repo l) XAI OAuthFlowDevice state) (db_oauth (env_db e')) = Some row \<and> or_status row = ''completed''"
    by (rule mutate_find) (auto simp: complete_change_def disposeOAuthSecrets_def stored_change_def)
  ultimately show ?thesis by blast
qed

lemma identity_stored:
  assumes "UpsertLogin ra (xai_login_account identity claims token expires) e = (Inr a, e')"
  shows "\<exists>row. let fp = keys_IdentityFingerprint (rk_hmac ra) (rk_keys ra) (id_Issuer identity) (id_Subject identity) in
    row_get ar_fingerprint fp (db_accounts (env_db e')) = Some row \<and> ar_id row = acc_ID a \<and> ar_provider row = XAI \<and> ar_status row = ''ready'' \<and>
    (case row_get ar_fingerprint fp (db_accounts (env_db e)) of
       None \<Rightarrow> ar_enabled row | Some old \<Rightarrow> ar_id row = ar_id old \<and> ar_enabled row = ar_enabled old)"
  using assms
proof (rule UpsertLogin_row)
  fix fp i enc payload row now and nonce :: "go_error + string"
  let ?a = "xai_login_account identity claims token expires"
  assume *: "fingerprint_account ra (acc_Provider ?a) (acc_Credentials ?a) = Inr fp"
    "row_get ar_fingerprint fp (db_accounts (env_db e')) = Some row" "account_scan ra row = Inr a"
    "row = (case row_get ar_fingerprint fp (db_accounts (env_db e)) of None \<Rightarrow> login_row ?a i fp enc now
       | Some old \<Rightarrow> relogin_row (login_row ?a i fp enc now) old)"
    "\<And>old. row_get ar_fingerprint fp (db_accounts (env_db e)) = Some old \<Longrightarrow> ar_provider old = acc_Provider ?a"
  have fp: "fp = keys_IdentityFingerprint (rk_hmac ra) (rk_keys ra) (id_Issuer identity) (id_Subject identity)"
    using *(1) by (simp add: fingerprint_account_def xai_login_account_def split: if_splits)
  have "ar_provider row = XAI" "ar_status row = ''ready''"
    "case row_get ar_fingerprint fp (db_accounts (env_db e)) of
       None \<Rightarrow> ar_enabled row | Some old \<Rightarrow> ar_id row = ar_id old \<and> ar_enabled row = ar_enabled old"
    using *(4,5) by (auto simp: login_row_def relogin_row_def xai_login_account_def XAI_def Devin_def split: option.splits)
  with *(2) account_scan_fields [OF *(3)] show ?thesis unfolding fp Let_def by auto
qed

lemma identity_of_Inr:
  "identity_of issuer r = Inr identity \<Longrightarrow>
     \<exists>t. r = Inr t \<and> id_Issuer identity = issuer \<and> id_Subject identity = trimSpace (it_Subject t) \<and> id_Subject identity \<noteq> []"
  by (auto simp: identity_of_def Let_def split: sum.splits option.splits if_splits)

text \<open>C7: An xAI login stores the identity that was verified. If the ID token is not verified, or its claims do not name
  a subject, no account is added or changed and the login fails. If the login returns an account, the account is
  stored under the fingerprint of the configured issuer and the subject of the verified token, not blank, ready, and the session of the flow is completed. A
  new account is enabled; a known one keeps its id and is as enabled as before, so an account that was disabled for
  its revoked refresh token stays disabled after it has been reconnected.\<close>

theorem xai_login_verified:
  assumes run: "store_identity l state token e = (r, e')"
    and verified: "identity_of (xf_issuer l) (fst (xf_token l (tr_IDToken token) (li_world (env_world e)))) = v"
  shows "case r of
      Inl err \<Rightarrow> (\<forall>why. v = Inl why \<longrightarrow> db_accounts (env_db e') = db_accounts (env_db e))
    | Inr result \<Rightarrow> re_Provider result = XAI \<and>
       (\<exists>tok identity fp row orow. fst (xf_token l (tr_IDToken token) (li_world (env_world e))) = Inr tok \<and> v = Inr identity \<and>
          id_Issuer identity = xf_issuer l \<and> id_Subject identity = trimSpace (it_Subject tok) \<and> id_Subject identity \<noteq> [] \<and>
          fp = keys_IdentityFingerprint (rk_hmac (xf_accounts l)) (rk_keys (xf_accounts l)) (id_Issuer identity) (id_Subject identity) \<and>
          row_get ar_fingerprint fp (db_accounts (env_db e')) = Some row \<and> ar_id row = re_AccountID result \<and>
          ar_provider row = XAI \<and> ar_status row = ''ready'' \<and>
          (case row_get ar_fingerprint fp (db_accounts (env_db e)) of
             None \<Rightarrow> ar_enabled row | Some old \<Rightarrow> ar_id row = ar_id old \<and> ar_enabled row = ar_enabled old) \<and>
          find (by_state (xl_repo (xf_login l)) XAI OAuthFlowDevice state) (db_oauth (env_db e')) = Some orow \<and> or_status orow = ''completed'')"
proof -
  obtain x w' where tok: "xf_token l (tr_IDToken token) (li_world (env_world e)) = (x, w')" by fastforce
  define e1 where "e1 = e\<lparr>env_world := (env_world e)\<lparr>li_world := w'\<rparr>\<rparr>"
  have e1: "env_db e1 = env_db e" by (simp add: e1_def)
  have id: "identity_Verify l (tr_IDToken token) e = (v, e1)"
    using tok verified by (simp add: identity_Verify_def monad_simps outside_def e1_def)
  show ?thesis
  proof (cases v)
    case (Inl why)
    with run id have "(if errors_is why ErrCanceled \<or> errors_is why ErrDeadlineExceeded then raise why else unverified l state) e1 = (r, e')"
      by (simp add: store_identity_def monad_simps)
    then have "isl r \<and> db_accounts (env_db e') = db_accounts (env_db e)"
      using unverified_accounts [of l state e1 r e'] e1 by (auto simp: raise_def split: if_splits)
    then show ?thesis by (auto simp: isl_def)
  next
    case (Inr identity)
    show ?thesis
    proof (cases r)
      case (Inl err)
      with Inr show ?thesis by simp
    next
      case result: (Inr result)
      with run id Inr obtain claims expires e2 where c: "xt_Claims (xl_net (xf_login l)) (id_Claims identity) = Inr claims"
          and x: "token_expiry token e1 = (Inr expires, e2)"
          and rest: "attempt (UpsertLogin (xf_accounts l) (xai_login_account identity claims token expires)) (\<lambda>u. case u of
                Inl _ \<Rightarrow> raise (ErrNew ''xAI account could not be saved'')
              | Inr a \<Rightarrow>
                  andThen (device_Complete (xf_login l) state (acc_ID a)) (\<lambda>_. ret \<lparr>re_Provider = XAI, re_AccountID = acc_ID a\<rparr>)) e2 = (Inr result, e')"
        using unverified_accounts [of l state e1 r e']
        by (auto simp: store_identity_def attempt_run returns_simps split: sum.splits)
      then obtain a e3 where u: "UpsertLogin (xf_accounts l) (xai_login_account identity claims token expires) e2 = (Inr a, e3)"
          and d: "device_Complete (xf_login l) state (acc_ID a) e3 = (Inr (), e')" and re: "result = \<lparr>re_Provider = XAI, re_AccountID = acc_ID a\<rparr>"
        by (auto simp: attempt_run returns_simps raise_def split: sum.splits prod.splits)
      have e2: "env_db e2 = env_db e" using token_expiry_returns [OF x] e1 by simp
      show ?thesis
        using identity_stored [OF u] device_Complete_returns [OF d] identity_of_Inr [OF verified [unfolded Inr]] result re Inr e2 unfolding Let_def by auto
    qed
  qed
qed


section \<open>Witnesses\<close>

text \<open>An xAI account, its identity and its tokens; \<open>invalid_grant\<close> is answered when the reply says so.\<close>

definition grok_credentials :: account_credentials where
  "grok_credentials = blank_credentials\<lparr>ac_Issuer := ''iss'', ac_Subject := ''sub'', ac_AccessToken := ''at'', ac_RefreshToken := ''rt'',
     ac_IDToken := ''it'', ac_TokenEndpoint := ''t'', ac_RawIdentity := ''{}''\<rparr>"

definition grok_rotation :: "string \<Rightarrow> refresh_payload" where
  "grok_rotation err = \<lparr>rp_AccessToken = ''at2'', rp_RefreshToken = ''rt2'', rp_IDToken = [], rp_ExpiresIn = 60, rp_Error = err\<rparr>"

definition grok_repo :: account_repository where
  "grok_repo = sample_accounts\<lparr>
     rk_marshal := (\<lambda>c. if c = grok_credentials then Inr ''0'' else if c = rotated grok_credentials (grok_rotation []) then Inr ''1''
        else Inl (ErrNew ''unsupported'')),
     rk_unmarshal := (\<lambda>p. if p = ''0'' then Some grok_credentials else Some (rotated grok_credentials (grok_rotation [])))\<rparr>"

lemma grok_repo_laws: "account_codec_laws grok_repo"
  by (auto simp: account_codec_laws_def grok_repo_def sample_accounts_def sample_aead_laws split: if_splits)

definition grok_account :: account where
  "grok_account = sample_login\<lparr>acc_Provider := XAI, acc_Status := ''ready'', acc_Credentials := grok_credentials, acc_ExpiresAt := Some (60 * second)\<rparr>"

definition grok_authorization :: oauth_authorization where
  "grok_authorization = empty_authorization\<lparr>oa_AccessToken := ''at'', oa_AuthorizedAt := 1, oa_ExpiresAt := 9\<rparr>"

definition grok_oauth :: oauth_repository where
  "grok_oauth = sample_codec (map (payload_json (sample_codec []))
     [sample_device_payload, sample_device_payload\<lparr>pp_Authorization := Some grok_authorization\<rparr>,
      empty_payload\<lparr>pp_State := ''Yg'', pp_AccountID := ''acct_6e6e''\<rparr>])"

definition grok_login :: "string \<Rightarrow> nat xai_login" where
  "grok_login answer = sample_device_login\<lparr>xl_repo := grok_oauth, xl_net := sample_xai_net\<lparr>xt_Refresh := (\<lambda>b. Some (grok_rotation b)),
      xt_Claims := (\<lambda>_. Inr ''{}'')\<rparr>,
     xl_post := (\<lambda>_ _ n. (Inr \<lparr>hr_Status = 200, hr_Body = answer, hr_BodyErr = None\<rparr>, Suc n))\<rparr>"

definition grok_state :: "database \<Rightarrow> nat login" where
  "grok_state d = \<lparr>env_db = d, env_clock = int, env_tick = 0,
     env_world = \<lparr>li_world = 0, li_rand = (\<lambda>_. Inr ''nn''), li_draws = 0\<rparr>\<rparr>"

definition grok_stored :: database where
  "grok_stored = snd (upsertLogin grok_repo grok_account 0 (Inr ''nn'') (Inr ''a'') empty_database)"

definition grok_authorized :: database where
  "grok_authorized = snd (oauth_Authorize grok_oauth XAI OAuthFlowDevice ''Yg'' grok_authorization (Inr ''nn'') 1
     (snd (oauth_Create grok_oauth sample_device_session 0 (Inr []) (Inr ''nn'') empty_database)))"

definition grok_token :: token_response where
  "grok_token = \<lparr>tr_AccessToken = ''at'', tr_RefreshToken = ''rt'', tr_IDToken = ''it'', tr_TokenType = [], tr_TokenEndpoint = ''t'',
     tr_ExpiresIn = 60, tr_ExpiresAt = 60 * second\<rparr>"

definition grok_lifecycle :: "nat xai_lifecycle" where
  "grok_lifecycle = \<lparr>xf_login = grok_login [], xf_accounts = grok_repo, xf_issuer = ''iss'',
     xf_token = (\<lambda>raw n. (if raw = ''it'' then Inr \<lparr>it_Subject = ''sub '', it_Claims = Some []\<rparr> else Inl (ErrNew ''oidc''), n))\<rparr>"

lemma grok_reads: "read_reply \<lparr>hr_Status = 200, hr_Body = b, hr_BodyErr = None\<rparr> = Inr (take 1048576 b)"
  by (simp add: read_reply_def)

definition grok_read :: account where
  "grok_read = projr (fst (account_Get grok_repo ''acct_61'' grok_stored))"

lemma grok_stored_row:
  "\<not> isl (fst (account_Get grok_repo ''acct_61'' grok_stored))" "db_faults grok_stored = []" "acc_Credentials grok_read = grok_credentials"
  "acc_Provider grok_read = XAI" "acc_Enabled grok_read" "acc_Status grok_read = ''ready''" "acc_ExpiresAt grok_read = Some (60 * second)"
  "trimSpace (ac_RefreshToken (acc_Credentials grok_read)) \<noteq> []"
  by code_simp+

lemma grok_Get: "account_Get grok_repo ''acct_61'' grok_stored = (Inr grok_read, grok_stored)"
proof -
  have "account_Get grok_repo ''acct_61'' grok_stored = (fst (account_Get grok_repo ''acct_61'' grok_stored), grok_stored)"
    using grok_stored_row(2) by (simp add: account_Get_def monad_simps split: option.splits)
  moreover have "fst (account_Get grok_repo ''acct_61'' grok_stored) = Inr grok_read"
    using grok_stored_row(1) by (simp add: grok_read_def)
  ultimately show ?thesis by simp
qed

text \<open>The state after the reply to a refresh.\<close>

definition grok_replied :: "nat login" where
  "grok_replied = (grok_state grok_stored)\<lparr>env_world := (env_world (grok_state grok_stored))\<lparr>li_world := 1\<rparr>\<rparr>"

definition grok_renewed :: "(go_error + account) \<times> nat login" where
  "grok_renewed = (andThen time_Now (\<lambda>now.
     UpsertLogin grok_repo (grok_read\<lparr>acc_Credentials := rotated (acc_Credentials grok_read) (grok_rotation []),
       acc_ExpiresAt := Some (now + wrap64 (60 * second)), acc_LastRefreshAt := Some now, acc_Status := ''ready''\<rparr>))) grok_replied"

lemma grok_renewed_ok: "\<not> isl (fst grok_renewed)"
  by code_simp

lemma grok_refresh: "xai_refresh (grok_login []) grok_repo ''acct_61'' (grok_state grok_stored) = grok_renewed"
  using grok_Get grok_stored_row(4,8)
  by (simp add: xai_refresh_def monad_simps in_db_def outside_def grok_state_def grok_login_def refresh_store_def grok_reads grok_rotation_def
      grok_renewed_def grok_replied_def)

theorem refresh_rotates_tokens_witness:
  "\<exists>b e'. xai_refresh (grok_login []) grok_repo ''acct_61'' (grok_state grok_stored) = (Inr b, e') \<and>
     (\<exists>fp row. fingerprint_account grok_repo XAI grok_credentials = Inr fp \<and> row_get ar_fingerprint fp (db_accounts (env_db e')) = Some row \<and>
        account_scan grok_repo row = Inr b) \<and> acc_Status b = ''ready''"
proof -
  obtain b e' where run: "xai_refresh (grok_login []) grok_repo ''acct_61'' (grok_state grok_stored) = (Inr b, e')"
    using grok_refresh grok_renewed_ok by (metis isl_def prod.collapse sum.collapse(2))
  have nonce: "\<forall>n. li_rand (env_world (grok_state grok_stored)) (li_draws (env_world (grok_state grok_stored))) = Inr n \<longrightarrow>
      length n = ad_NonceSize (rk_aead grok_repo)"
    by (simp add: grok_state_def grok_repo_def sample_accounts_def sample_aead_def)
  from refresh_rotates_tokens [OF grok_repo_laws nonce run] obtain a fp row where
    a: "account_at grok_repo ''acct_61'' (grok_state grok_stored) a" "fingerprint_account grok_repo XAI (acc_Credentials a) = Inr fp"
      "row_get ar_fingerprint fp (db_accounts (env_db e')) = Some row" "account_scan grok_repo row = Inr b" "acc_Status b = ''ready''" by blast
  have "a = grok_read"
    using a(1) account_Get_returns [OF grok_Get] by (auto simp: account_at_def grok_state_def)
  with a run grok_stored_row(3) show ?thesis by auto
qed

theorem invalid_grant_requires_login_witness:
  "\<exists>e' u row'. xai_Credential grok_repo (Some (xai_refresh (grok_login ''invalid_grant'') grok_repo)) ''acct_61'' (grok_state grok_stored) = (Inl (UpstreamE u), e') \<and>
    row_get ar_id ''acct_61'' (db_accounts (env_db e')) = Some row' \<and> \<not> ar_enabled row'"
proof -
  obtain row where row: "row_get ar_id ''acct_61'' (db_accounts grok_stored) = Some row" "account_scan grok_repo row = Inr grok_read"
    using account_Get_returns [OF grok_Get] by auto
  have "NeedsRefresh grok_read 0"
    using grok_stored_row(7) by (simp add: NeedsRefresh_def time_after_def RefreshLead_def minute_def second_def)
  moreover have "xl_post (grok_login ''invalid_grant'') (ac_TokenEndpoint (acc_Credentials grok_read))
      (refresh_form (xl_options (grok_login ''invalid_grant'')) (ac_RefreshToken (acc_Credentials grok_read))) (li_world (env_world (grok_state grok_stored))) =
        (Inr \<lparr>hr_Status = 200, hr_Body = ''invalid_grant'', hr_BodyErr = None\<rparr>, 1)"
    "read_reply \<lparr>hr_Status = 200, hr_Body = ''invalid_grant'', hr_BodyErr = None\<rparr> = Inr ''invalid_grant''"
    "xt_Refresh (xl_net (grok_login ''invalid_grant'')) ''invalid_grant'' = Some (grok_rotation ''invalid_grant'')"
    "rp_Error (grok_rotation ''invalid_grant'') = ''invalid_grant''"
    by (simp_all add: grok_state_def grok_login_def grok_reads grok_rotation_def)
  moreover have "env_db (grok_state grok_stored) = grok_stored" "env_clock (grok_state grok_stored) (env_tick (grok_state grok_stored)) = 0"
    by (simp_all add: grok_state_def)
  ultimately have "\<exists>e' u row'. xai_Credential grok_repo (Some (xai_refresh (grok_login ''invalid_grant'') grok_repo)) ''acct_61'' (grok_state grok_stored) = (Inl (UpstreamE u), e') \<and>
      ue_Provider u = XAI \<and> ec_Class (ue_Classification u) = ClassInvalidGrant \<and> ec_RetryNext (ue_Classification u) \<and>
      ec_ReloginRequired (ue_Classification u) \<and> row_get ar_id ''acct_61'' (db_accounts (env_db e')) = Some row' \<and>
      \<not> ar_enabled row' \<and> ar_status row' = ''relogin_required''"
    using row grok_stored_row(2,4-6,8) by (intro invalid_grant_requires_login) (simp_all only: simp_thms)
  then obtain e' u row' where
    "xai_Credential grok_repo (Some (xai_refresh (grok_login ''invalid_grant'') grok_repo)) ''acct_61'' (grok_state grok_stored) = (Inl (UpstreamE u), e')"
    "row_get ar_id ''acct_61'' (db_accounts (env_db e')) = Some row'" "\<not> ar_enabled row'" by (elim exE conjE)
  then show ?thesis by (intro exI conjI)
qed

lemma grok_run: "\<not> isl (fst (store_identity grok_lifecycle ''Yg'' grok_token (grok_state grok_authorized)))"
  by code_simp

theorem xai_login_verified_witness:
  "\<exists>result e' row. store_identity grok_lifecycle ''Yg'' grok_token (grok_state grok_authorized) = (Inr result, e') \<and>
     row \<in> set (db_accounts (env_db e')) \<and> ar_id row = re_AccountID result \<and> ar_status row = ''ready''"
proof -
  obtain result e' where run: "store_identity grok_lifecycle ''Yg'' grok_token (grok_state grok_authorized) = (Inr result, e')"
    using grok_run by (metis isl_def prod.collapse sum.collapse(2))
  from xai_login_verified [OF run refl] obtain fp row where
    row: "row_get ar_fingerprint fp (db_accounts (env_db e')) = Some row" "ar_id row = re_AccountID result" "ar_status row = ''ready''" by auto
  from run row_get_SomeD [OF row(1), THEN conjunct1] row(2,3) show ?thesis by (intro exI conjI)
qed

end
