(* ===== verification/Account_Service.thy ===== *)
theory Account_Service
  imports Provider_Catalog Devin_Login Xai_Lifecycle
begin

text \<open>
  The account service and the refresh worker (\<open>accounts/service.go\<close>, \<open>accounts/refresh_worker.go\<close>) over
  any registered lifecycles, and the two lifecycles that are registered. The hooks that refresh
  models and usage are parameters. Concurrent completions of one session share a flight, which is not
  represented. \<open>Run\<close> repeats \<open>refreshDue\<close> every minute until its first error.

  The contract between the service and a lifecycle, to answer in the name of its own provider, is the
  locale \<open>own_provider\<close>; both lifecycles meet it.
\<close>

section \<open>The service\<close>

abbreviation ErrAccountLifecycleUnavailable :: go_error where
  "ErrAccountLifecycleUnavailable \<equiv> Sentinel ''account lifecycle unavailable''"
abbreviation ErrCredentialRefreshUnavailable :: go_error where
  "ErrCredentialRefreshUnavailable \<equiv> Sentinel ''credential refresh unavailable''"

record 'w credential_refresher =
  rf_NeedsRefresh :: "string \<Rightarrow> time \<Rightarrow> ('w login, go_error, bool) op"
  rf_Refresh :: "string \<Rightarrow> ('w login, go_error, unit) op"

type_synonym 'w hook = "string \<Rightarrow> ('w login, go_error, unit) op"
type_synonym ('w, 'h, 'd, 'u) account_registry =
  "('w login, 'h, 'w credential_refresher, 'w login account_lifecycle, 'd, 'u) capability_registry option"

record ('w, 'h, 'd, 'u) account_service =
  sv_accounts :: account_repository
  sv_registry :: "('w, 'h, 'd, 'u) account_registry"
  sv_capabilities :: "'w hook option"
  sv_usage :: "'w hook option"

definition service_lifecycle :: "('w, 'h, 'd, 'u) account_service \<Rightarrow> kind \<Rightarrow> go_error + 'w login account_lifecycle" where
  "service_lifecycle sv k =
     (case Lifecycle (sv_registry sv) k k of
        None \<Rightarrow> Inl (Wrapf (''provider='' @ k @ '' policy='' @ k) [ErrAccountLifecycleUnavailable])
      | Some lc \<Rightarrow> Inr lc)"

definition optionalCapabilities ::
  "('w, 'h, 'd, 'u) account_service \<Rightarrow> account \<Rightarrow> ('w login, 'h, 'w credential_refresher, 'w login account_lifecycle, 'd, 'u) capabilities" where
  "optionalCapabilities sv a =
     (case Capabilities (sv_registry sv) (acc_Provider a) (acc_Provider a) of None \<Rightarrow> empty_capabilities | Some caps \<Rightarrow> caps)"

definition returned_provider :: "kind \<Rightarrow> kind \<Rightarrow> go_error" where
  "returned_provider got want = ErrNew (''account lifecycle returned provider '' @ got @ '', want '' @ want)"

definition StartLogin :: "('w, 'h, 'd, 'u) account_service \<Rightarrow> kind \<Rightarrow> ('w login, go_error, authorization) op" where
  "StartLogin sv k =
     andThen (lift_result (service_lifecycle sv k)) (\<lambda>lc. andThen (lc_Start lc) (\<lambda>a.
     reject (rf_Provider (au_Ref a) \<noteq> k) (returned_provider (rf_Provider (au_Ref a)) k) (ret a)))"

definition LoginStatus :: "('w, 'h, 'd, 'u) account_service \<Rightarrow> kind \<Rightarrow> string \<Rightarrow> ('w login, go_error, authorization_session) op" where
  "LoginStatus sv k sessionID =
     andThen (lift_result (service_lifecycle sv k)) (\<lambda>lc.
     andThen (lc_Status lc \<lparr>rf_Provider = k, rf_State = [], rf_SessionID = sessionID\<rparr>) (\<lambda>s.
     let got = rf_Provider (au_Ref (as_Authorization s)) in reject (got \<noteq> k) (returned_provider got k) (ret s)))"

text \<open>A hook whose error is dropped, if both the capability and the refresher are there.\<close>

definition run_hook :: "bool \<Rightarrow> 'w hook option \<Rightarrow> string \<Rightarrow> ('w login, go_error, unit) op" where
  "run_hook able hook i =
     (case hook of Some h \<Rightarrow> if able then attempt (h i) (\<lambda>_. ret ()) else ret () | None \<Rightarrow> ret ())"

definition account_hooks :: "('w, 'h, 'd, 'u) account_service \<Rightarrow> account \<Rightarrow> string \<Rightarrow> ('w login, go_error, unit) op" where
  "account_hooks sv a i =
     (let caps = optionalCapabilities sv a in
      andThen (run_hook (cap_ModelDiscoverer caps \<noteq> None) (sv_capabilities sv) i) (\<lambda>_.
      run_hook (cap_UsageFetcher caps \<noteq> None) (sv_usage sv) i))"

definition service_account :: "('w, 'h, 'd, 'u) account_service \<Rightarrow> kind \<Rightarrow> string \<Rightarrow> ('w login, go_error, account) op" where
  "service_account sv k accountID =
     andThen (in_db (account_Get (sv_accounts sv) accountID)) (\<lambda>a.
     reject (acc_Provider a \<noteq> k) (ErrNew (''account '' @ acc_ID a @ '' belongs to provider '' @ acc_Provider a @ '', want '' @ k)) (ret a))"

definition completed_login :: "('w, 'h, 'd, 'u) account_service \<Rightarrow> kind \<Rightarrow> account_result \<Rightarrow> ('w login, go_error, account) op" where
  "completed_login sv k result =
     reject (re_Provider result \<noteq> k) (returned_provider (re_Provider result) k)
     (reject (re_AccountID result = []) (ErrNew ''account lifecycle returned an empty account id'')
     (andThen (service_account sv k (re_AccountID result)) (\<lambda>a. andThen (account_hooks sv a (acc_ID a)) (\<lambda>_. ret a))))"

definition completeLogin ::
  "('w, 'h, 'd, 'u) account_service \<Rightarrow> kind \<Rightarrow> authorization_ref \<Rightarrow> string \<Rightarrow> 'w login \<Rightarrow> ((go_error + account) \<times> 'w login) option" where
  "completeLogin sv k ref code e =
     (case service_lifecycle sv k of
        Inl err \<Rightarrow> Some (Inl err, e)
      | Inr lc \<Rightarrow>
          (case lc_Complete lc ref code e of
             None \<Rightarrow> None
           | Some (Inl err, e') \<Rightarrow> Some (Inl err, e')
           | Some (Inr result, e') \<Rightarrow> Some (completed_login sv k result e')))"

definition CompleteLogin ::
  "('w, 'h, 'd, 'u) account_service \<Rightarrow> kind \<Rightarrow> authorization_ref \<Rightarrow> string \<Rightarrow> 'w login \<Rightarrow> ((go_error + account) \<times> 'w login) option" where
  "CompleteLogin sv k ref code e =
     (if rf_Provider ref \<noteq> k then Some (Inl (returned_provider (rf_Provider ref) k), e) else completeLogin sv k ref code e)"

definition CancelLogin :: "('w, 'h, 'd, 'u) account_service \<Rightarrow> kind \<Rightarrow> string \<Rightarrow> ('w login, go_error, unit) op" where
  "CancelLogin sv k sessionID =
     andThen (lift_result (service_lifecycle sv k)) (\<lambda>lc. lc_Cancel lc \<lparr>rf_Provider = k, rf_State = [], rf_SessionID = sessionID\<rparr>)"

fun own_sessions :: "kind \<Rightarrow> authorization_session list \<Rightarrow> go_error option" where
  "own_sessions k [] = None"
| "own_sessions k (s # ss) =
     (let got = rf_Provider (au_Ref (as_Authorization s)) in if got \<noteq> k then Some (returned_provider got k) else own_sessions k ss)"

definition ResumeLogins :: "('w, 'h, 'd, 'u) account_service \<Rightarrow> kind \<Rightarrow> ('w login, go_error, authorization_session list) op" where
  "ResumeLogins sv k =
     andThen (lift_result (service_lifecycle sv k)) (\<lambda>lc. andThen (lc_Resume lc) (\<lambda>ss. guard_error (own_sessions k ss) (ret ss)))"

definition service_Get :: "('w, 'h, 'd, 'u) account_service \<Rightarrow> string \<Rightarrow> ('w login, go_error, account) op" where
  "service_Get sv i = in_db (account_Get (sv_accounts sv) i)"
definition service_List :: "('w, 'h, 'd, 'u) account_service \<Rightarrow> ('w login, go_error, account list) op" where
  "service_List sv = in_db (account_List (sv_accounts sv))"
definition service_Update :: "('w, 'h, 'd, 'u) account_service \<Rightarrow> string \<Rightarrow> string \<Rightarrow> bool \<Rightarrow> ('w login, go_error, unit) op" where
  "service_Update sv i label enabled = in_db (account_Update i label enabled)"
definition service_Delete :: "('w, 'h, 'd, 'u) account_service \<Rightarrow> string \<Rightarrow> ('w login, go_error, unit) op" where
  "service_Delete sv i = in_db (account_Delete i)"

definition service_Refresh :: "('w, 'h, 'd, 'u) account_service \<Rightarrow> string \<Rightarrow> ('w login, go_error, account) op" where
  "service_Refresh sv i =
     andThen (service_Get sv i) (\<lambda>a.
     case CredentialRefresher (sv_registry sv) (acc_Provider a) (acc_Provider a) of
       None \<Rightarrow> raise (Wrapf (''provider='' @ acc_Provider a @ '' policy='' @ acc_Provider a) [ErrCredentialRefreshUnavailable])
     | Some rf \<Rightarrow>
         andThen (rf_Refresh rf (acc_ID a)) (\<lambda>_. andThen (service_Get sv i) (\<lambda>a'.
         andThen (account_hooks sv a' i) (\<lambda>_. ret a'))))"


section \<open>The refresh worker\<close>

record ('w, 'h, 'd, 'u) refresh_worker =
  rw_accounts :: account_repository
  rw_registry :: "('w, 'h, 'd, 'u) account_registry"
  rw_usability :: "(kind \<rightharpoonup> (string \<Rightarrow> ('w login, go_error, bool) op) iface) option"
  rw_hooks :: "'w hook list"

fun run_hooks :: "'w hook list \<Rightarrow> string \<Rightarrow> ('w login, go_error, unit) op" where
  "run_hooks [] i = ret ()"
| "run_hooks (h # hs) i = attempt (h i) (\<lambda>_. run_hooks hs i)"

definition refresh_one :: "('w, 'h, 'd, 'u) refresh_worker \<Rightarrow> account \<Rightarrow> ('w login, go_error, unit) op" where
  "refresh_one w a =
     (if \<not> acc_Enabled a \<or> rw_registry w = None then ret ()
      else case CredentialRefresher (rw_registry w) (acc_Provider a) (acc_Provider a) of
        Some rf \<Rightarrow>
          andThen time_Now (\<lambda>now.
          attempt (rf_NeedsRefresh rf (acc_ID a) now) (\<lambda>due. case due of
            Inl _ \<Rightarrow> ret ()
          | Inr due \<Rightarrow> if \<not> due then ret ()
              else attempt (rf_Refresh rf (acc_ID a)) (\<lambda>r. case r of Inl _ \<Rightarrow> ret () | Inr _ \<Rightarrow> run_hooks (rw_hooks w) (acc_ID a))))
      | None \<Rightarrow>
          (case CredentialUsability (rw_usability w) (acc_Provider a) of
             Some (IfaceVal usable) \<Rightarrow> attempt (usable (acc_ID a)) (\<lambda>_. ret ())
           | _ \<Rightarrow> ret ()))"

fun refresh_all :: "('w, 'h, 'd, 'u) refresh_worker \<Rightarrow> account list \<Rightarrow> ('w login, go_error, unit) op" where
  "refresh_all w [] = ret ()"
| "refresh_all w (a # as) = andThen (refresh_one w a) (\<lambda>_. refresh_all w as)"

definition refreshDue :: "('w, 'h, 'd, 'u) refresh_worker \<Rightarrow> ('w login, go_error, unit) op" where
  "refreshDue w = andThen (in_db (account_List (rw_accounts w))) (refresh_all w)"


section \<open>Lifecycles in their own name\<close>

locale own_provider =
  fixes k :: kind and lc :: "'w login account_lifecycle"
  assumes start_own: "lc_Start lc e = (Inr a, e') \<Longrightarrow> rf_Provider (au_Ref a) = k"
    and status_own: "lc_Status lc ref e = (Inr s, e') \<Longrightarrow> rf_Provider (au_Ref (as_Authorization s)) = k"
    and complete_own: "lc_Complete lc ref code e = Some (Inr result, e') \<Longrightarrow> re_Provider result = k"
    and resume_own: "lc_Resume lc e = (Inr ss, e') \<Longrightarrow> s \<in> set ss \<Longrightarrow> rf_Provider (au_Ref (as_Authorization s)) = k"
begin

lemma no_rejection:
  assumes "\<And>x e'. m e = (Inr x, e') \<Longrightarrow> \<not> bad x"
  shows "andThen m (\<lambda>x. reject (bad x) (err x) (ret x)) e = m e"
  using assms by (auto simp: monad_simps split: sum.splits prod.splits)

lemma own_sessions_None: "lc_Resume lc e = (Inr ss, e') \<Longrightarrow> own_sessions k ss = None"
proof -
  assume "lc_Resume lc e = (Inr ss, e')"
  then have "\<forall>s \<in> set ss. rf_Provider (au_Ref (as_Authorization s)) = k" using resume_own by blast
  then show ?thesis by (induction ss) simp_all
qed

lemma service_is_lifecycle:
  assumes "Lifecycle (sv_registry sv) k k = Some lc"
  shows "StartLogin sv k e = lc_Start lc e"
    and "LoginStatus sv k sid e = lc_Status lc \<lparr>rf_Provider = k, rf_State = [], rf_SessionID = sid\<rparr> e"
    and "CancelLogin sv k sid e = lc_Cancel lc \<lparr>rf_Provider = k, rf_State = [], rf_SessionID = sid\<rparr> e"
    and "ResumeLogins sv k e = lc_Resume lc e"
proof -
  have s: "service_lifecycle sv k = Inr lc" using assms by (simp add: service_lifecycle_def)
  show "StartLogin sv k e = lc_Start lc e"
    using no_rejection [of "lc_Start lc" e "\<lambda>a. rf_Provider (au_Ref a) \<noteq> k"] start_own s
    by (simp add: StartLogin_def monad_simps)
  show "LoginStatus sv k sid e = lc_Status lc \<lparr>rf_Provider = k, rf_State = [], rf_SessionID = sid\<rparr> e"
    using no_rejection [of "lc_Status lc \<lparr>rf_Provider = k, rf_State = [], rf_SessionID = sid\<rparr>" e "\<lambda>s. rf_Provider (au_Ref (as_Authorization s)) \<noteq> k"]
      status_own s by (simp add: LoginStatus_def monad_simps Let_def)
  show "CancelLogin sv k sid e = lc_Cancel lc \<lparr>rf_Provider = k, rf_State = [], rf_SessionID = sid\<rparr> e"
    using s by (simp add: CancelLogin_def monad_simps)
  show "ResumeLogins sv k e = lc_Resume lc e"
    using s own_sessions_None by (auto simp: ResumeLogins_def monad_simps guard_error_def split: prod.splits sum.splits)
qed

end

definition devin_lifecycle :: "'w devin_login \<Rightarrow> (nat \<Rightarrow> go_error + string) \<Rightarrow> 'w login account_lifecycle" where
  "devin_lifecycle l nonces =
     \<lparr>lc_Start = login_Start l, lc_Status = login_Status l, lc_Complete = (\<lambda>ref code e. Some (login_Complete l ref code e)),
      lc_Cancel = login_Cancel l, lc_Resume = login_Resume l nonces\<rparr>"

definition xai_account_lifecycle :: "'w xai_lifecycle \<Rightarrow> 'w login account_lifecycle" where
  "xai_account_lifecycle l =
     \<lparr>lc_Start = xai_Start l, lc_Status = xai_Status l, lc_Complete = xai_Complete l, lc_Cancel = xai_Cancel l, lc_Resume = xai_Resume l\<rparr>"

definition own_reference :: "kind \<Rightarrow> authorization_session \<Rightarrow> bool" where
  "own_reference k s \<longleftrightarrow> rf_Provider (au_Ref (as_Authorization s)) = k"

text \<open>\<open>yields P m\<close>: whatever \<open>m\<close> returns satisfies \<open>P\<close>.\<close>

definition yields :: "('a \<Rightarrow> bool) \<Rightarrow> ('s, 'e, 'a) op \<Rightarrow> bool" where
  "yields P m \<longleftrightarrow> (\<forall>e x e'. m e = (Inr x, e') \<longrightarrow> P x)"

lemma yieldsD: "yields P m \<Longrightarrow> m e = (Inr x, e') \<Longrightarrow> P x"
  by (auto simp: yields_def)

lemma yields_intros:
  "P x \<Longrightarrow> yields P (ret x)" "yields P (raise err)" "(\<And>x. r = Inr x \<Longrightarrow> P x) \<Longrightarrow> yields P (lift_result r)"
  "(\<And>x. yields P (f x)) \<Longrightarrow> yields P (andThen m f)" "(\<And>y. yields P (g y)) \<Longrightarrow> yields P (attempt m' g)"
  "yields P n \<Longrightarrow> yields P (reject b err n)" "yields P n \<Longrightarrow> yields P (guard_error e n)"
  "yields P m1 \<Longrightarrow> yields P m2 \<Longrightarrow> yields P (if b then m1 else m2)"
  "(\<And>err. yields P (f1 err)) \<Longrightarrow> (\<And>y. yields P (f2 y)) \<Longrightarrow> yields P (case s of Inl err \<Rightarrow> f1 err | Inr y \<Rightarrow> f2 y)"
  "yields P n1 \<Longrightarrow> (\<And>y. yields P (n2 y)) \<Longrightarrow> yields P (case q of None \<Rightarrow> n1 | Some y \<Rightarrow> n2 y)"
  "(\<And>a b. yields P (h a b)) \<Longrightarrow> yields P (case pr of (a, b) \<Rightarrow> h a b)"
  "(\<And>x. yields P (k x)) \<Longrightarrow> yields P (Let v k)"
  by (auto simp: yields_def ret_def raise_def lift_result_def andThen_def attempt_def reject_def guard_error_def Let_def
      split: sum.splits option.splits prod.splits if_splits)

lemma devin_projection_own: "devinSessionProjection v = Inr s \<Longrightarrow> own_reference Devin s"
  by (auto simp: devinSessionProjection_def own_reference_def split: if_splits)

lemma resume_each_own: "resume_each l now vs e = (Inr ss, e') \<Longrightarrow> \<forall>s \<in> set ss. own_reference Devin s"
proof (induction vs arbitrary: e ss)
  case (Cons v vs)
  then show ?case
    by (auto simp: returns_simps attempt_run raise_def split: if_splits prod.splits sum.splits dest: devin_projection_own)
qed (simp add: ret_def)

lemma devin_login_own:
  "yields (\<lambda>a. rf_Provider (au_Ref a) = Devin) (login_Start l)"
  "yields (own_reference Devin) (login_Status l ref)"
  "yields (\<lambda>result. re_Provider result = Devin) (login_Complete l ref code)"
  "yields (\<lambda>ss. \<forall>s \<in> set ss. own_reference Devin s) (login_Resume l nonces)"
proof -
  have r: "yields (\<lambda>ss. \<forall>s \<in> set ss. own_reference Devin s) (resume_each l now vs)" for now vs
    unfolding yields_def using resume_each_own by blast
  show "yields (\<lambda>a. rf_Provider (au_Ref a) = Devin) (login_Start l)"
    unfolding login_Start_def by (intro yields_intros) simp_all
  show "yields (own_reference Devin) (login_Status l ref)"
    unfolding login_Status_def by (intro yields_intros devin_projection_own)
  show "yields (\<lambda>result. re_Provider result = Devin) (login_Complete l ref code)"
    unfolding login_Complete_def login_complete_def exchange_and_store_def consume_refused_def by (intro yields_intros) simp_all
  show "yields (\<lambda>ss. \<forall>s \<in> set ss. own_reference Devin s) (login_Resume l nonces)"
    unfolding login_Resume_def by (intro yields_intros r)
qed

lemma xai_projection_own: "sessionProjection v = Inr s \<Longrightarrow> own_reference XAI s"
  by (auto simp: sessionProjection_def authorizationProjection_def own_reference_def Let_def split: if_splits)

lemma project_all_own: "project_all vs = Inr ss \<Longrightarrow> \<forall>s \<in> set ss. own_reference XAI s"
  by (induction vs arbitrary: ss) (auto simp: returns_simps dest: xai_projection_own)

lemma xai_login_own:
  "yields (\<lambda>a. rf_Provider (au_Ref a) = XAI) (xai_Start l)"
  "yields (own_reference XAI) (xai_Status l ref)"
  "xai_Complete l ref code e = Some (Inr result, e') \<Longrightarrow> re_Provider result = XAI"
  "yields (\<lambda>ss. \<forall>s \<in> set ss. own_reference XAI s) (xai_Resume l)"
proof -
  show "yields (\<lambda>a. rf_Provider (au_Ref a) = XAI) (xai_Start l)"
    unfolding xai_Start_def by (intro yields_intros) (simp add: authorizationProjection_def Let_def)
  show "yields (own_reference XAI) (xai_Status l ref)"
    unfolding xai_Status_def by (intro yields_intros xai_projection_own)
  have "yields (\<lambda>result. re_Provider result = XAI) (store_identity l state token)" for state token
    unfolding store_identity_def unverified_def by (intro yields_intros) simp_all
  moreover have "yields (\<lambda>result. re_Provider result = XAI) (completed_before l v)" for v
    unfolding completed_before_def by (intro yields_intros) simp_all
  ultimately have "store_identity l state token e1 = (Inr result, e') \<Longrightarrow> re_Provider result = XAI"
      "completed_before l v e1 = (Inr result, e') \<Longrightarrow> re_Provider result = XAI" for state token v e1
    unfolding yields_def by blast+
  then show "xai_Complete l ref code e = Some (Inr result, e') \<Longrightarrow> re_Provider result = XAI"
    by (auto simp: xai_Complete_def xai_complete_def split: option.splits if_splits prod.splits sum.splits)
  show "yields (\<lambda>ss. \<forall>s \<in> set ss. own_reference XAI s) (xai_Resume l)"
    unfolding xai_Resume_def by (intro yields_intros project_all_own)
qed

interpretation devin_flow: own_provider Devin "devin_lifecycle l nonces" for l :: "'w devin_login" and nonces
  by unfold_locales (auto simp: devin_lifecycle_def simp flip: own_reference_def dest: yieldsD [OF devin_login_own(1)]
      yieldsD [OF devin_login_own(2)] yieldsD [OF devin_login_own(3)] yieldsD [OF devin_login_own(4)])

interpretation xai_flow: own_provider XAI "xai_account_lifecycle l" for l :: "'w xai_lifecycle"
  by unfold_locales (auto simp: xai_account_lifecycle_def simp flip: own_reference_def dest: yieldsD [OF xai_login_own(1)]
      yieldsD [OF xai_login_own(2)] xai_login_own(3) yieldsD [OF xai_login_own(4)])


section \<open>Properties\<close>

text \<open>C15: The account service adds nothing to the lifecycles and takes nothing away. With the Devin and the xAI lifecycle
  registered under their kinds, starting, watching, cancelling and resuming logins is exactly what the
  lifecycle does: its checks that a lifecycle answers in the name of its own provider never reject.\<close>

theorem service_runs_lifecycles:
  assumes "Lifecycle (sv_registry sd) Devin Devin = Some (devin_lifecycle ld nonces)"
    and "Lifecycle (sv_registry sx) XAI XAI = Some (xai_account_lifecycle lx)"
  shows "StartLogin sd Devin = login_Start ld \<and> ResumeLogins sd Devin = login_Resume ld nonces \<and>
     LoginStatus sd Devin sid = login_Status ld \<lparr>rf_Provider = Devin, rf_State = [], rf_SessionID = sid\<rparr> \<and>
     CancelLogin sd Devin sid = login_Cancel ld \<lparr>rf_Provider = Devin, rf_State = [], rf_SessionID = sid\<rparr> \<and>
     StartLogin sx XAI = xai_Start lx \<and> ResumeLogins sx XAI = xai_Resume lx \<and>
     LoginStatus sx XAI sid = xai_Status lx \<lparr>rf_Provider = XAI, rf_State = [], rf_SessionID = sid\<rparr> \<and>
     CancelLogin sx XAI sid = xai_Cancel lx \<lparr>rf_Provider = XAI, rf_State = [], rf_SessionID = sid\<rparr>"
  using devin_flow.service_is_lifecycle [OF assms(1)] xai_flow.service_is_lifecycle [OF assms(2)]
  by (auto simp: devin_lifecycle_def xai_account_lifecycle_def fun_eq_iff)

lemma account_hooks_pass: "\<exists>e'. account_hooks sv a i e = (Inr (), e')"
proof -
  have "\<exists>e'. run_hook able hook i e = (Inr (), e')" for able hook and e :: "'a login"
    by (auto simp: run_hook_def attempt_def ret_def split: option.splits prod.splits)
  then show ?thesis unfolding account_hooks_def Let_def andThen_def by (metis (no_types, lifting) case_prod_conv old.sum.simps(6))
qed

text \<open>A completed login is the account the lifecycle reported. If \<open>CompleteLogin\<close> returns an account for a provider, the
  request named that provider, the registered lifecycle returned its own provider and a nonempty id, and the
  account is the one stored under this id, of this provider; hooks that fail do not fail the login.\<close>

theorem completed_login_is_own_account:
  assumes "CompleteLogin sv k ref code e = Some (r, e')"
  shows "case r of
      Inr a \<Rightarrow> rf_Provider ref = k \<and> acc_Provider a = k \<and> acc_ID a \<noteq> [] \<and>
        (\<exists>lc result e1 row. Lifecycle (sv_registry sv) k k = Some lc \<and> lc_Complete lc ref code e = Some (Inr result, e1) \<and>
           re_Provider result = k \<and> re_AccountID result = acc_ID a \<and>
           row_get ar_id (acc_ID a) (db_accounts (env_db e1)) = Some row \<and> account_scan (sv_accounts sv) row = Inr a)
    | Inl err \<Rightarrow> (\<forall>lc result e1 a d. Lifecycle (sv_registry sv) k k = Some lc \<longrightarrow> lc_Complete lc ref code e = Some (Inr result, e1) \<longrightarrow>
        rf_Provider ref = k \<longrightarrow> re_Provider result = k \<longrightarrow> re_AccountID result \<noteq> [] \<longrightarrow>
        account_Get (sv_accounts sv) (re_AccountID result) (env_db e1) = (Inr a, d) \<longrightarrow> acc_Provider a \<noteq> k)"
proof (cases r)
  case (Inr a)
  with assms obtain lc result e1 where lc: "rf_Provider ref = k" "Lifecycle (sv_registry sv) k k = Some lc"
      "lc_Complete lc ref code e = Some (Inr result, e1)" and c: "completed_login sv k result e1 = (Inr a, e')"
    by (auto simp: CompleteLogin_def completeLogin_def service_lifecycle_def split: if_splits option.splits sum.splits prod.splits)
  from c obtain d where d: "re_Provider result = k" "re_AccountID result \<noteq> []" "acc_Provider a = k"
      "account_Get (sv_accounts sv) (re_AccountID result) (env_db e1) = (Inr a, d)"
    by (auto simp: completed_login_def service_account_def returns_simps in_db_def split: prod.splits)
  from account_Get_returns [OF d(4)] obtain row where
    row: "row_get ar_id (re_AccountID result) (db_accounts (env_db e1)) = Some row" "account_scan (sv_accounts sv) row = Inr a" by blast
  have "acc_ID a = re_AccountID result" using account_scan_fields [OF row(2)] row_get_SomeD [OF row(1)] by simp
  with Inr lc d row show ?thesis by auto
next
  case (Inl err)
  have "acc_Provider a \<noteq> k" if *: "Lifecycle (sv_registry sv) k k = Some lc" "lc_Complete lc ref code e = Some (Inr result, e1)"
      "rf_Provider ref = k" "re_Provider result = k" "re_AccountID result \<noteq> []"
      "account_Get (sv_accounts sv) (re_AccountID result) (env_db e1) = (Inr a, d)" for lc result e1 a d
  proof
    assume p: "acc_Provider a = k"
    obtain e2 where "account_hooks sv a (acc_ID a) (e1\<lparr>env_db := d\<rparr>) = (Inr (), e2)" using account_hooks_pass by blast
    with * p have "completed_login sv k result e1 = (Inr a, e2)"
      by (simp add: completed_login_def service_account_def monad_simps in_db_def)
    with * assms Inl show False
      by (simp add: CompleteLogin_def completeLogin_def service_lifecycle_def)
  qed
  with Inl show ?thesis by auto
qed


section \<open>Witnesses\<close>

definition sample_service_registry :: "kind \<Rightarrow> 'w login account_lifecycle \<Rightarrow> ('w, unit, unit, unit) account_registry" where
  "sample_service_registry k lc = Some [(k, k) \<mapsto> empty_capabilities\<lparr>cap_Lifecycle := Some lc\<rparr>]"

definition sample_service :: "account_repository \<Rightarrow> kind \<Rightarrow> 'w login account_lifecycle \<Rightarrow> ('w, unit, unit, unit) account_service" where
  "sample_service ra k lc = \<lparr>sv_accounts = ra, sv_registry = sample_service_registry k lc, sv_capabilities = None, sv_usage = None\<rparr>"

lemma sample_service_lifecycle: "Lifecycle (sv_registry (sample_service ra k lc)) k k = Some lc"
  by (simp add: sample_service_def sample_service_registry_def Lifecycle_def Capabilities_def)

theorem service_runs_lifecycles_witness:
  "StartLogin (sample_service grok_repo XAI (xai_account_lifecycle grok_lifecycle)) XAI = xai_Start grok_lifecycle"
  using service_runs_lifecycles [OF sample_service_lifecycle [of sample_accounts Devin "devin_lifecycle sample_devin_login (\<lambda>_. Inr [])"]
      sample_service_lifecycle [of grok_repo XAI "xai_account_lifecycle grok_lifecycle"], of "[]"] by (elim conjE)

definition sample_callback_service :: "(unit \<times> (string \<times> string) list, unit, unit, unit) account_service" where
  "sample_callback_service = sample_service (vl_accounts sample_devin_login) Devin (devin_lifecycle sample_devin_login (\<lambda>_. Inr []))"

lemma sample_callback_run:
  "case CompleteLogin sample_callback_service Devin sample_callback_ref ''code'' sample_login_state of
     Some (Inr a, e') \<Rightarrow> acc_ID a = ''acct_78'' | _ \<Rightarrow> False"
  by code_simp

theorem completed_login_is_own_account_witness:
  "\<exists>a e'. CompleteLogin sample_callback_service Devin sample_callback_ref ''code'' sample_login_state = Some (Inr a, e') \<and>
     acc_Provider a = Devin \<and> acc_ID a = ''acct_78''"
proof -
  obtain a e' where run: "CompleteLogin sample_callback_service Devin sample_callback_ref ''code'' sample_login_state = Some (Inr a, e')"
      "acc_ID a = ''acct_78''"
    using sample_callback_run by (auto split: option.splits sum.splits prod.splits)
  with completed_login_is_own_account [OF run(1)] show ?thesis by auto
qed

end
