(* ===== verification/Spec2Isabelle.thy ===== *)
theory Spec2Isabelle
  imports Provider_Catalog Throttle_Ladder OAuth_Flow Routed_Stream Translate_Registry Api_Gate Devin_Provider Xai_Client Account_Service
begin

text \<open>
  BYOS is a gateway that serves OpenAI- and Anthropic-compatible HTTP APIs from subscription
  accounts of several upstream providers (xAI and Devin). Client requests are authenticated by API
  keys, translated to one canonical request format, routed to an account that can serve the model,
  with failover and cooldowns, and the upstream answer is translated back. Accounts are added by OAuth
  logins in a web console that is protected by an administrator password behind a throttle. All
  state is in one SQLite database; secrets in it are encrypted.

  \<^bold>\<open>Modelling.\<close> A Go function is a HOL function with the same name, prefixed by its
  type where names clash (\<open>cooldown_Apply\<close> is \<open>CooldownManager.Apply\<close>). Fallible code returns
  \<open>go_error + 'a\<close>; stateful code is an operation \<open>('s, 'e, 'a) op\<close>, a function from the state to
  the result and the state, sequenced by \<open>andThen\<close> (\<open>Go_Prelude\<close>). The state of a repository
  operation is the database, a record with one list of rows per table and the driver's coming
  faults: every statement, scan, begin and commit can fail, and a failed transaction restores the
  tables (\<open>Store_DB\<close>). Concurrent components are split at their mutexes and run in every
  interleaving. Times are nanoseconds, Unix times seconds, as integers. Integers are unbounded
  where the code cannot come near the bounds of \<open>int64\<close>; the scheduler's cursors are 64-bit words
  and token counts wrap.

  Code outside the repository is a parameter: SHA-256, HMAC, HKDF, AES-GCM and randomness
  (\<open>Envelope\<close>), the JSON codec (\<open>OAuth_Payload\<close>, \<open>Translate_Common\<close>), the providers' network
  calls (\<open>Executor\<close>, \<open>Routed_Stream\<close>), the clock and the database driver's faults. What a
  theorem needs of them is a named hypothesis; its witness instantiates them.

  \<^bold>\<open>Shared theories.\<close>

  \<^item> \<open>Go_Prelude\<close>: times, strings, operations, the predicate \<open>keeps\<close> (an operation respects a
    transitive relation on states, with one rule per construct, collected in \<open>keeps_intros\<close>), the
    \<open>returns_simps\<close> that take a successful run apart, and tables as lists of rows.
  \<^item> \<open>Json\<close>: the dynamic values of \<open>encoding/json\<close>.
  \<^item> \<open>Store_DB\<close>: tables (\<open>migrations/\<close>), statements, scans and transactions.
  \<^item> \<open>Moving_Table\<close>: the locale of a table whose rows keep their position and move along a relation;
    interpreted for OAuth sessions and for API keys.

  \<^bold>\<open>Components.\<close> Sources are under \<open>src/internal\<close>.

  \<^item> \<open>Provider_Types\<close>, \<open>Provider_Catalog\<close>: kinds and error classes (\<open>provider/provider.go\<close>), the model
    catalog (\<open>provider/catalog.go\<close>) and the capability registries (\<open>provider/registry.go\<close>,
    \<open>provider/credential_usability_registry.go\<close>). The constructors accept exactly the lists of their
    declarative specifications and lookups return what was registered.
  \<^item> \<open>Throttle\<close>, \<open>Throttle_Ladder\<close>: \<open>auththrottle/policy.go\<close>, \<open>auththrottle/guard.go\<close>,
    \<open>store/admin_auth_throttle.go\<close>. Over every run of attempts and retention sweeps: how often a source
    can have a password evaluated, that blocked sources are not evaluated, the global breaker, and
    the shape of the rows under every driver fault.
  \<^item> \<open>Envelope\<close>: \<open>crypto/envelope.go\<close>, \<open>crypto/keys.go\<close> with base64; envelopes round trip and MAC inputs
    identify what they are made of.
  \<^item> \<open>Store_Accounts\<close>, \<open>Store_Cooldowns\<close>, \<open>Store_Models\<close>: \<open>store/accounts.go\<close>; \<open>store/cooldowns.go\<close> with
    \<open>routing/cooldown.go\<close>; \<open>store/model_capabilities.go\<close> with \<open>store/local_usage.go\<close>. Table invariants
    kept by every operation, reads after writes, the rate-limit ladder, isolation of accounts.
  \<^item> \<open>OAuth_Payload\<close>, \<open>OAuth_Sessions\<close>, \<open>OAuth_Flow\<close>: \<open>store/oauth_sessions.go\<close> and the Devin transaction
    of \<open>store/sqlite.go\<close>. The stored sessions refine the machine pending, authorized, consumed and the
    terminal statuses over every sequence of operations; callbacks are consumed once, ended sessions
    hold no secrets, the Devin login is atomic.
  \<^item> \<open>Store_Keys\<close>: \<open>store/api_keys.go\<close>, \<open>accounts/apikeys.go\<close>, \<open>store/admin_sessions.go\<close>. Created keys
    authenticate until they are revoked and never after; admin sessions live from creation to expiry or revocation.
  \<^item> \<open>Scheduler\<close>, \<open>Executor\<close>, \<open>Routed_Stream\<close>: \<open>routing/scheduler.go\<close>, \<open>routing/execute.go\<close>,
    \<open>routing/stream.go\<close>. Orders are permutations of the eligible accounts; an eligible preferred account comes
    first, and otherwise every eligible one in turn, also when the 64-bit cursor wraps; an
    execution stays with the resolved provider and model, terminates within two generations per
    candidate and accounts for every failure; a stream records usage exactly once in every
    interleaving of \<open>Next\<close> and \<open>Close\<close>.
  \<^item> \<open>Search_Inject\<close>: \<open>search/inject.go\<close>, equivalent to a declarative specification.
  \<^item> \<open>Translate_Common\<close>, \<open>Translate_Requests\<close>, \<open>Translate_Chat\<close>, \<open>Translate_Anthropic\<close>,
    \<open>Translate_Registry\<close>: \<open>translate/\<close>. Accepted requests become canonical ones that take the search tool;
    tool names round trip; streamed chat tool calls are numbered consistently; streamed Anthropic
    blocks are well formed unless tool calls and text overlap, and a tool call announced inside another
    block breaks the message whatever follows.
  \<^item> \<open>Stored_Responses\<close>: \<open>store/responses.go\<close>, \<open>sessions/reconstruct.go\<close>, \<open>sessions/service.go\<close>. Stored
    answers extend the history they continue; prepared requests are self-contained and bounded;
    without items their input is \<open>null\<close>.
  \<^item> \<open>Request_Source\<close>, \<open>Api_Gate\<close>: \<open>requestsource/source.go\<close>; \<open>api/middleware/\<close>, \<open>api/errors/\<close>. Client
    addresses cannot be forged through trusted proxies; what passes the client and admin gates, and when
    the administrator's token is looked at.
  \<^item> \<open>Devin_Proto\<close>: the wire messages of \<open>devin/proto/proto.go\<close> over \<open>protowire\<close>, a parameter with stated laws.
    Messages round trip and every byte string is decoded in finitely many steps.
  \<^item> \<open>Devin_Mapper\<close>: \<open>devin/stream_mapper.go\<close>. The terminal event of a mapped answer holds exactly what was streamed.
  \<^item> \<open>Devin_Request\<close>, \<open>Devin_Client\<close>: \<open>devin/chat_builder.go\<close>; \<open>devin/session.go\<close>, \<open>devin/trust.go\<close>,
    \<open>devin/client.go\<close>. Built requests say what was asked; connections go to public addresses only; a
    client is hardened whatever it is made of.
  \<^item> \<open>Devin_Trailers\<close>, \<open>Devin_Stream\<close>: \<open>devin/stream_client.go\<close>. The index-based scanners of raw JSON agree with
    grammars; a stream of envelopes yields exactly the events of the declarative protocol, and ends
    cleanly only with a complete answer; credentials stay with trusted origins.
  \<^item> \<open>Devin_Provider\<close>: \<open>devin/provider_generation.go\<close>, \<open>devin/provider_policy.go\<close>. Executing is streaming to the end
    within the limit; every failure is classified, a request the encoder refuses as one of the upstream.
  \<^item> \<open>Xai_Sse\<close>, \<open>Xai_Client\<close>: \<open>xai/\<close>. Written events are read back; an execution returns the answer up to its
    terminal event, a stream replays the event it has checked; requests say what was asked; how failures
    and \<open>Retry-After\<close> become cooldowns.
  \<^item> \<open>Lifecycle_Types\<close>: the authorizations of \<open>provider/provider.go\<close> and the state of a login, the database, the
    clock, numbered drawings of randomness and the outside world.
  \<^item> \<open>Devin_OAuth\<close>, \<open>Devin_Login\<close>: \<open>oauth/devin/\<close>. Callbacks are read back and nothing else is accepted; over every
    sequence of operations a code is exchanged at most once; a login stores an account and completes its session,
    or changes no account; expired credentials are withheld and their account is taken out of service.
  \<^item> \<open>Xai_OAuth\<close>, \<open>Xai_Lifecycle\<close>: \<open>oauth/xai/\<close>. Discovered endpoints are on x.ai and
    overlapping discoveries of one client agree; polling returns, with a bound on
    its requests; a login stores the verified identity; refreshing rotates the stored tokens and a revoked
    refresh token disables the account.
  \<^item> \<open>Account_Service\<close>: \<open>accounts/service.go\<close>, \<open>accounts/refresh_worker.go\<close>, over registered lifecycles. The locale
    \<open>own_provider\<close> is what the service expects of a lifecycle; both lifecycles meet it, so the service is
    transparent; a completed login is the stored account that the lifecycle reported.

  \<^bold>\<open>Loops.\<close> All loops are structural recursions over the data they consume, but the pump of
  \<open>Translate_Anthropic\<close> (its queue shrinks), whitespace trimming (the string shrinks), the scanners of
  \<open>Devin_Trailers\<close> (their index grows) and the reading loops of \<open>Devin_Stream\<close>, \<open>Devin_Provider\<close>, \<open>Xai_Sse\<close>
  and \<open>Xai_Client\<close> (what they read shortens the body), which have measures. The field loops of \<open>Devin_Proto\<close> depend on a parameter, are
  \<open>partial_function\<close>s and are proved to return; so is \<open>poll_loop\<close> of \<open>Xai_OAuth\<close>, which waits for a user and is proved
  to return within 361 exchanges when the clock does not run backwards and waits last. No fuel is used, except that \<open>drain\<close> reads a stream a
  given number of times and its theorems say that enough reads exist.

  \<^bold>\<open>Not modelled.\<close> HTTP handlers and HTML rendering (\<open>api/\<close> but its gates and errors, \<open>web/\<close>),
  process wiring (\<open>app/\<close>, \<open>cmd/\<close>), configuration parsing, schema migration, usage snapshots, model
  discovery, the workers for models, usage and cleanup, and token counting, which rests on an external
  tokenizer. Of the OAuth clients, the flights that concurrent callers share and the transport settings.
\<close>

end
